(* ===== verification/Prelude.thy ===== *)
theory Prelude
  imports Main "HOL-Library.Word" "HOL-Library.AList" "HOL-Library.Multiset"
begin

text \<open>
  Shared vocabulary of the development: the Go machine types, the result type of code that
  may panic, Go maps as association lists, big-endian encodings, and the generic facts on
  lists and words that the component theories use.
\<close>

named_theorems go_simps \<open>rewrite rules that evaluate the panic-or-value monad\<close>
named_theorems goP_intros \<open>rules that decompose a claim about the value of a computation\<close>

section \<open>Machine types\<close>

type_synonym u8 = "8 word"
type_synonym u32 = "32 word"
type_synonym u64 = "64 word"
type_synonym bytes = "u8 list"

text \<open>\<open>commontypes.OracleID\<close> is a \<open>uint8\<close>; Go's \<open>int\<close> is modelled as \<open>int\<close>.\<close>

type_synonym OracleID = u8

section \<open>Computations that may panic\<close>

text \<open>
  A Go function either returns or panics (nil dereference, index out of range, an explicit
  \<open>panic\<close>). \<open>Inl\<close> carries the panic, \<open>Inr\<close> the result; \<open>bindG\<close> sequences two calls.
  The same sum carries a Go \<open>error\<close> result where a function returns one.
\<close>

datatype go_panic =
    NilDereference
  | IndexOutOfRange
  | DivideByZero
  | ExplicitPanic
  | NoReturn  \<comment> \<open>not a panic: the call never returns\<close>

type_synonym 'a go = "go_panic + 'a"

definition bindG :: "'e + 'a \<Rightarrow> ('a \<Rightarrow> 'e + 'b) \<Rightarrow> 'e + 'b" where
  "bindG m f = (case m of Inl p \<Rightarrow> Inl p | Inr x \<Rightarrow> f x)"

lemma bindG_simps [simp, go_simps]:
  "bindG (Inl p) f = Inl p"
  "bindG (Inr x) f = f x"
  by (simp_all add: bindG_def)

lemma bindG_Inr_right [simp]: "bindG m Inr = m"
  by (cases m) simp_all

lemma bindG_assoc: "bindG (bindG m f) g = bindG m (\<lambda>x. bindG (f x) g)"
  by (cases m) simp_all

lemma bindG_eq_Inr_iff: "bindG m f = Inr y \<longleftrightarrow> (\<exists>x. m = Inr x \<and> f x = Inr y)"
  by (cases m) simp_all

lemma bindG_InrE: "bindG m f = Inr y \<Longrightarrow> (\<And>x. m = Inr x \<Longrightarrow> f x = Inr y \<Longrightarrow> P) \<Longrightarrow> P"
  by (cases m) simp_all

lemma bindG_cong [fundef_cong]:
  "m = m' \<Longrightarrow> (\<And>x. m' = Inr x \<Longrightarrow> f x = g x) \<Longrightarrow> bindG m f = bindG m' g"
  by (cases m') simp_all

text \<open>\<open>goP P m\<close>: whenever \<open>m\<close> returns a value, the value satisfies \<open>P\<close>.
  \<open>goT P m\<close>: \<open>m\<close> returns a value (it does not panic) and the value satisfies \<open>P\<close>.\<close>

definition goP :: "('a \<Rightarrow> bool) \<Rightarrow> 'a go \<Rightarrow> bool" where
  "goP P m = (case m of Inl _ \<Rightarrow> True | Inr x \<Rightarrow> P x)"

definition goT :: "('a \<Rightarrow> bool) \<Rightarrow> 'a go \<Rightarrow> bool" where
  "goT P m = (case m of Inl _ \<Rightarrow> False | Inr x \<Rightarrow> P x)"

lemma goP_simps [simp]: "goP P (Inl p)" "goP P (Inr x) = P x"
  by (simp_all add: goP_def)

lemma goT_simps [simp]: "\<not> goT P (Inl p)" "goT P (Inr x) = P x"
  by (simp_all add: goT_def)

lemma goP_bind [goP_intros]: "goP (\<lambda>x. goP P (f x)) m \<Longrightarrow> goP P (bindG m f)"
  by (cases m) simp_all

lemma goP_bindI: "goP Q m \<Longrightarrow> (\<And>x. Q x \<Longrightarrow> goP P (f x)) \<Longrightarrow> goP P (bindG m f)"
  by (cases m) simp_all

lemma goP_mono: "goP Q m \<Longrightarrow> (\<And>x. Q x \<Longrightarrow> P x) \<Longrightarrow> goP P m"
  by (cases m) simp_all

lemma goP_conj: "goP P m \<Longrightarrow> goP Q m \<Longrightarrow> goP (\<lambda>x. P x \<and> Q x) m"
  by (cases m) simp_all

lemma goP_if [goP_intros]:
  "(b \<Longrightarrow> goP P m) \<Longrightarrow> (\<not> b \<Longrightarrow> goP P n) \<Longrightarrow> goP P (if b then m else n)"
  by simp

lemma goP_D: "goP P m \<Longrightarrow> m = Inr x \<Longrightarrow> P x"
  by simp

lemma goT_iff: "goT P m \<longleftrightarrow> (\<exists>x. m = Inr x \<and> P x)"
  by (cases m) simp_all

lemma goT_bindI: "goT Q m \<Longrightarrow> (\<And>x. Q x \<Longrightarrow> goT P (f x)) \<Longrightarrow> goT P (bindG m f)"
  by (cases m) simp_all

lemma goT_mono: "goT Q m \<Longrightarrow> (\<And>x. Q x \<Longrightarrow> P x) \<Longrightarrow> goT P m"
  by (cases m) simp_all

text \<open>Slice indexing panics out of range; a nil pointer panics when dereferenced. A loop that
  may run forever is a partial function into \<open>option\<close>; \<open>go_loop\<close> calls it.\<close>

definition go_index :: "'a list \<Rightarrow> nat \<Rightarrow> 'a go" where
  "go_index xs i = (if i < length xs then Inr (xs ! i) else Inl IndexOutOfRange)"

definition go_index_int :: "'a list \<Rightarrow> int \<Rightarrow> 'a go" where
  "go_index_int xs i = (if 0 \<le> i then go_index xs (nat i) else Inl IndexOutOfRange)"

definition go_loop :: "'a option \<Rightarrow> 'a go" where
  "go_loop r = (case r of None \<Rightarrow> Inl NoReturn | Some x \<Rightarrow> Inr x)"

definition go_deref :: "'a option \<Rightarrow> 'a go" where
  "go_deref p = (case p of None \<Rightarrow> Inl NilDereference | Some x \<Rightarrow> Inr x)"

lemma go_deref_simps [simp, go_simps]:
  "go_deref None = Inl NilDereference" "go_deref (Some x) = Inr x"
  by (simp_all add: go_deref_def)

lemma go_loop_simps [simp, go_simps]:
  "go_loop None = Inl NoReturn" "go_loop (Some x) = Inr x"
  by (simp_all add: go_loop_def)

lemma go_deref_eq_Inr [simp]: "go_deref p = Inr x \<longleftrightarrow> p = Some x"
  by (cases p) simp_all

lemma go_index_eq_Inr: "go_index xs i = Inr x \<longleftrightarrow> i < length xs \<and> xs ! i = x"
  by (auto simp: go_index_def)

lemma go_index_in [simp]: "i < length xs \<Longrightarrow> go_index xs i = Inr (xs ! i)"
  by (simp add: go_index_def)

lemma go_index_int_in [simp]: "0 \<le> i \<Longrightarrow> nat i < length xs \<Longrightarrow> go_index_int xs i = Inr (xs ! nat i)"
  by (simp add: go_index_int_def)

text \<open>Timer channels: \<open>nil\<close>, armed by \<open>time.After\<close>, or already received from.\<close>

datatype 'd timer = TNil | TArmed 'd | TFired

section \<open>Go maps\<close>

text \<open>
  A Go map is an association list with distinct keys: \<open>m[k]\<close> is \<open>map_of m k\<close>,
  \<open>m[k] = v\<close> is \<open>AList.update k v m\<close>, \<open>delete(m, k)\<close> is \<open>AList.delete k m\<close>,
  \<open>len(m)\<close> is \<open>length m\<close>. The order of the list carries no meaning: wherever the code
  ranges over a map, the model takes the visiting order from the environment.
\<close>

type_synonym ('k, 'v) gomap = "('k \<times> 'v) list"

definition map_ok :: "('k, 'v) gomap \<Rightarrow> bool" where
  "map_ok m = distinct (map fst m)"

lemma map_ok_Nil [simp]: "map_ok []"
  by (simp add: map_ok_def)

lemma map_ok_update [simp]: "map_ok m \<Longrightarrow> map_ok (AList.update k v m)"
  by (simp add: map_ok_def distinct_update)

lemma map_ok_delete [simp]: "map_ok m \<Longrightarrow> map_ok (AList.delete k m)"
  by (simp add: map_ok_def distinct_delete)

lemma map_ok_filter [simp]: "map_ok m \<Longrightarrow> map_ok (filter P m)"
  by (simp add: map_ok_def distinct_map_filter)

lemma map_of_update [simp]: "map_of (AList.update k v m) = (map_of m)(k \<mapsto> v)"
  by (rule update_conv')

lemma map_of_delete: "map_of (AList.delete k m) = (map_of m)(k := None)"
  by (rule delete_conv')

lemma map_ok_in_iff: "map_ok m \<Longrightarrow> (k, v) \<in> set m \<longleftrightarrow> map_of m k = Some v"
  by (simp add: map_ok_def)

lemma map_ok_finite_dom [simp]: "finite (dom (map_of m))"
  by (rule finite_dom_map_of)

lemma length_map_ok: "map_ok m \<Longrightarrow> length m = card (dom (map_of m))"
  by (simp add: map_ok_def dom_map_of_conv_image_fst distinct_card flip: set_map)

lemma map_of_filter_key:
  "map_of (filter (\<lambda>(k, v). P k) m) k = (if P k then map_of m k else None)"
  by (induction m) auto

lemma update_new_length:
  "map_of m k = None \<Longrightarrow> length (AList.update k v m) = Suc (length m)"
  by (induction m) (auto split: if_splits)

lemma update_old_length:
  "map_of m k \<noteq> None \<Longrightarrow> length (AList.update k v m) = length m"
  by (induction m) (auto split: if_splits)

lemma update_fresh: "map_of m k = None \<Longrightarrow> AList.update k v m = m @ [(k, v)]"
  by (induction m) (auto split: if_splits)

lemma mset_update_old:
  "map_ok m \<Longrightarrow> map_of m k = Some s \<Longrightarrow> add_mset (k, s) (mset (AList.update k v m)) = add_mset (k, v) (mset m)"
  by (induction m) (auto simp: map_ok_def split: if_splits)

lemma mset_delete_old:
  "map_ok m \<Longrightarrow> map_of m k = Some s \<Longrightarrow> add_mset (k, s) (mset (AList.delete k m)) = mset m"
proof (induction m)
  case (Cons a m)
  obtain k' v' where a: "a = (k', v')" by (cases a)
  show ?case
  proof (cases "k' = k")
    case True
    then have "AList.delete k m = m" using Cons.prems(1) a by (simp add: map_ok_def delete_idem)
    then show ?thesis using True Cons.prems a by simp
  next
    case False
    then have "add_mset (k, s) (mset (AList.delete k m)) = mset m" using Cons a by (auto simp: map_ok_def)
    then show ?thesis using False a by (simp add: add_mset_commute)
  qed
qed simp

lemma map_of_map_value: "map_of (map (\<lambda>(k, v). (k, f v)) m) k = map_option f (map_of m k)"
  by (induction m) auto

section \<open>Iteration over maps\<close>

text \<open>
  Go visits the keys of a map in an unspecified order. An order is legal for a list of keys
  when it is a permutation of it.
\<close>

definition legal_order :: "(nat \<Rightarrow> 'k list \<Rightarrow> 'k list) \<Rightarrow> bool" where
  "legal_order ord = (\<forall>k ks. mset (ord k ks) = mset ks)"

lemma legal_order_set: "legal_order ord \<Longrightarrow> set (ord k ks) = set ks"
  by (metis legal_order_def mset_eq_setD)

lemma legal_order_distinct: "legal_order ord \<Longrightarrow> distinct (ord k ks) = distinct ks"
  by (metis legal_order_def mset_eq_imp_distinct_iff)

lemma legal_order_length: "legal_order ord \<Longrightarrow> length (ord k ks) = length ks"
  by (metis legal_order_def mset_eq_length)

lemma legal_order_id: "legal_order (\<lambda>_ ks. ks)"
  by (simp add: legal_order_def)

section \<open>Encodings\<close>

text \<open>\<open>binary.BigEndian\<close> for 64 and 32 bit unsigned integers.\<close>

definition be64 :: "u64 \<Rightarrow> bytes" where
  "be64 x = map (\<lambda>k. ucast (drop_bit (8 * k) x)) [7, 6, 5, 4, 3, 2, 1, 0]"

definition be32 :: "u32 \<Rightarrow> bytes" where
  "be32 x = map (\<lambda>k. ucast (drop_bit (8 * k) x)) [3, 2, 1, 0]"

definition decode_be32 :: "bytes \<Rightarrow> u32" where
  "decode_be32 bs = foldl (\<lambda>a b. push_bit 8 a + ucast b) 0 bs"

lemma length_be64 [simp]: "length (be64 x) = 8"
  by (simp add: be64_def)

lemma length_be32 [simp]: "length (be32 x) = 4"
  by (simp add: be32_def)

lemma be64_byte: "k < 8 \<Longrightarrow> be64 x ! (7 - k) = ucast (drop_bit (8 * k) x)"
proof -
  assume "k < 8"
  then have "k \<in> {0, 1, 2, 3, 4, 5, 6, 7}" by auto
  then show ?thesis by (auto simp: be64_def)
qed

lemma be64_inj: "be64 x = be64 y \<Longrightarrow> x = y"
proof (rule bit_word_eqI)
  fix n assume eq: "be64 x = be64 y" and "n < LENGTH(64)"
  then have n: "n div 8 < 8" "8 * (n div 8) + n mod 8 = n" by auto
  from eq have "(ucast (drop_bit (8 * (n div 8)) x) :: u8) = ucast (drop_bit (8 * (n div 8)) y)"
    using be64_byte [OF n(1)] by metis
  then have "bit (ucast (drop_bit (8 * (n div 8)) x) :: u8) (n mod 8)
           = bit (ucast (drop_bit (8 * (n div 8)) y) :: u8) (n mod 8)"
    by simp
  then show "bit x n = bit y n"
    using n by (simp add: bit_ucast_iff bit_drop_bit_eq)
qed

lemma be64_eq_iff [simp]: "be64 x = be64 y \<longleftrightarrow> x = y"
  using be64_inj by blast

text \<open>The bytes of an ASCII literal.\<close>

definition ascii :: "string \<Rightarrow> bytes" where
  "ascii s = map of_char s"

lemma length_ascii [simp]: "length (ascii s) = length s"
  by (simp add: ascii_def)

text \<open>\<open>copy(dst[:], src)\<close> into a fresh array of \<open>n\<close> bytes.\<close>

definition go_copy :: "nat \<Rightarrow> bytes \<Rightarrow> bytes" where
  "go_copy n src = take n src @ replicate (n - length src) 0"

lemma length_go_copy [simp]: "length (go_copy n src) = n"
  by (simp add: go_copy_def)

lemma go_copy_exact [simp]: "length src = n \<Longrightarrow> go_copy n src = src"
  by (simp add: go_copy_def)

section \<open>Lists\<close>

text \<open>The first \<open>k\<close> elements of the list that satisfy a condition, as a loop with a break.\<close>

fun take_filter :: "nat \<Rightarrow> ('a \<Rightarrow> bool) \<Rightarrow> 'a list \<Rightarrow> 'a list" where
  "take_filter 0 P xs = []"
| "take_filter (Suc k) P [] = []"
| "take_filter (Suc k) P (x # xs) =
     (if P x then x # take_filter k P xs else take_filter (Suc k) P xs)"

lemma take_filter_eq: "take_filter k P xs = take k (filter P xs)"
  by (induction k P xs rule: take_filter.induct) auto

lemma append_eq_same_length:
  "length xs = length ys \<Longrightarrow> xs @ us = ys @ vs \<longleftrightarrow> xs = ys \<and> us = vs"
  by simp

lemma sorted_nth_count_ge:
  fixes xs :: "'a::linorder list"
  assumes "sorted xs" and "i < length xs"
  shows "length xs - i \<le> length (filter (\<lambda>x. xs ! i \<le> x) xs)"
proof -
  have "filter (\<lambda>x. xs ! i \<le> x) (drop i xs) = drop i xs"
  proof (rule filter_True, rule ballI)
    fix x assume "x \<in> set (drop i xs)"
    then obtain j where "j < length xs - i" "x = xs ! (i + j)"
      by (auto simp: in_set_conv_nth)
    then show "xs ! i \<le> x"
      using assms by (auto intro: sorted_nth_mono)
  qed
  then have "length xs - i = length (filter (\<lambda>x. xs ! i \<le> x) (drop i xs))"
    by simp
  also have "\<dots> \<le> length (filter (\<lambda>x. xs ! i \<le> x) (take i xs))
                   + length (filter (\<lambda>x. xs ! i \<le> x) (drop i xs))"
    by simp
  also have "\<dots> = length (filter (\<lambda>x. xs ! i \<le> x) xs)"
    by (metis append_take_drop_id filter_append length_append)
  finally show ?thesis .
qed

section \<open>Oracle identifiers\<close>

text \<open>Positions of a list with at most 256 entries correspond to oracle identifiers.\<close>

lemma card_oracles:
  fixes xs :: "'a list"
  assumes "length xs \<le> 256"
  shows "card {j :: OracleID. unat j < length xs \<and> P (xs ! unat j)} = length (filter P xs)"
proof -
  let ?I = "{i. i < length xs \<and> P (xs ! i)}"
  have id: "unat (of_nat i :: OracleID) = i" if "i \<in> ?I" for i
    using that assms by (simp add: unat_of_nat)
  have "bij_betw unat {j :: OracleID. unat j < length xs \<and> P (xs ! unat j)} ?I"
    by (rule bij_betw_byWitness [where f' = of_nat]) (auto simp: id)
  then have "card {j :: OracleID. unat j < length xs \<and> P (xs ! unat j)} = card ?I"
    by (rule bij_betw_same_card)
  then show ?thesis
    by (simp only: length_filter_conv_card)
qed

lemma card_all_oracles: "n \<le> 256 \<Longrightarrow> card {j :: OracleID. unat j < n} = n"
  using card_oracles [of "replicate n ()" "\<lambda>_. True"] by simp

end
