(* ===== verification/ByzQuorum.thy ===== *)
theory ByzQuorum
  imports Prelude "HOL-Library.Signed_Division"
begin

text \<open>
  The Byzantine quorum size of \<open>internal/byzquorum/byzquorum.go\<close> and the interface the
  protocols rely on: two quorums share a correct oracle, and the correct oracles alone
  form a quorum.
\<close>

text \<open>Go's integer division truncates towards zero: \<open>sdiv\<close>.\<close>

definition byzquorum_Size :: "int \<Rightarrow> int \<Rightarrow> int" where
  "byzquorum_Size n f = (n + f) sdiv 2 + 1"

lemma sdiv_nonneg: "0 \<le> a \<Longrightarrow> 0 < b \<Longrightarrow> (a::int) sdiv b = a div b"
  by (simp add: signed_divide_int_def sgn_if)

lemma byzquorum_Size_div: "0 \<le> n + f \<Longrightarrow> byzquorum_Size n f = (n + f) div 2 + 1"
  by (simp add: byzquorum_Size_def sdiv_nonneg)

section \<open>The quorum interface\<close>

text \<open>
  \<open>size n f\<close> is a Byzantine quorum size when twice a quorum exceeds \<open>n + f\<close> (so that
  two quorums overlap in more than \<open>f\<close> oracles) and a quorum needs only the \<open>n - f\<close>
  oracles that are correct.
\<close>

locale byz_quorum =
  fixes size :: "int \<Rightarrow> int \<Rightarrow> int"
  assumes overlap: "0 \<le> f \<Longrightarrow> 3 * f < n \<Longrightarrow> n + f < 2 * size n f"
    and available: "0 \<le> f \<Longrightarrow> 3 * f < n \<Longrightarrow> size n f \<le> n - f"
begin

lemma size_pos: "0 \<le> f \<Longrightarrow> 3 * f < n \<Longrightarrow> 0 < size n f"
  using overlap [of f n] by linarith

lemma size_gt_2f: "0 \<le> f \<Longrightarrow> 3 * f < n \<Longrightarrow> 2 * f < size n f"
  using overlap [of f n] by linarith

text \<open>Two quorums out of \<open>n\<close> oracles, at most \<open>f\<close> of them faulty, share a correct one.\<close>

lemma common_correct:
  assumes f: "0 \<le> f" "3 * f < n"
    and P: "finite P" "int (card P) = n"
    and Q: "Q1 \<subseteq> P" "Q2 \<subseteq> P" "size n f \<le> int (card Q1)" "size n f \<le> int (card Q2)"
    and bad: "bad \<subseteq> P" "int (card bad) \<le> f"
  shows "\<exists>p \<in> Q1 \<inter> Q2. p \<notin> bad"
proof -
  have fin: "finite Q1" "finite Q2"
    using P(1) Q(1,2) by (auto intro: finite_subset)
  have "card (Q1 \<union> Q2) \<le> card P"
    using P(1) Q(1,2) by (intro card_mono) auto
  moreover have "card Q1 + card Q2 = card (Q1 \<union> Q2) + card (Q1 \<inter> Q2)"
    using fin by (rule card_Un_Int)
  ultimately have "int (card Q1) + int (card Q2) \<le> n + int (card (Q1 \<inter> Q2))"
    using P(2) by linarith
  with Q(3,4) overlap [OF f] bad(2) have "card bad < card (Q1 \<inter> Q2)"
    by linarith
  then have "\<not> Q1 \<inter> Q2 \<subseteq> bad"
    using finite_subset [OF bad(1) P(1)] by (meson card_mono not_less)
  then show ?thesis by blast
qed

text \<open>A quorum contains more than \<open>f\<close> correct oracles.\<close>

lemma correct_in_quorum:
  assumes f: "0 \<le> f" "3 * f < n"
    and Q: "finite Q" "size n f \<le> int (card Q)"
    and bad: "finite bad" "int (card bad) \<le> f"
  shows "f < int (card (Q - bad))"
proof -
  have "card Q - card bad \<le> card (Q - bad)"
    using bad(1) by (rule diff_card_le_card_Diff)
  with Q(2) bad(2) size_gt_2f [OF f] show ?thesis by linarith
qed

end

interpretation bq: byz_quorum byzquorum_Size
proof unfold_locales
  fix f n :: int
  assume f: "0 \<le> f" "3 * f < n"
  have size: "byzquorum_Size n f = (n + f) div 2 + 1"
    using f by (simp add: byzquorum_Size_div)
  show "n + f < 2 * byzquorum_Size n f"
    unfolding size by presburger
  show "byzquorum_Size n f \<le> n - f"
    unfolding size using f by presburger
qed

end
