(* ===== verification/Crypto.thy ===== *)
theory Crypto
  imports Prelude
begin

text \<open>
  The cryptography of Go's standard library that the protocols use. SHA-256 and the Ed25519
  verification are parameters (a record of functions); HMAC, which the code composes from
  SHA-256 with \<open>hmac.New(sha256.New, key)\<close>, is defined from it as RFC 2104 does.
\<close>

record crypto =
  sha256 :: "bytes \<Rightarrow> bytes"
  ed25519_Verify :: "bytes \<Rightarrow> bytes \<Rightarrow> bytes \<Rightarrow> bool"

definition ed25519_PublicKeySize :: nat where "ed25519_PublicKeySize = 32"

definition ed25519_SignatureSize :: nat where "ed25519_SignatureSize = 64"

definition hmac_block :: "crypto \<Rightarrow> bytes \<Rightarrow> bytes" where
  "hmac_block C key =
     (let k = (if length key > 64 then sha256 C key else key)
      in k @ replicate (64 - length k) 0)"

definition hmac_sha256 :: "crypto \<Rightarrow> bytes \<Rightarrow> bytes \<Rightarrow> bytes" where
  "hmac_sha256 C key msg =
     (let k = hmac_block C key;
          inner = sha256 C (map (\<lambda>b. xor b 0x36) k @ msg)
      in sha256 C (map (\<lambda>b. xor b 0x5c) k @ inner))"

text \<open>
  Named hypotheses about the parameters. \<open>collision_free\<close> idealises collision resistance:
  no two byte strings have the same digest.
\<close>

definition collision_free :: "crypto \<Rightarrow> bool" where
  "collision_free C \<longleftrightarrow> inj (sha256 C)"

lemma collision_freeD: "collision_free C \<Longrightarrow> sha256 C x = sha256 C y \<longleftrightarrow> x = y"
  by (simp add: collision_free_def inj_eq)

end
