(* ===== verification/PublicConfig.thy ===== *)
theory PublicConfig
  imports ByzQuorum Crypto
begin

text \<open>
  The protocol configuration of OCR3 (\<open>internal/config/ocr3config\<close>): decoding it from the
  contract's configuration, the validity checks, and the shared configuration with the
  secret-derived keys. \<open>time.Duration\<close> is a signed 64-bit word, read by \<open>sint\<close>.
\<close>

type_synonym Duration = "64 word"

section \<open>Data\<close>

record OracleIdentity =
  oi_OffchainPublicKey :: bytes
  oi_OnchainPublicKey :: bytes
  oi_PeerID :: string
  oi_TransmitAccount :: string

record PublicConfig =
  cfg_DeltaProgress :: Duration
  cfg_DeltaResend :: Duration
  cfg_DeltaInitial :: Duration
  cfg_DeltaRound :: Duration
  cfg_DeltaGrace :: Duration
  cfg_DeltaCertifiedCommitRequest :: Duration
  cfg_DeltaStage :: Duration
  cfg_RMax :: u64
  cfg_S :: "int list"
  cfg_OracleIdentities :: "OracleIdentity list"
  cfg_ReportingPluginConfig :: bytes
  cfg_MaxDurationQuery :: Duration
  cfg_MaxDurationObservation :: Duration
  cfg_MaxDurationShouldAcceptAttestedReport :: Duration
  cfg_MaxDurationShouldTransmitAcceptedReport :: Duration
  cfg_F :: int
  cfg_OnchainConfig :: bytes
  cfg_ConfigDigest :: bytes

text \<open>\<open>SharedConfig\<close> embeds \<open>PublicConfig\<close> and adds the shared secret.\<close>

record SharedConfig = PublicConfig +
  cfg_SharedSecret :: bytes

record SharedSecretEncryptions =
  sse_DiffieHellmanPoint :: bytes
  sse_SharedSecretHash :: bytes
  sse_Encryptions :: "bytes list"

record ContractConfig =
  cc_ConfigDigest :: bytes
  cc_ConfigCount :: u64
  cc_Signers :: "bytes list"
  cc_Transmitters :: "string list"
  cc_F :: u8
  cc_OnchainConfig :: bytes
  cc_OffchainConfigVersion :: u64
  cc_OffchainConfig :: bytes

record offchainConfig =
  oc_DeltaProgress :: Duration
  oc_DeltaResend :: Duration
  oc_DeltaInitial :: Duration
  oc_DeltaRound :: Duration
  oc_DeltaGrace :: Duration
  oc_DeltaCertifiedCommitRequest :: Duration
  oc_DeltaStage :: Duration
  oc_RMax :: u64
  oc_S :: "int list"
  oc_OffchainPublicKeys :: "bytes list"
  oc_PeerIDs :: "string list"
  oc_ReportingPluginConfig :: bytes
  oc_MaxDurationQuery :: Duration
  oc_MaxDurationObservation :: Duration
  oc_MaxDurationShouldAcceptAttestedReport :: Duration
  oc_MaxDurationShouldTransmitAcceptedReport :: Duration
  oc_SharedSecretEncryptions :: SharedSecretEncryptions

section \<open>Derived quantities\<close>

definition cfg_N :: "'a PublicConfig_scheme \<Rightarrow> int" where
  "cfg_N c = int (length (cfg_OracleIdentities c))"

definition ByzQuorumSize :: "'a PublicConfig_scheme \<Rightarrow> int" where
  "ByzQuorumSize c = byzquorum_Size (cfg_N c) (cfg_F c)"

definition MinRoundInterval :: "'a PublicConfig_scheme \<Rightarrow> Duration" where
  "MinRoundInterval c =
     (if sint (cfg_DeltaRound c) > sint (cfg_DeltaGrace c) then cfg_DeltaRound c else cfg_DeltaGrace c)"

definition CheckParameterBounds :: "'a PublicConfig_scheme \<Rightarrow> bool" where
  "CheckParameterBounds c \<longleftrightarrow> \<not> (cfg_F c < 0 \<or> cfg_F c > 255)"

definition LeaderSelectionKey :: "crypto \<Rightarrow> SharedConfig \<Rightarrow> bytes" where
  "LeaderSelectionKey C c =
     go_copy 16 (hmac_sha256 C (cfg_SharedSecret c)
       (ascii ''chainlink offchain reporting v3 leader selection key'' @ cfg_ConfigDigest c))"

definition TransmissionOrderKey :: "crypto \<Rightarrow> SharedConfig \<Rightarrow> bytes" where
  "TransmissionOrderKey C c =
     go_copy 16 (hmac_sha256 C (cfg_SharedSecret c)
       (ascii ''chainlink offchain reporting v3 transmission order key'' @ cfg_ConfigDigest c))"

section \<open>Validity checks\<close>

datatype config_error =
  UnsupportedVersion | OffchainConfigTooLarge | BadProtobuf | BadOffchainPublicKey
| BadDiffieHellmanPoint | BadSharedSecretHash | BadEncryption
| DuplicateSigner | DuplicatePeerID | DuplicateOffchainPublicKey | DuplicateTransmitter
| ListLengthMismatch string
| BadF | TooManyOracles | NegativeDuration string | DeltaRoundTooLarge | SumMaxDurationsTooLarge
| BadRMax | STooLong | BadS nat | ResourceExhaustion string
| KeyMismatch string | OwnKeyNotFound | DecryptFailed

definition MaxOracles :: int where "MaxOracles = 31"

text \<open>The loop \<open>if seen[x] { return err }; seen[x] = ...\<close>.\<close>

fun repeats :: "'a list \<Rightarrow> 'a list \<Rightarrow> bool" where
  "repeats seen [] = False"
| "repeats seen (x # xs) = (if x \<in> set seen then True else repeats (x # seen) xs)"

definition checkIdentityListsHaveNoDuplicates ::
  "ContractConfig \<Rightarrow> offchainConfig \<Rightarrow> config_error option" where
  "checkIdentityListsHaveNoDuplicates change oc =
     (let is = [0..<length (cc_Signers change)]
      in if list_ex (\<lambda>i. list_ex (\<lambda>j. i \<noteq> j \<and> cc_Signers change ! i = cc_Signers change ! j) is) is
         then Some DuplicateSigner
         else if repeats [] (oc_PeerIDs oc) then Some DuplicatePeerID
         else if repeats [] (oc_OffchainPublicKeys oc) then Some DuplicateOffchainPublicKey
         else if repeats [] (cc_Transmitters change) then Some DuplicateTransmitter
         else None)"

definition checkIdentityListsHaveTheSameLength ::
  "ContractConfig \<Rightarrow> offchainConfig \<Rightarrow> config_error option" where
  "checkIdentityListsHaveTheSameLength change oc =
     (let expectedLength = length (cc_Signers change)
      in case find (\<lambda>(len, name). len \<noteq> expectedLength)
                [(length (oc_PeerIDs oc), ''peer ids''),
                 (length (oc_OffchainPublicKeys oc), ''offchain public keys''),
                 (length (cc_Transmitters change), ''transmitters''),
                 (length (sse_Encryptions (oc_SharedSecretEncryptions oc)), ''shared-secret encryptions'')]
         of None \<Rightarrow> None | Some (_, name) \<Rightarrow> Some (ListLengthMismatch name))"

text \<open>The loop over \<open>S\<close>, from index \<open>i\<close>.\<close>

fun check_S :: "nat \<Rightarrow> int list \<Rightarrow> config_error option" where
  "check_S i [] = None"
| "check_S i (s # S) = (if \<not> (0 \<le> s \<and> s \<le> MaxOracles) then Some (BadS i) else check_S (Suc i) S)"

definition checkPublicConfigParameters :: "'a PublicConfig_scheme \<Rightarrow> config_error option" where
  "checkPublicConfigParameters cfg =
     (if \<not> (0 \<le> cfg_F cfg \<and> cfg_F cfg * 3 < cfg_N cfg) then Some BadF
      else if \<not> (cfg_N cfg \<le> MaxOracles) then Some TooManyOracles
      else if \<not> (0 \<le> sint (cfg_DeltaProgress cfg)) then Some (NegativeDuration ''DeltaProgress'')
      else if \<not> (0 \<le> sint (cfg_DeltaResend cfg)) then Some (NegativeDuration ''DeltaResend'')
      else if \<not> (0 \<le> sint (cfg_DeltaInitial cfg)) then Some (NegativeDuration ''DeltaInitial'')
      else if \<not> (0 \<le> sint (cfg_DeltaRound cfg)) then Some (NegativeDuration ''DeltaRound'')
      else if \<not> (0 \<le> sint (cfg_DeltaGrace cfg)) then Some (NegativeDuration ''DeltaGrace'')
      else if \<not> (0 \<le> sint (cfg_DeltaCertifiedCommitRequest cfg))
           then Some (NegativeDuration ''DeltaCertifiedCommitRequest'')
      else if \<not> (0 \<le> sint (cfg_DeltaStage cfg)) then Some (NegativeDuration ''DeltaStage'')
      else if \<not> (0 \<le> sint (cfg_MaxDurationQuery cfg)) then Some (NegativeDuration ''MaxDurationQuery'')
      else if \<not> (0 \<le> sint (cfg_MaxDurationObservation cfg))
           then Some (NegativeDuration ''MaxDurationObservation'')
      else if \<not> (0 \<le> sint (cfg_MaxDurationShouldAcceptAttestedReport cfg))
           then Some (NegativeDuration ''MaxDurationShouldAcceptAttestedReport'')
      else if \<not> (0 \<le> sint (cfg_MaxDurationShouldTransmitAcceptedReport cfg))
           then Some (NegativeDuration ''MaxDurationShouldTransmitAcceptedReport'')
      else if \<not> (sint (cfg_DeltaRound cfg) < sint (cfg_DeltaProgress cfg)) then Some DeltaRoundTooLarge
      else
        let sumMaxDurationsOutcomeGeneration =
              cfg_MaxDurationQuery cfg + cfg_MaxDurationObservation cfg + cfg_DeltaGrace cfg
        in if \<not> (sint sumMaxDurationsOutcomeGeneration < sint (cfg_DeltaProgress cfg))
           then Some SumMaxDurationsTooLarge
           else if \<not> (0 < cfg_RMax cfg) then Some BadRMax
           else if \<not> (length (cfg_S cfg) < 1000) then Some STooLong
           else check_S 0 (cfg_S cfg))"

text \<open>100 milliseconds in nanoseconds.\<close>

definition safeInterval :: Duration where "safeInterval = 100 * 1000 * 1000"

definition checkResourceExhaustion :: "'a PublicConfig_scheme \<Rightarrow> config_error option" where
  "checkResourceExhaustion cfg =
     (if sint (cfg_DeltaProgress cfg) < sint safeInterval then Some (ResourceExhaustion ''DeltaProgress'')
      else if sint (cfg_DeltaResend cfg) < sint safeInterval then Some (ResourceExhaustion ''DeltaResend'')
      else if sint (cfg_DeltaInitial cfg) < sint safeInterval then Some (ResourceExhaustion ''DeltaInitial'')
      else if sint (cfg_DeltaCertifiedCommitRequest cfg) < sint safeInterval
           then Some (ResourceExhaustion ''DeltaCertifiedCommitRequest'')
      else None)"

lemma check_S_None: "check_S i S = None \<longleftrightarrow> (\<forall>s \<in> set S. 0 \<le> s \<and> s \<le> MaxOracles)"
  by (induction S arbitrary: i) auto

text \<open>What an accepted public configuration guarantees the protocols.\<close>

definition cfg_ok :: "'a PublicConfig_scheme \<Rightarrow> bool" where
  "cfg_ok c \<longleftrightarrow>
     0 \<le> cfg_F c \<and> 3 * cfg_F c < cfg_N c \<and> cfg_N c \<le> MaxOracles \<and>
     0 < cfg_RMax c \<and> (\<forall>s \<in> set (cfg_S c). 0 \<le> s \<and> s \<le> MaxOracles) \<and>
     0 \<le> sint (cfg_DeltaRound c) \<and> sint (cfg_DeltaRound c) < sint (cfg_DeltaProgress c)"

lemma checkPublicConfigParameters_ok: "checkPublicConfigParameters c = None \<Longrightarrow> cfg_ok c"
  by (auto simp: checkPublicConfigParameters_def cfg_ok_def Let_def check_S_None word_gt_0
      split: if_splits)

lemma ByzQuorumSize_positive: "cfg_ok c \<Longrightarrow> 0 < ByzQuorumSize c"
  by (simp add: ByzQuorumSize_def cfg_ok_def byzquorum_Size_div)

text \<open>A valid configuration of four oracles, one of which may be faulty.\<close>

definition example_config :: SharedConfig where
  "example_config =
     \<lparr>cfg_DeltaProgress = 3000, cfg_DeltaResend = 200, cfg_DeltaInitial = 200, cfg_DeltaRound = 10,
      cfg_DeltaGrace = 10, cfg_DeltaCertifiedCommitRequest = 200, cfg_DeltaStage = 100, cfg_RMax = 2,
      cfg_S = [1, 1, 2],
      cfg_OracleIdentities = map (\<lambda>i. \<lparr>oi_OffchainPublicKey = replicate 32 i, oi_OnchainPublicKey = [i],
                                     oi_PeerID = [], oi_TransmitAccount = []\<rparr>) [0, 1, 2, 3],
      cfg_ReportingPluginConfig = [], cfg_MaxDurationQuery = 10, cfg_MaxDurationObservation = 10,
      cfg_MaxDurationShouldAcceptAttestedReport = 10, cfg_MaxDurationShouldTransmitAcceptedReport = 10,
      cfg_F = 1, cfg_OnchainConfig = [], cfg_ConfigDigest = replicate 32 7, cfg_SharedSecret = replicate 16 9\<rparr>"

lemma example_config_simps [simp]:
  "cfg_N example_config = 4" "cfg_F example_config = 1" "ByzQuorumSize example_config = 3"
  "length (cfg_OracleIdentities example_config) = 4"
  by (simp_all add: example_config_def cfg_N_def ByzQuorumSize_def byzquorum_Size_def)

lemma example_config_ok [simp]: "cfg_ok example_config"
  by (simp add: cfg_ok_def MaxOracles_def) (simp add: example_config_def)

end
