(* ===== verification/SignedData.thy ===== *)
theory SignedData
  imports PublicConfig
begin

text \<open>
  The signed data of the OCR3 protocol (\<open>ocr3/protocol/signed_data.go\<close>): the byte strings
  that oracles sign, signature checking, and the certificates built from quorums of
  signatures.
\<close>

section \<open>Domain-separated messages\<close>

record OutcomeGenerationID =
  ogid_ConfigDigest :: bytes
  ogid_Epoch :: u64

definition ocr3DomainSeparatedSum :: "crypto \<Rightarrow> bytes \<Rightarrow> bytes" where
  "ocr3DomainSeparatedSum C written = ascii ''ocr3'' @ sha256 C written"

text \<open>\<open>uint64(len(x))\<close>\<close>

definition len64 :: "'a list \<Rightarrow> u64" where
  "len64 xs = of_nat (length xs)"

definition signedObservation_written :: "OutcomeGenerationID \<Rightarrow> u64 \<Rightarrow> bytes \<Rightarrow> bytes \<Rightarrow> bytes" where
  "signedObservation_written ogid seqNr query observation =
     ascii ''ocr3 SignedObservation''
     @ ogid_ConfigDigest ogid @ be64 (ogid_Epoch ogid)
     @ ogid_ConfigDigest ogid @ be64 seqNr
     @ be64 (len64 query) @ query
     @ be64 (len64 observation) @ observation"

definition signedObservationMsg :: "crypto \<Rightarrow> OutcomeGenerationID \<Rightarrow> u64 \<Rightarrow> bytes \<Rightarrow> bytes \<Rightarrow> bytes" where
  "signedObservationMsg C ogid seqNr query observation =
     ocr3DomainSeparatedSum C (signedObservation_written ogid seqNr query observation)"

definition prepareSignature_written :: "OutcomeGenerationID \<Rightarrow> u64 \<Rightarrow> bytes \<Rightarrow> bytes \<Rightarrow> bytes" where
  "prepareSignature_written ogid seqNr outcomeInputsDigest outcomeDigest =
     ascii ''ocr3 PrepareSignature''
     @ ogid_ConfigDigest ogid @ be64 (ogid_Epoch ogid)
     @ be64 seqNr @ outcomeInputsDigest @ outcomeDigest"

definition prepareSignatureMsg :: "crypto \<Rightarrow> OutcomeGenerationID \<Rightarrow> u64 \<Rightarrow> bytes \<Rightarrow> bytes \<Rightarrow> bytes" where
  "prepareSignatureMsg C ogid seqNr outcomeInputsDigest outcomeDigest =
     ocr3DomainSeparatedSum C (prepareSignature_written ogid seqNr outcomeInputsDigest outcomeDigest)"

definition commitSignature_written :: "OutcomeGenerationID \<Rightarrow> u64 \<Rightarrow> bytes \<Rightarrow> bytes" where
  "commitSignature_written ogid seqNr outcomeDigest =
     ascii ''ocr3 CommitSignature''
     @ ogid_ConfigDigest ogid @ be64 (ogid_Epoch ogid)
     @ be64 seqNr @ outcomeDigest"

definition commitSignatureMsg :: "crypto \<Rightarrow> OutcomeGenerationID \<Rightarrow> u64 \<Rightarrow> bytes \<Rightarrow> bytes" where
  "commitSignatureMsg C ogid seqNr outcomeDigest =
     ocr3DomainSeparatedSum C (commitSignature_written ogid seqNr outcomeDigest)"

record HighestCertifiedTimestamp =
  hct_SeqNr :: u64
  hct_CommittedElsePrepared :: bool

definition Less :: "HighestCertifiedTimestamp \<Rightarrow> HighestCertifiedTimestamp \<Rightarrow> bool" where
  "Less t t2 \<longleftrightarrow>
     hct_SeqNr t < hct_SeqNr t2 \<or>
     hct_SeqNr t = hct_SeqNr t2 \<and> \<not> hct_CommittedElsePrepared t \<and> hct_CommittedElsePrepared t2"

definition shct_written :: "OutcomeGenerationID \<Rightarrow> HighestCertifiedTimestamp \<Rightarrow> bytes" where
  "shct_written ogid t =
     ascii ''ocr3 SignedHighestCertifiedTimestamp''
     @ ogid_ConfigDigest ogid @ be64 (ogid_Epoch ogid)
     @ be64 (hct_SeqNr t) @ [if hct_CommittedElsePrepared t then 1 else 0]"

definition signedHighestCertifiedTimestampMsg ::
  "crypto \<Rightarrow> OutcomeGenerationID \<Rightarrow> HighestCertifiedTimestamp \<Rightarrow> bytes" where
  "signedHighestCertifiedTimestampMsg C ogid t = ocr3DomainSeparatedSum C (shct_written ogid t)"

section \<open>Digests\<close>

record AttributedObservation =
  ao_Observation :: bytes
  ao_Observer :: OracleID

definition ao_written :: "AttributedObservation \<Rightarrow> bytes" where
  "ao_written ao = be64 (len64 (ao_Observation ao)) @ ao_Observation ao @ be64 (ucast (ao_Observer ao))"

definition outcomeInputs_written ::
  "OutcomeGenerationID \<Rightarrow> bytes \<Rightarrow> u64 \<Rightarrow> bytes \<Rightarrow> AttributedObservation list \<Rightarrow> bytes" where
  "outcomeInputs_written ogid previousOutcome seqNr query aos =
     ogid_ConfigDigest ogid @ be64 (ogid_Epoch ogid)
     @ be64 (len64 previousOutcome) @ previousOutcome
     @ be64 seqNr
     @ be64 (len64 query) @ query
     @ be64 (len64 aos) @ concat (map ao_written aos)"

definition MakeOutcomeInputsDigest ::
  "crypto \<Rightarrow> OutcomeGenerationID \<Rightarrow> bytes \<Rightarrow> u64 \<Rightarrow> bytes \<Rightarrow> AttributedObservation list \<Rightarrow> bytes" where
  "MakeOutcomeInputsDigest C ogid previousOutcome seqNr query aos =
     sha256 C (outcomeInputs_written ogid previousOutcome seqNr query aos)"

definition MakeOutcomeDigest :: "crypto \<Rightarrow> bytes \<Rightarrow> bytes" where
  "MakeOutcomeDigest C outcome = sha256 C outcome"

text \<open>The zero \<open>OutcomeInputsDigest{}\<close> used for re-proposals.\<close>

definition zero_digest :: bytes where "zero_digest = replicate 32 0"

section \<open>Signing and verifying\<close>

datatype signature_error = KeySizeMismatch | InvalidSignature

definition ed25519_check :: "crypto \<Rightarrow> bytes \<Rightarrow> bytes \<Rightarrow> bytes \<Rightarrow> signature_error option" where
  "ed25519_check C publicKey msg sig =
     (if length publicKey \<noteq> ed25519_PublicKeySize then Some KeySizeMismatch
      else if \<not> ed25519_Verify C publicKey msg sig then Some InvalidSignature else None)"

record SignedObservation =
  so_Observation :: bytes
  so_Signature :: bytes

definition MakeSignedObservation ::
  "crypto \<Rightarrow> OutcomeGenerationID \<Rightarrow> u64 \<Rightarrow> bytes \<Rightarrow> bytes \<Rightarrow> (bytes \<Rightarrow> bytes option) \<Rightarrow> SignedObservation option" where
  "MakeSignedObservation C ogid seqNr query observation signer =
     (case signer (signedObservationMsg C ogid seqNr query observation) of
        None \<Rightarrow> None
      | Some sig \<Rightarrow> Some \<lparr>so_Observation = observation, so_Signature = sig\<rparr>)"

definition SignedObservation_Verify ::
  "crypto \<Rightarrow> SignedObservation \<Rightarrow> OutcomeGenerationID \<Rightarrow> u64 \<Rightarrow> bytes \<Rightarrow> bytes \<Rightarrow> signature_error option" where
  "SignedObservation_Verify C so ogid seqNr query publicKey =
     ed25519_check C publicKey (signedObservationMsg C ogid seqNr query (so_Observation so)) (so_Signature so)"

record AttributedSignedObservation =
  aso_SignedObservation :: SignedObservation
  aso_Observer :: OracleID

definition MakePrepareSignature ::
  "crypto \<Rightarrow> OutcomeGenerationID \<Rightarrow> u64 \<Rightarrow> bytes \<Rightarrow> bytes \<Rightarrow> (bytes \<Rightarrow> bytes option) \<Rightarrow> bytes option" where
  "MakePrepareSignature C ogid seqNr outcomeInputsDigest outcomeDigest signer =
     signer (prepareSignatureMsg C ogid seqNr outcomeInputsDigest outcomeDigest)"

definition PrepareSignature_Verify ::
  "crypto \<Rightarrow> bytes \<Rightarrow> OutcomeGenerationID \<Rightarrow> u64 \<Rightarrow> bytes \<Rightarrow> bytes \<Rightarrow> bytes \<Rightarrow> signature_error option" where
  "PrepareSignature_Verify C sig ogid seqNr outcomeInputsDigest outcomeDigest publicKey =
     ed25519_check C publicKey (prepareSignatureMsg C ogid seqNr outcomeInputsDigest outcomeDigest) sig"

record AttributedPrepareSignature =
  aps_Signature :: bytes
  aps_Signer :: OracleID

definition MakeCommitSignature ::
  "crypto \<Rightarrow> OutcomeGenerationID \<Rightarrow> u64 \<Rightarrow> bytes \<Rightarrow> (bytes \<Rightarrow> bytes option) \<Rightarrow> bytes option" where
  "MakeCommitSignature C ogid seqNr outcomeDigest signer =
     signer (commitSignatureMsg C ogid seqNr outcomeDigest)"

definition CommitSignature_Verify ::
  "crypto \<Rightarrow> bytes \<Rightarrow> OutcomeGenerationID \<Rightarrow> u64 \<Rightarrow> bytes \<Rightarrow> bytes \<Rightarrow> signature_error option" where
  "CommitSignature_Verify C sig ogid seqNr outcomeDigest publicKey =
     ed25519_check C publicKey (commitSignatureMsg C ogid seqNr outcomeDigest) sig"

record AttributedCommitSignature =
  acs_Signature :: bytes
  acs_Signer :: OracleID

record SignedHighestCertifiedTimestamp =
  shct_HighestCertifiedTimestamp :: HighestCertifiedTimestamp
  shct_Signature :: bytes

definition MakeSignedHighestCertifiedTimestamp ::
  "crypto \<Rightarrow> OutcomeGenerationID \<Rightarrow> HighestCertifiedTimestamp \<Rightarrow> (bytes \<Rightarrow> bytes option) \<Rightarrow>
   SignedHighestCertifiedTimestamp option" where
  "MakeSignedHighestCertifiedTimestamp C ogid t signer =
     (case signer (signedHighestCertifiedTimestampMsg C ogid t) of
        None \<Rightarrow> None
      | Some sig \<Rightarrow> Some \<lparr>shct_HighestCertifiedTimestamp = t, shct_Signature = sig\<rparr>)"

definition SignedHighestCertifiedTimestamp_Verify ::
  "crypto \<Rightarrow> SignedHighestCertifiedTimestamp \<Rightarrow> OutcomeGenerationID \<Rightarrow> bytes \<Rightarrow> signature_error option" where
  "SignedHighestCertifiedTimestamp_Verify C shct ogid publicKey =
     ed25519_check C publicKey
       (signedHighestCertifiedTimestampMsg C ogid (shct_HighestCertifiedTimestamp shct)) (shct_Signature shct)"

record AttributedSignedHighestCertifiedTimestamp =
  ashct_SignedHighestCertifiedTimestamp :: SignedHighestCertifiedTimestamp
  ashct_Signer :: OracleID

section \<open>Certificates\<close>

record ReportingPluginLimits =
  lim_MaxQueryLength :: int
  lim_MaxObservationLength :: int
  lim_MaxOutcomeLength :: int
  lim_MaxReportLength :: int
  lim_MaxReportCount :: int

record CertifiedPrepare =
  cp_PrepareEpoch :: u64
  cp_SeqNr :: u64
  cp_OutcomeInputsDigest :: bytes
  cp_Outcome :: bytes
  cp_PrepareQuorumCertificate :: "AttributedPrepareSignature list"

record CertifiedCommit =
  cmt_CommitEpoch :: u64
  cmt_SeqNr :: u64
  cmt_Outcome :: bytes
  cmt_CommitQuorumCertificate :: "AttributedCommitSignature list"

datatype CertifiedPrepareOrCommit = CertPrepare CertifiedPrepare | CertCommit CertifiedCommit

definition genesis_commit :: CertifiedCommit where
  "genesis_commit = \<lparr>cmt_CommitEpoch = 0, cmt_SeqNr = 0, cmt_Outcome = [], cmt_CommitQuorumCertificate = []\<rparr>"

datatype verify_error =
  WrongNumberOfSignatures | DuplicateSignatureBy OracleID | SignerOutOfBounds OracleID
| BadSignature OracleID signature_error | TimestampMismatch | BadHighestCertified verify_error

text \<open>
  The loop over a quorum certificate shared by \<open>CertifiedPrepare.Verify\<close> and
  \<open>CertifiedCommit.Verify\<close>: reject a repeated signer, a signer out of bounds, or a bad
  signature; \<open>sig_err x pk\<close> is the check of one signature.
\<close>

fun verify_loop ::
  "OracleIdentity list \<Rightarrow> ('a \<Rightarrow> OracleID) \<Rightarrow> ('a \<Rightarrow> bytes \<Rightarrow> signature_error option) \<Rightarrow>
   OracleID list \<Rightarrow> 'a list \<Rightarrow> verify_error option" where
  "verify_loop ids signer sig_err seen [] = None"
| "verify_loop ids signer sig_err seen (x # xs) =
     (if signer x \<in> set seen then Some (DuplicateSignatureBy (signer x))
      else if \<not> unat (signer x) < length ids then Some (SignerOutOfBounds (signer x))
      else case sig_err x (oi_OffchainPublicKey (ids ! unat (signer x))) of
             Some err \<Rightarrow> Some (BadSignature (signer x) err)
           | None \<Rightarrow> verify_loop ids signer sig_err (signer x # seen) xs)"

definition CertifiedPrepare_Verify ::
  "crypto \<Rightarrow> CertifiedPrepare \<Rightarrow> bytes \<Rightarrow> OracleIdentity list \<Rightarrow> int \<Rightarrow> verify_error option" where
  "CertifiedPrepare_Verify C hc configDigest oracleIdentities byzQuorumSize =
     (if byzQuorumSize \<noteq> int (length (cp_PrepareQuorumCertificate hc)) then Some WrongNumberOfSignatures
      else
        let ogid = \<lparr>ogid_ConfigDigest = configDigest, ogid_Epoch = cp_PrepareEpoch hc\<rparr>
        in verify_loop oracleIdentities aps_Signer
             (\<lambda>aps pk. PrepareSignature_Verify C (aps_Signature aps) ogid (cp_SeqNr hc)
                         (cp_OutcomeInputsDigest hc) (MakeOutcomeDigest C (cp_Outcome hc)) pk)
             [] (cp_PrepareQuorumCertificate hc))"

definition CertifiedCommit_IsGenesis :: "CertifiedCommit \<Rightarrow> bool" where
  "CertifiedCommit_IsGenesis hc \<longleftrightarrow>
     cmt_CommitEpoch hc = 0 \<and> cmt_SeqNr hc = 0 \<and> length (cmt_Outcome hc) = 0 \<and>
     length (cmt_CommitQuorumCertificate hc) = 0"

definition CertifiedCommit_Verify ::
  "crypto \<Rightarrow> CertifiedCommit \<Rightarrow> bytes \<Rightarrow> OracleIdentity list \<Rightarrow> int \<Rightarrow> verify_error option" where
  "CertifiedCommit_Verify C hc configDigest oracleIdentities byzQuorumSize =
     (if CertifiedCommit_IsGenesis hc then None
      else if byzQuorumSize \<noteq> int (length (cmt_CommitQuorumCertificate hc)) then Some WrongNumberOfSignatures
      else
        let ogid = \<lparr>ogid_ConfigDigest = configDigest, ogid_Epoch = cmt_CommitEpoch hc\<rparr>
        in verify_loop oracleIdentities acs_Signer
             (\<lambda>acs pk. CommitSignature_Verify C (acs_Signature acs) ogid (cmt_SeqNr hc)
                         (MakeOutcomeDigest C (cmt_Outcome hc)) pk)
             [] (cmt_CommitQuorumCertificate hc))"

fun cert_Epoch :: "CertifiedPrepareOrCommit \<Rightarrow> u64" where
  "cert_Epoch (CertPrepare hc) = cp_PrepareEpoch hc"
| "cert_Epoch (CertCommit hc) = cmt_CommitEpoch hc"

fun cert_Timestamp :: "CertifiedPrepareOrCommit \<Rightarrow> HighestCertifiedTimestamp" where
  "cert_Timestamp (CertPrepare hc) = \<lparr>hct_SeqNr = cp_SeqNr hc, hct_CommittedElsePrepared = False\<rparr>"
| "cert_Timestamp (CertCommit hc) = \<lparr>hct_SeqNr = cmt_SeqNr hc, hct_CommittedElsePrepared = True\<rparr>"

fun cert_IsGenesis :: "CertifiedPrepareOrCommit \<Rightarrow> bool" where
  "cert_IsGenesis (CertPrepare hc) = False"
| "cert_IsGenesis (CertCommit hc) = CertifiedCommit_IsGenesis hc"

fun cert_Verify ::
  "crypto \<Rightarrow> CertifiedPrepareOrCommit \<Rightarrow> bytes \<Rightarrow> OracleIdentity list \<Rightarrow> int \<Rightarrow> verify_error option" where
  "cert_Verify C (CertPrepare hc) cd ids q = CertifiedPrepare_Verify C hc cd ids q"
| "cert_Verify C (CertCommit hc) cd ids q = CertifiedCommit_Verify C hc cd ids q"

definition CertifiedPrepare_CheckSize ::
  "CertifiedPrepare \<Rightarrow> int \<Rightarrow> int \<Rightarrow> ReportingPluginLimits \<Rightarrow> int \<Rightarrow> bool" where
  "CertifiedPrepare_CheckSize hc n f limits maxReportSigLen =
     (if int (length (cp_Outcome hc)) > lim_MaxOutcomeLength limits then False
      else if int (length (cp_PrepareQuorumCertificate hc)) \<noteq> byzquorum_Size n f then False
      else list_all (\<lambda>aps. length (aps_Signature aps) = ed25519_SignatureSize)
             (cp_PrepareQuorumCertificate hc))"

definition CertifiedCommit_CheckSize ::
  "CertifiedCommit \<Rightarrow> int \<Rightarrow> int \<Rightarrow> ReportingPluginLimits \<Rightarrow> int \<Rightarrow> bool" where
  "CertifiedCommit_CheckSize hc n f limits maxReportSigLen =
     (if CertifiedCommit_IsGenesis hc then True
      else if int (length (cmt_Outcome hc)) > lim_MaxOutcomeLength limits then False
      else if int (length (cmt_CommitQuorumCertificate hc)) \<noteq> byzquorum_Size n f then False
      else list_all (\<lambda>acs. length (acs_Signature acs) = ed25519_SignatureSize)
             (cmt_CommitQuorumCertificate hc))"

fun cert_CheckSize ::
  "CertifiedPrepareOrCommit \<Rightarrow> int \<Rightarrow> int \<Rightarrow> ReportingPluginLimits \<Rightarrow> int \<Rightarrow> bool" where
  "cert_CheckSize (CertPrepare hc) n f limits m = CertifiedPrepare_CheckSize hc n f limits m"
| "cert_CheckSize (CertCommit hc) n f limits m = CertifiedCommit_CheckSize hc n f limits m"

record EpochStartProof =
  esp_HighestCertified :: CertifiedPrepareOrCommit
  esp_HighestCertifiedProof :: "AttributedSignedHighestCertifiedTimestamp list"

text \<open>The loop of \<open>EpochStartProof.Verify\<close>, which also tracks the maximum timestamp.\<close>

fun proof_loop ::
  "crypto \<Rightarrow> OutcomeGenerationID \<Rightarrow> OracleIdentity list \<Rightarrow> OracleID list \<Rightarrow> HighestCertifiedTimestamp \<Rightarrow>
   AttributedSignedHighestCertifiedTimestamp list \<Rightarrow> verify_error + HighestCertifiedTimestamp" where
  "proof_loop C ogid ids seen maximumTimestamp [] = Inr maximumTimestamp"
| "proof_loop C ogid ids seen maximumTimestamp (x # xs) =
     (if ashct_Signer x \<in> set seen then Inl (DuplicateSignatureBy (ashct_Signer x))
      else if \<not> unat (ashct_Signer x) < length ids then Inl (SignerOutOfBounds (ashct_Signer x))
      else case SignedHighestCertifiedTimestamp_Verify C (ashct_SignedHighestCertifiedTimestamp x) ogid
                  (oi_OffchainPublicKey (ids ! unat (ashct_Signer x))) of
             Some err \<Rightarrow> Inl (BadSignature (ashct_Signer x) err)
           | None \<Rightarrow>
               let t = shct_HighestCertifiedTimestamp (ashct_SignedHighestCertifiedTimestamp x)
               in proof_loop C ogid ids (ashct_Signer x # seen)
                    (if Less maximumTimestamp t then t else maximumTimestamp) xs)"

definition EpochStartProof_Verify ::
  "crypto \<Rightarrow> EpochStartProof \<Rightarrow> OutcomeGenerationID \<Rightarrow> OracleIdentity list \<Rightarrow> int \<Rightarrow> verify_error option go" where
  "EpochStartProof_Verify C qc ogid oracleIdentities byzQuorumSize =
     (if byzQuorumSize \<noteq> int (length (esp_HighestCertifiedProof qc)) then Inr (Some WrongNumberOfSignatures)
      else bindG (go_index (esp_HighestCertifiedProof qc) 0) (\<lambda>first.
        Inr (case proof_loop C ogid oracleIdentities []
                    (shct_HighestCertifiedTimestamp (ashct_SignedHighestCertifiedTimestamp first))
                    (esp_HighestCertifiedProof qc) of
               Inl err \<Rightarrow> Some err
             | Inr maximumTimestamp \<Rightarrow>
                 if cert_Timestamp (esp_HighestCertified qc) \<noteq> maximumTimestamp then Some TimestampMismatch
                 else map_option BadHighestCertified
                        (cert_Verify C (esp_HighestCertified qc) (ogid_ConfigDigest ogid)
                           oracleIdentities byzQuorumSize))))"


section \<open>What is signed determines what was meant\<close>

lemma ascii_of_char_simps: "ascii [] = []" "ascii (c # cs) = of_char c # ascii cs"
  by (simp_all add: ascii_def)

text \<open>No two kinds of signed message coincide: their domain separators differ.\<close>

lemma domains_distinct:
  "ascii ''ocr3 SignedObservation'' @ a \<noteq> ascii ''ocr3 PrepareSignature'' @ b"
  "ascii ''ocr3 SignedObservation'' @ a \<noteq> ascii ''ocr3 CommitSignature'' @ b"
  "ascii ''ocr3 SignedObservation'' @ a \<noteq> ascii ''ocr3 SignedHighestCertifiedTimestamp'' @ b"
  "ascii ''ocr3 PrepareSignature'' @ a \<noteq> ascii ''ocr3 CommitSignature'' @ b"
  "ascii ''ocr3 PrepareSignature'' @ a \<noteq> ascii ''ocr3 SignedHighestCertifiedTimestamp'' @ b"
  "ascii ''ocr3 CommitSignature'' @ a \<noteq> ascii ''ocr3 SignedHighestCertifiedTimestamp'' @ b"
  by (simp_all add: ascii_of_char_simps)

lemma unat_len64: "length xs < 2 ^ 64 \<Longrightarrow> unat (len64 xs) = length xs"
  by (simp add: len64_def unat_of_nat)

lemma len64_inj: "length xs < 2 ^ 64 \<Longrightarrow> length ys < 2 ^ 64 \<Longrightarrow> len64 xs = len64 ys \<Longrightarrow> length xs = length ys"
  using unat_len64 by metis

text \<open>A length-prefixed field can be read back.\<close>

lemma len_prefixed_inj:
  assumes "length xs < 2 ^ 64" "length ys < 2 ^ 64"
  shows "be64 (len64 xs) @ xs @ us = be64 (len64 ys) @ ys @ vs \<longleftrightarrow> xs = ys \<and> us = vs"
  using len64_inj [OF assms] by auto

lemma prepare_written_inj:
  assumes "length i = length i'"
  shows "prepareSignature_written \<lparr>ogid_ConfigDigest = cd, ogid_Epoch = e\<rparr> s i d
       = prepareSignature_written \<lparr>ogid_ConfigDigest = cd, ogid_Epoch = e'\<rparr> s' i' d'
     \<longleftrightarrow> e = e' \<and> s = s' \<and> i = i' \<and> d = d'"
  using assms by (auto simp: prepareSignature_written_def)

lemma commit_written_inj:
  "commitSignature_written \<lparr>ogid_ConfigDigest = cd, ogid_Epoch = e\<rparr> s d
     = commitSignature_written \<lparr>ogid_ConfigDigest = cd, ogid_Epoch = e'\<rparr> s' d'
   \<longleftrightarrow> e = e' \<and> s = s' \<and> d = d'"
  by (auto simp: commitSignature_written_def)

text \<open>Config digests have the same length, so that they can be read back too.\<close>

lemma ogid_written_inj:
  fixes ogid ogid' :: OutcomeGenerationID
  assumes "length (ogid_ConfigDigest ogid) = length (ogid_ConfigDigest ogid')"
  shows "ogid_ConfigDigest ogid @ be64 (ogid_Epoch ogid) @ us = ogid_ConfigDigest ogid' @ be64 (ogid_Epoch ogid') @ vs
    \<longleftrightarrow> ogid = ogid' \<and> us = vs"
  using assms by (cases ogid; cases ogid') auto

lemma signedObservation_written_inj:
  assumes "length (ogid_ConfigDigest ogid) = length (ogid_ConfigDigest ogid')"
    and "length q < 2 ^ 64" "length q' < 2 ^ 64" "length ob < 2 ^ 64" "length ob' < 2 ^ 64"
  shows "signedObservation_written ogid s q ob = signedObservation_written ogid' s' q' ob'
    \<longleftrightarrow> ogid = ogid' \<and> s = s' \<and> q = q' \<and> ob = ob'"
  using assms len_prefixed_inj [of q q'] len_prefixed_inj [of ob ob' "[]" "[]"]
  by (auto simp: signedObservation_written_def ogid_written_inj)

lemma timestamp_written_inj:
  assumes "length (ogid_ConfigDigest ogid) = length (ogid_ConfigDigest ogid')"
  shows "shct_written ogid t = shct_written ogid' t' \<longleftrightarrow> ogid = ogid' \<and> t = t'"
  using assms by (cases t; cases t') (auto simp: shct_written_def ogid_written_inj split: if_splits)

lemma prepare_commit_written_inj:
  assumes "length (ogid_ConfigDigest ogid) = length (ogid_ConfigDigest ogid')"
  shows "length i = length i' \<Longrightarrow> prepareSignature_written ogid s i d = prepareSignature_written ogid' s' i' d'
      \<longleftrightarrow> ogid = ogid' \<and> s = s' \<and> i = i' \<and> d = d'"
    and "commitSignature_written ogid s d = commitSignature_written ogid' s' d'
      \<longleftrightarrow> ogid = ogid' \<and> s = s' \<and> d = d'"
  using assms by (auto simp: prepareSignature_written_def commitSignature_written_def ogid_written_inj)

lemma domain_sum_inj: "collision_free C \<Longrightarrow>
    ocr3DomainSeparatedSum C x = ocr3DomainSeparatedSum C y \<longleftrightarrow> x = y"
  by (simp add: ocr3DomainSeparatedSum_def collision_freeD)

lemma commitSignatureMsg_inj:
  "collision_free C \<Longrightarrow>
     commitSignatureMsg C \<lparr>ogid_ConfigDigest = cd, ogid_Epoch = e\<rparr> s d
       = commitSignatureMsg C \<lparr>ogid_ConfigDigest = cd, ogid_Epoch = e'\<rparr> s' d'
     \<longleftrightarrow> e = e' \<and> s = s' \<and> d = d'"
  by (simp add: commitSignatureMsg_def domain_sum_inj commit_written_inj)

lemma prepareSignatureMsg_inj:
  "collision_free C \<Longrightarrow> length i = length i' \<Longrightarrow>
     prepareSignatureMsg C \<lparr>ogid_ConfigDigest = cd, ogid_Epoch = e\<rparr> s i d
       = prepareSignatureMsg C \<lparr>ogid_ConfigDigest = cd, ogid_Epoch = e'\<rparr> s' i' d'
     \<longleftrightarrow> e = e' \<and> s = s' \<and> i = i' \<and> d = d'"
  by (simp add: prepareSignatureMsg_def domain_sum_inj prepare_written_inj)

lemmas signed_msg_defs =
  prepareSignatureMsg_def commitSignatureMsg_def signedObservationMsg_def
  signedHighestCertifiedTimestampMsg_def

lemmas written_defs =
  prepareSignature_written_def commitSignature_written_def signedObservation_written_def shct_written_def

lemma signed_messages_disjoint:
  assumes "collision_free C"
  shows "prepareSignatureMsg C ogid s i d \<noteq> commitSignatureMsg C ogid' s' d'"
    and "signedObservationMsg C ogid s q ob \<noteq> commitSignatureMsg C ogid' s' d'"
    and "signedObservationMsg C ogid s q ob \<noteq> prepareSignatureMsg C ogid' s' i' d'"
    and "signedObservationMsg C ogid s q ob \<noteq> signedHighestCertifiedTimestampMsg C ogid' t"
    and "prepareSignatureMsg C ogid s i d \<noteq> signedHighestCertifiedTimestampMsg C ogid' t"
    and "commitSignatureMsg C ogid s d \<noteq> signedHighestCertifiedTimestampMsg C ogid' t"
  unfolding signed_msg_defs domain_sum_inj [OF assms] written_defs
  by (rule domains_distinct)+

section \<open>Timestamps are strictly ordered\<close>

lemma Less_irrefl [simp]: "\<not> Less t t"
  by (simp add: Less_def)

lemma Less_trans: "Less a b \<Longrightarrow> Less b c \<Longrightarrow> Less a c"
  by (auto simp: Less_def)

lemma Less_negtrans: "Less a c \<Longrightarrow> Less a b \<or> Less b c"
  by (auto simp: Less_def)

lemma Less_total: "Less a b \<or> a = b \<or> Less b a"
  by (cases a; cases b) (auto simp: Less_def)

section \<open>Accepted certificates\<close>

lemma verify_loop_None:
  "verify_loop ids signer sig_err seen xs = None \<longleftrightarrow>
     distinct (map signer xs) \<and> set (map signer xs) \<inter> set seen = {} \<and>
     (\<forall>x \<in> set xs. unat (signer x) < length ids \<and>
        sig_err x (oi_OffchainPublicKey (ids ! unat (signer x))) = None)"
  by (induction xs arbitrary: seen) (auto split: option.splits)

lemma proof_loop_Inr:
  assumes "proof_loop C ogid ids seen m0 xs = Inr m"
  shows "distinct (map ashct_Signer xs) \<and> set (map ashct_Signer xs) \<inter> set seen = {} \<and>
     (\<forall>x \<in> set xs. unat (ashct_Signer x) < length ids \<and>
        SignedHighestCertifiedTimestamp_Verify C (ashct_SignedHighestCertifiedTimestamp x) ogid
          (oi_OffchainPublicKey (ids ! unat (ashct_Signer x))) = None \<and>
        \<not> Less m (shct_HighestCertifiedTimestamp (ashct_SignedHighestCertifiedTimestamp x))) \<and>
     \<not> Less m m0 \<and>
     (m = m0 \<or> m \<in> (shct_HighestCertifiedTimestamp \<circ> ashct_SignedHighestCertifiedTimestamp) ` set xs)"
  using assms
proof (induction C ogid ids seen m0 xs rule: proof_loop.induct)
  case (2 C ogid ids seen m0 x xs)
  define t where "t = shct_HighestCertifiedTimestamp (ashct_SignedHighestCertifiedTimestamp x)"
  define m1 where "m1 = (if Less m0 t then t else m0)"
  have ok: "ashct_Signer x \<notin> set seen" "unat (ashct_Signer x) < length ids"
      "SignedHighestCertifiedTimestamp_Verify C (ashct_SignedHighestCertifiedTimestamp x) ogid
         (oi_OffchainPublicKey (ids ! unat (ashct_Signer x))) = None"
    using "2.prems" by (auto split: if_splits option.splits)
  have "proof_loop C ogid ids (ashct_Signer x # seen) m1 xs = Inr m"
    using "2.prems" ok unfolding m1_def t_def by (simp add: Let_def)
  note IH_raw = "2.IH" [OF ok(1) _ ok(3) t_def, unfolded not_not, OF ok(2), folded m1_def, OF this]
  then have IH:
      "distinct (map ashct_Signer xs) \<and> set (map ashct_Signer xs) \<inter> set (ashct_Signer x # seen) = {} \<and>
       (\<forall>x \<in> set xs. unat (ashct_Signer x) < length ids \<and>
          SignedHighestCertifiedTimestamp_Verify C (ashct_SignedHighestCertifiedTimestamp x) ogid
            (oi_OffchainPublicKey (ids ! unat (ashct_Signer x))) = None \<and>
          \<not> Less m (shct_HighestCertifiedTimestamp (ashct_SignedHighestCertifiedTimestamp x))) \<and>
       \<not> Less m m1 \<and>
       (m = m1 \<or> m \<in> (shct_HighestCertifiedTimestamp \<circ> ashct_SignedHighestCertifiedTimestamp) ` set xs)"
    .
  have "\<not> Less m m1" using IH by blast
  then have "\<not> Less m t \<and> \<not> Less m m0"
    using Less_trans [of m m0 t] Less_negtrans [of m t m0] by (cases "Less m0 t") (auto simp: m1_def)
  moreover have "m1 = m0 \<or> m1 = t" by (simp add: m1_def)
  ultimately show ?case using IH ok by (auto simp: t_def)
qed simp

lemma CertifiedPrepare_Verify_None:
  "CertifiedPrepare_Verify C hc cd ids q = None \<longleftrightarrow>
     q = int (length (cp_PrepareQuorumCertificate hc)) \<and>
     distinct (map aps_Signer (cp_PrepareQuorumCertificate hc)) \<and>
     (\<forall>aps \<in> set (cp_PrepareQuorumCertificate hc). unat (aps_Signer aps) < length ids \<and>
        PrepareSignature_Verify C (aps_Signature aps)
          \<lparr>ogid_ConfigDigest = cd, ogid_Epoch = cp_PrepareEpoch hc\<rparr> (cp_SeqNr hc)
          (cp_OutcomeInputsDigest hc) (MakeOutcomeDigest C (cp_Outcome hc))
          (oi_OffchainPublicKey (ids ! unat (aps_Signer aps))) = None)"
  by (auto simp: CertifiedPrepare_Verify_def verify_loop_None Let_def)

lemma CertifiedCommit_Verify_None:
  "CertifiedCommit_Verify C hc cd ids q = None \<longleftrightarrow>
     CertifiedCommit_IsGenesis hc \<or>
     q = int (length (cmt_CommitQuorumCertificate hc)) \<and>
     distinct (map acs_Signer (cmt_CommitQuorumCertificate hc)) \<and>
     (\<forall>acs \<in> set (cmt_CommitQuorumCertificate hc). unat (acs_Signer acs) < length ids \<and>
        CommitSignature_Verify C (acs_Signature acs)
          \<lparr>ogid_ConfigDigest = cd, ogid_Epoch = cmt_CommitEpoch hc\<rparr> (cmt_SeqNr hc)
          (MakeOutcomeDigest C (cmt_Outcome hc))
          (oi_OffchainPublicKey (ids ! unat (acs_Signer acs))) = None)"
  by (auto simp: CertifiedCommit_Verify_def verify_loop_None Let_def)

lemma ed25519_check_None:
  "ed25519_check C pk msg sig = None \<longleftrightarrow> length pk = ed25519_PublicKeySize \<and> ed25519_Verify C pk msg sig"
  by (simp add: ed25519_check_def)

section \<open>The interface: quorum certificates\<close>

text \<open>
  A quorum certificate is accepted only with a Byzantine quorum of distinct signers, each of
  whom signed the certificate's message. Two accepted certificates therefore share a correct
  signer, whatever the up to \<open>F\<close> faulty oracles signed.
\<close>

locale quorum_certificate =
  fixes accepted :: "crypto \<Rightarrow> 'c PublicConfig_scheme \<Rightarrow> 'cert \<Rightarrow> bool"
    and signers :: "'cert \<Rightarrow> OracleID list"
    and message :: "crypto \<Rightarrow> 'c PublicConfig_scheme \<Rightarrow> 'cert \<Rightarrow> bytes"
  assumes quorum: "accepted C cfg c \<Longrightarrow> int (length (signers c)) = ByzQuorumSize cfg"
    and distinct_signers: "accepted C cfg c \<Longrightarrow> distinct (signers c)"
    and known_signers: "accepted C cfg c \<Longrightarrow> i \<in> set (signers c) \<Longrightarrow>
          unat i < length (cfg_OracleIdentities cfg)"
    and signed: "accepted C cfg c \<Longrightarrow> i \<in> set (signers c) \<Longrightarrow>
          \<exists>sig. ed25519_Verify C (oi_OffchainPublicKey (cfg_OracleIdentities cfg ! unat i))
                  (message C cfg c) sig"
begin

lemma common_correct_signer:
  assumes cfg: "cfg_ok cfg" and acc: "accepted C cfg c" "accepted C cfg c'"
    and faulty: "card faulty \<le> nat (cfg_F cfg)"
  shows "\<exists>i \<in> set (signers c) \<inter> set (signers c'). i \<notin> faulty"
proof -
  define P where "P = {i :: OracleID. unat i < length (cfg_OracleIdentities cfg)}"
  have f: "0 \<le> cfg_F cfg" "3 * cfg_F cfg < cfg_N cfg" "cfg_N cfg \<le> 31"
    using cfg by (auto simp: cfg_ok_def MaxOracles_def)
  have "card P = length (cfg_OracleIdentities cfg)"
  proof -
    have "x \<in> of_nat ` {..<length (cfg_OracleIdentities cfg)}" if "x \<in> P" for x :: OracleID
      using that by (intro image_eqI [where x = "unat x"]) (auto simp: P_def of_nat_unat)
    then have "P = of_nat ` {..<length (cfg_OracleIdentities cfg)}"
      using f(3) by (auto simp: P_def cfg_N_def unat_of_nat)
    moreover have "inj_on (of_nat :: nat \<Rightarrow> OracleID) {..<length (cfg_OracleIdentities cfg)}"
    proof (rule inj_onI)
      fix a b assume ab: "a \<in> {..<length (cfg_OracleIdentities cfg)}" "b \<in> {..<length (cfg_OracleIdentities cfg)}"
        and eq: "(of_nat a :: OracleID) = of_nat b"
      have "unat (of_nat a :: OracleID) = a" "unat (of_nat b :: OracleID) = b"
        using ab f(3) by (simp_all add: unat_of_nat cfg_N_def)
      with eq show "a = b" by metis
    qed
    ultimately show ?thesis by (simp add: card_image)
  qed
  then have P: "finite P" "int (card P) = cfg_N cfg" by (simp_all add: cfg_N_def)
  have sub: "set (signers c) \<subseteq> P" "set (signers c') \<subseteq> P"
    using known_signers acc by (auto simp: P_def)
  have "int (card (set (signers c))) = ByzQuorumSize cfg"
      "int (card (set (signers c'))) = ByzQuorumSize cfg"
    using quorum acc distinct_card [OF distinct_signers] by auto
  moreover have few: "int (card (faulty \<inter> P)) \<le> cfg_F cfg"
    using card_mono [of faulty "faulty \<inter> P"] faulty f(1) by simp
  ultimately have "\<exists>i \<in> set (signers c) \<inter> set (signers c'). i \<notin> faulty \<inter> P"
    using f P sub few
    by (intro bq.common_correct [of "cfg_F cfg" "cfg_N cfg" P]) (auto simp: ByzQuorumSize_def)
  then show ?thesis using sub by blast
qed

end

definition prepare_accepted :: "crypto \<Rightarrow> 'c PublicConfig_scheme \<Rightarrow> CertifiedPrepare \<Rightarrow> bool" where
  "prepare_accepted C cfg hc \<longleftrightarrow>
     CertifiedPrepare_Verify C hc (cfg_ConfigDigest cfg) (cfg_OracleIdentities cfg) (ByzQuorumSize cfg) = None"

definition prepare_message :: "crypto \<Rightarrow> 'c PublicConfig_scheme \<Rightarrow> CertifiedPrepare \<Rightarrow> bytes" where
  "prepare_message C cfg hc =
     prepareSignatureMsg C \<lparr>ogid_ConfigDigest = cfg_ConfigDigest cfg, ogid_Epoch = cp_PrepareEpoch hc\<rparr>
       (cp_SeqNr hc) (cp_OutcomeInputsDigest hc) (MakeOutcomeDigest C (cp_Outcome hc))"

interpretation pqc: quorum_certificate
  prepare_accepted "\<lambda>hc. map aps_Signer (cp_PrepareQuorumCertificate hc)" prepare_message
  by unfold_locales
    (auto simp: prepare_accepted_def prepare_message_def CertifiedPrepare_Verify_None
      PrepareSignature_Verify_def ed25519_check_None)

text \<open>The genesis certificate is accepted without any signature; every other commit certificate
  is a quorum certificate.\<close>

definition commit_accepted :: "crypto \<Rightarrow> 'c PublicConfig_scheme \<Rightarrow> CertifiedCommit \<Rightarrow> bool" where
  "commit_accepted C cfg hc \<longleftrightarrow> \<not> CertifiedCommit_IsGenesis hc \<and>
     CertifiedCommit_Verify C hc (cfg_ConfigDigest cfg) (cfg_OracleIdentities cfg) (ByzQuorumSize cfg) = None"

definition commit_message :: "crypto \<Rightarrow> 'c PublicConfig_scheme \<Rightarrow> CertifiedCommit \<Rightarrow> bytes" where
  "commit_message C cfg hc =
     commitSignatureMsg C \<lparr>ogid_ConfigDigest = cfg_ConfigDigest cfg, ogid_Epoch = cmt_CommitEpoch hc\<rparr>
       (cmt_SeqNr hc) (MakeOutcomeDigest C (cmt_Outcome hc))"

interpretation cqc: quorum_certificate
  commit_accepted "\<lambda>hc. map acs_Signer (cmt_CommitQuorumCertificate hc)" commit_message
  by unfold_locales
    (auto simp: commit_accepted_def commit_message_def CertifiedCommit_Verify_None
      CommitSignature_Verify_def ed25519_check_None)

section \<open>Properties\<close>

text \<open>Any two accepted commit certificates of a configuration, whatever their epochs, sequence
  numbers and outcomes, carry valid signatures of a common oracle that is not among the at
  most \<open>F\<close> faulty ones, on both their messages.\<close>

theorem commit_certificates_share_correct_signer:
  assumes "cfg_ok cfg" "commit_accepted C cfg c" "commit_accepted C cfg c'"
    and "card faulty \<le> nat (cfg_F cfg)"
  shows "\<exists>i :: OracleID. i \<notin> faulty \<and> unat i < length (cfg_OracleIdentities cfg) \<and>
     (\<exists>sig. ed25519_Verify C (oi_OffchainPublicKey (cfg_OracleIdentities cfg ! unat i)) (commit_message C cfg c) sig) \<and>
     (\<exists>sig. ed25519_Verify C (oi_OffchainPublicKey (cfg_OracleIdentities cfg ! unat i)) (commit_message C cfg c') sig)"
  using cqc.common_correct_signer [OF assms] cqc.signed [OF assms(2)] cqc.signed [OF assms(3)]
    cqc.known_signers [OF assms(2)] by blast

definition accept_all :: crypto where
  "accept_all = \<lparr>sha256 = (\<lambda>x. x), ed25519_Verify = (\<lambda>pk msg sig. True)\<rparr>"

definition example_commit :: "u64 \<Rightarrow> bytes \<Rightarrow> CertifiedCommit" where
  "example_commit e outcome =
     \<lparr>cmt_CommitEpoch = e, cmt_SeqNr = 1, cmt_Outcome = outcome,
      cmt_CommitQuorumCertificate = map (\<lambda>i. \<lparr>acs_Signature = [], acs_Signer = i\<rparr>) [0, 1, 2]\<rparr>"

lemma example_commit_accepted: "commit_accepted accept_all example_config (example_commit e outcome)"
  by (simp add: commit_accepted_def CertifiedCommit_Verify_None example_commit_def CertifiedCommit_IsGenesis_def
      CommitSignature_Verify_def ed25519_check_def accept_all_def)
    (simp add: example_config_def ed25519_PublicKeySize_def)

theorem commit_certificates_share_correct_signer_witness:
  "\<exists>i :: OracleID. i \<notin> {3} \<and> unat i < length (cfg_OracleIdentities example_config) \<and>
     (\<exists>sig. ed25519_Verify accept_all (oi_OffchainPublicKey (cfg_OracleIdentities example_config ! unat i))
        (commit_message accept_all example_config (example_commit 1 [])) sig) \<and>
     (\<exists>sig. ed25519_Verify accept_all (oi_OffchainPublicKey (cfg_OracleIdentities example_config ! unat i))
        (commit_message accept_all example_config (example_commit 2 [5])) sig)"
  by (rule commit_certificates_share_correct_signer [OF example_config_ok example_commit_accepted example_commit_accepted])
     simp

text \<open>C39: What an oracle signs determines what it meant, when SHA-256 has no collisions. A signed message is a
  message of one kind only: observation, prepare, commit or timestamp. Two messages of one kind are equal
  only if they have the same configuration, epoch and content: sequence number, query and observation;
  sequence number and the two digests; sequence number and outcome digest; timestamp. Config digests and
  digests of outcome inputs have fixed lengths, and queries and observations less than \<open>2 ^ 64\<close> bytes.\<close>

theorem signed_messages_unambiguous:
  assumes "collision_free C" and "length (ogid_ConfigDigest ogid) = length (ogid_ConfigDigest ogid')"
    and "length i = length i'"
    and "length q < 2 ^ 64" "length q' < 2 ^ 64" "length ob < 2 ^ 64" "length ob' < 2 ^ 64"
  shows "prepareSignatureMsg C ogid s i d \<noteq> commitSignatureMsg C ogid' s' d' \<and>
     signedObservationMsg C ogid s q ob \<noteq> commitSignatureMsg C ogid' s' d' \<and>
     signedObservationMsg C ogid s q ob \<noteq> prepareSignatureMsg C ogid' s' i' d' \<and>
     signedObservationMsg C ogid s q ob \<noteq> signedHighestCertifiedTimestampMsg C ogid' t \<and>
     prepareSignatureMsg C ogid s i d \<noteq> signedHighestCertifiedTimestampMsg C ogid' t \<and>
     commitSignatureMsg C ogid s d \<noteq> signedHighestCertifiedTimestampMsg C ogid' t \<and>
     (signedObservationMsg C ogid s q ob = signedObservationMsg C ogid' s' q' ob'
      \<longleftrightarrow> ogid = ogid' \<and> s = s' \<and> q = q' \<and> ob = ob') \<and>
     (prepareSignatureMsg C ogid s i d = prepareSignatureMsg C ogid' s' i' d'
      \<longleftrightarrow> ogid = ogid' \<and> s = s' \<and> i = i' \<and> d = d') \<and>
     (commitSignatureMsg C ogid s d = commitSignatureMsg C ogid' s' d'
      \<longleftrightarrow> ogid = ogid' \<and> s = s' \<and> d = d') \<and>
     (signedHighestCertifiedTimestampMsg C ogid t = signedHighestCertifiedTimestampMsg C ogid' t'
      \<longleftrightarrow> ogid = ogid' \<and> t = t')"
proof (intro conjI signed_messages_disjoint [OF assms(1)])
  note inj = domain_sum_inj [OF assms(1)]
  show "signedObservationMsg C ogid s q ob = signedObservationMsg C ogid' s' q' ob'
      \<longleftrightarrow> ogid = ogid' \<and> s = s' \<and> q = q' \<and> ob = ob'"
    unfolding signedObservationMsg_def inj using assms by (intro signedObservation_written_inj)
  show "prepareSignatureMsg C ogid s i d = prepareSignatureMsg C ogid' s' i' d'
      \<longleftrightarrow> ogid = ogid' \<and> s = s' \<and> i = i' \<and> d = d'"
    unfolding prepareSignatureMsg_def inj by (rule prepare_commit_written_inj(1) [OF assms(2,3)])
  show "commitSignatureMsg C ogid s d = commitSignatureMsg C ogid' s' d' \<longleftrightarrow> ogid = ogid' \<and> s = s' \<and> d = d'"
    unfolding commitSignatureMsg_def inj by (rule prepare_commit_written_inj(2) [OF assms(2)])
  show "signedHighestCertifiedTimestampMsg C ogid t = signedHighestCertifiedTimestampMsg C ogid' t' \<longleftrightarrow> ogid = ogid' \<and> t = t'"
    unfolding signedHighestCertifiedTimestampMsg_def inj by (rule timestamp_written_inj [OF assms(2)])
qed

text \<open>Moving a byte from the query to the observation, or changing the sequence number, changes the message.\<close>

theorem signed_messages_unambiguous_witness:
  "signedObservationMsg accept_all \<lparr>ogid_ConfigDigest = [3], ogid_Epoch = 1\<rparr> 5 [7] []
     \<noteq> signedObservationMsg accept_all \<lparr>ogid_ConfigDigest = [3], ogid_Epoch = 1\<rparr> 5 [] [7] \<and>
   signedObservationMsg accept_all \<lparr>ogid_ConfigDigest = [3], ogid_Epoch = 1\<rparr> 5 [7] []
     \<noteq> signedObservationMsg accept_all \<lparr>ogid_ConfigDigest = [3], ogid_Epoch = 1\<rparr> 6 [7] []"
proof -
  have "collision_free accept_all" by (simp add: collision_free_def accept_all_def)
  note unambiguous = signed_messages_unambiguous [OF this _ refl [of "length []"], where s = 5,
    where ogid = "\<lparr>ogid_ConfigDigest = [3], ogid_Epoch = 1\<rparr>" and ogid' = "\<lparr>ogid_ConfigDigest = [3], ogid_Epoch = 1\<rparr>"
      and q = "[7]" and ob = "[]"]
  show ?thesis
    using unambiguous [where q' = "[]" and ob' = "[7]" and s' = 5] unambiguous [where q' = "[7]" and ob' = "[]" and s' = 6]
    by simp
qed

lemma EpochStartProof_Verify_None:
  assumes "EpochStartProof_Verify C qc ogid ids q = Inr None"
  shows "int (length (esp_HighestCertifiedProof qc)) = q \<and>
     distinct (map ashct_Signer (esp_HighestCertifiedProof qc)) \<and>
     (\<forall>x \<in> set (esp_HighestCertifiedProof qc). unat (ashct_Signer x) < length ids \<and>
        SignedHighestCertifiedTimestamp_Verify C (ashct_SignedHighestCertifiedTimestamp x) ogid
          (oi_OffchainPublicKey (ids ! unat (ashct_Signer x))) = None \<and>
        \<not> Less (cert_Timestamp (esp_HighestCertified qc))
            (shct_HighestCertifiedTimestamp (ashct_SignedHighestCertifiedTimestamp x))) \<and>
     cert_Timestamp (esp_HighestCertified qc) \<in>
       (shct_HighestCertifiedTimestamp \<circ> ashct_SignedHighestCertifiedTimestamp) ` set (esp_HighestCertifiedProof qc) \<and>
     cert_Verify C (esp_HighestCertified qc) (ogid_ConfigDigest ogid) ids q = None"
proof -
  obtain x xs where ne: "esp_HighestCertifiedProof qc = x # xs"
    using assms by (auto simp: EpochStartProof_Verify_def bindG_eq_Inr_iff go_index_eq_Inr neq_Nil_conv split: if_splits)
  let ?t = "shct_HighestCertifiedTimestamp (ashct_SignedHighestCertifiedTimestamp x)"
  obtain m where m: "proof_loop C ogid ids [] ?t (x # xs) = Inr m"
    using assms ne by (auto simp: EpochStartProof_Verify_def split: if_splits sum.splits simp del: proof_loop.simps)
  have r: "int (length (esp_HighestCertifiedProof qc)) = q" "cert_Timestamp (esp_HighestCertified qc) = m"
      "cert_Verify C (esp_HighestCertified qc) (ogid_ConfigDigest ogid) ids q = None"
    using assms m ne by (auto simp: EpochStartProof_Verify_def split: if_splits simp del: proof_loop.simps)
  show ?thesis using proof_loop_Inr [OF m] r ne by auto
qed

text \<open>An accepted epoch start proof carries a Byzantine quorum of distinct, validly signed
  timestamps for this epoch, none of them above the timestamp of the certificate it carries,
  and that certificate itself verifies: the new epoch starts at or above what any quorum
  member had certified.\<close>

theorem epoch_start_proof_covers_quorum:
  assumes "EpochStartProof_Verify C qc ogid ids q = Inr None"
  shows "int (length (esp_HighestCertifiedProof qc)) = q \<and>
     distinct (map ashct_Signer (esp_HighestCertifiedProof qc)) \<and>
     (\<forall>x \<in> set (esp_HighestCertifiedProof qc). unat (ashct_Signer x) < length ids \<and>
        SignedHighestCertifiedTimestamp_Verify C (ashct_SignedHighestCertifiedTimestamp x) ogid
          (oi_OffchainPublicKey (ids ! unat (ashct_Signer x))) = None \<and>
        \<not> Less (cert_Timestamp (esp_HighestCertified qc))
            (shct_HighestCertifiedTimestamp (ashct_SignedHighestCertifiedTimestamp x))) \<and>
     cert_Timestamp (esp_HighestCertified qc) \<in>
       (shct_HighestCertifiedTimestamp \<circ> ashct_SignedHighestCertifiedTimestamp) ` set (esp_HighestCertifiedProof qc) \<and>
     cert_Verify C (esp_HighestCertified qc) (ogid_ConfigDigest ogid) ids q = None"
  using assms by (rule EpochStartProof_Verify_None)

definition example_proof :: EpochStartProof where
  "example_proof =
     \<lparr>esp_HighestCertified = CertCommit (example_commit 1 []),
      esp_HighestCertifiedProof = map (\<lambda>i.
        \<lparr>ashct_SignedHighestCertifiedTimestamp =
           \<lparr>shct_HighestCertifiedTimestamp = \<lparr>hct_SeqNr = 1, hct_CommittedElsePrepared = True\<rparr>, shct_Signature = []\<rparr>,
         ashct_Signer = i\<rparr>) [0, 1, 2]\<rparr>"

lemma example_keys:
  "length (oi_OffchainPublicKey (cfg_OracleIdentities example_config ! 0)) = 32"
  "length (oi_OffchainPublicKey (cfg_OracleIdentities example_config ! Suc 0)) = 32"
  "length (oi_OffchainPublicKey (cfg_OracleIdentities example_config ! 2)) = 32"
  by (simp_all add: example_config_def)

lemma accept_all_accepts: "ed25519_Verify accept_all pk msg sig"
  by (simp add: accept_all_def)

lemma example_proof_accepted:
  "EpochStartProof_Verify accept_all example_proof
     \<lparr>ogid_ConfigDigest = cfg_ConfigDigest example_config, ogid_Epoch = 2\<rparr> (cfg_OracleIdentities example_config) 3
   = Inr None"
proof -
  have "CertifiedCommit_Verify accept_all (example_commit 1 []) (cfg_ConfigDigest example_config)
      (cfg_OracleIdentities example_config) 3 = None"
    using example_commit_accepted [of 1 "[]"] by (simp add: commit_accepted_def)
  then show ?thesis
    by (simp add: EpochStartProof_Verify_def example_proof_def SignedHighestCertifiedTimestamp_Verify_def
        ed25519_check_def example_keys ed25519_PublicKeySize_def accept_all_accepts Less_def Let_def)
      (simp add: example_commit_def)
qed

theorem epoch_start_proof_covers_quorum_witness:
  "cert_Verify accept_all (esp_HighestCertified example_proof) (cfg_ConfigDigest example_config)
     (cfg_OracleIdentities example_config) 3 = None"
  using epoch_start_proof_covers_quorum [OF example_proof_accepted] by simp

end
