(* ===== verification/Messages.thy ===== *)
theory Messages
  imports SignedData
begin

text \<open>
  The messages oracles exchange and the events their sub-protocols pass to each other
  (\<open>ocr3/protocol/message.go\<close>), with the size check applied to every received message.
\<close>

section \<open>Reports\<close>

record 'ri ReportWithInfo =
  rwi_Report :: bytes
  rwi_Info :: 'ri

record AttributedOnchainSignature =
  aos_Signature :: bytes
  aos_Signer :: OracleID

record 'ri AttestedReportMany =
  arm_ReportWithInfo :: "'ri ReportWithInfo"
  arm_AttributedSignatures :: "AttributedOnchainSignature list"

section \<open>Events between sub-protocols\<close>

datatype EventToPacemaker = EventProgress | EventNewEpochRequest

datatype EventToOutcomeGeneration = EventNewEpochStart u64

datatype EventToReportAttestation =
    EventMissingOutcome u64
  | EventCommittedOutcome CertifiedCommit

datatype 'ri EventToTransmission =
    EventAttestedReport (ear_SeqNr: u64) (ear_Index: int) (ear_AttestedReport: "'ri AttestedReportMany")

section \<open>Messages\<close>

datatype MessageToPacemaker = MessageNewEpochWish u64

datatype MessageToOutcomeGeneration =
    MessageEpochStartRequest (mog_epoch: u64) CertifiedPrepareOrCommit SignedHighestCertifiedTimestamp
  | MessageEpochStart (mog_epoch: u64) EpochStartProof
  | MessageRoundStart (mog_epoch: u64) u64 bytes
  | MessageObservation (mog_epoch: u64) u64 SignedObservation
  | MessageProposal (mog_epoch: u64) u64 "AttributedSignedObservation list"
  | MessagePrepare (mog_epoch: u64) u64 bytes
  | MessageCommit (mog_epoch: u64) u64 bytes

datatype MessageToReportAttestation =
    MessageReportSignatures u64 "bytes list"
  | MessageCertifiedCommitRequest u64
  | MessageCertifiedCommit CertifiedCommit

datatype Message =
    ToPacemaker MessageToPacemaker
  | ToOutcomeGeneration MessageToOutcomeGeneration
  | ToReportAttestation MessageToReportAttestation

section \<open>Size checks\<close>

fun mtp_CheckSize :: "MessageToPacemaker \<Rightarrow> int \<Rightarrow> int \<Rightarrow> ReportingPluginLimits \<Rightarrow> int \<Rightarrow> bool" where
  "mtp_CheckSize (MessageNewEpochWish e) n f limits maxReportSigLen = True"

fun mog_CheckSize :: "MessageToOutcomeGeneration \<Rightarrow> int \<Rightarrow> int \<Rightarrow> ReportingPluginLimits \<Rightarrow> int \<Rightarrow> bool" where
  "mog_CheckSize (MessageEpochStartRequest e hc shct) n f limits m =
     (if \<not> cert_CheckSize hc n f limits m then False
      else if length (shct_Signature shct) \<noteq> ed25519_SignatureSize then False
      else True)"
| "mog_CheckSize (MessageEpochStart e esp) n f limits m =
     (if \<not> cert_CheckSize (esp_HighestCertified esp) n f limits m then False
      else if int (length (esp_HighestCertifiedProof esp)) \<noteq> byzquorum_Size n f then False
      else list_all (\<lambda>ashct. length (shct_Signature (ashct_SignedHighestCertifiedTimestamp ashct)) = ed25519_SignatureSize)
             (esp_HighestCertifiedProof esp))"
| "mog_CheckSize (MessageRoundStart e s query) n f limits m =
     (int (length query) \<le> lim_MaxQueryLength limits)"
| "mog_CheckSize (MessageObservation e s so) n f limits m =
     (int (length (so_Observation so)) \<le> lim_MaxObservationLength limits \<and>
      length (so_Signature so) = ed25519_SignatureSize)"
| "mog_CheckSize (MessageProposal e s asos) n f limits m =
     (if int (length asos) > n then False
      else list_all (\<lambda>aso.
             \<not> int (length (so_Observation (aso_SignedObservation aso))) > lim_MaxObservationLength limits \<and>
             length (so_Signature (aso_SignedObservation aso)) = ed25519_SignatureSize) asos)"
| "mog_CheckSize (MessagePrepare e s sig) n f limits m = (length sig = ed25519_SignatureSize)"
| "mog_CheckSize (MessageCommit e s sig) n f limits m = (length sig = ed25519_SignatureSize)"

fun mra_CheckSize :: "MessageToReportAttestation \<Rightarrow> int \<Rightarrow> int \<Rightarrow> ReportingPluginLimits \<Rightarrow> int \<Rightarrow> bool" where
  "mra_CheckSize (MessageReportSignatures s sigs) n f limits maxReportSigLen =
     (if int (length sigs) > lim_MaxReportCount limits then False
      else list_all (\<lambda>sig. int (length sig) \<le> maxReportSigLen) sigs)"
| "mra_CheckSize (MessageCertifiedCommitRequest s) n f limits maxReportSigLen = True"
| "mra_CheckSize (MessageCertifiedCommit cc) n f limits maxReportSigLen =
     CertifiedCommit_CheckSize cc n f limits maxReportSigLen"

fun Message_CheckSize :: "Message \<Rightarrow> int \<Rightarrow> int \<Rightarrow> ReportingPluginLimits \<Rightarrow> int \<Rightarrow> bool" where
  "Message_CheckSize (ToPacemaker msg) n f limits m = mtp_CheckSize msg n f limits m"
| "Message_CheckSize (ToOutcomeGeneration msg) n f limits m = mog_CheckSize msg n f limits m"
| "Message_CheckSize (ToReportAttestation msg) n f limits m = mra_CheckSize msg n f limits m"

section \<open>Facts about accepted sizes\<close>

text \<open>A certificate that verifies and respects the outcome limit passes the size check of its
  receiver, provided signatures are checked at their length.\<close>

definition sig_lengths_checked :: "crypto \<Rightarrow> bool" where
  "sig_lengths_checked C \<longleftrightarrow> (\<forall>pk msg sig. ed25519_Verify C pk msg sig \<longrightarrow> length sig = ed25519_SignatureSize)"

lemma CertifiedCommit_CheckSize_verified:
  assumes "sig_lengths_checked C"
    and "CertifiedCommit_Verify C hc cd ids (byzquorum_Size n f) = None"
    and "int (length (cmt_Outcome hc)) \<le> lim_MaxOutcomeLength limits"
  shows "CertifiedCommit_CheckSize hc n f limits m"
  using assms
  by (auto simp: CertifiedCommit_Verify_None CertifiedCommit_CheckSize_def list_all_iff
      CommitSignature_Verify_def ed25519_check_None sig_lengths_checked_def)

lemma CertifiedPrepare_CheckSize_verified:
  assumes "sig_lengths_checked C"
    and "CertifiedPrepare_Verify C hc cd ids (byzquorum_Size n f) = None"
    and "int (length (cp_Outcome hc)) \<le> lim_MaxOutcomeLength limits"
  shows "CertifiedPrepare_CheckSize hc n f limits m"
  using assms
  by (auto simp: CertifiedPrepare_Verify_None CertifiedPrepare_CheckSize_def list_all_iff
      PrepareSignature_Verify_def ed25519_check_None sig_lengths_checked_def)

end
