(* ===== verification/Permutation.thy ===== *)
theory Permutation
  imports Prelude
begin

unbundle bit_operations_syntax

text \<open>
  \<open>permutation/permutation.go\<close>: the keyed pseudorandom permutation that elects leaders and
  orders transmissions. The AES-CTR keystream of a key is a parameter: \<open>stream k\<close> is its
  \<open>k\<close>-th byte. The Fisher-Yates shuffle and the rejection sampling of Go's \<open>math/rand\<close>
  (\<open>Shuffle\<close>, \<open>int31n\<close>, \<open>Uint32\<close>) are written out, for the at most \<open>2^31 - 1\<close> items for
  which \<open>Shuffle\<close> draws 31-bit numbers.
\<close>

section \<open>The random source\<close>

definition decode_le64 :: "bytes \<Rightarrow> u64" where
  "decode_le64 bs = foldr (\<lambda>b a. push_bit 8 a OR ucast b) bs 0"

definition int63Mask :: u64 where
  "int63Mask = push_bit 63 1 - 1"

text \<open>\<open>Int63\<close> takes the next eight keystream bytes; the position in the keystream is the state
  of the source.\<close>

definition Int63 :: "(nat \<Rightarrow> u8) \<Rightarrow> nat \<Rightarrow> u64 \<times> nat" where
  "Int63 stream pos = (decode_le64 (map (\<lambda>i. stream (pos + i)) [0..<8]) AND int63Mask, pos + 8)"

definition rand_Uint32 :: "(nat \<Rightarrow> u8) \<Rightarrow> nat \<Rightarrow> u32 \<times> nat" where
  "rand_Uint32 stream pos = (let (v, pos) = Int63 stream pos in (ucast (drop_bit 31 v), pos))"

section \<open>Bounded draws by rejection\<close>

definition draw_prod :: "u32 \<Rightarrow> u32 \<Rightarrow> u64" where
  "draw_prod n v = ucast v * ucast n"

definition draw_low :: "u32 \<Rightarrow> u32 \<Rightarrow> u32" where
  "draw_low n v = ucast (draw_prod n v)"

partial_function (option) int31n_loop ::
  "(nat \<Rightarrow> u8) \<Rightarrow> u32 \<Rightarrow> u32 \<Rightarrow> u32 \<Rightarrow> nat \<Rightarrow> (u32 \<times> nat) option" where
  [code]: "int31n_loop stream n thresh v pos =
     (if draw_low n v < thresh
      then (let (v', pos') = rand_Uint32 stream pos in int31n_loop stream n thresh v' pos')
      else Some (v, pos))"

definition int31n :: "(nat \<Rightarrow> u8) \<Rightarrow> u32 \<Rightarrow> nat \<Rightarrow> (u32 \<times> nat) option" where
  "int31n stream n pos =
     (let (v, pos) = rand_Uint32 stream pos;
          r = (if draw_low n v < n then int31n_loop stream n (- n mod n) v pos else Some (v, pos))
      in case r of None \<Rightarrow> None
         | Some (v, pos) \<Rightarrow> Some (ucast (drop_bit 32 (draw_prod n v)), pos))"

section \<open>The shuffle\<close>

definition swap :: "int list \<Rightarrow> nat \<Rightarrow> nat \<Rightarrow> int list go" where
  "swap result i j =
     bindG (go_index result j) (\<lambda>xj. bindG (go_index result i) (\<lambda>xi.
       Inr (result[i := xj, j := xi])))"

fun shuffle_loop :: "(nat \<Rightarrow> u8) \<Rightarrow> nat \<Rightarrow> nat \<Rightarrow> int list \<Rightarrow> int list go" where
  "shuffle_loop stream pos 0 result = Inr result"
| "shuffle_loop stream pos (Suc i) result =
     bindG (go_loop (int31n stream (of_nat (Suc i + 1)) pos)) (\<lambda>(j, pos).
     bindG (swap result (Suc i) (unat j)) (\<lambda>result.
       shuffle_loop stream pos i result))"

definition Permutation :: "(bytes \<Rightarrow> nat \<Rightarrow> u8) \<Rightarrow> int \<Rightarrow> bytes \<Rightarrow> int list go" where
  "Permutation aesctr n key =
     (if n < 0 then Inl ExplicitPanic
      else shuffle_loop (aesctr key) 0 (nat (n - 1)) (map int [0..<nat n]))"

section \<open>Draws are in range\<close>

lemma int31n_less:
  assumes "int31n stream n pos = Some (j, pos')" and "n \<noteq> 0"
  shows "j < n"
proof -
  obtain v where j: "j = ucast (drop_bit 32 (draw_prod n v))"
    using assms(1) by (auto simp: int31n_def Let_def split: prod.splits option.splits if_splits)
  have v: "unat v < 2 ^ 32" and n: "unat n < 2 ^ 32" "0 < unat n"
    using unsigned_less [of v] unsigned_less [of n] assms(2) by (auto simp: unat_gt_0)
  have "unat v * unat n < 2 ^ 32 * unat n"
    using v n by simp
  also have "\<dots> < 2 ^ 64" using n by simp
  finally have "unat (draw_prod n v) = unat v * unat n"
    using v n(1) by (simp add: draw_prod_def unat_word_ariths unsigned_ucast_eq take_bit_nat_eq_self)
  then have "unat (drop_bit 32 (draw_prod n v)) = unat v * unat n div 2 ^ 32"
    by (simp only: unat_drop_bit_eq) (simp only: drop_bit_eq_div)
  moreover have "unat v * unat n div 2 ^ 32 < unat n"
    using \<open>unat v * unat n < 2 ^ 32 * unat n\<close> by (simp add: div_less_iff_less_mult mult.commute)
  ultimately have "unat j < unat n"
    using n(1) by (simp add: j unsigned_ucast_eq take_bit_nat_eq_self)
  then show ?thesis by (simp add: word_less_nat_alt)
qed

lemma unat_of_nat_u32: "m < 2 ^ 32 \<Longrightarrow> unat (of_nat m :: u32) = m"
  by (simp add: unat_of_nat)

lemma int31n_index:
  assumes "int31n stream (of_nat (Suc i + 1)) pos = Some (j, pos')" and "Suc i < l" "l < 2 ^ 32"
  shows "unat j < l"
proof -
  have n: "unat (of_nat (Suc i + 1) :: u32) = Suc i + 1"
    using assms by (intro unat_of_nat_u32) simp
  then have "(of_nat (Suc i + 1) :: u32) \<noteq> 0" by (metis Suc_eq_plus1 nat.distinct(1) unat_0)
  with assms(1) have "j < of_nat (Suc i + 1)" by (rule int31n_less)
  then show ?thesis using n assms by (simp only: word_less_nat_alt)
qed

section \<open>The result is a permutation\<close>

lemma swap_mset:
  assumes "i < length xs" "j < length xs"
  shows "swap xs i j = Inr (xs[i := xs ! j, j := xs ! i])"
    and "mset (xs[i := xs ! j, j := xs ! i]) = mset xs"
  using assms by (simp_all add: swap_def mset_swap)

lemma shuffle_loop_perm:
  "i < length result \<Longrightarrow> length result < 2 ^ 32 \<Longrightarrow>
     goP (\<lambda>r. mset r = mset result) (shuffle_loop stream pos i result)"
proof (induction i arbitrary: result pos)
  case (Suc i)
  have "goP (\<lambda>r. mset r = mset result)
          (bindG (swap result (Suc i) (unat j)) (\<lambda>result. shuffle_loop stream pos' i result))"
    if "int31n stream (of_nat (Suc i + 1)) pos = Some (j, pos')" for j pos'
  proof -
    have j: "unat j < length result"
      using that Suc.prems by (rule int31n_index)
    note sw = swap_mset [OF Suc.prems(1) j]
    show ?thesis
      using Suc.IH [of "result[Suc i := result ! unat j, unat j := result ! Suc i]" pos'] Suc.prems
      unfolding sw(1) bindG_simps sw(2) by simp
  qed
  then show ?case
    by (auto simp: go_loop_def split: option.splits prod.splits)
qed simp

lemma Permutation_perm:
  "n < 2 ^ 31 \<Longrightarrow> goP (\<lambda>r. mset r = mset (map int [0..<nat n])) (Permutation aesctr n key)"
proof -
  assume n: "n < 2 ^ 31"
  consider "n < 0" | "n = 0" | "0 < n" by linarith
  then show ?thesis
  proof cases
    case 3
    then show ?thesis
      using n shuffle_loop_perm [of "nat (n - 1)" "map int [0..<nat n]" "aesctr key" 0]
      by (simp add: Permutation_def)
  qed (simp_all add: Permutation_def)
qed

section \<open>The shuffle returns\<close>

text \<open>
  Rejection sampling returns when the keystream keeps producing acceptable draws: for every
  bound \<open>n\<close>, from every position on (the source reads eight bytes per draw), some draw is at
  or above the rejection threshold.
\<close>

definition fair_stream :: "(nat \<Rightarrow> u8) \<Rightarrow> bool" where
  "fair_stream stream \<longleftrightarrow>
     (\<forall>n pos. \<exists>k. \<not> draw_low n (fst (rand_Uint32 stream (pos + 8 * k))) < - n mod n)"

lemma rand_Uint32_pos: "snd (rand_Uint32 stream pos) = pos + 8"
  by (simp add: rand_Uint32_def Int63_def)

lemma int31n_loop_returns:
  "\<not> draw_low n (fst (rand_Uint32 stream (pos + 8 * k))) < thresh \<Longrightarrow>
     int31n_loop stream n thresh v pos \<noteq> None"
proof (induction k arbitrary: v pos)
  case 0
  obtain v' where r: "rand_Uint32 stream pos = (v', pos + 8)"
    using rand_Uint32_pos by (metis prod.collapse)
  then have "int31n_loop stream n thresh v' (pos + 8) = Some (v', pos + 8)"
    using 0 by (subst int31n_loop.simps) simp
  then show ?case by (subst int31n_loop.simps) (simp add: r)
next
  case (Suc k)
  obtain v' where r: "rand_Uint32 stream pos = (v', pos + 8)"
    using rand_Uint32_pos by (metis prod.collapse)
  have "int31n_loop stream n thresh v' (pos + 8) \<noteq> None"
    using Suc.prems by (intro Suc.IH) (simp add: algebra_simps)
  then show ?case by (subst int31n_loop.simps) (simp add: r)
qed

lemma int31n_returns: "fair_stream stream \<Longrightarrow> int31n stream n pos \<noteq> None"
proof -
  assume "fair_stream stream"
  then have loop: "int31n_loop stream n (- n mod n) v p \<noteq> None" for v p
    using int31n_loop_returns unfolding fair_stream_def by meson
  obtain v p where "rand_Uint32 stream pos = (v, p)" by fastforce
  then show ?thesis
    using loop [of v p] by (auto simp: int31n_def)
qed

lemma shuffle_loop_returns:
  assumes "fair_stream stream"
  shows "i < length result \<Longrightarrow> length result < 2 ^ 32 \<Longrightarrow> \<exists>r. shuffle_loop stream pos i result = Inr r"
proof (induction i arbitrary: result pos)
  case (Suc i)
  obtain j pos' where d: "int31n stream (of_nat (Suc i + 1)) pos = Some (j, pos')"
    using int31n_returns [OF assms] by fastforce
  have j: "unat j < length result"
    using d Suc.prems by (rule int31n_index)
  show ?case
    using Suc.IH [of "result[Suc i := result ! unat j, unat j := result ! Suc i]" pos'] Suc.prems d
      swap_mset(1) [OF Suc.prems(1) j]
    by simp
qed simp

lemma Permutation_returns:
  assumes "fair_stream (aesctr key)" "0 \<le> n" "n < 2 ^ 31"
  shows "goT (\<lambda>r. mset r = mset (map int [0..<nat n])) (Permutation aesctr n key)"
proof -
  have "\<exists>r. Permutation aesctr n key = Inr r"
  proof (cases "n = 0")
    case False
    then show ?thesis
      using shuffle_loop_returns [OF assms(1), of "nat (n - 1)" "map int [0..<nat n]"] assms
      by (simp add: Permutation_def)
  qed (simp add: Permutation_def)
  then show ?thesis
    using Permutation_perm [OF assms(3), of aesctr key] by (auto simp: goT_iff simp del: mset_map)
qed

lemma perm_nth_bij:
  assumes "mset r = mset (map int [0..<n])"
  shows "length r = n" "distinct r" "set r = int ` {..<n}"
  using assms mset_eq_length [OF assms] mset_eq_imp_distinct_iff [OF assms] mset_eq_setD [OF assms]
  by (auto simp: distinct_map atLeast0LessThan)

section \<open>Properties\<close>

lemma rand_Uint32_ones: "fst (rand_Uint32 (\<lambda>_. 255) pos) = - 1"
  by (simp add: rand_Uint32_def Int63_def decode_le64_def int63Mask_def upt_conv_Cons)

lemma fair_stream_ones: "fair_stream (\<lambda>_. 255)"
proof -
  have "\<not> draw_low n (- 1) < - n mod n" for n :: u32
  proof -
    have m: "unat (- 1 :: u32) = 2 ^ 32 - 1" by (simp add: unsigned_minus_1_eq_mask mask_eq_exp_minus_1)
    have "unat (draw_prod n (- 1)) = (2 ^ 32 - 1) * unat n"
    proof -
      have n: "unat n < 2 ^ 32" using unsigned_less [of n] by simp
      then have "(2 ^ 32 - 1) * unat n < 2 ^ 64" by simp
      then show ?thesis
        using n m
        by (simp add: draw_prod_def unat_word_ariths unsigned_ucast_eq take_bit_nat_eq_self)
    qed
    then have "unat (draw_low n (- 1)) = (2 ^ 32 - 1) * unat n mod 2 ^ 32"
      by (simp add: draw_low_def unsigned_ucast_eq take_bit_eq_mod)
    moreover have "unat (- n) = (2 ^ 32 - 1) * unat n mod 2 ^ 32"
      using unat_word_ariths(2) [of "- 1" n] m by simp
    ultimately have "draw_low n (- 1) = - n" by (simp add: word_unat_eq_iff)
    then show ?thesis
      by (simp add: not_less word_le_nat_alt unat_mod)
  qed
  then show ?thesis
    unfolding fair_stream_def rand_Uint32_ones by blast
qed

text \<open>For every key whose keystream is fair, the shuffle returns, and its result is a
  rearrangement of \<open>0, ..., n - 1\<close>.\<close>

theorem Permutation_is_permutation:
  assumes "fair_stream (aesctr key)" and "0 \<le> n" and "n < 2 ^ 31"
  shows "\<exists>pi. Permutation aesctr n key = Inr pi \<and> mset pi = mset (map int [0..<nat n])"
  using Permutation_returns [of aesctr key n] assms by (auto simp: goT_iff)

theorem Permutation_is_permutation_witness:
  "\<exists>pi. Permutation (\<lambda>_ _. 255) 4 [] = Inr pi \<and> mset pi = mset (map int [0..<4])"
  using Permutation_is_permutation [of "\<lambda>_ _. 255" "[]" 4] fair_stream_ones by simp

end
