(* ===== verification/Pacemaker.thy ===== *)
theory Pacemaker
  imports Messages Permutation
begin

text \<open>
  The pacemaker (\<open>ocr3/protocol/pacemaker.go\<close>): moves the oracle from epoch to epoch. Each
  handler takes the environment and the state and returns the new state or a panic. What a
  handler sends, writes or notifies is appended to the ghost field \<open>pace_effects\<close>.
\<close>

section \<open>Leader election\<close>

definition Leader :: "crypto \<Rightarrow> (bytes \<Rightarrow> nat \<Rightarrow> u8) \<Rightarrow> u64 \<Rightarrow> int \<Rightarrow> bytes \<Rightarrow> OracleID go" where
  "Leader C aesctr epoch n key =
     (let n64 = (of_int n :: u64)
      in if n64 = 0 then Inl DivideByZero
         else
           let span = epoch div n64; epochInSpan = epoch mod n64;
               permutationKey = go_copy 16 (hmac_sha256 C key (be64 span))
           in bindG (Permutation aesctr n permutationKey) (\<lambda>pi.
              bindG (go_index pi (unat epochInSpan)) (\<lambda>l. Inr (of_int l))))"

text \<open>The epochs \<open>span * n, ..., span * n + n - 1\<close> share one permutation key.\<close>

lemma Leader_in_span:
  assumes n: "0 < n" "n < 256" and i: "i < nat n" and s: "(span + 1) * nat n \<le> 2 ^ 64"
  shows "Leader C aesctr (of_nat (span * nat n + i)) n key =
     bindG (Permutation aesctr n (go_copy 16 (hmac_sha256 C key (be64 (of_nat span))))) (\<lambda>pi.
     bindG (go_index pi i) (\<lambda>l. Inr (of_int l)))"
proof -
  have n64: "unat (of_int n :: u64) = nat n"
  proof -
    have "(of_int n :: u64) = of_nat (nat n)" using n by simp
    moreover have "nat n < 2 ^ 64" using n by simp
    ultimately show ?thesis by (simp add: unat_of_nat)
  qed
  have "span * nat n + i < 2 ^ 64" using i s by (simp add: algebra_simps)
  then have e: "unat (of_nat (span * nat n + i) :: u64) = span * nat n + i"
    by (simp only: unat_of_nat) simp
  have d: "(span * nat n + i) div nat n = span" "(span * nat n + i) mod nat n = i"
    using i by simp_all
  have "1 \<le> nat n" using n by simp
  then have "span \<le> span * nat n" by simp
  moreover have "span * nat n < 2 ^ 64" using i s by (simp add: algebra_simps)
  ultimately have "span < 2 ^ 64" by (rule le_less_trans)
  then have sp: "unat (of_nat span :: u64) = span" by (simp add: unat_of_nat)
  have "(of_nat (span * nat n + i) :: u64) div of_int n = of_nat span"
    by (simp only: word_unat_eq_iff unat_div e n64 d sp)
  moreover have "unat ((of_nat (span * nat n + i) :: u64) mod of_int n) = i"
    by (simp only: unat_mod e n64 d)
  moreover have "(of_int n :: u64) \<noteq> 0"
    using n64 n by (metis unat_0 nat_0_iff not_le zero_less_nat_eq less_irrefl)
  ultimately show ?thesis
    unfolding Leader_def Let_def by (simp only: if_False)
qed

section \<open>State\<close>

record PacemakerState =
  ps_Epoch :: u64
  ps_HighestSentNewEpochWish :: u64

definition zero_PacemakerState :: PacemakerState where
  "zero_PacemakerState = \<lparr>ps_Epoch = 0, ps_HighestSentNewEpochWish = 0\<rparr>"

datatype pace_effect =
    PaceBroadcast MessageToPacemaker
  | PaceWrite PacemakerState bool  \<comment> \<open>a database write and whether it succeeded\<close>
  | PaceNotify EventToOutcomeGeneration

record pacemakerState =
  pace_ne :: u64
  pace_e :: u64
  pace_l :: OracleID
  pace_newEpochWishes :: "u64 list"
  pace_tResend :: "Duration timer"
  pace_tProgress :: "Duration timer"
  pace_notifyOutcomeGenerationOfNewEpoch :: bool
  pace_effects :: "pace_effect list"

text \<open>
  The environment: configuration, cryptography, and whether the database write that is the
  \<open>k\<close>-th effect succeeds.
\<close>

record pace_env =
  pe_crypto :: crypto
  pe_aesctr :: "bytes \<Rightarrow> nat \<Rightarrow> u8"
  pe_config :: SharedConfig
  pe_dbWrite :: "nat \<Rightarrow> bool"

definition pe_Leader :: "pace_env \<Rightarrow> u64 \<Rightarrow> OracleID go" where
  "pe_Leader env epoch =
     Leader (pe_crypto env) (pe_aesctr env) epoch (cfg_N (pe_config env))
       (LeaderSelectionKey (pe_crypto env) (pe_config env))"

definition makePacemakerState :: "pace_env \<Rightarrow> pacemakerState" where
  "makePacemakerState env =
     \<lparr>pace_ne = 0, pace_e = 0, pace_l = 0,
      pace_newEpochWishes = replicate (nat (cfg_N (pe_config env))) 0,
      pace_tResend = TNil, pace_tProgress = TNil,
      pace_notifyOutcomeGenerationOfNewEpoch = False, pace_effects = []\<rparr>"

section \<open>Handlers\<close>

definition pace_emit :: "pace_effect \<Rightarrow> pacemakerState \<Rightarrow> pacemakerState" where
  "pace_emit x st = st\<lparr>pace_effects := pace_effects st @ [x]\<rparr>"

definition sendNewEpochWish :: "pace_env \<Rightarrow> pacemakerState \<Rightarrow> pacemakerState" where
  "sendNewEpochWish env st =
     (pace_emit (PaceBroadcast (MessageNewEpochWish (pace_ne st))) st)
       \<lparr>pace_tResend := TArmed (cfg_DeltaResend (pe_config env))\<rparr>"

definition persist :: "pace_env \<Rightarrow> PacemakerState \<Rightarrow> pacemakerState \<Rightarrow> pacemakerState" where
  "persist env s st = pace_emit (PaceWrite s (pe_dbWrite env (length (pace_effects st)))) st"

definition eventProgress :: "pace_env \<Rightarrow> pacemakerState \<Rightarrow> pacemakerState" where
  "eventProgress env st = st\<lparr>pace_tProgress := TArmed (cfg_DeltaProgress (pe_config env))\<rparr>"

definition eventTResendTimeout :: "pace_env \<Rightarrow> pacemakerState \<Rightarrow> pacemakerState" where
  "eventTResendTimeout env st = sendNewEpochWish env st"

definition eventNewEpochRequest :: "pace_env \<Rightarrow> pacemakerState \<Rightarrow> pacemakerState" where
  "eventNewEpochRequest env st =
     (let st = st\<lparr>pace_tProgress := TNil\<rparr>;
          epochPlusOne = pace_e st + 1
      in if epochPlusOne \<le> pace_e st then st
         else
           let st = (if pace_ne st < epochPlusOne
                     then (persist env \<lparr>ps_Epoch = pace_e st, ps_HighestSentNewEpochWish = epochPlusOne\<rparr> st)
                            \<lparr>pace_ne := epochPlusOne\<rparr>
                     else st)
           in sendNewEpochWish env st)"

definition eventTProgressTimeout :: "pace_env \<Rightarrow> pacemakerState \<Rightarrow> pacemakerState" where
  "eventTProgressTimeout env st = eventNewEpochRequest env st"

definition sortedGreaterThan :: "u64 list \<Rightarrow> u64 \<Rightarrow> u64 list" where
  "sortedGreaterThan xs y = sort (filter (\<lambda>x. x > y) xs)"

text \<open>The two rules of \<open>messageNewEpochWish\<close>: the epoch to wish for and the epoch to switch to,
  \<open>0\<close> when the rule is not triggered.\<close>

definition ruleEpoch :: "int \<Rightarrow> u64 list \<Rightarrow> u64 \<Rightarrow> u64 go" where
  "ruleEpoch k wishes bound =
     (let candidateEpochs = sortedGreaterThan wishes bound
      in if int (length candidateEpochs) > k
         then go_index_int candidateEpochs (int (length candidateEpochs) - (k + 1))
         else Inr 0)"

definition persistedChange :: "pacemakerState \<Rightarrow> u64 \<Rightarrow> u64 \<Rightarrow> PacemakerState" where
  "persistedChange st wishForEpoch switchToEpoch =
     (let wish = (if wishForEpoch = 0 then pace_ne st else wishForEpoch);
          epoch = (if switchToEpoch = 0 then pace_e st else switchToEpoch)
      in \<lparr>ps_Epoch = epoch, ps_HighestSentNewEpochWish = (if wish < epoch then epoch else wish)\<rparr>)"

definition switchEpoch :: "pace_env \<Rightarrow> u64 \<Rightarrow> pacemakerState \<Rightarrow> pacemakerState go" where
  "switchEpoch env switchToEpoch st =
     bindG (pe_Leader env switchToEpoch) (\<lambda>l.
       let st = st\<lparr>pace_e := switchToEpoch, pace_l := l\<rparr>;
           st = (if pace_ne st < pace_e st then st\<lparr>pace_ne := pace_e st\<rparr> else st)
       in Inr (st\<lparr>pace_tProgress := TArmed (cfg_DeltaProgress (pe_config env)),
                  pace_notifyOutcomeGenerationOfNewEpoch := True\<rparr>))"

definition messageNewEpochWish :: "pace_env \<Rightarrow> u64 \<Rightarrow> OracleID \<Rightarrow> pacemakerState \<Rightarrow> pacemakerState go" where
  "messageNewEpochWish env epoch sender st =
     bindG (go_index (pace_newEpochWishes st) (unat sender)) (\<lambda>w.
     let st = (if w < epoch
               then st\<lparr>pace_newEpochWishes := (pace_newEpochWishes st)[unat sender := epoch]\<rparr>
               else st)
     in bindG (ruleEpoch (cfg_F (pe_config env)) (pace_newEpochWishes st) (pace_ne st)) (\<lambda>wishForEpoch.
        bindG (ruleEpoch (2 * cfg_F (pe_config env)) (pace_newEpochWishes st) (pace_e st)) (\<lambda>switchToEpoch.
          let st = (if wishForEpoch \<noteq> 0 \<or> switchToEpoch \<noteq> 0
                    then persist env (persistedChange st wishForEpoch switchToEpoch) st else st);
              st = (if wishForEpoch \<noteq> 0 then sendNewEpochWish env (st\<lparr>pace_ne := wishForEpoch\<rparr>) else st)
          in if switchToEpoch \<noteq> 0 then switchEpoch env switchToEpoch st else Inr st)))"

section \<open>The event loop\<close>

definition run_init :: "pace_env \<Rightarrow> PacemakerState \<Rightarrow> pacemakerState go" where
  "run_init env restoredState =
     (let st = makePacemakerState env;
          st = (if restoredState = zero_PacemakerState
                then st\<lparr>pace_ne := 1, pace_e := 1\<rparr>
                else st\<lparr>pace_ne := ps_HighestSentNewEpochWish restoredState, pace_e := ps_Epoch restoredState\<rparr>)
      in bindG (pe_Leader env (pace_e st)) (\<lambda>l.
           let st = st\<lparr>pace_l := l, pace_tProgress := TArmed (cfg_DeltaProgress (pe_config env))\<rparr>
           in Inr ((sendNewEpochWish env st)\<lparr>pace_notifyOutcomeGenerationOfNewEpoch := True\<rparr>)))"

text \<open>One turn of the loop takes one ready case of the \<open>select\<close>.\<close>

datatype pace_case =
    PaceNotified
  | PaceMessage MessageToPacemaker OracleID
  | PaceEvent EventToPacemaker
  | PaceTResend
  | PaceTProgress

fun pace_ready :: "pacemakerState \<Rightarrow> pace_case \<Rightarrow> bool" where
  "pace_ready st PaceNotified = pace_notifyOutcomeGenerationOfNewEpoch st"
| "pace_ready st (PaceMessage msg sender) = True"
| "pace_ready st (PaceEvent ev) = True"
| "pace_ready st PaceTResend = (\<exists>d. pace_tResend st = TArmed d)"
| "pace_ready st PaceTProgress = (\<exists>d. pace_tProgress st = TArmed d)"

fun pace_process :: "pace_env \<Rightarrow> pace_case \<Rightarrow> pacemakerState \<Rightarrow> pacemakerState go" where
  "pace_process env PaceNotified st =
     Inr ((pace_emit (PaceNotify (EventNewEpochStart (pace_e st))) st)
            \<lparr>pace_notifyOutcomeGenerationOfNewEpoch := False\<rparr>)"
| "pace_process env (PaceMessage (MessageNewEpochWish epoch) sender) st = messageNewEpochWish env epoch sender st"
| "pace_process env (PaceEvent EventProgress) st = Inr (eventProgress env st)"
| "pace_process env (PaceEvent EventNewEpochRequest) st = Inr (eventNewEpochRequest env st)"
| "pace_process env PaceTResend st = Inr (eventTResendTimeout env (st\<lparr>pace_tResend := TFired\<rparr>))"
| "pace_process env PaceTProgress st = Inr (eventTProgressTimeout env (st\<lparr>pace_tProgress := TFired\<rparr>))"

inductive pace_step :: "pace_env \<Rightarrow> pacemakerState \<Rightarrow> pace_case \<Rightarrow> pacemakerState \<Rightarrow> bool" for env where
  "pace_ready st c \<Longrightarrow> pace_process env c st = Inr st' \<Longrightarrow> pace_step env st c st'"

inductive pace_reach :: "pace_env \<Rightarrow> PacemakerState \<Rightarrow> pacemakerState \<Rightarrow> bool" for env restored where
  pace_reach_init: "run_init env restored = Inr st \<Longrightarrow> pace_reach env restored st"
| pace_reach_step: "pace_reach env restored st \<Longrightarrow> pace_step env st c st' \<Longrightarrow> pace_reach env restored st'"

inductive_cases pace_stepE: "pace_step env st c st'"

section \<open>The two threshold rules\<close>

definition count_ge :: "u64 list \<Rightarrow> u64 \<Rightarrow> nat" where
  "count_ge wishes e = length (filter (\<lambda>x. e \<le> x) wishes)"

lemma count_ge_antimono: "e \<le> e' \<Longrightarrow> count_ge ws e' \<le> count_ge ws e"
  unfolding count_ge_def by (induction ws) auto

lemma sortedGreaterThan_simps [simp]:
  "set (sortedGreaterThan xs y) = {x \<in> set xs. y < x}"
  "sorted (sortedGreaterThan xs y)"
  "length (sortedGreaterThan xs y) = length (filter (\<lambda>x. y < x) xs)"
  by (simp_all add: sortedGreaterThan_def)

lemma count_ge_candidates:
  assumes "y < e"
  shows "count_ge xs e = length (filter (\<lambda>x. e \<le> x) (sortedGreaterThan xs y))"
proof -
  have "count_ge xs e = length (filter (\<lambda>x. e \<le> x) (filter (\<lambda>x. y < x) xs))"
    using assms unfolding count_ge_def filter_filter by (metis order_less_le_trans)
  also have "\<dots> = length (filter (\<lambda>x. e \<le> x) (sortedGreaterThan xs y))"
    by (simp add: sortedGreaterThan_def filter_sort)
  finally show ?thesis .
qed

lemma sorted_nth_above:
  fixes cs :: "'a::linorder list"
  assumes "sorted cs" "i < length cs" "cs ! i < e"
  shows "length (filter (\<lambda>x. e \<le> x) cs) < length cs - i"
proof -
  have "filter (\<lambda>x. e \<le> x) (take (Suc i) cs) = []"
    using assms by (auto simp: filter_empty_conv in_set_conv_nth)
      (metis less_Suc_eq_le not_less order_less_le_trans sorted_nth_mono)
  then have "length (filter (\<lambda>x. e \<le> x) cs) = length (filter (\<lambda>x. e \<le> x) (drop (Suc i) cs))"
    by (metis append_Nil append_take_drop_id filter_append)
  also have "\<dots> \<le> length cs - Suc i"
    by (metis length_drop length_filter_le)
  finally show ?thesis using assms(2) by linarith
qed

text \<open>\<open>ruleEpoch k\<close> finds the largest epoch above the bound wished for by more than \<open>k\<close> oracles.\<close>

lemma ruleEpoch_returns:
  assumes "0 \<le> k"
  shows "goT (\<lambda>e. if int (length (filter (\<lambda>x. bound < x) ws)) > k
                  then bound < e \<and> e \<in> set ws \<and> k < int (count_ge ws e) \<and>
                       (\<forall>e'. bound < e' \<and> k < int (count_ge ws e') \<longrightarrow> e' \<le> e)
                  else e = 0) (ruleEpoch k ws bound)"
proof (cases "int (length (filter (\<lambda>x. bound < x) ws)) > k")
  case True
  define cs where "cs = sortedGreaterThan ws bound"
  define i where "i = nat (int (length cs) - (k + 1))"
  have i: "i < length cs" "length cs - i = nat (k + 1)"
    using True assms by (auto simp: i_def cs_def)
  have "ruleEpoch k ws bound = Inr (cs ! i)"
    using True assms i by (simp add: ruleEpoch_def Let_def flip: cs_def) (simp add: cs_def i_def)
  moreover have mem: "cs ! i \<in> {x \<in> set ws. bound < x}"
    using nth_mem [OF i(1)] by (simp add: cs_def)
  moreover have "k < int (count_ge ws (cs ! i))"
    using sorted_nth_count_ge [of cs i] i mem assms
    by (simp add: count_ge_candidates [of bound] cs_def)
  moreover have "e' \<le> cs ! i" if "bound < e'" "k < int (count_ge ws e')" for e'
  proof (rule ccontr)
    assume "\<not> e' \<le> cs ! i"
    then have "length (filter (\<lambda>x. e' \<le> x) cs) < nat (k + 1)"
      using sorted_nth_above [of cs i e'] i by (simp add: cs_def)
    then show False
      using that assms by (simp add: count_ge_candidates [of bound] cs_def)
  qed
  ultimately show ?thesis using True by (simp add: goT_iff)
qed (simp add: ruleEpoch_def)

lemma ruleEpoch_cases:
  assumes "0 \<le> k" "ruleEpoch k ws bound = Inr e"
  shows "e = 0 \<and> int (length (filter (\<lambda>x. bound < x) ws)) \<le> k
       \<or> bound < e \<and> e \<in> set ws \<and> k < int (count_ge ws e) \<and>
         (\<forall>e'. bound < e' \<and> k < int (count_ge ws e') \<longrightarrow> e' \<le> e)"
  using ruleEpoch_returns [OF assms(1), of bound ws] assms(2) by (auto split: if_splits)

lemma ruleEpoch_nonzero:
  assumes "0 \<le> k" "ruleEpoch k ws bound = Inr e" "e \<noteq> 0"
  shows "bound < e \<and> k < int (count_ge ws e)"
  using ruleEpoch_cases [OF assms(1,2)] assms(3) by blast

lemma ruleEpoch_total: "0 \<le> k \<Longrightarrow> \<exists>e. ruleEpoch k ws bound = Inr e"
  using ruleEpoch_returns [of k bound ws] by (auto simp: goT_iff)

section \<open>One oracle's invariant\<close>

text \<open>The invariant of the event loop: one wish per oracle, the current epoch is at most the
  highest wish, and \<open>l\<close> leads the current epoch.\<close>

definition pace_ok :: "pace_env \<Rightarrow> pacemakerState \<Rightarrow> bool" where
  "pace_ok env st \<longleftrightarrow>
     int (length (pace_newEpochWishes st)) = cfg_N (pe_config env) \<and>
     0 < pace_e st \<and> pace_e st \<le> pace_ne st \<and>
     pe_Leader env (pace_e st) = Inr (pace_l st)"

text \<open>\<open>pace_le\<close>: epochs, wishes and the record of effects only grow.\<close>

definition pace_le :: "pacemakerState \<Rightarrow> pacemakerState \<Rightarrow> bool" where
  "pace_le st st' \<longleftrightarrow>
     pace_e st \<le> pace_e st' \<and> pace_ne st \<le> pace_ne st' \<and>
     length (pace_newEpochWishes st') = length (pace_newEpochWishes st) \<and>
     (\<forall>j < length (pace_newEpochWishes st). pace_newEpochWishes st ! j \<le> pace_newEpochWishes st' ! j) \<and>
     (\<exists>xs. pace_effects st' = pace_effects st @ xs)"

lemma pace_le_refl [simp]: "pace_le st st"
  by (simp add: pace_le_def)

lemma pace_le_trans: "pace_le a b \<Longrightarrow> pace_le b c \<Longrightarrow> pace_le a c"
  unfolding pace_le_def by (auto intro: order_trans)

lemmas pace_defs = pace_emit_def sendNewEpochWish_def persist_def Let_def

lemma persistedChange_ok:
  "ps_Epoch (persistedChange st w s) \<le> ps_HighestSentNewEpochWish (persistedChange st w s)"
  by (auto simp: persistedChange_def Let_def)

lemma eventNewEpochRequest_ok:
  "pace_ok env st \<Longrightarrow> pace_ok env (eventNewEpochRequest env st) \<and> pace_le st (eventNewEpochRequest env st)"
  by (auto simp: pace_ok_def pace_le_def eventNewEpochRequest_def pace_defs)

lemma sendNewEpochWish_ok:
  "pace_ok env st \<Longrightarrow> pace_ok env (sendNewEpochWish env st) \<and> pace_le st (sendNewEpochWish env st)"
  by (auto simp: pace_ok_def pace_le_def pace_defs)

lemma switchEpoch_Inr:
  "switchEpoch env e st = Inr st' \<longleftrightarrow>
     (\<exists>l. pe_Leader env e = Inr l \<and>
        st' = st\<lparr>pace_e := e, pace_l := l, pace_ne := max (pace_ne st) e,
                 pace_tProgress := TArmed (cfg_DeltaProgress (pe_config env)),
                 pace_notifyOutcomeGenerationOfNewEpoch := True\<rparr>)"
  by (auto simp: switchEpoch_def bindG_eq_Inr_iff Let_def max_def)

text \<open>What \<open>messageNewEpochWish\<close> does, in one statement.\<close>

definition wish_recorded :: "u64 \<Rightarrow> OracleID \<Rightarrow> pacemakerState \<Rightarrow> u64 list" where
  "wish_recorded epoch sender st =
     (pace_newEpochWishes st)[unat sender := max (pace_newEpochWishes st ! unat sender) epoch]"

lemma messageNewEpochWish_Inr:
  assumes "messageNewEpochWish env epoch sender st = Inr st'"
  obtains wish switch where
    "unat sender < length (pace_newEpochWishes st)"
    "pace_newEpochWishes st' = wish_recorded epoch sender st"
    "ruleEpoch (cfg_F (pe_config env)) (wish_recorded epoch sender st) (pace_ne st) = Inr wish"
    "ruleEpoch (2 * cfg_F (pe_config env)) (wish_recorded epoch sender st) (pace_e st) = Inr switch"
    "pace_e st' = (if switch = 0 then pace_e st else switch)"
    "pace_ne st' = max (if wish = 0 then pace_ne st else wish) (if switch = 0 then 0 else switch)"
    "if switch = 0 then pace_l st' = pace_l st else pe_Leader env switch = Inr (pace_l st')"
    "pace_effects st' = pace_effects st
       @ (if wish = 0 \<and> switch = 0 then []
          else [PaceWrite (persistedChange st wish switch) (pe_dbWrite env (length (pace_effects st)))])
       @ (if wish = 0 then [] else [PaceBroadcast (MessageNewEpochWish wish)])"
    "pace_notifyOutcomeGenerationOfNewEpoch st' = (switch \<noteq> 0 \<or> pace_notifyOutcomeGenerationOfNewEpoch st)"
proof -
  define st1 where "st1 = st\<lparr>pace_newEpochWishes := wish_recorded epoch sender st\<rparr>"
  have st1: "(if pace_newEpochWishes st ! unat sender < epoch
              then st\<lparr>pace_newEpochWishes := (pace_newEpochWishes st)[unat sender := epoch]\<rparr>
              else st) = st1" if "unat sender < length (pace_newEpochWishes st)"
    using that by (auto simp: st1_def wish_recorded_def max_def)
  have bnd: "unat sender < length (pace_newEpochWishes st)"
    using assms by (auto simp: messageNewEpochWish_def bindG_eq_Inr_iff go_index_eq_Inr)
  define rest where "rest = (\<lambda>wish switch.
     let st = (if wish \<noteq> 0 \<or> switch \<noteq> 0 then persist env (persistedChange st1 wish switch) st1 else st1);
         st = (if wish \<noteq> 0 then sendNewEpochWish env (st\<lparr>pace_ne := wish\<rparr>) else st)
     in if switch \<noteq> 0 then switchEpoch env switch st else Inr st)"
  have eq: "messageNewEpochWish env epoch sender st =
      bindG (ruleEpoch (cfg_F (pe_config env)) (pace_newEpochWishes st1) (pace_ne st1)) (\<lambda>wish.
      bindG (ruleEpoch (2 * cfg_F (pe_config env)) (pace_newEpochWishes st1) (pace_e st1)) (\<lambda>switch.
        rest wish switch))"
    unfolding messageNewEpochWish_def go_index_in [OF bnd] bindG_simps Let_def st1 [OF bnd] rest_def ..
  obtain wish switch where
      r: "ruleEpoch (cfg_F (pe_config env)) (pace_newEpochWishes st1) (pace_ne st1) = Inr wish"
         "ruleEpoch (2 * cfg_F (pe_config env)) (pace_newEpochWishes st1) (pace_e st1) = Inr switch"
    and res: "rest wish switch = Inr st'"
    using assms unfolding eq bindG_eq_Inr_iff by blast
  show ?thesis
  proof (rule that [OF bnd _ r [unfolded st1_def, simplified]])
    have pc: "persistedChange st1 wish switch = persistedChange st wish switch"
      by (simp add: persistedChange_def st1_def)
    note res' = res [unfolded rest_def pc Let_def]
    show "pace_newEpochWishes st' = wish_recorded epoch sender st"
      "pace_e st' = (if switch = 0 then pace_e st else switch)"
      "pace_ne st' = max (if wish = 0 then pace_ne st else wish) (if switch = 0 then 0 else switch)"
      "if switch = 0 then pace_l st' = pace_l st else pe_Leader env switch = Inr (pace_l st')"
      "pace_effects st' = pace_effects st
         @ (if wish = 0 \<and> switch = 0 then []
            else [PaceWrite (persistedChange st wish switch) (pe_dbWrite env (length (pace_effects st)))])
         @ (if wish = 0 then [] else [PaceBroadcast (MessageNewEpochWish wish)])"
      "pace_notifyOutcomeGenerationOfNewEpoch st' = (switch \<noteq> 0 \<or> pace_notifyOutcomeGenerationOfNewEpoch st)"
      using res' by (auto simp: switchEpoch_Inr st1_def pace_defs split: if_splits)
  qed
qed

lemma messageNewEpochWish_ok:
  assumes ok: "pace_ok env st" and F: "0 \<le> cfg_F (pe_config env)"
    and r: "messageNewEpochWish env epoch sender st = Inr st'"
  shows "pace_ok env st' \<and> pace_le st st'"
  using r
proof (rule messageNewEpochWish_Inr)
  fix wish switch
  assume a: "unat sender < length (pace_newEpochWishes st)"
    "pace_newEpochWishes st' = wish_recorded epoch sender st"
    "ruleEpoch (cfg_F (pe_config env)) (wish_recorded epoch sender st) (pace_ne st) = Inr wish"
    "ruleEpoch (2 * cfg_F (pe_config env)) (wish_recorded epoch sender st) (pace_e st) = Inr switch"
    "pace_e st' = (if switch = 0 then pace_e st else switch)"
    "pace_ne st' = max (if wish = 0 then pace_ne st else wish) (if switch = 0 then 0 else switch)"
    "if switch = 0 then pace_l st' = pace_l st else pe_Leader env switch = Inr (pace_l st')"
    and eff: "pace_effects st' = pace_effects st
       @ (if wish = 0 \<and> switch = 0 then []
          else [PaceWrite (persistedChange st wish switch) (pe_dbWrite env (length (pace_effects st)))])
       @ (if wish = 0 then [] else [PaceBroadcast (MessageNewEpochWish wish)])"
  have w: "wish = 0 \<or> pace_ne st < wish" and s: "switch = 0 \<or> pace_e st < switch"
    using ruleEpoch_nonzero [OF _ a(3)] ruleEpoch_nonzero [OF _ a(4)] F by auto
  have "pace_le st st'"
    using w s a(1,2,5,6) eff by (auto simp: pace_le_def wish_recorded_def nth_list_update max_def)
  moreover have "pace_ok env st'"
    using ok w s a(1,2,5,6,7)
    by (auto simp: pace_ok_def wish_recorded_def max_def word_gt_0 split: if_splits)
  ultimately show ?thesis by simp
qed

lemma pace_step_ok:
  assumes "pace_step env st c st'" "pace_ok env st" "0 \<le> cfg_F (pe_config env)"
  shows "pace_ok env st' \<and> pace_le st st'"
  using assms(1)
proof (rule pace_stepE)
  assume ready: "pace_ready st c" and r: "pace_process env c st = Inr st'"
  have upd: "pace_ok env (st\<lparr>pace_tResend := t\<rparr>) = pace_ok env st"
       "pace_ok env (st\<lparr>pace_tProgress := t\<rparr>) = pace_ok env st"
       "pace_le (st\<lparr>pace_tResend := t\<rparr>) st' = pace_le st st'"
       "pace_le (st\<lparr>pace_tProgress := t\<rparr>) st' = pace_le st st'" for t
    by (simp_all add: pace_ok_def pace_le_def)
  show ?thesis
  proof (cases "(env, c, st)" rule: pace_process.cases)
    case (2 env' epoch sender st'')
    then show ?thesis using r assms messageNewEpochWish_ok by fastforce
  next
    case (4 env' st'')
    then show ?thesis using r assms eventNewEpochRequest_ok by fastforce
  next
    case (5 env' st'')
    then show ?thesis
      using r assms sendNewEpochWish_ok [of env "st\<lparr>pace_tResend := TFired\<rparr>"] upd
      by (auto simp: eventTResendTimeout_def)
  next
    case (6 env' st'')
    then show ?thesis
      using r assms eventNewEpochRequest_ok [of env "st\<lparr>pace_tProgress := TFired\<rparr>"] upd
      by (auto simp: eventTProgressTimeout_def)
  qed (use r assms in \<open>auto simp: pace_ok_def pace_le_def pace_emit_def eventProgress_def\<close>)
qed

section \<open>Reachable states\<close>

text \<open>A state read from the database is the zero state (nothing was written) or one written by an
  earlier run.\<close>

definition restorable :: "PacemakerState \<Rightarrow> bool" where
  "restorable s \<longleftrightarrow> s = zero_PacemakerState \<or> 0 < ps_Epoch s \<and> ps_Epoch s \<le> ps_HighestSentNewEpochWish s"

definition restored_view :: "PacemakerState \<Rightarrow> u64 \<times> u64" where
  "restored_view s = (if s = zero_PacemakerState then (1, 1) else (ps_Epoch s, ps_HighestSentNewEpochWish s))"

lemma run_init_Inr:
  assumes "run_init env restored = Inr st"
  shows "(pace_e st, pace_ne st) = restored_view restored"
    "pe_Leader env (pace_e st) = Inr (pace_l st)"
    "pace_newEpochWishes st = replicate (nat (cfg_N (pe_config env))) 0"
    "pace_effects st = [PaceBroadcast (MessageNewEpochWish (pace_ne st))]"
  using assms
  by (auto simp: run_init_def restored_view_def bindG_eq_Inr_iff makePacemakerState_def pace_defs)

lemma cfg_N_nonneg [simp]: "0 \<le> cfg_N c"
  by (simp add: cfg_N_def)

lemma run_init_ok:
  assumes "run_init env restored = Inr st" "restorable restored"
  shows "pace_ok env st"
  using run_init_Inr [OF assms(1)] assms(2)
  by (auto simp: pace_ok_def restored_view_def restorable_def split: if_splits)

lemma pace_reach_ok:
  assumes "pace_reach env restored st" "restorable restored" "0 \<le> cfg_F (pe_config env)"
  shows "pace_ok env st"
  using assms by (induction rule: pace_reach.induct) (auto intro: run_init_ok dest: pace_step_ok)

text \<open>No handler panics in a reachable state, unless the leader election does not return:
  messages come from one of the \<open>N\<close> oracles.\<close>

lemma messageNewEpochWish_returns:
  assumes "unat sender < length (pace_newEpochWishes st)" "0 \<le> cfg_F (pe_config env)"
    and lead: "\<And>e. \<exists>l. pe_Leader env e = Inr l"
  shows "\<exists>st'. messageNewEpochWish env epoch sender st = Inr st'"
proof -
  have sw: "goT (\<lambda>_. True) (switchEpoch env e s)" for e s
    using lead [of e] by (auto simp: goT_iff switchEpoch_Inr)
  have ru: "goT (\<lambda>_. True) (ruleEpoch k ws b)"
    if "k = cfg_F (pe_config env) \<or> k = 2 * cfg_F (pe_config env)" for k ws b
    using that assms(2) ruleEpoch_total [of k] by (auto simp: goT_iff)
  have "goT (\<lambda>_. True) (messageNewEpochWish env epoch sender st)"
    unfolding messageNewEpochWish_def Let_def go_index_in [OF assms(1)] bindG_simps
    by (intro goT_bindI [where Q = "\<lambda>_. True"] ru) (auto simp: sw)
  then show ?thesis by (auto simp: goT_iff)
qed

section \<open>What a restart recovers\<close>

text \<open>The database's value after the recorded effects: the last successful write.\<close>

fun db_after :: "PacemakerState \<Rightarrow> pace_effect list \<Rightarrow> PacemakerState" where
  "db_after db [] = db"
| "db_after db (PaceWrite s True # xs) = db_after s xs"
| "db_after db (x # xs) = db_after db xs"

lemma db_after_append: "db_after db (xs @ ys) = db_after (db_after db xs) ys"
  by (induction db xs rule: db_after.induct) auto

text \<open>All attempts to write, with their success.\<close>

fun pace_writes :: "pace_effect list \<Rightarrow> (PacemakerState \<times> bool) list" where
  "pace_writes [] = []"
| "pace_writes (PaceWrite s ok # xs) = (s, ok) # pace_writes xs"
| "pace_writes (PaceBroadcast m # xs) = pace_writes xs"
| "pace_writes (PaceNotify ev # xs) = pace_writes xs"

lemma pace_writes_append [simp]: "pace_writes (xs @ ys) = pace_writes xs @ pace_writes ys"
  by (induction xs rule: pace_writes.induct) simp_all

lemma db_after_writes: "db_after db xs = last (db # map fst (filter snd (pace_writes xs)))"
  by (induction db xs rule: db_after.induct) simp_all

definition last_write_ok :: "pace_effect list \<Rightarrow> bool" where
  "last_write_ok xs \<longleftrightarrow> pace_writes xs = [] \<or> snd (last (pace_writes xs))"

text \<open>The last attempt was to write the current state, whether it succeeded or not, and earlier ones were to
  write earlier states.\<close>

definition writes_inv :: "pace_env \<Rightarrow> PacemakerState \<Rightarrow> pacemakerState \<Rightarrow> bool" where
  "writes_inv env restored st \<longleftrightarrow>
     restored_view (last (restored # map fst (pace_writes (pace_effects st)))) = (pace_e st, pace_ne st) \<and>
     fst (restored_view restored) \<le> pace_e st \<and> snd (restored_view restored) \<le> pace_ne st \<and>
     (\<forall>s \<in> fst ` set (pace_writes (pace_effects st)).
        0 < ps_Epoch s \<and>
        fst (restored_view restored) \<le> ps_Epoch s \<and> ps_Epoch s \<le> pace_e st \<and>
        snd (restored_view restored) \<le> ps_HighestSentNewEpochWish s \<and> ps_HighestSentNewEpochWish s \<le> pace_ne st \<and>
        (\<exists>l. pe_Leader env (ps_Epoch s) = Inr l))"

definition writes_step :: "pacemakerState \<Rightarrow> pacemakerState \<Rightarrow> bool" where
  "writes_step st st' \<longleftrightarrow>
     pace_writes (pace_effects st') = pace_writes (pace_effects st) \<and> pace_e st' = pace_e st \<and> pace_ne st' = pace_ne st \<or>
     (\<exists>ok. pace_writes (pace_effects st') = pace_writes (pace_effects st) @
        [(\<lparr>ps_Epoch = pace_e st', ps_HighestSentNewEpochWish = pace_ne st'\<rparr>, ok)])"

lemma eventNewEpochRequest_writes: "writes_step st (eventNewEpochRequest env st)"
  by (auto simp: eventNewEpochRequest_def writes_step_def pace_defs)

lemma messageNewEpochWish_writes:
  assumes ok: "pace_ok env st" and F: "0 \<le> cfg_F (pe_config env)"
    and r: "messageNewEpochWish env epoch sender st = Inr st'"
  shows "writes_step st st'"
  using r
proof (rule messageNewEpochWish_Inr)
  fix wish switch
  assume rule: "ruleEpoch (cfg_F (pe_config env)) (wish_recorded epoch sender st) (pace_ne st) = Inr wish"
    "ruleEpoch (2 * cfg_F (pe_config env)) (wish_recorded epoch sender st) (pace_e st) = Inr switch"
    and e: "pace_e st' = (if switch = 0 then pace_e st else switch)"
    and ne: "pace_ne st' = max (if wish = 0 then pace_ne st else wish) (if switch = 0 then 0 else switch)"
    and eff: "pace_effects st' = pace_effects st
       @ (if wish = 0 \<and> switch = 0 then []
          else [PaceWrite (persistedChange st wish switch) (pe_dbWrite env (length (pace_effects st)))])
       @ (if wish = 0 then [] else [PaceBroadcast (MessageNewEpochWish wish)])"
  have s: "wish = 0 \<or> pace_ne st < wish" "switch = 0 \<or> pace_e st < switch"
    using ruleEpoch_nonzero [OF _ rule(1)] ruleEpoch_nonzero [OF _ rule(2)] F by auto
  show ?thesis
  proof (cases "wish = 0 \<and> switch = 0")
    case True
    then show ?thesis by (simp add: writes_step_def e ne eff)
  next
    case False
    have "persistedChange st wish switch = \<lparr>ps_Epoch = pace_e st', ps_HighestSentNewEpochWish = pace_ne st'\<rparr>"
      using s ok by (auto simp: persistedChange_def Let_def e ne max_def pace_ok_def)
    then show ?thesis using False by (simp add: writes_step_def eff)
  qed
qed

lemma pace_step_writes:
  assumes "pace_step env st c st'" "pace_ok env st" "0 \<le> cfg_F (pe_config env)"
  shows "writes_step st st'"
  using assms(1)
proof (rule pace_stepE)
  assume ready: "pace_ready st c" and r: "pace_process env c st = Inr st'"
  have upd: "writes_step (st\<lparr>pace_tProgress := t\<rparr>) st' = writes_step st st'" for t
    by (simp add: writes_step_def)
  show ?thesis
  proof (cases "(env, c, st)" rule: pace_process.cases)
    case (2 env' epoch sender st'')
    then show ?thesis using r assms messageNewEpochWish_writes by fastforce
  next
    case (4 env' st'')
    then show ?thesis using r eventNewEpochRequest_writes by fastforce
  next
    case (6 env' st'')
    then show ?thesis
      using r eventNewEpochRequest_writes [of "st\<lparr>pace_tProgress := TFired\<rparr>" env] upd
      by (auto simp: eventTProgressTimeout_def)
  qed (use r in \<open>auto simp: writes_step_def pace_defs eventProgress_def eventTResendTimeout_def\<close>)
qed

lemma writes_inv_step:
  assumes inv: "writes_inv env restored st" and step: "writes_step st st'"
    and le: "pace_le st st'" and ok': "pace_ok env st'"
  shows "writes_inv env restored st'"
proof -
  have grow: "pace_e st \<le> pace_e st'" "pace_ne st \<le> pace_ne st'" using le by (simp_all add: pace_le_def)
  let ?old = "fst ` set (pace_writes (pace_effects st))"
  have old: "0 < ps_Epoch s \<and> fst (restored_view restored) \<le> ps_Epoch s \<and> ps_Epoch s \<le> pace_e st' \<and>
      snd (restored_view restored) \<le> ps_HighestSentNewEpochWish s \<and> ps_HighestSentNewEpochWish s \<le> pace_ne st' \<and>
      (\<exists>l. pe_Leader env (ps_Epoch s) = Inr l)" if "s \<in> ?old" for s
    using inv that grow unfolding writes_inv_def by (blast intro: order_trans)
  have restored: "fst (restored_view restored) \<le> pace_e st'" "snd (restored_view restored) \<le> pace_ne st'"
    using inv grow unfolding writes_inv_def by (blast intro: order_trans)+
  consider "pace_writes (pace_effects st') = pace_writes (pace_effects st)" "pace_e st' = pace_e st" "pace_ne st' = pace_ne st"
    | ok where "pace_writes (pace_effects st') = pace_writes (pace_effects st) @
        [(\<lparr>ps_Epoch = pace_e st', ps_HighestSentNewEpochWish = pace_ne st'\<rparr>, ok)]"
    using step unfolding writes_step_def by blast
  then show ?thesis
  proof cases
    case 1
    then show ?thesis using inv by (simp add: writes_inv_def)
  next
    case 2
    let ?new = "\<lparr>ps_Epoch = pace_e st', ps_HighestSentNewEpochWish = pace_ne st'\<rparr>"
    have pos: "0 < pace_e st'" "\<exists>l. pe_Leader env (pace_e st') = Inr l" using ok' by (auto simp: pace_ok_def)
    then have "restored_view ?new = (pace_e st', pace_ne st')" by (auto simp add: restored_view_def zero_PacemakerState_def)
    moreover have "fst ` set (pace_writes (pace_effects st')) = insert ?new ?old" "last (restored # map fst (pace_writes (pace_effects st'))) = ?new"
      by (simp_all add: 2)
    ultimately show ?thesis using old restored pos unfolding writes_inv_def by simp
  qed
qed

lemma pace_reach_writes:
  assumes "pace_reach env restored st" "restorable restored" "0 \<le> cfg_F (pe_config env)"
  shows "writes_inv env restored st"
  using assms
proof (induction rule: pace_reach.induct)
  case (pace_reach_init st)
  have "restored_view restored = (pace_e st, pace_ne st)" by (rule run_init_Inr(1) [OF pace_reach_init.hyps, symmetric])
  then show ?case using run_init_Inr(4) [OF pace_reach_init.hyps] by (simp add: writes_inv_def)
next
  case (pace_reach_step st c st')
  have ok: "pace_ok env st" using pace_reach_ok pace_reach_step.hyps(1) pace_reach_step.prems by blast
  have "pace_ok env st' \<and> pace_le st st'" by (rule pace_step_ok [OF pace_reach_step.hyps(2) ok pace_reach_step.prems(2)])
  then show ?case
    using writes_inv_step pace_step_writes [OF pace_reach_step.hyps(2) ok] pace_reach_step.IH pace_reach_step.prems by blast
qed

text \<open>What the database holds: the restored state, or a state the oracle was in since.\<close>

lemma db_after_view:
  assumes inv: "writes_inv env restored st" and lead: "pe_Leader env (fst (restored_view restored)) = Inr l0"
  defines "v \<equiv> restored_view (db_after restored (pace_effects st))"
  shows "fst (restored_view restored) \<le> fst v \<and> fst v \<le> pace_e st \<and>
    snd (restored_view restored) \<le> snd v \<and> snd v \<le> pace_ne st \<and> (\<exists>l. pe_Leader env (fst v) = Inr l) \<and>
    (last_write_ok (pace_effects st) \<longrightarrow> v = (pace_e st, pace_ne st))"
proof -
  let ?ws = "pace_writes (pace_effects st)"
  let ?ok = "map fst (filter snd ?ws)"
  have db: "db_after restored (pace_effects st) = last (restored # ?ok)" by (rule db_after_writes)
  have sync: "v = (pace_e st, pace_ne st)" if "last_write_ok (pace_effects st)"
  proof (cases ?ws rule: rev_cases)
    case Nil
    then show ?thesis using inv by (simp add: writes_inv_def v_def db)
  next
    case (snoc ws w)
    then have "snd w" using that by (simp add: last_write_ok_def)
    then show ?thesis using inv snoc by (simp add: writes_inv_def v_def db)
  qed
  show ?thesis
  proof (cases "?ok = []")
    case True
    then have "v = restored_view restored" by (simp add: v_def db)
    then show ?thesis using inv lead sync by (simp add: writes_inv_def)
  next
    case False
    then have "last ?ok \<in> set ?ok" by (rule last_in_set)
    then have "last ?ok \<in> fst ` set ?ws" by auto
    then have "0 < ps_Epoch (last ?ok)"
      "fst (restored_view restored) \<le> ps_Epoch (last ?ok) \<and> ps_Epoch (last ?ok) \<le> pace_e st \<and>
       snd (restored_view restored) \<le> ps_HighestSentNewEpochWish (last ?ok) \<and>
       ps_HighestSentNewEpochWish (last ?ok) \<le> pace_ne st \<and> (\<exists>l. pe_Leader env (ps_Epoch (last ?ok)) = Inr l)"
      using inv unfolding writes_inv_def by blast+
    moreover have "v = restored_view (last ?ok)" using False by (simp add: v_def db)
    ultimately show ?thesis using sync by (auto simp: restored_view_def zero_PacemakerState_def)
  qed
qed

section \<open>Announced epochs\<close>

text \<open>The epochs announced to outcome generation, in order.\<close>

fun announced :: "pace_effect list \<Rightarrow> u64 list" where
  "announced [] = []"
| "announced (PaceNotify (EventNewEpochStart e) # xs) = e # announced xs"
| "announced (PaceBroadcast m # xs) = announced xs"
| "announced (PaceWrite s ok # xs) = announced xs"

lemma announced_append [simp]: "announced (xs @ ys) = announced xs @ announced ys"
  by (induction xs rule: announced.induct) simp_all

definition announced_ok :: "pacemakerState \<Rightarrow> bool" where
  "announced_ok st \<longleftrightarrow> sorted_wrt (<) (announced (pace_effects st)) \<and>
     (\<forall>e \<in> set (announced (pace_effects st)). e < pace_e st \<or>
        e = pace_e st \<and> \<not> pace_notifyOutcomeGenerationOfNewEpoch st)"

lemma announced_ok_wish:
  assumes r: "messageNewEpochWish env epoch sender st = Inr st'" and F: "0 \<le> cfg_F (pe_config env)"
    and ok: "announced_ok st"
  shows "announced_ok st'"
  using r
proof (rule messageNewEpochWish_Inr)
  fix wish switch
  assume s: "ruleEpoch (2 * cfg_F (pe_config env)) (wish_recorded epoch sender st) (pace_e st) = Inr switch"
    and e: "pace_e st' = (if switch = 0 then pace_e st else switch)"
    and eff: "pace_effects st' = pace_effects st
       @ (if wish = 0 \<and> switch = 0 then []
          else [PaceWrite (persistedChange st wish switch) (pe_dbWrite env (length (pace_effects st)))])
       @ (if wish = 0 then [] else [PaceBroadcast (MessageNewEpochWish wish)])"
    and n: "pace_notifyOutcomeGenerationOfNewEpoch st' = (switch \<noteq> 0 \<or> pace_notifyOutcomeGenerationOfNewEpoch st)"
  have "announced (pace_effects st') = announced (pace_effects st)" by (simp add: eff)
  moreover have "switch = 0 \<or> pace_e st < switch" using ruleEpoch_nonzero [OF _ s] F by auto
  ultimately show ?thesis using ok e n by (auto simp: announced_ok_def)
qed

lemma eventNewEpochRequest_announces [simp]:
  "announced (pace_effects (eventNewEpochRequest env st)) = announced (pace_effects st)"
  "pace_e (eventNewEpochRequest env st) = pace_e st"
  "pace_notifyOutcomeGenerationOfNewEpoch (eventNewEpochRequest env st) = pace_notifyOutcomeGenerationOfNewEpoch st"
  by (auto simp: eventNewEpochRequest_def pace_defs)

lemma announced_ok_step:
  assumes "pace_step env st c st'" "0 \<le> cfg_F (pe_config env)" "announced_ok st"
  shows "announced_ok st'"
  using assms(1)
proof (rule pace_stepE)
  assume ready: "pace_ready st c" and r: "pace_process env c st = Inr st'"
  show ?thesis
  proof (cases "(env, c, st)" rule: pace_process.cases)
    case (2 env' epoch sender st'')
    then show ?thesis using r assms announced_ok_wish by fastforce
  qed (use r ready assms(3) in \<open>auto simp: announced_ok_def pace_defs eventProgress_def eventTResendTimeout_def
        eventTProgressTimeout_def sorted_wrt_append\<close>)
qed

lemma announced_ok_reach:
  assumes "pace_reach env restored st" "0 \<le> cfg_F (pe_config env)"
  shows "announced_ok st"
  using assms
proof (induction rule: pace_reach.induct)
  case (pace_reach_init st)
  then have "announced (pace_effects st) = []"
    by (auto simp: run_init_def Let_def bindG_eq_Inr_iff pace_defs makePacemakerState_def split: if_splits)
  then show ?case by (simp add: announced_ok_def)
next
  case (pace_reach_step st c st')
  then show ?case using announced_ok_step by blast
qed

section \<open>Properties\<close>

text \<open>In every span of \<open>n\<close> consecutive epochs that starts at a multiple of \<open>n\<close>, every one
  of the \<open>n\<close> oracles leads exactly once: leader election neither starves an oracle nor favours
  one, whatever the key.\<close>

theorem Leader_rotates:
  assumes "0 < n" "n < 256" "(span + 1) * nat n \<le> 2 ^ 64"
    and "\<And>k. fair_stream (aesctr k)"
  shows "\<exists>ls :: OracleID list. mset ls = mset (map of_nat [0..<nat n]) \<and>
     (\<forall>i < nat n. Leader C aesctr (of_nat (span * nat n + i)) n key = Inr (ls ! i))"
proof -
  obtain pi where p: "Permutation aesctr n (go_copy 16 (hmac_sha256 C key (be64 (of_nat span)))) = Inr pi"
    "mset pi = mset (map int [0..<nat n])"
    using Permutation_returns [of aesctr "go_copy 16 (hmac_sha256 C key (be64 (of_nat span)))" n] assms
    by (auto simp: goT_iff)
  have "mset (map of_int pi) = image_mset (of_int :: int \<Rightarrow> OracleID) (mset (map int [0..<nat n]))"
    unfolding p(2) [symmetric] by simp
  also have "\<dots> = mset (map of_nat [0..<nat n])" by (simp add: multiset.map_comp comp_def)
  finally have m: "mset (map of_int pi) = mset (map (of_nat :: nat \<Rightarrow> OracleID) [0..<nat n])" .
  have "length pi = nat n" using perm_nth_bij(1) [OF p(2)] .
  then have "Leader C aesctr (of_nat (span * nat n + i)) n key = Inr (map of_int pi ! i)" if "i < nat n" for i
    using that Leader_in_span [OF assms(1,2) that assms(3)] by (simp add: p(1))
  then show ?thesis using m by blast
qed

theorem Leader_rotates_witness:
  "\<exists>ls :: OracleID list. mset ls = mset (map of_nat [0..<nat 4]) \<and>
     (\<forall>i < nat 4. Leader accept_all (\<lambda>_ _. 255) (of_nat (7 * nat 4 + i)) 4 [] = Inr (ls ! i))"
  by (rule Leader_rotates) (simp_all add: fair_stream_ones)

text \<open>A concrete environment: the keystream is constant, every database write succeeds.\<close>

definition example_pace_env :: pace_env where
  "example_pace_env =
     \<lparr>pe_crypto = accept_all, pe_aesctr = (\<lambda>_ _. 255), pe_config = example_config, pe_dbWrite = (\<lambda>_. True)\<rparr>"

lemma Leader_returns:
  assumes "0 < n" "n < 256" "\<And>k. fair_stream (aesctr k)"
  shows "\<exists>l. Leader C aesctr e n key = Inr l"
proof -
  have n64: "unat (of_int n :: u64) = nat n"
  proof -
    have "(of_int n :: u64) = of_nat (nat n)" using assms by simp
    moreover have "nat n < 2 ^ 64" using assms by simp
    ultimately show ?thesis by (simp add: unat_of_nat)
  qed
  then have "(of_int n :: u64) \<noteq> 0" using assms by auto
  moreover obtain pi where "Permutation aesctr n (go_copy 16 (hmac_sha256 C key (be64 (e div of_int n)))) = Inr pi"
    "mset pi = mset (map int [0..<nat n])"
    using Permutation_returns [of aesctr "go_copy 16 (hmac_sha256 C key (be64 (e div of_int n)))" n] assms by (auto simp: goT_iff simp del: mset_map)
  moreover from this(2) have "length pi = nat n" by (rule perm_nth_bij(1))
  moreover have "unat (e mod of_int n) < nat n"
    using assms by (simp add: unat_mod n64)
  ultimately show ?thesis by (simp add: Leader_def)
qed

lemma example_Leader: "\<exists>l. pe_Leader example_pace_env e = Inr l"
  unfolding pe_Leader_def by (rule Leader_returns) (simp_all add: example_pace_env_def fair_stream_ones)

lemma example_run_init: "\<exists>st. run_init example_pace_env s = Inr st"
  using example_Leader by (auto simp: run_init_def bindG_eq_Inr_iff Let_def)

text \<open>In every reachable state of the pacemaker the current epoch is positive and at most the
  highest epoch wished for, and \<open>l\<close> is the elected leader of the current epoch.\<close>

theorem pacemaker_invariant:
  assumes "pace_reach env restored st" "restorable restored" "0 \<le> cfg_F (pe_config env)"
  shows "0 < pace_e st \<and> pace_e st \<le> pace_ne st \<and> pe_Leader env (pace_e st) = Inr (pace_l st) \<and>
     int (length (pace_newEpochWishes st)) = cfg_N (pe_config env)"
  using pace_reach_ok [OF assms] by (auto simp: pace_ok_def)

theorem pacemaker_invariant_witness:
  "\<exists>st. pace_reach example_pace_env zero_PacemakerState st \<and> pace_e st \<le> pace_ne st"
proof -
  obtain st where "run_init example_pace_env zero_PacemakerState = Inr st"
    using example_run_init by blast
  then have r: "pace_reach example_pace_env zero_PacemakerState st" by (rule pace_reach_init)
  then show ?thesis
    using pacemaker_invariant [OF r] by (auto simp: restorable_def example_pace_env_def)
qed

text \<open>A \<open>NewEpochWish\<close> from oracle \<open>j\<close> never panics for \<open>j < N\<close> and applies exactly the two
  threshold rules to the updated wishes. The epoch changes precisely when more than \<open>2 F\<close> oracles
  wish for a later one, to the largest epoch wished for by more than \<open>2 F\<close> oracles; a wish is
  sent precisely when more than \<open>F\<close> oracles wish beyond \<open>ne\<close>, for the largest epoch wished for
  by more than \<open>F\<close>.\<close>

theorem messageNewEpochWish_rules:
  assumes "unat sender < length (pace_newEpochWishes st)" "0 \<le> cfg_F (pe_config env)"
    and "\<And>e. \<exists>l. pe_Leader env e = Inr l"
  shows "\<exists>st'. messageNewEpochWish env epoch sender st = Inr st' \<and>
     (let F = cfg_F (pe_config env); ws = wish_recorded epoch sender st in
        pace_newEpochWishes st' = ws \<and>
        (if 2 * F < int (length (filter (\<lambda>w. pace_e st < w) ws))
         then pace_e st < pace_e st' \<and> 2 * F < int (count_ge ws (pace_e st')) \<and>
              (\<forall>e'. pace_e st < e' \<and> 2 * F < int (count_ge ws e') \<longrightarrow> e' \<le> pace_e st') \<and>
              pe_Leader env (pace_e st') = Inr (pace_l st')
         else pace_e st' = pace_e st \<and> pace_l st' = pace_l st) \<and>
        (\<forall>w. PaceBroadcast (MessageNewEpochWish w) \<in> set (drop (length (pace_effects st)) (pace_effects st'))
           \<longleftrightarrow> F < int (length (filter (\<lambda>w. pace_ne st < w) ws)) \<and>
               pace_ne st < w \<and> F < int (count_ge ws w) \<and>
               (\<forall>e'. pace_ne st < e' \<and> F < int (count_ge ws e') \<longrightarrow> e' \<le> w)))"
proof -
  obtain st' where r: "messageNewEpochWish env epoch sender st = Inr st'"
    using messageNewEpochWish_returns [OF assms] by blast
  then show ?thesis
  proof (rule messageNewEpochWish_Inr)
    let ?F = "cfg_F (pe_config env)" and ?ws = "wish_recorded epoch sender st"
    fix wish switch
    assume a: "pace_newEpochWishes st' = ?ws"
      "pace_e st' = (if switch = 0 then pace_e st else switch)"
      "if switch = 0 then pace_l st' = pace_l st else pe_Leader env switch = Inr (pace_l st')"
      and rules: "ruleEpoch ?F ?ws (pace_ne st) = Inr wish" "ruleEpoch (2 * ?F) ?ws (pace_e st) = Inr switch"
      and eff: "pace_effects st' = pace_effects st
         @ (if wish = 0 \<and> switch = 0 then []
            else [PaceWrite (persistedChange st wish switch) (pe_dbWrite env (length (pace_effects st)))])
         @ (if wish = 0 then [] else [PaceBroadcast (MessageNewEpochWish wish)])"
    have s: "if 2 * ?F < int (length (filter (\<lambda>w. pace_e st < w) ?ws))
       then pace_e st < switch \<and> 2 * ?F < int (count_ge ?ws switch) \<and>
            (\<forall>e'. pace_e st < e' \<and> 2 * ?F < int (count_ge ?ws e') \<longrightarrow> e' \<le> switch)
       else switch = 0"
      using ruleEpoch_returns [of "2 * ?F" "pace_e st" ?ws] assms(2) rules(2) by (auto split: if_splits)
    have w: "if ?F < int (length (filter (\<lambda>w. pace_ne st < w) ?ws))
       then pace_ne st < wish \<and> ?F < int (count_ge ?ws wish) \<and>
            (\<forall>e'. pace_ne st < e' \<and> ?F < int (count_ge ?ws e') \<longrightarrow> e' \<le> wish)
       else wish = 0"
      using ruleEpoch_returns [of ?F "pace_ne st" ?ws] assms(2) rules(1) by (auto split: if_splits)
    have b: "PaceBroadcast (MessageNewEpochWish v) \<in> set (drop (length (pace_effects st)) (pace_effects st'))
        \<longleftrightarrow> wish \<noteq> 0 \<and> v = wish" for v
      by (auto simp: eff)
    have sn: "switch \<noteq> 0 \<longleftrightarrow> 2 * ?F < int (length (filter (\<lambda>w. pace_e st < w) ?ws))"
      and wn: "wish \<noteq> 0 \<longleftrightarrow> ?F < int (length (filter (\<lambda>w. pace_ne st < w) ?ws))"
      using s w by (auto split: if_splits)
    have "wish \<noteq> 0 \<and> v = wish \<longleftrightarrow> ?F < int (length (filter (\<lambda>w. pace_ne st < w) ?ws)) \<and>
               pace_ne st < v \<and> ?F < int (count_ge ?ws v) \<and>
               (\<forall>e'. pace_ne st < e' \<and> ?F < int (count_ge ?ws e') \<longrightarrow> e' \<le> v)" for v
      using w wn by (auto split: if_splits intro: antisym)
    then show ?thesis
      using r a s sn b unfolding Let_def by (auto split: if_splits)
  qed
qed

theorem messageNewEpochWish_rules_witness:
  "\<exists>st st'. run_init example_pace_env zero_PacemakerState = Inr st \<and>
     messageNewEpochWish example_pace_env 7 3 st = Inr st' \<and> pace_newEpochWishes st' = [0, 0, 0, 7]"
proof -
  obtain st where st: "run_init example_pace_env zero_PacemakerState = Inr st"
    using example_run_init by blast
  have ws: "pace_newEpochWishes st = [0, 0, 0, 0]"
    using run_init_Inr(3) [OF st] by (simp add: example_pace_env_def numeral_eq_Suc)
  then have "wish_recorded 7 3 st = [0, 0, 0, 7]"
    by (simp add: wish_recorded_def)
  then show ?thesis
    using messageNewEpochWish_rules [of 3 st example_pace_env 7] ws st example_Leader
    by (auto simp: Let_def example_pace_env_def)
qed

text \<open>C38: Crash recovery. The pacemaker can be stopped in any reachable state, whatever database writes have
  failed so far: restarting from what is in the database does not panic, and resumes in an epoch and with a
  highest wish that the oracle had at some time since it was started, not above the present ones and not below
  those it was started with, under the leader of that epoch. When the last write succeeded, or none was needed,
  it resumes with exactly the same epoch, leader and highest wish; a failed write is only logged, and a wish
  whose write failed is forgotten by a restart.\<close>

theorem pacemaker_restart_resumes:
  assumes "pace_reach env restored st" "restorable restored" "0 \<le> cfg_F (pe_config env)"
  shows "\<exists>st'. run_init env (db_after restored (pace_effects st)) = Inr st' \<and>
     fst (restored_view restored) \<le> pace_e st' \<and> pace_e st' \<le> pace_e st \<and>
     snd (restored_view restored) \<le> pace_ne st' \<and> pace_ne st' \<le> pace_ne st \<and>
     pe_Leader env (pace_e st') = Inr (pace_l st') \<and>
     (last_write_ok (pace_effects st) \<longrightarrow>
        pace_e st' = pace_e st \<and> pace_ne st' = pace_ne st \<and> pace_l st' = pace_l st)"
proof -
  let ?db = "db_after restored (pace_effects st)"
  obtain st0 where "run_init env restored = Inr st0"
    using assms(1) by (induction rule: pace_reach.induct) auto
  then have "pe_Leader env (fst (restored_view restored)) = Inr (pace_l st0)"
    using run_init_Inr(1,2) [of env restored st0] by (metis fst_conv)
  note v = db_after_view [OF pace_reach_writes [OF assms] this]
  obtain st' where st': "run_init env ?db = Inr st'"
    using v by (auto simp: run_init_def restored_view_def Let_def split: if_splits)
  have eq: "restored_view ?db = (pace_e st', pace_ne st')" "pe_Leader env (pace_e st') = Inr (pace_l st')"
    using run_init_Inr(1,2) [OF st'] by simp_all
  have "pe_Leader env (pace_e st) = Inr (pace_l st)" using pace_reach_ok [OF assms] by (simp add: pace_ok_def)
  then show ?thesis using v st' eq by auto
qed

text \<open>A state whose last write failed: the wish for epoch 2 is lost.\<close>

theorem pacemaker_restart_resumes_witness:
  "\<exists>env st st'. pace_reach env zero_PacemakerState st \<and> pace_ne st = 2 \<and> \<not> last_write_ok (pace_effects st) \<and>
     run_init env (db_after zero_PacemakerState (pace_effects st)) = Inr st' \<and> pace_e st' = pace_e st \<and> pace_ne st' < pace_ne st"
proof -
  let ?env = "example_pace_env\<lparr>pe_dbWrite := \<lambda>_. False\<rparr>"
  have lead: "pe_Leader ?env e = pe_Leader example_pace_env e" for e by (simp add: pe_Leader_def)
  obtain st0 where st0: "run_init example_pace_env zero_PacemakerState = Inr st0" using example_run_init by blast
  then have i: "run_init ?env zero_PacemakerState = Inr st0"
    by (simp add: run_init_def lead makePacemakerState_def pace_defs)
  note v = run_init_Inr [OF i]
  have view: "pace_e st0 = 1" "pace_ne st0 = 1" using v(1) by (simp_all add: restored_view_def)
  define st where "st = eventNewEpochRequest ?env st0"
  have st: "pace_ne st = 2" "pace_e st = 1" "pace_writes (pace_effects st) = [(\<lparr>ps_Epoch = 1, ps_HighestSentNewEpochWish = 2\<rparr>, False)]"
    using view v(4) word_le_nat_alt [of 2 "1 :: u64"] by (simp_all add: st_def eventNewEpochRequest_def pace_defs word_less_nat_alt)
  have "pace_step ?env st0 (PaceEvent EventNewEpochRequest) st" by (rule pace_step.intros) (simp_all add: st_def)
  then have r: "pace_reach ?env zero_PacemakerState st" by (rule pace_reach_step [OF pace_reach_init [OF i]])
  obtain st' where st': "run_init ?env (db_after zero_PacemakerState (pace_effects st)) = Inr st'"
      "fst (restored_view zero_PacemakerState) \<le> pace_e st'" "pace_e st' \<le> pace_e st"
    using pacemaker_restart_resumes [OF r] by (auto simp: restorable_def example_pace_env_def)
  have "pace_ne st' = 1" using run_init_Inr(1) [OF st'(1)] by (simp add: db_after_writes st(3) restored_view_def)
  moreover have "pace_e st' = pace_e st" using st'(2,3) st(2) by (simp add: restored_view_def)
  moreover have "\<not> last_write_ok (pace_effects st)" by (simp add: last_write_ok_def st(3))
  ultimately show ?thesis using r st(1) st'(1) by (intro exI [of _ ?env] exI [of _ st] exI [of _ st']) simp
qed


text \<open>The pacemaker announces epochs to outcome generation in strictly increasing order, whatever
  wishes it receives.\<close>

theorem epochs_announced_increase:
  assumes "pace_reach env restored st" "0 \<le> cfg_F (pe_config env)"
  shows "sorted_wrt (<) (announced (pace_effects st))"
  using announced_ok_reach [OF assms] by (simp add: announced_ok_def)

theorem epochs_announced_increase_witness:
  "\<exists>st. pace_reach example_pace_env zero_PacemakerState st \<and> sorted_wrt (<) (announced (pace_effects st))"
proof -
  obtain st where "run_init example_pace_env zero_PacemakerState = Inr st" using example_run_init by blast
  then have r: "pace_reach example_pace_env zero_PacemakerState st" by (rule pace_reach_init)
  have "0 \<le> cfg_F (pe_config example_pace_env)" by (simp add: example_pace_env_def)
  from epochs_announced_increase [OF r this] r show ?thesis by blast
qed

end
