(* ===== verification/PacemakerNet.thy ===== *)
theory PacemakerNet
  imports Pacemaker
begin

text \<open>
  Many pacemakers on an asynchronous network with faulty oracles. A correct oracle runs the
  event loop of \<open>Pacemaker\<close>; a wish delivered from a correct sender was broadcast by it;
  faulty oracles send any wish at any time. Messages may be delayed, reordered, duplicated or
  lost.
\<close>

section \<open>The network\<close>

fun pace_deliverable :: "OracleID set \<Rightarrow> (OracleID \<Rightarrow> pacemakerState) \<Rightarrow> pace_case \<Rightarrow> bool" where
  "pace_deliverable correct sts (PaceMessage msg j) =
     (j \<in> correct \<longrightarrow> PaceBroadcast msg \<in> set (pace_effects (sts j)))"
| "pace_deliverable correct sts c = True"

inductive pace_net ::
  "(OracleID \<Rightarrow> pace_env) \<Rightarrow> OracleID set \<Rightarrow> (OracleID \<Rightarrow> pacemakerState) \<Rightarrow> bool"
  for envs correct where
  net_init: "(\<And>i. i \<in> correct \<Longrightarrow> run_init (envs i) zero_PacemakerState = Inr (sts i)) \<Longrightarrow>
     pace_net envs correct sts"
| net_step: "pace_net envs correct sts \<Longrightarrow> i \<in> correct \<Longrightarrow> pace_deliverable correct sts c \<Longrightarrow>
     pace_step (envs i) (sts i) c st' \<Longrightarrow> pace_net envs correct (sts(i := st'))"

text \<open>The setting: one valid configuration, at most \<open>F\<close> of the \<open>N\<close> oracles are not correct.\<close>

definition oracles :: "'a PublicConfig_scheme \<Rightarrow> OracleID set" where
  "oracles cfg = {j. unat j < length (cfg_OracleIdentities cfg)}"

definition pace_setting :: "SharedConfig \<Rightarrow> (OracleID \<Rightarrow> pace_env) \<Rightarrow> OracleID set \<Rightarrow> bool" where
  "pace_setting cfg envs correct \<longleftrightarrow>
     cfg_ok cfg \<and> (\<forall>i \<in> correct. pe_config (envs i) = cfg) \<and>
     correct \<subseteq> oracles cfg \<and> int (card (oracles cfg - correct)) \<le> cfg_F cfg"

lemma restorable_zero [simp]: "restorable zero_PacemakerState"
  by (simp add: restorable_def)

section \<open>Support of a threshold\<close>

lemma count_ge_correct:
  assumes set: "pace_setting cfg envs correct" and len: "length ws = length (cfg_OracleIdentities cfg)"
  shows "int (count_ge ws e) \<le> int (card {j \<in> correct. e \<le> ws ! unat j}) + cfg_F cfg"
proof -
  let ?P = "{j :: OracleID. unat j < length ws \<and> e \<le> ws ! unat j}"
  have "length ws \<le> 256"
    using set len by (auto simp: pace_setting_def cfg_ok_def cfg_N_def MaxOracles_def)
  then have "card ?P = count_ge ws e"
    unfolding count_ge_def by (rule card_oracles)
  moreover have "?P \<subseteq> {j \<in> correct. e \<le> ws ! unat j} \<union> (oracles cfg - correct)"
    using len by (auto simp: oracles_def)
  then have "card ?P \<le> card ({j \<in> correct. e \<le> ws ! unat j} \<union> (oracles cfg - correct))"
    by (intro card_mono) auto
  then have "card ?P \<le> card {j \<in> correct. e \<le> ws ! unat j} + card (oracles cfg - correct)"
    using card_Un_le order_trans by blast
  ultimately show ?thesis
    using set by (simp add: pace_setting_def)
qed

lemma correct_wisher:
  assumes "pace_setting cfg envs correct" "length ws = length (cfg_OracleIdentities cfg)"
    and "cfg_F cfg < int (count_ge ws e)"
  obtains j where "j \<in> correct" "e \<le> ws ! unat j"
proof -
  have "card {j \<in> correct. e \<le> ws ! unat j} \<noteq> 0"
    using count_ge_correct [OF assms(1,2), of e] assms(3) by linarith
  then have "{j \<in> correct. e \<le> ws ! unat j} \<noteq> {}"
    using card.empty by force
  then show ?thesis using that by blast
qed

section \<open>The global invariant\<close>

definition supported :: "SharedConfig \<Rightarrow> OracleID set \<Rightarrow> (OracleID \<Rightarrow> pacemakerState) \<Rightarrow> u64 \<Rightarrow> bool" where
  "supported cfg correct sts e \<longleftrightarrow>
     e = 1 \<or> cfg_F cfg < int (card {j \<in> correct. e \<le> pace_ne (sts j)})"

definition net_ok :: "SharedConfig \<Rightarrow> (OracleID \<Rightarrow> pace_env) \<Rightarrow> OracleID set \<Rightarrow> (OracleID \<Rightarrow> pacemakerState) \<Rightarrow> bool" where
  "net_ok cfg envs correct sts \<longleftrightarrow>
     (\<forall>i \<in> correct. pace_ok (envs i) (sts i)) \<and>
     (\<forall>i \<in> correct. \<forall>w. PaceBroadcast (MessageNewEpochWish w) \<in> set (pace_effects (sts i)) \<longrightarrow> w \<le> pace_ne (sts i)) \<and>
     (\<forall>i \<in> correct. \<forall>j \<in> correct. pace_newEpochWishes (sts i) ! unat j \<le> pace_ne (sts j)) \<and>
     (\<forall>i \<in> correct. supported cfg correct sts (pace_e (sts i))) \<and>
     (\<forall>i \<in> correct. \<exists>k \<in> correct. unat (pace_ne (sts i)) \<le> unat (pace_e (sts k)) + 1)"

text \<open>What one step of an oracle may do to its epoch and its wish.\<close>

definition step_shape :: "pace_env \<Rightarrow> pacemakerState \<Rightarrow> pace_case \<Rightarrow> pacemakerState \<Rightarrow> bool" where
  "step_shape env st c st' \<longleftrightarrow>
     (pace_newEpochWishes st' = pace_newEpochWishes st \<or>
      (\<exists>w j. c = PaceMessage (MessageNewEpochWish w) j \<and> unat j < length (pace_newEpochWishes st) \<and>
             pace_newEpochWishes st' = wish_recorded w j st)) \<and>
     (\<forall>w. PaceBroadcast (MessageNewEpochWish w) \<in> set (pace_effects st') \<longrightarrow>
          PaceBroadcast (MessageNewEpochWish w) \<in> set (pace_effects st) \<or> w \<le> pace_ne st') \<and>
     (pace_e st' = pace_e st \<or>
      2 * cfg_F (pe_config env) < int (count_ge (pace_newEpochWishes st') (pace_e st'))) \<and>
     (pace_ne st' = pace_ne st \<or> pace_ne st' = pace_e st' \<or>
      unat (pace_ne st') = unat (pace_e st) + 1 \<or>
      cfg_F (pe_config env) < int (count_ge (pace_newEpochWishes st') (pace_ne st')))"

lemma eventNewEpochRequest_shape:
  "pace_ok env st \<Longrightarrow> step_shape env st c (eventNewEpochRequest env st)"
proof -
  have "unat (pace_e st + 1) = unat (pace_e st) + 1" if "\<not> pace_e st + 1 \<le> pace_e st"
  proof -
    have "1 + pace_e st \<noteq> 0" using that by (auto simp: add.commute)
    then show ?thesis by (simp add: unatSuc add.commute)
  qed
  then show ?thesis
    by (auto simp: step_shape_def eventNewEpochRequest_def pace_defs)
qed

lemma messageNewEpochWish_shape:
  assumes ok: "pace_ok env st" and F: "0 \<le> cfg_F (pe_config env)"
    and r: "messageNewEpochWish env epoch sender st = Inr st'"
  shows "step_shape env st (PaceMessage (MessageNewEpochWish epoch) sender) st'"
  using r
proof (rule messageNewEpochWish_Inr)
  fix wish switch
  assume a: "unat sender < length (pace_newEpochWishes st)"
    "pace_newEpochWishes st' = wish_recorded epoch sender st"
    and r1: "ruleEpoch (cfg_F (pe_config env)) (wish_recorded epoch sender st) (pace_ne st) = Inr wish"
    and r2: "ruleEpoch (2 * cfg_F (pe_config env)) (wish_recorded epoch sender st) (pace_e st) = Inr switch"
    and e: "pace_e st' = (if switch = 0 then pace_e st else switch)"
    and ne: "pace_ne st' = max (if wish = 0 then pace_ne st else wish) (if switch = 0 then 0 else switch)"
    and eff: "pace_effects st' = pace_effects st
       @ (if wish = 0 \<and> switch = 0 then []
          else [PaceWrite (persistedChange st wish switch) (pe_dbWrite env (length (pace_effects st)))])
       @ (if wish = 0 then [] else [PaceBroadcast (MessageNewEpochWish wish)])"
  have w: "wish \<noteq> 0 \<longrightarrow> cfg_F (pe_config env) < int (count_ge (wish_recorded epoch sender st) wish)"
    and s: "switch \<noteq> 0 \<longrightarrow> 2 * cfg_F (pe_config env) < int (count_ge (wish_recorded epoch sender st) switch)"
    using ruleEpoch_nonzero [OF _ r1] ruleEpoch_nonzero [OF _ r2] F by auto
  have "pace_ne st' = pace_ne st \<or> pace_ne st' = pace_e st' \<or>
      cfg_F (pe_config env) < int (count_ge (pace_newEpochWishes st') (pace_ne st'))"
    using w by (auto simp: a ne e max_def)
  moreover have "PaceBroadcast (MessageNewEpochWish v) \<in> set (pace_effects st') \<longrightarrow>
      PaceBroadcast (MessageNewEpochWish v) \<in> set (pace_effects st) \<or> v \<le> pace_ne st'" for v
    by (auto simp: eff ne)
  ultimately show ?thesis
    using a s e by (auto simp: step_shape_def)
qed

lemma pace_step_shape:
  assumes "pace_step env st c st'" "pace_ok env st" "0 \<le> cfg_F (pe_config env)"
  shows "step_shape env st c st'"
  using assms(1)
proof (rule pace_stepE)
  assume ready: "pace_ready st c" and r: "pace_process env c st = Inr st'"
  show ?thesis
  proof (cases "(env, c, st)" rule: pace_process.cases)
    case (2 env' epoch sender st'')
    then show ?thesis using r assms messageNewEpochWish_shape by fastforce
  next
    case (4 env' st'')
    then show ?thesis using r assms eventNewEpochRequest_shape by fastforce
  next
    case (6 env' st'')
    moreover have "pace_ok env (st\<lparr>pace_tProgress := TFired\<rparr>)" using assms(2) by (simp add: pace_ok_def)
    ultimately show ?thesis
      using r eventNewEpochRequest_shape [of env "st\<lparr>pace_tProgress := TFired\<rparr>" c]
      by (auto simp: eventTProgressTimeout_def step_shape_def)
  qed (use r in \<open>auto simp: step_shape_def pace_defs eventProgress_def eventTResendTimeout_def\<close>)
qed

section \<open>The invariant holds\<close>

lemma net_ok_init:
  assumes set: "pace_setting cfg envs correct"
    and init: "\<And>i. i \<in> correct \<Longrightarrow> run_init (envs i) zero_PacemakerState = Inr (sts i)"
  shows "net_ok cfg envs correct sts"
proof -
  have e: "pace_e (sts i) = 1" "pace_ne (sts i) = 1"
    "pace_effects (sts i) = [PaceBroadcast (MessageNewEpochWish 1)]"
    "pace_newEpochWishes (sts i) = replicate (nat (cfg_N cfg)) 0" if "i \<in> correct" for i
    using run_init_Inr [OF init [OF that]] set that by (auto simp: restored_view_def pace_setting_def)
  have "pace_newEpochWishes (sts i) ! unat j = 0" if "i \<in> correct" "j \<in> correct" for i j
    using e(4) [OF that(1)] set that by (auto simp: pace_setting_def oracles_def cfg_N_def)
  then show ?thesis
    using run_init_ok [OF init] e by (auto simp: net_ok_def supported_def)
qed

lemma wish_bound:
  assumes set: "pace_setting cfg envs correct" and ok: "net_ok cfg envs correct sts"
    and i: "i \<in> correct" and del: "pace_deliverable correct sts c"
    and shape: "step_shape (envs i) (sts i) c st'" and j: "j \<in> correct"
  shows "pace_newEpochWishes st' ! unat j \<le> pace_ne (sts j)"
proof -
  have old: "pace_newEpochWishes (sts i) ! unat j \<le> pace_ne (sts j)"
    using ok i j by (simp add: net_ok_def)
  consider "pace_newEpochWishes st' = pace_newEpochWishes (sts i)"
    | w k where "c = PaceMessage (MessageNewEpochWish w) k" "unat k < length (pace_newEpochWishes (sts i))"
        "pace_newEpochWishes st' = wish_recorded w k (sts i)"
    using shape by (auto simp: step_shape_def)
  then show ?thesis
  proof cases
    case 2
    show ?thesis
    proof (cases "k = j")
      case True
      then have "w \<le> pace_ne (sts j)" using ok j del 2 by (auto simp: net_ok_def)
      then show ?thesis using old 2 True by (auto simp: wish_recorded_def)
    next
      case False
      then have "unat k \<noteq> unat j" using unsigned_word_eqI by blast
      then show ?thesis using old 2 by (simp add: wish_recorded_def)
    qed
  qed (use old in simp)
qed

lemma net_step_facts:
  assumes set: "pace_setting cfg envs correct" and ok: "net_ok cfg envs correct sts"
    and i: "i \<in> correct" and del: "pace_deliverable correct sts c"
    and step: "pace_step (envs i) (sts i) c st'"
  shows "pace_ok (envs i) st'" "pace_le (sts i) st'" "step_shape (envs i) (sts i) c st'"
    "length (pace_newEpochWishes st') = length (cfg_OracleIdentities cfg)"
    "pe_config (envs i) = cfg" "0 \<le> cfg_F cfg"
proof -
  have c: "pe_config (envs i) = cfg" and F: "0 \<le> cfg_F cfg"
    using set i by (auto simp: pace_setting_def cfg_ok_def)
  have oki: "pace_ok (envs i) (sts i)" using ok i by (simp add: net_ok_def)
  show "pace_ok (envs i) st'" "pace_le (sts i) st'" "step_shape (envs i) (sts i) c st'"
    using pace_step_ok [OF step oki] pace_step_shape [OF step oki] F c by auto
  then show "length (pace_newEpochWishes st') = length (cfg_OracleIdentities cfg)"
    using c by (simp add: pace_ok_def cfg_N_def)
qed (use set i in \<open>auto simp: pace_setting_def cfg_ok_def\<close>)

text \<open>Every epoch a correct oracle may move to or wish for is at most one beyond the epoch of
  some correct oracle.\<close>

lemma threshold_bound:
  assumes set: "pace_setting cfg envs correct" and ok: "net_ok cfg envs correct sts"
    and i: "i \<in> correct" and del: "pace_deliverable correct sts c"
    and step: "pace_step (envs i) (sts i) c st'"
    and cnt: "cfg_F cfg < int (count_ge (pace_newEpochWishes st') e)"
  shows "\<exists>k \<in> correct. unat e \<le> unat (pace_e (sts k)) + 1"
proof -
  note f = net_step_facts [OF set ok i del step]
  obtain j where j: "j \<in> correct" "e \<le> pace_newEpochWishes st' ! unat j"
    using correct_wisher [OF set f(4) cnt] by blast
  then have "e \<le> pace_ne (sts j)"
    using wish_bound [OF set ok i del f(3) j(1)] by simp
  moreover obtain k where "k \<in> correct" "unat (pace_ne (sts j)) \<le> unat (pace_e (sts k)) + 1"
    using ok j(1) by (auto simp: net_ok_def)
  ultimately show ?thesis by (meson order_trans word_le_nat_alt)
qed

lemma epoch_step_bound:
  assumes set: "pace_setting cfg envs correct" and ok: "net_ok cfg envs correct sts"
    and i: "i \<in> correct" and del: "pace_deliverable correct sts c"
    and step: "pace_step (envs i) (sts i) c st'"
  shows "\<exists>k \<in> correct. unat (pace_e st') \<le> unat (pace_e (sts k)) + 1"
    and "\<exists>k \<in> correct. unat (pace_ne st') \<le> unat (pace_e (sts k)) + 1"
proof -
  note f = net_step_facts [OF set ok i del step]
  show e: "\<exists>k \<in> correct. unat (pace_e st') \<le> unat (pace_e (sts k)) + 1"
  proof (cases "pace_e st' = pace_e (sts i)")
    case False
    then have "2 * cfg_F cfg < int (count_ge (pace_newEpochWishes st') (pace_e st'))"
      using f(3,5) by (auto simp: step_shape_def)
    then show ?thesis using threshold_bound [OF set ok i del step, of "pace_e st'"] f(6) by linarith
  qed (use i in \<open>auto intro!: bexI [of _ i]\<close>)
  show "\<exists>k \<in> correct. unat (pace_ne st') \<le> unat (pace_e (sts k)) + 1"
  proof -
    consider "pace_ne st' = pace_ne (sts i)" | "pace_ne st' = pace_e st'"
      | "unat (pace_ne st') = unat (pace_e (sts i)) + 1"
      | "cfg_F cfg < int (count_ge (pace_newEpochWishes st') (pace_ne st'))"
      using f(3,5) by (auto simp: step_shape_def)
    then show ?thesis
    proof cases
      case 1
      then show ?thesis using ok i by (auto simp: net_ok_def)
    next
      case 2
      then show ?thesis using e by simp
    next
      case 3
      then show ?thesis using i by auto
    next
      case 4
      then show ?thesis by (rule threshold_bound [OF set ok i del step])
    qed
  qed
qed

lemma supported_step:
  assumes set: "pace_setting cfg envs correct" and ok: "net_ok cfg envs correct sts"
    and i: "i \<in> correct" and del: "pace_deliverable correct sts c"
    and step: "pace_step (envs i) (sts i) c st'" and k: "k \<in> correct"
  shows "supported cfg correct (sts(i := st')) (pace_e ((sts(i := st')) k))"
proof -
  note f = net_step_facts [OF set ok i del step]
  have grow: "pace_ne (sts j) \<le> pace_ne ((sts(i := st')) j)" for j
    using f(2) by (simp add: pace_le_def)
  have keep: "supported cfg correct (sts(i := st')) e" if "supported cfg correct sts e" for e
  proof -
    have "card {j \<in> correct. e \<le> pace_ne (sts j)} \<le> card {j \<in> correct. e \<le> pace_ne ((sts(i := st')) j)}"
    proof (rule card_mono)
      show "{j \<in> correct. e \<le> pace_ne (sts j)} \<subseteq> {j \<in> correct. e \<le> pace_ne ((sts(i := st')) j)}"
        using grow by (blast intro: order_trans)
    qed simp
    then show ?thesis using that unfolding supported_def by linarith
  qed
  have old: "supported cfg correct sts (pace_e (sts j))" if "j \<in> correct" for j
    using ok that by (simp add: net_ok_def)
  show ?thesis
  proof (cases "k = i \<and> pace_e st' \<noteq> pace_e (sts i)")
    case True
    then have "2 * cfg_F cfg < int (count_ge (pace_newEpochWishes st') (pace_e st'))"
      using f(3,5) by (auto simp: step_shape_def)
    then have "cfg_F cfg < int (card {j \<in> correct. pace_e st' \<le> pace_newEpochWishes st' ! unat j})"
      using count_ge_correct [OF set f(4), of "pace_e st'"] by linarith
    also have "card {j \<in> correct. pace_e st' \<le> pace_newEpochWishes st' ! unat j}
        \<le> card {j \<in> correct. pace_e st' \<le> pace_ne ((sts(i := st')) j)}"
    proof (rule card_mono)
      show "{j \<in> correct. pace_e st' \<le> pace_newEpochWishes st' ! unat j}
          \<subseteq> {j \<in> correct. pace_e st' \<le> pace_ne ((sts(i := st')) j)}"
        using wish_bound [OF set ok i del f(3)] grow by (blast intro: order_trans)
    qed simp
    finally show ?thesis using True by (simp add: supported_def)
  next
    case False
    then show ?thesis using keep [OF old [OF k]] by auto
  qed
qed

lemma net_ok_step:
  assumes set: "pace_setting cfg envs correct" and ok: "net_ok cfg envs correct sts"
    and i: "i \<in> correct" and del: "pace_deliverable correct sts c"
    and step: "pace_step (envs i) (sts i) c st'"
  shows "net_ok cfg envs correct (sts(i := st'))"
proof -
  let ?s = "sts(i := st')"
  note f = net_step_facts [OF set ok i del step]
  have grow: "pace_ne (sts j) \<le> pace_ne (?s j)" "unat (pace_e (sts j)) \<le> unat (pace_e (?s j))" for j
    using f(2) by (simp_all add: pace_le_def word_le_nat_alt)
  have "\<forall>k \<in> correct. pace_ok (envs k) (?s k)"
    using ok f(1) by (simp add: net_ok_def)
  moreover have "w \<le> pace_ne (?s k)"
    if k: "k \<in> correct" and w: "PaceBroadcast (MessageNewEpochWish w) \<in> set (pace_effects (?s k))" for k w
  proof (cases "k = i")
    case True
    then have "PaceBroadcast (MessageNewEpochWish w) \<in> set (pace_effects (sts i)) \<or> w \<le> pace_ne st'"
      using w f(3) by (simp add: step_shape_def)
    moreover have "w \<le> pace_ne (sts i)" if "PaceBroadcast (MessageNewEpochWish w) \<in> set (pace_effects (sts i))"
      using ok i that by (simp add: net_ok_def)
    ultimately show ?thesis using True grow(1) [of i] by auto
  qed (use ok k w in \<open>simp add: net_ok_def\<close>)
  moreover have "pace_newEpochWishes (?s k) ! unat j \<le> pace_ne (?s j)" if kj: "k \<in> correct" "j \<in> correct" for k j
  proof -
    have "pace_newEpochWishes (?s k) ! unat j \<le> pace_ne (sts j)"
      using ok wish_bound [OF set ok i del f(3) kj(2)] kj by (simp add: net_ok_def)
    then show ?thesis using grow(1) by (rule order_trans)
  qed
  moreover have "\<forall>k \<in> correct. supported cfg correct ?s (pace_e (?s k))"
    using supported_step [OF set ok i del step] by blast
  moreover have "\<forall>j \<in> correct. \<exists>k \<in> correct. unat (pace_ne (?s j)) \<le> unat (pace_e (?s k)) + 1"
  proof
    fix j assume "j \<in> correct"
    then obtain k where "k \<in> correct" "unat (pace_ne (?s j)) \<le> unat (pace_e (sts k)) + 1"
      using ok epoch_step_bound(2) [OF set ok i del step] by (cases "j = i") (auto simp: net_ok_def)
    then show "\<exists>k \<in> correct. unat (pace_ne (?s j)) \<le> unat (pace_e (?s k)) + 1"
      using grow(2) [of k] by (intro bexI [of _ k]) linarith+
  qed
  ultimately show ?thesis unfolding net_ok_def by blast
qed

lemma pace_net_ok:
  assumes "pace_net envs correct sts" "pace_setting cfg envs correct"
  shows "net_ok cfg envs correct sts"
  using assms by (induction rule: pace_net.induct) (blast intro: net_ok_init net_ok_step)+

section \<open>Properties\<close>

text \<open>C37: With at most \<open>F\<close> faulty oracles, correct oracles skip no epoch: an epoch that a correct
  oracle moves to is at most one beyond the epoch some correct oracle was in before, and
  beyond epoch 1 it is backed by the wishes of more than \<open>F\<close> correct oracles. Faulty oracles
  alone can neither advance the epoch nor make it jump.\<close>

theorem epochs_are_not_skipped:
  assumes "pace_setting cfg envs correct" "pace_net envs correct sts" "i \<in> correct"
    and "pace_deliverable correct sts c" "pace_step (envs i) (sts i) c st'"
  shows "pace_e (sts i) \<le> pace_e st' \<and>
     (\<exists>k \<in> correct. unat (pace_e st') \<le> unat (pace_e (sts k)) + 1) \<and>
     (pace_e st' = 1 \<or> cfg_F cfg < int (card {j \<in> correct. pace_e st' \<le> pace_ne ((sts(i := st')) j)}))"
proof -
  have ok: "net_ok cfg envs correct sts"
    using pace_net_ok [OF assms(2,1)] .
  have "pace_e (sts i) \<le> pace_e st'"
    using net_step_facts(2) [OF assms(1) ok assms(3-5)] by (simp add: pace_le_def)
  moreover have "supported cfg correct (sts(i := st')) (pace_e st')"
    using supported_step [OF assms(1) ok assms(3-5) assms(3)] by simp
  ultimately show ?thesis
    using epoch_step_bound(1) [OF assms(1) ok assms(3-5)] unfolding supported_def by blast
qed

theorem epochs_are_not_skipped_witness:
  "\<exists>sts st'. pace_net (\<lambda>_. example_pace_env) {0, 1, 2} sts \<and>
     pace_step example_pace_env (sts 0) (PaceEvent EventNewEpochRequest) st' \<and>
     (\<exists>k \<in> {0, 1, 2}. unat (pace_e st') \<le> unat (pace_e (sts k)) + 1)"
proof -
  obtain st where st: "run_init example_pace_env zero_PacemakerState = Inr st"
    using example_run_init by blast
  then have net: "pace_net (\<lambda>_. example_pace_env) {0, 1, 2} (\<lambda>_. st)"
    by (intro net_init) auto
  have orc: "oracles example_config - {0, 1, 2} \<subseteq> {3}"
  proof
    fix j assume j: "j \<in> oracles example_config - {0, 1, 2}"
    then have "unat j \<in> {0, 1, 2, 3}" by (auto simp: oracles_def)
    moreover have "j = of_nat (unat j)" by simp
    ultimately have "j \<in> {of_nat 0, of_nat 1, of_nat 2, of_nat 3}" by (metis empty_iff insert_iff)
    then show "j \<in> {3}" using j by auto
  qed
  then have "card (oracles example_config - {0, 1, 2}) \<le> 1"
    using card_mono [OF _ orc] by simp
  then have set: "pace_setting example_config (\<lambda>_. example_pace_env) {0, 1, 2}"
    by (auto simp: pace_setting_def oracles_def example_pace_env_def)
  have step: "pace_step example_pace_env st (PaceEvent EventNewEpochRequest) (eventNewEpochRequest example_pace_env st)"
    by (rule pace_step.intros) simp_all
  show ?thesis
    using net step epochs_are_not_skipped [OF set net, of 0 "PaceEvent EventNewEpochRequest"] by auto
qed

end
