(* ===== verification/Pool.thy ===== *)
theory Pool
  imports Prelude
begin

text \<open>
  The message pool of \<open>ocr3/protocol/pool/pool.go\<close>: at most \<open>maxItemsPerSender\<close> pending
  messages of each oracle, keyed by sequence number and sender, first message wins, and
  messages up to a completed sequence number are reaped and never accepted again.
\<close>

section \<open>State and operations\<close>

record 'a Entry =
  Item :: 'a
  Verified :: "bool option"

record 'a Pool =
  pool_maxItemsPerSender :: int
  pool_completedSeqNr :: u64
  pool_entries :: "(u64, (OracleID, 'a Entry) gomap) gomap"
  pool_count :: "(OracleID, int) gomap"

definition NewPool :: "int \<Rightarrow> 'a Pool" where
  "NewPool maxItemsPerSender =
     \<lparr>pool_maxItemsPerSender = maxItemsPerSender, pool_completedSeqNr = 0,
      pool_entries = [], pool_count = []\<rparr>"

text \<open>A missing key of a Go \<open>map[OracleID]int\<close> reads as 0.\<close>

definition count_of :: "(OracleID, int) gomap \<Rightarrow> OracleID \<Rightarrow> int" where
  "count_of c sender = (case map_of c sender of None \<Rightarrow> 0 | Some k \<Rightarrow> k)"

text \<open>
  \<open>ReapCompleted\<close>: for every reaped sequence number, one is subtracted from the count of
  each sender of a message in it. The subtractions commute, so the visiting order of the
  two \<open>range\<close> loops does not matter.
\<close>

definition uncount :: "OracleID list \<Rightarrow> (OracleID, int) gomap \<Rightarrow> (OracleID, int) gomap" where
  "uncount senders c = fold (\<lambda>sender c. AList.update sender (count_of c sender - 1) c) senders c"

definition ReapCompleted :: "'a Pool \<Rightarrow> u64 \<Rightarrow> 'a Pool" where
  "ReapCompleted p completedSeqNr =
     p\<lparr>pool_count := fold (\<lambda>(seqNr, messagesByOracleID) c.
          if seqNr > completedSeqNr then c else uncount (map fst messagesByOracleID) c)
          (pool_entries p) (pool_count p),
       pool_entries := filter (\<lambda>(seqNr, _). seqNr > completedSeqNr) (pool_entries p),
       pool_completedSeqNr := completedSeqNr\<rparr>"

datatype PutResult =
  PutResultOK | PutResultDuplicate | PutResultFull | PutResultAlreadyCompleted

definition Put :: "'a Pool \<Rightarrow> u64 \<Rightarrow> OracleID \<Rightarrow> 'a \<Rightarrow> PutResult \<times> 'a Pool" where
  "Put p seqNr sender item =
     (if seqNr \<le> pool_completedSeqNr p then (PutResultAlreadyCompleted, p)
      else if pool_maxItemsPerSender p \<le> count_of (pool_count p) sender then (PutResultFull, p)
      else
        let p1 = (if map_of (pool_entries p) seqNr = None
                  then p\<lparr>pool_entries := AList.update seqNr [] (pool_entries p)\<rparr> else p);
            ms = (case map_of (pool_entries p1) seqNr of None \<Rightarrow> [] | Some m \<Rightarrow> m)
        in if map_of ms sender \<noteq> None then (PutResultDuplicate, p1)
           else (PutResultOK,
             p1\<lparr>pool_entries :=
                  AList.update seqNr (AList.update sender \<lparr>Item = item, Verified = None\<rparr> ms)
                    (pool_entries p1),
                pool_count :=
                  AList.update sender (count_of (pool_count p1) sender + 1) (pool_count p1)\<rparr>))"

definition StoreVerified :: "'a Pool \<Rightarrow> u64 \<Rightarrow> OracleID \<Rightarrow> bool \<Rightarrow> 'a Pool" where
  "StoreVerified p seqNr sender verified =
     (case map_of (pool_entries p) seqNr of
        None \<Rightarrow> p
      | Some ms \<Rightarrow>
          (case map_of ms sender of
             None \<Rightarrow> p
           | Some en \<Rightarrow>
               (if Verified en \<noteq> None then p
                else p\<lparr>pool_entries :=
                  AList.update seqNr (AList.update sender (en\<lparr>Verified := Some verified\<rparr>) ms)
                    (pool_entries p)\<rparr>)))"

text \<open>\<open>None\<close> is the nil map.\<close>

definition Entries :: "'a Pool \<Rightarrow> u64 \<Rightarrow> (OracleID, 'a Entry) gomap option" where
  "Entries p seqNr = map_of (pool_entries p) seqNr"

definition EntriesWithMinSeqNr :: "'a Pool \<Rightarrow> (OracleID, 'a Entry) gomap option" where
  "EntriesWithMinSeqNr p =
     (if pool_entries p = [] then None
      else Entries p (fold (\<lambda>(seqNr, _) minSeqNr. if seqNr < minSeqNr then seqNr else minSeqNr)
                        (pool_entries p) (- 1)))"

section \<open>The pool as a partial function of sequence number and sender\<close>

definition entry :: "'a Pool \<Rightarrow> u64 \<Rightarrow> OracleID \<Rightarrow> 'a Entry option" where
  "entry p seqNr sender = Option.bind (Entries p seqNr) (\<lambda>ms. map_of ms sender)"

definition item_of :: "'a Pool \<Rightarrow> u64 \<Rightarrow> OracleID \<Rightarrow> 'a option" where
  "item_of p seqNr sender = map_option Item (entry p seqNr sender)"

lemma entry_Entries: "Entries p s = Some ms \<Longrightarrow> entry p s i = map_of ms i"
  by (simp add: entry_def)

lemma entry_NewPool [simp]: "entry (NewPool k) s i = None"
  by (simp add: entry_def Entries_def NewPool_def)

lemma entry_Put_other:
  "fst (Put p s i x) \<noteq> PutResultOK \<Longrightarrow> entry (snd (Put p s i x)) s' i' = entry p s' i'"
  by (auto simp: Put_def Let_def entry_def Entries_def split: if_splits option.splits)

lemma entry_Put_OK:
  assumes "fst (Put p s i x) = PutResultOK"
  shows "entry (snd (Put p s i x)) s' i' =
           (if s' = s \<and> i' = i then Some \<lparr>Item = x, Verified = None\<rparr> else entry p s' i')"
  using assms
  by (auto simp: Put_def Let_def entry_def Entries_def split: if_splits option.splits)

lemma Put_OK_fresh: "fst (Put p s i x) = PutResultOK \<Longrightarrow> entry p s i = None"
  by (auto simp: Put_def Let_def entry_def Entries_def split: if_splits option.splits)

lemma entry_StoreVerified:
  "entry (StoreVerified p s i v) s' i' =
     (if s' = s \<and> i' = i
      then map_option (\<lambda>en. if Verified en = None then en\<lparr>Verified := Some v\<rparr> else en) (entry p s i)
      else entry p s' i')"
  by (auto simp: StoreVerified_def entry_def Entries_def split: option.splits)

lemma entry_ReapCompleted:
  "entry (ReapCompleted p n) s i = (if n < s then entry p s i else None)"
  by (simp add: entry_def Entries_def ReapCompleted_def map_of_filter_key)

section \<open>Invariant: every count is the number of messages held\<close>

definition holds_from :: "OracleID \<Rightarrow> u64 \<times> (OracleID, 'a Entry) gomap \<Rightarrow> bool" where
  "holds_from sender = (\<lambda>(_, ms). map_of ms sender \<noteq> None)"

definition held :: "'a Pool \<Rightarrow> OracleID \<Rightarrow> nat" where
  "held p sender = length (filter (holds_from sender) (pool_entries p))"

definition pool_ok :: "'a Pool \<Rightarrow> bool" where
  "pool_ok p \<longleftrightarrow>
     map_ok (pool_entries p) \<and>
     (\<forall>(s, ms) \<in> set (pool_entries p). map_ok ms \<and> pool_completedSeqNr p < s) \<and>
     (\<forall>sender. count_of (pool_count p) sender = int (held p sender)) \<and>
     (\<forall>sender. 0 < held p sender \<longrightarrow> int (held p sender) \<le> pool_maxItemsPerSender p)"

lemma pool_ok_NewPool [simp]: "pool_ok (NewPool k)"
  by (simp add: pool_ok_def NewPool_def held_def count_of_def)

lemma count_of_update [simp]:
  "count_of (AList.update i k c) j = (if j = i then k else count_of c j)"
  by (simp add: count_of_def)

lemma count_of_uncount:
  "distinct senders \<Longrightarrow>
     count_of (uncount senders c) j = count_of c j - (if j \<in> set senders then 1 else 0)"
  by (induction senders arbitrary: c) (auto simp: uncount_def)

lemma holds_from_keys: "holds_from j (s, ms) \<longleftrightarrow> j \<in> set (map fst ms)"
  by (simp add: holds_from_def dom_map_of_conv_image_fst domIff flip: not_None_eq)
     (metis domIff dom_map_of_conv_image_fst not_None_eq)

lemma length_filter_update_inner:
  assumes "distinct (map fst es)" and "map_of es s = Some ms"
  shows "length (filter P (AList.update s ms' es)) + (if P (s, ms) then 1 else 0)
       = length (filter P es) + (if P (s, ms') then 1 else 0)"
  using assms
proof (induction es)
  case (Cons e es)
  obtain s0 m0 where e: "e = (s0, m0)" by (cases e)
  show ?case
  proof (cases "s0 = s")
    case True
    with Cons.prems e show ?thesis by auto
  next
    case False
    with Cons e show ?thesis by auto
  qed
qed simp

lemma length_filter_update_fresh:
  "map_of es s = None \<Longrightarrow>
     length (filter P (AList.update s ms es)) = length (filter P es) + (if P (s, ms) then 1 else 0)"
  by (induction es) (auto split: if_splits)

lemma set_update_subset:
  "set (AList.update k v m) \<subseteq> insert (k, v) (set m)"
  by (induction m) auto

lemma in_set_updateD: "(k', v') \<in> set (AList.update k v m) \<Longrightarrow> (k', v') = (k, v) \<or> (k', v') \<in> set m"
  using set_update_subset [of k v m] by auto

text \<open>The two ways \<open>Put\<close> writes: opening a sequence number, then adding the message.\<close>

lemma held_open:
  "map_of (pool_entries p) s = None \<Longrightarrow>
     held (p\<lparr>pool_entries := AList.update s [] (pool_entries p)\<rparr>) j = held p j"
  by (simp add: held_def length_filter_update_fresh holds_from_def)

lemma pool_ok_open:
  "pool_ok p \<Longrightarrow> pool_completedSeqNr p < s \<Longrightarrow> map_of (pool_entries p) s = None \<Longrightarrow>
     pool_ok (p\<lparr>pool_entries := AList.update s [] (pool_entries p)\<rparr>)"
  by (auto simp: pool_ok_def held_open dest!: in_set_updateD)

lemma held_replace:
  assumes "map_ok (pool_entries p)" and "map_of (pool_entries p) s = Some ms"
  shows "held (p\<lparr>pool_entries := AList.update s ms' (pool_entries p), pool_count := c\<rparr>) j
           + (if map_of ms j \<noteq> None then 1 else 0)
       = held p j + (if map_of ms' j \<noteq> None then 1 else 0)"
  using length_filter_update_inner [of "pool_entries p" s ms "holds_from j" ms'] assms
  by (simp add: held_def holds_from_def map_ok_def)

lemma pool_ok_add:
  assumes ok: "pool_ok p" and m: "map_of (pool_entries p) s = Some ms" "map_of ms i = None"
    and room: "count_of (pool_count p) i < pool_maxItemsPerSender p"
  shows "pool_ok (p\<lparr>pool_entries := AList.update s (AList.update i en ms) (pool_entries p),
                    pool_count := AList.update i (count_of (pool_count p) i + 1) (pool_count p)\<rparr>)"
    (is "pool_ok ?q")
proof -
  have "map_ok (pool_entries p)" using ok by (simp add: pool_ok_def)
  then have held: "held ?q j = held p j + (if j = i then 1 else 0)" for j
    using held_replace [where ms' = "AList.update i en ms" and j = j, OF _ m(1)] m(2) by (auto split: if_splits)
  have "(s, ms) \<in> set (pool_entries p)"
    using m(1) by (rule map_of_SomeD)
  with ok have "map_ok ms" "pool_completedSeqNr p < s"
    by (auto simp: pool_ok_def)
  with ok room show ?thesis
    unfolding pool_ok_def held by (auto dest!: in_set_updateD)
qed

lemma pool_ok_Put: "pool_ok p \<Longrightarrow> pool_ok (snd (Put p s i x))"
proof -
  assume ok: "pool_ok p"
  show ?thesis
  proof (cases "s \<le> pool_completedSeqNr p \<or> pool_maxItemsPerSender p \<le> count_of (pool_count p) i")
    case True
    with ok show ?thesis by (auto simp: Put_def)
  next
    case False
    define p1 where "p1 = (if map_of (pool_entries p) s = None
                           then p\<lparr>pool_entries := AList.update s [] (pool_entries p)\<rparr> else p)"
    have ok1: "pool_ok p1" using ok False by (auto simp: p1_def intro: pool_ok_open)
    have c1: "pool_count p1 = pool_count p" "pool_maxItemsPerSender p1 = pool_maxItemsPerSender p"
      by (simp_all add: p1_def)
    obtain ms where ms: "map_of (pool_entries p1) s = Some ms"
      by (cases "map_of (pool_entries p) s") (auto simp: p1_def)
    show ?thesis
    proof (cases "map_of ms i")
      case None
      with pool_ok_add [OF ok1 ms, of i] False show ?thesis
        by (simp add: Put_def ms c1 flip: p1_def)
    next
      case (Some en)
      with ok1 False show ?thesis
        by (simp add: Put_def ms flip: p1_def)
    qed
  qed
qed

lemma pool_ok_StoreVerified: "pool_ok p \<Longrightarrow> pool_ok (StoreVerified p s i v)"
proof (cases "map_of (pool_entries p) s")
  case (Some ms)
  assume ok: "pool_ok p"
  then have mok: "map_ok (pool_entries p)" "map_ok ms" "pool_completedSeqNr p < s"
    using map_of_SomeD [OF Some] by (auto simp: pool_ok_def)
  have held: "held (p\<lparr>pool_entries := AList.update s (AList.update i en ms) (pool_entries p)\<rparr>) j = held p j"
    if "map_of ms i \<noteq> None" for en j
    using held_replace [where ms' = "AList.update i en ms" and j = j and c = "pool_count p",
            OF mok(1) Some] that
    by (auto split: if_splits)
  show ?thesis
    using ok mok Some held
    by (auto simp: StoreVerified_def pool_ok_def split: option.splits dest!: in_set_updateD)
qed (simp add: StoreVerified_def)

lemma count_of_reap:
  assumes "\<forall>(s, ms) \<in> set es. map_ok ms"
  shows "count_of (fold (\<lambda>(s, ms) c. if s > n then c else uncount (map fst ms) c) es c) j
       = count_of c j - int (length (filter (\<lambda>e. holds_from j e \<and> \<not> n < fst e) es))"
  using assms
proof (induction es arbitrary: c)
  case (Cons e es)
  obtain s ms where e: "e = (s, ms)" by (cases e)
  with Cons.prems have "distinct (map fst ms)" by (auto simp: map_ok_def)
  moreover have "holds_from j (s, ms) \<longleftrightarrow> j \<in> set (map fst ms)"
    by (rule holds_from_keys)
  ultimately show ?case
    using Cons.IH [of "if n < s then c else uncount (map fst ms) c"] Cons.prems e
    by (auto simp: count_of_uncount)
qed simp

lemma held_ReapCompleted:
  "held p j = held (ReapCompleted p n) j
     + length (filter (\<lambda>e. holds_from j e \<and> \<not> n < fst e) (pool_entries p))"
proof -
  have "length (filter P es) = length (filter P (filter Q es)) + length (filter (\<lambda>e. P e \<and> \<not> Q e) es)"
    for P Q and es :: "(u64 \<times> (OracleID, 'a Entry) gomap) list"
    by (induction es) auto
  from this [of "holds_from j" "pool_entries p" "\<lambda>e. n < fst e"] show ?thesis
    by (simp add: held_def ReapCompleted_def case_prod_beta)
qed

lemma pool_ok_ReapCompleted: "pool_ok p \<Longrightarrow> pool_ok (ReapCompleted p n)"
proof -
  assume ok: "pool_ok p"
  have "count_of (pool_count (ReapCompleted p n)) j = int (held (ReapCompleted p n) j)" for j
  proof -
    have "count_of (pool_count p) j = int (held p j)" using ok by (simp add: pool_ok_def)
    moreover have "\<forall>(s, ms) \<in> set (pool_entries p). map_ok ms"
      using ok by (auto simp: pool_ok_def)
    ultimately show ?thesis
      using count_of_reap [of "pool_entries p" n "pool_count p" j] held_ReapCompleted [of p j n]
      by (simp add: ReapCompleted_def)
  qed
  moreover have "int (held (ReapCompleted p n) j) \<le> pool_maxItemsPerSender p"
    if "0 < held (ReapCompleted p n) j" for j
  proof -
    have "held (ReapCompleted p n) j \<le> held p j"
      using held_ReapCompleted [of p j n] by simp
    moreover have "0 < held p j \<longrightarrow> int (held p j) \<le> pool_maxItemsPerSender p"
      using ok by (simp add: pool_ok_def)
    ultimately show ?thesis using that by linarith
  qed
  moreover have "map_ok (pool_entries (ReapCompleted p n))"
      "\<forall>(s, ms) \<in> set (pool_entries (ReapCompleted p n)). map_ok ms \<and> n < s"
    using ok by (auto simp: pool_ok_def ReapCompleted_def)
  ultimately show ?thesis
    unfolding pool_ok_def by (simp add: ReapCompleted_def)
qed

lemmas pool_ok_preserved = pool_ok_Put pool_ok_ReapCompleted pool_ok_StoreVerified

lemma pool_ok_held_bound: "pool_ok p \<Longrightarrow> int (held p i) \<le> max 0 (pool_maxItemsPerSender p)"
  by (cases "held p i = 0") (auto simp: pool_ok_def le_max_iff_disj)

lemma pool_maxItemsPerSender_preserved [simp]:
  "pool_maxItemsPerSender (snd (Put p s i x)) = pool_maxItemsPerSender p"
  "pool_maxItemsPerSender (ReapCompleted p n) = pool_maxItemsPerSender p"
  "pool_maxItemsPerSender (StoreVerified p s i v) = pool_maxItemsPerSender p"
  by (auto simp: Put_def Let_def ReapCompleted_def StoreVerified_def split: option.splits)

section \<open>The interface a protocol uses\<close>

text \<open>A pool's client only stores, marks and reaps, and looks messages up.\<close>

datatype 'a pool_op =
  OpPut u64 OracleID 'a
| OpReap u64
| OpMark u64 OracleID bool

fun op_step ::
  "('p \<Rightarrow> u64 \<Rightarrow> OracleID \<Rightarrow> 'a \<Rightarrow> bool \<times> 'p) \<Rightarrow> ('p \<Rightarrow> u64 \<Rightarrow> 'p) \<Rightarrow>
   ('p \<Rightarrow> u64 \<Rightarrow> OracleID \<Rightarrow> bool \<Rightarrow> 'p) \<Rightarrow> 'p \<Rightarrow> 'a pool_op \<Rightarrow> 'p" where
  "op_step put reap mark p (OpPut s i x) = snd (put p s i x)"
| "op_step put reap mark p (OpReap n) = reap p n"
| "op_step put reap mark p (OpMark s i v) = mark p s i v"

locale message_pool =
  fixes put :: "'p \<Rightarrow> u64 \<Rightarrow> OracleID \<Rightarrow> 'a \<Rightarrow> bool \<times> 'p"
    and reap :: "'p \<Rightarrow> u64 \<Rightarrow> 'p"
    and mark :: "'p \<Rightarrow> u64 \<Rightarrow> OracleID \<Rightarrow> bool \<Rightarrow> 'p"
    and lookup :: "'p \<Rightarrow> u64 \<Rightarrow> OracleID \<Rightarrow> 'a option"
    and inv :: "'p \<Rightarrow> bool"
  assumes put_accepted: "fst (put p s i x) \<Longrightarrow>
      lookup (snd (put p s i x)) s' i' = (if s' = s \<and> i' = i then Some x else lookup p s' i')"
    and put_fresh: "fst (put p s i x) \<Longrightarrow> lookup p s i = None"
    and put_rejected: "\<not> fst (put p s i x) \<Longrightarrow> lookup (snd (put p s i x)) s' i' = lookup p s' i'"
    and reap_lookup: "lookup (reap p n) s i = (if n < s then lookup p s i else None)"
    and mark_lookup: "lookup (mark p s i v) s' i' = lookup p s' i'"
    and inv_preserved: "inv p \<Longrightarrow> inv (snd (put p s i x))" "inv p \<Longrightarrow> inv (reap p n)"
      "inv p \<Longrightarrow> inv (mark p s i v)"
begin

lemma put_keeps: "lookup p s i = Some y \<Longrightarrow> lookup (snd (put p s' i' x)) s i = Some y"
  using put_accepted [of p s' i' x s i] put_rejected [of p s' i' x s i] put_fresh [of p s' i' x]
  by (cases "fst (put p s' i' x)") auto

lemma put_other_sender: "j \<noteq> i \<Longrightarrow> lookup (snd (put p s i x)) s' j = lookup p s' j"
  by (cases "fst (put p s i x)") (simp_all add: put_accepted put_rejected)

text \<open>The first message stored stays the pool's message until it is reaped.\<close>

lemma first_wins:
  "lookup p s i = Some x \<Longrightarrow> (\<forall>n. OpReap n \<in> set ops \<longrightarrow> n < s) \<Longrightarrow>
     lookup (foldl (op_step put reap mark) p ops) s i = Some x"
proof (induction ops arbitrary: p)
  case (Cons a ops)
  then have "lookup (op_step put reap mark p a) s i = Some x"
    by (cases a) (auto simp: put_keeps reap_lookup mark_lookup)
  with Cons show ?case by simp
qed simp

lemma inv_run: "inv p \<Longrightarrow> inv (foldl (op_step put reap mark) p ops)"
proof (induction ops arbitrary: p)
  case (Cons a ops)
  then have "inv (op_step put reap mark p a)"
    by (cases a) (auto simp: inv_preserved)
  with Cons show ?case by simp
qed simp

text \<open>A message in the pool after a run was put there by its sender, or was there before.\<close>

lemma stored_was_put:
  "lookup (foldl (op_step put reap mark) p ops) s i = Some x \<Longrightarrow>
     lookup p s i = Some x \<or> OpPut s i x \<in> set ops"
proof (induction ops arbitrary: p)
  case (Cons a ops)
  then have "lookup (op_step put reap mark p a) s i = Some x \<or> OpPut s i x \<in> set ops"
    by simp
  then show ?case
  proof (cases a)
    case (OpPut s' i' x')
    then show ?thesis
      using put_accepted [of p s' i' x' s i] put_rejected [of p s' i' x' s i]
        \<open>lookup (op_step put reap mark p a) s i = Some x \<or> OpPut s i x \<in> set ops\<close>
      by (cases "fst (put p s' i' x')") (auto split: if_splits)
  qed (auto simp: reap_lookup mark_lookup split: if_splits)
qed simp

end

text \<open>The pool provides the interface, for every message type.\<close>

definition try_Put :: "'a Pool \<Rightarrow> u64 \<Rightarrow> OracleID \<Rightarrow> 'a \<Rightarrow> bool \<times> 'a Pool" where
  "try_Put p s i x = (case Put p s i x of (r, p') \<Rightarrow> (r = PutResultOK, p'))"

lemma try_Put_simps [simp]:
  "fst (try_Put p s i x) \<longleftrightarrow> fst (Put p s i x) = PutResultOK"
  "snd (try_Put p s i x) = snd (Put p s i x)"
  by (simp_all add: try_Put_def case_prod_beta)

lemma item_of_StoreVerified: "item_of (StoreVerified p s i v) s' i' = item_of p s' i'"
  by (cases "entry p s i") (auto simp: item_of_def entry_StoreVerified)

interpretation mp: message_pool try_Put ReapCompleted StoreVerified item_of pool_ok
  by unfold_locales
     (auto simp: item_of_def entry_Put_OK Put_OK_fresh entry_Put_other entry_ReapCompleted
        item_of_StoreVerified [unfolded item_of_def] pool_ok_preserved)

definition pool_run :: "'a Pool \<Rightarrow> 'a pool_op list \<Rightarrow> 'a Pool" where
  "pool_run = foldl (op_step try_Put ReapCompleted StoreVerified)"

lemma pool_run_ok: "pool_ok p \<Longrightarrow> pool_ok (pool_run p ops)"
  unfolding pool_run_def by (rule mp.inv_run)

lemma pool_run_max: "pool_maxItemsPerSender (pool_run p ops) = pool_maxItemsPerSender p"
proof (induction ops arbitrary: p)
  case (Cons a ops)
  then show ?case by (cases a) (simp_all add: pool_run_def)
qed (simp add: pool_run_def)

section \<open>Properties\<close>

lemma held_run_bound: "int (held (pool_run (NewPool k) ops) i) \<le> max 0 k"
  using pool_ok_held_bound [OF pool_run_ok [OF pool_ok_NewPool], of k ops i]
  by (simp add: pool_run_max) (simp add: NewPool_def)

text \<open>Whatever messages arrive, a pool holds at most \<open>maxItemsPerSender\<close> messages of each
  sender, everything it holds was sent by that sender for that sequence number, and every
  count equals the number of messages held: a faulty oracle can neither exhaust memory nor
  displace or forge another oracle's messages.\<close>

theorem pool_bounded_and_authentic:
  "(0 \<le> k \<longrightarrow> int (held (pool_run (NewPool k) ops) i) \<le> k) \<and>
   count_of (pool_count (pool_run (NewPool k) ops)) i = int (held (pool_run (NewPool k) ops) i) \<and>
   (\<forall>s x. item_of (pool_run (NewPool k) ops) s i = Some x \<longrightarrow> OpPut s i x \<in> set ops)"
proof (intro conjI allI impI)
  show "int (held (pool_run (NewPool k) ops) i) \<le> k" if "0 \<le> k"
    using held_run_bound [of k ops i] that by simp
  show "count_of (pool_count (pool_run (NewPool k) ops)) i = int (held (pool_run (NewPool k) ops) i)"
    using pool_run_ok [OF pool_ok_NewPool, of k ops] by (simp add: pool_ok_def)
  show "OpPut s i x \<in> set ops" if "item_of (pool_run (NewPool k) ops) s i = Some x" for s x
    using mp.stored_was_put [of "NewPool k" ops s i x] that by (simp add: pool_run_def item_of_def)
qed

theorem pool_bounded_and_authentic_witness:
  "int (held (pool_run (NewPool 1) [OpPut 1 0 (), OpPut 2 0 ()]) 0) \<le> 1"
  using pool_bounded_and_authentic [of 1 "[OpPut 1 0 (), OpPut 2 0 ()]" 0] by simp

text \<open>The first message an oracle sends for a sequence number is the one the pool keeps, through
  any later puts, verifications and reaps of smaller sequence numbers.\<close>

theorem pool_first_message_wins:
  assumes "fst (Put p s i x) = PutResultOK"
    and "\<forall>n. OpReap n \<in> set ops \<longrightarrow> n < s"
  shows "item_of (pool_run (snd (Put p s i x)) ops) s i = Some x"
proof -
  have "item_of (snd (Put p s i x)) s i = Some x"
    using mp.put_accepted [of p s i x s i] assms(1) by simp
  then show ?thesis
    unfolding pool_run_def using assms(2) by (rule mp.first_wins)
qed

theorem pool_first_message_wins_witness:
  "item_of (pool_run (snd (Put (NewPool 2) 5 1 True)) [OpReap 4, OpPut 5 1 False]) 5 1 = Some True"
proof (rule pool_first_message_wins)
  show "fst (Put (NewPool 2) 5 1 True) = PutResultOK"
    by (simp add: Put_def NewPool_def count_of_def)
qed auto

end
