(* ===== verification/RingBuffer.thy ===== *)
theory RingBuffer
  imports Prelude
begin

text \<open>
  The fixed-capacity ring buffer of \<open>ocr3/protocol/ringbuffer\<close> and its wrapper
  \<open>MessageBuffer\<close>, which buffers one oracle's messages for future epochs. It implements
  a bounded queue: pushing to a full buffer drops the front item.
\<close>

section \<open>The ring buffer\<close>

text \<open>A slot that holds no item holds the zero value of \<open>T\<close>: \<open>None\<close>.\<close>

record 'a RingBuffer =
  rb_start :: int
  rb_length :: int
  rb_buffer :: "'a option list"

definition NewRingBuffer :: "int \<Rightarrow> 'a RingBuffer go" where
  "NewRingBuffer cap =
     (if cap \<le> 0 then Inl ExplicitPanic
      else Inr \<lparr>rb_start = 0, rb_length = 0, rb_buffer = replicate (nat cap) None\<rparr>)"

definition rb_Length :: "'a RingBuffer \<Rightarrow> int" where
  "rb_Length rb = rb_length rb"

definition rb_Peek :: "'a RingBuffer \<Rightarrow> 'a option go" where
  "rb_Peek rb =
     (if rb_length rb = 0 then Inl ExplicitPanic
      else go_index (rb_buffer rb) (nat (rb_start rb)))"

definition rb_Pop :: "'a RingBuffer \<Rightarrow> ('a option \<times> 'a RingBuffer) go" where
  "rb_Pop rb = bindG (rb_Peek rb) (\<lambda>result.
     Inr (result,
       rb\<lparr>rb_buffer := (rb_buffer rb)[nat (rb_start rb) := None],
          rb_start := (rb_start rb + 1) mod int (length (rb_buffer rb)),
          rb_length := rb_length rb - 1\<rparr>))"

definition rb_Push :: "'a RingBuffer \<Rightarrow> 'a \<Rightarrow> 'a RingBuffer go" where
  "rb_Push rb item =
     bindG (if rb_length rb = int (length (rb_buffer rb))
            then bindG (rb_Pop rb) (\<lambda>(_, rb). Inr rb) else Inr rb) (\<lambda>rb.
     let i = nat ((rb_start rb + rb_length rb) mod int (length (rb_buffer rb)))
     in if i < length (rb_buffer rb)
        then Inr (rb\<lparr>rb_buffer := (rb_buffer rb)[i := Some item], rb_length := rb_length rb + 1\<rparr>)
        else Inl IndexOutOfRange)"

section \<open>Abstraction to a list\<close>

definition rb_ok :: "'a RingBuffer \<Rightarrow> bool" where
  "rb_ok rb \<longleftrightarrow>
     0 \<le> rb_start rb \<and> rb_start rb < int (length (rb_buffer rb)) \<and>
     0 \<le> rb_length rb \<and> rb_length rb \<le> int (length (rb_buffer rb)) \<and>
     (\<forall>k < nat (rb_length rb).
        rb_buffer rb ! ((nat (rb_start rb) + k) mod length (rb_buffer rb)) \<noteq> None)"

definition rb_slot :: "'a RingBuffer \<Rightarrow> nat \<Rightarrow> 'a" where
  "rb_slot rb k = the (rb_buffer rb ! ((nat (rb_start rb) + k) mod length (rb_buffer rb)))"

definition rb_list :: "'a RingBuffer \<Rightarrow> 'a list" where
  "rb_list rb = map (rb_slot rb) [0..<nat (rb_length rb)]"

definition rb_cap :: "'a RingBuffer \<Rightarrow> nat" where
  "rb_cap rb = length (rb_buffer rb)"

lemma length_rb_list [simp]: "length (rb_list rb) = nat (rb_length rb)"
  by (simp add: rb_list_def)

lemma rb_okD:
  assumes "rb_ok rb"
  shows "0 < length (rb_buffer rb)" "nat (rb_start rb) < length (rb_buffer rb)"
    "nat (rb_length rb) \<le> length (rb_buffer rb)" "0 \<le> rb_length rb" "0 \<le> rb_start rb"
  using assms by (auto simp: rb_ok_def)

lemma rb_list_New: "0 < cap \<Longrightarrow> goT (\<lambda>rb. rb_ok rb \<and> rb_list rb = [] \<and> rb_cap rb = nat cap) (NewRingBuffer cap)"
  by (simp add: NewRingBuffer_def rb_ok_def rb_list_def rb_cap_def)

lemma rb_Length_list: "rb_ok rb \<Longrightarrow> rb_Length rb = int (length (rb_list rb))"
  by (simp add: rb_Length_def rb_ok_def)

lemma rb_Peek_list:
  assumes ok: "rb_ok rb" and ne: "rb_list rb \<noteq> []"
  shows "rb_Peek rb = Inr (Some (hd (rb_list rb)))"
proof -
  have len: "0 < nat (rb_length rb)" using ne by (simp add: rb_list_def)
  then have "rb_buffer rb ! ((nat (rb_start rb) + 0) mod length (rb_buffer rb)) \<noteq> None"
    using ok unfolding rb_ok_def by blast
  then have "rb_buffer rb ! nat (rb_start rb) = Some (rb_slot rb 0)"
    using rb_okD [OF ok] by (auto simp: rb_slot_def)
  moreover have "hd (rb_list rb) = rb_slot rb 0"
    using len by (simp add: rb_list_def hd_map)
  ultimately show ?thesis
    using len rb_okD [OF ok] by (simp add: rb_Peek_def)
qed

lemma rb_Pop_list:
  assumes ok: "rb_ok rb" and ne: "rb_list rb \<noteq> []"
  shows "goT (\<lambda>(x, rb'). x = Some (hd (rb_list rb)) \<and> rb_ok rb' \<and>
           rb_list rb' = tl (rb_list rb) \<and> rb_cap rb' = rb_cap rb) (rb_Pop rb)"
proof -
  let ?c = "length (rb_buffer rb)" and ?s = "nat (rb_start rb)"
  let ?rb = "rb\<lparr>rb_buffer := (rb_buffer rb)[?s := None],
                rb_start := (rb_start rb + 1) mod int ?c, rb_length := rb_length rb - 1\<rparr>"
  note c = rb_okD [OF ok]
  have len: "0 < nat (rb_length rb)" using ne by (simp add: rb_list_def)
  have start: "nat ((rb_start rb + 1) mod int ?c) = (?s + 1) mod ?c"
    using c by (simp add: nat_mod_distrib nat_add_distrib)
  have idx: "(nat (rb_start ?rb) + k) mod ?c = (?s + Suc k) mod ?c" for k
    by (simp add: start mod_add_left_eq)
  have "(?s + Suc k) mod ?c \<noteq> ?s" if "Suc k < nat (rb_length rb)" for k
  proof
    assume eq: "(?s + Suc k) mod ?c = ?s"
    have "Suc k < ?c" using that c by linarith
    with eq c(2) show False
      by (metis Suc_neq_Zero add_diff_cancel_left' mod_eq_dvd_iff_nat mod_less nat_dvd_not_less
          le_add1 zero_less_Suc)
  qed
  then have nth: "(rb_buffer rb)[?s := None] ! ((?s + Suc k) mod ?c) = rb_buffer rb ! ((?s + Suc k) mod ?c)"
    if "Suc k < nat (rb_length rb)" for k
    using that by (metis nth_list_update_neq)
  have slot: "rb_slot ?rb k = rb_slot rb (Suc k)" if "Suc k < nat (rb_length rb)" for k
    using nth [OF that] idx by (simp add: rb_slot_def)
  have "rb_ok ?rb"
    unfolding rb_ok_def
  proof (intro conjI allI impI)
    fix k assume "k < nat (rb_length ?rb)"
    then have k: "Suc k < nat (rb_length rb)" by simp
    then have "rb_buffer rb ! ((?s + Suc k) mod ?c) \<noteq> None"
      using ok unfolding rb_ok_def by blast
    then show "rb_buffer ?rb ! ((nat (rb_start ?rb) + k) mod length (rb_buffer ?rb)) \<noteq> None"
      using nth [OF k] idx [of k] by simp
  qed (use c len in auto)
  moreover have "rb_list ?rb = tl (rb_list rb)"
  proof (rule nth_equalityI)
    fix k assume "k < length (rb_list ?rb)"
    then have k: "Suc k < nat (rb_length rb)" by simp
    then show "rb_list ?rb ! k = tl (rb_list rb) ! k"
      using slot [OF k] by (simp add: rb_list_def nth_tl)
  qed simp
  ultimately show ?thesis
    using rb_Peek_list [OF ok ne] by (simp add: rb_Pop_def rb_cap_def)
qed

lemma rb_push_room:
  assumes ok: "rb_ok rb" and room: "rb_length rb < int (length (rb_buffer rb))"
  shows "goT (\<lambda>rb'. rb_ok rb' \<and> rb_list rb' = rb_list rb @ [x] \<and> rb_cap rb' = rb_cap rb) (rb_Push rb x)"
proof -
  let ?c = "length (rb_buffer rb)" and ?s = "nat (rb_start rb)" and ?n = "nat (rb_length rb)"
  note c = rb_okD [OF ok]
  have i: "nat ((rb_start rb + rb_length rb) mod int ?c) = (?s + ?n) mod ?c"
    using c by (simp add: nat_mod_distrib nat_add_distrib)
  have n: "?n < ?c" using room c by linarith
  let ?rb = "rb\<lparr>rb_buffer := (rb_buffer rb)[(?s + ?n) mod ?c := Some x], rb_length := rb_length rb + 1\<rparr>"
  have "(?s + k) mod ?c \<noteq> (?s + ?n) mod ?c" if "k < ?n" for k
  proof
    assume "(?s + k) mod ?c = (?s + ?n) mod ?c"
    then have "?c dvd ?n - k" using that by (metis add_diff_cancel_left mod_eq_dvd_iff_nat nat_add_left_cancel_le less_imp_le)
    with that n show False by (meson diff_le_self dvd_imp_le le_trans not_less zero_less_diff)
  qed
  then have nth: "rb_buffer ?rb ! ((?s + k) mod ?c) = rb_buffer rb ! ((?s + k) mod ?c)" if "k < ?n" for k
    using that by (simp del: not_None_eq) (metis nth_list_update_neq)
  have new: "rb_buffer ?rb ! ((?s + ?n) mod ?c) = Some x"
    using c(1) by simp
  have len: "nat (rb_length ?rb) = Suc ?n" using c by simp
  have "rb_ok ?rb"
    unfolding rb_ok_def
  proof (intro conjI allI impI)
    fix k assume "k < nat (rb_length ?rb)"
    then have "k < ?n \<or> k = ?n" using len by linarith
    moreover have "rb_buffer rb ! ((?s + k) mod ?c) \<noteq> None" if "k < ?n"
      using ok that unfolding rb_ok_def by blast
    ultimately show "rb_buffer ?rb ! ((nat (rb_start ?rb) + k) mod length (rb_buffer ?rb)) \<noteq> None"
      using nth new by auto
  qed (use c room in auto)
  moreover have "rb_list ?rb = rb_list rb @ [x]"
  proof -
    have "map (rb_slot ?rb) [0..<?n] = map (rb_slot rb) [0..<?n]"
      using nth by (simp add: rb_slot_def)
    moreover have "rb_slot ?rb ?n = x" using new by (simp add: rb_slot_def)
    moreover have "rb_list ?rb = map (rb_slot ?rb) ([0..<?n] @ [?n])"
      unfolding rb_list_def len by (simp only: upt_Suc_append [OF le0])
    ultimately show ?thesis by (simp add: rb_list_def)
  qed
  ultimately show ?thesis
    using room c(1) by (simp add: rb_Push_def i rb_cap_def Let_def)
qed


text \<open>Pushing to a full buffer drops the front item first.\<close>

definition push_bounded :: "nat \<Rightarrow> 'a list \<Rightarrow> 'a \<Rightarrow> 'a list" where
  "push_bounded cap xs x = (if length xs = cap then tl xs @ [x] else xs @ [x])"

lemma rb_Push_list:
  assumes ok: "rb_ok rb"
  shows "goT (\<lambda>rb'. rb_ok rb' \<and> rb_list rb' = push_bounded (rb_cap rb) (rb_list rb) x
           \<and> rb_cap rb' = rb_cap rb) (rb_Push rb x)"
proof (cases "rb_length rb = int (length (rb_buffer rb))")
  case False
  with rb_push_room [OF ok, of x] rb_okD [OF ok] show ?thesis
    by (auto simp: push_bounded_def rb_cap_def elim: goT_mono)
next
  case True
  then have full: "length (rb_list rb) = rb_cap rb" "rb_list rb \<noteq> []"
    using rb_okD [OF ok] by (auto simp: rb_cap_def simp flip: length_greater_0_conv)
  obtain y rb1 where pop: "rb_Pop rb = Inr (y, rb1)" and ok1: "rb_ok rb1"
      and tl: "rb_list rb1 = tl (rb_list rb)" "rb_cap rb1 = rb_cap rb"
    using rb_Pop_list [OF ok full(2)] by (auto simp: goT_iff)
  have room: "rb_length rb1 < int (length (rb_buffer rb1))"
  proof -
    have "length (rb_list rb1) < rb_cap rb1"
      using tl full rb_okD(1) [OF ok] by (simp add: rb_cap_def)
    then show ?thesis using rb_okD [OF ok1] by (simp add: rb_cap_def)
  qed
  then have "rb_Push rb x = rb_Push rb1 x"
    using True pop by (simp add: rb_Push_def)
  with rb_push_room [OF ok1 room, of x] show ?thesis
    using tl full(1) by (simp add: push_bounded_def)
qed

section \<open>The interface: a bounded queue\<close>

locale bounded_queue =
  fixes push :: "'q \<Rightarrow> 'a \<Rightarrow> 'q go"
    and pop :: "'q \<Rightarrow> ('a option \<times> 'q) go"
    and peek :: "'q \<Rightarrow> 'a option go"
    and len :: "'q \<Rightarrow> int"
    and contents :: "'q \<Rightarrow> 'a list"
    and cap :: "'q \<Rightarrow> nat"
    and inv :: "'q \<Rightarrow> bool"
  assumes push_spec: "inv q \<Longrightarrow>
      goT (\<lambda>q'. inv q' \<and> contents q' = push_bounded (cap q) (contents q) x \<and> cap q' = cap q) (push q x)"
    and pop_spec: "inv q \<Longrightarrow> contents q \<noteq> [] \<Longrightarrow>
      goT (\<lambda>(y, q'). y = Some (hd (contents q)) \<and> inv q' \<and> contents q' = tl (contents q)
             \<and> cap q' = cap q) (pop q)"
    and peek_spec: "inv q \<Longrightarrow> contents q \<noteq> [] \<Longrightarrow> peek q = Inr (Some (hd (contents q)))"
    and len_spec: "inv q \<Longrightarrow> len q = int (length (contents q))"
    and cap_pos: "inv q \<Longrightarrow> 0 < cap q"
    and bounded: "inv q \<Longrightarrow> length (contents q) \<le> cap q"
begin

text \<open>Pushing a sequence of items leaves the last \<open>cap\<close> of everything queued.\<close>

fun push_all :: "'q \<Rightarrow> 'a list \<Rightarrow> 'q go" where
  "push_all q [] = Inr q"
| "push_all q (x # xs) = bindG (push q x) (\<lambda>q. push_all q xs)"

lemma push_all_contents:
  "inv q \<Longrightarrow> goT (\<lambda>q'. inv q' \<and> cap q' = cap q \<and>
      contents q' = drop (length (contents q @ xs) - cap q) (contents q @ xs)) (push_all q xs)"
proof (induction xs arbitrary: q)
  case Nil
  then show ?case using bounded [OF Nil] by simp
next
  case (Cons x xs)
  obtain q1 where q1: "push q x = Inr q1" "inv q1" "cap q1 = cap q"
      "contents q1 = push_bounded (cap q) (contents q) x"
    using push_spec [OF Cons.prems, of x] by (auto simp: goT_iff)
  have b: "length (contents q) \<le> cap q" "0 < cap q"
    using bounded cap_pos Cons.prems by auto
  have "drop (length (contents q1 @ xs) - cap q) (contents q1 @ xs)
      = drop (length (contents q @ x # xs) - cap q) (contents q @ x # xs)"
  proof (cases "length (contents q) = cap q")
    case True
    then obtain y ys where "contents q = y # ys" using b by (cases "contents q") auto
    with True q1(4) show ?thesis by (simp add: push_bounded_def Suc_diff_le flip: True)
  next
    case False
    with q1(4) show ?thesis by (simp add: push_bounded_def)
  qed
  with Cons.IH [OF q1(2)] q1 show ?case by simp
qed

end

lemma rb_cap_bounds: "rb_ok rb \<Longrightarrow> 0 < rb_cap rb" "rb_ok rb \<Longrightarrow> length (rb_list rb) \<le> rb_cap rb"
  using rb_okD by (auto simp: rb_cap_def)

interpretation rbq: bounded_queue rb_Push rb_Pop rb_Peek rb_Length rb_list rb_cap rb_ok
  by unfold_locales
     (fact rb_Push_list rb_Pop_list rb_Peek_list rb_Length_list rb_cap_bounds)+

section \<open>Properties\<close>

fun rb_push_all :: "'a RingBuffer \<Rightarrow> 'a list \<Rightarrow> 'a RingBuffer go" where
  "rb_push_all rb [] = Inr rb"
| "rb_push_all rb (x # xs) = bindG (rb_Push rb x) (\<lambda>rb. rb_push_all rb xs)"

lemma rb_push_all_eq: "rb_push_all rb xs = rbq.push_all rb xs"
  by (induction rb xs rule: rb_push_all.induct) (simp_all cong: bindG_cong)

text \<open>A buffer of capacity \<open>cap > 0\<close> never panics on \<open>Push\<close>, and after any sequence of
  pushes it holds exactly the last \<open>cap\<close> messages, in order: a flood of messages for future
  epochs drops the oldest ones and nothing else.\<close>

theorem ring_buffer_keeps_last:
  assumes "0 < cap"
  shows "\<exists>rb rb'. NewRingBuffer cap = Inr rb \<and> rb_push_all rb xs = Inr rb' \<and>
     rb_Length rb' = int (min (length xs) (nat cap)) \<and>
     rb_list rb' = drop (length xs - nat cap) xs \<and>
     (xs \<noteq> [] \<longrightarrow> rb_Peek rb' = Inr (Some (xs ! (length xs - nat cap))))"
proof -
  obtain rb :: "'a RingBuffer" where rb: "NewRingBuffer cap = Inr rb" "rb_ok rb" "rb_list rb = []" "rb_cap rb = nat cap"
    using rb_list_New [OF assms] by (auto simp: goT_iff)
  obtain rb' where rb': "rb_push_all rb xs = Inr rb'" "rb_ok rb'"
      "rb_list rb' = drop (length xs - nat cap) xs"
    using rbq.push_all_contents [OF rb(2), of xs] rb(3,4) by (auto simp: goT_iff rb_push_all_eq)
  have "rb_Length rb' = int (min (length xs) (nat cap))"
    using rbq.len_spec [OF rb'(2)] rb'(3) by simp
  moreover have "rb_Peek rb' = Inr (Some (xs ! (length xs - nat cap)))" if "xs \<noteq> []"
  proof -
    have "length xs - nat cap < length xs" using that assms by simp
    then show ?thesis using rbq.peek_spec [OF rb'(2)] rb'(3) by (simp add: hd_drop_conv_nth)
  qed
  ultimately show ?thesis using rb(1) rb'(1,3) by blast
qed

theorem ring_buffer_keeps_last_witness:
  "\<exists>rb rb'. NewRingBuffer 2 = Inr rb \<and> rb_push_all rb [1, 2, 3 :: nat] = Inr rb' \<and>
     rb_Length rb' = int (min (length [1, 2, 3 :: nat]) (nat 2)) \<and>
     rb_list rb' = drop (length [1, 2, 3 :: nat] - nat 2) [1, 2, 3] \<and>
     ([1, 2, 3 :: nat] \<noteq> [] \<longrightarrow> rb_Peek rb' = Inr (Some ([1, 2, 3] ! (length [1, 2, 3 :: nat] - nat 2))))"
  by (rule ring_buffer_keeps_last) simp

end
