(* ===== verification/OutGenState.thy ===== *)
theory OutGenState
  imports Messages Pacemaker Pool RingBuffer
begin

text \<open>
  State and shared operations of the outcome generation protocol
  (\<open>ocr3/protocol/outcome_generation.go\<close>, and \<open>commit\<close>/\<open>persistCert\<close> of
  \<open>outcome_generation_follower.go\<close>). Handlers take the environment and the state and return
  the new state or a panic. Everything a handler does to the outside world (sends, database
  writes, events to other sub-protocols, telemetry) and everything it signs is appended to the
  ghost field \<open>og_log\<close>; the ghost counter \<open>og_calls\<close> numbers the calls whose answer the
  environment chooses.
\<close>

section \<open>The reporting plugin and the environment\<close>

record OutcomeContext =
  oc_SeqNr :: u64
  oc_PreviousOutcome :: bytes
  oc_Epoch :: u64
  oc_Round :: u64

text \<open>
  The reporting plugin, the key ring, the database and the scheduler choose their answers:
  the \<open>nat\<close> argument is the number of the call. \<open>None\<close> is an error or an expired context.
  \<open>ObservationQuorum\<close>, \<open>ValidateObservation\<close> and \<open>Outcome\<close> are documented to be pure.
  \<open>oe_done k\<close> says that a channel send takes its \<open>ctx.Done()\<close> case, and \<open>oe_order k\<close> is the
  order in which a map is visited.
\<close>

record og_env =
  oe_crypto :: crypto
  oe_aesctr :: "bytes \<Rightarrow> nat \<Rightarrow> u8"
  oe_config :: SharedConfig
  oe_id :: OracleID
  oe_OffchainPublicKey :: bytes
  oe_sign :: "nat \<Rightarrow> bytes \<Rightarrow> bytes option"
  oe_WriteCert :: "nat \<Rightarrow> bool"
  oe_order :: "nat \<Rightarrow> OracleID list \<Rightarrow> OracleID list"
  oe_done :: "nat \<Rightarrow> bool"
  oe_Query :: "nat \<Rightarrow> OutcomeContext \<Rightarrow> bytes option"
  oe_Observation :: "nat \<Rightarrow> OutcomeContext \<Rightarrow> bytes \<Rightarrow> bytes option"
  oe_ObservationQuorum :: "OutcomeContext \<Rightarrow> bytes \<Rightarrow> int option"
  oe_ValidateObservation :: "OutcomeContext \<Rightarrow> bytes \<Rightarrow> AttributedObservation \<Rightarrow> bool"
  oe_Outcome :: "OutcomeContext \<Rightarrow> bytes \<Rightarrow> AttributedObservation list \<Rightarrow> bytes option"

section \<open>State\<close>

datatype outgenLeaderPhase =
    outgenLeaderPhaseUnknown
  | outgenLeaderPhaseNewEpoch
  | outgenLeaderPhaseSentEpochStart
  | outgenLeaderPhaseSentRoundStart
  | outgenLeaderPhaseGrace
  | outgenLeaderPhaseSentProposal

datatype outgenFollowerPhase =
    outgenFollowerPhaseUnknown
  | outgenFollowerPhaseNewEpoch
  | outgenFollowerPhaseNewRound
  | outgenFollowerPhaseSentObservation
  | outgenFollowerPhaseSentPrepare
  | outgenFollowerPhaseSentCommit

text \<open>The zero \<open>epochStartRequest\<close> has a nil certificate.\<close>

record epochStartRequest =
  esr_HighestCertified :: "CertifiedPrepareOrCommit option"
  esr_SignedHighestCertifiedTimestamp :: SignedHighestCertifiedTimestamp
  esr_bad :: bool

record leaderState =
  ls_phase :: outgenLeaderPhase
  ls_epochStartRequests :: "(OracleID, epochStartRequest) gomap"
  ls_readyToStartRound :: bool
  ls_tRound :: "Duration timer"
  ls_query :: bytes
  ls_observations :: "(OracleID, SignedObservation) gomap option"  \<comment> \<open>\<open>None\<close>: the nil map\<close>
  ls_tGrace :: "Duration timer"

record outcomeAndDigests =
  oad_Outcome :: bytes
  oad_InputsDigest :: bytes
  oad_Digest :: bytes

definition zero_outcomeAndDigests :: outcomeAndDigests where
  "zero_outcomeAndDigests = \<lparr>oad_Outcome = [], oad_InputsDigest = zero_digest, oad_Digest = zero_digest\<rparr>"

text \<open>The pools keep the fields of the pooled messages that are read later: the query of a
  \<open>MessageRoundStart\<close>, sequence number and observations of a \<open>MessageProposal\<close>. They are nil
  before the first epoch.\<close>

record followerState =
  fs_phase :: outgenFollowerPhase
  fs_tInitial :: "Duration timer"
  fs_roundStartPool :: "bytes Pool option"
  fs_query :: "bytes option"
  fs_proposalPool :: "(u64 \<times> AttributedSignedObservation list) Pool option"
  fs_outcome :: outcomeAndDigests
  fs_cert :: CertifiedPrepareOrCommit
  fs_preparePool :: "bytes Pool option"
  fs_commitPool :: "bytes Pool option"

record sharedState =
  sh_e :: u64
  sh_l :: OracleID
  sh_firstSeqNrOfEpoch :: u64
  sh_seqNr :: u64
  sh_observationQuorum :: "int option"
  sh_committedSeqNr :: u64
  sh_committedOutcome :: bytes

text \<open>What an oracle signs.\<close>

datatype signed_data =
    SignedObservationData OutcomeGenerationID u64 bytes bytes
  | SignedPrepareData OutcomeGenerationID u64 bytes bytes
  | SignedCommitData OutcomeGenerationID u64 bytes
  | SignedTimestampData OutcomeGenerationID HighestCertifiedTimestamp

datatype og_effect =
    OgSigned signed_data
  | OgSendTo MessageToOutcomeGeneration OracleID
  | OgBroadcast MessageToOutcomeGeneration
  | OgToPacemaker EventToPacemaker
  | OgToReportAttestation EventToReportAttestation
  | OgWriteCert CertifiedPrepareOrCommit bool
  | OgRoundStarted bytes u64 u64 u64 OracleID

record outcomeGenerationState =
  og_bufferedMessages :: "MessageToOutcomeGeneration RingBuffer list"
  og_leaderState :: leaderState
  og_followerState :: followerState
  og_sharedState :: sharedState
  og_calls :: nat
  og_log :: "og_effect list"

definition futureMessageBufferSize :: int where "futureMessageBufferSize = 10"

definition poolSize :: int where "poolSize = 3"

section \<open>Short names for state updates\<close>

abbreviation e_of :: "outcomeGenerationState \<Rightarrow> u64" where "e_of st \<equiv> sh_e (og_sharedState st)"
abbreviation l_of :: "outcomeGenerationState \<Rightarrow> OracleID" where "l_of st \<equiv> sh_l (og_sharedState st)"
abbreviation seqNr_of :: "outcomeGenerationState \<Rightarrow> u64" where "seqNr_of st \<equiv> sh_seqNr (og_sharedState st)"
abbreviation committedSeqNr_of :: "outcomeGenerationState \<Rightarrow> u64" where
  "committedSeqNr_of st \<equiv> sh_committedSeqNr (og_sharedState st)"
abbreviation phase_of :: "outcomeGenerationState \<Rightarrow> outgenFollowerPhase" where
  "phase_of st \<equiv> fs_phase (og_followerState st)"

definition upd_shared :: "(sharedState \<Rightarrow> sharedState) \<Rightarrow> outcomeGenerationState \<Rightarrow> outcomeGenerationState" where
  "upd_shared f st = st\<lparr>og_sharedState := f (og_sharedState st)\<rparr>"

definition upd_follower :: "(followerState \<Rightarrow> followerState) \<Rightarrow> outcomeGenerationState \<Rightarrow> outcomeGenerationState" where
  "upd_follower f st = st\<lparr>og_followerState := f (og_followerState st)\<rparr>"

definition upd_leader :: "(leaderState \<Rightarrow> leaderState) \<Rightarrow> outcomeGenerationState \<Rightarrow> outcomeGenerationState" where
  "upd_leader f st = st\<lparr>og_leaderState := f (og_leaderState st)\<rparr>"

definition og_emit :: "og_effect \<Rightarrow> outcomeGenerationState \<Rightarrow> outcomeGenerationState" where
  "og_emit x st = st\<lparr>og_log := og_log st @ [x]\<rparr>"

definition og_tick :: "outcomeGenerationState \<Rightarrow> outcomeGenerationState" where
  "og_tick st = st\<lparr>og_calls := Suc (og_calls st)\<rparr>"

lemma upd_simps [simp]:
  "og_sharedState (upd_shared f st) = f (og_sharedState st)"
  "og_sharedState (upd_follower g st) = og_sharedState st"
  "og_sharedState (upd_leader h st) = og_sharedState st"
  "og_sharedState (og_emit x st) = og_sharedState st"
  "og_sharedState (og_tick st) = og_sharedState st"
  "og_followerState (upd_shared f st) = og_followerState st"
  "og_followerState (upd_follower g st) = g (og_followerState st)"
  "og_followerState (upd_leader h st) = og_followerState st"
  "og_followerState (og_emit x st) = og_followerState st"
  "og_followerState (og_tick st) = og_followerState st"
  "og_leaderState (upd_shared f st) = og_leaderState st"
  "og_leaderState (upd_follower g st) = og_leaderState st"
  "og_leaderState (upd_leader h st) = h (og_leaderState st)"
  "og_leaderState (og_emit x st) = og_leaderState st"
  "og_leaderState (og_tick st) = og_leaderState st"
  "og_log (upd_shared f st) = og_log st"
  "og_log (upd_follower g st) = og_log st"
  "og_log (upd_leader h st) = og_log st"
  "og_log (og_emit x st) = og_log st @ [x]"
  "og_log (og_tick st) = og_log st"
  "og_calls (upd_shared f st) = og_calls st"
  "og_calls (upd_follower g st) = og_calls st"
  "og_calls (upd_leader h st) = og_calls st"
  "og_calls (og_emit x st) = og_calls st"
  "og_calls (og_tick st) = Suc (og_calls st)"
  "og_bufferedMessages (upd_shared f st) = og_bufferedMessages st"
  "og_bufferedMessages (upd_follower g st) = og_bufferedMessages st"
  "og_bufferedMessages (upd_leader h st) = og_bufferedMessages st"
  "og_bufferedMessages (og_emit x st) = og_bufferedMessages st"
  "og_bufferedMessages (og_tick st) = og_bufferedMessages st"
  by (simp_all add: upd_shared_def upd_follower_def upd_leader_def og_emit_def og_tick_def)

section \<open>Context and quorum\<close>

definition og_ID :: "og_env \<Rightarrow> outcomeGenerationState \<Rightarrow> OutcomeGenerationID" where
  "og_ID env st = \<lparr>ogid_ConfigDigest = cfg_ConfigDigest (oe_config env), ogid_Epoch = e_of st\<rparr>"

definition OutcomeCtx :: "outcomeGenerationState \<Rightarrow> u64 \<Rightarrow> OutcomeContext go" where
  "OutcomeCtx st seqNr =
     (if seqNr \<noteq> committedSeqNr_of st + 1 then Inl ExplicitPanic
      else Inr \<lparr>oc_SeqNr = seqNr,
                oc_PreviousOutcome = sh_committedOutcome (og_sharedState st),
                oc_Epoch = e_of st,
                oc_Round = seqNr - sh_firstSeqNrOfEpoch (og_sharedState st) + 1\<rparr>)"

definition QuorumFPlusOne :: int where "QuorumFPlusOne = MaxOracles + 1"
definition QuorumTwoFPlusOne :: int where "QuorumTwoFPlusOne = MaxOracles + 2"
definition QuorumByzQuorum :: int where "QuorumByzQuorum = MaxOracles + 3"
definition QuorumNMinusF :: int where "QuorumNMinusF = MaxOracles + 4"

text \<open>Returns \<open>None\<close> for \<open>ok = false\<close>.\<close>

definition ObservationQuorum ::
  "og_env \<Rightarrow> bytes \<Rightarrow> outcomeGenerationState \<Rightarrow> (int option \<times> outcomeGenerationState) go" where
  "ObservationQuorum env query st =
     (case sh_observationQuorum (og_sharedState st) of
        Some q \<Rightarrow> Inr (Some q, st)
      | None \<Rightarrow>
          bindG (OutcomeCtx st (seqNr_of st)) (\<lambda>outctx.
          Inr (case oe_ObservationQuorum env outctx query of
                 None \<Rightarrow> (None, st)
               | Some observationQuorum \<Rightarrow>
                   let cfg = oe_config env;
                       nMinusF = cfg_N cfg - cfg_F cfg;
                       quorum = (if observationQuorum = QuorumFPlusOne then cfg_F cfg + 1
                                 else if observationQuorum = QuorumTwoFPlusOne then 2 * cfg_F cfg + 1
                                 else if observationQuorum = QuorumByzQuorum then ByzQuorumSize cfg
                                 else if observationQuorum = QuorumNMinusF then nMinusF
                                 else observationQuorum)
                   in if \<not> (0 < quorum \<and> quorum \<le> nMinusF) then (None, st)
                      else (Some quorum, upd_shared (\<lambda>s. s\<lparr>sh_observationQuorum := Some quorum\<rparr>) st))))"

section \<open>Signing, persisting, notifying\<close>

text \<open>A signing request \<open>mk signer\<close> is one of the \<open>Make...\<close> functions applied to the key ring's
  \<open>OffchainSign\<close>; what was signed is recorded when the key ring answers.\<close>

definition og_sign ::
  "og_env \<Rightarrow> signed_data \<Rightarrow> ((bytes \<Rightarrow> bytes option) \<Rightarrow> 'a option) \<Rightarrow> outcomeGenerationState \<Rightarrow>
   'a option \<times> outcomeGenerationState" where
  "og_sign env d mk st =
     (let r = mk (oe_sign env (og_calls st));
          st = og_tick st
      in (r, if r = None then st else og_emit (OgSigned d) st))"

definition persistCert :: "og_env \<Rightarrow> outcomeGenerationState \<Rightarrow> bool \<times> outcomeGenerationState" where
  "persistCert env st =
     (let ok = oe_WriteCert env (og_calls st)
      in (ok, og_emit (OgWriteCert (fs_cert (og_followerState st)) ok) (og_tick st)))"

text \<open>\<open>select { case ch <- ev: case <-ctx.Done(): return }\<close>; the Boolean is true when the event
  was sent.\<close>

definition og_trySend :: "og_env \<Rightarrow> og_effect \<Rightarrow> outcomeGenerationState \<Rightarrow> bool \<times> outcomeGenerationState" where
  "og_trySend env x st =
     (let st' = og_tick st
      in if oe_done env (og_calls st) then (False, st') else (True, og_emit x st'))"

definition poolReap :: "'a Pool option \<Rightarrow> u64 \<Rightarrow> 'a Pool option go" where
  "poolReap p completedSeqNr = bindG (go_deref p) (\<lambda>p. Inr (Some (ReapCompleted p completedSeqNr)))"

definition commit_reap :: "outcomeGenerationState \<Rightarrow> outcomeGenerationState go" where
  "commit_reap st =
     (let n = committedSeqNr_of st; fs = og_followerState st in
      bindG (poolReap (fs_roundStartPool fs) n) (\<lambda>rs.
      bindG (poolReap (fs_proposalPool fs) n) (\<lambda>pr.
      bindG (poolReap (fs_preparePool fs) n) (\<lambda>pp.
      bindG (poolReap (fs_commitPool fs) n) (\<lambda>cp.
        Inr (upd_follower (\<lambda>f. f\<lparr>fs_roundStartPool := rs, fs_proposalPool := pr,
                                 fs_preparePool := pp, fs_commitPool := cp\<rparr>) st))))))"

definition commit :: "og_env \<Rightarrow> CertifiedCommit \<Rightarrow> outcomeGenerationState \<Rightarrow> outcomeGenerationState go" where
  "commit env cmt st =
     (if cmt_SeqNr cmt < committedSeqNr_of st then Inr st
      else if cmt_SeqNr cmt \<le> committedSeqNr_of st then commit_reap st
      else
        let st = upd_follower (\<lambda>f. f\<lparr>fs_cert := CertCommit cmt\<rparr>) st;
            (ok, st) = persistCert env st
        in if \<not> ok then Inr st
           else
             let st = upd_shared (\<lambda>s. s\<lparr>sh_committedSeqNr := cmt_SeqNr cmt,
                                       sh_committedOutcome := cmt_Outcome cmt\<rparr>) st;
                 (sent, st) = og_trySend env (OgToReportAttestation (EventCommittedOutcome cmt)) st
             in if \<not> sent then Inr st else commit_reap st)"

end
