(* ===== verification/OutGenLeader.thy ===== *)
theory OutGenLeader
  imports OutGenState
begin

text \<open>
  The leader's handlers of outcome generation (\<open>ocr3/protocol/outcome_generation_leader.go\<close>):
  starting an epoch from a quorum of certified timestamps, starting a round, collecting
  observations and proposing them.
\<close>

section \<open>Starting a round\<close>

definition startSubsequentLeaderRound :: "og_env \<Rightarrow> outcomeGenerationState \<Rightarrow> outcomeGenerationState go" where
  "startSubsequentLeaderRound env st =
     (if \<not> ls_readyToStartRound (og_leaderState st)
      then Inr (upd_leader (\<lambda>s. s\<lparr>ls_readyToStartRound := True\<rparr>) st)
      else
        let st = upd_leader (\<lambda>s. s\<lparr>ls_readyToStartRound := False\<rparr>) st in
        bindG (OutcomeCtx st (committedSeqNr_of st + 1)) (\<lambda>outctx.
        let r = oe_Query env (og_calls st) outctx; st = og_tick st in
        Inr (case r of
               None \<Rightarrow> st
             | Some query \<Rightarrow>
                 let st = upd_leader (\<lambda>s. s\<lparr>ls_query := query, ls_observations := Some [],
                            ls_tRound := TArmed (cfg_DeltaRound (oe_config env)),
                            ls_phase := outgenLeaderPhaseSentRoundStart\<rparr>) st
                 in og_emit (OgBroadcast (MessageRoundStart (e_of st) (committedSeqNr_of st + 1) query)) st)))"

definition eventTRoundTimeout :: "og_env \<Rightarrow> outcomeGenerationState \<Rightarrow> outcomeGenerationState go" where
  "eventTRoundTimeout env st = startSubsequentLeaderRound env st"

section \<open>Starting an epoch\<close>

definition zero_SignedHighestCertifiedTimestamp :: SignedHighestCertifiedTimestamp where
  "zero_SignedHighestCertifiedTimestamp =
     \<lparr>shct_HighestCertifiedTimestamp = \<lparr>hct_SeqNr = 0, hct_CommittedElsePrepared = False\<rparr>, shct_Signature = []\<rparr>"

definition zero_epochStartRequest :: epochStartRequest where
  "zero_epochStartRequest =
     \<lparr>esr_HighestCertified = None,
      esr_SignedHighestCertifiedTimestamp = zero_SignedHighestCertifiedTimestamp, esr_bad = False\<rparr>"

definition esr_timestamp :: "epochStartRequest \<Rightarrow> HighestCertifiedTimestamp" where
  "esr_timestamp r = shct_HighestCertifiedTimestamp (esr_SignedHighestCertifiedTimestamp r)"

definition esr_of :: "(OracleID, epochStartRequest) gomap \<Rightarrow> OracleID \<Rightarrow> epochStartRequest" where
  "esr_of m sender = (case map_of m sender of None \<Rightarrow> zero_epochStartRequest | Some r \<Rightarrow> r)"

text \<open>The loop that counts the good requests and finds one with a maximal timestamp.\<close>

fun max_loop ::
  "(OracleID, epochStartRequest) gomap \<Rightarrow> OracleID list \<Rightarrow> int \<Rightarrow> OracleID option \<Rightarrow> int \<times> OracleID option" where
  "max_loop m [] goodCount maxSender = (goodCount, maxSender)"
| "max_loop m (sender # senders) goodCount maxSender =
     (if esr_bad (esr_of m sender) then max_loop m senders goodCount maxSender
      else max_loop m senders (goodCount + 1)
        (case maxSender of
           None \<Rightarrow> Some sender
         | Some s \<Rightarrow> if Less (esr_timestamp (esr_of m s)) (esr_timestamp (esr_of m sender))
                    then Some sender else Some s))"

text \<open>The loop that collects the proof, leaving when it has a quorum.\<close>

fun proof_collect ::
  "(OracleID, epochStartRequest) gomap \<Rightarrow> int \<Rightarrow> OracleID list \<Rightarrow>
   AttributedSignedHighestCertifiedTimestamp list \<Rightarrow> AttributedSignedHighestCertifiedTimestamp list" where
  "proof_collect m q [] acc = acc"
| "proof_collect m q (sender # senders) acc =
     (if esr_bad (esr_of m sender) then proof_collect m q senders acc
      else
        let acc = acc @ [\<lparr>ashct_SignedHighestCertifiedTimestamp = esr_SignedHighestCertifiedTimestamp (esr_of m sender),
                          ashct_Signer = sender\<rparr>]
        in if int (length acc) = q then acc else proof_collect m q senders acc)"

definition set_request :: "OracleID \<Rightarrow> epochStartRequest \<Rightarrow> outcomeGenerationState \<Rightarrow> outcomeGenerationState" where
  "set_request sender r st =
     upd_leader (\<lambda>s. s\<lparr>ls_epochStartRequests := AList.update sender r (ls_epochStartRequests s)\<rparr>) st"

text \<open>After the proof has been built: broadcast it and start the first round of the epoch.\<close>

definition sendEpochStart :: "og_env \<Rightarrow> EpochStartProof \<Rightarrow> outcomeGenerationState \<Rightarrow> outcomeGenerationState go" where
  "sendEpochStart env epochStartProof st =
     (let st = upd_leader (\<lambda>s. s\<lparr>ls_phase := outgenLeaderPhaseSentEpochStart\<rparr>) st;
          st = og_emit (OgBroadcast (MessageEpochStart (e_of st) epochStartProof)) st;
          first = (\<lambda>st. upd_shared (\<lambda>s. s\<lparr>sh_firstSeqNrOfEpoch := sh_committedSeqNr s + 1\<rparr>) st)
      in if cert_IsGenesis (esp_HighestCertified epochStartProof)
         then startSubsequentLeaderRound env (first st)
         else case esp_HighestCertified epochStartProof of
                CertCommit commitQC \<Rightarrow>
                  bindG (commit env commitQC st) (\<lambda>st. startSubsequentLeaderRound env (first st))
              | CertPrepare prepareQc \<Rightarrow>
                  Inr (upd_shared (\<lambda>s. s\<lparr>sh_firstSeqNrOfEpoch := cp_SeqNr prepareQc + 1\<rparr>) st))"

text \<open>Once a quorum of requests is there: select the maximum, check it, build the proof.\<close>

definition tryStartEpoch :: "og_env \<Rightarrow> outcomeGenerationState \<Rightarrow> outcomeGenerationState go" where
  "tryStartEpoch env st =
     (let cfg = oe_config env; m = ls_epochStartRequests (og_leaderState st);
          order1 = oe_order env (og_calls st) (map fst m);
          order2 = oe_order env (Suc (og_calls st)) (map fst m);
          st = og_tick (og_tick st);
          (goodCount, maxSender) = max_loop m order1 0 None
      in case maxSender of
           None \<Rightarrow> Inr st
         | Some sender \<Rightarrow>
             if goodCount < ByzQuorumSize cfg then Inr st
             else
               let maxRequest = esr_of m sender in
               bindG (go_deref (esr_HighestCertified maxRequest)) (\<lambda>hc.
               if cert_Timestamp hc \<noteq> esr_timestamp maxRequest
               then Inr (set_request sender (maxRequest\<lparr>esr_bad := True\<rparr>) st)
               else if cert_Verify (oe_crypto env) hc (cfg_ConfigDigest cfg) (cfg_OracleIdentities cfg)
                         (ByzQuorumSize cfg) \<noteq> None
               then Inr (set_request sender (maxRequest\<lparr>esr_bad := True\<rparr>) st)
               else
                 let epochStartProof =
                       \<lparr>esp_HighestCertified = hc,
                        esp_HighestCertifiedProof = proof_collect m (ByzQuorumSize cfg) order2 []\<rparr>
                 in bindG (EpochStartProof_Verify (oe_crypto env) epochStartProof (og_ID env st)
                             (cfg_OracleIdentities cfg) (ByzQuorumSize cfg)) (\<lambda>err.
                    if err \<noteq> None then Inr st else sendEpochStart env epochStartProof st)))"

definition messageEpochStartRequest ::
  "og_env \<Rightarrow> u64 \<Rightarrow> CertifiedPrepareOrCommit \<Rightarrow> SignedHighestCertifiedTimestamp \<Rightarrow> OracleID \<Rightarrow>
   outcomeGenerationState \<Rightarrow> outcomeGenerationState go" where
  "messageEpochStartRequest env epoch hc shct sender st =
     (if epoch \<noteq> e_of st then Inr st
      else if l_of st \<noteq> oe_id env then Inr st
      else if ls_phase (og_leaderState st) \<noteq> outgenLeaderPhaseNewEpoch then Inr st
      else if map_of (ls_epochStartRequests (og_leaderState st)) sender \<noteq> None then Inr st
      else
        bindG (go_index (cfg_OracleIdentities (oe_config env)) (unat sender)) (\<lambda>identity.
        if SignedHighestCertifiedTimestamp_Verify (oe_crypto env) shct (og_ID env st)
             (oi_OffchainPublicKey identity) \<noteq> None
        then Inr (set_request sender (zero_epochStartRequest\<lparr>esr_bad := True\<rparr>) st)
        else
          let st = set_request sender
                \<lparr>esr_HighestCertified = Some hc, esr_SignedHighestCertifiedTimestamp = shct, esr_bad = False\<rparr> st
          in if int (length (ls_epochStartRequests (og_leaderState st))) < ByzQuorumSize (oe_config env)
             then Inr st
             else tryStartEpoch env st))"

section \<open>Collecting observations\<close>

definition messageObservation ::
  "og_env \<Rightarrow> u64 \<Rightarrow> u64 \<Rightarrow> SignedObservation \<Rightarrow> OracleID \<Rightarrow> outcomeGenerationState \<Rightarrow>
   outcomeGenerationState go" where
  "messageObservation env epoch seqNr so sender st =
     (let ls = og_leaderState st in
      if epoch \<noteq> e_of st then Inr st
      else if l_of st \<noteq> oe_id env then Inr st
      else if ls_phase ls \<noteq> outgenLeaderPhaseSentRoundStart \<and> ls_phase ls \<noteq> outgenLeaderPhaseGrace then Inr st
      else if seqNr \<noteq> seqNr_of st then Inr st
      else if (case ls_observations ls of None \<Rightarrow> None | Some m \<Rightarrow> map_of m sender) \<noteq> None then Inr st
      else
        bindG (go_index (cfg_OracleIdentities (oe_config env)) (unat sender)) (\<lambda>identity.
        if SignedObservation_Verify (oe_crypto env) so (og_ID env st) (seqNr_of st) (ls_query ls)
             (oi_OffchainPublicKey identity) \<noteq> None
        then Inr st
        else
          bindG (OutcomeCtx st (seqNr_of st)) (\<lambda>outctx.
          \<comment> \<open>an invalid observation is logged, and processing goes on\<close>
          let invalid = \<not> oe_ValidateObservation env outctx (ls_query ls)
                \<lparr>ao_Observation = so_Observation so, ao_Observer = sender\<rparr> in
          bindG (ObservationQuorum env (ls_query ls) st) (\<lambda>(q, st).
          case q of
            None \<Rightarrow> Inr st
          | Some quorum \<Rightarrow>
              bindG (go_deref (ls_observations ls)) (\<lambda>m.
              let m = AList.update sender so m;
                  st = upd_leader (\<lambda>s. s\<lparr>ls_observations := Some m\<rparr>) st
              in Inr (if int (length m) = quorum
                      then upd_leader (\<lambda>s. s\<lparr>ls_phase := outgenLeaderPhaseGrace,
                             ls_tGrace := TArmed (cfg_DeltaGrace (oe_config env))\<rparr>) st
                      else st))))))"

definition eventTGraceTimeout :: "og_env \<Rightarrow> outcomeGenerationState \<Rightarrow> outcomeGenerationState go" where
  "eventTGraceTimeout env st =
     (if ls_phase (og_leaderState st) \<noteq> outgenLeaderPhaseGrace then Inr st
      else
        let m = (case ls_observations (og_leaderState st) of None \<Rightarrow> [] | Some m \<Rightarrow> m);
            order = oe_order env (og_calls st) (map fst m);
            asos = map (\<lambda>oid. \<lparr>aso_SignedObservation = the (map_of m oid), aso_Observer = oid\<rparr>) order;
            st = upd_leader (\<lambda>s. s\<lparr>ls_phase := outgenLeaderPhaseSentProposal\<rparr>) (og_tick st)
        in Inr (og_emit (OgBroadcast (MessageProposal (e_of st) (seqNr_of st) asos)) st))"

end
