(* ===== verification/OutGenFollower.thy ===== *)
theory OutGenFollower
  imports OutGenLeader
begin

text \<open>
  The follower's handlers of outcome generation
  (\<open>ocr3/protocol/outcome_generation_follower.go\<close>): joining an epoch, observing, preparing and
  committing. The pools' \<open>try...\<close> functions advance the round as far as the pooled messages
  allow.
\<close>

section \<open>Proposals: prepare\<close>

text \<open>
  The loop over the proposal's observations: \<open>None\<close> when the proposal is dropped. The bound on
  the observer is written as in the code, \<open>observer <= N\<close>; an observation that
  \<open>ValidateObservation\<close> rejects is logged, and the loop goes on with it.
\<close>

fun proposal_loop ::
  "og_env \<Rightarrow> outcomeGenerationState \<Rightarrow> bytes \<Rightarrow> OracleID list \<Rightarrow> AttributedSignedObservation list \<Rightarrow>
   AttributedObservation list \<Rightarrow> AttributedObservation list option go" where
  "proposal_loop env st query seen [] aos = Inr (Some aos)"
| "proposal_loop env st query seen (aso # asos) aos =
     (if \<not> (uint (aso_Observer aso) \<le> cfg_N (oe_config env)) then Inr None
      else if aso_Observer aso \<in> set seen then Inr None
      else
        bindG (go_index (cfg_OracleIdentities (oe_config env)) (unat (aso_Observer aso))) (\<lambda>identity.
        if SignedObservation_Verify (oe_crypto env) (aso_SignedObservation aso) (og_ID env st) (seqNr_of st)
             query (oi_OffchainPublicKey identity) \<noteq> None
        then Inr None
        else
          bindG (OutcomeCtx st (seqNr_of st)) (\<lambda>outctx.
          let ao = \<lparr>ao_Observation = so_Observation (aso_SignedObservation aso), ao_Observer = aso_Observer aso\<rparr>;
              invalid = \<not> oe_ValidateObservation env outctx query ao
          in proposal_loop env st query (aso_Observer aso # seen) asos (aos @ [ao]))))"

text \<open>Signing the prepare message and entering phase \<open>SentPrepare\<close>.\<close>

definition sendPrepare ::
  "og_env \<Rightarrow> u64 \<Rightarrow> outcomeAndDigests \<Rightarrow> outcomeGenerationState \<Rightarrow> outcomeGenerationState" where
  "sendPrepare env seqNr oad st =
     (let (r, st) = og_sign env (SignedPrepareData (og_ID env st) seqNr (oad_InputsDigest oad) (oad_Digest oad))
                      (MakePrepareSignature (oe_crypto env) (og_ID env st) seqNr (oad_InputsDigest oad) (oad_Digest oad)) st
      in case r of
           None \<Rightarrow> st
         | Some prepareSignature \<Rightarrow>
             let st = upd_follower (\<lambda>f. f\<lparr>fs_phase := outgenFollowerPhaseSentPrepare, fs_outcome := oad\<rparr>) st
             in og_emit (OgBroadcast (MessagePrepare (e_of st) seqNr prepareSignature)) st)"

definition tryProcessProposalPool :: "og_env \<Rightarrow> outcomeGenerationState \<Rightarrow> outcomeGenerationState go" where
  "tryProcessProposalPool env st =
     (let fs = og_followerState st; sh = og_sharedState st in
      if fs_phase fs \<noteq> outgenFollowerPhaseSentObservation then Inr st
      else
        bindG (go_deref (fs_proposalPool fs)) (\<lambda>proposalPool.
        case Option.bind (Entries proposalPool (sh_seqNr sh)) (\<lambda>m. map_of m (sh_l sh)) of
          None \<Rightarrow> Inr st
        | Some en \<Rightarrow>
            let (msgSeqNr, asos) = Item en in
            if msgSeqNr \<le> sh_committedSeqNr sh then Inr st
            else
              bindG (go_deref (fs_query fs)) (\<lambda>query.
              bindG (ObservationQuorum env query st) (\<lambda>(q, st).
              case q of
                None \<Rightarrow> Inr st
              | Some quorum \<Rightarrow>
                  if int (length asos) < quorum then Inr st
                  else
                    bindG (proposal_loop env st query [] asos []) (\<lambda>r.
                    case r of
                      None \<Rightarrow> Inr st
                    | Some attributedObservations \<Rightarrow>
                        let inputsDigest = MakeOutcomeInputsDigest (oe_crypto env) (og_ID env st)
                              (sh_committedOutcome (og_sharedState st)) (seqNr_of st) query attributedObservations
                        in bindG (OutcomeCtx st (seqNr_of st)) (\<lambda>outctx.
                           Inr (case oe_Outcome env outctx query attributedObservations of
                                  None \<Rightarrow> st
                                | Some outcome \<Rightarrow>
                                    sendPrepare env msgSeqNr
                                      \<lparr>oad_Outcome = outcome, oad_InputsDigest = inputsDigest,
                                       oad_Digest = MakeOutcomeDigest (oe_crypto env) outcome\<rparr> st)))))))"

definition messageProposal ::
  "og_env \<Rightarrow> u64 \<Rightarrow> u64 \<Rightarrow> AttributedSignedObservation list \<Rightarrow> OracleID \<Rightarrow> outcomeGenerationState \<Rightarrow>
   outcomeGenerationState go" where
  "messageProposal env epoch seqNr asos sender st =
     (if epoch \<noteq> e_of st then Inr st
      else if sender \<noteq> l_of st then Inr st
      else
        bindG (go_deref (fs_proposalPool (og_followerState st))) (\<lambda>p.
        let (putResult, p) = Put p seqNr sender (seqNr, asos);
            st = upd_follower (\<lambda>f. f\<lparr>fs_proposalPool := Some p\<rparr>) st
        in if putResult \<noteq> PutResultOK then Inr st else tryProcessProposalPool env st))"

section \<open>Round starts: observe\<close>

definition tryProcessRoundStartPool :: "og_env \<Rightarrow> outcomeGenerationState \<Rightarrow> outcomeGenerationState go" where
  "tryProcessRoundStartPool env st =
     (let fs = og_followerState st; sh = og_sharedState st in
      if fs_phase fs \<noteq> outgenFollowerPhaseNewRound then Inr st
      else
        bindG (go_deref (fs_roundStartPool fs)) (\<lambda>roundStartPool.
        case Option.bind (Entries roundStartPool (sh_seqNr sh)) (\<lambda>m. map_of m (sh_l sh)) of
          None \<Rightarrow> Inr st
        | Some en \<Rightarrow>
            if fs_query fs \<noteq> None then Inr st
            else
              let query = Item en;
                  st = upd_follower (\<lambda>f. f\<lparr>fs_query := Some query\<rparr>) st
              in bindG (OutcomeCtx st (seqNr_of st)) (\<lambda>outctx.
                 let st = og_emit (OgRoundStarted (cfg_ConfigDigest (oe_config env)) (oc_Epoch outctx)
                                     (oc_SeqNr outctx) (oc_Round outctx) (l_of st)) st;
                     r = oe_Observation env (og_calls st) outctx query;
                     st = og_tick st
                 in case r of
                      None \<Rightarrow> Inr st
                    | Some ob \<Rightarrow>
                        let (so, st) = og_sign env (SignedObservationData (og_ID env st) (seqNr_of st) query ob)
                              (MakeSignedObservation (oe_crypto env) (og_ID env st) (seqNr_of st) query ob) st
                        in case so of
                             None \<Rightarrow> Inr st
                           | Some so \<Rightarrow>
                               if SignedObservation_Verify (oe_crypto env) so (og_ID env st) (seqNr_of st) query
                                    (oe_OffchainPublicKey env) \<noteq> None
                               then Inr st
                               else
                                 let st = upd_follower (\<lambda>f. f\<lparr>fs_phase := outgenFollowerPhaseSentObservation\<rparr>) st;
                                     st = og_emit (OgSendTo (MessageObservation (e_of st) (seqNr_of st) so) (l_of st)) st
                                 in tryProcessProposalPool env st)))"

definition startSubsequentFollowerRound :: "og_env \<Rightarrow> outcomeGenerationState \<Rightarrow> outcomeGenerationState go" where
  "startSubsequentFollowerRound env st =
     (let st = upd_shared (\<lambda>s. s\<lparr>sh_seqNr := sh_committedSeqNr s + 1, sh_observationQuorum := None\<rparr>) st;
          st = upd_follower (\<lambda>f. f\<lparr>fs_phase := outgenFollowerPhaseNewRound, fs_query := None,
                                   fs_outcome := zero_outcomeAndDigests\<rparr>) st
      in tryProcessRoundStartPool env st)"

definition messageRoundStart ::
  "og_env \<Rightarrow> u64 \<Rightarrow> u64 \<Rightarrow> bytes \<Rightarrow> OracleID \<Rightarrow> outcomeGenerationState \<Rightarrow> outcomeGenerationState go" where
  "messageRoundStart env epoch seqNr query sender st =
     (if epoch \<noteq> e_of st then Inr st
      else if sender \<noteq> l_of st then Inr st
      else
        bindG (go_deref (fs_roundStartPool (og_followerState st))) (\<lambda>p.
        let (putResult, p) = Put p seqNr sender query;
            st = upd_follower (\<lambda>f. f\<lparr>fs_roundStartPool := Some p\<rparr>) st
        in if putResult \<noteq> PutResultOK then Inr st else tryProcessRoundStartPool env st))"

section \<open>Joining an epoch\<close>

definition eventTInitialTimeout :: "og_env \<Rightarrow> outcomeGenerationState \<Rightarrow> outcomeGenerationState go" where
  "eventTInitialTimeout env st = Inr (snd (og_trySend env (OgToPacemaker EventNewEpochRequest) st))"

definition messageEpochStart ::
  "og_env \<Rightarrow> u64 \<Rightarrow> EpochStartProof \<Rightarrow> OracleID \<Rightarrow> outcomeGenerationState \<Rightarrow> outcomeGenerationState go" where
  "messageEpochStart env epoch proof sender st =
     (if epoch \<noteq> e_of st then Inr st
      else if sender \<noteq> l_of st then Inr st
      else if phase_of st \<noteq> outgenFollowerPhaseNewEpoch then Inr st
      else
        bindG (EpochStartProof_Verify (oe_crypto env) proof (og_ID env st)
                 (cfg_OracleIdentities (oe_config env)) (ByzQuorumSize (oe_config env))) (\<lambda>err.
        if err \<noteq> None then Inr st
        else
          let st = upd_follower (\<lambda>f. f\<lparr>fs_tInitial := TNil\<rparr>) st;
              first = (\<lambda>st. upd_shared (\<lambda>s. s\<lparr>sh_firstSeqNrOfEpoch := sh_committedSeqNr s + 1\<rparr>) st)
          in if cert_IsGenesis (esp_HighestCertified proof)
             then startSubsequentFollowerRound env (first st)
             else case esp_HighestCertified proof of
                    CertCommit commitQC \<Rightarrow>
                      bindG (commit env commitQC st) (\<lambda>st. startSubsequentFollowerRound env (first st))
                  | CertPrepare prepareQc \<Rightarrow>
                      let oad = \<lparr>oad_Outcome = cp_Outcome prepareQc, oad_InputsDigest = zero_digest,
                                 oad_Digest = MakeOutcomeDigest (oe_crypto env) (cp_Outcome prepareQc)\<rparr>;
                          (r, st) = og_sign env
                            (SignedPrepareData (og_ID env st) (cp_SeqNr prepareQc) (oad_InputsDigest oad) (oad_Digest oad))
                            (MakePrepareSignature (oe_crypto env) (og_ID env st) (cp_SeqNr prepareQc)
                               (oad_InputsDigest oad) (oad_Digest oad)) st
                      in case r of
                           None \<Rightarrow> Inr st
                         | Some prepareSignature \<Rightarrow>
                             let st = upd_shared (\<lambda>s. s\<lparr>sh_firstSeqNrOfEpoch := cp_SeqNr prepareQc + 1,
                                        sh_seqNr := cp_SeqNr prepareQc, sh_observationQuorum := None\<rparr>) st;
                                 st = upd_follower (\<lambda>f. f\<lparr>fs_phase := outgenFollowerPhaseSentPrepare,
                                        fs_outcome := oad\<rparr>) st
                             in Inr (og_emit (OgBroadcast
                                   (MessagePrepare (e_of st) (cp_SeqNr prepareQc) prepareSignature)) st)))"

section \<open>Prepares: commit\<close>

text \<open>
  The first loop of \<open>tryProcessPreparePool\<close> and \<open>tryProcessCommitPool\<close> verifies every entry
  not verified yet, in any order: \<open>sig_ok sender item pk\<close> is the check of one signature.
\<close>

fun verify_pool ::
  "OracleIdentity list \<Rightarrow> (bytes \<Rightarrow> bytes \<Rightarrow> bool) \<Rightarrow> u64 \<Rightarrow> (OracleID \<times> bytes Entry) list \<Rightarrow> bytes Pool \<Rightarrow>
   bytes Pool go" where
  "verify_pool ids sig_ok seqNr [] p = Inr p"
| "verify_pool ids sig_ok seqNr ((sender, en) # entries) p =
     (if Verified en \<noteq> None then verify_pool ids sig_ok seqNr entries p
      else bindG (go_index ids (unat sender)) (\<lambda>identity.
             verify_pool ids sig_ok seqNr entries
               (StoreVerified p seqNr sender (sig_ok (Item en) (oi_OffchainPublicKey identity)))))"

text \<open>The second loop collects verified entries in map order until it has \<open>q\<close> of them.\<close>

fun collect_quorum :: "int \<Rightarrow> (OracleID \<times> bytes Entry) list \<Rightarrow> (bytes \<times> OracleID) list \<Rightarrow> (bytes \<times> OracleID) list" where
  "collect_quorum q [] acc = acc"
| "collect_quorum q ((sender, en) # entries) acc =
     (if Verified en = Some True
      then let acc = acc @ [(Item en, sender)]
           in if int (length acc) = q then acc else collect_quorum q entries acc
      else collect_quorum q entries acc)"

definition pool_entries_of :: "bytes Pool \<Rightarrow> u64 \<Rightarrow> (OracleID, bytes Entry) gomap" where
  "pool_entries_of p seqNr = (case Entries p seqNr of None \<Rightarrow> [] | Some m \<Rightarrow> m)"

definition entries_in_order :: "(OracleID list \<Rightarrow> OracleID list) \<Rightarrow> (OracleID, bytes Entry) gomap \<Rightarrow> (OracleID \<times> bytes Entry) list" where
  "entries_in_order order m = map (\<lambda>i. (i, the (map_of m i))) (order (map fst m))"

definition tryProcessPreparePool :: "og_env \<Rightarrow> outcomeGenerationState \<Rightarrow> outcomeGenerationState go" where
  "tryProcessPreparePool env st =
     (let fs = og_followerState st; C = oe_crypto env; cfg = oe_config env; oad = fs_outcome fs in
      if fs_phase fs \<noteq> outgenFollowerPhaseSentPrepare then Inr st
      else
        bindG (go_deref (fs_preparePool fs)) (\<lambda>preparePool.
        if int (length (pool_entries_of preparePool (seqNr_of st))) < ByzQuorumSize cfg then Inr st
        else
          bindG (verify_pool (cfg_OracleIdentities cfg)
                   (\<lambda>sig pk. PrepareSignature_Verify C sig (og_ID env st) (seqNr_of st)
                               (oad_InputsDigest oad) (oad_Digest oad) pk = None)
                   (seqNr_of st) (pool_entries_of preparePool (seqNr_of st)) preparePool) (\<lambda>preparePool.
          let st = upd_follower (\<lambda>f. f\<lparr>fs_preparePool := Some preparePool\<rparr>) st;
              order = oe_order env (og_calls st);
              st = og_tick st;
              qc = collect_quorum (ByzQuorumSize cfg)
                     (entries_in_order order (pool_entries_of preparePool (seqNr_of st))) []
          in if int (length qc) < ByzQuorumSize cfg then Inr st
             else
               let (r, st) = og_sign env (SignedCommitData (og_ID env st) (seqNr_of st) (oad_Digest oad))
                     (MakeCommitSignature C (og_ID env st) (seqNr_of st) (oad_Digest oad)) st
               in case r of
                    None \<Rightarrow> Inr st
                  | Some commitSignature \<Rightarrow>
                      let cert = \<lparr>cp_PrepareEpoch = e_of st, cp_SeqNr = seqNr_of st,
                                  cp_OutcomeInputsDigest = oad_InputsDigest oad, cp_Outcome = oad_Outcome oad,
                                  cp_PrepareQuorumCertificate =
                                    map (\<lambda>(sig, i). \<lparr>aps_Signature = sig, aps_Signer = i\<rparr>) qc\<rparr>;
                          st = upd_follower (\<lambda>f. f\<lparr>fs_cert := CertPrepare cert\<rparr>) st;
                          (ok, st) = persistCert env st
                      in if \<not> ok then Inr st
                         else
                           let st = upd_follower (\<lambda>f. f\<lparr>fs_phase := outgenFollowerPhaseSentCommit\<rparr>) st
                           in Inr (og_emit (OgBroadcast (MessageCommit (e_of st) (seqNr_of st) commitSignature)) st))))"

definition messagePrepare ::
  "og_env \<Rightarrow> u64 \<Rightarrow> u64 \<Rightarrow> bytes \<Rightarrow> OracleID \<Rightarrow> outcomeGenerationState \<Rightarrow> outcomeGenerationState go" where
  "messagePrepare env epoch seqNr sig sender st =
     (if epoch \<noteq> e_of st then Inr st
      else
        bindG (go_deref (fs_preparePool (og_followerState st))) (\<lambda>p.
        let (putResult, p) = Put p seqNr sender sig;
            st = upd_follower (\<lambda>f. f\<lparr>fs_preparePool := Some p\<rparr>) st
        in if putResult \<noteq> PutResultOK then Inr st else tryProcessPreparePool env st))"

section \<open>Commits: next round\<close>

text \<open>After a commit: ask for a new epoch after \<open>RMax\<close> rounds, otherwise go on to the next
  round.\<close>

definition afterCommit :: "og_env \<Rightarrow> outcomeGenerationState \<Rightarrow> outcomeGenerationState go" where
  "afterCommit env st =
     (if cfg_RMax (oe_config env) \<le> seqNr_of st - sh_firstSeqNrOfEpoch (og_sharedState st) + 1
      then Inr (snd (og_trySend env (OgToPacemaker EventNewEpochRequest) st))
      else
        let (sent, st) = og_trySend env (OgToPacemaker EventProgress) st
        in if \<not> sent then Inr st
           else
             bindG (startSubsequentFollowerRound env st) (\<lambda>st.
             bindG (if oe_id env = l_of st then startSubsequentLeaderRound env st else Inr st) (\<lambda>st.
               tryProcessRoundStartPool env st)))"

definition tryProcessCommitPool :: "og_env \<Rightarrow> outcomeGenerationState \<Rightarrow> outcomeGenerationState go" where
  "tryProcessCommitPool env st =
     (let fs = og_followerState st; C = oe_crypto env; cfg = oe_config env; oad = fs_outcome fs in
      if fs_phase fs \<noteq> outgenFollowerPhaseSentCommit then Inr st
      else
        bindG (go_deref (fs_commitPool fs)) (\<lambda>commitPool.
        if int (length (pool_entries_of commitPool (seqNr_of st))) < ByzQuorumSize cfg then Inr st
        else
          bindG (verify_pool (cfg_OracleIdentities cfg)
                   (\<lambda>sig pk. CommitSignature_Verify C sig (og_ID env st) (seqNr_of st) (oad_Digest oad) pk = None)
                   (seqNr_of st) (pool_entries_of commitPool (seqNr_of st)) commitPool) (\<lambda>commitPool.
          let st = upd_follower (\<lambda>f. f\<lparr>fs_commitPool := Some commitPool\<rparr>) st;
              order = oe_order env (og_calls st);
              st = og_tick st;
              qc = collect_quorum (ByzQuorumSize cfg)
                     (entries_in_order order (pool_entries_of commitPool (seqNr_of st))) []
          in if int (length qc) < ByzQuorumSize cfg then Inr st
             else
               bindG (commit env
                   \<lparr>cmt_CommitEpoch = e_of st, cmt_SeqNr = seqNr_of st, cmt_Outcome = oad_Outcome oad,
                    cmt_CommitQuorumCertificate =
                      map (\<lambda>(sig, i). \<lparr>acs_Signature = sig, acs_Signer = i\<rparr>) qc\<rparr> st) (afterCommit env))))"

definition messageCommit ::
  "og_env \<Rightarrow> u64 \<Rightarrow> u64 \<Rightarrow> bytes \<Rightarrow> OracleID \<Rightarrow> outcomeGenerationState \<Rightarrow> outcomeGenerationState go" where
  "messageCommit env epoch seqNr sig sender st =
     (if epoch \<noteq> e_of st then Inr st
      else
        bindG (go_deref (fs_commitPool (og_followerState st))) (\<lambda>p.
        let (putResult, p) = Put p seqNr sender sig;
            st = upd_follower (\<lambda>f. f\<lparr>fs_commitPool := Some p\<rparr>) st
        in if putResult \<noteq> PutResultOK then Inr st else tryProcessCommitPool env st))"

end
