(* ===== verification/OutGen.thy ===== *)
theory OutGen
  imports OutGenFollower
begin

text \<open>
  The event loop of outcome generation (\<open>ocr3/protocol/outcome_generation.go\<close>): dispatch of
  messages, buffering of messages for future epochs, and the start of a new epoch.
\<close>

section \<open>Messages\<close>

fun processOutcomeGeneration ::
  "og_env \<Rightarrow> MessageToOutcomeGeneration \<Rightarrow> OracleID \<Rightarrow> outcomeGenerationState \<Rightarrow> outcomeGenerationState go" where
  "processOutcomeGeneration env (MessageEpochStartRequest e hc shct) sender st =
     messageEpochStartRequest env e hc shct sender st"
| "processOutcomeGeneration env (MessageEpochStart e proof) sender st = messageEpochStart env e proof sender st"
| "processOutcomeGeneration env (MessageRoundStart e s query) sender st = messageRoundStart env e s query sender st"
| "processOutcomeGeneration env (MessageObservation e s so) sender st = messageObservation env e s so sender st"
| "processOutcomeGeneration env (MessageProposal e s asos) sender st = messageProposal env e s asos sender st"
| "processOutcomeGeneration env (MessagePrepare e s sig) sender st = messagePrepare env e s sig sender st"
| "processOutcomeGeneration env (MessageCommit e s sig) sender st = messageCommit env e s sig sender st"

definition set_buffer ::
  "nat \<Rightarrow> MessageToOutcomeGeneration RingBuffer \<Rightarrow> outcomeGenerationState \<Rightarrow> outcomeGenerationState" where
  "set_buffer i b st = st\<lparr>og_bufferedMessages := (og_bufferedMessages st)[i := b]\<rparr>"

definition messageToOutcomeGeneration ::
  "og_env \<Rightarrow> MessageToOutcomeGeneration \<Rightarrow> OracleID \<Rightarrow> outcomeGenerationState \<Rightarrow> outcomeGenerationState go" where
  "messageToOutcomeGeneration env msg sender st =
     (if mog_epoch msg < e_of st then Inr st
      else if mog_epoch msg = e_of st then processOutcomeGeneration env msg sender st
      else
        bindG (go_index (og_bufferedMessages st) (unat sender)) (\<lambda>b.
        bindG (rb_Push b msg) (\<lambda>b. Inr (set_buffer (unat sender) b st))))"

text \<open>
  The inner loop of \<open>unbufferMessages\<close> for one sender. Every iteration but the last removes a
  message and handlers do not touch the buffers, so one more than the buffer's length is
  enough fuel; \<open>NoReturn\<close> would mean that it was not.
\<close>

fun unbuffer_loop :: "og_env \<Rightarrow> nat \<Rightarrow> nat \<Rightarrow> outcomeGenerationState \<Rightarrow> outcomeGenerationState go" where
  "unbuffer_loop env i 0 st = Inl NoReturn"
| "unbuffer_loop env i (Suc fuel) st =
     bindG (go_index (og_bufferedMessages st) i) (\<lambda>buffer.
     if \<not> rb_Length buffer > 0 then Inr st
     else
       bindG (rb_Peek buffer) (\<lambda>m. bindG (go_deref m) (\<lambda>msg.
       if mog_epoch msg < e_of st
       then bindG (rb_Pop buffer) (\<lambda>(_, buffer). unbuffer_loop env i fuel (set_buffer i buffer st))
       else if mog_epoch msg = e_of st
       then bindG (rb_Pop buffer) (\<lambda>(_, buffer).
            bindG (processOutcomeGeneration env msg (of_nat i) (set_buffer i buffer st)) (\<lambda>st.
              unbuffer_loop env i fuel st))
       else Inr st)))"

definition unbuffer_fuel :: "nat \<Rightarrow> outcomeGenerationState \<Rightarrow> nat" where
  "unbuffer_fuel i st = Suc (nat (rb_Length (og_bufferedMessages st ! i)))"

fun unbuffer_from :: "og_env \<Rightarrow> nat list \<Rightarrow> outcomeGenerationState \<Rightarrow> outcomeGenerationState go" where
  "unbuffer_from env [] st = Inr st"
| "unbuffer_from env (i # is) st =
     bindG (unbuffer_loop env i (unbuffer_fuel i st) st) (\<lambda>st. unbuffer_from env is st)"

definition unbufferMessages :: "og_env \<Rightarrow> outcomeGenerationState \<Rightarrow> outcomeGenerationState go" where
  "unbufferMessages env st = unbuffer_from env [0..<length (og_bufferedMessages st)] st"

section \<open>A new epoch\<close>

definition og_Leader :: "og_env \<Rightarrow> u64 \<Rightarrow> OracleID go" where
  "og_Leader env epoch =
     Leader (oe_crypto env) (oe_aesctr env) epoch (cfg_N (oe_config env))
       (LeaderSelectionKey (oe_crypto env) (oe_config env))"

text \<open>The resets at the start of an epoch.\<close>

definition resetForEpoch :: "og_env \<Rightarrow> u64 \<Rightarrow> OracleID \<Rightarrow> outcomeGenerationState \<Rightarrow> outcomeGenerationState" where
  "resetForEpoch env epoch l st =
     (let st = upd_shared (\<lambda>s. s\<lparr>sh_e := epoch, sh_l := l, sh_firstSeqNrOfEpoch := 0, sh_seqNr := 0\<rparr>) st;
          st = upd_follower (\<lambda>f. f\<lparr>fs_phase := outgenFollowerPhaseNewEpoch,
                 fs_tInitial := TArmed (cfg_DeltaInitial (oe_config env)),
                 fs_outcome := zero_outcomeAndDigests,
                 fs_roundStartPool := Some (NewPool poolSize), fs_proposalPool := Some (NewPool poolSize),
                 fs_preparePool := Some (NewPool poolSize), fs_commitPool := Some (NewPool poolSize)\<rparr>) st
      in upd_leader (\<lambda>s. s\<lparr>ls_phase := outgenLeaderPhaseNewEpoch, ls_epochStartRequests := [],
                          ls_readyToStartRound := False, ls_tGrace := TNil\<rparr>) st)"

definition eventNewEpochStart :: "og_env \<Rightarrow> u64 \<Rightarrow> outcomeGenerationState \<Rightarrow> outcomeGenerationState go" where
  "eventNewEpochStart env epoch st =
     bindG (og_Leader env epoch) (\<lambda>l.
     let st = resetForEpoch env epoch l st;
         highestCertified = fs_cert (og_followerState st);
         t = cert_Timestamp highestCertified;
         (r, st) = og_sign env (SignedTimestampData (og_ID env st) t)
                     (MakeSignedHighestCertifiedTimestamp (oe_crypto env) (og_ID env st) t) st
     in case r of
          None \<Rightarrow> Inr st
        | Some shct \<Rightarrow>
            let st = og_emit (OgSendTo (MessageEpochStartRequest (e_of st) highestCertified shct) (l_of st)) st;
                st = (if oe_id env = l_of st
                      then upd_leader (\<lambda>s. s\<lparr>ls_tRound := TArmed (cfg_DeltaRound (oe_config env))\<rparr>) st
                      else st)
            in unbufferMessages env st)"

section \<open>The event loop\<close>

definition og_init :: "og_env \<Rightarrow> CertifiedPrepareOrCommit \<Rightarrow> outcomeGenerationState go" where
  "og_init env restoredCert =
     bindG (NewRingBuffer futureMessageBufferSize) (\<lambda>buffer.
       Inr \<lparr>og_bufferedMessages = replicate (nat (cfg_N (oe_config env))) buffer,
            og_leaderState = \<lparr>ls_phase = outgenLeaderPhaseUnknown, ls_epochStartRequests = [],
              ls_readyToStartRound = False, ls_tRound = TNil, ls_query = [], ls_observations = None,
              ls_tGrace = TNil\<rparr>,
            og_followerState = \<lparr>fs_phase = outgenFollowerPhaseUnknown, fs_tInitial = TNil,
              fs_roundStartPool = None, fs_query = None, fs_proposalPool = None,
              fs_outcome = zero_outcomeAndDigests, fs_cert = restoredCert,
              fs_preparePool = None, fs_commitPool = None\<rparr>,
            og_sharedState = \<lparr>sh_e = 0, sh_l = 0, sh_firstSeqNrOfEpoch = 0, sh_seqNr = 0,
              sh_observationQuorum = None, sh_committedSeqNr = 0, sh_committedOutcome = []\<rparr>,
            og_calls = 0, og_log = []\<rparr>)"

datatype og_case =
    OgMessage MessageToOutcomeGeneration OracleID
  | OgEvent EventToOutcomeGeneration
  | OgTInitial
  | OgTGrace
  | OgTRound

fun og_ready :: "outcomeGenerationState \<Rightarrow> og_case \<Rightarrow> bool" where
  "og_ready st (OgMessage msg sender) = True"
| "og_ready st (OgEvent ev) = True"
| "og_ready st OgTInitial = (\<exists>d. fs_tInitial (og_followerState st) = TArmed d)"
| "og_ready st OgTGrace = (\<exists>d. ls_tGrace (og_leaderState st) = TArmed d)"
| "og_ready st OgTRound = (\<exists>d. ls_tRound (og_leaderState st) = TArmed d)"

fun og_process :: "og_env \<Rightarrow> og_case \<Rightarrow> outcomeGenerationState \<Rightarrow> outcomeGenerationState go" where
  "og_process env (OgMessage msg sender) st = messageToOutcomeGeneration env msg sender st"
| "og_process env (OgEvent (EventNewEpochStart epoch)) st = eventNewEpochStart env epoch st"
| "og_process env OgTInitial st = eventTInitialTimeout env (upd_follower (\<lambda>f. f\<lparr>fs_tInitial := TFired\<rparr>) st)"
| "og_process env OgTGrace st = eventTGraceTimeout env (upd_leader (\<lambda>s. s\<lparr>ls_tGrace := TFired\<rparr>) st)"
| "og_process env OgTRound st = eventTRoundTimeout env (upd_leader (\<lambda>s. s\<lparr>ls_tRound := TFired\<rparr>) st)"

inductive og_step :: "og_env \<Rightarrow> outcomeGenerationState \<Rightarrow> og_case \<Rightarrow> outcomeGenerationState \<Rightarrow> bool" for env where
  "og_ready st c \<Longrightarrow> og_process env c st = Inr st' \<Longrightarrow> og_step env st c st'"

inductive_cases og_stepE: "og_step env st c st'"

text \<open>
  Reachable states. The pacemaker announces epochs in strictly increasing order
  (\<open>announced_ok_reach\<close> in theory \<open>Pacemaker\<close>), and a run is followed as long as
  the committed sequence number has not reached \<open>2^64 - 1\<close>, where \<open>+ 1\<close> would wrap around.
\<close>

fun og_admissible :: "outcomeGenerationState \<Rightarrow> og_case \<Rightarrow> bool" where
  "og_admissible st (OgEvent (EventNewEpochStart epoch)) = (e_of st < epoch)"
| "og_admissible st c = True"

inductive og_reach :: "og_env \<Rightarrow> CertifiedPrepareOrCommit \<Rightarrow> outcomeGenerationState \<Rightarrow> bool" for env cert where
  og_reach_init: "og_init env cert = Inr st \<Longrightarrow> og_reach env cert st"
| og_reach_step: "og_reach env cert st \<Longrightarrow> og_admissible st c \<Longrightarrow> og_step env st c st' \<Longrightarrow>
    committedSeqNr_of st' < - 1 \<Longrightarrow> og_reach env cert st'"

end
