(* ===== verification/OutGenInv.thy ===== *)
theory OutGenInv
  imports OutGen
begin

text \<open>
  The invariant of one oracle's outcome generation, for whatever messages it receives: it signs
  at most one prepare and one commit per epoch and sequence number, the signatures it counts
  are valid for its outcome, and every certificate it keeps, persists, sends or hands to the
  report attestation protocol verifies.
\<close>

lemma goP_True [simp]: "goP (\<lambda>_. True) m"
  by (cases m) simp_all

lemma goPI: "(\<And>x. m = Inr x \<Longrightarrow> P x) \<Longrightarrow> goP P m"
  by (cases m) simp_all

section \<open>The invariant\<close>

definition cert_valid :: "og_env \<Rightarrow> CertifiedPrepareOrCommit \<Rightarrow> bool" where
  "cert_valid env c \<longleftrightarrow>
     cert_Verify (oe_crypto env) c (cfg_ConfigDigest (oe_config env)) (cfg_OracleIdentities (oe_config env))
       (ByzQuorumSize (oe_config env)) = None"

fun effect_valid :: "og_env \<Rightarrow> og_effect \<Rightarrow> bool" where
  "effect_valid env (OgToReportAttestation (EventCommittedOutcome cc)) = cert_valid env (CertCommit cc)"
| "effect_valid env (OgWriteCert c ok) = cert_valid env c"
| "effect_valid env (OgSendTo (MessageEpochStartRequest e c shct) l) = cert_valid env c"
| "effect_valid env (OgBroadcast (MessageEpochStart e proof)) = cert_valid env (esp_HighestCertified proof)"
| "effect_valid env x = True"

fun signs_round :: "og_effect \<Rightarrow> bool" where
  "signs_round (OgSigned (SignedPrepareData ogid s i d)) = True"
| "signs_round (OgSigned (SignedCommitData ogid s d)) = True"
| "signs_round x = False"

fun is_announcement :: "og_effect \<Rightarrow> bool" where
  "is_announcement (OgToReportAttestation ev) = True"
| "is_announcement x = False"

definition benign :: "og_env \<Rightarrow> og_effect \<Rightarrow> bool" where
  "benign env x \<longleftrightarrow> effect_valid env x \<and> \<not> signs_round x \<and> \<not> is_announcement x"

text \<open>The writes of commit certificates that have failed: the log of a run tells.\<close>

definition commit_writes_ok :: "outcomeGenerationState \<Rightarrow> bool" where
  "commit_writes_ok st \<longleftrightarrow> (\<forall>x \<in> set (og_log st). case x of OgWriteCert (CertCommit c) False \<Rightarrow> False | _ \<Rightarrow> True)"

lemma commit_writes_ok_prefix: "og_log st' = og_log st @ xs \<Longrightarrow> commit_writes_ok st' \<Longrightarrow> commit_writes_ok st"
  by (simp add: commit_writes_ok_def)

abbreviation sent_prepare :: "outcomeGenerationState \<Rightarrow> bool" where
  "sent_prepare st \<equiv> phase_of st = outgenFollowerPhaseSentPrepare \<or> phase_of st = outgenFollowerPhaseSentCommit"

abbreviation outcome_of :: "outcomeGenerationState \<Rightarrow> outcomeAndDigests" where
  "outcome_of st \<equiv> fs_outcome (og_followerState st)"

definition prepares_bound :: "og_env \<Rightarrow> outcomeGenerationState \<Rightarrow> bool" where
  "prepares_bound env st \<longleftrightarrow>
     (\<forall>ogid s i d. OgSigned (SignedPrepareData ogid s i d) \<in> set (og_log st) \<longrightarrow>
        ogid_ConfigDigest ogid = cfg_ConfigDigest (oe_config env) \<and> ogid_Epoch ogid \<le> e_of st \<and>
        (ogid_Epoch ogid = e_of st \<longrightarrow>
           s < seqNr_of st \<or>
           s = seqNr_of st \<and> sent_prepare st \<and> i = oad_InputsDigest (outcome_of st) \<and> d = oad_Digest (outcome_of st)))"

definition commits_bound :: "og_env \<Rightarrow> outcomeGenerationState \<Rightarrow> bool" where
  "commits_bound env st \<longleftrightarrow>
     (\<forall>ogid s d. OgSigned (SignedCommitData ogid s d) \<in> set (og_log st) \<longrightarrow>
        ogid_ConfigDigest ogid = cfg_ConfigDigest (oe_config env) \<and> ogid_Epoch ogid \<le> e_of st \<and>
        (ogid_Epoch ogid = e_of st \<longrightarrow>
           s < seqNr_of st \<or> s = seqNr_of st \<and> sent_prepare st \<and> d = oad_Digest (outcome_of st)))"

definition signs_once :: "outcomeGenerationState \<Rightarrow> bool" where
  "signs_once st \<longleftrightarrow>
     (\<forall>ogid s i d i' d'. OgSigned (SignedPrepareData ogid s i d) \<in> set (og_log st) \<longrightarrow>
        OgSigned (SignedPrepareData ogid s i' d') \<in> set (og_log st) \<longrightarrow> i = i' \<and> d = d') \<and>
     (\<forall>ogid s d d'. OgSigned (SignedCommitData ogid s d) \<in> set (og_log st) \<longrightarrow>
        OgSigned (SignedCommitData ogid s d') \<in> set (og_log st) \<longrightarrow> d = d')"

definition prepare_sig_ok :: "og_env \<Rightarrow> outcomeGenerationState \<Rightarrow> OracleID \<Rightarrow> bytes \<Rightarrow> bool" where
  "prepare_sig_ok env st i sig \<longleftrightarrow>
     unat i < length (cfg_OracleIdentities (oe_config env)) \<and>
     PrepareSignature_Verify (oe_crypto env) sig (og_ID env st) (seqNr_of st) (oad_InputsDigest (outcome_of st))
       (oad_Digest (outcome_of st)) (oi_OffchainPublicKey (cfg_OracleIdentities (oe_config env) ! unat i)) = None"

definition commit_sig_ok :: "og_env \<Rightarrow> outcomeGenerationState \<Rightarrow> OracleID \<Rightarrow> bytes \<Rightarrow> bool" where
  "commit_sig_ok env st i sig \<longleftrightarrow>
     unat i < length (cfg_OracleIdentities (oe_config env)) \<and>
     CommitSignature_Verify (oe_crypto env) sig (og_ID env st) (seqNr_of st)
       (oad_Digest (outcome_of st)) (oi_OffchainPublicKey (cfg_OracleIdentities (oe_config env) ! unat i)) = None"

text \<open>The entries of a pool that have been verified belong to finished rounds, or to the current
  round after the outcome has been fixed, and then \<open>Verified = true\<close> means a valid signature.\<close>

definition verified_ok ::
  "u64 \<Rightarrow> bool \<Rightarrow> (OracleID \<Rightarrow> bytes \<Rightarrow> bool) \<Rightarrow> bytes Pool option \<Rightarrow> bool" where
  "verified_ok seqNr fixed sig_ok pool \<longleftrightarrow>
     (\<forall>p. pool = Some p \<longrightarrow> pool_ok p \<and>
        (\<forall>s i en. entry p s i = Some en \<longrightarrow> Verified en \<noteq> None \<longrightarrow>
           s < seqNr \<or> s = seqNr \<and> fixed \<and> (Verified en = Some True \<longrightarrow> sig_ok i (Item en))))"

definition proposals_ok :: "(u64 \<times> AttributedSignedObservation list) Pool option \<Rightarrow> bool" where
  "proposals_ok pool \<longleftrightarrow> (\<forall>p s i en. pool = Some p \<longrightarrow> entry p s i = Some en \<longrightarrow> fst (Item en) = s)"

definition og_inv :: "og_env \<Rightarrow> outcomeGenerationState \<Rightarrow> bool" where
  "og_inv env st \<longleftrightarrow>
     prepares_bound env st \<and> commits_bound env st \<and> signs_once st \<and>
     (phase_of st = outgenFollowerPhaseUnknown \<or> phase_of st = outgenFollowerPhaseNewEpoch \<longrightarrow> seqNr_of st = 0) \<and>
     (sent_prepare st \<longrightarrow> oad_Digest (outcome_of st) = MakeOutcomeDigest (oe_crypto env) (oad_Outcome (outcome_of st))) \<and>
     verified_ok (seqNr_of st) (sent_prepare st) (prepare_sig_ok env st) (fs_preparePool (og_followerState st)) \<and>
     verified_ok (seqNr_of st) (phase_of st = outgenFollowerPhaseSentCommit) (commit_sig_ok env st)
       (fs_commitPool (og_followerState st)) \<and>
     proposals_ok (fs_proposalPool (og_followerState st)) \<and>
     cert_valid env (fs_cert (og_followerState st)) \<and>
     (\<forall>x \<in> set (og_log st). effect_valid env x)"

lemmas og_inv_parts = prepares_bound_def commits_bound_def signs_once_def prepare_sig_ok_def commit_sig_ok_def
  og_ID_def

lemma bounds_frame:
  assumes "og_log st' = og_log st" "e_of st' = e_of st" "seqNr_of st' = seqNr_of st" "phase_of st' = phase_of st"
    "outcome_of st' = outcome_of st"
  shows "prepares_bound env st' = prepares_bound env st" "commits_bound env st' = commits_bound env st"
    "signs_once st' = signs_once st"
  using assms by (simp_all add: prepares_bound_def commits_bound_def signs_once_def)

lemma sig_ok_frame:
  assumes "e_of st' = e_of st" "seqNr_of st' = seqNr_of st" "outcome_of st' = outcome_of st"
  shows "prepare_sig_ok env st' = prepare_sig_ok env st" "commit_sig_ok env st' = commit_sig_ok env st"
  using assms by (auto simp: prepare_sig_ok_def commit_sig_ok_def og_ID_def fun_eq_iff)

lemma og_inv_cert: "og_inv env st \<Longrightarrow> cert_valid env (fs_cert (og_followerState st))"
  by (simp add: og_inv_def)

section \<open>Committed outcomes\<close>

text \<open>The committed outcomes announced to report attestation, in order.\<close>

fun announced_commits :: "og_effect list \<Rightarrow> CertifiedCommit list" where
  "announced_commits [] = []"
| "announced_commits (x # xs) =
     (case x of OgToReportAttestation (EventCommittedOutcome c) \<Rightarrow> c # announced_commits xs | _ \<Rightarrow> announced_commits xs)"

lemma announced_commits_append [simp]: "announced_commits (xs @ ys) = announced_commits xs @ announced_commits ys"
  by (induction xs) (auto split: og_effect.splits EventToReportAttestation.splits)

text \<open>Every announced outcome had been written to the database before.\<close>

fun written_before :: "og_effect list \<Rightarrow> og_effect \<Rightarrow> bool" where
  "written_before xs (OgToReportAttestation (EventCommittedOutcome c)) = (OgWriteCert (CertCommit c) True \<in> set xs)"
| "written_before xs x = True"

definition announced_written :: "og_effect list \<Rightarrow> bool" where
  "announced_written xs \<longleftrightarrow> (\<forall>i < length xs. written_before (take i xs) (xs ! i))"

lemma announced_written_snoc: "announced_written (xs @ [x]) \<longleftrightarrow> announced_written xs \<and> written_before xs x"
  by (auto simp: announced_written_def nth_append less_Suc_eq)

text \<open>\<open>durable\<close>: outcomes are announced in the order of their sequence numbers, up to the committed one, after
  they were written; and what is committed has been written.\<close>

definition durable_log :: "og_effect list \<Rightarrow> u64 \<Rightarrow> bytes \<Rightarrow> bool" where
  "durable_log xs seqNr outcome \<longleftrightarrow>
     sorted_wrt (<) (map cmt_SeqNr (announced_commits xs)) \<and>
     (\<forall>c \<in> set (announced_commits xs). cmt_SeqNr c \<le> seqNr) \<and> announced_written xs \<and>
     (seqNr = 0 \<and> outcome = [] \<or>
      (\<exists>c. OgWriteCert (CertCommit c) True \<in> set xs \<and> cmt_SeqNr c = seqNr \<and> cmt_Outcome c = outcome))"

abbreviation committedOutcome_of :: "outcomeGenerationState \<Rightarrow> bytes" where
  "committedOutcome_of st \<equiv> sh_committedOutcome (og_sharedState st)"

definition durable :: "outcomeGenerationState \<Rightarrow> bool" where
  "durable st \<longleftrightarrow> durable_log (og_log st) (committedSeqNr_of st) (committedOutcome_of st)"

lemma durable_snoc [simp]: "durable_log xs n out \<Longrightarrow> \<not> is_announcement x \<Longrightarrow> durable_log (xs @ [x]) n out"
  by (cases x) (auto simp: durable_log_def announced_written_snoc)

lemma durable_append: "durable_log xs n out \<Longrightarrow> \<forall>x \<in> set ys. \<not> is_announcement x \<Longrightarrow> durable_log (xs @ ys) n out"
proof (induction ys arbitrary: xs)
  case (Cons y ys)
  then show ?case using Cons.IH [of "xs @ [y]"] by simp
qed simp

text \<open>Committing the next outcome, with or without announcing it.\<close>

lemma durable_commit:
  assumes "durable_log xs n out" "n < cmt_SeqNr c" "OgWriteCert (CertCommit c) True \<in> set xs"
  shows "durable_log xs (cmt_SeqNr c) (cmt_Outcome c)"
    "durable_log (xs @ [OgToReportAttestation (EventCommittedOutcome c)]) (cmt_SeqNr c) (cmt_Outcome c)"
  using assms by (auto simp: durable_log_def announced_written_snoc sorted_wrt_append intro: order_le_less_trans order_less_imp_le)

section \<open>Progress\<close>

text \<open>\<open>progress\<close>: what is committed is replaced by later outcomes only. \<open>og_le\<close>: within an epoch
  nothing is forgotten.\<close>

definition progress :: "outcomeGenerationState \<Rightarrow> outcomeGenerationState \<Rightarrow> bool" where
  "progress st st' \<longleftrightarrow>
     (committedSeqNr_of st < committedSeqNr_of st' \<or>
      committedSeqNr_of st' = committedSeqNr_of st \<and> committedOutcome_of st' = committedOutcome_of st) \<and>
     (\<exists>xs. og_log st' = og_log st @ xs) \<and> (durable st \<longrightarrow> durable st')"

definition og_le :: "outcomeGenerationState \<Rightarrow> outcomeGenerationState \<Rightarrow> bool" where
  "og_le st st' \<longleftrightarrow> e_of st' = e_of st \<and> progress st st' \<and> og_bufferedMessages st' = og_bufferedMessages st"

definition keeps :: "og_env \<Rightarrow> outcomeGenerationState \<Rightarrow> outcomeGenerationState \<Rightarrow> bool" where
  "keeps env st st' \<longleftrightarrow>
     og_le st st' \<and> (og_inv env st \<and> committedSeqNr_of st' < - 1 \<and> commit_writes_ok st' \<longrightarrow> og_inv env st')"

lemmas keeps_defs = keeps_def og_le_def progress_def durable_def

lemma progress_refl [simp]: "progress st st"
  by (simp add: progress_def)

lemma progress_trans: "progress a b \<Longrightarrow> progress b c \<Longrightarrow> progress a c"
  by (auto simp: progress_def)

lemma progress_committed: "progress st st' \<Longrightarrow> committedSeqNr_of st \<le> committedSeqNr_of st'"
  by (auto simp: progress_def)

lemma progress_writes: "progress st st' \<Longrightarrow> commit_writes_ok st' \<Longrightarrow> commit_writes_ok st"
  by (auto simp: progress_def intro: commit_writes_ok_prefix)

lemma og_le_refl [simp]: "og_le st st"
  by (simp add: og_le_def)

lemma og_le_trans: "og_le a b \<Longrightarrow> og_le b c \<Longrightarrow> og_le a c"
  using progress_trans [of a b c] by (simp add: og_le_def)

lemma keeps_refl [simp]: "keeps env st st"
  by (simp add: keeps_def)

lemma keeps_trans:
  assumes "keeps env a b" "keeps env b c"
  shows "keeps env a c"
proof -
  have p: "progress b c" using assms(2) by (simp add: keeps_def og_le_def)
  have "committedSeqNr_of c < - 1 \<Longrightarrow> committedSeqNr_of b < - 1"
    using progress_committed [OF p] by (rule order_le_less_trans)
  then show ?thesis
    using assms og_le_trans [of a b c] progress_writes [OF p] by (simp add: keeps_def)
qed

lemma goP_keeps_trans: "keeps env a b \<Longrightarrow> goP (keeps env b) m \<Longrightarrow> goP (keeps env a) m"
  using keeps_trans [of env a b] by (blast intro: goP_mono [of "keeps env b"])

text \<open>Changes that the invariant does not see.\<close>

definition same_view :: "outcomeGenerationState \<Rightarrow> outcomeGenerationState \<Rightarrow> bool" where
  "same_view st st' \<longleftrightarrow>
     e_of st' = e_of st \<and> seqNr_of st' = seqNr_of st \<and> phase_of st' = phase_of st \<and>
     outcome_of st' = outcome_of st \<and>
     fs_preparePool (og_followerState st') = fs_preparePool (og_followerState st) \<and>
     fs_commitPool (og_followerState st') = fs_commitPool (og_followerState st) \<and>
     fs_proposalPool (og_followerState st') = fs_proposalPool (og_followerState st) \<and>
     fs_cert (og_followerState st') = fs_cert (og_followerState st)"

lemma og_inv_same_view:
  assumes inv: "og_inv env st" and view: "same_view st st'"
    and log: "og_log st' = og_log st @ xs" and xs: "\<forall>x \<in> set xs. benign env x"
  shows "og_inv env st'"
proof -
  have sig: "prepare_sig_ok env st' = prepare_sig_ok env st" "commit_sig_ok env st' = commit_sig_ok env st"
    using view by (auto simp: same_view_def prepare_sig_ok_def commit_sig_ok_def og_ID_def fun_eq_iff)
  have p: "OgSigned (SignedPrepareData ogid s i d) \<in> set (og_log st') \<longleftrightarrow>
           OgSigned (SignedPrepareData ogid s i d) \<in> set (og_log st)" for ogid s i d
    using xs by (auto simp: log benign_def)
  have c: "OgSigned (SignedCommitData ogid s d) \<in> set (og_log st') \<longleftrightarrow>
           OgSigned (SignedCommitData ogid s d) \<in> set (og_log st)" for ogid s d
    using xs by (auto simp: log benign_def)
  have v: "\<forall>x \<in> set (og_log st'). effect_valid env x"
    using inv xs by (auto simp: log benign_def og_inv_def)
  show ?thesis
    using inv view v unfolding og_inv_def prepares_bound_def commits_bound_def signs_once_def p c sig same_view_def
    by simp
qed

lemma keeps_same_view:
  assumes "same_view st st'" "committedSeqNr_of st' = committedSeqNr_of st" "committedOutcome_of st' = committedOutcome_of st"
    "og_bufferedMessages st' = og_bufferedMessages st" "og_log st' = og_log st @ xs" "\<forall>x \<in> set xs. benign env x"
  shows "keeps env st st'"
  using assms og_inv_same_view [of env st st' xs] durable_append [of "og_log st" _ _ xs]
  by (auto simp: keeps_defs same_view_def benign_def)

lemma keeps_upd_leader [simp]: "keeps env st (upd_leader f st)"
  by (rule keeps_same_view [where xs = "[]"]) (simp_all add: same_view_def)

lemma keeps_tick [simp]: "keeps env st (og_tick st)"
  by (rule keeps_same_view [where xs = "[]"]) (simp_all add: same_view_def)

lemma keeps_emit_inv: "(og_inv env st \<Longrightarrow> benign env x) \<Longrightarrow> \<not> is_announcement x \<Longrightarrow> keeps env st (og_emit x st)"
proof (cases "og_inv env st")
  case True
  assume "og_inv env st \<Longrightarrow> benign env x"
  then show ?thesis
    using True by (intro keeps_same_view [where xs = "[x]"]) (simp_all add: same_view_def)
qed (simp add: keeps_defs)

lemma keeps_emit: "benign env x \<Longrightarrow> keeps env st (og_emit x st)"
  by (rule keeps_emit_inv) (simp_all add: benign_def)

lemma og_inv_tick [simp]: "og_inv env (og_tick st) = og_inv env st"
  by (simp add: og_inv_def bounds_frame [where st' = "og_tick st" and st = st]
      sig_ok_frame [where st' = "og_tick st" and st = st])

lemma keeps_trySend: "benign env x \<Longrightarrow> keeps env st (snd (og_trySend env x st))"
  unfolding og_trySend_def Let_def
  by (auto intro: keeps_trans [OF keeps_tick keeps_emit])

lemma keeps_sign: "\<not> signs_round (OgSigned d) \<Longrightarrow> keeps env st (snd (og_sign env d mk st))"
proof -
  assume "\<not> signs_round (OgSigned d)"
  then have "benign env (OgSigned d)" by (simp add: benign_def)
  then show ?thesis
    unfolding og_sign_def Let_def by (auto intro: keeps_trans [OF keeps_tick keeps_emit])
qed

lemma keeps_set_request [simp]: "keeps env st (set_request i r st)"
  by (simp add: set_request_def)

lemma keeps_observationQuorum [simp]: "keeps env st (upd_shared (\<lambda>s. s\<lparr>sh_observationQuorum := q\<rparr>) st)"
  by (rule keeps_same_view [where xs = "[]"]) (simp_all add: same_view_def)

lemma keeps_firstSeqNr [simp]: "keeps env st (upd_shared (\<lambda>s. s\<lparr>sh_firstSeqNrOfEpoch := f s\<rparr>) st)"
  by (rule keeps_same_view [where xs = "[]"]) (simp_all add: same_view_def)

lemma keeps_query [simp]: "keeps env st (upd_follower (\<lambda>f. f\<lparr>fs_query := q\<rparr>) st)"
  by (rule keeps_same_view [where xs = "[]"]) (simp_all add: same_view_def)

lemma keeps_tInitial [simp]: "keeps env st (upd_follower (\<lambda>f. f\<lparr>fs_tInitial := q\<rparr>) st)"
  by (rule keeps_same_view [where xs = "[]"]) (simp_all add: same_view_def)

lemma keeps_roundStartPool [simp]: "keeps env st (upd_follower (\<lambda>f. f\<lparr>fs_roundStartPool := q\<rparr>) st)"
  by (rule keeps_same_view [where xs = "[]"]) (simp_all add: same_view_def)

section \<open>The leader's handlers\<close>

lemma benign_messages [simp]:
  "benign env (OgBroadcast (MessageRoundStart e s q))"
  "benign env (OgBroadcast (MessageProposal e s asos))"
  "benign env (OgBroadcast (MessagePrepare e s sig))"
  "benign env (OgBroadcast (MessageCommit e s sig))"
  "benign env (OgSendTo (MessageObservation e s so) l)"
  "benign env (OgToPacemaker ev)"
  "benign env (OgRoundStarted cd e s r l)"
  "benign env (OgSigned (SignedObservationData ogid s q ob))"
  "benign env (OgSigned (SignedTimestampData ogid t))"
  "benign env (OgBroadcast (MessageEpochStart e proof)) = cert_valid env (esp_HighestCertified proof)"
  "benign env (OgSendTo (MessageEpochStartRequest e c shct) l) = cert_valid env c"
  "benign env (OgWriteCert c ok) = cert_valid env c"
  by (simp_all add: benign_def)

lemma keeps_startSubsequentLeaderRound: "goP (keeps env st) (startSubsequentLeaderRound env st)"
proof (cases "ls_readyToStartRound (og_leaderState st)")
  case True
  let ?st = "og_tick (upd_leader (\<lambda>s. s\<lparr>ls_readyToStartRound := False\<rparr>) st)"
  have "keeps env st ?st" by (rule keeps_trans [OF keeps_upd_leader keeps_tick])
  moreover have "keeps env ?st (og_emit (OgBroadcast m) (upd_leader f ?st))" if "benign env (OgBroadcast m)" for f m
    by (rule keeps_trans [OF keeps_upd_leader keeps_emit [OF that]])
  ultimately show ?thesis
    using True
    by (auto simp: startSubsequentLeaderRound_def Let_def OutcomeCtx_def split: option.splits intro: keeps_trans)
qed (simp add: startSubsequentLeaderRound_def)

lemma verified_ok_reap: "verified_ok s b ok (Some p) \<Longrightarrow> verified_ok s b ok (Some (ReapCompleted p n))"
  unfolding verified_ok_def by (auto simp: entry_ReapCompleted pool_ok_ReapCompleted split: if_splits)

lemma proposals_ok_reap: "proposals_ok (Some p) \<Longrightarrow> proposals_ok (Some (ReapCompleted p n))"
  unfolding proposals_ok_def by (auto simp: entry_ReapCompleted split: if_splits)

lemma poolReap_Inr: "poolReap p n = Inr q \<longleftrightarrow> (\<exists>p'. p = Some p' \<and> q = Some (ReapCompleted p' n))"
  by (auto simp: poolReap_def bindG_eq_Inr_iff)

lemma keeps_commit_reap:
  "goP (\<lambda>st'. keeps env st st' \<and> og_sharedState st' = og_sharedState st \<and> phase_of st' = phase_of st) (commit_reap st)"
proof -
  have "keeps env st (upd_follower (\<lambda>f. f\<lparr>fs_roundStartPool := rs, fs_proposalPool := Some (ReapCompleted pr n),
      fs_preparePool := Some (ReapCompleted pp n), fs_commitPool := Some (ReapCompleted cp n)\<rparr>) st)"
    (is "keeps env st ?st'")
    if "fs_proposalPool (og_followerState st) = Some pr" "fs_preparePool (og_followerState st) = Some pp"
      "fs_commitPool (og_followerState st) = Some cp" for rs pr pp cp n
  proof -
    have "prepare_sig_ok env ?st' = prepare_sig_ok env st" "commit_sig_ok env ?st' = commit_sig_ok env st"
      by (auto simp: prepare_sig_ok_def commit_sig_ok_def og_ID_def fun_eq_iff)
    then have "og_inv env st \<Longrightarrow> og_inv env ?st'"
      using that by (auto simp: og_inv_def prepares_bound_def commits_bound_def signs_once_def
          verified_ok_reap proposals_ok_reap)
    then show ?thesis by (simp add: keeps_defs)
  qed
  then show ?thesis
    by (auto simp: commit_reap_def Let_def goP_def bindG_eq_Inr_iff poolReap_Inr split: sum.splits)
qed

lemma keeps_new_cert:
  assumes "og_inv env st \<Longrightarrow> cert_valid env c"
  shows "keeps env st (upd_follower (\<lambda>f. f\<lparr>fs_cert := c\<rparr>) st)" (is "keeps env st ?st'")
proof -
  have "prepare_sig_ok env ?st' = prepare_sig_ok env st" "commit_sig_ok env ?st' = commit_sig_ok env st"
    by (auto simp: prepare_sig_ok_def commit_sig_ok_def og_ID_def fun_eq_iff)
  then have "og_inv env st \<Longrightarrow> og_inv env ?st'"
    using assms by (auto simp: og_inv_def prepares_bound_def commits_bound_def signs_once_def)
  then show ?thesis by (simp add: keeps_defs)
qed

text \<open>The stored certificate is valid, so that writing it is benign.\<close>

lemma keeps_persistCert: "keeps env st (snd (persistCert env st))"
proof -
  show ?thesis
    unfolding persistCert_def Let_def snd_conv
    by (rule keeps_trans [OF keeps_tick keeps_emit_inv]) (simp_all add: og_inv_def)
qed

text \<open>What follows a successful write: the certificate is committed and announced.\<close>

lemma keeps_committed:
  assumes w: "OgWriteCert (CertCommit cmt) True \<in> set (og_log st)" and c: "fs_cert (og_followerState st) = CertCommit cmt"
    and n: "committedSeqNr_of st < cmt_SeqNr cmt"
  shows "keeps env st (snd (og_trySend env (OgToReportAttestation (EventCommittedOutcome cmt))
      (upd_shared (\<lambda>s. s\<lparr>sh_committedSeqNr := cmt_SeqNr cmt, sh_committedOutcome := cmt_Outcome cmt\<rparr>) st)))"
    (is "keeps env st (snd (og_trySend env ?x ?st1))")
proof -
  let ?st' = "snd (og_trySend env ?x ?st1)"
  have log: "og_log ?st' = og_log st \<or> og_log ?st' = og_log st @ [?x]"
    by (simp add: og_trySend_def Let_def)
  have frame: "same_view st ?st'" "e_of ?st' = e_of st" "og_bufferedMessages ?st' = og_bufferedMessages st"
    "committedSeqNr_of ?st' = cmt_SeqNr cmt" "committedOutcome_of ?st' = cmt_Outcome cmt"
    by (simp_all add: same_view_def og_trySend_def Let_def)
  have sig: "OgSigned d \<in> set (og_log ?st') \<longleftrightarrow> OgSigned d \<in> set (og_log st)" for d using log by auto
  have same: "prepare_sig_ok env ?st' = prepare_sig_ok env st" "commit_sig_ok env ?st' = commit_sig_ok env st"
    using frame(1) by (auto simp: same_view_def prepare_sig_ok_def commit_sig_ok_def og_ID_def fun_eq_iff)
  have "og_inv env ?st'" if inv: "og_inv env st"
  proof -
    have "\<forall>x \<in> set (og_log ?st'). effect_valid env x"
      using log inv og_inv_cert [OF inv] c by (auto simp: og_inv_def)
    then show ?thesis
      using inv frame(1) unfolding og_inv_def prepares_bound_def commits_bound_def signs_once_def sig same same_view_def
      by simp
  qed
  moreover have "durable_log (og_log ?st') (cmt_SeqNr cmt) (cmt_Outcome cmt)"
    if "durable_log (og_log st) (committedSeqNr_of st) (committedOutcome_of st)"
    using log durable_commit [OF that n w] by auto
  moreover have "\<exists>xs. og_log ?st' = og_log st @ xs" using log by auto
  ultimately show ?thesis using n unfolding keeps_defs frame(2-5) by simp
qed

text \<open>\<open>commit\<close> keeps the invariant. When the write of the certificate has not failed, the committed sequence
  number has reached that of the certificate.\<close>

lemma keeps_commit:
  assumes "og_inv env st \<Longrightarrow> cert_valid env (CertCommit cmt)"
  shows "goP (\<lambda>st'. keeps env st st' \<and> (commit_writes_ok st' \<longrightarrow> cmt_SeqNr cmt \<le> committedSeqNr_of st') \<and>
           seqNr_of st' = seqNr_of st \<and> phase_of st' = phase_of st) (commit env cmt st)"
proof -
  consider "cmt_SeqNr cmt < committedSeqNr_of st" | "cmt_SeqNr cmt = committedSeqNr_of st"
    | "committedSeqNr_of st < cmt_SeqNr cmt"
    by fastforce
  then show ?thesis
  proof cases
    case 2
    then show ?thesis
      using keeps_commit_reap [of env st] by (auto simp: commit_def elim!: goP_mono)
  next
    case 3
    define st1 where "st1 = upd_follower (\<lambda>f. f\<lparr>fs_cert := CertCommit cmt\<rparr>) st"
    define st2 where "st2 = snd (persistCert env st1)"
    define st4 where "st4 = snd (og_trySend env (OgToReportAttestation (EventCommittedOutcome cmt))
      (upd_shared (\<lambda>s. s\<lparr>sh_committedSeqNr := cmt_SeqNr cmt, sh_committedOutcome := cmt_Outcome cmt\<rparr>) st2))"
    have "keeps env st st1" unfolding st1_def by (rule keeps_new_cert [OF assms(1)])
    moreover have "keeps env st1 st2" unfolding st2_def by (rule keeps_persistCert)
    ultimately have k2: "keeps env st st2" by (rule keeps_trans)
    have st2: "og_sharedState st2 = og_sharedState st" "phase_of st2 = phase_of st"
      "fs_cert (og_followerState st2) = CertCommit cmt"
      "og_log st2 = og_log st @ [OgWriteCert (CertCommit cmt) (oe_WriteCert env (og_calls st))]"
      by (simp_all add: st2_def st1_def persistCert_def Let_def)
    show ?thesis
    proof (cases "oe_WriteCert env (og_calls st)")
      case False
      then have "commit env cmt st = Inr st2"
        using 3 by (auto simp: commit_def Let_def st1_def st2_def persistCert_def)
      moreover have "\<not> commit_writes_ok st2" using False by (simp add: commit_writes_ok_def st2(4))
      ultimately show ?thesis using k2 st2 by simp
    next
      case True
      have "keeps env st2 st4"
        unfolding st4_def using 3 True st2 by (intro keeps_committed) simp_all
      then have k: "keeps env st st4" by (rule keeps_trans [OF k2])
      have s: "og_sharedState st4 = (og_sharedState st)\<lparr>sh_committedSeqNr := cmt_SeqNr cmt, sh_committedOutcome := cmt_Outcome cmt\<rparr>"
        "phase_of st4 = phase_of st"
        using st2 by (simp_all add: st4_def og_trySend_def Let_def)
      have "commit env cmt st = Inr st4 \<or> commit env cmt st = commit_reap st4"
        using 3 True by (auto simp: commit_def Let_def st1_def st2_def st4_def persistCert_def og_trySend_def)
      then show ?thesis
      proof
        assume "commit env cmt st = commit_reap st4"
        then show ?thesis
          using keeps_commit_reap [of env st4] k s by (auto elim!: goP_mono intro: keeps_trans)
      qed (use k s in simp)
    qed
  qed (use assms in \<open>simp add: commit_def order_less_imp_le\<close>)
qed

lemma keeps_sendEpochStart:
  assumes v: "cert_valid env (esp_HighestCertified proof)"
  shows "goP (keeps env st) (sendEpochStart env proof st)"
proof -
  define st1 where "st1 = og_emit (OgBroadcast (MessageEpochStart (e_of st) proof))
      (upd_leader (\<lambda>s. s\<lparr>ls_phase := outgenLeaderPhaseSentEpochStart\<rparr>) st)"
  have k: "keeps env st st1"
    unfolding st1_def using v by (intro keeps_trans [OF keeps_upd_leader keeps_emit]) simp
  have r: "goP (keeps env s) (startSubsequentLeaderRound env (upd_shared (\<lambda>s. s\<lparr>sh_firstSeqNrOfEpoch := sh_committedSeqNr s + 1\<rparr>) s))" for s
    by (rule goP_keeps_trans [OF keeps_firstSeqNr keeps_startSubsequentLeaderRound])
  have "goP (keeps env st1) (sendEpochStart env proof st)"
  proof (cases "cert_IsGenesis (esp_HighestCertified proof)")
    case True
    then show ?thesis using r [of st1] by (simp add: sendEpochStart_def st1_def Let_def)
  next
    case False
    show ?thesis
    proof (cases "esp_HighestCertified proof")
      case (CertPrepare hc)
      then show ?thesis using False by (simp add: sendEpochStart_def st1_def Let_def)
    next
      case (CertCommit cc)
      have "goP (keeps env st1) (commit env cc st1)"
        using keeps_commit [where env = env and cmt = cc and st = st1] v CertCommit by (auto elim: goP_mono)
      then have "goP (keeps env st1) (bindG (commit env cc st1) (\<lambda>st. startSubsequentLeaderRound env
          (upd_shared (\<lambda>s. s\<lparr>sh_firstSeqNrOfEpoch := sh_committedSeqNr s + 1\<rparr>) st)))"
        by (rule goP_bindI) (rule goP_keeps_trans [OF _ r])
      then show ?thesis using False CertCommit by (simp add: sendEpochStart_def st1_def Let_def)
    qed
  qed
  then show ?thesis by (rule goP_keeps_trans [OF k])
qed

lemma keeps_tryStartEpoch:
  shows "goP (keeps env st) (tryStartEpoch env st)"
proof -
  let ?st = "og_tick (og_tick st)"
  have k: "keeps env st ?st" by (rule keeps_trans [OF keeps_tick keeps_tick])
  have s: "goP (keeps env st) (sendEpochStart env esp ?st)" if "cert_valid env (esp_HighestCertified esp)" for esp
    by (rule goP_keeps_trans [OF k keeps_sendEpochStart [OF that]])
  have r: "keeps env st (set_request i r ?st)" for i r
    by (rule keeps_trans [OF k keeps_set_request])
  show ?thesis
    by (auto simp: tryStartEpoch_def Let_def k r cert_valid_def case_prod_beta
        split: option.splits intro!: s goP_bindI [where Q = "\<lambda>_. True"])
qed

lemma keeps_messageEpochStartRequest:
  shows "goP (keeps env st) (messageEpochStartRequest env epoch hc shct sender st)"
proof -
  have "goP (keeps env st) (tryStartEpoch env (set_request sender r st))" for r
    by (rule goP_keeps_trans [OF keeps_set_request keeps_tryStartEpoch])
  then show ?thesis
    by (auto simp: messageEpochStartRequest_def Let_def intro!: goP_bindI [where Q = "\<lambda>_. True"])
qed

lemma keeps_ObservationQuorum: "goP (\<lambda>(q, st'). keeps env st st' \<and> same_view st st') (ObservationQuorum env query st)"
  by (auto simp: ObservationQuorum_def OutcomeCtx_def Let_def same_view_def split: option.splits)

lemma keeps_messageObservation: "goP (keeps env st) (messageObservation env epoch seqNr so sender st)"
proof -
  have k: "keeps env st (upd_leader f st1)" "keeps env st (upd_leader f (upd_leader g st1))" if "keeps env st st1" for f g st1
    using that by (auto intro: keeps_trans [OF that] keeps_trans [OF keeps_upd_leader keeps_upd_leader])
  have q: "goP (\<lambda>(q, st'). keeps env st st') (ObservationQuorum env query st)" for query
    using keeps_ObservationQuorum by (rule goP_mono) auto
  show ?thesis
    unfolding messageObservation_def Let_def
    by (auto intro!: goP_bindI [where Q = "\<lambda>_. True"] goP_bindI [OF q] simp: k split: option.splits)
qed

lemma keeps_eventTGraceTimeout: "goP (keeps env st) (eventTGraceTimeout env st)"
proof -
  have "keeps env st (og_emit (OgBroadcast m) (upd_leader f (og_tick st)))" if "benign env (OgBroadcast m)" for m f
    using that by (blast intro: keeps_trans keeps_tick keeps_upd_leader keeps_emit)
  then show ?thesis
    by (simp add: eventTGraceTimeout_def Let_def)
qed

section \<open>The follower's handlers\<close>

lemma verified_ok_later:
  assumes "verified_ok s b ok p" "\<not> b" "s \<le> s'"
  shows "verified_ok s' b' ok' p"
  using assms unfolding verified_ok_def by (blast intro: order_less_le_trans)

text \<open>Signing a prepare message: the round's outcome is fixed from here on.\<close>

lemma og_inv_prepared:
  assumes inv: "og_inv env st" and phase: "\<not> sent_prepare st" and s: "seqNr_of st \<le> s"
    and dig: "oad_Digest oad = MakeOutcomeDigest (oe_crypto env) (oad_Outcome oad)"
    and st': "e_of st' = e_of st" "seqNr_of st' = s" "phase_of st' = outgenFollowerPhaseSentPrepare"
      "outcome_of st' = oad"
      "fs_preparePool (og_followerState st') = fs_preparePool (og_followerState st)"
      "fs_commitPool (og_followerState st') = fs_commitPool (og_followerState st)"
      "fs_proposalPool (og_followerState st') = fs_proposalPool (og_followerState st)"
      "fs_cert (og_followerState st') = fs_cert (og_followerState st)"
    and log: "og_log st' = og_log st @ [OgSigned (SignedPrepareData (og_ID env st) s (oad_InputsDigest oad) (oad_Digest oad)), x]"
    and x: "benign env x"
  shows "og_inv env st'"
proof -
  have mp: "OgSigned (SignedPrepareData ogid t i d) \<in> set (og_log st') \<longleftrightarrow>
      OgSigned (SignedPrepareData ogid t i d) \<in> set (og_log st) \<or>
      ogid = og_ID env st \<and> t = s \<and> i = oad_InputsDigest oad \<and> d = oad_Digest oad" for ogid t i d
    using x by (auto simp: log benign_def)
  have mc: "OgSigned (SignedCommitData ogid t d) \<in> set (og_log st') \<longleftrightarrow>
      OgSigned (SignedCommitData ogid t d) \<in> set (og_log st)" for ogid t d
    using x by (auto simp: log benign_def)
  have pb: "prepares_bound env st" "commits_bound env st" "signs_once st" using inv by (auto simp: og_inv_def)
  have below: "t < s" if "OgSigned (SignedPrepareData (og_ID env st) t i d) \<in> set (og_log st)" for t i d
  proof -
    have "t < seqNr_of st" using pb(1) that phase unfolding prepares_bound_def og_ID_def by fastforce
    then show ?thesis using s by (rule order_less_le_trans)
  qed
  have later: "t < seqNr_of st \<Longrightarrow> t < s" for t using s order_less_le_trans by blast
  have "prepares_bound env st'"
    using pb(1) phase later unfolding prepares_bound_def mp st' by (auto simp: og_ID_def)
  moreover have "commits_bound env st'"
    using pb(2) phase later unfolding commits_bound_def mc st' by (auto simp: og_ID_def)
  moreover have "signs_once st'"
    using pb(3) below unfolding signs_once_def mp mc by blast
  moreover have "verified_ok s True (prepare_sig_ok env st') (fs_preparePool (og_followerState st))"
    "verified_ok s False (commit_sig_ok env st') (fs_commitPool (og_followerState st))"
    using inv phase s by (auto simp: og_inv_def intro: verified_ok_later)
  ultimately show ?thesis
    using inv dig x unfolding og_inv_def st' by (auto simp: log benign_def)
qed

lemma keeps_sendPrepare:
  assumes "phase_of st = outgenFollowerPhaseSentObservation" "og_inv env st \<Longrightarrow> seqNr = seqNr_of st"
    and "oad_Digest oad = MakeOutcomeDigest (oe_crypto env) (oad_Outcome oad)"
  shows "keeps env st (sendPrepare env seqNr oad st)"
proof -
  define r where "r = MakePrepareSignature (oe_crypto env) (og_ID env st) seqNr (oad_InputsDigest oad) (oad_Digest oad)
    (oe_sign env (og_calls st))"
  show ?thesis
  proof (cases r)
    case None
    then have "sendPrepare env seqNr oad st = og_tick st"
      by (simp add: sendPrepare_def og_sign_def Let_def r_def)
    then show ?thesis by simp
  next
    case (Some sig)
    let ?st = "og_emit (OgBroadcast (MessagePrepare (e_of st) seqNr sig))
       (upd_follower (\<lambda>f. f\<lparr>fs_phase := outgenFollowerPhaseSentPrepare, fs_outcome := oad\<rparr>)
         (og_emit (OgSigned (SignedPrepareData (og_ID env st) seqNr (oad_InputsDigest oad) (oad_Digest oad))) (og_tick st)))"
    have eq: "sendPrepare env seqNr oad st = ?st"
      using Some by (simp add: sendPrepare_def og_sign_def Let_def r_def og_ID_def)
    have "og_inv env st \<Longrightarrow> og_inv env ?st"
      by (rule og_inv_prepared [where s = seqNr and oad = oad]) (use assms in auto)
    then show ?thesis by (simp add: eq keeps_defs durable_append)
  qed
qed

lemma ObservationQuorum_frame:
  assumes "ObservationQuorum env query st = Inr (q, st')"
  shows "keeps env st st' \<and> same_view st st'"
  using keeps_ObservationQuorum [of env st query] assms by simp

lemma keeps_tryProcessProposalPool: "goP (keeps env st) (tryProcessProposalPool env st)"
proof -
  let ?fs = "og_followerState st"
  have send: "keeps env st (sendPrepare env msgSeqNr oad st')"
    if "fs_phase ?fs = outgenFollowerPhaseSentObservation" "fs_proposalPool ?fs = Some p"
      "entry p (seqNr_of st) (l_of st) = Some en" "Item en = (msgSeqNr, asos)"
      "ObservationQuorum env query st = Inr (q, st')"
      "oad_Digest oad = MakeOutcomeDigest (oe_crypto env) (oad_Outcome oad)"
    for p en msgSeqNr asos query q st' oad
  proof -
    have f: "keeps env st st'" "same_view st st'" using ObservationQuorum_frame [OF that(5)] by auto
    have "msgSeqNr = seqNr_of st'" if "og_inv env st'"
    proof -
      have "proposals_ok (Some p)"
        using that \<open>same_view st st'\<close> \<open>fs_proposalPool ?fs = Some p\<close> by (simp add: og_inv_def same_view_def)
      then have "fst (Item en) = seqNr_of st"
        using \<open>entry p (seqNr_of st) (l_of st) = Some en\<close> unfolding proposals_ok_def by blast
      then show ?thesis using \<open>Item en = (msgSeqNr, asos)\<close> f(2) by (simp add: same_view_def)
    qed
    then have "keeps env st' (sendPrepare env msgSeqNr oad st')"
      using that(1,6) f(2) by (intro keeps_sendPrepare) (auto simp: same_view_def)
    then show ?thesis using f(1) keeps_trans by blast
  qed
  show ?thesis
  proof (rule goPI)
    fix st' assume r: "tryProcessProposalPool env st = Inr st'"
    show "keeps env st st'"
      using r ObservationQuorum_frame
      unfolding tryProcessProposalPool_def Let_def entry_def [symmetric]
      by (auto split: if_splits option.splits prod.splits elim!: bindG_InrE)
        (erule (4) send, simp)
  qed
qed

lemma entry_Put:
  "entry (snd (Put p s i x)) s' i' = entry p s' i' \<or>
   s' = s \<and> i' = i \<and> entry (snd (Put p s i x)) s' i' = Some \<lparr>Item = x, Verified = None\<rparr>"
proof (cases "fst (Put p s i x) = PutResultOK")
  case True
  then show ?thesis using entry_Put_OK [OF True, of s' i'] by simp
next
  case False
  then show ?thesis by (simp add: entry_Put_other)
qed

lemma verified_ok_Put:
  "verified_ok n b ok (Some p) \<Longrightarrow> verified_ok n b ok (Some (snd (Put p s i x)))"
  unfolding verified_ok_def using entry_Put [of p s i x] pool_ok_Put [of p s i x]
  by (metis Entry.select_convs(2) option.inject)

lemma keeps_put_proposal:
  assumes "fs_proposalPool (og_followerState st) = Some p"
  shows "keeps env st (upd_follower (\<lambda>f. f\<lparr>fs_proposalPool := Some (snd (Put p s i (s, asos)))\<rparr>) st)"
    (is "keeps env st ?st")
proof -
  have "proposals_ok (Some p) \<Longrightarrow> proposals_ok (Some (snd (Put p s i (s, asos))))"
    unfolding proposals_ok_def using entry_Put [of p s i "(s, asos)"]
    by (metis Entry.select_convs(1) fst_conv option.inject)
  moreover have "prepare_sig_ok env ?st = prepare_sig_ok env st" "commit_sig_ok env ?st = commit_sig_ok env st"
    by (auto simp: prepare_sig_ok_def commit_sig_ok_def og_ID_def fun_eq_iff)
  ultimately have "og_inv env st \<Longrightarrow> og_inv env ?st"
    using assms by (auto simp: og_inv_def prepares_bound_def commits_bound_def signs_once_def)
  then show ?thesis by (simp add: keeps_defs)
qed

lemma keeps_put_prepare:
  assumes "fs_preparePool (og_followerState st) = Some p"
  shows "keeps env st (upd_follower (\<lambda>f. f\<lparr>fs_preparePool := Some (snd (Put p s i x))\<rparr>) st)"
    (is "keeps env st ?st")
proof -
  have "prepare_sig_ok env ?st = prepare_sig_ok env st" "commit_sig_ok env ?st = commit_sig_ok env st"
    by (auto simp: prepare_sig_ok_def commit_sig_ok_def og_ID_def fun_eq_iff)
  then have "og_inv env st \<Longrightarrow> og_inv env ?st"
    using assms by (auto simp: og_inv_def prepares_bound_def commits_bound_def signs_once_def verified_ok_Put)
  then show ?thesis by (simp add: keeps_defs)
qed

lemma keeps_put_commit:
  assumes "fs_commitPool (og_followerState st) = Some p"
  shows "keeps env st (upd_follower (\<lambda>f. f\<lparr>fs_commitPool := Some (snd (Put p s i x))\<rparr>) st)"
    (is "keeps env st ?st")
proof -
  have "prepare_sig_ok env ?st = prepare_sig_ok env st" "commit_sig_ok env ?st = commit_sig_ok env st"
    by (auto simp: prepare_sig_ok_def commit_sig_ok_def og_ID_def fun_eq_iff)
  then have "og_inv env st \<Longrightarrow> og_inv env ?st"
    using assms by (auto simp: og_inv_def prepares_bound_def commits_bound_def signs_once_def verified_ok_Put)
  then show ?thesis by (simp add: keeps_defs)
qed

lemma keeps_messageProposal: "goP (keeps env st) (messageProposal env epoch seqNr asos sender st)"
proof (rule goPI)
  fix st' assume r: "messageProposal env epoch seqNr asos sender st = Inr st'"
  have "goP (keeps env st) (tryProcessProposalPool env
      (upd_follower (\<lambda>f. f\<lparr>fs_proposalPool := Some (snd (Put p seqNr sender (seqNr, asos)))\<rparr>) st))"
    if "fs_proposalPool (og_followerState st) = Some p" for p
    by (rule goP_keeps_trans [OF keeps_put_proposal [OF that] keeps_tryProcessProposalPool])
  then show "keeps env st st'"
    using r unfolding messageProposal_def Let_def case_prod_beta
    by (auto split: if_splits elim!: bindG_InrE dest: goP_D intro: keeps_put_proposal)
qed

lemma keeps_SentObservation:
  "keeps env st (upd_follower (\<lambda>f. f\<lparr>fs_phase := outgenFollowerPhaseSentObservation\<rparr>) st)"
  if "phase_of st = outgenFollowerPhaseNewRound"
proof -
  let ?st = "upd_follower (\<lambda>f. f\<lparr>fs_phase := outgenFollowerPhaseSentObservation\<rparr>) st"
  have "prepare_sig_ok env ?st = prepare_sig_ok env st" "commit_sig_ok env ?st = commit_sig_ok env st"
    by (auto simp: prepare_sig_ok_def commit_sig_ok_def og_ID_def fun_eq_iff)
  then have "og_inv env st \<Longrightarrow> og_inv env ?st"
    using that by (auto simp: og_inv_def prepares_bound_def commits_bound_def signs_once_def)
  then show ?thesis by (simp add: keeps_defs)
qed

text \<open>The same facts, as rules that follow a chain of updates backwards.\<close>

lemma og_sign_frame [simp]:
  "og_sharedState (snd (og_sign env d mk st)) = og_sharedState st"
  "og_followerState (snd (og_sign env d mk st)) = og_followerState st"
  "og_leaderState (snd (og_sign env d mk st)) = og_leaderState st"
  "og_bufferedMessages (snd (og_sign env d mk st)) = og_bufferedMessages st"
  by (simp_all add: og_sign_def Let_def)

lemma og_trySend_frame [simp]:
  "og_sharedState (snd (og_trySend env x st)) = og_sharedState st"
  "og_followerState (snd (og_trySend env x st)) = og_followerState st"
  "og_leaderState (snd (og_trySend env x st)) = og_leaderState st"
  by (simp_all add: og_trySend_def Let_def)

lemma persistCert_frame [simp]:
  "og_sharedState (snd (persistCert env st)) = og_sharedState st"
  "og_followerState (snd (persistCert env st)) = og_followerState st"
  "og_leaderState (snd (persistCert env st)) = og_leaderState st"
  by (simp_all add: persistCert_def Let_def)

named_theorems keepsI

lemma keepsI_rules [keepsI]:
  "keeps env st s \<Longrightarrow> benign env x \<Longrightarrow> keeps env st (og_emit x s)"
  "keeps env st s \<Longrightarrow> keeps env st (og_tick s)"
  "keeps env st s \<Longrightarrow> keeps env st (upd_leader f s)"
  "keeps env st s \<Longrightarrow> keeps env st (upd_follower (\<lambda>f. f\<lparr>fs_query := q\<rparr>) s)"
  "keeps env st s \<Longrightarrow> keeps env st (upd_follower (\<lambda>f. f\<lparr>fs_tInitial := t\<rparr>) s)"
  "keeps env st s \<Longrightarrow> keeps env st (upd_follower (\<lambda>f. f\<lparr>fs_roundStartPool := rp\<rparr>) s)"
  "keeps env st s \<Longrightarrow> keeps env st (upd_shared (\<lambda>s. s\<lparr>sh_firstSeqNrOfEpoch := g s\<rparr>) s)"
  "keeps env st s \<Longrightarrow> \<not> signs_round (OgSigned d) \<Longrightarrow> keeps env st (snd (og_sign env d mk s))"
  "keeps env st s \<Longrightarrow> benign env x \<Longrightarrow> keeps env st (snd (og_trySend env x s))"
  "keeps env st s \<Longrightarrow> phase_of s = outgenFollowerPhaseNewRound \<Longrightarrow>
     keeps env st (upd_follower (\<lambda>f. f\<lparr>fs_phase := outgenFollowerPhaseSentObservation\<rparr>) s)"
  "keeps env st s \<Longrightarrow> goP (keeps env st) (tryProcessProposalPool env s)"
  "keeps env st s \<Longrightarrow> goP (keeps env st) (startSubsequentLeaderRound env s)"
  by (blast intro: keeps_trans keeps_emit, blast intro: keeps_trans keeps_tick,
      blast intro: keeps_trans keeps_upd_leader, blast intro: keeps_trans keeps_query,
      blast intro: keeps_trans keeps_tInitial, blast intro: keeps_trans keeps_roundStartPool,
      blast intro: keeps_trans keeps_firstSeqNr, blast intro: keeps_trans keeps_sign,
      blast intro: keeps_trans keeps_trySend, blast intro: keeps_trans keeps_SentObservation,
      blast intro: goP_keeps_trans keeps_tryProcessProposalPool,
      blast intro: goP_keeps_trans keeps_startSubsequentLeaderRound)

lemma keeps_tryProcessRoundStartPool: "goP (keeps env st) (tryProcessRoundStartPool env st)"
  unfolding tryProcessRoundStartPool_def Let_def case_prod_beta
  by (auto split: option.splits intro!: keepsI goP_bindI [where Q = "\<lambda>_. True"])

lemma u64_less_succ: "(x :: u64) < - 1 \<Longrightarrow> y \<le> x \<Longrightarrow> y < x + 1"
proof -
  assume "x < - 1" "y \<le> x"
  then have "1 + x \<noteq> 0" by (metis add.commute add_cancel_left_right add_eq_0_iff less_irrefl)
  then have "unat (x + 1) = Suc (unat x)" by (simp add: unatSuc add.commute)
  then show "y < x + 1" using \<open>y \<le> x\<close> by (simp add: word_less_nat_alt word_le_nat_alt)
qed

lemma verified_ok_next:
  assumes "verified_ok s b ok p" "s < s'"
  shows "verified_ok s' b' ok' p"
  using assms unfolding verified_ok_def by (blast intro: order_less_trans)

lemma keeps_newRound:
  assumes le: "og_inv env st \<Longrightarrow> commit_writes_ok st \<Longrightarrow> seqNr_of st \<le> committedSeqNr_of st"
  shows "keeps env st (upd_follower (\<lambda>f. f\<lparr>fs_phase := outgenFollowerPhaseNewRound, fs_query := None,
             fs_outcome := zero_outcomeAndDigests\<rparr>)
           (upd_shared (\<lambda>s. s\<lparr>sh_seqNr := sh_committedSeqNr s + 1, sh_observationQuorum := None\<rparr>) st))"
    (is "keeps env st ?st")
proof -
  have "og_inv env ?st"
    if inv: "og_inv env st" and small: "committedSeqNr_of st < - 1" and w: "commit_writes_ok st"
  proof -
    have later: "s < seqNr_of ?st" if "s < seqNr_of st \<or> s = seqNr_of st" for s
    proof -
      have "s \<le> committedSeqNr_of st" using that le [OF inv w] by auto
      then show ?thesis using u64_less_succ [OF small] by simp
    qed
    have nx: "seqNr_of st < committedSeqNr_of st + 1" using later [of "seqNr_of st"] by simp
    have b: "prepares_bound env st" "commits_bound env st" using inv by (auto simp: og_inv_def)
    have "prepares_bound env ?st"
      using b(1) later unfolding prepares_bound_def by (simp, blast)
    moreover have "commits_bound env ?st"
      using b(2) later unfolding commits_bound_def by (simp, blast)
    ultimately show ?thesis
      using inv nx by (auto simp: og_inv_def signs_once_def intro: verified_ok_next)
  qed
  moreover have "commit_writes_ok ?st = commit_writes_ok st" by (simp add: commit_writes_ok_def)
  ultimately show ?thesis by (simp add: keeps_defs)
qed

lemma keepsI_startSubsequentFollowerRound [keepsI]:
  assumes "keeps env st s" "og_inv env s \<Longrightarrow> commit_writes_ok s \<Longrightarrow> seqNr_of s \<le> committedSeqNr_of s"
  shows "goP (keeps env st) (startSubsequentFollowerRound env s)"
  unfolding startSubsequentFollowerRound_def Let_def
  by (rule goP_keeps_trans [OF keeps_trans [OF assms(1) keeps_newRound [OF assms(2)]] keeps_tryProcessRoundStartPool])

lemma keepsI_tryProcessRoundStartPool [keepsI]:
  "keeps env st s \<Longrightarrow> goP (keeps env st) (tryProcessRoundStartPool env s)"
  by (rule goP_keeps_trans [OF _ keeps_tryProcessRoundStartPool])

lemma keeps_messageRoundStart: "goP (keeps env st) (messageRoundStart env epoch seqNr query sender st)"
  unfolding messageRoundStart_def Let_def case_prod_beta
  by (auto intro!: keepsI goP_bindI [where Q = "\<lambda>_. True"])

lemma keeps_eventTInitialTimeout: "goP (keeps env st) (eventTInitialTimeout env st)"
  unfolding eventTInitialTimeout_def by (auto intro!: keepsI)

section \<open>Joining an epoch\<close>

lemma keeps_reproposal:
  assumes "phase_of st = outgenFollowerPhaseNewEpoch"
    and dig: "oad_Digest oad = MakeOutcomeDigest (oe_crypto env) (oad_Outcome oad)"
    and b: "benign env x"
  shows "keeps env st (og_emit x (upd_follower (\<lambda>f. f\<lparr>fs_phase := outgenFollowerPhaseSentPrepare, fs_outcome := oad\<rparr>)
      (upd_shared (\<lambda>s. s\<lparr>sh_firstSeqNrOfEpoch := fst_s, sh_seqNr := n, sh_observationQuorum := None\<rparr>)
        (og_emit (OgSigned (SignedPrepareData (og_ID env st) n (oad_InputsDigest oad) (oad_Digest oad))) (og_tick st)))))"
    (is "keeps env st ?st")
proof -
  have "og_inv env ?st" if inv: "og_inv env st"
  proof (rule og_inv_prepared [OF inv _ _ dig])
    have "seqNr_of st = 0" using inv assms(1) by (simp add: og_inv_def)
    then show "seqNr_of st \<le> n" by simp
  qed (use assms in auto)
  then show ?thesis using b by (simp add: keeps_defs durable_append benign_def)
qed

lemma EpochStartProof_Verify_cert:
  "EpochStartProof_Verify (oe_crypto env) esp (og_ID env st) (cfg_OracleIdentities (oe_config env))
     (ByzQuorumSize (oe_config env)) = Inr None \<Longrightarrow> cert_valid env (esp_HighestCertified esp)"
  using EpochStartProof_Verify_None [of "oe_crypto env" esp "og_ID env st"]
  by (simp add: cert_valid_def og_ID_def)

lemma keeps_messageEpochStart:
  shows "goP (keeps env st) (messageEpochStart env epoch esp sender st)"
proof (rule goPI)
  fix st' assume r: "messageEpochStart env epoch esp sender st = Inr st'"
  let ?st = "upd_follower (\<lambda>f. f\<lparr>fs_tInitial := TNil\<rparr>) st"
  let ?first = "\<lambda>st. upd_shared (\<lambda>s. s\<lparr>sh_firstSeqNrOfEpoch := sh_committedSeqNr s + 1\<rparr>) st"
  have k: "keeps env st ?st" by simp
  have c: "goP (keeps env st) (bindG (commit env cc ?st) (\<lambda>st. startSubsequentFollowerRound env (?first st)))"
    if "cert_valid env (CertCommit cc)" "phase_of st = outgenFollowerPhaseNewEpoch" for cc
  proof (rule goP_bindI)
    show "goP (\<lambda>s. keeps env st s \<and> phase_of s = outgenFollowerPhaseNewEpoch) (commit env cc ?st)"
      using keeps_commit [OF that(1), where st = ?st] that(2) by (auto elim!: goP_mono intro: keeps_trans [OF k])
    show "goP (keeps env st) (startSubsequentFollowerRound env (?first s))"
      if "keeps env st s \<and> phase_of s = outgenFollowerPhaseNewEpoch" for s
      using that by (auto intro!: keepsI simp: og_inv_def)
  qed
  have s: "goP (keeps env st) (startSubsequentFollowerRound env (?first ?st))"
    if "phase_of st = outgenFollowerPhaseNewEpoch"
    using that by (auto intro!: keepsI simp: og_inv_def)
  show "keeps env st st'"
  proof (cases "st' = st")
    case False
    then have ph: "phase_of st = outgenFollowerPhaseNewEpoch"
      and v: "EpochStartProof_Verify (oe_crypto env) esp (og_ID env st) (cfg_OracleIdentities (oe_config env))
         (ByzQuorumSize (oe_config env)) = Inr None"
      using r unfolding messageEpochStart_def by (auto split: if_splits elim!: bindG_InrE)
    have cv: "cert_valid env (esp_HighestCertified esp)" by (rule EpochStartProof_Verify_cert [OF v])
    note r' = r [unfolded messageEpochStart_def v bindG_simps Let_def]
    show ?thesis
    proof (cases "cert_IsGenesis (esp_HighestCertified esp)")
      case True
      then show ?thesis using r' False ph goP_D [OF s [OF ph]] by (auto split: if_splits)
    next
      case nogen: False
      show ?thesis
      proof (cases "esp_HighestCertified esp")
        case (CertCommit cc)
        then show ?thesis
          using r' False ph nogen cv goP_D [OF c [OF _ ph]] by (auto split: if_splits)
      next
        case (CertPrepare hc)
        let ?oad = "\<lparr>oad_Outcome = cp_Outcome hc, oad_InputsDigest = zero_digest,
            oad_Digest = MakeOutcomeDigest (oe_crypto env) (cp_Outcome hc)\<rparr>"
        note rp = keeps_trans [OF k keeps_reproposal [where st = ?st and oad = ?oad and env = env
          and x = "OgBroadcast (MessagePrepare (e_of st) (cp_SeqNr hc) sig)"
          and fst_s = "cp_SeqNr hc + 1" and n = "cp_SeqNr hc" for sig]]
        show ?thesis
          using CertPrepare r' False ph nogen rp keeps_trans [OF k keeps_tick]
          by (auto simp: og_sign_def Let_def og_ID_def split: if_splits option.splits)
      qed
    qed
  qed simp
qed

section \<open>Quorums from pools\<close>

lemma verify_pool_spec:
  assumes "verify_pool ids sig_ok n es p = Inr p'"
    and "\<forall>(i, en) \<in> set es. \<exists>en'. entry p n i = Some en' \<and> Item en' = Item en"
  shows "(pool_ok p \<longrightarrow> pool_ok p') \<and>
     (\<forall>s i. entry p' s i = entry p s i \<or>
       s = n \<and> (\<exists>en b. entry p n i = Some en \<and> entry p' n i = Some (en\<lparr>Verified := Some b\<rparr>) \<and>
         (b \<longrightarrow> unat i < length ids \<and> sig_ok (Item en) (oi_OffchainPublicKey (ids ! unat i)))))"
  using assms
proof (induction ids sig_ok n es p rule: verify_pool.induct)
  case (2 ids sig_ok n sender en es p)
  show ?case
  proof (cases "Verified en = None")
    case False
    then show ?thesis using 2 by auto
  next
    case True
    let ?b = "sig_ok (Item en) (oi_OffchainPublicKey (ids ! unat sender))"
    let ?p = "StoreVerified p n sender ?b"
    have idx: "unat sender < length ids" and r: "verify_pool ids sig_ok n es ?p = Inr p'"
      using True "2.prems"(1) by (auto simp: go_index_eq_Inr elim!: bindG_InrE)
    obtain en' where en': "entry p n sender = Some en'" "Item en' = Item en" using "2.prems"(2) by auto
    have items: "\<forall>(i, en) \<in> set es. \<exists>en'. entry ?p n i = Some en' \<and> Item en' = Item en"
    proof -
      have "\<exists>en'. entry ?p n i = Some en' \<and> Item en' = Item e" if ie: "(i, e) \<in> set es" for i e
      proof -
        obtain x where "entry p n i = Some x" "Item x = Item e" using "2.prems"(2) ie by auto
        then show ?thesis by (cases "i = sender") (auto simp: entry_StoreVerified)
      qed
      then show ?thesis by blast
    qed
    have IH: "(pool_ok ?p \<longrightarrow> pool_ok p') \<and>
       (\<forall>s i. entry p' s i = entry ?p s i \<or>
         s = n \<and> (\<exists>en b. entry ?p n i = Some en \<and> entry p' n i = Some (en\<lparr>Verified := Some b\<rparr>) \<and>
           (b \<longrightarrow> unat i < length ids \<and> sig_ok (Item en) (oi_OffchainPublicKey (ids ! unat i)))))"
      using "2.IH"(2) True r items idx go_index_in [OF idx] by auto
    have "entry p' s i = entry p s i \<or>
       s = n \<and> (\<exists>en b. entry p n i = Some en \<and> entry p' n i = Some (en\<lparr>Verified := Some b\<rparr>) \<and>
         (b \<longrightarrow> unat i < length ids \<and> sig_ok (Item en) (oi_OffchainPublicKey (ids ! unat i))))" for s i
    proof -
      have IHsi: "entry p' s i = entry ?p s i \<or>
         s = n \<and> (\<exists>en b. entry ?p n i = Some en \<and> entry p' n i = Some (en\<lparr>Verified := Some b\<rparr>) \<and>
           (b \<longrightarrow> unat i < length ids \<and> sig_ok (Item en) (oi_OffchainPublicKey (ids ! unat i))))"
        using IH by blast
      show ?thesis
      proof (cases "s = n \<and> i = sender")
        case False
        then have eq: "entry ?p s i = entry p s i" and eqn: "s = n \<Longrightarrow> entry ?p n i = entry p n i"
          by (auto simp: entry_StoreVerified)
        show ?thesis
        proof (cases "s = n")
          case True
          show ?thesis using IHsi unfolding eq eqn [OF True] .
        qed (use IHsi eq in simp)
      next
        case here: True
        have e: "entry ?p n sender = Some (if Verified en' = None then en'\<lparr>Verified := Some ?b\<rparr> else en')"
          using en' by (simp add: entry_StoreVerified)
        show ?thesis
        proof (cases "Verified en' = None")
          case True
          then show ?thesis using IHsi here e en' idx by auto
        next
          case False
          then show ?thesis using IHsi here e en' by auto
        qed
      qed
    qed
    then show ?thesis using IH pool_ok_StoreVerified by blast
  qed
qed simp

lemma collect_quorum_spec:
  assumes "int (length acc) < q"
  shows "int (length (collect_quorum q es acc)) \<le> q \<and>
     (distinct (map snd acc @ map fst es) \<longrightarrow> distinct (map snd (collect_quorum q es acc))) \<and>
     (\<forall>(sig, i) \<in> set (collect_quorum q es acc). (sig, i) \<in> set acc \<or>
        (\<exists>en. (i, en) \<in> set es \<and> Verified en = Some True \<and> Item en = sig))"
  using assms
proof (induction q es acc rule: collect_quorum.induct)
  case (2 q sender en es acc)
  show ?case
  proof (cases "Verified en = Some True \<and> int (length (acc @ [(Item en, sender)])) \<noteq> q")
    case True
    then have "int (length (acc @ [(Item en, sender)])) < q" using "2.prems" by auto
    then show ?thesis using True "2.IH"(1) by (auto simp: Let_def)
  next
    case False
    then show ?thesis using 2 by (auto simp: Let_def)
  qed
qed auto

lemma entries_in_order_props:
  assumes "legal_order ord" "map_ok m"
  shows "distinct (map fst (entries_in_order (ord k) m))"
    and "(i, en) \<in> set (entries_in_order (ord k) m) \<Longrightarrow> map_of m i = Some en"
proof -
  show "distinct (map fst (entries_in_order (ord k) m))"
    using assms by (simp add: entries_in_order_def comp_def legal_order_distinct map_ok_def)
  show "map_of m i = Some en" if "(i, en) \<in> set (entries_in_order (ord k) m)"
  proof -
    have "i \<in> set (map fst m)" "en = the (map_of m i)"
      using that legal_order_set [OF assms(1), of k "map fst m"] by (auto simp: entries_in_order_def)
    then show ?thesis by (metis map_of_eq_None_iff option.collapse set_map)
  qed
qed

lemma entry_of_pool_entries: "map_of (pool_entries_of p s) i = entry p s i"
  by (simp add: pool_entries_of_def entry_def Option.bind_eq_None_conv split: option.splits)

lemma map_ok_pool_entries: "pool_ok p \<Longrightarrow> map_ok (pool_entries_of p s)"
  by (auto simp: pool_entries_of_def pool_ok_def Entries_def dest: map_of_SomeD split: option.splits)

text \<open>The quorum collected from a pool: exactly the quorum size, distinct senders, verified entries.\<close>

lemma collected_quorum:
  assumes ord: "legal_order ord" and ok: "pool_ok p" and q: "0 < q"
    and qc: "qc = collect_quorum q (entries_in_order (ord k) (pool_entries_of p s)) []" and full: "\<not> int (length qc) < q"
  shows "int (length qc) = q" "distinct (map snd qc)"
    "(sig, i) \<in> set qc \<Longrightarrow> \<exists>en. entry p s i = Some en \<and> Verified en = Some True \<and> Item en = sig"
proof -
  note m = map_ok_pool_entries [OF ok, of s]
  note spec = collect_quorum_spec [of "[]" q "entries_in_order (ord k) (pool_entries_of p s)"]
  show "int (length qc) = q" using spec q full by (simp add: qc)
  show "distinct (map snd qc)"
    using spec q entries_in_order_props(1) [OF ord m, of k] by (simp add: qc)
  show "\<exists>en. entry p s i = Some en \<and> Verified en = Some True \<and> Item en = sig" if "(sig, i) \<in> set qc"
    using spec q that entries_in_order_props(2) [OF ord m, of i _ k] unfolding qc entry_of_pool_entries by fastforce
qed

lemma verified_ok_verify_pool:
  assumes v: "verified_ok n True ok (Some p)"
    and r: "verify_pool ids sig_ok n (pool_entries_of p n) p = Inr p'"
    and ok: "\<And>i sig. unat i < length ids \<Longrightarrow> sig_ok sig (oi_OffchainPublicKey (ids ! unat i)) \<Longrightarrow> ok i sig"
  shows "verified_ok n True ok (Some p')"
proof -
  have p: "pool_ok p" using v by (simp add: verified_ok_def)
  have items: "\<forall>(i, en) \<in> set (pool_entries_of p n). \<exists>en'. entry p n i = Some en' \<and> Item en' = Item en"
    using map_ok_pool_entries [OF p, of n] by (auto simp: map_ok_in_iff entry_of_pool_entries)
  note spec = verify_pool_spec [OF r items]
  have "s < n \<or> s = n \<and> (Verified en = Some True \<longrightarrow> ok i (Item en))"
    if "entry p' s i = Some en" "Verified en \<noteq> None" for s i en
  proof (cases "entry p' s i = entry p s i")
    case True
    then show ?thesis using v that by (auto simp: verified_ok_def)
  next
    case False
    then have "s = n \<and> (\<exists>en b. entry p n i = Some en \<and> entry p' n i = Some (en\<lparr>Verified := Some b\<rparr>) \<and>
         (b \<longrightarrow> unat i < length ids \<and> sig_ok (Item en) (oi_OffchainPublicKey (ids ! unat i))))"
      using spec by blast
    then obtain en0 b where "s = n" "entry p n i = Some en0" "entry p' n i = Some (en0\<lparr>Verified := Some b\<rparr>)"
        "b \<longrightarrow> unat i < length ids \<and> sig_ok (Item en0) (oi_OffchainPublicKey (ids ! unat i))"
      by blast
    then have "s = n" "en = en0\<lparr>Verified := Some b\<rparr>"
        "b \<longrightarrow> unat i < length ids \<and> sig_ok (Item en0) (oi_OffchainPublicKey (ids ! unat i))"
      using that by simp_all
    then show ?thesis using ok by auto
  qed
  moreover have "pool_ok p'" using spec p by blast
  ultimately show ?thesis unfolding verified_ok_def by simp
qed

section \<open>Committing\<close>

lemma cert_valid_prepare:
  assumes "length qc = nat (ByzQuorumSize (oe_config env))" "0 < ByzQuorumSize (oe_config env)" "distinct (map snd qc)"
    and "\<And>sig i. (sig, i) \<in> set qc \<Longrightarrow> prepare_sig_ok env st i sig"
    and "oad_Digest (outcome_of st) = MakeOutcomeDigest (oe_crypto env) (oad_Outcome (outcome_of st))"
  shows "cert_valid env (CertPrepare \<lparr>cp_PrepareEpoch = e_of st, cp_SeqNr = seqNr_of st,
      cp_OutcomeInputsDigest = oad_InputsDigest (outcome_of st), cp_Outcome = oad_Outcome (outcome_of st),
      cp_PrepareQuorumCertificate = map (\<lambda>(sig, i). \<lparr>aps_Signature = sig, aps_Signer = i\<rparr>) qc\<rparr>)"
proof -
  have "aps_Signer \<circ> (\<lambda>(sig, i). \<lparr>aps_Signature = sig, aps_Signer = i\<rparr>) = snd" by (auto simp: fun_eq_iff)
  then show ?thesis
    using assms by (auto simp: cert_valid_def CertifiedPrepare_Verify_None prepare_sig_ok_def og_ID_def)
qed

lemma cert_valid_commit:
  assumes "length qc = nat (ByzQuorumSize (oe_config env))" "0 < ByzQuorumSize (oe_config env)" "distinct (map snd qc)"
    and "\<And>sig i. (sig, i) \<in> set qc \<Longrightarrow> commit_sig_ok env st i sig"
    and "oad_Digest (outcome_of st) = MakeOutcomeDigest (oe_crypto env) (oad_Outcome (outcome_of st))"
  shows "cert_valid env (CertCommit \<lparr>cmt_CommitEpoch = e_of st, cmt_SeqNr = seqNr_of st,
      cmt_Outcome = oad_Outcome (outcome_of st),
      cmt_CommitQuorumCertificate = map (\<lambda>(sig, i). \<lparr>acs_Signature = sig, acs_Signer = i\<rparr>) qc\<rparr>)"
proof -
  have "acs_Signer \<circ> (\<lambda>(sig, i). \<lparr>acs_Signature = sig, acs_Signer = i\<rparr>) = snd" by (auto simp: fun_eq_iff)
  then show ?thesis
    using assms by (auto simp: cert_valid_def CertifiedCommit_Verify_None commit_sig_ok_def og_ID_def)
qed

text \<open>While the outcome of the round is fixed, signing a commit for it repeats nothing.\<close>

lemma keeps_sign_commit:
  assumes "sent_prepare st"
  shows "keeps env st (snd (og_sign env (SignedCommitData (og_ID env st) (seqNr_of st) (oad_Digest (outcome_of st))) mk st))"
proof -
  let ?x = "OgSigned (SignedCommitData (og_ID env st) (seqNr_of st) (oad_Digest (outcome_of st)))"
  let ?st = "og_emit ?x (og_tick st)"
  have "og_inv env ?st" if inv: "og_inv env st"
  proof -
    have sig: "prepare_sig_ok env ?st = prepare_sig_ok env st" "commit_sig_ok env ?st = commit_sig_ok env st"
      by (auto simp: prepare_sig_ok_def commit_sig_ok_def og_ID_def fun_eq_iff)
    have b: "commits_bound env st" "signs_once st" using inv by (auto simp: og_inv_def)
    have old: "d = oad_Digest (outcome_of st)"
      if "OgSigned (SignedCommitData (og_ID env st) (seqNr_of st) d) \<in> set (og_log st)" for d
      using b(1) that unfolding commits_bound_def og_ID_def by fastforce
    have "commits_bound env ?st"
      using b(1) assms unfolding commits_bound_def by (auto simp: og_ID_def)
    moreover have "signs_once ?st"
      using b(2) old unfolding signs_once_def by (auto; blast)
    ultimately show ?thesis
      using inv unfolding og_inv_def sig by (auto simp: prepares_bound_def)
  qed
  then have "keeps env st ?st" by (simp add: keeps_defs)
  then show ?thesis by (simp add: og_sign_def Let_def)
qed

lemma keeps_SentCommit:
  assumes "phase_of st = outgenFollowerPhaseSentPrepare"
  shows "keeps env st (upd_follower (\<lambda>f. f\<lparr>fs_phase := outgenFollowerPhaseSentCommit\<rparr>) st)" (is "keeps env st ?st")
proof -
  have sig: "prepare_sig_ok env ?st = prepare_sig_ok env st"
    by (auto simp: prepare_sig_ok_def og_ID_def fun_eq_iff)
  have "og_inv env ?st" if inv: "og_inv env st"
  proof -
    have b: "prepares_bound env st" "commits_bound env st"
      and v: "verified_ok (seqNr_of st) False (commit_sig_ok env st) (fs_commitPool (og_followerState st))"
      using inv assms by (auto simp: og_inv_def)
    have "prepares_bound env ?st" using b(1) assms unfolding prepares_bound_def by simp
    moreover have "commits_bound env ?st" using b(2) assms unfolding commits_bound_def by simp
    moreover have "verified_ok (seqNr_of st) True (commit_sig_ok env ?st) (fs_commitPool (og_followerState st))"
      by (rule verified_ok_later [OF v]) simp_all
    ultimately show ?thesis
      using inv assms unfolding og_inv_def sig by (simp add: signs_once_def)
  qed
  then show ?thesis by (simp add: keeps_defs)
qed

text \<open>The pool of the current round, once its outcome is fixed, may be verified in place.\<close>

lemma keeps_verified_pool:
  assumes "sent_prepare st" "fs_preparePool (og_followerState st) = Some p"
    and "verify_pool (cfg_OracleIdentities (oe_config env))
       (\<lambda>sig pk. PrepareSignature_Verify (oe_crypto env) sig (og_ID env st) (seqNr_of st)
          (oad_InputsDigest (outcome_of st)) (oad_Digest (outcome_of st)) pk = None)
       (seqNr_of st) (pool_entries_of p (seqNr_of st)) p = Inr p'"
  shows "keeps env st (upd_follower (\<lambda>f. f\<lparr>fs_preparePool := Some p'\<rparr>) st)" (is "keeps env st ?st")
proof -
  have sig: "prepare_sig_ok env ?st = prepare_sig_ok env st" "commit_sig_ok env ?st = commit_sig_ok env st"
    by (auto simp: prepare_sig_ok_def commit_sig_ok_def og_ID_def fun_eq_iff)
  have "og_inv env ?st" if inv: "og_inv env st"
  proof -
    have v: "verified_ok (seqNr_of st) True (prepare_sig_ok env st) (Some p)"
      using inv assms(1,2) by (auto simp: og_inv_def)
    have "verified_ok (seqNr_of st) True (prepare_sig_ok env st) (Some p')"
      by (rule verified_ok_verify_pool [OF v assms(3)]) (simp add: prepare_sig_ok_def)
    then show ?thesis
      using inv assms(1) bounds_frame [where st' = ?st and st = st] unfolding og_inv_def sig by auto
  qed
  then show ?thesis by (simp add: keeps_defs)
qed

lemma keeps_verified_commits:
  assumes "phase_of st = outgenFollowerPhaseSentCommit" "fs_commitPool (og_followerState st) = Some p"
    and "verify_pool (cfg_OracleIdentities (oe_config env))
       (\<lambda>sig pk. CommitSignature_Verify (oe_crypto env) sig (og_ID env st) (seqNr_of st)
          (oad_Digest (outcome_of st)) pk = None)
       (seqNr_of st) (pool_entries_of p (seqNr_of st)) p = Inr p'"
  shows "keeps env st (upd_follower (\<lambda>f. f\<lparr>fs_commitPool := Some p'\<rparr>) st)" (is "keeps env st ?st")
proof -
  have sig: "prepare_sig_ok env ?st = prepare_sig_ok env st" "commit_sig_ok env ?st = commit_sig_ok env st"
    by (auto simp: prepare_sig_ok_def commit_sig_ok_def og_ID_def fun_eq_iff)
  have "og_inv env ?st" if inv: "og_inv env st"
  proof -
    have v: "verified_ok (seqNr_of st) True (commit_sig_ok env st) (Some p)"
      using inv assms(1,2) by (auto simp: og_inv_def)
    have "verified_ok (seqNr_of st) True (commit_sig_ok env st) (Some p')"
      by (rule verified_ok_verify_pool [OF v assms(3)]) (simp add: commit_sig_ok_def)
    then show ?thesis
      using inv assms(1) bounds_frame [where st' = ?st and st = st] unfolding og_inv_def sig by auto
  qed
  then show ?thesis by (simp add: keeps_defs)
qed

text \<open>Entries counted for a quorum carry valid signatures.\<close>

lemma collected_prepares:
  assumes env: "cfg_ok (oe_config env)" "legal_order (oe_order env)"
    and inv: "og_inv env st" and st: "sent_prepare st" "fs_preparePool (og_followerState st) = Some p"
    and qc: "qc = collect_quorum (ByzQuorumSize (oe_config env))
      (entries_in_order (oe_order env k) (pool_entries_of p (seqNr_of st))) []"
    and full: "\<not> int (length qc) < ByzQuorumSize (oe_config env)"
  shows "cert_valid env (CertPrepare \<lparr>cp_PrepareEpoch = e_of st, cp_SeqNr = seqNr_of st,
      cp_OutcomeInputsDigest = oad_InputsDigest (outcome_of st), cp_Outcome = oad_Outcome (outcome_of st),
      cp_PrepareQuorumCertificate = map (\<lambda>(sig, i). \<lparr>aps_Signature = sig, aps_Signer = i\<rparr>) qc\<rparr>)"
proof -
  have v: "verified_ok (seqNr_of st) True (prepare_sig_ok env st) (Some p)"
    and dig: "oad_Digest (outcome_of st) = MakeOutcomeDigest (oe_crypto env) (oad_Outcome (outcome_of st))"
    using inv st by (auto simp: og_inv_def)
  have ok: "pool_ok p" using v by (simp add: verified_ok_def)
  have q: "0 < ByzQuorumSize (oe_config env)" by (rule ByzQuorumSize_positive [OF env(1)])
  note c = collected_quorum [OF env(2) ok q qc full]
  show ?thesis
  proof (rule cert_valid_prepare [OF _ q c(2) _ dig])
    show "prepare_sig_ok env st i sig" if "(sig, i) \<in> set qc" for sig i
      using c(3) [OF that] v unfolding verified_ok_def by fastforce
  qed (use c(1) in simp)
qed

lemma collected_commits:
  assumes env: "cfg_ok (oe_config env)" "legal_order (oe_order env)"
    and inv: "og_inv env st"
    and st: "phase_of st = outgenFollowerPhaseSentCommit" "fs_commitPool (og_followerState st) = Some p"
    and qc: "qc = collect_quorum (ByzQuorumSize (oe_config env))
      (entries_in_order (oe_order env k) (pool_entries_of p (seqNr_of st))) []"
    and full: "\<not> int (length qc) < ByzQuorumSize (oe_config env)"
  shows "cert_valid env (CertCommit \<lparr>cmt_CommitEpoch = e_of st, cmt_SeqNr = seqNr_of st,
      cmt_Outcome = oad_Outcome (outcome_of st),
      cmt_CommitQuorumCertificate = map (\<lambda>(sig, i). \<lparr>acs_Signature = sig, acs_Signer = i\<rparr>) qc\<rparr>)"
proof -
  have v: "verified_ok (seqNr_of st) True (commit_sig_ok env st) (Some p)"
    and dig: "oad_Digest (outcome_of st) = MakeOutcomeDigest (oe_crypto env) (oad_Outcome (outcome_of st))"
    using inv st by (auto simp: og_inv_def)
  have ok: "pool_ok p" using v by (simp add: verified_ok_def)
  have q: "0 < ByzQuorumSize (oe_config env)" by (rule ByzQuorumSize_positive [OF env(1)])
  note c = collected_quorum [OF env(2) ok q qc full]
  show ?thesis
  proof (rule cert_valid_commit [OF _ q c(2) _ dig])
    show "commit_sig_ok env st i sig" if "(sig, i) \<in> set qc" for sig i
      using c(3) [OF that] v unfolding verified_ok_def by fastforce
  qed (use c(1) in simp)
qed

lemma keepsI_bool: "(b \<Longrightarrow> keeps env st x) \<Longrightarrow> (\<not> b \<Longrightarrow> keeps env st y) \<Longrightarrow> keeps env st (if b then x else y)"
  by simp

lemma keeps_tryProcessPreparePool:
  assumes env: "cfg_ok (oe_config env)" "legal_order (oe_order env)"
  shows "goP (keeps env st) (tryProcessPreparePool env st)"
proof (rule goPI)
  fix st' assume r: "tryProcessPreparePool env st = Inr st'"
  let ?C = "oe_crypto env" and ?q = "ByzQuorumSize (oe_config env)" and ?n = "seqNr_of st" and ?oad = "outcome_of st"
  show "keeps env st st'"
  proof (cases "phase_of st = outgenFollowerPhaseSentPrepare \<and> st' \<noteq> st")
    case False
    then show ?thesis using r by (auto simp: tryProcessPreparePool_def Let_def split: if_splits)
  next
    case True
    then have ph: "phase_of st = outgenFollowerPhaseSentPrepare" and sp: "sent_prepare st" by auto
    obtain p p' where p: "fs_preparePool (og_followerState st) = Some p"
      and v: "verify_pool (cfg_OracleIdentities (oe_config env))
         (\<lambda>sig pk. PrepareSignature_Verify ?C sig (og_ID env st) ?n (oad_InputsDigest ?oad) (oad_Digest ?oad) pk = None)
         ?n (pool_entries_of p ?n) p = Inr p'"
      using r True by (auto simp: tryProcessPreparePool_def Let_def split: if_splits elim!: bindG_InrE)
    define st1 where "st1 = og_tick (upd_follower (\<lambda>f. f\<lparr>fs_preparePool := Some p'\<rparr>) st)"
    define qc where "qc = collect_quorum ?q (entries_in_order (oe_order env (og_calls st)) (pool_entries_of p' ?n)) []"
    have k1: "keeps env st st1"
      unfolding st1_def by (rule keeps_trans [OF keeps_verified_pool [OF sp p v] keeps_tick])
    have st1: "sent_prepare st1" "fs_preparePool (og_followerState st1) = Some p'" "seqNr_of st1 = ?n"
        "outcome_of st1 = ?oad" "e_of st1 = e_of st" "og_ID env st1 = og_ID env st" "phase_of st1 = phase_of st"
      using sp by (simp_all add: st1_def og_ID_def)
    define cert where "cert = \<lparr>cp_PrepareEpoch = e_of st1, cp_SeqNr = seqNr_of st1,
      cp_OutcomeInputsDigest = oad_InputsDigest (outcome_of st1), cp_Outcome = oad_Outcome (outcome_of st1),
      cp_PrepareQuorumCertificate = map (\<lambda>(sig, i). \<lparr>aps_Signature = sig, aps_Signer = i\<rparr>) qc\<rparr>"
    define st2 where "st2 = snd (og_sign env (SignedCommitData (og_ID env st1) (seqNr_of st1) (oad_Digest (outcome_of st1)))
         (MakeCommitSignature ?C (og_ID env st1) (seqNr_of st1) (oad_Digest (outcome_of st1))) st1)"
    define st3 where "st3 = upd_follower (\<lambda>f. f\<lparr>fs_cert := CertPrepare cert\<rparr>) st2"
    define st4 where "st4 = snd (persistCert env st3)"
    have k2: "keeps env st st2" unfolding st2_def by (rule keeps_trans [OF k1 keeps_sign_commit [OF st1(1)]])
    have k3: "keeps env st st3" if full: "\<not> int (length qc) < ?q"
      unfolding st3_def
    proof (rule keeps_trans [OF k2 keeps_new_cert])
      assume inv: "og_inv env st2"
      have "fs_preparePool (og_followerState st2) = Some p'" "sent_prepare st2" "seqNr_of st2 = ?n"
         "outcome_of st2 = outcome_of st1" "e_of st2 = e_of st1"
        using st1 by (simp_all add: st2_def)
      then show "cert_valid env (CertPrepare cert)"
        using collected_prepares [OF env inv, of p' qc "og_calls st"] full st1 unfolding cert_def qc_def by simp
    qed
    have k4: "keeps env st st4" if "\<not> int (length qc) < ?q"
      unfolding st4_def by (rule keeps_trans [OF k3 [OF that] keeps_persistCert])
    have k5: "keeps env st (og_emit (OgBroadcast (MessageCommit e n sig))
        (upd_follower (\<lambda>f. f\<lparr>fs_phase := outgenFollowerPhaseSentCommit\<rparr>) st4))"
      if "\<not> int (length qc) < ?q" for e n sig
    proof -
      have "phase_of st4 = outgenFollowerPhaseSentPrepare"
        using ph st1 by (simp add: st4_def st3_def st2_def)
      then show ?thesis
        by (intro keeps_trans [OF keeps_trans [OF k4 [OF that] keeps_SentCommit] keeps_emit]) simp_all
    qed
    let ?sign = "og_sign env (SignedCommitData (og_ID env st1) (seqNr_of st1) (oad_Digest (outcome_of st1)))
         (MakeCommitSignature ?C (og_ID env st1) (seqNr_of st1) (oad_Digest (outcome_of st1))) st1"
    have "tryProcessPreparePool env st =
        (if int (length (pool_entries_of p ?n)) < ?q then Inr st
         else if int (length qc) < ?q then Inr st1
         else case fst ?sign of None \<Rightarrow> Inr st2
           | Some sig \<Rightarrow> if \<not> fst (persistCert env st3) then Inr st4
               else Inr (og_emit (OgBroadcast (MessageCommit (e_of st4) (seqNr_of st4) sig))
                 (upd_follower (\<lambda>f. f\<lparr>fs_phase := outgenFollowerPhaseSentCommit\<rparr>) st4)))"
      by (simp add: tryProcessPreparePool_def Let_def case_prod_beta p v [unfolded og_ID_def] ph qc_def cert_def st4_def st3_def st2_def
          st1_def og_ID_def cong: if_cong option.case_cong)
    then consider "st' = st1" | "st' = st2" | "\<not> int (length qc) < ?q" "st' = st4"
      | e n sig where "\<not> int (length qc) < ?q" "st' = og_emit (OgBroadcast (MessageCommit e n sig))
          (upd_follower (\<lambda>f. f\<lparr>fs_phase := outgenFollowerPhaseSentCommit\<rparr>) st4)"
      using r True by (auto split: if_splits option.splits)
    then show ?thesis
      using k1 k2 k4 k5 by cases auto
  qed
qed

lemma keepsI_startSubsequentLeaderRound [keepsI]:
  "keeps env st s \<Longrightarrow> goP (keeps env st) (startSubsequentLeaderRound env s)"
  by (rule goP_keeps_trans [OF _ keeps_startSubsequentLeaderRound])

lemma keeps_afterCommit:
  assumes "keeps env st s" "commit_writes_ok s \<longrightarrow> seqNr_of s \<le> committedSeqNr_of s"
  shows "goP (keeps env st) (afterCommit env s)"
proof -
  let ?s = "snd (og_trySend env (OgToPacemaker EventProgress) s)"
  have k: "keeps env st ?s" by (rule keeps_trans [OF assms(1) keeps_trySend]) simp
  have "commit_writes_ok s" if "commit_writes_ok ?s"
    using that by (auto simp: og_trySend_def Let_def commit_writes_ok_def split: if_splits)
  then have f: "goP (keeps env st) (startSubsequentFollowerRound env ?s)"
    using assms(2) by (intro keepsI_startSubsequentFollowerRound [OF k]) simp
  show ?thesis
    unfolding afterCommit_def Let_def case_prod_beta
    using assms(1) k f by (auto intro!: keepsI goP_bindI [where Q = "keeps env st"])
qed

lemma keeps_tryProcessCommitPool:
  assumes env: "cfg_ok (oe_config env)" "legal_order (oe_order env)"
  shows "goP (keeps env st) (tryProcessCommitPool env st)"
proof (rule goPI)
  fix st' assume r: "tryProcessCommitPool env st = Inr st'"
  let ?C = "oe_crypto env" and ?q = "ByzQuorumSize (oe_config env)" and ?n = "seqNr_of st" and ?oad = "outcome_of st"
  show "keeps env st st'"
  proof (cases "phase_of st = outgenFollowerPhaseSentCommit \<and> st' \<noteq> st")
    case False
    then show ?thesis using r by (auto simp: tryProcessCommitPool_def Let_def split: if_splits)
  next
    case True
    then have ph: "phase_of st = outgenFollowerPhaseSentCommit" by auto
    obtain p p' where p: "fs_commitPool (og_followerState st) = Some p"
      and v: "verify_pool (cfg_OracleIdentities (oe_config env))
         (\<lambda>sig pk. CommitSignature_Verify ?C sig (og_ID env st) ?n (oad_Digest ?oad) pk = None)
         ?n (pool_entries_of p ?n) p = Inr p'"
      using r True by (auto simp: tryProcessCommitPool_def Let_def split: if_splits elim!: bindG_InrE)
    define st1 where "st1 = og_tick (upd_follower (\<lambda>f. f\<lparr>fs_commitPool := Some p'\<rparr>) st)"
    define qc where "qc = collect_quorum ?q (entries_in_order (oe_order env (og_calls st)) (pool_entries_of p' ?n)) []"
    define cert where "cert = \<lparr>cmt_CommitEpoch = e_of st1, cmt_SeqNr = seqNr_of st1,
      cmt_Outcome = oad_Outcome (outcome_of st1),
      cmt_CommitQuorumCertificate = map (\<lambda>(sig, i). \<lparr>acs_Signature = sig, acs_Signer = i\<rparr>) qc\<rparr>"
    have k1: "keeps env st st1"
      unfolding st1_def by (rule keeps_trans [OF keeps_verified_commits [OF ph p v] keeps_tick])
    have st1: "phase_of st1 = outgenFollowerPhaseSentCommit" "fs_commitPool (og_followerState st1) = Some p'"
        "seqNr_of st1 = ?n"
      using ph by (simp_all add: st1_def)
    have "tryProcessCommitPool env st =
        (if int (length (pool_entries_of p ?n)) < ?q then Inr st
         else if int (length qc) < ?q then Inr st1 else bindG (commit env cert st1) (afterCommit env))"
      by (simp add: tryProcessCommitPool_def Let_def p v [unfolded og_ID_def] ph qc_def cert_def st1_def og_ID_def
          cong: if_cong)
    then consider "st' = st1" | "\<not> int (length qc) < ?q" "bindG (commit env cert st1) (afterCommit env) = Inr st'"
      using r True by (auto split: if_splits)
    then show ?thesis
    proof cases
      case 2
      have c: "og_inv env st1 \<Longrightarrow> cert_valid env (CertCommit cert)"
        using collected_commits [OF env _ st1(1,2), of qc "og_calls st"] 2(1) unfolding cert_def qc_def st1(3) by simp
      have "goP (keeps env st) (bindG (commit env cert st1) (afterCommit env))"
      proof (rule goP_bindI)
        show "goP (\<lambda>s. keeps env st s \<and> (commit_writes_ok s \<longrightarrow> seqNr_of s \<le> committedSeqNr_of s)) (commit env cert st1)"
          by (rule goP_mono [OF keeps_commit [OF c]]) (auto intro: keeps_trans [OF k1] simp: cert_def)
      qed (auto intro: keeps_afterCommit)
      then show ?thesis using 2(2) by simp
    qed (use k1 in simp)
  qed
qed

lemma keeps_messagePrepare:
  assumes "cfg_ok (oe_config env)" "legal_order (oe_order env)"
  shows "goP (keeps env st) (messagePrepare env epoch seqNr sig sender st)"
  unfolding messagePrepare_def Let_def case_prod_beta
  by (cases "fs_preparePool (og_followerState st)")
    (auto intro: goP_keeps_trans [OF keeps_put_prepare keeps_tryProcessPreparePool [OF assms]] keeps_put_prepare)

lemma keeps_messageCommit:
  assumes "cfg_ok (oe_config env)" "legal_order (oe_order env)"
  shows "goP (keeps env st) (messageCommit env epoch seqNr sig sender st)"
  unfolding messageCommit_def Let_def case_prod_beta
  by (cases "fs_commitPool (og_followerState st)")
    (auto intro: goP_keeps_trans [OF keeps_put_commit keeps_tryProcessCommitPool [OF assms]] keeps_put_commit)

section \<open>Every message\<close>

lemma keeps_processOutcomeGeneration:
  assumes "cfg_ok (oe_config env)" "legal_order (oe_order env)"
  shows "goP (keeps env st) (processOutcomeGeneration env msg sender st)"
  using assms
  by (cases msg) (simp_all add: keeps_messageEpochStartRequest keeps_messageEpochStart keeps_messageRoundStart
      keeps_messageObservation keeps_messageProposal keeps_messagePrepare keeps_messageCommit)

end
