(* ===== verification/OutGenReach.thy ===== *)
theory OutGenReach
  imports OutGenInv
begin

text \<open>
  The event loop of outcome generation: buffered messages, new epochs and reachable states.
  The loop of \<open>unbufferMessages\<close> ends for every content of the buffers, and the invariant of
  theory \<open>OutGenInv\<close> holds in every reachable state.
\<close>

section \<open>Buffers\<close>

text \<open>\<open>advances\<close> is \<open>keeps\<close> for steps that may also change the buffers.\<close>

definition advances :: "og_env \<Rightarrow> outcomeGenerationState \<Rightarrow> outcomeGenerationState \<Rightarrow> bool" where
  "advances env st st' \<longleftrightarrow>
     e_of st' = e_of st \<and> progress st st' \<and>
     (og_inv env st \<and> committedSeqNr_of st' < - 1 \<and> commit_writes_ok st' \<longrightarrow> og_inv env st')"

lemma advances_refl [simp]: "advances env st st"
  by (simp add: advances_def)

lemma advances_trans: "advances env a b \<Longrightarrow> advances env b c \<Longrightarrow> advances env a c"
  unfolding advances_def using progress_trans [of a b c] progress_committed [of b c] progress_writes [of b c]
  by (auto intro: order_le_less_trans)

lemma keeps_advances: "keeps env a b \<Longrightarrow> advances env a b"
  by (auto simp: keeps_def og_le_def advances_def)

lemma set_buffer_frame [simp]:
  "og_sharedState (set_buffer i b st) = og_sharedState st"
  "og_followerState (set_buffer i b st) = og_followerState st"
  "og_leaderState (set_buffer i b st) = og_leaderState st"
  "og_log (set_buffer i b st) = og_log st"
  "og_bufferedMessages (set_buffer i b st) = (og_bufferedMessages st)[i := b]"
  by (simp_all add: set_buffer_def)

lemma og_inv_set_buffer [simp]: "og_inv env (set_buffer i b st) = og_inv env st"
  by (simp add: og_inv_def bounds_frame [where st' = "set_buffer i b st" and st = st]
      sig_ok_frame [where st' = "set_buffer i b st" and st = st])

lemma advances_set_buffer [simp]: "advances env st (set_buffer i b st)"
  by (simp add: advances_def progress_def durable_def)

lemma goP_advances: "goP (keeps env st) m \<Longrightarrow> goP (advances env st) m"
  by (erule goP_mono) (rule keeps_advances)

lemma goP_advances_trans: "advances env a b \<Longrightarrow> goP (advances env b) m \<Longrightarrow> goP (advances env a) m"
  using advances_trans by (blast intro: goP_mono)

text \<open>The buffers hold messages: every slot in use is filled.\<close>

definition buffers_ok :: "outcomeGenerationState \<Rightarrow> bool" where
  "buffers_ok st \<longleftrightarrow> (\<forall>b \<in> set (og_bufferedMessages st). rb_ok b)"

lemma buffers_ok_set_buffer: "buffers_ok st \<Longrightarrow> rb_ok b \<Longrightarrow> buffers_ok (set_buffer i b st)"
  using set_update_subset_insert [of "og_bufferedMessages st" i b] by (auto simp: buffers_ok_def)

lemma keeps_buffers: "keeps env a b \<Longrightarrow> og_bufferedMessages b = og_bufferedMessages a"
  by (simp add: keeps_def og_le_def)

text \<open>The inner loop of \<open>unbufferMessages\<close> without fuel: each iteration looks at the oldest
  message of the sender.\<close>

inductive unbuffers ::
  "og_env \<Rightarrow> nat \<Rightarrow> outcomeGenerationState \<Rightarrow> outcomeGenerationState go \<Rightarrow> bool" for env i where
  unb_empty: "go_index (og_bufferedMessages st) i = Inr b \<Longrightarrow> \<not> rb_Length b > 0 \<Longrightarrow> unbuffers env i st (Inr st)"
| unb_later: "go_index (og_bufferedMessages st) i = Inr b \<Longrightarrow> rb_Length b > 0 \<Longrightarrow>
    rb_Peek b = Inr (Some msg) \<Longrightarrow> mog_epoch msg > e_of st \<Longrightarrow> unbuffers env i st (Inr st)"
| unb_stale: "go_index (og_bufferedMessages st) i = Inr b \<Longrightarrow> rb_Length b > 0 \<Longrightarrow>
    rb_Peek b = Inr (Some msg) \<Longrightarrow> mog_epoch msg < e_of st \<Longrightarrow> rb_Pop b = Inr (x, b') \<Longrightarrow>
    unbuffers env i (set_buffer i b' st) r \<Longrightarrow> unbuffers env i st r"
| unb_process: "go_index (og_bufferedMessages st) i = Inr b \<Longrightarrow> rb_Length b > 0 \<Longrightarrow>
    rb_Peek b = Inr (Some msg) \<Longrightarrow> mog_epoch msg = e_of st \<Longrightarrow> rb_Pop b = Inr (x, b') \<Longrightarrow>
    processOutcomeGeneration env msg (of_nat i) (set_buffer i b' st) = Inr st' \<Longrightarrow>
    unbuffers env i st' r \<Longrightarrow> unbuffers env i st r"
| unb_panic: "go_index (og_bufferedMessages st) i = Inr b \<Longrightarrow> rb_Length b > 0 \<Longrightarrow>
    rb_Peek b = Inr (Some msg) \<Longrightarrow> mog_epoch msg = e_of st \<Longrightarrow> rb_Pop b = Inr (x, b') \<Longrightarrow>
    processOutcomeGeneration env msg (of_nat i) (set_buffer i b' st) = Inl p \<Longrightarrow> unbuffers env i st (Inl p)"

lemma rb_ok_front:
  assumes "rb_ok b" "rb_Length b > 0"
  obtains msg b' where "rb_Peek b = Inr (Some msg)" "rb_Pop b = Inr (Some msg, b')" "rb_ok b'"
    "nat (rb_Length b') < nat (rb_Length b)"
proof -
  have ne: "rb_list b \<noteq> []"
    using rb_Length_list [OF assms(1)] assms(2) by (cases "rb_list b = []") (simp_all del: length_rb_list)
  obtain b' where p: "rb_Pop b = Inr (Some (hd (rb_list b)), b')" "rb_ok b'" "rb_list b' = tl (rb_list b)"
    using rb_Pop_list [OF assms(1) ne] by (auto simp: goT_def split: sum.splits)
  show thesis
    by (rule that [OF rb_Peek_list [OF assms(1) ne] p(1,2)])
      (use ne p(3) in \<open>simp add: rb_Length_list [OF assms(1)] rb_Length_list [OF p(2)] del: length_rb_list\<close>)
qed

lemma go_index_Inr: "i < length xs \<Longrightarrow> go_index xs i = Inr (xs ! i)"
  by (rule go_index_in)

text \<open>Given fuel for every buffered message of the sender, the loop is the one without fuel.\<close>

lemma unbuffer_loop_run:
  assumes env: "cfg_ok (oe_config env)" "legal_order (oe_order env)"
  shows "i < length (og_bufferedMessages st) \<Longrightarrow> buffers_ok st \<Longrightarrow>
    nat (rb_Length (og_bufferedMessages st ! i)) < fuel \<Longrightarrow>
    unbuffers env i st (unbuffer_loop env i fuel st)"
proof (induction fuel arbitrary: st)
  case (Suc fuel)
  let ?b = "og_bufferedMessages st ! i"
  have idx: "go_index (og_bufferedMessages st) i = Inr ?b" using Suc.prems(1) by (rule go_index_in)
  have ok: "rb_ok ?b" using Suc.prems(1,2) by (auto simp: buffers_ok_def)
  show ?case
  proof (cases "rb_Length ?b > 0")
    case False
    then show ?thesis using idx unb_empty [OF idx] by simp
  next
    case True
    obtain msg b' where pk: "rb_Peek ?b = Inr (Some msg)" and pp: "rb_Pop ?b = Inr (Some msg, b')"
      and ok': "rb_ok b'" and less: "nat (rb_Length b') < nat (rb_Length ?b)"
      using rb_ok_front [OF ok True] by blast
    let ?st = "set_buffer i b' st"
    have st: "i < length (og_bufferedMessages ?st)" "buffers_ok ?st"
      "nat (rb_Length (og_bufferedMessages ?st ! i)) < fuel"
      using Suc.prems less buffers_ok_set_buffer [OF _ ok'] by auto
    consider "mog_epoch msg < e_of st" | "mog_epoch msg = e_of st" | "mog_epoch msg > e_of st" by fastforce
    then show ?thesis
    proof cases
      case 1
      then show ?thesis using unb_stale [OF idx True pk 1 pp Suc.IH [OF st]] idx True pk pp by simp
    next
      case 2
      show ?thesis
      proof (cases "processOutcomeGeneration env msg (of_nat i) ?st")
        case (Inl p)
        then show ?thesis using unb_panic [OF idx True pk 2 pp Inl] idx True pk pp 2 by simp
      next
        case (Inr st')
        have "og_bufferedMessages st' = og_bufferedMessages ?st"
          using keeps_processOutcomeGeneration [OF env, of ?st msg "of_nat i"] Inr by (auto dest: keeps_buffers)
        then have "unbuffers env i st' (unbuffer_loop env i fuel st')"
          using st by (intro Suc.IH) (auto simp: buffers_ok_def)
        then show ?thesis using unb_process [OF idx True pk 2 pp Inr] idx True pk pp 2 Inr by simp
      qed
    next
      case 3
      then have "\<not> mog_epoch msg < e_of st" "mog_epoch msg \<noteq> e_of st" by auto
      then show ?thesis using unb_later [OF idx True pk 3] idx True pk by simp
    qed
  qed
qed simp


lemma advances_unbuffer_loop:
  assumes env: "cfg_ok (oe_config env)" "legal_order (oe_order env)"
  shows "goP (advances env st) (unbuffer_loop env i fuel st)"
proof (induction fuel arbitrary: st)
  case (Suc fuel)
  have p: "goP (advances env st) (bindG (processOutcomeGeneration env msg (of_nat i) (set_buffer i b st))
      (unbuffer_loop env i fuel))" for msg b
  proof (rule goP_bindI)
    show "goP (advances env st) (processOutcomeGeneration env msg (of_nat i) (set_buffer i b st))"
      by (rule goP_advances_trans [OF advances_set_buffer goP_advances [OF keeps_processOutcomeGeneration [OF env]]])
  qed (rule goP_advances_trans [OF _ Suc.IH])
  have q: "goP (advances env st) (unbuffer_loop env i fuel (set_buffer i b st))" for b
    by (rule goP_advances_trans [OF advances_set_buffer Suc.IH])
  show ?case
    unfolding unbuffer_loop.simps case_prod_beta by (auto intro!: goP_bindI [where Q = "\<lambda>_. True"] p q)
qed simp

lemma advances_unbufferMessages:
  assumes env: "cfg_ok (oe_config env)" "legal_order (oe_order env)"
  shows "goP (advances env st) (unbufferMessages env st)"
proof -
  have "goP (advances env st) (unbuffer_from env is st)" for "is"
  proof (induction "is" arbitrary: st)
    case (Cons i "is")
    show ?case
      unfolding unbuffer_from.simps
      by (rule goP_bindI [OF advances_unbuffer_loop [OF env] goP_advances_trans [OF _ Cons.IH]])
  qed simp
  then show ?thesis by (simp add: unbufferMessages_def)
qed

lemma advances_messageToOutcomeGeneration:
  assumes env: "cfg_ok (oe_config env)" "legal_order (oe_order env)"
  shows "goP (advances env st) (messageToOutcomeGeneration env msg sender st)"
  unfolding messageToOutcomeGeneration_def
  using goP_advances [OF keeps_processOutcomeGeneration [OF env]]
  by (auto intro!: goP_bindI [where Q = "\<lambda>_. True"])

section \<open>A new epoch\<close>

text \<open>\<open>og_grows\<close> relates the states before and after any step.\<close>

definition og_grows :: "og_env \<Rightarrow> outcomeGenerationState \<Rightarrow> outcomeGenerationState \<Rightarrow> bool" where
  "og_grows env st st' \<longleftrightarrow>
     progress st st' \<and>
     (og_inv env st \<and> committedSeqNr_of st' < - 1 \<and> commit_writes_ok st' \<longrightarrow> og_inv env st')"

lemma og_grows_refl [simp]: "og_grows env st st"
  by (simp add: og_grows_def)

lemma og_grows_trans: "og_grows env a b \<Longrightarrow> og_grows env b c \<Longrightarrow> og_grows env a c"
  unfolding og_grows_def using progress_trans [of a b c] progress_committed [of b c] progress_writes [of b c]
  by (auto intro: order_le_less_trans)

lemma advances_grows: "advances env a b \<Longrightarrow> og_grows env a b"
  by (auto simp: advances_def og_grows_def)

lemma verified_ok_NewPool: "0 \<le> n \<Longrightarrow> verified_ok s b ok (Some (NewPool n))"
  by (simp add: verified_ok_def pool_ok_NewPool)

text \<open>A later epoch starts with nothing signed in it and empty pools.\<close>

lemma og_grows_resetForEpoch:
  assumes "e_of st < epoch"
  shows "og_grows env st (resetForEpoch env epoch l st)"
proof -
  let ?st = "resetForEpoch env epoch l st"
  have st: "e_of ?st = epoch" "seqNr_of ?st = 0" "committedSeqNr_of ?st = committedSeqNr_of st" "og_log ?st = og_log st"
    "phase_of ?st = outgenFollowerPhaseNewEpoch" "fs_preparePool (og_followerState ?st) = Some (NewPool poolSize)"
    "fs_commitPool (og_followerState ?st) = Some (NewPool poolSize)"
    "fs_proposalPool (og_followerState ?st) = Some (NewPool poolSize)"
    "fs_cert (og_followerState ?st) = fs_cert (og_followerState st)" "committedOutcome_of ?st = committedOutcome_of st"
    by (simp_all add: resetForEpoch_def Let_def)
  have "og_inv env ?st" if inv: "og_inv env st"
  proof -
    have b: "prepares_bound env st" "commits_bound env st" "signs_once st" using inv by (auto simp: og_inv_def)
    have late: "x \<le> e_of st \<Longrightarrow> x \<le> epoch \<and> x \<noteq> epoch" for x using assms by auto
    have "prepares_bound env ?st" using b(1) late unfolding prepares_bound_def st by blast
    moreover have "commits_bound env ?st" using b(2) late unfolding commits_bound_def st by blast
    moreover have "signs_once ?st" using b(3) unfolding signs_once_def st .
    ultimately show ?thesis
      using inv unfolding og_inv_def st
      by (simp add: verified_ok_NewPool proposals_ok_def poolSize_def)
  qed
  then show ?thesis using st by (simp add: og_grows_def progress_def durable_def)
qed

lemma advances_eventNewEpochStart:
  assumes env: "cfg_ok (oe_config env)" "legal_order (oe_order env)"
    and r: "eventNewEpochStart env epoch st = Inr st'"
  obtains l where "advances env (resetForEpoch env epoch l st) st'"
proof -
  obtain l where l: "og_Leader env epoch = Inr l" using r by (auto simp: eventNewEpochStart_def elim!: bindG_InrE)
  define st1 where "st1 = resetForEpoch env epoch l st"
  define t where "t = cert_Timestamp (fs_cert (og_followerState st1))"
  define s where "s = og_sign env (SignedTimestampData (og_ID env st1) t)
     (MakeSignedHighestCertifiedTimestamp (oe_crypto env) (og_ID env st1) t) st1"
  have k2: "keeps env st1 (snd s)" unfolding s_def by (rule keeps_sign) simp
  have k3: "keeps env st1 (og_emit (OgSendTo (MessageEpochStartRequest e (fs_cert (og_followerState st1)) shct) l') (snd s))"
    for e shct l'
    by (rule keeps_trans [OF k2 keeps_emit_inv], drule og_inv_cert) (simp_all add: s_def)
  have k4: "keeps env st1 (upd_leader f (og_emit (OgSendTo (MessageEpochStartRequest e (fs_cert (og_followerState st1)) shct) l') (snd s)))"
    for e shct l' f
    by (rule keeps_trans [OF k3 keeps_upd_leader])
  note u = advances_unbufferMessages [OF env]
  have "goP (advances env st1) (eventNewEpochStart env epoch st)"
    using k2 goP_advances_trans [OF keeps_advances [OF k3] u] goP_advances_trans [OF keeps_advances [OF k4] u]
    by (auto simp: eventNewEpochStart_def l Let_def st1_def [symmetric] t_def [symmetric] s_def [symmetric]
        case_prod_beta keeps_advances split: option.splits)
  then show ?thesis using that [of l] r by (simp add: st1_def)
qed

lemma og_grows_eventNewEpochStart:
  assumes env: "cfg_ok (oe_config env)" "legal_order (oe_order env)" and e: "e_of st < epoch"
  shows "goP (og_grows env st) (eventNewEpochStart env epoch st)"
proof (rule goPI)
  fix st' assume "eventNewEpochStart env epoch st = Inr st'"
  then show "og_grows env st st'"
    by (rule advances_eventNewEpochStart [OF env]) (blast intro: og_grows_trans og_grows_resetForEpoch [OF e] advances_grows)
qed

section \<open>Reachable states\<close>

lemma og_process_grows:
  assumes env: "cfg_ok (oe_config env)" "legal_order (oe_order env)"
    and adm: "og_admissible st c"
  shows "goP (og_grows env st) (og_process env c st)"
proof -
  have k: "goP (og_grows env st) m" if "goP (keeps env st) m" for m
    using that by (rule goP_mono) (auto intro: advances_grows keeps_advances)
  have u: "keeps env st (upd_leader f st)" for f by simp
  show ?thesis
  proof (cases c)
    case (OgMessage msg sender)
    then show ?thesis
      using goP_mono [OF advances_messageToOutcomeGeneration [OF env] advances_grows] by simp
  next
    case (OgEvent ev)
    then show ?thesis using adm og_grows_eventNewEpochStart [OF env] by (cases ev) simp
  next
    case OgTInitial
    then show ?thesis by (auto intro!: k goP_keeps_trans [OF _ keeps_eventTInitialTimeout])
  next
    case OgTGrace
    then show ?thesis using goP_keeps_trans [OF u keeps_eventTGraceTimeout] by (auto intro!: k)
  next
    case OgTRound
    then show ?thesis
      using goP_keeps_trans [OF u keeps_startSubsequentLeaderRound]
      by (auto intro!: k simp: eventTRoundTimeout_def)
  qed
qed

text \<open>Progress does not depend on the epochs that the pacemaker announces.\<close>

lemma og_process_progress:
  assumes env: "cfg_ok (oe_config env)" "legal_order (oe_order env)" and r: "og_process env c st = Inr st'"
  shows "progress st st'"
proof (cases "og_admissible st c")
  case True
  then show ?thesis using og_process_grows [OF env True] r by (auto dest: goP_D simp: og_grows_def)
next
  case False
  then obtain epoch where c: "c = OgEvent (EventNewEpochStart epoch)" by (cases "(st, c)" rule: og_admissible.cases) auto
  then have e: "eventNewEpochStart env epoch st = Inr st'" using r by simp
  have reset: "progress st (resetForEpoch env epoch l st)" for l
    by (simp add: progress_def durable_def resetForEpoch_def Let_def)
  show ?thesis
    by (rule advances_eventNewEpochStart [OF env e]) (auto simp: advances_def intro: progress_trans [OF reset])
qed

lemma og_inv_init: "og_init env cert = Inr st \<Longrightarrow> cert_valid env cert \<Longrightarrow> og_inv env st"
  by (auto simp: og_init_def og_inv_def prepares_bound_def commits_bound_def signs_once_def
      verified_ok_def proposals_ok_def elim!: bindG_InrE)

text \<open>The invariant holds as long as no write of a commit certificate has failed.\<close>

lemma og_reach_inv:
  assumes "og_reach env cert st"
    and env: "cfg_ok (oe_config env)" "legal_order (oe_order env)"
    and cert: "cert_valid env cert"
  shows "commit_writes_ok st \<Longrightarrow> og_inv env st"
  using assms(1)
proof (induction rule: og_reach.induct)
  case (og_reach_init st)
  then show ?case using og_inv_init cert by blast
next
  case (og_reach_step st c st')
  then have "og_process env c st = Inr st'" by (auto elim: og_stepE)
  then have "og_grows env st st'" using og_process_grows [OF env og_reach_step.hyps(2)] by (auto dest: goP_D)
  then show ?case using og_reach_step progress_writes [of st st'] by (simp add: og_grows_def)
qed

text \<open>Whatever fails, committed outcomes are durable.\<close>

lemma og_reach_durable:
  assumes "og_reach env cert st"
    and env: "cfg_ok (oe_config env)" "legal_order (oe_order env)"
  shows "durable st"
  using assms(1)
proof (induction rule: og_reach.induct)
  case (og_reach_init st)
  then show ?case
    by (auto simp: og_init_def durable_def durable_log_def announced_written_def elim!: bindG_InrE)
next
  case (og_reach_step st c st')
  then have "og_process env c st = Inr st'" by (auto elim: og_stepE)
  then have "og_grows env st st'" using og_process_grows [OF env og_reach_step.hyps(2)] by (auto dest: goP_D)
  then show ?case using og_reach_step.IH by (simp add: og_grows_def progress_def)
qed

end
