(* ===== verification/OutGenAgreement.thy ===== *)
theory OutGenAgreement
  imports OutGenReach
begin

text \<open>
  Agreement: what the oracles of an instance may conclude from each other's certificates. The
  correct oracles run outcome generation in reachable states, the faulty ones sign what they
  like.
\<close>

section \<open>Signatures of correct oracles\<close>

fun signed_bytes :: "crypto \<Rightarrow> signed_data \<Rightarrow> bytes" where
  "signed_bytes C (SignedObservationData ogid s q ob) = signedObservationMsg C ogid s q ob"
| "signed_bytes C (SignedPrepareData ogid s i d) = prepareSignatureMsg C ogid s i d"
| "signed_bytes C (SignedCommitData ogid s d) = commitSignatureMsg C ogid s d"
| "signed_bytes C (SignedTimestampData ogid t) = signedHighestCertifiedTimestampMsg C ogid t"

text \<open>
  Unforgeability, of one oracle's key: a commit message of this configuration that verifies
  under the oracle's key is among the messages the oracle has signed.
\<close>

definition commits_unforged :: "crypto \<Rightarrow> SharedConfig \<Rightarrow> OracleID \<Rightarrow> outcomeGenerationState \<Rightarrow> bool" where
  "commits_unforged C cfg i st \<longleftrightarrow>
     (\<forall>ogid s d sig. ogid_ConfigDigest ogid = cfg_ConfigDigest cfg \<longrightarrow>
        ed25519_Verify C (oi_OffchainPublicKey (cfg_OracleIdentities cfg ! unat i)) (commitSignatureMsg C ogid s d) sig \<longrightarrow>
        (\<exists>x. OgSigned x \<in> set (og_log st) \<and> signed_bytes C x = commitSignatureMsg C ogid s d))"

lemma ogid_eta: "ogid = \<lparr>ogid_ConfigDigest = ogid_ConfigDigest ogid, ogid_Epoch = ogid_Epoch ogid\<rparr>"
  by simp

lemma verified_commit_signed:
  assumes "collision_free C" "commits_unforged C cfg i st" "og_inv env st" "oe_config env = cfg"
    and "ogid = \<lparr>ogid_ConfigDigest = cfg_ConfigDigest cfg, ogid_Epoch = e\<rparr>"
    and "ed25519_Verify C (oi_OffchainPublicKey (cfg_OracleIdentities cfg ! unat i)) (commitSignatureMsg C ogid s d) sig"
  shows "OgSigned (SignedCommitData ogid s d) \<in> set (og_log st)"
proof -
  obtain x where x: "OgSigned x \<in> set (og_log st)" "signed_bytes C x = commitSignatureMsg C ogid s d"
    using assms(2) [unfolded commits_unforged_def, rule_format, OF _ assms(6)] by (auto simp: assms(5))
  note disj = signed_messages_disjoint [OF assms(1)]
  show ?thesis
  proof (cases x)
    case (SignedCommitData ogid' s' d')
    have "ogid_ConfigDigest ogid' = cfg_ConfigDigest cfg"
      using assms(3,4) x(1) unfolding SignedCommitData og_inv_def commits_bound_def by blast
    then have eq: "ogid' = \<lparr>ogid_ConfigDigest = cfg_ConfigDigest cfg, ogid_Epoch = ogid_Epoch ogid'\<rparr>" by simp
    then have "ogid' = ogid \<and> s' = s \<and> d' = d"
      using x(2) commitSignatureMsg_inj [OF assms(1), of "cfg_ConfigDigest cfg" "ogid_Epoch ogid'" s' d' e s d]
      by (simp add: SignedCommitData assms(5))
    then show ?thesis using x(1) SignedCommitData by simp
  next
    case (SignedObservationData og s' q ob)
    then show ?thesis using x(2) disj(2) [of og s' q ob ogid s d] by simp
  next
    case (SignedPrepareData og s' i' d')
    then show ?thesis using x(2) disj(1) [of og s' i' d' ogid s d] by simp
  next
    case (SignedTimestampData og t)
    then show ?thesis using x(2) disj(6) [of ogid s d og t] by simp
  qed
qed

text \<open>A correct oracle: reachable, with a legal environment, its key not abused, and none of its writes of
  commit certificates has failed.\<close>

definition correct_oracle ::
  "crypto \<Rightarrow> SharedConfig \<Rightarrow> OracleID \<Rightarrow> og_env \<Rightarrow> CertifiedPrepareOrCommit \<Rightarrow> outcomeGenerationState \<Rightarrow> bool" where
  "correct_oracle C cfg i env cert st \<longleftrightarrow>
     oe_crypto env = C \<and> oe_config env = cfg \<and> legal_order (oe_order env) \<and>
     cert_valid env cert \<and> og_reach env cert st \<and> commit_writes_ok st \<and> commits_unforged C cfg i st"

lemma correct_oracle_inv:
  "cfg_ok cfg \<Longrightarrow> correct_oracle C cfg i env cert st \<Longrightarrow>
     og_inv env st \<and> oe_config env = cfg \<and> commits_unforged C cfg i st"
  using og_reach_inv [of env cert st] by (auto simp: correct_oracle_def)

text \<open>C1: Agreement on outcomes. Two accepted commit certificates for the same epoch and sequence
  number have the same outcome, when at most \<open>F\<close> oracles are faulty: every other oracle is in a
  reachable state of outcome generation (whatever messages, timeouts and plugin answers led to
  it), none of its writes of commit certificates to the database has failed so far, and its signatures are
  not forged.\<close>

theorem committed_outcomes_agree:
  assumes "cfg_ok cfg" "collision_free C" "card faulty \<le> nat (cfg_F cfg)"
    and "\<And>i. i \<notin> faulty \<Longrightarrow> unat i < length (cfg_OracleIdentities cfg) \<Longrightarrow>
           correct_oracle C cfg i (env i) (cert i) (st i)"
    and "commit_accepted C cfg c" "commit_accepted C cfg c'"
    and "cmt_CommitEpoch c = cmt_CommitEpoch c'" "cmt_SeqNr c = cmt_SeqNr c'"
  shows "cmt_Outcome c = cmt_Outcome c'"
proof -
  obtain i where i: "i \<in> set (map acs_Signer (cmt_CommitQuorumCertificate c))"
      "i \<in> set (map acs_Signer (cmt_CommitQuorumCertificate c'))" "i \<notin> faulty"
    using cqc.common_correct_signer [OF assms(1,5,6,3)] by auto
  have n: "unat i < length (cfg_OracleIdentities cfg)" by (rule cqc.known_signers [OF assms(5) i(1)])
  have inv: "og_inv (env i) (st i)" "oe_config (env i) = cfg" "commits_unforged C cfg i (st i)"
    using correct_oracle_inv [OF assms(1) assms(4) [OF i(3) n]] by auto
  let ?ogid = "\<lparr>ogid_ConfigDigest = cfg_ConfigDigest cfg, ogid_Epoch = cmt_CommitEpoch c\<rparr>"
  note sgn = verified_commit_signed [OF assms(2) inv(3,1,2) refl]
  have "OgSigned (SignedCommitData ?ogid (cmt_SeqNr c) (MakeOutcomeDigest C (cmt_Outcome c))) \<in> set (og_log (st i))"
    using cqc.signed [OF assms(5) i(1)] sgn unfolding commit_message_def by blast
  moreover have "OgSigned (SignedCommitData ?ogid (cmt_SeqNr c) (MakeOutcomeDigest C (cmt_Outcome c'))) \<in> set (og_log (st i))"
    using cqc.signed [OF assms(6) i(2)] sgn unfolding commit_message_def assms(7,8) by blast
  ultimately have "MakeOutcomeDigest C (cmt_Outcome c) = MakeOutcomeDigest C (cmt_Outcome c')"
    using inv(1) unfolding og_inv_def signs_once_def by blast
  then show ?thesis by (simp add: MakeOutcomeDigest_def collision_freeD [OF assms(2)])
qed


text \<open>A run of a single-oracle instance (\<open>N = 1\<close>, \<open>F = 0\<close>) that signs a commit: it joins epoch 1,
  accepts an epoch start that re-proposes a prepared outcome, and receives its own prepare.\<close>

definition solo_config :: SharedConfig where
  "solo_config = example_config\<lparr>cfg_OracleIdentities := [\<lparr>oi_OffchainPublicKey = replicate 32 1, oi_OnchainPublicKey = [1],
      oi_PeerID = [], oi_TransmitAccount = []\<rparr>], cfg_F := 0\<rparr>"

definition solo_ogid :: "u64 \<Rightarrow> OutcomeGenerationID" where
  "solo_ogid e = \<lparr>ogid_ConfigDigest = cfg_ConfigDigest solo_config, ogid_Epoch = e\<rparr>"

definition solo_signed :: "signed_data list" where
  "solo_signed =
     [SignedPrepareData (solo_ogid 0) 1 zero_digest [5], SignedPrepareData (solo_ogid 1) 1 zero_digest [5],
      SignedCommitData (solo_ogid 1) 1 [5],
      SignedTimestampData (solo_ogid 1) \<lparr>hct_SeqNr = 1, hct_CommittedElsePrepared = False\<rparr>]"

definition solo_crypto :: crypto where
  "solo_crypto = \<lparr>sha256 = (\<lambda>x. x),
     ed25519_Verify = (\<lambda>pk msg sig. msg \<in> set (map (signed_bytes accept_all) solo_signed))\<rparr>"

definition solo_env :: og_env where
  "solo_env = \<lparr>oe_crypto = solo_crypto, oe_aesctr = (\<lambda>_ _. 0), oe_config = solo_config, oe_id = 0,
     oe_OffchainPublicKey = replicate 32 1, oe_sign = (\<lambda>_ _. Some []), oe_WriteCert = (\<lambda>_. True),
     oe_order = (\<lambda>_ ks. ks), oe_done = (\<lambda>_. False), oe_Query = (\<lambda>_ _. Some []),
     oe_Observation = (\<lambda>_ _ _. Some []), oe_ObservationQuorum = (\<lambda>_ _. Some 1),
     oe_ValidateObservation = (\<lambda>_ _ _. True), oe_Outcome = (\<lambda>_ _ _. Some [5])\<rparr>"

definition solo_proof :: EpochStartProof where
  "solo_proof =
     \<lparr>esp_HighestCertified = CertPrepare \<lparr>cp_PrepareEpoch = 0, cp_SeqNr = 1, cp_OutcomeInputsDigest = zero_digest,
        cp_Outcome = [5], cp_PrepareQuorumCertificate = [\<lparr>aps_Signature = [], aps_Signer = 0\<rparr>]\<rparr>,
      esp_HighestCertifiedProof = [\<lparr>ashct_SignedHighestCertifiedTimestamp =
         \<lparr>shct_HighestCertifiedTimestamp = \<lparr>hct_SeqNr = 1, hct_CommittedElsePrepared = False\<rparr>, shct_Signature = []\<rparr>,
         ashct_Signer = 0\<rparr>]\<rparr>"

definition genesis_cert :: CertifiedPrepareOrCommit where
  "genesis_cert = CertCommit \<lparr>cmt_CommitEpoch = 0, cmt_SeqNr = 0, cmt_Outcome = [], cmt_CommitQuorumCertificate = []\<rparr>"

fun og_run :: "og_env \<Rightarrow> og_case list \<Rightarrow> outcomeGenerationState \<Rightarrow> outcomeGenerationState go" where
  "og_run env [] st = Inr st"
| "og_run env (c # cs) st =
     (if og_admissible st c \<and> og_ready st c
      then bindG (og_process env c st) (\<lambda>st'. if committedSeqNr_of st' < - 1 then og_run env cs st' else Inl NoReturn)
      else Inl NoReturn)"

lemma og_run_reach: "og_reach env cert st \<Longrightarrow> og_run env cs st = Inr st' \<Longrightarrow> og_reach env cert st'"
proof (induction env cs st rule: og_run.induct)
  case (2 env c cs st)
  obtain x where x: "og_admissible st c" "og_ready st c" "og_process env c st = Inr x" "committedSeqNr_of x < - 1"
      "og_run env cs x = Inr st'"
    using "2.prems"(2) by (auto split: if_splits elim!: bindG_InrE)
  have "og_reach env cert x"
    by (rule og_reach_step [OF "2.prems"(1) x(1) og_step.intros [OF x(2,3)] x(4)])
  then show ?case using "2.IH" x by blast
qed simp

definition solo_run :: "outcomeGenerationState go" where
  "solo_run = bindG (og_init solo_env genesis_cert) (og_run solo_env
     [OgEvent (EventNewEpochStart 1), OgMessage (MessageEpochStart 1 solo_proof) 0, OgMessage (MessagePrepare 1 1 []) 0])"

lemma solo_config_ok: "cfg_ok solo_config"
  by (simp add: cfg_ok_def solo_config_def example_config_def MaxOracles_def cfg_N_def)

lemma solo_collision_free: "collision_free solo_crypto"
  by (simp add: collision_free_def solo_crypto_def)

lemma solo_genesis: "cert_valid solo_env genesis_cert"
  by (simp add: cert_valid_def genesis_cert_def CertifiedCommit_Verify_def CertifiedCommit_IsGenesis_def)

lemma solo_run_signs:
  "case solo_run of Inl p \<Rightarrow> False
   | Inr st \<Rightarrow> OgSigned (SignedCommitData (solo_ogid 1) 1 [5]) \<in> set (og_log st) \<and> commit_writes_ok st"
  by code_simp

lemma solo_run_reach: "solo_run = Inr st \<Longrightarrow> og_reach solo_env genesis_cert st"
  unfolding solo_run_def by (auto elim!: bindG_InrE simp del: og_run.simps intro: og_run_reach og_reach_init)

lemma solo_reach:
  obtains st where "og_reach solo_env genesis_cert st" "OgSigned (SignedCommitData (solo_ogid 1) 1 [5]) \<in> set (og_log st)"
    "commit_writes_ok st"
  using solo_run_signs solo_run_reach by (auto split: sum.splits)

lemma solo_messages:
  "prepareSignatureMsg C ogid s i d = prepareSignatureMsg accept_all ogid s i d"
  "commitSignatureMsg C ogid s d = commitSignatureMsg accept_all ogid s d"
  "signedHighestCertifiedTimestampMsg C ogid t = signedHighestCertifiedTimestampMsg accept_all ogid t"
  if "sha256 C = (\<lambda>x. x)"
  using that by (simp_all add: signed_msg_defs ocr3DomainSeparatedSum_def accept_all_def)

lemma solo_unforged:
  assumes "OgSigned (SignedCommitData (solo_ogid 1) 1 [5]) \<in> set (og_log st)"
  shows "commits_unforged solo_crypto solo_config i st"
proof -
  have id: "sha256 solo_crypto = (\<lambda>x. x)" by (simp add: solo_crypto_def)
  have cf: "collision_free accept_all" by (simp add: collision_free_def accept_all_def)
  note msgs = solo_messages [OF id]
  have eq: "commitSignatureMsg solo_crypto (solo_ogid 1) 1 [5] = commitSignatureMsg solo_crypto ogid s d"
    if v: "ed25519_Verify solo_crypto pk (commitSignatureMsg solo_crypto ogid s d) sig" for ogid s d pk sig
  proof -
    have "commitSignatureMsg accept_all ogid s d \<in> set (map (signed_bytes accept_all) solo_signed)"
      using v unfolding msgs(2) by (simp add: solo_crypto_def)
    then show ?thesis
      unfolding msgs(2)
      by (auto simp: solo_signed_def signed_messages_disjoint(6) [OF cf]
          signed_messages_disjoint(1) [OF cf, THEN not_sym])
  qed
  show ?thesis
    unfolding commits_unforged_def
  proof (intro allI impI)
    fix ogid s d sig
    assume "ed25519_Verify solo_crypto (oi_OffchainPublicKey (cfg_OracleIdentities solo_config ! unat i))
      (commitSignatureMsg solo_crypto ogid s d) sig"
    then show "\<exists>x. OgSigned x \<in> set (og_log st) \<and> signed_bytes solo_crypto x = commitSignatureMsg solo_crypto ogid s d"
      by (intro exI [of _ "SignedCommitData (solo_ogid 1) 1 [5]"] conjI assms) (simp add: eq)
  qed
qed

definition solo_commit :: "bytes \<Rightarrow> CertifiedCommit" where
  "solo_commit sig = \<lparr>cmt_CommitEpoch = 1, cmt_SeqNr = 1, cmt_Outcome = [5],
     cmt_CommitQuorumCertificate = [\<lparr>acs_Signature = sig, acs_Signer = 0\<rparr>]\<rparr>"

lemma solo_commit_accepted: "commit_accepted solo_crypto solo_config (solo_commit [1])"
  "commit_accepted solo_crypto solo_config (solo_commit [2])"
  by code_simp+

theorem committed_outcomes_agree_witness:
  "cmt_Outcome (solo_commit [1]) = cmt_Outcome (solo_commit [2]) \<and> commit_accepted solo_crypto solo_config (solo_commit [1])"
proof -
  obtain st where st: "og_reach solo_env genesis_cert st"
      "OgSigned (SignedCommitData (solo_ogid 1) 1 [5]) \<in> set (og_log st)" "commit_writes_ok st"
    by (rule solo_reach)
  have "correct_oracle solo_crypto solo_config i solo_env genesis_cert st" for i
    using st solo_unforged [OF st(2)] solo_genesis legal_order_id
    by (simp add: correct_oracle_def) (simp add: solo_env_def)
  then have "cmt_Outcome (solo_commit [1]) = cmt_Outcome (solo_commit [2])"
    by (intro committed_outcomes_agree [OF solo_config_ok solo_collision_free _ _ solo_commit_accepted,
        where faulty = "{}" and env = "\<lambda>_. solo_env" and cert = "\<lambda>_. genesis_cert" and st = "\<lambda>_. st"])
      (simp_all add: solo_commit_def)
  then show ?thesis using solo_commit_accepted by simp
qed

section \<open>What one oracle signs and hands out\<close>

text \<open>C2: No equivocation while certificates can be stored. Whatever messages, timeouts and plugin answers an
  oracle gets in epochs of increasing numbers, it signs at most one prepare message and at most one commit
  message per epoch and sequence number, in every run in which no write of a commit certificate to the database
  has failed yet; other writes may have failed. The condition is needed (\<open>failed_commit_write_signs_twice\<close>).\<close>

theorem oracle_never_equivocates:
  assumes "og_reach env cert st" "cfg_ok (oe_config env)" "legal_order (oe_order env)"
    and "cert_valid env cert" "commit_writes_ok st"
  shows "(OgSigned (SignedPrepareData ogid s i d) \<in> set (og_log st) \<longrightarrow>
          OgSigned (SignedPrepareData ogid s i' d') \<in> set (og_log st) \<longrightarrow> i = i' \<and> d = d') \<and>
         (OgSigned (SignedCommitData ogid s d) \<in> set (og_log st) \<longrightarrow>
          OgSigned (SignedCommitData ogid s d') \<in> set (og_log st) \<longrightarrow> d = d')"
  using og_reach_inv [OF assms] unfolding og_inv_def signs_once_def by blast

lemma solo_env_legal: "cfg_ok (oe_config solo_env)" "legal_order (oe_order solo_env)"
  using solo_config_ok legal_order_id by (simp_all add: solo_env_def)

theorem oracle_never_equivocates_witness:
  "\<exists>st :: outcomeGenerationState. OgSigned (SignedCommitData (solo_ogid 1) 1 [5]) \<in> set (og_log st) \<and>
     OgSigned (SignedCommitData (solo_ogid 1) 1 [6]) \<notin> set (og_log st)"
proof -
  obtain st where st: "og_reach solo_env genesis_cert st"
      "OgSigned (SignedCommitData (solo_ogid 1) 1 [5]) \<in> set (og_log st)" "commit_writes_ok st"
    by (rule solo_reach)
  then have "OgSigned (SignedCommitData (solo_ogid 1) 1 [6]) \<notin> set (og_log st)"
    using oracle_never_equivocates [OF st(1) solo_env_legal solo_genesis st(3), of "solo_ogid 1" 1 "[]" "[5]" "[]" "[6]"] by auto
  then show ?thesis using st(2) by blast
qed

text \<open>C3: Only valid certificates leave outcome generation: every committed outcome it announces to
  report attestation, every certificate it writes to the database, sends with an epoch start
  request or broadcasts in an epoch start proof passes the verification of its kind, in every run in which no
  write of a commit certificate has failed yet.\<close>

theorem only_valid_certificates_leave:
  assumes "og_reach env cert st" "cfg_ok (oe_config env)" "legal_order (oe_order env)"
    and "cert_valid env cert" "commit_writes_ok st"
  shows "(OgToReportAttestation (EventCommittedOutcome cc) \<in> set (og_log st) \<longrightarrow> cert_valid env (CertCommit cc)) \<and>
     (OgWriteCert c ok \<in> set (og_log st) \<longrightarrow> cert_valid env c) \<and>
     (OgSendTo (MessageEpochStartRequest e c shct) l \<in> set (og_log st) \<longrightarrow> cert_valid env c) \<and>
     (OgBroadcast (MessageEpochStart e esp) \<in> set (og_log st) \<longrightarrow> cert_valid env (esp_HighestCertified esp))"
  using og_reach_inv [OF assms] unfolding og_inv_def by (auto dest: bspec)

lemma solo_run_writes:
  "case solo_run of Inl p \<Rightarrow> False | Inr st \<Rightarrow>
     OgWriteCert (CertPrepare \<lparr>cp_PrepareEpoch = 1, cp_SeqNr = 1, cp_OutcomeInputsDigest = zero_digest, cp_Outcome = [5],
       cp_PrepareQuorumCertificate = [\<lparr>aps_Signature = [], aps_Signer = 0\<rparr>]\<rparr>) True \<in> set (og_log st) \<and> commit_writes_ok st"
  by code_simp

theorem only_valid_certificates_leave_witness:
  "cert_valid solo_env (CertPrepare \<lparr>cp_PrepareEpoch = 1, cp_SeqNr = 1, cp_OutcomeInputsDigest = zero_digest,
     cp_Outcome = [5], cp_PrepareQuorumCertificate = [\<lparr>aps_Signature = [], aps_Signer = 0\<rparr>]\<rparr>)"
proof -
  obtain st where st: "og_reach solo_env genesis_cert st"
      "OgWriteCert (CertPrepare \<lparr>cp_PrepareEpoch = 1, cp_SeqNr = 1, cp_OutcomeInputsDigest = zero_digest, cp_Outcome = [5],
       cp_PrepareQuorumCertificate = [\<lparr>aps_Signature = [], aps_Signer = 0\<rparr>]\<rparr>) True \<in> set (og_log st)"
      "commit_writes_ok st"
    using solo_run_writes solo_run_reach by (auto split: sum.splits)
  then show ?thesis
    using only_valid_certificates_leave [OF st(1) solo_env_legal solo_genesis st(3)] st(2) by blast
qed

text \<open>C4: Committed outcomes are durable, whichever database writes fail. In every reachable state, report
  attestation has been told of outcomes in strictly increasing order of their sequence numbers, none twice and
  none above the committed one, each after its commit certificate was written to the database; and the committed
  sequence number and outcome are those of a certificate that was written successfully, unless nothing has been
  committed since the start. No step lowers the committed sequence number, or changes the committed outcome
  under the same number.\<close>

theorem committed_outcomes_are_durable:
  assumes "og_reach env cert st" "cfg_ok (oe_config env)" "legal_order (oe_order env)"
  shows "sorted_wrt (<) (map cmt_SeqNr (announced_commits (og_log st))) \<and>
    (\<forall>c \<in> set (announced_commits (og_log st)). cmt_SeqNr c \<le> committedSeqNr_of st) \<and>
    announced_written (og_log st) \<and>
    (committedSeqNr_of st = 0 \<and> committedOutcome_of st = [] \<or>
     (\<exists>c. OgWriteCert (CertCommit c) True \<in> set (og_log st) \<and>
        cmt_SeqNr c = committedSeqNr_of st \<and> cmt_Outcome c = committedOutcome_of st)) \<and>
    (\<forall>c st'. og_step env st c st' \<longrightarrow>
       committedSeqNr_of st < committedSeqNr_of st' \<or>
       committedSeqNr_of st' = committedSeqNr_of st \<and> committedOutcome_of st' = committedOutcome_of st)"
proof -
  have "progress st st'" if "og_step env st c st'" for c st'
    using that og_process_progress [OF assms(2,3)] by (blast elim: og_stepE)
  then show ?thesis
    using og_reach_durable [OF assms] unfolding durable_def durable_log_def progress_def by blast
qed

text \<open>The solo oracle receives its own commit message.\<close>

definition solo_commit_run :: "outcomeGenerationState go" where
  "solo_commit_run = bindG solo_run (og_run solo_env [OgMessage (MessageCommit 1 1 []) 0])"

lemma solo_commit_run_announces:
  "case solo_commit_run of Inl p \<Rightarrow> False
   | Inr st \<Rightarrow> map (\<lambda>c. (cmt_SeqNr c, cmt_Outcome c)) (announced_commits (og_log st)) = [(1, [5])]"
  by code_simp

theorem committed_outcomes_are_durable_witness:
  "\<exists>st c. og_reach solo_env genesis_cert st \<and> announced_commits (og_log st) = [c] \<and> cmt_Outcome c = [5] \<and>
     cmt_SeqNr c \<le> committedSeqNr_of st \<and> announced_written (og_log st)"
proof -
  obtain st where st: "solo_commit_run = Inr st"
      "map (\<lambda>c. (cmt_SeqNr c, cmt_Outcome c)) (announced_commits (og_log st)) = [(1, [5])]"
    using solo_commit_run_announces by (auto split: sum.splits)
  then obtain c where c: "announced_commits (og_log st) = [c]" "cmt_Outcome c = [5]" by auto
  have r: "og_reach solo_env genesis_cert st"
    using st(1) unfolding solo_commit_run_def
    by (auto simp del: og_run.simps elim!: bindG_InrE intro: og_run_reach solo_run_reach)
  have "cmt_SeqNr c \<le> committedSeqNr_of st" "announced_written (og_log st)"
    using committed_outcomes_are_durable [OF r solo_env_legal] c(1) by simp_all
  then show ?thesis using r c by blast
qed

text \<open>C36: Emptying a sender's buffer ends: for every buffer content the loop of
  \<open>unbufferMessages\<close> runs at most once per buffered message before it finds the buffer empty, a
  message of a future epoch, or a handler's panic.\<close>

theorem unbuffering_terminates:
  assumes "cfg_ok (oe_config env)" "legal_order (oe_order env)"
    and "i < length (og_bufferedMessages st)" "buffers_ok st"
  shows "unbuffers env i st (unbuffer_loop env i (unbuffer_fuel i st) st)"
  by (rule unbuffer_loop_run [OF assms]) (simp add: unbuffer_fuel_def)

theorem unbuffering_terminates_witness:
  "\<exists>st. og_init solo_env genesis_cert = Inr st \<and> unbuffers solo_env 0 st (unbuffer_loop solo_env 0 (unbuffer_fuel 0 st) st)"
proof -
  have "case og_init solo_env genesis_cert of Inl p \<Rightarrow> False | Inr st \<Rightarrow>
      length (og_bufferedMessages st) = 1 \<and> list_all (\<lambda>b. rb_start b = 0 \<and> rb_length b = 0 \<and> length (rb_buffer b) = 10)
        (og_bufferedMessages st)"
    by code_simp
  then obtain st where st: "og_init solo_env genesis_cert = Inr st" "length (og_bufferedMessages st) = 1"
      "list_all (\<lambda>b. rb_start b = 0 \<and> rb_length b = 0 \<and> length (rb_buffer b) = 10) (og_bufferedMessages st)"
    by (auto split: sum.splits)
  then have "buffers_ok st" by (auto simp: buffers_ok_def rb_ok_def list_all_iff)
  from unbuffering_terminates [OF solo_env_legal _ this, of 0] st show ?thesis by auto
qed

section \<open>Where the checks are weaker than intended\<close>

text \<open>After a failed write of a commit certificate \<open>commit\<close> returns, but its caller goes on to the next round with
  the old committed sequence number: the oracle signs a second, different prepare message for the same epoch
  and sequence number.\<close>

definition failing_env :: og_env where
  "failing_env = solo_env\<lparr>oe_crypto := accept_all, oe_Outcome := (\<lambda>_ _ _. Some [6]), oe_WriteCert := (\<lambda>k. k \<noteq> 6)\<rparr>"

definition failing_run :: "outcomeGenerationState go" where
  "failing_run = bindG (og_init failing_env genesis_cert) (og_run failing_env
     [OgEvent (EventNewEpochStart 1), OgMessage (MessageEpochStart 1 solo_proof) 0, OgMessage (MessagePrepare 1 1 []) 0,
      OgMessage (MessageCommit 1 1 []) 0, OgMessage (MessageRoundStart 1 1 []) 0,
      OgMessage (MessageProposal 1 1
        [\<lparr>aso_SignedObservation = \<lparr>so_Observation = [], so_Signature = []\<rparr>, aso_Observer = 0\<rparr>]) 0])"

definition signed_prepares :: "outcomeGenerationState \<Rightarrow> (OutcomeGenerationID \<times> u64 \<times> bytes) list" where
  "signed_prepares st =
     concat (map (\<lambda>x. case x of OgSigned (SignedPrepareData ogid s i d) \<Rightarrow> [(ogid, s, d)] | _ \<Rightarrow> []) (og_log st))"

lemma failing_run_signs:
  "case failing_run of Inl p \<Rightarrow> False | Inr st \<Rightarrow> signed_prepares st = [(solo_ogid 1, 1, [5]), (solo_ogid 1, 1, [6])]"
  by code_simp

theorem failed_commit_write_signs_twice:
  "\<exists>st i i'. og_reach failing_env genesis_cert st \<and>
     OgSigned (SignedPrepareData (solo_ogid 1) 1 i [5]) \<in> set (og_log st) \<and>
     OgSigned (SignedPrepareData (solo_ogid 1) 1 i' [6]) \<in> set (og_log st)"
proof -
  obtain st where st: "failing_run = Inr st" "set (signed_prepares st) = {(solo_ogid 1, 1, [5]), (solo_ogid 1, 1, [6])}"
    using failing_run_signs by (auto split: sum.splits)
  have signed: "\<exists>i. OgSigned (SignedPrepareData ogid s i d) \<in> set (og_log st)" if "(ogid, s, d) \<in> set (signed_prepares st)" for ogid s d
    using that by (force simp: signed_prepares_def split: og_effect.splits signed_data.splits)
  have "og_reach failing_env genesis_cert st"
    using st(1) unfolding failing_run_def
    by (auto simp del: og_run.simps elim!: bindG_InrE intro: og_run_reach og_reach_init)
  then show ?thesis using signed [of "solo_ogid 1" 1 "[5]"] signed [of "solo_ogid 1" 1 "[6]"] st(2) by blast
qed

text \<open>An epoch start proof is judged by the timestamp of its certificate only: if two valid
  certificates have the same sequence number and kind, a proof is accepted with the one exactly
  if it is accepted with the other, whatever the epochs in which they were prepared and
  whatever their outcomes.\<close>

theorem epoch_start_proof_ignores_prepare_epoch:
  assumes "cert_Timestamp hc = cert_Timestamp hc'"
    and "cert_Verify C hc (ogid_ConfigDigest ogid) ids q = None" "cert_Verify C hc' (ogid_ConfigDigest ogid) ids q = None"
  shows "EpochStartProof_Verify C \<lparr>esp_HighestCertified = hc, esp_HighestCertifiedProof = p\<rparr> ogid ids q
       = EpochStartProof_Verify C \<lparr>esp_HighestCertified = hc', esp_HighestCertifiedProof = p\<rparr> ogid ids q"
  using assms by (simp add: EpochStartProof_Verify_def Let_def cong: sum.case_cong if_cong)

definition example_prepare :: "u64 \<Rightarrow> bytes \<Rightarrow> CertifiedPrepare" where
  "example_prepare e outcome = \<lparr>cp_PrepareEpoch = e, cp_SeqNr = 1, cp_OutcomeInputsDigest = zero_digest,
     cp_Outcome = outcome, cp_PrepareQuorumCertificate = map (\<lambda>i. \<lparr>aps_Signature = [], aps_Signer = i\<rparr>) [0, 1, 2]\<rparr>"

definition prepared_proof :: "CertifiedPrepare \<Rightarrow> EpochStartProof" where
  "prepared_proof hc = \<lparr>esp_HighestCertified = CertPrepare hc,
     esp_HighestCertifiedProof = map (\<lambda>i.
        \<lparr>ashct_SignedHighestCertifiedTimestamp =
           \<lparr>shct_HighestCertifiedTimestamp = \<lparr>hct_SeqNr = 1, hct_CommittedElsePrepared = False\<rparr>, shct_Signature = []\<rparr>,
         ashct_Signer = i\<rparr>) [0, 1, 2]\<rparr>"

lemma prepared_proof_accepted:
  "EpochStartProof_Verify accept_all (prepared_proof (example_prepare 1 [5]))
     \<lparr>ogid_ConfigDigest = cfg_ConfigDigest example_config, ogid_Epoch = 2\<rparr> (cfg_OracleIdentities example_config) 3 = Inr None"
  by code_simp

lemma example_prepares_verify:
  "cert_Verify accept_all (CertPrepare (example_prepare 1 [5])) (cfg_ConfigDigest example_config)
     (cfg_OracleIdentities example_config) 3 = None"
  "cert_Verify accept_all (CertPrepare (example_prepare 0 [6])) (cfg_ConfigDigest example_config)
     (cfg_OracleIdentities example_config) 3 = None"
  by code_simp+

theorem epoch_start_proof_ignores_prepare_epoch_witness:
  "EpochStartProof_Verify accept_all (prepared_proof (example_prepare 0 [6]))
     \<lparr>ogid_ConfigDigest = cfg_ConfigDigest example_config, ogid_Epoch = 2\<rparr> (cfg_OracleIdentities example_config) 3 = Inr None"
proof -
  have t: "cert_Timestamp (CertPrepare (example_prepare 1 [5])) = cert_Timestamp (CertPrepare (example_prepare 0 [6]))"
    by (simp add: example_prepare_def)
  have "EpochStartProof_Verify accept_all (prepared_proof (example_prepare 1 [5]))
       \<lparr>ogid_ConfigDigest = cfg_ConfigDigest example_config, ogid_Epoch = 2\<rparr> (cfg_OracleIdentities example_config) 3
     = EpochStartProof_Verify accept_all (prepared_proof (example_prepare 0 [6]))
       \<lparr>ogid_ConfigDigest = cfg_ConfigDigest example_config, ogid_Epoch = 2\<rparr> (cfg_OracleIdentities example_config) 3"
    unfolding prepared_proof_def
    by (rule epoch_start_proof_ignores_prepare_epoch [OF t])
      (simp_all only: OutcomeGenerationID.select_convs example_prepares_verify)
  then show ?thesis using prepared_proof_accepted by simp
qed

text \<open>A proposal whose first observation names observer \<open>N\<close>, one beyond the last oracle, passes the
  bound check and makes the follower panic, in every state in which it would process the
  proposal.\<close>

theorem observer_N_panics:
  assumes "phase_of st = outgenFollowerPhaseSentObservation"
    and "fs_proposalPool (og_followerState st) = Some p" "entry p (seqNr_of st) (l_of st) = Some en"
    and "Item en = (s, aso # asos)" "committedSeqNr_of st < s"
    and "fs_query (og_followerState st) = Some query" "ObservationQuorum env query st = Inr (Some quorum, st')"
    and "quorum \<le> int (length (aso # asos))" "uint (aso_Observer aso) = cfg_N (oe_config env)"
  shows "tryProcessProposalPool env st = Inl IndexOutOfRange"
proof -
  have "go_index (cfg_OracleIdentities (oe_config env)) (unat (aso_Observer aso)) = Inl IndexOutOfRange"
  proof -
    have "int (unat (aso_Observer aso)) = int (length (cfg_OracleIdentities (oe_config env)))"
      using assms(9) by (simp add: cfg_N_def)
    then have "unat (aso_Observer aso) = length (cfg_OracleIdentities (oe_config env))" by (simp only: of_nat_eq_iff)
    then show ?thesis by (simp add: go_index_def)
  qed
  then have "proposal_loop env st' query [] (aso # asos) [] = Inl IndexOutOfRange"
    by (simp add: assms(9))
  moreover have "Option.bind (Entries p (seqNr_of st)) (\<lambda>m. map_of m (l_of st)) = Some en"
    using assms(3) unfolding entry_def .
  ultimately show ?thesis
    using assms(5,8) by (simp add: tryProcessProposalPool_def Let_def assms(1,2,4,6,7) not_le [symmetric])
qed

definition observer_N :: AttributedSignedObservation where
  "observer_N = \<lparr>aso_SignedObservation = \<lparr>so_Observation = [], so_Signature = []\<rparr>, aso_Observer = 1\<rparr>"

definition panic_env :: og_env where
  "panic_env = solo_env\<lparr>oe_crypto := accept_all\<rparr>"

definition panic_state :: "outcomeGenerationState go" where
  "panic_state = bindG (og_init panic_env genesis_cert) (og_run panic_env
     [OgEvent (EventNewEpochStart 1),
      OgMessage (MessageEpochStart 1 \<lparr>esp_HighestCertified = genesis_cert,
        esp_HighestCertifiedProof = [\<lparr>ashct_SignedHighestCertifiedTimestamp =
          \<lparr>shct_HighestCertifiedTimestamp = \<lparr>hct_SeqNr = 0, hct_CommittedElsePrepared = True\<rparr>, shct_Signature = []\<rparr>,
          ashct_Signer = 0\<rparr>]\<rparr>) 0,
      OgMessage (MessageRoundStart 1 1 []) 0])"

definition panic_ready :: "outcomeGenerationState \<Rightarrow> bool" where
  "panic_ready st \<longleftrightarrow>
     phase_of st = outgenFollowerPhaseSentObservation \<and> seqNr_of st = 1 \<and> l_of st = 0 \<and> committedSeqNr_of st = 0 \<and>
     fs_query (og_followerState st) = Some [] \<and>
     map_option (\<lambda>p. fst (Put p 1 0 (1, [observer_N])) = PutResultOK) (fs_proposalPool (og_followerState st)) = Some True \<and>
     sh_observationQuorum (og_sharedState st) = None \<and> sh_firstSeqNrOfEpoch (og_sharedState st) = 1"

lemma panic_state_ready: "case panic_state of Inl p \<Rightarrow> False | Inr st \<Rightarrow> panic_ready st"
  by code_simp

theorem observer_N_panics_witness:
  "\<exists>st p. panic_state = Inr st \<and> fs_proposalPool (og_followerState st) = Some p \<and>
     tryProcessProposalPool panic_env
       (upd_follower (\<lambda>f. f\<lparr>fs_proposalPool := Some (snd (Put p 1 0 (1, [observer_N])))\<rparr>) st) = Inl IndexOutOfRange"
proof -
  obtain st where st: "panic_state = Inr st" "panic_ready st"
    using panic_state_ready by (auto split: sum.splits)
  then obtain p where p: "fs_proposalPool (og_followerState st) = Some p" "fst (Put p 1 0 (1, [observer_N])) = PutResultOK"
    by (auto simp: panic_ready_def)
  let ?st = "upd_follower (\<lambda>f. f\<lparr>fs_proposalPool := Some (snd (Put p 1 0 (1, [observer_N])))\<rparr>) st"
  have "\<exists>st'. ObservationQuorum panic_env [] ?st = Inr (Some 1, st')"
    using st(2) by (simp add: ObservationQuorum_def panic_ready_def OutcomeCtx_def panic_env_def solo_env_def
        solo_config_def cfg_N_def QuorumFPlusOne_def QuorumTwoFPlusOne_def QuorumByzQuorum_def QuorumNMinusF_def
        MaxOracles_def)
  then obtain st' where q: "ObservationQuorum panic_env [] ?st = Inr (Some 1, st')" by blast
  have "tryProcessProposalPool panic_env ?st = Inl IndexOutOfRange"
    using st(2) p(2)
    by (intro observer_N_panics [OF _ _ _ _ _ _ q])
      (auto simp: panic_ready_def entry_Put_OK observer_N_def panic_env_def solo_env_def solo_config_def cfg_N_def)
  then show ?thesis using st(1) p(1) by blast
qed

text \<open>Before its first epoch an oracle crashes on a prepare or commit message of epoch 0 from any
  sender: the message pools do not exist yet.\<close>

theorem epoch_zero_message_panics:
  assumes "og_init env cert = Inr st"
  shows "messageToOutcomeGeneration env (MessagePrepare 0 s sig) sender st = Inl NilDereference \<and>
     messageToOutcomeGeneration env (MessageCommit 0 s sig) sender st = Inl NilDereference"
  using assms by (auto simp: og_init_def messageToOutcomeGeneration_def messagePrepare_def messageCommit_def
      elim!: bindG_InrE)

theorem epoch_zero_message_panics_witness:
  "\<exists>st. og_init solo_env genesis_cert = Inr st \<and>
     messageToOutcomeGeneration solo_env (MessagePrepare 0 1 []) 0 st = Inl NilDereference"
proof -
  have "case og_init solo_env genesis_cert of Inl p \<Rightarrow> False | Inr st \<Rightarrow> True" by code_simp
  then obtain st where "og_init solo_env genesis_cert = Inr st" by (auto split: sum.splits)
  with epoch_zero_message_panics [OF this] show ?thesis by blast
qed

end
