(* ===== verification/OffchainConfig.thy ===== *)
theory OffchainConfig
  imports PublicConfig
begin

text \<open>
  The serialization of the off-chain part of the configuration
  (\<open>ocr3config/serialize.go\<close>) and the construction of the public and the shared
  configuration from a contract's configuration (\<open>public_config.go\<close>,
  \<open>shared_config.go\<close>). The protobuf wire format (\<open>proto.Marshal\<close>, \<open>proto.Unmarshal\<close>),
  X25519, Keccak256 and the AES block cipher are parameters.
\<close>

section \<open>Protobuf messages\<close>

record SharedSecretEncryptionsProto =
  ssp_DiffieHellmanPoint :: bytes
  ssp_SharedSecretHash :: bytes
  ssp_Encryptions :: "bytes list"

record OffchainConfigProto =
  ocp_DeltaProgressNanoseconds :: u64
  ocp_DeltaResendNanoseconds :: u64
  ocp_DeltaInitialNanoseconds :: u64
  ocp_DeltaRoundNanoseconds :: u64
  ocp_DeltaGraceNanoseconds :: u64
  ocp_DeltaCertifiedCommitRequestNanoseconds :: u64
  ocp_DeltaStageNanoseconds :: u64
  ocp_RMax :: u64
  ocp_S :: "u32 list"
  ocp_OffchainPublicKeys :: "bytes list"
  ocp_PeerIds :: "string list"
  ocp_ReportingPluginConfig :: bytes
  ocp_MaxDurationQueryNanoseconds :: u64
  ocp_MaxDurationObservationNanoseconds :: u64
  ocp_MaxDurationShouldAcceptAttestedReportNanoseconds :: u64
  ocp_MaxDurationShouldTransmitAcceptedReportNanoseconds :: u64
  ocp_SharedSecretEncryptions :: "SharedSecretEncryptionsProto option"

text \<open>The generated getters read zero values from a nil message.\<close>

definition ssp_get :: "(SharedSecretEncryptionsProto \<Rightarrow> 'a list) \<Rightarrow> SharedSecretEncryptionsProto option \<Rightarrow> 'a list" where
  "ssp_get fld m = (case m of None \<Rightarrow> [] | Some p \<Rightarrow> fld p)"

definition curve25519_PointSize :: nat where "curve25519_PointSize = 32"

definition SharedSecretSize :: nat where "SharedSecretSize = 16"

definition maxSerializedOffchainConfigSize :: nat where "maxSerializedOffchainConfigSize = 2000000"

definition checkSize :: "bytes \<Rightarrow> config_error option" where
  "checkSize b = (if length b \<le> maxSerializedOffchainConfigSize then None else Some OffchainConfigTooLarge)"

section \<open>Encoding\<close>

definition enprotoSharedSecretEncryptions :: "SharedSecretEncryptions \<Rightarrow> SharedSecretEncryptionsProto" where
  "enprotoSharedSecretEncryptions e =
     \<lparr>ssp_DiffieHellmanPoint = sse_DiffieHellmanPoint e,
      ssp_SharedSecretHash = sse_SharedSecretHash e,
      ssp_Encryptions = sse_Encryptions e\<rparr>"

definition enprotoOffchainConfig :: "offchainConfig \<Rightarrow> OffchainConfigProto" where
  "enprotoOffchainConfig oc =
     \<lparr>ocp_DeltaProgressNanoseconds = oc_DeltaProgress oc,
      ocp_DeltaResendNanoseconds = oc_DeltaResend oc,
      ocp_DeltaInitialNanoseconds = oc_DeltaInitial oc,
      ocp_DeltaRoundNanoseconds = oc_DeltaRound oc,
      ocp_DeltaGraceNanoseconds = oc_DeltaGrace oc,
      ocp_DeltaCertifiedCommitRequestNanoseconds = oc_DeltaCertifiedCommitRequest oc,
      ocp_DeltaStageNanoseconds = oc_DeltaStage oc,
      ocp_RMax = oc_RMax oc,
      ocp_S = map word_of_int (oc_S oc),
      ocp_OffchainPublicKeys = oc_OffchainPublicKeys oc,
      ocp_PeerIds = oc_PeerIDs oc,
      ocp_ReportingPluginConfig = oc_ReportingPluginConfig oc,
      ocp_MaxDurationQueryNanoseconds = oc_MaxDurationQuery oc,
      ocp_MaxDurationObservationNanoseconds = oc_MaxDurationObservation oc,
      ocp_MaxDurationShouldAcceptAttestedReportNanoseconds = oc_MaxDurationShouldAcceptAttestedReport oc,
      ocp_MaxDurationShouldTransmitAcceptedReportNanoseconds =
        oc_MaxDurationShouldTransmitAcceptedReport oc,
      ocp_SharedSecretEncryptions =
        Some (enprotoSharedSecretEncryptions (oc_SharedSecretEncryptions oc))\<rparr>"

definition serialize_offchainConfig ::
  "(OffchainConfigProto \<Rightarrow> bytes option) \<Rightarrow> offchainConfig \<Rightarrow> bytes go" where
  "serialize_offchainConfig marshal oc =
     (case marshal (enprotoOffchainConfig oc) of
        None \<Rightarrow> Inl ExplicitPanic
      | Some rv \<Rightarrow> (case checkSize rv of Some _ \<Rightarrow> Inl ExplicitPanic | None \<Rightarrow> Inr rv))"

section \<open>Decoding\<close>

fun deproto_fixed :: "nat \<Rightarrow> config_error \<Rightarrow> bytes list \<Rightarrow> config_error + bytes list" where
  "deproto_fixed n err [] = Inr []"
| "deproto_fixed n err (raw # raws) =
     (if length raw \<noteq> n then Inl err
      else bindG (deproto_fixed n err raws) (\<lambda>rest. Inr (raw # rest)))"

definition deprotoSharedSecretEncryptions ::
  "SharedSecretEncryptionsProto option \<Rightarrow> config_error + SharedSecretEncryptions" where
  "deprotoSharedSecretEncryptions m =
     (if curve25519_PointSize \<noteq> length (ssp_get ssp_DiffieHellmanPoint m) then Inl BadDiffieHellmanPoint
      else if 32 \<noteq> length (ssp_get ssp_SharedSecretHash m) then Inl BadSharedSecretHash
      else bindG (deproto_fixed SharedSecretSize BadEncryption (ssp_get ssp_Encryptions m))
        (\<lambda>encryptions. Inr
           \<lparr>sse_DiffieHellmanPoint = ssp_get ssp_DiffieHellmanPoint m,
            sse_SharedSecretHash = ssp_get ssp_SharedSecretHash m,
            sse_Encryptions = encryptions\<rparr>))"

definition deprotoOffchainConfig :: "OffchainConfigProto \<Rightarrow> config_error + offchainConfig" where
  "deprotoOffchainConfig p =
     bindG (deproto_fixed ed25519_PublicKeySize BadOffchainPublicKey (ocp_OffchainPublicKeys p))
       (\<lambda>offchainPublicKeys.
     bindG (deprotoSharedSecretEncryptions (ocp_SharedSecretEncryptions p))
       (\<lambda>sharedSecretEncryptions. Inr
         \<lparr>oc_DeltaProgress = ocp_DeltaProgressNanoseconds p,
          oc_DeltaResend = ocp_DeltaResendNanoseconds p,
          oc_DeltaInitial = ocp_DeltaInitialNanoseconds p,
          oc_DeltaRound = ocp_DeltaRoundNanoseconds p,
          oc_DeltaGrace = ocp_DeltaGraceNanoseconds p,
          oc_DeltaCertifiedCommitRequest = ocp_DeltaCertifiedCommitRequestNanoseconds p,
          oc_DeltaStage = ocp_DeltaStageNanoseconds p,
          oc_RMax = ocp_RMax p,
          oc_S = map uint (ocp_S p),
          oc_OffchainPublicKeys = offchainPublicKeys,
          oc_PeerIDs = ocp_PeerIds p,
          oc_ReportingPluginConfig = ocp_ReportingPluginConfig p,
          oc_MaxDurationQuery = ocp_MaxDurationQueryNanoseconds p,
          oc_MaxDurationObservation = ocp_MaxDurationObservationNanoseconds p,
          oc_MaxDurationShouldAcceptAttestedReport = ocp_MaxDurationShouldAcceptAttestedReportNanoseconds p,
          oc_MaxDurationShouldTransmitAcceptedReport =
            ocp_MaxDurationShouldTransmitAcceptedReportNanoseconds p,
          oc_SharedSecretEncryptions = sharedSecretEncryptions\<rparr>))"

definition deserializeOffchainConfig ::
  "(bytes \<Rightarrow> OffchainConfigProto option) \<Rightarrow> bytes \<Rightarrow> config_error + offchainConfig" where
  "deserializeOffchainConfig unmarshal b =
     (case checkSize b of
        Some err \<Rightarrow> Inl err
      | None \<Rightarrow>
          (case unmarshal b of
             None \<Rightarrow> Inl BadProtobuf
           | Some p \<Rightarrow> deprotoOffchainConfig p))"

section \<open>From the contract's configuration\<close>

definition OCR3OffchainConfigVersion :: u64 where "OCR3OffchainConfigVersion = 30"

definition check :: "config_error option \<Rightarrow> config_error + unit" where
  "check r = (case r of Some e \<Rightarrow> Inl e | None \<Rightarrow> Inr ())"

lemma check_eq_Inr [simp]: "check r = Inr u \<longleftrightarrow> r = None"
  by (simp add: check_def split: option.splits)

definition publicConfigFromContractConfig ::
  "(bytes \<Rightarrow> OffchainConfigProto option) \<Rightarrow> bool \<Rightarrow> ContractConfig \<Rightarrow>
   config_error + (PublicConfig \<times> SharedSecretEncryptions)" where
  "publicConfigFromContractConfig unmarshal skipResourceExhaustionChecks change =
     (if cc_OffchainConfigVersion change \<noteq> OCR3OffchainConfigVersion then Inl UnsupportedVersion
      else
        bindG (deserializeOffchainConfig unmarshal (cc_OffchainConfig change)) (\<lambda>oc.
        bindG (check (checkIdentityListsHaveNoDuplicates change oc)) (\<lambda>_.
        bindG (check (checkIdentityListsHaveTheSameLength change oc)) (\<lambda>_.
        let identities = map (\<lambda>i.
              \<lparr>oi_OffchainPublicKey = oc_OffchainPublicKeys oc ! i,
               oi_OnchainPublicKey = cc_Signers change ! i,
               oi_PeerID = oc_PeerIDs oc ! i,
               oi_TransmitAccount = cc_Transmitters change ! i\<rparr>) [0..<length (cc_Signers change)];
            cfg = \<lparr>cfg_DeltaProgress = oc_DeltaProgress oc,
                   cfg_DeltaResend = oc_DeltaResend oc,
                   cfg_DeltaInitial = oc_DeltaInitial oc,
                   cfg_DeltaRound = oc_DeltaRound oc,
                   cfg_DeltaGrace = oc_DeltaGrace oc,
                   cfg_DeltaCertifiedCommitRequest = oc_DeltaCertifiedCommitRequest oc,
                   cfg_DeltaStage = oc_DeltaStage oc,
                   cfg_RMax = oc_RMax oc,
                   cfg_S = oc_S oc,
                   cfg_OracleIdentities = identities,
                   cfg_ReportingPluginConfig = oc_ReportingPluginConfig oc,
                   cfg_MaxDurationQuery = oc_MaxDurationQuery oc,
                   cfg_MaxDurationObservation = oc_MaxDurationObservation oc,
                   cfg_MaxDurationShouldAcceptAttestedReport = oc_MaxDurationShouldAcceptAttestedReport oc,
                   cfg_MaxDurationShouldTransmitAcceptedReport =
                     oc_MaxDurationShouldTransmitAcceptedReport oc,
                   cfg_F = uint (cc_F change),
                   cfg_OnchainConfig = cc_OnchainConfig change,
                   cfg_ConfigDigest = cc_ConfigDigest change\<rparr>
        in bindG (check (checkPublicConfigParameters cfg)) (\<lambda>_.
           bindG (if skipResourceExhaustionChecks then Inr () else check (checkResourceExhaustion cfg)) (\<lambda>_.
             Inr (cfg, oc_SharedSecretEncryptions oc)))))))"

definition PublicConfigFromContractConfig ::
  "(bytes \<Rightarrow> OffchainConfigProto option) \<Rightarrow> bool \<Rightarrow> ContractConfig \<Rightarrow> config_error + PublicConfig" where
  "PublicConfigFromContractConfig unmarshal skip change =
     bindG (publicConfigFromContractConfig unmarshal skip change) (\<lambda>(pubcon, _). Inr pubcon)"

text \<open>The oracle's own keys: its keyrings, peer id and transmit account.\<close>

record own_keys =
  own_OnchainPublicKey :: bytes
  own_OffchainPublicKey :: bytes
  own_PeerID :: string
  own_TransmitAccount :: string

fun find_own :: "own_keys \<Rightarrow> nat \<Rightarrow> OracleIdentity list \<Rightarrow> OracleID option \<Rightarrow>
    config_error + OracleID option" where
  "find_own own i [] found = Inr found"
| "find_own own i (identity # ids) found =
     (if oi_OnchainPublicKey identity = own_OnchainPublicKey own then
        if oi_OffchainPublicKey identity \<noteq> own_OffchainPublicKey own
        then Inl (KeyMismatch ''OffchainPublicKey'')
        else if oi_PeerID identity \<noteq> own_PeerID own then Inl (KeyMismatch ''PeerID'')
        else if oi_TransmitAccount identity \<noteq> own_TransmitAccount own
        then Inl (KeyMismatch ''TransmitAccount'')
        else find_own own (Suc i) ids (Some (of_nat i))
      else find_own own (Suc i) ids found)"

text \<open>
  Decryption of the shared secret: \<open>dh\<close> is the keyring's \<open>ConfigDiffieHellman\<close>,
  \<open>keccak\<close> is Keccak256 and \<open>aes_dec key block\<close> decrypts one AES-128 block.
\<close>

definition aesDecryptBlock :: "(bytes \<Rightarrow> bytes \<Rightarrow> bytes) \<Rightarrow> bytes \<Rightarrow> bytes \<Rightarrow> bytes go" where
  "aesDecryptBlock aes_dec key ciphertext =
     (if length key \<noteq> 16 then Inl ExplicitPanic
      else if length ciphertext \<noteq> 16 then Inl ExplicitPanic
      else Inr (aes_dec key ciphertext))"

definition Decrypt ::
  "(bytes \<Rightarrow> bytes option) \<Rightarrow> (bytes \<Rightarrow> bytes) \<Rightarrow> (bytes \<Rightarrow> bytes \<Rightarrow> bytes) \<Rightarrow>
   SharedSecretEncryptions \<Rightarrow> OracleID \<Rightarrow> (config_error + bytes) go" where
  "Decrypt dh keccak aes_dec e oid =
     (if length (sse_Encryptions e) \<le> unat oid then Inr (Inl DecryptFailed)
      else case dh (sse_DiffieHellmanPoint e) of
        None \<Rightarrow> Inr (Inl DecryptFailed)
      | Some dhPoint \<Rightarrow>
          bindG (aesDecryptBlock aes_dec (take 16 (keccak dhPoint)) (sse_Encryptions e ! unat oid))
            (\<lambda>sharedSecret.
              Inr (if keccak sharedSecret \<noteq> sse_SharedSecretHash e then Inl DecryptFailed
                   else Inr sharedSecret)))"

definition SharedConfigFromContractConfig ::
  "(bytes \<Rightarrow> OffchainConfigProto option) \<Rightarrow> (bytes \<Rightarrow> bytes option) \<Rightarrow> (bytes \<Rightarrow> bytes) \<Rightarrow>
   (bytes \<Rightarrow> bytes \<Rightarrow> bytes) \<Rightarrow> bool \<Rightarrow> ContractConfig \<Rightarrow> own_keys \<Rightarrow>
   (config_error + (SharedConfig \<times> OracleID)) go" where
  "SharedConfigFromContractConfig unmarshal dh keccak aes_dec skip change own =
     (case publicConfigFromContractConfig unmarshal skip change of
        Inl err \<Rightarrow> Inr (Inl err)
      | Inr (publicConfig, encSharedSecret) \<Rightarrow>
          (case find_own own 0 (cfg_OracleIdentities publicConfig) None of
             Inl err \<Rightarrow> Inr (Inl err)
           | Inr None \<Rightarrow> Inr (Inl OwnKeyNotFound)
           | Inr (Some oracleID) \<Rightarrow>
               bindG (Decrypt dh keccak aes_dec encSharedSecret oracleID) (\<lambda>r.
                 Inr (case r of
                        Inl err \<Rightarrow> Inl err
                      | Inr x \<Rightarrow> Inr (PublicConfig.PublicConfig.extend publicConfig \<lparr>cfg_SharedSecret = x\<rparr>, oracleID)))))"


section \<open>Lemmas\<close>

lemma deproto_fixed_ok: "(\<forall>b \<in> set bs. length b = n) \<Longrightarrow> deproto_fixed n err bs = Inr bs"
  by (induction bs) auto

lemma deproto_fixed_Inr: "deproto_fixed n err bs = Inr cs \<Longrightarrow> cs = bs \<and> (\<forall>b \<in> set cs. length b = n)"
  by (induction bs arbitrary: cs) (auto simp: bindG_eq_Inr_iff split: if_splits)

text \<open>An off-chain configuration whose fixed-size arrays have their sizes and whose schedule
  entries fit the protobuf's \<open>uint32\<close>.\<close>

definition offchainConfig_ok :: "offchainConfig \<Rightarrow> bool" where
  "offchainConfig_ok oc \<longleftrightarrow>
     (\<forall>s \<in> set (oc_S oc). 0 \<le> s \<and> s < 2 ^ 32) \<and>
     (\<forall>k \<in> set (oc_OffchainPublicKeys oc). length k = ed25519_PublicKeySize) \<and>
     length (sse_DiffieHellmanPoint (oc_SharedSecretEncryptions oc)) = curve25519_PointSize \<and>
     length (sse_SharedSecretHash (oc_SharedSecretEncryptions oc)) = 32 \<and>
     (\<forall>b \<in> set (sse_Encryptions (oc_SharedSecretEncryptions oc)). length b = SharedSecretSize)"

lemma uint_word_of_int_u32: "0 \<le> s \<Longrightarrow> s < 2 ^ 32 \<Longrightarrow> uint (word_of_int s :: u32) = s"
  by (simp add: uint_word_of_int)

lemma deproto_enproto: "offchainConfig_ok oc \<Longrightarrow> deprotoOffchainConfig (enprotoOffchainConfig oc) = Inr oc"
  by (cases oc)
     (auto simp: deprotoOffchainConfig_def enprotoOffchainConfig_def deproto_fixed_ok
        deprotoSharedSecretEncryptions_def enprotoSharedSecretEncryptions_def ssp_get_def
        offchainConfig_ok_def uint_word_of_int_u32 map_idI)

lemma repeats_iff: "repeats seen xs \<longleftrightarrow> \<not> (distinct xs \<and> set xs \<inter> set seen = {})"
  by (induction xs arbitrary: seen) auto

lemma signers_distinct:
  "list_ex (\<lambda>i. list_ex (\<lambda>j. i \<noteq> j \<and> xs ! i = xs ! j) [0..<length xs]) [0..<length xs]
     \<longleftrightarrow> \<not> distinct xs"
  by (simp add: list_ex_iff distinct_conv_nth Bex_def)

lemma noDuplicates_None:
  "checkIdentityListsHaveNoDuplicates change oc = None \<longleftrightarrow>
     distinct (cc_Signers change) \<and> distinct (oc_PeerIDs oc) \<and>
     distinct (oc_OffchainPublicKeys oc) \<and> distinct (cc_Transmitters change)"
  by (simp add: checkIdentityListsHaveNoDuplicates_def Let_def signers_distinct repeats_iff)

lemma sameLength_None:
  "checkIdentityListsHaveTheSameLength change oc = None \<longleftrightarrow>
     length (oc_PeerIDs oc) = length (cc_Signers change) \<and>
     length (oc_OffchainPublicKeys oc) = length (cc_Signers change) \<and>
     length (cc_Transmitters change) = length (cc_Signers change) \<and>
     length (sse_Encryptions (oc_SharedSecretEncryptions oc)) = length (cc_Signers change)"
  by (simp add: checkIdentityListsHaveTheSameLength_def Let_def)

lemma identities_map:
  assumes "length ks = length ss" "length ps = length ss" "length ts = length ss"
  shows "map oi_OnchainPublicKey (map (\<lambda>i. \<lparr>oi_OffchainPublicKey = ks ! i, oi_OnchainPublicKey = ss ! i,
           oi_PeerID = ps ! i, oi_TransmitAccount = ts ! i\<rparr>) [0..<length ss]) = ss"
    and "map oi_OffchainPublicKey (map (\<lambda>i. \<lparr>oi_OffchainPublicKey = ks ! i, oi_OnchainPublicKey = ss ! i,
           oi_PeerID = ps ! i, oi_TransmitAccount = ts ! i\<rparr>) [0..<length ss]) = ks"
  using assms by (auto intro: nth_equalityI)

lemma publicConfig_accepted:
  assumes "publicConfigFromContractConfig unmarshal skip change = Inr (cfg, sse)"
  shows "cfg_ok cfg" and "length (sse_Encryptions sse) = length (cfg_OracleIdentities cfg)"
    and "map oi_OnchainPublicKey (cfg_OracleIdentities cfg) = cc_Signers change"
    and "distinct (map oi_OnchainPublicKey (cfg_OracleIdentities cfg))"
    and "distinct (map oi_OffchainPublicKey (cfg_OracleIdentities cfg))"
  using assms
  by (auto simp: publicConfigFromContractConfig_def bindG_eq_Inr_iff Let_def noDuplicates_None
      sameLength_None identities_map dest: checkPublicConfigParameters_ok split: if_splits
      simp del: map_map)

lemma find_own_Some:
  assumes "find_own own i ids found = Inr (Some k)" and "i + length ids \<le> 256"
  shows "found = Some k \<or> (\<exists>j < length ids. k = of_nat (i + j) \<and>
           oi_OnchainPublicKey (ids ! j) = own_OnchainPublicKey own \<and>
           oi_OffchainPublicKey (ids ! j) = own_OffchainPublicKey own)"
  using assms
proof (induction own i ids found rule: find_own.induct)
  case (2 own i identity ids found)
  show ?case
  proof (cases "oi_OnchainPublicKey identity = own_OnchainPublicKey own")
    case True
    with "2.prems" have "oi_OffchainPublicKey identity = own_OffchainPublicKey own"
        "oi_PeerID identity = own_PeerID own" "oi_TransmitAccount identity = own_TransmitAccount own"
      by (auto split: if_splits)
    with True "2.IH"(1) "2.prems" show ?thesis
      by (force intro: exI [of _ 0] exI [of _ "Suc _"])
  next
    case False
    with "2.IH"(2) "2.prems" show ?thesis
      by (force intro: exI [of _ "Suc _"])
  qed
qed simp

section \<open>Properties\<close>

text \<open>C40: What is accepted from the contract is safe for the protocols: \<open>3 F < N \<le> 31\<close>, a
  positive \<open>RMax\<close>, sane durations and schedule, one identity and one encryption per signer,
  and pairwise distinct on-chain and off-chain keys, so that a signer counted twice is
  impossible.\<close>

theorem accepted_config_is_safe:
  assumes "PublicConfigFromContractConfig unmarshal skip change = Inr cfg"
  shows "cfg_ok cfg \<and> cfg_N cfg = int (length (cc_Signers change)) \<and>
     map oi_OnchainPublicKey (cfg_OracleIdentities cfg) = cc_Signers change \<and>
     distinct (map oi_OnchainPublicKey (cfg_OracleIdentities cfg)) \<and>
     distinct (map oi_OffchainPublicKey (cfg_OracleIdentities cfg))"
proof -
  obtain sse where a: "publicConfigFromContractConfig unmarshal skip change = Inr (cfg, sse)"
    using assms by (auto simp: PublicConfigFromContractConfig_def bindG_eq_Inr_iff)
  note p = publicConfig_accepted [OF a]
  have "cfg_N cfg = int (length (cc_Signers change))"
    unfolding cfg_N_def p(3) [symmetric] by simp
  then show ?thesis using p by blast
qed

definition example_offchainConfig :: offchainConfig where
  "example_offchainConfig =
     \<lparr>oc_DeltaProgress = 3000, oc_DeltaResend = 200, oc_DeltaInitial = 200, oc_DeltaRound = 10,
      oc_DeltaGrace = 10, oc_DeltaCertifiedCommitRequest = 200, oc_DeltaStage = 100, oc_RMax = 2,
      oc_S = [1], oc_OffchainPublicKeys = [replicate 32 5], oc_PeerIDs = [''peer''],
      oc_ReportingPluginConfig = [], oc_MaxDurationQuery = 10, oc_MaxDurationObservation = 10,
      oc_MaxDurationShouldAcceptAttestedReport = 10, oc_MaxDurationShouldTransmitAcceptedReport = 10,
      oc_SharedSecretEncryptions =
        \<lparr>sse_DiffieHellmanPoint = replicate 32 1, sse_SharedSecretHash = replicate 32 2,
         sse_Encryptions = [replicate 16 3]\<rparr>\<rparr>"

lemma example_offchainConfig_ok: "offchainConfig_ok example_offchainConfig"
  by (simp add: offchainConfig_ok_def example_offchainConfig_def ed25519_PublicKeySize_def
      curve25519_PointSize_def SharedSecretSize_def)

definition example_change :: ContractConfig where
  "example_change =
     \<lparr>cc_ConfigDigest = replicate 32 7, cc_ConfigCount = 1, cc_Signers = [[11]], cc_Transmitters = [''tx''],
      cc_F = 0, cc_OnchainConfig = [], cc_OffchainConfigVersion = 30, cc_OffchainConfig = []\<rparr>"

lemma example_change_checks:
  "checkIdentityListsHaveNoDuplicates example_change example_offchainConfig = None"
  "checkIdentityListsHaveTheSameLength example_change example_offchainConfig = None"
  by (simp_all add: noDuplicates_None sameLength_None)
    (simp_all add: example_change_def example_offchainConfig_def)

lemma example_change_accepted:
  "\<exists>cfg. PublicConfigFromContractConfig (\<lambda>_. Some (enprotoOffchainConfig example_offchainConfig)) True example_change
     = Inr cfg"
  by (simp add: PublicConfigFromContractConfig_def publicConfigFromContractConfig_def
      deserializeOffchainConfig_def deproto_enproto [OF example_offchainConfig_ok] checkSize_def
      OCR3OffchainConfigVersion_def example_change_checks check_def)
    (simp add: example_change_def example_offchainConfig_def maxSerializedOffchainConfigSize_def
      checkPublicConfigParameters_def cfg_N_def MaxOracles_def)

theorem accepted_config_is_safe_witness:
  "\<exists>cfg. PublicConfigFromContractConfig (\<lambda>_. Some (enprotoOffchainConfig example_offchainConfig)) True example_change
       = Inr cfg \<and> cfg_ok cfg"
  using example_change_accepted accepted_config_is_safe by blast

text \<open>Serialising an off-chain configuration and reading it back yields the same
  configuration, when the protobuf library reads back what it wrote.\<close>

theorem offchain_config_roundtrip:
  assumes "\<And>p bs. marshal p = Some bs \<Longrightarrow> unmarshal bs = Some p"
    and "offchainConfig_ok oc" and "serialize_offchainConfig marshal oc = Inr bs"
  shows "deserializeOffchainConfig unmarshal bs = Inr oc"
  using assms
  by (auto simp: serialize_offchainConfig_def deserializeOffchainConfig_def deproto_enproto
      split: option.splits)

theorem offchain_config_roundtrip_witness:
  "deserializeOffchainConfig (\<lambda>_. Some (enprotoOffchainConfig example_offchainConfig)) [] = Inr example_offchainConfig"
proof (rule offchain_config_roundtrip)
  show "serialize_offchainConfig
      (\<lambda>p. if p = enprotoOffchainConfig example_offchainConfig then Some [] else None) example_offchainConfig = Inr []"
    by (simp add: serialize_offchainConfig_def checkSize_def)
qed (auto simp: example_offchainConfig_ok split: if_splits)

end
