(* ===== verification/GoFloat.thy ===== *)
theory GoFloat
  imports Prelude "HOL-Library.Signed_Division" Complex_Main
begin

text \<open>
  The part of \<open>float64\<close> arithmetic that the code uses: IEEE 754 double precision with rounding to
  nearest, ties to even, on values of the normal range (durations in seconds and their
  quotients, far from overflow and from the subnormal numbers), with the infinities and NaN that
  a division by zero gives.
\<close>

datatype f64 = F64 rat | F64_Inf | F64_NegInf | F64_NaN

text \<open>The quotient of two natural integers rounded to the nearest integer, ties to even.\<close>

definition half_even :: "int \<Rightarrow> int \<Rightarrow> int" where
  "half_even n d =
     (let q = n div d; r = n mod d
      in if 2 * r < d then q else if 2 * r > d then q + 1 else if even q then q else q + 1)"

function bit_length :: "int \<Rightarrow> int" where
  "bit_length n = (if n \<le> 0 then 0 else bit_length (n div 2) + 1)"
  by auto
termination by (relation "measure nat") auto

declare bit_length.simps [simp del]

text \<open>\<open>a / b / 2 ^ e\<close> as a fraction of integers.\<close>

definition scaled :: "int \<Rightarrow> int \<Rightarrow> int \<Rightarrow> int \<times> int" where
  "scaled a b e = (if 0 \<le> e then (a, b * 2 ^ nat e) else (a * 2 ^ nat (- e), b))"

text \<open>Rounding of \<open>a / b > 0\<close>: the exponent \<open>e\<close> is the one with \<open>2 ^ 52 \<le> a / b / 2 ^ e < 2 ^ 53\<close>, and
  the mantissa is rounded to an integer.\<close>

definition fl_pos :: "int \<Rightarrow> int \<Rightarrow> rat" where
  "fl_pos a b =
     (let e = bit_length a - bit_length b - 53;
          (n, d) = scaled a b e;
          e = (if n \<ge> 2 ^ 53 * d then e + 1 else e);
          (n, d) = scaled a b e;
          m = half_even n d
      in if 0 \<le> e then of_int (m * 2 ^ nat e) else Fract m (2 ^ nat (- e)))"

definition fl :: "rat \<Rightarrow> rat" where
  "fl x =
     (let (a, b) = quotient_of x
      in if a = 0 then 0 else if a > 0 then fl_pos a b else - fl_pos (- a) b)"

definition f64_div :: "rat \<Rightarrow> rat \<Rightarrow> f64" where
  "f64_div x y = (if y \<noteq> 0 then F64 (fl (x / y)) else if x > 0 then F64_Inf else if x < 0 then F64_NegInf else F64_NaN)"

fun f64_Ceil :: "f64 \<Rightarrow> f64" where
  "f64_Ceil (F64 x) = F64 (of_int \<lceil>x\<rceil>)"
| "f64_Ceil x = x"

fun f64_less :: "f64 \<Rightarrow> f64 \<Rightarrow> bool" where
  "f64_less (F64 x) (F64 y) = (x < y)"
| "f64_less (F64 x) F64_Inf = True"
| "f64_less F64_NegInf (F64 y) = True"
| "f64_less F64_NegInf F64_Inf = True"
| "f64_less x y = False"

text \<open>Sums and products that may involve a quotient by zero. No operand of the code is a negative zero.\<close>

fun f64_add :: "f64 \<Rightarrow> f64 \<Rightarrow> f64" where
  "f64_add (F64 x) (F64 y) = F64 (fl (x + y))"
| "f64_add F64_Inf (F64 y) = F64_Inf"
| "f64_add (F64 x) F64_Inf = F64_Inf"
| "f64_add F64_Inf F64_Inf = F64_Inf"
| "f64_add F64_NegInf (F64 y) = F64_NegInf"
| "f64_add (F64 x) F64_NegInf = F64_NegInf"
| "f64_add F64_NegInf F64_NegInf = F64_NegInf"
| "f64_add x y = F64_NaN"

fun f64_scale :: "f64 \<Rightarrow> rat \<Rightarrow> f64" where
  "f64_scale (F64 x) y = F64 (fl (x * y))"
| "f64_scale F64_Inf y = (if y > 0 then F64_Inf else if y < 0 then F64_NegInf else F64_NaN)"
| "f64_scale F64_NegInf y = (if y > 0 then F64_NegInf else if y < 0 then F64_Inf else F64_NaN)"
| "f64_scale F64_NaN y = F64_NaN"

fun f64_sum :: "f64 \<Rightarrow> f64 list \<Rightarrow> f64" where
  "f64_sum x [] = x"
| "f64_sum x (y # ys) = f64_sum (f64_add x y) ys"

text \<open>\<open>time.Duration.Seconds\<close>\<close>

definition Duration_Seconds :: "64 word \<Rightarrow> rat" where
  "Duration_Seconds d =
     (let sec = sint d sdiv 1000000000; nsec = sint d smod 1000000000
      in fl (fl (of_int sec) + fl (fl (of_int nsec) / 1000000000)))"

text \<open>\<open>int(math.Ceil(size))\<close> of a finite size.\<close>

fun f64_int :: "f64 \<Rightarrow> int" where
  "f64_int (F64 x) = \<lceil>x\<rceil>"
| "f64_int x = 0"

text \<open>A size clamped to \<open>[lo, hi]\<close> as \<open>roundWindowSize\<close> does; NaN and \<open>+Inf\<close> become \<open>hi\<close>.\<close>

definition f64_clamp :: "int \<Rightarrow> int \<Rightarrow> f64 \<Rightarrow> int" where
  "f64_clamp lo hi sz =
     (let sz = (if f64_less sz (F64 (of_int lo)) then F64 (of_int lo) else sz);
          sz = (if sz = F64_NaN \<or> f64_less (F64 (of_int hi)) sz then F64 (of_int hi) else sz)
      in f64_int (f64_Ceil sz))"

lemma f64_clamp_bounds:
  assumes "lo \<le> hi"
  shows "lo \<le> f64_clamp lo hi sz \<and> f64_clamp lo hi sz \<le> hi"
proof (cases sz)
  case (F64 x)
  then show ?thesis
    using assms by (auto simp: f64_clamp_def Let_def le_ceiling_iff ceiling_le_iff not_less)
qed (use assms in \<open>simp_all add: f64_clamp_def\<close>)

end
