(* ===== verification/RepAttState.thy ===== *)
theory RepAttState
  imports Messages GoFloat
begin

text \<open>
  The report attestation protocol (\<open>ocr3/protocol/report_attestation.go\<close>): oracles sign the
  reports of a committed outcome, collect each other's signatures and hand attested reports to
  the transmission protocol; an oracle that misses the outcome asks another one for the
  certified commit. Handlers return the new state or a panic; what they send is appended to the
  ghost field \<open>ra_log\<close>, and the ghost counter \<open>ra_calls\<close> numbers the calls whose answer the
  environment chooses.
\<close>

section \<open>State and environment\<close>

record repatt_oracle =
  or_signatures :: "bytes list"
  or_validSignatures :: "bool option"
  or_weRequested :: bool
  or_theyServiced :: bool
  or_weServiced :: bool

text \<open>\<open>rd_reportsWithInfo = None\<close> is the nil slice.\<close>

record 'ri repatt_round =
  rd_certifiedCommit :: "CertifiedCommit option"
  rd_reportsWithInfo :: "'ri ReportWithInfo list option"
  rd_oracles :: "repatt_oracle list"
  rd_startedFetch :: bool
  rd_complete :: bool

datatype 'ri ra_effect =
    RaSendTo MessageToReportAttestation OracleID
  | RaBroadcast MessageToReportAttestation
  | RaToTransmission "'ri EventToTransmission"

text \<open>\<open>ra_scheduled\<close> are the events handed to the scheduler and not yet delivered, with their
  delays.\<close>

record 'ri reportAttestationState =
  ra_scheduled :: "(EventToReportAttestation \<times> Duration) list"
  ra_rounds :: "(u64, 'ri repatt_round) gomap"
  ra_highestAttestedSeqNr :: u64
  ra_highestReportSignaturesSeqNr :: "u64 list"
  ra_calls :: nat
  ra_log :: "'ri ra_effect list"

text \<open>
  The plugin's \<open>Reports\<close> and the key ring's \<open>Verify\<close> are documented to be pure; \<open>Sign\<close>,
  \<open>rand.Int\<close> (\<open>None\<close> is its error) and \<open>ctx.Done()\<close> answer by call number. \<open>Reports\<close> returns
  \<open>None\<close> for an error and \<open>Some None\<close> for a nil slice.
\<close>

record 'ri ra_env =
  re_crypto :: crypto
  re_config :: SharedConfig
  re_Reports :: "u64 \<Rightarrow> bytes \<Rightarrow> 'ri ReportWithInfo list option option"
  re_Sign :: "nat \<Rightarrow> bytes \<Rightarrow> u64 \<Rightarrow> 'ri ReportWithInfo \<Rightarrow> bytes option"
  re_Verify :: "bytes \<Rightarrow> bytes \<Rightarrow> u64 \<Rightarrow> 'ri ReportWithInfo \<Rightarrow> bytes \<Rightarrow> bool"
  re_rand :: "nat \<Rightarrow> int \<Rightarrow> int option"
  re_done :: "nat \<Rightarrow> bool"

definition new_oracle :: repatt_oracle where
  "new_oracle = \<lparr>or_signatures = [], or_validSignatures = None, or_weRequested = False,
     or_theyServiced = False, or_weServiced = False\<rparr>"

definition new_round :: "'ri ra_env \<Rightarrow> 'ri repatt_round" where
  "new_round env = \<lparr>rd_certifiedCommit = None, rd_reportsWithInfo = None,
     rd_oracles = replicate (nat (cfg_N (re_config env))) new_oracle, rd_startedFetch = False, rd_complete = False\<rparr>"

definition newReportAttestationState :: "'ri ra_env \<Rightarrow> 'ri reportAttestationState" where
  "newReportAttestationState env =
     \<lparr>ra_scheduled = [], ra_rounds = [], ra_highestAttestedSeqNr = 0,
      ra_highestReportSignaturesSeqNr = replicate (nat (cfg_N (re_config env))) 0, ra_calls = 0, ra_log = []\<rparr>"

definition round_of :: "'ri reportAttestationState \<Rightarrow> u64 \<Rightarrow> 'ri repatt_round option" where
  "round_of st seqNr = map_of (ra_rounds st) seqNr"

definition set_round :: "u64 \<Rightarrow> 'ri repatt_round \<Rightarrow> 'ri reportAttestationState \<Rightarrow> 'ri reportAttestationState" where
  "set_round seqNr r st = st\<lparr>ra_rounds := AList.update seqNr r (ra_rounds st)\<rparr>"

definition ra_emit :: "'ri ra_effect \<Rightarrow> 'ri reportAttestationState \<Rightarrow> 'ri reportAttestationState" where
  "ra_emit x st = st\<lparr>ra_log := ra_log st @ [x]\<rparr>"

definition ra_tick :: "'ri reportAttestationState \<Rightarrow> 'ri reportAttestationState" where
  "ra_tick st = st\<lparr>ra_calls := Suc (ra_calls st)\<rparr>"

definition ScheduleDelay ::
  "EventToReportAttestation \<Rightarrow> Duration \<Rightarrow> 'ri reportAttestationState \<Rightarrow> 'ri reportAttestationState" where
  "ScheduleDelay ev d st = st\<lparr>ra_scheduled := ra_scheduled st @ [(ev, d)]\<rparr>"

lemma ra_simps [simp]:
  "ra_scheduled (set_round s r st) = ra_scheduled st"
  "ra_highestAttestedSeqNr (set_round s r st) = ra_highestAttestedSeqNr st"
  "ra_highestReportSignaturesSeqNr (set_round s r st) = ra_highestReportSignaturesSeqNr st"
  "ra_calls (set_round s r st) = ra_calls st" "ra_log (set_round s r st) = ra_log st"
  "round_of (set_round s r st) s' = (if s' = s then Some r else round_of st s')"
  "ra_scheduled (ra_emit x st) = ra_scheduled st" "ra_rounds (ra_emit x st) = ra_rounds st"
  "ra_highestAttestedSeqNr (ra_emit x st) = ra_highestAttestedSeqNr st"
  "ra_highestReportSignaturesSeqNr (ra_emit x st) = ra_highestReportSignaturesSeqNr st"
  "ra_calls (ra_emit x st) = ra_calls st" "ra_log (ra_emit x st) = ra_log st @ [x]"
  "round_of (ra_emit x st) s' = round_of st s'"
  "ra_scheduled (ra_tick st) = ra_scheduled st" "ra_rounds (ra_tick st) = ra_rounds st"
  "ra_highestAttestedSeqNr (ra_tick st) = ra_highestAttestedSeqNr st"
  "ra_highestReportSignaturesSeqNr (ra_tick st) = ra_highestReportSignaturesSeqNr st"
  "ra_calls (ra_tick st) = Suc (ra_calls st)" "ra_log (ra_tick st) = ra_log st"
  "round_of (ra_tick st) s' = round_of st s'"
  "ra_rounds (ScheduleDelay ev d st) = ra_rounds st"
  "ra_highestAttestedSeqNr (ScheduleDelay ev d st) = ra_highestAttestedSeqNr st"
  "ra_highestReportSignaturesSeqNr (ScheduleDelay ev d st) = ra_highestReportSignaturesSeqNr st"
  "ra_calls (ScheduleDelay ev d st) = ra_calls st" "ra_log (ScheduleDelay ev d st) = ra_log st"
  "round_of (ScheduleDelay ev d st) s' = round_of st s'"
  by (auto simp: set_round_def ra_emit_def ra_tick_def ScheduleDelay_def round_of_def map_of_update)

section \<open>Windows\<close>

definition expiryMinRounds :: int where "expiryMinRounds = 10"
definition expiryDuration :: Duration where "expiryDuration = 60 * 1000000000"
definition expiryMaxRounds :: int where "expiryMaxRounds = 50"
definition lookaheadMinRounds :: int where "lookaheadMinRounds = 4"
definition lookaheadDuration :: Duration where "lookaheadDuration = 30 * 1000000000"
definition lookaheadMaxRounds :: int where "lookaheadMaxRounds = 10"

definition roundWindowSize :: "'ri ra_env \<Rightarrow> int \<Rightarrow> int \<Rightarrow> Duration \<Rightarrow> int" where
  "roundWindowSize env minWindowSize maxWindowSize windowDuration =
     f64_clamp minWindowSize maxWindowSize
       (f64_Ceil (f64_div (Duration_Seconds windowDuration) (Duration_Seconds (MinRoundInterval (re_config env)))))"

definition expiryRounds :: "'ri ra_env \<Rightarrow> int" where
  "expiryRounds env = roundWindowSize env expiryMinRounds expiryMaxRounds expiryDuration"

definition lookaheadRounds :: "'ri ra_env \<Rightarrow> int" where
  "lookaheadRounds env = roundWindowSize env lookaheadMinRounds lookaheadMaxRounds lookaheadDuration"

definition isBeyondExpiry :: "'ri ra_env \<Rightarrow> 'ri reportAttestationState \<Rightarrow> u64 \<Rightarrow> bool" where
  "isBeyondExpiry env st seqNr =
     (let highest = ra_highestAttestedSeqNr st; expiry = of_int (expiryRounds env)
      in if highest \<le> expiry then False else seqNr < highest - expiry)"

text \<open>The \<open>(f+1)\<close>-th largest of the highest sequence numbers seen from each oracle.\<close>

definition isBeyondLookahead :: "'ri ra_env \<Rightarrow> 'ri reportAttestationState \<Rightarrow> u64 \<Rightarrow> bool go" where
  "isBeyondLookahead env st seqNr =
     bindG (go_index_int (rev (sort (ra_highestReportSignaturesSeqNr st))) (cfg_F (re_config env))) (\<lambda>highest.
     let lookahead = of_int (lookaheadRounds env)
     in Inr (if seqNr \<le> lookahead then False else highest < seqNr - lookahead))"

definition reap :: "'ri ra_env \<Rightarrow> 'ri reportAttestationState \<Rightarrow> 'ri reportAttestationState" where
  "reap env st =
     (let maxActiveRoundCount = expiryRounds env + lookaheadRounds env
      in if 3 * int (length (ra_rounds st)) \<le> 4 * maxActiveRoundCount then st
         else st\<lparr>ra_rounds := filter (\<lambda>(seqNr, r). \<not> isBeyondExpiry env st seqNr) (ra_rounds st)\<rparr>)"

section \<open>Completing a round\<close>

text \<open>The sequential result of \<open>verifySignatures\<close>; theory \<open>VerifySignatures\<close> shows that its worker
  goroutines compute it.\<close>

definition verifySignatures ::
  "'ri ra_env \<Rightarrow> bytes \<Rightarrow> u64 \<Rightarrow> 'ri ReportWithInfo list \<Rightarrow> bytes list \<Rightarrow> bool" where
  "verifySignatures env publicKey seqNr reportsWithInfo signatures =
     (length reportsWithInfo = length signatures \<and>
      list_all (\<lambda>(r, sig). re_Verify env publicKey (cfg_ConfigDigest (re_config env)) seqNr r sig)
        (zip reportsWithInfo signatures))"

fun append_sigs ::
  "OracleID \<Rightarrow> bytes list \<Rightarrow> AttributedOnchainSignature list list \<Rightarrow> AttributedOnchainSignature list list go" where
  "append_sigs i sigs [] = Inr []"
| "append_sigs i [] (aoss # rest) = Inl IndexOutOfRange"
| "append_sigs i (sig # sigs) (aoss # rest) =
     bindG (append_sigs i sigs rest) (\<lambda>rest.
       Inr ((aoss @ [\<lparr>aos_Signature = sig, aos_Signer = i\<rparr>]) # rest))"

text \<open>The loop over the oracles from \<open>i\<close> on; it returns the oracles with their verification
  results, the number of good signatures and the signatures per report.\<close>

fun collect_signatures ::
  "'ri ra_env \<Rightarrow> u64 \<Rightarrow> 'ri ReportWithInfo list \<Rightarrow> nat \<Rightarrow> repatt_oracle list \<Rightarrow> int \<Rightarrow>
   AttributedOnchainSignature list list \<Rightarrow> (repatt_oracle list \<times> int \<times> AttributedOnchainSignature list list) go" where
  "collect_signatures env seqNr reports i [] goodSigs aoss = Inr ([], goodSigs, aoss)"
| "collect_signatures env seqNr reports i (oracle # oracles) goodSigs aoss =
     (if or_signatures oracle = []
      then bindG (collect_signatures env seqNr reports (Suc i) oracles goodSigs aoss) (\<lambda>(oracles, r).
             Inr (oracle # oracles, r))
      else
        bindG (case or_validSignatures oracle of
                 Some v \<Rightarrow> Inr v
               | None \<Rightarrow> bindG (go_index (cfg_OracleIdentities (re_config env)) i) (\<lambda>identity.
                   Inr (verifySignatures env (oi_OnchainPublicKey identity) seqNr reports (or_signatures oracle)))) (\<lambda>v.
        let oracle = oracle\<lparr>or_validSignatures := Some v\<rparr>;
            goodSigs = (if v then goodSigs + 1 else goodSigs)
        in bindG (if v then append_sigs (of_nat i) (or_signatures oracle) aoss else Inr aoss) (\<lambda>aoss.
           if goodSigs > cfg_F (re_config env) then Inr (oracle # oracles, goodSigs, aoss)
           else bindG (collect_signatures env seqNr reports (Suc i) oracles goodSigs aoss) (\<lambda>(oracles, r).
                  Inr (oracle # oracles, r)))))"

text \<open>Sending the attested reports; \<open>ctx.Done()\<close> skips one send, not the loop.\<close>

fun send_reports ::
  "'ri ra_env \<Rightarrow> u64 \<Rightarrow> nat \<Rightarrow> ('ri ReportWithInfo \<times> AttributedOnchainSignature list) list \<Rightarrow>
   'ri reportAttestationState \<Rightarrow> 'ri reportAttestationState" where
  "send_reports env seqNr i [] st = st"
| "send_reports env seqNr i ((r, aos) # rest) st =
     (let st' = ra_tick st
      in send_reports env seqNr (Suc i) rest
           (if re_done env (ra_calls st) then st'
            else ra_emit (RaToTransmission (EventAttestedReport seqNr (int i)
                   \<lparr>arm_ReportWithInfo = r, arm_AttributedSignatures = aos\<rparr>)) st'))"

definition tryComplete :: "'ri ra_env \<Rightarrow> u64 \<Rightarrow> 'ri reportAttestationState \<Rightarrow> 'ri reportAttestationState go" where
  "tryComplete env seqNr st =
     bindG (go_deref (round_of st seqNr)) (\<lambda>r.
     if rd_complete r then Inr st
     else
       let reportsWithInfo = (case rd_reportsWithInfo r of None \<Rightarrow> [] | Some rs \<Rightarrow> rs)
       in if reportsWithInfo = []
          then
            let oraclesThatSentSignatures = int (length (filter (\<lambda>oracle. or_signatures oracle \<noteq> []) (rd_oracles r)))
            in Inr (if oraclesThatSentSignatures \<le> cfg_F (re_config env) then st
                    else if \<not> rd_startedFetch r
                    then ScheduleDelay (EventMissingOutcome seqNr) (cfg_DeltaCertifiedCommitRequest (re_config env))
                           (set_round seqNr (r\<lparr>rd_startedFetch := True\<rparr>) st)
                    else st)
          else
            bindG (collect_signatures env seqNr reportsWithInfo 0 (rd_oracles r) 0
                     (replicate (length reportsWithInfo) [])) (\<lambda>(oracles, goodSigs, aossPerReport).
            let r = r\<lparr>rd_oracles := oracles\<rparr>
            in if goodSigs \<le> cfg_F (re_config env) then Inr (set_round seqNr r st)
               else
                 let st = set_round seqNr (r\<lparr>rd_complete := True\<rparr>) st;
                     st = (if ra_highestAttestedSeqNr st < seqNr then st\<lparr>ra_highestAttestedSeqNr := seqNr\<rparr> else st)
                 in Inr (reap env (send_reports env seqNr 0 (zip reportsWithInfo aossPerReport) st))))"

section \<open>Messages and events\<close>

definition messageReportSignatures ::
  "'ri ra_env \<Rightarrow> u64 \<Rightarrow> bytes list \<Rightarrow> OracleID \<Rightarrow> 'ri reportAttestationState \<Rightarrow> 'ri reportAttestationState go" where
  "messageReportSignatures env seqNr sigs sender st =
     (if isBeyondExpiry env st seqNr then Inr st
      else
        bindG (go_index (ra_highestReportSignaturesSeqNr st) (unat sender)) (\<lambda>h.
        let st = (if h < seqNr
                  then st\<lparr>ra_highestReportSignaturesSeqNr :=
                            (ra_highestReportSignaturesSeqNr st)[unat sender := seqNr]\<rparr>
                  else st)
        in bindG (isBeyondLookahead env st seqNr) (\<lambda>beyond.
           if beyond then Inr st
           else
             let st = (if round_of st seqNr = None then set_round seqNr (new_round env) st else st)
             in bindG (go_deref (round_of st seqNr)) (\<lambda>r.
                bindG (go_index (rd_oracles r) (unat sender)) (\<lambda>oracle.
                if or_signatures oracle \<noteq> [] then Inr st
                else tryComplete env seqNr
                       (set_round seqNr
                         (r\<lparr>rd_oracles := (rd_oracles r)[unat sender := oracle\<lparr>or_signatures := sigs\<rparr>]\<rparr>) st))))))"

text \<open>The candidates for a request: oracles that sent signatures and were not asked yet.\<close>

definition request_candidates :: "repatt_oracle list \<Rightarrow> nat list" where
  "request_candidates oracles =
     filter (\<lambda>i. \<not> or_weRequested (oracles ! i) \<and> or_signatures (oracles ! i) \<noteq> []) [0..<length oracles]"

definition tryRequestCertifiedCommit ::
  "'ri ra_env \<Rightarrow> u64 \<Rightarrow> 'ri reportAttestationState \<Rightarrow> 'ri reportAttestationState go" where
  "tryRequestCertifiedCommit env seqNr st =
     bindG (go_deref (round_of st seqNr)) (\<lambda>r.
     let candidates = request_candidates (rd_oracles r)
     in if candidates = [] then Inr st
        else
          let randomIndex = re_rand env (ra_calls st) (int (length candidates)); st = ra_tick st
          in case randomIndex of
               None \<Rightarrow> Inr st
             | Some k \<Rightarrow>
                 bindG (go_index_int candidates k) (\<lambda>c.
                 let st = set_round seqNr (r\<lparr>rd_oracles := (rd_oracles r)[c := (rd_oracles r ! c)\<lparr>or_weRequested := True\<rparr>]\<rparr>) st;
                     st = ra_emit (RaSendTo (MessageCertifiedCommitRequest seqNr) (of_nat c)) st
                 in Inr (ScheduleDelay (EventMissingOutcome seqNr) (cfg_DeltaCertifiedCommitRequest (re_config env)) st)))"

definition eventMissingOutcome :: "'ri ra_env \<Rightarrow> u64 \<Rightarrow> 'ri reportAttestationState \<Rightarrow> 'ri reportAttestationState go" where
  "eventMissingOutcome env seqNr st =
     bindG (go_deref (round_of st seqNr)) (\<lambda>r.
     if (case rd_reportsWithInfo r of None \<Rightarrow> [] | Some rs \<Rightarrow> rs) \<noteq> [] then Inr st
     else tryRequestCertifiedCommit env seqNr st)"

definition messageCertifiedCommitRequest ::
  "'ri ra_env \<Rightarrow> u64 \<Rightarrow> OracleID \<Rightarrow> 'ri reportAttestationState \<Rightarrow> 'ri reportAttestationState go" where
  "messageCertifiedCommitRequest env seqNr sender st =
     (case round_of st seqNr of
        None \<Rightarrow> Inr st
      | Some r \<Rightarrow>
          (case rd_certifiedCommit r of
             None \<Rightarrow> Inr st
           | Some cc \<Rightarrow>
               bindG (go_index (rd_oracles r) (unat sender)) (\<lambda>oracle.
               if or_weServiced oracle then Inr st
               else Inr (ra_emit (RaSendTo (MessageCertifiedCommit cc) sender)
                      (set_round seqNr
                        (r\<lparr>rd_oracles := (rd_oracles r)[unat sender := oracle\<lparr>or_weServiced := True\<rparr>]\<rparr>) st)))))"

text \<open>Signing every report; \<open>None\<close> when one signature fails.\<close>

fun sign_reports ::
  "'ri ra_env \<Rightarrow> u64 \<Rightarrow> 'ri ReportWithInfo list \<Rightarrow> bytes list \<Rightarrow> 'ri reportAttestationState \<Rightarrow>
   bytes list option \<times> 'ri reportAttestationState" where
  "sign_reports env seqNr [] sigs st = (Some sigs, st)"
| "sign_reports env seqNr (r # rs) sigs st =
     (case re_Sign env (ra_calls st) (cfg_ConfigDigest (re_config env)) seqNr r of
        None \<Rightarrow> (None, ra_tick st)
      | Some sig \<Rightarrow> sign_reports env seqNr rs (sigs @ [sig]) (ra_tick st))"

definition receivedCertifiedCommit ::
  "'ri ra_env \<Rightarrow> CertifiedCommit \<Rightarrow> 'ri reportAttestationState \<Rightarrow> 'ri reportAttestationState" where
  "receivedCertifiedCommit env cc st =
     (if (case round_of st (cmt_SeqNr cc) of None \<Rightarrow> False | Some r \<Rightarrow> rd_reportsWithInfo r \<noteq> None) then st
      else
        case re_Reports env (cmt_SeqNr cc) (cmt_Outcome cc) of
          None \<Rightarrow> st
        | Some None \<Rightarrow> st
        | Some (Some reportsWithInfo) \<Rightarrow>
            let (sigs, st) = sign_reports env (cmt_SeqNr cc) reportsWithInfo [] st
            in case sigs of
                 None \<Rightarrow> st
               | Some sigs \<Rightarrow>
                   let r = (case round_of st (cmt_SeqNr cc) of None \<Rightarrow> new_round env | Some r \<Rightarrow> r);
                       st = set_round (cmt_SeqNr cc)
                              (r\<lparr>rd_certifiedCommit := Some cc, rd_reportsWithInfo := Some reportsWithInfo\<rparr>) st
                   in ra_emit (RaBroadcast (MessageReportSignatures (cmt_SeqNr cc) sigs)) st)"

definition messageCertifiedCommit ::
  "'ri ra_env \<Rightarrow> CertifiedCommit \<Rightarrow> OracleID \<Rightarrow> 'ri reportAttestationState \<Rightarrow> 'ri reportAttestationState go" where
  "messageCertifiedCommit env cc sender st =
     (case round_of st (cmt_SeqNr cc) of
        None \<Rightarrow> Inr st
      | Some r \<Rightarrow>
          bindG (go_index (rd_oracles r) (unat sender)) (\<lambda>oracle.
          if \<not> (or_weRequested oracle \<and> \<not> or_theyServiced oracle) then Inr st
          else
            let st = set_round (cmt_SeqNr cc)
                   (r\<lparr>rd_oracles := (rd_oracles r)[unat sender := oracle\<lparr>or_theyServiced := True\<rparr>]\<rparr>) st
            in if rd_certifiedCommit r \<noteq> None then Inr st
               else if CertifiedCommit_Verify (re_crypto env) cc (cfg_ConfigDigest (re_config env))
                         (cfg_OracleIdentities (re_config env)) (ByzQuorumSize (re_config env)) \<noteq> None
               then Inr st
               else Inr (receivedCertifiedCommit env cc st)))"

definition eventCommittedOutcome ::
  "'ri ra_env \<Rightarrow> CertifiedCommit \<Rightarrow> 'ri reportAttestationState \<Rightarrow> 'ri reportAttestationState" where
  "eventCommittedOutcome env cc st = receivedCertifiedCommit env cc st"

section \<open>The event loop\<close>

fun processReportAttestation ::
  "'ri ra_env \<Rightarrow> MessageToReportAttestation \<Rightarrow> OracleID \<Rightarrow> 'ri reportAttestationState \<Rightarrow>
   'ri reportAttestationState go" where
  "processReportAttestation env (MessageReportSignatures s sigs) sender st = messageReportSignatures env s sigs sender st"
| "processReportAttestation env (MessageCertifiedCommitRequest s) sender st = messageCertifiedCommitRequest env s sender st"
| "processReportAttestation env (MessageCertifiedCommit cc) sender st = messageCertifiedCommit env cc sender st"

fun processEvent ::
  "'ri ra_env \<Rightarrow> EventToReportAttestation \<Rightarrow> 'ri reportAttestationState \<Rightarrow> 'ri reportAttestationState go" where
  "processEvent env (EventMissingOutcome s) st = eventMissingOutcome env s st"
| "processEvent env (EventCommittedOutcome cc) st = Inr (eventCommittedOutcome env cc st)"

text \<open>A message arrives, outcome generation sends an event, or the scheduler delivers its \<open>k\<close>-th
  pending event.\<close>

datatype ra_case =
    RaMessage MessageToReportAttestation OracleID
  | RaEvent EventToReportAttestation
  | RaScheduled nat

fun ra_ready :: "'ri reportAttestationState \<Rightarrow> ra_case \<Rightarrow> bool" where
  "ra_ready st (RaScheduled k) = (k < length (ra_scheduled st))"
| "ra_ready st c = True"

fun ra_process :: "'ri ra_env \<Rightarrow> ra_case \<Rightarrow> 'ri reportAttestationState \<Rightarrow> 'ri reportAttestationState go" where
  "ra_process env (RaMessage msg sender) st = processReportAttestation env msg sender st"
| "ra_process env (RaEvent ev) st = processEvent env ev st"
| "ra_process env (RaScheduled k) st =
     processEvent env (fst (ra_scheduled st ! k))
       (st\<lparr>ra_scheduled := take k (ra_scheduled st) @ drop (Suc k) (ra_scheduled st)\<rparr>)"

end
