(* ===== verification/RepAtt.thy ===== *)
theory RepAtt
  imports RepAttState "HOL-Library.Sublist"
begin

text \<open>
  Correctness of report attestation: what the loop over the oracles collects, the invariant of
  all reachable states, and the properties of the attested reports that leave the protocol.
\<close>

section \<open>Windows are bounded\<close>

lemma expiryRounds_bounds: "10 \<le> expiryRounds env" "expiryRounds env \<le> 50"
  using f64_clamp_bounds [of expiryMinRounds expiryMaxRounds]
  by (simp_all add: expiryRounds_def roundWindowSize_def expiryMinRounds_def expiryMaxRounds_def)

lemma lookaheadRounds_bounds: "4 \<le> lookaheadRounds env" "lookaheadRounds env \<le> 10"
  using f64_clamp_bounds [of lookaheadMinRounds lookaheadMaxRounds]
  by (simp_all add: lookaheadRounds_def roundWindowSize_def lookaheadMinRounds_def lookaheadMaxRounds_def)

lemma isBeyondExpiry_mono:
  assumes "isBeyondExpiry env st s" "ra_highestAttestedSeqNr st \<le> ra_highestAttestedSeqNr st'"
  shows "isBeyondExpiry env st' s"
proof -
  let ?x = "of_int (expiryRounds env) :: u64"
  have a: "?x < ra_highestAttestedSeqNr st" "s < ra_highestAttestedSeqNr st - ?x"
    using assms(1) by (auto simp: isBeyondExpiry_def Let_def not_le split: if_splits)
  have "?x < ra_highestAttestedSeqNr st'" using a(1) assms(2) by (rule order_less_le_trans)
  moreover have "s < ra_highestAttestedSeqNr st' - ?x"
    using a assms(2) by (simp add: word_less_nat_alt word_le_nat_alt unat_sub)
  ultimately show ?thesis by (simp add: isBeyondExpiry_def Let_def not_le)
qed

section \<open>Collecting signatures\<close>

abbreviation ids_of :: "'ri ra_env \<Rightarrow> OracleIdentity list" where
  "ids_of env \<equiv> cfg_OracleIdentities (re_config env)"

abbreviation pk_of :: "'ri ra_env \<Rightarrow> nat \<Rightarrow> bytes" where
  "pk_of env i \<equiv> oi_OnchainPublicKey (ids_of env ! i)"

text \<open>An oracle is good when it sent signatures and all of them are valid.\<close>

definition good_oracle :: "'ri ra_env \<Rightarrow> u64 \<Rightarrow> 'ri ReportWithInfo list \<Rightarrow> nat \<Rightarrow> repatt_oracle \<Rightarrow> bool" where
  "good_oracle env s rs i o1 \<longleftrightarrow> or_signatures o1 \<noteq> [] \<and> verifySignatures env (pk_of env i) s rs (or_signatures o1)"

fun good_count :: "'ri ra_env \<Rightarrow> u64 \<Rightarrow> 'ri ReportWithInfo list \<Rightarrow> nat \<Rightarrow> repatt_oracle list \<Rightarrow> int" where
  "good_count env s rs i [] = 0"
| "good_count env s rs i (o1 # os) = (if good_oracle env s rs i o1 then 1 else 0) + good_count env s rs (Suc i) os"

lemma good_count_nonneg [simp]: "0 \<le> good_count env s rs i os"
  by (induction os arbitrary: i) auto

text \<open>Cached verification results are right.\<close>

definition oracles_ok :: "'ri ra_env \<Rightarrow> u64 \<Rightarrow> 'ri ReportWithInfo list \<Rightarrow> nat \<Rightarrow> repatt_oracle list \<Rightarrow> bool" where
  "oracles_ok env s rs i os \<longleftrightarrow>
     (\<forall>k < length os. \<forall>v. or_validSignatures (os ! k) = Some v \<longrightarrow>
        or_signatures (os ! k) \<noteq> [] \<and> v = good_oracle env s rs (i + k) (os ! k))"

lemma oracles_ok_Cons:
  "oracles_ok env s rs i (o1 # os) \<longleftrightarrow>
     (\<forall>v. or_validSignatures o1 = Some v \<longrightarrow> or_signatures o1 \<noteq> [] \<and> v = good_oracle env s rs i o1) \<and>
     oracles_ok env s rs (Suc i) os"
proof -
  have "(\<forall>k < Suc n. Q k) \<longleftrightarrow> Q 0 \<and> (\<forall>k < n. Q (Suc k))" for n :: nat and Q
    by (metis Suc_less_eq not0_implies_Suc zero_less_Suc)
  from this [of "length os"] show ?thesis unfolding oracles_ok_def by simp
qed

text \<open>The signatures collected so far come from the same distinct oracles for every report.\<close>

definition attesting ::
  "'ri ra_env \<Rightarrow> u64 \<Rightarrow> 'ri ReportWithInfo list \<Rightarrow> nat \<Rightarrow> int \<Rightarrow> AttributedOnchainSignature list list \<Rightarrow> bool" where
  "attesting env s rs i good aoss \<longleftrightarrow>
     length aoss = length rs \<and>
     (\<exists>S. distinct S \<and> int (length S) = good \<and> (\<forall>x \<in> set S. unat x < i \<and> unat x < length (ids_of env)) \<and>
        (\<forall>j < length rs. map aos_Signer (aoss ! j) = S \<and>
           (\<forall>a \<in> set (aoss ! j). re_Verify env (pk_of env (unat (aos_Signer a))) (cfg_ConfigDigest (re_config env)) s
              (rs ! j) (aos_Signature a))))"

lemma append_sigs_eq:
  "length sigs = length aoss \<Longrightarrow>
     append_sigs i sigs aoss = Inr (map2 (\<lambda>a sig. a @ [\<lparr>aos_Signature = sig, aos_Signer = i\<rparr>]) aoss sigs)"
  by (induction i sigs aoss rule: append_sigs.induct) auto

lemma attesting_Suc: "attesting env s rs i good aoss \<Longrightarrow> attesting env s rs (Suc i) good aoss"
  unfolding attesting_def by (metis less_Suc_eq)

lemma attesting_add:
  assumes a: "attesting env s rs i good aoss" and v: "verifySignatures env (pk_of env i) s rs sigs"
    and i: "i < 256" "i < length (ids_of env)"
  shows "append_sigs (of_nat i) sigs aoss =
      Inr (map2 (\<lambda>a sig. a @ [\<lparr>aos_Signature = sig, aos_Signer = of_nat i\<rparr>]) aoss sigs)"
    and "attesting env s rs (Suc i) (good + 1)
      (map2 (\<lambda>a sig. a @ [\<lparr>aos_Signature = sig, aos_Signer = of_nat i\<rparr>]) aoss sigs)"
proof -
  have len: "length aoss = length rs" "length sigs = length rs"
    using a v by (auto simp: attesting_def verifySignatures_def)
  then show "append_sigs (of_nat i) sigs aoss =
      Inr (map2 (\<lambda>a sig. a @ [\<lparr>aos_Signature = sig, aos_Signer = of_nat i\<rparr>]) aoss sigs)"
    by (simp add: append_sigs_eq)
  obtain S where S: "distinct S" "int (length S) = good" "\<forall>x \<in> set S. unat x < i \<and> unat x < length (ids_of env)"
      "\<And>j. j < length rs \<Longrightarrow> map aos_Signer (aoss ! j) = S"
      "\<And>j a. j < length rs \<Longrightarrow> a \<in> set (aoss ! j) \<Longrightarrow> re_Verify env (pk_of env (unat (aos_Signer a)))
         (cfg_ConfigDigest (re_config env)) s (rs ! j) (aos_Signature a)"
    using a unfolding attesting_def by blast
  have u: "unat (of_nat i :: OracleID) = i" using i(1) by (simp add: unat_of_nat)
  have new: "re_Verify env (pk_of env i) (cfg_ConfigDigest (re_config env)) s (rs ! j) (sigs ! j)" if "j < length rs" for j
    using v that len by (auto simp: verifySignatures_def list_all_length)
  have "distinct (S @ [of_nat i :: OracleID])" using S(1,3) u by fastforce
  moreover have "\<forall>x \<in> set (S @ [of_nat i]). unat x < Suc i \<and> unat x < length (ids_of env)"
    using S(3) u i(2) by auto
  ultimately show "attesting env s rs (Suc i) (good + 1)
      (map2 (\<lambda>a sig. a @ [\<lparr>aos_Signature = sig, aos_Signer = of_nat i\<rparr>]) aoss sigs)"
    unfolding attesting_def using len S(2,4,5) new u
    by (intro conjI exI [of _ "S @ [of_nat i]"]) auto
qed

text \<open>What the loop returns: it never panics, and it counts good oracles up to \<open>F + 1\<close>.\<close>

lemma collect_signatures_spec:
  assumes "oracles_ok env s rs i os" "attesting env s rs i good aoss"
    and "i + length os \<le> length (ids_of env)" "length (ids_of env) \<le> 256" "good \<le> cfg_F (re_config env)"
  shows "goT (\<lambda>(os', g, a). map or_signatures os' = map or_signatures os \<and>
      oracles_ok env s rs i os' \<and> attesting env s rs (i + length os) g a \<and>
      g = min (cfg_F (re_config env) + 1) (good + good_count env s rs i os)) (collect_signatures env s rs i os good aoss)"
  using assms
proof (induction env s rs i os good aoss rule: collect_signatures.induct)
  case (1 env s rs i good aoss)
  then show ?case by simp
next
  case (2 env s rs i o1 os good aoss)
  have ok: "oracles_ok env s rs (Suc i) os" "\<And>v. or_validSignatures o1 = Some v \<Longrightarrow> or_signatures o1 \<noteq> [] \<and> v = good_oracle env s rs i o1"
    using "2.prems"(1) by (auto simp: oracles_ok_Cons)
  have i: "i < length (ids_of env)" "i < 256" "Suc i + length os \<le> length (ids_of env)" using "2.prems"(3,4) by auto
  show ?case
  proof (cases "or_signatures o1 = []")
    case True
    then have "\<not> good_oracle env s rs i o1" by (simp add: good_oracle_def)
    then show ?thesis
      using "2.IH"(1) [OF True ok(1) attesting_Suc [OF "2.prems"(2)] i(3) "2.prems"(4,5)] True ok(2)
      by (cases "or_validSignatures o1") (auto simp: goT_iff oracles_ok_Cons)
  next
    case False
    define v where "v = good_oracle env s rs i o1"
    define o2 where "o2 = o1\<lparr>or_validSignatures := Some v\<rparr>"
    have cached: "(case or_validSignatures o1 of Some v \<Rightarrow> Inr v
        | None \<Rightarrow> bindG (go_index (ids_of env) i) (\<lambda>identity.
            Inr (verifySignatures env (oi_OnchainPublicKey identity) s rs (or_signatures o1)))) = Inr v"
      using ok(2) False i(1) by (auto simp: v_def good_oracle_def go_index_in split: option.splits)
    have o2: "or_signatures o2 = or_signatures o1" "good_oracle env s rs i o2 = v" "or_validSignatures o2 = Some v"
      by (simp_all add: o2_def v_def good_oracle_def)
    define good' where "good' = (if v then good + 1 else good)"
    obtain aoss' where aoss': "(if v then append_sigs (of_nat i) (or_signatures o2) aoss else Inr aoss) = Inr aoss'"
        "attesting env s rs (Suc i) good' aoss'"
      using attesting_add [OF "2.prems"(2) _ i(2,1)] attesting_Suc [OF "2.prems"(2)] o2(1)
      by (cases v) (auto simp: good'_def v_def good_oracle_def)
    have eq: "collect_signatures env s rs i (o1 # os) good aoss =
        (if good' > cfg_F (re_config env) then Inr (o2 # os, good', aoss')
         else bindG (collect_signatures env s rs (Suc i) os good' aoss') (\<lambda>(oracles, r). Inr (o2 # oracles, r)))"
    proof (cases v)
      case True
      have "append_sigs (of_nat i) (or_signatures o1) aoss = Inr aoss'" using aoss'(1) True o2(1) by simp
      then show ?thesis using False True by (simp add: cached Let_def o2_def good'_def)
    next
      case v: False
      have "aoss' = aoss" using aoss'(1) v by simp
      then show ?thesis using False v by (simp add: cached Let_def o2_def good'_def)
    qed
    have gc: "good + good_count env s rs i (o1 # os) = good' + good_count env s rs (Suc i) os"
      by (simp add: good'_def v_def)
    show ?thesis
    proof (cases "good' > cfg_F (re_config env)")
      case True
      then have g: "good' = cfg_F (re_config env) + 1" using "2.prems"(5) by (auto simp: good'_def split: if_splits)
      have "attesting env s rs (i + length (o1 # os)) good' aoss'"
      proof -
        have "attesting env s rs (Suc i + k) good' aoss'" for k
          by (induction k) (use aoss'(2) attesting_Suc in auto)
        from this [of "length os"] show ?thesis by simp
      qed
      then show ?thesis
        unfolding eq gc using True g ok(1) o2 \<open>or_signatures o1 \<noteq> []\<close> by (simp add: oracles_ok_Cons)
    next
      case False
      have "goT (\<lambda>(os', g, a). map or_signatures os' = map or_signatures os \<and>
          oracles_ok env s rs (Suc i) os' \<and> attesting env s rs (Suc i + length os) g a \<and>
          g = min (cfg_F (re_config env) + 1) (good' + good_count env s rs (Suc i) os))
          (collect_signatures env s rs (Suc i) os good' aoss')"
        using False by (intro "2.IH"(2) [OF \<open>or_signatures o1 \<noteq> []\<close> cached o2_def good'_def aoss'(1) _ ok(1) aoss'(2) i(3) "2.prems"(4)]) simp_all
      then show ?thesis
        unfolding eq gc using False o2 \<open>or_signatures o1 \<noteq> []\<close> by (auto simp: goT_iff oracles_ok_Cons)
    qed
  qed
qed


section \<open>The invariant\<close>

abbreviation reports_of :: "'ri repatt_round \<Rightarrow> 'ri ReportWithInfo list" where
  "reports_of r \<equiv> (case rd_reportsWithInfo r of None \<Rightarrow> [] | Some rs \<Rightarrow> rs)"

definition round_ok :: "'ri ra_env \<Rightarrow> u64 \<Rightarrow> 'ri repatt_round \<Rightarrow> bool" where
  "round_ok env s r \<longleftrightarrow>
     length (rd_oracles r) = length (ids_of env) \<and>
     (\<forall>o1 \<in> set (rd_oracles r). or_validSignatures o1 \<noteq> None \<longrightarrow> reports_of r \<noteq> []) \<and>
     oracles_ok env s (reports_of r) 0 (rd_oracles r) \<and>
     (\<forall>rs. rd_reportsWithInfo r = Some rs \<longrightarrow> (\<exists>outcome. re_Reports env s outcome = Some (Some rs)))"

text \<open>What an attested report is: a report of the plugin with \<open>F + 1\<close> valid signatures of
  distinct oracles.\<close>

definition attested_ok :: "'ri ra_env \<Rightarrow> 'ri EventToTransmission \<Rightarrow> bool" where
  "attested_ok env ev \<longleftrightarrow>
     (\<exists>outcome rs. re_Reports env (ear_SeqNr ev) outcome = Some (Some rs) \<and>
        0 \<le> ear_Index ev \<and> nat (ear_Index ev) < length rs \<and>
        rs ! nat (ear_Index ev) = arm_ReportWithInfo (ear_AttestedReport ev)) \<and>
     int (length (arm_AttributedSignatures (ear_AttestedReport ev))) = cfg_F (re_config env) + 1 \<and>
     distinct (map aos_Signer (arm_AttributedSignatures (ear_AttestedReport ev))) \<and>
     (\<forall>a \<in> set (arm_AttributedSignatures (ear_AttestedReport ev)).
        unat (aos_Signer a) < length (ids_of env) \<and>
        re_Verify env (pk_of env (unat (aos_Signer a))) (cfg_ConfigDigest (re_config env)) (ear_SeqNr ev)
          (arm_ReportWithInfo (ear_AttestedReport ev)) (aos_Signature a))"

definition handed :: "'ri ra_effect list \<Rightarrow> 'ri EventToTransmission list" where
  "handed effs = concat (map (\<lambda>x. case x of RaToTransmission ev \<Rightarrow> [ev] | _ \<Rightarrow> []) effs)"

abbreviation ev_key :: "'ri EventToTransmission \<Rightarrow> u64 \<times> int" where
  "ev_key ev \<equiv> (ear_SeqNr ev, ear_Index ev)"

definition finished :: "'ri ra_env \<Rightarrow> 'ri reportAttestationState \<Rightarrow> u64 \<Rightarrow> bool" where
  "finished env st s \<longleftrightarrow> isBeyondExpiry env st s \<or> (\<exists>r. round_of st s = Some r \<and> rd_complete r)"

definition ra_inv :: "'ri ra_env \<Rightarrow> 'ri reportAttestationState \<Rightarrow> bool" where
  "ra_inv env st \<longleftrightarrow>
     length (ra_highestReportSignaturesSeqNr st) = length (ids_of env) \<and>
     (\<forall>s r. round_of st s = Some r \<longrightarrow> round_ok env s r) \<and>
     (\<forall>ev \<in> set (handed (ra_log st)). attested_ok env ev \<and> finished env st (ear_SeqNr ev)) \<and>
     distinct (map ev_key (handed (ra_log st))) \<and>
     (\<forall>ed \<in> set (ra_scheduled st). \<exists>s. fst ed = EventMissingOutcome s)"

lemma handed_simps [simp]:
  "handed [] = []" "handed (xs @ ys) = handed xs @ handed ys"
  "handed [RaSendTo m i] = []" "handed [RaBroadcast m] = []" "handed [RaToTransmission ev] = [ev]"
  by (simp_all add: handed_def)

lemma isBeyondExpiry_cong [simp]:
  "isBeyondExpiry env (set_round s r st) = isBeyondExpiry env st"
  "isBeyondExpiry env (ra_emit x st) = isBeyondExpiry env st"
  "isBeyondExpiry env (ra_tick st) = isBeyondExpiry env st"
  "isBeyondExpiry env (ScheduleDelay ev d st) = isBeyondExpiry env st"
  "isBeyondExpiry env (st\<lparr>ra_highestReportSignaturesSeqNr := h\<rparr>) = isBeyondExpiry env st"
  "isBeyondExpiry env (st\<lparr>ra_rounds := rs\<rparr>) = isBeyondExpiry env st"
  "isBeyondExpiry env (st\<lparr>ra_scheduled := sch\<rparr>) = isBeyondExpiry env st"
  by (simp_all add: isBeyondExpiry_def fun_eq_iff)

lemma round_of_cong [simp]:
  "round_of (st\<lparr>ra_highestReportSignaturesSeqNr := h\<rparr>) = round_of st"
  "round_of (st\<lparr>ra_highestAttestedSeqNr := h'\<rparr>) = round_of st"
  "round_of (st\<lparr>ra_scheduled := sch\<rparr>) = round_of st"
  by (simp_all add: round_of_def fun_eq_iff)

lemma ra_inv_init: "ra_inv env (newReportAttestationState env)"
  by (simp add: ra_inv_def newReportAttestationState_def round_of_def cfg_N_def)

lemma ra_inv_set_round:
  assumes "ra_inv env st" "round_ok env s r'" "\<And>r. round_of st s = Some r \<Longrightarrow> rd_complete r \<Longrightarrow> rd_complete r'"
  shows "ra_inv env (set_round s r' st)"
  using assms by (auto simp: ra_inv_def finished_def)

lemma ra_inv_tick [simp]: "ra_inv env (ra_tick st) = ra_inv env st"
  by (simp add: ra_inv_def finished_def)

lemma ra_inv_emit: "ra_inv env st \<Longrightarrow> (\<And>ev. x \<noteq> RaToTransmission ev) \<Longrightarrow> ra_inv env (ra_emit x st)"
  by (cases x) (simp_all add: ra_inv_def finished_def, blast)

lemma ra_inv_ScheduleDelay: "ra_inv env st \<Longrightarrow> ra_inv env (ScheduleDelay (EventMissingOutcome s) d st)"
  by (auto simp: ra_inv_def finished_def) (auto simp: ScheduleDelay_def)

lemma ra_inv_unschedule:
  "ra_inv env st \<Longrightarrow> set sch \<subseteq> set (ra_scheduled st) \<Longrightarrow> ra_inv env (st\<lparr>ra_scheduled := sch\<rparr>)"
  by (auto simp: ra_inv_def finished_def)

lemma ra_inv_highest:
  "ra_inv env st \<Longrightarrow> length h = length (ids_of env) \<Longrightarrow> ra_inv env (st\<lparr>ra_highestReportSignaturesSeqNr := h\<rparr>)"
  by (auto simp: ra_inv_def finished_def)

lemma ra_inv_attested:
  "ra_inv env st \<Longrightarrow> ra_highestAttestedSeqNr st \<le> h \<Longrightarrow> ra_inv env (st\<lparr>ra_highestAttestedSeqNr := h\<rparr>)"
  using isBeyondExpiry_mono [of env st _ "st\<lparr>ra_highestAttestedSeqNr := h\<rparr>"]
  by (auto simp: ra_inv_def finished_def)

lemma reap_simps [simp]:
  "ra_log (reap env st) = ra_log st" "ra_scheduled (reap env st) = ra_scheduled st"
  "ra_highestAttestedSeqNr (reap env st) = ra_highestAttestedSeqNr st"
  "ra_highestReportSignaturesSeqNr (reap env st) = ra_highestReportSignaturesSeqNr st"
  "isBeyondExpiry env (reap env st) = isBeyondExpiry env st"
  by (simp_all add: reap_def Let_def)

text \<open>Reaping only removes expired rounds.\<close>

lemma round_of_reap:
  "round_of (reap env st) s = round_of st s \<or> round_of (reap env st) s = None \<and> isBeyondExpiry env st s"
  by (simp add: reap_def Let_def round_of_def map_of_filter_key)

lemma ra_inv_reap: "ra_inv env st \<Longrightarrow> ra_inv env (reap env st)"
  unfolding ra_inv_def finished_def
  by (auto) (metis option.distinct(1) round_of_reap, metis round_of_reap)


section \<open>Completing a round\<close>

definition attested_event ::
  "u64 \<Rightarrow> nat \<Rightarrow> 'ri ReportWithInfo \<Rightarrow> AttributedOnchainSignature list \<Rightarrow> 'ri EventToTransmission" where
  "attested_event s j r aos = EventAttestedReport s (int j) \<lparr>arm_ReportWithInfo = r, arm_AttributedSignatures = aos\<rparr>"

text \<open>The events of a list of reports, numbered from \<open>i\<close>.\<close>

definition attested_events ::
  "u64 \<Rightarrow> nat \<Rightarrow> ('ri ReportWithInfo \<times> AttributedOnchainSignature list) list \<Rightarrow> 'ri EventToTransmission list" where
  "attested_events s i l = map (\<lambda>j. attested_event s (i + j) (fst (l ! j)) (snd (l ! j))) [0..<length l]"

lemma attested_events_Cons:
  "attested_events s i (x # l) = attested_event s i (fst x) (snd x) # attested_events s (Suc i) l"
  by (simp add: attested_events_def upt_conv_Cons map_Suc_upt [symmetric] o_def del: upt_Suc)

lemma send_reports_spec:
  "\<exists>evs k. subseq evs (attested_events s i l) \<and> ((\<forall>k. \<not> re_done env k) \<longrightarrow> evs = attested_events s i l) \<and>
     send_reports env s i l st = st\<lparr>ra_log := ra_log st @ map RaToTransmission evs, ra_calls := k\<rparr>"
proof (induction l arbitrary: i st)
  case Nil
  have "subseq ([] :: 'a EventToTransmission list) (attested_events s i [])" by simp
  moreover have "st = st\<lparr>ra_log := ra_log st @ map RaToTransmission [], ra_calls := ra_calls st\<rparr>" by simp
  moreover have "attested_events s i [] = []" by (simp add: attested_events_def)
  ultimately show ?case by (metis send_reports.simps(1))
next
  case (Cons x l)
  obtain r aos where x: "x = (r, aos)" by (cases x)
  define st1 where "st1 = (if re_done env (ra_calls st) then ra_tick st
     else ra_emit (RaToTransmission (attested_event s i r aos)) (ra_tick st))"
  obtain evs k where e: "subseq evs (attested_events s (Suc i) l)"
      "(\<forall>k. \<not> re_done env k) \<longrightarrow> evs = attested_events s (Suc i) l"
      "send_reports env s (Suc i) l st1 = st1\<lparr>ra_log := ra_log st1 @ map RaToTransmission evs, ra_calls := k\<rparr>"
    using Cons.IH by blast
  have eq: "send_reports env s i (x # l) st = send_reports env s (Suc i) l st1"
    by (simp add: x st1_def Let_def attested_event_def)
  show ?case
  proof (cases "re_done env (ra_calls st)")
    case True
    then show ?thesis unfolding eq e(3)
      by (intro exI [of _ evs] exI [of _ k]) (use e(1) in \<open>auto simp: st1_def ra_tick_def attested_events_Cons\<close>)
  next
    case False
    then show ?thesis unfolding eq e(3)
      by (intro exI [of _ "attested_event s i r aos # evs"] exI [of _ k])
        (use e(1,2) in \<open>auto simp: st1_def ra_tick_def ra_emit_def attested_events_Cons x\<close>)
  qed
qed

lemma handed_map [simp]: "handed (map RaToTransmission evs) = evs"
  by (induction evs) (simp_all add: handed_def)

lemma attested_events_keys:
  "map ev_key (attested_events s i l) = map (\<lambda>j. (s, int (i + j))) [0..<length l]"
  by (simp add: attested_events_def attested_event_def)

lemma subseq_map_distinct: "subseq xs ys \<Longrightarrow> distinct (map f ys) \<Longrightarrow> distinct (map f xs)"
  by (metis distinct_nthsI subseq_conv_nths subseq_map)

text \<open>Handing over fresh events of a completed round keeps the invariant.\<close>

lemma ra_inv_hand_over:
  assumes inv: "ra_inv env st" and fin: "finished env st s"
    and ok: "\<And>ev. ev \<in> set evs \<Longrightarrow> attested_ok env ev \<and> ear_SeqNr ev = s"
    and d: "distinct (map ev_key evs)" and fresh: "\<And>ev. ev \<in> set (handed (ra_log st)) \<Longrightarrow> ear_SeqNr ev \<noteq> s"
  shows "ra_inv env (st\<lparr>ra_log := ra_log st @ map RaToTransmission evs, ra_calls := k\<rparr>)"
proof -
  have [simp]: "finished env (st\<lparr>ra_log := l, ra_calls := k\<rparr>) s' = finished env st s'" for l s'
    by (simp add: finished_def isBeyondExpiry_def round_of_def)
  have [simp]: "round_of (st\<lparr>ra_log := l, ra_calls := k\<rparr>) s' = round_of st s'" for l s'
    by (simp add: round_of_def)
  show ?thesis
    using inv fin ok d fresh by (auto simp: ra_inv_def)
qed


text \<open>The code of \<open>tryComplete\<close> on the three branches.\<close>

lemma tryComplete_complete:
  "round_of st s = Some r \<Longrightarrow> rd_complete r \<Longrightarrow> tryComplete env s st = Inr st"
  by (simp add: tryComplete_def)

lemma tryComplete_no_reports:
  assumes "round_of st s = Some r" "\<not> rd_complete r" "reports_of r = []"
  shows "tryComplete env s st = Inr st \<or>
    tryComplete env s st = Inr (ScheduleDelay (EventMissingOutcome s) (cfg_DeltaCertifiedCommitRequest (re_config env))
      (set_round s (r\<lparr>rd_startedFetch := True\<rparr>) st))"
  using assms by (simp add: tryComplete_def Let_def)

lemma tryComplete_reports:
  assumes cfg: "cfg_ok (re_config env)" and r: "round_of st s = Some r" "\<not> rd_complete r" "reports_of r \<noteq> []"
    and ok: "round_ok env s r"
  obtains os' g aoss where
    "map or_signatures os' = map or_signatures (rd_oracles r)"
    "oracles_ok env s (reports_of r) 0 os'"
    "attesting env s (reports_of r) (length (ids_of env)) g aoss"
    "g = min (cfg_F (re_config env) + 1) (good_count env s (reports_of r) 0 (rd_oracles r))"
    "tryComplete env s st = Inr
       (if g \<le> cfg_F (re_config env) then set_round s (r\<lparr>rd_oracles := os'\<rparr>) st
        else reap env (send_reports env s 0 (zip (reports_of r) aoss)
          ((set_round s (r\<lparr>rd_oracles := os', rd_complete := True\<rparr>) st)
             \<lparr>ra_highestAttestedSeqNr := max s (ra_highestAttestedSeqNr st)\<rparr>)))"
proof -
  have N: "length (ids_of env) \<le> 256" "0 \<le> cfg_F (re_config env)" "length (rd_oracles r) = length (ids_of env)"
    using cfg ok by (auto simp: cfg_ok_def cfg_N_def MaxOracles_def round_ok_def)
  have "attesting env s (reports_of r) 0 0 (replicate (length (reports_of r)) [])"
    by (auto simp: attesting_def intro!: exI [of _ "[]"])
  then have "goT (\<lambda>(os', g, a). map or_signatures os' = map or_signatures (rd_oracles r) \<and>
      oracles_ok env s (reports_of r) 0 os' \<and> attesting env s (reports_of r) (0 + length (rd_oracles r)) g a \<and>
      g = min (cfg_F (re_config env) + 1) (0 + good_count env s (reports_of r) 0 (rd_oracles r)))
      (collect_signatures env s (reports_of r) 0 (rd_oracles r) 0 (replicate (length (reports_of r)) []))"
    using ok N by (intro collect_signatures_spec) (simp_all add: round_ok_def)
  then obtain os' g aoss where c: "collect_signatures env s (reports_of r) 0 (rd_oracles r) 0
        (replicate (length (reports_of r)) []) = Inr (os', g, aoss)"
      "map or_signatures os' = map or_signatures (rd_oracles r)" "oracles_ok env s (reports_of r) 0 os'"
      "attesting env s (reports_of r) (length (ids_of env)) g aoss"
      "g = min (cfg_F (re_config env) + 1) (good_count env s (reports_of r) 0 (rd_oracles r))"
    using N by (auto simp: goT_iff)
  have "tryComplete env s st = Inr
       (if g \<le> cfg_F (re_config env) then set_round s (r\<lparr>rd_oracles := os'\<rparr>) st
        else reap env (send_reports env s 0 (zip (reports_of r) aoss)
          ((set_round s (r\<lparr>rd_oracles := os', rd_complete := True\<rparr>) st)
             \<lparr>ra_highestAttestedSeqNr := max s (ra_highestAttestedSeqNr st)\<rparr>)))"
  proof -
    have same: "(set_round s r' st)\<lparr>ra_highestAttestedSeqNr := ra_highestAttestedSeqNr st\<rparr> = set_round s r' st" for r'
      by (cases st) (simp add: set_round_def)
    show ?thesis
      using r c(1) same by (simp add: tryComplete_def max_def not_less) (simp add: Let_def same not_less)
  qed
  then show ?thesis using that c(2-5) by blast
qed


lemma subseq_set: "subseq xs ys \<Longrightarrow> x \<in> set xs \<Longrightarrow> x \<in> set ys"
  by (metis notin_set_nthsI subseq_conv_nths)

lemma attesting_events_ok:
  assumes ok: "round_ok env s r" and a: "attesting env s (reports_of r) (length (ids_of env)) g aoss"
    and g: "g = cfg_F (re_config env) + 1"
    and ev: "ev \<in> set (attested_events s 0 (zip (reports_of r) aoss))"
  shows "attested_ok env ev \<and> ear_SeqNr ev = s"
proof -
  have len: "length aoss = length (reports_of r)" using a by (simp add: attesting_def)
  then obtain j where j: "j < length (reports_of r)" "ev = attested_event s j (reports_of r ! j) (aoss ! j)"
    using ev by (auto simp: attested_events_def)
  obtain S where S: "distinct S" "int (length S) = g" "\<forall>x \<in> set S. unat x < length (ids_of env)"
      "map aos_Signer (aoss ! j) = S"
      "\<And>a. a \<in> set (aoss ! j) \<Longrightarrow> re_Verify env (pk_of env (unat (aos_Signer a)))
         (cfg_ConfigDigest (re_config env)) s (reports_of r ! j) (aos_Signature a)"
    using a j(1) unfolding attesting_def by blast
  obtain rs where rs: "rd_reportsWithInfo r = Some rs" using j(1) by (auto split: option.splits)
  then obtain outcome where "re_Reports env s outcome = Some (Some rs)" using ok by (auto simp: round_ok_def)
  moreover have "unat (aos_Signer a) < length (ids_of env)" if "a \<in> set (aoss ! j)" for a
    using S(3,4) that by auto
  moreover have "length (aoss ! j) = length S" using S(4) by auto
  ultimately show ?thesis
    using j S(1,2,4,5) g rs by (auto simp: attested_ok_def attested_event_def)
qed

lemma ra_inv_tryComplete:
  assumes cfg: "cfg_ok (re_config env)" and inv: "ra_inv env st"
    and r: "round_of st s = Some r" and exp: "\<not> isBeyondExpiry env st s"
  shows "goT (ra_inv env) (tryComplete env s st)"
proof -
  consider "rd_complete r" | "\<not> rd_complete r" "reports_of r = []" | "\<not> rd_complete r" "reports_of r \<noteq> []" by blast
  then show ?thesis
  proof cases
    case 1
    then show ?thesis using tryComplete_complete [OF r] inv by simp
  next
    case 2
    have "round_ok env s (r\<lparr>rd_startedFetch := True\<rparr>)"
      using inv r by (auto simp: ra_inv_def round_ok_def)
    then have "ra_inv env (ScheduleDelay (EventMissingOutcome s) d (set_round s (r\<lparr>rd_startedFetch := True\<rparr>) st))" for d
      using inv r 2(1) by (intro ra_inv_ScheduleDelay ra_inv_set_round) auto
    then show ?thesis using tryComplete_no_reports [OF r 2, of env] inv by auto
  next
    case 3
    have rok: "round_ok env s r" using inv r by (simp add: ra_inv_def)
    from tryComplete_reports [OF cfg r 3 rok] obtain os' g aoss where t:
      "map or_signatures os' = map or_signatures (rd_oracles r)" "oracles_ok env s (reports_of r) 0 os'"
      "attesting env s (reports_of r) (length (ids_of env)) g aoss"
      "g = min (cfg_F (re_config env) + 1) (good_count env s (reports_of r) 0 (rd_oracles r))"
      "tryComplete env s st = Inr
         (if g \<le> cfg_F (re_config env) then set_round s (r\<lparr>rd_oracles := os'\<rparr>) st
          else reap env (send_reports env s 0 (zip (reports_of r) aoss)
            ((set_round s (r\<lparr>rd_oracles := os', rd_complete := True\<rparr>) st)
               \<lparr>ra_highestAttestedSeqNr := max s (ra_highestAttestedSeqNr st)\<rparr>)))"
      by blast
    have len: "length os' = length (rd_oracles r)" using t(1) by (metis length_map)
    have rok': "round_ok env s (r\<lparr>rd_oracles := os', rd_complete := b\<rparr>)" for b
      using rok t(2) len 3(2) by (auto simp: round_ok_def)
    show ?thesis
    proof (cases "g \<le> cfg_F (re_config env)")
      case True
      have "r\<lparr>rd_oracles := os'\<rparr> = r\<lparr>rd_oracles := os', rd_complete := False\<rparr>" using 3(1) by (cases r) simp
      then have "round_ok env s (r\<lparr>rd_oracles := os'\<rparr>)" using rok' [of False] by (rule ssubst)
      then have "ra_inv env (set_round s (r\<lparr>rd_oracles := os'\<rparr>) st)"
        using inv r 3(1) by (intro ra_inv_set_round) auto
      then show ?thesis using t(5) True by simp
    next
      case False
      define st1 where "st1 = (set_round s (r\<lparr>rd_oracles := os', rd_complete := True\<rparr>) st)
               \<lparr>ra_highestAttestedSeqNr := max s (ra_highestAttestedSeqNr st)\<rparr>"
      have g: "g = cfg_F (re_config env) + 1" using False t(4) by simp
      have inv1: "ra_inv env st1"
        unfolding st1_def by (intro ra_inv_attested ra_inv_set_round inv rok') (auto simp: max_def)
      obtain evs k where e: "subseq evs (attested_events s 0 (zip (reports_of r) aoss))"
        "send_reports env s 0 (zip (reports_of r) aoss) st1 = st1\<lparr>ra_log := ra_log st1 @ map RaToTransmission evs, ra_calls := k\<rparr>"
        using send_reports_spec [of s 0 "zip (reports_of r) aoss" env st1] by auto
      have "ra_inv env (st1\<lparr>ra_log := ra_log st1 @ map RaToTransmission evs, ra_calls := k\<rparr>)"
      proof (rule ra_inv_hand_over [OF inv1])
        show "finished env st1 s" by (auto simp: finished_def st1_def)
        show "attested_ok env ev \<and> ear_SeqNr ev = s" if "ev \<in> set evs" for ev
          using that e(1) attesting_events_ok [OF rok t(3)] g by (auto dest: subseq_set)
        show "distinct (map ev_key evs)"
          by (rule subseq_map_distinct [OF e(1)]) (simp add: attested_events_keys distinct_map inj_on_def)
        show "ear_SeqNr ev \<noteq> s" if "ev \<in> set (handed (ra_log st1))" for ev
          using that inv r 3(1) exp by (auto simp: st1_def ra_inv_def finished_def)
      qed
      then show ?thesis using t(5) False e(2) by (simp add: ra_inv_reap flip: st1_def)
    qed
  qed
qed


section \<open>Every handler keeps the invariant\<close>

text \<open>Updating one oracle of a round without touching its verification result.\<close>

lemma oracles_ok_update:
  assumes "oracles_ok env s rs 0 os" "k < length os"
    and "or_validSignatures o2 = or_validSignatures (os ! k)"
    and "or_signatures o2 = or_signatures (os ! k) \<or> or_validSignatures o2 = None"
  shows "oracles_ok env s rs 0 (os[k := o2])"
proof -
  have "or_signatures o2 \<noteq> [] \<and> v = good_oracle env s rs k o2" if "or_validSignatures o2 = Some v" for v
  proof -
    have "or_signatures (os ! k) \<noteq> [] \<and> v = good_oracle env s rs k (os ! k)"
      using assms(1) [unfolded oracles_ok_def, rule_format, OF assms(2), of v] assms(3) that by simp
    then show ?thesis using assms(4) that by (auto simp: good_oracle_def)
  qed
  then show ?thesis using assms(1,2) by (simp add: oracles_ok_def nth_list_update)
qed

lemma round_ok_update:
  assumes "round_ok env s r" "k < length (rd_oracles r)"
    and "or_validSignatures o2 = or_validSignatures (rd_oracles r ! k)"
    and "or_signatures o2 = or_signatures (rd_oracles r ! k) \<or> or_signatures (rd_oracles r ! k) = []"
  shows "round_ok env s (r\<lparr>rd_oracles := (rd_oracles r)[k := o2]\<rparr>)"
proof -
  have "or_validSignatures (rd_oracles r ! k) = None" if "or_signatures (rd_oracles r ! k) = []"
    using assms(1,2) that by (cases "or_validSignatures (rd_oracles r ! k)") (auto simp: round_ok_def oracles_ok_def)
  then have "oracles_ok env s (reports_of r) 0 ((rd_oracles r)[k := o2])"
    using assms by (intro oracles_ok_update) (auto simp: round_ok_def)
  moreover have "or_validSignatures o1 \<noteq> None \<longrightarrow> reports_of r \<noteq> []" if "o1 \<in> set ((rd_oracles r)[k := o2])" for o1
    using that assms(1-3) set_update_subset_insert by (fastforce simp: round_ok_def)
  ultimately show ?thesis using assms(1) by (simp add: round_ok_def)
qed

lemma round_ok_new: "round_ok env s (new_round env)"
  by (auto simp: round_ok_def new_round_def new_oracle_def oracles_ok_def cfg_N_def)

lemma round_okD: "ra_inv env st \<Longrightarrow> round_of st s = Some r \<Longrightarrow> round_ok env s r"
  by (simp add: ra_inv_def)

lemma length_oracles: "ra_inv env st \<Longrightarrow> round_of st s = Some r \<Longrightarrow> length (rd_oracles r) = length (ids_of env)"
  by (simp add: ra_inv_def round_ok_def)

lemma isBeyondLookahead_returns:
  assumes "cfg_ok (re_config env)" "ra_inv env st"
  obtains b where "isBeyondLookahead env st s = Inr b"
proof -
  have "0 \<le> cfg_F (re_config env)" "nat (cfg_F (re_config env)) < length (ra_highestReportSignaturesSeqNr st)"
    using assms by (auto simp: cfg_ok_def cfg_N_def ra_inv_def)
  then show ?thesis using that by (simp add: isBeyondLookahead_def Let_def)
qed

lemma keeps_messageReportSignatures:
  assumes cfg: "cfg_ok (re_config env)" and inv: "ra_inv env st" and i: "unat sender < length (ids_of env)"
  shows "goT (ra_inv env) (messageReportSignatures env s sigs sender st)"
proof (cases "isBeyondExpiry env st s")
  case False
  let ?hs = "ra_highestReportSignaturesSeqNr st"
  have len: "unat sender < length ?hs" using inv i by (simp add: ra_inv_def)
  define st1 where "st1 = (if ?hs ! unat sender < s then st\<lparr>ra_highestReportSignaturesSeqNr := ?hs[unat sender := s]\<rparr> else st)"
  have inv1: "ra_inv env st1" 
    using inv ra_inv_highest [OF inv, of "?hs[unat sender := s]"] len by (simp add: st1_def) (simp add: ra_inv_def)
  have exp1: "\<not> isBeyondExpiry env st1 s" using False by (simp add: st1_def)
  obtain b where b: "isBeyondLookahead env st1 s = Inr b" using isBeyondLookahead_returns [OF cfg inv1] by blast
  define st2 where "st2 = (if round_of st1 s = None then set_round s (new_round env) st1 else st1)"
  have inv2: "ra_inv env st2" 
    using inv1 ra_inv_set_round [OF inv1 round_ok_new [of env s]] by (auto simp: st2_def)
  have exp2: "\<not> isBeyondExpiry env st2 s" using exp1 by (simp add: st2_def)
  obtain r where r: "round_of st2 s = Some r" by (cases "round_of st1 s") (auto simp: st2_def)
  have len2: "unat sender < length (rd_oracles r)" using length_oracles [OF inv2 r] i by simp
  define r' where "r' = r\<lparr>rd_oracles := (rd_oracles r)[unat sender := (rd_oracles r ! unat sender)\<lparr>or_signatures := sigs\<rparr>]\<rparr>"
  have eq: "messageReportSignatures env s sigs sender st =
      (if b then Inr st1 else if or_signatures (rd_oracles r ! unat sender) \<noteq> [] then Inr st2
       else tryComplete env s (set_round s r' st2))"
  proof -
    have "messageReportSignatures env s sigs sender st = bindG (isBeyondLookahead env st1 s) (\<lambda>beyond.
        if beyond then Inr st1
        else bindG (go_deref (round_of st2 s)) (\<lambda>r. bindG (go_index (rd_oracles r) (unat sender)) (\<lambda>oracle.
          if or_signatures oracle \<noteq> [] then Inr st2
          else tryComplete env s (set_round s
            (r\<lparr>rd_oracles := (rd_oracles r)[unat sender := oracle\<lparr>or_signatures := sigs\<rparr>]\<rparr>) st2))))"
      by (simp only: messageReportSignatures_def Let_def False if_False go_index_in [OF len] bindG_simps st1_def st2_def)
    then show ?thesis using b r len2 by (simp add: r'_def)
  qed
  have "ra_inv env (set_round s r' st2)" if "or_signatures (rd_oracles r ! unat sender) = []"
  proof (rule ra_inv_set_round [OF inv2])
    show "round_ok env s r'"
      unfolding r'_def using round_okD [OF inv2 r] len2 that by (intro round_ok_update) auto
  qed (use r in \<open>auto simp: r'_def\<close>)
  then have "goT (ra_inv env) (tryComplete env s (set_round s r' st2))" if "or_signatures (rd_oracles r ! unat sender) = []"
    using that exp2 by (intro ra_inv_tryComplete [OF cfg, of _ _ r']) auto
  then show ?thesis using inv1 inv2 eq by auto
qed (use inv in \<open>simp add: messageReportSignatures_def\<close>)

lemma keeps_eventMissingOutcome:
  assumes inv: "ra_inv env st" and rnd: "\<And>k n x. re_rand env k n = Some x \<Longrightarrow> 0 \<le> x \<and> x < n"
    and r: "round_of st s = Some r"
  shows "goT (ra_inv env) (eventMissingOutcome env s st)"
proof -
  let ?cs = "request_candidates (rd_oracles r)"
  have "ra_inv env (ScheduleDelay (EventMissingOutcome s) d (ra_emit (RaSendTo m j) (set_round s
      (r\<lparr>rd_oracles := (rd_oracles r)[?cs ! k := (rd_oracles r ! (?cs ! k))\<lparr>or_weRequested := True\<rparr>]\<rparr>) (ra_tick st))))"
    if "k < length ?cs" for k m j d
  proof -
    have "?cs ! k < length (rd_oracles r)"
      using nth_mem [OF that] by (auto simp: request_candidates_def)
    then show ?thesis
      using inv r round_okD [OF inv r]
      by (intro ra_inv_ScheduleDelay ra_inv_emit ra_inv_set_round round_ok_update) auto
  qed
  then show ?thesis
    using r inv rnd [of "ra_calls st" "int (length ?cs)"]
    by (auto simp: eventMissingOutcome_def tryRequestCertifiedCommit_def Let_def nat_less_iff split: option.splits)
qed

lemma keeps_messageCertifiedCommitRequest:
  assumes inv: "ra_inv env st" and i: "unat sender < length (ids_of env)"
  shows "goT (ra_inv env) (messageCertifiedCommitRequest env s sender st)"
proof (cases "round_of st s")
  case (Some r)
  have "unat sender < length (rd_oracles r)" using length_oracles [OF inv Some] i by simp
  then show ?thesis
    using inv Some round_okD [OF inv Some]
    by (auto simp: messageCertifiedCommitRequest_def split: option.splits
        intro!: ra_inv_emit ra_inv_set_round round_ok_update)
qed (use inv in \<open>simp add: messageCertifiedCommitRequest_def\<close>)

lemma sign_reports_state: "\<exists>n. snd (sign_reports env s rs sigs st) = st\<lparr>ra_calls := n\<rparr>"
proof (induction rs arbitrary: sigs st)
  case Nil
  have "st = st\<lparr>ra_calls := ra_calls st\<rparr>" by simp
  then show ?case by (metis sign_reports.simps(1) snd_conv)
next
  case (Cons r rs)
  show ?case
  proof (cases "re_Sign env (ra_calls st) (cfg_ConfigDigest (re_config env)) s r")
    case None
    then show ?thesis by (auto simp: ra_tick_def)
  next
    case (Some sig)
    then show ?thesis using Cons.IH [of "sigs @ [sig]" "ra_tick st"] by (auto simp: ra_tick_def)
  qed
qed

lemma ra_inv_calls [simp]: "ra_inv env (st\<lparr>ra_calls := n\<rparr>) = ra_inv env st"
  by (simp add: ra_inv_def finished_def isBeyondExpiry_def round_of_def)

lemma keeps_receivedCertifiedCommit:
  assumes inv: "ra_inv env st"
  shows "ra_inv env (receivedCertifiedCommit env cc st)"
proof -
  let ?s = "cmt_SeqNr cc"
  have calls [simp]: "round_of (st\<lparr>ra_calls := n\<rparr>) s = round_of st s" for s n by (simp add: round_of_def)
  have ok: "round_ok env ?s (r\<lparr>rd_certifiedCommit := Some cc, rd_reportsWithInfo := Some rs\<rparr>)"
    if "round_ok env ?s r" "rd_reportsWithInfo r = None" "re_Reports env ?s (cmt_Outcome cc) = Some (Some rs)" for r rs
  proof -
    have none: "or_validSignatures o1 = None" if "o1 \<in> set (rd_oracles r)" for o1
      using \<open>round_ok env ?s r\<close> \<open>rd_reportsWithInfo r = None\<close> that by (force simp: round_ok_def)
    then show ?thesis using that none by (auto simp: round_ok_def oracles_ok_def)
  qed
  have new: "rd_reportsWithInfo (new_round env) = None" "\<not> rd_complete (new_round env)" by (simp_all add: new_round_def)
  have step: "ra_inv env (ra_emit (RaBroadcast m) (set_round ?s
      ((case round_of st ?s of None \<Rightarrow> new_round env | Some r \<Rightarrow> r)
         \<lparr>rd_certifiedCommit := Some cc, rd_reportsWithInfo := Some rs\<rparr>) (st\<lparr>ra_calls := n\<rparr>)))"
    if "re_Reports env ?s (cmt_Outcome cc) = Some (Some rs)"
      "\<not> (case round_of st ?s of None \<Rightarrow> False | Some r \<Rightarrow> rd_reportsWithInfo r \<noteq> None)" for rs m n
    using that inv ok [OF round_ok_new new(1)] ok round_okD [OF inv]
    by (intro ra_inv_emit ra_inv_set_round) (auto split: option.splits)
  show ?thesis
  proof (cases "(case round_of st ?s of None \<Rightarrow> False | Some r \<Rightarrow> rd_reportsWithInfo r \<noteq> None) \<or>
      re_Reports env ?s (cmt_Outcome cc) = None \<or> re_Reports env ?s (cmt_Outcome cc) = Some None")
    case True
    then show ?thesis using inv by (auto simp: receivedCertifiedCommit_def)
  next
    case False
    then obtain rs where rs: "re_Reports env ?s (cmt_Outcome cc) = Some (Some rs)" by auto
    obtain n sigs where n: "sign_reports env ?s rs [] st = (sigs, st\<lparr>ra_calls := n\<rparr>)"
      using sign_reports_state [of env ?s rs "[]" st] by (metis prod.collapse)
    show ?thesis
    proof (cases sigs)
      case None
      then show ?thesis using False rs n inv by (simp add: receivedCertifiedCommit_def)
    next
      case (Some sg)
      have "receivedCertifiedCommit env cc st = ra_emit (RaBroadcast (MessageReportSignatures ?s sg)) (set_round ?s
          ((case round_of st ?s of None \<Rightarrow> new_round env | Some r \<Rightarrow> r)
             \<lparr>rd_certifiedCommit := Some cc, rd_reportsWithInfo := Some rs\<rparr>) (st\<lparr>ra_calls := n\<rparr>))"
        using False rs n Some by (simp add: receivedCertifiedCommit_def Let_def)
      then show ?thesis using step [OF rs] False by simp
    qed
  qed
qed


section \<open>The event loop\<close>

text \<open>What the network, outcome generation and the scheduler deliver.\<close>

fun ra_case_ok :: "'ri ra_env \<Rightarrow> ra_case \<Rightarrow> bool" where
  "ra_case_ok env (RaMessage msg sender) = (unat sender < length (ids_of env))"
| "ra_case_ok env (RaEvent ev) = (\<exists>cc. ev = EventCommittedOutcome cc)"
| "ra_case_ok env (RaScheduled k) = True"

definition ra_setting :: "'ri ra_env \<Rightarrow> bool" where
  "ra_setting env \<longleftrightarrow> cfg_ok (re_config env) \<and> (\<forall>k n x. re_rand env k n = Some x \<longrightarrow> 0 \<le> x \<and> x < n)"

lemma keeps_messageCertifiedCommit:
  assumes inv: "ra_inv env st" and i: "unat sender < length (ids_of env)"
  shows "goT (ra_inv env) (messageCertifiedCommit env cc sender st)"
proof (cases "round_of st (cmt_SeqNr cc)")
  case (Some r)
  have "unat sender < length (rd_oracles r)" using length_oracles [OF inv Some] i by simp
  then show ?thesis
    using inv Some round_okD [OF inv Some]
    by (auto simp: messageCertifiedCommit_def Let_def
        intro!: keeps_receivedCertifiedCommit ra_inv_set_round round_ok_update)
qed (use inv in \<open>simp add: messageCertifiedCommit_def\<close>)

text \<open>Every handler returns and keeps the invariant, except the one that panics on a round that
  is gone.\<close>

lemma keeps_ra_process:
  assumes set: "ra_setting env" and inv: "ra_inv env st" and ready: "ra_ready st c" and ok: "ra_case_ok env c"
  shows "goT (ra_inv env) (ra_process env c st) \<or>
    (\<exists>k s d. c = RaScheduled k \<and> ra_scheduled st ! k = (EventMissingOutcome s, d) \<and> round_of st s = None \<and>
       ra_process env c st = Inl NilDereference)"
proof (cases c)
  case (RaMessage msg sender)
  then show ?thesis
    using set inv ok keeps_messageReportSignatures keeps_messageCertifiedCommitRequest keeps_messageCertifiedCommit
    by (cases msg) (auto simp: ra_setting_def)
next
  case (RaEvent ev)
  then show ?thesis using ok inv keeps_receivedCertifiedCommit by (auto simp: eventCommittedOutcome_def)
next
  case (RaScheduled k)
  then have k: "k < length (ra_scheduled st)" using ready by simp
  obtain s d where e: "ra_scheduled st ! k = (EventMissingOutcome s, d)"
    using inv nth_mem [OF k] by (metis prod.collapse ra_inv_def)
  define st1 where "st1 = st\<lparr>ra_scheduled := take k (ra_scheduled st) @ drop (Suc k) (ra_scheduled st)\<rparr>"
  have inv1: "ra_inv env st1"
    unfolding st1_def by (rule ra_inv_unschedule [OF inv]) (auto dest: in_set_takeD in_set_dropD)
  have p: "ra_process env c st = eventMissingOutcome env s st1" by (simp add: RaScheduled e st1_def)
  show ?thesis
  proof (cases "round_of st1 s")
    case None
    then have "round_of st s = None" by (simp add: st1_def)
    then show ?thesis using None p RaScheduled e by (simp add: eventMissingOutcome_def)
  next
    case (Some r)
    then show ?thesis using keeps_eventMissingOutcome [OF inv1 _ Some] set p by (auto simp: ra_setting_def)
  qed
qed

text \<open>Reachability by deliveries of that kind.\<close>

inductive ra_run :: "'ri ra_env \<Rightarrow> 'ri reportAttestationState \<Rightarrow> bool" for env where
  ra_run_init: "ra_run env (newReportAttestationState env)"
| ra_run_step: "ra_run env st \<Longrightarrow> ra_ready st c \<Longrightarrow> ra_case_ok env c \<Longrightarrow> ra_process env c st = Inr st' \<Longrightarrow> ra_run env st'"

lemma ra_run_inv: "ra_run env st \<Longrightarrow> ra_setting env \<Longrightarrow> ra_inv env st"
proof (induction rule: ra_run.induct)
  case ra_run_init
  then show ?case by (simp add: ra_inv_init)
next
  case (ra_run_step st c st')
  then show ?case using keeps_ra_process [of env st c] by auto
qed

end
