(* ===== verification/RepAttProps.thy ===== *)
theory RepAttProps
  imports RepAtt
begin

text \<open>
  The properties of report attestation, with one example run of four oracles: a committed outcome
  with two reports, and the signatures of two oracles.
\<close>

section \<open>An example run\<close>

definition ra_example_env :: "bytes ra_env" where
  "ra_example_env =
     \<lparr>re_crypto = \<lparr>sha256 = (\<lambda>x. x), ed25519_Verify = (\<lambda>pk m s. True)\<rparr>,
      re_config = example_config\<lparr>cfg_DeltaRound := 10000000000, cfg_DeltaProgress := 20000000000\<rparr>,
      re_Reports = (\<lambda>s outcome. Some (Some [\<lparr>rwi_Report = outcome, rwi_Info = []\<rparr>, \<lparr>rwi_Report = [], rwi_Info = []\<rparr>])),
      re_Sign = (\<lambda>k cd s r. Some [0]),
      re_Verify = (\<lambda>pk cd s r sig. pk = sig),
      re_rand = (\<lambda>k n. if 0 < n then Some 0 else None), re_done = (\<lambda>k. False)\<rparr>"

lemma ra_example_setting: "ra_setting ra_example_env"
  by (simp add: ra_setting_def ra_example_env_def cfg_ok_def MaxOracles_def cfg_N_def)
    (simp add: example_config_def)

fun ra_exec :: "'ri ra_env \<Rightarrow> ra_case list \<Rightarrow> 'ri reportAttestationState \<Rightarrow> 'ri reportAttestationState go" where
  "ra_exec env [] st = Inr st"
| "ra_exec env (c # cs) st = bindG (ra_process env c st) (ra_exec env cs)"

fun ra_unscheduled :: "'ri ra_env \<Rightarrow> ra_case \<Rightarrow> bool" where
  "ra_unscheduled env (RaScheduled k) = False"
| "ra_unscheduled env c = ra_case_ok env c"

lemma ra_exec_run:
  "ra_run env st \<Longrightarrow> list_all (ra_unscheduled env) cs \<Longrightarrow> ra_exec env cs st = Inr st' \<Longrightarrow> ra_run env st'"
proof (induction env cs st rule: ra_exec.induct)
  case (2 env c cs st)
  obtain x where x: "ra_process env c st = Inr x" "ra_exec env cs x = Inr st'"
    using "2.prems"(3) by (auto simp: bindG_eq_Inr_iff)
  have "ra_ready st c" "ra_case_ok env c" using "2.prems"(2) by (cases c; simp)+
  then have "ra_run env x" using "2.prems"(1) x(1) by (auto intro: ra_run_step)
  then show ?case using "2.IH" [OF x(1) _ _ x(2)] "2.prems"(2) by simp
qed simp

definition ra_example_cc :: CertifiedCommit where
  "ra_example_cc = \<lparr>cmt_CommitEpoch = 1, cmt_SeqNr = 1, cmt_Outcome = [5], cmt_CommitQuorumCertificate = []\<rparr>"

definition ra_example_cases :: "ra_case list" where
  "ra_example_cases = [RaEvent (EventCommittedOutcome ra_example_cc), RaMessage (MessageReportSignatures 1 [[0], [0]]) 0]"

definition ra_example_state :: "bytes reportAttestationState go" where
  "ra_example_state = ra_exec ra_example_env ra_example_cases (newReportAttestationState ra_example_env)"

definition ra_final_state :: "bytes reportAttestationState go" where
  "ra_final_state = bindG ra_example_state (ra_exec ra_example_env [RaMessage (MessageReportSignatures 1 [[1], [1]]) 1])"

lemma ra_final_log:
  "map_sum id ra_log ra_final_state = Inr
     [RaBroadcast (MessageReportSignatures 1 [[0], [0]]),
      RaToTransmission (EventAttestedReport 1 0 \<lparr>arm_ReportWithInfo = \<lparr>rwi_Report = [5], rwi_Info = []\<rparr>,
        arm_AttributedSignatures = [\<lparr>aos_Signature = [0], aos_Signer = 0\<rparr>, \<lparr>aos_Signature = [1], aos_Signer = 1\<rparr>]\<rparr>),
      RaToTransmission (EventAttestedReport 1 1 \<lparr>arm_ReportWithInfo = \<lparr>rwi_Report = [], rwi_Info = []\<rparr>,
        arm_AttributedSignatures = [\<lparr>aos_Signature = [0], aos_Signer = 0\<rparr>, \<lparr>aos_Signature = [1], aos_Signer = 1\<rparr>]\<rparr>)]"
  by code_simp


lemma ra_example_cases_ok:
  "list_all (ra_unscheduled ra_example_env) ra_example_cases"
  "ra_case_ok ra_example_env (RaMessage (MessageReportSignatures 1 [[1], [1]]) 1)"
  by (simp_all add: ra_example_cases_def ra_example_env_def example_config_def)

lemma ra_final_run:
  obtains st where "ra_run ra_example_env st"
    "RaToTransmission (EventAttestedReport 1 0 \<lparr>arm_ReportWithInfo = \<lparr>rwi_Report = [5], rwi_Info = []\<rparr>,
        arm_AttributedSignatures = [\<lparr>aos_Signature = [0], aos_Signer = 0\<rparr>, \<lparr>aos_Signature = [1], aos_Signer = 1\<rparr>]\<rparr>)
       \<in> set (ra_log st)"
proof -
  obtain st where st: "ra_final_state = Inr st"
  proof (cases ra_final_state)
    case (Inl p)
    then show ?thesis using ra_final_log unfolding Inl by simp
  qed
  then obtain st0 where st0: "ra_example_state = Inr st0"
      "ra_exec ra_example_env [RaMessage (MessageReportSignatures 1 [[1], [1]]) 1] st0 = Inr st"
    unfolding ra_final_state_def by (auto simp: bindG_eq_Inr_iff simp del: ra_exec.simps)
  have "ra_run ra_example_env st0"
    using ra_exec_run [OF ra_run_init ra_example_cases_ok(1)] st0(1) unfolding ra_example_state_def by blast
  moreover have "list_all (ra_unscheduled ra_example_env) [RaMessage (MessageReportSignatures 1 [[1], [1]]) 1]"
    using ra_example_cases_ok(2) by simp
  ultimately have "ra_run ra_example_env st"
    using ra_exec_run st0(2) by blast
  then show ?thesis using that ra_final_log unfolding st by simp
qed

text \<open>A second run: the signatures arrive before the outcome.\<close>

definition ra_late_cases :: "ra_case list" where
  "ra_late_cases = [RaMessage (MessageReportSignatures 1 [[0], [0]]) 0, RaMessage (MessageReportSignatures 1 [[1], [1]]) 1,
     RaEvent (EventCommittedOutcome ra_example_cc)]"

definition ra_late_state :: "bytes reportAttestationState go" where
  "ra_late_state = ra_exec ra_example_env ra_late_cases (newReportAttestationState ra_example_env)"

definition ra_late_reports :: "bytes ReportWithInfo list" where
  "ra_late_reports = [\<lparr>rwi_Report = [5], rwi_Info = []\<rparr>, \<lparr>rwi_Report = [], rwi_Info = []\<rparr>]"

lemma ra_late_round:
  "map_sum id (\<lambda>st. map_option (\<lambda>r. (rd_complete r, rd_reportsWithInfo r = Some ra_late_reports,
       length (filter (\<lambda>i. good_oracle ra_example_env 1 ra_late_reports i (rd_oracles r ! i)) [0..<length (rd_oracles r)])))
     (round_of st 1)) ra_late_state = Inr (Some (False, True, 2))"
  by code_simp

lemma ra_late_run:
  obtains st r where "ra_run ra_example_env st" "round_of st 1 = Some r" "\<not> rd_complete r"
    "rd_reportsWithInfo r = Some ra_late_reports"
    "length (filter (\<lambda>i. good_oracle ra_example_env 1 ra_late_reports i (rd_oracles r ! i)) [0..<length (rd_oracles r)]) = 2"
proof (cases ra_late_state)
  case (Inl p)
  then show ?thesis using ra_late_round unfolding Inl by simp
next
  case (Inr st)
  have ok: "list_all (ra_unscheduled ra_example_env) ra_late_cases"
    by (simp add: ra_late_cases_def ra_example_env_def example_config_def)
  have "ra_run ra_example_env st"
    using ra_exec_run [OF ra_run_init ok] Inr unfolding ra_late_state_def by blast
  then show ?thesis using that ra_late_round unfolding Inr by auto
qed

section \<open>Safety\<close>

text \<open>C7: Every attested report handed to the transmission protocol is the report that the plugin
  computed for its sequence number at its index, and carries exactly \<open>F + 1\<close> signatures of distinct
  oracles of the configuration, each of which the key ring verifies on that report under the
  oracle's onchain public key. So at least one correct oracle signed it.\<close>

theorem attested_reports_are_signed:
  assumes "ra_run env st" "ra_setting env"
    and "RaToTransmission (EventAttestedReport s i rep) \<in> set (ra_log st)"
  shows "(\<exists>outcome rs. re_Reports env s outcome = Some (Some rs) \<and> 0 \<le> i \<and> nat i < length rs \<and>
            rs ! nat i = arm_ReportWithInfo rep) \<and>
    int (length (arm_AttributedSignatures rep)) = cfg_F (re_config env) + 1 \<and>
    distinct (map aos_Signer (arm_AttributedSignatures rep)) \<and>
    (\<forall>a \<in> set (arm_AttributedSignatures rep). unat (aos_Signer a) < length (cfg_OracleIdentities (re_config env)) \<and>
       re_Verify env (oi_OnchainPublicKey (cfg_OracleIdentities (re_config env) ! unat (aos_Signer a)))
         (cfg_ConfigDigest (re_config env)) s (arm_ReportWithInfo rep) (aos_Signature a))"
proof -
  have "EventAttestedReport s i rep \<in> set (handed (ra_log st))"
    using assms(3) by (force simp: handed_def)
  then have "attested_ok env (EventAttestedReport s i rep)"
    using ra_run_inv [OF assms(1,2)] by (simp add: ra_inv_def)
  then show ?thesis by (simp add: attested_ok_def)
qed

theorem attested_reports_are_signed_witness:
  "\<exists>st :: bytes reportAttestationState. ra_run ra_example_env st \<and>
     (\<exists>rep. RaToTransmission (EventAttestedReport 1 0 rep) \<in> set (ra_log st) \<and>
        int (length (arm_AttributedSignatures rep)) = cfg_F (re_config ra_example_env) + 1)"
proof -
  obtain st where st: "ra_run ra_example_env st"
    "RaToTransmission (EventAttestedReport 1 0 \<lparr>arm_ReportWithInfo = \<lparr>rwi_Report = [5], rwi_Info = []\<rparr>,
        arm_AttributedSignatures = [\<lparr>aos_Signature = [0], aos_Signer = 0\<rparr>, \<lparr>aos_Signature = [1], aos_Signer = 1\<rparr>]\<rparr>)
       \<in> set (ra_log st)"
    by (rule ra_final_run)
  show ?thesis
    using st attested_reports_are_signed [OF st(1) ra_example_setting st(2)] by blast
qed

text \<open>C8: A report, named by its sequence number and index, is handed to the transmission protocol
  at most once, in spite of rounds being reaped and created again for the same sequence number.\<close>

theorem reports_are_attested_once:
  assumes "ra_run env st" "ra_setting env"
  shows "distinct (map (\<lambda>ev. (ear_SeqNr ev, ear_Index ev)) (handed (ra_log st)))"
  using ra_run_inv [OF assms] by (simp add: ra_inv_def)

theorem reports_are_attested_once_witness:
  "\<exists>st :: bytes reportAttestationState. ra_run ra_example_env st \<and> handed (ra_log st) \<noteq> [] \<and>
     distinct (map (\<lambda>ev. (ear_SeqNr ev, ear_Index ev)) (handed (ra_log st)))"
proof -
  obtain st where st: "ra_run ra_example_env st"
    "RaToTransmission (EventAttestedReport 1 0 \<lparr>arm_ReportWithInfo = \<lparr>rwi_Report = [5], rwi_Info = []\<rparr>,
        arm_AttributedSignatures = [\<lparr>aos_Signature = [0], aos_Signer = 0\<rparr>, \<lparr>aos_Signature = [1], aos_Signer = 1\<rparr>]\<rparr>)
       \<in> set (ra_log st)"
    by (rule ra_final_run)
  have "handed (ra_log st) \<noteq> []" using st(2) by (force simp: handed_def)
  then show ?thesis using st(1) reports_are_attested_once [OF st(1) ra_example_setting] by blast
qed


section \<open>Progress\<close>

lemma good_count_filter:
  "good_count env s rs i os = int (length (filter (\<lambda>j. good_oracle env s rs (i + j) (os ! j)) [0..<length os]))"
proof (induction os arbitrary: i)
  case (Cons o1 os)
  have "filter (\<lambda>j. good_oracle env s rs (i + j) ((o1 # os) ! j)) [0..<length (o1 # os)] =
      (if good_oracle env s rs i o1 then [0] else []) @
      map Suc (filter (\<lambda>j. good_oracle env s rs (Suc i + j) (os ! j)) [0..<length os])"
    by (simp add: upt_conv_Cons filter_map o_def flip: map_Suc_upt del: upt_Suc)
  then show ?case using Cons.IH [of "Suc i"] by simp
qed simp

text \<open>C33: \<open>tryComplete\<close> on a round whose reports are known never panics and decides exactly on
  the number of oracles that sent valid signatures: with more than \<open>F\<close> of them every report of the
  round leaves as an attested report, in order and under its own index, and with at most \<open>F\<close>
  nothing leaves and the round stays open (unless the context is done, when sends may be skipped).\<close>

theorem enough_signatures_attest_all_reports:
  assumes run: "ra_run env st" "ra_setting env" and alive: "\<forall>k. \<not> re_done env k"
    and r: "round_of st s = Some r" "\<not> rd_complete r" "rd_reportsWithInfo r = Some rs" "rs \<noteq> []"
  defines "good \<equiv> length (filter (\<lambda>i. good_oracle env s rs i (rd_oracles r ! i)) [0..<length (rd_oracles r)])"
  shows "\<exists>st' evs. tryComplete env s st = Inr st' \<and> handed (ra_log st') = handed (ra_log st) @ evs \<and>
     (if int good > cfg_F (re_config env)
      then map (\<lambda>ev. (ear_SeqNr ev, ear_Index ev)) evs = map (\<lambda>j. (s, int j)) [0..<length rs] \<and>
           map (\<lambda>ev. arm_ReportWithInfo (ear_AttestedReport ev)) evs = rs
      else evs = [] \<and> (\<exists>r'. round_of st' s = Some r' \<and> \<not> rd_complete r'))"
proof -
  have inv: "ra_inv env st" and cfg: "cfg_ok (re_config env)"
    using ra_run_inv [OF run] run(2) by (simp_all add: ra_setting_def)
  have rs: "reports_of r = rs" "reports_of r \<noteq> []" using r by simp_all
  have good: "good_count env s rs 0 (rd_oracles r) = int good"
    by (simp add: good_def good_count_filter)
  obtain os' g aoss where t: "attesting env s rs (length (ids_of env)) g aoss"
    "g = min (cfg_F (re_config env) + 1) (int good)"
    "tryComplete env s st = Inr
       (if g \<le> cfg_F (re_config env) then set_round s (r\<lparr>rd_oracles := os'\<rparr>) st
        else reap env (send_reports env s 0 (zip rs aoss)
          ((set_round s (r\<lparr>rd_oracles := os', rd_complete := True\<rparr>) st)
             \<lparr>ra_highestAttestedSeqNr := max s (ra_highestAttestedSeqNr st)\<rparr>)))"
    using tryComplete_reports [OF cfg r(1,2) rs(2) round_okD [OF inv r(1)]] unfolding rs(1) good by metis
  show ?thesis
  proof (cases "int good > cfg_F (re_config env)")
    case False
    then show ?thesis using t(2,3) r(2) by (auto simp: min_def)
  next
    case True
    have len: "length aoss = length rs" using t(1) by (simp add: attesting_def)
    define evs where "evs = attested_events s 0 (zip rs aoss)"
    define st1 where "st1 = (set_round s (r\<lparr>rd_oracles := os', rd_complete := True\<rparr>) st)
             \<lparr>ra_highestAttestedSeqNr := max s (ra_highestAttestedSeqNr st)\<rparr>"
    obtain k where "send_reports env s 0 (zip rs aoss) st1 =
        st1\<lparr>ra_log := ra_log st1 @ map RaToTransmission evs, ra_calls := k\<rparr>"
      using send_reports_spec [of s 0 "zip rs aoss" env st1] alive by (auto simp: evs_def)
    then have "\<exists>st'. tryComplete env s st = Inr st' \<and> handed (ra_log st') = handed (ra_log st) @ evs"
      using t(2,3) True by (simp add: flip: st1_def) (simp add: st1_def)
    moreover have "map ev_key evs = map (\<lambda>j. (s, int j)) [0..<length rs]"
      by (simp add: evs_def attested_events_keys len)
    moreover have "map (\<lambda>ev. arm_ReportWithInfo (ear_AttestedReport ev)) evs = rs"
      by (rule nth_equalityI) (simp_all add: evs_def attested_events_def attested_event_def len)
    ultimately show ?thesis using True by auto
  qed
qed


theorem enough_signatures_attest_all_reports_witness:
  "\<exists>st st' evs. ra_run ra_example_env st \<and> tryComplete ra_example_env 1 st = Inr st' \<and>
     handed (ra_log st') = handed (ra_log st) @ evs \<and>
     map (\<lambda>ev. (ear_SeqNr ev, ear_Index ev)) evs = [(1, 0), (1, 1)] \<and>
     map (\<lambda>ev. arm_ReportWithInfo (ear_AttestedReport ev)) evs = ra_late_reports"
proof -
  obtain st r where st: "ra_run ra_example_env st" "round_of st 1 = Some r" "\<not> rd_complete r"
    "rd_reportsWithInfo r = Some ra_late_reports"
    "length (filter (\<lambda>i. good_oracle ra_example_env 1 ra_late_reports i (rd_oracles r ! i)) [0..<length (rd_oracles r)]) = 2"
    by (rule ra_late_run)
  have f: "\<forall>k. \<not> re_done ra_example_env k" "ra_late_reports \<noteq> []" "cfg_F (re_config ra_example_env) < int 2"
    "map (\<lambda>j. (1 :: u64, int j)) [0..<length ra_late_reports] = [(1, 0), (1, 1)]"
    by (simp_all add: ra_example_env_def ra_late_reports_def example_config_def upt_rec)
  obtain st' evs where "tryComplete ra_example_env 1 st = Inr st'" "handed (ra_log st') = handed (ra_log st) @ evs"
     "map (\<lambda>ev. (ear_SeqNr ev, ear_Index ev)) evs = [(1, 0), (1, 1)]"
     "map (\<lambda>ev. arm_ReportWithInfo (ear_AttestedReport ev)) evs = ra_late_reports"
    using enough_signatures_attest_all_reports [OF st(1) ra_example_setting f(1) st(2-4) f(2)]
    unfolding st(5) f(4) if_P [OF f(3)] by (elim exE conjE) (rule that)
  with st(1) show ?thesis by (intro exI conjI)
qed

lemma rev_sort_nth_less:
  fixes xs :: "'a::linorder list"
  assumes k: "k < length xs"
  shows "rev (sort xs) ! k < x \<longleftrightarrow> length (filter (\<lambda>h. x \<le> h) xs) \<le> k"
proof -
  define i where "i = length xs - Suc k"
  have i: "i < length xs" "rev (sort xs) ! k = sort xs ! i" "k = length xs - Suc i"
    using k by (simp_all add: i_def rev_nth)
  have "length (filter (\<lambda>h. x \<le> h) xs) = length (filter (\<lambda>h. x \<le> h) (sort xs))"
    by (metis filter_sort length_sort)
  also have "\<dots> = card {j. j < length xs \<and> x \<le> sort xs ! j}"
    by (simp add: length_filter_conv_card)
  finally have len: "length (filter (\<lambda>h. x \<le> h) xs) = card {j. j < length xs \<and> x \<le> sort xs ! j}" .
  show ?thesis
  proof
    assume "rev (sort xs) ! k < x"
    then have "\<not> x \<le> sort xs ! j" if "j \<le> i" for j
      using sorted_nth_mono [OF sorted_sort that, of xs] i(1,2) by auto
    then have "{j. j < length xs \<and> x \<le> sort xs ! j} \<subseteq> {Suc i..<length xs}"
      by (auto simp: Suc_le_eq) (metis not_le)
    then have "card {j. j < length xs \<and> x \<le> sort xs ! j} \<le> card {Suc i..<length xs}" by (intro card_mono) auto
    then show "length (filter (\<lambda>h. x \<le> h) xs) \<le> k" using len i(3) by simp
  next
    assume a: "length (filter (\<lambda>h. x \<le> h) xs) \<le> k"
    show "rev (sort xs) ! k < x"
    proof (rule ccontr)
      assume "\<not> rev (sort xs) ! k < x"
      then have "{i..<length xs} \<subseteq> {j. j < length xs \<and> x \<le> sort xs ! j}"
        using i(2) by (auto dest!: sorted_nth_mono [OF sorted_sort, of i _ xs])
      then have "card {i..<length xs} \<le> card {j. j < length xs \<and> x \<le> sort xs ! j}" by (intro card_mono) auto
      then show False using len a i(1,3) by simp
    qed
  qed
qed

text \<open>\<open>isBeyondLookahead\<close>, which sorts a copy of the array and reads its entry \<open>F\<close>, never
  panics in a reachable state and says exactly this: the sequence number exceeds the lookahead, and
  at most \<open>F\<close> oracles have sent signatures for a sequence number that is at most the lookahead behind
  it. With at most \<open>F\<close> faulty oracles, no coalition of them alone can thus open a round.\<close>

theorem lookahead_needs_a_correct_oracle:
  assumes "ra_run env st" "ra_setting env"
  defines "lookahead \<equiv> word_of_int (lookaheadRounds env)"
  shows "isBeyondLookahead env st s = Inr
    (lookahead < s \<and>
     int (length (filter (\<lambda>h. s - lookahead \<le> h) (ra_highestReportSignaturesSeqNr st))) \<le> cfg_F (re_config env))"
proof -
  let ?hs = "ra_highestReportSignaturesSeqNr st"
  let ?F = "nat (cfg_F (re_config env))"
  have inv: "ra_inv env st" using ra_run_inv [OF assms(1,2)] .
  have F: "0 \<le> cfg_F (re_config env)" "?F < length ?hs"
    using assms(2) inv by (auto simp: ra_setting_def cfg_ok_def cfg_N_def ra_inv_def)
  have less: "rev (sort ?hs) ! ?F < x \<longleftrightarrow> int (length (filter (\<lambda>h. x \<le> h) ?hs)) \<le> cfg_F (re_config env)" for x
    using rev_sort_nth_less [OF F(2)] F(1) by (simp add: le_nat_iff)
  have "go_index_int (rev (sort ?hs)) (cfg_F (re_config env)) = Inr (rev (sort ?hs) ! ?F)"
    using F by simp
  then have "isBeyondLookahead env st s = Inr (if s \<le> lookahead then False else rev (sort ?hs) ! ?F < s - lookahead)"
    by (simp only: isBeyondLookahead_def bindG_simps Let_def lookahead_def)
  then show ?thesis by (simp only: less not_le if_bool_eq_conj simp_thms) (auto simp: not_le)
qed

lemma uint_window: "0 \<le> x \<Longrightarrow> x \<le> 50 \<Longrightarrow> uint (word_of_int x :: u64) = x"
  by (simp add: uint_word_of_int_eq take_bit_int_eq_self)

theorem lookahead_needs_a_correct_oracle_witness:
  "\<exists>st :: bytes reportAttestationState. ra_run ra_example_env st \<and> isBeyondLookahead ra_example_env st 1 = Inr False"
proof -
  obtain st where st: "ra_run ra_example_env st" by (rule ra_final_run)
  have "uint (of_int (lookaheadRounds ra_example_env) :: u64) = lookaheadRounds ra_example_env"
    using lookaheadRounds_bounds [of ra_example_env] by (simp add: uint_window)
  then have "\<not> (of_int (lookaheadRounds ra_example_env) :: u64) < 1"
    using lookaheadRounds_bounds [of ra_example_env] by (simp add: word_less_def)
  then show ?thesis using st lookahead_needs_a_correct_oracle [OF st ra_example_setting, of 1] by auto
qed

section \<open>Bounds\<close>

text \<open>For every configuration, also for a zero or negative round interval, the expiry window has
  between 10 and 50 rounds and the lookahead window between 4 and 10, and neither changes when it is
  converted to \<open>uint64\<close>.\<close>

theorem round_windows_are_bounded:
  "10 \<le> expiryRounds env \<and> expiryRounds env \<le> 50 \<and> uint (word_of_int (expiryRounds env) :: u64) = expiryRounds env \<and>
   4 \<le> lookaheadRounds env \<and> lookaheadRounds env \<le> 10 \<and>
   uint (word_of_int (lookaheadRounds env) :: u64) = lookaheadRounds env"
  using expiryRounds_bounds [of env] lookaheadRounds_bounds [of env]
  by (simp add: uint_window)

section \<open>Panics\<close>

text \<open>In a reachable state, delivering any message from an oracle of the configuration, any
  committed outcome or any scheduled event returns, with one exception: a scheduled missing outcome
  event panics with a nil dereference when its round is no longer in the map.\<close>

theorem report_attestation_panics_only_on_a_missing_round:
  assumes "ra_run env st" "ra_setting env" "ra_ready st c" "ra_case_ok env c"
  shows "(\<exists>st'. ra_process env c st = Inr st') \<or>
    (\<exists>k s d. c = RaScheduled k \<and> ra_scheduled st ! k = (EventMissingOutcome s, d) \<and> round_of st s = None \<and>
       ra_process env c st = Inl NilDereference)"
  using keeps_ra_process [OF assms(2) ra_run_inv [OF assms(1,2)] assms(3,4)] by (auto simp: goT_iff)

theorem report_attestation_panics_only_on_a_missing_round_witness:
  "\<exists>st st' :: bytes reportAttestationState. ra_run ra_example_env st \<and>
     ra_process ra_example_env (RaMessage (MessageCertifiedCommitRequest 1) 2) st = Inr st'"
proof -
  obtain st where st: "ra_run ra_example_env st" by (rule ra_final_run)
  have "ra_case_ok ra_example_env (RaMessage (MessageCertifiedCommitRequest 1) 2)"
    by (simp add: ra_example_env_def example_config_def)
  then show ?thesis
    using report_attestation_panics_only_on_a_missing_round [OF st ra_example_setting, of "RaMessage (MessageCertifiedCommitRequest 1) 2"] st
    by auto
qed

text \<open>The exception is real: reaping drops expired rounds but leaves their scheduled events, so
  a missing outcome event of an expired round that is delivered after a reaping panics.\<close>

theorem missing_outcome_of_a_reaped_round_panics:
  assumes "k < length (ra_scheduled st)" "ra_scheduled st ! k = (EventMissingOutcome s, d)"
    and "isBeyondExpiry env st s" "3 * int (length (ra_rounds st)) > 4 * (expiryRounds env + lookaheadRounds env)"
  shows "ra_ready (reap env st) (RaScheduled k) \<and> ra_process env (RaScheduled k) (reap env st) = Inl NilDereference"
proof -
  have "round_of (reap env st) s = None"
    using assms(3,4) by (simp add: reap_def Let_def round_of_def map_of_filter_key)
  then show ?thesis using assms(1,2) by (simp add: eventMissingOutcome_def)
qed

definition ra_reaping_state :: "bytes reportAttestationState" where
  "ra_reaping_state = newReportAttestationState ra_example_env
     \<lparr>ra_scheduled := [(EventMissingOutcome 1, 200)], ra_highestAttestedSeqNr := 100,
      ra_rounds := map (\<lambda>k. (of_nat k, new_round ra_example_env)) [1..<101]\<rparr>"

theorem missing_outcome_of_a_reaped_round_panics_witness:
  "ra_process ra_example_env (RaScheduled 0) (reap ra_example_env ra_reaping_state) = Inl NilDereference"
proof -
  have e: "uint (of_int (expiryRounds ra_example_env) :: u64) = expiryRounds ra_example_env"
    "expiryRounds ra_example_env \<le> 50"
    using expiryRounds_bounds [of ra_example_env] by (simp_all add: uint_window)
  then have x: "(of_int (expiryRounds ra_example_env) :: u64) \<le> 50" by (simp add: word_le_def)
  then have "unat (of_int (expiryRounds ra_example_env) :: u64) \<le> 50" by (simp add: word_le_nat_alt)
  moreover have "(of_int (expiryRounds ra_example_env) :: u64) \<le> 100" using x by (rule order_trans) simp
  ultimately have "isBeyondExpiry ra_example_env ra_reaping_state 1"
    by (simp add: isBeyondExpiry_def Let_def ra_reaping_state_def word_less_nat_alt word_le_nat_alt unat_sub)
  moreover have "3 * int (length (ra_rounds ra_reaping_state)) > 4 * (expiryRounds ra_example_env + lookaheadRounds ra_example_env)"
    using e(2) lookaheadRounds_bounds [of ra_example_env] by (simp add: ra_reaping_state_def)
  moreover have "ra_scheduled ra_reaping_state ! 0 = (EventMissingOutcome 1, 200)" "0 < length (ra_scheduled ra_reaping_state)"
    by (simp_all add: ra_reaping_state_def)
  ultimately show ?thesis
    using missing_outcome_of_a_reaped_round_panics by blast
qed

end
