(* ===== verification/VerifySignatures.thy ===== *)
theory VerifySignatures
  imports RepAttProps
begin

text \<open>
  The worker goroutines of \<open>verifySignatures\<close> (\<open>report_attestation.go\<close>): \<open>n\<close> workers verify the
  signatures of a batch and share one flag under a mutex. Each step of the relation is one worker
  up to and including its next critical section, so every interleaving of the goroutines is a
  path of it.
\<close>

section \<open>Workers\<close>

text \<open>\<open>WLoop i\<close>: at the head of the loop with index \<open>i\<close>; \<open>WVerify i\<close>: has read the flag as true;
  \<open>WFail\<close>: has seen an invalid signature and not yet cleared the flag; \<open>WBug\<close>: the explicit panic.\<close>

datatype vs_worker = WLoop nat | WVerify nat | WFail | WDone | WBug

record vs_state =
  vs_allValid :: bool
  vs_workers :: "vs_worker list"

text \<open>The number of workers for \<open>len\<close> reports on \<open>procs\<close> processors.\<close>

definition vs_n :: "nat \<Rightarrow> nat \<Rightarrow> nat" where
  "vs_n procs len = (if (len + 3) div 4 < procs then (len + 3) div 4 else procs)"

definition vs_start :: "nat \<Rightarrow> vs_state" where
  "vs_start n = \<lparr>vs_allValid = True, vs_workers = map WLoop [0..<n]\<rparr>"

text \<open>Worker \<open>k\<close> of \<open>n\<close>; \<open>valid i\<close> is the answer of the key ring for the \<open>i\<close>-th signature. The
  result is the worker's next state and the flag.\<close>

fun vs_worker_step :: "nat \<Rightarrow> nat \<Rightarrow> (nat \<Rightarrow> bool) \<Rightarrow> nat \<Rightarrow> vs_worker \<Rightarrow> bool \<Rightarrow> vs_worker \<times> bool" where
  "vs_worker_step n len valid k (WLoop i) allValid =
     (if \<not> i < len then (WDone, allValid)
      else if i mod n \<noteq> k then (WBug, allValid)
      else if \<not> allValid then (WDone, allValid)
      else (WVerify i, allValid))"
| "vs_worker_step n len valid k (WVerify i) allValid =
     (if \<not> valid i then (WFail, allValid) else (WLoop (i + n), allValid))"
| "vs_worker_step n len valid k WFail allValid = (WDone, False)"
| "vs_worker_step n len valid k WDone allValid = (WDone, allValid)"
| "vs_worker_step n len valid k WBug allValid = (WBug, allValid)"

inductive vs_step :: "nat \<Rightarrow> nat \<Rightarrow> (nat \<Rightarrow> bool) \<Rightarrow> vs_state \<Rightarrow> vs_state \<Rightarrow> bool" for n len valid where
  vs_stepI: "k < length (vs_workers st) \<Longrightarrow> vs_workers st ! k \<notin> {WDone, WBug} \<Longrightarrow>
     vs_worker_step n len valid k (vs_workers st ! k) (vs_allValid st) = (w, b) \<Longrightarrow>
     vs_step n len valid st \<lparr>vs_allValid = b, vs_workers = (vs_workers st)[k := w]\<rparr>"

inductive_cases vs_stepE: "vs_step n len valid st st'"

text \<open>Runs with their number of steps, and the result after \<open>wg.Wait()\<close>.\<close>

inductive vs_run :: "nat \<Rightarrow> nat \<Rightarrow> (nat \<Rightarrow> bool) \<Rightarrow> nat \<Rightarrow> vs_state \<Rightarrow> bool" for n len valid where
  vs_run_start: "vs_run n len valid 0 (vs_start n)"
| vs_run_step: "vs_run n len valid m st \<Longrightarrow> vs_step n len valid st st' \<Longrightarrow> vs_run n len valid (Suc m) st'"

definition vs_waited :: "vs_state \<Rightarrow> bool" where
  "vs_waited st \<longleftrightarrow> list_all (\<lambda>w. w = WDone) (vs_workers st)"

inductive verifySignatures_returns ::
  "'ri ra_env \<Rightarrow> nat \<Rightarrow> bytes \<Rightarrow> u64 \<Rightarrow> 'ri ReportWithInfo list \<Rightarrow> bytes list \<Rightarrow> bool \<Rightarrow> bool"
  for env procs publicKey seqNr reportsWithInfo signatures where
  vs_lengths: "length reportsWithInfo \<noteq> length signatures \<Longrightarrow>
     verifySignatures_returns env procs publicKey seqNr reportsWithInfo signatures False"
| vs_waits: "length reportsWithInfo = length signatures \<Longrightarrow>
     vs_run (vs_n procs (length reportsWithInfo)) (length reportsWithInfo)
       (\<lambda>i. re_Verify env publicKey (cfg_ConfigDigest (re_config env)) seqNr (reportsWithInfo ! i) (signatures ! i)) m st \<Longrightarrow>
     vs_waited st \<Longrightarrow>
     verifySignatures_returns env procs publicKey seqNr reportsWithInfo signatures (vs_allValid st)"

section \<open>The invariant of the workers\<close>

fun worker_ok :: "nat \<Rightarrow> nat \<Rightarrow> (nat \<Rightarrow> bool) \<Rightarrow> bool \<Rightarrow> nat \<Rightarrow> vs_worker \<Rightarrow> bool" where
  "worker_ok n len valid b k (WLoop i) = (i mod n = k \<and> (b \<longrightarrow> (\<forall>j < i. j mod n = k \<longrightarrow> j < len \<longrightarrow> valid j)))"
| "worker_ok n len valid b k (WVerify i) =
     (i < len \<and> i mod n = k \<and> (b \<longrightarrow> (\<forall>j < i. j mod n = k \<longrightarrow> j < len \<longrightarrow> valid j)))"
| "worker_ok n len valid b k WFail = (\<exists>j < len. \<not> valid j)"
| "worker_ok n len valid b k WDone = (b \<longrightarrow> (\<forall>j < len. j mod n = k \<longrightarrow> valid j))"
| "worker_ok n len valid b k WBug = False"

definition vs_ok :: "nat \<Rightarrow> nat \<Rightarrow> (nat \<Rightarrow> bool) \<Rightarrow> vs_state \<Rightarrow> bool" where
  "vs_ok n len valid st \<longleftrightarrow> length (vs_workers st) = n \<and>
     (\<forall>k < n. worker_ok n len valid (vs_allValid st) k (vs_workers st ! k)) \<and>
     (\<not> vs_allValid st \<longrightarrow> (\<exists>j < len. \<not> valid j))"

lemma worker_ok_weaken: "worker_ok n len valid b k w \<Longrightarrow> (b' \<longrightarrow> b) \<Longrightarrow> worker_ok n len valid b' k w"
  by (cases w) auto

text \<open>The indices of one worker are \<open>n\<close> apart.\<close>

lemma next_index:
  assumes "i mod n = k" "j < i + n" "j mod n = k" "\<not> j < i" shows "j = (i :: nat)"
proof -
  obtain q where q: "j = i + n * q"
    using assms(1,3,4) nat_mod_eq_iff [of j n i] by (metis add_leE le_add_diff_inverse mod_eq_dvd_iff_nat dvdE linorder_not_less)
  then have "q = 0" using assms(2) by (cases q) auto
  then show ?thesis using q by simp
qed

lemma vs_ok_step:
  assumes ok: "vs_ok n len valid st" and s: "vs_step n len valid st st'"
  shows "vs_ok n len valid st'"
proof -
  obtain k w b where 1: "k < length (vs_workers st)" "vs_workers st ! k \<notin> {WDone, WBug}"
      "vs_worker_step n len valid k (vs_workers st ! k) (vs_allValid st) = (w, b)"
      "st' = \<lparr>vs_allValid = b, vs_workers = (vs_workers st)[k := w]\<rparr>"
    using s by (rule vs_stepE) blast
  have k: "k < n" using ok 1 by (simp add: vs_ok_def)
  have wk: "worker_ok n len valid (vs_allValid st) k (vs_workers st ! k)" using ok k by (simp add: vs_ok_def)
  have b: "b \<longrightarrow> vs_allValid st" "vs_allValid st \<and> \<not> b \<longrightarrow> (\<exists>j < len. \<not> valid j)"
    using 1 wk by (cases "vs_workers st ! k"; force split: if_splits)+
  have "worker_ok n len valid b k w"
  proof (cases "vs_workers st ! k")
    case (WLoop i)
    then show ?thesis using 1 wk by (auto split: if_splits)
  next
    case (WVerify i)
    have w: "i < len" "i mod n = k" "vs_allValid st \<longrightarrow> (\<forall>j < i. j mod n = k \<longrightarrow> j < len \<longrightarrow> valid j)"
      using wk unfolding WVerify worker_ok.simps by blast+
    have "valid j" if "vs_allValid st" "valid i" "j < i + n" "j mod n = k" "j < len" for j
    proof (cases "j < i")
      case True
      then show ?thesis using that w(3) by blast
    next
      case False
      have "j = i" using w(2) that(3,4) False by (rule next_index)
      then show ?thesis using that(2) by simp
    qed
    note step = this
    show ?thesis
    proof (cases "valid i")
      case True
      then have wb: "w = WLoop (i + n)" "b = vs_allValid st" using 1(3) unfolding WVerify by simp_all
      show ?thesis unfolding wb worker_ok.simps using step True w(2) by (simp del: mod_mod_trivial)
    next
      case False
      then have "w = WFail" using 1(3) unfolding WVerify by simp
      then show ?thesis using False w(1) by auto
    qed
  qed (use 1 wk in auto)
  then show ?thesis
    using ok k b 1 by (auto simp: vs_ok_def nth_list_update intro: worker_ok_weaken)
qed

lemma vs_ok_start: "vs_ok n len valid (vs_start n)"
proof -
  have "\<not> (j < k \<and> j mod n = k)" if "k < n" for j k :: nat using that by auto
  then show ?thesis by (auto simp: vs_ok_def vs_start_def)
qed

lemma vs_run_ok: "vs_run n len valid m st \<Longrightarrow> vs_ok n len valid st"
  by (induction rule: vs_run.induct) (auto intro: vs_ok_start vs_ok_step)


section \<open>Termination\<close>

fun worker_steps :: "nat \<Rightarrow> vs_worker \<Rightarrow> nat" where
  "worker_steps len (WLoop i) = 3 * (len - i) + 1"
| "worker_steps len (WVerify i) = 3 * (len - i)"
| "worker_steps len WFail = 1"
| "worker_steps len WDone = 0"
| "worker_steps len WBug = 0"

definition steps_left :: "nat \<Rightarrow> vs_state \<Rightarrow> nat" where
  "steps_left len st = sum_list (map (worker_steps len) (vs_workers st))"

lemma vs_step_decreases:
  assumes ok: "vs_ok n len valid st" and s: "vs_step n len valid st st'"
  shows "steps_left len st' < steps_left len st"
proof -
  obtain k w b where 1: "k < length (vs_workers st)" "vs_workers st ! k \<notin> {WDone, WBug}"
      "vs_worker_step n len valid k (vs_workers st ! k) (vs_allValid st) = (w, b)"
      "st' = \<lparr>vs_allValid = b, vs_workers = (vs_workers st)[k := w]\<rparr>"
    using s by (rule vs_stepE) blast
  have k: "k < n" "worker_ok n len valid (vs_allValid st) k (vs_workers st ! k)"
    using ok 1(1) by (auto simp: vs_ok_def)
  have less: "worker_steps len w < worker_steps len (vs_workers st ! k)"
    using 1(2,3) k by (cases "vs_workers st ! k") (auto split: if_splits)
  have "sum_list (map (worker_steps len) (vs_workers st)) + worker_steps len w
      = sum_list (map (worker_steps len) ((vs_workers st)[k := w])) + worker_steps len (vs_workers st ! k)"
  proof -
    have "worker_steps len (vs_workers st ! k) \<le> sum_list (map (worker_steps len) (vs_workers st))"
      using 1(1) elem_le_sum_list [of k "map (worker_steps len) (vs_workers st)"] by simp
    then show ?thesis using 1(1) by (simp add: map_update sum_list_update)
  qed
  then show ?thesis using less 1(4) by (simp add: steps_left_def)
qed

lemma vs_run_steps: "vs_run n len valid m st \<Longrightarrow> m + steps_left len st \<le> n * (3 * len + 1)"
proof (induction rule: vs_run.induct)
  case vs_run_start
  have "sum_list (map (worker_steps len) (map WLoop [0..<n])) \<le> sum_list (map (\<lambda>_. 3 * len + 1) [0..<n])"
    by (simp add: o_def del: sum_list_triv) (rule sum_list_mono, simp)
  then show ?case by (simp add: steps_left_def vs_start_def sum_list_triv)
next
  case (vs_run_step m st st')
  then show ?case using vs_step_decreases [OF vs_run_ok] by fastforce
qed

lemma vs_progress: "vs_ok n len valid st \<Longrightarrow> \<not> vs_waited st \<Longrightarrow> \<exists>st'. vs_step n len valid st st'"
proof -
  assume ok: "vs_ok n len valid st" and "\<not> vs_waited st"
  then obtain k where k: "k < length (vs_workers st)" "vs_workers st ! k \<noteq> WDone"
    by (auto simp: vs_waited_def list_all_length)
  then have "worker_ok n len valid (vs_allValid st) k (vs_workers st ! k)" using ok by (simp add: vs_ok_def)
  then have "vs_workers st ! k \<notin> {WDone, WBug}" using k(2) by auto
  then show ?thesis using vs_stepI [OF k(1)] by (metis surj_pair)
qed

lemma vs_run_finishes: "vs_run n len valid m st \<Longrightarrow> \<exists>m' st'. vs_run n len valid m' st' \<and> vs_waited st'"
proof (induction "steps_left len st" arbitrary: m st rule: less_induct)
  case less
  show ?case
  proof (cases "vs_waited st")
    case False
    have ok: "vs_ok n len valid st" using less.prems by (rule vs_run_ok)
    then obtain st' where st': "vs_step n len valid st st'" using vs_progress False by blast
    then show ?thesis
      using less.hyps [OF vs_step_decreases [OF ok st']] less.prems vs_run_step by blast
  qed (use less.prems in blast)
qed

lemma vs_waited_result:
  assumes ok: "vs_ok n len valid st" and w: "vs_waited st" and n: "0 < n \<or> len = 0"
  shows "vs_allValid st \<longleftrightarrow> (\<forall>j < len. valid j)"
proof
  assume t: "vs_allValid st"
  show "\<forall>j < len. valid j"
  proof (intro allI impI)
    fix j assume j: "j < len"
    then have "j mod n < n" using n by auto
    then have "worker_ok n len valid True (j mod n) (vs_workers st ! (j mod n))"
      "vs_workers st ! (j mod n) = WDone"
      using ok w t by (auto simp: vs_ok_def vs_waited_def list_all_length)
    then show "valid j" using j by simp
  qed
qed (use ok in \<open>auto simp: vs_ok_def\<close>)

text \<open>Every interleaving of the worker goroutines of \<open>verifySignatures\<close> ends after at most
  \<open>n * (3 * len + 1)\<close> steps for \<open>n\<close> workers and \<open>len\<close> reports: the run is no longer than that, no worker
  reaches the explicit panic, and as long as some worker has not returned one of them can move.\<close>

theorem signature_workers_terminate:
  assumes "vs_run n len valid m st"
  shows "m \<le> n * (3 * len + 1) \<and> WBug \<notin> set (vs_workers st) \<and>
    (vs_waited st \<or> (\<exists>st'. vs_step n len valid st st'))"
proof -
  have ok: "vs_ok n len valid st" using assms by (rule vs_run_ok)
  have "vs_workers st ! k \<noteq> WBug" if "k < n" for k
  proof
    assume bug: "vs_workers st ! k = WBug"
    have "worker_ok n len valid (vs_allValid st) k (vs_workers st ! k)" using ok that by (simp add: vs_ok_def)
    then show False unfolding bug by simp
  qed
  then show ?thesis
    using vs_run_steps [OF assms] vs_progress [OF ok] ok by (auto simp: vs_ok_def in_set_conv_nth)
qed

theorem signature_workers_terminate_witness:
  "\<exists>st. vs_run 2 3 (\<lambda>i. i \<noteq> 1) 1 st \<and> 1 \<le> (2::nat) * (3 * 3 + 1) \<and> WBug \<notin> set (vs_workers st)"
proof -
  have "vs_step 2 3 (\<lambda>i. i \<noteq> 1) (vs_start 2) \<lparr>vs_allValid = True, vs_workers = [WLoop 0, WVerify 1]\<rparr>"
    using vs_stepI [of 1 "vs_start 2" 2 3 "\<lambda>i. i \<noteq> 1" "WVerify 1" True] by (simp add: vs_start_def numeral_2_eq_2)
  then have run: "vs_run 2 3 (\<lambda>i. i \<noteq> 1) 1 \<lparr>vs_allValid = True, vs_workers = [WLoop 0, WVerify 1]\<rparr>"
    using vs_run_step [OF vs_run_start] by simp
  then show ?thesis using signature_workers_terminate [OF run] by blast
qed

text \<open>C34: On at least one processor, the concurrent \<open>verifySignatures\<close> can return a boolean exactly
  when it is the result of verifying the signatures one after the other: all interleavings agree, and
  there is one that returns. The number of processors does not matter.\<close>

theorem concurrent_verification_is_sequential:
  assumes "0 < procs"
  shows "verifySignatures_returns env procs publicKey seqNr reportsWithInfo signatures b \<longleftrightarrow>
    b = verifySignatures env publicKey seqNr reportsWithInfo signatures"
proof (cases "length reportsWithInfo = length signatures")
  case True
  let ?len = "length reportsWithInfo"
  let ?valid = "\<lambda>i. re_Verify env publicKey (cfg_ConfigDigest (re_config env)) seqNr (reportsWithInfo ! i) (signatures ! i)"
  let ?n = "vs_n procs ?len"
  have n: "0 < ?n \<or> ?len = 0" 
    using assms by (cases reportsWithInfo) (simp_all add: vs_n_def div_greater_zero_iff)
  have seq: "verifySignatures env publicKey seqNr reportsWithInfo signatures \<longleftrightarrow> (\<forall>j < ?len. ?valid j)"
    using True by (simp add: verifySignatures_def list_all_length)
  have res: "vs_allValid st \<longleftrightarrow> (\<forall>j < ?len. ?valid j)" if "vs_run ?n ?len ?valid m st" "vs_waited st" for m st
    using vs_waited_result [OF vs_run_ok [OF that(1)] that(2) n] .
  obtain m st where run: "vs_run ?n ?len ?valid m st" "vs_waited st"
    using vs_run_finishes [OF vs_run_start] by blast
  have "verifySignatures_returns env procs publicKey seqNr reportsWithInfo signatures (\<forall>j < ?len. ?valid j)"
    using vs_waits [OF True run] unfolding res [OF run] .
  moreover have "b = (\<forall>j < ?len. ?valid j)"
    if "verifySignatures_returns env procs publicKey seqNr reportsWithInfo signatures b"
    using that
  proof cases
    case (vs_waits m st)
    then show ?thesis using res by blast
  qed (use True in simp)
  ultimately show ?thesis unfolding seq by blast
next
  case False
  then show ?thesis
    by (auto simp: verifySignatures_def intro: vs_lengths elim: verifySignatures_returns.cases)
qed

theorem concurrent_verification_is_sequential_witness:
  "verifySignatures_returns ra_example_env 4 [0] 1 ra_late_reports [[0], [0]] True"
proof -
  have four: "0 < (4 :: nat)" by simp
  have "True = verifySignatures ra_example_env [0] 1 ra_late_reports [[0], [0]]"
    by (simp add: verifySignatures_def ra_late_reports_def ra_example_env_def)
  then show ?thesis by (rule concurrent_verification_is_sequential [OF four, THEN iffD2])
qed

end
