(* ===== verification/MinHeap.thy ===== *)
theory MinHeap
  imports Prelude
begin

text \<open>
  The binary heap of the scheduler (\<open>ocr3/minheap/minheap.go\<close>), with the sifting loops of Go's
  \<open>container/heap\<close> that it uses written out. A heap is the slice of its items; the comparison
  is a parameter, and the facts are for comparisons by a key of a linear order.
\<close>

section \<open>The heap\<close>

definition hi_Less :: "('a \<Rightarrow> 'a \<Rightarrow> bool) \<Rightarrow> 'a list \<Rightarrow> nat \<Rightarrow> nat \<Rightarrow> bool" where
  "hi_Less lessFn items i j = lessFn (items ! i) (items ! j)"

definition hi_Swap :: "'a list \<Rightarrow> nat \<Rightarrow> nat \<Rightarrow> 'a list" where
  "hi_Swap items i j = items[i := items ! j, j := items ! i]"

definition hi_Push :: "'a \<Rightarrow> 'a list \<Rightarrow> 'a list" where
  "hi_Push x items = items @ [x]"

definition hi_Pop :: "'a list \<Rightarrow> ('a \<times> 'a list) go" where
  "hi_Pop items = (if items = [] then Inl IndexOutOfRange else Inr (last items, butlast items))"

text \<open>The loops of \<open>container/heap\<close>; for the root, \<open>(0 - 1) / 2\<close> is \<open>0\<close> in Go as it is here.\<close>

function heap_up :: "('a \<Rightarrow> 'a \<Rightarrow> bool) \<Rightarrow> nat \<Rightarrow> 'a list \<Rightarrow> 'a list" where
  "heap_up lessFn j items =
     (let i = (j - 1) div 2
      in if i = j \<or> \<not> hi_Less lessFn items j i then items
         else heap_up lessFn i (hi_Swap items i j))"
  by pat_completeness auto
termination
  by (relation "measure (\<lambda>(lessFn, j, items). j)") auto

function heap_down :: "('a \<Rightarrow> 'a \<Rightarrow> bool) \<Rightarrow> nat \<Rightarrow> nat \<Rightarrow> 'a list \<Rightarrow> 'a list" where
  "heap_down lessFn i n items =
     (let j1 = 2 * i + 1
      in if j1 \<ge> n then items
         else
           let j = (if j1 + 1 < n \<and> hi_Less lessFn items (j1 + 1) j1 then j1 + 1 else j1)
           in if \<not> hi_Less lessFn items j i then items
              else heap_down lessFn j n (hi_Swap items i j))"
  by pat_completeness auto
termination
  by (relation "measure (\<lambda>(lessFn, i, n, items). n - i)") (auto split: if_splits)

declare heap_up.simps [simp del] heap_down.simps [simp del]

definition MinHeap_Push :: "('a \<Rightarrow> 'a \<Rightarrow> bool) \<Rightarrow> 'a \<Rightarrow> 'a list \<Rightarrow> 'a list" where
  "MinHeap_Push lessFn item items =
     (let items = hi_Push item items in heap_up lessFn (length items - 1) items)"

definition MinHeap_Pop :: "('a \<Rightarrow> 'a \<Rightarrow> bool) \<Rightarrow> 'a list \<Rightarrow> ('a \<times> 'a list) go" where
  "MinHeap_Pop lessFn items =
     (if items = [] then Inl IndexOutOfRange
      else let n = length items - 1 in hi_Pop (heap_down lessFn 0 n (hi_Swap items 0 n)))"

definition MinHeap_Peek :: "'a list \<Rightarrow> 'a go" where
  "MinHeap_Peek items = go_index items 0"

definition MinHeap_Len :: "'a list \<Rightarrow> nat" where
  "MinHeap_Len items = length items"

section \<open>Swaps\<close>

lemma length_hi_Swap [simp]: "length (hi_Swap items i j) = length items"
  by (simp add: hi_Swap_def)

lemma nth_hi_Swap:
  "i < length items \<Longrightarrow> j < length items \<Longrightarrow> k < length items \<Longrightarrow>
     hi_Swap items i j ! k = (if k = i then items ! j else if k = j then items ! i else items ! k)"
  by (auto simp: hi_Swap_def nth_list_update)

lemma mset_hi_Swap: "i < length items \<Longrightarrow> j < length items \<Longrightarrow> mset (hi_Swap items i j) = mset items"
  by (simp add: hi_Swap_def mset_swap)

lemma heap_up_mset: "j < length items \<Longrightarrow> mset (heap_up lessFn j items) = mset items"
proof (induction lessFn j items rule: heap_up.induct)
  case (1 lessFn j items)
  then show ?case
    by (subst heap_up.simps) (auto simp: Let_def mset_hi_Swap)
qed

lemma heap_down_mset:
  "n \<le> length items \<Longrightarrow> i < n \<Longrightarrow> mset (heap_down lessFn i n items) = mset items \<and>
     length (heap_down lessFn i n items) = length items \<and> drop n (heap_down lessFn i n items) = drop n items"
proof (induction lessFn i n items rule: heap_down.induct)
  case (1 lessFn i n items)
  have "drop n (hi_Swap items i j) = drop n items" if "i < n" "j < n" for j
    using that by (simp add: hi_Swap_def)
  then show ?case
    using 1 by (subst (1 2 3) heap_down.simps) (auto simp: Let_def mset_hi_Swap)
qed

section \<open>The heap order\<close>

text \<open>Every item of the first \<open>n\<close> but the root is at least its parent.\<close>

definition is_heap :: "('a \<Rightarrow> 'k::linorder) \<Rightarrow> nat \<Rightarrow> 'a list \<Rightarrow> bool" where
  "is_heap key n items \<longleftrightarrow> (\<forall>k. 0 < k \<and> k < n \<longrightarrow> key (items ! ((k - 1) div 2)) \<le> key (items ! k))"

lemma is_heap_root:
  assumes "is_heap key n items" "k < n"
  shows "key (items ! 0) \<le> key (items ! k)"
  using assms(2)
proof (induction k rule: less_induct)
  case (less k)
  show ?case
  proof (cases "k = 0")
    case False
    then have "key (items ! ((k - 1) div 2)) \<le> key (items ! k)" using assms(1) less.prems by (simp add: is_heap_def)
    moreover have "key (items ! 0) \<le> key (items ! ((k - 1) div 2))" using less False by simp
    ultimately show ?thesis by order
  qed simp
qed

text \<open>A heap but for the item \<open>j\<close>, which may be smaller than its parent.\<close>

definition heap_but_up :: "('a \<Rightarrow> 'k::linorder) \<Rightarrow> nat \<Rightarrow> 'a list \<Rightarrow> bool" where
  "heap_but_up key j items \<longleftrightarrow>
     (\<forall>k. 0 < k \<and> k < length items \<and> k \<noteq> j \<longrightarrow> key (items ! ((k - 1) div 2)) \<le> key (items ! k)) \<and>
     (\<forall>k. 0 < k \<and> k < length items \<and> 0 < j \<and> (k - 1) div 2 = j \<longrightarrow> key (items ! ((j - 1) div 2)) \<le> key (items ! k))"

lemma parent_less: "0 < k \<Longrightarrow> (k - 1) div 2 < (k :: nat)"
  by simp

lemma heap_up_heap:
  assumes "heap_but_up key j items" "j < length items"
  shows "is_heap key (length items) (heap_up (\<lambda>a b. key a < key b) j items)"
  using assms
proof (induction j arbitrary: items rule: less_induct)
  case (less j)
  define i where "i = (j - 1) div 2"
  show ?case
  proof (cases "i = j \<or> \<not> key (items ! j) < key (items ! i)")
    case True
    then have eq: "heap_up (\<lambda>a b. key a < key b) j items = items"
      by (subst heap_up.simps) (auto simp: Let_def hi_Less_def i_def)
    have "key (items ! ((k - 1) div 2)) \<le> key (items ! k)" if k: "0 < k" "k < length items" for k
    proof (cases "k = j")
      case j: True
      then have "\<not> key (items ! j) < key (items ! i)" using True k by (auto simp: i_def)
      then show ?thesis using j by (simp add: i_def)
    qed (use less.prems(1) k in \<open>auto simp: heap_but_up_def\<close>)
    then show ?thesis unfolding eq by (simp add: is_heap_def)
  next
    case False
    then have j: "0 < j" "i < j" "key (items ! j) < key (items ! i)" by (auto simp: i_def)
    have i: "i < length items" using j less.prems by simp
    have eq: "heap_up (\<lambda>a b. key a < key b) j items = heap_up (\<lambda>a b. key a < key b) i (hi_Swap items i j)"
      using False by (subst heap_up.simps) (simp add: Let_def hi_Less_def i_def)
    note nth = nth_hi_Swap [OF i less.prems(2)]
    have up: "key (items ! ((k - 1) div 2)) \<le> key (items ! k)" if "0 < k" "k < length items" "k \<noteq> j" for k
      using less.prems(1) that by (simp add: heap_but_up_def)
    have down: "key (items ! i) \<le> key (items ! k)" if "0 < k" "k < length items" "(k - 1) div 2 = j" for k
      using less.prems(1) that j(1) by (simp add: heap_but_up_def i_def)
    have "heap_but_up key i (hi_Swap items i j)"
      unfolding heap_but_up_def length_hi_Swap
    proof (intro conjI allI impI)
      fix k assume k: "0 < k \<and> k < length items \<and> k \<noteq> i"
      have p: "(k - 1) div 2 < length items" using k by auto
      define q where "q = (k - 1) div 2"
      have q: "q < k" unfolding q_def using k by (intro parent_less) simp
      have "key (hi_Swap items i j ! q) \<le> key (hi_Swap items i j ! k)"
      proof (cases "k = j")
        case True
        then have "q = i" by (simp add: q_def i_def)
        then show ?thesis using True j i less.prems(2) by (simp add: nth)
      next
        case kj: False
        have upk: "key (items ! q) \<le> key (items ! k)" using up k kj by (simp add: q_def)
        consider "q = i" | "q = j" "q \<noteq> i" | "q \<noteq> i" "q \<noteq> j" by blast
        then show ?thesis
        proof cases
          case 1
          then show ?thesis using upk j(3) k kj i by (simp add: nth)
        next
          case 2
          then show ?thesis using down [of k] k kj p by (simp add: nth q_def)
        next
          case 3
          then show ?thesis using upk k kj p by (simp add: nth q_def)
        qed
      qed
      then show "key (hi_Swap items i j ! ((k - 1) div 2)) \<le> key (hi_Swap items i j ! k)" by (simp add: q_def)
    next
      fix k assume k: "0 < k \<and> k < length items \<and> 0 < i \<and> (k - 1) div 2 = i"
      have p2: "(i - 1) div 2 < i" using k by (intro parent_less) simp
      then have p: "(i - 1) div 2 < length items" "(i - 1) div 2 < i" using i by auto
      show "key (hi_Swap items i j ! ((i - 1) div 2)) \<le> key (hi_Swap items i j ! k)"
      proof (cases "k = j")
        case True
        then show ?thesis using up [of i] k i j p by (simp add: nth)
      next
        case False
        then have "key (items ! i) \<le> key (items ! k)" using up [of k] k by simp
        moreover have "key (items ! ((i - 1) div 2)) \<le> key (items ! i)" using up [of i] k i j by simp
        moreover have "k \<noteq> i" using parent_less [of k] k by auto
        ultimately show ?thesis using False k p j by (simp add: nth)
      qed
    qed
    then show ?thesis unfolding eq using less.IH [OF j(2), of "hi_Swap items i j"] i by simp
  qed
qed


text \<open>A heap but for the item \<open>i\<close>, which may be larger than its children.\<close>

definition heap_but_down :: "('a \<Rightarrow> 'k::linorder) \<Rightarrow> nat \<Rightarrow> nat \<Rightarrow> 'a list \<Rightarrow> bool" where
  "heap_but_down key n i items \<longleftrightarrow>
     (\<forall>k. 0 < k \<and> k < n \<and> (k - 1) div 2 \<noteq> i \<longrightarrow> key (items ! ((k - 1) div 2)) \<le> key (items ! k)) \<and>
     (\<forall>k. 0 < k \<and> k < n \<and> (k - 1) div 2 = i \<and> 0 < i \<longrightarrow> key (items ! ((i - 1) div 2)) \<le> key (items ! k))"

lemma children: "0 < k \<Longrightarrow> (k - 1) div 2 = i \<longleftrightarrow> k = 2 * i + 1 \<or> k = 2 * i + 1 + (1 :: nat)"
  by auto

lemma heap_down_heap:
  assumes "heap_but_down key n i items" "n \<le> length items"
  shows "is_heap key n (heap_down (\<lambda>a b. key a < key b) i n items)"
  using assms
proof (induction "n - i" arbitrary: i items rule: less_induct)
  case (less i items)
  define j1 where "j1 = 2 * i + 1"
  define j where "j = (if j1 + 1 < n \<and> key (items ! (j1 + 1)) < key (items ! j1) then j1 + 1 else j1)"
  have cond: "key (items ! ((k - 1) div 2)) \<le> key (items ! k)" if "0 < k" "k < n" "(k - 1) div 2 \<noteq> i" for k
    using less.prems(1) that by (simp add: heap_but_down_def)
  have unfolded: "heap_down (\<lambda>a b. key a < key b) i n items = (if j1 \<ge> n then items
      else if \<not> key (items ! j) < key (items ! i) then items
      else heap_down (\<lambda>a b. key a < key b) j n (hi_Swap items i j))"
    by (subst heap_down.simps) (simp only: Let_def hi_Less_def j1_def j_def)
  show ?case
  proof (cases "j1 \<ge> n \<or> \<not> key (items ! j) < key (items ! i)")
    case True
    have eq: "heap_down (\<lambda>a b. key a < key b) i n items = items"
      using True unfolding unfolded by auto
    have "key (items ! ((k - 1) div 2)) \<le> key (items ! k)" if k: "0 < k" "k < n" for k
    proof (cases "(k - 1) div 2 = i")
      case i: True
      then have c: "k = j1 \<or> k = j1 + 1" using children [OF k(1), of i] unfolding j1_def by blast
      then have "\<not> key (items ! j) < key (items ! i)" using True k(2) by auto
      moreover have "key (items ! j) \<le> key (items ! k)" using c k(2) by (auto simp: j_def)
      ultimately show ?thesis using i by simp
    qed (use cond k in blast)
    then show ?thesis unfolding eq by (simp add: is_heap_def)
  next
    case False
    then have j: "j1 < n" "j < n" "i < j" "key (items ! j) < key (items ! i)" "0 < j" "(j - 1) div 2 = i"
      by (auto simp: j_def j1_def)
    have len: "i < length items" "j < length items" using j less.prems(2) by auto
    note nth = nth_hi_Swap [OF len]
    have eq: "heap_down (\<lambda>a b. key a < key b) i n items = heap_down (\<lambda>a b. key a < key b) j n (hi_Swap items i j)"
      using False unfolding unfolded by auto
    have "heap_but_down key n j (hi_Swap items i j)"
      unfolding heap_but_down_def
    proof (intro conjI allI impI)
      fix k assume k: "0 < k \<and> k < n \<and> (k - 1) div 2 \<noteq> j"
      define q where "q = (k - 1) div 2"
      have q: "q < k" unfolding q_def using k by (intro parent_less) simp
      have kl: "k < length items" "q < length items" using k q less.prems(2) by auto
      have "key (hi_Swap items i j ! q) \<le> key (hi_Swap items i j ! k)"
      proof (cases "q = i")
        case True
        show ?thesis
        proof (cases "k = j")
          case False
          have "k = j1 \<or> k = j1 + 1" using True children [of k i] k unfolding q_def j1_def by blast
          then have "key (items ! j) \<le> key (items ! k)" using k by (auto simp: j_def)
          then show ?thesis using True False q kl by (simp add: nth)
        qed (use True j kl in \<open>simp add: nth\<close>)
      next
        case False
        show ?thesis
        proof (cases "k = i")
          case True
          then have "key (items ! q) \<le> key (items ! j)"
            using less.prems(1) j k by (simp add: heap_but_down_def q_def)
          then show ?thesis using True False k kl j(3) by (simp add: nth q_def)
        next
          case ki: False
          have "k \<noteq> j" using False j(6) by (auto simp: q_def)
          moreover have "key (items ! q) \<le> key (items ! k)" using cond [of k] k False by (simp add: q_def)
          ultimately show ?thesis using False ki k kl by (simp add: nth q_def)
        qed
      qed
      then show "key (hi_Swap items i j ! ((k - 1) div 2)) \<le> key (hi_Swap items i j ! k)" by (simp add: q_def)
    next
      fix k assume k: "0 < k \<and> k < n \<and> (k - 1) div 2 = j \<and> 0 < j"
      then have "j < k" using parent_less [of k] by simp
      moreover have "key (items ! j) \<le> key (items ! k)" using cond [of k] k j(3) by auto
      moreover have "k < length items" using k less.prems(2) by simp
      ultimately show "key (hi_Swap items i j ! ((j - 1) div 2)) \<le> key (hi_Swap items i j ! k)"
        using j(3) len by (simp add: nth j(6) [simplified])
    qed
    then show ?thesis unfolding eq using less.hyps [of j] j(2,3) less.prems(2) by simp
  qed
qed


section \<open>Push, pop and peek\<close>

lemma MinHeap_Push_spec:
  assumes "is_heap key (length items) items"
  shows "is_heap key (length (MinHeap_Push (\<lambda>a b. key a < key b) x items)) (MinHeap_Push (\<lambda>a b. key a < key b) x items)"
    and "mset (MinHeap_Push (\<lambda>a b. key a < key b) x items) = add_mset x (mset items)"
proof -
  let ?xs = "items @ [x]"
  have eq: "MinHeap_Push (\<lambda>a b. key a < key b) x items = heap_up (\<lambda>a b. key a < key b) (length items) ?xs"
    by (simp add: MinHeap_Push_def hi_Push_def)
  have "(k - 1) div 2 < length items" if "k < length ?xs" "0 < k" for k
    using parent_less [of k] that by simp
  moreover have "items = []" if "(length items - Suc 0) div 2 = length items"
    using that by (cases items) auto
  ultimately have "heap_but_up key (length items) ?xs"
    using assms by (auto simp: heap_but_up_def is_heap_def nth_append less_Suc_eq)
  then have h: "is_heap key (length ?xs) (heap_up (\<lambda>a b. key a < key b) (length items) ?xs)"
    by (rule heap_up_heap) simp
  have m: "mset (heap_up (\<lambda>a b. key a < key b) (length items) ?xs) = mset ?xs" by (rule heap_up_mset) simp
  then have "length (heap_up (\<lambda>a b. key a < key b) (length items) ?xs) = length ?xs" by (rule mset_eq_length)
  then show "is_heap key (length (MinHeap_Push (\<lambda>a b. key a < key b) x items)) (MinHeap_Push (\<lambda>a b. key a < key b) x items)"
    using h by (simp add: eq)
  show "mset (MinHeap_Push (\<lambda>a b. key a < key b) x items) = add_mset x (mset items)" using m by (simp add: eq)
qed

lemma MinHeap_Pop_spec:
  assumes h: "is_heap key (length items) items" and ne: "items \<noteq> []"
  obtains rest where "MinHeap_Pop (\<lambda>a b. key a < key b) items = Inr (items ! 0, rest)"
    "is_heap key (length rest) rest" "add_mset (items ! 0) (mset rest) = mset items"
    "\<And>x. x \<in> set rest \<Longrightarrow> key (items ! 0) \<le> key x"
proof -
  let ?n = "length items - 1"
  let ?sw = "hi_Swap items 0 ?n"
  define xs where "xs = heap_down (\<lambda>a b. key a < key b) 0 ?n ?sw"
  have n: "?n < length items" "0 < length items" "length items = Suc ?n" using ne by auto
  have xs: "mset xs = mset ?sw" "length xs = length items" "drop ?n xs = drop ?n ?sw"
  proof -
    have "mset xs = mset ?sw \<and> length xs = length ?sw \<and> drop ?n xs = drop ?n ?sw"
    proof (cases "?n = 0")
      case True
      have "xs = ?sw" unfolding xs_def True by (subst heap_down.simps) simp
      then show ?thesis by simp
    next
      case False
      then show ?thesis unfolding xs_def by (intro heap_down_mset) simp_all
    qed
    then show "mset xs = mset ?sw" "length xs = length items" "drop ?n xs = drop ?n ?sw" by simp_all
  qed
  have "heap_but_down key ?n 0 ?sw"
    unfolding heap_but_down_def
  proof (intro conjI allI impI)
    fix k assume k: "0 < k \<and> k < ?n \<and> (k - 1) div 2 \<noteq> 0"
    then have "(k - 1) div 2 < ?n" using parent_less [of k] by simp
    then show "key (?sw ! ((k - 1) div 2)) \<le> key (?sw ! k)"
    proof -
      have same: "?sw ! j = items ! j" if "0 < j" "j < ?n" for j
        using that by (subst nth_hi_Swap [OF n(2,1)]) auto
      have "0 < (k - 1) div 2" using k by blast
      then have "?sw ! ((k - 1) div 2) = items ! ((k - 1) div 2)" "?sw ! k = items ! k"
        using same \<open>(k - 1) div 2 < ?n\<close> k by blast+
      moreover have "k < length items" using conjunct1 [OF conjunct2 [OF k]] by (rule less_le_trans) simp
      ultimately show ?thesis using k h by (simp add: is_heap_def)
    qed
  qed simp
  then have heap: "is_heap key ?n xs" unfolding xs_def using n(1) by (intro heap_down_heap) auto
  have "xs ! ?n = ?sw ! ?n" using xs(2,3) n(1) by (metis hd_drop_conv_nth length_hi_Swap)
  have ne': "xs \<noteq> []" using xs(2) n(2) by auto
  have "?sw ! ?n = items ! 0"
    using n(1,2) by (auto simp: hi_Swap_def nth_list_update)
  then have last: "last xs = items ! 0" using \<open>xs ! ?n = ?sw ! ?n\<close> ne' xs(2) by (simp add: last_conv_nth)
  have pop: "MinHeap_Pop (\<lambda>a b. key a < key b) items = Inr (items ! 0, butlast xs)"
    using ne ne' last unfolding MinHeap_Pop_def hi_Pop_def Let_def xs_def by simp
  have m: "add_mset (items ! 0) (mset (butlast xs)) = mset items"
  proof -
    have "mset xs = mset items" using xs(1) n mset_hi_Swap [OF n(2,1)] by simp
    moreover have "mset xs = add_mset (last xs) (mset (butlast xs))"
      using ne' by (metis append_butlast_last_id mset_append add_mset_add_single mset_single_iff mset.simps)
    ultimately show ?thesis using last by simp
  qed
  have "key (items ! 0) \<le> key x" if "x \<in> set (butlast xs)" for x
  proof -
    have "x \<in> set items" using that m by (metis insert_iff set_mset_add_mset_insert set_mset_mset)
    then show ?thesis using is_heap_root [OF h] by (auto simp: in_set_conv_nth)
  qed
  moreover have "is_heap key (length (butlast xs)) (butlast xs)"
    unfolding is_heap_def
  proof (intro allI impI)
    fix k assume k: "0 < k \<and> k < length (butlast xs)"
    then have "(k - 1) div 2 < length (butlast xs)" using parent_less [of k] by simp
    then show "key (butlast xs ! ((k - 1) div 2)) \<le> key (butlast xs ! k)"
      using k heap xs(2) by (simp add: is_heap_def nth_butlast)
  qed
  ultimately show ?thesis using that pop m by blast
qed

end
