(* ===== verification/Scheduler.thy ===== *)
theory Scheduler
  imports MinHeap
begin

text \<open>
  The scheduler (\<open>ocr3/scheduler/scheduler.go\<close>): a goroutine that keeps items with deadlines in a
  heap, one Go timer for the earliest of them, and hands each item out after its deadline. A step is
  one case of its \<open>select\<close>, the firing of the timer, or the passing of time.
\<close>

section \<open>The interface of the heap\<close>

locale priority_queue =
  fixes push :: "'a \<Rightarrow> 'q \<Rightarrow> 'q" and pop :: "'q \<Rightarrow> ('a \<times> 'q) go" and peek :: "'q \<Rightarrow> 'a go"
    and len :: "'q \<Rightarrow> nat" and contents :: "'q \<Rightarrow> 'a multiset" and ok :: "'q \<Rightarrow> bool"
    and key :: "'a \<Rightarrow> 'k::linorder"
  assumes push_ok: "ok q \<Longrightarrow> ok (push x q)"
    and push_contents: "ok q \<Longrightarrow> contents (push x q) = add_mset x (contents q)"
    and len_size: "ok q \<Longrightarrow> len q = size (contents q)"
    and peek_least: "ok q \<Longrightarrow> contents q \<noteq> {#} \<Longrightarrow>
      goT (\<lambda>x. x \<in># contents q \<and> (\<forall>y \<in># contents q. key x \<le> key y)) (peek q)"
    and pop_peek: "ok q \<Longrightarrow> peek q = Inr x \<Longrightarrow>
      goT (\<lambda>(y, q'). y = x \<and> ok q' \<and> contents q = add_mset x (contents q')) (pop q)"
begin

lemma pop_least:
  assumes "ok q" "contents q \<noteq> {#}"
  obtains x q' where "peek q = Inr x" "pop q = Inr (x, q')" "ok q'" "contents q = add_mset x (contents q')"
    "\<forall>y \<in># contents q'. key x \<le> key y"
  using peek_least [OF assms] pop_peek [OF assms(1)] by (fastforce simp: goT_iff)

lemma peek_returns:
  assumes "ok q" "contents q \<noteq> {#}"
  obtains x where "peek q = Inr x" "x \<in># contents q" "\<forall>y \<in># contents q. key x \<le> key y"
  using peek_least [OF assms] by (auto simp: goT_iff)

lemma peek_push:
  assumes "ok q" "peek (push x q) = Inr y"
  shows "(y = x \<or> y \<in># contents q) \<and> key y \<le> key x \<and> (\<forall>z \<in># contents q. key y \<le> key z)"
  using peek_least [OF push_ok [OF assms(1), of x]] assms by (auto simp: push_contents)

end

section \<open>Timers and the state\<close>

text \<open>A Go timer: the time at which it fires, when it is running, and whether its channel holds a
  value. Times are in nanoseconds and within the range of \<open>time.Duration\<close>.\<close>

record go_timer =
  tm_running :: "int option"
  tm_fired :: bool

definition tm_Reset :: "int \<Rightarrow> int \<Rightarrow> go_timer \<Rightarrow> go_timer" where
  "tm_Reset now d t = t\<lparr>tm_running := Some (now + max 0 d)\<rparr>"

definition tm_Stop :: "go_timer \<Rightarrow> bool \<times> go_timer" where
  "tm_Stop t = (tm_running t \<noteq> None, t\<lparr>tm_running := None\<rparr>)"

record 'a itemWithDeadline =
  itd_Item :: 'a
  itd_Deadline :: int

text \<open>\<open>sch_pending\<close> is the item offered on the out channel, \<open>None\<close> when \<open>maybeOut\<close> is nil; the model
  keeps its deadline with it. \<open>sch_received\<close> and \<open>sch_delivered\<close> (with the time of delivery) are
  ghost fields.\<close>

record 'a scheduler =
  sch_now :: int
  sch_timer :: go_timer
  sch_heap :: "'a itemWithDeadline list"
  sch_pending :: "'a itemWithDeadline option"
  sch_closed :: bool
  sch_received :: "'a itemWithDeadline list"
  sch_delivered :: "('a itemWithDeadline \<times> int) list"

definition deadline_before :: "'a itemWithDeadline \<Rightarrow> 'a itemWithDeadline \<Rightarrow> bool" where
  "deadline_before a b = (itd_Deadline a < itd_Deadline b)"

definition NewScheduler :: "int \<Rightarrow> 'a scheduler" where
  "NewScheduler now = \<lparr>sch_now = now, sch_timer = \<lparr>tm_running = None, tm_fired = False\<rparr>, sch_heap = [],
     sch_pending = None, sch_closed = False, sch_received = [], sch_delivered = []\<rparr>"

text \<open>\<open>time.Until(deadline)\<close> is the deadline minus the current time.\<close>

definition sch_arm :: "int \<Rightarrow> 'a scheduler \<Rightarrow> 'a scheduler" where
  "sch_arm deadline st = st\<lparr>sch_timer := tm_Reset (sch_now st) (deadline - sch_now st) (sch_timer st)\<rparr>"

section \<open>The cases of the loop\<close>

definition sch_in :: "'a itemWithDeadline \<Rightarrow> 'a scheduler \<Rightarrow> 'a scheduler go" where
  "sch_in item st =
     bindG
       (if sch_pending st = None
        then
          if MinHeap_Len (sch_heap st) = 0 then Inr (sch_arm (itd_Deadline item) st)
          else bindG (MinHeap_Peek (sch_heap st)) (\<lambda>top.
            if itd_Deadline top > itd_Deadline item
            then (let (stopped, timer) = tm_Stop (sch_timer st); st = st\<lparr>sch_timer := timer\<rparr>
                  in Inr (if stopped then sch_arm (itd_Deadline item) st else st))
            else Inr st)
        else Inr st) (\<lambda>st.
     Inr (st\<lparr>sch_heap := MinHeap_Push deadline_before item (sch_heap st), sch_received := sch_received st @ [item]\<rparr>))"

definition sch_timer_fired :: "'a scheduler \<Rightarrow> 'a scheduler go" where
  "sch_timer_fired st =
     bindG (MinHeap_Pop deadline_before (sch_heap st)) (\<lambda>(item, heap).
       Inr (st\<lparr>sch_timer := (sch_timer st)\<lparr>tm_fired := False\<rparr>, sch_heap := heap, sch_pending := Some item\<rparr>))"

definition sch_out :: "'a scheduler \<Rightarrow> 'a scheduler go" where
  "sch_out st =
     bindG (go_deref (sch_pending st)) (\<lambda>item.
     let st = st\<lparr>sch_pending := None, sch_delivered := sch_delivered st @ [(item, sch_now st)]\<rparr>
     in if MinHeap_Len (sch_heap st) \<noteq> 0
        then bindG (MinHeap_Peek (sch_heap st)) (\<lambda>top. Inr (sch_arm (itd_Deadline top) st))
        else Inr st)"

text \<open>A client's \<open>ScheduleDelay\<close> sends the deadline \<open>now + delay\<close>; \<open>SchOut\<close> is a client receiving.\<close>

datatype 'a sch_case =
    SchTick int
  | SchFire
  | ScheduleDeadline 'a int
  | ScheduleDelay 'a int
  | SchTimer
  | SchOut
  | SchClose

fun sch_ready :: "'a scheduler \<Rightarrow> 'a sch_case \<Rightarrow> bool" where
  "sch_ready st (SchTick t) = (sch_now st \<le> t)"
| "sch_ready st SchFire = (case tm_running (sch_timer st) of None \<Rightarrow> False | Some t \<Rightarrow> t \<le> sch_now st)"
| "sch_ready st (ScheduleDeadline item d) = True"
| "sch_ready st (ScheduleDelay item d) = True"
| "sch_ready st SchTimer = (\<not> sch_closed st \<and> tm_fired (sch_timer st))"
| "sch_ready st SchOut = (\<not> sch_closed st \<and> sch_pending st \<noteq> None)"
| "sch_ready st SchClose = True"

text \<open>Once the context is done, sends to the scheduler are dropped.\<close>

fun sch_process :: "'a sch_case \<Rightarrow> 'a scheduler \<Rightarrow> 'a scheduler go" where
  "sch_process (SchTick t) st = Inr (st\<lparr>sch_now := t\<rparr>)"
| "sch_process SchFire st = Inr (st\<lparr>sch_timer := \<lparr>tm_running = None, tm_fired = True\<rparr>\<rparr>)"
| "sch_process (ScheduleDeadline item d) st =
     (if sch_closed st then Inr st else sch_in \<lparr>itd_Item = item, itd_Deadline = d\<rparr> st)"
| "sch_process (ScheduleDelay item d) st =
     (if sch_closed st then Inr st else sch_in \<lparr>itd_Item = item, itd_Deadline = sch_now st + d\<rparr> st)"
| "sch_process SchTimer st = sch_timer_fired st"
| "sch_process SchOut st = sch_out st"
| "sch_process SchClose st = Inr (st\<lparr>sch_closed := True\<rparr>)"

inductive sch_reach :: "int \<Rightarrow> 'a scheduler \<Rightarrow> bool" for start where
  sch_reach_init: "sch_reach start (NewScheduler start)"
| sch_reach_step: "sch_reach start st \<Longrightarrow> sch_ready st c \<Longrightarrow> sch_process c st = Inr st' \<Longrightarrow> sch_reach start st'"

text \<open>A run along given cases, none of which may be disabled.\<close>

fun sch_exec :: "'a sch_case list \<Rightarrow> 'a scheduler \<Rightarrow> 'a scheduler go" where
  "sch_exec [] st = Inr st"
| "sch_exec (c # cs) st = (if sch_ready st c then bindG (sch_process c st) (sch_exec cs) else Inl NoReturn)"

section \<open>The heap is a priority queue\<close>

lemma deadline_before_eq: "deadline_before = (\<lambda>a b. itd_Deadline a < itd_Deadline b)"
  by (simp add: deadline_before_def fun_eq_iff)

definition heap_ok :: "'a itemWithDeadline list \<Rightarrow> bool" where
  "heap_ok items = is_heap itd_Deadline (length items) items"

interpretation pq: priority_queue "MinHeap_Push deadline_before" "MinHeap_Pop deadline_before" MinHeap_Peek
  MinHeap_Len mset heap_ok itd_Deadline
proof unfold_locales
  fix q :: "'a itemWithDeadline list" and x
  assume ok: "heap_ok q"
  show "heap_ok (MinHeap_Push deadline_before x q)" "mset (MinHeap_Push deadline_before x q) = add_mset x (mset q)"
    using MinHeap_Push_spec [of itd_Deadline q x] ok by (simp_all add: heap_ok_def deadline_before_eq)
  show "MinHeap_Len q = size (mset q)" by (simp add: MinHeap_Len_def)
  show "goT (\<lambda>x. x \<in># mset q \<and> (\<forall>y \<in># mset q. itd_Deadline x \<le> itd_Deadline y)) (MinHeap_Peek q)" if "mset q \<noteq> {#}"
    using that ok is_heap_root [of itd_Deadline "length q" q]
    by (auto simp: MinHeap_Peek_def heap_ok_def in_set_conv_nth)
  show "goT (\<lambda>(y, q'). y = x \<and> heap_ok q' \<and> mset q = add_mset x (mset q')) (MinHeap_Pop deadline_before q)"
    if "MinHeap_Peek q = Inr x"
  proof -
    have x: "q \<noteq> []" "x = q ! 0" using that by (auto simp: MinHeap_Peek_def go_index_eq_Inr)
    obtain rest where "MinHeap_Pop (\<lambda>a b. itd_Deadline a < itd_Deadline b) q = Inr (q ! 0, rest)"
      "is_heap itd_Deadline (length rest) rest" "add_mset (q ! 0) (mset rest) = mset q"
      using MinHeap_Pop_spec [OF _ x(1), of itd_Deadline] ok unfolding heap_ok_def by metis
    then show ?thesis using x(2) by (simp add: deadline_before_eq heap_ok_def)
  qed
qed

section \<open>The invariant\<close>

text \<open>The timer waits for the least deadline: it runs until then, or until a moment that has passed
  since, or it has fired after that deadline.\<close>

definition timer_ok :: "'a scheduler \<Rightarrow> bool" where
  "timer_ok st \<longleftrightarrow>
     (if sch_pending st \<noteq> None \<or> sch_heap st = [] then sch_timer st = \<lparr>tm_running = None, tm_fired = False\<rparr>
      else \<exists>top. MinHeap_Peek (sch_heap st) = Inr top \<and>
        (case tm_running (sch_timer st) of
           None \<Rightarrow> tm_fired (sch_timer st) \<and> itd_Deadline top \<le> sch_now st
         | Some t \<Rightarrow> \<not> tm_fired (sch_timer st) \<and> itd_Deadline top \<le> t \<and> (t = itd_Deadline top \<or> t \<le> sch_now st)))"

definition pending_mset :: "'a scheduler \<Rightarrow> 'a itemWithDeadline multiset" where
  "pending_mset st = (case sch_pending st of None \<Rightarrow> {#} | Some x \<Rightarrow> {#x#})"

definition sch_ok :: "'a scheduler \<Rightarrow> bool" where
  "sch_ok st \<longleftrightarrow> heap_ok (sch_heap st) \<and> timer_ok st \<and>
     (\<forall>x. sch_pending st = Some x \<longrightarrow> itd_Deadline x \<le> sch_now st) \<and>
     (\<forall>(x, t) \<in> set (sch_delivered st). itd_Deadline x \<le> t \<and> t \<le> sch_now st) \<and>
     mset (sch_received st) = mset (sch_heap st) + pending_mset st + mset (map fst (sch_delivered st))"

lemma heap_ok_Nil [simp]: "heap_ok []"
  by (simp add: heap_ok_def is_heap_def)

lemma sch_ok_init: "sch_ok (NewScheduler now)"
  by (simp add: sch_ok_def timer_ok_def pending_mset_def NewScheduler_def)

lemma Push_ne [simp]: "heap_ok q \<Longrightarrow> MinHeap_Push deadline_before x q \<noteq> []"
  using pq.push_contents [of q x] by (metis add_mset_not_empty mset.simps(1))

lemma sch_ok_tick: "sch_ok st \<Longrightarrow> sch_now st \<le> t \<Longrightarrow> sch_ok (st\<lparr>sch_now := t\<rparr>)"
  by (fastforce simp: sch_ok_def timer_ok_def pending_mset_def split: option.splits)

lemma sch_ok_fire:
  assumes "sch_ok st" "sch_ready st SchFire"
  shows "sch_ok (st\<lparr>sch_timer := \<lparr>tm_running = None, tm_fired = True\<rparr>\<rparr>)"
  using assms by (auto simp: sch_ok_def timer_ok_def pending_mset_def split: option.splits if_splits)

text \<open>Receiving an item: the four situations of the timer.\<close>

definition in_timer :: "'a itemWithDeadline \<Rightarrow> 'a scheduler \<Rightarrow> go_timer" where
  "in_timer item st =
     (if sch_pending st \<noteq> None then sch_timer st
      else if sch_heap st = [] then tm_Reset (sch_now st) (itd_Deadline item - sch_now st) (sch_timer st)
      else if itd_Deadline (sch_heap st ! 0) > itd_Deadline item \<and> tm_running (sch_timer st) \<noteq> None
      then tm_Reset (sch_now st) (itd_Deadline item - sch_now st) (snd (tm_Stop (sch_timer st)))
      else sch_timer st)"

lemma sch_in_eq:
  "sch_in item st = Inr (st\<lparr>sch_timer := in_timer item st,
     sch_heap := MinHeap_Push deadline_before item (sch_heap st), sch_received := sch_received st @ [item]\<rparr>)"
proof -
  have "\<lparr>tm_running = None, tm_fired = f\<rparr> = t" if "tm_running t = None" "tm_fired t = f" for t :: go_timer and f
    using that by (cases t) simp
  then show ?thesis
    by (cases st; cases "sch_timer st")
      (auto simp: sch_in_def in_timer_def MinHeap_Len_def MinHeap_Peek_def sch_arm_def tm_Stop_def)
qed

lemma Peek_nth: "q \<noteq> [] \<Longrightarrow> MinHeap_Peek q = Inr (q ! 0)"
  by (simp add: MinHeap_Peek_def)

text \<open>The least deadline after a push.\<close>

lemma push_top:
  assumes "heap_ok q"
  shows "itd_Deadline (MinHeap_Push deadline_before x q ! 0) =
    (if q = [] then itd_Deadline x else min (itd_Deadline x) (itd_Deadline (q ! 0)))"
proof -
  let ?y = "MinHeap_Push deadline_before x q ! 0"
  have y: "(?y = x \<or> ?y \<in> set q) \<and> itd_Deadline ?y \<le> itd_Deadline x \<and> (\<forall>z \<in> set q. itd_Deadline ?y \<le> itd_Deadline z)"
    using pq.peek_push [OF assms, of x ?y] Peek_nth [OF Push_ne [OF assms]] by simp
  show ?thesis
  proof (cases "q = []")
    case False
    then have "q ! 0 \<in> set q" by simp
    moreover have "itd_Deadline (q ! 0) \<le> itd_Deadline z" if "z \<in> set q" for z
      using pq.peek_returns [of q] assms False that Peek_nth [OF False] by (metis Inr_inject mset_zero_iff set_mset_mset)
    ultimately have "itd_Deadline ?y = min (itd_Deadline x) (itd_Deadline (q ! 0))"
      using y by (metis min.absorb1 min.absorb2 order_antisym)
    then show ?thesis using False by simp
  qed (use y in auto)
qed

lemma sch_ok_in:
  assumes ok: "sch_ok st"
  shows "sch_ok (st\<lparr>sch_timer := in_timer item st,
     sch_heap := MinHeap_Push deadline_before item (sch_heap st), sch_received := sch_received st @ [item]\<rparr>)"
proof -
  have h: "heap_ok (sch_heap st)" using ok by (simp add: sch_ok_def)
  have "timer_ok (st\<lparr>sch_timer := in_timer item st,
     sch_heap := MinHeap_Push deadline_before item (sch_heap st), sch_received := sch_received st @ [item]\<rparr>)"
  proof (cases "sch_pending st = None")
    case True
    then show ?thesis
      using ok h push_top [OF h, of item]
      by (auto simp: sch_ok_def timer_ok_def in_timer_def Peek_nth tm_Reset_def tm_Stop_def split: option.splits if_splits)
  qed (use ok h in \<open>simp add: sch_ok_def timer_ok_def in_timer_def\<close>)
  then show ?thesis
    using ok pq.push_ok [OF h] pq.push_contents [OF h] by (auto simp: sch_ok_def pending_mset_def)
qed

lemma sch_ok_timer_fired:
  assumes ok: "sch_ok st" and fired: "tm_fired (sch_timer st)"
  obtains x q where "MinHeap_Pop deadline_before (sch_heap st) = Inr (x, q)" "sch_pending st = None"
    "mset (sch_heap st) = add_mset x (mset q)" "itd_Deadline x \<le> sch_now st"
    "sch_timer_fired st = Inr (st\<lparr>sch_timer := \<lparr>tm_running = None, tm_fired = False\<rparr>, sch_heap := q, sch_pending := Some x\<rparr>)"
    "sch_ok (st\<lparr>sch_timer := \<lparr>tm_running = None, tm_fired = False\<rparr>, sch_heap := q, sch_pending := Some x\<rparr>)"
proof -
  have h: "heap_ok (sch_heap st)" using ok by (simp add: sch_ok_def)
  have p: "sch_pending st = None" "sch_heap st \<noteq> []" "tm_running (sch_timer st) = None"
    "itd_Deadline (sch_heap st ! 0) \<le> sch_now st"
    using ok fired by (auto simp: sch_ok_def timer_ok_def Peek_nth split: if_splits option.splits)
  obtain x q where q: "MinHeap_Peek (sch_heap st) = Inr x" "MinHeap_Pop deadline_before (sch_heap st) = Inr (x, q)"
    "heap_ok q" "mset (sch_heap st) = add_mset x (mset q)"
    using pq.pop_least [OF h] p(2) by (metis mset_zero_iff)
  have x: "itd_Deadline x \<le> sch_now st" using q(1) p(2,4) by (simp add: Peek_nth)
  have t: "(sch_timer st)\<lparr>tm_fired := False\<rparr> = \<lparr>tm_running = None, tm_fired = False\<rparr>"
    using p(3) by (cases "sch_timer st") simp
  have "sch_timer_fired st = Inr (st\<lparr>sch_timer := \<lparr>tm_running = None, tm_fired = False\<rparr>, sch_heap := q, sch_pending := Some x\<rparr>)"
    by (simp add: sch_timer_fired_def q(2) t)
  moreover have "sch_ok (st\<lparr>sch_timer := \<lparr>tm_running = None, tm_fired = False\<rparr>, sch_heap := q, sch_pending := Some x\<rparr>)"
    using ok q(3,4) x p(1) by (auto simp: sch_ok_def timer_ok_def pending_mset_def)
  ultimately show ?thesis using that q(2,4) p(1) x by blast
qed

lemma sch_ok_out:
  assumes ok: "sch_ok st" and p: "sch_pending st = Some x"
  obtains t where "sch_out st = Inr (st\<lparr>sch_timer := t, sch_pending := None, sch_delivered := sch_delivered st @ [(x, sch_now st)]\<rparr>)"
    "sch_ok (st\<lparr>sch_timer := t, sch_pending := None, sch_delivered := sch_delivered st @ [(x, sch_now st)]\<rparr>)"
proof -
  have t0: "sch_timer st = \<lparr>tm_running = None, tm_fired = False\<rparr>" using ok p by (simp add: sch_ok_def timer_ok_def)
  define t where "t = (if sch_heap st = [] then sch_timer st
     else tm_Reset (sch_now st) (itd_Deadline (sch_heap st ! 0) - sch_now st) (sch_timer st))"
  have "sch_out st = Inr (st\<lparr>sch_timer := t, sch_pending := None, sch_delivered := sch_delivered st @ [(x, sch_now st)]\<rparr>)"
    using p by (cases st) (simp add: sch_out_def t_def Let_def MinHeap_Len_def Peek_nth sch_arm_def)
  moreover have "sch_ok (st\<lparr>sch_timer := t, sch_pending := None, sch_delivered := sch_delivered st @ [(x, sch_now st)]\<rparr>)"
    using ok p by (auto simp: sch_ok_def timer_ok_def pending_mset_def t_def t0 Peek_nth tm_Reset_def)
  ultimately show ?thesis using that by blast
qed

text \<open>No case panics, and every case keeps the invariant.\<close>

lemma sch_ok_process:
  assumes "sch_ok st" "sch_ready st c"
  shows "goT sch_ok (sch_process c st)"
proof (cases c)
  case SchTimer
  then show ?thesis using assms sch_ok_timer_fired [OF assms(1)] by (metis goT_simps(2) sch_process.simps(5) sch_ready.simps(5))
next
  case SchOut
  then obtain x where "sch_pending st = Some x" using assms(2) by auto
  then show ?thesis using sch_ok_out [OF assms(1)] SchOut by (metis goT_simps(2) sch_process.simps(6))
next
  case SchClose
  then show ?thesis using assms(1) by (auto simp: sch_ok_def timer_ok_def pending_mset_def split: option.splits)
qed (use assms sch_ok_tick sch_ok_fire sch_ok_in in \<open>auto simp: sch_in_eq\<close>)

lemma sch_reach_ok: "sch_reach start st \<Longrightarrow> sch_ok st"
proof (induction rule: sch_reach.induct)
  case sch_reach_init
  show ?case by (rule sch_ok_init)
next
  case (sch_reach_step st c st')
  then show ?case using sch_ok_process [of st c] by simp
qed

section \<open>The abstract timer service\<close>

text \<open>What clients rely on, as a labelled transition system. An event is what a client asks for or is given;
  the state is the time, whether the service is closed, and the multiset of waiting items. Scheduling an item
  adds exactly this item with exactly this deadline; any waiting item may be handed out once its deadline has
  passed.\<close>

datatype 'a dq_event = DqTick int | DqSchedule 'a int | DqDeliver 'a | DqClose

record 'a delay_queue =
  dq_now :: int
  dq_waiting :: "'a itemWithDeadline multiset"
  dq_closed :: bool

definition dq_init :: "int \<Rightarrow> 'a delay_queue" where
  "dq_init now = \<lparr>dq_now = now, dq_waiting = {#}, dq_closed = False\<rparr>"

inductive dq_step :: "'a delay_queue \<Rightarrow> 'a dq_event \<Rightarrow> 'a delay_queue \<Rightarrow> bool" where
  dq_tick: "dq_now q \<le> t \<Longrightarrow> dq_step q (DqTick t) (q\<lparr>dq_now := t\<rparr>)"
| dq_schedule: "\<not> dq_closed q \<Longrightarrow> dq_step q (DqSchedule item d)
    (q\<lparr>dq_waiting := add_mset \<lparr>itd_Item = item, itd_Deadline = d\<rparr> (dq_waiting q)\<rparr>)"
| dq_dropped: "dq_closed q \<Longrightarrow> dq_step q (DqSchedule item d) q"
| dq_deliver: "\<not> dq_closed q \<Longrightarrow> x \<in># dq_waiting q \<Longrightarrow> itd_Deadline x \<le> dq_now q \<Longrightarrow>
    dq_step q (DqDeliver (itd_Item x)) (q\<lparr>dq_waiting := dq_waiting q - {#x#}\<rparr>)"
| dq_close: "dq_step q DqClose (q\<lparr>dq_closed := True\<rparr>)"

inductive dq_trace :: "'a delay_queue \<Rightarrow> 'a dq_event list \<Rightarrow> 'a delay_queue \<Rightarrow> bool" for q0 where
  dq_trace_none: "dq_trace q0 [] q0"
| dq_trace_step: "dq_trace q0 es q \<Longrightarrow> dq_step q e q' \<Longrightarrow> dq_trace q0 (es @ [e]) q'"

section \<open>The scheduler refines it\<close>

text \<open>What a client sees of a case of the scheduler: the item and the absolute deadline it asked for, and the
  item it is handed. The firing of the timer and its handling are internal.\<close>

fun sch_event :: "'a scheduler \<Rightarrow> 'a sch_case \<Rightarrow> 'a dq_event list" where
  "sch_event st (SchTick t) = [DqTick t]"
| "sch_event st SchFire = []"
| "sch_event st (ScheduleDeadline item deadline) = [DqSchedule item deadline]"
| "sch_event st (ScheduleDelay item delay) = [DqSchedule item (sch_now st + delay)]"
| "sch_event st SchTimer = []"
| "sch_event st SchOut = (case sch_pending st of None \<Rightarrow> [] | Some x \<Rightarrow> [DqDeliver (itd_Item x)])"
| "sch_event st SchClose = [DqClose]"

inductive sch_trace :: "int \<Rightarrow> 'a dq_event list \<Rightarrow> 'a scheduler \<Rightarrow> bool" for start where
  sch_trace_init: "sch_trace start [] (NewScheduler start)"
| sch_trace_step: "sch_trace start es st \<Longrightarrow> sch_ready st c \<Longrightarrow> sch_process c st = Inr st' \<Longrightarrow>
    sch_trace start (es @ sch_event st c) st'"

definition sch_abs :: "'a scheduler \<Rightarrow> 'a delay_queue" where
  "sch_abs st = \<lparr>dq_now = sch_now st, dq_waiting = mset (sch_heap st) + pending_mset st, dq_closed = sch_closed st\<rparr>"

lemma sch_trace_reach: "sch_trace start es st \<Longrightarrow> sch_reach start st"
  by (induction rule: sch_trace.induct) (auto intro: sch_reach.intros)

text \<open>Each case makes exactly the step of its event; the internal ones change nothing.\<close>

lemma sch_case_refines:
  assumes ok: "sch_ok st" and ready: "sch_ready st c" and step: "sch_process c st = Inr st'"
  shows "(case sch_event st c of [] \<Rightarrow> sch_abs st' = sch_abs st | e # _ \<Rightarrow> dq_step (sch_abs st) e (sch_abs st'))"
proof -
  have sched: "dq_step (sch_abs st) (DqSchedule item d) (sch_abs st')"
    if "(if sch_closed st then Inr st else sch_in \<lparr>itd_Item = item, itd_Deadline = d\<rparr> st) = Inr st'" for item d
  proof (cases "sch_closed st")
    case True
    then have "st' = st" "dq_closed (sch_abs st)" using that by (simp_all add: sch_abs_def)
    then show ?thesis by (simp add: dq_dropped)
  next
    case False
    have h: "heap_ok (sch_heap st)" using ok by (simp add: sch_ok_def)
    have "sch_abs st' = (sch_abs st)\<lparr>dq_waiting := add_mset \<lparr>itd_Item = item, itd_Deadline = d\<rparr> (dq_waiting (sch_abs st))\<rparr>"
      using False that pq.push_contents [OF h] by (auto simp: sch_in_eq sch_abs_def pending_mset_def)
    moreover have "\<not> dq_closed (sch_abs st)" using False by (simp add: sch_abs_def)
    ultimately show ?thesis using dq_schedule by metis
  qed
  show ?thesis
  proof (cases c)
    case (SchTick t)
    then have "sch_abs st' = (sch_abs st)\<lparr>dq_now := t\<rparr>" "dq_now (sch_abs st) \<le> t"
      using ready step by (auto simp: sch_abs_def pending_mset_def)
    then show ?thesis using SchTick dq_tick by simp
  next
    case SchTimer
    then obtain x q where "sch_pending st = None" "mset (sch_heap st) = add_mset x (mset q)"
      "st' = st\<lparr>sch_timer := \<lparr>tm_running = None, tm_fired = False\<rparr>, sch_heap := q, sch_pending := Some x\<rparr>"
      using sch_ok_timer_fired [OF ok] ready step by (metis Inr_inject sch_process.simps(5) sch_ready.simps(5))
    then show ?thesis using SchTimer by (simp add: sch_abs_def pending_mset_def)
  next
    case SchOut
    then obtain x where x: "sch_pending st = Some x" and open': "\<not> sch_closed st" using ready by auto
    obtain t where t: "st' = st\<lparr>sch_timer := t, sch_pending := None, sch_delivered := sch_delivered st @ [(x, sch_now st)]\<rparr>"
      using sch_ok_out [OF ok x] step SchOut by (metis Inr_inject sch_process.simps(6))
    have "sch_abs st' = (sch_abs st)\<lparr>dq_waiting := dq_waiting (sch_abs st) - {#x#}\<rparr>"
      using x t by (simp add: sch_abs_def pending_mset_def)
    moreover have "x \<in># dq_waiting (sch_abs st)" "itd_Deadline x \<le> dq_now (sch_abs st)" "\<not> dq_closed (sch_abs st)"
      using x ok open' by (simp_all add: sch_abs_def pending_mset_def sch_ok_def)
    ultimately show ?thesis using SchOut x dq_deliver by (metis list.case(2) option.simps(5) sch_event.simps(6))
  next
    case SchClose
    then have "sch_abs st' = (sch_abs st)\<lparr>dq_closed := True\<rparr>"
      using step by (auto simp: sch_abs_def pending_mset_def)
    then show ?thesis using SchClose dq_close by simp
  next
    case SchFire
    then show ?thesis using step by (auto simp: sch_abs_def pending_mset_def)
  qed (use step sched in simp_all)
qed

lemma sch_event_length: "sch_event st c = [] \<or> (\<exists>e. sch_event st c = [e])"
  by (cases c) (auto split: option.splits)

text \<open>A waiting item that is due can be handed out after at most two internal moves.\<close>

lemma sch_can_deliver:
  assumes ok: "sch_ok st" and open': "\<not> sch_closed st" and x: "x \<in># mset (sch_heap st) + pending_mset st"
    and due: "itd_Deadline x \<le> sch_now st"
  obtains cs st' where "set cs \<subseteq> {SchFire, SchTimer}" "length cs \<le> 2" "sch_exec cs st = Inr st'" "sch_abs st' = sch_abs st" "sch_ready st' SchOut"
proof -
  have internal: "sch_abs st' = sch_abs st" if "sch_ok st" "sch_ready st c" "c \<in> {SchFire, SchTimer}" "sch_process c st = Inr st'"
    for st c and st' :: "'a scheduler"
    using sch_case_refines [OF that(1,2,4)] that(3) by auto
  have timer: "\<exists>st'. sch_process SchTimer st = Inr st' \<and> sch_abs st' = sch_abs st \<and> sch_ready st' SchOut"
    if fired: "tm_fired (sch_timer st)" "sch_ok st" "\<not> sch_closed st" for st :: "'a scheduler"
  proof -
    obtain x q where "sch_timer_fired st = Inr (st\<lparr>sch_timer := \<lparr>tm_running = None, tm_fired = False\<rparr>, sch_heap := q, sch_pending := Some x\<rparr>)"
      by (rule sch_ok_timer_fired [OF fired(2,1)])
    then show ?thesis using fired internal [OF fired(2), of SchTimer] by simp
  qed
  consider "sch_pending st \<noteq> None" | "sch_pending st = None" "tm_fired (sch_timer st)"
    | "sch_pending st = None" "\<not> tm_fired (sch_timer st)" by blast
  then show thesis
  proof cases
    case 1
    show thesis by (rule that [of "[]" st]) (use 1 open' in simp_all)
  next
    case 2
    obtain st' where "sch_process SchTimer st = Inr st'" "sch_abs st' = sch_abs st" "sch_ready st' SchOut"
      using timer [OF 2(2) ok open'] by blast
    then show thesis using 2(2) open' by (intro that [of "[SchTimer]" st']) simp_all
  next
    case 3
    have h: "heap_ok (sch_heap st)" "sch_heap st \<noteq> []" and member: "x \<in># mset (sch_heap st)"
      using ok x 3(1) by (auto simp: sch_ok_def pending_mset_def)
    obtain top where top: "MinHeap_Peek (sch_heap st) = Inr top" "itd_Deadline top \<le> itd_Deadline x"
      by (rule pq.peek_returns [OF h(1)]) (use h(2) member in auto)
    have "timer_ok st" using ok by (simp add: sch_ok_def)
    then obtain t where "tm_running (sch_timer st) = Some t" "t = itd_Deadline top \<or> t \<le> sch_now st"
      using 3 h(2) top(1) by (auto simp: timer_ok_def split: option.splits)
    then have ready: "sch_ready st SchFire" using top(2) due by auto
    let ?st1 = "st\<lparr>sch_timer := \<lparr>tm_running = None, tm_fired = True\<rparr>\<rparr>"
    have abs: "sch_abs ?st1 = sch_abs st" by (rule internal [OF ok ready]) simp_all
    obtain st' where "sch_process SchTimer ?st1 = Inr st'" "sch_abs st' = sch_abs ?st1" "sch_ready st' SchOut"
      using timer [of ?st1] sch_ok_fire [OF ok ready] open' by auto
    then show thesis using ready open' abs by (intro that [of "[SchFire, SchTimer]" st']) (simp_all del: sch_ready.simps(2))
  qed
qed

text \<open>C9: The scheduler implements a delay queue. What clients see of any run of it, the items and deadlines
  they schedule and the items they are handed, in this order, is a run of the abstract service, and the items
  in the heap and the one on offer are exactly the ones that are waiting there: nothing is scheduled that was
  not asked for, under another deadline, lost, repeated or handed out early, and \<open>ScheduleDelay\<close> means the
  deadline that much later than now. No case panics, and what the service may hand out the scheduler can:
  whenever it is open and a due item is waiting, its timer leads in at most two internal moves to an item on
  offer.\<close>

theorem scheduler_refines_delay_queue:
  assumes "sch_trace start es st"
  shows "dq_trace (dq_init start) es (sch_abs st) \<and>
    (\<forall>c. sch_ready st c \<longrightarrow> (\<exists>st'. sch_process c st = Inr st' \<and>
       (if sch_event st c = [] then sch_abs st' = sch_abs st
        else dq_step (sch_abs st) (hd (sch_event st c)) (sch_abs st')))) \<and>
    ((\<exists>item q'. dq_step (sch_abs st) (DqDeliver item) q') \<longrightarrow>
       (\<exists>cs st'. set cs \<subseteq> {SchFire, SchTimer} \<and> length cs \<le> 2 \<and> sch_exec cs st = Inr st' \<and>
          sch_abs st' = sch_abs st \<and> sch_ready st' SchOut))"
proof (intro conjI allI impI)
  show "dq_trace (dq_init start) es (sch_abs st)"
    using assms
  proof (induction rule: sch_trace.induct)
    case sch_trace_init
    have "sch_abs (NewScheduler start) = dq_init start"
      by (simp add: sch_abs_def dq_init_def NewScheduler_def pending_mset_def)
    then show ?case using dq_trace_none by metis
  next
    case (sch_trace_step es st c st')
    have "case sch_event st c of [] \<Rightarrow> sch_abs st' = sch_abs st | e # _ \<Rightarrow> dq_step (sch_abs st) e (sch_abs st')"
      by (rule sch_case_refines [OF sch_reach_ok [OF sch_trace_reach]]) (rule sch_trace_step.hyps)+
    then show ?case using sch_trace_step.IH sch_event_length [of st c] by (auto intro: dq_trace_step)
  qed
next
  have ok: "sch_ok st" by (rule sch_reach_ok [OF sch_trace_reach [OF assms]])
  fix c assume ready: "sch_ready st c"
  obtain st' where "sch_process c st = Inr st'" using sch_ok_process [OF ok ready] by (auto simp: goT_iff)
  then show "\<exists>st'. sch_process c st = Inr st' \<and> (if sch_event st c = [] then sch_abs st' = sch_abs st
      else dq_step (sch_abs st) (hd (sch_event st c)) (sch_abs st'))"
    using sch_case_refines [OF ok ready, of st'] sch_event_length [of st c] by auto
next
  have ok: "sch_ok st" by (rule sch_reach_ok [OF sch_trace_reach [OF assms]])
  assume "\<exists>item q'. dq_step (sch_abs st) (DqDeliver item) q'"
  then obtain x where "\<not> sch_closed st" "x \<in># mset (sch_heap st) + pending_mset st" "itd_Deadline x \<le> sch_now st"
    by (auto elim!: dq_step.cases simp: sch_abs_def)
  then show "\<exists>cs st'. set cs \<subseteq> {SchFire, SchTimer} \<and> length cs \<le> 2 \<and> sch_exec cs st = Inr st' \<and>
      sch_abs st' = sch_abs st \<and> sch_ready st' SchOut"
    using sch_can_deliver [OF ok] by metis
qed

text \<open>No item is handed out before its deadline, lost, duplicated or invented: each delivery comes
  at or after its deadline, and the items received are, as a multiset, the delivered ones, the one
  being offered and the ones in the heap. No case of the loop panics: the heap is never popped or
  peeked when empty.\<close>

theorem scheduler_never_early_never_lossy:
  assumes "sch_reach start st"
  shows "(\<forall>(x, t) \<in> set (sch_delivered st). itd_Deadline x \<le> t \<and> t \<le> sch_now st) \<and>
    mset (sch_received st) = mset (sch_heap st) + pending_mset st + mset (map fst (sch_delivered st)) \<and>
    (sch_ready st c \<longrightarrow> (\<exists>st'. sch_process c st = Inr st'))"
  using sch_reach_ok [OF assms] sch_ok_process [of st c] by (auto simp: sch_ok_def goT_iff)

section \<open>Every due item is delivered\<close>

text \<open>Runs in which only the scheduler moves and its client receives.\<close>

definition sch_own :: "'a sch_case \<Rightarrow> bool" where
  "sch_own c \<longleftrightarrow> c = SchFire \<or> c = SchTimer \<or> c = SchOut"

inductive sch_own_run :: "nat \<Rightarrow> 'a scheduler \<Rightarrow> 'a scheduler \<Rightarrow> bool" where
  sch_own_none: "sch_own_run 0 st st"
| sch_own_step: "sch_own_run k st st1 \<Longrightarrow> sch_own c \<Longrightarrow> sch_ready st1 c \<Longrightarrow> sch_process c st1 = Inr st2 \<Longrightarrow>
    sch_own_run (Suc k) st st2"

definition sch_work :: "'a scheduler \<Rightarrow> nat" where
  "sch_work st = 3 * length (sch_heap st) + (if sch_pending st = None then 0 else 1) - (if tm_fired (sch_timer st) then 1 else 0)"

lemma sch_own_decreases:
  assumes ok: "sch_ok st" and c: "sch_own c" "sch_ready st c" "sch_process c st = Inr st'"
  shows "sch_work st' < sch_work st \<and> sch_now st' = sch_now st \<and> sch_closed st' = sch_closed st \<and>
    sch_received st' = sch_received st"
proof -
  consider "c = SchFire" | "c = SchTimer" | "c = SchOut" using c(1) by (auto simp: sch_own_def)
  then show ?thesis
  proof cases
    case 1
    then have "tm_running (sch_timer st) \<noteq> None" using c(2) by (auto split: option.splits)
    then have "sch_heap st \<noteq> []" "\<not> tm_fired (sch_timer st)" "sch_pending st = None"
      using ok by (auto simp: sch_ok_def timer_ok_def split: if_splits option.splits)
    moreover have "st' = st\<lparr>sch_timer := \<lparr>tm_running = None, tm_fired = True\<rparr>\<rparr>" using 1 c(3) by simp
    ultimately show ?thesis by (cases "sch_heap st") (auto simp: sch_work_def)
  next
    case 2
    then have f: "tm_fired (sch_timer st)" using c(2) by simp
    obtain x q where q: "sch_pending st = None" "mset (sch_heap st) = add_mset x (mset q)"
      "st' = st\<lparr>sch_timer := \<lparr>tm_running = None, tm_fired = False\<rparr>, sch_heap := q, sch_pending := Some x\<rparr>"
      using sch_ok_timer_fired [OF ok f] c(3) 2 by (metis Inr_inject sch_process.simps(5))
    then have "length (sch_heap st) = Suc (length q)" by (metis size_add_mset size_mset)
    then show ?thesis using q f by (simp add: sch_work_def)
  next
    case 3
    then obtain x where x: "sch_pending st = Some x" using c(2) by auto
    obtain t where t: "st' = st\<lparr>sch_timer := t, sch_pending := None, sch_delivered := sch_delivered st @ [(x, sch_now st)]\<rparr>"
      using sch_ok_out [OF ok x] c(3) 3 by (metis Inr_inject sch_process.simps(6))
    have "\<not> tm_fired (sch_timer st)" using ok x by (simp add: sch_ok_def timer_ok_def)
    then show ?thesis using x t by (simp add: sch_work_def)
  qed
qed

lemma sch_own_run_facts:
  "sch_own_run k st st' \<Longrightarrow> sch_ok st \<Longrightarrow>
     sch_ok st' \<and> k + sch_work st' \<le> sch_work st \<and> sch_now st' = sch_now st \<and> sch_closed st' = sch_closed st \<and>
     sch_received st' = sch_received st"
proof (induction rule: sch_own_run.induct)
  case (sch_own_step k st st1 c st2)
  then have ok: "sch_ok st1" by simp
  have "sch_ok st2" using sch_ok_process [OF ok sch_own_step.hyps(3)] sch_own_step.hyps(4) by simp
  moreover have "sch_work st2 < sch_work st1 \<and> sch_now st2 = sch_now st1 \<and> sch_closed st2 = sch_closed st1 \<and>
      sch_received st2 = sch_received st1"
    using sch_own_decreases [OF ok] sch_own_step.hyps by blast
  ultimately show ?case using sch_own_step by simp
qed simp

text \<open>When the scheduler cannot move, nothing that is due is waiting.\<close>

lemma sch_idle:
  assumes ok: "sch_ok st" and open': "\<not> sch_closed st" and idle: "\<forall>c. sch_own c \<longrightarrow> \<not> sch_ready st c"
    and x: "x \<in> set (sch_received st)" "itd_Deadline x \<le> sch_now st"
  shows "x \<in> fst ` set (sch_delivered st)"
proof -
  have idle': "\<not> sch_ready st SchFire" "\<not> sch_ready st SchTimer" "\<not> sch_ready st SchOut"
    using idle by (auto simp: sch_own_def simp del: sch_ready.simps)
  then have p: "sch_pending st = None" "\<not> tm_fired (sch_timer st)" using open' by auto
  have "itd_Deadline y > sch_now st" if "y \<in> set (sch_heap st)" for y
  proof -
    have h: "heap_ok (sch_heap st)" "sch_heap st \<noteq> []" using ok that by (auto simp: sch_ok_def)
    obtain top where top: "MinHeap_Peek (sch_heap st) = Inr top" "itd_Deadline top \<le> itd_Deadline y"
      by (rule pq.peek_returns [OF h(1)]) (use h(2) \<open>y \<in> set (sch_heap st)\<close> that in auto)
    have "timer_ok st" using ok by (simp add: sch_ok_def)
    then obtain t where "tm_running (sch_timer st) = Some t" "t = itd_Deadline top \<or> t \<le> sch_now st"
      using p h(2) top(1) by (auto simp: timer_ok_def split: option.splits)
    then have "sch_now st < itd_Deadline top" using idle'(1) by auto
    then show ?thesis using top(2) by simp
  qed
  then have "x \<notin> set (sch_heap st)" using x(2) by force
  moreover have "x \<in># mset (sch_heap st) + pending_mset st + mset (map fst (sch_delivered st))"
    using ok x(1) by (metis sch_ok_def set_mset_mset)
  ultimately show ?thesis using p(1) by (simp add: pending_mset_def)
qed

text \<open>C10: Deliveries make progress: while the client receives, the scheduler makes at most
  \<open>3 * n + 1\<close> moves of its own for \<open>n\<close> items in its heap, and when it can move no more every item it
  has received whose deadline has passed has been handed out. Such a run to the end exists from
  every reachable state that is not closed.\<close>

theorem scheduler_delivers_due_items:
  assumes "sch_reach start st" "\<not> sch_closed st"
  shows "(\<forall>k st'. sch_own_run k st st' \<longrightarrow> k \<le> 3 * length (sch_heap st) + 1 \<and>
      ((\<forall>c. sch_own c \<longrightarrow> \<not> sch_ready st' c) \<longrightarrow>
         (\<forall>x \<in> set (sch_received st). itd_Deadline x \<le> sch_now st \<longrightarrow> x \<in> fst ` set (sch_delivered st')))) \<and>
    (\<exists>k st'. sch_own_run k st st' \<and> (\<forall>c. sch_own c \<longrightarrow> \<not> sch_ready st' c))"
proof (intro conjI allI impI)
  have ok: "sch_ok st" using assms(1) by (rule sch_reach_ok)
  fix k st' assume run: "sch_own_run k st st'"
  have facts: "sch_ok st'" "k + sch_work st' \<le> sch_work st" "sch_now st' = sch_now st" "sch_closed st' = sch_closed st"
    "sch_received st' = sch_received st" using sch_own_run_facts [OF run ok] by auto
  show "k \<le> 3 * length (sch_heap st) + 1" using facts(2) by (simp add: sch_work_def split: if_splits)
  show "\<forall>x \<in> set (sch_received st). itd_Deadline x \<le> sch_now st \<longrightarrow> x \<in> fst ` set (sch_delivered st')"
    if "\<forall>c. sch_own c \<longrightarrow> \<not> sch_ready st' c"
    using sch_idle [OF facts(1) _ that] facts assms(2) by simp
next
  show "\<exists>k st'. sch_own_run k st st' \<and> (\<forall>c. sch_own c \<longrightarrow> \<not> sch_ready st' c)"
  proof -
    have "\<exists>k' st'. sch_own_run k' st st' \<and> (\<forall>c. sch_own c \<longrightarrow> \<not> sch_ready st' c)"
      if "sch_own_run k st st1" for k st1
      using that
    proof (induction "sch_work st1" arbitrary: k st1 rule: less_induct)
      case less
      show ?case
      proof (cases "\<forall>c. sch_own c \<longrightarrow> \<not> sch_ready st1 c")
        case False
        then obtain c where c: "sch_own c" "sch_ready st1 c" by blast
        have ok1: "sch_ok st1" using sch_own_run_facts [OF less.prems sch_reach_ok [OF assms(1)]] by simp
        obtain st2 where st2: "sch_process c st1 = Inr st2"
          using sch_ok_process [OF ok1 c(2)] by (auto simp: goT_iff)
        have "sch_work st2 < sch_work st1" using sch_own_decreases [OF ok1 c st2] by simp
        then show ?thesis using less.hyps sch_own_step [OF less.prems c st2] by blast
      qed (use less.prems in blast)
    qed
    then show ?thesis using sch_own_none by blast
  qed
qed

section \<open>A concrete run\<close>

text \<open>Two items, the later one first; the timer fires and the earlier one is handed out.\<close>

lemma sch_exec_reach: "sch_reach start st \<Longrightarrow> sch_exec cs st = Inr st' \<Longrightarrow> sch_reach start st'"
proof (induction cs arbitrary: st)
  case (Cons c cs)
  then show ?case by (auto simp: bindG_eq_Inr_iff split: if_splits intro: sch_reach_step)
qed simp

definition sch_example :: "nat scheduler go" where
  "sch_example = sch_exec [ScheduleDeadline 1 50, ScheduleDelay 2 10, SchTick 20, SchFire, SchTimer, SchOut, SchTick 60] (NewScheduler 0)"

lemma sch_example_delivers:
  "map_sum id (\<lambda>st. (sch_delivered st, sch_heap st, sch_pending st, tm_running (sch_timer st), sch_closed st)) sch_example =
     Inr ([(\<lparr>itd_Item = 2, itd_Deadline = 10\<rparr>, 20)], [\<lparr>itd_Item = 1, itd_Deadline = 50\<rparr>], None, Some 50, False)"
  by code_simp

lemma sch_example_reach:
  obtains st where "sch_reach 0 st" "sch_delivered st = [(\<lparr>itd_Item = 2 :: nat, itd_Deadline = 10\<rparr>, 20)]"
    "\<not> sch_closed st" "sch_heap st = [\<lparr>itd_Item = 1, itd_Deadline = 50\<rparr>]" "tm_running (sch_timer st) = Some 50" "sch_pending st = None"
proof (cases sch_example)
  case (Inl p)
  then show ?thesis using sch_example_delivers unfolding Inl by simp
next
  case (Inr st)
  have "sch_reach 0 st" using sch_exec_reach [OF sch_reach_init] Inr unfolding sch_example_def by blast
  then show ?thesis using that sch_example_delivers unfolding Inr by simp
qed

theorem scheduler_delivers_due_items_witness:
  "\<exists>st :: nat scheduler. sch_reach 0 st \<and> (\<exists>k st'. sch_own_run k st st' \<and> (\<forall>c. sch_own c \<longrightarrow> \<not> sch_ready st' c))"
proof -
  obtain st where st: "sch_reach 0 st" "\<not> sch_closed (st :: nat scheduler)" by (rule sch_example_reach)
  show ?thesis using scheduler_delivers_due_items [OF st] st(1) by blast
qed

text \<open>The item scheduled with a delay of 10 at time 5 is what waits, and at time 15 it can be handed out.\<close>

theorem scheduler_refines_delay_queue_witness:
  "\<exists>st :: nat scheduler. dq_trace (dq_init 5) [DqSchedule 2 15, DqTick 15] (sch_abs st) \<and>
     dq_waiting (sch_abs st) = {#\<lparr>itd_Item = 2, itd_Deadline = 15\<rparr>#} \<and>
     (\<exists>cs st'. sch_exec cs st = Inr st' \<and> sch_ready st' SchOut)"
proof -
  let ?st0 = "NewScheduler 5 :: nat scheduler"
  obtain st1 where st1: "sch_process (ScheduleDelay 2 10) ?st0 = Inr st1"
    by (auto simp: sch_in_eq NewScheduler_def)
  have now: "sch_now st1 = 5" using st1 by (auto simp: sch_in_eq NewScheduler_def)
  have "sch_trace 5 ([] @ sch_event ?st0 (ScheduleDelay 2 10)) st1"
    by (rule sch_trace_step [OF sch_trace_init _ st1]) simp
  then have "sch_trace 5 (([] @ sch_event ?st0 (ScheduleDelay 2 10)) @ sch_event st1 (SchTick 15)) (st1\<lparr>sch_now := 15\<rparr>)"
    by (rule sch_trace_step) (simp_all add: now)
  then have trace: "sch_trace 5 [DqSchedule 2 15, DqTick 15] (st1\<lparr>sch_now := 15\<rparr>)"
    by (simp add: NewScheduler_def)
  have w: "dq_waiting (sch_abs (st1\<lparr>sch_now := 15\<rparr>)) = {#\<lparr>itd_Item = 2, itd_Deadline = 15\<rparr>#}" "\<not> sch_closed st1"
    using st1 pq.push_contents [of "[]" "\<lparr>itd_Item = 2, itd_Deadline = 15\<rparr>"]
    by (auto simp: sch_in_eq NewScheduler_def sch_abs_def pending_mset_def)
  have "\<not> dq_closed (sch_abs (st1\<lparr>sch_now := 15\<rparr>))" "dq_now (sch_abs (st1\<lparr>sch_now := 15\<rparr>)) = 15"
    using w(2) by (simp_all add: sch_abs_def)
  then have "\<exists>item q'. dq_step (sch_abs (st1\<lparr>sch_now := 15\<rparr>)) (DqDeliver item) q'"
    using dq_deliver [of "sch_abs (st1\<lparr>sch_now := 15\<rparr>)" "\<lparr>itd_Item = 2, itd_Deadline = 15\<rparr>"] w(1) by auto
  then show ?thesis using scheduler_refines_delay_queue [OF trace] w(1) by blast
qed

theorem scheduler_never_early_never_lossy_witness:
  "\<exists>st :: nat scheduler. sch_reach 0 st \<and> sch_delivered st \<noteq> [] \<and>
     (\<forall>(x, t) \<in> set (sch_delivered st). itd_Deadline x \<le> t \<and> t \<le> sch_now st)"
proof -
  obtain st where st: "sch_reach 0 st" "sch_delivered st = [(\<lparr>itd_Item = 2 :: nat, itd_Deadline = 10\<rparr>, 20)]"
    by (rule sch_example_reach)
  have "sch_delivered st \<noteq> []" using st(2) by simp
  moreover have "\<forall>(x, t) \<in> set (sch_delivered st). itd_Deadline x \<le> t \<and> t \<le> sch_now st"
    using scheduler_never_early_never_lossy [OF st(1)] by (rule conjunct1)
  ultimately show ?thesis using st(1) by (intro exI conjI)
qed

end
