(* ===== verification/Transmission.thy ===== *)
theory Transmission
  imports Messages Permutation Scheduler
begin

text \<open>
  The transmission protocol (\<open>ocr3/protocol/transmission.go\<close>): accepted attested reports are
  scheduled after a delay that depends on the oracle's place in a keyed permutation, and transmitted
  to the contract when the scheduler hands them back. The state holds the scheduler of theory
  \<open>Scheduler\<close> itself, so that the two run together.
\<close>

section \<open>State and environment\<close>

text \<open>The plugin's answers come by call number, \<open>None\<close> for an error; \<open>te_Transmit\<close> says whether the
  contract transmitter returned without error.\<close>

record 'ri tn_env =
  te_crypto :: crypto
  te_aesctr :: "bytes \<Rightarrow> nat \<Rightarrow> u8"
  te_config :: SharedConfig
  te_id :: OracleID
  te_ShouldAccept :: "nat \<Rightarrow> u64 \<Rightarrow> 'ri ReportWithInfo \<Rightarrow> bool option"
  te_ShouldTransmit :: "nat \<Rightarrow> u64 \<Rightarrow> 'ri ReportWithInfo \<Rightarrow> bool option"
  te_Transmit :: "nat \<Rightarrow> bool"

text \<open>\<open>tn_events\<close> are the events handled, with the time at which their handler began, and \<open>tn_log\<close>
  the calls of \<open>Transmit\<close>, with the time and the result; both are ghost fields, as is the number of
  plugin calls.\<close>

record 'ri transmissionState =
  tn_scheduler :: "'ri EventToTransmission scheduler"
  tn_calls :: nat
  tn_events :: "('ri EventToTransmission \<times> int) list"
  tn_log :: "('ri EventToTransmission \<times> int \<times> bool) list"

definition newTransmissionState :: "int \<Rightarrow> 'ri transmissionState" where
  "newTransmissionState now = \<lparr>tn_scheduler = NewScheduler now, tn_calls = 0, tn_events = [], tn_log = []\<rparr>"

section \<open>The transmission schedule\<close>

text \<open>The loop over the stages from \<open>i\<close> on, with the number of oracles in the stages before.\<close>

fun stage_loop :: "int list \<Rightarrow> nat \<Rightarrow> int \<Rightarrow> int list \<Rightarrow> nat \<Rightarrow> nat option go" where
  "stage_loop pi i acc [] self = Inr None"
| "stage_loop pi i acc (s # ss) self =
     (let acc = acc + s
      in bindG (go_index pi self) (\<lambda>place.
         if place < acc then Inr (Some i) else stage_loop pi (Suc i) acc ss self))"

definition transmission_order :: "'ri tn_env \<Rightarrow> u64 \<Rightarrow> int \<Rightarrow> int list go" where
  "transmission_order env seqNr index =
     (let mac = hmac_sha256 (te_crypto env) (TransmissionOrderKey (te_crypto env) (te_config env))
                  (be64 seqNr @ be64 (of_int index))
      in Permutation (te_aesctr env) (cfg_N (te_config env)) (go_copy 16 mac))"

definition transmit_stage :: "'ri tn_env \<Rightarrow> u64 \<Rightarrow> int \<Rightarrow> nat option go" where
  "transmit_stage env seqNr index =
     bindG (transmission_order env seqNr index) (\<lambda>pi.
       stage_loop pi 0 0 (cfg_S (te_config env)) (unat (te_id env)))"

definition transmitDelay :: "'ri tn_env \<Rightarrow> u64 \<Rightarrow> int \<Rightarrow> Duration option go" where
  "transmitDelay env seqNr index =
     bindG (transmit_stage env seqNr index) (\<lambda>stage.
       Inr (case stage of None \<Rightarrow> None | Some i \<Rightarrow> Some (of_nat i * cfg_DeltaStage (te_config env))))"

section \<open>Handlers\<close>

text \<open>\<open>now\<close> is the time at which the handler began; the plugin call takes time, so the scheduler's
  clock may be ahead of it when the event is scheduled.\<close>

definition eventAttestedReport ::
  "'ri tn_env \<Rightarrow> int \<Rightarrow> 'ri EventToTransmission \<Rightarrow> 'ri transmissionState \<Rightarrow> 'ri transmissionState go" where
  "eventAttestedReport env now ev st =
     (let shouldAccept = te_ShouldAccept env (tn_calls st) (ear_SeqNr ev) (arm_ReportWithInfo (ear_AttestedReport ev));
          st = st\<lparr>tn_calls := Suc (tn_calls st), tn_events := tn_events st @ [(ev, now)]\<rparr>
      in if shouldAccept \<noteq> Some True then Inr st
         else bindG (transmitDelay env (ear_SeqNr ev) (ear_Index ev)) (\<lambda>delayMaybe.
              case delayMaybe of
                None \<Rightarrow> Inr st
              | Some delay \<Rightarrow>
                  bindG (sch_process (ScheduleDeadline ev (now + sint delay)) (tn_scheduler st)) (\<lambda>sch.
                    Inr (st\<lparr>tn_scheduler := sch\<rparr>))))"

definition scheduled :: "'ri tn_env \<Rightarrow> 'ri EventToTransmission \<Rightarrow> 'ri transmissionState \<Rightarrow> 'ri transmissionState" where
  "scheduled env ev st =
     (let shouldTransmit = te_ShouldTransmit env (tn_calls st) (ear_SeqNr ev) (arm_ReportWithInfo (ear_AttestedReport ev));
          st = st\<lparr>tn_calls := Suc (tn_calls st)\<rparr>
      in if shouldTransmit \<noteq> Some True then st
         else st\<lparr>tn_calls := Suc (tn_calls st),
                 tn_log := tn_log st @ [(ev, sch_now (tn_scheduler st), te_Transmit env (tn_calls st))]\<rparr>)"

text \<open>The event loop: an attested report, or an item that the scheduler hands out; and the moves of
  the scheduler's own goroutine and of the clock.\<close>

datatype 'ri tn_case =
    TnAttested int "'ri EventToTransmission"
  | TnScheduled
  | TnScheduler "'ri EventToTransmission sch_case"

fun tn_ready :: "'ri transmissionState \<Rightarrow> 'ri tn_case \<Rightarrow> bool" where
  "tn_ready st (TnAttested now ev) = (now \<le> sch_now (tn_scheduler st))"
| "tn_ready st TnScheduled = sch_ready (tn_scheduler st) SchOut"
| "tn_ready st (TnScheduler c) =
     ((case c of SchTick t \<Rightarrow> True | SchFire \<Rightarrow> True | SchTimer \<Rightarrow> True | _ \<Rightarrow> False) \<and> sch_ready (tn_scheduler st) c)"

fun tn_process :: "'ri tn_env \<Rightarrow> 'ri tn_case \<Rightarrow> 'ri transmissionState \<Rightarrow> 'ri transmissionState go" where
  "tn_process env (TnAttested now ev) st = eventAttestedReport env now ev st"
| "tn_process env TnScheduled st =
     bindG (go_deref (sch_pending (tn_scheduler st))) (\<lambda>item.
     bindG (sch_process SchOut (tn_scheduler st)) (\<lambda>sch.
       Inr (scheduled env (itd_Item item) (st\<lparr>tn_scheduler := sch\<rparr>))))"
| "tn_process env (TnScheduler c) st =
     bindG (sch_process c (tn_scheduler st)) (\<lambda>sch. Inr (st\<lparr>tn_scheduler := sch\<rparr>))"

inductive tn_reach :: "'ri tn_env \<Rightarrow> int \<Rightarrow> 'ri transmissionState \<Rightarrow> bool" for env start where
  tn_reach_init: "tn_reach env start (newTransmissionState start)"
| tn_reach_step: "tn_reach env start st \<Longrightarrow> tn_ready st c \<Longrightarrow> tn_process env c st = Inr st' \<Longrightarrow> tn_reach env start st'"

section \<open>The schedule\<close>

text \<open>The stage of a place: the first stage whose prefix sum exceeds it.\<close>

lemma stage_loop_spec:
  assumes "self < length pi" "\<forall>s \<in> set ss. 0 \<le> s"
  shows "\<exists>r. stage_loop pi i acc ss self = Inr r \<and> (\<forall>j. r = Some j \<longrightarrow> i \<le> j \<and> j < i + length ss) \<and>
    (\<forall>k < length ss. (\<exists>j \<le> i + k. r = Some j) \<longleftrightarrow> pi ! self < acc + sum_list (take (Suc k) ss))"
  using assms
proof (induction ss arbitrary: i acc)
  case (Cons s ss)
  show ?case
  proof (cases "pi ! self < acc + s")
    case True
    have "0 \<le> sum_list (take n ss)" for n
      using Cons.prems(2) by (intro sum_list_nonneg) (auto dest: in_set_takeD)
    then have "pi ! self < acc + (s + sum_list (take n ss))" for n using True by (smt (verit))
    then show ?thesis using True Cons.prems(1) by auto
  next
    case False
    obtain r where r: "stage_loop pi (Suc i) (acc + s) ss self = Inr r"
      "\<forall>j. r = Some j \<longrightarrow> Suc i \<le> j \<and> j < Suc i + length ss"
      "\<forall>k < length ss. (\<exists>j \<le> Suc i + k. r = Some j) \<longleftrightarrow> pi ! self < acc + s + sum_list (take (Suc k) ss)"
      using Cons.IH [of "Suc i" "acc + s"] Cons.prems by auto
    have "(\<exists>j \<le> i + k. r = Some j) \<longleftrightarrow> pi ! self < acc + sum_list (take (Suc k) (s # ss))"
      if "k < length (s # ss)" for k
    proof (cases k)
      case 0
      then show ?thesis using r(2) False by auto
    next
      case (Suc k')
      then show ?thesis using r(3) that by (simp add: add.assoc)
    qed
    then show ?thesis using r(1,2) False Cons.prems(1) by (intro exI [of _ r]) (simp, fastforce)
  qed
qed simp

text \<open>The oracles of a transmission: how many of them have a stage of at most \<open>k\<close>.\<close>

lemma card_places:
  assumes "mset pi = mset (map int [0..<n])" "n \<le> 256"
  shows "card {i :: OracleID. unat i < n \<and> pi ! unat i < x} = nat (min (int n) x)"
proof -
  note pi = perm_nth_bij [OF assms(1)]
  have "card {i :: OracleID. unat i < n \<and> pi ! unat i < x} = card {k. k < n \<and> pi ! k < x}"
  proof (rule bij_betw_same_card [of unat], rule bij_betw_imageI)
    show "inj_on unat {i :: OracleID. unat i < n \<and> pi ! unat i < x}" by (simp add: inj_on_def word_unat_eq_iff)
    have "k \<in> unat ` {i :: OracleID. unat i < n \<and> pi ! unat i < x}" if "k < n" "pi ! k < x" for k
      using that assms(2) by (intro image_eqI [of _ _ "of_nat k"]) (auto simp: unat_of_nat)
    then show "unat ` {i :: OracleID. unat i < n \<and> pi ! unat i < x} = {k. k < n \<and> pi ! k < x}" by auto
  qed
  also have "\<dots> = card {v \<in> set pi. v < x}"
  proof (rule bij_betw_same_card [of "nth pi"], rule bij_betw_imageI)
    show "inj_on ((!) pi) {k. k < n \<and> pi ! k < x}" using pi(1,2) by (auto simp: inj_on_def nth_eq_iff_index_eq)
    show "(!) pi ` {k. k < n \<and> pi ! k < x} = {v \<in> set pi. v < x}"
      using pi(1) by (auto simp: set_conv_nth)
  qed
  also have "{v \<in> set pi. v < x} = {0..<min (int n) x}"
    unfolding pi(3) by (auto simp: image_iff) (metis lessThan_iff nat_less_iff zero_le_imp_eq_int nat_int)
  finally show ?thesis by simp
qed

text \<open>The transmission schedule of a report: for a valid configuration and a fair keystream, the
  stages are computed without a panic, and for each stage \<open>k\<close> exactly \<open>S[0] + ... + S[k]\<close> oracles
  (or all of them, if that exceeds their number) transmit in a stage of at most \<open>k\<close>. So each stage
  has the configured number of transmitters as long as oracles are left, each oracle has at most one
  stage, and the rest of them does not transmit.\<close>

theorem transmission_stages_are_filled:
  assumes cfg: "cfg_ok (te_config env)" and fair: "\<And>key. fair_stream (te_aesctr env key)"
    and k: "k < length (cfg_S (te_config env))"
  shows "card {i. unat i < nat (cfg_N (te_config env)) \<and>
      (\<exists>j \<le> k. transmit_stage (env\<lparr>te_id := i\<rparr>) seqNr index = Inr (Some j))} =
    nat (min (cfg_N (te_config env)) (sum_list (take (Suc k) (cfg_S (te_config env)))))"
proof -
  let ?n = "nat (cfg_N (te_config env))"
  let ?S = "cfg_S (te_config env)"
  have n: "0 \<le> cfg_N (te_config env)" "cfg_N (te_config env) < 2 ^ 31" "?n \<le> 256" "\<forall>s \<in> set ?S. 0 \<le> s"
    using cfg by (auto simp: cfg_ok_def MaxOracles_def)
  obtain pi where pi: "transmission_order env seqNr index = Inr pi" "mset pi = mset (map int [0..<?n])"
    using Permutation_returns [of "te_aesctr env" _ "cfg_N (te_config env)", OF fair n(1,2)]
    unfolding transmission_order_def Let_def goT_iff by blast
  have order: "transmission_order (env\<lparr>te_id := i\<rparr>) seqNr index = Inr pi" for i
    using pi(1) by (simp add: transmission_order_def)
  have "(\<exists>j \<le> k. transmit_stage (env\<lparr>te_id := i\<rparr>) seqNr index = Inr (Some j)) \<longleftrightarrow>
      pi ! unat i < sum_list (take (Suc k) ?S)" if "unat i < ?n" for i
  proof -
    have "unat i < length pi" using that perm_nth_bij(1) [OF pi(2)] by simp
    then obtain r where "stage_loop pi 0 0 ?S (unat i) = Inr r"
      "\<forall>k < length ?S. (\<exists>j \<le> k. r = Some j) \<longleftrightarrow> pi ! unat i < sum_list (take (Suc k) ?S)"
      using stage_loop_spec [OF _ n(4), of "unat i" pi 0 0] by auto
    then show ?thesis using k by (simp add: transmit_stage_def order)
  qed
  then have "{i. unat i < ?n \<and> (\<exists>j \<le> k. transmit_stage (env\<lparr>te_id := i\<rparr>) seqNr index = Inr (Some j))} =
      {i. unat i < ?n \<and> pi ! unat i < sum_list (take (Suc k) ?S)}" by blast
  then show ?thesis using card_places [OF pi(2) n(3)] n(1) by simp
qed


section \<open>The invariant\<close>

definition accepted :: "'ri tn_env \<Rightarrow> ('ri EventToTransmission \<times> int) list \<Rightarrow> 'ri EventToTransmission \<Rightarrow> int \<Rightarrow> bool" where
  "accepted env evs ev deadline \<longleftrightarrow>
     (\<exists>now d n. (ev, now) \<in> set evs \<and> te_ShouldAccept env n (ear_SeqNr ev) (arm_ReportWithInfo (ear_AttestedReport ev)) = Some True \<and>
        transmitDelay env (ear_SeqNr ev) (ear_Index ev) = Inr (Some d) \<and> deadline = now + sint d)"

definition tn_ok :: "'ri tn_env \<Rightarrow> int \<Rightarrow> 'ri transmissionState \<Rightarrow> bool" where
  "tn_ok env start st \<longleftrightarrow>
     sch_reach start (tn_scheduler st) \<and> \<not> sch_closed (tn_scheduler st) \<and>
     (\<forall>x \<in> set (sch_received (tn_scheduler st)). accepted env (tn_events st) (itd_Item x) (itd_Deadline x)) \<and>
     mset (map itd_Item (sch_received (tn_scheduler st))) \<subseteq># mset (map fst (tn_events st)) \<and>
     mset (map (\<lambda>(ev, t, b). (ev, t)) (tn_log st)) \<subseteq>#
       mset (map (\<lambda>(x, t). (itd_Item x, t)) (sch_delivered (tn_scheduler st))) \<and>
     (\<forall>(ev, t, b) \<in> set (tn_log st). \<exists>n. te_ShouldTransmit env n (ear_SeqNr ev)
        (arm_ReportWithInfo (ear_AttestedReport ev)) = Some True)"

lemma accepted_mono: "accepted env evs ev d \<Longrightarrow> accepted env (evs @ evs') ev d"
  by (auto simp: accepted_def)

lemma tn_ok_init: "tn_ok env start (newTransmissionState start)"
  by (simp add: tn_ok_def newTransmissionState_def sch_reach_init) (simp add: NewScheduler_def)

lemma sch_in_fields:
  assumes "sch_process (ScheduleDeadline ev d) st = Inr st'" "\<not> sch_closed st"
  shows "sch_received st' = sch_received st @ [\<lparr>itd_Item = ev, itd_Deadline = d\<rparr>]" "sch_delivered st' = sch_delivered st"
    "sch_closed st' = sch_closed st"
  using assms by (auto simp: sch_in_eq)

lemma tn_ok_attested:
  assumes ok: "tn_ok env start st" and r: "eventAttestedReport env now ev st = Inr st'"
  shows "tn_ok env start st'"
proof -
  define st1 where "st1 = st\<lparr>tn_calls := Suc (tn_calls st), tn_events := tn_events st @ [(ev, now)]\<rparr>"
  have "mset (map itd_Item (sch_received (tn_scheduler st))) \<subseteq># add_mset ev (mset (map fst (tn_events st)))"
    using ok by (intro subset_mset.order_trans [OF _ multi_psub_of_add_self [THEN subset_mset.less_imp_le]]) (simp add: tn_ok_def)
  then have ok1: "tn_ok env start st1"
    using ok accepted_mono [of env] by (auto simp: tn_ok_def st1_def)
  show ?thesis
  proof (cases "te_ShouldAccept env (tn_calls st) (ear_SeqNr ev) (arm_ReportWithInfo (ear_AttestedReport ev)) = Some True")
    case False
    then show ?thesis using r ok1 by (simp add: eventAttestedReport_def Let_def st1_def)
  next
    case True
    then have r': "bindG (transmitDelay env (ear_SeqNr ev) (ear_Index ev)) (\<lambda>delayMaybe.
        case delayMaybe of None \<Rightarrow> Inr st1
        | Some delay \<Rightarrow> bindG (sch_process (ScheduleDeadline ev (now + sint delay)) (tn_scheduler st)) (\<lambda>sch.
            Inr (st1\<lparr>tn_scheduler := sch\<rparr>))) = Inr st'"
      using r unfolding eventAttestedReport_def Let_def st1_def by (simp del: sch_process.simps)
    then obtain dm where dm: "transmitDelay env (ear_SeqNr ev) (ear_Index ev) = Inr dm"
      by (auto simp: bindG_eq_Inr_iff)
    show ?thesis
    proof (cases dm)
      case None
      then show ?thesis using r' ok1 dm by simp
    next
      case (Some d)
      obtain sch where sch: "sch_process (ScheduleDeadline ev (now + sint d)) (tn_scheduler st) = Inr sch"
        "st' = st1\<lparr>tn_scheduler := sch\<rparr>"
        using r' dm Some by (auto simp: st1_def bindG_eq_Inr_iff simp del: sch_process.simps)
      have cl: "\<not> sch_closed (tn_scheduler st)" using ok by (simp add: tn_ok_def)
      note f = sch_in_fields [OF sch(1) cl]
      have "sch_reach start sch"
        using ok sch(1) sch_reach_step [of start "tn_scheduler st" "ScheduleDeadline ev (now + sint d)" sch]
        by (simp add: tn_ok_def del: sch_process.simps)
      moreover have "accepted env (tn_events st @ [(ev, now)]) ev (now + sint d)"
        using True dm Some by (auto simp: accepted_def)
      ultimately show ?thesis
        using ok accepted_mono [of env] f cl by (auto simp: tn_ok_def sch(2) st1_def)
    qed
  qed
qed

lemma tn_ok_scheduled:
  assumes ok: "tn_ok env start st" and p: "sch_pending (tn_scheduler st) = Some x"
    and s: "sch_process SchOut (tn_scheduler st) = Inr sch"
  shows "tn_ok env start (scheduled env (itd_Item x) (st\<lparr>tn_scheduler := sch\<rparr>))"
proof -
  have sok: "sch_ok (tn_scheduler st)" using ok sch_reach_ok by (auto simp: tn_ok_def)
  obtain t where t: "sch = (tn_scheduler st)\<lparr>sch_timer := t, sch_pending := None,
      sch_delivered := sch_delivered (tn_scheduler st) @ [(x, sch_now (tn_scheduler st))]\<rparr>"
    using sch_ok_out [OF sok p] s by (metis Inr_inject sch_process.simps(6))
  have "sch_ready (tn_scheduler st) SchOut" using ok p by (simp add: tn_ok_def)
  then have "sch_reach start sch" using ok sch_reach_step [OF _ _ s, of start] by (simp add: tn_ok_def)
  moreover have "mset (map (\<lambda>(ev, t, b). (ev, t)) (tn_log st)) \<subseteq>#
      add_mset y (mset (map (\<lambda>(x, t). (itd_Item x, t)) (sch_delivered (tn_scheduler st))))" for y
    using ok by (intro subset_mset.order_trans [OF _ multi_psub_of_add_self [THEN subset_mset.less_imp_le]]) (simp add: tn_ok_def)
  ultimately show ?thesis
    using ok by (auto simp: tn_ok_def scheduled_def Let_def t)
qed

lemma tn_ok_scheduler:
  assumes ok: "tn_ok env start st" and c: "tn_ready st (TnScheduler c)" "sch_process c (tn_scheduler st) = Inr sch"
  shows "tn_ok env start (st\<lparr>tn_scheduler := sch\<rparr>)"
proof -
  have reach: "sch_reach start sch" using ok c(1) sch_reach_step [OF _ _ c(2), of start] by (simp add: tn_ok_def)
  have "sch_received sch = sch_received (tn_scheduler st) \<and> sch_delivered sch = sch_delivered (tn_scheduler st) \<and>
      sch_closed sch = sch_closed (tn_scheduler st)"
    using c by (cases c) (auto simp: sch_timer_fired_def bindG_eq_Inr_iff)
  then show ?thesis using ok reach by (simp add: tn_ok_def)
qed

lemma tn_reach_ok: "tn_reach env start st \<Longrightarrow> tn_ok env start st"
proof (induction rule: tn_reach.induct)
  case tn_reach_init
  show ?case by (rule tn_ok_init)
next
  case (tn_reach_step st c st')
  then show ?case
    using tn_ok_attested tn_ok_scheduled tn_ok_scheduler
    by (cases c) (auto simp: bindG_eq_Inr_iff simp del: sch_process.simps tn_ready.simps)
qed


section \<open>Transmissions\<close>

text \<open>The example: four oracles, \<open>S = [1, 1, 2]\<close>, no time between stages, the plugin accepts and
  transmits everything.\<close>

definition tn_example_env :: "bytes tn_env" where
  "tn_example_env =
     \<lparr>te_crypto = \<lparr>sha256 = (\<lambda>x. x), ed25519_Verify = (\<lambda>pk m s. True)\<rparr>, te_aesctr = (\<lambda>_ _. 255),
      te_config = example_config, te_id = 0, te_ShouldAccept = (\<lambda>k s r. Some True),
      te_ShouldTransmit = (\<lambda>k s r. Some True), te_Transmit = (\<lambda>k. True)\<rparr>"

definition tn_example_event :: "bytes EventToTransmission" where
  "tn_example_event = EventAttestedReport 1 0 \<lparr>arm_ReportWithInfo = \<lparr>rwi_Report = [5], rwi_Info = []\<rparr>, arm_AttributedSignatures = []\<rparr>"

fun tn_exec :: "'ri tn_env \<Rightarrow> 'ri tn_case list \<Rightarrow> 'ri transmissionState \<Rightarrow> 'ri transmissionState go" where
  "tn_exec env [] st = Inr st"
| "tn_exec env (c # cs) st = (if tn_ready st c then bindG (tn_process env c st) (tn_exec env cs) else Inl NoReturn)"

lemma tn_exec_reach: "tn_reach env start st \<Longrightarrow> tn_exec env cs st = Inr st' \<Longrightarrow> tn_reach env start st'"
proof (induction cs arbitrary: st)
  case (Cons c cs)
  then show ?case by (auto simp: bindG_eq_Inr_iff split: if_splits intro: tn_reach_step simp del: tn_process.simps tn_ready.simps)
qed simp

definition tn_example :: "bytes transmissionState go" where
  "tn_example = tn_exec tn_example_env
     [TnAttested 0 tn_example_event, TnScheduler (SchTick 1000), TnScheduler SchFire, TnScheduler SchTimer, TnScheduled]
     (newTransmissionState 0)"

lemma tn_example_log: "map_sum id (\<lambda>st. (tn_log st, tn_events st)) tn_example =
     Inr ([(tn_example_event, 1000, True)], [(tn_example_event, 0)])"
  by code_simp

lemma tn_example_reach:
  obtains st where "tn_reach tn_example_env 0 st" "tn_log st = [(tn_example_event, 1000, True)]" "tn_events st = [(tn_example_event, 0)]"
proof (cases tn_example)
  case (Inl p)
  then show ?thesis using tn_example_log unfolding Inl by simp
next
  case (Inr st)
  have "tn_reach tn_example_env 0 st" using tn_exec_reach [OF tn_reach_init] Inr unfolding tn_example_def by blast
  then show ?thesis using that tn_example_log unfolding Inr by simp
qed

theorem transmission_stages_are_filled_witness:
  "card {i. unat i < nat (cfg_N (te_config tn_example_env)) \<and>
      (\<exists>j \<le> 1. transmit_stage (tn_example_env\<lparr>te_id := i\<rparr>) 1 0 = Inr (Some j))} = 2"
proof -
  have "cfg_ok (te_config tn_example_env)" "\<And>key. fair_stream (te_aesctr tn_example_env key)"
    "1 < length (cfg_S (te_config tn_example_env))" "cfg_N (te_config tn_example_env) = 4"
    "take (Suc 1) (cfg_S (te_config tn_example_env)) = [1, 1]"
    using fair_stream_ones by (simp_all add: tn_example_env_def) (simp_all add: example_config_def)
  then show ?thesis using transmission_stages_are_filled [of tn_example_env 1 1 0] by simp
qed

text \<open>C35: A report reaches the contract transmitter only after the protocol was handed it as an
  attested report, the plugin accepted it, this oracle has a place in its schedule, the delay of that
  place has passed since the handler began, and the plugin agreed to transmit it.\<close>

theorem transmissions_wait_for_their_stage:
  assumes "tn_reach env start st" "(ev, t, b) \<in> set (tn_log st)"
  shows "(\<exists>now d n. (ev, now) \<in> set (tn_events st) \<and>
      te_ShouldAccept env n (ear_SeqNr ev) (arm_ReportWithInfo (ear_AttestedReport ev)) = Some True \<and>
      transmitDelay env (ear_SeqNr ev) (ear_Index ev) = Inr (Some d) \<and> now + sint d \<le> t) \<and>
    (\<exists>n. te_ShouldTransmit env n (ear_SeqNr ev) (arm_ReportWithInfo (ear_AttestedReport ev)) = Some True)"
proof -
  have ok: "tn_ok env start st" using assms(1) by (rule tn_reach_ok)
  have sok: "sch_ok (tn_scheduler st)" using ok sch_reach_ok by (auto simp: tn_ok_def)
  have "(ev, t) \<in># mset (map (\<lambda>(ev, t, b). (ev, t)) (tn_log st))" using assms(2) by force
  then have "(ev, t) \<in># mset (map (\<lambda>(x, t). (itd_Item x, t)) (sch_delivered (tn_scheduler st)))"
    using ok unfolding tn_ok_def by (blast dest: mset_subset_eqD)
  then obtain x where x: "(x, t) \<in> set (sch_delivered (tn_scheduler st))" "itd_Item x = ev" by auto
  have "itd_Deadline x \<le> t" using sok x(1) by (auto simp: sch_ok_def)
  moreover have "x \<in># mset (sch_received (tn_scheduler st))" using sok x(1) by (force simp: sch_ok_def)
  then have "accepted env (tn_events st) ev (itd_Deadline x)" using ok x(2) by (auto simp: tn_ok_def)
  moreover have "\<exists>n. te_ShouldTransmit env n (ear_SeqNr ev) (arm_ReportWithInfo (ear_AttestedReport ev)) = Some True"
    using ok assms(2) by (auto simp: tn_ok_def)
  ultimately show ?thesis unfolding accepted_def by auto
qed

theorem transmissions_wait_for_their_stage_witness:
  "\<exists>st. tn_reach tn_example_env 0 st \<and> (\<exists>now d. (tn_example_event, now) \<in> set (tn_events st) \<and> now + sint d \<le> (1000 :: int) \<and>
     transmitDelay tn_example_env 1 0 = Inr (Some d))"
proof -
  obtain st where st: "tn_reach tn_example_env 0 st" "tn_log st = [(tn_example_event, 1000, True)]" by (rule tn_example_reach)
  have "(tn_example_event, 1000, True) \<in> set (tn_log st)" using st(2) by simp
  from transmissions_wait_for_their_stage [OF st(1) this] st(1) show ?thesis by (auto simp: tn_example_event_def)
qed

lemma distinct_submset: "mset xs \<subseteq># mset ys \<Longrightarrow> distinct ys \<Longrightarrow> distinct xs"
  by (metis distinct_append ex_mset mset_append mset_eq_imp_distinct_iff mset_subset_eq_exists_conv)

text \<open>The contract transmitter is called at most as often for a report as the report was handed to
  the protocol: if the attested reports come with distinct sequence numbers and indices, as report
  attestation sends them, no report is transmitted twice.\<close>

theorem reports_are_transmitted_once:
  assumes "tn_reach env start st" "distinct (map (\<lambda>(ev, now). (ear_SeqNr ev, ear_Index ev)) (tn_events st))"
  shows "distinct (map (\<lambda>(ev, t, b). (ear_SeqNr ev, ear_Index ev)) (tn_log st))"
proof -
  let ?key = "\<lambda>ev. (ear_SeqNr ev, ear_Index ev)"
  have ok: "tn_ok env start st" using assms(1) by (rule tn_reach_ok)
  have sok: "sch_ok (tn_scheduler st)" using ok sch_reach_ok by (auto simp: tn_ok_def)
  have "image_mset fst (mset (map (\<lambda>(ev, t, b). (ev, t)) (tn_log st)))
      \<subseteq># image_mset fst (mset (map (\<lambda>(x, t). (itd_Item x, t)) (sch_delivered (tn_scheduler st))))"
    using ok by (intro image_mset_subseteq_mono) (simp add: tn_ok_def)
  also have "\<dots> = mset (map itd_Item (map fst (sch_delivered (tn_scheduler st))))"
    by (simp add: multiset.map_comp o_def case_prod_unfold)
  also have "\<dots> \<subseteq># mset (map itd_Item (sch_received (tn_scheduler st)))"
    using sok by (simp add: sch_ok_def multiset.map_comp)
  also have "\<dots> \<subseteq># mset (map fst (tn_events st))" using ok by (simp add: tn_ok_def)
  finally have "mset (map fst (tn_log st)) \<subseteq># mset (map fst (tn_events st))"
    by (simp add: multiset.map_comp o_def case_prod_unfold)
  then have "image_mset ?key (mset (map fst (tn_log st))) \<subseteq># image_mset ?key (mset (map fst (tn_events st)))"
    by (rule image_mset_subseteq_mono)
  then have "mset (map ?key (map fst (tn_log st))) \<subseteq># mset (map ?key (map fst (tn_events st)))"
    by (simp only: mset_map)
  moreover have "distinct (map ?key (map fst (tn_events st)))"
    using assms(2) by (simp add: case_prod_unfold o_def)
  ultimately have "distinct (map ?key (map fst (tn_log st)))"
    using distinct_submset by blast
  then show ?thesis by (simp add: case_prod_unfold o_def)
qed

theorem reports_are_transmitted_once_witness:
  "\<exists>st. tn_reach tn_example_env 0 st \<and> tn_log st \<noteq> [] \<and>
     distinct (map (\<lambda>(ev, t, b). (ear_SeqNr ev, ear_Index ev)) (tn_log st))"
proof -
  obtain st where st: "tn_reach tn_example_env 0 st" "tn_log st = [(tn_example_event, 1000, True)]"
    "tn_events st = [(tn_example_event, 0)]" by (rule tn_example_reach)
  have "distinct (map (\<lambda>(ev, now). (ear_SeqNr ev, ear_Index ev)) (tn_events st))" "tn_log st \<noteq> []" using st by simp_all
  then show ?thesis using reports_are_transmitted_once [OF st(1)] st(1) by blast
qed

end
