(* ===== verification/ProtoBase.thy ===== *)
theory ProtoBase
  imports Prelude
begin

text \<open>
  What the translations between protocol messages and protobuf structs of OCR2 and OCR3 share: their
  errors, the check for nil messages, and the conversion of oracle identifiers.
\<close>

datatype ser_error = CouldNotUnmarshal | CouldNotMarshal | UnableToExtract string | UnknownCase | UnrecognizedMsg

text \<open>\<open>if m == nil { return ..., fmt.Errorf("unable to extract a ... value") }\<close>\<close>

definition extract_value :: "string \<Rightarrow> 'a option \<Rightarrow> ser_error + 'a" where
  "extract_value name m = (case m of None \<Rightarrow> Inl (UnableToExtract name) | Some v \<Rightarrow> Inr v)"

lemma extract_value_simps [simp]: "extract_value name None = Inl (UnableToExtract name)" "extract_value name (Some v) = Inr v"
  by (simp_all add: extract_value_def)

text \<open>\<open>commontypes.OracleID\<close> of a \<open>uint32\<close> truncates.\<close>

definition OracleID_of :: "u32 \<Rightarrow> OracleID" where
  "OracleID_of x = ucast x"

lemma OracleID_roundtrip [simp]: "OracleID_of (ucast i) = i"
  by (simp add: OracleID_of_def ucast_down_ucast_id is_down)

end
