(* ===== verification/Serialization.thy ===== *)
theory Serialization
  imports Messages Pacemaker ProtoBase
begin

text \<open>
  The translation between protocol messages and their protobuf counterparts
  (\<open>ocr3/serialization/serialization.go\<close>, with the generated message structs of
  \<open>offchainreporting3_messages.pb.go\<close>). A nil pointer is \<open>None\<close>; \<open>proto.Marshal\<close> and
  \<open>proto.Unmarshal\<close> are parameters.
\<close>

section \<open>Protobuf messages\<close>

record pb_AttributedSignature =
  pas_Signature :: bytes
  pas_Signer :: u32

record pb_CertifiedPrepare =
  pcp_PrepareEpoch :: u64
  pcp_SeqNr :: u64
  pcp_OutcomeInputsDigest :: bytes
  pcp_Outcome :: bytes
  pcp_PrepareQuorumCertificate :: "pb_AttributedSignature option list"

record pb_CertifiedCommit =
  pcc_CommitEpoch :: u64
  pcc_SeqNr :: u64
  pcc_Outcome :: bytes
  pcc_CommitQuorumCertificate :: "pb_AttributedSignature option list"

text \<open>\<open>PbPrepareOrCommit None\<close> is the message without a case of its \<open>oneof\<close>.\<close>

datatype pb_oneof_PrepareOrCommit =
    PbPrepare "pb_CertifiedPrepare option"
  | PbCommit "pb_CertifiedCommit option"

datatype pb_CertifiedPrepareOrCommit = PbPrepareOrCommit "pb_oneof_PrepareOrCommit option"

record pb_HighestCertifiedTimestamp =
  phct_SeqNr :: u64
  phct_CommittedElsePrepared :: bool

record pb_SignedHighestCertifiedTimestamp =
  pshct_HighestCertifiedTimestamp :: "pb_HighestCertifiedTimestamp option"
  pshct_Signature :: bytes

record pb_AttributedSignedHighestCertifiedTimestamp =
  pashct_SignedHighestCertifiedTimestamp :: "pb_SignedHighestCertifiedTimestamp option"
  pashct_Signer :: u32

record pb_EpochStartProof =
  pesp_HighestCertified :: "pb_CertifiedPrepareOrCommit option"
  pesp_HighestCertifiedProof :: "pb_AttributedSignedHighestCertifiedTimestamp option list"

record pb_SignedObservation =
  pso_Observation :: bytes
  pso_Signature :: bytes

record pb_AttributedSignedObservation =
  paso_SignedObservation :: "pb_SignedObservation option"
  paso_Observer :: u32

datatype pb_MessageNewEpochWish = PbMessageNewEpochWish u64
datatype pb_MessageEpochStartRequest =
  PbMessageEpochStartRequest u64 "pb_CertifiedPrepareOrCommit option" "pb_SignedHighestCertifiedTimestamp option"
datatype pb_MessageEpochStart = PbMessageEpochStart u64 "pb_EpochStartProof option"
datatype pb_MessageRoundStart = PbMessageRoundStart u64 u64 bytes
datatype pb_MessageObservation = PbMessageObservation u64 u64 "pb_SignedObservation option"
datatype pb_MessageProposal = PbMessageProposal u64 u64 "pb_AttributedSignedObservation option list"
datatype pb_MessagePrepare = PbMessagePrepare u64 u64 bytes
datatype pb_MessageCommit = PbMessageCommit u64 u64 bytes
datatype pb_MessageReportSignatures = PbMessageReportSignatures u64 "bytes list"
datatype pb_MessageCertifiedCommitRequest = PbMessageCertifiedCommitRequest u64
datatype pb_MessageCertifiedCommit = PbMessageCertifiedCommit "pb_CertifiedCommit option"

datatype pb_oneof_Msg =
    WrNewEpochWish "pb_MessageNewEpochWish option"
  | WrEpochStartRequest "pb_MessageEpochStartRequest option"
  | WrEpochStart "pb_MessageEpochStart option"
  | WrRoundStart "pb_MessageRoundStart option"
  | WrObservation "pb_MessageObservation option"
  | WrProposal "pb_MessageProposal option"
  | WrPrepare "pb_MessagePrepare option"
  | WrCommit "pb_MessageCommit option"
  | WrReportSignatures "pb_MessageReportSignatures option"
  | WrCertifiedCommitRequest "pb_MessageCertifiedCommitRequest option"
  | WrCertifiedCommit "pb_MessageCertifiedCommit option"

datatype MessageWrapper = MessageWrapper (wr_Msg: "pb_oneof_Msg option")

record pb_PacemakerState =
  pps_Epoch :: u64
  pps_HighestSentNewEpochWish :: u64

section \<open>To protobuf\<close>

definition attributedPrepareSignatureToProto :: "AttributedPrepareSignature \<Rightarrow> pb_AttributedSignature option" where
  "attributedPrepareSignatureToProto s = Some \<lparr>pas_Signature = aps_Signature s, pas_Signer = ucast (aps_Signer s)\<rparr>"

definition attributedCommitSignatureToProto :: "AttributedCommitSignature \<Rightarrow> pb_AttributedSignature option" where
  "attributedCommitSignatureToProto s = Some \<lparr>pas_Signature = acs_Signature s, pas_Signer = ucast (acs_Signer s)\<rparr>"

definition CertifiedCommitToProtoMessage :: "CertifiedCommit \<Rightarrow> pb_CertifiedCommit" where
  "CertifiedCommitToProtoMessage cc =
     \<lparr>pcc_CommitEpoch = cmt_CommitEpoch cc, pcc_SeqNr = cmt_SeqNr cc, pcc_Outcome = cmt_Outcome cc,
      pcc_CommitQuorumCertificate = map attributedCommitSignatureToProto (cmt_CommitQuorumCertificate cc)\<rparr>"

fun CertifiedPrepareOrCommitToProtoMessage :: "CertifiedPrepareOrCommit \<Rightarrow> pb_CertifiedPrepareOrCommit" where
  "CertifiedPrepareOrCommitToProtoMessage (CertPrepare v) =
     PbPrepareOrCommit (Some (PbPrepare (Some
       \<lparr>pcp_PrepareEpoch = cp_PrepareEpoch v, pcp_SeqNr = cp_SeqNr v,
        pcp_OutcomeInputsDigest = cp_OutcomeInputsDigest v, pcp_Outcome = cp_Outcome v,
        pcp_PrepareQuorumCertificate = map attributedPrepareSignatureToProto (cp_PrepareQuorumCertificate v)\<rparr>)))"
| "CertifiedPrepareOrCommitToProtoMessage (CertCommit v) =
     PbPrepareOrCommit (Some (PbCommit (Some (CertifiedCommitToProtoMessage v))))"

definition highestCertifiedTimestampToProtoMessage :: "HighestCertifiedTimestamp \<Rightarrow> pb_HighestCertifiedTimestamp" where
  "highestCertifiedTimestampToProtoMessage t =
     \<lparr>phct_SeqNr = hct_SeqNr t, phct_CommittedElsePrepared = hct_CommittedElsePrepared t\<rparr>"

definition signedHighestCertifiedTimestampToProtoMessage ::
  "SignedHighestCertifiedTimestamp \<Rightarrow> pb_SignedHighestCertifiedTimestamp" where
  "signedHighestCertifiedTimestampToProtoMessage s =
     \<lparr>pshct_HighestCertifiedTimestamp = Some (highestCertifiedTimestampToProtoMessage (shct_HighestCertifiedTimestamp s)),
      pshct_Signature = shct_Signature s\<rparr>"

definition attributedSignedHighestCertifiedTimestampToProtoMessage ::
  "AttributedSignedHighestCertifiedTimestamp \<Rightarrow> pb_AttributedSignedHighestCertifiedTimestamp" where
  "attributedSignedHighestCertifiedTimestampToProtoMessage a =
     \<lparr>pashct_SignedHighestCertifiedTimestamp =
        Some (signedHighestCertifiedTimestampToProtoMessage (ashct_SignedHighestCertifiedTimestamp a)),
      pashct_Signer = ucast (ashct_Signer a)\<rparr>"

definition epochStartProofToProtoMessage :: "EpochStartProof \<Rightarrow> pb_EpochStartProof" where
  "epochStartProofToProtoMessage p =
     \<lparr>pesp_HighestCertified = Some (CertifiedPrepareOrCommitToProtoMessage (esp_HighestCertified p)),
      pesp_HighestCertifiedProof =
        map (Some \<circ> attributedSignedHighestCertifiedTimestampToProtoMessage) (esp_HighestCertifiedProof p)\<rparr>"

definition signedObservationToProtoMessage :: "SignedObservation \<Rightarrow> pb_SignedObservation" where
  "signedObservationToProtoMessage so = \<lparr>pso_Observation = so_Observation so, pso_Signature = so_Signature so\<rparr>"

definition attributedSignedObservationToProtoMessage :: "AttributedSignedObservation \<Rightarrow> pb_AttributedSignedObservation" where
  "attributedSignedObservationToProtoMessage aso =
     \<lparr>paso_SignedObservation = Some (signedObservationToProtoMessage (aso_SignedObservation aso)),
      paso_Observer = ucast (aso_Observer aso)\<rparr>"

definition PacemakerStateToProtoMessage :: "PacemakerState \<Rightarrow> pb_PacemakerState" where
  "PacemakerStateToProtoMessage ps =
     \<lparr>pps_Epoch = ps_Epoch ps, pps_HighestSentNewEpochWish = ps_HighestSentNewEpochWish ps\<rparr>"

fun toProtoMsg :: "Message \<Rightarrow> pb_oneof_Msg" where
  "toProtoMsg (ToPacemaker (MessageNewEpochWish e)) = WrNewEpochWish (Some (PbMessageNewEpochWish e))"
| "toProtoMsg (ToOutcomeGeneration (MessageEpochStartRequest e hc shct)) =
     WrEpochStartRequest (Some (PbMessageEpochStartRequest e (Some (CertifiedPrepareOrCommitToProtoMessage hc))
       (Some (signedHighestCertifiedTimestampToProtoMessage shct))))"
| "toProtoMsg (ToOutcomeGeneration (MessageEpochStart e esp)) =
     WrEpochStart (Some (PbMessageEpochStart e (Some (epochStartProofToProtoMessage esp))))"
| "toProtoMsg (ToOutcomeGeneration (MessageRoundStart e s q)) = WrRoundStart (Some (PbMessageRoundStart e s q))"
| "toProtoMsg (ToOutcomeGeneration (MessageObservation e s so)) =
     WrObservation (Some (PbMessageObservation e s (Some (signedObservationToProtoMessage so))))"
| "toProtoMsg (ToOutcomeGeneration (MessageProposal e s asos)) =
     WrProposal (Some (PbMessageProposal e s (map (Some \<circ> attributedSignedObservationToProtoMessage) asos)))"
| "toProtoMsg (ToOutcomeGeneration (MessagePrepare e s sig)) = WrPrepare (Some (PbMessagePrepare e s sig))"
| "toProtoMsg (ToOutcomeGeneration (MessageCommit e s sig)) = WrCommit (Some (PbMessageCommit e s sig))"
| "toProtoMsg (ToReportAttestation (MessageReportSignatures s sigs)) =
     WrReportSignatures (Some (PbMessageReportSignatures s sigs))"
| "toProtoMsg (ToReportAttestation (MessageCertifiedCommitRequest s)) =
     WrCertifiedCommitRequest (Some (PbMessageCertifiedCommitRequest s))"
| "toProtoMsg (ToReportAttestation (MessageCertifiedCommit cc)) =
     WrCertifiedCommit (Some (PbMessageCertifiedCommit (Some (CertifiedCommitToProtoMessage cc))))"

definition toProtoMessage :: "Message \<Rightarrow> MessageWrapper" where
  "toProtoMessage m = MessageWrapper (Some (toProtoMsg m))"

section \<open>From protobuf\<close>

text \<open>The generated getters return zero values on a nil receiver.\<close>

definition pas_GetSignature :: "pb_AttributedSignature option \<Rightarrow> bytes" where
  "pas_GetSignature m = (case m of None \<Rightarrow> [] | Some s \<Rightarrow> pas_Signature s)"

definition pas_GetSigner :: "pb_AttributedSignature option \<Rightarrow> u32" where
  "pas_GetSigner m = (case m of None \<Rightarrow> 0 | Some s \<Rightarrow> pas_Signer s)"

definition certifiedPrepareFromProtoMessage :: "pb_CertifiedPrepare option \<Rightarrow> ser_error + CertifiedPrepare" where
  "certifiedPrepareFromProtoMessage m =
     bindG (extract_value ''CertifiedPrepare'' m) (\<lambda>m.
       Inr \<lparr>cp_PrepareEpoch = pcp_PrepareEpoch m, cp_SeqNr = pcp_SeqNr m,
            cp_OutcomeInputsDigest = go_copy 32 (pcp_OutcomeInputsDigest m), cp_Outcome = pcp_Outcome m,
            cp_PrepareQuorumCertificate =
              map (\<lambda>aps. \<lparr>aps_Signature = pas_GetSignature aps, aps_Signer = OracleID_of (pas_GetSigner aps)\<rparr>)
                (pcp_PrepareQuorumCertificate m)\<rparr>)"

definition certifiedCommitFromProtoMessage :: "pb_CertifiedCommit option \<Rightarrow> ser_error + CertifiedCommit" where
  "certifiedCommitFromProtoMessage m =
     bindG (extract_value ''CertifiedCommit'' m) (\<lambda>m.
       Inr \<lparr>cmt_CommitEpoch = pcc_CommitEpoch m, cmt_SeqNr = pcc_SeqNr m, cmt_Outcome = pcc_Outcome m,
            cmt_CommitQuorumCertificate =
              map (\<lambda>aps. \<lparr>acs_Signature = pas_GetSignature aps, acs_Signer = OracleID_of (pas_GetSigner aps)\<rparr>)
                (pcc_CommitQuorumCertificate m)\<rparr>)"

definition CertifiedPrepareOrCommitFromProtoMessage ::
  "pb_CertifiedPrepareOrCommit option \<Rightarrow> ser_error + CertifiedPrepareOrCommit" where
  "CertifiedPrepareOrCommitFromProtoMessage m =
     bindG (extract_value ''CertifiedPrepareOrCommit'' m) (\<lambda>m.
       case m of
         PbPrepareOrCommit (Some (PbPrepare p)) \<Rightarrow> bindG (certifiedPrepareFromProtoMessage p) (\<lambda>c. Inr (CertPrepare c))
       | PbPrepareOrCommit (Some (PbCommit c)) \<Rightarrow> bindG (certifiedCommitFromProtoMessage c) (\<lambda>c. Inr (CertCommit c))
       | PbPrepareOrCommit None \<Rightarrow> Inl UnknownCase)"

definition highestCertifiedTimestampFromProtoMessage ::
  "pb_HighestCertifiedTimestamp option \<Rightarrow> ser_error + HighestCertifiedTimestamp" where
  "highestCertifiedTimestampFromProtoMessage m =
     bindG (extract_value ''HighestCertifiedTimestamp'' m) (\<lambda>m.
       Inr \<lparr>hct_SeqNr = phct_SeqNr m, hct_CommittedElsePrepared = phct_CommittedElsePrepared m\<rparr>)"

definition signedHighestCertifiedTimestampFromProtoMessage ::
  "pb_SignedHighestCertifiedTimestamp option \<Rightarrow> ser_error + SignedHighestCertifiedTimestamp" where
  "signedHighestCertifiedTimestampFromProtoMessage m =
     bindG (extract_value ''SignedHighestCertifiedTimestamp'' m) (\<lambda>m.
     bindG (highestCertifiedTimestampFromProtoMessage (pshct_HighestCertifiedTimestamp m)) (\<lambda>hct.
       Inr \<lparr>shct_HighestCertifiedTimestamp = hct, shct_Signature = pshct_Signature m\<rparr>))"

text \<open>Chained getters: an absent part of the proof decodes to zero values.\<close>

definition ashct_getters ::
  "pb_AttributedSignedHighestCertifiedTimestamp option \<Rightarrow> AttributedSignedHighestCertifiedTimestamp" where
  "ashct_getters a =
     (let shct = Option.bind a pashct_SignedHighestCertifiedTimestamp;
          hct = Option.bind shct pshct_HighestCertifiedTimestamp
      in \<lparr>ashct_SignedHighestCertifiedTimestamp =
            \<lparr>shct_HighestCertifiedTimestamp =
               \<lparr>hct_SeqNr = (case hct of None \<Rightarrow> 0 | Some t \<Rightarrow> phct_SeqNr t),
                hct_CommittedElsePrepared = (case hct of None \<Rightarrow> False | Some t \<Rightarrow> phct_CommittedElsePrepared t)\<rparr>,
             shct_Signature = (case shct of None \<Rightarrow> [] | Some s \<Rightarrow> pshct_Signature s)\<rparr>,
          ashct_Signer = OracleID_of (case a of None \<Rightarrow> 0 | Some a \<Rightarrow> pashct_Signer a)\<rparr>)"

definition epochStartProofFromProtoMessage :: "pb_EpochStartProof option \<Rightarrow> ser_error + EpochStartProof" where
  "epochStartProofFromProtoMessage m =
     bindG (extract_value ''EpochStartProof'' m) (\<lambda>m.
     bindG (CertifiedPrepareOrCommitFromProtoMessage (pesp_HighestCertified m)) (\<lambda>hc.
       Inr \<lparr>esp_HighestCertified = hc, esp_HighestCertifiedProof = map ashct_getters (pesp_HighestCertifiedProof m)\<rparr>))"

definition signedObservationFromProtoMessage :: "pb_SignedObservation option \<Rightarrow> ser_error + SignedObservation" where
  "signedObservationFromProtoMessage m =
     bindG (extract_value ''SignedObservation'' m) (\<lambda>m.
       Inr \<lparr>so_Observation = pso_Observation m, so_Signature = pso_Signature m\<rparr>)"

definition attributedSignedObservationFromProtoMessage ::
  "pb_AttributedSignedObservation option \<Rightarrow> ser_error + AttributedSignedObservation" where
  "attributedSignedObservationFromProtoMessage m =
     bindG (extract_value ''AttributedSignedObservation'' m) (\<lambda>m.
     bindG (signedObservationFromProtoMessage (paso_SignedObservation m)) (\<lambda>so.
       Inr \<lparr>aso_SignedObservation = so, aso_Observer = OracleID_of (paso_Observer m)\<rparr>))"

fun attributedSignedObservationsFromProtoMessage ::
  "pb_AttributedSignedObservation option list \<Rightarrow> ser_error + AttributedSignedObservation list" where
  "attributedSignedObservationsFromProtoMessage [] = Inr []"
| "attributedSignedObservationsFromProtoMessage (pbaso # pbasos) =
     bindG (attributedSignedObservationFromProtoMessage pbaso) (\<lambda>aso.
     bindG (attributedSignedObservationsFromProtoMessage pbasos) (\<lambda>asos. Inr (aso # asos)))"

definition PacemakerStateFromProtoMessage :: "pb_PacemakerState option \<Rightarrow> ser_error + PacemakerState" where
  "PacemakerStateFromProtoMessage m =
     bindG (extract_value ''PacemakerState'' m) (\<lambda>m.
       Inr \<lparr>ps_Epoch = pps_Epoch m, ps_HighestSentNewEpochWish = pps_HighestSentNewEpochWish m\<rparr>)"

definition messageNewEpochWishFromProtoMessage :: "pb_MessageNewEpochWish option \<Rightarrow> ser_error + MessageToPacemaker" where
  "messageNewEpochWishFromProtoMessage m =
     bindG (extract_value ''MessageNewEpochWish'' m) (\<lambda>m. case m of PbMessageNewEpochWish e \<Rightarrow>
       Inr (MessageNewEpochWish e))"

definition messageEpochStartRequestFromProtoMessage :: "pb_MessageEpochStartRequest option \<Rightarrow> ser_error + MessageToOutcomeGeneration" where
  "messageEpochStartRequestFromProtoMessage m =
     bindG (extract_value ''MessageEpochStartRequest'' m) (\<lambda>m. case m of PbMessageEpochStartRequest e hc shct \<Rightarrow>
     bindG (CertifiedPrepareOrCommitFromProtoMessage hc) (\<lambda>hc.
     bindG (signedHighestCertifiedTimestampFromProtoMessage shct) (\<lambda>shct.
       Inr (MessageEpochStartRequest e hc shct))))"

definition messageEpochStartFromProtoMessage :: "pb_MessageEpochStart option \<Rightarrow> ser_error + MessageToOutcomeGeneration" where
  "messageEpochStartFromProtoMessage m =
     bindG (extract_value ''MessageEpochStart'' m) (\<lambda>m. case m of PbMessageEpochStart e esp \<Rightarrow>
     bindG (epochStartProofFromProtoMessage esp) (\<lambda>esp. Inr (MessageEpochStart e esp)))"

definition messageRoundStartFromProtoMessage :: "pb_MessageRoundStart option \<Rightarrow> ser_error + MessageToOutcomeGeneration" where
  "messageRoundStartFromProtoMessage m =
     bindG (extract_value ''MessageRoundStart'' m) (\<lambda>m. case m of PbMessageRoundStart e s q \<Rightarrow>
       Inr (MessageRoundStart e s q))"

definition messageObservationFromProtoMessage :: "pb_MessageObservation option \<Rightarrow> ser_error + MessageToOutcomeGeneration" where
  "messageObservationFromProtoMessage m =
     bindG (extract_value ''MessageObservation'' m) (\<lambda>m. case m of PbMessageObservation e s so \<Rightarrow>
     bindG (signedObservationFromProtoMessage so) (\<lambda>so. Inr (MessageObservation e s so)))"

definition messageProposalFromProtoMessage :: "pb_MessageProposal option \<Rightarrow> ser_error + MessageToOutcomeGeneration" where
  "messageProposalFromProtoMessage m =
     bindG (extract_value ''MessageProposal'' m) (\<lambda>m. case m of PbMessageProposal e s asos \<Rightarrow>
     bindG (attributedSignedObservationsFromProtoMessage asos) (\<lambda>asos.
       Inr (MessageProposal e s asos)))"

definition messagePrepareFromProtoMessage :: "pb_MessagePrepare option \<Rightarrow> ser_error + MessageToOutcomeGeneration" where
  "messagePrepareFromProtoMessage m =
     bindG (extract_value ''MessagePrepare'' m) (\<lambda>m. case m of PbMessagePrepare e s sig \<Rightarrow>
       Inr (MessagePrepare e s sig))"

definition messageCommitFromProtoMessage :: "pb_MessageCommit option \<Rightarrow> ser_error + MessageToOutcomeGeneration" where
  "messageCommitFromProtoMessage m =
     bindG (extract_value ''MessageCommit'' m) (\<lambda>m. case m of PbMessageCommit e s sig \<Rightarrow>
       Inr (MessageCommit e s sig))"

definition messageReportSignaturesFromProtoMessage :: "pb_MessageReportSignatures option \<Rightarrow> ser_error + MessageToReportAttestation" where
  "messageReportSignaturesFromProtoMessage m =
     bindG (extract_value ''MessageReportSignatures'' m) (\<lambda>m. case m of PbMessageReportSignatures s sigs \<Rightarrow>
       Inr (MessageReportSignatures s sigs))"

definition messageCertifiedCommitRequestFromProtoMessage :: "pb_MessageCertifiedCommitRequest option \<Rightarrow> ser_error + MessageToReportAttestation" where
  "messageCertifiedCommitRequestFromProtoMessage m =
     bindG (extract_value ''MessageCertifiedCommitRequest'' m) (\<lambda>m. case m of PbMessageCertifiedCommitRequest s \<Rightarrow>
       Inr (MessageCertifiedCommitRequest s))"

definition messageCertifiedCommitFromProtoMessage :: "pb_MessageCertifiedCommit option \<Rightarrow> ser_error + MessageToReportAttestation" where
  "messageCertifiedCommitFromProtoMessage m =
     bindG (extract_value ''MessageCertifiedCommit'' m) (\<lambda>m. case m of PbMessageCertifiedCommit cc \<Rightarrow>
     bindG (certifiedCommitFromProtoMessage cc) (\<lambda>cc. Inr (MessageCertifiedCommit cc)))"

fun messageFromProtoMsg :: "pb_oneof_Msg \<Rightarrow> ser_error + Message" where
  "messageFromProtoMsg (WrNewEpochWish m) = bindG (messageNewEpochWishFromProtoMessage m) (\<lambda>m. Inr (ToPacemaker m))"
| "messageFromProtoMsg (WrEpochStartRequest m) = bindG (messageEpochStartRequestFromProtoMessage m) (\<lambda>m. Inr (ToOutcomeGeneration m))"
| "messageFromProtoMsg (WrEpochStart m) = bindG (messageEpochStartFromProtoMessage m) (\<lambda>m. Inr (ToOutcomeGeneration m))"
| "messageFromProtoMsg (WrRoundStart m) = bindG (messageRoundStartFromProtoMessage m) (\<lambda>m. Inr (ToOutcomeGeneration m))"
| "messageFromProtoMsg (WrObservation m) = bindG (messageObservationFromProtoMessage m) (\<lambda>m. Inr (ToOutcomeGeneration m))"
| "messageFromProtoMsg (WrProposal m) = bindG (messageProposalFromProtoMessage m) (\<lambda>m. Inr (ToOutcomeGeneration m))"
| "messageFromProtoMsg (WrPrepare m) = bindG (messagePrepareFromProtoMessage m) (\<lambda>m. Inr (ToOutcomeGeneration m))"
| "messageFromProtoMsg (WrCommit m) = bindG (messageCommitFromProtoMessage m) (\<lambda>m. Inr (ToOutcomeGeneration m))"
| "messageFromProtoMsg (WrReportSignatures m) = bindG (messageReportSignaturesFromProtoMessage m) (\<lambda>m. Inr (ToReportAttestation m))"
| "messageFromProtoMsg (WrCertifiedCommitRequest m) = bindG (messageCertifiedCommitRequestFromProtoMessage m) (\<lambda>m. Inr (ToReportAttestation m))"
| "messageFromProtoMsg (WrCertifiedCommit m) = bindG (messageCertifiedCommitFromProtoMessage m) (\<lambda>m. Inr (ToReportAttestation m))"

definition messageWrapperFromProtoMessage :: "MessageWrapper \<Rightarrow> ser_error + Message" where
  "messageWrapperFromProtoMessage wrapper =
     (case wr_Msg wrapper of None \<Rightarrow> Inl UnrecognizedMsg | Some msg \<Rightarrow> messageFromProtoMsg msg)"

section \<open>Bytes\<close>

definition Serialize :: "(MessageWrapper \<Rightarrow> bytes option) \<Rightarrow> Message \<Rightarrow> ser_error + bytes \<times> MessageWrapper" where
  "Serialize Marshal m =
     (let pbm = toProtoMessage m
      in case Marshal pbm of None \<Rightarrow> Inl CouldNotMarshal | Some b \<Rightarrow> Inr (b, pbm))"

definition Deserialize :: "(bytes \<Rightarrow> MessageWrapper option) \<Rightarrow> bytes \<Rightarrow> ser_error + Message \<times> MessageWrapper" where
  "Deserialize Unmarshal b =
     (case Unmarshal b of
        None \<Rightarrow> Inl CouldNotUnmarshal
      | Some pbm \<Rightarrow> bindG (messageWrapperFromProtoMessage pbm) (\<lambda>m. Inr (m, pbm)))"

section \<open>Round trip\<close>

named_theorems ser_defs
lemmas [ser_defs] = attributedPrepareSignatureToProto_def attributedCommitSignatureToProto_def
  CertifiedCommitToProtoMessage_def highestCertifiedTimestampToProtoMessage_def
  signedHighestCertifiedTimestampToProtoMessage_def attributedSignedHighestCertifiedTimestampToProtoMessage_def
  epochStartProofToProtoMessage_def signedObservationToProtoMessage_def attributedSignedObservationToProtoMessage_def
  certifiedPrepareFromProtoMessage_def certifiedCommitFromProtoMessage_def CertifiedPrepareOrCommitFromProtoMessage_def
  highestCertifiedTimestampFromProtoMessage_def signedHighestCertifiedTimestampFromProtoMessage_def
  ashct_getters_def epochStartProofFromProtoMessage_def signedObservationFromProtoMessage_def
  attributedSignedObservationFromProtoMessage_def pas_GetSignature_def pas_GetSigner_def

lemmas message_defs = messageNewEpochWishFromProtoMessage_def
  messageEpochStartRequestFromProtoMessage_def
  messageEpochStartFromProtoMessage_def
  messageRoundStartFromProtoMessage_def
  messageObservationFromProtoMessage_def
  messageProposalFromProtoMessage_def
  messagePrepareFromProtoMessage_def
  messageCommitFromProtoMessage_def
  messageReportSignaturesFromProtoMessage_def
  messageCertifiedCommitRequestFromProtoMessage_def
  messageCertifiedCommitFromProtoMessage_def

text \<open>The digest of a certified prepare is an array of 32 bytes.\<close>

fun cert_digest_ok :: "CertifiedPrepareOrCommit \<Rightarrow> bool" where
  "cert_digest_ok (CertPrepare c) = (length (cp_OutcomeInputsDigest c) = 32)"
| "cert_digest_ok (CertCommit c) = True"

fun message_digest_ok :: "Message \<Rightarrow> bool" where
  "message_digest_ok (ToOutcomeGeneration (MessageEpochStartRequest e hc shct)) = cert_digest_ok hc"
| "message_digest_ok (ToOutcomeGeneration (MessageEpochStart e esp)) = cert_digest_ok (esp_HighestCertified esp)"
| "message_digest_ok m = True"

lemma signature_eta:
  "(\<lambda>s. \<lparr>acs_Signature = acs_Signature s, acs_Signer = acs_Signer s\<rparr>) = (\<lambda>s. s)"
  "(\<lambda>s. \<lparr>aps_Signature = aps_Signature s, aps_Signer = aps_Signer s\<rparr>) = (\<lambda>s. s)"
  by (simp_all add: fun_eq_iff)

lemma commit_roundtrip: "certifiedCommitFromProtoMessage (Some (CertifiedCommitToProtoMessage c)) = Inr c"
  by (simp add: ser_defs o_def signature_eta)

lemma cert_roundtrip:
  "cert_digest_ok hc \<Longrightarrow> CertifiedPrepareOrCommitFromProtoMessage (Some (CertifiedPrepareOrCommitToProtoMessage hc)) = Inr hc"
proof (cases hc)
  case (CertCommit c)
  then show ?thesis by (simp add: CertifiedPrepareOrCommitFromProtoMessage_def commit_roundtrip)
qed (simp add: ser_defs o_def signature_eta)

lemma shct_roundtrip:
  "signedHighestCertifiedTimestampFromProtoMessage (Some (signedHighestCertifiedTimestampToProtoMessage s)) = Inr s"
  by (simp add: ser_defs)

lemma ashct_roundtrip: "ashct_getters (Some (attributedSignedHighestCertifiedTimestampToProtoMessage a)) = a"
  by (simp add: ser_defs)

lemma esp_roundtrip:
  "cert_digest_ok (esp_HighestCertified p) \<Longrightarrow>
     epochStartProofFromProtoMessage (Some (epochStartProofToProtoMessage p)) = Inr p"
  by (simp add: epochStartProofFromProtoMessage_def epochStartProofToProtoMessage_def cert_roundtrip o_def ashct_roundtrip)

lemma so_roundtrip: "signedObservationFromProtoMessage (Some (signedObservationToProtoMessage so)) = Inr so"
  by (simp add: ser_defs)

lemma asos_roundtrip:
  "attributedSignedObservationsFromProtoMessage (map (Some \<circ> attributedSignedObservationToProtoMessage) asos) = Inr asos"
  by (induction asos) (simp_all add: attributedSignedObservationFromProtoMessage_def
      attributedSignedObservationToProtoMessage_def so_roundtrip)

lemma message_roundtrip:
  "message_digest_ok m \<Longrightarrow> messageWrapperFromProtoMessage (toProtoMessage m) = Inr m"
  by (cases m rule: toProtoMsg.cases)
    (simp_all add: messageWrapperFromProtoMessage_def toProtoMessage_def message_defs cert_roundtrip shct_roundtrip esp_roundtrip
      so_roundtrip asos_roundtrip commit_roundtrip)


text \<open>What is relied on of protobuf: decoding the encoding of a message without nil elements
  returns it.\<close>

definition proto_inverse :: "(MessageWrapper \<Rightarrow> bytes option) \<Rightarrow> (bytes \<Rightarrow> MessageWrapper option) \<Rightarrow> bool" where
  "proto_inverse Marshal Unmarshal \<longleftrightarrow> (\<forall>m b. Marshal (toProtoMessage m) = Some b \<longrightarrow> Unmarshal b = Some (toProtoMessage m))"

text \<open>A message that one oracle serialises is the message another one deserialises: for every kind
  of message, all nested certificates, proofs, observations and signatures included, as long as
  protobuf decodes what it encodes and digests have their 32 bytes.\<close>

theorem ocr3_messages_roundtrip:
  assumes "proto_inverse Marshal Unmarshal" "message_digest_ok m" "Serialize Marshal m = Inr (b, pbm)"
  shows "Deserialize Unmarshal b = Inr (m, pbm)"
  using assms message_roundtrip [OF assms(2)]
  by (auto simp: Serialize_def Deserialize_def proto_inverse_def Let_def split: option.splits)

definition example_marshal :: "MessageWrapper \<Rightarrow> bytes option" where
  "example_marshal w = (if w = toProtoMessage (ToOutcomeGeneration (MessageCommit 2 3 [4])) then Some [1] else None)"

definition example_unmarshal :: "bytes \<Rightarrow> MessageWrapper option" where
  "example_unmarshal b = (if b = [1] then Some (toProtoMessage (ToOutcomeGeneration (MessageCommit 2 3 [4]))) else None)"

theorem ocr3_messages_roundtrip_witness:
  "Deserialize example_unmarshal [1] =
     Inr (ToOutcomeGeneration (MessageCommit 2 3 [4]), toProtoMessage (ToOutcomeGeneration (MessageCommit 2 3 [4])))"
proof -
  have "proto_inverse example_marshal example_unmarshal"
    by (simp add: proto_inverse_def example_marshal_def example_unmarshal_def)
  moreover have "Serialize example_marshal (ToOutcomeGeneration (MessageCommit 2 3 [4])) =
      Inr ([1], toProtoMessage (ToOutcomeGeneration (MessageCommit 2 3 [4])))"
    by (simp add: Serialize_def example_marshal_def)
  moreover have "message_digest_ok (ToOutcomeGeneration (MessageCommit 2 3 [4]))" by simp
  ultimately show ?thesis by (intro ocr3_messages_roundtrip)
qed

text \<open>The signer of a signature travels as a 32-bit number and is truncated to eight bits, without
  an error: two different messages on the wire, one of them naming an oracle that does not exist,
  are accepted as the same certificate.\<close>

lemma signer_is_truncated:
  "OracleID_of (pas_GetSigner (Some \<lparr>pas_Signature = sig, pas_Signer = i + 256\<rparr>)) =
   OracleID_of (pas_GetSigner (Some \<lparr>pas_Signature = sig, pas_Signer = i\<rparr>))"
proof -
  have "(ucast (i + 256) :: u8) = ucast i"
  proof (rule word_uint_eqI)
    have "(uint i + 256) mod 4294967296 mod 256 = uint i mod 256" by (subst mod_mod_cancel) simp_all
    then show "uint (ucast (i + 256) :: u8) = uint (ucast i :: u8)"
      by (simp add: unsigned_ucast_eq take_bit_eq_mod uint_word_ariths(1))
  qed
  then show ?thesis by (simp add: OracleID_of_def pas_GetSigner_def)
qed

end
