(* ===== verification/Ocr2Types.thy ===== *)
theory Ocr2Types
  imports SignedData
begin

text \<open>
  The data that OCR2 protocol code and reporting plugins share
  (\<open>offchainreporting2plus/types/types.go\<close>): report timestamps and contexts, attributed on-chain
  signatures; and the pairs of an epoch and a round with their order, as both
  \<open>ocr2/protocol/common.go\<close> and \<open>median/epochround.go\<close> declare them.
\<close>

record ReportTimestamp =
  rts_ConfigDigest :: bytes
  rts_Epoch :: u32
  rts_Round :: u8

record ReportContext =
  rctx_ReportTimestamp :: ReportTimestamp
  rctx_ExtraHash :: bytes

record AttributedOnchainSignature =
  aos_Signature :: bytes
  aos_Signer :: OracleID

section \<open>Epochs and rounds\<close>

record EpochRound =
  er_Epoch :: u32
  er_Round :: u8

definition EpochRound_Less :: "EpochRound \<Rightarrow> EpochRound \<Rightarrow> bool" where
  "EpochRound_Less x y \<longleftrightarrow> er_Epoch x < er_Epoch y \<or> (er_Epoch x = er_Epoch y \<and> er_Round x < er_Round y)"

abbreviation zero_EpochRound :: EpochRound where
  "zero_EpochRound \<equiv> \<lparr>er_Epoch = 0, er_Round = 0\<rparr>"

definition er_of :: "ReportTimestamp \<Rightarrow> EpochRound" where
  "er_of ts = \<lparr>er_Epoch = rts_Epoch ts, er_Round = rts_Round ts\<rparr>"

lemma EpochRound_Less_irrefl [simp]: "\<not> EpochRound_Less x x"
  by (simp add: EpochRound_Less_def)

lemma EpochRound_Less_trans: "EpochRound_Less x y \<Longrightarrow> EpochRound_Less y z \<Longrightarrow> EpochRound_Less x z"
  by (auto simp: EpochRound_Less_def)

lemma EpochRound_Less_linear: "EpochRound_Less x y \<or> x = y \<or> EpochRound_Less y x"
  unfolding EpochRound_Less_def by (cases x; cases y) auto

lemma EpochRound_Less_le_trans: "\<not> EpochRound_Less y x \<Longrightarrow> EpochRound_Less y z \<Longrightarrow> EpochRound_Less x z"
  using EpochRound_Less_linear [of x y] EpochRound_Less_trans by blast

end
