(* ===== verification/SliceSort.thy ===== *)
theory SliceSort
  imports Prelude
begin

text \<open>
  \<open>sort.Slice\<close> of Go's standard library: it permutes the slice so that no element is less than its
  predecessor, and promises nothing about the order of equal elements. The locale states that
  contract for comparisons by a key; what the clients derive from the middle element of a sorted
  slice (a median) is proved inside it. The interpretation is the insertion sort that the library
  runs on slices of up to twelve elements.
\<close>

section \<open>The contract and medians\<close>

locale slice_sort =
  fixes srt :: "('a \<Rightarrow> 'a \<Rightarrow> bool) \<Rightarrow> 'a list \<Rightarrow> 'a list"
  assumes permutes: "mset (srt lt xs) = mset xs"
    and ordered: "sorted (map (key :: 'a \<Rightarrow> int) (srt (\<lambda>x y. key x < key y) xs))"
begin

lemma srt_set [simp]: "set (srt lt xs) = set xs"
  by (rule mset_eq_setD) (rule permutes)

lemma srt_length [simp]: "length (srt lt xs) = length xs"
  by (rule mset_eq_length) (rule permutes)

lemma srt_filter: "length (filter P (srt lt xs)) = length (filter P xs)"
  using permutes [of lt xs] by (metis mset_filter size_mset)

lemma keys_sorted: "map key (srt (\<lambda>x y. key x < key y) xs) = sort (map (key :: 'a \<Rightarrow> int) xs)"
  by (rule properties_for_sort [symmetric]) (simp_all add: ordered permutes)

lemma sort_map_srt [simp]: "sort (map (key :: 'a \<Rightarrow> int) (srt lt xs)) = sort (map key xs)"
  by (rule properties_for_sort) (simp_all add: permutes)

lemma srt_Nil_iff [simp]: "srt lt xs = [] \<longleftrightarrow> xs = []"
  using srt_length [of lt xs] by (metis length_0_conv)

text \<open>The key of the middle element is the same for every correct sorting routine.\<close>

lemma median_key:
  "xs \<noteq> [] \<Longrightarrow> key (srt (\<lambda>x y. key x < key y) xs ! (length xs div 2)) = sort (map (key :: 'a \<Rightarrow> int) xs) ! (length xs div 2)"
  unfolding keys_sorted [symmetric] by simp

text \<open>The middle element lies between two elements of every strict majority.\<close>

lemma median_between:
  fixes key :: "'a \<Rightarrow> int"
  assumes "length xs < 2 * length (filter P xs)"
  shows "\<exists>lo \<in> set xs. \<exists>hi \<in> set xs. P lo \<and> P hi \<and>
    key lo \<le> key (srt (\<lambda>x y. key x < key y) xs ! (length xs div 2)) \<and>
    key (srt (\<lambda>x y. key x < key y) xs ! (length xs div 2)) \<le> key hi"
proof -
  let ?s = "srt (\<lambda>x y. key x < key y) xs" and ?m = "length xs div 2"
  have ne: "?m < length ?s" using assms by (cases xs) auto
  have split: "length (filter P ?s) = length (filter P (take n ?s)) + length (filter P (drop n ?s))" for n
    by (metis append_take_drop_id filter_append length_append)
  have srt: "sorted (map key ?s)" by (rule ordered)
  have count: "length (filter P ?s) = length (filter P xs)" by (rule srt_filter)
  have "filter P (take (Suc ?m) ?s) \<noteq> []"
  proof
    assume "filter P (take (Suc ?m) ?s) = []"
    then have "length (filter P xs) \<le> length ?s - Suc ?m"
      using split [of "Suc ?m"] length_filter_le [of P "drop (Suc ?m) ?s"] count by simp
    then show False using assms by simp
  qed
  then obtain lo where lo: "lo \<in> set (take (Suc ?m) ?s)" "P lo" by (auto simp: filter_empty_conv)
  then obtain i where "i < length (take (Suc ?m) ?s)" "lo = take (Suc ?m) ?s ! i"
    by (metis in_set_conv_nth)
  then have i: "i \<le> ?m" "lo = ?s ! i" by simp_all
  have "filter P (drop ?m ?s) \<noteq> []"
  proof
    assume "filter P (drop ?m ?s) = []"
    then have "length (filter P xs) \<le> length (take ?m ?s)"
      using split [of ?m] length_filter_le [of P "take ?m ?s"] count by simp
    then show False using assms by simp
  qed
  then obtain hi where hi: "hi \<in> set (drop ?m ?s)" "P hi" by (auto simp: filter_empty_conv)
  then obtain j where "j < length (drop ?m ?s)" "hi = drop ?m ?s ! j"
    by (metis in_set_conv_nth)
  then have j: "?m + j < length ?s" "hi = ?s ! (?m + j)" using ne by simp_all
  have "key lo \<le> key (?s ! ?m)"
    using sorted_nth_mono [OF srt, of i ?m] i ne by simp
  moreover have "key (?s ! ?m) \<le> key hi"
    using sorted_nth_mono [OF srt, of ?m "?m + j"] j ne by simp
  moreover have "lo \<in> set xs" "hi \<in> set xs"
    using lo(1) hi(1) by (auto dest: in_set_takeD in_set_dropD)
  ultimately show ?thesis using lo(2) hi(2) by blast
qed

end

section \<open>Insertion sort\<close>

text \<open>\<open>insertionSort_func\<close> of the library: each element moves to the left while it is less than its
  left neighbour.\<close>

fun sift_left :: "('a \<Rightarrow> 'a \<Rightarrow> bool) \<Rightarrow> 'a \<Rightarrow> 'a list \<Rightarrow> 'a list" where
  "sift_left lt x [] = [x]"
| "sift_left lt x (y # ys) = (if lt x y then y # sift_left lt x ys else x # y # ys)"

text \<open>The sorted prefix is kept in reverse: its head is the left neighbour.\<close>

definition insertionSort :: "('a \<Rightarrow> 'a \<Rightarrow> bool) \<Rightarrow> 'a list \<Rightarrow> 'a list" where
  "insertionSort lt xs = rev (foldl (\<lambda>done x. sift_left lt x done) [] xs)"

lemma sift_left_mset [simp]: "mset (sift_left lt x ys) = add_mset x (mset ys)"
  by (induction ys) auto

lemma sift_left_sorted:
  fixes key :: "'a \<Rightarrow> int"
  assumes "sorted (map key (rev ys))"
  shows "sorted (map key (rev (sift_left (\<lambda>x y. key x < key y) x ys)))"
  using assms
proof (induction ys)
  case (Cons y ys)
  have "set (sift_left (\<lambda>x y. key x < key y) x ys) = insert x (set ys)"
    using mset_eq_setD [of "sift_left (\<lambda>x y. key x < key y) x ys" "x # ys"] by simp
  then show ?case using Cons by (auto simp: sorted_append)
qed simp

lemma insertionSort_fold:
  fixes key :: "'a \<Rightarrow> int"
  shows "mset (foldl (\<lambda>done x. sift_left lt x done) acc xs) = mset acc + mset xs"
    "sorted (map key (rev acc)) \<Longrightarrow>
     sorted (map key (rev (foldl (\<lambda>done x. sift_left (\<lambda>x y. key x < key y) x done) acc xs)))"
  by (induction xs arbitrary: acc) (simp_all add: sift_left_sorted)

interpretation ins: slice_sort insertionSort
proof
  fix lt :: "'a \<Rightarrow> 'a \<Rightarrow> bool" and key :: "'a \<Rightarrow> int" and xs
  show "mset (insertionSort lt xs) = mset xs"
    by (simp add: insertionSort_def insertionSort_fold(1))
  show "sorted (map key (insertionSort (\<lambda>x y. key x < key y) xs))"
    using insertionSort_fold(2) [of key "[]" xs] by (simp add: insertionSort_def)
qed

end
