(* ===== verification/BigBigEndian.thy ===== *)
theory BigBigEndian
  imports Prelude
begin

unbundle bit_operations_syntax

text \<open>
  \<open>bigbigendian/serialize.go\<close>: two's complement big-endian encodings of signed big integers in a
  given number of bytes. A \<open>big.Int\<close> is an \<open>int\<close>, a nil pointer \<open>None\<close>; \<open>BitLen\<close>, \<open>FillBytes\<close> and
  \<open>SetBytes\<close> of \<open>math/big\<close> are written out.
\<close>

section \<open>Operations of big.Int\<close>

text \<open>The number of bits of the absolute value.\<close>

fun nat_BitLen :: "nat \<Rightarrow> nat" where
  "nat_BitLen n = (if n = 0 then 0 else Suc (nat_BitLen (n div 2)))"

declare nat_BitLen.simps [simp del]

definition BitLen :: "int \<Rightarrow> nat" where
  "BitLen x = nat_BitLen (nat \<bar>x\<bar>)"

text \<open>The last \<open>n\<close> base-256 digits, most significant first.\<close>

fun be_digits :: "nat \<Rightarrow> int \<Rightarrow> bytes" where
  "be_digits 0 x = []"
| "be_digits (Suc n) x = be_digits n (x div 256) @ [of_int (x mod 256)]"

text \<open>\<open>FillBytes\<close> panics when the absolute value does not fit into the buffer.\<close>

definition FillBytes :: "nat \<Rightarrow> int \<Rightarrow> bytes go" where
  "FillBytes n x = (if \<bar>x\<bar> < 256 ^ n then Inr (be_digits n \<bar>x\<bar>) else Inl ExplicitPanic)"

definition SetBytes :: "bytes \<Rightarrow> int" where
  "SetBytes b = foldl (\<lambda>a c. a * 256 + uint c) 0 b"

section \<open>The code\<close>

definition MaxSize :: int where "MaxSize = 128"

datatype bbe_error = NilBigInt | BadSize | DoesNotFit | WrongLength

definition SerializeSigned :: "int \<Rightarrow> int option \<Rightarrow> (bbe_error + bytes) go" where
  "SerializeSigned sz io =
     (case io of
        None \<Rightarrow> Inr (Inl NilBigInt)
      | Some i \<Rightarrow>
          if \<not> (0 < sz \<and> sz \<le> MaxSize) then Inr (Inl BadSize)
          else
            let bitSize = sz * 8; negative = i < 0
            in if negative
               then
                 let tmp = i + 1
                 in if bitSize \<le> int (BitLen tmp) then Inr (Inl DoesNotFit)
                    else bindG (FillBytes (nat sz) tmp) (\<lambda>b. Inr (Inr (map (\<lambda>c. c XOR 0xff) b)))
               else
                 if bitSize \<le> int (BitLen i) then Inr (Inl DoesNotFit)
                 else bindG (FillBytes (nat sz) i) (\<lambda>b. Inr (Inr b)))"

definition DeserializeSigned :: "int \<Rightarrow> bytes \<Rightarrow> (bbe_error + int) go" where
  "DeserializeSigned sz b =
     (if \<not> (0 < sz \<and> sz \<le> MaxSize) then Inr (Inl BadSize)
      else if int (length b) \<noteq> sz then Inr (Inl WrongLength)
      else
        let bitSize = sz * 8; val = SetBytes b
        in bindG (go_index b 0) (\<lambda>b0.
           let negative = b0 AND 0x80 \<noteq> 0
           in Inr (Inr (if negative then val - 2 ^ nat bitSize else val))))"

section \<open>Digits\<close>

lemma nat_BitLen_le: "nat_BitLen n \<le> k \<longleftrightarrow> n < 2 ^ k"
proof (induction k arbitrary: n)
  case 0
  show ?case by (subst nat_BitLen.simps) simp
next
  case (Suc k)
  have "n div 2 < 2 ^ k \<longleftrightarrow> n < 2 ^ Suc k" by (simp add: div_less_iff_less_mult mult.commute)
  then show ?case by (subst nat_BitLen.simps) (auto simp: Suc.IH)
qed

lemma BitLen_less: "0 < k \<Longrightarrow> BitLen x < k \<longleftrightarrow> \<bar>x\<bar> < 2 ^ (k - 1)"
proof -
  assume "0 < k"
  then have "BitLen x < k \<longleftrightarrow> nat_BitLen (nat \<bar>x\<bar>) \<le> k - 1" by (auto simp: BitLen_def)
  also have "\<dots> \<longleftrightarrow> nat \<bar>x\<bar> < 2 ^ (k - 1)" by (rule nat_BitLen_le)
  also have "\<dots> \<longleftrightarrow> \<bar>x\<bar> < 2 ^ (k - 1)" by (simp add: nat_less_iff)
  finally show ?thesis .
qed

lemma length_be_digits [simp]: "length (be_digits n x) = n"
  by (induction n x rule: be_digits.induct) simp_all

lemma SetBytes_append: "SetBytes (b @ [c]) = SetBytes b * 256 + uint c"
  by (simp add: SetBytes_def)

lemma SetBytes_be_digits: "SetBytes (be_digits n x) = x mod 256 ^ n"
proof (induction n x rule: be_digits.induct)
  case (2 n x)
  have "uint (word_of_int (x mod 256) :: u8) = x mod 256"
    by (simp add: uint_word_of_int)
  then have "SetBytes (be_digits (Suc n) x) = (x div 256 mod 256 ^ n) * 256 + x mod 256"
    by (simp add: SetBytes_append "2.IH")
  also have "\<dots> = x mod (256 * 256 ^ n)"
    by (simp add: zmod_zmult2_eq)
  finally show ?case by simp
qed (simp add: SetBytes_def)

lemma SetBytes_bounds: "0 \<le> SetBytes b" "SetBytes b < 256 ^ length b"
proof -
  have "0 \<le> SetBytes b \<and> SetBytes b < 256 ^ length b"
  proof (induction b rule: rev_induct)
    case (snoc c b)
    have "0 \<le> uint c" "uint c < 256" using uint_bounded [of c] by simp_all
    then show ?case using snoc by (simp add: SetBytes_append)
  qed (simp add: SetBytes_def)
  then show "0 \<le> SetBytes b" "SetBytes b < 256 ^ length b" by auto
qed

lemma uint_invert: "uint (c XOR 0xff :: u8) = 255 - uint c"
proof -
  have "c XOR 0xff = NOT c" by (rule bit_word_eqI) (simp add: bit_simps, auto simp: numeral_eq_Suc less_Suc_eq)
  then show ?thesis
    using uint_bounded [of c] by (simp add: unsigned_not_eq take_bit_not_eq_mask_diff mask_eq_exp_minus_1 take_bit_int_eq_self)
qed

lemma SetBytes_invert: "SetBytes (map (\<lambda>c. c XOR 0xff) b) = 256 ^ length b - 1 - SetBytes b"
proof (induction b rule: rev_induct)
  case (snoc c b)
  then show ?case by (simp add: SetBytes_append uint_invert algebra_simps)
qed (simp add: SetBytes_def)

text \<open>The first byte's top bit is set exactly when the value is in the upper half.\<close>

lemma SetBytes_Cons: "SetBytes (c # b) = uint c * 256 ^ length b + SetBytes b"
proof (induction b rule: rev_induct)
  case (snoc d b)
  have "SetBytes (c # (b @ [d])) = SetBytes (c # b) * 256 + uint d"
    using SetBytes_append [of "c # b" d] by simp
  then show ?case using snoc by (simp add: SetBytes_append algebra_simps)
qed (simp add: SetBytes_def)

lemma top_bit: "(c :: u8) AND 0x80 \<noteq> 0 \<longleftrightarrow> 128 \<le> uint c"
proof -
  have "c AND 0x80 \<noteq> 0 \<longleftrightarrow> bit c 7"
    using and_exp_eq_0_iff_not_bit [of c 7] by simp
  also have "\<dots> \<longleftrightarrow> bit (uint c) 7"
    by (simp add: bit_uint_iff)
  also have "\<dots> \<longleftrightarrow> odd (uint c div 128)"
    by (simp add: bit_iff_odd)
  also have "\<dots> \<longleftrightarrow> 128 \<le> uint c"
  proof -
    have "0 \<le> uint c" "uint c < 256" using uint_bounded [of c] by simp_all
    then have "uint c div 128 = (if 128 \<le> uint c then 1 else 0)" by auto
    then show ?thesis by simp
  qed
  finally show ?thesis .
qed

lemma negative_iff:
  assumes "b \<noteq> []"
  shows "b ! 0 AND 0x80 \<noteq> 0 \<longleftrightarrow> 2 ^ (8 * length b - 1) \<le> SetBytes b"
proof -
  obtain c bs where b: "b = c # bs" using assms by (cases b) auto
  have pow: "(2 :: int) ^ (8 * length b - 1) = 128 * 256 ^ length bs"
  proof -
    have "(2 :: int) ^ (8 * length b - 1) = 2 ^ (7 + 8 * length bs)" by (simp add: b)
    also have "\<dots> = 2 ^ 7 * (2 ^ 8) ^ length bs" by (simp only: power_add power_mult)
    finally show ?thesis by simp
  qed
  have lo: "0 \<le> SetBytes bs" "SetBytes bs < 256 ^ length bs" by (rule SetBytes_bounds)+
  have "128 \<le> uint c \<longleftrightarrow> 128 * 256 ^ length bs \<le> uint c * 256 ^ length bs + SetBytes bs"
  proof
    assume "128 \<le> uint c"
    then have "128 * 256 ^ length bs \<le> uint c * 256 ^ length bs" 
      by (intro mult_right_mono) simp_all
    then show "128 * 256 ^ length bs \<le> uint c * 256 ^ length bs + SetBytes bs" using lo by linarith
  next
    assume a: "128 * 256 ^ length bs \<le> uint c * 256 ^ length bs + SetBytes bs"
    show "128 \<le> uint c"
    proof (rule ccontr)
      assume "\<not> 128 \<le> uint c"
      then have "(uint c + 1) * 256 ^ length bs \<le> 128 * 256 ^ length bs" by (intro mult_right_mono) auto
      then have "uint c * 256 ^ length bs + 256 ^ length bs \<le> 128 * 256 ^ length bs" by (simp add: ring_distribs)
      then show False using a lo by linarith
    qed
  qed
  then show ?thesis unfolding pow by (simp add: b top_bit SetBytes_Cons)
qed


section \<open>Round trip\<close>

lemma FillBytes_fits: "\<bar>x\<bar> < 256 ^ n \<Longrightarrow> FillBytes n x = Inr (be_digits n \<bar>x\<bar>)"
  by (simp add: FillBytes_def)

lemma pow256: "(256 :: int) ^ n = 2 ^ (8 * n)"
  by (simp add: power_mult)

text \<open>What \<open>SerializeSigned\<close> returns: an error for values out of range, and otherwise the bytes whose
  unsigned value is the integer modulo \<open>2 ^ (8 * sz)\<close>.\<close>

lemma SerializeSigned_spec:
  assumes sz: "0 < sz" "sz \<le> 128"
  shows "if - (2 ^ nat (8 * sz - 1)) \<le> i \<and> i < 2 ^ nat (8 * sz - 1)
    then \<exists>b. SerializeSigned sz (Some i) = Inr (Inr b) \<and> int (length b) = sz \<and> SetBytes b = i mod 2 ^ nat (8 * sz)
    else SerializeSigned sz (Some i) = Inr (Inl DoesNotFit)"
proof -
  define n where "n = nat sz"
  have n: "sz = int n" "0 < n" using sz by (auto simp: n_def)
  have e: "nat (8 * sz - 1) = 8 * n - 1" "nat (8 * sz) = 8 * n" "nat sz = n" using n by auto
  have half: "(2 :: int) ^ (8 * n) = 2 * 2 ^ (8 * n - 1)" using n(2) by (simp flip: power_Suc)
  have bl: "sz * 8 \<le> int (BitLen x) \<longleftrightarrow> \<not> \<bar>x\<bar> < 2 ^ (8 * n - 1)" for x
    using BitLen_less [of "8 * n" x] n by auto
  have size_ok: "\<not> \<not> (0 < sz \<and> sz \<le> MaxSize)" using sz by (simp add: MaxSize_def)
  show ?thesis
  proof (cases "i < 0")
    case True
    have abs: "\<bar>i + 1\<bar> = - i - 1" using True by simp
    have fit: "\<bar>i + 1\<bar> < 2 ^ (8 * n - 1) \<longleftrightarrow> - (2 ^ (8 * n - 1)) \<le> i \<and> i < 2 ^ (8 * n - 1)"
      using True abs by (auto simp: less_le_trans)
    show ?thesis
    proof (cases "\<bar>i + 1\<bar> < 2 ^ (8 * n - 1)")
      case ok: True
      let ?b = "map (\<lambda>c. c XOR 0xff) (be_digits n \<bar>i + 1\<bar>)"
      have less: "\<bar>i + 1\<bar> < 256 ^ n" using ok half by (simp add: pow256)
      have ser: "SerializeSigned sz (Some i) = Inr (Inr ?b)"
        using True ok bl [of "i + 1"] size_ok FillBytes_fits [OF less] by (simp add: SerializeSigned_def Let_def e)
      have "SetBytes ?b = 256 ^ n - 1 - (- i - 1)"
        using less abs by (simp add: SetBytes_invert SetBytes_be_digits mod_pos_pos_trivial)
      also have "\<dots> = i mod 2 ^ (8 * n)"
      proof -
        have "(i + 2 ^ (8 * n)) mod 2 ^ (8 * n) = i + 2 ^ (8 * n)"
          using True less abs by (intro mod_pos_pos_trivial) (auto simp: pow256)
        then show ?thesis by (simp add: pow256)
      qed
      finally show ?thesis unfolding e using ser fit ok n(1) by simp
    next
      case False
      then show ?thesis using True fit bl [of "i + 1"] size_ok by (simp add: SerializeSigned_def Let_def e)
    qed
  next
    case False
    have "- (2 ^ (8 * n - 1)) \<le> (0 :: int)" by simp
    then have fit: "\<bar>i\<bar> < 2 ^ (8 * n - 1) \<longleftrightarrow> - (2 ^ (8 * n - 1)) \<le> i \<and> i < 2 ^ (8 * n - 1)"
      using False by linarith
    show ?thesis
    proof (cases "\<bar>i\<bar> < 2 ^ (8 * n - 1)")
      case ok: True
      have less: "\<bar>i\<bar> < 256 ^ n" using ok half by (simp add: pow256)
      have ser: "SerializeSigned sz (Some i) = Inr (Inr (be_digits n \<bar>i\<bar>))"
        using False ok bl [of i] size_ok FillBytes_fits [OF less] by (simp add: SerializeSigned_def Let_def e)
      then show ?thesis unfolding e using fit ok n(1) False by (simp add: SetBytes_be_digits pow256)
    next
      case no: False
      then show ?thesis using False fit bl [of i] size_ok by (simp add: SerializeSigned_def Let_def e)
    qed
  qed
qed

lemma DeserializeSigned_spec:
  assumes sz: "0 < sz" "sz \<le> 128" and b: "int (length b) = sz"
  shows "DeserializeSigned sz b =
    Inr (Inr (if 2 ^ nat (8 * sz - 1) \<le> SetBytes b then SetBytes b - 2 ^ nat (8 * sz) else SetBytes b))"
proof -
  have ne: "b \<noteq> []" and e: "nat (sz * 8) = nat (8 * sz)" "8 * length b - 1 = nat (8 * sz - 1)" using sz b by auto
  then have "go_index b 0 = Inr (b ! 0)" by simp
  then show ?thesis
    using sz b negative_iff [OF ne] unfolding e by (simp add: DeserializeSigned_def MaxSize_def Let_def e)
qed

lemma be_digits_SetBytes: "be_digits (length b) (SetBytes b) = b"
proof (induction b rule: rev_induct)
  case (snoc c b)
  have c: "0 \<le> uint c" "uint c < 256" using uint_bounded [of c] by simp_all
  then have "SetBytes (b @ [c]) div 256 = SetBytes b" "SetBytes (b @ [c]) mod 256 = uint c"
    by (simp_all add: SetBytes_append)
  then show ?case using snoc by simp
qed simp

lemma SetBytes_inj: "length b = length b' \<Longrightarrow> SetBytes b = SetBytes b' \<Longrightarrow> b = b'"
  by (metis be_digits_SetBytes)

text \<open>Encoding and decoding are inverse to each other.\<close>

lemma signed_value:
  assumes sz: "0 < sz" "sz \<le> 128" and b: "int (length b) = sz"
  obtains i where "DeserializeSigned sz b = Inr (Inr i)" "- (2 ^ nat (8 * sz - 1)) \<le> i" "i < 2 ^ nat (8 * sz - 1)"
    "SetBytes b = i mod 2 ^ nat (8 * sz)"
proof -
  let ?h = "2 ^ nat (8 * sz - 1) :: int"
  have w: "nat (8 * sz) = Suc (nat (8 * sz - 1))" using sz by simp
  have half: "2 ^ nat (8 * sz) = 2 * ?h" unfolding w by simp
  have "256 ^ length b = (2 :: int) ^ nat (8 * sz)"
  proof -
    have "8 * length b = nat (8 * sz)" using b by simp
    then show ?thesis by (simp only: pow256)
  qed
  then have v: "0 \<le> SetBytes b" "SetBytes b < 2 * ?h" using SetBytes_bounds [of b] half by simp_all
  define i where "i = (if ?h \<le> SetBytes b then SetBytes b - 2 * ?h else SetBytes b)"
  have "DeserializeSigned sz b = Inr (Inr i)"
    using DeserializeSigned_spec [OF assms] by (simp add: i_def half)
  moreover have "- ?h \<le> i" "i < ?h" using v by (auto simp: i_def)
  moreover have "SetBytes b = i mod (2 * ?h)"
  proof (cases "?h \<le> SetBytes b")
    case True
    have "i mod (2 * ?h) = (i + 2 * ?h) mod (2 * ?h)" by simp
    also have "\<dots> = SetBytes b" using True v by (simp add: i_def mod_pos_pos_trivial)
    finally show ?thesis by simp
  qed (use v in \<open>simp add: i_def mod_pos_pos_trivial\<close>)
  ultimately show ?thesis using that half by simp
qed

lemma signed_residue:
  assumes "- h \<le> i" "i < h" "- h \<le> j" "j < h" "i mod (2 * h) = j mod (2 * h)"
  shows "i = (j :: int)"
proof -
  have "2 * h dvd i - j" using assms(5) by (simp add: mod_eq_dvd_iff)
  moreover have "\<bar>i - j\<bar> < 2 * h" using assms by auto
  ultimately show ?thesis using dvd_imp_le_int [of "i - j" "2 * h"] by fastforce
qed

text \<open>A signed integer is encoded into \<open>sz\<close> bytes (1 to 128) exactly when it is in the range of a
  two's complement number of that width, otherwise an error is returned; no call panics; decoding the
  encoding returns the integer; and every byte string of the right length is the encoding of its
  decoding, so that the encoding is unique.\<close>

theorem signed_integers_roundtrip:
  assumes "0 < sz" "sz \<le> 128"
  shows "(if - (2 ^ nat (8 * sz - 1)) \<le> i \<and> i < 2 ^ nat (8 * sz - 1)
     then \<exists>b. SerializeSigned sz (Some i) = Inr (Inr b) \<and> DeserializeSigned sz b = Inr (Inr i)
     else SerializeSigned sz (Some i) = Inr (Inl DoesNotFit)) \<and>
    (int (length b) = sz \<longrightarrow> (\<exists>i. DeserializeSigned sz b = Inr (Inr i) \<and> SerializeSigned sz (Some i) = Inr (Inr b)))"
proof (intro conjI impI)
  let ?h = "2 ^ nat (8 * sz - 1) :: int"
  have "nat (8 * sz) = Suc (nat (8 * sz - 1))" using assms by simp
  then have half: "2 ^ nat (8 * sz) = 2 * ?h" by simp
  note spec = SerializeSigned_spec [OF assms]
  show "if - ?h \<le> i \<and> i < ?h
     then \<exists>b. SerializeSigned sz (Some i) = Inr (Inr b) \<and> DeserializeSigned sz b = Inr (Inr i)
     else SerializeSigned sz (Some i) = Inr (Inl DoesNotFit)"
  proof (cases "- ?h \<le> i \<and> i < ?h")
    case True
    then obtain b where b: "SerializeSigned sz (Some i) = Inr (Inr b)" "int (length b) = sz" "SetBytes b = i mod (2 * ?h)"
      using spec [of i] half by auto
    obtain j where "DeserializeSigned sz b = Inr (Inr j)" "- ?h \<le> j" "j < ?h" "SetBytes b = j mod (2 * ?h)"
      using signed_value [OF assms b(2)] half by metis
    then show ?thesis using True b signed_residue [of ?h i j] by auto
  qed (use spec [of i] in auto)
  assume len: "int (length b) = sz"
  obtain j where j: "DeserializeSigned sz b = Inr (Inr j)" "- ?h \<le> j" "j < ?h" "SetBytes b = j mod (2 * ?h)"
    using signed_value [OF assms len] half by metis
  then obtain b' where b': "SerializeSigned sz (Some j) = Inr (Inr b')" "int (length b') = sz" "SetBytes b' = j mod (2 * ?h)"
    using spec [of j] half by auto
  have "b' = b" using SetBytes_inj [of b' b] len b' j(4) by simp
  then show "\<exists>i. DeserializeSigned sz b = Inr (Inr i) \<and> SerializeSigned sz (Some i) = Inr (Inr b)"
    using j(1) b'(1) by blast
qed

theorem signed_integers_roundtrip_witness:
  "\<exists>b. SerializeSigned 24 (Some (- 5)) = Inr (Inr b) \<and> DeserializeSigned 24 b = Inr (Inr (- 5))"
  using signed_integers_roundtrip [of 24 "- 5" "[]"] by simp

end
