(* ===== verification/MedianCodec.thy ===== *)
theory MedianCodec
  imports Ocr2Types SliceSort BigBigEndian Complex_Main
begin

text \<open>
  Values, configurations and reports of the median plugin: \<open>median/value.go\<close>, the codecs and the
  deviation test of \<open>median/median.go\<close>, and \<open>median/evmreportcodec/reportcodec.go\<close>. A \<open>*big.Int\<close> is
  an \<open>int option\<close>. Protobuf and the ABI packing of go-ethereum are parameters.
\<close>

section \<open>Values (value.go)\<close>

definition byteWidth :: int where "byteWidth = 24"

definition bitWidth :: int where "bitWidth = byteWidth * 8"

definition MinValue :: int where
  "MinValue = (let result = 1 * 2 ^ nat (bitWidth - 1) in - result)"

definition MaxValue :: int where
  "MaxValue = (let result = \<bar>MinValue\<bar> in result - 1)"

definition EncodeValue :: "int option \<Rightarrow> (bbe_error + bytes) go" where
  "EncodeValue i = SerializeSigned byteWidth i"

definition DecodeValue :: "bytes \<Rightarrow> (bbe_error + int) go" where
  "DecodeValue s = DeserializeSigned byteWidth s"

definition value_ok :: "int \<Rightarrow> bool" where
  "value_ok i \<longleftrightarrow> MinValue \<le> i \<and> i \<le> MaxValue"

lemma value_ok_iff: "value_ok i \<longleftrightarrow> - (2 ^ nat (8 * 24 - 1)) \<le> i \<and> i < 2 ^ nat (8 * 24 - 1)"
  by (auto simp: value_ok_def MinValue_def MaxValue_def bitWidth_def byteWidth_def)

lemma EncodeValue_ok:
  assumes "value_ok i"
  obtains b where "EncodeValue (Some i) = Inr (Inr b)" "length b = 24" "DecodeValue b = Inr (Inr i)"
proof -
  have sz: "(0 :: int) < 24" "(24 :: int) \<le> 128" by simp_all
  obtain b where b: "EncodeValue (Some i) = Inr (Inr b)" "int (length b) = 24" "SetBytes b = i mod 2 ^ nat (8 * 24)"
    using SerializeSigned_spec [OF sz, of i] assms by (auto simp: value_ok_iff EncodeValue_def byteWidth_def)
  obtain j where j: "DecodeValue b = Inr (Inr j)" "value_ok j" "SetBytes b = j mod 2 ^ nat (8 * 24)"
    using signed_value [OF sz b(2)] by (auto simp: value_ok_iff DecodeValue_def byteWidth_def)
  have "(2 :: int) ^ nat (8 * 24) = 2 * 2 ^ nat (8 * 24 - 1)" by simp
  then have "i = j"
    using assms j b(3) signed_residue [of "2 ^ nat (8 * 24 - 1)" i j] by (simp add: value_ok_iff)
  then show ?thesis using that b(1,2) j(1) by simp
qed

lemma DecodeValue_ok: "DecodeValue b = Inr (Inr i) \<Longrightarrow> value_ok i"
proof -
  assume d: "DecodeValue b = Inr (Inr i)"
  then have "int (length b) = 24"
    by (auto simp: DecodeValue_def DeserializeSigned_def byteWidth_def split: if_splits)
  then show "value_ok i"
    using signed_value [of 24 b] d by (auto simp: value_ok_iff DecodeValue_def byteWidth_def)
qed

lemma DecodeValue_total: "\<exists>r. DecodeValue b = Inr r"
proof (cases "int (length b) = 24")
  case True
  then show ?thesis using signed_value [of 24 b] by (auto simp: DecodeValue_def byteWidth_def)
qed (simp add: DecodeValue_def DeserializeSigned_def byteWidth_def MaxSize_def)

lemma EncodeValue_total: "\<exists>r. EncodeValue io = Inr r"
proof (cases io)
  case (Some i)
  then show ?thesis
    using SerializeSigned_spec [of 24 i] by (auto simp: EncodeValue_def byteWidth_def split: if_splits)
qed (simp add: EncodeValue_def SerializeSigned_def)

lemma EncodeValue_length: "EncodeValue io = Inr (Inr b) \<Longrightarrow> length b = 24"
  using SerializeSigned_spec [of 24 "the io"]
  by (cases io) (auto simp: EncodeValue_def byteWidth_def SerializeSigned_def split: if_splits)

section \<open>On-chain configuration\<close>

definition onchainConfigVersion :: u8 where "onchainConfigVersion = 1"

definition onchainConfigEncodedLength :: nat where
  "onchainConfigEncodedLength = 1 + nat byteWidth + nat byteWidth"

record OnchainConfig =
  oc_Min :: "int option"
  oc_Max :: "int option"

datatype median_error =
    BadOnchainConfigLength
  | BadOnchainConfigVersion
  | BadValue bbe_error
  | MinGreaterThanMax
  | ConfigUnmarshalError
  | NegativeDeltaC
  | NonEmptyQuery
  | DataSourceErrors "median_error list"
  | ObserveError
  | ObserveNil
  | MarshalError
  | ObservationUnmarshalError
  | NotEnoughObservations
  | NoObservations
  | ContractErrors
  | NilLatestAnswer
  | CodecError
  | ReportTooLong

text \<open>\<open>if err != nil { return ..., err }\<close> after a call that may also panic.\<close>

definition bindE :: "('e + 'a) go \<Rightarrow> ('e \<Rightarrow> 'f) \<Rightarrow> ('a \<Rightarrow> ('f + 'b) go) \<Rightarrow> ('f + 'b) go" where
  "bindE m h f = bindG m (\<lambda>r. case r of Inl e \<Rightarrow> Inr (Inl (h e)) | Inr x \<Rightarrow> f x)"

lemma bindE_simps [simp, go_simps]:
  "bindE (Inl p) h f = Inl p" "bindE (Inr (Inl e)) h f = Inr (Inl (h e))" "bindE (Inr (Inr x)) h f = f x"
  by (simp_all add: bindE_def)

lemma bindE_eq_ok: "bindE m h f = Inr (Inr y) \<longleftrightarrow> (\<exists>x. m = Inr (Inr x) \<and> f x = Inr (Inr y))"
  by (cases m) (auto simp: bindE_def split: sum.splits)

lemma bindE_total: "(\<exists>r. m = Inr r) \<Longrightarrow> (\<And>x. m = Inr (Inr x) \<Longrightarrow> \<exists>r. f x = Inr r) \<Longrightarrow> \<exists>r. bindE m h f = Inr r"
  by (auto simp: bindE_def split: sum.splits)

definition StandardOnchainConfigCodec_Decode :: "bytes \<Rightarrow> (median_error + OnchainConfig) go" where
  "StandardOnchainConfigCodec_Decode b =
     (if length b \<noteq> onchainConfigEncodedLength then Inr (Inl BadOnchainConfigLength)
      else
        bindG (go_index b 0) (\<lambda>b0.
        if b0 \<noteq> onchainConfigVersion then Inr (Inl BadOnchainConfigVersion)
        else
          bindE (DecodeValue (take (nat byteWidth) (drop 1 b))) BadValue (\<lambda>mn.
          bindE (DecodeValue (drop (1 + nat byteWidth) b)) BadValue (\<lambda>mx.
          if \<not> mn \<le> mx then Inr (Inl MinGreaterThanMax)
          else Inr (Inr \<lparr>oc_Min = Some mn, oc_Max = Some mx\<rparr>)))))"

definition StandardOnchainConfigCodec_Encode :: "OnchainConfig \<Rightarrow> (median_error + bytes) go" where
  "StandardOnchainConfigCodec_Encode c =
     bindE (EncodeValue (oc_Min c)) BadValue (\<lambda>minBytes.
     bindE (EncodeValue (oc_Max c)) BadValue (\<lambda>maxBytes.
       Inr (Inr ([] @ [onchainConfigVersion] @ minBytes @ maxBytes))))"

text \<open>A configuration that the decoder accepts.\<close>

definition onchain_ok :: "OnchainConfig \<Rightarrow> bool" where
  "onchain_ok c \<longleftrightarrow> (\<exists>mn mx. c = \<lparr>oc_Min = Some mn, oc_Max = Some mx\<rparr> \<and> value_ok mn \<and> value_ok mx \<and> mn \<le> mx)"

lemma Decode_onchain_ok: "StandardOnchainConfigCodec_Decode b = Inr (Inr c) \<Longrightarrow> onchain_ok c"
  by (auto simp: StandardOnchainConfigCodec_Decode_def onchain_ok_def bindG_eq_Inr_iff bindE_eq_ok
      dest: DecodeValue_ok split: if_splits)

lemma Decode_total: "\<exists>r. StandardOnchainConfigCodec_Decode b = Inr r"
proof -
  have "\<exists>r. bindE (DecodeValue x) BadValue (\<lambda>mn. bindE (DecodeValue y) BadValue (\<lambda>mx.
          if \<not> mn \<le> mx then Inr (Inl MinGreaterThanMax)
          else Inr (Inr \<lparr>oc_Min = Some mn, oc_Max = Some mx\<rparr>))) = Inr r" for x y
    by (intro bindE_total DecodeValue_total) simp
  then show ?thesis
    by (auto simp: StandardOnchainConfigCodec_Decode_def onchainConfigEncodedLength_def byteWidth_def)
qed

lemma onchain_config_inverse:
  assumes "onchain_ok c"
  shows "\<exists>b. StandardOnchainConfigCodec_Encode c = Inr (Inr b) \<and> StandardOnchainConfigCodec_Decode b = Inr (Inr c)"
proof -
  obtain mn mx where c: "c = \<lparr>oc_Min = Some mn, oc_Max = Some mx\<rparr>" "value_ok mn" "value_ok mx" "mn \<le> mx"
    using assms by (auto simp: onchain_ok_def)
  obtain b1 where b1: "EncodeValue (Some mn) = Inr (Inr b1)" "length b1 = 24" "DecodeValue b1 = Inr (Inr mn)"
    using EncodeValue_ok [OF c(2)] .
  obtain b2 where b2: "EncodeValue (Some mx) = Inr (Inr b2)" "length b2 = 24" "DecodeValue b2 = Inr (Inr mx)"
    using EncodeValue_ok [OF c(3)] .
  show ?thesis
    using c b1 b2 by (simp add: StandardOnchainConfigCodec_Encode_def StandardOnchainConfigCodec_Decode_def
        onchainConfigEncodedLength_def byteWidth_def)
qed

section \<open>Off-chain configuration\<close>

record NumericalMedianConfigProto =
  mcp_AlphaReportInfinite :: bool
  mcp_AlphaReportPpb :: u64
  mcp_AlphaAcceptInfinite :: bool
  mcp_AlphaAcceptPpb :: u64
  mcp_DeltaCNanoseconds :: u64

text \<open>A \<open>time.Duration\<close> is an \<open>int64\<close>: its value is \<open>sint\<close> of the word.\<close>

record MedianOffchainConfig =
  mo_AlphaReportInfinite :: bool
  mo_AlphaReportPPB :: u64
  mo_AlphaAcceptInfinite :: bool
  mo_AlphaAcceptPPB :: u64
  mo_DeltaC :: u64

definition DecodeOffchainConfig ::
  "(bytes \<Rightarrow> NumericalMedianConfigProto option) \<Rightarrow> bytes \<Rightarrow> median_error + MedianOffchainConfig" where
  "DecodeOffchainConfig Unmarshal b =
     (case Unmarshal b of
        None \<Rightarrow> Inl ConfigUnmarshalError
      | Some configProto \<Rightarrow>
          let deltaC = mcp_DeltaCNanoseconds configProto in
          if \<not> 0 \<le> sint deltaC then Inl NegativeDeltaC
          else Inr
            \<lparr>mo_AlphaReportInfinite = mcp_AlphaReportInfinite configProto,
             mo_AlphaReportPPB = mcp_AlphaReportPpb configProto,
             mo_AlphaAcceptInfinite = mcp_AlphaAcceptInfinite configProto,
             mo_AlphaAcceptPPB = mcp_AlphaAcceptPpb configProto,
             mo_DeltaC = mcp_DeltaCNanoseconds configProto\<rparr>)"

definition OffchainConfig_Encode ::
  "(NumericalMedianConfigProto \<Rightarrow> bytes option) \<Rightarrow> MedianOffchainConfig \<Rightarrow> bytes go" where
  "OffchainConfig_Encode Marshal c =
     (case Marshal
        \<lparr>mcp_AlphaReportInfinite = mo_AlphaReportInfinite c,
         mcp_AlphaReportPpb = mo_AlphaReportPPB c,
         mcp_AlphaAcceptInfinite = mo_AlphaAcceptInfinite c,
         mcp_AlphaAcceptPpb = mo_AlphaAcceptPPB c,
         mcp_DeltaCNanoseconds = mo_DeltaC c\<rparr> of
        None \<Rightarrow> Inl ExplicitPanic
      | Some result \<Rightarrow> Inr result)"

lemma DecodeOffchainConfig_DeltaC:
  "DecodeOffchainConfig U b = Inr c \<Longrightarrow> 0 \<le> sint (mo_DeltaC c)"
  by (auto simp: DecodeOffchainConfig_def Let_def split: option.splits if_splits)

section \<open>Deviation\<close>

text \<open>\<open>big.Rat\<close> is exact. Comparing or subtracting a nil \<open>big.Int\<close> dereferences it.\<close>

definition Deviates :: "u64 \<Rightarrow> int option \<Rightarrow> int option \<Rightarrow> bool go" where
  "Deviates thresholdPPB old new =
     bindG (go_deref old) (\<lambda>old.
     bindG (go_deref new) (\<lambda>new.
       if old = 0 then
         if new = 0 then Inr False else Inr True
       else
         let change = \<bar>(of_int (new - old) / of_int old :: rat)\<bar>;
             threshold = of_int (uint thresholdPPB) / of_int 1000000000
         in Inr (change \<ge> threshold)))"

text \<open>The same test in integer arithmetic.\<close>

lemma Deviates_iff:
  "Deviates thr (Some old) (Some new) =
     Inr (if old = 0 then new \<noteq> 0 else uint thr * \<bar>old\<bar> \<le> \<bar>new - old\<bar> * 1000000000)"
proof (cases "old = 0")
  case False
  have "\<bar>(of_int (new - old) / of_int old :: rat)\<bar> = of_int \<bar>new - old\<bar> / of_int \<bar>old\<bar>"
    by (simp add: abs_divide)
  moreover have "of_int (uint thr) / (of_int 1000000000 :: rat) \<le> of_int \<bar>new - old\<bar> / of_int \<bar>old\<bar> \<longleftrightarrow>
      uint thr * \<bar>old\<bar> \<le> \<bar>new - old\<bar> * 1000000000"
  proof -
    have "(0 :: rat) < of_int \<bar>old\<bar>" "(0 :: rat) < of_int 1000000000" using False by simp_all
    then have "of_int (uint thr) / (of_int 1000000000 :: rat) \<le> of_int \<bar>new - old\<bar> / of_int \<bar>old\<bar> \<longleftrightarrow>
        (of_int (uint thr) * of_int \<bar>old\<bar> :: rat) \<le> of_int \<bar>new - old\<bar> * of_int 1000000000"
      by (simp add: divide_le_eq le_divide_eq mult.commute)
    also have "\<dots> \<longleftrightarrow> uint thr * \<bar>old\<bar> \<le> \<bar>new - old\<bar> * 1000000000"
      unfolding of_int_mult [symmetric] of_int_le_iff by simp
    finally show ?thesis .
  qed
  ultimately show ?thesis using False by (simp add: Deviates_def Let_def)
qed (simp add: Deviates_def)

section \<open>Parsed observations\<close>

record NumericalMedianObservationProto =
  mop_Timestamp :: u32
  mop_Value :: bytes
  mop_JuelsPerFeeCoin :: bytes

record ParsedAttributedObservation =
  pao_Timestamp :: u32
  pao_Value :: int
  pao_JuelsPerFeeCoin :: int
  pao_Observer :: OracleID

definition parseAttributedObservation ::
  "(bytes \<Rightarrow> NumericalMedianObservationProto option) \<Rightarrow> AttributedObservation \<Rightarrow> (median_error + ParsedAttributedObservation) go" where
  "parseAttributedObservation Unmarshal ao =
     (case Unmarshal (ao_Observation ao) of
        None \<Rightarrow> Inr (Inl ObservationUnmarshalError)
      | Some observationProto \<Rightarrow>
          bindE (DecodeValue (mop_Value observationProto)) BadValue (\<lambda>value.
          bindE (DecodeValue (mop_JuelsPerFeeCoin observationProto)) BadValue (\<lambda>juelsPerFeeCoin.
            Inr (Inr \<lparr>pao_Timestamp = mop_Timestamp observationProto, pao_Value = value,
                      pao_JuelsPerFeeCoin = juelsPerFeeCoin, pao_Observer = ao_Observer ao\<rparr>))))"

fun parseAttributedObservations ::
  "(bytes \<Rightarrow> NumericalMedianObservationProto option) \<Rightarrow> AttributedObservation list \<Rightarrow> ParsedAttributedObservation list go" where
  "parseAttributedObservations Unmarshal [] = Inr []"
| "parseAttributedObservations Unmarshal (ao # aos) =
     bindG (parseAttributedObservation Unmarshal ao) (\<lambda>r.
     bindG (parseAttributedObservations Unmarshal aos) (\<lambda>paos.
       Inr (case r of Inl e \<Rightarrow> paos | Inr pao \<Rightarrow> pao # paos)))"

text \<open>The value of parsing without its panic-or-value wrapping: parsing never panics, and it keeps
  exactly the valid observations, in order.\<close>

definition parsed :: "(bytes \<Rightarrow> NumericalMedianObservationProto option) \<Rightarrow> AttributedObservation \<Rightarrow> ParsedAttributedObservation option" where
  "parsed U ao = (case parseAttributedObservation U ao of Inr (Inr pao) \<Rightarrow> Some pao | _ \<Rightarrow> None)"

lemma parse_total: "\<exists>r. parseAttributedObservation U ao = Inr r"
  unfolding parseAttributedObservation_def
  by (cases "U (ao_Observation ao)") (simp_all, intro bindE_total DecodeValue_total, simp)

lemma parse_all: "parseAttributedObservations U aos = Inr (List.map_filter (parsed U) aos)"
proof (induction aos)
  case (Cons ao aos)
  obtain r where "parseAttributedObservation U ao = Inr r"
    using parse_total by blast
  then show ?case
    using Cons by (simp add: parsed_def map_filter_simps split: sum.split)
qed (simp add: map_filter_simps)

lemma parsed_observer: "parsed U ao = Some pao \<Longrightarrow> pao_Observer pao = ao_Observer ao"
  by (auto simp: parsed_def parseAttributedObservation_def bindE_eq_ok split: option.splits sum.splits)

lemma parsed_values: "parsed U ao = Some pao \<Longrightarrow> value_ok (pao_Value pao) \<and> value_ok (pao_JuelsPerFeeCoin pao)"
  by (auto simp: parsed_def parseAttributedObservation_def bindE_eq_ok dest: DecodeValue_ok split: option.splits sum.splits)

end
