(* ===== verification/EvmReportCodec.thy ===== *)
theory EvmReportCodec
  imports MedianCodec
begin

text \<open>
  \<open>median/evmreportcodec/reportcodec.go\<close>: the report format of EVM chains. \<open>Pack\<close> and
  \<open>UnpackIntoMap\<close> of go-ethereum's \<open>abi.Arguments\<close>, applied to the four argument types that
  \<open>getReportTypes\<close> declares, are parameters.
\<close>

datatype abi_value = AbiUint32 u32 | AbiBytes32 bytes | AbiBigInts "int option list" | AbiBigInt "int option"

record evm_abi =
  abi_Pack :: "u32 \<Rightarrow> bytes \<Rightarrow> int list \<Rightarrow> int \<Rightarrow> bytes option"
  abi_UnpackIntoMap :: "bytes \<Rightarrow> (string \<Rightarrow> abi_value option) option"

datatype codec_error =
    EmptyAttributedObservations
  | PackError
  | UnpackError
  | MissingObservations
  | CannotCastObservations
  | ObservationsEmpty
  | MedianIsNil
  | MissingJuelsPerFeeCoin
  | CannotCastJuelsPerFeeCoin

type_synonym pao_sorter =
  "(ParsedAttributedObservation \<Rightarrow> ParsedAttributedObservation \<Rightarrow> bool) \<Rightarrow>
   ParsedAttributedObservation list \<Rightarrow> ParsedAttributedObservation list"

section \<open>Code\<close>

text \<open>The loop that fills \<open>observers\<close>, an array of 32 bytes, and \<open>observations\<close>.\<close>

fun fill_observers ::
  "nat \<Rightarrow> ParsedAttributedObservation list \<Rightarrow> bytes \<Rightarrow> int list \<Rightarrow> (bytes \<times> int list) go" where
  "fill_observers i [] observers observations = Inr (observers, observations)"
| "fill_observers i (pao # paos) observers observations =
     (if i < length observers
      then fill_observers (Suc i) paos (observers[i := pao_Observer pao]) (observations @ [pao_Value pao])
      else Inl IndexOutOfRange)"

definition BuildReport :: "pao_sorter \<Rightarrow> evm_abi \<Rightarrow> ParsedAttributedObservation list \<Rightarrow> (codec_error + bytes) go" where
  "BuildReport sortSlice abi paos =
     (if length paos = 0 then Inr (Inl EmptyAttributedObservations)
      else
        let paos = sortSlice (\<lambda>x y. pao_Timestamp x < pao_Timestamp y) paos
        in bindG (go_index paos (length paos div 2)) (\<lambda>mid.
        let timestamp = pao_Timestamp mid;
            paos = sortSlice (\<lambda>x y. pao_JuelsPerFeeCoin x < pao_JuelsPerFeeCoin y) paos
        in bindG (go_index paos (length paos div 2)) (\<lambda>mid.
        let juelsPerFeeCoin = pao_JuelsPerFeeCoin mid;
            paos = sortSlice (\<lambda>x y. pao_Value x < pao_Value y) paos
        in bindG (fill_observers 0 paos (replicate 32 0) []) (\<lambda>(observers, observations).
           case abi_Pack abi timestamp observers observations juelsPerFeeCoin of
             None \<Rightarrow> Inr (Inl PackError)
           | Some reportBytes \<Rightarrow> Inr (Inr reportBytes)))))"

definition MedianFromReport :: "evm_abi \<Rightarrow> bytes \<Rightarrow> (codec_error + int option) go" where
  "MedianFromReport abi report =
     (case abi_UnpackIntoMap abi report of
        None \<Rightarrow> Inr (Inl UnpackError)
      | Some reportElems \<Rightarrow>
          (case reportElems ''observations'' of
             None \<Rightarrow> Inr (Inl MissingObservations)
           | Some (AbiBigInts observations) \<Rightarrow>
               if length observations = 0 then Inr (Inl ObservationsEmpty)
               else
                 bindG (go_index observations (length observations div 2)) (\<lambda>median.
                   if median = None then Inr (Inl MedianIsNil) else Inr (Inr median))
           | Some _ \<Rightarrow> Inr (Inl CannotCastObservations)))"

definition MaxReportLength :: "int \<Rightarrow> codec_error + int" where
  "MaxReportLength n = Inr (32 + 32 + (2 * 32 + n * 32) + 32)"

definition XXXJuelsPerFeeCoinFromReport :: "evm_abi \<Rightarrow> bytes \<Rightarrow> codec_error + int option" where
  "XXXJuelsPerFeeCoinFromReport abi report =
     (case abi_UnpackIntoMap abi report of
        None \<Rightarrow> Inl UnpackError
      | Some reportElems \<Rightarrow>
          (case reportElems ''juelsPerFeeCoin'' of
             None \<Rightarrow> Inl MissingJuelsPerFeeCoin
           | Some (AbiBigInt juelsPerFeeCoin) \<Rightarrow> Inr juelsPerFeeCoin
           | Some _ \<Rightarrow> Inl CannotCastJuelsPerFeeCoin))"

section \<open>What is relied on of the ABI encoding\<close>

text \<open>
  Unpacking what was packed returns it, and the packed arguments take one 32-byte word for each
  of the four arguments (the third one an offset), one for the length of the array and one for
  each of its elements.
\<close>

definition abi_ok :: "evm_abi \<Rightarrow> bool" where
  "abi_ok abi \<longleftrightarrow> (\<forall>ts os xs j b. abi_Pack abi ts os xs j = Some b \<longrightarrow>
     (\<exists>m. abi_UnpackIntoMap abi b = Some m \<and> m ''observations'' = Some (AbiBigInts (map Some xs)) \<and>
       m ''juelsPerFeeCoin'' = Some (AbiBigInt (Some j))) \<and>
     length b = 4 * 32 + 32 + 32 * length xs)"

section \<open>Properties\<close>

lemma fill_observers_eq:
  "i + length paos \<le> length os \<Longrightarrow>
   fill_observers i paos os xs = Inr (take i os @ map pao_Observer paos @ drop (i + length paos) os, xs @ map pao_Value paos)"
proof (induction i paos os xs rule: fill_observers.induct)
  case (2 i pao paos os xs)
  then have "take (Suc i) (os[i := pao_Observer pao]) = take i os @ [pao_Observer pao]"
    by (simp add: take_Suc_conv_app_nth)
  then show ?case using 2 by simp
qed simp

lemma fill_observers_panics: "length os < i + length paos \<Longrightarrow> i \<le> length os \<Longrightarrow> fill_observers i paos os xs = Inl IndexOutOfRange"
proof (induction i paos os xs rule: fill_observers.induct)
  case (2 i pao paos os xs)
  then show ?case by (cases "i < length os") auto
qed simp

lemma word_less_key: "(\<lambda>x y. pao_Timestamp x < pao_Timestamp y) = (\<lambda>x y. uint (pao_Timestamp x) < uint (pao_Timestamp y))"
  by (simp add: word_less_def fun_eq_iff)

text \<open>What \<open>BuildReport\<close> packs is the same for every correct sorting routine: the values in order and
  the middle of the sorted fees. It panics exactly when there are more than 32 observations.\<close>

lemma BuildReport_packs:
  assumes srt: "slice_sort srt" and "paos \<noteq> []" "length paos \<le> 32"
  shows "\<exists>ts os. BuildReport srt abi paos =
    Inr (case abi_Pack abi ts os (sort (map pao_Value paos)) (sort (map pao_JuelsPerFeeCoin paos) ! (length paos div 2)) of
      None \<Rightarrow> Inl PackError | Some b \<Rightarrow> Inr b)"
proof -
  note [simp] = slice_sort.srt_length [OF srt] slice_sort.sort_map_srt [OF srt] slice_sort.srt_Nil_iff [OF srt]
  let ?p1 = "srt (\<lambda>x y. pao_Timestamp x < pao_Timestamp y) paos"
  let ?p2 = "srt (\<lambda>x y. pao_JuelsPerFeeCoin x < pao_JuelsPerFeeCoin y) ?p1"
  let ?p3 = "srt (\<lambda>x y. pao_Value x < pao_Value y) ?p2"
  have "pao_JuelsPerFeeCoin (?p2 ! (length paos div 2)) = sort (map pao_JuelsPerFeeCoin paos) ! (length paos div 2)"
    using slice_sort.median_key [OF srt, of ?p1 pao_JuelsPerFeeCoin] assms(2) by simp
  moreover have "map pao_Value ?p3 = sort (map pao_Value paos)"
    using slice_sort.keys_sorted [OF srt, of pao_Value ?p2] by simp
  moreover have "fill_observers 0 ?p3 (replicate 32 0) [] =
      Inr (map pao_Observer ?p3 @ drop (length paos) (replicate 32 0), map pao_Value ?p3)"
    using assms(3) by (subst fill_observers_eq) simp_all
  moreover have "length paos div 2 < length paos" using assms(2) by (cases paos) auto
  ultimately show ?thesis
    using assms(2) by (auto simp: BuildReport_def Let_def intro!: exI split: option.split)
qed

lemma BuildReport_too_many:
  assumes srt: "slice_sort srt" and "32 < length paos"
  shows "BuildReport srt abi paos = Inl IndexOutOfRange"
proof -
  note [simp] = slice_sort.srt_length [OF srt]
  have "length paos div 2 < length paos" "paos \<noteq> []" using assms(2) by auto
  then show ?thesis using assms(2) by (simp add: BuildReport_def Let_def fill_observers_panics)
qed

end
