(* ===== verification/Median.thy ===== *)
theory Median
  imports EvmReportCodec
begin

text \<open>
  The numerical median plugin (\<open>median/median.go\<close>): observing, deciding on and building a report,
  accepting and transmitting reports. The contract, the data sources, the clock, protobuf and the
  report codec answer through an environment, which may answer each call differently.
\<close>

section \<open>State and environment\<close>

record ContractDetails =
  cd_configDigest :: bytes
  cd_epoch :: u32
  cd_round :: u8
  cd_latestAnswer :: "int option"
  cd_latestTimestamp :: int

record RoundRequested =
  rr_configDigest :: bytes
  rr_epoch :: u32
  rr_round :: u8

record ReportCodec =
  rc_BuildReport :: "ParsedAttributedObservation list \<Rightarrow> (codec_error + bytes) go"
  rc_MedianFromReport :: "bytes \<Rightarrow> (codec_error + int option) go"
  rc_MaxReportLength :: "int \<Rightarrow> codec_error + int"

definition EvmCodec :: "pao_sorter \<Rightarrow> evm_abi \<Rightarrow> ReportCodec" where
  "EvmCodec sortSlice abi =
     \<lparr>rc_BuildReport = BuildReport sortSlice abi, rc_MedianFromReport = MedianFromReport abi,
      rc_MaxReportLength = MaxReportLength\<rparr>"

text \<open>What the plugin calls: the contract and the data sources answer \<open>None\<close> for an error; times are
  nanoseconds of the Unix clock.\<close>

record median_env =
  me_codec :: ReportCodec
  me_sortSlice :: pao_sorter
  me_MarshalObs :: "NumericalMedianObservationProto \<Rightarrow> bytes option"
  me_UnmarshalObs :: "bytes \<Rightarrow> NumericalMedianObservationProto option"
  me_LatestTransmissionDetails :: "ContractDetails option"
  me_LatestRoundRequested :: "u64 \<Rightarrow> RoundRequested option"
  me_DataSource :: "ReportTimestamp \<Rightarrow> int option option"
  me_JuelsPerFeeCoinDataSource :: "ReportTimestamp \<Rightarrow> int option option"
  me_now :: int

record numericalMedian =
  nm_offchainConfig :: MedianOffchainConfig
  nm_onchainConfig :: OnchainConfig
  nm_configDigest :: bytes
  nm_f :: int
  nm_latestAcceptedEpochRound :: EpochRound
  nm_latestAcceptedMedian :: "int option"
  nm_maxReportLength :: int

record ReportingPluginConfig =
  rpc_ConfigDigest :: bytes
  rpc_OracleID :: OracleID
  rpc_N :: int
  rpc_F :: int
  rpc_OnchainConfig :: bytes
  rpc_OffchainConfig :: bytes

record ReportingPluginInfo =
  rpi_Name :: string
  rpi_UniqueReports :: bool
  rpi_MaxQueryLength :: int
  rpi_MaxObservationLength :: int
  rpi_MaxReportLength :: int

section \<open>Code\<close>

definition maxObservationLength :: int where
  "maxObservationLength = 4 + byteWidth + byteWidth + 16"

definition NewReportingPlugin ::
  "(bytes \<Rightarrow> NumericalMedianConfigProto option) \<Rightarrow> (bytes \<Rightarrow> (median_error + OnchainConfig) go) \<Rightarrow> ReportCodec \<Rightarrow>
   ReportingPluginConfig \<Rightarrow> (median_error + numericalMedian \<times> ReportingPluginInfo) go" where
  "NewReportingPlugin Unmarshal OnchainDecode codec configuration =
     bindE (Inr (DecodeOffchainConfig Unmarshal (rpc_OffchainConfig configuration))) id (\<lambda>offchainConfig.
     bindE (OnchainDecode (rpc_OnchainConfig configuration)) id (\<lambda>onchainConfig.
     bindE (Inr (rc_MaxReportLength codec (rpc_N configuration))) (\<lambda>_. CodecError) (\<lambda>maxReportLength.
       Inr (Inr
         (\<lparr>nm_offchainConfig = offchainConfig, nm_onchainConfig = onchainConfig,
           nm_configDigest = rpc_ConfigDigest configuration, nm_f = rpc_F configuration,
           nm_latestAcceptedEpochRound = zero_EpochRound, nm_latestAcceptedMedian = Some 0,
           nm_maxReportLength = maxReportLength\<rparr>,
          \<lparr>rpi_Name = ''NumericalMedian'', rpi_UniqueReports = False, rpi_MaxQueryLength = 0,
           rpi_MaxObservationLength = maxObservationLength, rpi_MaxReportLength = maxReportLength\<rparr>)))))"

definition Query :: "bytes" where "Query = []"

text \<open>The function literal \<open>observe\<close>; the two calls run in their own goroutines and write their own
  variables.\<close>

definition observe :: "int option option \<Rightarrow> (median_error + bytes) go" where
  "observe answer =
     (case answer of
        None \<Rightarrow> Inr (Inl ObserveError)
      | Some None \<Rightarrow> Inr (Inl ObserveNil)
      | Some (Some value) \<Rightarrow> bindE (EncodeValue (Some value)) BadValue (\<lambda>encoded. Inr (Inr encoded)))"

definition Observation :: "median_env \<Rightarrow> ReportTimestamp \<Rightarrow> bytes \<Rightarrow> (median_error + bytes) go" where
  "Observation env repts query =
     (if length query \<noteq> 0 then Inr (Inl NonEmptyQuery)
      else
        bindG (observe (me_DataSource env repts)) (\<lambda>r1.
        bindG (observe (me_JuelsPerFeeCoinDataSource env repts)) (\<lambda>r2.
          case (r1, r2) of
            (Inl e1, Inl e2) \<Rightarrow> Inr (Inl (DataSourceErrors [e1, e2]))
          | (Inl e1, Inr _) \<Rightarrow> Inr (Inl (DataSourceErrors [e1]))
          | (Inr _, Inl e2) \<Rightarrow> Inr (Inl (DataSourceErrors [e2]))
          | (Inr value, Inr juelsPerFeeCoin) \<Rightarrow>
              (case me_MarshalObs env
                 \<lparr>mop_Timestamp = word_of_int (me_now env div 1000000000), mop_Value = value,
                  mop_JuelsPerFeeCoin = juelsPerFeeCoin\<rparr> of
                 None \<Rightarrow> Inr (Inl MarshalError)
               | Some b \<Rightarrow> Inr (Inr b)))))"

text \<open>The decision of \<open>shouldReport\<close> once the contract has answered and the answer is known.\<close>

definition reportReasons ::
  "median_env \<Rightarrow> numericalMedian \<Rightarrow> ReportTimestamp \<Rightarrow> ContractDetails \<Rightarrow> RoundRequested \<Rightarrow> int \<Rightarrow> bool go" where
  "reportReasons env nm repts details requested answer =
     (let initialRound =
            cd_configDigest details = rts_ConfigDigest repts \<and> cd_epoch details = 0 \<and> cd_round details = 0
      in bindG (if mo_AlphaReportInfinite (nm_offchainConfig nm) then Inr False
                else Deviates (mo_AlphaReportPPB (nm_offchainConfig nm)) (cd_latestAnswer details) (Some answer)) (\<lambda>deviation.
         let deltaCTimeout = cd_latestTimestamp details + sint (mo_DeltaC (nm_offchainConfig nm)) < me_now env;
             unfulfilledRequest =
               rr_configDigest requested = rts_ConfigDigest repts \<and>
               \<not> EpochRound_Less \<lparr>er_Epoch = rr_epoch requested, er_Round = rr_round requested\<rparr>
                   \<lparr>er_Epoch = cd_epoch details, er_Round = cd_round details\<rparr>
         in Inr (if initialRound then True else if deviation then True else if deltaCTimeout then True
                 else if unfulfilledRequest then True else False)))"

text \<open>\<open>shouldReport\<close> sorts the caller's slice in place: the sorted slice is returned with the decision.\<close>

definition shouldReport ::
  "median_env \<Rightarrow> numericalMedian \<Rightarrow> ReportTimestamp \<Rightarrow> ParsedAttributedObservation list \<Rightarrow>
   (median_error + bool \<times> ParsedAttributedObservation list) go" where
  "shouldReport env nm repts paos =
     (if length paos = 0 then Inr (Inl NoObservations)
      else
        case (me_LatestTransmissionDetails env, me_LatestRoundRequested env (mo_DeltaC (nm_offchainConfig nm))) of
          (Some details, Some requested) \<Rightarrow>
            if cd_latestAnswer details = None then Inr (Inl NilLatestAnswer)
            else
              let paos = me_sortSlice env (\<lambda>x y. pao_Value x < pao_Value y) paos
              in bindG (go_index paos (length paos div 2)) (\<lambda>mid.
                 let answer = pao_Value mid
                 in bindG (go_deref (oc_Min (nm_onchainConfig nm))) (\<lambda>mn.
                    bindG (if mn \<le> answer
                           then bindG (go_deref (oc_Max (nm_onchainConfig nm))) (\<lambda>mx. Inr (answer \<le> mx))
                           else Inr False) (\<lambda>inside.
                    if \<not> inside then Inr (Inr (False, paos))
                    else bindG (reportReasons env nm repts details requested answer) (\<lambda>result.
                      Inr (Inr (result, paos))))))
        | _ \<Rightarrow> Inr (Inl ContractErrors))"

definition Report ::
  "median_env \<Rightarrow> numericalMedian \<Rightarrow> ReportTimestamp \<Rightarrow> bytes \<Rightarrow> AttributedObservation list \<Rightarrow>
   (median_error + bool \<times> bytes option) go" where
  "Report env nm repts query aos =
     (if length query \<noteq> 0 then Inr (Inl NonEmptyQuery)
      else
        bindG (parseAttributedObservations (me_UnmarshalObs env) aos) (\<lambda>paos.
        if \<not> nm_f nm + 1 \<le> int (length paos) then Inr (Inl NotEnoughObservations)
        else
          bindE (shouldReport env nm repts paos) id (\<lambda>(should, paos).
          if \<not> should then Inr (Inr (False, None))
          else
            bindE (rc_BuildReport (me_codec env) paos) (\<lambda>_. CodecError) (\<lambda>report.
            if \<not> int (length report) \<le> nm_maxReportLength nm then Inr (Inl ReportTooLong)
            else Inr (Inr (True, Some report))))))"

definition ShouldAcceptFinalizedReport ::
  "median_env \<Rightarrow> numericalMedian \<Rightarrow> ReportTimestamp \<Rightarrow> bytes \<Rightarrow> (numericalMedian \<times> (median_error + bool)) go" where
  "ShouldAcceptFinalizedReport env nm repts report =
     (let reportEpochRound = \<lparr>er_Epoch = rts_Epoch repts, er_Round = rts_Round repts\<rparr>
      in if \<not> EpochRound_Less (nm_latestAcceptedEpochRound nm) reportEpochRound then Inr (nm, Inr False)
      else
        case me_LatestTransmissionDetails env of
          None \<Rightarrow> Inr (nm, Inl ContractErrors)
        | Some details \<Rightarrow>
            let contractEpochRound = \<lparr>er_Epoch = cd_epoch details, er_Round = cd_round details\<rparr>
            in if cd_configDigest details \<noteq> nm_configDigest nm then Inr (nm, Inr False)
            else if \<not> EpochRound_Less contractEpochRound reportEpochRound then Inr (nm, Inr False)
            else if \<not> int (length report) \<le> nm_maxReportLength nm then Inr (nm, Inr False)
            else
              bindG (rc_MedianFromReport (me_codec env) report) (\<lambda>r.
              case r of
                Inl _ \<Rightarrow> Inr (nm, Inl CodecError)
              | Inr reportMedian \<Rightarrow>
                  bindG (if mo_AlphaAcceptInfinite (nm_offchainConfig nm) then Inr False
                         else Deviates (mo_AlphaAcceptPPB (nm_offchainConfig nm)) (nm_latestAcceptedMedian nm) reportMedian)
                    (\<lambda>deviates.
                  let nothingPending = \<not> EpochRound_Less contractEpochRound (nm_latestAcceptedEpochRound nm);
                      result = deviates \<or> nothingPending
                  in Inr (if result
                          then nm\<lparr>nm_latestAcceptedEpochRound := reportEpochRound, nm_latestAcceptedMedian := reportMedian\<rparr>
                          else nm, Inr result))))"

definition ShouldTransmitAcceptedReport ::
  "median_env \<Rightarrow> numericalMedian \<Rightarrow> ReportTimestamp \<Rightarrow> bytes \<Rightarrow> median_error + bool" where
  "ShouldTransmitAcceptedReport env nm repts report =
     (let reportEpochRound = \<lparr>er_Epoch = rts_Epoch repts, er_Round = rts_Round repts\<rparr>
      in case me_LatestTransmissionDetails env of
           None \<Rightarrow> Inl ContractErrors
         | Some details \<Rightarrow>
             let contractEpochRound = \<lparr>er_Epoch = cd_epoch details, er_Round = cd_round details\<rparr>
             in if cd_configDigest details \<noteq> nm_configDigest nm then Inr False
             else if \<not> EpochRound_Less contractEpochRound reportEpochRound then Inr False
             else Inr True)"

end
