(* ===== verification/MedianProps.thy ===== *)
theory MedianProps
  imports Median
begin

text \<open>
  Properties of the median plugin: what a reported median promises, the plugin's types, the order
  of the accepted reports.
\<close>

section \<open>Reports and their median\<close>

lemma MedianFromReport_packed:
  assumes "abi_ok abi" "abi_Pack abi ts os xs j = Some b" "xs \<noteq> []"
  shows "MedianFromReport abi b = Inr (Inr (Some (xs ! (length xs div 2))))"
proof -
  obtain m where "abi_UnpackIntoMap abi b = Some m" "m ''observations'' = Some (AbiBigInts (map Some xs))"
    using assms(1,2) unfolding abi_ok_def by blast
  moreover have "length xs div 2 < length xs" using assms(3) by (cases xs) auto
  ultimately show ?thesis using assms(3) by (simp add: MedianFromReport_def)
qed

lemma BuildReport_result:
  assumes srt: "slice_sort srt" and "abi_ok abi" and b: "BuildReport srt abi paos = Inr (Inr b)"
  shows "paos \<noteq> []" "length paos \<le> 32" "length b = 160 + 32 * length paos"
    "MedianFromReport abi b = Inr (Inr (Some (sort (map pao_Value paos) ! (length paos div 2))))"
    "XXXJuelsPerFeeCoinFromReport abi b = Inr (Some (sort (map pao_JuelsPerFeeCoin paos) ! (length paos div 2)))"
proof -
  show ne: "paos \<noteq> []" using b by (auto simp: BuildReport_def)
  show le: "length paos \<le> 32" using b BuildReport_too_many [OF srt, of paos abi] by (cases "32 < length paos") auto
  let ?xs = "sort (map pao_Value paos)" and ?j = "sort (map pao_JuelsPerFeeCoin paos) ! (length paos div 2)"
  obtain ts os where "BuildReport srt abi paos =
      Inr (case abi_Pack abi ts os ?xs ?j of None \<Rightarrow> Inl PackError | Some b \<Rightarrow> Inr b)"
    using BuildReport_packs [OF srt ne le] by blast
  then have p: "abi_Pack abi ts os ?xs ?j = Some b" using b by (simp split: option.splits)
  show "MedianFromReport abi b = Inr (Inr (Some (?xs ! (length paos div 2))))"
  proof -
    have "length ?xs = length paos" by simp
    then have "?xs \<noteq> []" using ne by (metis length_0_conv)
    then show ?thesis using MedianFromReport_packed [OF assms(2) p] by simp
  qed
  show "length b = 160 + 32 * length paos" "XXXJuelsPerFeeCoinFromReport abi b = Inr (Some ?j)"
    using assms(2) p unfolding abi_ok_def by (fastforce simp: XXXJuelsPerFeeCoinFromReport_def)+
qed

text \<open>C13: An EVM report carries the medians: reading the median back from a built report gives the
  middle of the sorted observed values, and likewise for the fee, whatever order the observations
  came in and whatever sorting routine was used; and the report keeps to the length limit that the
  codec announced for the number of oracles.\<close>

theorem evm_report_carries_the_medians:
  assumes "slice_sort srt" "abi_ok abi" "BuildReport srt abi paos = Inr (Inr b)" "int (length paos) \<le> n"
  shows "MedianFromReport abi b = Inr (Inr (Some (sort (map pao_Value paos) ! (length paos div 2)))) \<and>
    XXXJuelsPerFeeCoinFromReport abi b = Inr (Some (sort (map pao_JuelsPerFeeCoin paos) ! (length paos div 2))) \<and>
    (\<exists>limit. MaxReportLength n = Inr limit \<and> int (length b) \<le> limit)"
  using BuildReport_result [OF assms(1-3)] assms(4) by (simp add: MaxReportLength_def)

section \<open>Types\<close>

text \<open>The well-typed states of the plugin, and the codecs that keep their interface.\<close>

definition nm_typed :: "numericalMedian \<Rightarrow> bool" where
  "nm_typed nm \<longleftrightarrow> onchain_ok (nm_onchainConfig nm) \<and> 0 \<le> sint (mo_DeltaC (nm_offchainConfig nm)) \<and>
     nm_latestAcceptedMedian nm \<noteq> None"

definition codec_typed :: "ReportCodec \<Rightarrow> bool" where
  "codec_typed c \<longleftrightarrow> (\<forall>b. \<exists>r. rc_MedianFromReport c b = Inr r \<and> r \<noteq> Inr None) \<and>
     (\<forall>paos. length paos \<le> 32 \<longrightarrow> (\<exists>r. rc_BuildReport c paos = Inr r))"

lemma EvmCodec_typed: "slice_sort srt \<Longrightarrow> codec_typed (EvmCodec srt abi)"
proof -
  assume srt: "slice_sort srt"
  have "\<exists>r. MedianFromReport abi b = Inr r \<and> r \<noteq> Inr None" for b
  proof (cases "abi_UnpackIntoMap abi b")
    case (Some m)
    show ?thesis
    proof (cases "m ''observations''")
      case (Some v)
      then show ?thesis using \<open>abi_UnpackIntoMap abi b = Some m\<close>
        by (cases v) (auto simp: MedianFromReport_def intro!: div_less_dividend)
    qed (simp add: MedianFromReport_def Some)
  qed (simp add: MedianFromReport_def)
  moreover have "\<exists>r. BuildReport srt abi paos = Inr r" if "length paos \<le> 32" for paos
    using BuildReport_packs [OF srt _ that, of abi] by (cases "paos = []") (auto simp: BuildReport_def)
  ultimately show ?thesis by (simp add: codec_typed_def EvmCodec_def)
qed

lemma NewReportingPlugin_typed:
  assumes "NewReportingPlugin U StandardOnchainConfigCodec_Decode codec cfg = Inr (Inr (nm, info))"
  shows "nm_typed nm"
  using assms unfolding NewReportingPlugin_def
  by (auto simp: bindE_eq_ok nm_typed_def dest: Decode_onchain_ok DecodeOffchainConfig_DeltaC)

lemma NewReportingPlugin_total: "\<exists>r. NewReportingPlugin U StandardOnchainConfigCodec_Decode codec cfg = Inr r"
  unfolding NewReportingPlugin_def by (intro bindE_total Decode_total) simp_all

lemma Deviates_total: "old \<noteq> None \<Longrightarrow> new \<noteq> None \<Longrightarrow> \<exists>r. Deviates thr old new = Inr r"
  using Deviates_iff by auto

lemma ShouldAccept_typed:
  assumes "nm_typed nm" "codec_typed (me_codec env)"
  shows "\<exists>nm' r. ShouldAcceptFinalizedReport env nm repts report = Inr (nm', r) \<and> nm_typed nm'"
proof -
  obtain r where r: "rc_MedianFromReport (me_codec env) report = Inr r" "r \<noteq> Inr None"
    using assms(2) unfolding codec_typed_def by blast
  have dev: "\<exists>d. Deviates thr (nm_latestAcceptedMedian nm) (Some m) = Inr d" for thr m
    using assms(1) by (intro Deviates_total) (simp_all add: nm_typed_def)
  show ?thesis
  proof (cases r)
    case (Inr mo)
    then obtain m where m: "mo = Some m" using r(2) by auto
    obtain d where "Deviates (mo_AlphaAcceptPPB (nm_offchainConfig nm)) (nm_latestAcceptedMedian nm) (Some m) = Inr d"
      using dev by blast
    then show ?thesis
      using assms(1) r(1) Inr m
      by (auto simp: ShouldAcceptFinalizedReport_def Let_def nm_typed_def split: option.split)
  qed (use assms(1) r(1) in \<open>auto simp: ShouldAcceptFinalizedReport_def Let_def split: option.split\<close>)
qed

lemma observe_total: "\<exists>r. observe a = Inr r"
proof (cases "\<exists>v. a = Some (Some v)")
  case True
  then show ?thesis using EncodeValue_total by (auto simp: observe_def intro!: bindE_total)
qed (auto simp: observe_def split: option.split)

lemma Observation_total: "\<exists>r. Observation env repts query = Inr r"
proof -
  obtain r1 r2 where "observe (me_DataSource env repts) = Inr r1" "observe (me_JuelsPerFeeCoinDataSource env repts) = Inr r2"
    using observe_total by metis
  then show ?thesis by (auto simp: Observation_def split: sum.split option.split)
qed

lemma reportReasons_total:
  "cd_latestAnswer d \<noteq> None \<Longrightarrow> \<exists>r. reportReasons env nm repts d rr answer = Inr r"
  using Deviates_iff by (auto simp: reportReasons_def Let_def)

lemma shouldReport_total:
  assumes "nm_typed nm" "slice_sort (me_sortSlice env)"
  shows "\<exists>r. shouldReport env nm repts paos = Inr r"
proof (cases "paos = []")
  case False
  then have mid: "length paos div 2 < length paos" by (cases paos) auto
  obtain mn mx where c: "nm_onchainConfig nm = \<lparr>oc_Min = Some mn, oc_Max = Some mx\<rparr>"
    using assms(1) by (auto simp: nm_typed_def onchain_ok_def)
  show ?thesis
  proof (cases "\<exists>d rr. me_LatestTransmissionDetails env = Some d \<and>
      me_LatestRoundRequested env (mo_DeltaC (nm_offchainConfig nm)) = Some rr \<and> cd_latestAnswer d \<noteq> None")
    case True
    then obtain d rr where d: "me_LatestTransmissionDetails env = Some d" "cd_latestAnswer d \<noteq> None"
      "me_LatestRoundRequested env (mo_DeltaC (nm_offchainConfig nm)) = Some rr" by auto
    let ?a = "pao_Value (me_sortSlice env (\<lambda>x y. pao_Value x < pao_Value y) paos ! (length paos div 2))"
    obtain q where "reportReasons env nm repts d rr ?a = Inr q" using reportReasons_total d(2) by blast
    then show ?thesis
      using False d c mid slice_sort.srt_length [OF assms(2)] by (auto simp: shouldReport_def Let_def)
  qed (use False in \<open>auto simp: shouldReport_def split: option.split\<close>)
qed (simp add: shouldReport_def)

lemma shouldReport_slice:
  "slice_sort (me_sortSlice env) \<Longrightarrow> shouldReport env nm repts paos = Inr (Inr (b, paos')) \<Longrightarrow>
   paos' = me_sortSlice env (\<lambda>x y. pao_Value x < pao_Value y) paos"
  by (auto simp: shouldReport_def Let_def bindG_eq_Inr_iff split: if_splits option.splits)

lemma length_map_filter: "length (List.map_filter f xs) \<le> length xs"
  by (induction xs) (simp_all add: map_filter_simps split: option.split)

lemma Report_total:
  assumes "nm_typed nm" "codec_typed (me_codec env)" "slice_sort (me_sortSlice env)" "length aos \<le> 32"
  shows "\<exists>r. Report env nm repts query aos = Inr r"
proof -
  let ?paos = "List.map_filter (parsed (me_UnmarshalObs env)) aos"
  have "\<exists>r. bindE (shouldReport env nm repts ?paos) id (\<lambda>(should, paos).
          if \<not> should then Inr (Inr (False, None))
          else bindE (rc_BuildReport (me_codec env) paos) (\<lambda>_. CodecError) (\<lambda>report.
            if \<not> int (length report) \<le> nm_maxReportLength nm then Inr (Inl ReportTooLong)
            else Inr (Inr (True, Some report)))) = Inr r"
  proof (intro bindE_total shouldReport_total [OF assms(1,3)])
    fix x assume x: "shouldReport env nm repts ?paos = Inr (Inr x)"
    obtain b paos' where xb: "x = (b, paos')" by (cases x)
    then have "length paos' = length ?paos"
      using shouldReport_slice [OF assms(3), of nm repts ?paos b paos'] x slice_sort.srt_length [OF assms(3)] by simp
    then have "length paos' \<le> 32" using length_map_filter [of "parsed (me_UnmarshalObs env)" aos] assms(4) by simp
    then show "\<exists>r. (case x of (should, paos) \<Rightarrow>
          if \<not> should then Inr (Inr (False, None))
          else bindE (rc_BuildReport (me_codec env) paos) (\<lambda>_. CodecError) (\<lambda>report.
            if \<not> int (length report) \<le> nm_maxReportLength nm then Inr (Inl ReportTooLong)
            else Inr (Inr (True, Some report)))) = Inr r"
      using assms(2) unfolding codec_typed_def xb by (auto intro!: bindE_total)
  qed
  then show ?thesis by (simp add: Report_def parse_all)
qed

text \<open>C12: Well-typed plugins do not go wrong. A plugin that the factory makes from a configuration is
  well typed (its bounds are present, in the range of 192-bit integers and in order, its timeout is
  not negative, a latest median is present), accepting reports keeps it so, and no call on a
  well-typed plugin panics, whatever the contract, the data sources and other oracles supply, as
  long as the codec keeps its interface (the EVM codec does) and there are at most 32
  observations.\<close>

theorem median_plugin_well_typed:
  assumes "codec_typed (me_codec env)" "slice_sort (me_sortSlice env)"
  shows "(\<exists>r. NewReportingPlugin U StandardOnchainConfigCodec_Decode (me_codec env) cfg = Inr r \<and>
            (\<forall>nm info. r = Inr (nm, info) \<longrightarrow> nm_typed nm)) \<and>
    (nm_typed nm \<longrightarrow>
      (\<exists>nm' r. ShouldAcceptFinalizedReport env nm repts report = Inr (nm', r) \<and> nm_typed nm') \<and>
      (\<exists>r. Observation env repts query = Inr r) \<and>
      (length aos \<le> 32 \<longrightarrow> (\<exists>r. Report env nm repts query aos = Inr r)))"
  using NewReportingPlugin_total [of U "me_codec env" cfg] NewReportingPlugin_typed [of U "me_codec env" cfg]
    ShouldAccept_typed [OF _ assms(1)] Observation_total Report_total [OF _ assms]
  by auto

section \<open>Acceptance\<close>

text \<open>A sequence of finalized reports, each with what the contract answers at that moment; the log
  has, for each accepted report, the position of the contract and of the report.\<close>

fun accept_run ::
  "numericalMedian \<Rightarrow> (median_env \<times> ReportTimestamp \<times> bytes) list \<Rightarrow> (numericalMedian \<times> (EpochRound \<times> EpochRound) list) go" where
  "accept_run nm [] = Inr (nm, [])"
| "accept_run nm ((env, repts, report) # calls) =
     bindG (ShouldAcceptFinalizedReport env nm repts report) (\<lambda>(nm', r).
     bindG (accept_run nm' calls) (\<lambda>(nm'', accepted).
       Inr (nm'', (if r = Inr True
         then [(case me_LatestTransmissionDetails env of None \<Rightarrow> zero_EpochRound
                | Some d \<Rightarrow> \<lparr>er_Epoch = cd_epoch d, er_Round = cd_round d\<rparr>, er_of repts)] else []) @ accepted)))"

lemma ShouldAccept_accepts:
  assumes "ShouldAcceptFinalizedReport env nm repts report = Inr (nm', r)"
  shows "if r = Inr True
    then EpochRound_Less (nm_latestAcceptedEpochRound nm) (er_of repts) \<and> nm_latestAcceptedEpochRound nm' = er_of repts \<and>
      (\<exists>d. me_LatestTransmissionDetails env = Some d \<and> cd_configDigest d = nm_configDigest nm \<and>
        EpochRound_Less \<lparr>er_Epoch = cd_epoch d, er_Round = cd_round d\<rparr> (er_of repts))
    else nm' = nm"
  using assms
  by (auto simp: ShouldAcceptFinalizedReport_def Let_def er_of_def bindG_def split: if_splits option.splits sum.splits)

section \<open>Correct observations bound the median\<close>

lemma EncodeValue_D: "EncodeValue (Some i) = Inr (Inr b) \<Longrightarrow> DecodeValue b = Inr (Inr i)"
proof -
  assume e: "EncodeValue (Some i) = Inr (Inr b)"
  then have "value_ok i"
    using SerializeSigned_spec [of 24 i] by (auto simp: value_ok_iff EncodeValue_def byteWidth_def split: if_splits)
  then show ?thesis using EncodeValue_ok [of i] e by auto
qed

text \<open>An observation that a correct oracle made: the data source answered \<open>v\<close>.\<close>

definition observed :: "(NumericalMedianObservationProto \<Rightarrow> bytes option) \<Rightarrow> AttributedObservation \<Rightarrow> int \<Rightarrow> bool" where
  "observed Marshal ao v \<longleftrightarrow> (\<exists>env repts. me_MarshalObs env = Marshal \<and>
     Observation env repts [] = Inr (Inr (ao_Observation ao)) \<and> me_DataSource env repts = Some (Some v))"

definition proto_obs_ok ::
  "(NumericalMedianObservationProto \<Rightarrow> bytes option) \<Rightarrow> (bytes \<Rightarrow> NumericalMedianObservationProto option) \<Rightarrow> bool" where
  "proto_obs_ok Marshal Unmarshal \<longleftrightarrow> (\<forall>p b. Marshal p = Some b \<longrightarrow> Unmarshal b = Some p)"

lemma observe_D: "observe a = Inr (Inr b) \<Longrightarrow> \<exists>v. a = Some (Some v) \<and> DecodeValue b = Inr (Inr v)"
  by (auto simp: observe_def bindE_eq_ok dest: EncodeValue_D split: option.splits)

lemma observed_parses:
  assumes "observed M ao v" "proto_obs_ok M U"
  shows "\<exists>pao. parsed U ao = Some pao \<and> pao_Value pao = v"
proof -
  obtain env repts where o: "me_MarshalObs env = M" "Observation env repts [] = Inr (Inr (ao_Observation ao))"
    "me_DataSource env repts = Some (Some v)"
    using assms(1) unfolding observed_def by blast
  then obtain b1 b2 where b: "observe (me_DataSource env repts) = Inr (Inr b1)"
    "observe (me_JuelsPerFeeCoinDataSource env repts) = Inr (Inr b2)"
    "M \<lparr>mop_Timestamp = word_of_int (me_now env div 1000000000), mop_Value = b1, mop_JuelsPerFeeCoin = b2\<rparr> = Some (ao_Observation ao)"
    by (auto simp: Observation_def bindG_def split: sum.splits option.splits)
  then have "U (ao_Observation ao) =
      Some \<lparr>mop_Timestamp = word_of_int (me_now env div 1000000000), mop_Value = b1, mop_JuelsPerFeeCoin = b2\<rparr>"
    using assms(2) unfolding proto_obs_ok_def by blast
  moreover have "DecodeValue b1 = Inr (Inr v)" using observe_D [OF b(1)] o(3) by auto
  moreover obtain j where "DecodeValue b2 = Inr (Inr j)" using observe_D [OF b(2)] by auto
  ultimately show ?thesis by (simp add: parsed_def parseAttributedObservation_def)
qed

lemma in_map_filter: "y \<in> set (List.map_filter g xs) \<longleftrightarrow> (\<exists>x \<in> set xs. g x = Some y)"
  by (induction xs) (auto simp: map_filter_simps split: option.split)

lemma distinct_count: "distinct (map g xs) \<Longrightarrow> finite F \<Longrightarrow> length (filter (\<lambda>x. g x \<in> F) xs) \<le> card F"
proof -
  assume d: "distinct (map g xs)" "finite F"
  have "distinct (map g (filter (\<lambda>x. g x \<in> F) xs))" by (rule distinct_map_filter) (rule d(1))
  then have "length (filter (\<lambda>x. g x \<in> F) xs) = card (set (map g (filter (\<lambda>x. g x \<in> F) xs)))"
    using distinct_card by fastforce
  also have "\<dots> \<le> card F" using d(2) by (intro card_mono) auto
  finally show ?thesis .
qed

lemma parsed_counts:
  "(\<forall>ao \<in> set aos. ao_Observer ao \<notin> F \<longrightarrow> parsed U ao \<noteq> None) \<Longrightarrow>
   length (filter (\<lambda>p. pao_Observer p \<notin> F) (List.map_filter (parsed U) aos)) = length (filter (\<lambda>ao. ao_Observer ao \<notin> F) aos) \<and>
   length (filter (\<lambda>p. pao_Observer p \<in> F) (List.map_filter (parsed U) aos)) \<le> length (filter (\<lambda>ao. ao_Observer ao \<in> F) aos)"
  by (induction aos) (auto simp: map_filter_simps parsed_observer split: option.split)

lemma correct_majority:
  assumes "distinct (map ao_Observer aos)" "2 * f < length aos" "card F \<le> f"
    and "\<forall>ao \<in> set aos. ao_Observer ao \<notin> F \<longrightarrow> parsed U ao \<noteq> None"
  shows "length (List.map_filter (parsed U) aos) <
    2 * length (filter (\<lambda>p. pao_Observer p \<notin> F) (List.map_filter (parsed U) aos))"
proof -
  let ?p = "List.map_filter (parsed U) aos"
  have "length (filter (\<lambda>ao. ao_Observer ao \<in> F) aos) \<le> f"
    using distinct_count [OF assms(1), of F] assms(3) by simp
  moreover have "length aos = length (filter (\<lambda>ao. ao_Observer ao \<in> F) aos) + length (filter (\<lambda>ao. ao_Observer ao \<notin> F) aos)"
    using sum_length_filter_compl [of "\<lambda>ao. ao_Observer ao \<in> F" aos] by simp
  moreover have "length ?p = length (filter (\<lambda>p. pao_Observer p \<in> F) ?p) + length (filter (\<lambda>p. pao_Observer p \<notin> F) ?p)"
    using sum_length_filter_compl [of "\<lambda>p. pao_Observer p \<in> F" ?p] by simp
  ultimately show ?thesis using parsed_counts [OF assms(4)] assms(2) by linarith
qed

lemma Report_reports:
  assumes "slice_sort (me_sortSlice env)" "slice_sort srt" "me_codec env = EvmCodec srt abi" "abi_ok abi"
    and r: "Report env nm repts query aos = Inr (Inr (True, Some report))"
  shows "\<exists>m mn mx. MedianFromReport abi report = Inr (Inr (Some m)) \<and>
    m = sort (map pao_Value (List.map_filter (parsed (me_UnmarshalObs env)) aos)) !
          (length (List.map_filter (parsed (me_UnmarshalObs env)) aos) div 2) \<and>
    nm_onchainConfig nm = \<lparr>oc_Min = Some mn, oc_Max = Some mx\<rparr> \<and> mn \<le> m \<and> m \<le> mx \<and>
    List.map_filter (parsed (me_UnmarshalObs env)) aos \<noteq> []"
proof -
  let ?paos = "List.map_filter (parsed (me_UnmarshalObs env)) aos"
  let ?s = "me_sortSlice env (\<lambda>x y. pao_Value x < pao_Value y) ?paos"
  obtain paos where sr: "shouldReport env nm repts ?paos = Inr (Inr (True, paos))"
    "BuildReport srt abi paos = Inr (Inr report)"
    using r by (auto simp: Report_def parse_all bindE_eq_ok assms(3) EvmCodec_def split: if_splits)
  have paos: "paos = ?s" using shouldReport_slice [OF assms(1) sr(1)] .
  note B = BuildReport_result [OF assms(2,4) sr(2)]
  have ne: "?paos \<noteq> []" using B(1) paos slice_sort.srt_Nil_iff [OF assms(1)] by simp
  have len: "length paos = length ?paos" using paos slice_sort.srt_length [OF assms(1)] by simp
  have med: "MedianFromReport abi report = Inr (Inr (Some (sort (map pao_Value ?paos) ! (length ?paos div 2))))"
    using B(4) len unfolding paos slice_sort.sort_map_srt [OF assms(1)] by simp
  have key: "pao_Value (?s ! (length ?paos div 2)) = sort (map pao_Value ?paos) ! (length ?paos div 2)"
    by (rule slice_sort.median_key [OF assms(1) ne])
  obtain mn mx where "oc_Min (nm_onchainConfig nm) = Some mn" "oc_Max (nm_onchainConfig nm) = Some mx"
    "mn \<le> pao_Value (?s ! (length ?paos div 2))" "pao_Value (?s ! (length ?paos div 2)) \<le> mx"
    using sr(1) slice_sort.srt_length [OF assms(1)] ne
    by (auto simp: shouldReport_def Let_def bindG_eq_Inr_iff go_index_eq_Inr split: if_splits option.splits)
  then show ?thesis using med ne unfolding key by (metis OnchainConfig.surjective unit.exhaust)
qed

text \<open>The reported median cannot be pushed outside the observations of correct oracles: when a
  plugin reports on observations of more than 2f distinct oracles of which at most f are faulty,
  the median in the report lies between the values that the data sources gave two correct oracles,
  and between the bounds of the on-chain configuration. Faulty oracles may send anything, also
  observations that do not parse.\<close>

lemma median_between_correct_observations:
  assumes "slice_sort (me_sortSlice env)" "slice_sort srt" "me_codec env = EvmCodec srt abi" "abi_ok abi"
    and "proto_obs_ok Marshal (me_UnmarshalObs env)"
    and "distinct (map ao_Observer aos)" "2 * f < length aos" "card faulty \<le> f"
    and "\<forall>ao \<in> set aos. ao_Observer ao \<notin> faulty \<longrightarrow> observed Marshal ao (value_of (ao_Observer ao))"
    and "Report env nm repts query aos = Inr (Inr (True, Some report))"
  shows "\<exists>m mn mx i j. MedianFromReport abi report = Inr (Inr (Some m)) \<and>
    i \<notin> faulty \<and> i \<in> ao_Observer ` set aos \<and> j \<notin> faulty \<and> j \<in> ao_Observer ` set aos \<and>
    value_of i \<le> m \<and> m \<le> value_of j \<and>
    oc_Min (nm_onchainConfig nm) = Some mn \<and> oc_Max (nm_onchainConfig nm) = Some mx \<and> mn \<le> m \<and> m \<le> mx"
proof -
  let ?paos = "List.map_filter (parsed (me_UnmarshalObs env)) aos"
  obtain m mn mx where m: "MedianFromReport abi report = Inr (Inr (Some m))"
    "m = sort (map pao_Value ?paos) ! (length ?paos div 2)"
    "nm_onchainConfig nm = \<lparr>oc_Min = Some mn, oc_Max = Some mx\<rparr>" "mn \<le> m" "m \<le> mx" "?paos \<noteq> []"
    using Report_reports [OF assms(1-4,10)] by blast
  have obs: "\<exists>pao. parsed (me_UnmarshalObs env) ao = Some pao \<and> pao_Value pao = value_of (ao_Observer ao)"
    if "ao \<in> set aos" "ao_Observer ao \<notin> faulty" for ao
    using observed_parses [OF _ assms(5)] assms(9) that by blast
  then have "length ?paos < 2 * length (filter (\<lambda>p. pao_Observer p \<notin> faulty) ?paos)"
    by (intro correct_majority [OF assms(6-8)]) auto
  from slice_sort.median_between [OF assms(1) this, of pao_Value] obtain lo hi where
    "lo \<in> set ?paos" "pao_Observer lo \<notin> faulty" "hi \<in> set ?paos" "pao_Observer hi \<notin> faulty"
    "pao_Value lo \<le> m" "m \<le> pao_Value hi"
    unfolding m(2) slice_sort.median_key [OF assms(1) m(6)] by blast
  moreover have "pao_Value p = value_of (pao_Observer p) \<and> pao_Observer p \<in> ao_Observer ` set aos"
    if "p \<in> set ?paos" "pao_Observer p \<notin> faulty" for p
    using that obs by (fastforce simp: in_map_filter dest: parsed_observer)
  ultimately show ?thesis using m(1,3,4,5) by (metis OnchainConfig.select_convs)
qed

text \<open>C11: Accepted reports move forward: over any sequence of finalized reports, in any order and
  with anything the contract answers, the epoch and round of the accepted ones strictly increase,
  each of them is past what the contract had at that moment, and the plugin remembers the latest.\<close>

theorem accepted_reports_increase:
  assumes "accept_run nm calls = Inr (nm', accepted)"
  shows "sorted_wrt EpochRound_Less (nm_latestAcceptedEpochRound nm # map snd accepted) \<and>
    nm_latestAcceptedEpochRound nm' = last (nm_latestAcceptedEpochRound nm # map snd accepted) \<and>
    (\<forall>(c, r) \<in> set accepted. EpochRound_Less c r)"
  using assms
proof (induction nm calls arbitrary: nm' accepted rule: accept_run.induct)
  case (2 nm env repts report calls)
  obtain nm1 r where step: "ShouldAcceptFinalizedReport env nm repts report = Inr (nm1, r)"
    using "2.prems" by (auto simp: bindG_eq_Inr_iff)
  obtain rest where rest: "accept_run nm1 calls = Inr (nm', rest)"
    using "2.prems" step by (auto simp: bindG_eq_Inr_iff)
  note IH = "2.IH" [OF step refl rest]
  show ?case
  proof (cases "r = Inr True")
    case True
    then obtain d where d: "EpochRound_Less (nm_latestAcceptedEpochRound nm) (er_of repts)"
      "nm_latestAcceptedEpochRound nm1 = er_of repts" "me_LatestTransmissionDetails env = Some d"
      "EpochRound_Less \<lparr>er_Epoch = cd_epoch d, er_Round = cd_round d\<rparr> (er_of repts)"
      using ShouldAccept_accepts [OF step] by auto
    then have "accepted = (\<lparr>er_Epoch = cd_epoch d, er_Round = cd_round d\<rparr>, er_of repts) # rest"
      using "2.prems" step rest True by simp
    then show ?thesis using IH d EpochRound_Less_trans [OF d(1)] by auto
  next
    case False
    then show ?thesis using "2.prems" step rest IH ShouldAccept_accepts [OF step] by simp
  qed
qed simp

section \<open>An example\<close>

text \<open>Four oracles of which one may be faulty. The data sources of oracles 0 and 1 say 10 and 11,
  oracle 3 claims 1000. The protobuf and ABI codecs are concrete functions that are only defined
  on what the example needs.\<close>

definition ex_marshal :: "NumericalMedianObservationProto \<Rightarrow> bytes option" where
  "ex_marshal p = (if mop_Timestamp p = 0 \<and> length (mop_Value p) = 24 \<and> length (mop_JuelsPerFeeCoin p) = 24
     then Some (mop_Value p @ mop_JuelsPerFeeCoin p) else None)"

definition ex_unmarshal :: "bytes \<Rightarrow> NumericalMedianObservationProto option" where
  "ex_unmarshal b = Some \<lparr>mop_Timestamp = 0, mop_Value = take 24 b, mop_JuelsPerFeeCoin = drop 24 b\<rparr>"

definition ex_abi :: evm_abi where
  "ex_abi =
     \<lparr>abi_Pack = (\<lambda>ts os xs j. if xs = [10, 11, 1000] \<and> j = 7 then Some (replicate 256 0) else None),
      abi_UnpackIntoMap = (\<lambda>b. if b = replicate 256 0
        then Some (\<lambda>k. if k = ''observations'' then Some (AbiBigInts [Some 10, Some 11, Some 1000])
          else if k = ''juelsPerFeeCoin'' then Some (AbiBigInt (Some 7)) else None)
        else None)\<rparr>"

definition ex_env :: "int \<Rightarrow> median_env" where
  "ex_env v =
     \<lparr>me_codec = EvmCodec insertionSort ex_abi, me_sortSlice = insertionSort,
      me_MarshalObs = ex_marshal, me_UnmarshalObs = ex_unmarshal,
      me_LatestTransmissionDetails = Some
        \<lparr>cd_configDigest = [1], cd_epoch = 0, cd_round = 0, cd_latestAnswer = Some 0, cd_latestTimestamp = 0\<rparr>,
      me_LatestRoundRequested = (\<lambda>_. Some \<lparr>rr_configDigest = [], rr_epoch = 0, rr_round = 0\<rparr>),
      me_DataSource = (\<lambda>_. Some (Some v)), me_JuelsPerFeeCoinDataSource = (\<lambda>_. Some (Some 7)), me_now = 0\<rparr>"

definition ex_nm :: numericalMedian where
  "ex_nm =
     \<lparr>nm_offchainConfig = \<lparr>mo_AlphaReportInfinite = False, mo_AlphaReportPPB = 1, mo_AlphaAcceptInfinite = False,
        mo_AlphaAcceptPPB = 1, mo_DeltaC = 5\<rparr>,
      nm_onchainConfig = \<lparr>oc_Min = Some 0, oc_Max = Some 2000\<rparr>, nm_configDigest = [1], nm_f = 1,
      nm_latestAcceptedEpochRound = zero_EpochRound, nm_latestAcceptedMedian = Some 0, nm_maxReportLength = 288\<rparr>"

definition ex_ts :: "u8 \<Rightarrow> ReportTimestamp" where
  "ex_ts r = \<lparr>rts_ConfigDigest = [1], rts_Epoch = 1, rts_Round = r\<rparr>"

definition ex_ao :: "OracleID \<Rightarrow> int \<Rightarrow> AttributedObservation" where
  "ex_ao i v = \<lparr>ao_Observation = be_digits 24 v @ be_digits 24 7, ao_Observer = i\<rparr>"

lemma ex_abi_ok: "abi_ok ex_abi"
  by (auto simp: abi_ok_def ex_abi_def split: if_splits)

lemma ex_proto_ok: "proto_obs_ok ex_marshal ex_unmarshal"
  by (auto simp: proto_obs_ok_def ex_marshal_def ex_unmarshal_def split: if_splits)

lemma ex_Observation:
  "Observation (ex_env 10) (ex_ts 1) [] = Inr (Inr (ao_Observation (ex_ao 0 10)))"
  "Observation (ex_env 11) (ex_ts 1) [] = Inr (Inr (ao_Observation (ex_ao 1 11)))"
  by code_simp+

lemma ex_Report:
  "Report (ex_env 10) ex_nm (ex_ts 1) [] [ex_ao 3 1000, ex_ao 0 10, ex_ao 1 11] = Inr (Inr (True, Some (replicate 256 0)))"
  by code_simp

lemma median_between_example:
  "\<exists>m. MedianFromReport ex_abi (replicate 256 0) = Inr (Inr (Some m)) \<and> m \<le> (11 :: int)"
proof -
  have obs: "\<forall>ao \<in> set [ex_ao 3 1000, ex_ao 0 10, ex_ao 1 11]. ao_Observer ao \<notin> {3} \<longrightarrow>
      observed ex_marshal ao (if ao_Observer ao = 0 then 10 else 11)"
  proof -
    have "observed ex_marshal (ex_ao 0 10) 10" "observed ex_marshal (ex_ao 1 11) 11"
      unfolding observed_def using ex_Observation by (auto simp: ex_env_def intro!: exI)
    then show ?thesis by (simp add: ex_ao_def)
  qed
  have "\<exists>m mn mx i j. MedianFromReport ex_abi (replicate 256 0) = Inr (Inr (Some m)) \<and>
      i \<notin> {3} \<and> i \<in> ao_Observer ` set [ex_ao 3 1000, ex_ao 0 10, ex_ao 1 11] \<and>
      j \<notin> {3} \<and> j \<in> ao_Observer ` set [ex_ao 3 1000, ex_ao 0 10, ex_ao 1 11] \<and>
      (if i = 0 then 10 else 11) \<le> m \<and> m \<le> (if j = 0 then 10 else 11) \<and>
      oc_Min (nm_onchainConfig ex_nm) = Some mn \<and> oc_Max (nm_onchainConfig ex_nm) = Some mx \<and> mn \<le> m \<and> m \<le> mx"
    by (rule median_between_correct_observations [OF _ ins.slice_sort_axioms _ ex_abi_ok _ _ _ _ obs ex_Report, where f = 1])
      (simp_all add: ex_env_def ex_proto_ok ex_ao_def ins.slice_sort_axioms)
  then show ?thesis by (auto split: if_splits)
qed

theorem evm_report_carries_the_medians_witness:
  "MedianFromReport ex_abi (replicate 256 0) =
     Inr (Inr (Some (sort [1000, 10, 11] ! 1)))"
proof -
  let ?p = "\<lambda>v i. \<lparr>pao_Timestamp = 0, pao_Value = v, pao_JuelsPerFeeCoin = 7, pao_Observer = i\<rparr>"
  have b: "BuildReport insertionSort ex_abi [?p 1000 3, ?p 10 0, ?p 11 1] = Inr (Inr (replicate 256 0))" by code_simp
  show ?thesis using evm_report_carries_the_medians [OF ins.slice_sort_axioms ex_abi_ok b, of 4] by simp
qed

theorem median_plugin_well_typed_witness:
  "\<exists>nm' r. ShouldAcceptFinalizedReport (ex_env 10) ex_nm (ex_ts 1) (replicate 256 0) = Inr (nm', r) \<and> nm_typed nm'"
proof -
  have codec: "codec_typed (me_codec (ex_env 10))" "slice_sort (me_sortSlice (ex_env 10))"
    by (simp_all add: ex_env_def EvmCodec_typed ins.slice_sort_axioms)
  have "nm_typed ex_nm"
    by (simp add: nm_typed_def ex_nm_def onchain_ok_def value_ok_def MinValue_def MaxValue_def bitWidth_def byteWidth_def)
  then show ?thesis
    using median_plugin_well_typed [OF codec, of "\<lambda>_. None" undefined ex_nm "ex_ts 1" "replicate 256 0" "[]" "[]"] by blast
qed

theorem accepted_reports_increase_witness:
  "\<exists>nm' accepted. accept_run ex_nm [(ex_env 10, ex_ts 1, replicate 256 0), (ex_env 10, ex_ts 1, replicate 256 0)] = Inr (nm', accepted) \<and>
     length accepted = 1 \<and> sorted_wrt EpochRound_Less (zero_EpochRound # map snd accepted)"
proof -
  have run: "\<exists>nm'. accept_run ex_nm [(ex_env 10, ex_ts 1, replicate 256 0), (ex_env 10, ex_ts 1, replicate 256 0)] =
      Inr (nm', [(zero_EpochRound, er_of (ex_ts 1))])"
    by (intro exI) code_simp
  then obtain nm' where nm': "accept_run ex_nm [(ex_env 10, ex_ts 1, replicate 256 0), (ex_env 10, ex_ts 1, replicate 256 0)] =
      Inr (nm', [(zero_EpochRound, er_of (ex_ts 1))])" ..
  show ?thesis using accepted_reports_increase [OF nm'] nm' by (simp add: ex_nm_def)
qed

end
