(* ===== verification/Ocr2Config.thy ===== *)
theory Ocr2Config
  imports OffchainConfig
begin

text \<open>
  The protocol configuration of OCR2 (\<open>internal/config/ocr2config\<close>): \<open>public_config.go\<close>,
  \<open>serialize.go\<close>, \<open>shared_config.go\<close>. The types that do not depend on the protocol version (oracle
  identities, contract configurations, encrypted secrets) and their operations are those of
  theories PublicConfig and OffchainConfig; the wire format, X25519, AES and Keccak256 are parameters.
\<close>

section \<open>Data\<close>

record Ocr2PublicConfig =
  c2_DeltaProgress :: Duration
  c2_DeltaResend :: Duration
  c2_DeltaRound :: Duration
  c2_DeltaGrace :: Duration
  c2_DeltaStage :: Duration
  c2_RMax :: u8
  c2_S :: "int list"
  c2_OracleIdentities :: "OracleIdentity list"
  c2_ReportingPluginConfig :: bytes
  c2_MaxDurationQuery :: Duration
  c2_MaxDurationObservation :: Duration
  c2_MaxDurationReport :: Duration
  c2_MaxDurationShouldAcceptFinalizedReport :: Duration
  c2_MaxDurationShouldTransmitAcceptedReport :: Duration
  c2_F :: int
  c2_OnchainConfig :: bytes
  c2_ConfigDigest :: bytes

record Ocr2SharedConfig = Ocr2PublicConfig +
  c2_SharedSecret :: bytes

record ocr2_offchainConfig =
  o2_DeltaProgress :: Duration
  o2_DeltaResend :: Duration
  o2_DeltaRound :: Duration
  o2_DeltaGrace :: Duration
  o2_DeltaStage :: Duration
  o2_RMax :: u8
  o2_S :: "int list"
  o2_OffchainPublicKeys :: "bytes list"
  o2_PeerIDs :: "string list"
  o2_ReportingPluginConfig :: bytes
  o2_MaxDurationQuery :: Duration
  o2_MaxDurationObservation :: Duration
  o2_MaxDurationReport :: Duration
  o2_MaxDurationShouldAcceptFinalizedReport :: Duration
  o2_MaxDurationShouldTransmitAcceptedReport :: Duration
  o2_SharedSecretEncryptions :: SharedSecretEncryptions

record Ocr2OffchainConfigProto =
  p2_DeltaProgressNanoseconds :: u64
  p2_DeltaResendNanoseconds :: u64
  p2_DeltaRoundNanoseconds :: u64
  p2_DeltaGraceNanoseconds :: u64
  p2_DeltaStageNanoseconds :: u64
  p2_RMax :: u32
  p2_S :: "u32 list"
  p2_OffchainPublicKeys :: "bytes list"
  p2_PeerIds :: "string list"
  p2_ReportingPluginConfig :: bytes
  p2_MaxDurationQueryNanoseconds :: u64
  p2_MaxDurationObservationNanoseconds :: u64
  p2_MaxDurationReportNanoseconds :: u64
  p2_MaxDurationShouldAcceptFinalizedReportNanoseconds :: u64
  p2_MaxDurationShouldTransmitAcceptedReportNanoseconds :: u64
  p2_SharedSecretEncryptions :: "SharedSecretEncryptionsProto option"

section \<open>Serialization\<close>

definition ocr2_enprotoOffchainConfig :: "ocr2_offchainConfig \<Rightarrow> Ocr2OffchainConfigProto" where
  "ocr2_enprotoOffchainConfig o2 =
     \<lparr>p2_DeltaProgressNanoseconds = o2_DeltaProgress o2,
      p2_DeltaResendNanoseconds = o2_DeltaResend o2,
      p2_DeltaRoundNanoseconds = o2_DeltaRound o2,
      p2_DeltaGraceNanoseconds = o2_DeltaGrace o2,
      p2_DeltaStageNanoseconds = o2_DeltaStage o2,
      p2_RMax = ucast (o2_RMax o2),
      p2_S = map word_of_int (o2_S o2),
      p2_OffchainPublicKeys = o2_OffchainPublicKeys o2,
      p2_PeerIds = o2_PeerIDs o2,
      p2_ReportingPluginConfig = o2_ReportingPluginConfig o2,
      p2_MaxDurationQueryNanoseconds = o2_MaxDurationQuery o2,
      p2_MaxDurationObservationNanoseconds = o2_MaxDurationObservation o2,
      p2_MaxDurationReportNanoseconds = o2_MaxDurationReport o2,
      p2_MaxDurationShouldAcceptFinalizedReportNanoseconds = o2_MaxDurationShouldAcceptFinalizedReport o2,
      p2_MaxDurationShouldTransmitAcceptedReportNanoseconds = o2_MaxDurationShouldTransmitAcceptedReport o2,
      p2_SharedSecretEncryptions = Some (enprotoSharedSecretEncryptions (o2_SharedSecretEncryptions o2))\<rparr>"

definition ocr2_serialize_offchainConfig ::
  "(Ocr2OffchainConfigProto \<Rightarrow> bytes option) \<Rightarrow> ocr2_offchainConfig \<Rightarrow> bytes go" where
  "ocr2_serialize_offchainConfig marshal o2 =
     (case marshal (ocr2_enprotoOffchainConfig o2) of
        None \<Rightarrow> Inl ExplicitPanic
      | Some rv \<Rightarrow> (case checkSize rv of Some _ \<Rightarrow> Inl ExplicitPanic | None \<Rightarrow> Inr rv))"

text \<open>\<open>uint8(offchainConfigProto.GetRMax())\<close> truncates.\<close>

definition ocr2_deprotoOffchainConfig :: "Ocr2OffchainConfigProto \<Rightarrow> config_error + ocr2_offchainConfig" where
  "ocr2_deprotoOffchainConfig p =
     bindG (deproto_fixed ed25519_PublicKeySize BadOffchainPublicKey (p2_OffchainPublicKeys p)) (\<lambda>offchainPublicKeys.
     bindG (deprotoSharedSecretEncryptions (p2_SharedSecretEncryptions p)) (\<lambda>sharedSecretEncryptions. Inr
       \<lparr>o2_DeltaProgress = p2_DeltaProgressNanoseconds p,
        o2_DeltaResend = p2_DeltaResendNanoseconds p,
        o2_DeltaRound = p2_DeltaRoundNanoseconds p,
        o2_DeltaGrace = p2_DeltaGraceNanoseconds p,
        o2_DeltaStage = p2_DeltaStageNanoseconds p,
        o2_RMax = ucast (p2_RMax p),
        o2_S = map uint (p2_S p),
        o2_OffchainPublicKeys = offchainPublicKeys,
        o2_PeerIDs = p2_PeerIds p,
        o2_ReportingPluginConfig = p2_ReportingPluginConfig p,
        o2_MaxDurationQuery = p2_MaxDurationQueryNanoseconds p,
        o2_MaxDurationObservation = p2_MaxDurationObservationNanoseconds p,
        o2_MaxDurationReport = p2_MaxDurationReportNanoseconds p,
        o2_MaxDurationShouldAcceptFinalizedReport = p2_MaxDurationShouldAcceptFinalizedReportNanoseconds p,
        o2_MaxDurationShouldTransmitAcceptedReport = p2_MaxDurationShouldTransmitAcceptedReportNanoseconds p,
        o2_SharedSecretEncryptions = sharedSecretEncryptions\<rparr>))"

definition ocr2_deserializeOffchainConfig ::
  "(bytes \<Rightarrow> Ocr2OffchainConfigProto option) \<Rightarrow> bytes \<Rightarrow> config_error + ocr2_offchainConfig" where
  "ocr2_deserializeOffchainConfig unmarshal b =
     (case checkSize b of
        Some err \<Rightarrow> Inl err
      | None \<Rightarrow> (case unmarshal b of None \<Rightarrow> Inl BadProtobuf | Some p \<Rightarrow> ocr2_deprotoOffchainConfig p))"

section \<open>Public configuration\<close>

definition c2_N :: "'a Ocr2PublicConfig_scheme \<Rightarrow> int" where
  "c2_N c = int (length (c2_OracleIdentities c))"

definition ocr2_CheckParameterBounds :: "'a Ocr2PublicConfig_scheme \<Rightarrow> bool" where
  "ocr2_CheckParameterBounds c \<longleftrightarrow> \<not> (c2_F c < 0 \<or> c2_F c > 255)"

definition ocr2_checkIdentityListsHaveNoDuplicates ::
  "ContractConfig \<Rightarrow> ocr2_offchainConfig \<Rightarrow> config_error option" where
  "ocr2_checkIdentityListsHaveNoDuplicates change oc =
     (let is = [0..<length (cc_Signers change)]
      in if list_ex (\<lambda>i. list_ex (\<lambda>j. i \<noteq> j \<and> cc_Signers change ! i = cc_Signers change ! j) is) is
         then Some DuplicateSigner
         else if repeats [] (o2_PeerIDs oc) then Some DuplicatePeerID
         else if repeats [] (o2_OffchainPublicKeys oc) then Some DuplicateOffchainPublicKey
         else if repeats [] (cc_Transmitters change) then Some DuplicateTransmitter
         else None)"

definition ocr2_checkIdentityListsHaveTheSameLength ::
  "ContractConfig \<Rightarrow> ocr2_offchainConfig \<Rightarrow> config_error option" where
  "ocr2_checkIdentityListsHaveTheSameLength change oc =
     (let expectedLength = length (cc_Signers change)
      in case find (\<lambda>(len, name). len \<noteq> expectedLength)
                [(length (o2_PeerIDs oc), ''peer ids''),
                 (length (o2_OffchainPublicKeys oc), ''offchain public keys''),
                 (length (cc_Transmitters change), ''transmitters''),
                 (length (sse_Encryptions (o2_SharedSecretEncryptions oc)), ''shared-secret encryptions'')]
         of None \<Rightarrow> None | Some (_, name) \<Rightarrow> Some (ListLengthMismatch name))"

definition ocr2_checkPublicConfigParameters :: "'a Ocr2PublicConfig_scheme \<Rightarrow> config_error option" where
  "ocr2_checkPublicConfigParameters cfg =
     (if \<not> (0 \<le> sint (c2_DeltaStage cfg)) then Some (NegativeDuration ''DeltaStage'')
      else if \<not> (0 \<le> sint (c2_DeltaRound cfg)) then Some (NegativeDuration ''DeltaRound'')
      else if \<not> (0 \<le> sint (c2_DeltaProgress cfg)) then Some (NegativeDuration ''DeltaProgress'')
      else if \<not> (0 \<le> sint (c2_DeltaResend cfg)) then Some (NegativeDuration ''DeltaResend'')
      else if \<not> (0 \<le> c2_F cfg \<and> c2_F cfg * 3 < c2_N cfg) then Some BadF
      else if \<not> (c2_N cfg \<le> MaxOracles) then Some TooManyOracles
      else if \<not> (0 \<le> sint (c2_DeltaGrace cfg)) then Some (NegativeDuration ''DeltaGrace'')
      else if \<not> (0 \<le> sint (c2_MaxDurationQuery cfg)) then Some (NegativeDuration ''MaxDurationQuery'')
      else if \<not> (0 \<le> sint (c2_MaxDurationObservation cfg)) then Some (NegativeDuration ''MaxDurationObservation'')
      else if \<not> (0 \<le> sint (c2_MaxDurationReport cfg)) then Some (NegativeDuration ''MaxDurationReport'')
      else if \<not> (0 \<le> sint (c2_MaxDurationShouldAcceptFinalizedReport cfg)) then Some (NegativeDuration ''MaxDurationShouldAcceptFinalizedReport'')
      else if \<not> (0 \<le> sint (c2_MaxDurationShouldTransmitAcceptedReport cfg)) then Some (NegativeDuration ''MaxDurationShouldTransmitAcceptedReport'')
      else if \<not> (sint (c2_DeltaRound cfg) < sint (c2_DeltaProgress cfg)) then Some DeltaRoundTooLarge
      else
        let sumMaxDurationsReportGeneration =
              c2_MaxDurationQuery cfg + c2_MaxDurationObservation cfg + c2_MaxDurationReport cfg
        in if \<not> (sint sumMaxDurationsReportGeneration < sint (c2_DeltaProgress cfg)) then Some SumMaxDurationsTooLarge
           else if \<not> (0 < c2_RMax cfg \<and> c2_RMax cfg < 255) then Some BadRMax
           else if \<not> (length (c2_S cfg) < 1000) then Some STooLong
           else check_S 0 (c2_S cfg))"

text \<open>200 milliseconds in nanoseconds.\<close>

definition ocr2_safeInterval :: Duration where "ocr2_safeInterval = 200 * 1000 * 1000"

definition ocr2_checkResourceExhaustion :: "'a Ocr2PublicConfig_scheme \<Rightarrow> config_error option" where
  "ocr2_checkResourceExhaustion cfg =
     (if sint (c2_DeltaProgress cfg) < sint ocr2_safeInterval then Some (ResourceExhaustion ''DeltaProgress'')
      else if sint (c2_DeltaResend cfg) < sint ocr2_safeInterval then Some (ResourceExhaustion ''DeltaResend'')
      else None)"

definition OCR2OffchainConfigVersion :: u64 where "OCR2OffchainConfigVersion = 2"

definition ocr2_publicConfigFromContractConfig ::
  "(bytes \<Rightarrow> Ocr2OffchainConfigProto option) \<Rightarrow> bool \<Rightarrow> ContractConfig \<Rightarrow>
   config_error + (Ocr2PublicConfig \<times> SharedSecretEncryptions)" where
  "ocr2_publicConfigFromContractConfig unmarshal skipResourceExhaustionChecks change =
     (if cc_OffchainConfigVersion change \<noteq> OCR2OffchainConfigVersion then Inl UnsupportedVersion
      else
        bindG (ocr2_deserializeOffchainConfig unmarshal (cc_OffchainConfig change)) (\<lambda>oc.
        bindG (check (ocr2_checkIdentityListsHaveNoDuplicates change oc)) (\<lambda>_.
        bindG (check (ocr2_checkIdentityListsHaveTheSameLength change oc)) (\<lambda>_.
        let identities = map (\<lambda>i.
              \<lparr>oi_OffchainPublicKey = o2_OffchainPublicKeys oc ! i,
               oi_OnchainPublicKey = cc_Signers change ! i,
               oi_PeerID = o2_PeerIDs oc ! i,
               oi_TransmitAccount = cc_Transmitters change ! i\<rparr>) [0..<length (cc_Signers change)];
            cfg = \<lparr>c2_DeltaProgress = o2_DeltaProgress oc,
                   c2_DeltaResend = o2_DeltaResend oc,
                   c2_DeltaRound = o2_DeltaRound oc,
                   c2_DeltaGrace = o2_DeltaGrace oc,
                   c2_DeltaStage = o2_DeltaStage oc,
                   c2_RMax = o2_RMax oc,
                   c2_S = o2_S oc,
                   c2_OracleIdentities = identities,
                   c2_ReportingPluginConfig = o2_ReportingPluginConfig oc,
                   c2_MaxDurationQuery = o2_MaxDurationQuery oc,
                   c2_MaxDurationObservation = o2_MaxDurationObservation oc,
                   c2_MaxDurationReport = o2_MaxDurationReport oc,
                   c2_MaxDurationShouldAcceptFinalizedReport = o2_MaxDurationShouldAcceptFinalizedReport oc,
                   c2_MaxDurationShouldTransmitAcceptedReport = o2_MaxDurationShouldTransmitAcceptedReport oc,
                   c2_F = uint (cc_F change),
                   c2_OnchainConfig = cc_OnchainConfig change,
                   c2_ConfigDigest = cc_ConfigDigest change\<rparr>
        in bindG (check (ocr2_checkPublicConfigParameters cfg)) (\<lambda>_.
           bindG (if skipResourceExhaustionChecks then Inr () else check (ocr2_checkResourceExhaustion cfg)) (\<lambda>_.
             Inr (cfg, o2_SharedSecretEncryptions oc)))))))"

definition ocr2_PublicConfigFromContractConfig ::
  "(bytes \<Rightarrow> Ocr2OffchainConfigProto option) \<Rightarrow> bool \<Rightarrow> ContractConfig \<Rightarrow> config_error + Ocr2PublicConfig" where
  "ocr2_PublicConfigFromContractConfig unmarshal skip change =
     bindG (ocr2_publicConfigFromContractConfig unmarshal skip change) (\<lambda>(pubcon, _). Inr pubcon)"

section \<open>Shared configuration\<close>

definition ocr2_LeaderSelectionKey :: "(bytes \<Rightarrow> bytes) \<Rightarrow> Ocr2SharedConfig \<Rightarrow> bytes" where
  "ocr2_LeaderSelectionKey keccak c =
     go_copy 16 (keccak (c2_SharedSecret c @ ascii ''chainlink offchain reporting v1 leader selection key''))"

definition ocr2_TransmissionOrderKey :: "(bytes \<Rightarrow> bytes) \<Rightarrow> Ocr2SharedConfig \<Rightarrow> bytes" where
  "ocr2_TransmissionOrderKey keccak c =
     go_copy 16 (keccak (c2_SharedSecret c @ ascii ''chainlink offchain reporting v1 transmission order key''))"

definition ocr2_SharedConfigFromContractConfig ::
  "(bytes \<Rightarrow> Ocr2OffchainConfigProto option) \<Rightarrow> (bytes \<Rightarrow> bytes option) \<Rightarrow> (bytes \<Rightarrow> bytes) \<Rightarrow>
   (bytes \<Rightarrow> bytes \<Rightarrow> bytes) \<Rightarrow> bool \<Rightarrow> ContractConfig \<Rightarrow> own_keys \<Rightarrow>
   (config_error + (Ocr2SharedConfig \<times> OracleID)) go" where
  "ocr2_SharedConfigFromContractConfig unmarshal dh keccak aes_dec skip change own =
     (case ocr2_publicConfigFromContractConfig unmarshal skip change of
        Inl err \<Rightarrow> Inr (Inl err)
      | Inr (publicConfig, encSharedSecret) \<Rightarrow>
          (case find_own own 0 (c2_OracleIdentities publicConfig) None of
             Inl err \<Rightarrow> Inr (Inl err)
           | Inr None \<Rightarrow> Inr (Inl OwnKeyNotFound)
           | Inr (Some oracleID) \<Rightarrow>
               bindG (Decrypt dh keccak aes_dec encSharedSecret oracleID) (\<lambda>r.
                 Inr (case r of
                        Inl err \<Rightarrow> Inl err
                      | Inr x \<Rightarrow> Inr (Ocr2PublicConfig.extend publicConfig \<lparr>c2_SharedSecret = x\<rparr>, oracleID)))))"

section \<open>What an accepted configuration guarantees\<close>

definition c2_ok :: "'a Ocr2PublicConfig_scheme \<Rightarrow> bool" where
  "c2_ok c \<longleftrightarrow> 0 \<le> c2_F c \<and> 3 * c2_F c < c2_N c \<and> c2_N c \<le> MaxOracles \<and>
     0 < c2_RMax c \<and> c2_RMax c < 255 \<and> (\<forall>s \<in> set (c2_S c). 0 \<le> s \<and> s \<le> MaxOracles) \<and>
     0 \<le> sint (c2_DeltaRound c) \<and> sint (c2_DeltaRound c) < sint (c2_DeltaProgress c)"

lemma ocr2_checkPublicConfigParameters_ok: "ocr2_checkPublicConfigParameters c = None \<Longrightarrow> c2_ok c"
  by (auto simp: ocr2_checkPublicConfigParameters_def c2_ok_def Let_def check_S_None split: if_splits)

lemma ocr2_noDuplicates_None:
  "ocr2_checkIdentityListsHaveNoDuplicates change oc = None \<longleftrightarrow>
     distinct (cc_Signers change) \<and> distinct (o2_PeerIDs oc) \<and>
     distinct (o2_OffchainPublicKeys oc) \<and> distinct (cc_Transmitters change)"
  by (simp add: ocr2_checkIdentityListsHaveNoDuplicates_def Let_def signers_distinct repeats_iff)

lemma ocr2_sameLength_None:
  "ocr2_checkIdentityListsHaveTheSameLength change oc = None \<longleftrightarrow>
     length (o2_PeerIDs oc) = length (cc_Signers change) \<and>
     length (o2_OffchainPublicKeys oc) = length (cc_Signers change) \<and>
     length (cc_Transmitters change) = length (cc_Signers change) \<and>
     length (sse_Encryptions (o2_SharedSecretEncryptions oc)) = length (cc_Signers change)"
  by (simp add: ocr2_checkIdentityListsHaveTheSameLength_def Let_def)

text \<open>An accepted OCR2 configuration: the protocols rely on \<open>3 F < N \<le> 31\<close>, on \<open>RMax\<close> being below 255
  (a leader adds one to a round that can equal \<open>RMax\<close>, in eight bits), on the schedule and on
  distinct keys.\<close>

lemma ocr2_accepted_config:
  assumes "ocr2_publicConfigFromContractConfig unmarshal skip change = Inr (cfg, sse)"
  shows "c2_ok cfg" and "length (sse_Encryptions sse) = length (c2_OracleIdentities cfg)"
    and "map oi_OnchainPublicKey (c2_OracleIdentities cfg) = cc_Signers change"
    and "distinct (map oi_OnchainPublicKey (c2_OracleIdentities cfg))"
    and "distinct (map oi_OffchainPublicKey (c2_OracleIdentities cfg))"
  using assms
  by (auto simp: ocr2_publicConfigFromContractConfig_def bindG_eq_Inr_iff Let_def ocr2_noDuplicates_None
      ocr2_sameLength_None identities_map dest: ocr2_checkPublicConfigParameters_ok split: if_splits
      simp del: map_map)

definition ocr2_offchainConfig_ok :: "ocr2_offchainConfig \<Rightarrow> bool" where
  "ocr2_offchainConfig_ok oc \<longleftrightarrow>
     (\<forall>s \<in> set (o2_S oc). 0 \<le> s \<and> s < 2 ^ 32) \<and>
     (\<forall>k \<in> set (o2_OffchainPublicKeys oc). length k = ed25519_PublicKeySize) \<and>
     length (sse_DiffieHellmanPoint (o2_SharedSecretEncryptions oc)) = curve25519_PointSize \<and>
     length (sse_SharedSecretHash (o2_SharedSecretEncryptions oc)) = 32 \<and>
     (\<forall>b \<in> set (sse_Encryptions (o2_SharedSecretEncryptions oc)). length b = SharedSecretSize)"

lemma ocr2_deproto_enproto:
  "ocr2_offchainConfig_ok oc \<Longrightarrow> ocr2_deprotoOffchainConfig (ocr2_enprotoOffchainConfig oc) = Inr oc"
  by (cases oc)
     (auto simp: ocr2_deprotoOffchainConfig_def ocr2_enprotoOffchainConfig_def deproto_fixed_ok
        deprotoSharedSecretEncryptions_def enprotoSharedSecretEncryptions_def ssp_get_def
        ocr2_offchainConfig_ok_def uint_word_of_int_u32 map_idI ucast_down_ucast_id is_down)

text \<open>\<open>RMax\<close> is truncated to eight bits before it is checked: a configuration that asks for 256 + r
  rounds is read as one that asks for r.\<close>

lemma RMax_is_truncated:
  "ocr2_deprotoOffchainConfig (p\<lparr>p2_RMax := r + 256\<rparr>) = ocr2_deprotoOffchainConfig (p\<lparr>p2_RMax := r\<rparr>)"
proof -
  have "(ucast (r + 256) :: u8) = ucast r"
  proof (rule word_uint_eqI)
    have "(uint r + 256) mod 4294967296 mod 256 = uint r mod 256" by (subst mod_mod_cancel) simp_all
    then show "uint (ucast (r + 256) :: u8) = uint (ucast r :: u8)"
      by (simp add: unsigned_ucast_eq take_bit_eq_mod uint_word_ariths(1))
  qed
  then show ?thesis by (simp add: ocr2_deprotoOffchainConfig_def)
qed

text \<open>A valid configuration of four oracles, one of which may be faulty.\<close>

definition ocr2_example_config :: Ocr2SharedConfig where
  "ocr2_example_config =
     \<lparr>c2_DeltaProgress = 3000, c2_DeltaResend = 200, c2_DeltaRound = 10, c2_DeltaGrace = 10, c2_DeltaStage = 100,
      c2_RMax = 3, c2_S = [1, 1, 2],
      c2_OracleIdentities = map (\<lambda>i. \<lparr>oi_OffchainPublicKey = replicate 32 i, oi_OnchainPublicKey = [i],
                                     oi_PeerID = [], oi_TransmitAccount = []\<rparr>) [0, 1, 2, 3],
      c2_ReportingPluginConfig = [], c2_MaxDurationQuery = 10, c2_MaxDurationObservation = 10,
      c2_MaxDurationReport = 10, c2_MaxDurationShouldAcceptFinalizedReport = 10,
      c2_MaxDurationShouldTransmitAcceptedReport = 10,
      c2_F = 1, c2_OnchainConfig = [], c2_ConfigDigest = replicate 32 7, c2_SharedSecret = replicate 16 9\<rparr>"

lemma ocr2_example_config_ok [simp]: "c2_ok ocr2_example_config"
  by (simp add: c2_ok_def MaxOracles_def c2_N_def) (simp add: ocr2_example_config_def)

end
