(* ===== verification/Ocr2Messages.thy ===== *)
theory Ocr2Messages
  imports Ocr2Types Ocr2Config
begin

text \<open>
  The messages of the OCR2 protocol (\<open>ocr2/protocol/message.go\<close>) with their size checks, signed
  observations (\<open>observation.go\<close>) and attested reports (\<open>attested_report.go\<close>). The methods that only
  hand a message to its component (\<open>process...\<close>) are the dispatch of the component's event loop.
\<close>

section \<open>Signed observations\<close>

record Ocr2SignedObservation =
  o2so_Observation :: bytes
  o2so_Signature :: bytes

record Ocr2AttributedSignedObservation =
  o2aso_SignedObservation :: Ocr2SignedObservation
  o2aso_Observer :: OracleID

definition observation_written :: "ReportTimestamp \<Rightarrow> bytes \<Rightarrow> bytes \<Rightarrow> bytes" where
  "observation_written repts query observation =
     rts_ConfigDigest repts @ be32 (rts_Epoch repts) @ [rts_Round repts]
     @ be64 (len64 query) @ query
     @ be64 (len64 observation) @ observation"

definition signedObservationWireMessage :: "crypto \<Rightarrow> ReportTimestamp \<Rightarrow> bytes \<Rightarrow> bytes \<Rightarrow> bytes" where
  "signedObservationWireMessage C repts query observation = sha256 C (observation_written repts query observation)"

definition ocr2_MakeSignedObservation ::
  "crypto \<Rightarrow> (bytes \<Rightarrow> bytes option) \<Rightarrow> ReportTimestamp \<Rightarrow> bytes \<Rightarrow> bytes \<Rightarrow> Ocr2SignedObservation option" where
  "ocr2_MakeSignedObservation C signer repts query observation =
     (let payload = signedObservationWireMessage C repts query observation
      in case signer payload of
           None \<Rightarrow> None
         | Some sig \<Rightarrow> Some \<lparr>o2so_Observation = observation, o2so_Signature = sig\<rparr>)"

definition ocr2_SignedObservation_Verify ::
  "crypto \<Rightarrow> Ocr2SignedObservation \<Rightarrow> ReportTimestamp \<Rightarrow> bytes \<Rightarrow> bytes \<Rightarrow> bool" where
  "ocr2_SignedObservation_Verify C so repts query publicKey =
     (if length publicKey \<noteq> ed25519_PublicKeySize then False
      else ed25519_Verify C publicKey (signedObservationWireMessage C repts query (o2so_Observation so)) (o2so_Signature so))"

section \<open>Attested reports\<close>

record AttestedReportOne =
  ar1_Skip :: bool
  ar1_Report :: bytes
  ar1_Signature :: bytes

definition MakeAttestedReportOneSkip :: AttestedReportOne where
  "MakeAttestedReportOneSkip = \<lparr>ar1_Skip = True, ar1_Report = [], ar1_Signature = []\<rparr>"

definition MakeAttestedReportOneNoskip ::
  "ReportContext \<Rightarrow> bytes \<Rightarrow> (ReportContext \<Rightarrow> bytes \<Rightarrow> bytes option) \<Rightarrow> AttestedReportOne option" where
  "MakeAttestedReportOneNoskip repctx report signer =
     (case signer repctx report of
        None \<Rightarrow> None
      | Some sig \<Rightarrow> Some \<lparr>ar1_Skip = False, ar1_Report = report, ar1_Signature = sig\<rparr>)"

definition EqualExceptSignature :: "AttestedReportOne \<Rightarrow> AttestedReportOne \<Rightarrow> bool" where
  "EqualExceptSignature rep rep2 \<longleftrightarrow> ar1_Skip rep = ar1_Skip rep2 \<and> ar1_Report rep = ar1_Report rep2"

text \<open>\<open>OnchainKeyring.Verify\<close> of the key, the context, the report and the signature is the parameter \<open>vfy\<close>.\<close>

type_synonym onchain_verify = "bytes \<Rightarrow> ReportContext \<Rightarrow> bytes \<Rightarrow> bytes \<Rightarrow> bool"

definition AttestedReportOne_Verify :: "onchain_verify \<Rightarrow> bytes \<Rightarrow> ReportContext \<Rightarrow> AttestedReportOne \<Rightarrow> bool" where
  "AttestedReportOne_Verify vfy publicKey repctx aro =
     (if ar1_Skip aro then \<not> (length (ar1_Report aro) \<noteq> 0 \<or> length (ar1_Signature aro) \<noteq> 0)
      else vfy publicKey repctx (ar1_Report aro) (ar1_Signature aro))"

record Ocr2AttestedReportMany =
  arm_Report :: bytes
  arm_AttributedSignatures :: "AttributedOnchainSignature list"

fun attested_loop ::
  "onchain_verify \<Rightarrow> OracleIdentity list \<Rightarrow> ReportContext \<Rightarrow> bytes \<Rightarrow> OracleID list \<Rightarrow> AttributedOnchainSignature list \<Rightarrow> bool" where
  "attested_loop vfy ids repctx report seen [] = True"
| "attested_loop vfy ids repctx report seen (sig # sigs) =
     (if aos_Signer sig \<in> set seen then False
      else if \<not> unat (aos_Signer sig) < length ids then False
      else if \<not> vfy (oi_OnchainPublicKey (ids ! unat (aos_Signer sig))) repctx report (aos_Signature sig) then False
      else attested_loop vfy ids repctx report (aos_Signer sig # seen) sigs)"

definition AttestedReportMany_VerifySignatures ::
  "int \<Rightarrow> onchain_verify \<Rightarrow> OracleIdentity list \<Rightarrow> ReportContext \<Rightarrow> Ocr2AttestedReportMany \<Rightarrow> bool" where
  "AttestedReportMany_VerifySignatures numSignatures vfy oracleIdentities repctx rep =
     (if numSignatures \<noteq> int (length (arm_AttributedSignatures rep)) then False
      else attested_loop vfy oracleIdentities repctx (arm_Report rep) [] (arm_AttributedSignatures rep))"

section \<open>Messages\<close>

record MessageFinal =
  mf_Epoch :: u32
  mf_Round :: u8
  mf_H :: bytes
  mf_AttestedReport :: Ocr2AttestedReportMany

datatype MessageNewEpoch = MessageNewEpoch u32

datatype MessageToReportGeneration =
    MessageObserveReq u32 u8 bytes
  | MessageObserve u32 u8 Ocr2SignedObservation
  | MessageReportReq u32 u8 bytes "Ocr2AttributedSignedObservation list"
  | MessageReport u32 u8 AttestedReportOne
  | MessageFinalM MessageFinal

datatype MessageFinalEcho = MessageFinalEcho MessageFinal

fun rg_epoch :: "MessageToReportGeneration \<Rightarrow> u32" where
  "rg_epoch (MessageObserveReq e r q) = e"
| "rg_epoch (MessageObserve e r so) = e"
| "rg_epoch (MessageReportReq e r q asos) = e"
| "rg_epoch (MessageReport e r ar) = e"
| "rg_epoch (MessageFinalM m) = mf_Epoch m"

datatype Ocr2Message =
    Ocr2ToPacemaker MessageNewEpoch
  | Ocr2ToReportGeneration MessageToReportGeneration
  | Ocr2ToReportFinalization MessageFinalEcho

record Ocr2ReportingPluginLimits =
  rpl_MaxQueryLength :: int
  rpl_MaxObservationLength :: int
  rpl_MaxReportLength :: int

definition MessageFinal_CheckSize :: "Ocr2ReportingPluginLimits \<Rightarrow> MessageFinal \<Rightarrow> bool" where
  "MessageFinal_CheckSize limits m \<longleftrightarrow>
     int (length (arm_AttributedSignatures (mf_AttestedReport m))) \<le> MaxOracles \<and>
     int (length (arm_Report (mf_AttestedReport m))) \<le> rpl_MaxReportLength limits"

fun rg_CheckSize :: "Ocr2ReportingPluginLimits \<Rightarrow> MessageToReportGeneration \<Rightarrow> bool" where
  "rg_CheckSize limits (MessageObserveReq e r query) \<longleftrightarrow> int (length query) \<le> rpl_MaxQueryLength limits"
| "rg_CheckSize limits (MessageObserve e r so) \<longleftrightarrow> int (length (o2so_Observation so)) \<le> rpl_MaxObservationLength limits"
| "rg_CheckSize limits (MessageReportReq e r query asos) =
     (if \<not> int (length query) \<le> rpl_MaxQueryLength limits then False
      else if \<not> int (length asos) \<le> MaxOracles then False
      else list_all (\<lambda>aso. int (length (o2so_Observation (o2aso_SignedObservation aso))) \<le> rpl_MaxObservationLength limits) asos)"
| "rg_CheckSize limits (MessageReport e r ar) \<longleftrightarrow> int (length (ar1_Report ar)) \<le> rpl_MaxReportLength limits"
| "rg_CheckSize limits (MessageFinalM m) = MessageFinal_CheckSize limits m"

fun ocr2_CheckSize :: "Ocr2ReportingPluginLimits \<Rightarrow> Ocr2Message \<Rightarrow> bool" where
  "ocr2_CheckSize limits (Ocr2ToPacemaker m) = True"
| "ocr2_CheckSize limits (Ocr2ToReportGeneration m) = rg_CheckSize limits m"
| "ocr2_CheckSize limits (Ocr2ToReportFinalization (MessageFinalEcho m)) = MessageFinal_CheckSize limits m"

section \<open>Facts\<close>

lemma attested_loop_iff:
  "attested_loop vfy ids ctx report seen sigs \<longleftrightarrow>
     distinct (map aos_Signer sigs) \<and> set (map aos_Signer sigs) \<inter> set seen = {} \<and>
     (\<forall>sig \<in> set sigs. unat (aos_Signer sig) < length ids \<and>
        vfy (oi_OnchainPublicKey (ids ! unat (aos_Signer sig))) ctx report (aos_Signature sig))"
  by (induction sigs arbitrary: seen) auto

lemma AttestedReportMany_VerifySignatures_iff:
  "AttestedReportMany_VerifySignatures n vfy ids ctx rep \<longleftrightarrow>
     int (length (arm_AttributedSignatures rep)) = n \<and> distinct (map aos_Signer (arm_AttributedSignatures rep)) \<and>
     (\<forall>sig \<in> set (arm_AttributedSignatures rep). unat (aos_Signer sig) < length ids \<and>
        vfy (oi_OnchainPublicKey (ids ! unat (aos_Signer sig))) ctx (arm_Report rep) (aos_Signature sig))"
  by (auto simp: AttestedReportMany_VerifySignatures_def attested_loop_iff)

text \<open>What is signed determines timestamp, query and observation.\<close>

lemma be32_inj: "be32 x = be32 y \<Longrightarrow> x = y"
proof (rule bit_word_eqI)
  fix n assume eq: "be32 x = be32 y" and "n < LENGTH(32)"
  then have n: "n div 8 < 4" "8 * (n div 8) + n mod 8 = n" by auto
  have "be32 z ! (3 - k) = ucast (drop_bit (8 * k) z)" if "k < 4" for k z
  proof -
    have "k \<in> {0, 1, 2, 3}" using that by auto
    then show ?thesis by (auto simp: be32_def)
  qed
  then have "(ucast (drop_bit (8 * (n div 8)) x) :: u8) = ucast (drop_bit (8 * (n div 8)) y)"
    using n(1) eq by metis
  then have "bit (ucast (drop_bit (8 * (n div 8)) x) :: u8) (n mod 8)
           = bit (ucast (drop_bit (8 * (n div 8)) y) :: u8) (n mod 8)"
    by simp
  then show "bit x n = bit y n"
    using n by (simp add: bit_ucast_iff bit_drop_bit_eq)
qed

lemma observation_written_inj:
  assumes "observation_written ts q ob = observation_written ts' q' ob'"
    "length (rts_ConfigDigest ts) = length (rts_ConfigDigest ts')"
    "length q < 2 ^ 64" "length q' < 2 ^ 64"
  shows "ts = ts' \<and> q = q' \<and> ob = ob'"
proof -
  have "rts_ConfigDigest ts = rts_ConfigDigest ts'" and 1: "be32 (rts_Epoch ts) @ rts_Round ts # be64 (len64 q) @ q @ be64 (len64 ob) @ ob =
      be32 (rts_Epoch ts') @ rts_Round ts' # be64 (len64 q') @ q' @ be64 (len64 ob') @ ob'"
    using assms(1,2) by (auto simp: observation_written_def)
  moreover have e: "be32 (rts_Epoch ts) = be32 (rts_Epoch ts')" "rts_Round ts = rts_Round ts'"
    "be64 (len64 q) @ q @ be64 (len64 ob) @ ob = be64 (len64 q') @ q' @ be64 (len64 ob') @ ob'"
    using 1 by (auto simp: append_eq_append_conv)
  moreover have l: "(len64 q :: u64) = len64 q'" "q @ be64 (len64 ob) @ ob = q' @ be64 (len64 ob') @ ob'"
    using e(3) by (auto simp: append_eq_append_conv)
  moreover have "length q = length q'"
    using l(1) assms(3,4) unfolding len64_def by (simp add: word_of_nat_eq_iff take_bit_nat_eq_self)
  ultimately have "q = q'" "be64 (len64 ob) @ ob = be64 (len64 ob') @ ob'" by auto
  then show ?thesis
    using \<open>rts_ConfigDigest ts = _\<close> e(1,2) be32_inj by (cases ts; cases ts') auto
qed

end
