(* ===== verification/Ocr2RepGen.thy ===== *)
theory Ocr2RepGen
  imports Ocr2Messages
begin

text \<open>
  Report generation of OCR2 (\<open>ocr2/protocol/report_generation.go\<close>,
  \<open>report_generation_leader.go\<close>, \<open>report_generation_follower.go\<close>): one instance per epoch, in which
  the leader collects signed observations, the followers sign the report that the plugin makes of
  them, and the leader gathers the signatures. The plugin, the key rings and cancellation answer
  through the environment; the answers may depend on the number of calls made so far. Every
  message sent, event passed on and signature made is recorded in a log.
\<close>

section \<open>State and environment\<close>

datatype Ocr2EventToPacemaker = EventProgress | EventChangeLeader

datatype rg_effect =
    RgSignedObservation ReportTimestamp bytes bytes
  | RgSignedReport ReportContext bytes
  | RgSendTo MessageToReportGeneration OracleID
  | RgBroadcast MessageToReportGeneration
  | RgToPacemaker Ocr2EventToPacemaker
  | RgToReportFinalization MessageFinal
  | RgRoundStarted bytes u32 u8 OracleID

datatype rg_phase = phaseObserve | phaseGrace | phaseReport | phaseFinal

record rg_leaderState =
  rl_r :: u8
  rl_q :: bytes
  rl_observe :: "Ocr2SignedObservation option list"
  rl_report :: "AttestedReportOne option list"
  rl_tRound :: "Duration timer"
  rl_readyToStartRound :: bool
  rl_tGrace :: "Duration timer"
  rl_phase :: rg_phase
  rl_h :: bytes

record rg_followerState =
  rf_r :: u8
  rf_sentReport :: bool
  rf_completedRound :: bool

record reportGenerationState =
  rg_leaderState :: rg_leaderState
  rg_followerState :: rg_followerState
  rg_calls :: nat
  rg_log :: "rg_effect list"

record rg_env =
  ge_crypto :: crypto
  ge_config :: Ocr2SharedConfig
  ge_e :: u32
  ge_id :: OracleID
  ge_l :: OracleID
  ge_OffchainPublicKey :: bytes
  ge_OffchainSign :: "nat \<Rightarrow> bytes \<Rightarrow> bytes option"
  ge_OnchainPublicKey :: bytes
  ge_OnchainSign :: "nat \<Rightarrow> ReportContext \<Rightarrow> bytes \<Rightarrow> bytes option"
  ge_OnchainVerify :: onchain_verify
  ge_Query :: "nat \<Rightarrow> ReportTimestamp \<Rightarrow> bytes option"
  ge_Observation :: "nat \<Rightarrow> ReportTimestamp \<Rightarrow> bytes \<Rightarrow> bytes option"
  ge_Report :: "nat \<Rightarrow> ReportTimestamp \<Rightarrow> bytes \<Rightarrow> AttributedObservation list \<Rightarrow> (bool \<times> bytes) option"
  ge_reportQuorum :: int
  ge_done :: "nat \<Rightarrow> bool"

abbreviation rg_N :: "rg_env \<Rightarrow> int" where "rg_N env \<equiv> c2_N (ge_config env)"

abbreviation rg_F :: "rg_env \<Rightarrow> int" where "rg_F env \<equiv> c2_F (ge_config env)"

definition rg_emit :: "rg_effect \<Rightarrow> reportGenerationState \<Rightarrow> reportGenerationState" where
  "rg_emit eff st = st\<lparr>rg_log := rg_log st @ [eff]\<rparr>"

definition rg_tick :: "reportGenerationState \<Rightarrow> reportGenerationState" where
  "rg_tick st = st\<lparr>rg_calls := Suc (rg_calls st)\<rparr>"

definition upd_rl :: "(rg_leaderState \<Rightarrow> rg_leaderState) \<Rightarrow> reportGenerationState \<Rightarrow> reportGenerationState" where
  "upd_rl f st = st\<lparr>rg_leaderState := f (rg_leaderState st)\<rparr>"

definition upd_rf :: "(rg_followerState \<Rightarrow> rg_followerState) \<Rightarrow> reportGenerationState \<Rightarrow> reportGenerationState" where
  "upd_rf f st = st\<lparr>rg_followerState := f (rg_followerState st)\<rparr>"

text \<open>\<open>select { case ch <- ev: case <-ctx.Done(): }\<close>: the event is dropped when the instance is being
  cancelled.\<close>

definition rg_trySend :: "rg_env \<Rightarrow> rg_effect \<Rightarrow> reportGenerationState \<Rightarrow> reportGenerationState" where
  "rg_trySend env eff st =
     (let cancelled = ge_done env (rg_calls st); st = rg_tick st
      in if cancelled then st else rg_emit eff st)"

definition followerReportTimestamp :: "rg_env \<Rightarrow> reportGenerationState \<Rightarrow> ReportTimestamp" where
  "followerReportTimestamp env st =
     \<lparr>rts_ConfigDigest = c2_ConfigDigest (ge_config env), rts_Epoch = ge_e env, rts_Round = rf_r (rg_followerState st)\<rparr>"

definition leaderReportTimestamp :: "rg_env \<Rightarrow> reportGenerationState \<Rightarrow> ReportTimestamp" where
  "leaderReportTimestamp env st =
     \<lparr>rts_ConfigDigest = c2_ConfigDigest (ge_config env), rts_Epoch = ge_e env, rts_Round = rl_r (rg_leaderState st)\<rparr>"

definition context_ao_written :: "AttributedObservation \<Rightarrow> bytes" where
  "context_ao_written ao = be64 (len64 (ao_Observation ao)) @ ao_Observation ao @ [ao_Observer ao]"

definition context_written :: "bytes \<Rightarrow> AttributedObservation list \<Rightarrow> bytes" where
  "context_written query aos = be64 (len64 query) @ query @ be64 (len64 aos) @ concat (map context_ao_written aos)"

text \<open>The result is copied into an array of 32 bytes; another digest size panics.\<close>

definition reportContextHash :: "crypto \<Rightarrow> bytes \<Rightarrow> AttributedObservation list \<Rightarrow> bytes go" where
  "reportContextHash C query aos =
     (let hash = sha256 C (context_written query aos)
      in if length hash \<noteq> 32 then Inl ExplicitPanic else Inr (go_copy 32 hash))"

section \<open>Leader\<close>

definition startRound :: "rg_env \<Rightarrow> reportGenerationState \<Rightarrow> reportGenerationState" where
  "startRound env st =
     (if \<not> rl_readyToStartRound (rg_leaderState st) then upd_rl (\<lambda>s. s\<lparr>rl_readyToStartRound := True\<rparr>) st
      else if rl_r (rg_leaderState st) > c2_RMax (ge_config env) then st
      else
        let rPlusOne = rl_r (rg_leaderState st) + 1
        in if rPlusOne \<le> rl_r (rg_leaderState st) then st
        else
          let st = upd_rl (\<lambda>s. s\<lparr>rl_r := rPlusOne, rl_observe := replicate (nat (rg_N env)) None,
                     rl_report := replicate (nat (rg_N env)) None,
                     rl_tRound := TArmed (c2_DeltaRound (ge_config env)), rl_readyToStartRound := False\<rparr>) st;
              q = ge_Query env (rg_calls st) (leaderReportTimestamp env st);
              st = rg_tick st
          in case q of
               None \<Rightarrow> st
             | Some query \<Rightarrow>
                 rg_emit (RgBroadcast (MessageObserveReq (ge_e env) rPlusOne query))
                   (upd_rl (\<lambda>s. s\<lparr>rl_q := query, rl_h := replicate 32 0, rl_phase := phaseObserve\<rparr>) st))"

definition rg_eventTRoundTimeout :: "rg_env \<Rightarrow> reportGenerationState \<Rightarrow> reportGenerationState" where
  "rg_eventTRoundTimeout env st = startRound env st"

definition messageObserve ::
  "rg_env \<Rightarrow> u32 \<Rightarrow> u8 \<Rightarrow> Ocr2SignedObservation \<Rightarrow> OracleID \<Rightarrow> reportGenerationState \<Rightarrow> reportGenerationState go" where
  "messageObserve env epoch round so sender st =
     (if epoch \<noteq> ge_e env then Inr st
      else if ge_l env \<noteq> ge_id env then Inr st
      else if round \<noteq> rl_r (rg_leaderState st) then Inr st
      else if rl_phase (rg_leaderState st) \<noteq> phaseObserve \<and> rl_phase (rg_leaderState st) \<noteq> phaseGrace then Inr st
      else
        bindG (go_index (rl_observe (rg_leaderState st)) (unat sender)) (\<lambda>old.
        if old \<noteq> None then Inr st
        else
          bindG (go_index (c2_OracleIdentities (ge_config env)) (unat sender)) (\<lambda>identity.
          if \<not> ocr2_SignedObservation_Verify (ge_crypto env) so (leaderReportTimestamp env st)
                 (rl_q (rg_leaderState st)) (oi_OffchainPublicKey identity) then Inr st
          else
            let st = upd_rl (\<lambda>s. s\<lparr>rl_observe := (rl_observe s)[unat sender := Some so]\<rparr>) st
            in Inr (case rl_phase (rg_leaderState st) of
                 phaseObserve \<Rightarrow>
                   let observationCount = int (length (filter (\<lambda>so. so \<noteq> None) (rl_observe (rg_leaderState st))))
                   in if observationCount > 2 * rg_F env
                      then upd_rl (\<lambda>s. s\<lparr>rl_tGrace := TArmed (c2_DeltaGrace (ge_config env)), rl_phase := phaseGrace\<rparr>) st
                      else st
               | phaseGrace \<Rightarrow> st
               | phaseFinal \<Rightarrow> st
               | phaseReport \<Rightarrow> st))))"

text \<open>The loop over \<open>observe\<close>, from index \<open>oid\<close>.\<close>

fun collect_asos :: "nat \<Rightarrow> Ocr2SignedObservation option list \<Rightarrow> Ocr2AttributedSignedObservation list" where
  "collect_asos oid [] = []"
| "collect_asos oid (None # sos) = collect_asos (Suc oid) sos"
| "collect_asos oid (Some so # sos) =
     \<lparr>o2aso_SignedObservation = so, o2aso_Observer = of_nat oid\<rparr> # collect_asos (Suc oid) sos"

definition aos_of :: "Ocr2AttributedSignedObservation list \<Rightarrow> AttributedObservation list" where
  "aos_of asos = map (\<lambda>aso. \<lparr>ao_Observation = o2so_Observation (o2aso_SignedObservation aso),
                            ao_Observer = o2aso_Observer aso\<rparr>) asos"

definition rg_eventTGraceTimeout :: "rg_env \<Rightarrow> reportGenerationState \<Rightarrow> reportGenerationState go" where
  "rg_eventTGraceTimeout env st =
     (if rl_phase (rg_leaderState st) \<noteq> phaseGrace then Inr st
      else
        let asos = collect_asos 0 (rl_observe (rg_leaderState st)); aos = aos_of asos;
            st = rg_emit (RgBroadcast (MessageReportReq (ge_e env) (rl_r (rg_leaderState st)) (rl_q (rg_leaderState st)) asos)) st
        in bindG (reportContextHash (ge_crypto env) (rl_q (rg_leaderState st)) aos) (\<lambda>h.
             Inr (upd_rl (\<lambda>s. s\<lparr>rl_h := h, rl_phase := phaseReport\<rparr>) st)))"

text \<open>The loop over \<open>report\<close>, from index \<open>oid\<close>: the signatures on reports equal to the one received.\<close>

fun collect_ass :: "AttestedReportOne \<Rightarrow> nat \<Rightarrow> AttestedReportOne option list \<Rightarrow> AttributedOnchainSignature list" where
  "collect_ass ar oid [] = []"
| "collect_ass ar oid (r # rs) =
     (case r of
        None \<Rightarrow> collect_ass ar (Suc oid) rs
      | Some report \<Rightarrow>
          if EqualExceptSignature report ar
          then \<lparr>aos_Signature = ar1_Signature report, aos_Signer = of_nat oid\<rparr> # collect_ass ar (Suc oid) rs
          else collect_ass ar (Suc oid) rs)"

definition messageReport ::
  "rg_env \<Rightarrow> u32 \<Rightarrow> u8 \<Rightarrow> AttestedReportOne \<Rightarrow> OracleID \<Rightarrow> reportGenerationState \<Rightarrow> reportGenerationState go" where
  "messageReport env epoch round ar sender st =
     (if epoch \<noteq> ge_e env then Inr st
      else if ge_l env \<noteq> ge_id env then Inr st
      else if round \<noteq> rl_r (rg_leaderState st) then Inr st
      else if rl_phase (rg_leaderState st) \<noteq> phaseReport then Inr st
      else
        bindG (go_index (rl_report (rg_leaderState st)) (unat sender)) (\<lambda>old.
        if old \<noteq> None then Inr st
        else
          bindG (go_index (c2_OracleIdentities (ge_config env)) (unat sender)) (\<lambda>identity.
          if \<not> AttestedReportOne_Verify (ge_OnchainVerify env) (oi_OnchainPublicKey identity)
                 \<lparr>rctx_ReportTimestamp = leaderReportTimestamp env st, rctx_ExtraHash = rl_h (rg_leaderState st)\<rparr> ar
          then Inr st
          else
            let st = upd_rl (\<lambda>s. s\<lparr>rl_report := (rl_report s)[unat sender := Some ar]\<rparr>) st;
                ass = collect_ass ar 0 (rl_report (rg_leaderState st))
            in if ge_reportQuorum env \<le> int (length ass)
               then
                 let st = (if \<not> ar1_Skip ar
                           then rg_emit (RgBroadcast (MessageFinalM
                                  \<lparr>mf_Epoch = ge_e env, mf_Round = rl_r (rg_leaderState st), mf_H = rl_h (rg_leaderState st),
                                   mf_AttestedReport = \<lparr>arm_Report = ar1_Report ar, arm_AttributedSignatures = ass\<rparr>\<rparr>)) st
                           else st)
                 in Inr (startRound env (upd_rl (\<lambda>s. s\<lparr>rl_phase := phaseFinal\<rparr>) st))
               else Inr st)))"

section \<open>Follower\<close>

definition messageObserveReq ::
  "rg_env \<Rightarrow> u32 \<Rightarrow> u8 \<Rightarrow> bytes \<Rightarrow> OracleID \<Rightarrow> reportGenerationState \<Rightarrow> reportGenerationState" where
  "messageObserveReq env epoch round query sender st =
     (if epoch \<noteq> ge_e env then st
      else if sender \<noteq> ge_l env then st
      else if round \<le> rf_r (rg_followerState st) then st
      else if uint (c2_RMax (ge_config env)) + 1 < uint round then st
      else
        let st = upd_rf (\<lambda>f. f\<lparr>rf_r := round\<rparr>) st
        in if rf_r (rg_followerState st) > c2_RMax (ge_config env)
           then rg_trySend env (RgToPacemaker EventChangeLeader) st
           else
             let st = upd_rf (\<lambda>f. f\<lparr>rf_sentReport := False, rf_completedRound := False\<rparr>) st;
                 st = rg_emit (RgRoundStarted (c2_ConfigDigest (ge_config env)) (ge_e env) (rf_r (rg_followerState st)) (ge_l env)) st;
                 ts = followerReportTimestamp env st;
                 obs = ge_Observation env (rg_calls st) ts query;
                 st = rg_tick st
             in case obs of
                  None \<Rightarrow> st
                | Some ob \<Rightarrow>
                    let signed = ocr2_MakeSignedObservation (ge_crypto env) (ge_OffchainSign env (rg_calls st)) ts query ob;
                        st = rg_tick st
                    in case signed of
                         None \<Rightarrow> st
                       | Some so \<Rightarrow>
                           let st = rg_emit (RgSignedObservation ts query ob) st
                           in if \<not> ocr2_SignedObservation_Verify (ge_crypto env) so ts query (ge_OffchainPublicKey env) then st
                              else rg_emit (RgSendTo (MessageObserve (ge_e env) (rf_r (rg_followerState st)) so) (ge_l env)) st)"

definition completeRound :: "rg_env \<Rightarrow> reportGenerationState \<Rightarrow> reportGenerationState" where
  "completeRound env st =
     rg_trySend env (RgToPacemaker EventProgress) (upd_rf (\<lambda>f. f\<lparr>rf_completedRound := True\<rparr>) st)"

text \<open>The loop of \<open>verifyReportReq\<close>: the observers counted, or \<open>None\<close> for an error. The identity of an
  observer is read after its bounds check.\<close>

fun verify_req_loop ::
  "rg_env \<Rightarrow> ReportTimestamp \<Rightarrow> bytes \<Rightarrow> OracleID list \<Rightarrow> Ocr2AttributedSignedObservation list \<Rightarrow> OracleID list option go" where
  "verify_req_loop env ts query counted [] = Inr (Some counted)"
| "verify_req_loop env ts query counted (obs # asos) =
     (if rg_N env \<le> int (unat (o2aso_Observer obs)) then Inr None
      else if o2aso_Observer obs \<in> set counted then Inr None
      else
        let counted = o2aso_Observer obs # counted
        in bindG (go_index (c2_OracleIdentities (ge_config env)) (unat (o2aso_Observer obs))) (\<lambda>identity.
             if \<not> ocr2_SignedObservation_Verify (ge_crypto env) (o2aso_SignedObservation obs) ts query (oi_OffchainPublicKey identity)
             then Inr None
             else verify_req_loop env ts query counted asos))"

definition verifyReportReq ::
  "rg_env \<Rightarrow> bytes \<Rightarrow> Ocr2AttributedSignedObservation list \<Rightarrow> reportGenerationState \<Rightarrow> bool go" where
  "verifyReportReq env query asos st =
     bindG (verify_req_loop env (followerReportTimestamp env st) query [] asos) (\<lambda>r.
       case r of
         None \<Rightarrow> Inr False
       | Some counted \<Rightarrow> Inr (\<not> int (length counted) \<le> 2 * rg_F env))"

text \<open>The end of \<open>messageReportReq\<close>: attest to the report, or to there being none, and tell the leader.\<close>

definition attestReport :: "rg_env \<Rightarrow> ReportContext \<Rightarrow> bool \<Rightarrow> bytes \<Rightarrow> reportGenerationState \<Rightarrow> reportGenerationState" where
  "attestReport env repctx shouldReport report st =
     (let (attested, st) =
            (if shouldReport
             then (case MakeAttestedReportOneNoskip repctx report (ge_OnchainSign env (rg_calls st)) of
                     None \<Rightarrow> (None, rg_tick st)
                   | Some ar \<Rightarrow> (Some ar, rg_emit (RgSignedReport repctx report) (rg_tick st)))
             else (Some MakeAttestedReportOneSkip, completeRound env st))
      in case attested of
           None \<Rightarrow> st
         | Some attestedReport \<Rightarrow>
             if \<not> AttestedReportOne_Verify (ge_OnchainVerify env) (ge_OnchainPublicKey env) repctx attestedReport then st
             else rg_emit (RgSendTo (MessageReport (ge_e env) (rf_r (rg_followerState st)) attestedReport) (ge_l env))
                    (upd_rf (\<lambda>f. f\<lparr>rf_sentReport := True\<rparr>) st))"

definition messageReportReq ::
  "rg_env \<Rightarrow> u32 \<Rightarrow> u8 \<Rightarrow> bytes \<Rightarrow> Ocr2AttributedSignedObservation list \<Rightarrow> OracleID \<Rightarrow>
   reportGenerationState \<Rightarrow> reportGenerationState go" where
  "messageReportReq env epoch round query asos sender st =
     (if ge_e env \<noteq> epoch then Inr st
      else if sender \<noteq> ge_l env then Inr st
      else if rf_r (rg_followerState st) \<noteq> round then Inr st
      else if rf_sentReport (rg_followerState st) then Inr st
      else if rf_completedRound (rg_followerState st) then Inr st
      else
        bindG (verifyReportReq env query asos st) (\<lambda>ok.
        if \<not> ok then Inr st
        else
          let aos = aos_of asos;
              ts = followerReportTimestamp env st;
              result = ge_Report env (rg_calls st) ts query aos;
              st = rg_tick st
          in case result of
               None \<Rightarrow> Inr st
             | Some (shouldReport, report) \<Rightarrow>
                 bindG (reportContextHash (ge_crypto env) query aos) (\<lambda>h.
                 Inr (attestReport env \<lparr>rctx_ReportTimestamp = ts, rctx_ExtraHash = h\<rparr> shouldReport report st))))"

definition messageFinal :: "rg_env \<Rightarrow> MessageFinal \<Rightarrow> OracleID \<Rightarrow> reportGenerationState \<Rightarrow> reportGenerationState" where
  "messageFinal env msg sender st =
     (if mf_Epoch msg \<noteq> ge_e env then st
      else if mf_Round msg \<noteq> rf_r (rg_followerState st) then st
      else if sender \<noteq> ge_l env then st
      else if \<not> AttestedReportMany_VerifySignatures (ge_reportQuorum env) (ge_OnchainVerify env)
                 (c2_OracleIdentities (ge_config env))
                 \<lparr>rctx_ReportTimestamp = followerReportTimestamp env st, rctx_ExtraHash = mf_H msg\<rparr> (mf_AttestedReport msg)
      then st
      else completeRound env (rg_trySend env (RgToReportFinalization msg) st))"

section \<open>The event loop\<close>

definition rg_zero :: "rg_env \<Rightarrow> reportGenerationState" where
  "rg_zero env =
     \<lparr>rg_leaderState = \<lparr>rl_r = 0, rl_q = [], rl_observe = [], rl_report = replicate (nat (rg_N env)) None,
        rl_tRound = TNil, rl_readyToStartRound = False, rl_tGrace = TNil, rl_phase = phaseObserve, rl_h = replicate 32 0\<rparr>,
      rg_followerState = \<lparr>rf_r = 0, rf_sentReport = False, rf_completedRound = False\<rparr>,
      rg_calls = 0, rg_log = []\<rparr>"

definition rg_init :: "rg_env \<Rightarrow> reportGenerationState" where
  "rg_init env = (if ge_id env = ge_l env then startRound env (startRound env (rg_zero env)) else rg_zero env)"

datatype rg_case = RgMessage MessageToReportGeneration OracleID | RgTGrace | RgTRound

fun rg_ready :: "reportGenerationState \<Rightarrow> rg_case \<Rightarrow> bool" where
  "rg_ready st (RgMessage msg sender) = True"
| "rg_ready st RgTGrace = (case rl_tGrace (rg_leaderState st) of TArmed d \<Rightarrow> True | _ \<Rightarrow> False)"
| "rg_ready st RgTRound = (case rl_tRound (rg_leaderState st) of TArmed d \<Rightarrow> True | _ \<Rightarrow> False)"

fun rg_process :: "rg_env \<Rightarrow> rg_case \<Rightarrow> reportGenerationState \<Rightarrow> reportGenerationState go" where
  "rg_process env (RgMessage (MessageObserveReq e r q) sender) st = Inr (messageObserveReq env e r q sender st)"
| "rg_process env (RgMessage (MessageObserve e r so) sender) st = messageObserve env e r so sender st"
| "rg_process env (RgMessage (MessageReportReq e r q asos) sender) st = messageReportReq env e r q asos sender st"
| "rg_process env (RgMessage (MessageReport e r ar) sender) st = messageReport env e r ar sender st"
| "rg_process env (RgMessage (MessageFinalM msg) sender) st = Inr (messageFinal env msg sender st)"
| "rg_process env RgTGrace st = rg_eventTGraceTimeout env (upd_rl (\<lambda>s. s\<lparr>rl_tGrace := TFired\<rparr>) st)"
| "rg_process env RgTRound st = Inr (rg_eventTRoundTimeout env (upd_rl (\<lambda>s. s\<lparr>rl_tRound := TFired\<rparr>) st))"

inductive rg_step :: "rg_env \<Rightarrow> reportGenerationState \<Rightarrow> reportGenerationState \<Rightarrow> bool" for env where
  rg_stepI: "rg_ready st c \<Longrightarrow> rg_process env c st = Inr st' \<Longrightarrow> rg_step env st st'"

inductive rg_reach :: "rg_env \<Rightarrow> reportGenerationState \<Rightarrow> bool" for env where
  rg_reach_init: "rg_reach env (rg_init env)"
| rg_reach_step: "rg_reach env st \<Longrightarrow> rg_step env st st' \<Longrightarrow> rg_reach env st'"

inductive_cases rg_stepE: "rg_step env st st'"

text \<open>A given sequence of cases, as long as they are ready and nothing panics.\<close>

fun rg_run :: "rg_env \<Rightarrow> reportGenerationState \<Rightarrow> rg_case list \<Rightarrow> reportGenerationState option" where
  "rg_run env st [] = Some st"
| "rg_run env st (c # cs) =
     (if rg_ready st c then (case rg_process env c st of Inl p \<Rightarrow> None | Inr st \<Rightarrow> rg_run env st cs) else None)"

lemma rg_run_reach: "rg_reach env st \<Longrightarrow> rg_run env st cs = Some st' \<Longrightarrow> rg_reach env st'"
  by (induction env st cs rule: rg_run.induct) (auto split: if_splits sum.splits intro: rg_reach_step rg_stepI)

end
