(* ===== verification/Ocr2RepGenInv.thy ===== *)
theory Ocr2RepGenInv
  imports Ocr2RepGen
begin

text \<open>
  Invariants of OCR2 report generation: what a follower has signed in which round, and what the
  leader has collected.
\<close>

lemmas rg_upd = rg_emit_def rg_tick_def upd_rl_def upd_rf_def rg_trySend_def completeRound_def

section \<open>Leader steps leave the follower alone\<close>

text \<open>The leader's handlers only add broadcasts to the log.\<close>

definition leader_frame :: "reportGenerationState \<Rightarrow> reportGenerationState \<Rightarrow> bool" where
  "leader_frame st st' \<longleftrightarrow> rg_followerState st' = rg_followerState st \<and>
     (\<exists>ms. rg_log st' = rg_log st @ map RgBroadcast ms)"

lemma leader_frame_refl [simp]: "leader_frame st st"
  unfolding leader_frame_def by (auto intro: exI [of _ "[]"])

lemma leader_frame_trans: "leader_frame st st' \<Longrightarrow> leader_frame st' st'' \<Longrightarrow> leader_frame st st''"
  unfolding leader_frame_def by (metis append.assoc map_append)

lemma leader_frame_upd [simp]: "leader_frame st (upd_rl f st') = leader_frame st st'"
  "leader_frame st (rg_tick st') = leader_frame st st'"
  "leader_frame (upd_rl f st) st' = leader_frame st st'"
  by (simp_all add: leader_frame_def rg_upd)

lemma leader_frame_broadcast: "leader_frame st st' \<Longrightarrow> leader_frame st (rg_emit (RgBroadcast m) st')"
  unfolding leader_frame_def by (auto simp: rg_upd intro: exI [of _ "_ @ [m]"])

lemma startRound_frame: "leader_frame st (startRound env st)"
  by (auto simp: startRound_def Let_def intro!: leader_frame_broadcast split: option.split)

lemma startRound_frameI: "leader_frame st st' \<Longrightarrow> leader_frame st (startRound env st')"
  using leader_frame_trans startRound_frame by blast

lemma messageObserve_frame: "messageObserve env e r so sender st = Inr st' \<Longrightarrow> leader_frame st st'"
  by (auto simp: messageObserve_def Let_def bindG_eq_Inr_iff split: if_splits rg_phase.splits)

lemma grace_frame: "rg_eventTGraceTimeout env st = Inr st' \<Longrightarrow> leader_frame st st'"
  by (auto simp: rg_eventTGraceTimeout_def Let_def bindG_eq_Inr_iff intro!: leader_frame_broadcast split: if_splits)

lemma messageReport_frame: "messageReport env e r ar sender st = Inr st' \<Longrightarrow> leader_frame st st'"
  by (auto simp: messageReport_def Let_def bindG_eq_Inr_iff intro!: startRound_frameI leader_frame_broadcast split: if_splits)

section \<open>What the follower signs\<close>

definition rg_ts :: "rg_env \<Rightarrow> u8 \<Rightarrow> ReportTimestamp" where
  "rg_ts env r = \<lparr>rts_ConfigDigest = c2_ConfigDigest (ge_config env), rts_Epoch = ge_e env, rts_Round = r\<rparr>"

lemma followerReportTimestamp_rg_ts: "followerReportTimestamp env st = rg_ts env (rf_r (rg_followerState st))"
  by (simp add: followerReportTimestamp_def rg_ts_def)

text \<open>The key rings sign so that they verify, or fail.\<close>

definition keyring_ok :: "rg_env \<Rightarrow> bool" where
  "keyring_ok env \<longleftrightarrow> (\<forall>k ctx rep sig. ge_OnchainSign env k ctx rep = Some sig \<longrightarrow>
     ge_OnchainVerify env (ge_OnchainPublicKey env) ctx rep sig)"

text \<open>What a set of signed observations has to be for a report on it.\<close>

definition req_verified :: "rg_env \<Rightarrow> ReportTimestamp \<Rightarrow> bytes \<Rightarrow> Ocr2AttributedSignedObservation list \<Rightarrow> bool" where
  "req_verified env ts query asos \<longleftrightarrow>
     distinct (map o2aso_Observer asos) \<and> 2 * rg_F env < int (length asos) \<and>
     (\<forall>aso \<in> set asos. int (unat (o2aso_Observer aso)) < rg_N env \<and>
        ocr2_SignedObservation_Verify (ge_crypto env) (o2aso_SignedObservation aso) ts query
          (oi_OffchainPublicKey (c2_OracleIdentities (ge_config env) ! unat (o2aso_Observer aso))))"

lemma verify_req_loop_Some:
  assumes "verify_req_loop env ts query counted asos = Inr (Some counted')" "distinct counted"
  shows "length counted' = length counted + length asos \<and> distinct (map o2aso_Observer asos) \<and>
    set (map o2aso_Observer asos) \<inter> set counted = {} \<and>
    (\<forall>aso \<in> set asos. int (unat (o2aso_Observer aso)) < rg_N env \<and>
        ocr2_SignedObservation_Verify (ge_crypto env) (o2aso_SignedObservation aso) ts query
          (oi_OffchainPublicKey (c2_OracleIdentities (ge_config env) ! unat (o2aso_Observer aso))))"
  using assms
proof (induction env ts query counted asos rule: verify_req_loop.induct)
  case (2 env ts query counted obs asos)
  then have ok: "int (unat (o2aso_Observer obs)) < rg_N env" "o2aso_Observer obs \<notin> set counted"
    "ocr2_SignedObservation_Verify (ge_crypto env) (o2aso_SignedObservation obs) ts query
       (oi_OffchainPublicKey (c2_OracleIdentities (ge_config env) ! unat (o2aso_Observer obs)))"
    "verify_req_loop env ts query (o2aso_Observer obs # counted) asos = Inr (Some counted')"
    by (auto simp: bindG_eq_Inr_iff go_index_eq_Inr split: if_splits)
  moreover have "unat (o2aso_Observer obs) < length (c2_OracleIdentities (ge_config env))"
    using ok(1) unfolding c2_N_def by (simp only: of_nat_less_iff)
  then have "go_index (c2_OracleIdentities (ge_config env)) (unat (o2aso_Observer obs)) =
      Inr (c2_OracleIdentities (ge_config env) ! unat (o2aso_Observer obs))"
    by simp
  ultimately show ?case using 2 by auto
qed simp

lemma verifyReportReq_True:
  "verifyReportReq env query asos st = Inr True \<Longrightarrow> req_verified env (followerReportTimestamp env st) query asos"
  unfolding verifyReportReq_def bindG_eq_Inr_iff
  by (auto simp: req_verified_def split: option.splits dest!: verify_req_loop_Some)

text \<open>
  The invariant: observations are only signed in the rounds 1 to \<open>RMax\<close> and are the plugin's; every
  signed report is what the plugin made of a verified request of its round; per round at most one
  report is signed, and none after the follower has sent one; reports sent are signed.
\<close>

definition report_source :: "rg_env \<Rightarrow> ReportContext \<Rightarrow> bytes \<Rightarrow> bool" where
  "report_source env ctx rep \<longleftrightarrow> (\<exists>k r query asos h.
     ctx = \<lparr>rctx_ReportTimestamp = rg_ts env r, rctx_ExtraHash = h\<rparr> \<and> req_verified env (rg_ts env r) query asos \<and>
     reportContextHash (ge_crypto env) query (aos_of asos) = Inr h \<and>
     ge_Report env k (rg_ts env r) query (aos_of asos) = Some (True, rep))"

definition observation_source :: "rg_env \<Rightarrow> ReportTimestamp \<Rightarrow> bytes \<Rightarrow> bytes \<Rightarrow> bool" where
  "observation_source env ts q ob \<longleftrightarrow> (\<exists>r k. ts = rg_ts env r \<and> 0 < r \<and> r \<le> c2_RMax (ge_config env) \<and>
     ge_Observation env k ts q = Some ob)"

definition ctx_round :: "ReportContext \<Rightarrow> u8" where
  "ctx_round ctx = rts_Round (rctx_ReportTimestamp ctx)"

definition follower_inv :: "rg_env \<Rightarrow> reportGenerationState \<Rightarrow> bool" where
  "follower_inv env st \<longleftrightarrow>
     (\<forall>ts q ob. RgSignedObservation ts q ob \<in> set (rg_log st) \<longrightarrow> observation_source env ts q ob) \<and>
     (\<forall>ctx rep. RgSignedReport ctx rep \<in> set (rg_log st) \<longrightarrow>
        report_source env ctx rep \<and> ctx_round ctx \<le> rf_r (rg_followerState st) \<and>
        (ctx_round ctx = rf_r (rg_followerState st) \<longrightarrow> rf_sentReport (rg_followerState st))) \<and>
     (\<forall>ctx rep ctx' rep'. RgSignedReport ctx rep \<in> set (rg_log st) \<longrightarrow> RgSignedReport ctx' rep' \<in> set (rg_log st) \<longrightarrow>
        ctx_round ctx = ctx_round ctx' \<longrightarrow> ctx = ctx' \<and> rep = rep')"

lemma follower_inv_frame: "follower_inv env st \<Longrightarrow> leader_frame st st' \<Longrightarrow> follower_inv env st'"
  unfolding leader_frame_def follower_inv_def by auto

lemma follower_inv_quiet:
  assumes "follower_inv env st" "rg_followerState st' = rg_followerState st \<or>
      (\<exists>b. rg_followerState st' = (rg_followerState st)\<lparr>rf_completedRound := b\<rparr>)"
    and "\<exists>es. rg_log st' = rg_log st @ es \<and> (\<forall>e \<in> set es. \<forall>ts q ob ctx rep. e \<noteq> RgSignedObservation ts q ob \<and> e \<noteq> RgSignedReport ctx rep)"
  shows "follower_inv env st'"
proof -
  have "rf_r (rg_followerState st') = rf_r (rg_followerState st)" "rf_sentReport (rg_followerState st') = rf_sentReport (rg_followerState st)"
    using assms(2) by auto
  moreover have "RgSignedObservation ts q ob \<in> set (rg_log st') \<longleftrightarrow> RgSignedObservation ts q ob \<in> set (rg_log st)"
    "RgSignedReport ctx rep \<in> set (rg_log st') \<longleftrightarrow> RgSignedReport ctx rep \<in> set (rg_log st)" for ts q ob ctx rep
    using assms(3) by fastforce+
  ultimately show ?thesis using assms(1) unfolding follower_inv_def by simp
qed

lemma messageFinal_follower: "follower_inv env st \<Longrightarrow> follower_inv env (messageFinal env msg sender st)"
  by (rule follower_inv_quiet [where st = st]) (auto simp: messageFinal_def rg_upd Let_def)

lemma completeRound_follower: "follower_inv env st \<Longrightarrow> follower_inv env (completeRound env st)"
  by (rule follower_inv_quiet [where st = st]) (auto simp: rg_upd Let_def)

lemma observeReq_follower:
  assumes "follower_inv env st"
  shows "follower_inv env (messageObserveReq env e r q sender st)"
proof -
  define st1 where "st1 = upd_rf (\<lambda>f. f\<lparr>rf_r := r\<rparr>) st"
  define st2 where "st2 = rg_emit (RgRoundStarted (c2_ConfigDigest (ge_config env)) (ge_e env) r (ge_l env))
    (upd_rf (\<lambda>f. f\<lparr>rf_sentReport := False, rf_completedRound := False\<rparr>) st1)"
  show ?thesis
  proof (cases "e = ge_e env \<and> sender = ge_l env \<and> rf_r (rg_followerState st) < r \<and>
      uint r \<le> uint (c2_RMax (ge_config env)) + 1")
    case True
    have older: "ctx_round ctx < r" if "RgSignedReport ctx rep \<in> set (rg_log st)" for ctx rep
      using assms that True unfolding follower_inv_def by (meson order.strict_trans1)
    have inv1: "follower_inv env st1"
      using assms older unfolding follower_inv_def st1_def rg_upd by (auto dest: less_imp_le)
    have inv2: "follower_inv env st2"
      using assms older unfolding follower_inv_def st2_def st1_def rg_upd by (auto dest: less_imp_le)
    show ?thesis
    proof (cases "c2_RMax (ge_config env) < r")
      case late: True
      have "follower_inv env (rg_trySend env (RgToPacemaker EventChangeLeader) st1)"
        by (rule follower_inv_quiet [OF inv1]) (auto simp: rg_upd Let_def)
      moreover have "messageObserveReq env e r q sender st = rg_trySend env (RgToPacemaker EventChangeLeader) st1"
        using True late by (auto simp: messageObserveReq_def Let_def st1_def rg_upd not_less)
      ultimately show ?thesis by simp
    next
      case False
      have r: "0 < r" "r \<le> c2_RMax (ge_config env)" using True False by (auto simp: word_gt_0)
      have eq: "messageObserveReq env e r q sender st =
        (let obs = ge_Observation env (rg_calls st) (rg_ts env r) q; st3 = rg_tick st2
         in case obs of None \<Rightarrow> st3
            | Some ob \<Rightarrow>
                let signed = ocr2_MakeSignedObservation (ge_crypto env) (ge_OffchainSign env (rg_calls st3)) (rg_ts env r) q ob;
                    st4 = rg_tick st3
                in case signed of None \<Rightarrow> st4
                   | Some so \<Rightarrow>
                       let st5 = rg_emit (RgSignedObservation (rg_ts env r) q ob) st4
                       in if \<not> ocr2_SignedObservation_Verify (ge_crypto env) so (rg_ts env r) q (ge_OffchainPublicKey env) then st5
                          else rg_emit (RgSendTo (MessageObserve (ge_e env) r so) (ge_l env)) st5)"
      proof -
        have "\<not> r \<le> rf_r (rg_followerState st)" "\<not> uint (c2_RMax (ge_config env)) + 1 < uint r"
          "\<not> r > c2_RMax (ge_config env)" "e = ge_e env" "sender = ge_l env"
          using True False by (auto simp: not_le)
        then show ?thesis
          by (simp add: messageObserveReq_def Let_def st1_def st2_def followerReportTimestamp_rg_ts rg_upd cong: option.case_cong if_cong)
      qed
      have add: "follower_inv env st'"
        if "rg_followerState st' = rg_followerState st2"
          "rg_log st' = rg_log st2 \<or> (\<exists>ob es. rg_log st' = rg_log st2 @ RgSignedObservation (rg_ts env r) q ob # es \<and>
             ge_Observation env (rg_calls st) (rg_ts env r) q = Some ob \<and>
             (es = [] \<or> (\<exists>so. es = [RgSendTo (MessageObserve (ge_e env) r so) (ge_l env)])))" for st'
      proof -
        have "observation_source env (rg_ts env r) q ob"
          if "ge_Observation env (rg_calls st) (rg_ts env r) q = Some ob" for ob
          using r that unfolding observation_source_def by blast
        then show ?thesis using inv2 that unfolding follower_inv_def by auto
      qed
      show ?thesis
        by (rule add; simp add: eq Let_def rg_upd split: option.split)
    qed
  next
    case False
    then show ?thesis using assms by (auto simp: messageObserveReq_def not_less not_le)
  qed
qed

lemma ctx_round_rg_ts [simp]: "ctx_round \<lparr>rctx_ReportTimestamp = rg_ts env r, rctx_ExtraHash = h\<rparr> = r"
  by (simp add: ctx_round_def rg_ts_def)

lemma follower_inv_signed:
  assumes "follower_inv env st" "\<And>ctx rep. RgSignedReport ctx rep \<in> set (rg_log st) \<Longrightarrow> ctx_round ctx \<noteq> rf_r (rg_followerState st)"
    and "report_source env ctx0 rep0" "ctx_round ctx0 = rf_r (rg_followerState st)"
    and "rg_log st' = rg_log st @ [RgSignedReport ctx0 rep0, RgSendTo m l]"
    and "rg_followerState st' = (rg_followerState st)\<lparr>rf_sentReport := True\<rparr>"
  shows "follower_inv env st'"
proof -
  have obs: "RgSignedObservation ts q ob \<in> set (rg_log st') \<longleftrightarrow> RgSignedObservation ts q ob \<in> set (rg_log st)" for ts q ob
    using assms(5) by simp
  have rep: "RgSignedReport ctx rep \<in> set (rg_log st') \<longleftrightarrow>
      RgSignedReport ctx rep \<in> set (rg_log st) \<or> ctx = ctx0 \<and> rep = rep0" for ctx rep
    using assms(5) by auto
  have fresh: "RgSignedReport ctx rep \<in> set (rg_log st) \<Longrightarrow> ctx_round ctx \<noteq> ctx_round ctx0" for ctx rep
    using assms(2,4) by simp
  have same: "rf_r (rg_followerState st') = rf_r (rg_followerState st)" "rf_sentReport (rg_followerState st')"
    using assms(6) by simp_all
  have "\<forall>ctx rep. RgSignedReport ctx rep \<in> set (rg_log st') \<longrightarrow> report_source env ctx rep \<and>
      ctx_round ctx \<le> rf_r (rg_followerState st)"
    using assms(1,3,4) unfolding rep follower_inv_def by (metis order_refl)
  moreover have "\<forall>ctx rep ctx' rep'. RgSignedReport ctx rep \<in> set (rg_log st') \<longrightarrow>
      RgSignedReport ctx' rep' \<in> set (rg_log st') \<longrightarrow> ctx_round ctx = ctx_round ctx' \<longrightarrow> ctx = ctx' \<and> rep = rep'"
    using assms(1) fresh unfolding rep follower_inv_def by metis
  moreover have "\<forall>ts q ob. RgSignedObservation ts q ob \<in> set (rg_log st') \<longrightarrow> observation_source env ts q ob"
    using assms(1) unfolding obs follower_inv_def by blast
  ultimately show ?thesis unfolding follower_inv_def same(1) using same(2) by simp
qed

lemma reportReq_follower:
  assumes inv: "follower_inv env st" and keys: "keyring_ok env"
    and step: "messageReportReq env e r q asos sender st = Inr st'"
  shows "follower_inv env st'"
proof (cases "st' = st")
  case False
  let ?ts = "rg_ts env (rf_r (rg_followerState st))"
  have guards: "\<not> rf_sentReport (rg_followerState st)" "verifyReportReq env q asos st = Inr True"
    "ge_e env = e" "sender = ge_l env" "rf_r (rg_followerState st) = r" "\<not> rf_completedRound (rg_followerState st)"
    using step False by (auto simp: messageReportReq_def bindG_eq_Inr_iff split: if_splits)
  have verified: "req_verified env ?ts q asos"
    using verifyReportReq_True [OF guards(2)] by (simp add: followerReportTimestamp_rg_ts)
  have fresh: "ctx_round ctx \<noteq> rf_r (rg_followerState st)" if "RgSignedReport ctx rep \<in> set (rg_log st)" for ctx rep
    using inv that guards(1) unfolding follower_inv_def by blast
  show ?thesis
  proof (cases "ge_Report env (rg_calls st) ?ts q (aos_of asos)")
    case None
    then have "st' = rg_tick st"
      using step False guards by (auto simp: messageReportReq_def Let_def followerReportTimestamp_rg_ts split: if_splits)
    then show ?thesis using inv by (intro follower_inv_quiet [OF inv]) (auto simp: rg_upd)
  next
    case (Some res)
    obtain should report where res: "res = (should, report)" by (cases res)
    obtain h where h: "reportContextHash (ge_crypto env) q (aos_of asos) = Inr h"
      using step False guards Some res
      by (auto simp: messageReportReq_def Let_def followerReportTimestamp_rg_ts bindG_eq_Inr_iff)
    let ?ctx = "\<lparr>rctx_ReportTimestamp = ?ts, rctx_ExtraHash = h\<rparr>"
    have core: "st' = attestReport env ?ctx should report (rg_tick st)"
      using step guards Some res h by (simp add: messageReportReq_def Let_def followerReportTimestamp_rg_ts)
    show ?thesis
    proof (cases "should \<and> (\<exists>sig. ge_OnchainSign env (rg_calls (rg_tick st)) ?ctx report = Some sig)")
      case True
      then obtain sig where sig: "ge_OnchainSign env (rg_calls (rg_tick st)) ?ctx report = Some sig" by blast
      then have "ge_OnchainVerify env (ge_OnchainPublicKey env) ?ctx report sig" using keys unfolding keyring_ok_def by blast
      then have st': "rg_log st' = rg_log st @ [RgSignedReport ?ctx report,
          RgSendTo (MessageReport (ge_e env) (rf_r (rg_followerState st)) \<lparr>ar1_Skip = False, ar1_Report = report, ar1_Signature = sig\<rparr>) (ge_l env)]"
        "rg_followerState st' = (rg_followerState st)\<lparr>rf_sentReport := True\<rparr>"
        using core True sig by (simp_all add: attestReport_def MakeAttestedReportOneNoskip_def AttestedReportOne_Verify_def Let_def rg_upd)
      have "report_source env ?ctx report"
        unfolding report_source_def using verified h Some res True
        by (intro exI [of _ "rg_calls st"] exI [of _ "rf_r (rg_followerState st)"] exI [of _ q] exI [of _ asos] exI [of _ h]) simp
      then show ?thesis
        using fresh by (intro follower_inv_signed [OF inv _ _ _ st']) simp_all
    next
      case noSig: False
      have "follower_inv env (rg_tick (rg_tick st))"
        by (rule follower_inv_quiet [OF inv]) (auto simp: rg_upd)
      moreover have "st' = rg_tick (rg_tick st)" if should
      proof -
        have "ge_OnchainSign env (rg_calls (rg_tick st)) ?ctx report = None" using noSig that by simp
        then have "MakeAttestedReportOneNoskip ?ctx report (ge_OnchainSign env (rg_calls (rg_tick st))) = None"
          by (simp add: MakeAttestedReportOneNoskip_def)
        then show ?thesis using core that by (simp add: attestReport_def Let_def)
      qed
      moreover have "follower_inv env st'" if "\<not> should"
      proof -
        have "st' = rg_emit (RgSendTo (MessageReport (ge_e env) (rf_r (rg_followerState st)) MakeAttestedReportOneSkip) (ge_l env))
            (upd_rf (\<lambda>f. f\<lparr>rf_sentReport := True\<rparr>) (completeRound env (rg_tick st)))"
          using core that by (simp add: attestReport_def AttestedReportOne_Verify_def MakeAttestedReportOneSkip_def Let_def rg_upd)
        then have "rf_r (rg_followerState st') = rf_r (rg_followerState st)" "rf_sentReport (rg_followerState st')"
          "RgSignedObservation ts q ob \<in> set (rg_log st') \<longleftrightarrow> RgSignedObservation ts q ob \<in> set (rg_log st)"
          "RgSignedReport ctx rep \<in> set (rg_log st') \<longleftrightarrow> RgSignedReport ctx rep \<in> set (rg_log st)" for ts q ob ctx rep
          by (simp_all add: rg_upd Let_def)
        then show ?thesis using inv fresh unfolding follower_inv_def by simp
      qed
      ultimately show ?thesis by (cases should) auto
    qed
  qed
qed (use inv in simp)

lemma follower_inv_init: "follower_inv env (rg_init env)"
proof -
  have "follower_inv env (rg_zero env)" by (simp add: follower_inv_def rg_zero_def)
  then show ?thesis
    by (auto simp: rg_init_def intro: follower_inv_frame startRound_frame)
qed

lemma follower_inv_step:
  assumes "follower_inv env st" "keyring_ok env" "rg_step env st st'"
  shows "follower_inv env st'"
proof -
  obtain c where c: "rg_process env c st = Inr st'" using assms(3) by (auto elim: rg_stepE)
  show ?thesis
  proof (cases c)
    case (RgMessage msg sender)
    then show ?thesis
      using c assms(1,2) by (cases msg)
        (auto intro: observeReq_follower reportReq_follower messageFinal_follower
          follower_inv_frame messageObserve_frame messageReport_frame)
  next
    case RgTGrace
    then have "leader_frame st st'" using c grace_frame by fastforce
    then show ?thesis using assms(1) by (rule follower_inv_frame [rotated])
  next
    case RgTRound
    then have "leader_frame st st'" using c startRound_frameI by (auto simp: rg_eventTRoundTimeout_def)
    then show ?thesis using assms(1) by (rule follower_inv_frame [rotated])
  qed
qed

lemma follower_inv_reach: "rg_reach env st \<Longrightarrow> keyring_ok env \<Longrightarrow> follower_inv env st"
  by (induction rule: rg_reach.induct) (auto intro: follower_inv_init follower_inv_step)

end
