(* ===== verification/Ocr2RepGenProps.thy ===== *)
theory Ocr2RepGenProps
  imports Ocr2RepGenInv
begin

text \<open>
  What OCR2 report generation guarantees: the reports that a correct leader finalizes pass every
  oracle's check, and with the larger quorum an (epoch, round) has one attested report.
\<close>

section \<open>Collecting signatures\<close>

lemma in_collect_ass:
  "sig \<in> set (collect_ass ar k rs) \<longleftrightarrow> (\<exists>i rep. i < length rs \<and> rs ! i = Some rep \<and> EqualExceptSignature rep ar \<and>
     sig = \<lparr>aos_Signature = ar1_Signature rep, aos_Signer = of_nat (k + i)\<rparr>)"
proof (induction rs arbitrary: k)
  case (Cons r rs)
  have split: "(\<exists>i rep. i < length (r # rs) \<and> (r # rs) ! i = Some rep \<and> P i rep) \<longleftrightarrow>
      (\<exists>rep. r = Some rep \<and> P 0 rep) \<or> (\<exists>i rep. i < length rs \<and> rs ! i = Some rep \<and> P (Suc i) rep)" for P
    by (auto simp: less_Suc_eq_0_disj)
  show ?case unfolding split using Cons [of "Suc k"] by (auto split: option.split)
qed simp

lemma collect_ass_signers:
  assumes "k + length rs \<le> 256"
  shows "distinct (map aos_Signer (collect_ass ar k rs)) \<and> (\<forall>sig \<in> set (collect_ass ar k rs). k \<le> unat (aos_Signer sig))"
  using assms
proof (induction rs arbitrary: k)
  case (Cons r rs)
  have k: "unat (of_nat k :: OracleID) = k" using Cons.prems by (simp add: unat_of_nat)
  have later: "Suc k \<le> unat (aos_Signer sig)" if "sig \<in> set (collect_ass ar (Suc k) rs)" for sig
    using Cons.IH [of "Suc k"] Cons.prems that by auto
  have ne: "aos_Signer sig \<noteq> of_nat k" if "sig \<in> set (collect_ass ar (Suc k) rs)" for sig
    using later [OF that] k by auto
  have d: "distinct (map aos_Signer (collect_ass ar (Suc k) rs))" using Cons.IH [of "Suc k"] Cons.prems by simp
  have le: "\<forall>sig \<in> set (collect_ass ar (Suc k) rs). k \<le> unat (aos_Signer sig)"
    using later by (auto dest: Suc_leD)
  show ?case
  proof (cases "\<exists>rep. r = Some rep \<and> EqualExceptSignature rep ar")
    case True
    then obtain rep where r: "r = Some rep" "EqualExceptSignature rep ar" by blast
    have "of_nat k \<notin> aos_Signer ` set (collect_ass ar (Suc k) rs)" using ne by (metis imageE)
    then show ?thesis using d le k r by simp
  next
    case False
    then have "collect_ass ar k (r # rs) = collect_ass ar (Suc k) rs" by (auto split: option.split)
    then show ?thesis using d le by simp
  qed
qed simp

lemma collect_ass_update: "length (collect_ass ar k (rs[i := x])) \<le> Suc (length (collect_ass ar k rs))"
proof (induction rs arbitrary: i k)
  case (Cons r rs)
  show ?case using Cons.IH [of "Suc k"] by (cases i) (auto split: option.split)
qed simp

lemma collect_ass_unset: "\<forall>r \<in> set rs. r = None \<Longrightarrow> collect_ass ar k rs = []"
  by (induction rs arbitrary: k) auto

section \<open>The leader\<close>

definition signed_by :: "rg_env \<Rightarrow> ReportContext \<Rightarrow> nat \<Rightarrow> AttestedReportOne \<Rightarrow> bool" where
  "signed_by env ctx i ar \<longleftrightarrow>
     AttestedReportOne_Verify (ge_OnchainVerify env) (oi_OnchainPublicKey (c2_OracleIdentities (ge_config env) ! i)) ctx ar"

definition leader_ctx :: "rg_env \<Rightarrow> reportGenerationState \<Rightarrow> ReportContext" where
  "leader_ctx env st = \<lparr>rctx_ReportTimestamp = leaderReportTimestamp env st, rctx_ExtraHash = rl_h (rg_leaderState st)\<rparr>"

definition final_ok :: "rg_env \<Rightarrow> MessageFinal \<Rightarrow> bool" where
  "final_ok env m \<longleftrightarrow> mf_Epoch m = ge_e env \<and> AttestedReportMany_VerifySignatures (ge_reportQuorum env) (ge_OnchainVerify env)
     (c2_OracleIdentities (ge_config env))
     \<lparr>rctx_ReportTimestamp = rg_ts env (mf_Round m), rctx_ExtraHash = mf_H m\<rparr> (mf_AttestedReport m)"

definition leader_inv :: "rg_env \<Rightarrow> reportGenerationState \<Rightarrow> bool" where
  "leader_inv env st \<longleftrightarrow>
     (let s = rg_leaderState st in
      length (rl_report s) = nat (rg_N env) \<and>
      (rl_phase s = phaseObserve \<or> rl_phase s = phaseGrace \<longrightarrow> (\<forall>r \<in> set (rl_report s). r = None)) \<and>
      (rl_phase s = phaseReport \<longrightarrow>
         (\<forall>i ar. i < length (rl_report s) \<longrightarrow> rl_report s ! i = Some ar \<longrightarrow> signed_by env (leader_ctx env st) i ar) \<and>
         (\<forall>ar. int (length (collect_ass ar 0 (rl_report s))) < ge_reportQuorum env)) \<and>
      (\<forall>m. RgBroadcast (MessageFinalM m) \<in> set (rg_log st) \<longrightarrow> final_ok env m))"

lemma leader_inv_cong:
  assumes "rg_leaderState st' = rg_leaderState st"
    "\<And>m. RgBroadcast (MessageFinalM m) \<in> set (rg_log st') \<Longrightarrow> RgBroadcast (MessageFinalM m) \<in> set (rg_log st)"
  shows "leader_inv env st \<Longrightarrow> leader_inv env st'"
  using assms unfolding leader_inv_def leader_ctx_def leaderReportTimestamp_def Let_def by auto

text \<open>Only these fields matter to the invariant.\<close>

lemma leader_inv_timers [simp]:
  "leader_inv env (upd_rl (\<lambda>s. s\<lparr>rl_tGrace := x\<rparr>) st) = leader_inv env st"
  "leader_inv env (upd_rl (\<lambda>s. s\<lparr>rl_tRound := x\<rparr>) st) = leader_inv env st"
  "leader_inv env (upd_rl (\<lambda>s. s\<lparr>rl_readyToStartRound := y\<rparr>) st) = leader_inv env st"
  by (simp_all add: leader_inv_def leader_ctx_def leaderReportTimestamp_def upd_rl_def Let_def)

lemma startRound_leader:
  assumes "leader_inv env st" "0 < ge_reportQuorum env"
  shows "leader_inv env (startRound env st)"
proof (cases "rl_readyToStartRound (rg_leaderState st)")
  case True
  have none: "\<forall>r \<in> set (replicate n None). r = (None :: AttestedReportOne option)" for n by simp
  show ?thesis
    using assms True
    by (auto simp: startRound_def leader_inv_def Let_def rg_upd collect_ass_unset [OF none] split: option.split)
qed (use assms in \<open>simp add: startRound_def\<close>)

lemma messageObserve_leader:
  assumes "leader_inv env st" "messageObserve env e r so sender st = Inr st'"
  shows "leader_inv env st'"
proof (cases "st' = st")
  case False
  let ?st1 = "upd_rl (\<lambda>s. s\<lparr>rl_observe := (rl_observe s)[unat sender := Some so]\<rparr>) st"
  have ph: "rl_phase (rg_leaderState st) = phaseObserve \<or> rl_phase (rg_leaderState st) = phaseGrace"
    and st': "st' = ?st1 \<or> st' = upd_rl (\<lambda>s. s\<lparr>rl_tGrace := TArmed (c2_DeltaGrace (ge_config env)), rl_phase := phaseGrace\<rparr>) ?st1"
    using assms(2) False by (auto simp: messageObserve_def Let_def bindG_eq_Inr_iff split: if_splits rg_phase.splits)
  then show ?thesis
    using assms(1) by (auto simp: leader_inv_def leader_ctx_def leaderReportTimestamp_def Let_def rg_upd)
qed (use assms in simp)

lemma grace_leader:
  assumes "leader_inv env st" "rg_eventTGraceTimeout env st = Inr st'" "0 < ge_reportQuorum env"
  shows "leader_inv env st'"
  using assms by (auto simp: rg_eventTGraceTimeout_def Let_def bindG_eq_Inr_iff leader_inv_def rg_upd collect_ass_unset
    all_set_conv_all_nth split: if_splits)

lemma messageReport_leader:
  assumes inv: "leader_inv env st" and step: "messageReport env e r ar sender st = Inr st'"
    and q: "0 < ge_reportQuorum env" and N: "rg_N env \<le> 256"
  shows "leader_inv env st'"
proof (cases "st' = st")
  case False
  let ?s = "rg_leaderState st"
  let ?reports = "(rl_report ?s)[unat sender := Some ar]"
  let ?st1 = "upd_rl (\<lambda>s. s\<lparr>rl_report := ?reports\<rparr>) st"
  let ?ass = "collect_ass ar 0 ?reports"
  let ?m = "\<lparr>mf_Epoch = ge_e env, mf_Round = rl_r ?s, mf_H = rl_h ?s,
    mf_AttestedReport = \<lparr>arm_Report = ar1_Report ar, arm_AttributedSignatures = ?ass\<rparr>\<rparr>"
  let ?st2 = "if \<not> ar1_Skip ar then rg_emit (RgBroadcast (MessageFinalM ?m)) ?st1 else ?st1"
  have guards: "rl_phase ?s = phaseReport" "unat sender < length (rl_report ?s)"
    "signed_by env (leader_ctx env st) (unat sender) ar"
    and st': "st' = (if ge_reportQuorum env \<le> int (length ?ass)
      then startRound env (upd_rl (\<lambda>s. s\<lparr>rl_phase := phaseFinal\<rparr>) ?st2) else ?st1)"
    using step False
    by (auto simp: messageReport_def Let_def bindG_eq_Inr_iff go_index_eq_Inr signed_by_def leader_ctx_def
      leaderReportTimestamp_def rg_upd split: if_splits)
  have len: "length (rl_report ?s) = nat (rg_N env)"
    and old: "\<And>i ar. i < length (rl_report ?s) \<Longrightarrow> rl_report ?s ! i = Some ar \<Longrightarrow> signed_by env (leader_ctx env st) i ar"
      "\<And>ar. int (length (collect_ass ar 0 (rl_report ?s))) < ge_reportQuorum env"
      "\<And>m. RgBroadcast (MessageFinalM m) \<in> set (rg_log st) \<Longrightarrow> final_ok env m"
    using inv guards(1) unfolding leader_inv_def Let_def by blast+
  have signed: "signed_by env (leader_ctx env st) i ar'" if "i < length ?reports" "?reports ! i = Some ar'" for i ar'
    using that old(1) guards(2,3) by (cases "i = unat sender") auto
  show ?thesis
  proof (cases "ge_reportQuorum env \<le> int (length ?ass)")
    case True
    have ids: "nat (rg_N env) = length (c2_OracleIdentities (ge_config env))" by (simp add: c2_N_def)
    have "final_ok env ?m" if "\<not> ar1_Skip ar"
      unfolding final_ok_def AttestedReportMany_VerifySignatures_iff
    proof (intro conjI ballI)
      show "mf_Epoch ?m = ge_e env" by simp
      show "int (length (arm_AttributedSignatures (mf_AttestedReport ?m))) = ge_reportQuorum env"
        using True old(2) [of ar] collect_ass_update [of ar 0 "rl_report ?s" "unat sender" "Some ar"] by simp
      show "distinct (map aos_Signer (arm_AttributedSignatures (mf_AttestedReport ?m)))"
        using collect_ass_signers [of 0 ?reports ar] len N by simp
      fix sig assume "sig \<in> set (arm_AttributedSignatures (mf_AttestedReport ?m))"
      then obtain i rep where i: "i < length ?reports" "?reports ! i = Some rep" "EqualExceptSignature rep ar"
        "sig = \<lparr>aos_Signature = ar1_Signature rep, aos_Signer = of_nat i\<rparr>"
        unfolding Ocr2AttestedReportMany.select_convs MessageFinal.select_convs in_collect_ass by auto
      have un: "unat (aos_Signer sig) = i" using i(1,4) len N by (simp add: unat_of_nat)
      show "unat (aos_Signer sig) < length (c2_OracleIdentities (ge_config env))"
        using un i(1) len ids by simp
      show "ge_OnchainVerify env (oi_OnchainPublicKey (c2_OracleIdentities (ge_config env) ! unat (aos_Signer sig)))
          \<lparr>rctx_ReportTimestamp = rg_ts env (mf_Round ?m), rctx_ExtraHash = mf_H ?m\<rparr>
          (arm_Report (mf_AttestedReport ?m)) (aos_Signature sig)"
        using signed [OF i(1,2)] i(3,4) un that
        by (simp add: signed_by_def AttestedReportOne_Verify_def leader_ctx_def leaderReportTimestamp_def rg_ts_def
          EqualExceptSignature_def)
    qed
    then have "leader_inv env (upd_rl (\<lambda>s. s\<lparr>rl_phase := phaseFinal\<rparr>) ?st2)"
      using len old(3) by (auto simp: leader_inv_def Let_def rg_upd)
    then show ?thesis using st' True startRound_leader [OF _ q] by simp
  next
    case False
    have "int (length (collect_ass ar' 0 ?reports)) < ge_reportQuorum env" for ar'
    proof (cases "EqualExceptSignature ar ar'")
      case True
      then have "EqualExceptSignature rep ar = EqualExceptSignature rep ar'" for rep
        by (auto simp: EqualExceptSignature_def)
      then have "collect_ass ar k rs = collect_ass ar' k rs" for k rs
        by (induction rs arbitrary: k) (auto split: option.split)
      then show ?thesis using False by (metis not_le)
    next
      case other: False
      have "length (collect_ass ar' k (rs[i := Some ar])) \<le> length (collect_ass ar' k rs)" for k rs i
        using other
      proof (induction rs arbitrary: k i)
        case (Cons r rs)
        then show ?case using Cons.IH [of "Suc k"] by (cases i) (auto split: option.split intro: le_SucI)
      qed simp
      then show ?thesis using old(2) [of ar'] by (metis le_less_trans of_nat_le_iff)
    qed
    then show ?thesis
      using st' False signed guards(1) len old(3)
      by (simp add: leader_inv_def Let_def rg_upd leader_ctx_def leaderReportTimestamp_def)
  qed
qed (use inv in simp)

text \<open>The follower's handlers leave the leader's state alone and broadcast nothing.\<close>

definition follower_frame :: "reportGenerationState \<Rightarrow> reportGenerationState \<Rightarrow> bool" where
  "follower_frame st st' \<longleftrightarrow> rg_leaderState st' = rg_leaderState st \<and>
     (\<forall>m. RgBroadcast m \<in> set (rg_log st') \<longrightarrow> RgBroadcast m \<in> set (rg_log st))"

lemma follower_frame_refl [simp]: "follower_frame st st"
  by (simp add: follower_frame_def)

lemma follower_frame_upd [simp]: "follower_frame st (upd_rf f st') = follower_frame st st'"
  "follower_frame st (rg_tick st') = follower_frame st st'"
  by (simp_all add: follower_frame_def rg_upd)

lemma follower_frame_emit: "follower_frame st st' \<Longrightarrow> (\<forall>m. eff \<noteq> RgBroadcast m) \<Longrightarrow> follower_frame st (rg_emit eff st')"
  by (auto simp: follower_frame_def rg_upd)

lemma follower_frame_trySend:
  "follower_frame st st' \<Longrightarrow> (\<forall>m. eff \<noteq> RgBroadcast m) \<Longrightarrow> follower_frame st (rg_trySend env eff st')"
  by (auto simp: rg_trySend_def Let_def follower_frame_emit)

lemma completeRound_frame: "follower_frame st st' \<Longrightarrow> follower_frame st (completeRound env st')"
  by (simp add: completeRound_def follower_frame_trySend)

lemmas follower_frameI = follower_frame_emit follower_frame_trySend completeRound_frame

lemma observeReq_frame: "follower_frame st (messageObserveReq env e r q sender st)"
  by (auto simp: messageObserveReq_def Let_def intro!: follower_frameI split: option.split)

lemma final_frame: "follower_frame st (messageFinal env m sender st)"
  by (auto simp: messageFinal_def intro!: follower_frameI)

lemma attestReport_frame: "follower_frame st st' \<Longrightarrow> follower_frame st (attestReport env ctx should report st')"
  by (auto simp: attestReport_def Let_def intro!: follower_frameI split: option.split)

lemma reportReq_frame: "messageReportReq env e r q asos sender st = Inr st' \<Longrightarrow> follower_frame st st'"
  by (auto simp: messageReportReq_def Let_def bindG_eq_Inr_iff intro!: attestReport_frame split: if_splits option.splits)

lemma leader_inv_frame: "leader_inv env st \<Longrightarrow> follower_frame st st' \<Longrightarrow> leader_inv env st'"
  unfolding follower_frame_def by (rule leader_inv_cong) auto

lemma leader_inv_init: "0 < ge_reportQuorum env \<Longrightarrow> leader_inv env (rg_init env)"
proof -
  assume q: "0 < ge_reportQuorum env"
  then have "leader_inv env (rg_zero env)" by (simp add: leader_inv_def rg_zero_def collect_ass_unset)
  then show ?thesis using q by (simp add: rg_init_def startRound_leader)
qed

lemma leader_inv_step:
  assumes "leader_inv env st" "0 < ge_reportQuorum env" "rg_N env \<le> 256" "rg_step env st st'"
  shows "leader_inv env st'"
proof -
  obtain c where c: "rg_process env c st = Inr st'" using assms(4) by (auto elim: rg_stepE)
  show ?thesis
  proof (cases c)
    case (RgMessage msg sender)
    then show ?thesis
      using c assms(1,2,3) by (cases msg)
        (auto intro: leader_inv_frame observeReq_frame reportReq_frame final_frame
          messageObserve_leader messageReport_leader)
  next
    case RgTGrace
    then show ?thesis
      using c assms(1,2) grace_leader [of env "upd_rl (\<lambda>s. s\<lparr>rl_tGrace := TFired\<rparr>) st" st'] by simp
  qed (use c assms in \<open>auto simp: rg_eventTRoundTimeout_def intro: startRound_leader\<close>)
qed

lemma leader_inv_reach:
  "rg_reach env st \<Longrightarrow> 0 < ge_reportQuorum env \<Longrightarrow> rg_N env \<le> 256 \<Longrightarrow> leader_inv env st"
  by (induction rule: rg_reach.induct) (auto intro: leader_inv_init leader_inv_step)

text \<open>Two instances of the same epoch at two oracles.\<close>

definition same_epoch :: "rg_env \<Rightarrow> rg_env \<Rightarrow> bool" where
  "same_epoch env env' \<longleftrightarrow> ge_config env' = ge_config env \<and> ge_e env' = ge_e env \<and> ge_l env' = ge_l env \<and>
     ge_reportQuorum env' = ge_reportQuorum env \<and> ge_OnchainVerify env' = ge_OnchainVerify env"

end
