(* ===== verification/Ocr2Plugin.thy ===== *)
theory Ocr2Plugin
  imports Ocr2Messages
begin

text \<open>
  How a reporting plugin is mounted on the OCR2 protocol: the quorum and the plugin limits that
  \<open>managed/managed_ocr2_oracle.go\<close> chooses and checks, and the wrapper
  \<open>shim.LimitCheckReportingPlugin\<close> that checks the plugin's outputs. A plugin answers \<open>None\<close> for an error.
\<close>

definition reportQuorum :: "bool \<Rightarrow> int \<Rightarrow> int \<Rightarrow> int" where
  "reportQuorum uniqueReports n f = (if uniqueReports then (n + f) sdiv 2 + 1 else f + 1)"

definition MaxMaxQueryLength :: int where "MaxMaxQueryLength = 256 * 1024 * 1024"

definition MaxMaxObservationLength :: int where "MaxMaxObservationLength = 256 * 1024 * 1024"

definition MaxMaxReportLength :: int where "MaxMaxReportLength = 256 * 1024 * 1024"

definition validateReportingPluginLimits :: "Ocr2ReportingPluginLimits \<Rightarrow> bool" where
  "validateReportingPluginLimits limits \<longleftrightarrow>
     (0 \<le> rpl_MaxQueryLength limits \<and> rpl_MaxQueryLength limits \<le> MaxMaxQueryLength) \<and>
     (0 \<le> rpl_MaxObservationLength limits \<and> rpl_MaxObservationLength limits \<le> MaxMaxObservationLength) \<and>
     (0 \<le> rpl_MaxReportLength limits \<and> rpl_MaxReportLength limits \<le> MaxMaxReportLength)"

definition LimitCheck_Query :: "Ocr2ReportingPluginLimits \<Rightarrow> bytes option \<Rightarrow> bytes option" where
  "LimitCheck_Query limits answer =
     (case answer of
        None \<Rightarrow> None
      | Some query \<Rightarrow> if \<not> int (length query) \<le> rpl_MaxQueryLength limits then None else Some query)"

definition LimitCheck_Observation :: "Ocr2ReportingPluginLimits \<Rightarrow> bytes option \<Rightarrow> bytes option" where
  "LimitCheck_Observation limits answer =
     (case answer of
        None \<Rightarrow> None
      | Some observation \<Rightarrow>
          if \<not> int (length observation) \<le> rpl_MaxObservationLength limits then None else Some observation)"

definition LimitCheck_Report :: "Ocr2ReportingPluginLimits \<Rightarrow> (bool \<times> bytes) option \<Rightarrow> (bool \<times> bytes) option" where
  "LimitCheck_Report limits answer =
     (case answer of
        None \<Rightarrow> None
      | Some (shouldReport, report) \<Rightarrow>
          if \<not> int (length report) \<le> rpl_MaxReportLength limits then None else Some (shouldReport, report))"

lemma LimitCheck_ReportD: "LimitCheck_Report limits a = Some r \<Longrightarrow> a = Some r"
  by (auto simp: LimitCheck_Report_def split: option.splits if_splits)

lemma LimitCheck_ObservationD: "LimitCheck_Observation limits a = Some r \<Longrightarrow> a = Some r"
  by (auto simp: LimitCheck_Observation_def split: option.splits if_splits)

lemma reportQuorum_bounds:
  assumes "0 \<le> f" "3 * f < n"
  shows "f < reportQuorum u n f" "reportQuorum u n f \<le> n - f" "reportQuorum True n f = byzquorum_Size n f"
  using assms bq.available [of f n] bq.overlap [of f n] unfolding reportQuorum_def byzquorum_Size_def by auto

end
