(* ===== verification/Ocr2Agreement.thy ===== *)
theory Ocr2Agreement
  imports Ocr2RepGenProps Ocr2Plugin MedianProps
begin

text \<open>
  OCR2 as a network: the correct oracles each run one report generation instance of an epoch, the
  faulty ones send anything. What an attested report then says, and, with the median plugin
  mounted, what the number in it is worth.
\<close>

section \<open>The network\<close>

definition ocr2_correct :: "Ocr2SharedConfig \<Rightarrow> OracleID set \<Rightarrow> OracleID \<Rightarrow> bool" where
  "ocr2_correct cfg faulty i \<longleftrightarrow> i \<notin> faulty \<and> int (unat i) < c2_N cfg"

text \<open>\<open>envs\<close> and \<open>sts\<close> are the environments of the correct oracles and the states they have reached.\<close>

definition rg_network ::
  "Ocr2SharedConfig \<Rightarrow> u32 \<Rightarrow> crypto \<Rightarrow> OracleID set \<Rightarrow> (OracleID \<Rightarrow> rg_env) \<Rightarrow> (OracleID \<Rightarrow> reportGenerationState) \<Rightarrow> bool" where
  "rg_network cfg e C faulty envs sts \<longleftrightarrow>
     (\<forall>i. ocr2_correct cfg faulty i \<longrightarrow>
        rg_reach (envs i) (sts i) \<and> keyring_ok (envs i) \<and> ge_config (envs i) = cfg \<and> ge_e (envs i) = e \<and>
        ge_crypto (envs i) = C)"

definition few_faulty :: "Ocr2SharedConfig \<Rightarrow> OracleID set \<Rightarrow> bool" where
  "few_faulty cfg faulty \<longleftrightarrow> 0 \<le> c2_F cfg \<and> 3 * c2_F cfg < c2_N cfg \<and> c2_N cfg \<le> 256 \<and>
     faulty \<subseteq> {i. int (unat i) < c2_N cfg} \<and> int (card faulty) \<le> c2_F cfg"

definition epoch_ctx :: "Ocr2SharedConfig \<Rightarrow> u32 \<Rightarrow> ReportContext \<Rightarrow> bool" where
  "epoch_ctx cfg e ctx \<longleftrightarrow> rts_ConfigDigest (rctx_ReportTimestamp ctx) = c2_ConfigDigest cfg \<and> rts_Epoch (rctx_ReportTimestamp ctx) = e"

text \<open>Unforgeability: a report signature of a correct oracle for this epoch was made by its instance of
  the epoch; likewise for signed observations.\<close>

definition reports_unforgeable ::
  "Ocr2SharedConfig \<Rightarrow> u32 \<Rightarrow> onchain_verify \<Rightarrow> OracleID set \<Rightarrow> (OracleID \<Rightarrow> reportGenerationState) \<Rightarrow> bool" where
  "reports_unforgeable cfg e vfy faulty sts \<longleftrightarrow>
     (\<forall>i ctx rep sig. ocr2_correct cfg faulty i \<longrightarrow> epoch_ctx cfg e ctx \<longrightarrow>
        vfy (oi_OnchainPublicKey (c2_OracleIdentities cfg ! unat i)) ctx rep sig \<longrightarrow>
        RgSignedReport ctx rep \<in> set (rg_log (sts i)))"

definition observations_unforgeable ::
  "Ocr2SharedConfig \<Rightarrow> u32 \<Rightarrow> crypto \<Rightarrow> OracleID set \<Rightarrow> (OracleID \<Rightarrow> reportGenerationState) \<Rightarrow> bool" where
  "observations_unforgeable cfg e C faulty sts \<longleftrightarrow>
     (\<forall>i so ts q. ocr2_correct cfg faulty i \<longrightarrow> rts_ConfigDigest ts = c2_ConfigDigest cfg \<longrightarrow> rts_Epoch ts = e \<longrightarrow>
        ocr2_SignedObservation_Verify C so ts q (oi_OffchainPublicKey (c2_OracleIdentities cfg ! unat i)) \<longrightarrow>
        RgSignedObservation ts q (o2so_Observation so) \<in> set (rg_log (sts i)))"

definition attested :: "Ocr2SharedConfig \<Rightarrow> onchain_verify \<Rightarrow> int \<Rightarrow> ReportContext \<Rightarrow> Ocr2AttestedReportMany \<Rightarrow> bool" where
  "attested cfg vfy quorum ctx rep \<longleftrightarrow> AttestedReportMany_VerifySignatures quorum vfy (c2_OracleIdentities cfg) ctx rep"

definition signer_set :: "Ocr2AttestedReportMany \<Rightarrow> OracleID set" where
  "signer_set rep = aos_Signer ` set (arm_AttributedSignatures rep)"

lemma attested_signers:
  assumes "attested cfg vfy quorum ctx rep"
  shows "int (card (signer_set rep)) = quorum" "signer_set rep \<subseteq> {i. int (unat i) < c2_N cfg}"
    "i \<in> signer_set rep \<Longrightarrow> \<exists>sig. vfy (oi_OnchainPublicKey (c2_OracleIdentities cfg ! unat i)) ctx (arm_Report rep) sig"
proof -
  have a: "int (length (arm_AttributedSignatures rep)) = quorum" "distinct (map aos_Signer (arm_AttributedSignatures rep))"
    "\<forall>sig \<in> set (arm_AttributedSignatures rep). unat (aos_Signer sig) < length (c2_OracleIdentities cfg) \<and>
        vfy (oi_OnchainPublicKey (c2_OracleIdentities cfg ! unat (aos_Signer sig))) ctx (arm_Report rep) (aos_Signature sig)"
    using assms unfolding attested_def AttestedReportMany_VerifySignatures_iff by blast+
  show "int (card (signer_set rep)) = quorum"
    using a(1) distinct_card [OF a(2)] by (simp add: signer_set_def)
  show "signer_set rep \<subseteq> {i. int (unat i) < c2_N cfg}"
    using a(3) unfolding signer_set_def c2_N_def of_nat_less_iff by blast
  show "\<exists>sig. vfy (oi_OnchainPublicKey (c2_OracleIdentities cfg ! unat i)) ctx (arm_Report rep) sig" if "i \<in> signer_set rep"
    using a(3) that by (auto simp: signer_set_def)
qed

lemma network_inv:
  "rg_network cfg e C faulty envs sts \<Longrightarrow> ocr2_correct cfg faulty i \<Longrightarrow>
     follower_inv (envs i) (sts i) \<and> ge_config (envs i) = cfg \<and> ge_e (envs i) = e \<and> ge_crypto (envs i) = C"
  unfolding rg_network_def using follower_inv_reach by blast

section \<open>Final messages\<close>

text \<open>C32: What a leader finalizes is accepted: every final message that a leader following the
  protocol broadcasts carries exactly the quorum of signatures, by distinct oracles, on one report;
  so any oracle of the epoch that is in that round when it arrives hands the report on to
  finalization and completes the round, unless its instance is being cancelled.\<close>

theorem finals_of_the_leader_are_accepted:
  assumes "rg_reach env st" "0 < ge_reportQuorum env" "rg_N env \<le> 256"
    and "RgBroadcast (MessageFinalM m) \<in> set (rg_log st)"
    and "same_epoch env env'" "rf_r (rg_followerState st') = mf_Round m" "\<not> ge_done env' (rg_calls st')"
  shows "let st'' = messageFinal env' m (ge_l env) st'
    in RgToReportFinalization m \<in> set (rg_log st'') \<and> rf_completedRound (rg_followerState st'')"
proof -
  have "final_ok env m"
    using leader_inv_reach [OF assms(1-3)] assms(4) unfolding leader_inv_def Let_def by blast
  then have "mf_Epoch m = ge_e env'" "AttestedReportMany_VerifySignatures (ge_reportQuorum env') (ge_OnchainVerify env')
      (c2_OracleIdentities (ge_config env'))
      \<lparr>rctx_ReportTimestamp = followerReportTimestamp env' st', rctx_ExtraHash = mf_H m\<rparr> (mf_AttestedReport m)"
    using assms(5,6) unfolding final_ok_def same_epoch_def rg_ts_def followerReportTimestamp_def by auto
  then show ?thesis
    using assms(5,6,7) by (simp add: messageFinal_def same_epoch_def rg_upd Let_def)
qed

section \<open>One report per round\<close>

text \<open>C6: Unique reports: with the quorum that the code uses for plugins that ask for unique reports,
  two attested reports for the same epoch and round are the same report with the same extra hash,
  whatever the faulty oracles (at most f of more than 3f) and the leader do.\<close>

theorem ocr2_reports_are_unique:
  assumes "rg_network cfg e C faulty envs sts" "few_faulty cfg faulty" "reports_unforgeable cfg e vfy faulty sts"
    and "epoch_ctx cfg e ctx" "epoch_ctx cfg e ctx'" "ctx_round ctx = ctx_round ctx'"
    and "attested cfg vfy (reportQuorum True (c2_N cfg) (c2_F cfg)) ctx rep"
      "attested cfg vfy (reportQuorum True (c2_N cfg) (c2_F cfg)) ctx' rep'"
  shows "ctx = ctx' \<and> arm_Report rep = arm_Report rep'"
proof -
  let ?P = "{i :: OracleID. int (unat i) < c2_N cfg}"
  have f: "0 \<le> c2_F cfg" "3 * c2_F cfg < c2_N cfg" and N: "length (c2_OracleIdentities cfg) \<le> 256"
    and bad: "faulty \<subseteq> ?P" "int (card faulty) \<le> c2_F cfg"
    using assms(2) unfolding few_faulty_def c2_N_def by auto
  have "?P = {i. unat i < length (c2_OracleIdentities cfg)}" unfolding c2_N_def of_nat_less_iff ..
  then have card: "int (card ?P) = c2_N cfg" using card_all_oracles [OF N] by (simp add: c2_N_def)
  note S = attested_signers [OF assms(7)] and S' = attested_signers [OF assms(8)]
  obtain i where i: "i \<in> signer_set rep" "i \<in> signer_set rep'" "i \<notin> faulty"
    using bq.common_correct [OF f _ card S(2) S'(2) _ _ bad] S(1) S'(1) reportQuorum_bounds(3) [OF f] by auto
  then have ci: "ocr2_correct cfg faulty i" using S(2) by (auto simp: ocr2_correct_def)
  have "RgSignedReport ctx (arm_Report rep) \<in> set (rg_log (sts i))" "RgSignedReport ctx' (arm_Report rep') \<in> set (rg_log (sts i))"
    using assms(3-5) ci S(3) [OF i(1)] S'(3) [OF i(2)] unfolding reports_unforgeable_def by blast+
  then show ?thesis
    using network_inv [OF assms(1) ci] assms(6) unfolding follower_inv_def by blast
qed

section \<open>What an attested report is made of\<close>

lemma attested_by_correct:
  assumes "rg_network cfg e C faulty envs sts" "few_faulty cfg faulty" "reports_unforgeable cfg e vfy faulty sts"
    and "epoch_ctx cfg e ctx" "attested cfg vfy (reportQuorum u (c2_N cfg) (c2_F cfg)) ctx rep"
  shows "\<exists>i. ocr2_correct cfg faulty i \<and> report_source (envs i) ctx (arm_Report rep)"
proof -
  have f: "0 \<le> c2_F cfg" "3 * c2_F cfg < c2_N cfg" and bad: "int (card faulty) \<le> c2_F cfg"
    using assms(2) unfolding few_faulty_def by auto
  note S = attested_signers [OF assms(5)]
  have "\<not> signer_set rep \<subseteq> faulty"
  proof
    assume "signer_set rep \<subseteq> faulty"
    then have "card (signer_set rep) \<le> card faulty" by (intro card_mono) auto
    then show False using S(1) bad reportQuorum_bounds(1) [OF f, of u] by linarith
  qed
  then obtain i where i: "i \<in> signer_set rep" "ocr2_correct cfg faulty i"
    using S(2) by (auto simp: ocr2_correct_def)
  then have "RgSignedReport ctx (arm_Report rep) \<in> set (rg_log (sts i))"
    using assms(3,4) S(3) [OF i(1)] unfolding reports_unforgeable_def by blast
  then show ?thesis using network_inv [OF assms(1) i(2)] i(2) unfolding follower_inv_def by blast
qed

section \<open>The median plugin on the network\<close>

text \<open>The plugin's answers as report generation sees them: \<open>None\<close> for an error, behind the limit
  check of the shim.\<close>

definition mounted_Observation ::
  "Ocr2ReportingPluginLimits \<Rightarrow> (nat \<Rightarrow> median_env) \<Rightarrow> nat \<Rightarrow> ReportTimestamp \<Rightarrow> bytes \<Rightarrow> bytes option" where
  "mounted_Observation limits menv k ts q =
     LimitCheck_Observation limits (case Observation (menv k) ts q of Inr (Inr ob) \<Rightarrow> Some ob | _ \<Rightarrow> None)"

definition mounted_Report ::
  "Ocr2ReportingPluginLimits \<Rightarrow> (nat \<Rightarrow> median_env) \<Rightarrow> (nat \<Rightarrow> numericalMedian) \<Rightarrow> nat \<Rightarrow> ReportTimestamp \<Rightarrow> bytes \<Rightarrow>
   AttributedObservation list \<Rightarrow> (bool \<times> bytes) option" where
  "mounted_Report limits menv nm k ts q aos =
     LimitCheck_Report limits
       (case Report (menv k) (nm k) ts q aos of
          Inr (Inr (should, report)) \<Rightarrow> Some (should, case report of None \<Rightarrow> [] | Some r \<Rightarrow> r)
        | _ \<Rightarrow> None)"

lemma mounted_ReportD:
  assumes "mounted_Report limits menv nm k ts q aos = Some (True, rep)"
  shows "q = [] \<and> Report (menv k) (nm k) ts q aos = Inr (Inr (True, Some rep))"
proof -
  have "\<exists>r. Report (menv k) (nm k) ts q aos = Inr (Inr (True, r)) \<and> (case r of None \<Rightarrow> [] | Some r \<Rightarrow> r) = rep"
    using assms unfolding mounted_Report_def by (auto dest!: LimitCheck_ReportD split: sum.splits prod.splits)
  then obtain r where r: "Report (menv k) (nm k) ts q aos = Inr (Inr (True, r))" "(case r of None \<Rightarrow> [] | Some r \<Rightarrow> r) = rep"
    by blast
  then show ?thesis
    by (cases r) (auto simp: Report_def bindG_eq_Inr_iff bindE_eq_ok split: if_splits prod.splits)
qed

lemma mounted_ObservationD:
  "mounted_Observation limits menv k ts q = Some ob \<Longrightarrow> Observation (menv k) ts q = Inr (Inr ob)"
  unfolding mounted_Observation_def by (auto dest!: LimitCheck_ObservationD split: sum.splits)

text \<open>Every correct oracle runs the median plugin with the EVM report codec, on data sources of its own.\<close>

definition median_mounted ::
  "Ocr2ReportingPluginLimits \<Rightarrow> pao_sorter \<Rightarrow> evm_abi \<Rightarrow> (NumericalMedianObservationProto \<Rightarrow> bytes option) \<Rightarrow>
   (bytes \<Rightarrow> NumericalMedianObservationProto option) \<Rightarrow> (OracleID \<Rightarrow> nat \<Rightarrow> median_env) \<Rightarrow> rg_env \<Rightarrow> OracleID \<Rightarrow> bool" where
  "median_mounted limits srt abi Marshal Unmarshal menv env i \<longleftrightarrow>
     ge_Observation env = mounted_Observation limits (menv i) \<and>
     (\<exists>nm. ge_Report env = mounted_Report limits (menv i) nm) \<and>
     (\<forall>k. slice_sort (me_sortSlice (menv i k)) \<and> me_codec (menv i k) = EvmCodec srt abi \<and>
          me_MarshalObs (menv i k) = Marshal \<and> me_UnmarshalObs (menv i k) = Unmarshal)"

text \<open>A value that the data source of oracle \<open>i\<close> gave it for this timestamp.\<close>

definition source_value :: "(OracleID \<Rightarrow> nat \<Rightarrow> median_env) \<Rightarrow> ReportTimestamp \<Rightarrow> OracleID \<Rightarrow> int \<Rightarrow> bool" where
  "source_value menv ts i v \<longleftrightarrow> (\<exists>k. me_DataSource (menv i k) ts = Some (Some v))"

lemma Observation_observed:
  assumes "Observation (menv i k) ts [] = Inr (Inr (ao_Observation ao))"
  shows "\<exists>v. observed (me_MarshalObs (menv i k)) ao v \<and> source_value menv ts i v"
proof -
  obtain r1 r2 where r: "observe (me_DataSource (menv i k) ts) = Inr r1" "observe (me_JuelsPerFeeCoinDataSource (menv i k) ts) = Inr r2"
    using assms by (auto simp: Observation_def bindG_eq_Inr_iff)
  obtain b where "r1 = Inr b"
    using assms r by (cases r1; cases r2) (simp_all add: Observation_def)
  with r(1) have "observe (me_DataSource (menv i k) ts) = Inr (Inr b)" by simp
  then obtain v where "me_DataSource (menv i k) ts = Some (Some v)" using observe_D by blast
  then show ?thesis using assms unfolding observed_def source_value_def by blast
qed

text \<open>Every observation of a correct oracle in a verified request was signed by it, so it is what its
  plugin observed.\<close>

lemma verified_signed:
  assumes net: "rg_network cfg e C faulty envs sts" and unf: "observations_unforgeable cfg e C faulty sts"
    and req: "ocr2_correct cfg faulty p" "req_verified (envs p) (rg_ts (envs p) r) query asos"
    and ao: "ao \<in> set (aos_of asos)" "ao_Observer ao \<notin> faulty"
  shows "ocr2_correct cfg faulty (ao_Observer ao) \<and>
    observation_source (envs (ao_Observer ao)) (rg_ts (envs p) r) query (ao_Observation ao)"
proof -
  let ?ts = "rg_ts (envs p) r"
  let ?i = "ao_Observer ao"
  note P = network_inv [OF net req(1)]
  obtain aso where aso: "aso \<in> set asos" "ao = \<lparr>ao_Observation = o2so_Observation (o2aso_SignedObservation aso), ao_Observer = o2aso_Observer aso\<rparr>"
    using ao(1) by (auto simp: aos_of_def)
  have v: "int (unat ?i) < c2_N cfg" "ocr2_SignedObservation_Verify C (o2aso_SignedObservation aso) ?ts query
      (oi_OffchainPublicKey (c2_OracleIdentities cfg ! unat ?i))"
    using req(2) aso P unfolding req_verified_def by auto
  have i: "ocr2_correct cfg faulty ?i" using v(1) ao(2) by (simp add: ocr2_correct_def)
  have "RgSignedObservation ?ts query (ao_Observation ao) \<in> set (rg_log (sts ?i))"
    using unf i v(2) P aso(2) unfolding observations_unforgeable_def by (force simp: rg_ts_def)
  then show ?thesis
    using network_inv [OF net i] i unfolding follower_inv_def by blast
qed

lemma verified_observations:
  assumes "rg_network cfg e C faulty envs sts" "observations_unforgeable cfg e C faulty sts"
    and mounted: "\<And>i. ocr2_correct cfg faulty i \<Longrightarrow> median_mounted limits srt abi M U menv (envs i) i"
    and "ocr2_correct cfg faulty p" "req_verified (envs p) (rg_ts (envs p) r) [] asos"
    and "ao \<in> set (aos_of asos)" "ao_Observer ao \<notin> faulty"
  shows "ocr2_correct cfg faulty (ao_Observer ao) \<and>
    (\<exists>v. observed M ao v \<and> source_value menv (rg_ts (envs p) r) (ao_Observer ao) v)"
proof -
  let ?i = "ao_Observer ao" and ?ts = "rg_ts (envs p) r"
  have i: "ocr2_correct cfg faulty ?i" and src: "observation_source (envs ?i) ?ts [] (ao_Observation ao)"
    using verified_signed [OF assms(1,2,4-7)] by blast+
  obtain k where "ge_Observation (envs ?i) k ?ts [] = Some (ao_Observation ao)"
    using src unfolding observation_source_def by blast
  then have "Observation (menv ?i k) ?ts [] = Inr (Inr (ao_Observation ao))" "me_MarshalObs (menv ?i k) = M"
    using mounted [OF i] mounted_ObservationD unfolding median_mounted_def by auto
  then show ?thesis using Observation_observed [of menv ?i k ?ts ao] i by auto
qed

text \<open>C5: What an OCR2 price is worth: with the median plugin mounted, a report attested by the quorum
  (f + 1, or the larger one for unique reports) carries a median that lies between values which the
  data sources of two correct oracles gave them for exactly this epoch and round. At most f of more
  than 3f oracles are faulty, leader included, and the faulty ones send whatever they like.\<close>

theorem attested_median_is_honest:
  assumes "rg_network cfg e C faulty envs sts" "few_faulty cfg faulty"
    and "reports_unforgeable cfg e vfy faulty sts" "observations_unforgeable cfg e C faulty sts"
    and "slice_sort srt" "abi_ok abi" "proto_obs_ok Marshal Unmarshal"
    and "\<And>i. ocr2_correct cfg faulty i \<Longrightarrow> median_mounted limits srt abi Marshal Unmarshal menv (envs i) i"
    and "epoch_ctx cfg e ctx" "attested cfg vfy (reportQuorum u (c2_N cfg) (c2_F cfg)) ctx rep"
  shows "\<exists>m i j v w. MedianFromReport abi (arm_Report rep) = Inr (Inr (Some m)) \<and>
    ocr2_correct cfg faulty i \<and> source_value menv (rctx_ReportTimestamp ctx) i v \<and>
    ocr2_correct cfg faulty j \<and> source_value menv (rctx_ReportTimestamp ctx) j w \<and> v \<le> m \<and> m \<le> w"
proof -
  obtain p k r query asos h where p: "ocr2_correct cfg faulty p"
    and ctx: "ctx = \<lparr>rctx_ReportTimestamp = rg_ts (envs p) r, rctx_ExtraHash = h\<rparr>"
    and req: "req_verified (envs p) (rg_ts (envs p) r) query asos"
    and rep: "ge_Report (envs p) k (rg_ts (envs p) r) query (aos_of asos) = Some (True, arm_Report rep)"
    using attested_by_correct [OF assms(1-3,9,10)] unfolding report_source_def by blast
  let ?ts = "rg_ts (envs p) r"
  obtain nm where "ge_Report (envs p) = mounted_Report limits (menv p) nm"
    and M: "slice_sort (me_sortSlice (menv p k))" "me_codec (menv p k) = EvmCodec srt abi" "me_UnmarshalObs (menv p k) = Unmarshal"
    using assms(8) [OF p] unfolding median_mounted_def by blast
  then have q: "query = []" and R: "Report (menv p k) (nm k) ?ts query (aos_of asos) = Inr (Inr (True, Some (arm_Report rep)))"
    using mounted_ReportD rep by auto
  have good: "\<exists>v. ocr2_correct cfg faulty (ao_Observer ao) \<and> observed Marshal ao v \<and> source_value menv ?ts (ao_Observer ao) v"
    if "ao \<in> set (aos_of asos)" "ao_Observer ao \<notin> faulty" for ao
    using verified_observations [OF assms(1,4,8) p req [unfolded q] that] by blast
  then obtain g where g: "\<And>ao. ao \<in> set (aos_of asos) \<Longrightarrow> ao_Observer ao \<notin> faulty \<Longrightarrow>
      ocr2_correct cfg faulty (ao_Observer ao) \<and> observed Marshal ao (g ao) \<and> source_value menv ?ts (ao_Observer ao) (g ao)"
    by metis
  have d: "distinct (map ao_Observer (aos_of asos))" and l: "2 * nat (c2_F cfg) < length (aos_of asos)"
    using req network_inv [OF assms(1) p] assms(2) unfolding req_verified_def few_faulty_def
    by (auto simp: aos_of_def comp_def)
  define value_of where "value_of i = the (map_of (map (\<lambda>ao. (ao_Observer ao, g ao)) (aos_of asos)) i)" for i
  have val: "value_of (ao_Observer ao) = g ao" if "ao \<in> set (aos_of asos)" for ao
  proof -
    have "map_of (map (\<lambda>ao. (ao_Observer ao, g ao)) (aos_of asos)) (ao_Observer ao) = Some (g ao)"
      using d that by (intro map_of_is_SomeI) (auto simp: comp_def)
    then show ?thesis by (simp add: value_of_def)
  qed
  have card: "card faulty \<le> nat (c2_F cfg)" using assms(2) unfolding few_faulty_def by linarith
  have obs: "\<forall>ao \<in> set (aos_of asos). ao_Observer ao \<notin> faulty \<longrightarrow> observed Marshal ao (value_of (ao_Observer ao))"
    using g val by simp
  obtain m i j where "MedianFromReport abi (arm_Report rep) = Inr (Inr (Some m))"
    "i \<notin> faulty" "i \<in> ao_Observer ` set (aos_of asos)" "j \<notin> faulty" "j \<in> ao_Observer ` set (aos_of asos)"
    "value_of i \<le> m" "m \<le> value_of j"
    using median_between_correct_observations [OF M(1) assms(5) M(2) assms(6) _ d l card obs R] M(3) assms(7) by blast
  moreover have "ocr2_correct cfg faulty x \<and> source_value menv ?ts x (value_of x)"
    if "x \<notin> faulty" "x \<in> ao_Observer ` set (aos_of asos)" for x
    using that g val by auto
  ultimately show ?thesis unfolding ctx ReportContext.select_convs by blast
qed

section \<open>An example\<close>

text \<open>Four oracles of which oracle 3, the leader, is faulty. The data sources of the others say 10, 11
  and 12, the leader claims 1000 and puts its own observation with those of oracles 0 and 1 into
  the request. The hash and the signature schemes are concrete functions that accept from a
  correct oracle only what it signs in this run.\<close>

definition net_ids :: "OracleIdentity list" where
  "net_ids = map (\<lambda>i. \<lparr>oi_OffchainPublicKey = replicate 32 i, oi_OnchainPublicKey = [i], oi_PeerID = [], oi_TransmitAccount = []\<rparr>) [0, 1, 2, 3]"

definition net_cfg :: Ocr2SharedConfig where
  "net_cfg =
     \<lparr>c2_DeltaProgress = 10, c2_DeltaResend = 10, c2_DeltaRound = 5, c2_DeltaGrace = 1, c2_DeltaStage = 1,
      c2_RMax = 3, c2_S = [1], c2_OracleIdentities = net_ids, c2_ReportingPluginConfig = [],
      c2_MaxDurationQuery = 1, c2_MaxDurationObservation = 1, c2_MaxDurationReport = 1,
      c2_MaxDurationShouldAcceptFinalizedReport = 1, c2_MaxDurationShouldTransmitAcceptedReport = 1,
      c2_F = 1, c2_OnchainConfig = [], c2_ConfigDigest = [1], c2_SharedSecret = []\<rparr>"

definition net_obs :: "OracleID \<Rightarrow> bytes" where
  "net_obs i = ao_Observation (ex_ao i (if i = 3 then 1000 else 10 + uint i))"

definition net_crypto :: crypto where
  "net_crypto =
     \<lparr>sha256 = (\<lambda>m. if take 1 m = [1] then m else replicate 32 0),
      ed25519_Verify = (\<lambda>pk m sig. hd pk = 3 \<or>
        hd pk \<in> {0, 1, 2} \<and> m = observation_written (ex_ts 1) [] (net_obs (hd pk)))\<rparr>"

definition net_ctx :: ReportContext where
  "net_ctx = \<lparr>rctx_ReportTimestamp = ex_ts 1, rctx_ExtraHash = replicate 32 0\<rparr>"

definition net_vfy :: onchain_verify where
  "net_vfy pk ctx rep sig \<longleftrightarrow> pk = [3] \<or> ctx = net_ctx \<and> rep = replicate 256 0"

definition net_menv :: "OracleID \<Rightarrow> nat \<Rightarrow> median_env" where
  "net_menv i k = ex_env (10 + uint i)"

definition net_limits :: Ocr2ReportingPluginLimits where
  "net_limits = \<lparr>rpl_MaxQueryLength = 0, rpl_MaxObservationLength = 100, rpl_MaxReportLength = 1000\<rparr>"

definition net_env :: "OracleID \<Rightarrow> rg_env" where
  "net_env i =
     \<lparr>ge_crypto = net_crypto, ge_config = net_cfg, ge_e = 1, ge_id = i, ge_l = 3,
      ge_OffchainPublicKey = replicate 32 i, ge_OffchainSign = (\<lambda>_ _. Some []),
      ge_OnchainPublicKey = [i], ge_OnchainSign = (\<lambda>_ ctx rep. if net_vfy [i] ctx rep [] then Some [] else None),
      ge_OnchainVerify = net_vfy, ge_Query = (\<lambda>_ _. Some []),
      ge_Observation = mounted_Observation net_limits (net_menv i),
      ge_Report = mounted_Report net_limits (net_menv i) (\<lambda>_. ex_nm),
      ge_reportQuorum = 3, ge_done = (\<lambda>_. False)\<rparr>"

definition net_aso :: "OracleID \<Rightarrow> Ocr2AttributedSignedObservation" where
  "net_aso i = \<lparr>o2aso_SignedObservation = \<lparr>o2so_Observation = net_obs i, o2so_Signature = []\<rparr>, o2aso_Observer = i\<rparr>"

definition net_msgs :: "OracleID list \<Rightarrow> rg_case list" where
  "net_msgs observers = [RgMessage (MessageObserveReq 1 1 []) 3, RgMessage (MessageReportReq 1 1 [] (map net_aso observers)) 3]"

definition net_run :: "OracleID \<Rightarrow> reportGenerationState option" where
  "net_run i = rg_run (net_env i) (rg_init (net_env i)) (net_msgs [3, 0, 1])"

definition net_st :: "OracleID \<Rightarrow> reportGenerationState" where
  "net_st i = (case net_run i of Some st \<Rightarrow> st | None \<Rightarrow> rg_zero (net_env i))"

definition net_signed :: "OracleID \<Rightarrow> bool" where
  "net_signed i \<longleftrightarrow> (case net_run i of
     None \<Rightarrow> False
   | Some st \<Rightarrow> RgSignedObservation (ex_ts 1) [] (net_obs i) \<in> set (rg_log st) \<and>
       RgSignedReport net_ctx (replicate 256 0) \<in> set (rg_log st))"

lemma net_signed: "net_signed 0" "net_signed 1" "net_signed 2"
  by code_simp+

lemma net_correct: "ocr2_correct net_cfg {3} i \<longleftrightarrow> i = 0 \<or> i = 1 \<or> i = 2"
proof -
  have "c2_N net_cfg = 4" by (simp add: c2_N_def net_cfg_def net_ids_def)
  then have "ocr2_correct net_cfg {3} i \<longleftrightarrow> i \<noteq> 3 \<and> unat i < 4" by (simp add: ocr2_correct_def del: of_nat_unat)
  also have "\<dots> \<longleftrightarrow> i = 0 \<or> i = 1 \<or> i = 2"
  proof
    assume "i \<noteq> 3 \<and> unat i < 4"
    moreover have "unat i = n \<Longrightarrow> i = of_nat n" for n by auto
    moreover have "unat i < 4 \<Longrightarrow> unat i = 0 \<or> unat i = 1 \<or> unat i = 2 \<or> unat i = 3" by linarith
    ultimately show "i = 0 \<or> i = 1 \<or> i = 2" by fastforce
  qed auto
  finally show ?thesis .
qed

lemma net_few: "few_faulty net_cfg {3}"
  by (simp add: few_faulty_def c2_N_def net_cfg_def net_ids_def)

lemma net_state:
  assumes "ocr2_correct net_cfg {3} i"
  shows "net_run i = Some (net_st i)" "RgSignedObservation (ex_ts 1) [] (net_obs i) \<in> set (rg_log (net_st i))"
    "RgSignedReport net_ctx (replicate 256 0) \<in> set (rg_log (net_st i))"
proof -
  have "net_signed i" using assms net_signed unfolding net_correct by auto
  then show "net_run i = Some (net_st i)" "RgSignedObservation (ex_ts 1) [] (net_obs i) \<in> set (rg_log (net_st i))"
    "RgSignedReport net_ctx (replicate 256 0) \<in> set (rg_log (net_st i))"
    by (simp_all add: net_signed_def net_st_def split: option.splits)
qed

lemma net_network: "rg_network net_cfg 1 net_crypto {3} net_env net_st"
proof -
  have "rg_reach (net_env i) (net_st i)" if "ocr2_correct net_cfg {3} i" for i
    using net_state(1) [OF that] unfolding net_run_def by (rule rg_run_reach [OF rg_reach_init])
  moreover have "keyring_ok (net_env i)" for i
    by (simp add: keyring_ok_def net_env_def net_vfy_def)
  ultimately show ?thesis by (simp add: rg_network_def net_env_def)
qed

lemma net_identity:
  assumes "ocr2_correct net_cfg {3} i"
  shows "oi_OnchainPublicKey (c2_OracleIdentities net_cfg ! unat i) = [i]"
    "oi_OffchainPublicKey (c2_OracleIdentities net_cfg ! unat i) = replicate 32 i"
  using assms unfolding net_correct by (auto simp: net_cfg_def net_ids_def)

lemma net_reports_unforgeable: "reports_unforgeable net_cfg 1 net_vfy {3} net_st"
  unfolding reports_unforgeable_def
  using net_state(3) net_identity(1) by (auto simp: net_vfy_def net_correct)

lemma net_observation_made:
  assumes i: "ocr2_correct net_cfg {3} i" and ts: "rts_ConfigDigest ts = c2_ConfigDigest net_cfg"
    and v: "ocr2_SignedObservation_Verify net_crypto so ts q (oi_OffchainPublicKey (c2_OracleIdentities net_cfg ! unat i))"
  shows "ts = ex_ts 1 \<and> q = [] \<and> o2so_Observation so = net_obs i"
proof -
  have hash: "sha256 net_crypto (observation_written ts q ob) = observation_written ts q ob" for ob
    using ts by (simp add: net_crypto_def net_cfg_def observation_written_def)
  have hd: "hd (replicate 32 i) = i" by simp
  have "i \<noteq> 3" using i unfolding net_correct by auto
  then have "observation_written ts q (o2so_Observation so) = observation_written (ex_ts 1) [] (net_obs i)"
    using v unfolding net_identity(2) [OF i] ocr2_SignedObservation_Verify_def signedObservationWireMessage_def hash
    by (simp only: net_crypto_def crypto.select_convs hd) (simp split: if_splits)
  moreover have "length q < 2 ^ 64"
  proof -
    have "length (observation_written ts q (o2so_Observation so)) = length (observation_written (ex_ts 1) [] (net_obs i))"
      using calculation by simp
    moreover have "length (net_obs i) = 48" by (simp add: net_obs_def ex_ao_def)
    ultimately have "length q \<le> 100" by (simp add: observation_written_def ex_ts_def)
    then show ?thesis by simp
  qed
  ultimately show ?thesis
    using ts by (intro observation_written_inj) (auto simp: net_cfg_def ex_ts_def)
qed

lemma net_observations_unforgeable: "observations_unforgeable net_cfg 1 net_crypto {3} net_st"
  unfolding observations_unforgeable_def
proof (intro allI impI)
  fix i so ts q
  assume *: "ocr2_correct net_cfg {3} i" "rts_ConfigDigest ts = c2_ConfigDigest net_cfg"
    "ocr2_SignedObservation_Verify net_crypto so ts q (oi_OffchainPublicKey (c2_OracleIdentities net_cfg ! unat i))"
  show "RgSignedObservation ts q (o2so_Observation so) \<in> set (rg_log (net_st i))"
    using net_observation_made [OF *] net_state(2) [OF *(1)] by simp
qed

definition net_rep :: "OracleID list \<Rightarrow> Ocr2AttestedReportMany" where
  "net_rep signers = \<lparr>arm_Report = replicate 256 0,
     arm_AttributedSignatures = map (\<lambda>i. \<lparr>aos_Signature = [], aos_Signer = i\<rparr>) signers\<rparr>"

lemma net_epoch_ctx: "epoch_ctx net_cfg 1 net_ctx"
  by (simp add: epoch_ctx_def net_ctx_def net_cfg_def ex_ts_def)

lemma net_attested:
  "attested net_cfg net_vfy (reportQuorum True (c2_N net_cfg) (c2_F net_cfg)) net_ctx (net_rep [0, 1, 2])"
  "attested net_cfg net_vfy (reportQuorum True (c2_N net_cfg) (c2_F net_cfg)) net_ctx (net_rep [3, 2, 1])"
  "attested net_cfg net_vfy (reportQuorum False (c2_N net_cfg) (c2_F net_cfg)) net_ctx (net_rep [3, 0])"
  by code_simp+

theorem ocr2_reports_are_unique_witness:
  "\<exists>rep rep'. rep \<noteq> rep' \<and>
     attested net_cfg net_vfy (reportQuorum True (c2_N net_cfg) (c2_F net_cfg)) net_ctx rep \<and>
     attested net_cfg net_vfy (reportQuorum True (c2_N net_cfg) (c2_F net_cfg)) net_ctx rep' \<and>
     arm_Report rep = arm_Report rep'"
proof -
  have "arm_Report (net_rep [0, 1, 2]) = arm_Report (net_rep [3, 2, 1])"
    using ocr2_reports_are_unique [OF net_network net_few net_reports_unforgeable net_epoch_ctx net_epoch_ctx refl
      net_attested(1,2)] by blast
  moreover have "net_rep [0, 1, 2] \<noteq> net_rep [3, 2, 1]" by (simp add: net_rep_def)
  ultimately show ?thesis using net_attested(1,2) by blast
qed

theorem attested_median_is_honest_witness:
  "\<exists>m v w. MedianFromReport ex_abi (replicate 256 0) = Inr (Inr (Some m)) \<and>
     v \<in> {10, 11, 12} \<and> w \<in> {10, 11, 12} \<and> v \<le> m \<and> m \<le> (w :: int)"
proof -
  have "median_mounted net_limits insertionSort ex_abi ex_marshal ex_unmarshal net_menv (net_env i) i" for i
    by (auto simp: median_mounted_def net_env_def net_menv_def ex_env_def ins.slice_sort_axioms)
  from attested_median_is_honest [OF net_network net_few net_reports_unforgeable net_observations_unforgeable
      ins.slice_sort_axioms ex_abi_ok ex_proto_ok this net_epoch_ctx net_attested(3)]
  obtain m i j v w where *: "MedianFromReport ex_abi (arm_Report (net_rep [3, 0])) = Inr (Inr (Some m))"
    "ocr2_correct net_cfg {3} i" "source_value net_menv (rctx_ReportTimestamp net_ctx) i v"
    "ocr2_correct net_cfg {3} j" "source_value net_menv (rctx_ReportTimestamp net_ctx) j w" "v \<le> m" "m \<le> w"
    by blast
  then have "v = 10 + uint i" "w = 10 + uint j" by (simp_all add: source_value_def net_menv_def ex_env_def)
  moreover have "i = 0 \<or> i = 1 \<or> i = 2" "j = 0 \<or> j = 1 \<or> j = 2" using *(2,4) unfolding net_correct by blast+
  ultimately have "v \<in> {10, 11, 12}" "w \<in> {10, 11, 12}" by auto
  then show ?thesis using * by (auto simp: net_rep_def)
qed

text \<open>The leader of an epoch: oracle 0 collects three observations, its grace period ends, and it
  collects reports from three oracles.\<close>

definition lead_env :: rg_env where
  "lead_env = (net_env 0)\<lparr>ge_l := 0\<rparr>"

definition lead_ar :: AttestedReportOne where
  "lead_ar = \<lparr>ar1_Skip = False, ar1_Report = replicate 256 0, ar1_Signature = []\<rparr>"

definition lead_cases :: "rg_case list" where
  "lead_cases = map (\<lambda>i. RgMessage (MessageObserve 1 1 (o2aso_SignedObservation (net_aso i))) i) [3, 0, 1]
     @ RgTGrace # map (\<lambda>i. RgMessage (MessageReport 1 1 lead_ar) i) [2, 3, 0]"

definition lead_final :: MessageFinal where
  "lead_final = \<lparr>mf_Epoch = 1, mf_Round = 1, mf_H = replicate 32 0, mf_AttestedReport = net_rep [0, 2, 3]\<rparr>"

definition lead_ok :: bool where
  "lead_ok \<longleftrightarrow> (case rg_run lead_env (rg_init lead_env) lead_cases of
     None \<Rightarrow> False | Some st \<Rightarrow> RgBroadcast (MessageFinalM lead_final) \<in> set (rg_log st))"

lemma lead_ok: lead_ok
  by code_simp

theorem finals_of_the_leader_are_accepted_witness:
  "let st = (rg_zero (net_env 2))\<lparr>rg_followerState := \<lparr>rf_r = 1, rf_sentReport = True, rf_completedRound = False\<rparr>\<rparr>;
     st' = messageFinal ((net_env 2)\<lparr>ge_l := 0\<rparr>) lead_final 0 st
   in RgToReportFinalization lead_final \<in> set (rg_log st') \<and> rf_completedRound (rg_followerState st')"
proof -
  obtain st where st: "rg_run lead_env (rg_init lead_env) lead_cases = Some st" "RgBroadcast (MessageFinalM lead_final) \<in> set (rg_log st)"
    using lead_ok unfolding lead_ok_def by (auto split: option.splits)
  have "rg_reach lead_env st" using rg_reach_init st(1) by (rule rg_run_reach)
  from finals_of_the_leader_are_accepted [OF this _ _ st(2), of "(net_env 2)\<lparr>ge_l := 0\<rparr>"
      "(rg_zero (net_env 2))\<lparr>rg_followerState := \<lparr>rf_r = 1, rf_sentReport = True, rf_completedRound = False\<rparr>\<rparr>"]
  show ?thesis
    by (simp add: lead_env_def net_env_def same_epoch_def c2_N_def net_cfg_def net_ids_def lead_final_def)
qed

text \<open>The unforgeability hypothesis speaks of one instance per epoch. An oracle that restarts returns
  to its epoch with a new instance, which starts from round 0 and signs again: two runs of the
  same oracle in the same epoch may sign different reports for the same round.\<close>

definition restart_env :: rg_env where
  "restart_env = (net_env 0)\<lparr>ge_Report := (\<lambda>k ts q aos. Some (True, map ao_Observer aos)),
     ge_OnchainSign := (\<lambda>_ _ _. Some []), ge_OnchainVerify := (\<lambda>_ _ _ _. True)\<rparr>"

definition signed_in_run :: "rg_env \<Rightarrow> rg_case list \<Rightarrow> ReportContext \<Rightarrow> bytes \<Rightarrow> bool" where
  "signed_in_run env cs ctx rep \<longleftrightarrow> (case rg_run env (rg_init env) cs of
     None \<Rightarrow> False | Some st \<Rightarrow> RgSignedReport ctx rep \<in> set (rg_log st))"

lemma restart_signs_twice:
  "signed_in_run restart_env (net_msgs [3, 0, 1]) net_ctx [3, 0, 1] \<and>
   signed_in_run restart_env (net_msgs [3, 0, 2]) net_ctx [3, 0, 2]"
proof -
  have "signed_in_run restart_env (net_msgs [3, 0, 1]) net_ctx [3, 0, 1]" by code_simp
  moreover have "signed_in_run restart_env (net_msgs [3, 0, 2]) net_ctx [3, 0, 2]" by code_simp
  ultimately show ?thesis by blast
qed

end
