(* ===== verification/Ocr2RepFin.thy ===== *)
theory Ocr2RepFin
  imports Ocr2Messages GoFloat
begin

text \<open>
  Report finalization of OCR2 (\<open>ocr2/protocol/report_finalization.go\<close>): every attested report that
  arrives, from the local report generation or in another oracle's final-echo, is broadcast and
  handed on to transmission the first time; the set of finalized (epoch, round) pairs is kept small
  by forgetting old ones, which are ignored from then on.
\<close>

section \<open>State and operations\<close>

datatype repfin_effect = RfBroadcastEcho MessageFinal | RfTransmit MessageFinal

record reportFinalizationState =
  fin_finalized :: "EpochRound set"
  fin_finalizedLatest :: EpochRound
  fin_calls :: nat
  fin_log :: "repfin_effect list"

record repfin_env =
  fe_config :: Ocr2SharedConfig
  fe_Verify :: onchain_verify
  fe_reportQuorum :: int
  fe_done :: "nat \<Rightarrow> bool"

definition newReportFinalizationState :: reportFinalizationState where
  "newReportFinalizationState =
     \<lparr>fin_finalized = {}, fin_finalizedLatest = zero_EpochRound, fin_calls = 0, fin_log = []\<rparr>"

definition minExpirationAgeRounds :: int where "minExpirationAgeRounds = 10"

definition expirationAgeDuration :: Duration where "expirationAgeDuration = 600000000000"

definition maxExpirationAgeRounds :: int where "maxExpirationAgeRounds = 1000"

definition expirationAgeRounds :: "repfin_env \<Rightarrow> int" where
  "expirationAgeRounds env =
     (let age = f64_Ceil (f64_div (Duration_Seconds expirationAgeDuration) (Duration_Seconds (c2_DeltaRound (fe_config env))));
          age = (if f64_less age (F64 (of_int minExpirationAgeRounds)) then F64 (of_int minExpirationAgeRounds) else age);
          age = (if age = F64_NaN \<or> f64_less (F64 (of_int maxExpirationAgeRounds)) age
                 then F64 (of_int maxExpirationAgeRounds) else age)
      in f64_int age)"

text \<open>The sum stays below \<open>2 ^ 40\<close> (see \<open>epochRoundIndex_bound\<close>), so the \<open>int64\<close> arithmetic does not wrap.\<close>

definition epochRoundIndex :: "repfin_env \<Rightarrow> EpochRound \<Rightarrow> int" where
  "epochRoundIndex env er = uint (c2_RMax (fe_config env)) * uint (er_Epoch er) + uint (er_Round er)"

definition isExpired :: "repfin_env \<Rightarrow> reportFinalizationState \<Rightarrow> EpochRound \<Rightarrow> bool" where
  "isExpired env st er \<longleftrightarrow>
     (let latestIndex = epochRoundIndex env (fin_finalizedLatest st);
          expiredIndex = latestIndex - expirationAgeRounds env
      in epochRoundIndex env er \<le> expiredIndex)"

definition reap_finalized :: "repfin_env \<Rightarrow> reportFinalizationState \<Rightarrow> reportFinalizationState" where
  "reap_finalized env st =
     (if int (card (fin_finalized st)) \<le> 2 * expirationAgeRounds env then st
      else st\<lparr>fin_finalized := Set.filter (\<lambda>er. \<not> isExpired env st er) (fin_finalized st)\<rparr>)"

definition er_of_final :: "MessageFinal \<Rightarrow> EpochRound" where
  "er_of_final m = \<lparr>er_Epoch = mf_Epoch m, er_Round = mf_Round m\<rparr>"

definition finalize :: "repfin_env \<Rightarrow> MessageFinal \<Rightarrow> reportFinalizationState \<Rightarrow> reportFinalizationState" where
  "finalize env msg st =
     (let epochRound = er_of_final msg;
          st = st\<lparr>fin_finalized := insert epochRound (fin_finalized st)\<rparr>;
          st = (if EpochRound_Less (fin_finalizedLatest st) epochRound then st\<lparr>fin_finalizedLatest := epochRound\<rparr> else st);
          st = st\<lparr>fin_log := fin_log st @ [RfBroadcastEcho msg]\<rparr>;
          cancelled = fe_done env (fin_calls st);
          st = st\<lparr>fin_calls := Suc (fin_calls st)\<rparr>;
          st = (if cancelled then st else st\<lparr>fin_log := fin_log st @ [RfTransmit msg]\<rparr>)
      in reap_finalized env st)"

definition messageFinalEcho :: "repfin_env \<Rightarrow> MessageFinal \<Rightarrow> OracleID \<Rightarrow> reportFinalizationState \<Rightarrow> reportFinalizationState" where
  "messageFinalEcho env msg sender st =
     (if mf_Round msg > c2_RMax (fe_config env) then st
      else
        let epochRound = er_of_final msg
        in if isExpired env st epochRound then st
        else if epochRound \<in> fin_finalized st then st
        else if \<not> AttestedReportMany_VerifySignatures (fe_reportQuorum env) (fe_Verify env)
                   (c2_OracleIdentities (fe_config env))
                   \<lparr>rctx_ReportTimestamp = \<lparr>rts_ConfigDigest = c2_ConfigDigest (fe_config env),
                      rts_Epoch = mf_Epoch msg, rts_Round = mf_Round msg\<rparr>,
                    rctx_ExtraHash = mf_H msg\<rparr> (mf_AttestedReport msg)
        then st
        else finalize env msg st)"

definition eventFinal :: "repfin_env \<Rightarrow> MessageFinal \<Rightarrow> reportFinalizationState \<Rightarrow> reportFinalizationState" where
  "eventFinal env ev st =
     (let epochRound = er_of_final ev
      in if isExpired env st epochRound then st
      else if epochRound \<in> fin_finalized st then st
      else finalize env ev st)"

datatype repfin_case = RfNet MessageFinalEcho OracleID | RfEvent MessageFinal

fun repfin_process :: "repfin_env \<Rightarrow> repfin_case \<Rightarrow> reportFinalizationState \<Rightarrow> reportFinalizationState" where
  "repfin_process env (RfNet (MessageFinalEcho msg) sender) st = messageFinalEcho env msg sender st"
| "repfin_process env (RfEvent ev) st = eventFinal env ev st"

definition repfin_run :: "repfin_env \<Rightarrow> repfin_case list \<Rightarrow> reportFinalizationState" where
  "repfin_run env cases = fold (repfin_process env) cases newReportFinalizationState"

section \<open>The age and the index\<close>

lemma expirationAgeRounds_bounds: "10 \<le> expirationAgeRounds env \<and> expirationAgeRounds env \<le> 1000"
proof -
  let ?age = "f64_Ceil (f64_div (Duration_Seconds expirationAgeDuration) (Duration_Seconds (c2_DeltaRound (fe_config env))))"
  obtain i where "?age = F64 (of_int i) \<or> ?age = F64_Inf \<or> ?age = F64_NegInf \<or> ?age = F64_NaN"
    by (cases "f64_div (Duration_Seconds expirationAgeDuration) (Duration_Seconds (c2_DeltaRound (fe_config env)))") auto
  then show ?thesis
    by (elim disjE) (simp_all add: expirationAgeRounds_def minExpirationAgeRounds_def maxExpirationAgeRounds_def Let_def)
qed

lemma epochRoundIndex_bound: "0 \<le> epochRoundIndex env er \<and> epochRoundIndex env er < 2 ^ 40"
proof -
  have "uint (c2_RMax (fe_config env)) \<le> 255" "uint (er_Epoch er) \<le> 4294967295" "uint (er_Round er) \<le> 255"
    using uint_lt2p [of "c2_RMax (fe_config env)"] uint_lt2p [of "er_Epoch er"] uint_lt2p [of "er_Round er"] by simp_all
  then have "uint (c2_RMax (fe_config env)) * uint (er_Epoch er) \<le> 255 * 4294967295" "uint (er_Round er) \<le> 255"
    using mult_mono [of "uint (c2_RMax (fe_config env))" 255 "uint (er_Epoch er)" 4294967295] by simp_all
  then show ?thesis by (simp add: epochRoundIndex_def)
qed

definition in_rounds :: "repfin_env \<Rightarrow> EpochRound \<Rightarrow> bool" where
  "in_rounds env er \<longleftrightarrow> er_Round er \<le> c2_RMax (fe_config env)"

lemma epochRoundIndex_mono:
  assumes "EpochRound_Less x y" "in_rounds env x"
  shows "epochRoundIndex env x \<le> epochRoundIndex env y"
proof (cases "er_Epoch x = er_Epoch y")
  case True
  then show ?thesis using assms(1) by (simp add: epochRoundIndex_def EpochRound_Less_def word_less_alt)
next
  case False
  then have "uint (er_Epoch x) + 1 \<le> uint (er_Epoch y)" using assms(1) by (auto simp: EpochRound_Less_def word_less_alt)
  then have "uint (c2_RMax (fe_config env)) * (uint (er_Epoch x) + 1) \<le> uint (c2_RMax (fe_config env)) * uint (er_Epoch y)"
    by (intro mult_left_mono) auto
  then have "uint (c2_RMax (fe_config env)) * uint (er_Epoch x) + uint (c2_RMax (fe_config env))
      \<le> uint (c2_RMax (fe_config env)) * uint (er_Epoch y)"
    by (simp only: distrib_left mult_1_right)
  moreover have "uint (er_Round x) \<le> uint (c2_RMax (fe_config env))" using assms(2) by (simp add: in_rounds_def word_le_def)
  ultimately show ?thesis unfolding epochRoundIndex_def using uint_ge_0 [of "er_Round y"] by linarith
qed

text \<open>An index belongs to at most two pairs: to the last round of an epoch and to round 0 of the next.\<close>

lemma epochRoundIndex_inj:
  assumes "0 < c2_RMax (fe_config env)" "in_rounds env x" "in_rounds env y"
    and "epochRoundIndex env x = epochRoundIndex env y" "er_Round x = 0 \<longleftrightarrow> er_Round y = 0"
  shows "x = y"
proof -
  let ?R = "uint (c2_RMax (fe_config env))"
  have R: "0 < ?R" using assms(1) by (simp add: word_less_alt)
  have rounds: "uint (er_Round x) \<le> ?R" "uint (er_Round y) \<le> ?R"
    using assms(2,3) by (simp_all add: in_rounds_def word_le_def)
  have pos: "uint (er_Round x) = 0 \<longleftrightarrow> uint (er_Round y) = 0" using assms(5) by (simp add: uint_0_iff)
  have eq: "?R * uint (er_Epoch x) + uint (er_Round x) = ?R * uint (er_Epoch y) + uint (er_Round y)"
    using assms(4) by (simp add: epochRoundIndex_def)
  have same: "uint (er_Epoch x) = uint (er_Epoch y)"
  proof (cases "uint (er_Round x) = 0")
    case True
    then show ?thesis using pos eq R by simp
  next
    case False
    then have "0 \<le> uint (er_Round x) - 1" "uint (er_Round x) - 1 < ?R" "0 \<le> uint (er_Round y) - 1" "uint (er_Round y) - 1 < ?R"
      using pos rounds uint_ge_0 [of "er_Round x"] uint_ge_0 [of "er_Round y"] by linarith+
    moreover have "?R * uint (er_Epoch x) + (uint (er_Round x) - 1) = ?R * uint (er_Epoch y) + (uint (er_Round y) - 1)"
      using eq by linarith
    then have "(?R * uint (er_Epoch x) + (uint (er_Round x) - 1)) div ?R = (?R * uint (er_Epoch y) + (uint (er_Round y) - 1)) div ?R"
      by (rule arg_cong)
    ultimately show ?thesis using R by (simp add: div_pos_pos_trivial)
  qed
  then have "er_Epoch x = er_Epoch y" "er_Round x = er_Round y" using eq by (simp_all add: word_uint_eq_iff)
  then show ?thesis by (cases x; cases y) auto
qed

lemma card_window:
  assumes "0 < c2_RMax (fe_config env)" "\<forall>er \<in> S. in_rounds env er \<and> a < epochRoundIndex env er \<and> epochRoundIndex env er \<le> a + n"
    and "0 \<le> n"
  shows "finite S \<and> int (card S) \<le> 2 * n"
proof -
  let ?f = "\<lambda>er. (epochRoundIndex env er, er_Round er = 0)"
  have inj: "inj_on ?f S"
    by (rule inj_onI) (use assms(2) in \<open>auto intro: epochRoundIndex_inj [OF assms(1)]\<close>)
  have sub: "?f ` S \<subseteq> {a<..a + n} \<times> UNIV" using assms(2) by auto
  have fin: "finite ({a<..a + n} \<times> (UNIV :: bool set))" by simp
  have "card S \<le> card ({a<..a + n} \<times> (UNIV :: bool set))"
    by (rule card_inj_on_le [OF inj sub fin])
  then show ?thesis using finite_imageD [OF finite_subset [OF sub fin] inj] assms(3)
    by (simp add: card_cartesian_product)
qed

section \<open>The invariant\<close>

definition transmitted :: "reportFinalizationState \<Rightarrow> EpochRound list" where
  "transmitted st = List.map_filter (\<lambda>eff. case eff of RfTransmit m \<Rightarrow> Some (er_of_final m) | _ \<Rightarrow> None) (fin_log st)"

definition repfin_inv :: "repfin_env \<Rightarrow> reportFinalizationState \<Rightarrow> bool" where
  "repfin_inv env st \<longleftrightarrow>
     finite (fin_finalized st) \<and> in_rounds env (fin_finalizedLatest st) \<and>
     (\<forall>er \<in> fin_finalized st. in_rounds env er \<and> \<not> EpochRound_Less (fin_finalizedLatest st) er) \<and>
     (\<forall>er \<in> set (transmitted st). er \<in> fin_finalized st \<or> isExpired env st er) \<and>
     distinct (transmitted st)"

lemma repfin_inv_init: "repfin_inv env newReportFinalizationState"
  by (simp add: repfin_inv_def newReportFinalizationState_def transmitted_def in_rounds_def map_filter_simps)

lemma isExpired_latest:
  assumes "isExpired env st er" "in_rounds env (fin_finalizedLatest st)"
    "fin_finalizedLatest st' = fin_finalizedLatest st \<or> EpochRound_Less (fin_finalizedLatest st) (fin_finalizedLatest st')"
  shows "isExpired env st' er"
  using assms epochRoundIndex_mono [of "fin_finalizedLatest st" "fin_finalizedLatest st'" env]
  unfolding isExpired_def Let_def by (metis diff_right_mono order_trans)

lemma transmitted_append: "fin_log st' = fin_log st @ es \<Longrightarrow>
   transmitted st' = transmitted st @ List.map_filter (\<lambda>eff. case eff of RfTransmit m \<Rightarrow> Some (er_of_final m) | _ \<Rightarrow> None) es"
  by (simp add: transmitted_def map_filter_def)

lemma reap_inv: "repfin_inv env st \<Longrightarrow> repfin_inv env (reap_finalized env st)"
  unfolding repfin_inv_def reap_finalized_def
  by (auto simp: transmitted_def isExpired_def Let_def)

lemma finalize_inv':
  assumes inv: "repfin_inv env st" and new: "er_of_final msg \<notin> fin_finalized st" "\<not> isExpired env st (er_of_final msg)"
    and rounds: "in_rounds env (er_of_final msg)"
  shows "\<exists>st1. finalize env msg st = reap_finalized env st1 \<and> repfin_inv env st1"
proof -
  let ?er = "er_of_final msg"
  define latest where "latest = (if EpochRound_Less (fin_finalizedLatest st) ?er then ?er else fin_finalizedLatest st)"
  define es where "es = RfBroadcastEcho msg # (if fe_done env (fin_calls st) then [] else [RfTransmit msg])"
  define st1 where "st1 = st\<lparr>fin_finalized := insert ?er (fin_finalized st), fin_finalizedLatest := latest,
     fin_log := fin_log st @ es, fin_calls := Suc (fin_calls st)\<rparr>"
  have fin: "finalize env msg st = reap_finalized env st1"
    by (cases st) (simp add: finalize_def Let_def st1_def latest_def es_def)
  have latest: "fin_finalizedLatest st1 = fin_finalizedLatest st \<or> EpochRound_Less (fin_finalizedLatest st) (fin_finalizedLatest st1)"
    by (simp add: st1_def latest_def)
  have t: "transmitted st1 = transmitted st @ (if fe_done env (fin_calls st) then [] else [?er])"
    using transmitted_append [of st1 st es] by (simp add: st1_def es_def map_filter_simps)
  have fresh: "?er \<notin> set (transmitted st)" using inv new unfolding repfin_inv_def by blast
  have old: "\<not> EpochRound_Less latest er" if "er \<in> fin_finalized st" for er
    using inv that EpochRound_Less_trans [of "fin_finalizedLatest st" ?er er] unfolding repfin_inv_def latest_def by auto
  have keep: "isExpired env st1 er" if "isExpired env st er" for er
    using isExpired_latest [OF that _ latest] inv unfolding repfin_inv_def by blast
  have "repfin_inv env st1"
    unfolding repfin_inv_def
  proof (intro conjI)
    show "\<forall>er \<in> fin_finalized st1. in_rounds env er \<and> \<not> EpochRound_Less (fin_finalizedLatest st1) er"
      using inv rounds old unfolding repfin_inv_def by (auto simp: st1_def latest_def)
    show "\<forall>er \<in> set (transmitted st1). er \<in> fin_finalized st1 \<or> isExpired env st1 er"
      using inv keep unfolding repfin_inv_def t by (auto simp: st1_def)
    show "distinct (transmitted st1)" using inv fresh unfolding repfin_inv_def t by auto
  qed (use inv rounds in \<open>auto simp: repfin_inv_def st1_def latest_def\<close>)
  then show ?thesis using fin by blast
qed

lemma finalize_inv:
  assumes "repfin_inv env st" "er_of_final msg \<notin> fin_finalized st" "\<not> isExpired env st (er_of_final msg)"
    "in_rounds env (er_of_final msg)"
  shows "repfin_inv env (finalize env msg st)"
  using finalize_inv' [OF assms] reap_inv by auto

text \<open>Report generation is in the rounds 1 to \<open>RMax\<close> when it emits a final event.\<close>

definition case_ok :: "repfin_env \<Rightarrow> repfin_case \<Rightarrow> bool" where
  "case_ok env c \<longleftrightarrow> (\<forall>ev. c = RfEvent ev \<longrightarrow> in_rounds env (er_of_final ev))"

lemma process_inv: "repfin_inv env st \<Longrightarrow> case_ok env c \<Longrightarrow> repfin_inv env (repfin_process env c st)"
  by (induction env c st rule: repfin_process.induct)
    (auto simp: messageFinalEcho_def eventFinal_def Let_def case_ok_def in_rounds_def er_of_final_def not_less
      intro!: finalize_inv)

lemma run_inv: "list_all (case_ok env) cases \<Longrightarrow> repfin_inv env (repfin_run env cases)"
proof -
  have "repfin_inv env st \<Longrightarrow> list_all (case_ok env) cases \<Longrightarrow> repfin_inv env (fold (repfin_process env) cases st)" for st
    by (induction cases arbitrary: st) (auto intro: process_inv)
  then show "list_all (case_ok env) cases \<Longrightarrow> ?thesis" unfolding repfin_run_def using repfin_inv_init by blast
qed

end
