(* ===== verification/Ocr2Network.thy ===== *)
theory Ocr2Network
  imports Ocr2Agreement Ocr2RepFin
begin

text \<open>
  Report generation and report finalization together: what the oracles of an OCR2 network hand on
  to transmission.
\<close>

section \<open>What report generation hands on\<close>

definition final_frame :: "rg_env \<Rightarrow> reportGenerationState \<Rightarrow> reportGenerationState \<Rightarrow> bool" where
  "final_frame env st st' \<longleftrightarrow> (\<forall>m. RgToReportFinalization m \<in> set (rg_log st') \<longrightarrow>
     RgToReportFinalization m \<in> set (rg_log st) \<or> final_ok env m)"

lemma final_frame_refl [simp]: "final_frame env st st"
  by (simp add: final_frame_def)

lemma final_frame_upd [simp]: "final_frame env st (upd_rf f st') = final_frame env st st'"
  "final_frame env st (upd_rl g st') = final_frame env st st'"
  "final_frame env st (rg_tick st') = final_frame env st st'"
  "final_frame env (upd_rl g st) st' = final_frame env st st'"
  by (simp_all add: final_frame_def rg_upd)

lemma final_frame_emit:
  "final_frame env st st' \<Longrightarrow> (\<forall>m. eff = RgToReportFinalization m \<longrightarrow> final_ok env m) \<Longrightarrow> final_frame env st (rg_emit eff st')"
  by (auto simp: final_frame_def rg_upd)

lemma final_frame_trySend:
  "final_frame env st st' \<Longrightarrow> (\<forall>m. eff = RgToReportFinalization m \<longrightarrow> final_ok env m) \<Longrightarrow> final_frame env st (rg_trySend env' eff st')"
  by (auto simp: rg_trySend_def Let_def final_frame_emit)

lemma final_frame_complete: "final_frame env st st' \<Longrightarrow> final_frame env st (completeRound env' st')"
  by (simp add: completeRound_def final_frame_trySend)

lemmas final_frameI = final_frame_emit final_frame_trySend final_frame_complete

lemma leader_final_frame: "leader_frame st st' \<Longrightarrow> final_frame env st st'"
  by (auto simp: leader_frame_def final_frame_def)

lemma messageFinal_final_frame: "final_frame env st (messageFinal env m sender st)"
proof (cases "mf_Epoch m = ge_e env \<and> mf_Round m = rf_r (rg_followerState st) \<and>
    AttestedReportMany_VerifySignatures (ge_reportQuorum env) (ge_OnchainVerify env) (c2_OracleIdentities (ge_config env))
      \<lparr>rctx_ReportTimestamp = followerReportTimestamp env st, rctx_ExtraHash = mf_H m\<rparr> (mf_AttestedReport m)")
  case True
  then have "final_ok env m" by (simp add: final_ok_def followerReportTimestamp_rg_ts)
  then show ?thesis by (auto simp: messageFinal_def intro!: final_frameI)
qed (auto simp: messageFinal_def)

lemma observeReq_final_frame: "final_frame env st (messageObserveReq env e r q sender st)"
  by (auto simp: messageObserveReq_def Let_def intro!: final_frameI split: option.split)

lemma reportReq_final_frame: "messageReportReq env e r q asos sender st = Inr st' \<Longrightarrow> final_frame env st st'"
proof -
  have "final_frame env st (attestReport env ctx should report (rg_tick st))" for ctx should report
    by (auto simp: attestReport_def Let_def intro!: final_frameI split: option.split)
  then show "messageReportReq env e r q asos sender st = Inr st' \<Longrightarrow> final_frame env st st'"
    by (auto simp: messageReportReq_def Let_def bindG_eq_Inr_iff split: if_splits option.splits)
qed

lemma rg_finals:
  "rg_reach env st \<Longrightarrow> RgToReportFinalization m \<in> set (rg_log st) \<Longrightarrow> final_ok env m"
proof (induction rule: rg_reach.induct)
  case rg_reach_init
  have "leader_frame (rg_zero env) (rg_init env)"
    by (simp add: rg_init_def startRound_frameI)
  then show ?case using leader_final_frame [of "rg_zero env" "rg_init env" env] rg_reach_init
    by (auto simp: final_frame_def rg_zero_def)
next
  case (rg_reach_step st st')
  obtain c where c: "rg_process env c st = Inr st'" using rg_reach_step.hyps(2) by (auto elim: rg_stepE)
  have "final_frame env st st'"
  proof (cases c)
    case (RgMessage msg sender)
    then show ?thesis
      using c by (cases msg) (auto intro: observeReq_final_frame reportReq_final_frame messageFinal_final_frame
        leader_final_frame messageObserve_frame messageReport_frame)
  next
    case RgTGrace
    then show ?thesis using c grace_frame by (fastforce intro: leader_final_frame)
  next
    case RgTRound
    then show ?thesis using c startRound_frameI by (fastforce intro: leader_final_frame simp: rg_eventTRoundTimeout_def)
  qed
  then show ?case using rg_reach_step unfolding final_frame_def by blast
qed

section \<open>The rounds that can be attested\<close>

lemma attested_round:
  assumes "rg_network cfg e C faulty envs sts" "few_faulty cfg faulty"
    and "reports_unforgeable cfg e vfy faulty sts" "observations_unforgeable cfg e C faulty sts"
    and "epoch_ctx cfg e ctx" "attested cfg vfy (reportQuorum u (c2_N cfg) (c2_F cfg)) ctx rep"
  shows "0 < ctx_round ctx \<and> ctx_round ctx \<le> c2_RMax cfg"
proof -
  obtain p k r query asos h where p: "ocr2_correct cfg faulty p"
    and ctx: "ctx = \<lparr>rctx_ReportTimestamp = rg_ts (envs p) r, rctx_ExtraHash = h\<rparr>"
    and req: "req_verified (envs p) (rg_ts (envs p) r) query asos"
    using attested_by_correct [OF assms(1-3,5,6)] unfolding report_source_def by blast
  have d: "distinct (map ao_Observer (aos_of asos))" "2 * c2_F cfg < int (length (aos_of asos))"
    using req network_inv [OF assms(1) p] unfolding req_verified_def by (auto simp: aos_of_def comp_def)
  have "\<not> ao_Observer ` set (aos_of asos) \<subseteq> faulty"
  proof
    assume "ao_Observer ` set (aos_of asos) \<subseteq> faulty"
    then have "card (ao_Observer ` set (aos_of asos)) \<le> card faulty" by (intro card_mono) auto
    moreover have "card (ao_Observer ` set (aos_of asos)) = length (aos_of asos)"
      using distinct_card [OF d(1)] by simp
    ultimately show False using d(2) assms(2) unfolding few_faulty_def by linarith
  qed
  then obtain ao where ao: "ao \<in> set (aos_of asos)" "ao_Observer ao \<notin> faulty" by auto
  have "ocr2_correct cfg faulty (ao_Observer ao)"
    and "observation_source (envs (ao_Observer ao)) (rg_ts (envs p) r) query (ao_Observation ao)"
    using verified_signed [OF assms(1,4) p req ao] by blast+
  then show ?thesis
    using network_inv [OF assms(1)] unfolding observation_source_def ctx ctx_round_rg_ts
    by (auto simp: rg_ts_def)
qed

section \<open>Oracles with finalization\<close>

text \<open>The instances of all epochs: \<open>envs e i\<close> and \<open>sts e i\<close> belong to oracle \<open>i\<close> in epoch \<open>e\<close>.\<close>

definition ocr2_network ::
  "Ocr2SharedConfig \<Rightarrow> crypto \<Rightarrow> onchain_verify \<Rightarrow> int \<Rightarrow> OracleID set \<Rightarrow> (u32 \<Rightarrow> OracleID \<Rightarrow> rg_env) \<Rightarrow>
   (u32 \<Rightarrow> OracleID \<Rightarrow> reportGenerationState) \<Rightarrow> bool" where
  "ocr2_network cfg C vfy quorum faulty envs sts \<longleftrightarrow> few_faulty cfg faulty \<and>
     (\<forall>e. rg_network cfg e C faulty (envs e) (sts e) \<and> reports_unforgeable cfg e vfy faulty (sts e) \<and>
        observations_unforgeable cfg e C faulty (sts e) \<and>
        (\<forall>i. ocr2_correct cfg faulty i \<longrightarrow> ge_OnchainVerify (envs e i) = vfy \<and> ge_reportQuorum (envs e i) = quorum))"

text \<open>The finalization of a correct oracle: its events come from its report generation instances; the
  network delivers anything.\<close>

definition finalization_of ::
  "Ocr2SharedConfig \<Rightarrow> onchain_verify \<Rightarrow> int \<Rightarrow> (u32 \<Rightarrow> reportGenerationState) \<Rightarrow> repfin_env \<Rightarrow> repfin_case list \<Rightarrow> bool" where
  "finalization_of cfg vfy quorum insts fenv cases \<longleftrightarrow>
     fe_config fenv = cfg \<and> fe_Verify fenv = vfy \<and> fe_reportQuorum fenv = quorum \<and>
     (\<forall>ev. RfEvent ev \<in> set cases \<longrightarrow> (\<exists>e. RgToReportFinalization ev \<in> set (rg_log (insts e))))"

definition ctx_of_final :: "Ocr2SharedConfig \<Rightarrow> MessageFinal \<Rightarrow> ReportContext" where
  "ctx_of_final cfg m =
     \<lparr>rctx_ReportTimestamp = \<lparr>rts_ConfigDigest = c2_ConfigDigest cfg, rts_Epoch = mf_Epoch m, rts_Round = mf_Round m\<rparr>,
      rctx_ExtraHash = mf_H m\<rparr>"

lemma ctx_of_final_simps: "epoch_ctx cfg (mf_Epoch m) (ctx_of_final cfg m)" "ctx_round (ctx_of_final cfg m) = mf_Round m"
  by (simp_all add: ctx_of_final_def epoch_ctx_def ctx_round_def)

lemma event_attested:
  assumes "ocr2_network cfg C vfy quorum faulty envs sts" "ocr2_correct cfg faulty i"
    and "finalization_of cfg vfy quorum (\<lambda>e. sts e i) fenv cases" "RfEvent ev \<in> set cases"
  shows "attested cfg vfy quorum (ctx_of_final cfg ev) (mf_AttestedReport ev)"
proof -
  obtain e where "RgToReportFinalization ev \<in> set (rg_log (sts e i))"
    using assms(3,4) unfolding finalization_of_def by blast
  moreover have "rg_reach (envs e i) (sts e i)" "ge_config (envs e i) = cfg" "ge_e (envs e i) = e"
    "ge_OnchainVerify (envs e i) = vfy" "ge_reportQuorum (envs e i) = quorum"
    using assms(1,2) unfolding ocr2_network_def rg_network_def by blast+
  ultimately show ?thesis
    using rg_finals [of "envs e i" "sts e i" ev] by (simp add: final_ok_def attested_def ctx_of_final_def rg_ts_def)
qed

text \<open>Whatever is transmitted was in an event, or in a final-echo with enough valid signatures.\<close>

lemma reap_log [simp]: "fin_log (reap_finalized env st) = fin_log st"
  by (simp add: reap_finalized_def)

lemma finalize_transmits:
  "RfTransmit m \<in> set (fin_log (finalize env msg st)) \<Longrightarrow> RfTransmit m \<in> set (fin_log st) \<or> m = msg"
  by (auto simp: finalize_def Let_def split: if_splits)

lemma process_transmits:
  assumes "RfTransmit m \<in> set (fin_log (repfin_process env c st))"
  shows "RfTransmit m \<in> set (fin_log st) \<or> c = RfEvent m \<or>
    attested (fe_config env) (fe_Verify env) (fe_reportQuorum env) (ctx_of_final (fe_config env) m) (mf_AttestedReport m)"
  using assms
  by (induction env c st rule: repfin_process.induct)
    (auto simp: messageFinalEcho_def eventFinal_def Let_def attested_def ctx_of_final_def dest: finalize_transmits split: if_splits)

lemma run_transmits:
  assumes "RfTransmit m \<in> set (fin_log (repfin_run env cases))"
  shows "RfEvent m \<in> set cases \<or>
    attested (fe_config env) (fe_Verify env) (fe_reportQuorum env) (ctx_of_final (fe_config env) m) (mf_AttestedReport m)"
proof -
  have "RfTransmit m \<in> set (fin_log (fold (repfin_process env) cases st)) \<Longrightarrow>
      RfTransmit m \<in> set (fin_log st) \<or> RfEvent m \<in> set cases \<or>
      attested (fe_config env) (fe_Verify env) (fe_reportQuorum env) (ctx_of_final (fe_config env) m) (mf_AttestedReport m)" for st
    by (induction cases arbitrary: st) (auto dest: process_transmits)
  from this [of newReportFinalizationState] show ?thesis
    using assms by (auto simp: repfin_run_def newReportFinalizationState_def)
qed

lemma transmitted_attested:
  assumes "ocr2_network cfg C vfy quorum faulty envs sts" "ocr2_correct cfg faulty i"
    and "finalization_of cfg vfy quorum (\<lambda>e. sts e i) fenv cases"
    and "RfTransmit m \<in> set (fin_log (repfin_run fenv cases))"
  shows "attested cfg vfy quorum (ctx_of_final cfg m) (mf_AttestedReport m)"
  using run_transmits [OF assms(4)] event_attested [OF assms(1-3)] assms(3)
  unfolding finalization_of_def by blast

lemma finalization_cases_ok:
  assumes "ocr2_network cfg C vfy (reportQuorum u (c2_N cfg) (c2_F cfg)) faulty envs sts" "ocr2_correct cfg faulty i"
    and "finalization_of cfg vfy (reportQuorum u (c2_N cfg) (c2_F cfg)) (\<lambda>e. sts e i) fenv cases"
  shows "list_all (case_ok fenv) cases"
  unfolding list_all_iff
proof
  fix c assume c: "c \<in> set cases"
  have "in_rounds fenv (er_of_final ev)" if ev: "c = RfEvent ev" for ev
  proof -
    let ?e = "mf_Epoch ev"
    have net: "rg_network cfg ?e C faulty (envs ?e) (sts ?e)" "few_faulty cfg faulty"
      "reports_unforgeable cfg ?e vfy faulty (sts ?e)" "observations_unforgeable cfg ?e C faulty (sts ?e)"
      using assms(1) unfolding ocr2_network_def by blast+
    have "attested cfg vfy (reportQuorum u (c2_N cfg) (c2_F cfg)) (ctx_of_final cfg ev) (mf_AttestedReport ev)"
      using event_attested [OF assms] c ev by blast
    then have "mf_Round ev \<le> c2_RMax cfg"
      using attested_round [OF net ctx_of_final_simps(1)] ctx_of_final_simps(2) by metis
    then show ?thesis using assms(3) by (simp add: finalization_of_def in_rounds_def er_of_final_def)
  qed
  then show "case_ok fenv c" by (simp add: case_ok_def)
qed

text \<open>C14: Each round is transmitted once: a correct oracle of the network hands on at most one report
  for an epoch and round, however often final messages and echoes are repeated, delayed or forged,
  and even though finalization forgets old rounds; and what it hands on is attested by the quorum.\<close>

theorem each_round_is_handed_on_once:
  assumes "ocr2_network cfg C vfy (reportQuorum u (c2_N cfg) (c2_F cfg)) faulty envs sts" "ocr2_correct cfg faulty i"
    and "finalization_of cfg vfy (reportQuorum u (c2_N cfg) (c2_F cfg)) (\<lambda>e. sts e i) fenv cases"
  shows "distinct (transmitted (repfin_run fenv cases)) \<and>
    (\<forall>m. RfTransmit m \<in> set (fin_log (repfin_run fenv cases)) \<longrightarrow>
       attested cfg vfy (reportQuorum u (c2_N cfg) (c2_F cfg)) (ctx_of_final cfg m) (mf_AttestedReport m) \<and>
       0 < mf_Round m \<and> mf_Round m \<le> c2_RMax cfg)"
proof (intro conjI allI impI)
  show "distinct (transmitted (repfin_run fenv cases))"
    using run_inv [OF finalization_cases_ok [OF assms]] unfolding repfin_inv_def by blast
  fix m assume m: "RfTransmit m \<in> set (fin_log (repfin_run fenv cases))"
  show a: "attested cfg vfy (reportQuorum u (c2_N cfg) (c2_F cfg)) (ctx_of_final cfg m) (mf_AttestedReport m)"
    by (rule transmitted_attested [OF assms m])
  let ?e = "mf_Epoch m"
  have net: "rg_network cfg ?e C faulty (envs ?e) (sts ?e)" "few_faulty cfg faulty"
    "reports_unforgeable cfg ?e vfy faulty (sts ?e)" "observations_unforgeable cfg ?e C faulty (sts ?e)"
    using assms(1) unfolding ocr2_network_def by blast+
  show "0 < mf_Round m" "mf_Round m \<le> c2_RMax cfg"
    using attested_round [OF net ctx_of_final_simps(1) a] by (simp_all add: ctx_of_final_simps(2))
qed

section \<open>Memory\<close>

lemma in_window:
  assumes "repfin_inv env st" "er \<in> fin_finalized st"
  shows "epochRoundIndex env er \<le> epochRoundIndex env (fin_finalizedLatest st)"
proof -
  have "in_rounds env er" "\<not> EpochRound_Less (fin_finalizedLatest st) er"
    using assms unfolding repfin_inv_def by blast+
  then show ?thesis
    using EpochRound_Less_linear [of er "fin_finalizedLatest st"] epochRoundIndex_mono by auto
qed

lemma reap_bounded:
  assumes "repfin_inv env st" "0 < c2_RMax (fe_config env)"
  shows "int (card (fin_finalized (reap_finalized env st))) \<le> 2 * expirationAgeRounds env"
proof (cases "int (card (fin_finalized st)) \<le> 2 * expirationAgeRounds env")
  case False
  let ?S = "Set.filter (\<lambda>er. \<not> isExpired env st er) (fin_finalized st)"
  let ?a = "epochRoundIndex env (fin_finalizedLatest st) - expirationAgeRounds env"
  have "\<forall>er \<in> ?S. in_rounds env er \<and> ?a < epochRoundIndex env er \<and> epochRoundIndex env er \<le> ?a + expirationAgeRounds env"
    using in_window [OF assms(1)] assms(1) by (auto simp: isExpired_def Let_def repfin_inv_def)
  then have "int (card ?S) \<le> 2 * expirationAgeRounds env"
    using card_window [OF assms(2), of ?S ?a "expirationAgeRounds env"] expirationAgeRounds_bounds [of env] by simp
  then show ?thesis using False by (simp add: reap_finalized_def)
qed (simp add: reap_finalized_def)

lemma finalize_bounded:
  assumes "repfin_inv env st" "er_of_final msg \<notin> fin_finalized st" "\<not> isExpired env st (er_of_final msg)"
    "in_rounds env (er_of_final msg)" "0 < c2_RMax (fe_config env)"
  shows "int (card (fin_finalized (finalize env msg st))) \<le> 2 * expirationAgeRounds env"
proof -
  obtain st1 where st1: "finalize env msg st = reap_finalized env st1" "repfin_inv env st1"
    using finalize_inv' [OF assms(1-4)] by blast
  show ?thesis unfolding st1(1) by (rule reap_bounded [OF st1(2) assms(5)])
qed

lemma process_bounded:
  assumes "repfin_inv env st" "case_ok env c" "0 < c2_RMax (fe_config env)"
    "int (card (fin_finalized st)) \<le> 2 * expirationAgeRounds env"
  shows "int (card (fin_finalized (repfin_process env c st))) \<le> 2 * expirationAgeRounds env"
  using assms
  by (induction env c st rule: repfin_process.induct)
    (auto simp: messageFinalEcho_def eventFinal_def Let_def case_ok_def in_rounds_def er_of_final_def not_less
      intro!: finalize_bounded)

lemma run_bounded:
  assumes "list_all (case_ok env) cases" "0 < c2_RMax (fe_config env)"
  shows "int (card (fin_finalized (repfin_run env cases))) \<le> 2 * expirationAgeRounds env"
proof -
  have "repfin_inv env st \<Longrightarrow> int (card (fin_finalized st)) \<le> 2 * expirationAgeRounds env \<Longrightarrow> list_all (case_ok env) cases \<Longrightarrow>
      int (card (fin_finalized (fold (repfin_process env) cases st))) \<le> 2 * expirationAgeRounds env" for st
  proof (induction cases arbitrary: st)
    case (Cons c cases)
    then show ?case using process_inv process_bounded assms(2) by simp
  qed simp
  from this [OF repfin_inv_init] assms(1) expirationAgeRounds_bounds [of env] show ?thesis
    by (simp add: repfin_run_def newReportFinalizationState_def)
qed

text \<open>Finalization remembers at most twice the rounds of its expiration age, and never more than
  2000 pairs of epoch and round, whatever arrives and however long the oracle runs.\<close>

theorem finalization_memory_is_bounded:
  assumes "ocr2_network cfg C vfy (reportQuorum u (c2_N cfg) (c2_F cfg)) faulty envs sts" "ocr2_correct cfg faulty i"
    and "finalization_of cfg vfy (reportQuorum u (c2_N cfg) (c2_F cfg)) (\<lambda>e. sts e i) fenv cases" "0 < c2_RMax cfg"
  shows "int (card (fin_finalized (repfin_run fenv cases))) \<le> 2 * expirationAgeRounds fenv \<and>
    card (fin_finalized (repfin_run fenv cases)) \<le> 2000"
proof -
  have "fe_config fenv = cfg" using assms(3) by (simp add: finalization_of_def)
  then have "int (card (fin_finalized (repfin_run fenv cases))) \<le> 2 * expirationAgeRounds fenv"
    using run_bounded [OF finalization_cases_ok [OF assms(1-3)]] assms(4) by simp
  then show ?thesis using expirationAgeRounds_bounds [of fenv] by linarith
qed

section \<open>An example\<close>

text \<open>The example network of theory Ocr2Agreement in epoch 1, idle in all other epochs; oracle 1 gets the
  final-echo of the same report from oracle 3 and from oracle 2.\<close>

definition net_envs :: "u32 \<Rightarrow> OracleID \<Rightarrow> rg_env" where
  "net_envs e i = (net_env i)\<lparr>ge_e := e\<rparr>"

definition net_sts :: "u32 \<Rightarrow> OracleID \<Rightarrow> reportGenerationState" where
  "net_sts e i = (if e = 1 then net_st i else rg_init (net_envs e i))"

definition net_fenv :: repfin_env where
  "net_fenv = \<lparr>fe_config = net_cfg, fe_Verify = net_vfy, fe_reportQuorum = reportQuorum True (c2_N net_cfg) (c2_F net_cfg),
     fe_done = (\<lambda>_. False)\<rparr>"

definition net_cases :: "repfin_case list" where
  "net_cases = [RfNet (MessageFinalEcho lead_final) 3, RfNet (MessageFinalEcho lead_final) 2]"

lemma net_envs_1: "net_envs 1 i = net_env i"
  by (simp add: net_envs_def net_env_def)

lemma net_other_epochs:
  assumes "e \<noteq> 1"
  shows "rg_network net_cfg e net_crypto {3} (net_envs e) (net_sts e)"
    "reports_unforgeable net_cfg e net_vfy {3} (net_sts e)" "observations_unforgeable net_cfg e net_crypto {3} (net_sts e)"
proof -
  show "rg_network net_cfg e net_crypto {3} (net_envs e) (net_sts e)"
    using assms by (auto simp: rg_network_def net_sts_def net_envs_def keyring_ok_def net_env_def net_vfy_def intro: rg_reach_init)
  show "reports_unforgeable net_cfg e net_vfy {3} (net_sts e)"
    unfolding reports_unforgeable_def
  proof (intro allI impI)
    fix i ctx rep sig
    assume i: "ocr2_correct net_cfg {3} i" and "epoch_ctx net_cfg e ctx"
      and v: "net_vfy (oi_OnchainPublicKey (c2_OracleIdentities net_cfg ! unat i)) ctx rep sig"
    have "i \<noteq> 3" using i by (auto simp: net_correct)
    then have "ctx = net_ctx" using v unfolding net_identity(1) [OF i] net_vfy_def by simp
    with \<open>epoch_ctx net_cfg e ctx\<close> assms show "RgSignedReport ctx rep \<in> set (rg_log (net_sts e i))"
      by (simp add: epoch_ctx_def net_ctx_def ex_ts_def)
  qed
  show "observations_unforgeable net_cfg e net_crypto {3} (net_sts e)"
    unfolding observations_unforgeable_def
  proof (intro allI impI)
    fix i so ts q
    assume *: "ocr2_correct net_cfg {3} i" "rts_ConfigDigest ts = c2_ConfigDigest net_cfg" "rts_Epoch ts = e"
      "ocr2_SignedObservation_Verify net_crypto so ts q (oi_OffchainPublicKey (c2_OracleIdentities net_cfg ! unat i))"
    have "ts = ex_ts 1" using net_observation_made [OF *(1,2,4)] by blast
    then show "RgSignedObservation ts q (o2so_Observation so) \<in> set (rg_log (net_sts e i))"
      using *(3) assms by (simp add: ex_ts_def)
  qed
qed

lemma net_ocr2_network:
  "ocr2_network net_cfg net_crypto net_vfy (reportQuorum True (c2_N net_cfg) (c2_F net_cfg)) {3} net_envs net_sts"
proof -
  have q: "reportQuorum True (c2_N net_cfg) (c2_F net_cfg) = 3" by code_simp
  have 1: "net_envs 1 = net_env" "net_sts 1 = net_st" by (auto simp: net_envs_1 net_sts_def)
  have net: "rg_network net_cfg e net_crypto {3} (net_envs e) (net_sts e) \<and>
      reports_unforgeable net_cfg e net_vfy {3} (net_sts e) \<and> observations_unforgeable net_cfg e net_crypto {3} (net_sts e)" for e
  proof (cases "e = 1")
    case True
    then show ?thesis using net_network net_reports_unforgeable net_observations_unforgeable 1 by simp
  next
    case False
    then show ?thesis using net_other_epochs by blast
  qed
  then show ?thesis
    unfolding ocr2_network_def q using net_few by (simp add: net_envs_def net_env_def)
qed

lemma net_finalization: "finalization_of net_cfg net_vfy (reportQuorum True (c2_N net_cfg) (c2_F net_cfg)) insts net_fenv net_cases"
  by (simp add: finalization_of_def net_fenv_def net_cases_def)

theorem each_round_is_handed_on_once_witness:
  "transmitted (repfin_run net_fenv net_cases) = [\<lparr>er_Epoch = 1, er_Round = 1\<rparr>] \<and>
   distinct (transmitted (repfin_run net_fenv net_cases))"
proof -
  have i: "ocr2_correct net_cfg {3} 1" by (simp add: net_correct)
  have "transmitted (repfin_run net_fenv net_cases) = [\<lparr>er_Epoch = 1, er_Round = 1\<rparr>]" by code_simp
  then show ?thesis
    using each_round_is_handed_on_once [OF net_ocr2_network i net_finalization] by blast
qed

theorem finalization_memory_is_bounded_witness:
  "card (fin_finalized (repfin_run net_fenv net_cases)) \<le> 2000 \<and>
   \<lparr>er_Epoch = 1, er_Round = 1\<rparr> \<in> fin_finalized (repfin_run net_fenv net_cases)"
proof -
  have i: "ocr2_correct net_cfg {3} 1" by (simp add: net_correct)
  have R: "0 < c2_RMax net_cfg" by (simp add: net_cfg_def)
  have "\<lparr>er_Epoch = 1, er_Round = 1\<rparr> \<in> fin_finalized (repfin_run net_fenv net_cases)" by code_simp
  then show ?thesis
    using finalization_memory_is_bounded [OF net_ocr2_network i net_finalization R] by blast
qed

end
