(* ===== verification/Ocr2Pacemaker.thy ===== *)
theory Ocr2Pacemaker
  imports Ocr2Messages
begin

text \<open>
  The pacemaker of OCR2 (\<open>ocr2/protocol/pacemaker.go\<close>): it counts the epochs that the oracles wish
  for, moves to a new epoch once more than 2f of them wish for it, and starts a report generation
  instance for each epoch. What it sends, persists and starts is recorded in a log. Keccak256 and
  the answers of the database and of the contract are parameters; the database and the contract
  answer \<open>None\<close> for an error or a timeout.
\<close>

section \<open>State\<close>

record Ocr2PersistentState =
  ps2_Epoch :: u32
  ps2_HighestSentEpoch :: u32
  ps2_HighestReceivedEpoch :: "u32 list"

datatype pace2_effect =
    PeBroadcast u32
  | PePersist Ocr2PersistentState
  | PeSpawn u32 OracleID
  | PeNotifyOracle u32

record ocr2_pacemakerState =
  pm_ne :: u32
  pm_e :: u32
  pm_l :: OracleID
  pm_newepoch :: "u32 list"
  pm_tResend :: "Duration timer"
  pm_tProgress :: "Duration timer"
  pm_notifyOracleOfNewEpoch :: bool
  pm_calls :: nat
  pm_log :: "pace2_effect list"

record pace2_env =
  pe_keccak :: "bytes \<Rightarrow> bytes"
  pe_config :: Ocr2SharedConfig
  pe_persistBackedUp :: "nat \<Rightarrow> bool"
  pe_ReadState :: "Ocr2PersistentState option option"
  pe_LatestConfigDigestAndEpoch :: "(bytes \<times> u32) option"

definition pm_emit :: "pace2_effect \<Rightarrow> ocr2_pacemakerState \<Rightarrow> ocr2_pacemakerState" where
  "pm_emit eff st = st\<lparr>pm_log := pm_log st @ [eff]\<rparr>"

definition ocr2_makePacemakerState :: "pace2_env \<Rightarrow> ocr2_pacemakerState" where
  "ocr2_makePacemakerState env =
     \<lparr>pm_ne = 0, pm_e = 0, pm_l = 0, pm_newepoch = replicate (nat (c2_N (pe_config env))) 0,
      pm_tResend = TNil, pm_tProgress = TNil, pm_notifyOracleOfNewEpoch = False, pm_calls = 0, pm_log = []\<rparr>"

section \<open>Operations\<close>

text \<open>\<open>big.Int.SetBytes\<close> reads big-endian; \<open>Mod\<close> panics on a modulus of zero.\<close>

definition le64 :: "u64 \<Rightarrow> bytes" where
  "le64 x = map (\<lambda>i. ucast (drop_bit (8 * i) x)) [0..<8]"

definition big_SetBytes :: "bytes \<Rightarrow> int" where
  "big_SetBytes bs = foldl (\<lambda>acc b. acc * 256 + uint b) 0 bs"

definition ocr2_Leader :: "(bytes \<Rightarrow> bytes) \<Rightarrow> u32 \<Rightarrow> int \<Rightarrow> bytes \<Rightarrow> OracleID go" where
  "ocr2_Leader keccak epoch n key =
     (let r = big_SetBytes (keccak (key @ le64 (ucast epoch)))
      in if n = 0 then Inl ExplicitPanic else Inr (word_of_int (r mod n)))"

definition ocr2_sortedGreaterThan :: "u32 list \<Rightarrow> u32 \<Rightarrow> u32 list" where
  "ocr2_sortedGreaterThan xs y = sort (filter (\<lambda>x. y < x) xs)"

definition pm_persist :: "pace2_env \<Rightarrow> ocr2_pacemakerState \<Rightarrow> ocr2_pacemakerState" where
  "pm_persist env st =
     (let state = \<lparr>ps2_Epoch = pm_e st, ps2_HighestSentEpoch = pm_ne st, ps2_HighestReceivedEpoch = pm_newepoch st\<rparr>;
          backedUp = pe_persistBackedUp env (pm_calls st);
          st = st\<lparr>pm_calls := Suc (pm_calls st)\<rparr>
      in if backedUp then st else pm_emit (PePersist state) st)"

definition sendNewepoch :: "pace2_env \<Rightarrow> u32 \<Rightarrow> ocr2_pacemakerState \<Rightarrow> ocr2_pacemakerState" where
  "sendNewepoch env newEpoch st =
     (let st = pm_emit (PeBroadcast newEpoch) st;
          st = (if pm_ne st \<noteq> newEpoch then pm_persist env (st\<lparr>pm_ne := newEpoch\<rparr>) else st)
      in st\<lparr>pm_tResend := TArmed (c2_DeltaResend (pe_config env))\<rparr>)"

definition pm_eventProgress :: "pace2_env \<Rightarrow> ocr2_pacemakerState \<Rightarrow> ocr2_pacemakerState" where
  "pm_eventProgress env st = st\<lparr>pm_tProgress := TArmed (c2_DeltaProgress (pe_config env))\<rparr>"

definition pm_eventTResendTimeout :: "pace2_env \<Rightarrow> ocr2_pacemakerState \<Rightarrow> ocr2_pacemakerState" where
  "pm_eventTResendTimeout env st = sendNewepoch env (pm_ne st) st"

definition pm_eventChangeLeader :: "pace2_env \<Rightarrow> ocr2_pacemakerState \<Rightarrow> ocr2_pacemakerState" where
  "pm_eventChangeLeader env st =
     (let st = st\<lparr>pm_tProgress := TNil\<rparr>;
          sendEpoch = pm_ne st;
          epochPlusOne = pm_e st + 1
      in if epochPlusOne \<le> pm_e st then st
         else
           let sendEpoch = (if sendEpoch < epochPlusOne then epochPlusOne else sendEpoch)
           in sendNewepoch env sendEpoch st)"

definition pm_eventTProgressTimeout :: "pace2_env \<Rightarrow> ocr2_pacemakerState \<Rightarrow> ocr2_pacemakerState" where
  "pm_eventTProgressTimeout env st = pm_eventChangeLeader env st"

text \<open>Cancelling the running instance, waiting for it and starting the next one is one effect.\<close>

definition spawnReportGeneration :: "ocr2_pacemakerState \<Rightarrow> ocr2_pacemakerState" where
  "spawnReportGeneration st = pm_emit (PeSpawn (pm_e st) (pm_l st)) st"

text \<open>The two \<open>upon\<close> blocks of \<open>messageNewepoch\<close>.\<close>

definition upon_wishes :: "pace2_env \<Rightarrow> ocr2_pacemakerState \<Rightarrow> ocr2_pacemakerState go" where
  "upon_wishes env st =
     (let candidateEpochs = ocr2_sortedGreaterThan (pm_newepoch st) (pm_ne st); f = c2_F (pe_config env)
      in if int (length candidateEpochs) > f
         then bindG (go_index candidateEpochs (nat (int (length candidateEpochs) - (f + 1)))) (\<lambda>newEpoch.
                Inr (sendNewepoch env newEpoch st))
         else Inr st)"

definition upon_quorum :: "pace2_env \<Rightarrow> ocr2_pacemakerState \<Rightarrow> ocr2_pacemakerState go" where
  "upon_quorum env st =
     (let candidateEpochs = ocr2_sortedGreaterThan (pm_newepoch st) (pm_e st); f = c2_F (pe_config env)
      in if int (length candidateEpochs) > 2 * f
         then bindG (go_index candidateEpochs (nat (int (length candidateEpochs) - (2 * f + 1)))) (\<lambda>newEpoch.
              bindG (ocr2_Leader (pe_keccak env) newEpoch (c2_N (pe_config env))
                       (ocr2_LeaderSelectionKey (pe_keccak env) (pe_config env))) (\<lambda>l.
                let st = st\<lparr>pm_e := newEpoch, pm_l := l\<rparr>;
                    st = (if pm_ne st < pm_e st then st\<lparr>pm_ne := pm_e st\<rparr> else st);
                    st = spawnReportGeneration (pm_persist env st)
                in Inr (st\<lparr>pm_notifyOracleOfNewEpoch := True, pm_tProgress := TArmed (c2_DeltaProgress (pe_config env))\<rparr>)))
         else Inr st)"

definition messageNewepoch :: "pace2_env \<Rightarrow> u32 \<Rightarrow> OracleID \<Rightarrow> ocr2_pacemakerState \<Rightarrow> ocr2_pacemakerState go" where
  "messageNewepoch env epoch sender st =
     bindG (go_index (pm_newepoch st) (unat sender)) (\<lambda>old.
       if old < epoch
       then
         let st = pm_persist env (st\<lparr>pm_newepoch := (pm_newepoch st)[unat sender := epoch]\<rparr>)
         in bindG (upon_wishes env st) (upon_quorum env)
       else Inr st)"

section \<open>Start\<close>

definition sanityCheckState :: "pace2_env \<Rightarrow> Ocr2PersistentState \<Rightarrow> bool" where
  "sanityCheckState env state =
     (if ps2_HighestSentEpoch state < ps2_Epoch state then False
      else if int (length (ps2_HighestReceivedEpoch state)) \<noteq> c2_N (pe_config env) then False
      else True)"

text \<open>The lengths agree after the check, so \<open>copy\<close> replaces the whole slice.\<close>

definition pm_restoreStateFromDatabase :: "pace2_env \<Rightarrow> ocr2_pacemakerState \<Rightarrow> ocr2_pacemakerState go" where
  "pm_restoreStateFromDatabase env st =
     (case pe_ReadState env of
        None \<Rightarrow> Inr st
      | Some None \<Rightarrow> Inr st
      | Some (Some state) \<Rightarrow>
          if \<not> sanityCheckState env state then Inr st
          else if ps2_Epoch state < pm_e st then Inr st
          else
            bindG (ocr2_Leader (pe_keccak env) (ps2_Epoch state) (c2_N (pe_config env))
                     (ocr2_LeaderSelectionKey (pe_keccak env) (pe_config env))) (\<lambda>l.
              Inr (st\<lparr>pm_e := ps2_Epoch state, pm_ne := ps2_HighestSentEpoch state,
                     pm_newepoch := ps2_HighestReceivedEpoch state, pm_l := l\<rparr>)))"

definition restoreNeFromTransmitter :: "pace2_env \<Rightarrow> ocr2_pacemakerState \<Rightarrow> ocr2_pacemakerState" where
  "restoreNeFromTransmitter env st =
     (case pe_LatestConfigDigestAndEpoch env of
        None \<Rightarrow> st
      | Some (configDigest, epoch) \<Rightarrow>
          if c2_ConfigDigest (pe_config env) \<noteq> configDigest then st
          else if pm_ne st < epoch + 1 then st\<lparr>pm_ne := epoch + 1\<rparr> else st)"

text \<open>\<open>run\<close> up to the event loop.\<close>

definition pm_start :: "pace2_env \<Rightarrow> ocr2_pacemakerState go" where
  "pm_start env =
     bindG (ocr2_Leader (pe_keccak env) 1 (c2_N (pe_config env))
              (ocr2_LeaderSelectionKey (pe_keccak env) (pe_config env))) (\<lambda>l.
     bindG (pm_restoreStateFromDatabase env ((ocr2_makePacemakerState env)\<lparr>pm_e := 1, pm_l := l\<rparr>)) (\<lambda>st.
       let st = spawnReportGeneration (restoreNeFromTransmitter env st);
           st = st\<lparr>pm_tProgress := TArmed (c2_DeltaProgress (pe_config env))\<rparr>;
           st = sendNewepoch env (pm_ne st) st
       in Inr (st\<lparr>pm_notifyOracleOfNewEpoch := True\<rparr>)))"

section \<open>The event loop\<close>

datatype pace2_case = PcOracle | PcMessage MessageNewEpoch OracleID | PcProgress | PcChangeLeader | PcTResend | PcTProgress

fun pm_ready :: "ocr2_pacemakerState \<Rightarrow> pace2_case \<Rightarrow> bool" where
  "pm_ready st PcOracle = pm_notifyOracleOfNewEpoch st"
| "pm_ready st PcTResend = (case pm_tResend st of TArmed d \<Rightarrow> True | _ \<Rightarrow> False)"
| "pm_ready st PcTProgress = (case pm_tProgress st of TArmed d \<Rightarrow> True | _ \<Rightarrow> False)"
| "pm_ready st (PcMessage m sender) = True"
| "pm_ready st PcProgress = True"
| "pm_ready st PcChangeLeader = True"

fun pm_process :: "pace2_env \<Rightarrow> pace2_case \<Rightarrow> ocr2_pacemakerState \<Rightarrow> ocr2_pacemakerState go" where
  "pm_process env PcOracle st = Inr (pm_emit (PeNotifyOracle (pm_e st)) (st\<lparr>pm_notifyOracleOfNewEpoch := False\<rparr>))"
| "pm_process env (PcMessage (MessageNewEpoch epoch) sender) st = messageNewepoch env epoch sender st"
| "pm_process env PcProgress st = Inr (pm_eventProgress env st)"
| "pm_process env PcChangeLeader st = Inr (pm_eventChangeLeader env st)"
| "pm_process env PcTResend st = Inr (pm_eventTResendTimeout env (st\<lparr>pm_tResend := TFired\<rparr>))"
| "pm_process env PcTProgress st = Inr (pm_eventTProgressTimeout env (st\<lparr>pm_tProgress := TFired\<rparr>))"

inductive pm_reach :: "pace2_env \<Rightarrow> ocr2_pacemakerState \<Rightarrow> bool" for env where
  pm_reach_start: "pm_start env = Inr st \<Longrightarrow> pm_reach env st"
| pm_reach_step: "pm_reach env st \<Longrightarrow> pm_ready st c \<Longrightarrow> pm_process env c st = Inr st' \<Longrightarrow> pm_reach env st'"

section \<open>The invariant\<close>

definition wishing :: "u32 \<Rightarrow> u32 list \<Rightarrow> nat" where
  "wishing e xs = length (filter (\<lambda>x. e \<le> x) xs)"

text \<open>The epochs of the instances started and the wishes broadcast, in order.\<close>

definition spawned :: "ocr2_pacemakerState \<Rightarrow> u32 list" where
  "spawned st = List.map_filter (\<lambda>eff. case eff of PeSpawn e l \<Rightarrow> Some e | _ \<Rightarrow> None) (pm_log st)"

definition broadcasts :: "ocr2_pacemakerState \<Rightarrow> u32 list" where
  "broadcasts st = List.map_filter (\<lambda>eff. case eff of PeBroadcast e \<Rightarrow> Some e | _ \<Rightarrow> None) (pm_log st)"

definition pm_inv :: "pace2_env \<Rightarrow> u32 \<Rightarrow> ocr2_pacemakerState \<Rightarrow> bool" where
  "pm_inv env e0 st \<longleftrightarrow>
     int (length (pm_newepoch st)) = c2_N (pe_config env) \<and>
     (\<exists>es. spawned st = e0 # es \<and> sorted_wrt (<) (e0 # es) \<and> last (e0 # es) = pm_e st) \<and>
     (pm_e st = e0 \<or> 2 * c2_F (pe_config env) < int (wishing (pm_e st) (pm_newepoch st))) \<and>
     sorted (broadcasts st) \<and> (\<forall>e \<in> set (broadcasts st). e \<le> pm_ne st)"

lemma map_filter_snoc: "List.map_filter f (xs @ [x]) = List.map_filter f xs @ (case f x of None \<Rightarrow> [] | Some y \<Rightarrow> [y])"
  by (simp add: map_filter_def split: option.split)

lemma pm_log_simps [simp]:
  "spawned (pm_emit eff st) = spawned st @ (case eff of PeSpawn e l \<Rightarrow> [e] | _ \<Rightarrow> [])"
  "broadcasts (pm_emit eff st) = broadcasts st @ (case eff of PeBroadcast e \<Rightarrow> [e] | _ \<Rightarrow> [])"
  "pm_ne (pm_emit eff st) = pm_ne st" "pm_e (pm_emit eff st) = pm_e st" "pm_newepoch (pm_emit eff st) = pm_newepoch st"
  by (simp_all add: spawned_def broadcasts_def pm_emit_def map_filter_snoc split: pace2_effect.split)

lemma pm_upd_simps [simp]:
  "spawned (st\<lparr>pm_calls := x\<rparr>) = spawned st" "spawned (st\<lparr>pm_ne := y\<rparr>) = spawned st"
  "spawned (st\<lparr>pm_e := y\<rparr>) = spawned st" "spawned (st\<lparr>pm_l := z\<rparr>) = spawned st"
  "spawned (st\<lparr>pm_newepoch := w\<rparr>) = spawned st" "spawned (st\<lparr>pm_tResend := t\<rparr>) = spawned st"
  "spawned (st\<lparr>pm_tProgress := t\<rparr>) = spawned st" "spawned (st\<lparr>pm_notifyOracleOfNewEpoch := b\<rparr>) = spawned st"
  "broadcasts (st\<lparr>pm_calls := x\<rparr>) = broadcasts st" "broadcasts (st\<lparr>pm_ne := y\<rparr>) = broadcasts st"
  "broadcasts (st\<lparr>pm_e := y\<rparr>) = broadcasts st" "broadcasts (st\<lparr>pm_l := z\<rparr>) = broadcasts st"
  "broadcasts (st\<lparr>pm_newepoch := w\<rparr>) = broadcasts st" "broadcasts (st\<lparr>pm_tResend := t\<rparr>) = broadcasts st"
  "broadcasts (st\<lparr>pm_tProgress := t\<rparr>) = broadcasts st" "broadcasts (st\<lparr>pm_notifyOracleOfNewEpoch := b\<rparr>) = broadcasts st"
  by (simp_all add: spawned_def broadcasts_def)

lemma pm_persist_simps [simp]:
  "spawned (pm_persist env st) = spawned st" "broadcasts (pm_persist env st) = broadcasts st"
  "pm_ne (pm_persist env st) = pm_ne st" "pm_e (pm_persist env st) = pm_e st" "pm_newepoch (pm_persist env st) = pm_newepoch st"
  by (simp_all add: pm_persist_def Let_def)

lemma sendNewepoch_simps [simp]:
  "spawned (sendNewepoch env n st) = spawned st" "broadcasts (sendNewepoch env n st) = broadcasts st @ [n]"
  "pm_ne (sendNewepoch env n st) = n" "pm_e (sendNewepoch env n st) = pm_e st"
  "pm_newepoch (sendNewepoch env n st) = pm_newepoch st"
  by (simp_all add: sendNewepoch_def Let_def)

lemma sendNewepoch_inv: "pm_inv env e0 st \<Longrightarrow> pm_ne st \<le> n \<Longrightarrow> pm_inv env e0 (sendNewepoch env n st)"
  by (auto simp: pm_inv_def sorted_append)

text \<open>The entry \<open>k\<close> places from the end of the sorted entries above \<open>y\<close> is above \<open>y\<close>, and more than \<open>k\<close>
  entries reach it.\<close>

lemma candidate:
  assumes "k < length (ocr2_sortedGreaterThan xs y)"
  defines "c \<equiv> ocr2_sortedGreaterThan xs y ! (length (ocr2_sortedGreaterThan xs y) - Suc k)"
  shows "y < c \<and> k < wishing c xs"
proof -
  let ?s = "ocr2_sortedGreaterThan xs y"
  have i: "length ?s - Suc k < length ?s" using assms(1) by linarith
  have "c \<in> set ?s" unfolding c_def using i by (rule nth_mem)
  then have "y < c" by (simp add: ocr2_sortedGreaterThan_def)
  have "Suc k \<le> length (filter (\<lambda>x. c \<le> x) ?s)"
    using sorted_nth_count_ge [OF _ i] assms(1) unfolding c_def by (simp add: ocr2_sortedGreaterThan_def)
  also have "\<dots> = size (filter_mset (\<lambda>x. c \<le> x) (mset (filter (\<lambda>x. y < x) xs)))"
    by (metis mset_filter mset_sort size_mset ocr2_sortedGreaterThan_def)
  also have "\<dots> = length (filter (\<lambda>x. c \<le> x) (filter (\<lambda>x. y < x) xs))"
    by (metis mset_filter size_mset)
  also have "filter (\<lambda>x. c \<le> x) (filter (\<lambda>x. y < x) xs) = filter (\<lambda>x. c \<le> x) xs"
    unfolding filter_filter using \<open>y < c\<close> by (intro filter_cong) auto
  also have "length \<dots> = wishing c xs" by (simp add: wishing_def)
  finally show ?thesis using \<open>y < c\<close> by simp
qed

lemma wishing_update: "xs ! i \<le> e' \<Longrightarrow> wishing e xs \<le> wishing e (xs[i := e'])"
proof (induction xs arbitrary: i)
  case (Cons x xs)
  then show ?case by (cases i) (auto simp: wishing_def)
qed simp

lemma upon_wishes_inv:
  assumes "pm_inv env e0 st" "upon_wishes env st = Inr st'" "0 \<le> c2_F (pe_config env)"
  shows "pm_inv env e0 st'"
proof (cases "st' = st")
  case False
  let ?s = "ocr2_sortedGreaterThan (pm_newepoch st) (pm_ne st)" and ?f = "nat (c2_F (pe_config env))"
  have len: "?f < length ?s" and eq: "st' = sendNewepoch env (?s ! (length ?s - Suc ?f)) st"
    using assms(2,3) False
    by (auto simp: upon_wishes_def Let_def bindG_eq_Inr_iff go_index_eq_Inr nat_diff_distrib nat_add_distrib split: if_splits)
  show ?thesis unfolding eq by (rule sendNewepoch_inv [OF assms(1) less_imp_le]) (use candidate [OF len] in simp)
qed (use assms in simp)

lemma le_last: "sorted_wrt (<) xs \<Longrightarrow> x \<in> set xs \<Longrightarrow> x \<le> (last xs :: u32)"
proof (induction xs)
  case (Cons y ys)
  then show ?case
  proof (cases "ys = []")
    case False
    then have "y < last ys" using Cons.prems(1) by simp
    then show ?thesis using Cons False by (auto intro: less_imp_le)
  qed auto
qed simp

lemma upon_quorum_inv:
  assumes inv: "pm_inv env e0 st" and step: "upon_quorum env st = Inr st'" and F: "0 \<le> c2_F (pe_config env)"
  shows "pm_inv env e0 st'"
proof (cases "st' = st")
  case False
  let ?s = "ocr2_sortedGreaterThan (pm_newepoch st) (pm_e st)" and ?f = "nat (2 * c2_F (pe_config env))"
  have len: "?f < length ?s"
    using step F False by (auto simp: upon_quorum_def Let_def split: if_splits)
  have idx: "nat (int (length ?s) - (2 * c2_F (pe_config env) + 1)) = length ?s - Suc ?f"
    using F by (simp add: nat_diff_distrib nat_add_distrib)
  define c where "c = ?s ! (length ?s - Suc ?f)"
  have c: "pm_e st < c" "?f < wishing c (pm_newepoch st)" unfolding c_def using candidate [OF len] by blast+
  have len': "2 * c2_F (pe_config env) < int (length ?s)" using len F by linarith
  obtain l where st': "st' = (spawnReportGeneration (pm_persist env
      (let st1 = st\<lparr>pm_e := c, pm_l := l\<rparr> in if pm_ne st1 < pm_e st1 then st1\<lparr>pm_ne := pm_e st1\<rparr> else st1)))
      \<lparr>pm_notifyOracleOfNewEpoch := True, pm_tProgress := TArmed (c2_DeltaProgress (pe_config env))\<rparr>"
    using step len' unfolding upon_quorum_def Let_def bindG_eq_Inr_iff if_P [OF len'] idx
    by (simp add: go_index_eq_Inr bindG_eq_Inr_iff c_def [symmetric]) blast
  have f: "spawned st' = spawned st @ [c]" "pm_e st' = c" "pm_newepoch st' = pm_newepoch st"
    "broadcasts st' = broadcasts st" "pm_ne st' = (if pm_ne st < c then c else pm_ne st)"
    by (simp_all add: st' spawnReportGeneration_def Let_def)
  obtain es where es: "spawned st = e0 # es" "sorted_wrt (<) (e0 # es)" "last (e0 # es) = pm_e st"
    using inv unfolding pm_inv_def by blast
  have "x < c" if "x \<in> set (e0 # es)" for x
  proof -
    have "x \<le> last (e0 # es)" using es(2) that by (rule le_last)
    then show ?thesis using es(3) c(1) by simp
  qed
  then have "sorted_wrt (<) (e0 # es @ [c])" using es(2) by (auto simp: sorted_wrt_append)
  moreover have "2 * c2_F (pe_config env) < int (wishing c (pm_newepoch st))" using c(2) F by linarith
  ultimately show ?thesis
    using inv es(1) unfolding pm_inv_def f by auto
qed (use inv in simp)

lemma messageNewepoch_inv:
  assumes inv: "pm_inv env e0 st" and step: "messageNewepoch env epoch sender st = Inr st'" and F: "0 \<le> c2_F (pe_config env)"
  shows "pm_inv env e0 st'"
proof (cases "st' = st")
  case False
  let ?st1 = "pm_persist env (st\<lparr>pm_newepoch := (pm_newepoch st)[unat sender := epoch]\<rparr>)"
  obtain st2 where lt: "pm_newepoch st ! unat sender < epoch" and st2: "upon_wishes env ?st1 = Inr st2" "upon_quorum env st2 = Inr st'"
    using step False by (auto simp: messageNewepoch_def Let_def bindG_eq_Inr_iff go_index_eq_Inr split: if_splits)
  have "wishing (pm_e st) (pm_newepoch st) \<le> wishing (pm_e st) ((pm_newepoch st)[unat sender := epoch])"
    by (rule wishing_update) (use lt in simp)
  then have "pm_inv env e0 ?st1" using inv unfolding pm_inv_def by auto
  then show ?thesis using upon_wishes_inv upon_quorum_inv st2 F by blast
qed (use inv in simp)

lemma changeLeader_inv:
  assumes "pm_inv env e0 st"
  shows "pm_inv env e0 (pm_eventChangeLeader env st)"
proof -
  let ?st = "st\<lparr>pm_tProgress := TNil\<rparr>"
  have inv: "pm_inv env e0 ?st" using assms by (simp add: pm_inv_def)
  show ?thesis
  proof (cases "pm_e st + 1 \<le> pm_e st")
    case False
    then have "pm_eventChangeLeader env st = sendNewepoch env (if pm_ne st < pm_e st + 1 then pm_e st + 1 else pm_ne st) ?st"
      by (simp add: pm_eventChangeLeader_def Let_def)
    then show ?thesis using sendNewepoch_inv [OF inv] by simp
  qed (use inv in \<open>simp add: pm_eventChangeLeader_def Let_def\<close>)
qed

lemma process_pm_inv:
  assumes "pm_inv env e0 st" "pm_process env c st = Inr st'" "0 \<le> c2_F (pe_config env)"
  shows "pm_inv env e0 st'"
proof (cases c)
  case (PcMessage m sender)
  then show ?thesis using assms by (cases m) (auto intro: messageNewepoch_inv)
next
  case PcTResend
  have "pm_inv env e0 (st\<lparr>pm_tResend := TFired\<rparr>)" using assms(1) by (simp add: pm_inv_def)
  then show ?thesis using PcTResend assms(2) by (auto simp: pm_eventTResendTimeout_def intro: sendNewepoch_inv)
next
  case PcTProgress
  have "pm_inv env e0 (st\<lparr>pm_tProgress := TFired\<rparr>)" using assms(1) by (simp add: pm_inv_def)
  then show ?thesis using PcTProgress assms(2) by (auto simp: pm_eventTProgressTimeout_def intro: changeLeader_inv)
next
  case PcChangeLeader
  then show ?thesis using assms(2) changeLeader_inv [OF assms(1)] by simp
next
  case PcOracle
  then have "st' = pm_emit (PeNotifyOracle (pm_e st)) (st\<lparr>pm_notifyOracleOfNewEpoch := False\<rparr>)" using assms(2) by simp
  then show ?thesis using assms(1) by (simp only: pm_inv_def) simp
next
  case PcProgress
  then have "st' = st\<lparr>pm_tProgress := TArmed (c2_DeltaProgress (pe_config env))\<rparr>"
    using assms(2) by (simp add: pm_eventProgress_def)
  then show ?thesis using assms(1) by (simp only: pm_inv_def) simp
qed

lemma start_pm_inv:
  assumes "pm_start env = Inr st"
  shows "pm_inv env (hd (spawned st)) st"
proof -
  obtain l st1 where st1: "pm_restoreStateFromDatabase env ((ocr2_makePacemakerState env)\<lparr>pm_e := 1, pm_l := l\<rparr>) = Inr st1"
    and st: "st = (let st = spawnReportGeneration (restoreNeFromTransmitter env st1);
           st = st\<lparr>pm_tProgress := TArmed (c2_DeltaProgress (pe_config env))\<rparr>;
           st = sendNewepoch env (pm_ne st) st
       in st\<lparr>pm_notifyOracleOfNewEpoch := True\<rparr>)"
    using assms by (auto simp: pm_start_def bindG_eq_Inr_iff Let_def)
  have 1: "spawned st1 = [] \<and> broadcasts st1 = [] \<and> int (length (pm_newepoch st1)) = c2_N (pe_config env)"
    using st1 by (auto simp: pm_restoreStateFromDatabase_def ocr2_makePacemakerState_def spawned_def broadcasts_def map_filter_simps
      bindG_eq_Inr_iff sanityCheckState_def c2_N_def split: option.splits if_splits)
  let ?st2 = "restoreNeFromTransmitter env st1"
  have "spawned ?st2 = [] \<and> broadcasts ?st2 = [] \<and> int (length (pm_newepoch ?st2)) = c2_N (pe_config env)"
    using 1 by (auto simp: restoreNeFromTransmitter_def split: option.split)
  then show ?thesis by (simp add: pm_inv_def st Let_def spawnReportGeneration_def)
qed

lemma reach_pm_inv: "pm_reach env st \<Longrightarrow> 0 \<le> c2_F (pe_config env) \<Longrightarrow> \<exists>e0. pm_inv env e0 st"
proof (induction rule: pm_reach.induct)
  case (pm_reach_start st)
  show ?case using start_pm_inv [OF pm_reach_start(1)] by (rule exI)
next
  case (pm_reach_step st c st')
  then obtain e0 where "pm_inv env e0 st" by blast
  then have "pm_inv env e0 st'" using pm_reach_step(3) \<open>0 \<le> c2_F (pe_config env)\<close> by (rule process_pm_inv)
  then show ?case by (rule exI)
qed

section \<open>Properties\<close>

text \<open>C15: OCR2 epochs move forward on a quorum: the epochs for which an oracle starts report generation
  strictly increase (so no epoch gets a second instance while the oracle runs), the current epoch is
  the last of them, and unless it is the one the oracle started in, more than 2f oracles have
  wished for it or a later one; the wishes the oracle broadcasts never go back.\<close>

theorem ocr2_epochs_need_a_quorum:
  assumes "pm_reach env st" "0 \<le> c2_F (pe_config env)"
  shows "sorted_wrt (<) (spawned st) \<and> spawned st \<noteq> [] \<and> pm_e st = last (spawned st) \<and>
    (pm_e st = hd (spawned st) \<or>
       2 * c2_F (pe_config env) < int (length (filter (\<lambda>x. pm_e st \<le> x) (pm_newepoch st)))) \<and>
    sorted (broadcasts st)"
proof -
  obtain e0 where "pm_inv env e0 st" using reach_pm_inv [OF assms] by blast
  then show ?thesis unfolding pm_inv_def wishing_def by auto
qed

text \<open>No message of a known sender makes the pacemaker panic.\<close>

lemma messageNewepoch_total:
  assumes "0 \<le> c2_F (pe_config env)" "0 < c2_N (pe_config env)" "int (length (pm_newepoch st)) = c2_N (pe_config env)"
    "int (unat sender) < c2_N (pe_config env)"
  shows "\<exists>st'. messageNewepoch env epoch sender st = Inr st'"
proof -
  have idx: "nat (int (length xs) - (k + 1)) < length xs" if "k < int (length xs)" "0 \<le> k" for k and xs :: "u32 list"
    using that by linarith
  have wishes: "\<exists>st'. upon_wishes env st = Inr st'" for st
    using idx [of "c2_F (pe_config env)" "ocr2_sortedGreaterThan (pm_newepoch st) (pm_ne st)"] assms(1)
    by (auto simp: upon_wishes_def Let_def)
  have quorum: "\<exists>st'. upon_quorum env st = Inr st'" for st
    using idx [of "2 * c2_F (pe_config env)" "ocr2_sortedGreaterThan (pm_newepoch st) (pm_e st)"] assms(1,2)
    by (auto simp: upon_quorum_def Let_def ocr2_Leader_def)
  have "unat sender < length (pm_newepoch st)" using assms(3,4) by (simp only: of_nat_less_iff flip: assms(3))
  moreover have "\<exists>st'. bindG (upon_wishes env st) (upon_quorum env) = Inr st'" for st
    using wishes [of st] quorum by (auto simp: bindG_eq_Inr_iff)
  ultimately show ?thesis by (simp add: messageNewepoch_def Let_def)
qed

section \<open>An example\<close>

definition pace_ex_cfg :: Ocr2SharedConfig where
  "pace_ex_cfg =
     \<lparr>c2_DeltaProgress = 10, c2_DeltaResend = 10, c2_DeltaRound = 5, c2_DeltaGrace = 1, c2_DeltaStage = 1,
      c2_RMax = 3, c2_S = [1],
      c2_OracleIdentities = replicate 4 \<lparr>oi_OffchainPublicKey = [], oi_OnchainPublicKey = [], oi_PeerID = [], oi_TransmitAccount = []\<rparr>,
      c2_ReportingPluginConfig = [],
      c2_MaxDurationQuery = 1, c2_MaxDurationObservation = 1, c2_MaxDurationReport = 1,
      c2_MaxDurationShouldAcceptFinalizedReport = 1, c2_MaxDurationShouldTransmitAcceptedReport = 1,
      c2_F = 1, c2_OnchainConfig = [], c2_ConfigDigest = [1], c2_SharedSecret = []\<rparr>"

definition pace_ex_env :: "Ocr2PersistentState option \<Rightarrow> pace2_env" where
  "pace_ex_env db = \<lparr>pe_keccak = (\<lambda>bs. [2]), pe_config = pace_ex_cfg, pe_persistBackedUp = (\<lambda>_. False),
     pe_ReadState = Some db, pe_LatestConfigDigestAndEpoch = None\<rparr>"

fun pm_run :: "pace2_env \<Rightarrow> ocr2_pacemakerState \<Rightarrow> (u32 \<times> OracleID) list \<Rightarrow> ocr2_pacemakerState go" where
  "pm_run env st [] = Inr st"
| "pm_run env st ((e, i) # ms) = bindG (messageNewepoch env e i st) (\<lambda>st. pm_run env st ms)"

lemma pm_run_reach: "pm_reach env st \<Longrightarrow> pm_run env st ms = Inr st' \<Longrightarrow> pm_reach env st'"
proof (induction env st ms rule: pm_run.induct)
  case (2 env st e i ms)
  obtain st1 where st1: "messageNewepoch env e i st = Inr st1" "pm_run env st1 ms = Inr st'"
    using "2.prems" by (auto simp: bindG_eq_Inr_iff)
  have "pm_reach env st1"
    using "2.prems"(1) by (rule pm_reach_step [where c = "PcMessage (MessageNewEpoch e) i"]) (simp_all add: st1)
  then show ?case using "2.IH" [OF st1(1)] st1(2) by simp
qed simp

definition pace_ex_run :: "(u32 \<times> OracleID) list \<Rightarrow> ocr2_pacemakerState go" where
  "pace_ex_run ms = bindG (pm_start (pace_ex_env None)) (\<lambda>st. pm_run (pace_ex_env None) st ms)"

theorem ocr2_epochs_need_a_quorum_witness:
  "\<exists>st. pace_ex_run [(2, 0), (3, 1), (2, 3)] = Inr st \<and> spawned st = [1, 2] \<and> broadcasts st = [0, 2] \<and>
     2 < length (filter (\<lambda>x. 2 \<le> x) (pm_newepoch st))"
proof -
  have run: "(case pace_ex_run [(2, 0), (3, 1), (2, 3)] of
      Inl p \<Rightarrow> False | Inr st \<Rightarrow> spawned st = [1, 2] \<and> broadcasts st = [0, 2] \<and> pm_e st = 2)"
    by code_simp
  then obtain st where st: "pace_ex_run [(2, 0), (3, 1), (2, 3)] = Inr st" "spawned st = [1, 2]" "broadcasts st = [0, 2]" "pm_e st = 2"
    by (auto split: sum.splits)
  obtain st0 where "pm_start (pace_ex_env None) = Inr st0" "pm_run (pace_ex_env None) st0 [(2, 0), (3, 1), (2, 3)] = Inr st"
    using st(1) unfolding pace_ex_run_def by (auto simp: bindG_eq_Inr_iff)
  then have "pm_reach (pace_ex_env None) st" by (blast intro: pm_run_reach pm_reach_start)
  from ocr2_epochs_need_a_quorum [OF this] st show ?thesis by (simp add: pace_ex_env_def pace_ex_cfg_def)
qed

text \<open>Until the oracle first wishes for an epoch, \<open>ne\<close> is 0 while \<open>e\<close> is 1. A wish that arrives then is
  persisted with them, and that state fails the check at the next start, which ignores it as corrupted.\<close>

lemma first_epoch_state_is_rejected:
  "\<exists>st state. pm_reach (pace_ex_env None) st \<and> PePersist state \<in> set (pm_log st) \<and>
     \<not> sanityCheckState (pace_ex_env (Some state)) state"
proof -
  let ?state = "\<lparr>ps2_Epoch = 1, ps2_HighestSentEpoch = 0, ps2_HighestReceivedEpoch = [0, 2, 0, 0]\<rparr>"
  have run: "(case pace_ex_run [(2, 1)] of Inl p \<Rightarrow> False | Inr st \<Rightarrow> PePersist ?state \<in> set (pm_log st))"
    by code_simp
  then obtain st where st: "pace_ex_run [(2, 1)] = Inr st" "PePersist ?state \<in> set (pm_log st)"
    by (auto split: sum.splits)
  obtain st0 where "pm_start (pace_ex_env None) = Inr st0" "pm_run (pace_ex_env None) st0 [(2, 1)] = Inr st"
    using st(1) unfolding pace_ex_run_def by (auto simp: bindG_eq_Inr_iff)
  then have "pm_reach (pace_ex_env None) st" by (blast intro: pm_run_reach pm_reach_start)
  moreover have "\<not> sanityCheckState (pace_ex_env (Some ?state)) ?state" by (simp add: sanityCheckState_def)
  ultimately show ?thesis using st(2) by blast
qed

end
