(* ===== verification/Ocr2Transmission.thy ===== *)
theory Ocr2Transmission
  imports Transmission Ocr2Pacemaker
begin

text \<open>
  The transmission protocol of OCR2 (\<open>ocr2/protocol/transmission.go\<close> with the queue of \<open>heap.go\<close>):
  finalized reports that the plugin accepts wait in a heap ordered by time until the oracle's stage
  of the transmission schedule, and are then sent to the contract. Times are nanoseconds; the clock
  advances between the handlers. The heap and the schedule's loop are those of the theories MinHeap
  and Transmission.
\<close>

section \<open>State\<close>

record PendingTransmission =
  pt_Time :: int
  pt_ExtraHash :: bytes
  pt_Report :: bytes
  pt_AttributedSignatures :: "AttributedOnchainSignature list"

type_synonym tx2_item = "ReportTimestamp \<times> PendingTransmission"

datatype tx2_effect =
    TxPersist ReportTimestamp "PendingTransmission option"
  | TxTransmit ReportContext bytes "AttributedOnchainSignature list" int bool

record tx2_env =
  xe_keccak :: "bytes \<Rightarrow> bytes"
  xe_aesctr :: "bytes \<Rightarrow> nat \<Rightarrow> u8"
  xe_config :: Ocr2SharedConfig
  xe_id :: OracleID
  xe_ShouldAccept :: "nat \<Rightarrow> ReportTimestamp \<Rightarrow> bytes \<Rightarrow> bool option"
  xe_ShouldTransmit :: "nat \<Rightarrow> ReportTimestamp \<Rightarrow> bytes \<Rightarrow> bool option"
  xe_Transmit :: "nat \<Rightarrow> bool"
  xe_persistOverflows :: "nat \<Rightarrow> bool"
  xe_pending :: "tx2_item list option"

text \<open>The ghost fields \<open>tx_events\<close> and \<open>tx_log\<close> record the events handled, with the time read by the
  handler, and the updates and transmissions made.\<close>

record tx2_state =
  tx_times :: "tx2_item list"
  tx_tTransmit :: "int timer"
  tx_now :: int
  tx_calls :: nat
  tx_events :: "(MessageFinal \<times> int) list"
  tx_log :: "tx2_effect list"

section \<open>The heap\<close>

definition tx_Less :: "tx2_item \<Rightarrow> tx2_item \<Rightarrow> bool" where
  "tx_Less a b \<longleftrightarrow> pt_Time (snd a) < pt_Time (snd b)"

definition tx_Push :: "tx2_item \<Rightarrow> tx2_item list \<Rightarrow> tx2_item list" where
  "tx_Push item h = MinHeap_Push tx_Less item h"

definition tx_Pop :: "tx2_item list \<Rightarrow> (tx2_item \<times> tx2_item list) go" where
  "tx_Pop h = MinHeap_Pop tx_Less h"

definition tx_Peek :: "tx2_item list \<Rightarrow> tx2_item go" where
  "tx_Peek h = go_index h 0"

section \<open>The transmission schedule\<close>

definition ocr2_transmission_order :: "tx2_env \<Rightarrow> u32 \<Rightarrow> u8 \<Rightarrow> int list go" where
  "ocr2_transmission_order env epoch round =
     (let hash = xe_keccak env (ocr2_TransmissionOrderKey (xe_keccak env) (xe_config env)
                   @ c2_ConfigDigest (xe_config env) @ le64 (ucast epoch) @ le64 (ucast round))
      in Permutation (xe_aesctr env) (c2_N (xe_config env)) (go_copy 16 hash))"

definition ocr2_transmitDelay :: "tx2_env \<Rightarrow> u32 \<Rightarrow> u8 \<Rightarrow> Duration option go" where
  "ocr2_transmitDelay env epoch round =
     bindG (ocr2_transmission_order env epoch round) (\<lambda>pi.
     bindG (stage_loop pi 0 0 (c2_S (xe_config env)) (unat (xe_id env))) (\<lambda>stage.
       Inr (case stage of None \<Rightarrow> None | Some i \<Rightarrow> Some (of_nat i * c2_DeltaStage (xe_config env)))))"

section \<open>Handlers\<close>

definition tx_update :: "tx2_env \<Rightarrow> ReportTimestamp \<Rightarrow> PendingTransmission option \<Rightarrow> tx2_state \<Rightarrow> tx2_state" where
  "tx_update env ts upd st =
     (let overflows = xe_persistOverflows env (tx_calls st);
          st = st\<lparr>tx_calls := Suc (tx_calls st)\<rparr>
      in if overflows then st else st\<lparr>tx_log := tx_log st @ [TxPersist ts upd]\<rparr>)"

text \<open>\<open>if queue isn't empty, set tTransmit to expire at next transmission time\<close>\<close>

definition tx_arm :: "tx2_state \<Rightarrow> tx2_state" where
  "tx_arm st =
     (case tx_times st of [] \<Rightarrow> st | next # rest \<Rightarrow> st\<lparr>tx_tTransmit := TArmed (pt_Time (snd next))\<rparr>)"

text \<open>The database answers with its pending transmissions in some order. \<open>start\<close> is the time read.\<close>

definition tx_restoreFromDatabase :: "tx2_env \<Rightarrow> int \<Rightarrow> tx2_state" where
  "tx_restoreFromDatabase env start =
     (let st = \<lparr>tx_times = [], tx_tTransmit = TNil, tx_now = start, tx_calls = 0, tx_events = [], tx_log = []\<rparr>
      in case xe_pending env of
           None \<Rightarrow> st
         | Some pending \<Rightarrow>
             tx_arm (st\<lparr>tx_times := foldl (\<lambda>h item. if start < pt_Time (snd item) then tx_Push item h else h) [] pending\<rparr>))"

text \<open>\<open>now\<close> is the time read after the plugin has accepted.\<close>

definition eventTransmit :: "tx2_env \<Rightarrow> int \<Rightarrow> MessageFinal \<Rightarrow> tx2_state \<Rightarrow> tx2_state go" where
  "eventTransmit env now ev st =
     (let ts = \<lparr>rts_ConfigDigest = c2_ConfigDigest (xe_config env), rts_Epoch = mf_Epoch ev, rts_Round = mf_Round ev\<rparr>;
          shouldAccept = xe_ShouldAccept env (tx_calls st) ts (arm_Report (mf_AttestedReport ev));
          st = st\<lparr>tx_calls := Suc (tx_calls st), tx_events := tx_events st @ [(ev, now)]\<rparr>
      in if shouldAccept \<noteq> Some True then Inr st
         else bindG (ocr2_transmitDelay env (mf_Epoch ev) (mf_Round ev)) (\<lambda>delayMaybe.
              case delayMaybe of
                None \<Rightarrow> Inr st
              | Some delay \<Rightarrow>
                  let transmission = \<lparr>pt_Time = now + sint delay, pt_ExtraHash = mf_H ev,
                        pt_Report = arm_Report (mf_AttestedReport ev),
                        pt_AttributedSignatures = arm_AttributedSignatures (mf_AttestedReport ev)\<rparr>;
                      st = tx_update env ts (Some transmission) st;
                      st = st\<lparr>tx_times := tx_Push (ts, transmission) (tx_times st)\<rparr>
                  in bindG (tx_Peek (tx_times st)) (\<lambda>next.
                     Inr (if er_of ts = er_of (fst next)
                          then st\<lparr>tx_tTransmit := TArmed (tx_now st + sint delay)\<rparr> else st))))"

definition eventTTransmitTimeout :: "tx2_env \<Rightarrow> tx2_state \<Rightarrow> tx2_state go" where
  "eventTTransmitTimeout env st =
     (if length (tx_times st) = 0 then Inr (tx_arm st)
      else
        bindG (tx_Pop (tx_times st)) (\<lambda>(item, times).
          let ts = fst item; trans = snd item;
              st = st\<lparr>tx_times := times\<rparr>;
              st = tx_update env \<lparr>rts_ConfigDigest = c2_ConfigDigest (xe_config env), rts_Epoch = rts_Epoch ts, rts_Round = rts_Round ts\<rparr> None st;
              shouldTransmit = xe_ShouldTransmit env (tx_calls st) ts (pt_Report trans);
              st = st\<lparr>tx_calls := Suc (tx_calls st)\<rparr>
          in if shouldTransmit \<noteq> Some True then Inr (tx_arm st)
             else
               let ok = xe_Transmit env (tx_calls st);
                   st = st\<lparr>tx_calls := Suc (tx_calls st),
                          tx_log := tx_log st @ [TxTransmit \<lparr>rctx_ReportTimestamp = ts, rctx_ExtraHash = pt_ExtraHash trans\<rparr>
                            (pt_Report trans) (pt_AttributedSignatures trans) (tx_now st) ok]\<rparr>
               in Inr (tx_arm st)))"

datatype tx2_case = TxEvent int MessageFinal | TxTimer | TxClock int

fun tx_ready :: "tx2_state \<Rightarrow> tx2_case \<Rightarrow> bool" where
  "tx_ready st (TxEvent now ev) = (now \<le> tx_now st)"
| "tx_ready st TxTimer = (case tx_tTransmit st of TArmed d \<Rightarrow> d \<le> tx_now st | _ \<Rightarrow> False)"
| "tx_ready st (TxClock t) = (tx_now st \<le> t)"

fun tx_process :: "tx2_env \<Rightarrow> tx2_case \<Rightarrow> tx2_state \<Rightarrow> tx2_state go" where
  "tx_process env (TxEvent now ev) st = eventTransmit env now ev st"
| "tx_process env TxTimer st = eventTTransmitTimeout env (st\<lparr>tx_tTransmit := TFired\<rparr>)"
| "tx_process env (TxClock t) st = Inr (st\<lparr>tx_now := t\<rparr>)"

inductive tx_reach :: "tx2_env \<Rightarrow> int \<Rightarrow> tx2_state \<Rightarrow> bool" for env start where
  tx_reach_start: "tx_reach env start (tx_restoreFromDatabase env start)"
| tx_reach_step: "tx_reach env start st \<Longrightarrow> tx_ready st c \<Longrightarrow> tx_process env c st = Inr st' \<Longrightarrow> tx_reach env start st'"

section \<open>The invariant\<close>

definition tx_key :: "tx2_item \<Rightarrow> int" where
  "tx_key item = pt_Time (snd item)"

lemma tx_Less_key: "tx_Less = (\<lambda>a b. tx_key a < tx_key b)"
  by (simp add: tx_Less_def tx_key_def fun_eq_iff)

definition tx_heap :: "tx2_item list \<Rightarrow> bool" where
  "tx_heap h \<longleftrightarrow> is_heap tx_key (length h) h"

lemma tx_Push_spec:
  assumes "tx_heap h"
  shows "tx_heap (tx_Push x h) \<and> set (tx_Push x h) = insert x (set h) \<and> tx_Push x h \<noteq> [] \<and>
    tx_key (tx_Push x h ! 0) \<le> tx_key x \<and> (h \<noteq> [] \<longrightarrow> tx_key (tx_Push x h ! 0) \<le> tx_key (h ! 0))"
proof -
  have heap: "tx_heap (tx_Push x h)" and m: "mset (tx_Push x h) = add_mset x (mset h)"
    using MinHeap_Push_spec [of tx_key h x] assms unfolding tx_heap_def tx_Push_def tx_Less_key by blast+
  have s: "set (tx_Push x h) = insert x (set h)" using m by (metis set_mset_add_mset_insert set_mset_mset)
  have "tx_key (tx_Push x h ! 0) \<le> tx_key y" if "y \<in> set (tx_Push x h)" for y
    using that heap is_heap_root [of tx_key] unfolding tx_heap_def in_set_conv_nth by blast
  then show ?thesis using heap s by (cases h) auto
qed

text \<open>An item comes from an event that the plugin accepted, with the delay of the schedule, or from the
  database.\<close>

definition tx_scheduled :: "tx2_env \<Rightarrow> tx2_state \<Rightarrow> tx2_item \<Rightarrow> bool" where
  "tx_scheduled env st item \<longleftrightarrow>
     (\<exists>pending. xe_pending env = Some pending \<and> item \<in> set pending) \<or>
     (\<exists>ev now d n. (ev, now) \<in> set (tx_events st) \<and>
        ocr2_transmitDelay env (mf_Epoch ev) (mf_Round ev) = Inr (Some d) \<and>
        fst item = \<lparr>rts_ConfigDigest = c2_ConfigDigest (xe_config env), rts_Epoch = mf_Epoch ev, rts_Round = mf_Round ev\<rparr> \<and>
        xe_ShouldAccept env n (fst item) (pt_Report (snd item)) = Some True \<and>
        snd item = \<lparr>pt_Time = now + sint d, pt_ExtraHash = mf_H ev, pt_Report = arm_Report (mf_AttestedReport ev),
          pt_AttributedSignatures = arm_AttributedSignatures (mf_AttestedReport ev)\<rparr>)"

definition tx_sent :: "tx2_env \<Rightarrow> tx2_state \<Rightarrow> tx2_effect \<Rightarrow> bool" where
  "tx_sent env st eff \<longleftrightarrow> (\<forall>ctx rep sigs t ok. eff = TxTransmit ctx rep sigs t ok \<longrightarrow>
     (\<exists>item n. tx_scheduled env st item \<and> tx_key item \<le> t \<and>
        ctx = \<lparr>rctx_ReportTimestamp = fst item, rctx_ExtraHash = pt_ExtraHash (snd item)\<rparr> \<and>
        rep = pt_Report (snd item) \<and> sigs = pt_AttributedSignatures (snd item) \<and>
        xe_ShouldTransmit env n (fst item) rep = Some True))"

definition tx_armed :: "tx2_state \<Rightarrow> bool" where
  "tx_armed st \<longleftrightarrow> (tx_times st \<noteq> [] \<longrightarrow> (\<exists>d. tx_tTransmit st = TArmed d \<and> tx_key (tx_times st ! 0) \<le> d))"

definition tx_inv :: "tx2_env \<Rightarrow> tx2_state \<Rightarrow> bool" where
  "tx_inv env st \<longleftrightarrow> tx_heap (tx_times st) \<and> tx_armed st \<and>
     (\<forall>item \<in> set (tx_times st). tx_scheduled env st item) \<and> (\<forall>eff \<in> set (tx_log st). tx_sent env st eff)"

lemma tx_scheduled_mono:
  "tx_scheduled env st item \<Longrightarrow> set (tx_events st) \<subseteq> set (tx_events st') \<Longrightarrow> tx_scheduled env st' item"
  unfolding tx_scheduled_def by blast

lemma tx_sent_mono: "tx_sent env st eff \<Longrightarrow> set (tx_events st) \<subseteq> set (tx_events st') \<Longrightarrow> tx_sent env st' eff"
  unfolding tx_sent_def using tx_scheduled_mono by metis

lemma tx_arm_fields [simp]:
  "tx_times (tx_arm st) = tx_times st" "tx_events (tx_arm st) = tx_events st" "tx_log (tx_arm st) = tx_log st"
  by (simp_all add: tx_arm_def split: list.split)

lemma tx_arm_armed: "tx_armed (tx_arm st)"
  by (auto simp: tx_armed_def tx_arm_def tx_key_def split: list.split)

lemma tx_update_fields [simp]:
  "tx_times (tx_update env ts u st) = tx_times st" "tx_events (tx_update env ts u st) = tx_events st"
  "tx_tTransmit (tx_update env ts u st) = tx_tTransmit st" "tx_now (tx_update env ts u st) = tx_now st"
  by (simp_all add: tx_update_def Let_def)

lemma tx_update_log: "tx_log (tx_update env ts u st) = tx_log st \<or> tx_log (tx_update env ts u st) = tx_log st @ [TxPersist ts u]"
  by (simp add: tx_update_def Let_def)

lemma tx_sent_persist [simp]: "tx_sent env st (TxPersist ts u)"
  by (simp add: tx_sent_def)

text \<open>The invariant after the queue has changed, from its parts.\<close>

lemma tx_invI:
  assumes "tx_inv env st" "set (tx_events st) \<subseteq> set (tx_events st')" "tx_heap (tx_times st')" "tx_armed st'"
    and "\<And>item. item \<in> set (tx_times st') \<Longrightarrow> item \<in> set (tx_times st) \<or> tx_scheduled env st' item"
    and "\<And>eff. eff \<in> set (tx_log st') \<Longrightarrow> eff \<in> set (tx_log st) \<or> tx_sent env st' eff"
  shows "tx_inv env st'"
  using assms tx_scheduled_mono tx_sent_mono unfolding tx_inv_def by metis

lemma tx_heap_Nil [simp]: "tx_heap []"
  by (simp add: tx_heap_def is_heap_def)

lemma restore_queue:
  assumes "tx_heap h"
  shows "tx_heap (foldl (\<lambda>h item. if start < pt_Time (snd item) then tx_Push item h else h) h items) \<and>
    set (foldl (\<lambda>h item. if start < pt_Time (snd item) then tx_Push item h else h) h items) \<subseteq> set h \<union> set items"
  using assms
proof (induction items arbitrary: h)
  case (Cons item items)
  show ?case
  proof (cases "start < pt_Time (snd item)")
    case True
    then show ?thesis using Cons.IH [of "tx_Push item h"] tx_Push_spec [OF Cons.prems, of item] by auto
  next
    case False
    then show ?thesis using Cons.IH [OF Cons.prems] by auto
  qed
qed simp

lemma start_tx_inv: "tx_inv env (tx_restoreFromDatabase env start)"
proof (cases "xe_pending env")
  case None
  then show ?thesis by (simp add: tx_inv_def tx_restoreFromDatabase_def tx_armed_def)
next
  case (Some pending)
  then show ?thesis
    using restore_queue [OF tx_heap_Nil, of start pending] tx_arm_armed
    by (auto simp: tx_inv_def tx_restoreFromDatabase_def tx_scheduled_def)
qed

lemma event_tx_inv:
  assumes inv: "tx_inv env st" and step: "eventTransmit env now ev st = Inr st'" and now: "now \<le> tx_now st"
  shows "tx_inv env st'"
proof -
  let ?ts = "\<lparr>rts_ConfigDigest = c2_ConfigDigest (xe_config env), rts_Epoch = mf_Epoch ev, rts_Round = mf_Round ev\<rparr>"
  define st1 where "st1 = st\<lparr>tx_calls := Suc (tx_calls st), tx_events := tx_events st @ [(ev, now)]\<rparr>"
  have inv1: "tx_inv env st1"
    by (rule tx_invI [OF inv]) (use inv in \<open>auto simp: st1_def tx_inv_def tx_armed_def\<close>)
  show ?thesis
  proof (cases "xe_ShouldAccept env (tx_calls st) ?ts (arm_Report (mf_AttestedReport ev)) = Some True \<and>
      (\<exists>delay. ocr2_transmitDelay env (mf_Epoch ev) (mf_Round ev) = Inr (Some delay))")
    case False
    then have "st' = st1" using step
      by (auto simp: eventTransmit_def Let_def st1_def bindG_eq_Inr_iff split: if_splits option.splits)
    then show ?thesis using inv1 by simp
  next
    case True
    then obtain delay where acc: "xe_ShouldAccept env (tx_calls st) ?ts (arm_Report (mf_AttestedReport ev)) = Some True"
      and d: "ocr2_transmitDelay env (mf_Epoch ev) (mf_Round ev) = Inr (Some delay)" by blast
    define tr where "tr = \<lparr>pt_Time = now + sint delay, pt_ExtraHash = mf_H ev, pt_Report = arm_Report (mf_AttestedReport ev),
      pt_AttributedSignatures = arm_AttributedSignatures (mf_AttestedReport ev)\<rparr>"
    define st2 where "st2 = tx_update env ?ts (Some tr) st1"
    let ?h = "tx_Push (?ts, tr) (tx_times st)"
    have st2: "tx_times st2 = tx_times st" "tx_events st2 = tx_events st1" "tx_tTransmit st2 = tx_tTransmit st" "tx_now st2 = tx_now st"
      by (simp_all add: st2_def st1_def)
    have st': "st' = (let st3 = st2\<lparr>tx_times := ?h\<rparr> in
        if er_of ?ts = er_of (fst (?h ! 0)) then st3\<lparr>tx_tTransmit := TArmed (tx_now st + sint delay)\<rparr> else st3)"
    proof -
      have "?h \<noteq> []" using tx_Push_spec [of "tx_times st"] inv unfolding tx_inv_def by blast
      then have peek: "tx_Peek ?h = Inr (?h ! 0)" by (simp add: tx_Peek_def)
      show ?thesis
        using step acc d peek unfolding st2_def st1_def tr_def
        by (simp add: eventTransmit_def Let_def cong: if_cong)
    qed
    have heap: "tx_heap (tx_times st)" and armed: "tx_armed st" using inv unfolding tx_inv_def by blast+
    note P = tx_Push_spec [OF heap, of "(?ts, tr)"]
    have f: "tx_times st' = ?h" "tx_events st' = tx_events st1" "tx_log st' = tx_log st2" "tx_now st' = tx_now st"
      using st2 by (simp_all add: st' Let_def)
    show ?thesis
    proof (rule tx_invI [OF inv])
      show "set (tx_events st) \<subseteq> set (tx_events st')" using f(2) by (auto simp: st1_def)
      show "tx_heap (tx_times st')" using P f(1) by simp
      show "tx_armed st'"
      proof (cases "er_of ?ts = er_of (fst (?h ! 0))")
        case True
        then show ?thesis using P now st2(4) unfolding tx_armed_def f(1) by (auto simp: st' Let_def tx_key_def tr_def)
      next
        case False
        then have "tx_times st \<noteq> []"
        proof (cases "tx_times st")
          case Nil
          then have "set ?h = {(?ts, tr)}" using P by simp
          moreover have "?h ! 0 \<in> set ?h" using P by (intro nth_mem) simp
          ultimately show ?thesis using False by simp
        qed simp
        then obtain d where "tx_tTransmit st = TArmed d" "tx_key (tx_times st ! 0) \<le> d" "tx_key (?h ! 0) \<le> tx_key (tx_times st ! 0)"
          using armed P unfolding tx_armed_def by blast
        then show ?thesis using False st2(3) unfolding tx_armed_def f(1) by (auto simp: st' Let_def)
      qed
      fix item assume "item \<in> set (tx_times st')"
      then have "item \<in> set (tx_times st) \<or> item = (?ts, tr)" using P f(1) by auto
      moreover have "tx_scheduled env st' (?ts, tr)"
        unfolding tx_scheduled_def using acc d f(2)
        by (intro disjI2 exI [of _ ev] exI [of _ now] exI [of _ delay] exI [of _ "tx_calls st"]) (simp add: tr_def st1_def)
      ultimately show "item \<in> set (tx_times st) \<or> tx_scheduled env st' item" by blast
    next
      fix eff assume "eff \<in> set (tx_log st')"
      then show "eff \<in> set (tx_log st) \<or> tx_sent env st' eff"
        using tx_update_log [of env ?ts "Some tr" st1] unfolding f(3) st2_def by (auto simp: st1_def)
    qed
  qed
qed

lemma timeout_tx_inv:
  assumes inv: "tx_inv env st" and fired: "tx_tTransmit st = TArmed d" "d \<le> tx_now st"
    and step: "eventTTransmitTimeout env (st\<lparr>tx_tTransmit := TFired\<rparr>) = Inr st'"
  shows "tx_inv env st'"
proof (cases "tx_times st = []")
  case True
  then have "st' = tx_arm (st\<lparr>tx_tTransmit := TFired\<rparr>)" using step by (simp add: eventTTransmitTimeout_def)
  then show ?thesis
    by (intro tx_invI [OF inv]) (use inv tx_arm_armed in \<open>auto simp: tx_inv_def\<close>)
next
  case False
  have heap: "is_heap tx_key (length (tx_times st)) (tx_times st)" using inv by (simp add: tx_inv_def tx_heap_def)
  obtain rest where pop: "tx_Pop (tx_times st) = Inr (tx_times st ! 0, rest)" and rest: "tx_heap rest"
    and m: "add_mset (tx_times st ! 0) (mset rest) = mset (tx_times st)"
    using MinHeap_Pop_spec [OF heap False] unfolding tx_Pop_def tx_Less_key tx_heap_def by metis
  have sub: "set rest \<subseteq> set (tx_times st)" using m by (metis set_mset_add_mset_insert set_mset_mset subset_insertI)
  let ?item = "tx_times st ! 0"
  have item: "tx_scheduled env st ?item" "tx_key ?item \<le> tx_now st"
    using inv False fired unfolding tx_inv_def tx_armed_def by auto
  let ?ts = "\<lparr>rts_ConfigDigest = c2_ConfigDigest (xe_config env), rts_Epoch = rts_Epoch (fst ?item), rts_Round = rts_Round (fst ?item)\<rparr>"
  define st1 where "st1 = tx_update env ?ts None (st\<lparr>tx_tTransmit := TFired, tx_times := rest\<rparr>)"
  have st1: "tx_times st1 = rest" "tx_events st1 = tx_events st" "tx_now st1 = tx_now st"
    "\<And>eff. eff \<in> set (tx_log st1) \<Longrightarrow> eff \<in> set (tx_log st) \<or> tx_sent env st' eff"
    using tx_update_log [of env ?ts None "st\<lparr>tx_tTransmit := TFired, tx_times := rest\<rparr>"] by (auto simp: st1_def)
  define st2 where "st2 = (if xe_ShouldTransmit env (tx_calls st1) (fst ?item) (pt_Report (snd ?item)) \<noteq> Some True
    then st1\<lparr>tx_calls := Suc (tx_calls st1)\<rparr>
    else st1\<lparr>tx_calls := Suc (Suc (tx_calls st1)), tx_log := tx_log st1 @
      [TxTransmit \<lparr>rctx_ReportTimestamp = fst ?item, rctx_ExtraHash = pt_ExtraHash (snd ?item)\<rparr> (pt_Report (snd ?item))
        (pt_AttributedSignatures (snd ?item)) (tx_now st1) (xe_Transmit env (Suc (tx_calls st1)))]\<rparr>)"
  have st': "st' = tx_arm st2"
    using step False pop unfolding eventTTransmitTimeout_def Let_def
    by (simp add: st1_def [symmetric] st2_def split: if_splits)
  show ?thesis
  proof (rule tx_invI [OF inv])
    show "set (tx_events st) \<subseteq> set (tx_events st')" by (simp add: st' st2_def st1)
    show "tx_heap (tx_times st')" using rest by (simp add: st' st2_def st1)
    show "tx_armed st'" unfolding st' by (rule tx_arm_armed)
    show "x \<in> set (tx_times st) \<or> tx_scheduled env st' x" if "x \<in> set (tx_times st')" for x
      using that sub by (auto simp: st' st2_def st1 split: if_splits)
    fix eff assume e: "eff \<in> set (tx_log st')"
    have "tx_scheduled env st' ?item" by (rule tx_scheduled_mono [OF item(1)]) (simp add: st' st2_def st1)
    then have "xe_ShouldTransmit env (tx_calls st1) (fst ?item) (pt_Report (snd ?item)) = Some True \<Longrightarrow>
        tx_sent env st' (TxTransmit \<lparr>rctx_ReportTimestamp = fst ?item, rctx_ExtraHash = pt_ExtraHash (snd ?item)\<rparr> (pt_Report (snd ?item))
        (pt_AttributedSignatures (snd ?item)) (tx_now st1) (xe_Transmit env (Suc (tx_calls st1))))"
      using item(2) unfolding tx_sent_def st1(3) by blast
    then show "eff \<in> set (tx_log st) \<or> tx_sent env st' eff"
      using e st1(4) by (auto simp: st' st2_def split: if_splits)
  qed
qed

lemma process_tx_inv:
  assumes "tx_inv env st" "tx_ready st c" "tx_process env c st = Inr st'"
  shows "tx_inv env st'"
proof (cases c)
  case TxTimer
  then obtain d where "tx_tTransmit st = TArmed d" "d \<le> tx_now st" using assms(2) by (auto split: timer.splits)
  then show ?thesis using timeout_tx_inv assms(1,3) TxTimer by simp
next
  case (TxClock t)
  then show ?thesis using assms(3) by (intro tx_invI [OF assms(1)]) (use assms(1) in \<open>auto simp: tx_inv_def tx_armed_def\<close>)
qed (use assms in \<open>auto intro: event_tx_inv\<close>)

lemma reach_tx_inv: "tx_reach env start st \<Longrightarrow> tx_inv env st"
proof (induction rule: tx_reach.induct)
  case tx_reach_start
  show ?case by (rule start_tx_inv)
next
  case (tx_reach_step st c st')
  then show ?case using process_tx_inv by blast
qed

text \<open>C16: OCR2 transmits on schedule: everything sent to the contract is a report that the plugin accepted,
  with the extra hash and the signatures of its final message (or a pending transmission from the
  database), not before the time that the oracle's stage gives it, and after the plugin agreed to
  transmit; and while anything is pending, the timer is armed, at the earliest for the first of the
  pending reports.\<close>

theorem ocr2_transmits_on_schedule:
  assumes "tx_reach env start st"
  shows "(\<forall>ctx rep sigs t ok. TxTransmit ctx rep sigs t ok \<in> set (tx_log st) \<longrightarrow>
      (\<exists>item n. tx_scheduled env st item \<and> pt_Time (snd item) \<le> t \<and>
         ctx = \<lparr>rctx_ReportTimestamp = fst item, rctx_ExtraHash = pt_ExtraHash (snd item)\<rparr> \<and>
         rep = pt_Report (snd item) \<and> sigs = pt_AttributedSignatures (snd item) \<and>
         xe_ShouldTransmit env n (fst item) rep = Some True)) \<and>
    (tx_times st \<noteq> [] \<longrightarrow> (\<exists>d first. tx_tTransmit st = TArmed d \<and> first \<in> set (tx_times st) \<and>
       (\<forall>item \<in> set (tx_times st). pt_Time (snd first) \<le> pt_Time (snd item)) \<and> pt_Time (snd first) \<le> d))"
proof
  have inv: "tx_inv env st" using reach_tx_inv [OF assms] .
  show "\<forall>ctx rep sigs t ok. TxTransmit ctx rep sigs t ok \<in> set (tx_log st) \<longrightarrow>
      (\<exists>item n. tx_scheduled env st item \<and> pt_Time (snd item) \<le> t \<and>
         ctx = \<lparr>rctx_ReportTimestamp = fst item, rctx_ExtraHash = pt_ExtraHash (snd item)\<rparr> \<and>
         rep = pt_Report (snd item) \<and> sigs = pt_AttributedSignatures (snd item) \<and>
         xe_ShouldTransmit env n (fst item) rep = Some True)"
    using inv unfolding tx_inv_def tx_sent_def tx_key_def by blast
  show "tx_times st \<noteq> [] \<longrightarrow> (\<exists>d first. tx_tTransmit st = TArmed d \<and> first \<in> set (tx_times st) \<and>
       (\<forall>item \<in> set (tx_times st). pt_Time (snd first) \<le> pt_Time (snd item)) \<and> pt_Time (snd first) \<le> d)"
  proof
    assume ne: "tx_times st \<noteq> []"
    then obtain d where "tx_tTransmit st = TArmed d" "tx_key (tx_times st ! 0) \<le> d"
      using inv unfolding tx_inv_def tx_armed_def by blast
    moreover have "tx_key (tx_times st ! 0) \<le> tx_key item" if "item \<in> set (tx_times st)" for item
      using inv is_heap_root [of tx_key] that unfolding tx_inv_def tx_heap_def in_set_conv_nth by blast
    moreover have "tx_times st ! 0 \<in> set (tx_times st)" using ne by (intro nth_mem) simp
    ultimately show "\<exists>d first. tx_tTransmit st = TArmed d \<and> first \<in> set (tx_times st) \<and>
       (\<forall>item \<in> set (tx_times st). pt_Time (snd first) \<le> pt_Time (snd item)) \<and> pt_Time (snd first) \<le> d"
      unfolding tx_key_def by blast
  qed
qed

section \<open>An example\<close>

fun tx_run :: "tx2_env \<Rightarrow> tx2_state \<Rightarrow> tx2_case list \<Rightarrow> tx2_state option" where
  "tx_run env st [] = Some st"
| "tx_run env st (c # cs) =
     (if tx_ready st c then (case tx_process env c st of Inl p \<Rightarrow> None | Inr st \<Rightarrow> tx_run env st cs) else None)"

lemma tx_run_reach: "tx_reach env start st \<Longrightarrow> tx_run env st cs = Some st' \<Longrightarrow> tx_reach env start st'"
  by (induction env st cs rule: tx_run.induct) (auto split: if_splits sum.splits intro: tx_reach_step)

definition tx_ex_env :: "tx2_item list \<Rightarrow> tx2_env" where
  "tx_ex_env pending =
     \<lparr>xe_keccak = (\<lambda>bs. replicate 32 2), xe_aesctr = (\<lambda>key k. 255),
      xe_config = pace_ex_cfg\<lparr>c2_S := [0, 1], c2_DeltaStage := 20, c2_F := 0,
        c2_OracleIdentities := take 1 (c2_OracleIdentities pace_ex_cfg)\<rparr>, xe_id = 0,
      xe_ShouldAccept = (\<lambda>_ _ _. Some True), xe_ShouldTransmit = (\<lambda>_ _ _. Some True), xe_Transmit = (\<lambda>_. True),
      xe_persistOverflows = (\<lambda>_. False), xe_pending = Some pending\<rparr>"

definition tx_ex_final :: MessageFinal where
  "tx_ex_final = \<lparr>mf_Epoch = 1, mf_Round = 1, mf_H = [], mf_AttestedReport = \<lparr>arm_Report = [7], arm_AttributedSignatures = []\<rparr>\<rparr>"

definition tx_ex_ctx :: ReportContext where
  "tx_ex_ctx = \<lparr>rctx_ReportTimestamp = \<lparr>rts_ConfigDigest = [1], rts_Epoch = 1, rts_Round = 1\<rparr>, rctx_ExtraHash = []\<rparr>"

theorem ocr2_transmits_on_schedule_witness:
  "\<exists>st. tx_reach (tx_ex_env []) 0 st \<and> TxTransmit tx_ex_ctx [7] [] 23 True \<in> set (tx_log st) \<and>
     (\<exists>item. tx_scheduled (tx_ex_env []) st item \<and> pt_Time (snd item) \<le> 23)"
proof -
  have "case tx_run (tx_ex_env []) (tx_restoreFromDatabase (tx_ex_env []) 0) [TxClock 3, TxEvent 3 tx_ex_final, TxClock 23, TxTimer] of
      None \<Rightarrow> False | Some st \<Rightarrow> TxTransmit tx_ex_ctx [7] [] 23 True \<in> set (tx_log st)"
    by code_simp
  then obtain st where st: "tx_run (tx_ex_env []) (tx_restoreFromDatabase (tx_ex_env []) 0)
      [TxClock 3, TxEvent 3 tx_ex_final, TxClock 23, TxTimer] = Some st" "TxTransmit tx_ex_ctx [7] [] 23 True \<in> set (tx_log st)"
    by (auto split: option.splits)
  have reach: "tx_reach (tx_ex_env []) 0 st" using tx_reach_start st(1) by (rule tx_run_reach)
  show ?thesis using ocr2_transmits_on_schedule [OF reach] st(2) reach by blast
qed

text \<open>After a restart the report of a pending transmission may be finalized again (an echo arrives late).
  The new entry is not the first of the queue, but the first one has the same epoch and round, so
  the timer is set for the new entry: the pending transmission, due at 10, waits until 23.\<close>

lemma restored_transmission_is_delayed:
  "let item = (\<lparr>rts_ConfigDigest = [1], rts_Epoch = 1, rts_Round = 1\<rparr>,
       \<lparr>pt_Time = 10, pt_ExtraHash = [], pt_Report = [7], pt_AttributedSignatures = []\<rparr>);
     env = tx_ex_env [item]
   in tx_tTransmit (tx_restoreFromDatabase env 0) = TArmed 10 \<and>
      (case tx_run env (tx_restoreFromDatabase env 0) [TxClock 3, TxEvent 3 tx_ex_final] of
         None \<Rightarrow> False | Some st \<Rightarrow> tx_times st ! 0 = item \<and> tx_tTransmit st = TArmed 23)"
  by code_simp

end
