(* ===== verification/Ocr2MessageBuffer.thy ===== *)
theory Ocr2MessageBuffer
  imports RingBuffer
begin

text \<open>
  The buffer for messages of future epochs in OCR2 (\<open>ocr2/protocol/messagebuffer.go\<close>). It is the ring
  buffer of theory RingBuffer but for an empty buffer, on which \<open>Peek\<close> returns nil instead of
  panicking; it implements the same bounded queue.
\<close>

section \<open>The message buffer\<close>

record 'a MessageBuffer =
  mb_start :: int
  mb_length :: int
  mb_buffer :: "'a option list"

definition NewMessageBuffer :: "int \<Rightarrow> 'a MessageBuffer go" where
  "NewMessageBuffer cap =
     (if cap < 0 then Inl ExplicitPanic
      else Inr \<lparr>mb_start = 0, mb_length = 0, mb_buffer = replicate (nat cap) None\<rparr>)"

definition mb_Peek :: "'a MessageBuffer \<Rightarrow> 'a option go" where
  "mb_Peek rb = (if mb_length rb = 0 then Inr None else go_index (mb_buffer rb) (nat (mb_start rb)))"

definition mb_Pop :: "'a MessageBuffer \<Rightarrow> ('a option \<times> 'a MessageBuffer) go" where
  "mb_Pop rb =
     bindG (mb_Peek rb) (\<lambda>result.
       if result \<noteq> None
       then if \<not> nat (mb_start rb) < length (mb_buffer rb) then Inl IndexOutOfRange
            else Inr (result,
              rb\<lparr>mb_buffer := (mb_buffer rb)[nat (mb_start rb) := None],
                 mb_start := (mb_start rb + 1) mod int (length (mb_buffer rb)),
                 mb_length := mb_length rb - 1\<rparr>)
       else Inr (result, rb))"

definition mb_Push :: "'a MessageBuffer \<Rightarrow> 'a \<Rightarrow> 'a MessageBuffer go" where
  "mb_Push rb msg =
     bindG (if mb_length rb = int (length (mb_buffer rb)) then bindG (mb_Pop rb) (\<lambda>(_, rb). Inr rb) else Inr rb) (\<lambda>rb.
       if length (mb_buffer rb) = 0 then Inl DivideByZero
       else
         let i = nat ((mb_start rb + mb_length rb) mod int (length (mb_buffer rb)))
         in if \<not> i < length (mb_buffer rb) then Inl IndexOutOfRange
            else Inr (rb\<lparr>mb_buffer := (mb_buffer rb)[i := Some msg], mb_length := mb_length rb + 1\<rparr>))"

text \<open>The buffer as a ring buffer.\<close>

definition mb_ring :: "'a MessageBuffer \<Rightarrow> 'a RingBuffer" where
  "mb_ring rb = \<lparr>rb_start = mb_start rb, rb_length = mb_length rb, rb_buffer = mb_buffer rb\<rparr>"

definition mb_ok :: "'a MessageBuffer \<Rightarrow> bool" where "mb_ok rb \<longleftrightarrow> rb_ok (mb_ring rb)"

definition mb_list :: "'a MessageBuffer \<Rightarrow> 'a list" where "mb_list rb = rb_list (mb_ring rb)"

definition mb_cap :: "'a MessageBuffer \<Rightarrow> nat" where "mb_cap rb = rb_cap (mb_ring rb)"

definition mb_Length :: "'a MessageBuffer \<Rightarrow> int" where "mb_Length rb = mb_length rb"

lemma mb_ring_inj: "mb_ring x = mb_ring y \<Longrightarrow> x = y"
  by (cases x; cases y) (simp add: mb_ring_def)

lemma mb_nonempty: "mb_ok rb \<Longrightarrow> mb_list rb \<noteq> [] \<longleftrightarrow> mb_length rb \<noteq> 0"
  by (auto simp: mb_ok_def mb_list_def mb_ring_def rb_ok_def rb_list_def)

lemma mb_Peek_list: "mb_ok rb \<Longrightarrow> mb_Peek rb = Inr (if mb_list rb = [] then None else Some (hd (mb_list rb)))"
  using mb_nonempty [of rb] rbq.peek_spec [of "mb_ring rb"]
  by (auto simp: mb_Peek_def rb_Peek_def mb_ok_def mb_list_def) (auto simp: mb_ring_def)

lemma mb_Pop_ring:
  assumes "mb_ok rb" "mb_list rb \<noteq> []"
  shows "\<exists>r. mb_Pop rb = Inr r \<and> rb_Pop (mb_ring rb) = Inr (fst r, mb_ring (snd r))"
proof -
  have len: "mb_length rb \<noteq> 0" using mb_nonempty [OF assms(1)] assms(2) by simp
  have idx: "nat (mb_start rb) < length (mb_buffer rb)"
    using assms(1) by (auto simp: mb_ok_def mb_ring_def rb_ok_def)
  have "mb_buffer rb ! nat (mb_start rb) \<noteq> None"
    using mb_Peek_list [OF assms(1)] assms(2) len idx by (auto simp: mb_Peek_def)
  then show ?thesis
    using len idx by (simp add: mb_Pop_def rb_Pop_def mb_Peek_def rb_Peek_def mb_ring_def)
qed

lemma mb_Pop_list:
  assumes "mb_ok rb" "mb_list rb \<noteq> []"
  shows "goT (\<lambda>(y, rb'). y = Some (hd (mb_list rb)) \<and> mb_ok rb' \<and> mb_list rb' = tl (mb_list rb) \<and> mb_cap rb' = mb_cap rb) (mb_Pop rb)"
  using mb_Pop_ring [OF assms] rbq.pop_spec [of "mb_ring rb"] assms
  by (auto simp: goT_iff mb_ok_def mb_list_def mb_cap_def)

lemma mb_Push_ring:
  assumes "mb_ok rb"
  shows "\<exists>rb'. mb_Push rb x = Inr rb' \<and> rb_Push (mb_ring rb) x = Inr (mb_ring rb')"
proof -
  define P where "P = (\<lambda>rb :: 'a MessageBuffer. if length (mb_buffer rb) = 0 then Inl DivideByZero
       else let i = nat ((mb_start rb + mb_length rb) mod int (length (mb_buffer rb)))
         in if \<not> i < length (mb_buffer rb) then Inl IndexOutOfRange
            else Inr (rb\<lparr>mb_buffer := (mb_buffer rb)[i := Some x], mb_length := mb_length rb + 1\<rparr>))"
  define Q where "Q = (\<lambda>rb :: 'a RingBuffer. let i = nat ((rb_start rb + rb_length rb) mod int (length (rb_buffer rb)))
       in if i < length (rb_buffer rb)
          then Inr (rb\<lparr>rb_buffer := (rb_buffer rb)[i := Some x], rb_length := rb_length rb + 1\<rparr>)
          else Inl IndexOutOfRange)"
  have PQ: "mb_Push rb x = bindG (if mb_length rb = int (length (mb_buffer rb)) then bindG (mb_Pop rb) (\<lambda>(_, rb). Inr rb) else Inr rb) P"
    "rb_Push (mb_ring rb) x = bindG (if mb_length rb = int (length (mb_buffer rb))
       then bindG (rb_Pop (mb_ring rb)) (\<lambda>(_, rb). Inr rb) else Inr (mb_ring rb)) Q"
    by (simp_all add: mb_Push_def rb_Push_def P_def Q_def mb_ring_def)
  have last: "\<exists>rb'. P rb = Inr rb' \<and> Q (mb_ring rb) = Inr (mb_ring rb')" if ok: "mb_ok rb" for rb
  proof -
    have "0 < length (mb_buffer rb)" using ok by (auto simp: mb_ok_def mb_ring_def rb_ok_def)
    then have "nat ((mb_start rb + mb_length rb) mod int (length (mb_buffer rb))) < length (mb_buffer rb)"
      by (simp add: nat_less_iff)
    then show ?thesis using \<open>0 < length (mb_buffer rb)\<close> by (simp add: P_def Q_def mb_ring_def Let_def)
  qed
  show ?thesis
  proof (cases "mb_length rb = int (length (mb_buffer rb))")
    case True
    have "0 < length (mb_buffer rb)" using assms by (auto simp: mb_ok_def mb_ring_def rb_ok_def)
    then have ne: "mb_list rb \<noteq> []" using mb_nonempty [OF assms] True by auto
    then obtain y rb1 where r: "mb_Pop rb = Inr (y, rb1)" "rb_Pop (mb_ring rb) = Inr (y, mb_ring rb1)"
      using mb_Pop_ring [OF assms] by auto
    have "mb_ok rb1" using mb_Pop_list [OF assms ne] r(1) by (auto simp: goT_iff)
    then show ?thesis using last [of rb1] True r by (simp add: PQ)
  next
    case False
    then show ?thesis using last [OF assms] by (simp add: PQ)
  qed
qed

lemma mb_Push_list:
  assumes "mb_ok rb"
  shows "goT (\<lambda>rb'. mb_ok rb' \<and> mb_list rb' = push_bounded (mb_cap rb) (mb_list rb) x \<and> mb_cap rb' = mb_cap rb) (mb_Push rb x)"
  using mb_Push_ring [OF assms, of x] rbq.push_spec [of "mb_ring rb" x] assms
  by (auto simp: goT_iff mb_ok_def mb_list_def mb_cap_def)

interpretation mbq: bounded_queue mb_Push mb_Pop mb_Peek mb_Length mb_list mb_cap mb_ok
proof unfold_locales
  fix rb :: "'a MessageBuffer" and x :: 'a
  assume ok: "mb_ok rb"
  show "goT (\<lambda>rb'. mb_ok rb' \<and> mb_list rb' = push_bounded (mb_cap rb) (mb_list rb) x \<and> mb_cap rb' = mb_cap rb) (mb_Push rb x)"
    by (rule mb_Push_list [OF ok])
  show "mb_list rb \<noteq> [] \<Longrightarrow> goT (\<lambda>(y, rb'). y = Some (hd (mb_list rb)) \<and> mb_ok rb' \<and> mb_list rb' = tl (mb_list rb) \<and> mb_cap rb' = mb_cap rb) (mb_Pop rb)"
    by (rule mb_Pop_list [OF ok])
  show "mb_list rb \<noteq> [] \<Longrightarrow> mb_Peek rb = Inr (Some (hd (mb_list rb)))"
    by (simp add: mb_Peek_list [OF ok])
  show "mb_Length rb = int (length (mb_list rb))"
    using rbq.len_spec [of "mb_ring rb"] ok by (simp add: mb_Length_def rb_Length_def mb_ok_def mb_list_def mb_ring_def)
  show "0 < mb_cap rb" "length (mb_list rb) \<le> mb_cap rb"
    using rbq.cap_pos [of "mb_ring rb"] rbq.bounded [of "mb_ring rb"] ok by (auto simp: mb_ok_def mb_list_def mb_cap_def)
qed

lemma mb_New: "0 < cap \<Longrightarrow> goT (\<lambda>rb. mb_ok rb \<and> mb_list rb = [] \<and> mb_cap rb = nat cap) (NewMessageBuffer cap)"
  by (simp add: NewMessageBuffer_def mb_ok_def mb_list_def mb_cap_def mb_ring_def rb_ok_def rb_list_def rb_cap_def)

end
