(* ===== verification/Ocr2Oracle.thy ===== *)
theory Ocr2Oracle
  imports Ocr2Messages Ocr2MessageBuffer
begin

text \<open>
  The dispatch of OCR2's messages (\<open>ocr2/protocol/oracle.go\<close>): messages of the current epoch go to the
  goroutine they are meant for, those of future epochs wait in one buffer per sender.
\<close>

section \<open>The oracle\<close>

datatype oracle2_effect =
    OrToPacemaker MessageNewEpoch OracleID
  | OrToReportGeneration MessageToReportGeneration OracleID
  | OrToReportFinalization MessageFinalEcho OracleID

text \<open>The log pairs what is forwarded with the oracle's epoch at that moment.\<close>

record oracle2_state =
  or_bufferedMessages :: "MessageToReportGeneration MessageBuffer list"
  or_epoch :: u32
  or_log :: "(u32 \<times> oracle2_effect) list"

definition ocr2_futureMessageBufferSize :: int where "ocr2_futureMessageBufferSize = 10"

definition or_emit :: "oracle2_effect \<Rightarrow> oracle2_state \<Rightarrow> oracle2_state" where
  "or_emit eff st = st\<lparr>or_log := or_log st @ [(or_epoch st, eff)]\<rparr>"

definition oracle2_start :: "int \<Rightarrow> oracle2_state go" where
  "oracle2_start n =
     bindG (NewMessageBuffer ocr2_futureMessageBufferSize) (\<lambda>b.
       Inr \<lparr>or_bufferedMessages = replicate (nat n) b, or_epoch = 0, or_log = []\<rparr>)"

text \<open>The inner loop of \<open>epochChanged\<close>: what is left of the buffer, and the messages to forward.\<close>

partial_function (option) unbuffer ::
  "u32 \<Rightarrow> MessageToReportGeneration MessageBuffer \<Rightarrow> MessageToReportGeneration list \<Rightarrow>
   (MessageToReportGeneration MessageBuffer \<times> MessageToReportGeneration list) go option" where
  [code]: "unbuffer e buffer out =
     (case mb_Peek buffer of
        Inl p \<Rightarrow> Some (Inl p)
      | Inr None \<Rightarrow> Some (Inr (buffer, out))
      | Inr (Some msg) \<Rightarrow>
          if rg_epoch msg < e
          then (case mb_Pop buffer of Inl p \<Rightarrow> Some (Inl p) | Inr (_, buffer) \<Rightarrow> unbuffer e buffer out)
          else if rg_epoch msg = e
          then (case mb_Pop buffer of Inl p \<Rightarrow> Some (Inl p) | Inr (_, buffer) \<Rightarrow> unbuffer e buffer (out @ [msg]))
          else Some (Inr (buffer, out)))"

fun unbuffer_all :: "nat list \<Rightarrow> oracle2_state \<Rightarrow> oracle2_state go" where
  "unbuffer_all [] st = Inr st"
| "unbuffer_all (i # is) st =
     bindG (go_index (or_bufferedMessages st) i) (\<lambda>buffer.
     case unbuffer (or_epoch st) buffer [] of
       None \<Rightarrow> Inl NoReturn
     | Some r \<Rightarrow> bindG r (\<lambda>(buffer, out).
         unbuffer_all is (fold (\<lambda>msg. or_emit (OrToReportGeneration msg (of_nat i))) out
           (st\<lparr>or_bufferedMessages := (or_bufferedMessages st)[i := buffer]\<rparr>))))"

definition epochChanged :: "u32 \<Rightarrow> oracle2_state \<Rightarrow> oracle2_state go" where
  "epochChanged e st = unbuffer_all [0..<length (or_bufferedMessages st)] (st\<lparr>or_epoch := e\<rparr>)"

definition reportGenerationMessage :: "MessageToReportGeneration \<Rightarrow> OracleID \<Rightarrow> oracle2_state \<Rightarrow> oracle2_state go" where
  "reportGenerationMessage msg sender st =
     (if rg_epoch msg < or_epoch st then Inr st
      else if rg_epoch msg = or_epoch st then Inr (or_emit (OrToReportGeneration msg sender) st)
      else
        bindG (go_index (or_bufferedMessages st) (unat sender)) (\<lambda>buffer.
        bindG (mb_Push buffer msg) (\<lambda>buffer.
          Inr (st\<lparr>or_bufferedMessages := (or_bufferedMessages st)[unat sender := buffer]\<rparr>))))"

fun oracle2_message :: "Ocr2Message \<Rightarrow> OracleID \<Rightarrow> oracle2_state \<Rightarrow> oracle2_state go" where
  "oracle2_message (Ocr2ToPacemaker m) sender st = Inr (or_emit (OrToPacemaker m sender) st)"
| "oracle2_message (Ocr2ToReportGeneration m) sender st = reportGenerationMessage m sender st"
| "oracle2_message (Ocr2ToReportFinalization m) sender st = Inr (or_emit (OrToReportFinalization m sender) st)"

datatype oracle2_case = OrNet Ocr2Message OracleID | OrEpoch u32

text \<open>The bounds check on the sender is part of the event loop; \<open>n\<close> is the number of oracles.\<close>

fun oracle2_process :: "int \<Rightarrow> oracle2_case \<Rightarrow> oracle2_state \<Rightarrow> oracle2_state go" where
  "oracle2_process n (OrNet msg sender) st =
     (if 0 \<le> int (unat sender) \<and> int (unat sender) < n then oracle2_message msg sender st else Inr st)"
| "oracle2_process n (OrEpoch e) st = epochChanged e st"

fun oracle2_run :: "int \<Rightarrow> oracle2_case list \<Rightarrow> oracle2_state \<Rightarrow> oracle2_state go" where
  "oracle2_run n [] st = Inr st"
| "oracle2_run n (c # cs) st = bindG (oracle2_process n c st) (oracle2_run n cs)"

section \<open>Emptying a buffer\<close>

text \<open>The messages up to the first one of a later epoch are taken out; those of the epoch are forwarded.\<close>

definition due :: "u32 \<Rightarrow> MessageToReportGeneration list \<Rightarrow> MessageToReportGeneration list" where
  "due e ms = filter (\<lambda>m. rg_epoch m = e) (takeWhile (\<lambda>m. rg_epoch m \<le> e) ms)"

lemma unbuffer_spec:
  assumes "mb_ok b"
  shows "\<exists>b'. unbuffer e b out = Some (Inr (b', out @ due e (mb_list b))) \<and> mb_ok b' \<and> mb_cap b' = mb_cap b \<and>
    mb_list b' = dropWhile (\<lambda>m. rg_epoch m \<le> e) (mb_list b)"
  using assms
proof (induction "mb_list b" arbitrary: b out)
  case Nil
  have peek: "mb_Peek b = Inr None" using mb_Peek_list [OF Nil.prems] Nil.hyps by simp
  have "mb_list b = []" using Nil.hyps by simp
  then show ?case using Nil.prems by (subst unbuffer.simps) (simp add: peek due_def)
next
  case (Cons m ms)
  have ne: "mb_list b \<noteq> []" "hd (mb_list b) = m" using Cons.hyps(2) by (metis list.distinct(1), metis list.sel(1))
  have peek: "mb_Peek b = Inr (Some m)" using mb_Peek_list [OF Cons.prems] ne by simp
  obtain y b1 where pop: "mb_Pop b = Inr (y, b1)" "mb_ok b1" "mb_list b1 = ms" "mb_cap b1 = mb_cap b"
    using mb_Pop_list [OF Cons.prems ne(1)] Cons.hyps(2) by (auto simp: goT_iff) (metis list.sel(3))
  have IH: "\<exists>b'. unbuffer e b1 out' = Some (Inr (b', out' @ due e ms)) \<and> mb_ok b' \<and> mb_cap b' = mb_cap b1 \<and>
      mb_list b' = dropWhile (\<lambda>m. rg_epoch m \<le> e) ms" for out'
    using Cons.hyps(1) [of b1 out'] pop(2,3) by simp
  consider "rg_epoch m < e" | "rg_epoch m = e" | "e < rg_epoch m" by fastforce
  then show ?case
  proof cases
    case 1
    then have "unbuffer e b out = unbuffer e b1 out" by (subst unbuffer.simps) (simp add: peek pop(1))
    then show ?thesis using IH [of out] 1 pop(4) Cons.hyps(2) [symmetric] by (auto simp: due_def)
  next
    case 2
    then have "unbuffer e b out = unbuffer e b1 (out @ [m])" by (subst unbuffer.simps) (simp add: peek pop(1))
    then show ?thesis using IH [of "out @ [m]"] 2 pop(4) Cons.hyps(2) [symmetric] by (auto simp: due_def)
  next
    case 3
    then have "unbuffer e b out = Some (Inr (b, out))" by (subst unbuffer.simps) (auto simp: peek)
    then show ?thesis using 3 Cons.prems Cons.hyps(2) [symmetric] by (auto simp: due_def not_le)
  qed
qed

definition bufs_ok :: "oracle2_state \<Rightarrow> bool" where
  "bufs_ok st \<longleftrightarrow> (\<forall>b \<in> set (or_bufferedMessages st). mb_ok b \<and> mb_cap b = 10)"

definition forwarded :: "u32 \<Rightarrow> nat \<Rightarrow> MessageToReportGeneration list \<Rightarrow> (u32 \<times> oracle2_effect) list" where
  "forwarded e i ms = map (\<lambda>m. (e, OrToReportGeneration m (of_nat i))) (due e ms)"

lemma fold_or_emit:
  "fold (\<lambda>msg. or_emit (OrToReportGeneration msg (of_nat i))) out st =
     st\<lparr>or_log := or_log st @ map (\<lambda>m. (or_epoch st, OrToReportGeneration m (of_nat i))) out\<rparr>"
  by (induction out arbitrary: st) (simp_all add: or_emit_def)

lemma unbuffer_all_spec:
  assumes "bufs_ok st" "distinct is" "\<forall>i \<in> set is. i < length (or_bufferedMessages st)"
  shows "\<exists>st'. unbuffer_all is st = Inr st' \<and> bufs_ok st' \<and> or_epoch st' = or_epoch st \<and>
    length (or_bufferedMessages st') = length (or_bufferedMessages st) \<and>
    (\<forall>i < length (or_bufferedMessages st). mb_list (or_bufferedMessages st' ! i) =
       (if i \<in> set is then dropWhile (\<lambda>m. rg_epoch m \<le> or_epoch st) (mb_list (or_bufferedMessages st ! i))
        else mb_list (or_bufferedMessages st ! i))) \<and>
    or_log st' = or_log st @ concat (map (\<lambda>i. forwarded (or_epoch st) i (mb_list (or_bufferedMessages st ! i))) is)"
  using assms
proof (induction "is" arbitrary: st)
  case (Cons i "is")
  let ?e = "or_epoch st" and ?b = "or_bufferedMessages st ! i"
  have i: "i < length (or_bufferedMessages st)" "i \<notin> set is" using Cons.prems(2,3) by auto
  then have b: "mb_ok ?b" "mb_cap ?b = 10" using Cons.prems(1) unfolding bufs_ok_def by auto
  obtain b' where b': "unbuffer ?e ?b [] = Some (Inr (b', due ?e (mb_list ?b)))" "mb_ok b'" "mb_cap b' = 10"
    "mb_list b' = dropWhile (\<lambda>m. rg_epoch m \<le> ?e) (mb_list ?b)"
    using unbuffer_spec [OF b(1), of ?e "[]"] b(2) by auto
  define st1 where "st1 = st\<lparr>or_bufferedMessages := (or_bufferedMessages st)[i := b'],
    or_log := or_log st @ forwarded ?e i (mb_list ?b)\<rparr>"
  have step: "unbuffer_all (i # is) st = unbuffer_all is st1"
    using i(1) b'(1) by (simp add: fold_or_emit forwarded_def st1_def)
  have "bufs_ok st1" using Cons.prems(1) b' unfolding bufs_ok_def st1_def
    by (auto dest: set_update_subset_insert [THEN subsetD])
  from Cons.IH [OF this] Cons.prems(2,3) obtain st' where st': "unbuffer_all is st1 = Inr st'" "bufs_ok st'" "or_epoch st' = ?e"
    "length (or_bufferedMessages st') = length (or_bufferedMessages st)"
    "\<forall>j < length (or_bufferedMessages st). mb_list (or_bufferedMessages st' ! j) =
       (if j \<in> set is then dropWhile (\<lambda>m. rg_epoch m \<le> ?e) (mb_list (or_bufferedMessages st1 ! j))
        else mb_list (or_bufferedMessages st1 ! j))"
    "or_log st' = or_log st1 @ concat (map (\<lambda>j. forwarded ?e j (mb_list (or_bufferedMessages st1 ! j))) is)"
    by (auto simp: st1_def)
  have other: "or_bufferedMessages st1 ! j = or_bufferedMessages st ! j" if "j \<noteq> i" for j
    using that by (simp add: st1_def)
  have same: "map (\<lambda>j. forwarded ?e j (mb_list (or_bufferedMessages st1 ! j))) is =
      map (\<lambda>j. forwarded ?e j (mb_list (or_bufferedMessages st ! j))) is"
  proof (intro map_cong refl)
    fix j assume "j \<in> set is"
    then have "j \<noteq> i" using i(2) by blast
    then show "forwarded ?e j (mb_list (or_bufferedMessages st1 ! j)) = forwarded ?e j (mb_list (or_bufferedMessages st ! j))"
      using other [of j] by simp
  qed
  have "mb_list (or_bufferedMessages st1 ! i) = dropWhile (\<lambda>m. rg_epoch m \<le> ?e) (mb_list ?b)"
    using i(1) b'(4) by (simp add: st1_def)
  then have "\<forall>j < length (or_bufferedMessages st). mb_list (or_bufferedMessages st' ! j) =
       (if j \<in> set (i # is) then dropWhile (\<lambda>m. rg_epoch m \<le> ?e) (mb_list (or_bufferedMessages st ! j))
        else mb_list (or_bufferedMessages st ! j))"
  proof (intro allI impI)
    fix j assume j: "j < length (or_bufferedMessages st)"
    show "mb_list (or_bufferedMessages st' ! j) =
       (if j \<in> set (i # is) then dropWhile (\<lambda>m. rg_epoch m \<le> ?e) (mb_list (or_bufferedMessages st ! j))
        else mb_list (or_bufferedMessages st ! j))"
    proof (cases "j = i")
      case True
      then show ?thesis using st'(5) j i(2) \<open>mb_list (or_bufferedMessages st1 ! i) = _\<close> by simp
    next
      case False
      then show ?thesis using st'(5) j other [OF False] by simp
    qed
  qed
  moreover have "or_log st' = or_log st @ concat (map (\<lambda>j. forwarded ?e j (mb_list (or_bufferedMessages st ! j))) (i # is))"
    using st'(6) unfolding same by (simp add: st1_def)
  ultimately show ?case unfolding step using st'(1-4) by blast
qed simp

section \<open>The specification\<close>

text \<open>Abstractly, an oracle has a queue of future messages per sender, of which the oldest are dropped
  beyond ten, and a log.\<close>

record oracle2_spec =
  os_queues :: "MessageToReportGeneration list list"
  os_epoch :: u32
  os_log :: "(u32 \<times> oracle2_effect) list"

definition spec_init :: "int \<Rightarrow> oracle2_spec" where
  "spec_init n = \<lparr>os_queues = replicate (nat n) [], os_epoch = 0, os_log = []\<rparr>"

fun spec_message :: "Ocr2Message \<Rightarrow> OracleID \<Rightarrow> oracle2_spec \<Rightarrow> oracle2_spec" where
  "spec_message (Ocr2ToPacemaker m) sender s = s\<lparr>os_log := os_log s @ [(os_epoch s, OrToPacemaker m sender)]\<rparr>"
| "spec_message (Ocr2ToReportFinalization m) sender s = s\<lparr>os_log := os_log s @ [(os_epoch s, OrToReportFinalization m sender)]\<rparr>"
| "spec_message (Ocr2ToReportGeneration m) sender s =
     (if rg_epoch m < os_epoch s then s
      else if rg_epoch m = os_epoch s then s\<lparr>os_log := os_log s @ [(os_epoch s, OrToReportGeneration m sender)]\<rparr>
      else s\<lparr>os_queues := (os_queues s)[unat sender := push_bounded 10 (os_queues s ! unat sender) m]\<rparr>)"

definition spec_epoch :: "u32 \<Rightarrow> oracle2_spec \<Rightarrow> oracle2_spec" where
  "spec_epoch e s =
     s\<lparr>os_epoch := e, os_queues := map (dropWhile (\<lambda>m. rg_epoch m \<le> e)) (os_queues s),
       os_log := os_log s @ concat (map (\<lambda>i. forwarded e i (os_queues s ! i)) [0..<length (os_queues s)])\<rparr>"

fun spec_process :: "int \<Rightarrow> oracle2_case \<Rightarrow> oracle2_spec \<Rightarrow> oracle2_spec" where
  "spec_process n (OrNet msg sender) s = (if int (unat sender) < n then spec_message msg sender s else s)"
| "spec_process n (OrEpoch e) s = spec_epoch e s"

definition or_abs :: "oracle2_state \<Rightarrow> oracle2_spec" where
  "or_abs st = \<lparr>os_queues = map mb_list (or_bufferedMessages st), os_epoch = or_epoch st, os_log = or_log st\<rparr>"

lemma or_abs_sel [simp]:
  "os_queues (or_abs st) = map mb_list (or_bufferedMessages st)" "os_epoch (or_abs st) = or_epoch st" "os_log (or_abs st) = or_log st"
  by (simp_all add: or_abs_def)

lemma or_abs_emit: "or_abs (or_emit eff st) = (or_abs st)\<lparr>os_log := os_log (or_abs st) @ [(os_epoch (or_abs st), eff)]\<rparr>"
  by (simp add: or_abs_def or_emit_def)

definition or_ok :: "int \<Rightarrow> oracle2_state \<Rightarrow> bool" where
  "or_ok n st \<longleftrightarrow> bufs_ok st \<and> int (length (or_bufferedMessages st)) = n"

lemma or_ok_emit [simp]: "or_ok n (or_emit eff st) = or_ok n st"
  by (simp add: or_ok_def bufs_ok_def or_emit_def)

lemma epochChanged_refines:
  assumes "or_ok n st"
  shows "\<exists>st'. epochChanged e st = Inr st' \<and> or_ok n st' \<and> or_abs st' = spec_epoch e (or_abs st)"
proof -
  let ?st = "st\<lparr>or_epoch := e\<rparr>"
  have "bufs_ok ?st" using assms by (simp add: or_ok_def bufs_ok_def)
  from unbuffer_all_spec [OF this, of "[0..<length (or_bufferedMessages st)]"] obtain st' where
    st': "epochChanged e st = Inr st'" "bufs_ok st'" "or_epoch st' = e"
    "length (or_bufferedMessages st') = length (or_bufferedMessages st)"
    "\<forall>i < length (or_bufferedMessages st). mb_list (or_bufferedMessages st' ! i) =
       dropWhile (\<lambda>m. rg_epoch m \<le> e) (mb_list (or_bufferedMessages st ! i))"
    "or_log st' = or_log st @ concat (map (\<lambda>i. forwarded e i (mb_list (or_bufferedMessages st ! i))) [0..<length (or_bufferedMessages st)])"
    unfolding epochChanged_def by auto
  have "map mb_list (or_bufferedMessages st') = map (dropWhile (\<lambda>m. rg_epoch m \<le> e)) (map mb_list (or_bufferedMessages st))"
    using st'(4,5) by (intro nth_equalityI) auto
  moreover have logs: "map (\<lambda>i. forwarded e i (mb_list (or_bufferedMessages st ! i))) [0..<length (or_bufferedMessages st)] =
      map (\<lambda>i. forwarded e i (map mb_list (or_bufferedMessages st) ! i)) [0..<length (or_bufferedMessages st)]"
    by (intro map_cong) auto
  ultimately have "or_abs st' = spec_epoch e (or_abs st)"
    using st'(3) st'(6) [unfolded logs] by (simp add: or_abs_def spec_epoch_def)
  then show ?thesis using st'(1,2,4) assms by (simp add: or_ok_def)
qed

lemma message_refines:
  assumes "or_ok n st" "int (unat sender) < n"
  shows "\<exists>st'. oracle2_message msg sender st = Inr st' \<and> or_ok n st' \<and> or_abs st' = spec_message msg sender (or_abs st)"
proof (cases msg)
  case (Ocr2ToReportGeneration m)
  have i: "unat sender < length (or_bufferedMessages st)"
    using assms(2) conjunct2 [OF assms(1) [unfolded or_ok_def]] by (metis of_nat_less_iff)
  let ?b = "or_bufferedMessages st ! unat sender"
  have b: "mb_ok ?b" "mb_cap ?b = 10" using assms(1) i unfolding or_ok_def bufs_ok_def by auto
  obtain b' where b': "mb_Push ?b m = Inr b'" "mb_ok b'" "mb_list b' = push_bounded 10 (mb_list ?b) m" "mb_cap b' = 10"
    using mbq.push_spec [OF b(1), of m] b(2) by (auto simp: goT_iff)
  have "or_ok n (st\<lparr>or_bufferedMessages := (or_bufferedMessages st)[unat sender := b']\<rparr>)"
    using assms(1) b' unfolding or_ok_def bufs_ok_def by (auto dest: set_update_subset_insert [THEN subsetD])
  then show ?thesis
    using Ocr2ToReportGeneration assms(1) i b'
    by (auto simp: reportGenerationMessage_def map_update or_abs_def or_emit_def or_ok_def bufs_ok_def)
qed (use assms in \<open>auto simp: or_abs_emit\<close>)

lemma process_refines:
  assumes "or_ok n st"
  shows "\<exists>st'. oracle2_process n c st = Inr st' \<and> or_ok n st' \<and> or_abs st' = spec_process n c (or_abs st)"
  using assms message_refines epochChanged_refines by (cases c) auto

lemma run_refines:
  assumes "or_ok n st"
  shows "\<exists>st'. oracle2_run n cs st = Inr st' \<and> or_ok n st' \<and> or_abs st' = fold (spec_process n) cs (or_abs st)"
  using assms
proof (induction cs arbitrary: st)
  case (Cons c cs)
  obtain st1 where "oracle2_process n c st = Inr st1" "or_ok n st1" "or_abs st1 = spec_process n c (or_abs st)"
    using process_refines [OF Cons.prems] by blast
  then show ?case using Cons.IH [of st1] by simp
qed simp

text \<open>C17: The dispatcher of an OCR2 oracle with its ring buffers implements one queue of at most ten
  future messages per sender: for any sequence of messages and epoch changes it neither panics nor
  loops, it forwards what the specification forwards, in the same order, and its buffers hold what
  the queues hold.\<close>

theorem ocr2_dispatch_refines_queues:
  assumes "0 \<le> n"
  shows "\<exists>st0 st. oracle2_start n = Inr st0 \<and> oracle2_run n cs st0 = Inr st \<and>
    or_abs st = fold (spec_process n) cs (spec_init n)"
proof -
  obtain b :: "MessageToReportGeneration MessageBuffer" where b: "NewMessageBuffer ocr2_futureMessageBufferSize = Inr b"
    "mb_ok b" "mb_list b = []" "mb_cap b = 10"
    using mb_New [of ocr2_futureMessageBufferSize] by (auto simp: goT_iff ocr2_futureMessageBufferSize_def)
  let ?st0 = "\<lparr>or_bufferedMessages = replicate (nat n) b, or_epoch = 0, or_log = []\<rparr>"
  have "or_ok n ?st0" using b assms by (simp add: or_ok_def bufs_ok_def)
  moreover have "or_abs ?st0 = spec_init n" using b by (simp add: or_abs_def spec_init_def)
  moreover have "oracle2_start n = Inr ?st0" using b(1) by (simp add: oracle2_start_def)
  ultimately show ?thesis using run_refines by fastforce
qed

theorem ocr2_dispatch_refines_queues_witness:
  "\<exists>st0 st. oracle2_start 4 = Inr st0 \<and>
     oracle2_run 4 [OrEpoch 1, OrNet (Ocr2ToReportGeneration (MessageObserveReq 2 1 [])) 3, OrEpoch 2] st0 = Inr st \<and>
     os_log (or_abs st) = [(2, OrToReportGeneration (MessageObserveReq 2 1 []) 3)]"
proof -
  let ?cs = "[OrEpoch 1, OrNet (Ocr2ToReportGeneration (MessageObserveReq 2 1 [])) 3, OrEpoch 2]"
  have "os_log (fold (spec_process 4) ?cs (spec_init 4)) = [(2, OrToReportGeneration (MessageObserveReq 2 1 []) 3)]"
    by code_simp
  moreover obtain st0 st where "oracle2_start 4 = Inr st0" "oracle2_run 4 ?cs st0 = Inr st"
    "or_abs st = fold (spec_process 4) ?cs (spec_init 4)"
    using ocr2_dispatch_refines_queues [of 4 ?cs] by auto
  ultimately show ?thesis by metis
qed

end
