(* ===== verification/RageFrames.thy ===== *)
theory RageFrames
  imports Crypto
begin

text \<open>
  What ragep2p puts on the wire: the headers of frames and the identifiers of streams
  (\<open>ragep2p/frame.go\<close>), and the knock that opens a connection (\<open>ragep2p/internal/knock/knock.go\<close>).
\<close>

section \<open>Frame headers\<close>

type_synonym PeerID = bytes
type_synonym streamID = bytes

definition frameTypeOpen :: u8 where "frameTypeOpen = 1"
definition frameTypeClose :: u8 where "frameTypeClose = 2"
definition frameTypeData :: u8 where "frameTypeData = 3"

record frameHeader =
  fh_Type :: u8
  fh_StreamID :: streamID
  fh_PayloadLength :: u32

definition frameHeaderEncodedSize :: nat where "frameHeaderEncodedSize = 1 + 32 + 4"

definition frameHeader_Encode :: "frameHeader \<Rightarrow> bytes" where
  "frameHeader_Encode fh = fh_Type fh # fh_StreamID fh @ be32 (fh_PayloadLength fh)"

datatype frame_error = WrongLength | UnknownFrameType

definition decodeFrameHeader :: "bytes \<Rightarrow> frame_error + frameHeader" where
  "decodeFrameHeader encoded =
     (if length encoded \<noteq> frameHeaderEncodedSize then Inl WrongLength
      else
        let typ = encoded ! 0
        in if typ \<noteq> frameTypeOpen \<and> typ \<noteq> frameTypeClose \<and> typ \<noteq> frameTypeData then Inl UnknownFrameType
           else Inr \<lparr>fh_Type = typ, fh_StreamID = go_copy 32 (take 32 (drop 1 encoded)),
                  fh_PayloadLength = decode_be32 (drop 33 encoded)\<rparr>)"

lemma word_byte_step: "push_bit 8 (drop_bit (8 + k) x) + ucast (ucast (drop_bit k x) :: u8) = drop_bit k (x :: u32)"
proof -
  have "ucast (ucast (drop_bit k x) :: u8) = take_bit 8 (drop_bit k x)"
    by (rule bit_word_eqI) (auto simp: bit_simps)
  moreover have "drop_bit (8 + k) x = drop_bit 8 (drop_bit k x)" by simp
  ultimately show ?thesis by (simp only: bits_ident)
qed

lemma decode_be32_be32 [simp]: "decode_be32 (be32 x) = x"
  using word_byte_step [of 24 x] word_byte_step [of 16 x] word_byte_step [of 8 x] word_byte_step [of 0 x]
    drop_bit_word_beyond [of 32 x, simplified]
  by (simp add: decode_be32_def be32_def)

definition header_ok :: "frameHeader \<Rightarrow> bool" where
  "header_ok fh \<longleftrightarrow> fh_Type fh \<in> {frameTypeOpen, frameTypeClose, frameTypeData} \<and> length (fh_StreamID fh) = 32"

lemma length_Encode: "length (fh_StreamID fh) = 32 \<Longrightarrow> length (frameHeader_Encode fh) = frameHeaderEncodedSize"
  by (simp add: frameHeader_Encode_def frameHeaderEncodedSize_def)

lemma decode_Encode: "header_ok fh \<Longrightarrow> decodeFrameHeader (frameHeader_Encode fh) = Inr fh"
  by (cases fh) (auto simp: decodeFrameHeader_def frameHeaderEncodedSize_def header_ok_def frameHeader_Encode_def)

lemma decode_header_ok:
  assumes "decodeFrameHeader bs = Inr fh"
  shows "header_ok fh"
  using assms by (auto simp: decodeFrameHeader_def header_ok_def Let_def split: if_splits)

section \<open>Stream identifiers\<close>

text \<open>\<open>bytes.Compare(x, y) < 0\<close>\<close>

fun bytes_less :: "bytes \<Rightarrow> bytes \<Rightarrow> bool" where
  "bytes_less _ [] = False"
| "bytes_less [] (y # ys) = True"
| "bytes_less (x # xs) (y # ys) = (x < y \<or> (x = y \<and> bytes_less xs ys))"

lemma bytes_less_asym: "bytes_less x y \<Longrightarrow> \<not> bytes_less y x"
  by (induction x y rule: bytes_less.induct) auto

lemma bytes_less_linear: "bytes_less x y \<or> x = y \<or> bytes_less y x"
proof (induction x y rule: bytes_less.induct)
  case (1 x)
  then show ?case by (cases x) auto
qed auto

function getStreamID :: "crypto \<Rightarrow> PeerID \<Rightarrow> PeerID \<Rightarrow> bytes \<Rightarrow> streamID" where
  "getStreamID C self other name =
     (if bytes_less self other then getStreamID C other self name
      else go_copy 32 (sha256 C (self @ other @ name)))"
  by auto
termination
  by (relation "measure (\<lambda>(C, self, other, name). if bytes_less self other then 1 else 0)")
    (auto dest: bytes_less_asym)

declare getStreamID.simps [simp del]

text \<open>Both ends of a stream compute the same identifier.\<close>

lemma getStreamID_sym: "getStreamID C a b name = getStreamID C b a name"
proof (cases "a = b")
  case False
  then consider "bytes_less a b" | "bytes_less b a" using bytes_less_linear by blast
  then show ?thesis
    by cases (simp_all add: getStreamID.simps [of C a b name] getStreamID.simps [of C b a name] bytes_less_asym)
qed simp

lemma length_getStreamID [simp]: "length (getStreamID C a b name) = 32"
  by (cases "bytes_less a b") (simp_all add: getStreamID.simps bytes_less_asym)

text \<open>Different streams of a peer have different identifiers, up to collisions of SHA-256.\<close>

lemma getStreamID_inj:
  assumes "collision_free C" "\<And>x. length (sha256 C x) = 32"
    and "length a = 32" "length b = 32" "length c = 32"
    and "getStreamID C a b n = getStreamID C a c n'"
  shows "b = c \<and> n = n' \<or> a = c \<and> b = a \<and> n = n'"
proof -
  have id: "\<exists>p q. {p, q} = {x, y} \<and> length p = 32 \<and> length q = 32 \<and> getStreamID C x y m = sha256 C (p @ q @ m)"
    if "length x = 32" "length y = 32" for x y m
    using that assms(2) by (cases "bytes_less x y") (auto simp: getStreamID.simps bytes_less_asym)
  obtain p q where 1: "{p, q} = {a, b}" "length p = 32" "length q = 32" "getStreamID C a b n = sha256 C (p @ q @ n)"
    using id assms(3,4) by metis
  obtain r s where 2: "{r, s} = {a, c}" "length r = 32" "length s = 32" "getStreamID C a c n' = sha256 C (r @ s @ n')"
    using id assms(3,5) by metis
  have "p @ q @ n = r @ s @ n'" using assms(1,6) 1(4) 2(4) by (simp add: collision_freeD)
  then have "p = r" "q = s" "n = n'" using 1 2 by auto
  then show ?thesis using 1(1) 2(1) by (auto simp: doubleton_eq_iff)
qed

section \<open>Knocking\<close>

definition domainSeparator :: bytes where "domainSeparator = ascii ''ragep2p 1.0.0 knock knock''"

definition knock_version :: u8 where "knock_version = 2"

definition KnockSize :: nat where "KnockSize = 1 + ed25519_PublicKeySize + ed25519_SignatureSize"

definition messageToSign :: "PeerID \<Rightarrow> bytes" where
  "messageToSign peerID = domainSeparator @ peerID"

text \<open>The secret key is the function that signs with it.\<close>

definition BuildKnock :: "PeerID \<Rightarrow> PeerID \<Rightarrow> (bytes \<Rightarrow> bytes) \<Rightarrow> bytes" where
  "BuildKnock other self secretKey =
     (let msg = messageToSign other; sig = secretKey msg
      in [knock_version] @ self @ sig)"

datatype knock_error = KnockWrongLength | KnockWrongVersion | ErrSizeMismatch | ErrFromSelfDial | ErrInvalidSignature

definition VerifyKnock :: "crypto \<Rightarrow> PeerID \<Rightarrow> bytes \<Rightarrow> knock_error + PeerID" where
  "VerifyKnock C self knock =
     (if length knock \<noteq> KnockSize then Inl KnockWrongLength
      else if knock ! 0 \<noteq> knock_version then Inl KnockWrongVersion
      else
        let knock = drop 1 knock;
            other = go_copy 32 (take ed25519_PublicKeySize knock)
        in if length other \<noteq> min 32 (length (take ed25519_PublicKeySize knock)) then Inl ErrSizeMismatch
           else if other = self then Inl ErrFromSelfDial
           else
             let msg = messageToSign self; sig = drop ed25519_PublicKeySize knock
             in if \<not> ed25519_Verify C other msg sig then Inl ErrInvalidSignature else Inr other)"

lemma length_BuildKnock:
  assumes "length self = 32" "\<And>m. length (sign m) = 64"
  shows "length (BuildKnock other self sign) = KnockSize"
  using assms by (simp add: BuildKnock_def KnockSize_def ed25519_PublicKeySize_def ed25519_SignatureSize_def Let_def)

text \<open>A knock built for a peer is accepted there and names the sender.\<close>

lemma VerifyKnock_BuildKnock:
  assumes "length self = 32" "\<And>m. length (sign m) = 64" "\<And>m. ed25519_Verify C self m (sign m)" "self \<noteq> other"
  shows "VerifyKnock C other (BuildKnock other self sign) = Inr self"
  using assms length_BuildKnock [OF assms(1,2)]
  by (simp add: VerifyKnock_def BuildKnock_def Let_def ed25519_PublicKeySize_def)

text \<open>An accepted knock carries a signature of its sender on a knock for this very recipient: it cannot
  be replayed to another one.\<close>

lemma VerifyKnock_signed:
  assumes "VerifyKnock C self knock = Inr other"
  shows "other \<noteq> self \<and> length other = 32 \<and>
    (\<exists>sig. knock = [knock_version] @ other @ sig \<and> length sig = 64 \<and> ed25519_Verify C other (messageToSign self) sig)"
proof -
  have len: "length knock = 97" and ver: "knock ! 0 = knock_version"
    and other: "other = take 32 (drop 1 knock)" "other \<noteq> self"
    and sig: "ed25519_Verify C other (messageToSign self) (drop 32 (drop 1 knock))"
    using assms by (auto simp: VerifyKnock_def KnockSize_def ed25519_PublicKeySize_def ed25519_SignatureSize_def Let_def split: if_splits)
  have "knock = knock ! 0 # drop 1 knock" using len by (cases knock) auto
  also have "drop 1 knock = other @ drop 32 (drop 1 knock)" unfolding other(1) by (rule append_take_drop_id [symmetric])
  finally show ?thesis using len ver other sig by auto
qed

end
