(* ===== verification/MsgBuf.thy ===== *)
theory MsgBuf
  imports Ocr2MessageBuffer
begin

text \<open>
  The ring buffer for raw messages (\<open>ragep2p/internal/msgbuf/ringbuffer.go\<close>). A Go byte slice may be
  nil, which the buffer uses as the mark of an empty place; it is modelled as an option. The buffer is
  another provider of the bounded queue.
\<close>

section \<open>The buffer\<close>

type_synonym msgbuf = "bytes MessageBuffer"

definition msgbuf_New :: "int \<Rightarrow> msgbuf go" where
  "msgbuf_New cap =
     (if cap < 0 then Inl ExplicitPanic
      else Inr \<lparr>mb_start = 0, mb_length = 0, mb_buffer = replicate (nat cap) None\<rparr>)"

definition msgbuf_Peek :: "msgbuf \<Rightarrow> bytes option go" where
  "msgbuf_Peek rb = (if mb_length rb = 0 then Inr None else go_index (mb_buffer rb) (nat (mb_start rb)))"

definition msgbuf_Pop :: "msgbuf \<Rightarrow> (bytes option \<times> msgbuf) go" where
  "msgbuf_Pop rb =
     bindG (msgbuf_Peek rb) (\<lambda>result.
       if result \<noteq> None
       then if \<not> nat (mb_start rb) < length (mb_buffer rb) then Inl IndexOutOfRange
            else Inr (result,
              rb\<lparr>mb_buffer := (mb_buffer rb)[nat (mb_start rb) := None],
                 mb_start := (mb_start rb + 1) mod int (length (mb_buffer rb)),
                 mb_length := mb_length rb - 1\<rparr>)
       else Inr (result, rb))"

definition msgbuf_Push :: "bytes option \<Rightarrow> msgbuf \<Rightarrow> (bytes option \<times> msgbuf) go" where
  "msgbuf_Push msg rb =
     (if msg = None then Inl ExplicitPanic
      else
        bindG (if mb_length rb = int (length (mb_buffer rb)) then msgbuf_Pop rb else Inr (None, rb)) (\<lambda>(result, rb).
          if length (mb_buffer rb) = 0 then Inl DivideByZero
          else
            let i = nat ((mb_start rb + mb_length rb) mod int (length (mb_buffer rb)))
            in if \<not> i < length (mb_buffer rb) then Inl IndexOutOfRange
               else Inr (result, rb\<lparr>mb_buffer := (mb_buffer rb)[i := msg], mb_length := mb_length rb + 1\<rparr>)))"

section \<open>The bounded queue\<close>

lemma msgbuf_Peek_eq: "msgbuf_Peek = mb_Peek"
  by (simp add: fun_eq_iff msgbuf_Peek_def mb_Peek_def)

lemma msgbuf_Pop_eq: "msgbuf_Pop = mb_Pop"
  by (simp add: fun_eq_iff msgbuf_Pop_def mb_Pop_def msgbuf_Peek_eq)

lemma msgbuf_Push_eq:
  "bindG (msgbuf_Push (Some x) rb) (\<lambda>(_, rb). Inr rb) = mb_Push rb x"
  by (cases "mb_Pop rb") (auto simp: msgbuf_Push_def mb_Push_def msgbuf_Pop_eq Let_def)

lemma msgbuf_New_eq: "msgbuf_New = NewMessageBuffer"
  by (simp add: fun_eq_iff msgbuf_New_def NewMessageBuffer_def)

definition push_msg :: "msgbuf \<Rightarrow> bytes \<Rightarrow> msgbuf go" where
  "push_msg rb x = bindG (msgbuf_Push (Some x) rb) (\<lambda>(_, rb). Inr rb)"

lemma push_msg_eq: "push_msg = mb_Push"
  by (simp add: fun_eq_iff push_msg_def msgbuf_Push_eq)

interpretation mgq: bounded_queue push_msg msgbuf_Pop msgbuf_Peek mb_Length mb_list mb_cap mb_ok
  unfolding push_msg_eq msgbuf_Pop_eq msgbuf_Peek_eq by (rule mbq.bounded_queue_axioms)

text \<open>\<open>Push\<close> returns the item that had to make room.\<close>

lemma msgbuf_Push_list:
  assumes "mb_ok rb"
  shows "goT (\<lambda>(dropped, rb'). dropped = (if length (mb_list rb) = mb_cap rb then Some (hd (mb_list rb)) else None) \<and>
    mb_ok rb' \<and> mb_list rb' = push_bounded (mb_cap rb) (mb_list rb) x \<and> mb_cap rb' = mb_cap rb) (msgbuf_Push (Some x) rb)"
proof -
  have full: "mb_length rb = int (length (mb_buffer rb)) \<longleftrightarrow> length (mb_list rb) = mb_cap rb"
    using mbq.len_spec [OF assms] by (simp add: mb_Length_def mb_cap_def rb_cap_def mb_ring_def)
  obtain rb' where rb': "mb_Push rb x = Inr rb'" "mb_ok rb'" "mb_list rb' = push_bounded (mb_cap rb) (mb_list rb) x" "mb_cap rb' = mb_cap rb"
    using mb_Push_list [OF assms, of x] by (auto simp: goT_iff)
  then obtain d where d: "msgbuf_Push (Some x) rb = Inr (d, rb')"
    using msgbuf_Push_eq [of x rb] by (auto simp: bindG_eq_Inr_iff)
  have "d = (if length (mb_list rb) = mb_cap rb then Some (hd (mb_list rb)) else None)"
  proof (cases "length (mb_list rb) = mb_cap rb")
    case True
    then have "mb_list rb \<noteq> []" using mbq.cap_pos [OF assms] by auto
    from mb_Pop_list [OF assms this] obtain rb1 where "mb_Pop rb = Inr (Some (hd (mb_list rb)), rb1)"
      by (auto simp: goT_iff)
    then show ?thesis using d True full by (auto simp: msgbuf_Push_def msgbuf_Pop_eq Let_def split: if_splits)
  next
    case False
    then show ?thesis using d full by (auto simp: msgbuf_Push_def Let_def split: if_splits)
  qed
  then show ?thesis using d rb' by simp
qed

end
