(* ===== verification/TokenBucket.thy ===== *)
theory TokenBucket
  imports Prelude
begin

text \<open>
  The rate limiter of the peer-to-peer layer (\<open>ragep2p/internal/ratelimit/ratelimit.go\<close>): a token
  bucket in unsigned 64-bit arithmetic that saturates. It is shown to compute what a token bucket on
  unbounded integers would, and to grant no more than its capacity and its rate allow.
\<close>

section \<open>The bucket\<close>

text \<open>
  A time is a number of nanoseconds after Go's zero time; the zero \<open>TokenBucket\<close> was updated at
  time 0. \<open>Sub\<close> saturates at the largest \<open>Duration\<close>. A nanotoken is \<open>10 ^ -9\<close> tokens; the rate is in
  millitokens per second, that is in nanotokens per microsecond.
\<close>

record TokenBucket =
  tb_rate :: u64
  tb_capacity :: u32
  tb_nanotokens :: u64
  tb_updated :: int

definition zero_TokenBucket :: TokenBucket where
  "zero_TokenBucket = \<lparr>tb_rate = 0, tb_capacity = 0, tb_nanotokens = 0, tb_updated = 0\<rparr>"

definition MaxDuration :: int where "MaxDuration = 2 ^ 63 - 1"

definition MaxUint64 :: u64 where "MaxUint64 = - 1"

definition tb_update :: "int \<Rightarrow> TokenBucket \<Rightarrow> TokenBucket" where
  "tb_update now tb =
     (let now = (if now < tb_updated tb then tb_updated tb else now);
          timeDiff = min MaxDuration (now - tb_updated tb);
          timeDiffMicroseconds = (of_int (timeDiff div 1000) :: u64);
          timeDiffRemainder = timeDiff mod 1000;
          tb = tb\<lparr>tb_updated := now - timeDiffRemainder\<rparr>;
          nanotokensDiff = timeDiffMicroseconds * tb_rate tb;
          nanotokens =
            (if timeDiffMicroseconds \<noteq> 0 \<and> nanotokensDiff div timeDiffMicroseconds \<noteq> tb_rate tb then MaxUint64
             else let newNanotokens = tb_nanotokens tb + nanotokensDiff
                  in if newNanotokens < tb_nanotokens tb then MaxUint64 else newNanotokens);
          capacityNanotokens = ucast (tb_capacity tb) * 1000000000
      in tb\<lparr>tb_nanotokens := (if nanotokens > capacityNanotokens then capacityNanotokens else nanotokens)\<rparr>)"

definition tb_AddTokens :: "u32 \<Rightarrow> TokenBucket \<Rightarrow> TokenBucket" where
  "tb_AddTokens n tb =
     (let newNanotokens = tb_nanotokens tb + ucast n * 1000000000
      in tb\<lparr>tb_nanotokens := (if newNanotokens < tb_nanotokens tb then MaxUint64 else newNanotokens)\<rparr>)"

definition removeTokens :: "int \<Rightarrow> u32 \<Rightarrow> TokenBucket \<Rightarrow> bool \<times> TokenBucket" where
  "removeTokens now n tb =
     (let tb = tb_update now tb
      in if tb_nanotokens tb \<ge> ucast n * 1000000000
         then (True, tb\<lparr>tb_nanotokens := tb_nanotokens tb - ucast n * 1000000000\<rparr>)
         else (False, tb\<lparr>tb_nanotokens := 0\<rparr>))"

definition setRate :: "int \<Rightarrow> u64 \<Rightarrow> TokenBucket \<Rightarrow> TokenBucket" where
  "setRate now rate tb = (tb_update now tb)\<lparr>tb_rate := rate\<rparr>"

definition tb_SetCapacity :: "u32 \<Rightarrow> TokenBucket \<Rightarrow> TokenBucket" where
  "tb_SetCapacity capacity tb = tb\<lparr>tb_capacity := capacity\<rparr>"

definition NewTokenBucket :: "int \<Rightarrow> u64 \<Rightarrow> u32 \<Rightarrow> bool \<Rightarrow> TokenBucket" where
  "NewTokenBucket now rate capacity full =
     (let tb = tb_SetCapacity capacity (setRate now rate zero_TokenBucket)
      in if full then tb_AddTokens capacity tb else tb)"

section \<open>The saturating arithmetic\<close>

lemma uint_MaxUint64: "uint MaxUint64 = 2 ^ 64 - 1"
  by (simp add: MaxUint64_def unsigned_minus_1_eq_mask mask_eq_exp_minus_1)

lemma div_less_mult: "0 < x \<Longrightarrow> p < y * x \<Longrightarrow> p div x < (y :: int)"
proof (rule ccontr)
  assume "0 < x" "p < y * x" "\<not> p div x < y"
  then have "y * x \<le> (p div x) * x" by (simp add: mult_right_mono)
  also have "\<dots> \<le> p" using div_mult_mod_eq [of p x] pos_mod_sign [OF \<open>0 < x\<close>, of p] by linarith
  finally show False using \<open>p < y * x\<close> by simp
qed

text \<open>A word product is exact iff dividing it by one factor gives the other.\<close>

lemma word_mult_overflow_iff:
  fixes x y :: u64
  assumes "x \<noteq> 0"
  shows "x * y div x \<noteq> y \<longleftrightarrow> 2 ^ 64 \<le> uint x * uint y"
proof -
  have x: "0 < uint x" "uint x < 2 ^ 64"
    using assms uint_lt2p [of x] by (simp_all add: word_neq_0_conv word_less_alt)
  have p: "uint (x * y) = uint x * uint y mod 2 ^ 64" by (simp add: uint_word_ariths)
  show ?thesis
  proof (cases "2 ^ 64 \<le> uint x * uint y")
    case True
    have "uint (x * y) \<le> uint x * uint y - 2 ^ 64"
    proof -
      have "uint x * uint y mod 2 ^ 64 = (uint x * uint y - 2 ^ 64) mod 2 ^ 64" by simp
      also have "\<dots> \<le> uint x * uint y - 2 ^ 64" using True by (intro zmod_le_nonneg_dividend) simp
      finally show ?thesis using p by simp
    qed
    then have "uint (x * y) < uint y * uint x" using x by (simp add: mult.commute)
    then have "uint (x * y) div uint x < uint y"
      by (rule div_less_mult [OF x(1)])
    then have "uint (x * y div x) \<noteq> uint y" by (simp add: uint_div)
    then show ?thesis using True by auto
  next
    case False
    then have "uint (x * y) = uint x * uint y" using p by (simp add: mod_pos_pos_trivial)
    then have "uint (x * y div x) = uint y" using x(1) by (simp add: uint_div)
    then show ?thesis using False by (simp add: word_uint_eq_iff)
  qed
qed

lemma word_add_overflow_iff:
  fixes x y :: u64
  shows "x + y < x \<longleftrightarrow> 2 ^ 64 \<le> uint x + uint y"
proof (cases "uint x + uint y < 2 ^ 64")
  case True
  then have "uint (x + y) = uint x + uint y" by (simp add: uint_word_ariths mod_pos_pos_trivial)
  then show ?thesis using True by (simp add: word_less_alt)
next
  case False
  have "uint (x + y) = uint x + uint y - 2 ^ 64"
    using False uint_lt2p [of x] uint_lt2p [of y] uint_add_lem [of x y] by (simp add: uint_plus_if')
  then show ?thesis using False uint_lt2p [of y] by (simp add: word_less_alt)
qed

lemma nanotokens_of [simp]: "uint (ucast (n :: u32) * 1000000000 :: u64) = uint n * 1000000000"
proof -
  have "uint (ucast n :: u64) = uint n" by (rule uint_up_ucast) (simp add: is_up)
  then show ?thesis using uint_lt2p [of n] by (simp add: uint_word_ariths mod_pos_pos_trivial)
qed

section \<open>The bucket on unbounded integers\<close>

definition ideal_elapsed :: "int \<Rightarrow> TokenBucket \<Rightarrow> int" where
  "ideal_elapsed now tb = min MaxDuration (max 0 (now - tb_updated tb)) div 1000"

definition ideal_tokens :: "int \<Rightarrow> TokenBucket \<Rightarrow> int" where
  "ideal_tokens now tb =
     min (uint (tb_capacity tb) * 1000000000) (uint (tb_nanotokens tb) + ideal_elapsed now tb * uint (tb_rate tb))"

lemma ideal_elapsed_bounds: "0 \<le> ideal_elapsed now tb" "ideal_elapsed now tb < 2 ^ 63"
  by (auto simp: ideal_elapsed_def MaxDuration_def min_def max_def)

lemma uint_elapsed: "uint (of_int (ideal_elapsed now tb) :: u64) = ideal_elapsed now tb"
  using ideal_elapsed_bounds [of now tb] by (simp add: uint_word_of_int mod_pos_pos_trivial)

lemma tb_update_frame [simp]:
  "tb_rate (tb_update now tb) = tb_rate tb" "tb_capacity (tb_update now tb) = tb_capacity tb"
  by (simp_all add: tb_update_def Let_def)

lemma update_tokens: "uint (tb_nanotokens (tb_update now tb)) = ideal_tokens now tb"
proof -
  define us where "us = (of_int (ideal_elapsed now tb) :: u64)"
  have us: "uint us = ideal_elapsed now tb" unfolding us_def by (rule uint_elapsed)
  have cap: "uint (tb_capacity tb) * 1000000000 \<le> 2 ^ 64 - 1" using uint_lt2p [of "tb_capacity tb"] by simp
  define n where "n = (if us \<noteq> 0 \<and> us * tb_rate tb div us \<noteq> tb_rate tb then MaxUint64
     else if tb_nanotokens tb + us * tb_rate tb < tb_nanotokens tb then MaxUint64 else tb_nanotokens tb + us * tb_rate tb)"
  have diff: "(if now < tb_updated tb then tb_updated tb else now) - tb_updated tb = max 0 (now - tb_updated tb)" by simp
  have upd: "tb_nanotokens (tb_update now tb) =
      (if n > ucast (tb_capacity tb) * 1000000000 then ucast (tb_capacity tb) * 1000000000 else n)"
    by (simp add: tb_update_def Let_def n_def us_def ideal_elapsed_def diff del: of_int_numeral)
  have n: "uint n = min (2 ^ 64 - 1) (uint (tb_nanotokens tb) + uint us * uint (tb_rate tb))"
  proof (cases "2 ^ 64 \<le> uint us * uint (tb_rate tb)")
    case True
    then have "us \<noteq> 0" by auto
    with True have "n = MaxUint64" by (simp add: n_def word_mult_overflow_iff)
    moreover have "2 ^ 64 - 1 \<le> uint (tb_nanotokens tb) + uint us * uint (tb_rate tb)"
      using True uint_ge_0 [of "tb_nanotokens tb"] by linarith
    ultimately show ?thesis by (simp add: uint_MaxUint64)
  next
    case False
    then have p: "uint (us * tb_rate tb) = uint us * uint (tb_rate tb)"
      by (simp add: uint_word_ariths mod_pos_pos_trivial)
    have "n = (if tb_nanotokens tb + us * tb_rate tb < tb_nanotokens tb then MaxUint64 else tb_nanotokens tb + us * tb_rate tb)"
      using False word_mult_overflow_iff [of us "tb_rate tb"] by (auto simp: n_def)
    then show ?thesis
      using p word_add_overflow_iff [of "tb_nanotokens tb" "us * tb_rate tb"]
      by (auto simp: uint_MaxUint64 uint_word_ariths mod_pos_pos_trivial)
  qed
  show ?thesis unfolding upd ideal_tokens_def using n us cap by (auto simp: word_less_alt)
qed

section \<open>What a bucket grants\<close>

lemma update_time:
  "1000 * ideal_elapsed now tb \<le> tb_updated (tb_update now tb) - tb_updated tb"
  "tb_updated tb \<le> tb_updated (tb_update now tb)"
  "tb_updated (tb_update now tb) \<le> max now (tb_updated tb)"
proof -
  let ?d = "max 0 (now - tb_updated tb)"
  have upd: "tb_updated (tb_update now tb) = tb_updated tb + ?d - min MaxDuration ?d mod 1000"
    by (simp add: tb_update_def Let_def)
  have d: "0 \<le> min MaxDuration ?d" "min MaxDuration ?d \<le> ?d" by (simp_all add: MaxDuration_def)
  have m: "1000 * (min MaxDuration ?d div 1000) + min MaxDuration ?d mod 1000 = min MaxDuration ?d"
    by (rule mult_div_mod_eq)
  have r: "0 \<le> min MaxDuration ?d mod 1000" "0 \<le> min MaxDuration ?d div 1000"
    using d(1) by simp_all
  show "1000 * ideal_elapsed now tb \<le> tb_updated (tb_update now tb) - tb_updated tb"
    "tb_updated tb \<le> tb_updated (tb_update now tb)" "tb_updated (tb_update now tb) \<le> max now (tb_updated tb)"
    unfolding upd ideal_elapsed_def using d m r by linarith+
qed

text \<open>The code's answer is that of the ideal bucket, and so is what is left.\<close>

lemma removeTokens_exact:
  "removeTokens now n tb =
     (let c = ideal_tokens now tb; ok = (uint n * 1000000000 \<le> c)
      in (ok, (tb_update now tb)\<lparr>tb_nanotokens := of_int (if ok then c - uint n * 1000000000 else 0)\<rparr>))"
proof -
  let ?tb = "tb_update now tb"
  have c: "uint (tb_nanotokens ?tb) = ideal_tokens now tb" by (rule update_tokens)
  have ge: "tb_nanotokens ?tb \<ge> ucast n * 1000000000 \<longleftrightarrow> uint n * 1000000000 \<le> ideal_tokens now tb"
    by (simp only: word_le_def nanotokens_of c)
  have sub: "tb_nanotokens ?tb - ucast n * 1000000000 = of_int (ideal_tokens now tb - uint n * 1000000000)"
    by (simp flip: c nanotokens_of)
  show ?thesis unfolding removeTokens_def Let_def ge sub by simp
qed

lemma ideal_tokens_nonneg: "0 \<le> ideal_tokens now tb"
  using ideal_elapsed_bounds(1) [of now tb] by (simp add: ideal_tokens_def)

lemma removeTokens_tokens:
  assumes "removeTokens now n tb = (ok, tb')"
  shows "(if ok then uint n * 1000000000 else 0) + uint (tb_nanotokens tb') \<le>
      min (uint (tb_nanotokens tb)) (uint (tb_capacity tb) * 1000000000) + ideal_elapsed now tb * uint (tb_rate tb)"
    and "tb_rate tb' = tb_rate tb" "tb_capacity tb' = tb_capacity tb" "tb_updated tb' = tb_updated (tb_update now tb)"
    and "uint (tb_nanotokens tb') \<le> uint (tb_capacity tb) * 1000000000"
proof -
  let ?c = "ideal_tokens now tb"
  have c: "?c < 2 ^ 64" using uint_lt2p [of "tb_nanotokens (tb_update now tb)"] by (simp add: update_tokens)
  have u: "uint (of_int x :: u64) = x" if "0 \<le> x" "x \<le> ?c" for x
    using that c by (simp add: uint_word_of_int mod_pos_pos_trivial)
  have ok: "ok \<longleftrightarrow> uint n * 1000000000 \<le> ?c"
    and tb': "tb' = (tb_update now tb)\<lparr>tb_nanotokens := of_int (if ok then ?c - uint n * 1000000000 else 0)\<rparr>"
    using assms by (auto simp: removeTokens_exact Let_def)
  have t: "uint (tb_nanotokens tb') = (if ok then ?c - uint n * 1000000000 else 0)"
    using ok u ideal_tokens_nonneg [of now tb] by (simp add: tb')
  have "0 \<le> ideal_elapsed now tb * uint (tb_rate tb)" using ideal_elapsed_bounds(1) by simp
  then have le: "?c \<le> min (uint (tb_nanotokens tb)) (uint (tb_capacity tb) * 1000000000) + ideal_elapsed now tb * uint (tb_rate tb)"
    unfolding ideal_tokens_def by linarith
  show "(if ok then uint n * 1000000000 else 0) + uint (tb_nanotokens tb') \<le>
      min (uint (tb_nanotokens tb)) (uint (tb_capacity tb) * 1000000000) + ideal_elapsed now tb * uint (tb_rate tb)"
    using t le ideal_tokens_nonneg [of now tb] by simp
  show "tb_rate tb' = tb_rate tb" "tb_capacity tb' = tb_capacity tb" "tb_updated tb' = tb_updated (tb_update now tb)"
    by (simp_all add: tb')
  have "?c \<le> uint (tb_capacity tb) * 1000000000" by (simp add: ideal_tokens_def)
  moreover have "uint (tb_nanotokens tb') \<le> ?c"
    unfolding t using ideal_tokens_nonneg [of now tb] uint_ge_0 [of n] by (cases ok; simp only: if_True if_False; linarith)
  ultimately show "uint (tb_nanotokens tb') \<le> uint (tb_capacity tb) * 1000000000" by (rule order_trans [rotated])
qed

text \<open>A sequence of requests, each with the time read, and the number of tokens granted to them.\<close>

fun tb_run :: "(int \<times> u32) list \<Rightarrow> TokenBucket \<Rightarrow> int \<times> TokenBucket" where
  "tb_run [] tb = (0, tb)"
| "tb_run ((now, n) # evs) tb =
     (let (ok, tb) = removeTokens now n tb; (granted, tb) = tb_run evs tb
      in ((if ok then uint n else 0) + granted, tb))"

lemma tb_run_granted:
  "tb_run evs tb = (g, tb') \<Longrightarrow>
   g * 10 ^ 12 + 1000 * uint (tb_nanotokens tb') \<le>
     1000 * (if evs = [] then uint (tb_nanotokens tb) else min (uint (tb_nanotokens tb)) (uint (tb_capacity tb) * 1000000000)) +
     uint (tb_rate tb) * (tb_updated tb' - tb_updated tb) \<and>
   tb_rate tb' = tb_rate tb \<and> tb_capacity tb' = tb_capacity tb \<and> tb_updated tb \<le> tb_updated tb' \<and>
   tb_updated tb' \<le> Max (insert (tb_updated tb) (fst ` set evs))"
proof (induction evs arbitrary: tb g)
  case Nil
  then show ?case by simp
next
  case (Cons ev evs)
  obtain now n where ev: "ev = (now, n)" by (cases ev)
  obtain ok tb1 where r: "removeTokens now n tb = (ok, tb1)" by (cases "removeTokens now n tb")
  obtain g1 where r1: "tb_run evs tb1 = (g1, tb')" "g = (if ok then uint n else 0) + g1"
    using Cons.prems by (auto simp: ev r split: prod.splits)
  note IH = Cons.IH [OF r1(1)] and step = removeTokens_tokens [OF r] and time = update_time [where now = now and tb = tb]
  have le1: "(if evs = [] then uint (tb_nanotokens tb1) else min (uint (tb_nanotokens tb1)) (uint (tb_capacity tb1) * 1000000000))
      \<le> uint (tb_nanotokens tb1)" by simp
  have "uint (tb_rate tb) * (1000 * ideal_elapsed now tb) \<le> uint (tb_rate tb) * (tb_updated tb1 - tb_updated tb)"
    using time(1) step(4) by (intro mult_left_mono) simp_all
  then have rate: "1000 * (ideal_elapsed now tb * uint (tb_rate tb)) + uint (tb_rate tb) * (tb_updated tb' - tb_updated tb1)
      \<le> uint (tb_rate tb) * (tb_updated tb' - tb_updated tb)"
    by (simp add: algebra_simps)
  have g: "g * 10 ^ 12 = 1000 * (if ok then uint n * 1000000000 else 0) + g1 * 10 ^ 12" by (simp add: r1(2) algebra_simps)
  have granted: "g * 10 ^ 12 + 1000 * uint (tb_nanotokens tb') \<le>
      1000 * min (uint (tb_nanotokens tb)) (uint (tb_capacity tb) * 1000000000) + uint (tb_rate tb) * (tb_updated tb' - tb_updated tb)"
  proof -
    define a where "a = (if ok then uint n * 1000000000 else 0)"
    define m where "m = min (uint (tb_nanotokens tb)) (uint (tb_capacity tb) * 1000000000)"
    have "g1 * 10 ^ 12 + 1000 * uint (tb_nanotokens tb')
        \<le> 1000 * uint (tb_nanotokens tb1) + uint (tb_rate tb) * (tb_updated tb' - tb_updated tb1)"
      using conjunct1 [OF IH] le1 unfolding step(2) by linarith
    moreover have "a + uint (tb_nanotokens tb1) \<le> m + ideal_elapsed now tb * uint (tb_rate tb)"
      using step(1) unfolding a_def m_def .
    ultimately show ?thesis using rate unfolding g a_def [symmetric] m_def [symmetric] by linarith
  qed
  have "Max (insert (tb_updated tb1) (fst ` set evs)) \<le> Max (insert (tb_updated tb) (fst ` set (ev # evs)))"
  proof (rule Max.boundedI)
    fix a assume "a \<in> insert (tb_updated tb1) (fst ` set evs)"
    then consider "a \<le> max now (tb_updated tb)" | "a \<in> fst ` set evs" using time(3) step(4) by auto
    then show "a \<le> Max (insert (tb_updated tb) (fst ` set (ev # evs)))"
    proof cases
      case 1
      have "max now (tb_updated tb) \<in> insert (tb_updated tb) (fst ` set (ev # evs))" by (simp add: ev max_def)
      then show ?thesis using 1 by (meson Max_ge List.finite_set finite_imageI finite_insert order_trans)
    next
      case 2
      then show ?thesis by (intro Max_ge) auto
    qed
  qed simp_all
  then have "tb_updated tb' \<le> Max (insert (tb_updated tb) (fst ` set (ev # evs)))" using IH by linarith
  moreover have "tb_updated tb \<le> tb_updated tb'" using IH step(4) time(2) by linarith
  ultimately show ?case using granted IH step(2,3) by simp
qed

text \<open>C31: The rate limiter of a connection or stream is exact and bounds the traffic. Every request is
  answered as by a token bucket on unbounded integers, although the code computes with saturating
  64-bit words; and whatever requests are made at whatever times, those that are granted take, together,
  no more than the capacity and what the rate yields in the time between.\<close>

theorem rate_limiter_bounds_traffic:
  "(fst (removeTokens now n tb) \<longleftrightarrow>
      uint n * 10 ^ 9 \<le> min (uint (tb_capacity tb) * 10 ^ 9)
        (uint (tb_nanotokens tb) + ideal_elapsed now tb * uint (tb_rate tb))) \<and>
   (let (granted, tb') = tb_run evs tb
    in tb_updated tb' \<le> Max (insert (tb_updated tb) (fst ` set evs)) \<and>
       (tb_updated tb \<le> tb_updated tb' \<and>
        granted * 10 ^ 12 \<le> uint (tb_capacity tb) * 10 ^ 12 + uint (tb_rate tb) * (tb_updated tb' - tb_updated tb)))"
proof (intro conjI)
  show "fst (removeTokens now n tb) \<longleftrightarrow>
      uint n * 10 ^ 9 \<le> min (uint (tb_capacity tb) * 10 ^ 9)
        (uint (tb_nanotokens tb) + ideal_elapsed now tb * uint (tb_rate tb))"
    by (simp add: removeTokens_exact Let_def ideal_tokens_def)
  obtain g tb' where r: "tb_run evs tb = (g, tb')" by (cases "tb_run evs tb")
  have "g * 10 ^ 12 \<le> uint (tb_capacity tb) * 10 ^ 12 + uint (tb_rate tb) * (tb_updated tb' - tb_updated tb)"
  proof (cases "evs = []")
    case True
    then show ?thesis using r by simp
  next
    case False
    have arith: "0 \<le> a \<Longrightarrow> m \<le> c * 1000000000 \<Longrightarrow> g * 10 ^ 12 + 1000 * a \<le> 1000 * m + x \<Longrightarrow> g * 10 ^ 12 \<le> c * 10 ^ 12 + x"
      for a m c x :: int by simp
    show ?thesis
      using conjunct1 [OF tb_run_granted [OF r]] unfolding if_not_P [OF False] by (rule arith [OF uint_ge_0 min.cobounded2])
  qed
  then show "let (granted, tb') = tb_run evs tb
    in tb_updated tb' \<le> Max (insert (tb_updated tb) (fst ` set evs)) \<and>
       (tb_updated tb \<le> tb_updated tb' \<and>
        granted * 10 ^ 12 \<le> uint (tb_capacity tb) * 10 ^ 12 + uint (tb_rate tb) * (tb_updated tb' - tb_updated tb))"
    using tb_run_granted [OF r] by (simp add: r)
qed

end
