(* ===== verification/RageDemux.thy ===== *)
theory RageDemux
  imports RageFrames MsgBuf TokenBucket GoFloat "HOL-Library.Sublist"
begin

text \<open>
  The demultiplexer of a connection (\<open>ragep2p/demuxer.go\<close>): one bounded buffer and two rate limiters
  per stream, filled by the connection's read loop and emptied by the stream's receive loop
  (\<open>Stream.receiveLoop\<close> of \<open>ragep2p/ragep2p.go\<close>), which a channel of capacity one wakes up.
\<close>

section \<open>Rates\<close>

text \<open>
  Rates are finite \<open>float64\<close> values, as rationals. Converting a float to an unsigned integer type
  truncates when the result is in range and is left to the implementation otherwise: the two
  conversions are parameters.
\<close>

record TokenBucketParams =
  tp_Rate :: rat
  tp_Capacity :: u32

record float_conv =
  fc_u64 :: "rat \<Rightarrow> u64"
  fc_u32 :: "rat \<Rightarrow> u32"
  fc_u64_nonfinite :: u64

definition conv_ok :: "float_conv \<Rightarrow> bool" where
  "conv_ok fc \<longleftrightarrow>
     (\<forall>x. 0 \<le> x \<and> x < 2 ^ 64 \<longrightarrow> fc_u64 fc x = of_int \<lfloor>x\<rfloor>) \<and>
     (\<forall>x. 0 \<le> x \<and> x < 2 ^ 32 \<longrightarrow> fc_u32 fc x = of_int \<lfloor>x\<rfloor>)"

definition makeRateLimiter :: "float_conv \<Rightarrow> int \<Rightarrow> TokenBucketParams \<Rightarrow> TokenBucket" where
  "makeRateLimiter fc now params =
     (let tb = zero_TokenBucket;
          tb = setRate now (fc_u64 fc (of_int \<lceil>fl (tp_Rate params * 1000)\<rceil>)) tb;
          tb = tb_SetCapacity (tp_Capacity params) tb
      in tb_AddTokens (tp_Capacity params) tb)"

section \<open>The demultiplexer\<close>

datatype shouldPushResult =
    shouldPushResultYes
  | shouldPushResultMessageTooBig
  | shouldPushResultMessagesLimitExceeded
  | shouldPushResultBytesLimitExceeded
  | shouldPushResultUnknownStream

datatype pushResult = pushResultSuccess | pushResultDropped | pushResultUnknownStream

text \<open>\<open>ds_chSignal\<close>: whether the channel \<open>chSignal\<close> of capacity one holds an item.\<close>

record demuxerStream =
  ds_buffer :: msgbuf
  ds_chSignal :: bool
  ds_maxMessageSize :: int
  ds_messagesLimiter :: TokenBucket
  ds_bytesLimiter :: TokenBucket

type_synonym demuxer = "streamID \<rightharpoonup> demuxerStream"

definition newDemuxer :: demuxer where "newDemuxer = Map.empty"

definition demuxer_AddStream ::
  "float_conv \<Rightarrow> int \<Rightarrow> int \<Rightarrow> streamID \<Rightarrow> int \<Rightarrow> int \<Rightarrow> TokenBucketParams \<Rightarrow> TokenBucketParams \<Rightarrow> demuxer \<Rightarrow> (bool \<times> demuxer) go" where
  "demuxer_AddStream fc now now' sid incomingBufferSize maxMessageSize messagesLimit bytesLimit d =
     (if d sid \<noteq> None then Inr (False, d)
      else
        bindG (msgbuf_New incomingBufferSize) (\<lambda>buffer.
          Inr (True, d(sid \<mapsto>
            \<lparr>ds_buffer = buffer, ds_chSignal = False, ds_maxMessageSize = maxMessageSize,
             ds_messagesLimiter = makeRateLimiter fc now messagesLimit,
             ds_bytesLimiter = makeRateLimiter fc now' bytesLimit\<rparr>))))"

definition demuxer_RemoveStream :: "streamID \<Rightarrow> demuxer \<Rightarrow> demuxer" where
  "demuxer_RemoveStream sid d = d(sid := None)"

text \<open>Each of the two limiters reads the clock.\<close>

definition ShouldPush :: "int \<Rightarrow> int \<Rightarrow> streamID \<Rightarrow> int \<Rightarrow> demuxer \<Rightarrow> shouldPushResult \<times> demuxer" where
  "ShouldPush now now' sid sz d =
     (case d sid of
        None \<Rightarrow> (shouldPushResultUnknownStream, d)
      | Some s \<Rightarrow>
          if sz > ds_maxMessageSize s then (shouldPushResultMessageTooBig, d)
          else
            let (messagesLimiterAllow, ml) = removeTokens now 1 (ds_messagesLimiter s);
                (bytesLimiterAllow, bl) = removeTokens now' (of_int sz) (ds_bytesLimiter s);
                d = d(sid \<mapsto> s\<lparr>ds_messagesLimiter := ml, ds_bytesLimiter := bl\<rparr>)
            in if \<not> messagesLimiterAllow then (shouldPushResultMessagesLimitExceeded, d)
               else if \<not> bytesLimiterAllow then (shouldPushResultBytesLimitExceeded, d)
               else (shouldPushResultYes, d))"

definition PushMessage :: "streamID \<Rightarrow> bytes option \<Rightarrow> demuxer \<Rightarrow> (pushResult \<times> demuxer) go" where
  "PushMessage sid msg d =
     (case d sid of
        None \<Rightarrow> Inr (pushResultUnknownStream, d)
      | Some s \<Rightarrow>
          bindG (msgbuf_Push msg (ds_buffer s)) (\<lambda>(dropped, buffer).
            let result = (if dropped = None then pushResultSuccess else pushResultDropped)
            in Inr (result, d(sid \<mapsto> s\<lparr>ds_buffer := buffer, ds_chSignal := True\<rparr>))))"

definition PopMessage :: "streamID \<Rightarrow> demuxer \<Rightarrow> (bytes option \<times> demuxer) go" where
  "PopMessage sid d =
     (case d sid of
        None \<Rightarrow> Inr (None, d)
      | Some s \<Rightarrow>
          bindG (msgbuf_Pop (ds_buffer s)) (\<lambda>(result, buffer).
          bindG (msgbuf_Peek buffer) (\<lambda>next.
            let s = s\<lparr>ds_buffer := buffer\<rparr>;
                s = (if next \<noteq> None then s\<lparr>ds_chSignal := True\<rparr> else s)
            in Inr (result, d(sid \<mapsto> s)))))"

section \<open>The receive loop of a stream\<close>

text \<open>
  The loop waits for the signal, pops a message and hands it to the reader of the stream; between any
  two of these the connection may call the demultiplexer. \<open>rc_pushed\<close> and \<open>rc_delivered\<close> are ghost
  lists of the messages pushed for the stream and handed to its reader; \<open>rc_nils\<close> counts how often the
  loop logs \<open>Received nil msg, this should not happen\<close>.
\<close>

datatype receive_pc = RcSelect | RcPop | RcSend bytes

record receive_state =
  rc_demux :: demuxer
  rc_pc :: receive_pc
  rc_nils :: nat
  rc_pushed :: "bytes list"
  rc_delivered :: "bytes list"

datatype receive_case =
    RcSignal
  | RcPopMessage
  | RcDeliver
  | RcShouldPush int int streamID int
  | RcPush streamID bytes

fun rc_ready :: "streamID \<Rightarrow> receive_state \<Rightarrow> receive_case \<Rightarrow> bool" where
  "rc_ready sid st RcSignal = (rc_pc st = RcSelect \<and> (case rc_demux st sid of None \<Rightarrow> False | Some s \<Rightarrow> ds_chSignal s))"
| "rc_ready sid st RcPopMessage = (rc_pc st = RcPop)"
| "rc_ready sid st RcDeliver = (case rc_pc st of RcSend msg \<Rightarrow> True | _ \<Rightarrow> False)"
| "rc_ready sid st (RcShouldPush _ _ _ _) = True"
| "rc_ready sid st (RcPush _ _) = True"

fun rc_process :: "streamID \<Rightarrow> receive_case \<Rightarrow> receive_state \<Rightarrow> receive_state go" where
  "rc_process sid RcSignal st =
     Inr (st\<lparr>rc_demux := (case rc_demux st sid of None \<Rightarrow> rc_demux st | Some s \<Rightarrow> (rc_demux st)(sid \<mapsto> s\<lparr>ds_chSignal := False\<rparr>)),
             rc_pc := RcPop\<rparr>)"
| "rc_process sid RcPopMessage st =
     bindG (PopMessage sid (rc_demux st)) (\<lambda>(msg, d).
       Inr (case msg of
              None \<Rightarrow> st\<lparr>rc_demux := d, rc_pc := RcSelect, rc_nils := Suc (rc_nils st)\<rparr>
            | Some m \<Rightarrow> st\<lparr>rc_demux := d, rc_pc := RcSend m\<rparr>))"
| "rc_process sid RcDeliver st =
     Inr (case rc_pc st of
            RcSend m \<Rightarrow> st\<lparr>rc_pc := RcSelect, rc_delivered := rc_delivered st @ [m]\<rparr>
          | _ \<Rightarrow> st)"
| "rc_process sid (RcShouldPush now now' sid' sz) st = Inr (st\<lparr>rc_demux := snd (ShouldPush now now' sid' sz (rc_demux st))\<rparr>)"
| "rc_process sid (RcPush sid' m) st =
     bindG (PushMessage sid' (Some m) (rc_demux st)) (\<lambda>(_, d).
       Inr (st\<lparr>rc_demux := d, rc_pushed := (if sid' = sid then rc_pushed st @ [m] else rc_pushed st)\<rparr>))"

fun rc_run :: "streamID \<Rightarrow> receive_case list \<Rightarrow> receive_state \<Rightarrow> receive_state go option" where
  "rc_run sid [] st = Some (Inr st)"
| "rc_run sid (c # cs) st =
     (if \<not> rc_ready sid st c then None
      else case rc_process sid c st of Inl p \<Rightarrow> Some (Inl p) | Inr st \<Rightarrow> rc_run sid cs st)"

definition rc_start :: "demuxer \<Rightarrow> receive_state" where
  "rc_start d = \<lparr>rc_demux = d, rc_pc = RcSelect, rc_nils = 0, rc_pushed = [], rc_delivered = []\<rparr>"

section \<open>No lost wakeup\<close>

fun in_hand :: "receive_pc \<Rightarrow> bytes list" where
  "in_hand (RcSend m) = [m]"
| "in_hand _ = []"

definition demux_ok :: "demuxer \<Rightarrow> bool" where
  "demux_ok d \<longleftrightarrow> (\<forall>sid s. d sid = Some s \<longrightarrow> mb_ok (ds_buffer s))"

definition receive_inv :: "streamID \<Rightarrow> receive_state \<Rightarrow> bool" where
  "receive_inv sid st \<longleftrightarrow> demux_ok (rc_demux st) \<and> rc_nils st = 0 \<and>
     (\<exists>s. rc_demux st sid = Some s \<and> 2 \<le> mb_cap (ds_buffer s) \<and>
       (if rc_pc st = RcPop
        then mb_list (ds_buffer s) \<noteq> [] \<and> (ds_chSignal s \<longrightarrow> 2 \<le> length (mb_list (ds_buffer s)))
        else ds_chSignal s \<longleftrightarrow> mb_list (ds_buffer s) \<noteq> []) \<and>
       suffix (mb_list (ds_buffer s)) (rc_pushed st) \<and>
       subseq (rc_delivered st @ in_hand (rc_pc st) @ mb_list (ds_buffer s)) (rc_pushed st))"

lemma demux_ok_update: "demux_ok d \<Longrightarrow> mb_ok (ds_buffer s) \<Longrightarrow> demux_ok (d(sid \<mapsto> s))"
  by (simp add: demux_ok_def)

lemma ShouldPush_frame:
  "ShouldPush now now' sid sz d = (r, d') \<Longrightarrow>
   (\<forall>x. case d x of None \<Rightarrow> d' x = None
      | Some s \<Rightarrow> \<exists>ml bl. d' x = Some (s\<lparr>ds_messagesLimiter := ml, ds_bytesLimiter := bl\<rparr>))"
  by (auto simp: ShouldPush_def Let_def split: option.splits if_splits prod.splits)
    (metis demuxerStream.surjective demuxerStream.update_convs(4,5))+

lemma push_bounded_suffix:
  "suffix xs ys \<Longrightarrow> suffix (push_bounded c xs x) (ys @ [x])"
proof -
  assume xs: "suffix xs ys"
  have "suffix (push_bounded c xs x) (xs @ [x])" by (auto simp: push_bounded_def suffix_def intro: exI [of _ "[hd xs]"] split: if_splits) (cases xs; auto)+
  then show ?thesis using xs by (meson same_suffix_suffix suffix_order.trans)
qed

lemma push_bounded_subseq:
  assumes "subseq (zs @ xs) ys"
  shows "subseq (zs @ push_bounded c xs x) (ys @ [x])"
proof -
  have "subseq (push_bounded c xs x) (xs @ [x])"
    by (cases xs) (auto simp: push_bounded_def)
  then have "subseq (zs @ push_bounded c xs x) (zs @ (xs @ [x]))" by (rule list_emb_append_mono [OF subseq_order.refl])
  then have "subseq (zs @ push_bounded c xs x) ((zs @ xs) @ [x])" by simp
  also have "subseq \<dots> (ys @ [x])" using assms by (rule list_emb_append_mono [OF _ subseq_order.refl])
  finally show ?thesis .
qed

lemma receive_inv_step:
  assumes inv: "receive_inv sid st" and ready: "rc_ready sid st c"
  shows "\<exists>st'. rc_process sid c st = Inr st' \<and> receive_inv sid st'"
proof -
  obtain s where s: "rc_demux st sid = Some s" "2 \<le> mb_cap (ds_buffer s)"
      "if rc_pc st = RcPop then mb_list (ds_buffer s) \<noteq> [] \<and> (ds_chSignal s \<longrightarrow> 2 \<le> length (mb_list (ds_buffer s)))
       else ds_chSignal s \<longleftrightarrow> mb_list (ds_buffer s) \<noteq> []"
      "suffix (mb_list (ds_buffer s)) (rc_pushed st)"
      "subseq (rc_delivered st @ in_hand (rc_pc st) @ mb_list (ds_buffer s)) (rc_pushed st)"
    and ok: "demux_ok (rc_demux st)" "rc_nils st = 0"
    using inv unfolding receive_inv_def by blast
  have okb: "mb_ok (ds_buffer s)" using ok(1) s(1) by (simp add: demux_ok_def)
  show ?thesis
  proof (cases c)
    case RcSignal
    then have "rc_pc st = RcSelect" "ds_chSignal s" using ready s(1) by auto
    then have "receive_inv sid (st\<lparr>rc_demux := (rc_demux st)(sid \<mapsto> s\<lparr>ds_chSignal := False\<rparr>), rc_pc := RcPop\<rparr>)"
      using s ok okb by (simp add: receive_inv_def demux_ok_update)
    then show ?thesis using RcSignal s(1) by simp
  next
    case RcPopMessage
    then have pc: "rc_pc st = RcPop" using ready by simp
    then have ne: "mb_list (ds_buffer s) \<noteq> []" "ds_chSignal s \<longrightarrow> 2 \<le> length (mb_list (ds_buffer s))"
      using s(3) by simp_all
    obtain b where b: "msgbuf_Pop (ds_buffer s) = Inr (Some (hd (mb_list (ds_buffer s))), b)" "mb_ok b"
        "mb_list b = tl (mb_list (ds_buffer s))" "mb_cap b = mb_cap (ds_buffer s)"
      using mgq.pop_spec [OF okb ne(1)] by (auto simp: goT_iff)
    have peek: "msgbuf_Peek b = Inr (if mb_list b = [] then None else Some (hd (mb_list b)))"
      using mb_Peek_list [OF b(2)] by (simp add: msgbuf_Peek_eq)
    let ?s = "s\<lparr>ds_buffer := b, ds_chSignal := (mb_list b \<noteq> [])\<rparr>"
    have "mb_list b = [] \<Longrightarrow> \<not> ds_chSignal s" using ne b(3) by (cases "mb_list (ds_buffer s)") auto
    then have pop: "PopMessage sid (rc_demux st) = Inr (Some (hd (mb_list (ds_buffer s))), (rc_demux st)(sid \<mapsto> ?s))"
      using b(1) peek s(1) by (auto simp: PopMessage_def)
    have "suffix (mb_list b) (rc_pushed st)"
      using s(4) b(3) by (metis suffix_order.trans suffix_tl)
    moreover have "subseq (rc_delivered st @ [hd (mb_list (ds_buffer s))] @ mb_list b) (rc_pushed st)"
      using s(5) pc b(3) ne(1) by simp
    ultimately have "receive_inv sid (st\<lparr>rc_demux := (rc_demux st)(sid \<mapsto> ?s), rc_pc := RcSend (hd (mb_list (ds_buffer s)))\<rparr>)"
      using s(2) ok b by (simp add: receive_inv_def demux_ok_update)
    then show ?thesis using RcPopMessage pop by simp
  next
    case RcDeliver
    then obtain m where m: "rc_pc st = RcSend m" using ready by (auto split: receive_pc.splits)
    have "receive_inv sid (st\<lparr>rc_pc := RcSelect, rc_delivered := rc_delivered st @ [m]\<rparr>)"
      using s ok m by (simp add: receive_inv_def)
    then show ?thesis using RcDeliver m by simp
  next
    case (RcShouldPush now now' x sz)
    obtain r d' where d': "ShouldPush now now' x sz (rc_demux st) = (r, d')"
      by (cases "ShouldPush now now' x sz (rc_demux st)")
    note frame = spec [OF ShouldPush_frame [OF d']]
    obtain ml bl where s': "d' sid = Some (s\<lparr>ds_messagesLimiter := ml, ds_bytesLimiter := bl\<rparr>)"
      using frame [of sid] s(1) by auto
    have "demux_ok d'" unfolding demux_ok_def
    proof (intro allI impI)
      fix y t assume "d' y = Some t"
      then show "mb_ok (ds_buffer t)" using frame [of y] ok(1) by (cases "rc_demux st y") (auto simp: demux_ok_def)
    qed
    then have "receive_inv sid (st\<lparr>rc_demux := d'\<rparr>)" using s ok(2) s' by (simp add: receive_inv_def)
    then show ?thesis using RcShouldPush d' by simp
  next
    case (RcPush x m)
    show ?thesis
    proof (cases "rc_demux st x")
      case None
      then have "x \<noteq> sid" using s(1) by auto
      then show ?thesis using None RcPush inv by (simp add: PushMessage_def)
    next
      case (Some t)
      have okt: "mb_ok (ds_buffer t)" using ok(1) Some by (simp add: demux_ok_def)
      obtain dr b where b: "msgbuf_Push (Some m) (ds_buffer t) = Inr (dr, b)" "mb_ok b"
          "mb_list b = push_bounded (mb_cap (ds_buffer t)) (mb_list (ds_buffer t)) m" "mb_cap b = mb_cap (ds_buffer t)"
        using msgbuf_Push_list [OF okt, of m] by (auto simp: goT_iff)
      let ?t = "t\<lparr>ds_buffer := b, ds_chSignal := True\<rparr>"
      let ?st = "st\<lparr>rc_demux := (rc_demux st)(x \<mapsto> ?t), rc_pushed := (if x = sid then rc_pushed st @ [m] else rc_pushed st)\<rparr>"
      have process: "rc_process sid (RcPush x m) st = Inr ?st" using Some b(1) by (simp add: PushMessage_def)
      have "receive_inv sid ?st"
      proof (cases "x = sid")
        case False
        then show ?thesis using s ok b(2) by (simp add: receive_inv_def demux_ok_update)
      next
        case True
        then have t: "t = s" using Some s(1) by simp
        have "2 \<le> length (mb_list b)" if "mb_list (ds_buffer s) \<noteq> []"
          using that b(3) s(2) t by (cases "mb_list (ds_buffer s)") (auto simp: push_bounded_def)
        moreover have "mb_list b \<noteq> []" using b(3) by (simp add: push_bounded_def)
        moreover have "suffix (mb_list b) (rc_pushed st @ [m])" using push_bounded_suffix [OF s(4)] b(3) t by simp
        moreover have "subseq (rc_delivered st @ in_hand (rc_pc st) @ mb_list b) (rc_pushed st @ [m])"
          using push_bounded_subseq [of "rc_delivered st @ in_hand (rc_pc st)"] s(5) b(3) t by simp
        ultimately show ?thesis using s(2,3) ok b(2,4) True t
          by (auto simp: receive_inv_def demux_ok_update)
      qed
      then show ?thesis using RcPush process by auto
    qed
  qed
qed

lemma rc_run_inv:
  "receive_inv sid st \<Longrightarrow> rc_run sid cs st = Some r \<Longrightarrow> \<exists>st'. r = Inr st' \<and> receive_inv sid st'"
proof (induction cs arbitrary: st)
  case (Cons c cs)
  then have ready: "rc_ready sid st c" by (auto split: if_splits)
  obtain st1 where "rc_process sid c st = Inr st1" "receive_inv sid st1"
    using receive_inv_step [OF Cons.prems(1) ready] by blast
  then show ?case using Cons.IH Cons.prems(2) ready by simp
qed auto

text \<open>Left alone, the loop empties the buffer: a round takes the signal, pops and delivers.\<close>

lemma receive_round:
  assumes "receive_inv sid st" "rc_pc st = RcSelect" "rc_demux st sid = Some s" "mb_list (ds_buffer s) = m # ms"
  shows "\<exists>st' s'. rc_run sid [RcSignal, RcPopMessage, RcDeliver] st = Some (Inr st') \<and> receive_inv sid st' \<and>
    rc_pc st' = RcSelect \<and> rc_demux st' sid = Some s' \<and> mb_list (ds_buffer s') = ms \<and>
    rc_delivered st' = rc_delivered st @ [m] \<and> rc_pushed st' = rc_pushed st"
proof -
  have sig: "ds_chSignal s" and ok: "mb_ok (ds_buffer s)"
    using assms by (auto simp: receive_inv_def demux_ok_def)
  have ne: "mb_list (ds_buffer s) \<noteq> []" using assms(4) by simp
  obtain b where b: "msgbuf_Pop (ds_buffer s) = Inr (Some m, b)" "mb_ok b" "mb_list b = ms"
    using mgq.pop_spec [OF ok ne] assms(4) by (auto simp: goT_iff)
  have peek: "msgbuf_Peek b = Inr (if mb_list b = [] then None else Some (hd (mb_list b)))"
    using mb_Peek_list [OF b(2)] by (simp add: msgbuf_Peek_eq)
  have run: "\<exists>st' s'. rc_run sid [RcSignal, RcPopMessage, RcDeliver] st = Some (Inr st') \<and>
      rc_pc st' = RcSelect \<and> rc_demux st' sid = Some s' \<and> mb_list (ds_buffer s') = ms \<and>
      rc_delivered st' = rc_delivered st @ [m] \<and> rc_pushed st' = rc_pushed st"
    using sig assms(2,3) b peek by (auto simp: PopMessage_def)
  then show ?thesis using rc_run_inv [OF assms(1)] by blast
qed

lemma receive_drain:
  assumes "receive_inv sid st" "rc_pc st = RcSelect" "rc_demux st sid = Some s"
  shows "\<exists>cs st'. length cs = 3 * length (mb_list (ds_buffer s)) \<and> set cs \<subseteq> {RcSignal, RcPopMessage, RcDeliver} \<and>
    rc_run sid cs st = Some (Inr st') \<and> rc_delivered st' = rc_delivered st @ mb_list (ds_buffer s)"
  using assms
proof (induction "mb_list (ds_buffer s)" arbitrary: st s)
  case Nil
  then show ?case by (intro exI [of _ "[]"] exI [of _ st]) simp
next
  case (Cons m ms)
  obtain st1 s1 where r: "rc_run sid [RcSignal, RcPopMessage, RcDeliver] st = Some (Inr st1)" "receive_inv sid st1"
      "rc_pc st1 = RcSelect" "rc_demux st1 sid = Some s1" "mb_list (ds_buffer s1) = ms" "rc_delivered st1 = rc_delivered st @ [m]"
    using receive_round [OF Cons.prems Cons.hyps(2) [symmetric]] by blast
  obtain cs st' where cs: "length cs = 3 * length ms" "set cs \<subseteq> {RcSignal, RcPopMessage, RcDeliver}"
      "rc_run sid cs st1 = Some (Inr st')" "rc_delivered st' = rc_delivered st1 @ ms"
    using Cons.hyps(1) [OF r(5) [symmetric] r(2-4)] r(5) by auto
  have app: "rc_run sid (ds @ es) x = (case rc_run sid ds x of Some (Inr y) \<Rightarrow> rc_run sid es y | z \<Rightarrow> z)" for ds es x
    by (induction ds arbitrary: x) (auto split: sum.splits)
  have "rc_run sid ([RcSignal, RcPopMessage, RcDeliver] @ cs) st = Some (Inr st')"
    unfolding app using r(1) cs(3) by simp
  moreover have "length ([RcSignal, RcPopMessage, RcDeliver] @ cs) = 3 * length (mb_list (ds_buffer s))"
    "set ([RcSignal, RcPopMessage, RcDeliver] @ cs) \<subseteq> {RcSignal, RcPopMessage, RcDeliver}"
    "rc_delivered st' = rc_delivered st @ mb_list (ds_buffer s)"
    using cs(1,2,4) r(6) by (simp_all flip: Cons.hyps(2))
  ultimately show ?case by blast
qed

section \<open>Delivery\<close>

lemma receive_inv_start:
  assumes "demux_ok d" "d sid = Some s" "mb_list (ds_buffer s) = []" "\<not> ds_chSignal s" "2 \<le> mb_cap (ds_buffer s)"
  shows "receive_inv sid (rc_start d)"
  using assms by (simp add: receive_inv_def rc_start_def)

lemma demux_ok_AddStream:
  assumes "demux_ok d" "d sid = None" "0 < bufferSize"
  shows "\<exists>d' s. demuxer_AddStream fc now now' sid bufferSize maxSize ml bl d = Inr (True, d') \<and> demux_ok d' \<and>
    d' sid = Some s \<and> mb_list (ds_buffer s) = [] \<and> \<not> ds_chSignal s \<and> mb_cap (ds_buffer s) = nat bufferSize"
  using mb_New [OF assms(3), where ?'a = bytes] assms(1,2)
  by (auto simp: demuxer_AddStream_def goT_iff msgbuf_New_eq intro!: demux_ok_update)

text \<open>C29: No message is lost to a missed wakeup. A stream is added to a demultiplexer with a buffer for at
  least two messages. Whatever the connection then does, in whatever order with the receive loop, nothing
  panics, the loop never pops from an empty buffer, and the messages handed to the reader are messages
  pushed for this stream, each once and in order. Whenever the loop waits, it can empty the buffer on its
  own in three steps per message.\<close>

theorem receive_loop_loses_no_wakeup:
  assumes "demux_ok d" "d sid = None" "2 \<le> bufferSize"
    and "demuxer_AddStream fc now now' sid bufferSize maxSize ml bl d = Inr (ok, d')"
    and "rc_run sid cs (rc_start d') = Some r"
  shows "\<exists>st s. ok \<and> r = Inr st \<and> rc_nils st = 0 \<and> subseq (rc_delivered st) (rc_pushed st) \<and>
    rc_demux st sid = Some s \<and>
    (rc_pc st = RcSelect \<longrightarrow>
      (\<exists>es st'. length es = 3 * length (mb_list (ds_buffer s)) \<and> set es \<subseteq> {RcSignal, RcPopMessage, RcDeliver} \<and>
         rc_run sid es st = Some (Inr st') \<and> rc_delivered st' = rc_delivered st @ mb_list (ds_buffer s)))"
proof -
  obtain s0 where s0: "ok" "demux_ok d'" "d' sid = Some s0" "mb_list (ds_buffer s0) = []" "\<not> ds_chSignal s0"
      "mb_cap (ds_buffer s0) = nat bufferSize"
    using demux_ok_AddStream [OF assms(1,2), of bufferSize fc now now' maxSize ml bl] assms(3,4) by auto
  have "receive_inv sid (rc_start d')" using receive_inv_start [OF s0(2-5)] s0(6) assms(3) by simp
  then obtain st where st: "r = Inr st" "receive_inv sid st" using rc_run_inv assms(5) by blast
  then obtain s where s: "rc_demux st sid = Some s" "rc_nils st = 0"
      "subseq (rc_delivered st @ in_hand (rc_pc st) @ mb_list (ds_buffer s)) (rc_pushed st)"
    unfolding receive_inv_def by blast
  have "subseq (rc_delivered st) (rc_delivered st @ in_hand (rc_pc st) @ mb_list (ds_buffer s))"
    by (rule prefix_imp_subseq) simp
  then have "subseq (rc_delivered st) (rc_pushed st)" using s(3) by (rule subseq_order.trans)
  then show ?thesis using st s(1,2) s0(1) receive_drain [OF st(2) _ s(1)] by blast
qed

definition rc_example :: "int \<Rightarrow> receive_case list \<Rightarrow> receive_state go option" where
  "rc_example bufferSize cs =
     (case demuxer_AddStream \<lparr>fc_u64 = \<lambda>x. of_int \<lfloor>x\<rfloor>, fc_u32 = \<lambda>x. of_int \<lfloor>x\<rfloor>, fc_u64_nonfinite = 0\<rparr> 1000 1000 [1] bufferSize 100
             \<lparr>tp_Rate = 2, tp_Capacity = 5\<rparr> \<lparr>tp_Rate = 100, tp_Capacity = 500\<rparr> newDemuxer of
        Inr (True, d) \<Rightarrow> rc_run [1] cs (rc_start d)
      | _ \<Rightarrow> None)"

definition rc_example_cases :: "receive_case list" where
  "rc_example_cases = [RcShouldPush 2000 2000 [1] 1, RcPush [1] [10], RcSignal, RcPush [1] [11], RcPush [1] [12], RcPopMessage, RcDeliver]"

theorem receive_loop_loses_no_wakeup_witness:
  "\<exists>st. rc_example 2 rc_example_cases = Some (Inr st) \<and> rc_nils st = 0 \<and> rc_delivered st = [[11]] \<and> rc_pushed st = [[10], [11], [12]] \<and>
     subseq (rc_delivered st) (rc_pushed st)"
proof -
  have run: "case rc_example 2 rc_example_cases of
      Some (Inr st) \<Rightarrow> rc_delivered st = [[11]] \<and> rc_pushed st = [[10], [11], [12]] | _ \<Rightarrow> False"
    by code_simp
  then obtain st where st: "rc_example 2 rc_example_cases = Some (Inr st)" "rc_delivered st = [[11]]" "rc_pushed st = [[10], [11], [12]]"
    by (auto split: option.splits sum.splits)
  then obtain d' where d': "demuxer_AddStream \<lparr>fc_u64 = \<lambda>x. of_int \<lfloor>x\<rfloor>, fc_u32 = \<lambda>x. of_int \<lfloor>x\<rfloor>, fc_u64_nonfinite = 0\<rparr> 1000 1000 [1] 2 100
             \<lparr>tp_Rate = 2, tp_Capacity = 5\<rparr> \<lparr>tp_Rate = 100, tp_Capacity = 500\<rparr> newDemuxer = Inr (True, d')"
      "rc_run [1] rc_example_cases (rc_start d') = Some (Inr st)"
    unfolding rc_example_def by (auto split: sum.splits prod.splits bool.splits)
  have "demux_ok newDemuxer" "newDemuxer [1] = None" by (simp_all add: demux_ok_def newDemuxer_def)
  from receive_loop_loses_no_wakeup [OF this _ d'] show ?thesis using st by auto
qed

text \<open>With room for one message only the loop does pop nil: a message that arrives between the signal and
  the pop replaces the one announced, and leaves its own signal behind.\<close>

lemma single_message_buffer_pops_nil:
  "case rc_example 1 [RcPush [1] [10], RcSignal, RcPush [1] [11], RcPopMessage, RcDeliver, RcSignal, RcPopMessage] of
     Some (Inr st) \<Rightarrow> rc_nils st = 1 \<and> rc_delivered st = [[11]] | _ \<Rightarrow> False"
  by code_simp

text \<open>A stream without any buffer makes the first message for it panic.\<close>

lemma bufferless_stream_panics:
  "case rc_example 0 [RcPush [1] [10]] of Some (Inl p) \<Rightarrow> p = DivideByZero | _ \<Rightarrow> False"
  by code_simp

end
