(* ===== verification/RageConn.thy ===== *)
theory RageConn
  imports RageDemux
begin

text \<open>
  An authenticated connection of \<open>ragep2p/ragep2p.go\<close>: the write loop turns messages and changes of
  streams into frames, the read loop takes them apart, feeds the demultiplexer and notifies the peer.
\<close>

section \<open>The write loop\<close>

definition MaxStreamsPerPeer :: int where "MaxStreamsPerPeer = 2000"

definition MaxStreamNameLength :: nat where "MaxStreamNameLength = 256"

definition MaxMessageLength :: nat where "MaxMessageLength = 1024 * 1024 * 1024"

datatype stream_notification = StreamStateNotification (ssn_streamID: streamID) (ssn_streamName: bytes) (ssn_open: bool)

datatype write_case = WrData streamID bytes | WrNotification stream_notification

text \<open>The environment says which writes and deadlines fail; \<open>wl_written\<close> is what has been written.\<close>

record write_env =
  we_SetWriteDeadline :: "nat \<Rightarrow> bool"
  we_Write :: "nat \<Rightarrow> bool"

record write_state =
  wl_written :: bytes
  wl_returned :: bool
  wl_chWriteTerminated :: bool
  wl_calls :: nat

definition writeInternal :: "write_env \<Rightarrow> bytes \<Rightarrow> write_state \<Rightarrow> bool \<times> write_state" where
  "writeInternal env buf st =
     (let ok = we_Write env (wl_calls st);
          st = st\<lparr>wl_calls := Suc (wl_calls st)\<rparr>
      in if \<not> ok then (False, st\<lparr>wl_chWriteTerminated := True\<rparr>)
         else (True, st\<lparr>wl_written := wl_written st @ buf\<rparr>))"

definition wl_process :: "write_env \<Rightarrow> write_case \<Rightarrow> write_state \<Rightarrow> write_state" where
  "wl_process env c st =
     (let deadline = we_SetWriteDeadline env (wl_calls st);
          st = st\<lparr>wl_calls := Suc (wl_calls st)\<rparr>
      in if \<not> deadline then st\<lparr>wl_returned := True\<rparr>
         else case c of
           WrData sid data \<Rightarrow>
             let header = \<lparr>fh_Type = frameTypeData, fh_StreamID = sid, fh_PayloadLength = of_nat (length data)\<rparr>;
                 (ok, st) = writeInternal env (frameHeader_Encode header) st
             in if \<not> ok then st\<lparr>wl_returned := True\<rparr>
                else
                  let (ok, st) = writeInternal env data st
                  in if \<not> ok then st\<lparr>wl_returned := True\<rparr> else st
         | WrNotification n \<Rightarrow>
             let streamName = ssn_streamName n;
                 header =
                   (if ssn_open n
                    then \<lparr>fh_Type = frameTypeOpen, fh_StreamID = ssn_streamID n, fh_PayloadLength = of_nat (length streamName)\<rparr>
                    else \<lparr>fh_Type = frameTypeClose, fh_StreamID = ssn_streamID n, fh_PayloadLength = 0\<rparr>);
                 (ok, st) = writeInternal env (frameHeader_Encode header) st
             in if \<not> ok then st\<lparr>wl_returned := True\<rparr>
                else if ssn_open n
                then
                  let (ok, st) = writeInternal env streamName st
                  in if \<not> ok then st\<lparr>wl_returned := True\<rparr> else st
                else st)"

definition wl_start :: write_state where
  "wl_start = \<lparr>wl_written = [], wl_returned = False, wl_chWriteTerminated = False, wl_calls = 0\<rparr>"

definition wl_run :: "write_env \<Rightarrow> write_case list \<Rightarrow> write_state" where
  "wl_run env cs = fold (\<lambda>c st. if wl_returned st then st else wl_process env c st) cs wl_start"

section \<open>The read loop\<close>

text \<open>
  \<open>rl_input\<close> holds the bytes that still arrive before the connection ends; reading beyond them is an
  error. \<open>rl_frames\<close> is a ghost list of the frames read to their end, with what became of data.
  Before each access to the demultiplexer other goroutines may have used it (\<open>re_others\<close>).
\<close>

datatype read_frame_log =
    RdNotification stream_notification
  | RdData streamID bytes shouldPushResult

record read_env =
  re_now :: "nat \<Rightarrow> int"
  re_done :: "nat \<Rightarrow> bool"
  re_others :: "nat \<Rightarrow> demuxer \<Rightarrow> demuxer"

record read_state =
  rl_input :: bytes
  rl_demux :: demuxer
  rl_remoteStreamNameByID :: "streamID \<rightharpoonup> bytes"
  rl_openCloseFramesReceived :: int
  rl_returned :: bool
  rl_calls :: nat
  rl_frames :: "read_frame_log list"

definition readInternal :: "nat \<Rightarrow> read_state \<Rightarrow> (bytes \<times> read_state) option" where
  "readInternal n st =
     (if length (rl_input st) < n then None
      else Some (take n (rl_input st), st\<lparr>rl_input := drop n (rl_input st)\<rparr>))"

definition rl_return :: "read_state \<Rightarrow> read_state" where
  "rl_return st = st\<lparr>rl_returned := True\<rparr>"

definition rl_log :: "read_frame_log \<Rightarrow> read_state \<Rightarrow> read_state" where
  "rl_log f st = st\<lparr>rl_frames := rl_frames st @ [f]\<rparr>"

definition rl_tick :: "read_state \<Rightarrow> read_state" where
  "rl_tick st = st\<lparr>rl_calls := Suc (rl_calls st)\<rparr>"

text \<open>The send to \<open>chOtherStreamStateNotification\<close>, unless the context is done.\<close>

definition rl_notify :: "read_env \<Rightarrow> stream_notification \<Rightarrow> read_state \<Rightarrow> read_state" where
  "rl_notify env n st =
     (let done = re_done env (rl_calls st); st = rl_tick st
      in if done then rl_return st else rl_log (RdNotification n) st)"

definition rl_open :: "read_env \<Rightarrow> frameHeader \<Rightarrow> read_state \<Rightarrow> read_state" where
  "rl_open env header st =
     (let st = st\<lparr>rl_openCloseFramesReceived := rl_openCloseFramesReceived st + 1\<rparr>
      in if fh_PayloadLength header = 0 \<or> unat (fh_PayloadLength header) > MaxStreamNameLength then rl_return st
         else case readInternal (unat (fh_PayloadLength header)) st of
           None \<Rightarrow> rl_return st
         | Some (streamName, st) \<Rightarrow>
             rl_notify env (StreamStateNotification (fh_StreamID header) streamName True)
               (st\<lparr>rl_remoteStreamNameByID := (rl_remoteStreamNameByID st)(fh_StreamID header \<mapsto> streamName)\<rparr>))"

definition rl_close :: "read_env \<Rightarrow> frameHeader \<Rightarrow> read_state \<Rightarrow> read_state" where
  "rl_close env header st =
     (let st = st\<lparr>rl_openCloseFramesReceived := rl_openCloseFramesReceived st + 1\<rparr>
      in if fh_PayloadLength header \<noteq> 0 then rl_return st
         else rl_notify env (StreamStateNotification (fh_StreamID header) [] False)
                (st\<lparr>rl_remoteStreamNameByID := (rl_remoteStreamNameByID st)(fh_StreamID header := None)\<rparr>))"

text \<open>\<open>skipInternal\<close> is \<open>io.Copy\<close> to \<open>io.Discard\<close> of the next bytes, an error if there are fewer.\<close>

definition rl_data :: "read_env \<Rightarrow> frameHeader \<Rightarrow> read_state \<Rightarrow> read_state go" where
  "rl_data env header st =
     (let n = unat (fh_PayloadLength header); sid = fh_StreamID header
      in if MaxMessageLength < n then Inr (rl_return st)
         else
           let d = re_others env (rl_calls st) (rl_demux st);
               (result, d) = ShouldPush (re_now env (rl_calls st)) (re_now env (Suc (rl_calls st))) sid (int n) d;
               st = rl_tick (rl_tick (st\<lparr>rl_demux := d\<rparr>))
           in if result = shouldPushResultMessageTooBig then Inr (rl_return st)
              else case readInternal n st of
                None \<Rightarrow> Inr (rl_return st)
              | Some (data, st) \<Rightarrow>
                  if result \<noteq> shouldPushResultYes then Inr (rl_log (RdData sid data result) st)
                  else
                    bindG (PushMessage sid (Some data) (re_others env (rl_calls st) (rl_demux st))) (\<lambda>(_, d).
                      Inr (rl_log (RdData sid data result) (rl_tick (st\<lparr>rl_demux := d\<rparr>)))))"

definition read_frame :: "read_env \<Rightarrow> read_state \<Rightarrow> read_state go" where
  "read_frame env st =
     (case readInternal frameHeaderEncodedSize st of
        None \<Rightarrow> Inr (rl_return st)
      | Some (rawHeader, st) \<Rightarrow>
          (case decodeFrameHeader rawHeader of
             Inl _ \<Rightarrow> Inr (rl_return st)
           | Inr header \<Rightarrow>
               bindG
                 (if fh_Type header = frameTypeOpen then Inr (rl_open env header st)
                  else if fh_Type header = frameTypeClose then Inr (rl_close env header st)
                  else rl_data env header st)
                 (\<lambda>st.
                   Inr (if rl_openCloseFramesReceived st > 2 * MaxStreamsPerPeer then rl_return st else st))))"

lemma readInternal_input:
  "readInternal n st = Some (bs, st') \<Longrightarrow> st' = st\<lparr>rl_input := drop n (rl_input st)\<rparr> \<and> n \<le> length (rl_input st)"
  by (auto simp: readInternal_def split: if_splits)

lemma read_frame_input:
  assumes "read_frame env st = Inr st'"
  shows "rl_returned st' \<or> length (rl_input st') < length (rl_input st)"
proof (cases "readInternal frameHeaderEncodedSize st")
  case None
  then show ?thesis using assms by (auto simp: read_frame_def rl_return_def)
next
  case (Some r)
  obtain raw st1 where r: "r = (raw, st1)" by (cases r)
  note st1 = readInternal_input [OF Some [unfolded r]]
  have len: "length (rl_input st1) < length (rl_input st)" using st1 by (auto simp: frameHeaderEncodedSize_def)
  have le: "length (rl_input st2) \<le> length (rl_input st1)" if "rl_data env header st1 = Inr st2" for header st2
    using that
    by (auto simp: rl_data_def Let_def rl_return_def rl_log_def rl_tick_def readInternal_def bindG_eq_Inr_iff
        split: prod.splits if_splits option.splits)
  have le2: "length (rl_input (rl_open env header st1)) \<le> length (rl_input st1)"
      "length (rl_input (rl_close env header st1)) \<le> length (rl_input st1)" for header
    by (auto simp: rl_open_def rl_close_def Let_def rl_return_def rl_log_def rl_tick_def rl_notify_def readInternal_def)
  show ?thesis
  proof (cases "decodeFrameHeader raw")
    case (Inl e)
    then show ?thesis using assms Some r by (auto simp: read_frame_def rl_return_def)
  next
    case (Inr header)
    then obtain st2 where st2: "(if fh_Type header = frameTypeOpen then Inr (rl_open env header st1)
         else if fh_Type header = frameTypeClose then Inr (rl_close env header st1) else rl_data env header st1) = Inr st2"
        and st': "st' = (if rl_openCloseFramesReceived st2 > 2 * MaxStreamsPerPeer then rl_return st2 else st2)"
      using assms Some r by (simp add: read_frame_def bindG_eq_Inr_iff) metis
    have "length (rl_input st2) \<le> length (rl_input st1)"
      using st2 le [of header st2] le2 [of header] by (auto split: if_splits)
    then have "length (rl_input st') < length (rl_input st)" using len st' by (auto simp: rl_return_def)
    then show ?thesis ..
  qed
qed

function read_loop :: "read_env \<Rightarrow> read_state \<Rightarrow> read_state go" where
  "read_loop env st = (if rl_returned st then Inr st else bindG (read_frame env st) (\<lambda>st. read_loop env st))"
  by auto
termination
  by (relation "measure (\<lambda>(env, st). if rl_returned st then 0 else Suc (length (rl_input st)))")
    (auto dest: read_frame_input)

declare read_loop.simps [simp del]

definition rl_start :: "demuxer \<Rightarrow> bytes \<Rightarrow> read_state" where
  "rl_start d input =
     \<lparr>rl_input = input, rl_demux = d, rl_remoteStreamNameByID = Map.empty, rl_openCloseFramesReceived = 0,
      rl_returned = False, rl_calls = 0, rl_frames = []\<rparr>"

section \<open>What is written\<close>

fun frame_bytes :: "write_case \<Rightarrow> bytes" where
  "frame_bytes (WrData sid data) =
     frameHeader_Encode \<lparr>fh_Type = frameTypeData, fh_StreamID = sid, fh_PayloadLength = of_nat (length data)\<rparr> @ data"
| "frame_bytes (WrNotification (StreamStateNotification sid name True)) =
     frameHeader_Encode \<lparr>fh_Type = frameTypeOpen, fh_StreamID = sid, fh_PayloadLength = of_nat (length name)\<rparr> @ name"
| "frame_bytes (WrNotification (StreamStateNotification sid name False)) =
     frameHeader_Encode \<lparr>fh_Type = frameTypeClose, fh_StreamID = sid, fh_PayloadLength = 0\<rparr>"

lemma frame_bytes_WrNotification:
  "frame_bytes (WrNotification n) =
     (if ssn_open n
      then frameHeader_Encode \<lparr>fh_Type = frameTypeOpen, fh_StreamID = ssn_streamID n, fh_PayloadLength = of_nat (length (ssn_streamName n))\<rparr> @ ssn_streamName n
      else frameHeader_Encode \<lparr>fh_Type = frameTypeClose, fh_StreamID = ssn_streamID n, fh_PayloadLength = 0\<rparr>)"
  by (cases n; cases "ssn_open n") auto

lemma wl_process_prefix:
  "\<exists>bs. wl_written (wl_process env c st) = wl_written st @ bs \<and> prefix bs (frame_bytes c) \<and>
     (\<not> wl_returned st \<longrightarrow> \<not> wl_returned (wl_process env c st) \<longrightarrow> bs = frame_bytes c)"
  by (cases c) (auto simp: wl_process_def writeInternal_def Let_def frame_bytes_WrNotification)

lemma wl_fold_prefix:
  "\<exists>bs. wl_written (fold (\<lambda>c st. if wl_returned st then st else wl_process env c st) cs st) = wl_written st @ bs \<and>
     prefix bs (concat (map frame_bytes cs))"
proof (induction cs arbitrary: st)
  case (Cons c cs)
  show ?case
  proof (cases "wl_returned st")
    case True
    have "wl_returned st \<Longrightarrow> fold (\<lambda>c st. if wl_returned st then st else wl_process env c st) cs st = st" for cs
      by (induction cs) auto
    then show ?thesis using True by simp
  next
    case False
    obtain bs where bs: "wl_written (wl_process env c st) = wl_written st @ bs" "prefix bs (frame_bytes c)"
        "\<not> wl_returned (wl_process env c st) \<longrightarrow> bs = frame_bytes c"
      using wl_process_prefix [of env c st] False by blast
    obtain bs' where bs': "wl_written (fold (\<lambda>c st. if wl_returned st then st else wl_process env c st) cs (wl_process env c st))
        = wl_written (wl_process env c st) @ bs'" "prefix bs' (concat (map frame_bytes cs))"
      using Cons.IH [of "wl_process env c st"] by blast
    have "bs' = []" if "wl_returned (wl_process env c st)"
    proof -
      have "wl_returned st \<Longrightarrow> fold (\<lambda>c st. if wl_returned st then st else wl_process env c st) cs st = st" for st
        by (induction cs) auto
      from this [OF that] show ?thesis using bs'(1) by simp
    qed
    then have "prefix (bs @ bs') (frame_bytes c @ concat (map frame_bytes cs))"
      using bs(2,3) bs'(2) by (cases "wl_returned (wl_process env c st)") (auto simp: prefix_def)
    then show ?thesis using False bs(1) bs'(1) by (intro exI [of _ "bs @ bs'"]) simp
  qed
qed simp

lemma wl_run_prefix: "prefix (wl_written (wl_run env cs)) (concat (map frame_bytes cs))"
  using wl_fold_prefix [of env cs wl_start] by (auto simp: wl_run_def wl_start_def)

lemma wl_run_complete:
  assumes "\<And>k. we_SetWriteDeadline env k" "\<And>k. we_Write env k"
  shows "wl_written (wl_run env cs) = concat (map frame_bytes cs)"
proof -
  have step: "wl_written (wl_process env c st) = wl_written st @ frame_bytes c \<and> wl_returned (wl_process env c st) = wl_returned st" for c st
    using assms by (cases c) (auto simp: wl_process_def writeInternal_def Let_def frame_bytes_WrNotification)
  have "\<not> wl_returned st \<Longrightarrow>
      wl_written (fold (\<lambda>c st. if wl_returned st then st else wl_process env c st) cs st) = wl_written st @ concat (map frame_bytes cs)" for st
    using step by (induction cs arbitrary: st) auto
  then show ?thesis by (simp add: wl_run_def wl_start_def)
qed

section \<open>What is read\<close>

text \<open>The demultiplexers an oracle may hold: sound buffers and, for each stream, the agreed maximum length.\<close>

definition demux_lim :: "(streamID \<Rightarrow> int) \<Rightarrow> demuxer \<Rightarrow> bool" where
  "demux_lim mx d \<longleftrightarrow> demux_ok d \<and> (\<forall>sid s. d sid = Some s \<longrightarrow> ds_maxMessageSize s = mx sid)"

fun write_ok :: "(streamID \<Rightarrow> int) \<Rightarrow> write_case \<Rightarrow> bool" where
  "write_ok mx (WrData sid data) \<longleftrightarrow> length sid = 32 \<and> length data \<le> MaxMessageLength \<and> int (length data) \<le> mx sid"
| "write_ok mx (WrNotification n) \<longleftrightarrow> length (ssn_streamID n) = 32 \<and>
     (ssn_open n \<longrightarrow> ssn_streamName n \<noteq> [] \<and> length (ssn_streamName n) \<le> MaxStreamNameLength)"

fun sent_content :: "write_case \<Rightarrow> write_case" where
  "sent_content (WrData sid data) = WrData sid data"
| "sent_content (WrNotification n) =
     WrNotification (if ssn_open n then n else StreamStateNotification (ssn_streamID n) [] False)"

fun read_content :: "read_frame_log \<Rightarrow> write_case" where
  "read_content (RdNotification n) = WrNotification n"
| "read_content (RdData sid data _) = WrData sid data"

fun is_notification :: "write_case \<Rightarrow> bool" where
  "is_notification (WrNotification _) = True"
| "is_notification (WrData _ _) = False"

lemma ShouldPush_lim:
  assumes "demux_lim mx d" "ShouldPush now now' sid sz d = (r, d')"
  shows "demux_lim mx d'" "sz \<le> mx sid \<Longrightarrow> r \<noteq> shouldPushResultMessageTooBig"
proof -
  note frame = spec [OF ShouldPush_frame [OF assms(2)]]
  show "demux_lim mx d'" unfolding demux_lim_def demux_ok_def
  proof (intro conjI allI impI)
    fix x s assume "d' x = Some s"
    then show "mb_ok (ds_buffer s)" "ds_maxMessageSize s = mx x"
      using frame [of x] assms(1) by (cases "d x"; auto simp: demux_lim_def demux_ok_def)+
  qed
  show "sz \<le> mx sid \<Longrightarrow> r \<noteq> shouldPushResultMessageTooBig"
    using assms by (auto simp: ShouldPush_def demux_lim_def Let_def split: option.splits if_splits prod.splits)
qed

lemma PushMessage_lim:
  assumes "demux_lim mx d"
  shows "\<exists>r d'. PushMessage sid (Some m) d = Inr (r, d') \<and> demux_lim mx d'"
proof (cases "d sid")
  case None
  then show ?thesis using assms by (simp add: PushMessage_def)
next
  case (Some s)
  then have "mb_ok (ds_buffer s)" "ds_maxMessageSize s = mx sid" using assms by (auto simp: demux_lim_def demux_ok_def)
  then show ?thesis
    using Some assms msgbuf_Push_list [of "ds_buffer s" m]
    by (auto simp: PushMessage_def goT_iff demux_lim_def demux_ok_def)
qed

lemma readInternal_append:
  "length bs = n \<Longrightarrow> rl_input st = bs @ rest \<Longrightarrow> readInternal n st = Some (bs, st\<lparr>rl_input := rest\<rparr>)"
  by (simp add: readInternal_def)

lemma readInternal_short: "length (rl_input st) < n \<Longrightarrow> readInternal n st = None"
  by (simp add: readInternal_def)

lemma read_header:
  assumes "header_ok fh" "rl_input st = frameHeader_Encode fh @ rest"
  shows "read_frame env st =
    bindG (if fh_Type fh = frameTypeOpen then Inr (rl_open env fh (st\<lparr>rl_input := rest\<rparr>))
           else if fh_Type fh = frameTypeClose then Inr (rl_close env fh (st\<lparr>rl_input := rest\<rparr>))
           else rl_data env fh (st\<lparr>rl_input := rest\<rparr>))
      (\<lambda>st. Inr (if rl_openCloseFramesReceived st > 2 * MaxStreamsPerPeer then rl_return st else st))"
proof -
  have "readInternal frameHeaderEncodedSize st = Some (frameHeader_Encode fh, st\<lparr>rl_input := rest\<rparr>)"
    using assms by (intro readInternal_append length_Encode) (simp_all add: header_ok_def)
  then show ?thesis by (simp add: read_frame_def decode_Encode [OF assms(1)])
qed

text \<open>An environment that never cancels, and whose other goroutines respect the agreed lengths.\<close>

definition quiet :: "(streamID \<Rightarrow> int) \<Rightarrow> read_env \<Rightarrow> bool" where
  "quiet mx env \<longleftrightarrow> (\<forall>k. \<not> re_done env k) \<and> (\<forall>k d. demux_lim mx d \<longrightarrow> demux_lim mx (re_others env k d))"

lemma length_payload:
  "n \<le> MaxMessageLength \<Longrightarrow> unat (of_nat n :: u32) = n"
  by (simp add: MaxMessageLength_def unat_of_nat)

text \<open>One frame: what was written is read, whatever follows.\<close>

definition rl_ok :: "(streamID \<Rightarrow> int) \<Rightarrow> int \<Rightarrow> read_state \<Rightarrow> bool" where
  "rl_ok mx k st \<longleftrightarrow> \<not> rl_returned st \<and> demux_lim mx (rl_demux st) \<and> rl_openCloseFramesReceived st = k"

lemma read_notification:
  assumes "rl_ok mx k st" "quiet mx env" "write_ok mx (WrNotification n)" "k < 2 * MaxStreamsPerPeer"
    and "rl_input st = frame_bytes (WrNotification n) @ rest"
  shows "\<exists>st'. read_frame env st = Inr st' \<and> rl_ok mx (k + 1) st' \<and> rl_input st' = rest \<and>
    map read_content (rl_frames st') = map read_content (rl_frames st) @ [sent_content (WrNotification n)]"
proof (cases "ssn_open n")
  case True
  let ?fh = "\<lparr>fh_Type = frameTypeOpen, fh_StreamID = ssn_streamID n, fh_PayloadLength = of_nat (length (ssn_streamName n)) :: u32\<rparr>"
  have len: "unat (of_nat (length (ssn_streamName n)) :: u32) = length (ssn_streamName n)"
    "length (ssn_streamName n) \<noteq> 0" "length (ssn_streamName n) \<le> MaxStreamNameLength"
    using assms(3) True by (auto simp: MaxStreamNameLength_def unat_of_nat)
  then have nz: "(of_nat (length (ssn_streamName n)) :: u32) \<noteq> 0" by (metis unat_0)
  have h: "header_ok ?fh" using assms(3) by (simp add: header_ok_def)
  have inp: "rl_input st = frameHeader_Encode ?fh @ (ssn_streamName n @ rest)"
    using assms(5) True by (simp add: frame_bytes_WrNotification)
  have name: "readInternal (length (ssn_streamName n)) (st\<lparr>rl_input := ssn_streamName n @ rest, rl_openCloseFramesReceived := k + 1\<rparr>)
      = Some (ssn_streamName n, st\<lparr>rl_input := rest, rl_openCloseFramesReceived := k + 1\<rparr>)"
    by (simp add: readInternal_def)
  show ?thesis
    unfolding read_header [OF h inp] using assms(1,2,4) True len nz name
    by (cases n) (simp add: rl_open_def rl_notify_def rl_log_def rl_tick_def rl_ok_def quiet_def Let_def)
next
  case False
  let ?fh = "\<lparr>fh_Type = frameTypeClose, fh_StreamID = ssn_streamID n, fh_PayloadLength = 0 :: u32\<rparr>"
  have h: "header_ok ?fh" using assms(3) by (simp add: header_ok_def)
  have inp: "rl_input st = frameHeader_Encode ?fh @ rest"
    using assms(5) False by (simp add: frame_bytes_WrNotification)
  show ?thesis
    unfolding read_header [OF h inp] using assms(1,2,4) False
    by (cases n) (simp add: rl_close_def rl_notify_def rl_log_def rl_tick_def rl_ok_def quiet_def Let_def
        frameTypeOpen_def frameTypeClose_def)
qed

lemma read_data:
  assumes "rl_ok mx k st" "quiet mx env" "write_ok mx (WrData sid data)" "k \<le> 2 * MaxStreamsPerPeer"
    and "rl_input st = frame_bytes (WrData sid data) @ rest"
  shows "\<exists>st'. read_frame env st = Inr st' \<and> rl_ok mx k st' \<and> rl_input st' = rest \<and>
    map read_content (rl_frames st') = map read_content (rl_frames st) @ [WrData sid data]"
proof -
  let ?fh = "\<lparr>fh_Type = frameTypeData, fh_StreamID = sid, fh_PayloadLength = of_nat (length data) :: u32\<rparr>"
  have len: "unat (of_nat (length data) :: u32) = length data" using assms(3) by (simp add: length_payload)
  have h: "header_ok ?fh" using assms(3) by (simp add: header_ok_def)
  have inp: "rl_input st = frameHeader_Encode ?fh @ (data @ rest)" using assms(5) by simp
  let ?d = "re_others env (rl_calls st) (rl_demux st)"
  obtain r d where sp: "ShouldPush (re_now env (rl_calls st)) (re_now env (Suc (rl_calls st))) sid (int (length data)) ?d = (r, d)"
    by (cases "ShouldPush (re_now env (rl_calls st)) (re_now env (Suc (rl_calls st))) sid (int (length data)) ?d")
  have "demux_lim mx ?d" using assms(1,2) by (simp add: rl_ok_def quiet_def)
  then have d: "demux_lim mx d" "r \<noteq> shouldPushResultMessageTooBig" using ShouldPush_lim [OF _ sp] assms(3) by auto
  define st1 where "st1 = rl_tick (rl_tick (st\<lparr>rl_input := rest, rl_demux := d\<rparr>))"
  have st1: "readInternal (length data) (rl_tick (rl_tick (st\<lparr>rl_input := data @ rest, rl_demux := d\<rparr>))) = Some (data, st1)"
    by (simp add: readInternal_def st1_def rl_tick_def)
  have "demux_lim mx (re_others env (rl_calls st1) (rl_demux st1))"
    using assms(2) d(1) by (simp add: quiet_def st1_def rl_tick_def)
  then obtain pr d2 where push: "PushMessage sid (Some data) (re_others env (rl_calls st1) (rl_demux st1)) = Inr (pr, d2)"
      "demux_lim mx d2"
    using PushMessage_lim by blast
  have "rl_data env ?fh (st\<lparr>rl_input := data @ rest\<rparr>) =
      (if r \<noteq> shouldPushResultYes then Inr (rl_log (RdData sid data r) st1)
       else Inr (rl_log (RdData sid data r) (rl_tick (st1\<lparr>rl_demux := d2\<rparr>))))"
    using assms(3) len sp d(2) st1 push(1) by (simp add: rl_data_def Let_def)
  then show ?thesis
    unfolding read_header [OF h inp] using assms(1,4) d(1) push(2)
    by (auto simp: frameTypeOpen_def frameTypeClose_def frameTypeData_def rl_log_def rl_tick_def rl_ok_def st1_def)
qed

text \<open>A frame that is cut off ends the loop and leaves no trace.\<close>

lemma read_cut_off:
  assumes "rl_ok mx k st" "quiet mx env" "write_ok mx c" "k \<le> 2 * MaxStreamsPerPeer"
    and "strict_prefix (rl_input st) (frame_bytes c)"
  shows "\<exists>st'. read_frame env st = Inr st' \<and> rl_returned st' \<and> rl_frames st' = rl_frames st"
proof (cases "length (rl_input st) < frameHeaderEncodedSize")
  case True
  then show ?thesis by (simp add: read_frame_def readInternal_short rl_return_def)
next
  case False
  obtain fh payload where c: "frame_bytes c = frameHeader_Encode fh @ payload" "header_ok fh" "fh_PayloadLength fh = of_nat (length payload)"
      "fh_Type fh = frameTypeClose \<longrightarrow> payload = []" "length payload \<le> MaxMessageLength"
      "fh_Type fh = frameTypeData \<longrightarrow> int (length payload) \<le> mx (fh_StreamID fh)"
      "fh_Type fh = frameTypeOpen \<longrightarrow> payload \<noteq> [] \<and> length payload \<le> MaxStreamNameLength"
  proof (cases c)
    case (WrData sid data)
    then show ?thesis using that [of "\<lparr>fh_Type = frameTypeData, fh_StreamID = sid, fh_PayloadLength = of_nat (length data)\<rparr>" data] assms(3)
      by (simp add: header_ok_def frameTypeClose_def frameTypeData_def frameTypeOpen_def)
  next
    case (WrNotification n)
    show ?thesis
    proof (cases "ssn_open n")
      case True
      then show ?thesis
        using that [of "\<lparr>fh_Type = frameTypeOpen, fh_StreamID = ssn_streamID n, fh_PayloadLength = of_nat (length (ssn_streamName n))\<rparr>" "ssn_streamName n"]
          assms(3) WrNotification
        by (simp add: header_ok_def frame_bytes_WrNotification frameTypeClose_def frameTypeData_def frameTypeOpen_def MaxStreamNameLength_def MaxMessageLength_def)
    next
      case False
      then show ?thesis
        using that [of "\<lparr>fh_Type = frameTypeClose, fh_StreamID = ssn_streamID n, fh_PayloadLength = 0\<rparr>" "[]"] assms(3) WrNotification
        by (simp add: header_ok_def frame_bytes_WrNotification frameTypeClose_def frameTypeData_def frameTypeOpen_def)
    qed
  qed
  have hl: "length (frameHeader_Encode fh) = frameHeaderEncodedSize" using c(2) by (simp add: length_Encode header_ok_def)
  obtain rest where rest: "rl_input st = frameHeader_Encode fh @ rest" "strict_prefix rest payload"
  proof -
    obtain zs where zs: "frame_bytes c = rl_input st @ zs" "zs \<noteq> []"
      using assms(5) by (auto simp: strict_prefix_def prefix_def)
    have "rl_input st = take frameHeaderEncodedSize (rl_input st) @ drop frameHeaderEncodedSize (rl_input st)" by simp
    moreover have "take frameHeaderEncodedSize (rl_input st) = frameHeader_Encode fh"
      using zs(1) c(1) hl False by (metis append_eq_conv_conj append_eq_append_conv_if not_le)
    ultimately have "rl_input st = frameHeader_Encode fh @ drop frameHeaderEncodedSize (rl_input st)" by simp
    moreover then have "payload = drop frameHeaderEncodedSize (rl_input st) @ zs" using zs(1) c(1) by (metis append_assoc same_append_eq)
    ultimately show ?thesis using that [of "drop frameHeaderEncodedSize (rl_input st)"] zs(2)
      by (metis append_self_conv prefixI strict_prefix_def)
  qed
  have len: "unat (fh_PayloadLength fh) = length payload" using c(3,5) by (simp add: length_payload)
  have short: "length rest < length payload" using rest(2) by (rule prefix_length_less)
  then have nz: "fh_PayloadLength fh \<noteq> 0" using len by (metis not_less_zero unat_0)
  have cut: "readInternal (length payload) st' = None" if "rl_input st' = rest" for st'
    using that short by (simp add: readInternal_short)
  consider "fh_Type fh = frameTypeOpen" | "fh_Type fh = frameTypeData" "fh_Type fh \<noteq> frameTypeOpen" "fh_Type fh \<noteq> frameTypeClose"
    using c(2,4) short by (auto simp: header_ok_def frameTypeOpen_def frameTypeClose_def frameTypeData_def)
  then show ?thesis
  proof cases
    case 1
    then show ?thesis
      unfolding read_header [OF c(2) rest(1)] using nz len c(7) cut by (simp add: rl_open_def rl_return_def Let_def)
  next
    case 2
    let ?d = "re_others env (rl_calls st) (rl_demux st)"
    obtain r d where sp: "ShouldPush (re_now env (rl_calls st)) (re_now env (Suc (rl_calls st))) (fh_StreamID fh) (int (length payload)) ?d = (r, d)"
      by (cases "ShouldPush (re_now env (rl_calls st)) (re_now env (Suc (rl_calls st))) (fh_StreamID fh) (int (length payload)) ?d")
    show ?thesis
      unfolding read_header [OF c(2) rest(1)] using 2 nz len c(5) cut sp
      by (simp add: rl_data_def rl_return_def rl_tick_def Let_def)
  qed
qed

lemma read_loop_frames:
  assumes "rl_ok mx k st" "quiet mx env" "\<forall>c \<in> set cs. write_ok mx c"
    and "k + int (length (filter is_notification cs)) \<le> 2 * MaxStreamsPerPeer"
    and "prefix (rl_input st) (concat (map frame_bytes cs))"
  shows "\<exists>st' n. read_loop env st = Inr st' \<and>
    map read_content (rl_frames st') = map read_content (rl_frames st) @ map sent_content (take n cs) \<and>
    (rl_input st = concat (map frame_bytes cs) \<longrightarrow> length cs \<le> n)"
  using assms
proof (induction cs arbitrary: k st)
  case Nil
  then have "rl_input st = []" by simp
  then have "read_frame env st = Inr (rl_return st)"
    by (simp add: read_frame_def readInternal_def frameHeaderEncodedSize_def)
  then have "read_loop env st = Inr (rl_return st)"
    using Nil.prems(1) unfolding read_loop.simps [of env st] by (simp add: read_loop.simps [of env "rl_return st"] rl_ok_def) (simp add: rl_return_def)
  then show ?case by (simp add: rl_return_def)
next
  case (Cons c cs)
  have run: "\<not> rl_returned st" using Cons.prems(1) by (simp add: rl_ok_def)
  have k: "k \<le> 2 * MaxStreamsPerPeer" "is_notification c \<Longrightarrow> k < 2 * MaxStreamsPerPeer"
    using Cons.prems(4) by (auto split: if_splits)
  have wc: "write_ok mx c" using Cons.prems(3) by simp
  show ?case
  proof (cases "strict_prefix (rl_input st) (frame_bytes c)")
    case True
    obtain st' where st': "read_frame env st = Inr st'" "rl_returned st'" "rl_frames st' = rl_frames st"
      using read_cut_off [OF Cons.prems(1,2) wc k(1) True] by blast
    have "read_loop env st = Inr st'"
      using run st'(1,2) by (simp add: read_loop.simps [of env st] read_loop.simps [of env st'])
    moreover have "rl_input st \<noteq> concat (map frame_bytes (c # cs))"
      using True by (metis concat.simps(2) list.simps(9) prefixI prefix_order.less_le_not_le)
    ultimately show ?thesis using st'(3) by (intro exI [of _ st'] exI [of _ 0]) simp
  next
    case False
    then obtain rest where rest: "rl_input st = frame_bytes c @ rest" "prefix rest (concat (map frame_bytes cs))"
      using Cons.prems(5) by (auto simp: prefix_append strict_prefix_def)
    have "\<exists>k' st'. k' \<le> k + int (length (filter is_notification [c])) \<and> read_frame env st = Inr st' \<and> rl_ok mx k' st' \<and>
        rl_input st' = rest \<and> map read_content (rl_frames st') = map read_content (rl_frames st) @ [sent_content c]"
    proof (cases c)
      case (WrData sid data)
      then show ?thesis using read_data [OF Cons.prems(1,2) _ k(1)] wc rest(1) by (intro exI [of _ k]) simp
    next
      case (WrNotification n)
      then show ?thesis using read_notification [OF Cons.prems(1,2)] k(2) wc rest(1) by (intro exI [of _ "k + 1"]) simp
    qed
    then obtain k' st1 where st1: "k' \<le> k + int (length (filter is_notification [c]))" "read_frame env st = Inr st1"
        "rl_ok mx k' st1" "rl_input st1 = rest"
        "map read_content (rl_frames st1) = map read_content (rl_frames st) @ [sent_content c]" by blast
    have "k' + int (length (filter is_notification cs)) \<le> 2 * MaxStreamsPerPeer"
      using st1(1) Cons.prems(4) by (auto split: if_splits)
    then obtain st' n where st': "read_loop env st1 = Inr st'"
        "map read_content (rl_frames st') = map read_content (rl_frames st1) @ map sent_content (take n cs)"
        "rl_input st1 = concat (map frame_bytes cs) \<longrightarrow> length cs \<le> n"
      using Cons.IH [OF st1(3) Cons.prems(2)] Cons.prems(3) rest(2) st1(4) by auto
    have "read_loop env st = Inr st'" using run st1(2) st'(1) by (simp add: read_loop.simps [of env st])
    then show ?thesis using st' st1(4,5) rest(1) by (intro exI [of _ st'] exI [of _ "Suc n"]) simp
  qed
qed

section \<open>The connection\<close>

text \<open>C18: What one end of a connection writes, the other end reads. The reader gets the messages and the
  notifications in order, each exactly as it was sent (a closing notification without the name); when
  writing fails at some point or the connection is cut anywhere, even within a frame, it gets a beginning
  of them and nothing else. This needs messages within the agreed length and stream names that are not
  empty, and no more notifications than twice the streams a peer may have; the read loop never panics.\<close>

theorem connection_frames_roundtrip:
  assumes "demux_lim mx d" "quiet mx renv" "\<forall>c \<in> set cs. write_ok mx c"
    and "int (length (filter is_notification cs)) \<le> 2 * MaxStreamsPerPeer"
    and "prefix received (wl_written (wl_run wenv cs))"
  shows "\<exists>st. read_loop renv (rl_start d received) = Inr st \<and>
    prefix (map read_content (rl_frames st)) (map sent_content cs) \<and>
    ((\<forall>k. we_SetWriteDeadline wenv k) \<and> (\<forall>k. we_Write wenv k) \<and> received = wl_written (wl_run wenv cs) \<longrightarrow>
      map read_content (rl_frames st) = map sent_content cs)"
proof -
  have start: "rl_ok mx 0 (rl_start d received)" using assms(1) by (simp add: rl_ok_def rl_start_def)
  have inp: "prefix (rl_input (rl_start d received)) (concat (map frame_bytes cs))"
    using prefix_order.trans [OF assms(5) wl_run_prefix] by (simp add: rl_start_def)
  obtain st n where st: "read_loop renv (rl_start d received) = Inr st"
      "map read_content (rl_frames st) = map sent_content (take n cs)"
      "received = concat (map frame_bytes cs) \<longrightarrow> length cs \<le> n"
    using read_loop_frames [OF start assms(2,3) _ inp] assms(4) by (auto simp: rl_start_def)
  have "prefix (map read_content (rl_frames st)) (map sent_content cs)"
    unfolding st(2) by (rule map_mono_prefix) (rule take_is_prefix)
  moreover have "map read_content (rl_frames st) = map sent_content cs"
    if "\<forall>k. we_SetWriteDeadline wenv k" "\<forall>k. we_Write wenv k" "received = wl_written (wl_run wenv cs)"
    using st(2,3) that wl_run_complete [of wenv cs] by simp
  ultimately show ?thesis using st(1) by blast
qed

definition conn_ex_renv :: read_env where
  "conn_ex_renv = \<lparr>re_now = \<lambda>_. 0, re_done = \<lambda>_. False, re_others = \<lambda>_ d. d\<rparr>"

definition conn_ex_wenv :: write_env where
  "conn_ex_wenv = \<lparr>we_SetWriteDeadline = \<lambda>_. True, we_Write = \<lambda>_. True\<rparr>"

definition conn_ex_cases :: "write_case list" where
  "conn_ex_cases = [WrNotification (StreamStateNotification (replicate 32 7) [65] True), WrData (replicate 32 7) [1, 2, 3],
     WrNotification (StreamStateNotification (replicate 32 7) [65] False)]"

theorem connection_frames_roundtrip_witness:
  "\<exists>st. read_loop conn_ex_renv (rl_start newDemuxer (wl_written (wl_run conn_ex_wenv conn_ex_cases))) = Inr st \<and>
     map read_content (rl_frames st) =
       [WrNotification (StreamStateNotification (replicate 32 7) [65] True), WrData (replicate 32 7) [1, 2, 3],
        WrNotification (StreamStateNotification (replicate 32 7) [] False)]"
proof -
  have "demux_lim (\<lambda>_. 10) newDemuxer" by (simp add: demux_lim_def demux_ok_def newDemuxer_def)
  moreover have "quiet (\<lambda>_. 10) conn_ex_renv" by (simp add: quiet_def conn_ex_renv_def)
  moreover have "\<forall>c \<in> set conn_ex_cases. write_ok (\<lambda>_. 10) c"
    by (simp add: conn_ex_cases_def MaxStreamNameLength_def MaxMessageLength_def)
  moreover have "int (length (filter is_notification conn_ex_cases)) \<le> 2 * MaxStreamsPerPeer"
    by (simp add: conn_ex_cases_def MaxStreamsPerPeer_def)
  ultimately obtain st where "read_loop conn_ex_renv (rl_start newDemuxer (wl_written (wl_run conn_ex_wenv conn_ex_cases))) = Inr st"
      "(\<forall>k. we_SetWriteDeadline conn_ex_wenv k) \<and> (\<forall>k. we_Write conn_ex_wenv k) \<longrightarrow>
       map read_content (rl_frames st) = map sent_content conn_ex_cases"
    using connection_frames_roundtrip [of "\<lambda>_. 10" newDemuxer conn_ex_renv conn_ex_cases _ conn_ex_wenv] by blast
  then show ?thesis by (simp add: conn_ex_wenv_def conn_ex_cases_def)
qed

text \<open>A stream with the empty name, which \<open>NewStream\<close> accepts, makes the reader end the connection.\<close>

lemma empty_stream_name_ends_connection:
  "case read_loop conn_ex_renv (rl_start newDemuxer (wl_written (wl_run conn_ex_wenv
       [WrNotification (StreamStateNotification (replicate 32 7) [] True), WrData (replicate 32 8) [1]]))) of
     Inr st \<Rightarrow> rl_frames st = [] | Inl p \<Rightarrow> False"
  by code_simp

text \<open>A failure to set a deadline ends the write loop without telling the connection, which stays up.\<close>

lemma failed_deadline_is_not_announced:
  "let st = wl_run \<lparr>we_SetWriteDeadline = \<lambda>_. False, we_Write = \<lambda>_. True\<rparr> [WrData (replicate 32 8) [1]]
   in wl_returned st \<and> \<not> wl_chWriteTerminated st"
  by code_simp

end
