(* ===== verification/RageLimiter.thy ===== *)
theory RageLimiter
  imports RageConn
begin

text \<open>
  The rate limiter of a connection (\<open>ragep2p/conn_rate_limiter.go\<close>): its rate and capacity are the sums
  of what the streams of the peer may use, with the overhead of frames and TLS. It limits what is read
  from the connection (\<open>ragep2p/internal/ratelimitedconn\<close>).
\<close>

section \<open>Operations\<close>

definition newConnTokens :: u32 where
  "newConnTokens = of_int MaxStreamsPerPeer * of_nat (frameHeaderEncodedSize + MaxStreamNameLength)"

text \<open>The constant expression is exact until it becomes a \<open>float64\<close>.\<close>

definition controlRate :: rat where
  "controlRate = fl (of_int MaxStreamsPerPeer / (10 * 60) * of_nat (frameHeaderEncodedSize + MaxStreamNameLength))"

definition tlsFactor :: rat where "tlsFactor = 3 / 2"

record connRateLimiter =
  crl_limiter :: TokenBucket
  crl_infiniteRate :: bool

definition newConnRateLimiter :: connRateLimiter where
  "newConnRateLimiter = \<lparr>crl_limiter = zero_TokenBucket, crl_infiniteRate = False\<rparr>"

definition crl_Allow :: "int \<Rightarrow> int \<Rightarrow> connRateLimiter \<Rightarrow> bool \<times> connRateLimiter" where
  "crl_Allow now n crl =
     (if crl_infiniteRate crl then (True, crl)
      else if uint (of_int n :: u64) \<le> 2 ^ 32 - 1
      then (let (ok, tb) = removeTokens now (of_int n) (crl_limiter crl) in (ok, crl\<lparr>crl_limiter := tb\<rparr>))
      else (False, crl))"

definition crl_AddTokens :: "u32 \<Rightarrow> connRateLimiter \<Rightarrow> connRateLimiter" where
  "crl_AddTokens n crl = crl\<lparr>crl_limiter := tb_AddTokens n (crl_limiter crl)\<rparr>"

type_synonym stream_limits = "TokenBucketParams \<times> TokenBucketParams"

definition delta :: "float_conv \<Rightarrow> stream_limits \<Rightarrow> u64 \<times> u32 \<times> bool" where
  "delta fc limits =
     (let (messagesLimit, bytesLimit) = limits;
          deltaRateF = fl (tp_Rate messagesLimit * of_nat frameHeaderEncodedSize);
          deltaRateF = fl (deltaRateF + tp_Rate bytesLimit);
          deltaRateF = fl (deltaRateF * tlsFactor);
          deltaRateF = of_int \<lceil>fl (deltaRateF * 1000)\<rceil>;
          deltaRate = fc_u64 fc deltaRateF;
          deltaCapacityF = fl (of_int (uint (tp_Capacity messagesLimit)) * of_nat frameHeaderEncodedSize);
          deltaCapacityF = fl (deltaCapacityF + of_int (uint (tp_Capacity bytesLimit)));
          deltaCapacityF = fl (deltaCapacityF * tlsFactor);
          deltaCapacityF = of_int \<lceil>deltaCapacityF\<rceil>;
          deltaCapacity = fc_u32 fc deltaCapacityF
      in (deltaRate, deltaCapacity,
          fl (of_int (uint deltaRate)) = deltaRateF \<and> (of_int (uint deltaCapacity) :: rat) = deltaCapacityF))"

definition addRemoveStream :: "float_conv \<Rightarrow> int \<Rightarrow> bool \<Rightarrow> stream_limits \<Rightarrow> connRateLimiter \<Rightarrow> connRateLimiter" where
  "addRemoveStream fc now add limits crl =
     (if crl_infiniteRate crl then crl
      else
        let (deltaRate, deltaCapacity, ok) = delta fc limits
        in if \<not> ok then crl\<lparr>crl_infiniteRate := True\<rparr>
           else
             let (deltaRate, deltaCapacity) = (if \<not> add then (- deltaRate, - deltaCapacity) else (deltaRate, deltaCapacity));
                 oldRate = tb_rate (crl_limiter crl);
                 newRate = oldRate + deltaRate;
                 oldCapacity = tb_capacity (crl_limiter crl);
                 newCapacity = oldCapacity + deltaCapacity
             in if add \<and> (newRate < oldRate \<or> newCapacity < oldCapacity) then crl\<lparr>crl_infiniteRate := True\<rparr>
                else if \<not> add \<and> (newRate > oldRate \<or> newCapacity > oldCapacity) then crl\<lparr>crl_infiniteRate := True\<rparr>
                else crl\<lparr>crl_limiter := tb_SetCapacity newCapacity (setRate now newRate (crl_limiter crl))\<rparr>)"

definition crl_AddStream :: "float_conv \<Rightarrow> int \<Rightarrow> stream_limits \<Rightarrow> connRateLimiter \<Rightarrow> connRateLimiter" where
  "crl_AddStream fc now limits crl = addRemoveStream fc now True limits crl"

definition crl_RemoveStream :: "float_conv \<Rightarrow> int \<Rightarrow> stream_limits \<Rightarrow> connRateLimiter \<Rightarrow> connRateLimiter" where
  "crl_RemoveStream fc now limits crl = addRemoveStream fc now False limits crl"

text \<open>\<open>RateLimitedConn.Read\<close>: the connection answers with a number of bytes and perhaps an error; when
  they exceed the limit it is closed and the bytes are withheld.\<close>

record RateLimitedConn =
  rlc_rateLimitingEnabled :: bool
  rlc_bandwidthLimiter :: connRateLimiter
  rlc_closed :: bool

definition RateLimitedConn_Read :: "int \<Rightarrow> int \<times> 'e option \<Rightarrow> RateLimitedConn \<Rightarrow> (int \<times> 'e option + unit) \<times> RateLimitedConn" where
  "RateLimitedConn_Read now result r =
     (let (n, err) = result
      in if \<not> rlc_rateLimitingEnabled r then (Inl (n, err), r)
         else
           let (nBytesAllowed, crl) = crl_Allow now n (rlc_bandwidthLimiter r);
               r = r\<lparr>rlc_bandwidthLimiter := crl\<rparr>
           in if nBytesAllowed then (Inl (n, err), r)
              else (Inr (), r\<lparr>rlc_closed := True\<rparr>))"

definition EnableRateLimiting :: "RateLimitedConn \<Rightarrow> RateLimitedConn" where
  "EnableRateLimiting r = r\<lparr>rlc_rateLimitingEnabled := True\<rparr>"

text \<open>\<open>incomingConnsRateLimit\<close>: two dials per interval, but at least one in two seconds.\<close>

definition incomingConnsRateLimit :: "float_conv \<Rightarrow> u64 \<Rightarrow> u64" where
  "incomingConnsRateLimit fc durationBetweenDials =
     (let result =
            (case f64_div 2 (Duration_Seconds durationBetweenDials) of
               F64 x \<Rightarrow> fc_u64 fc (fl (x * 1000))
             | _ \<Rightarrow> fc_u64_nonfinite fc)
      in if result < 500 then 500 else result)"

section \<open>The sum of the streams\<close>

definition stream_rate :: "float_conv \<Rightarrow> stream_limits \<Rightarrow> int" where
  "stream_rate fc l = uint (fst (delta fc l))"

definition stream_capacity :: "float_conv \<Rightarrow> stream_limits \<Rightarrow> int" where
  "stream_capacity fc l = uint (fst (snd (delta fc l)))"

definition stream_valid :: "float_conv \<Rightarrow> stream_limits \<Rightarrow> bool" where
  "stream_valid fc l = snd (snd (delta fc l))"

text \<open>Unless the limiter has given up on limiting, it has the rate and capacity of its streams together.\<close>

definition crl_sums :: "float_conv \<Rightarrow> stream_limits multiset \<Rightarrow> connRateLimiter \<Rightarrow> bool" where
  "crl_sums fc active crl \<longleftrightarrow> crl_infiniteRate crl \<or>
     ((\<forall>l \<in># active. stream_valid fc l) \<and>
      uint (tb_rate (crl_limiter crl)) = (\<Sum>l \<in># active. stream_rate fc l) \<and>
      uint (tb_capacity (crl_limiter crl)) = (\<Sum>l \<in># active. stream_capacity fc l))"

lemma word_add_overflow:
  fixes x y :: "'a :: len word"
  shows "\<not> x + y < x \<Longrightarrow> uint (x + y) = uint x + uint y"
  by (metis no_olen_add_nat not_le uint_add_lem uint_nat of_nat_add no_olen_add)

lemma crl_sums_Add:
  assumes "crl_sums fc active crl"
  shows "crl_sums fc (add_mset l active) (crl_AddStream fc now l crl)"
proof (cases "crl_infiniteRate crl")
  case True
  then show ?thesis by (simp add: crl_sums_def crl_AddStream_def addRemoveStream_def)
next
  case False
  obtain dr dc ok where d: "delta fc l = (dr, dc, ok)" by (metis prod_cases3)
  show ?thesis
    using assms False word_add_overflow [of "tb_rate (crl_limiter crl)" dr] word_add_overflow [of "tb_capacity (crl_limiter crl)" dc]
    by (auto simp: crl_sums_def crl_AddStream_def addRemoveStream_def d Let_def stream_valid_def stream_rate_def
        stream_capacity_def setRate_def tb_SetCapacity_def)
qed

lemma word_sub_no_underflow:
  fixes x y :: "'a :: len word"
  assumes "uint y \<le> uint x"
  shows "uint (x - y) = uint x - uint y" "\<not> x < x - y"
proof -
  show "uint (x - y) = uint x - uint y" using assms by (simp add: uint_sub_lem)
  then show "\<not> x < x - y" by (simp add: word_less_alt)
qed

lemma crl_sums_Remove:
  assumes "crl_sums fc active crl" "l \<in># active"
  shows "crl_sums fc (active - {#l#}) (crl_RemoveStream fc now l crl) \<and>
    crl_infiniteRate (crl_RemoveStream fc now l crl) = crl_infiniteRate crl"
proof (cases "crl_infiniteRate crl")
  case True
  then show ?thesis by (simp add: crl_sums_def crl_RemoveStream_def addRemoveStream_def)
next
  case False
  obtain dr dc ok where d: "delta fc l = (dr, dc, ok)" by (metis prod_cases3)
  obtain rest where rest: "active = add_mset l rest" using assms(2) by (metis insert_DiffM)
  have sums: "ok" "uint (tb_rate (crl_limiter crl)) = uint dr + (\<Sum>l \<in># rest. stream_rate fc l)"
      "uint (tb_capacity (crl_limiter crl)) = uint dc + (\<Sum>l \<in># rest. stream_capacity fc l)"
      "\<forall>l \<in># rest. stream_valid fc l"
    using assms(1) False unfolding rest by (simp_all add: crl_sums_def stream_valid_def stream_rate_def stream_capacity_def d)
  have nonneg: "0 \<le> (\<Sum>l \<in># rest. stream_rate fc l)" "0 \<le> (\<Sum>l \<in># rest. stream_capacity fc l)"
    by (induction rest) (simp_all add: stream_rate_def stream_capacity_def)
  have "uint dr \<le> uint (tb_rate (crl_limiter crl))" "uint dc \<le> uint (tb_capacity (crl_limiter crl))"
    using sums(2,3) nonneg by linarith+
  note sub = word_sub_no_underflow [OF this(1)] word_sub_no_underflow [OF this(2)]
  show ?thesis
    using False sums sub
    by (simp add: crl_sums_def crl_RemoveStream_def addRemoveStream_def d rest setRate_def tb_SetCapacity_def)
qed

lemma crl_sums_AddTokens: "crl_sums fc active crl \<Longrightarrow> crl_sums fc active (crl_AddTokens n crl)"
  by (simp add: crl_sums_def crl_AddTokens_def tb_AddTokens_def Let_def)

lemma crl_sums_Allow: "crl_sums fc active crl \<Longrightarrow> crl_sums fc active (snd (crl_Allow now n crl))"
  by (auto simp: crl_sums_def crl_Allow_def removeTokens_exact Let_def)

lemma crl_sums_new: "crl_sums fc {#} newConnRateLimiter"
  by (simp add: crl_sums_def newConnRateLimiter_def zero_TokenBucket_def)

lemma Read_within_limit:
  assumes "rlc_rateLimitingEnabled r" "\<not> crl_infiniteRate (rlc_bandwidthLimiter r)" "0 \<le> n" "n < 2 ^ 32"
  shows "fst (RateLimitedConn_Read now (n, err) r) = Inl (n, err) \<longleftrightarrow>
    n * 1000000000 \<le> ideal_tokens now (crl_limiter (rlc_bandwidthLimiter r))"
proof -
  have "uint (of_int n :: u64) = n" "uint (of_int n :: u32) = n"
    using assms(3,4) by (simp_all add: uint_word_of_int mod_pos_pos_trivial)
  then show ?thesis
    using assms by (simp add: RateLimitedConn_Read_def crl_Allow_def removeTokens_exact Let_def)
qed

end
