(* ===== verification/RagePeer.thy ===== *)
theory RagePeer
  imports RageLimiter
begin

text \<open>
  The goroutines between connections and streams in \<open>ragep2p/ragep2p.go\<close>: \<open>peerLoop\<close>, which keeps the
  streams shared with a peer, and \<open>Stream.sendLoop\<close>, which queues outgoing messages while its stream
  is switched off.
\<close>

section \<open>The send loop of a stream\<close>

text \<open>\<open>sl_toConn\<close>: whether \<open>chStreamToPeerOrNil\<close> is not nil; \<open>sl_sent\<close> is a ghost list.\<close>

record send_state =
  sl_ringBuffer :: msgbuf
  sl_pending :: "bytes option"
  sl_pendingFilled :: bool
  sl_onOff :: bool
  sl_toConn :: bool
  sl_sent :: "bytes option list"

datatype send_case = SlOnOff bool | SlSend "bytes option" | SlToConn

definition sl_start :: "int \<Rightarrow> send_state go" where
  "sl_start outgoingBufferSize =
     bindG (msgbuf_New outgoingBufferSize) (\<lambda>b.
       Inr \<lparr>sl_ringBuffer = b, sl_pending = None, sl_pendingFilled = False, sl_onOff = False, sl_toConn = False, sl_sent = []\<rparr>)"

fun sl_ready :: "send_state \<Rightarrow> send_case \<Rightarrow> bool" where
  "sl_ready st SlToConn = sl_toConn st"
| "sl_ready st _ = True"

fun sl_process :: "send_case \<Rightarrow> send_state \<Rightarrow> send_state go" where
  "sl_process (SlOnOff onOff) st =
     (let st = st\<lparr>sl_onOff := onOff\<rparr>
      in Inr (if onOff
              then (if sl_pendingFilled st then st\<lparr>sl_toConn := True\<rparr> else st)
              else st\<lparr>sl_toConn := False\<rparr>))"
| "sl_process (SlSend msg) st =
     bindG (msgbuf_Push msg (sl_ringBuffer st)) (\<lambda>(dropped, b).
       let st = st\<lparr>sl_ringBuffer := b\<rparr>
       in if dropped \<noteq> None \<or> \<not> sl_pendingFilled st
          then bindG (msgbuf_Peek b) (\<lambda>p.
            let st = st\<lparr>sl_pending := p, sl_pendingFilled := True\<rparr>
            in Inr (if sl_onOff st then st\<lparr>sl_toConn := True\<rparr> else st))
          else Inr st)"
| "sl_process SlToConn st =
     (let st = st\<lparr>sl_sent := sl_sent st @ [sl_pending st]\<rparr>
      in bindG (msgbuf_Pop (sl_ringBuffer st)) (\<lambda>(_, b).
         bindG (msgbuf_Peek b) (\<lambda>p.
           let st = st\<lparr>sl_ringBuffer := b\<rparr>
           in Inr (if p \<noteq> None then st\<lparr>sl_pending := p\<rparr>
                   else st\<lparr>sl_pendingFilled := False, sl_toConn := False\<rparr>))))"

fun sl_run :: "send_case list \<Rightarrow> send_state \<Rightarrow> send_state go option" where
  "sl_run [] st = Some (Inr st)"
| "sl_run (c # cs) st =
     (if \<not> sl_ready st c then None
      else case sl_process c st of Inl p \<Rightarrow> Some (Inl p) | Inr st \<Rightarrow> sl_run cs st)"

section \<open>A bounded queue behind a gate\<close>

text \<open>
  The specification: a queue that drops its oldest message when it is full, and from which messages
  leave in order while the gate is open.
\<close>

record gated_queue =
  gq_queue :: "bytes list"
  gq_open :: bool
  gq_sent :: "bytes list"

definition gq_start :: gated_queue where "gq_start = \<lparr>gq_queue = [], gq_open = False, gq_sent = []\<rparr>"

fun gq_step :: "nat \<Rightarrow> send_case \<Rightarrow> gated_queue \<Rightarrow> gated_queue option" where
  "gq_step cap (SlOnOff b) q = Some (q\<lparr>gq_open := b\<rparr>)"
| "gq_step cap (SlSend (Some m)) q = Some (q\<lparr>gq_queue := push_bounded cap (gq_queue q) m\<rparr>)"
| "gq_step cap (SlSend None) q = None"
| "gq_step cap SlToConn q =
     (if gq_open q \<and> gq_queue q \<noteq> []
      then Some (q\<lparr>gq_queue := tl (gq_queue q), gq_sent := gq_sent q @ [hd (gq_queue q)]\<rparr>) else None)"

fun gq_run :: "nat \<Rightarrow> send_case list \<Rightarrow> gated_queue \<Rightarrow> gated_queue option" where
  "gq_run cap [] q = Some q"
| "gq_run cap (c # cs) q = (case gq_step cap c q of None \<Rightarrow> None | Some q \<Rightarrow> gq_run cap cs q)"

definition sl_rel :: "nat \<Rightarrow> send_state \<Rightarrow> gated_queue \<Rightarrow> bool" where
  "sl_rel cap st q \<longleftrightarrow> mb_ok (sl_ringBuffer st) \<and> mb_cap (sl_ringBuffer st) = cap \<and>
     mb_list (sl_ringBuffer st) = gq_queue q \<and> sl_onOff st = gq_open q \<and> sl_sent st = map Some (gq_sent q) \<and>
     (sl_pendingFilled st \<longleftrightarrow> gq_queue q \<noteq> []) \<and> (gq_queue q \<noteq> [] \<longrightarrow> sl_pending st = Some (hd (gq_queue q))) \<and>
     (sl_toConn st \<longleftrightarrow> gq_open q \<and> gq_queue q \<noteq> [])"

lemma push_bounded_hd:
  "xs \<noteq> [] \<Longrightarrow> length xs < c \<Longrightarrow> hd (push_bounded c xs x) = hd xs" "push_bounded c xs x \<noteq> []"
  by (auto simp: push_bounded_def)

lemma send_step:
  assumes "sl_rel cap st q" "c \<noteq> SlSend None"
  shows "if sl_ready st c then \<exists>st' q'. sl_process c st = Inr st' \<and> gq_step cap c q = Some q' \<and> sl_rel cap st' q'
    else gq_step cap c q = None"
proof (cases c)
  case (SlOnOff b)
  then show ?thesis using assms(1) by (cases b) (simp_all add: sl_rel_def Let_def)
next
  case (SlSend mo)
  then obtain m where m: "mo = Some m" using assms(2) by (cases mo) auto
  have ok: "mb_ok (sl_ringBuffer st)" "mb_list (sl_ringBuffer st) = gq_queue q" "mb_cap (sl_ringBuffer st) = cap"
    using assms(1) by (simp_all add: sl_rel_def)
  obtain b where b: "msgbuf_Push (Some m) (sl_ringBuffer st) =
        Inr (if length (gq_queue q) = cap then Some (hd (gq_queue q)) else None, b)"
      "mb_ok b" "mb_list b = push_bounded cap (gq_queue q) m" "mb_cap b = cap"
    using msgbuf_Push_list [OF ok(1), of m] ok(2,3) by (auto simp: goT_iff)
  have peek: "msgbuf_Peek b = Inr (Some (hd (mb_list b)))"
    using mgq.peek_spec [OF b(2)] b(3) by (simp add: push_bounded_hd)
  have le: "length (gq_queue q) \<le> cap" using mgq.bounded [OF ok(1)] ok(2,3) by simp
  show ?thesis
  proof (cases "length (gq_queue q) = cap \<or> \<not> sl_pendingFilled st")
    case True
    then show ?thesis using SlSend m b peek assms(1) by (auto simp: sl_rel_def push_bounded_hd)
  next
    case False
    then have "gq_queue q \<noteq> []" "length (gq_queue q) < cap" using assms(1) le by (auto simp: sl_rel_def)
    then show ?thesis using False SlSend m b assms(1) by (auto simp: sl_rel_def push_bounded_hd)
  qed
next
  case SlToConn
  show ?thesis
  proof (cases "sl_toConn st")
    case False
    then show ?thesis using SlToConn assms(1) by (auto simp: sl_rel_def)
  next
    case True
    then have q: "gq_open q" "gq_queue q \<noteq> []" and ok: "mb_ok (sl_ringBuffer st)" "mb_list (sl_ringBuffer st) = gq_queue q"
      using assms(1) by (auto simp: sl_rel_def)
    obtain b where b: "msgbuf_Pop (sl_ringBuffer st) = Inr (Some (hd (gq_queue q)), b)" "mb_ok b"
        "mb_list b = tl (gq_queue q)" "mb_cap b = mb_cap (sl_ringBuffer st)"
      using mgq.pop_spec [OF ok(1)] ok(2) q(2) by (auto simp: goT_iff)
    have "msgbuf_Peek b = Inr (if tl (gq_queue q) = [] then None else Some (hd (tl (gq_queue q))))"
      using mb_Peek_list [OF b(2)] b(3) by (simp add: msgbuf_Peek_eq)
    then show ?thesis using SlToConn True q b assms(1) by (auto simp: sl_rel_def Let_def)
  qed
qed

lemma send_run:
  "sl_rel cap st q \<Longrightarrow> SlSend None \<notin> set cs \<Longrightarrow>
   (case sl_run cs st of
      None \<Rightarrow> gq_run cap cs q = None
    | Some r \<Rightarrow> \<exists>st' q'. r = Inr st' \<and> gq_run cap cs q = Some q' \<and> sl_rel cap st' q')"
proof (induction cs arbitrary: st q)
  case (Cons c cs)
  then have c: "c \<noteq> SlSend None" "SlSend None \<notin> set cs" by auto
  show ?case
  proof (cases "sl_ready st c")
    case True
    then obtain st' q' where "sl_process c st = Inr st'" "gq_step cap c q = Some q'" "sl_rel cap st' q'"
      using send_step [OF Cons.prems(1) c(1)] by auto
    note st = this
    have "sl_run (c # cs) st = sl_run cs st'" "gq_run cap (c # cs) q = gq_run cap cs q'" using True st by simp_all
    then show ?thesis using Cons.IH [OF st(3) c(2)] by metis
  next
    case False
    then show ?thesis using send_step [OF Cons.prems(1) c(1)] by simp
  qed
qed simp

text \<open>C30: The send loop of a stream implements a gated bounded queue. Started with room for at least one
  message, it accepts exactly the sequences of events the specification accepts: it offers a message to
  the connection iff the stream is on and the queue is not empty. It never panics as long as no nil
  message is sent, and what it has sent are the queue's messages in order.\<close>

theorem send_loop_refines_gated_queue:
  assumes "0 < outgoingBufferSize" "SlSend None \<notin> set cs"
  shows "\<exists>st0. sl_start outgoingBufferSize = Inr st0 \<and>
    (case sl_run cs st0 of
       None \<Rightarrow> gq_run (nat outgoingBufferSize) cs gq_start = None
     | Some r \<Rightarrow> \<exists>st q. r = Inr st \<and> gq_run (nat outgoingBufferSize) cs gq_start = Some q \<and>
         mb_list (sl_ringBuffer st) = gq_queue q \<and> sl_sent st = map Some (gq_sent q) \<and>
         (sl_toConn st \<longleftrightarrow> gq_open q \<and> gq_queue q \<noteq> []) \<and>
         (sl_toConn st \<longrightarrow> sl_pending st = Some (hd (gq_queue q))))"
proof -
  obtain b where b: "msgbuf_New outgoingBufferSize = Inr b" "mb_ok b" "mb_list b = []" "mb_cap b = nat outgoingBufferSize"
    using mb_New [OF assms(1), where ?'a = bytes] by (auto simp: goT_iff msgbuf_New_eq)
  let ?st0 = "\<lparr>sl_ringBuffer = b, sl_pending = None, sl_pendingFilled = False, sl_onOff = False, sl_toConn = False, sl_sent = []\<rparr>"
  have "sl_rel (nat outgoingBufferSize) ?st0 gq_start" using b by (simp add: sl_rel_def gq_start_def)
  from send_run [OF this assms(2)]
  have "case sl_run cs ?st0 of
       None \<Rightarrow> gq_run (nat outgoingBufferSize) cs gq_start = None
     | Some r \<Rightarrow> \<exists>st q. r = Inr st \<and> gq_run (nat outgoingBufferSize) cs gq_start = Some q \<and> sl_rel (nat outgoingBufferSize) st q" .
  moreover have "sl_start outgoingBufferSize = Inr ?st0" by (simp add: sl_start_def b(1))
  ultimately show ?thesis by (intro exI [of _ ?st0]) (auto simp: sl_rel_def split: option.splits)
qed

theorem send_loop_refines_gated_queue_witness:
  "\<exists>st. bindG (sl_start 2) (\<lambda>st0. the (sl_run [SlSend (Some [1]), SlOnOff True, SlSend (Some [2]), SlSend (Some [3]), SlToConn] st0)) = Inr st \<and>
     sl_sent st = [Some [2]] \<and> mb_list (sl_ringBuffer st) = [[3]]"
proof -
  let ?cs = "[SlSend (Some [1]), SlOnOff True, SlSend (Some [2]), SlSend (Some [3]), SlToConn]"
  have spec: "gq_run (nat 2) ?cs gq_start = Some \<lparr>gq_queue = [[3]], gq_open = True, gq_sent = [[2]]\<rparr>"
    by (simp add: gq_start_def push_bounded_def)
  from send_loop_refines_gated_queue [of 2 ?cs] obtain st0 where "sl_start 2 = Inr st0"
    "case sl_run ?cs st0 of None \<Rightarrow> gq_run (nat 2) ?cs gq_start = None
     | Some r \<Rightarrow> \<exists>st q. r = Inr st \<and> gq_run (nat 2) ?cs gq_start = Some q \<and>
         mb_list (sl_ringBuffer st) = gq_queue q \<and> sl_sent st = map Some (gq_sent q)"
    by (auto split: option.splits)
  then show ?thesis unfolding spec by (auto split: option.splits)
qed

text \<open>Sending nil through a stream crashes the process.\<close>

lemma nil_message_panics:
  "case sl_start 2 of Inr st \<Rightarrow> sl_process (SlSend None) st = Inl ExplicitPanic | _ \<Rightarrow> False"
  by (simp add: sl_start_def msgbuf_New_def msgbuf_Push_def)

end
