(* ===== verification/RagePeerLoop.thy ===== *)
theory RagePeerLoop
  imports RagePeer
begin

text \<open>
  \<open>peerLoop\<close> of \<open>ragep2p/ragep2p.go\<close>: the streams shared with one peer, which of them the other end has
  opened, and the notifications that the current connection still has to send. It switches the send
  loops of the streams on and off.
\<close>

section \<open>State\<close>

text \<open>
  \<open>ps_on\<close> is the last value sent on the channel \<open>chOnOff\<close> of the stream, whose send loop starts switched
  off. The receivers of the loop's channels are always ready while the host runs, except that a send on
  the nil channel of a missing stream never returns.
\<close>

record peer_stream =
  ps_name :: bytes
  ps_limits :: stream_limits
  ps_on :: bool

datatype stream_open_response =
    SorOpened
  | SorStreamAlreadyExists
  | SorTooManyStreams

datatype stream_close_response =
    ScrClosed (scr_peerHasNoStreams: bool)
  | ScrStreamNotFound

record stream_open_request =
  so_streamID :: streamID
  so_streamName :: bytes
  so_incomingBufferSize :: int
  so_maxMessageLength :: int
  so_messagesLimit :: TokenBucketParams
  so_bytesLimit :: TokenBucketParams

text \<open>Connections are numbered: \<open>pl_chConnTerminated\<close> holds the one whose end the loop waits for. The
  last three fields are ghosts.\<close>

record peer_state =
  pl_streams :: "(streamID, peer_stream) gomap"
  pl_otherStreams :: "streamID set"
  pl_chConnTerminated :: "nat option"
  pl_pending :: "streamID \<rightharpoonup> bool"
  pl_connRateLimiter :: connRateLimiter
  pl_demux :: demuxer
  pl_returned :: bool
  pl_calls :: nat
  pl_notified :: "stream_notification list"
  pl_responses :: "(stream_open_response + stream_close_response) list"

record peer_env =
  pe_fc :: float_conv
  pe_now :: "nat \<Rightarrow> int"

section \<open>The cases of the loop\<close>

text \<open>Sending to the channel of a stream: the zero value of a stream has a nil channel.\<close>

definition pl_onOff :: "streamID \<Rightarrow> bool \<Rightarrow> peer_state \<Rightarrow> peer_state go" where
  "pl_onOff sid b st =
     (case map_of (pl_streams st) sid of
        None \<Rightarrow> Inl NoReturn
      | Some s \<Rightarrow> Inr (st\<lparr>pl_streams := AList.update sid (s\<lparr>ps_on := b\<rparr>) (pl_streams st)\<rparr>))"

definition pl_self :: "streamID \<Rightarrow> peer_state \<Rightarrow> peer_state go" where
  "pl_self sid st =
     (case pl_pending st sid of
        None \<Rightarrow> Inr st
      | Some state \<Rightarrow>
          let name = (case map_of (pl_streams st) sid of None \<Rightarrow> [] | Some s \<Rightarrow> ps_name s);
              st = st\<lparr>pl_notified := pl_notified st @ [StreamStateNotification sid name state]\<rparr>;
              st = st\<lparr>pl_pending := (pl_pending st)(sid := None)\<rparr>
          in if sid \<in> pl_otherStreams st \<and> state then pl_onOff sid True st else Inr st)"

definition pl_newConn :: "nat \<Rightarrow> peer_state \<Rightarrow> peer_state" where
  "pl_newConn conn st =
     (let st = st\<lparr>pl_connRateLimiter := crl_AddTokens newConnTokens (pl_connRateLimiter st)\<rparr>;
          st = st\<lparr>pl_chConnTerminated := Some conn\<rparr>
      in st\<lparr>pl_pending := \<lambda>sid. if map_of (pl_streams st) sid \<noteq> None then Some True else pl_pending st sid\<rparr>)"

definition pl_connTerminated :: "peer_state \<Rightarrow> peer_state" where
  "pl_connTerminated st =
     (let st = st\<lparr>pl_chConnTerminated := None\<rparr>;
          st = st\<lparr>pl_pending := Map.empty\<rparr>;
          st = st\<lparr>pl_otherStreams := {}\<rparr>
      in st\<lparr>pl_streams := map (\<lambda>(sid, s). (sid, s\<lparr>ps_on := False\<rparr>)) (pl_streams st)\<rparr>)"

definition pl_other :: "stream_notification \<Rightarrow> peer_state \<Rightarrow> peer_state go" where
  "pl_other notification st =
     (let sid = ssn_streamID notification;
          other = (sid \<in> pl_otherStreams st)
      in if other = ssn_open notification then Inr st
         else
           let st = (if ssn_open notification then st\<lparr>pl_otherStreams := insert sid (pl_otherStreams st)\<rparr>
                     else st\<lparr>pl_otherStreams := pl_otherStreams st - {sid}\<rparr>)
           in if map_of (pl_streams st) sid \<noteq> None then pl_onOff sid (ssn_open notification) st else Inr st)"

definition pl_addToDemux :: "peer_env \<Rightarrow> stream_open_request \<Rightarrow> peer_state \<Rightarrow> (bool \<times> peer_state) go" where
  "pl_addToDemux env req st =
     bindG (demuxer_AddStream (pe_fc env) (pe_now env (pl_calls st)) (pe_now env (Suc (pl_calls st))) (so_streamID req)
         (so_incomingBufferSize req) (so_maxMessageLength req) (so_messagesLimit req) (so_bytesLimit req) (pl_demux st))
       (\<lambda>(ok, d). Inr (ok, st\<lparr>pl_demux := d, pl_calls := Suc (Suc (pl_calls st))\<rparr>))"

definition pl_respond :: "stream_open_response + stream_close_response \<Rightarrow> peer_state \<Rightarrow> peer_state" where
  "pl_respond r st = st\<lparr>pl_responses := pl_responses st @ [r]\<rparr>"

definition pl_open :: "peer_env \<Rightarrow> stream_open_request \<Rightarrow> peer_state \<Rightarrow> peer_state go" where
  "pl_open env req st =
     (let sid = so_streamID req
      in if map_of (pl_streams st) sid \<noteq> None then Inr (pl_respond (Inl SorStreamAlreadyExists) st)
         else if MaxStreamsPerPeer \<le> int (length (pl_streams st)) then Inr (pl_respond (Inl SorTooManyStreams) st)
         else
           let limits = (so_messagesLimit req, so_bytesLimit req);
               crl = crl_AddStream (pe_fc env) (pe_now env (pl_calls st)) limits (pl_connRateLimiter st);
               st = st\<lparr>pl_connRateLimiter := crl, pl_calls := Suc (pl_calls st)\<rparr>
           in bindG (pl_addToDemux env req st) (\<lambda>(ok, st).
              bindG (if \<not> ok
                     then bindG (pl_addToDemux env req (st\<lparr>pl_demux := demuxer_RemoveStream sid (pl_demux st)\<rparr>)) (\<lambda>(_, st). Inr st)
                     else Inr st) (\<lambda>st.
                let s = \<lparr>ps_name = so_streamName req, ps_limits = limits, ps_on = False\<rparr>;
                    st = st\<lparr>pl_streams := AList.update sid s (pl_streams st)\<rparr>;
                    st = (if pl_chConnTerminated st \<noteq> None then st\<lparr>pl_pending := (pl_pending st)(sid \<mapsto> True)\<rparr> else st)
                in Inr (pl_respond (Inl SorOpened) st))))"

definition pl_close :: "peer_env \<Rightarrow> streamID \<Rightarrow> peer_state \<Rightarrow> peer_state" where
  "pl_close env sid st =
     (case map_of (pl_streams st) sid of
        Some s \<Rightarrow>
          let crl = crl_RemoveStream (pe_fc env) (pe_now env (pl_calls st)) (ps_limits s) (pl_connRateLimiter st);
              st = st\<lparr>pl_connRateLimiter := crl, pl_calls := Suc (pl_calls st)\<rparr>;
              st = st\<lparr>pl_demux := demuxer_RemoveStream sid (pl_demux st)\<rparr>;
              st = st\<lparr>pl_streams := AList.delete sid (pl_streams st)\<rparr>;
              st = (if pl_chConnTerminated st \<noteq> None then st\<lparr>pl_pending := (pl_pending st)(sid \<mapsto> False)\<rparr> else st);
              st = pl_respond (Inr (ScrClosed (length (pl_streams st) = 0))) st
          in if length (pl_streams st) = 0 then st\<lparr>pl_returned := True\<rparr> else st
      | None \<Rightarrow> pl_respond (Inr ScrStreamNotFound) st)"

section \<open>The loop\<close>

text \<open>The loop offers one pending notification, of any stream; the connection that ends is the one it knows of.
  Between the cases the connection takes tokens from the rate limiter (\<open>PlAllow\<close>); what it does to the
  buffers of the demultiplexer is left out.\<close>

datatype peer_case =
    PlSelf streamID
  | PlNewConn nat
  | PlConnTerminated
  | PlOther stream_notification
  | PlOpen stream_open_request
  | PlClose streamID
  | PlAllow int

fun pl_ready :: "peer_state \<Rightarrow> peer_case \<Rightarrow> bool" where
  "pl_ready st (PlSelf sid) = (pl_pending st sid \<noteq> None)"
| "pl_ready st PlConnTerminated = (pl_chConnTerminated st \<noteq> None)"
| "pl_ready st _ = True"

fun pl_process :: "peer_env \<Rightarrow> peer_case \<Rightarrow> peer_state \<Rightarrow> peer_state go" where
  "pl_process env (PlSelf sid) st = pl_self sid st"
| "pl_process env (PlNewConn conn) st = Inr (pl_newConn conn st)"
| "pl_process env PlConnTerminated st = Inr (pl_connTerminated st)"
| "pl_process env (PlOther notification) st = pl_other notification st"
| "pl_process env (PlOpen req) st = pl_open env req st"
| "pl_process env (PlClose sid) st = Inr (pl_close env sid st)"
| "pl_process env (PlAllow n) st =
     (let crl = snd (crl_Allow (pe_now env (pl_calls st)) n (pl_connRateLimiter st))
      in Inr (st\<lparr>pl_connRateLimiter := crl, pl_calls := Suc (pl_calls st)\<rparr>))"

text \<open>\<open>findOrCreatePeer\<close> starts the loop; the control frames count as a stream of their own.\<close>

definition control_limits :: stream_limits where
  "control_limits = (\<lparr>tp_Rate = 0, tp_Capacity = 0\<rparr>, \<lparr>tp_Rate = controlRate, tp_Capacity = newConnTokens\<rparr>)"

definition pl_start :: "peer_env \<Rightarrow> peer_state" where
  "pl_start env =
     \<lparr>pl_streams = [], pl_otherStreams = {}, pl_chConnTerminated = None, pl_pending = Map.empty,
      pl_connRateLimiter = crl_AddStream (pe_fc env) (pe_now env 0) control_limits newConnRateLimiter,
      pl_demux = newDemuxer, pl_returned = False, pl_calls = 1, pl_notified = [], pl_responses = []\<rparr>"

fun pl_run :: "peer_env \<Rightarrow> peer_case list \<Rightarrow> peer_state \<Rightarrow> peer_state go option" where
  "pl_run env [] st = Some (Inr st)"
| "pl_run env (c # cs) st =
     (if pl_returned st \<or> \<not> pl_ready st c then None
      else case pl_process env c st of Inl p \<Rightarrow> Some (Inl p) | Inr st \<Rightarrow> pl_run env cs st)"

section \<open>Opening a stream\<close>

text \<open>\<open>NewStream\<close> up to the start of the loops of the stream; \<open>id\<close> is the host. The peer loop answers its
  request; the sizes of the stream's own buffers play no part here.\<close>

datatype new_stream_error =
    StreamWithSelf
  | StreamNameTooLong
  | MaxMessageLengthTooLarge
  | StreamOpenError stream_open_response

definition NewStream ::
  "crypto \<Rightarrow> peer_env \<Rightarrow> PeerID \<Rightarrow> PeerID \<Rightarrow> bytes \<Rightarrow> int \<Rightarrow> int \<Rightarrow> TokenBucketParams \<Rightarrow> TokenBucketParams \<Rightarrow>
   peer_state \<Rightarrow> ((new_stream_error + streamID) \<times> peer_state) go" where
  "NewStream C env host other streamName incomingBufferSize maxMessageLength messagesLimit bytesLimit st =
     (if other = host then Inr (Inl StreamWithSelf, st)
      else if MaxStreamNameLength < length streamName then Inr (Inl StreamNameTooLong, st)
      else if int MaxMessageLength < maxMessageLength then Inr (Inl MaxMessageLengthTooLarge, st)
      else
        let sid = getStreamID C host other streamName
        in bindG (pl_open env \<lparr>so_streamID = sid, so_streamName = streamName, so_incomingBufferSize = incomingBufferSize,
               so_maxMessageLength = maxMessageLength, so_messagesLimit = messagesLimit, so_bytesLimit = bytesLimit\<rparr> st) (\<lambda>st.
             case last (pl_responses st) of
               Inl SorOpened \<Rightarrow> Inr (Inr sid, st)
             | Inl r \<Rightarrow> Inr (Inl (StreamOpenError r), st)
             | Inr _ \<Rightarrow> Inl NoReturn))"

section \<open>Invariant\<close>

text \<open>The limits of the open streams, with those of the control frames.\<close>

definition pl_active :: "peer_state \<Rightarrow> stream_limits multiset" where
  "pl_active st = add_mset control_limits (image_mset (\<lambda>(_, s). ps_limits s) (mset (pl_streams st)))"

text \<open>
  What holds of a stream, given whether the other end has opened it, whether a connection is known, the
  notification still to be sent and whether the demultiplexer knows the stream: the notification tells
  whether the stream exists; an existing stream is only on when the other end has opened it, and once that
  is the case and the own notification has been sent it is on.
\<close>

definition stream_ok :: "peer_stream option \<Rightarrow> bool \<Rightarrow> bool \<Rightarrow> bool option \<Rightarrow> bool \<Rightarrow> bool" where
  "stream_ok so other conn pending demuxed \<longleftrightarrow> demuxed = (so \<noteq> None) \<and>
     (case pending of None \<Rightarrow> True | Some b \<Rightarrow> conn \<and> b = (so \<noteq> None)) \<and>
     (case so of None \<Rightarrow> True | Some s \<Rightarrow> (ps_on s \<longrightarrow> other) \<and> (other \<and> conn \<and> pending = None \<longrightarrow> ps_on s))"

definition pl_ok :: "peer_state \<Rightarrow> streamID \<Rightarrow> bool" where
  "pl_ok st sid \<longleftrightarrow> stream_ok (map_of (pl_streams st) sid) (sid \<in> pl_otherStreams st)
     (pl_chConnTerminated st \<noteq> None) (pl_pending st sid) (pl_demux st sid \<noteq> None)"

definition peer_inv :: "peer_env \<Rightarrow> peer_state \<Rightarrow> bool" where
  "peer_inv env st \<longleftrightarrow> map_ok (pl_streams st) \<and> int (length (pl_streams st)) \<le> MaxStreamsPerPeer \<and>
     (\<forall>sid. pl_ok st sid) \<and> crl_sums (pe_fc env) (pl_active st) (pl_connRateLimiter st)"

section \<open>Every case keeps it\<close>

definition limits_of :: "(streamID, peer_stream) gomap \<Rightarrow> stream_limits multiset" where
  "limits_of m = image_mset (\<lambda>(_, s). ps_limits s) (mset m)"

lemma active_eq: "pl_active st = add_mset control_limits (limits_of (pl_streams st))"
  by (simp add: pl_active_def limits_of_def)

lemma limits_onOff:
  assumes "map_ok m" "map_of m sid = Some s"
  shows "limits_of (AList.update sid (s\<lparr>ps_on := b\<rparr>) m) = limits_of m"
  using arg_cong [OF mset_update_old [OF assms, of "s\<lparr>ps_on := b\<rparr>"], of "image_mset (\<lambda>(_, s). ps_limits s)"]
  by (simp add: limits_of_def)

lemma limits_off: "limits_of (map (\<lambda>(sid, s). (sid, s\<lparr>ps_on := False\<rparr>)) m) = limits_of m"
  by (induction m) (auto simp: limits_of_def)

lemma limits_delete:
  assumes "map_ok m" "map_of m sid = Some s"
  shows "limits_of m = add_mset (ps_limits s) (limits_of (AList.delete sid m))"
  using arg_cong [OF mset_delete_old [OF assms], of "image_mset (\<lambda>(_, s). ps_limits s)"] by (simp add: limits_of_def)

lemma keys_off: "map fst (map (\<lambda>(sid, s). (sid, s\<lparr>ps_on := False\<rparr>)) m) = map fst m"
  by (induction m) auto

lemma map_ok_off: "map_ok m \<Longrightarrow> map_ok (map (\<lambda>(sid, s). (sid, s\<lparr>ps_on := False\<rparr>)) m)"
  by (simp only: map_ok_def keys_off)

text \<open>What switching a stream on or off keeps.\<close>

lemma peer_inv_onOff:
  assumes "map_ok (pl_streams st)" "int (length (pl_streams st)) \<le> MaxStreamsPerPeer"
    and "crl_sums (pe_fc env) (pl_active st) (pl_connRateLimiter st)"
    and "map_of (pl_streams st) sid = Some s" "\<And>x. x \<noteq> sid \<Longrightarrow> pl_ok st x" "pl_demux st sid \<noteq> None"
    and "b = (sid \<in> pl_otherStreams st)" "pl_pending st sid = None \<or> pl_pending st sid = Some True \<and> pl_chConnTerminated st \<noteq> None"
  shows "\<exists>st'. pl_onOff sid b st = Inr st' \<and> peer_inv env st' \<and> pl_returned st' = pl_returned st"
proof -
  let ?st = "st\<lparr>pl_streams := AList.update sid (s\<lparr>ps_on := b\<rparr>) (pl_streams st)\<rparr>"
  have "pl_ok ?st x" for x
  proof (cases "x = sid")
    case True
    then show ?thesis using assms(6-8) by (auto simp: pl_ok_def stream_ok_def)
  next
    case False
    then show ?thesis using assms(5) [OF False] by (simp add: pl_ok_def)
  qed
  then have "peer_inv env ?st"
    using assms(1-4) by (simp add: peer_inv_def active_eq limits_onOff update_old_length)
  then show ?thesis using assms(4) by (simp add: pl_onOff_def)
qed

lemma peer_invD:
  assumes "peer_inv env st"
  shows "map_ok (pl_streams st)" "int (length (pl_streams st)) \<le> MaxStreamsPerPeer" "pl_ok st sid"
    "crl_sums (pe_fc env) (pl_active st) (pl_connRateLimiter st)"
  using assms by (simp_all add: peer_inv_def)

lemma self_inv:
  assumes inv: "peer_inv env st" and p: "pl_pending st sid = Some b"
  shows "\<exists>st'. pl_self sid st = Inr st' \<and> peer_inv env st' \<and> pl_returned st' = pl_returned st"
proof -
  define st1 where "st1 = st\<lparr>pl_notified := pl_notified st @
      [StreamStateNotification sid (case map_of (pl_streams st) sid of None \<Rightarrow> [] | Some s \<Rightarrow> ps_name s) b],
      pl_pending := (pl_pending st)(sid := None)\<rparr>"
  have self: "pl_self sid st = (if sid \<in> pl_otherStreams st1 \<and> b then pl_onOff sid True st1 else Inr st1)"
    using p by (simp add: pl_self_def st1_def Let_def)
  have other: "pl_ok st1 x" if "x \<noteq> sid" for x using that peer_invD(3) [OF inv, of x] by (simp add: pl_ok_def st1_def)
  have pc: "b = (map_of (pl_streams st) sid \<noteq> None)" "pl_demux st sid \<noteq> None \<longleftrightarrow> map_of (pl_streams st) sid \<noteq> None"
    using peer_invD(3) [OF inv, of sid] p by (simp_all add: pl_ok_def stream_ok_def)
  note keep = peer_invD(1,2,4) [OF inv]
  have keep1: "map_ok (pl_streams st1)" "int (length (pl_streams st1)) \<le> MaxStreamsPerPeer"
      "crl_sums (pe_fc env) (pl_active st1) (pl_connRateLimiter st1)" "pl_returned st1 = pl_returned st"
    using keep by (simp_all add: st1_def active_eq)
  show ?thesis
  proof (cases "sid \<in> pl_otherStreams st1 \<and> b")
    case True
    then obtain s where "map_of (pl_streams st1) sid = Some s" using pc(1) by (auto simp: st1_def)
    from peer_inv_onOff [OF keep1(1-3) this other] show ?thesis
      using True pc self keep1(4) by (simp add: st1_def)
  next
    case False
    have "pl_ok st1 sid"
      using False peer_invD(3) [OF inv, of sid] pc p by (auto simp: pl_ok_def stream_ok_def st1_def split: option.splits)
    then have "pl_ok st1 x" for x using other by (cases "x = sid") simp_all
    then have "peer_inv env st1" using keep1 by (simp add: peer_inv_def)
    then show ?thesis using self [unfolded if_not_P [OF False]] keep1(4) by blast
  qed
qed

lemma newConn_inv:
  assumes inv: "peer_inv env st"
  shows "peer_inv env (pl_newConn conn st)"
proof -
  have "pl_ok (pl_newConn conn st) x" for x
    using peer_invD(3) [OF inv, of x] by (auto simp: pl_ok_def stream_ok_def pl_newConn_def Let_def split: option.splits)
  then show ?thesis
    using peer_invD(1,2,4) [OF inv] by (simp add: peer_inv_def pl_newConn_def Let_def active_eq crl_sums_AddTokens)
qed

lemma connTerminated_inv:
  assumes inv: "peer_inv env st"
  shows "peer_inv env (pl_connTerminated st)"
proof -
  have "pl_ok (pl_connTerminated st) x" for x
    using peer_invD(3) [OF inv, of x]
    by (auto simp: pl_ok_def stream_ok_def pl_connTerminated_def Let_def map_of_map_value split: option.splits)
  then show ?thesis
    using peer_invD(1,2,4) [OF inv] by (simp add: peer_inv_def pl_connTerminated_def Let_def active_eq limits_off map_ok_off)
qed

lemma other_inv:
  assumes inv: "peer_inv env st"
  shows "\<exists>st'. pl_other n st = Inr st' \<and> peer_inv env st' \<and> pl_returned st' = pl_returned st"
proof (cases "(ssn_streamID n \<in> pl_otherStreams st) = ssn_open n")
  case True
  then show ?thesis using inv by (simp add: pl_other_def Let_def)
next
  case False
  define sid where "sid = ssn_streamID n"
  define st1 where "st1 = st\<lparr>pl_otherStreams := (if ssn_open n then insert sid (pl_otherStreams st) else pl_otherStreams st - {sid})\<rparr>"
  have run: "pl_other n st = (if map_of (pl_streams st1) sid \<noteq> None then pl_onOff sid (ssn_open n) st1 else Inr st1)"
    using False by (cases "ssn_open n"; cases "map_of (pl_streams st) (ssn_streamID n)")
      (simp_all add: pl_other_def Let_def st1_def sid_def)
  have other: "pl_ok st1 x" if "x \<noteq> sid" for x using that peer_invD(3) [OF inv, of x] by (simp add: pl_ok_def st1_def)
  note at = peer_invD(3) [OF inv, of sid]
  have keep1: "map_ok (pl_streams st1)" "int (length (pl_streams st1)) \<le> MaxStreamsPerPeer"
      "crl_sums (pe_fc env) (pl_active st1) (pl_connRateLimiter st1)" "pl_returned st1 = pl_returned st"
    using peer_invD(1,2,4) [OF inv] by (simp_all add: st1_def active_eq)
  show ?thesis
  proof (cases "map_of (pl_streams st1) sid")
    case None
    then have "pl_ok st1 sid" using at by (simp add: pl_ok_def stream_ok_def st1_def)
    then have "pl_ok st1 x" for x using other by (cases "x = sid") simp_all
    then have "peer_inv env st1" using keep1 by (simp add: peer_inv_def)
    then show ?thesis using None run keep1(4) by simp
  next
    case (Some s)
    have "ssn_open n = (sid \<in> pl_otherStreams st1)" by (simp add: st1_def)
    moreover have "pl_demux st1 sid \<noteq> None"
      "pl_pending st1 sid = None \<or> pl_pending st1 sid = Some True \<and> pl_chConnTerminated st1 \<noteq> None"
      using at Some by (auto simp: pl_ok_def stream_ok_def st1_def split: option.splits)
    ultimately show ?thesis using peer_inv_onOff [OF keep1(1-3) Some other] Some run keep1(4) by simp
  qed
qed

lemma open_inv:
  assumes inv: "peer_inv env st" and sz: "0 \<le> so_incomingBufferSize req"
  shows "\<exists>st'. pl_open env req st = Inr st' \<and> peer_inv env st' \<and> pl_returned st' = pl_returned st"
proof (cases "map_of (pl_streams st) (so_streamID req) \<noteq> None \<or> MaxStreamsPerPeer \<le> int (length (pl_streams st))")
  case True
  have "peer_inv env (pl_respond r st)" for r using inv by (simp add: peer_inv_def pl_ok_def active_eq pl_respond_def)
  moreover have "pl_open env req st = Inr (pl_respond (Inl (if map_of (pl_streams st) (so_streamID req) \<noteq> None
      then SorStreamAlreadyExists else SorTooManyStreams)) st)"
    using True by (auto simp: pl_open_def Let_def)
  ultimately show ?thesis by (simp add: pl_respond_def)
next
  case False
  let ?sid = "so_streamID req" and ?limits = "(so_messagesLimit req, so_bytesLimit req)"
  have fresh: "map_of (pl_streams st) ?sid = None" "pl_demux st ?sid = None"
    using False peer_invD(3) [OF inv, of ?sid] by (simp_all add: pl_ok_def stream_ok_def)
  obtain b where b: "msgbuf_New (so_incomingBufferSize req) = Inr b" using sz by (simp add: msgbuf_New_def)
  let ?ds = "\<lparr>ds_buffer = b, ds_chSignal = False, ds_maxMessageSize = so_maxMessageLength req,
     ds_messagesLimiter = makeRateLimiter (pe_fc env) (pe_now env (Suc (pl_calls st))) (so_messagesLimit req),
     ds_bytesLimiter = makeRateLimiter (pe_fc env) (pe_now env (Suc (Suc (pl_calls st)))) (so_bytesLimit req)\<rparr>"
  have run: "pl_open env req st = Inr (pl_respond (Inl SorOpened)
      (st\<lparr>pl_connRateLimiter := crl_AddStream (pe_fc env) (pe_now env (pl_calls st)) ?limits (pl_connRateLimiter st),
        pl_demux := (pl_demux st)(?sid \<mapsto> ?ds), pl_calls := Suc (Suc (Suc (pl_calls st))),
        pl_streams := pl_streams st @ [(?sid, \<lparr>ps_name = so_streamName req, ps_limits = ?limits, ps_on = False\<rparr>)],
        pl_pending := (if pl_chConnTerminated st \<noteq> None then (pl_pending st)(?sid \<mapsto> True) else pl_pending st)\<rparr>))"
    (is "_ = Inr ?st")
    using False fresh b
    by (cases "pl_chConnTerminated st")
      (simp_all add: pl_open_def pl_addToDemux_def demuxer_AddStream_def Let_def update_fresh pl_respond_def)
  have "pl_ok ?st x" for x
    using peer_invD(3) [OF inv, of x] fresh
    by (auto simp: pl_ok_def stream_ok_def pl_respond_def map_add_def split: option.splits)
  moreover have "map_ok (pl_streams ?st)"
    using peer_invD(1) [OF inv] fresh(1) by (auto simp: pl_respond_def map_ok_def map_of_eq_None_iff)
  moreover have "crl_sums (pe_fc env) (pl_active ?st) (pl_connRateLimiter ?st)"
    using crl_sums_Add [OF peer_invD(4) [OF inv], where l = ?limits and now = "pe_now env (pl_calls st)"]
    by (simp add: pl_respond_def active_eq limits_of_def add_mset_commute)
  moreover have "int (length (pl_streams ?st)) \<le> MaxStreamsPerPeer" using False by (simp add: pl_respond_def)
  moreover have "pl_returned ?st = pl_returned st" by (simp add: pl_respond_def)
  ultimately show ?thesis unfolding run peer_inv_def by blast
qed

lemma close_inv:
  assumes inv: "peer_inv env st"
  shows "peer_inv env (pl_close env sid st)"
proof (cases "map_of (pl_streams st) sid")
  case None
  then show ?thesis using inv by (simp add: pl_close_def pl_respond_def peer_inv_def pl_ok_def active_eq)
next
  case (Some s)
  let ?m = "AList.delete sid (pl_streams st)" and ?st = "pl_close env sid st"
  have streams: "pl_streams ?st = ?m" using Some by (simp add: pl_close_def pl_respond_def Let_def)
  have crl: "pl_connRateLimiter ?st = crl_RemoveStream (pe_fc env) (pe_now env (pl_calls st)) (ps_limits s) (pl_connRateLimiter st)"
    using Some by (simp add: pl_close_def pl_respond_def Let_def)
  have rest: "pl_otherStreams ?st = pl_otherStreams st" "pl_chConnTerminated ?st = pl_chConnTerminated st"
      "pl_pending ?st = (if pl_chConnTerminated st \<noteq> None then (pl_pending st)(sid \<mapsto> False) else pl_pending st)"
      "pl_demux ?st = (pl_demux st)(sid := None)"
    using Some by (simp_all add: pl_close_def pl_respond_def Let_def demuxer_RemoveStream_def)
  have "pl_ok ?st x" for x
    using peer_invD(3) [OF inv, of x] Some
    by (cases "x = sid") (auto simp: pl_ok_def stream_ok_def streams rest map_of_delete split: option.splits)
  moreover have "pl_active st = add_mset (ps_limits s) (pl_active ?st)"
    using limits_delete [OF peer_invD(1) [OF inv] Some] by (simp add: active_eq streams add_mset_commute)
  then have "crl_sums (pe_fc env) (pl_active ?st) (pl_connRateLimiter ?st)"
    using crl_sums_Remove [OF peer_invD(4) [OF inv], of "ps_limits s"] by (simp add: crl)
  moreover have "int (length ?m) \<le> MaxStreamsPerPeer"
    using length_delete_le [of sid "pl_streams st"] peer_invD(2) [OF inv] by linarith
  ultimately show ?thesis using peer_invD(1) [OF inv] by (simp add: peer_inv_def streams)
qed

lemma allow_inv: "peer_inv env st \<Longrightarrow> peer_inv env (st\<lparr>pl_connRateLimiter := snd (crl_Allow now n (pl_connRateLimiter st)), pl_calls := k\<rparr>)"
  by (simp add: peer_inv_def pl_ok_def active_eq crl_sums_Allow)


lemma start_inv: "peer_inv env (pl_start env)"
  using crl_sums_Add [OF crl_sums_new, of "pe_fc env" control_limits "pe_now env 0"]
  by (simp add: peer_inv_def pl_start_def pl_ok_def stream_ok_def active_eq limits_of_def newDemuxer_def MaxStreamsPerPeer_def)

lemma pl_process_inv:
  assumes inv: "peer_inv env st" and ready: "pl_ready st c"
    and size: "\<And>req. c = PlOpen req \<Longrightarrow> 0 \<le> so_incomingBufferSize req"
  shows "\<exists>st'. pl_process env c st = Inr st' \<and> peer_inv env st'"
proof (cases c)
  case (PlSelf sid)
  then show ?thesis using self_inv [OF inv] ready by auto
next
  case (PlOther n)
  then show ?thesis using other_inv [OF inv] by auto
next
  case (PlOpen req)
  then show ?thesis using open_inv [OF inv size] by auto
qed (simp_all add: inv newConn_inv connTerminated_inv close_inv allow_inv Let_def)

lemma pl_run_inv:
  assumes "peer_inv env st" "\<And>req. PlOpen req \<in> set cs \<Longrightarrow> 0 \<le> so_incomingBufferSize req" "pl_run env cs st = Some r"
  shows "\<exists>st'. r = Inr st' \<and> peer_inv env st'"
  using assms
proof (induction cs arbitrary: st)
  case (Cons c cs)
  have ready: "pl_ready st c" using Cons.prems(3) by (auto split: if_splits)
  obtain st1 where st1: "pl_process env c st = Inr st1" "peer_inv env st1"
    using pl_process_inv [OF Cons.prems(1) ready] Cons.prems(2) by auto
  then have "pl_run env cs st1 = Some r" using Cons.prems(3) by (auto split: if_splits)
  then show ?case using Cons.IH [OF st1(2)] Cons.prems(2) by simp
qed auto

section \<open>Both ends open the same stream\<close>

text \<open>
  Whatever a host opens, the other end can only announce under a name that fits into a frame, and both ends
  of a stream of one name use the same identifier, so that the notification of one switches the stream of the
  other on.
\<close>

lemma opened_stream:
  assumes "pl_open env req st = Inr st'" "map_of (pl_streams st) (so_streamID req) = None"
    "\<not> MaxStreamsPerPeer \<le> int (length (pl_streams st))"
  shows "map_of (pl_streams st') (so_streamID req) =
    Some \<lparr>ps_name = so_streamName req, ps_limits = (so_messagesLimit req, so_bytesLimit req), ps_on = False\<rparr>"
  using assms by (auto simp: pl_open_def Let_def bindG_eq_Inr_iff pl_respond_def split: if_splits)

lemma NewStream_opened:
  assumes "NewStream C env host other name bsize maxLen ml bl st = Inr (Inr sid, st')"
  shows "sid = getStreamID C other host name" "length name \<le> 256" "maxLen \<le> int MaxMessageLength" "host \<noteq> other"
    "map_of (pl_streams st) sid = None" "map_of (pl_streams st') sid = Some \<lparr>ps_name = name, ps_limits = (ml, bl), ps_on = False\<rparr>"
proof -
  let ?req = "\<lparr>so_streamID = getStreamID C host other name, so_streamName = name, so_incomingBufferSize = bsize,
      so_maxMessageLength = maxLen, so_messagesLimit = ml, so_bytesLimit = bl\<rparr>"
  have guards: "host \<noteq> other" "length name \<le> 256" "maxLen \<le> int MaxMessageLength"
    using assms by (auto simp: NewStream_def MaxStreamNameLength_def split: if_splits)
  then have "bindG (pl_open env ?req st) (\<lambda>st. case last (pl_responses st) of
      Inl SorOpened \<Rightarrow> Inr (Inr (getStreamID C host other name), st)
    | Inl r \<Rightarrow> Inr (Inl (StreamOpenError r), st) | Inr _ \<Rightarrow> Inl NoReturn) = Inr (Inr sid, st')"
    using assms by (simp add: NewStream_def Let_def MaxStreamNameLength_def)
  then obtain st1 where run: "pl_open env ?req st = Inr st1"
    "(case last (pl_responses st1) of Inl SorOpened \<Rightarrow> Inr (Inr (getStreamID C host other name), st1)
      | Inl r \<Rightarrow> Inr (Inl (StreamOpenError r), st1) | Inr _ \<Rightarrow> Inl NoReturn) = Inr (Inr sid, st')"
    unfolding bindG_eq_Inr_iff by blast
  have open1: "pl_open env ?req st = Inr st1" "last (pl_responses st1) = Inl SorOpened" "st1 = st'"
      "sid = getStreamID C host other name"
    using run by (cases "last (pl_responses st1)"; cases "projl (last (pl_responses st1))"; simp)+
  have fresh: "map_of (pl_streams st) sid = None"
  proof (rule ccontr)
    assume "map_of (pl_streams st) sid \<noteq> None"
    then have "pl_open env ?req st = Inr (pl_respond (Inl SorStreamAlreadyExists) st)"
      using open1(4) by (simp add: pl_open_def)
    then show False using open1(1,2) by (auto simp: pl_respond_def)
  qed
  have room: "\<not> MaxStreamsPerPeer \<le> int (length (pl_streams st))"
  proof
    assume "MaxStreamsPerPeer \<le> int (length (pl_streams st))"
    then have "pl_open env ?req st = Inr (pl_respond (Inl SorTooManyStreams) st)"
      using fresh open1(4) by (simp add: pl_open_def)
    then show False using open1(1,2) by (auto simp: pl_respond_def)
  qed
  have "map_of (pl_streams st1) sid = Some \<lparr>ps_name = name, ps_limits = (ml, bl), ps_on = False\<rparr>"
    using opened_stream [OF open1(1)] fresh room open1(4) by simp
  then show "map_of (pl_streams st') sid = Some \<lparr>ps_name = name, ps_limits = (ml, bl), ps_on = False\<rparr>"
    using open1(3) by simp
  show "sid = getStreamID C other host name" using open1(4) getStreamID_sym by simp
  show "map_of (pl_streams st) sid = None" by (rule fresh)
qed (use assms in \<open>auto simp: NewStream_def MaxStreamNameLength_def split: if_splits\<close>)

text \<open>The empty name is accepted, although the reader at the other end then ends the connection.\<close>

lemma NewStream_accepts_empty_name:
  assumes "other \<noteq> host" "peer_inv env st" "pl_streams st = []" "0 \<le> bsize" "maxLen \<le> int MaxMessageLength"
  shows "\<exists>st'. NewStream C env host other [] bsize maxLen ml bl st = Inr (Inr (getStreamID C host other []), st')"
proof -
  have "pl_demux st sid = None" for sid
    using peer_invD(3) [OF assms(2), of sid] assms(3) by (simp add: pl_ok_def stream_ok_def)
  then show ?thesis
    using assms by (simp add: NewStream_def pl_open_def pl_addToDemux_def demuxer_AddStream_def msgbuf_New_def
        MaxStreamNameLength_def MaxStreamsPerPeer_def Let_def pl_respond_def)
qed

section \<open>Which streams are on\<close>

text \<open>C19: Whatever streams are opened and closed, connections come and go and notifications arrive, in any
  order, the loop for a peer never blocks on the channel of a missing stream and never panics (given
  buffer sizes that are not negative). A stream is only on when the other end has opened it; with a
  connection, a stream that the other end has opened is on once its own notification has been sent; a
  notification still to be sent tells whether the stream exists. The demultiplexer knows exactly the
  streams, there are at most 2000 of them, and unless it has given up, the limiter of the connection has
  the rate and the capacity of the control frames and the open streams together.\<close>

theorem peer_loop_switches_streams:
  assumes "\<forall>req. PlOpen req \<in> set cs \<longrightarrow> 0 \<le> so_incomingBufferSize req"
    and "pl_run env cs (pl_start env) = Some r"
  shows "\<exists>st. r = Inr st \<and>
    (\<forall>sid s. map_of (pl_streams st) sid = Some s \<longrightarrow>
       (ps_on s \<longrightarrow> sid \<in> pl_otherStreams st) \<and>
       (sid \<in> pl_otherStreams st \<and> pl_chConnTerminated st \<noteq> None \<and> pl_pending st sid = None \<longrightarrow> ps_on s)) \<and>
    (\<forall>sid b. pl_pending st sid = Some b \<longrightarrow> b = (map_of (pl_streams st) sid \<noteq> None)) \<and>
    dom (pl_demux st) = dom (map_of (pl_streams st)) \<and>
    length (pl_streams st) \<le> 2000 \<and>
    crl_sums (pe_fc env) (pl_active st) (pl_connRateLimiter st)"
proof -
  obtain st where st: "r = Inr st" "peer_inv env st" using pl_run_inv [OF start_inv _ assms(2)] assms(1) by blast
  note ok = peer_invD(3) [OF st(2), unfolded pl_ok_def stream_ok_def]
  have a: "\<forall>sid s. map_of (pl_streams st) sid = Some s \<longrightarrow>
       (ps_on s \<longrightarrow> sid \<in> pl_otherStreams st) \<and>
       (sid \<in> pl_otherStreams st \<and> pl_chConnTerminated st \<noteq> None \<and> pl_pending st sid = None \<longrightarrow> ps_on s)"
  proof (intro allI impI)
    fix sid s
    assume "map_of (pl_streams st) sid = Some s"
    then show "(ps_on s \<longrightarrow> sid \<in> pl_otherStreams st) \<and>
       (sid \<in> pl_otherStreams st \<and> pl_chConnTerminated st \<noteq> None \<and> pl_pending st sid = None \<longrightarrow> ps_on s)"
      using ok [of sid] by simp
  qed
  have b: "\<forall>sid b. pl_pending st sid = Some b \<longrightarrow> b = (map_of (pl_streams st) sid \<noteq> None)"
  proof (intro allI impI)
    fix sid b
    assume "pl_pending st sid = Some b"
    then show "b = (map_of (pl_streams st) sid \<noteq> None)" using ok [of sid] by simp
  qed
  have c: "dom (pl_demux st) = dom (map_of (pl_streams st))" using ok by (auto simp: dom_def)
  have d: "length (pl_streams st) \<le> 2000" using peer_invD(2) [OF st(2)] by (simp add: MaxStreamsPerPeer_def)
  show ?thesis by (intro exI [of _ st] conjI st(1) a b c d peer_invD(4) [OF st(2)])
qed

definition pl_example :: "peer_case list \<Rightarrow> peer_state go option" where
  "pl_example cs =
     (let env = \<lparr>pe_fc = \<lparr>fc_u64 = \<lambda>x. of_int \<lfloor>x\<rfloor>, fc_u32 = \<lambda>x. of_int \<lfloor>x\<rfloor>, fc_u64_nonfinite = 0\<rparr>, pe_now = \<lambda>k. 1000 + int k\<rparr>
      in pl_run env cs (pl_start env))"

definition pl_example_open :: peer_case where
  "pl_example_open = PlOpen \<lparr>so_streamID = [1], so_streamName = [7], so_incomingBufferSize = 2, so_maxMessageLength = 100,
     so_messagesLimit = \<lparr>tp_Rate = 2, tp_Capacity = 5\<rparr>, so_bytesLimit = \<lparr>tp_Rate = 100, tp_Capacity = 500\<rparr>\<rparr>"

definition pl_example_on :: "peer_case list \<Rightarrow> bool option" where
  "pl_example_on cs =
     (case pl_example cs of Some (Inr st) \<Rightarrow> (case pl_streams st of [(_, s)] \<Rightarrow> Some (ps_on s) | _ \<Rightarrow> None) | _ \<Rightarrow> None)"

definition pl_example_cases :: "peer_case list" where
  "pl_example_cases = [pl_example_open, PlNewConn 1, PlOther (StreamStateNotification [1] [7] True), PlSelf [1]]"

theorem peer_loop_switches_streams_witness:
  "\<exists>st s. pl_example pl_example_cases = Some (Inr st) \<and> pl_streams st = [([1], s)] \<and> ps_on s \<and> [1] \<in> pl_otherStreams st"
proof -
  have "pl_example_on pl_example_cases = Some True" by code_simp
  then obtain st sid s where st: "pl_example pl_example_cases = Some (Inr st)" "pl_streams st = [(sid, s)]" "ps_on s"
    unfolding pl_example_on_def by (auto split: option.splits sum.splits list.splits prod.splits)
  have "case pl_example pl_example_cases of Some (Inr st) \<Rightarrow> map fst (pl_streams st) = [[1]] | _ \<Rightarrow> False" by code_simp
  then have sid: "sid = [1]" using st by simp
  have "\<forall>req. PlOpen req \<in> set pl_example_cases \<longrightarrow> 0 \<le> so_incomingBufferSize req"
    by (simp add: pl_example_cases_def pl_example_open_def)
  note spec = peer_loop_switches_streams [OF this st(1) [unfolded pl_example_def Let_def]]
  obtain st' where "st = st'" "\<forall>sid s. map_of (pl_streams st') sid = Some s \<longrightarrow> (ps_on s \<longrightarrow> sid \<in> pl_otherStreams st')"
    using spec by blast
  then have "[1] \<in> pl_otherStreams st" using st(2,3) sid by simp
  then show ?thesis using st sid by blast
qed

text \<open>
  A stream can stay off for good. The read loop of a new connection starts before the loop here hears of the
  connection, so the notification of the other end may come first, be ignored as already known from the old
  connection, and be forgotten when the end of the old connection is handled. The other end will not repeat
  it, but both ends have announced the stream on the new connection.
\<close>

lemma reconnect_can_lose_a_notification:
  "pl_example_on (pl_example_cases @ [PlOther (StreamStateNotification [1] [7] True), PlConnTerminated, PlNewConn 2, PlSelf [1]]) = Some False"
  by code_simp

end
