(* ===== verification/RageAnnounce.thy ===== *)
theory RageAnnounce
  imports RageFrames
begin

text \<open>
  Announcements of peer discovery (\<open>networking/ragedisco/announcement.go\<close>, \<open>address.go\<close>): what they say,
  when they are valid, what their signature covers, and how the own addresses are chosen.
\<close>

section \<open>Addresses\<close>

type_synonym address = bytes

text \<open>
  What the code uses of \<open>net/netip\<close>: an address of the package, and parsing and printing of an address
  with a port. The two functions are parameters.
\<close>

record netip_Addr =
  ip_Is4 :: bool
  ip_Is6 :: bool
  ip_IsUnspecified :: bool
  ip_Zone :: bytes
  ip_bytes :: bytes

record netip =
  np_ParseAddrPort :: "bytes \<Rightarrow> (netip_Addr \<times> nat) option"
  np_String :: "netip_Addr \<times> nat \<Rightarrow> bytes"

definition parseAddrPortForAnnouncement :: "netip \<Rightarrow> address \<Rightarrow> (netip_Addr \<times> nat) option" where
  "parseAddrPortForAnnouncement np s =
     (let maxAddrPortSize = 1 + 39 + 1 + 1 + 5
      in if length s > maxAddrPortSize then None
         else case np_ParseAddrPort np s of
           None \<Rightarrow> None
         | Some (addr, port) \<Rightarrow>
             if ip_Zone addr \<noteq> [] then None
             else if \<not> (ip_Is4 addr \<or> ip_Is6 addr) then None
             else Some (addr, port))"

definition isValidForAnnouncement :: "netip \<Rightarrow> address \<Rightarrow> bool" where
  "isValidForAnnouncement np a = (parseAddrPortForAnnouncement np a \<noteq> None)"

definition joinIPPort :: "netip \<Rightarrow> netip_Addr \<Rightarrow> nat \<Rightarrow> address" where
  "joinIPPort np ip port = np_String np (ip, port)"

definition joinIPsPort :: "netip \<Rightarrow> netip_Addr list \<Rightarrow> nat \<Rightarrow> address list" where
  "joinIPsPort np ips port = map (\<lambda>ip. joinIPPort np ip port) ips"

fun dedup_loop :: "address set \<Rightarrow> address list \<Rightarrow> address list" where
  "dedup_loop m [] = []"
| "dedup_loop m (addr # addrs) =
     (if addr \<in> m then dedup_loop m addrs else addr # dedup_loop (insert addr m) addrs)"

definition dedup :: "address list \<Rightarrow> address list" where
  "dedup addrs = dedup_loop {} addrs"

definition maxAddrsInAnnouncement :: nat where "maxAddrsInAnnouncement = 10"

text \<open>The loop over the configured addresses; \<open>autodetect\<close> is None when detection fails. None is \<open>ok = false\<close>.\<close>

fun announce_loop ::
  "netip \<Rightarrow> (netip_Addr list \<times> netip_Addr list) option \<Rightarrow> address list \<Rightarrow> address list \<Rightarrow> address list option" where
  "announce_loop np autodetect [] addrs = Some addrs"
| "announce_loop np autodetect (addrStr # addrStrs) addrs =
     (case parseAddrPortForAnnouncement np addrStr of
        None \<Rightarrow> None
      | Some (ip, port) \<Rightarrow>
          if \<not> ip_IsUnspecified ip then announce_loop np autodetect addrStrs (addrs @ [addrStr])
          else if ip_Is4 ip then
            announce_loop np autodetect addrStrs
              (case autodetect of None \<Rightarrow> addrs | Some (ifaceV4, _) \<Rightarrow> addrs @ joinIPsPort np ifaceV4 port)
          else if ip_Is6 ip then
            announce_loop np autodetect addrStrs
              (case autodetect of None \<Rightarrow> addrs | Some (_, ifaceV6) \<Rightarrow> addrs @ joinIPsPort np ifaceV6 port)
          else None)"

definition combinedAnnounceAddrs ::
  "netip \<Rightarrow> address list \<Rightarrow> (netip_Addr list \<times> netip_Addr list) option \<Rightarrow> address list option" where
  "combinedAnnounceAddrs np addrStrs autodetect =
     (case announce_loop np autodetect addrStrs [] of
        None \<Rightarrow> None
      | Some addrs \<Rightarrow>
          let addrs = dedup addrs
          in if autodetect = None \<and> addrs = [] then None
             else
               let addrs = (if length addrs > maxAddrsInAnnouncement then take maxAddrsInAnnouncement addrs else addrs)
               in if \<exists>addr \<in> set addrs. \<not> isValidForAnnouncement np addr then None else Some addrs)"

lemma dedup_loop_set: "set (dedup_loop m xs) = set xs - m"
  by (induction xs arbitrary: m) auto

lemma dedup_loop_distinct: "distinct (dedup_loop m xs)"
  by (induction xs arbitrary: m) (auto simp: dedup_loop_set)

lemma dedup_set [simp]: "set (dedup xs) = set xs"
  by (simp add: dedup_def dedup_loop_set)

lemma dedup_distinct [simp]: "distinct (dedup xs)"
  by (simp add: dedup_def dedup_loop_distinct)

text \<open>What is announced can be announced, except that nothing is chosen when detection succeeds without
  finding an interface: the protocol then refuses to start.\<close>

lemma combinedAnnounceAddrs_valid:
  assumes "combinedAnnounceAddrs np addrStrs autodetect = Some addrs"
  shows "distinct addrs" "length addrs \<le> 10" "\<forall>a \<in> set addrs. isValidForAnnouncement np a"
    "autodetect = None \<Longrightarrow> addrs \<noteq> []"
  using assms
  by (auto simp: combinedAnnounceAddrs_def maxAddrsInAnnouncement_def Let_def distinct_take split: option.splits if_splits)

section \<open>Announcements\<close>

record unsignedAnnouncement =
  ua_Addrs :: "address list"
  ua_Counter :: u64

text \<open>The embedded struct is the part the announcement extends. \<open>None\<close> is the nil signature.\<close>

record announcement = unsignedAnnouncement +
  an_PublicKey :: bytes
  an_Sig :: "bytes option"

datatype announcement_error =
    AnnInvalidLength
  | AnnInvalidAddress
  | AnnUnknownKeySize
  | AnnNilSig
  | AnnInvalidSignature

definition announcementDomainSeparator :: bytes where
  "announcementDomainSeparator = ascii ''announcement for chainlink peer discovery v2.0.0''"

definition validate_unsigned :: "netip \<Rightarrow> 'a unsignedAnnouncement_scheme \<Rightarrow> announcement_error option" where
  "validate_unsigned np uann =
     (if length (ua_Addrs uann) = 0 \<or> length (ua_Addrs uann) > maxAddrsInAnnouncement then Some AnnInvalidLength
      else if \<exists>addr \<in> set (ua_Addrs uann). \<not> isValidForAnnouncement np addr then Some AnnInvalidAddress
      else None)"

definition ann_validate :: "netip \<Rightarrow> announcement \<Rightarrow> announcement_error option" where
  "ann_validate np ann =
     (case validate_unsigned np ann of
        Some err \<Rightarrow> Some err
      | None \<Rightarrow>
          if length (an_PublicKey ann) \<noteq> ed25519_PublicKeySize then Some AnnUnknownKeySize
          else if an_Sig ann = None then Some AnnNilSig
          else None)"

text \<open>\<open>binary.Write\<close> in little-endian order\<close>

definition ann_le32 :: "u32 \<Rightarrow> bytes" where "ann_le32 x = rev (be32 x)"

definition ann_le64 :: "u64 \<Rightarrow> bytes" where "ann_le64 x = rev (be64 x)"

definition digest_written :: "'a unsignedAnnouncement_scheme \<Rightarrow> bytes" where
  "digest_written uann =
     announcementDomainSeparator @ ann_le32 (of_nat (length (ua_Addrs uann))) @
     concat (map (\<lambda>a. ann_le32 (of_nat (length a)) @ a) (ua_Addrs uann)) @ ann_le64 (ua_Counter uann)"

definition ann_digest :: "crypto \<Rightarrow> netip \<Rightarrow> 'a unsignedAnnouncement_scheme \<Rightarrow> announcement_error + bytes" where
  "ann_digest C np uann =
     (case validate_unsigned np uann of Some err \<Rightarrow> Inl err | None \<Rightarrow> Inr (sha256 C (digest_written uann)))"

text \<open>The secret key is the function that signs with it and its public key.\<close>

record secret_key =
  sk_Sign :: "bytes \<Rightarrow> bytes"
  sk_Public :: bytes

definition ann_sign :: "crypto \<Rightarrow> netip \<Rightarrow> secret_key \<Rightarrow> unsignedAnnouncement \<Rightarrow> announcement_error + announcement" where
  "ann_sign C np sk uann =
     bindG (ann_digest C np uann) (\<lambda>digest.
       let sig = sk_Sign sk digest
       in Inr \<lparr>ua_Addrs = ua_Addrs uann, ua_Counter = ua_Counter uann, an_PublicKey = sk_Public sk, an_Sig = Some sig\<rparr>)"

definition ann_verify :: "crypto \<Rightarrow> netip \<Rightarrow> announcement \<Rightarrow> announcement_error option" where
  "ann_verify C np ann =
     (case ann_validate np ann of
        Some err \<Rightarrow> Some err
      | None \<Rightarrow>
          (case ann_digest C np ann of
             Inl err \<Rightarrow> Some err
           | Inr msg \<Rightarrow>
               if \<not> ed25519_Verify C (an_PublicKey ann) msg (the (an_Sig ann)) then Some AnnInvalidSignature
               else None))"

text \<open>\<open>PeerIDFromPublicKey\<close>\<close>

definition PeerIDFromPublicKey :: "bytes \<Rightarrow> PeerID option" where
  "PeerIDFromPublicKey pk = (if ed25519_PublicKeySize \<noteq> length pk then None else Some pk)"

definition ann_PeerID :: "announcement \<Rightarrow> PeerID option" where
  "ann_PeerID ann = PeerIDFromPublicKey (an_PublicKey ann)"

section \<open>On the wire\<close>

record pb_SignedAnnouncement =
  pb_Addrs :: "bytes list"
  pb_Counter :: u64
  pb_PublicKey :: bytes
  pb_Sig :: "bytes option"

datatype pb_disco_message = PbReconcile "pb_SignedAnnouncement list" | PbSignedAnnouncement pb_SignedAnnouncement | PbUnknown

datatype disco_message = DiscoReconcile "announcement list" | DiscoAnnouncement announcement

definition ann_toProto :: "announcement \<Rightarrow> pb_SignedAnnouncement" where
  "ann_toProto ann =
     \<lparr>pb_Addrs = ua_Addrs ann, pb_Counter = ua_Counter ann, pb_PublicKey = an_PublicKey ann, pb_Sig = an_Sig ann\<rparr>"

definition signedAnnouncementFromProto :: "pb_SignedAnnouncement \<Rightarrow> announcement" where
  "signedAnnouncementFromProto pm =
     \<lparr>ua_Addrs = pb_Addrs pm, ua_Counter = pb_Counter pm, an_PublicKey = pb_PublicKey pm, an_Sig = pb_Sig pm\<rparr>"

fun toProtoWrapped :: "disco_message \<Rightarrow> pb_disco_message" where
  "toProtoWrapped (DiscoReconcile anns) = PbReconcile (map ann_toProto anns)"
| "toProtoWrapped (DiscoAnnouncement ann) = PbSignedAnnouncement (ann_toProto ann)"

fun fromProtoWrapped :: "pb_disco_message \<Rightarrow> disco_message option" where
  "fromProtoWrapped (PbReconcile pr) = Some (DiscoReconcile (map signedAnnouncementFromProto pr))"
| "fromProtoWrapped (PbSignedAnnouncement pm) = Some (DiscoAnnouncement (signedAnnouncementFromProto pm))"
| "fromProtoWrapped PbUnknown = None"

lemma announcement_roundtrip: "signedAnnouncementFromProto (ann_toProto ann) = ann"
  by (cases ann) (simp add: signedAnnouncementFromProto_def ann_toProto_def)

lemma disco_message_roundtrip: "fromProtoWrapped (toProtoWrapped m) = Some m"
  by (cases m) (simp_all add: announcement_roundtrip comp_def)

section \<open>What a signature covers\<close>

lemma rev_be64_inj: "ann_le64 x = ann_le64 y \<longleftrightarrow> x = y"
  by (simp add: ann_le64_def)

lemma length_ann_le [simp]: "length (ann_le32 x) = 4" "length (ann_le64 y) = 8"
  by (simp_all add: ann_le32_def ann_le64_def)

lemma be32_inj': "be32 x = be32 y \<Longrightarrow> x = y"
  by (metis decode_be32_be32)

lemma len_prefixed_list_inj:
  assumes "length xs = length ys" "\<forall>x \<in> set xs. length x < 2 ^ 32" "\<forall>y \<in> set ys. length y < 2 ^ 32"
    and "concat (map (\<lambda>a. ann_le32 (of_nat (length a)) @ a) xs) @ r = concat (map (\<lambda>a. ann_le32 (of_nat (length a)) @ a) ys) @ s"
  shows "xs = ys \<and> r = s"
  using assms
proof (induction xs ys rule: list_induct2)
  case (Cons x xs y ys)
  have "ann_le32 (of_nat (length x)) = ann_le32 (of_nat (length y))" using Cons.prems(3) by (auto simp: append_eq_append_conv)
  then have "(of_nat (length x) :: u32) = of_nat (length y)" by (auto simp: ann_le32_def dest: be32_inj')
  then have len: "length x = length y" using Cons.prems(1,2) by (simp add: of_nat_inverse unat_of_nat word_unat_eq_iff)
  then show ?case using Cons by auto
qed simp

lemma digest_written_inj:
  assumes "length (ua_Addrs a) \<le> 10" "length (ua_Addrs b) \<le> 10"
    and "\<forall>x \<in> set (ua_Addrs a). length x < 2 ^ 32" "\<forall>x \<in> set (ua_Addrs b). length x < 2 ^ 32"
    and "digest_written a = digest_written b"
  shows "ua_Addrs a = ua_Addrs b \<and> ua_Counter a = ua_Counter b"
proof -
  have parts: "ann_le32 (of_nat (length (ua_Addrs a))) = ann_le32 (of_nat (length (ua_Addrs b)))"
    "concat (map (\<lambda>a. ann_le32 (of_nat (length a)) @ a) (ua_Addrs a)) @ ann_le64 (ua_Counter a) =
     concat (map (\<lambda>a. ann_le32 (of_nat (length a)) @ a) (ua_Addrs b)) @ ann_le64 (ua_Counter b)"
    using assms(5) by (auto simp: digest_written_def append_eq_append_conv)
  have "(of_nat (length (ua_Addrs a)) :: u32) = of_nat (length (ua_Addrs b))"
    using parts(1) by (auto simp: ann_le32_def dest: be32_inj')
  then have "length (ua_Addrs a) = length (ua_Addrs b)" using assms(1,2) by (simp add: unat_of_nat word_unat_eq_iff)
  from len_prefixed_list_inj [OF this assms(3,4) parts(2)] show ?thesis by (simp add: rev_be64_inj)
qed

lemma valid_unsigned:
  assumes "validate_unsigned np uann = None"
  shows "length (ua_Addrs uann) \<le> 10" "\<forall>x \<in> set (ua_Addrs uann). length x < 2 ^ 32"
proof -
  show "length (ua_Addrs uann) \<le> 10"
    using assms by (auto simp: validate_unsigned_def maxAddrsInAnnouncement_def split: if_splits)
  have "\<forall>x \<in> set (ua_Addrs uann). length x \<le> 47"
    using assms
    by (auto simp: validate_unsigned_def isValidForAnnouncement_def parseAddrPortForAnnouncement_def Let_def split: if_splits)
  then show "\<forall>x \<in> set (ua_Addrs uann). length x < 2 ^ 32" by force
qed

text \<open>The signature of an announcement cannot be taken for one on other addresses, another counter, or a knock.\<close>

lemma ann_digest_inj:
  assumes "collision_free C" "ann_digest C np a = Inr d" "ann_digest C np b = Inr d"
  shows "ua_Addrs a = ua_Addrs b \<and> ua_Counter a = ua_Counter b"
proof -
  have valid: "validate_unsigned np a = None" "validate_unsigned np b = None"
    "sha256 C (digest_written a) = sha256 C (digest_written b)"
    using assms(2,3) by (auto simp: ann_digest_def split: option.splits)
  then have "digest_written a = digest_written b" using valid(3) collision_freeD [OF assms(1)] by simp
  from digest_written_inj [OF valid_unsigned(1) [OF valid(1)] valid_unsigned(1) [OF valid(2)]
      valid_unsigned(2) [OF valid(1)] valid_unsigned(2) [OF valid(2)] this]
  show ?thesis .
qed

lemma ann_digest_no_knock:
  assumes "\<And>x. length (sha256 C x) = 32" "ann_digest C np a = Inr d" "length peer = 32"
  shows "d \<noteq> messageToSign peer"
proof
  assume "d = messageToSign peer"
  moreover have "length d = 32" using assms(1,2) by (auto simp: ann_digest_def split: option.splits)
  ultimately show False using assms(3) by (simp add: messageToSign_def domainSeparator_def)
qed

text \<open>A signed announcement verifies.\<close>

lemma ann_sign_verify:
  assumes "\<And>m. ed25519_Verify C (sk_Public sk) m (sk_Sign sk m)" "length (sk_Public sk) = 32" "ann_sign C np sk uann = Inr ann"
  shows "ann_verify C np ann = None" "ann_PeerID ann = Some (sk_Public sk)"
    "ua_Addrs ann = ua_Addrs uann" "ua_Counter ann = ua_Counter uann"
proof -
  have valid: "validate_unsigned np uann = None"
    and ann: "ann = \<lparr>ua_Addrs = ua_Addrs uann, ua_Counter = ua_Counter uann, an_PublicKey = sk_Public sk,
      an_Sig = Some (sk_Sign sk (sha256 C (digest_written uann)))\<rparr>"
    using assms(3) by (auto simp: ann_sign_def ann_digest_def Let_def split: option.splits)
  have "validate_unsigned np ann = validate_unsigned np uann" "digest_written ann = digest_written uann"
    by (simp_all add: ann validate_unsigned_def digest_written_def)
  then show "ann_verify C np ann = None"
    using valid assms(1,2) by (simp add: ann_verify_def ann_validate_def ann_digest_def ed25519_PublicKeySize_def) (simp add: ann)
  show "ann_PeerID ann = Some (sk_Public sk)" using assms(2) by (simp add: ann ann_PeerID_def PeerIDFromPublicKey_def ed25519_PublicKeySize_def)
  show "ua_Addrs ann = ua_Addrs uann" "ua_Counter ann = ua_Counter uann" by (simp_all add: ann)
qed

end
