(* ===== verification/RageDisco.thy ===== *)
theory RageDisco
  imports RageAnnounce
begin

text \<open>
  Peer discovery (\<open>networking/ragedisco/discovery_protocol.go\<close>, \<open>group.go\<close>): the groups of peers, the best
  known announcement of each peer, the exchange of announcements, and which peers to keep a connection to.
\<close>

section \<open>Counters in maps\<close>

text \<open>\<open>m[k]\<close>, \<open>m[k]++\<close>, and \<open>m[k]--\<close> with the deletion of an entry that has become 0.\<close>

definition gm_count :: "('k, int) gomap \<Rightarrow> 'k \<Rightarrow> int" where
  "gm_count m k = (case map_of m k of None \<Rightarrow> 0 | Some c \<Rightarrow> c)"

definition gm_incr :: "'k \<Rightarrow> ('k, int) gomap \<Rightarrow> ('k, int) gomap" where
  "gm_incr k m = AList.update k (gm_count m k + 1) m"

definition gm_decr :: "'k \<Rightarrow> ('k, int) gomap \<Rightarrow> ('k, int) gomap" where
  "gm_decr k m = (let c = gm_count m k - 1 in if c = 0 then AList.delete k m else AList.update k c m)"

fun foldG :: "('x \<Rightarrow> 's \<Rightarrow> 's go) \<Rightarrow> 'x list \<Rightarrow> 's \<Rightarrow> 's go" where
  "foldG f [] s = Inr s"
| "foldG f (x # xs) s = bindG (f x s) (\<lambda>s. foldG f xs s)"

section \<open>State\<close>

record disco_group =
  dg_oracleNodes :: "PeerID list"
  dg_bootstrapperNodes :: "(PeerID \<times> address list) list"

definition dg_peerIDs :: "disco_group \<Rightarrow> PeerID list" where
  "dg_peerIDs g = dg_oracleNodes g @ map fst (dg_bootstrapperNodes g)"

definition dg_hasOracle :: "disco_group \<Rightarrow> PeerID \<Rightarrow> bool" where
  "dg_hasOracle g hpid = (hpid \<in> set (dg_oracleNodes g))"

definition equalAddrs :: "address list \<Rightarrow> address list \<Rightarrow> bool" where
  "equalAddrs a b = (length a = length b \<and> (\<forall>i \<in> set [0..<length a]. a ! i = b ! i))"

datatype disco_lifecycle = DiscoUnstarted | DiscoStarted | DiscoClosed

text \<open>What the protocol sends on its channels and writes to the database is recorded in a log.\<close>

datatype disco_log =
    DlConnectivity bool PeerID
  | DlBump announcement
  | DlOutgoing disco_message PeerID
  | DlStore PeerID bytes

type_synonym config_digest = bytes

record disco_state =
  dp_state :: disco_lifecycle
  dp_bestAnnouncement :: "(PeerID, announcement) gomap"
  dp_groups :: "(config_digest, disco_group) gomap"
  dp_bootstrappers :: "(PeerID, (address, int) gomap) gomap"
  dp_numGroupsByOracle :: "(PeerID, int) gomap"
  dp_numGroupsByBootstrapper :: "(PeerID, int) gomap"
  dp_calls :: nat
  dp_log :: "disco_log list"

text \<open>
  The environment: the key and addresses of the host, the database (which may be nil) with the wire format of
  its entries, and the order in which maps are visited.
\<close>

record disco_env =
  de_crypto :: crypto
  de_netip :: netip
  de_key :: secret_key
  de_ownAddrs :: "address list"
  de_db :: bool
  de_ReadAnnouncements :: "nat \<Rightarrow> PeerID list \<Rightarrow> (bytes \<times> bytes) list option"
  de_Unmarshal :: "bytes \<Rightarrow> pb_SignedAnnouncement option"
  de_Marshal :: "pb_SignedAnnouncement \<Rightarrow> bytes"
  de_order :: "nat \<Rightarrow> PeerID list \<Rightarrow> PeerID list"

abbreviation de_ownID :: "disco_env \<Rightarrow> PeerID" where
  "de_ownID env \<equiv> sk_Public (de_key env)"

datatype disco_error =
    DiscoPeerID
  | DiscoNotOracle
  | DiscoInvalid announcement_error
  | DiscoBump announcement_error
  | DiscoGroupExists
  | DiscoGroupUnknown
  | DiscoWrongState

definition dp_emit :: "disco_log \<Rightarrow> disco_state \<Rightarrow> disco_state" where
  "dp_emit l st = st\<lparr>dp_log := dp_log st @ [l]\<rparr>"

section \<open>Announcements\<close>

definition lockedBumpOwnAnnouncement ::
  "disco_env \<Rightarrow> disco_state \<Rightarrow> (announcement_error + announcement option) \<times> disco_state" where
  "lockedBumpOwnAnnouncement env st =
     (let bump = (\<lambda>newctr.
            case ann_sign (de_crypto env) (de_netip env) (de_key env) \<lparr>ua_Addrs = de_ownAddrs env, ua_Counter = newctr\<rparr> of
              Inl err \<Rightarrow> (Inl err, st)
            | Inr sann \<Rightarrow>
                (Inr (Some sann), st\<lparr>dp_bestAnnouncement := AList.update (de_ownID env) sann (dp_bestAnnouncement st)\<rparr>))
      in case map_of (dp_bestAnnouncement st) (de_ownID env) of
           None \<Rightarrow> bump 0
         | Some oldann \<Rightarrow>
             if equalAddrs (ua_Addrs oldann) (de_ownAddrs env) then (Inr None, st) else bump (ua_Counter oldann + 1))"

text \<open>The second component is the message the code sends while it still holds the lock.\<close>

definition lockedProcessAnnouncement ::
  "disco_env \<Rightarrow> announcement \<Rightarrow> disco_state \<Rightarrow> disco_error option \<times> disco_log option \<times> disco_state" where
  "lockedProcessAnnouncement env ann st =
     (case ann_PeerID ann of
        None \<Rightarrow> (Some DiscoPeerID, None, st)
      | Some pid \<Rightarrow>
          if gm_count (dp_numGroupsByOracle st) pid = 0 then (Some DiscoNotOracle, None, st)
          else case ann_verify (de_crypto env) (de_netip env) ann of
            Some err \<Rightarrow> (Some (DiscoInvalid err), None, st)
          | None \<Rightarrow>
              let localann = map_of (dp_bestAnnouncement st) pid
              in if localann = None \<or> ua_Counter (the localann) \<le> ua_Counter ann
                 then
                   if localann \<noteq> None \<and> pid \<noteq> de_ownID env \<and> ua_Counter (the localann) = ua_Counter ann
                   then (None, None, st)
                   else
                     let st = st\<lparr>dp_bestAnnouncement := AList.update pid ann (dp_bestAnnouncement st)\<rparr>
                     in if pid = de_ownID env
                        then (case lockedBumpOwnAnnouncement env st of
                                (Inl err, st) \<Rightarrow> (Some (DiscoBump err), None, st)
                              | (Inr None, st) \<Rightarrow> (None, None, st)
                              | (Inr (Some bumpedann), st) \<Rightarrow> (None, Some (DlBump bumpedann), st))
                        else (None, Some (DlConnectivity True pid), st)
                 else (None, None, st))"

definition processAnnouncement :: "disco_env \<Rightarrow> announcement \<Rightarrow> disco_state \<Rightarrow> disco_state" where
  "processAnnouncement env ann st =
     (case lockedProcessAnnouncement env ann st of (_, send, st) \<Rightarrow>
        (case send of None \<Rightarrow> st | Some l \<Rightarrow> dp_emit l st))"

fun dp_receive :: "disco_env \<Rightarrow> disco_message \<Rightarrow> disco_state \<Rightarrow> disco_state" where
  "dp_receive env (DiscoAnnouncement ann) st = processAnnouncement env ann st"
| "dp_receive env (DiscoReconcile anns) st = fold (processAnnouncement env) anns st"

section \<open>The database\<close>

definition lockedLoadFromDB :: "disco_env \<Rightarrow> PeerID list \<Rightarrow> disco_state \<Rightarrow> disco_state" where
  "lockedLoadFromDB env ragePeerIDs st =
     (if ragePeerIDs = [] \<or> \<not> de_db env then st
      else
        let annByID = de_ReadAnnouncements env (dp_calls st) ragePeerIDs;
            st = st\<lparr>dp_calls := Suc (dp_calls st)\<rparr>
        in case annByID of
             None \<Rightarrow> st
           | Some anns \<Rightarrow>
               fold (\<lambda>(peerID, dbannBytes) st.
                 case de_Unmarshal env dbannBytes of
                   None \<Rightarrow> st
                 | Some pm \<Rightarrow> processAnnouncement env (signedAnnouncementFromProto pm) st) anns st)"

definition saveAnnouncementToDB :: "disco_env \<Rightarrow> announcement \<Rightarrow> disco_state \<Rightarrow> disco_state" where
  "saveAnnouncementToDB env ann st =
     (if \<not> de_db env then st
      else case ann_PeerID ann of
        None \<Rightarrow> st
      | Some pid \<Rightarrow> dp_emit (DlStore pid (de_Marshal env (ann_toProto ann))) st)"

definition saveToDB :: "disco_env \<Rightarrow> disco_state \<Rightarrow> disco_state" where
  "saveToDB env st =
     (if \<not> de_db env then st
      else
        let pids = de_order env (dp_calls st) (map fst (dp_bestAnnouncement st));
            anns = List.map_filter (map_of (dp_bestAnnouncement st)) pids
        in fold (saveAnnouncementToDB env) anns (st\<lparr>dp_calls := Suc (dp_calls st)\<rparr>))"

section \<open>Groups\<close>

definition add_oracle :: "PeerID \<Rightarrow> PeerID list \<times> (PeerID, int) gomap \<Rightarrow> PeerID list \<times> (PeerID, int) gomap" where
  "add_oracle oid s =
     (let (newPeerIDs, num) = s
      in (if gm_count num oid = 0 then newPeerIDs @ [oid] else newPeerIDs, gm_incr oid num))"

type_synonym bootstrapper_maps = "(PeerID, int) gomap \<times> (PeerID, (address, int) gomap) gomap"

definition add_addr :: "PeerID \<Rightarrow> address \<Rightarrow> (PeerID, (address, int) gomap) gomap \<Rightarrow> (PeerID, (address, int) gomap) gomap" where
  "add_addr bid addr boots = AList.update bid (gm_incr addr (case map_of boots bid of None \<Rightarrow> [] | Some m \<Rightarrow> m)) boots"

definition add_bootstrapper :: "PeerID \<times> address list \<Rightarrow> bootstrapper_maps \<Rightarrow> bootstrapper_maps" where
  "add_bootstrapper bs s =
     (let (bid, addrs) = bs; (num, boots) = s
      in (gm_incr bid num, fold (add_addr bid) addrs boots))"

definition addGroup ::
  "disco_env \<Rightarrow> config_digest \<Rightarrow> PeerID list \<Rightarrow> (PeerID \<times> address list) list \<Rightarrow> disco_state \<Rightarrow> disco_error option \<times> disco_state" where
  "addGroup env digest onodes bnodes st =
     (if map_of (dp_groups st) digest \<noteq> None then (Some DiscoGroupExists, st)
      else
        let newGroup = \<lparr>dg_oracleNodes = onodes, dg_bootstrapperNodes = bnodes\<rparr>;
            (newPeerIDs, numO) = fold add_oracle onodes ([], dp_numGroupsByOracle st);
            (numB, boots) = fold add_bootstrapper bnodes (dp_numGroupsByBootstrapper st, dp_bootstrappers st);
            st = st\<lparr>dp_groups := AList.update digest newGroup (dp_groups st), dp_numGroupsByOracle := numO,
                    dp_numGroupsByBootstrapper := numB, dp_bootstrappers := boots\<rparr>;
            st = fold (\<lambda>pid. dp_emit (DlConnectivity True pid)) (dg_peerIDs newGroup) st
        in (None, lockedLoadFromDB env newPeerIDs st))"

definition rm_oracle :: "disco_env \<Rightarrow> PeerID \<Rightarrow> disco_state \<Rightarrow> disco_state" where
  "rm_oracle env oid st =
     (let gone = (gm_count (dp_numGroupsByOracle st) oid - 1 = 0);
          st = (if gone
                then
                  let st = (case map_of (dp_bestAnnouncement st) oid of
                              None \<Rightarrow> st | Some ann \<Rightarrow> saveAnnouncementToDB env ann st)
                  in if oid \<noteq> de_ownID env
                     then st\<lparr>dp_bestAnnouncement := AList.delete oid (dp_bestAnnouncement st)\<rparr> else st
                else st)
      in st\<lparr>dp_numGroupsByOracle := gm_decr oid (dp_numGroupsByOracle st)\<rparr>)"

text \<open>Decrementing an entry of a map that does not exist is a write to a nil map.\<close>

definition rm_addr :: "PeerID \<Rightarrow> address \<Rightarrow> (PeerID, (address, int) gomap) gomap \<Rightarrow> (PeerID, (address, int) gomap) gomap go" where
  "rm_addr bid addr boots =
     (case map_of boots bid of
        None \<Rightarrow> Inl NilDereference
      | Some m \<Rightarrow> Inr (AList.update bid (gm_decr addr m) boots))"

definition rm_bootstrapper :: "PeerID \<times> address list \<Rightarrow> bootstrapper_maps \<Rightarrow> bootstrapper_maps go" where
  "rm_bootstrapper binfo s =
     (let (bid, addrs) = binfo; (num, boots) = s
      in if gm_count num bid - 1 = 0 then Inr (AList.delete bid num, AList.delete bid boots)
         else
           bindG (foldG (rm_addr bid) addrs boots) (\<lambda>boots. Inr (gm_decr bid num, boots)))"

definition removeGroup :: "disco_env \<Rightarrow> config_digest \<Rightarrow> disco_state \<Rightarrow> (disco_error option \<times> disco_state) go" where
  "removeGroup env digest st =
     (case map_of (dp_groups st) digest of
        None \<Rightarrow> Inr (Some DiscoGroupUnknown, st)
      | Some goneGroup \<Rightarrow>
          let st = st\<lparr>dp_groups := AList.delete digest (dp_groups st)\<rparr>;
              st = fold (rm_oracle env) (dg_oracleNodes goneGroup) st
          in bindG (foldG rm_bootstrapper (dg_bootstrapperNodes goneGroup)
                 (dp_numGroupsByBootstrapper st, dp_bootstrappers st)) (\<lambda>(numB, boots).
             let st = st\<lparr>dp_numGroupsByBootstrapper := numB, dp_bootstrappers := boots\<rparr>
             in Inr (None, fold (\<lambda>pid st.
                  if gm_count (dp_numGroupsByOracle st) pid + gm_count (dp_numGroupsByBootstrapper st) pid = 0
                  then dp_emit (DlConnectivity False pid) st else st) (dg_peerIDs goneGroup) st)))"

text \<open>\<open>order\<close> is the order in which the map of addresses is visited.\<close>

definition FindPeer :: "(address list \<Rightarrow> address list) \<Rightarrow> PeerID \<Rightarrow> disco_state \<Rightarrow> address list" where
  "FindPeer order peer st =
     (let baddrs = (case map_of (dp_bootstrappers st) peer of None \<Rightarrow> [] | Some m \<Rightarrow> order (map fst m));
          addrs = (case map_of (dp_bestAnnouncement st) peer of None \<Rightarrow> [] | Some ann \<Rightarrow> ua_Addrs ann)
      in dedup (baddrs @ addrs))"

section \<open>Sending\<close>

definition lockedAllowedPeers :: "disco_env \<Rightarrow> nat \<Rightarrow> announcement \<Rightarrow> disco_state \<Rightarrow> PeerID list" where
  "lockedAllowedPeers env k ann st =
     (case ann_PeerID ann of
        None \<Rightarrow> []
      | Some annPeerID \<Rightarrow>
          let peers = remdups (concat (map dg_peerIDs (filter (\<lambda>g. dg_hasOracle g annPeerID) (map snd (dp_groups st)))))
          in filter (\<lambda>pid. pid \<noteq> de_ownID env) (de_order env k peers))"

definition sendToAllowedPeers :: "disco_env \<Rightarrow> announcement \<Rightarrow> disco_state \<Rightarrow> disco_state" where
  "sendToAllowedPeers env ann st =
     (let allowedPeers = lockedAllowedPeers env (dp_calls st) ann st
      in fold (\<lambda>pid. dp_emit (DlOutgoing (DiscoAnnouncement ann) pid)) allowedPeers (st\<lparr>dp_calls := Suc (dp_calls st)\<rparr>))"

text \<open>The reconciliation collects, for each peer, the best announcements it may learn.\<close>

definition reconcile_collect ::
  "disco_env \<Rightarrow> disco_state \<Rightarrow> nat \<times> (PeerID, announcement list) gomap \<Rightarrow> PeerID \<Rightarrow> nat \<times> (PeerID, announcement list) gomap" where
  "reconcile_collect env st s owner =
     (case map_of (dp_bestAnnouncement st) owner of
        None \<Rightarrow> s
      | Some ann \<Rightarrow>
          let (k, byPeer) = s
          in (Suc k, fold (\<lambda>pid m. AList.update pid ((case map_of m pid of None \<Rightarrow> [] | Some anns \<Rightarrow> anns) @ [ann]) m)
                       (lockedAllowedPeers env k ann st) byPeer))"

definition sendReconcile :: "disco_env \<Rightarrow> disco_state \<Rightarrow> disco_state" where
  "sendReconcile env st =
     (let owners = de_order env (dp_calls st) (map fst (dp_bestAnnouncement st));
          (k, reconcileByPeer) = foldl (reconcile_collect env st) (Suc (dp_calls st), []) owners;
          pids = de_order env k (map fst reconcileByPeer)
      in fold (\<lambda>pid st. case map_of reconcileByPeer pid of
                 None \<Rightarrow> st | Some anns \<Rightarrow> dp_emit (DlOutgoing (DiscoReconcile anns) pid) st)
           pids (st\<lparr>dp_calls := Suc k\<rparr>))"

section \<open>Start and stop\<close>

definition newDiscoveryProtocol :: "disco_env \<Rightarrow> disco_state option" where
  "newDiscoveryProtocol env =
     (case PeerIDFromPublicKey (sk_Public (de_key env)) of
        None \<Rightarrow> None
      | Some _ \<Rightarrow>
          Some \<lparr>dp_state = DiscoUnstarted, dp_bestAnnouncement = [], dp_groups = [], dp_bootstrappers = [],
                dp_numGroupsByOracle = [], dp_numGroupsByBootstrapper = [], dp_calls = 0, dp_log = []\<rparr>)"

definition disco_Close :: "disco_state \<Rightarrow> disco_error option \<times> disco_state" where
  "disco_Close st =
     (if dp_state st \<noteq> DiscoStarted then (Some DiscoWrongState, st) else (None, st\<lparr>dp_state := DiscoClosed\<rparr>))"

text \<open>A deferred call closes the protocol whenever \<open>Start\<close> fails.\<close>

definition disco_Start :: "disco_env \<Rightarrow> disco_state \<Rightarrow> disco_error option \<times> disco_state" where
  "disco_Start env st =
     (if dp_state st \<noteq> DiscoUnstarted then (Some DiscoWrongState, snd (disco_Close st))
      else
        case lockedBumpOwnAnnouncement env (st\<lparr>dp_state := DiscoStarted\<rparr>) of
          (Inl err, st) \<Rightarrow> (Some (DiscoBump err), snd (disco_Close st))
        | (Inr _, st) \<Rightarrow> (None, st))"

section \<open>The protocol\<close>

datatype disco_case =
    DcAddGroup config_digest "PeerID list" "(PeerID \<times> address list) list"
  | DcRemoveGroup config_digest
  | DcReceive disco_message
  | DcBroadcast announcement
  | DcTick
  | DcSave

fun disco_process :: "disco_env \<Rightarrow> disco_case \<Rightarrow> disco_state \<Rightarrow> disco_state go" where
  "disco_process env (DcAddGroup digest onodes bnodes) st = Inr (snd (addGroup env digest onodes bnodes st))"
| "disco_process env (DcRemoveGroup digest) st = bindG (removeGroup env digest st) (\<lambda>(_, st). Inr st)"
| "disco_process env (DcReceive m) st = Inr (dp_receive env m st)"
| "disco_process env (DcBroadcast ann) st = Inr (sendToAllowedPeers env ann st)"
| "disco_process env DcTick st = Inr (sendReconcile env st)"
| "disco_process env DcSave st = Inr (saveToDB env st)"

fun disco_run :: "disco_env \<Rightarrow> disco_case list \<Rightarrow> disco_state \<Rightarrow> disco_state go" where
  "disco_run env [] st = Inr st"
| "disco_run env (c # cs) st = bindG (disco_process env c st) (disco_run env cs)"

end
