(* ===== verification/RageDiscoInv.thy ===== *)
theory RageDiscoInv
  imports RageDisco
begin

text \<open>
  What peer discovery keeps: its counters count the groups, its connections are those to the peers of its
  groups, its announcements are valid, and the own addresses win over older announcements.
\<close>

section \<open>Counters count multisets\<close>

definition counts :: "('k, int) gomap \<Rightarrow> 'k multiset \<Rightarrow> bool" where
  "counts m M \<longleftrightarrow> map_ok m \<and> (\<forall>k. map_of m k = (if k \<in># M then Some (int (count M k)) else None))"

lemma counts_Nil [simp]: "counts [] {#}"
  by (simp add: counts_def)

lemma counts_count: "counts m M \<Longrightarrow> gm_count m k = int (count M k)"
  by (simp add: counts_def gm_count_def count_eq_zero_iff)

lemma counts_incr: "counts m M \<Longrightarrow> counts (gm_incr k m) (add_mset k M)"
  by (auto simp: gm_incr_def counts_count) (auto simp: counts_def count_eq_zero_iff)

lemma counts_decr:
  assumes "counts m M" "k \<in># M"
  shows "counts (gm_decr k m) (M - {#k#})"
proof -
  have c: "gm_count m k = int (count M k)" "0 < count M k" using counts_count assms by auto
  show ?thesis
  proof (cases "count M k = 1")
    case True
    then have "gm_decr k m = AList.delete k m" using c by (simp add: gm_decr_def)
    moreover have "x \<in># M - {#k#} \<longleftrightarrow> x \<noteq> k \<and> x \<in># M" for x
      using True by (auto simp: in_diff_count count_single)
    ultimately show ?thesis using assms(1) by (auto simp: counts_def map_of_delete)
  next
    case False
    then have "gm_decr k m = AList.update k (int (count M k) - 1) m" using c by (simp add: gm_decr_def)
    moreover have "1 < count M k" using False c(2) by linarith
    then have "x \<in># M - {#k#} \<longleftrightarrow> x \<in># M" for x
      by (cases "x = k") (auto simp: in_diff_count simp flip: count_greater_zero_iff)
    ultimately show ?thesis using assms(1) c(2) by (auto simp: counts_def of_nat_diff)
  qed
qed

lemma counts_fold_incr: "counts m M \<Longrightarrow> counts (fold gm_incr ks m) (M + mset ks)"
proof (induction ks arbitrary: m M)
  case (Cons k ks)
  from Cons.IH [OF counts_incr [OF Cons.prems]] show ?case by simp
qed simp

lemma foldG_InrI:
  assumes "P s M" "\<And>x s M. P s (add_mset x M) \<Longrightarrow> \<exists>s'. f x s = Inr s' \<and> P s' M"
    and "M = mset xs + N"
  shows "\<exists>s'. foldG f xs s = Inr s' \<and> P s' N"
  using assms(1,3)
proof (induction xs arbitrary: s M)
  case (Cons x xs)
  then obtain s1 where "f x s = Inr s1" "P s1 (mset xs + N)" using assms(2) [of s x "mset xs + N"] by auto
  then show ?case using Cons.IH [of s1 "mset xs + N"] by simp
qed simp

section \<open>Bootstrappers\<close>

text \<open>The addresses configured for a bootstrapper in a multiset of entries.\<close>

definition addrs_of :: "(PeerID \<times> address list) multiset \<Rightarrow> PeerID \<Rightarrow> address multiset" where
  "addrs_of N bid = (\<Sum>n \<in># filter_mset (\<lambda>n. fst n = bid) N. mset (snd n))"

definition boots_ok :: "(PeerID \<times> address list) multiset \<Rightarrow> bootstrapper_maps \<Rightarrow> bool" where
  "boots_ok N s \<longleftrightarrow> counts (fst s) (image_mset fst N) \<and> map_ok (snd s) \<and>
     (\<forall>bid. case map_of (snd s) bid of
        None \<Rightarrow> addrs_of N bid = {#}
      | Some m \<Rightarrow> counts m (addrs_of N bid) \<and> bid \<in># image_mset fst N)"

lemma addrs_of_add: "addrs_of (add_mset (b, as) N) bid = (if bid = b then mset as + addrs_of N bid else addrs_of N bid)"
  by (auto simp: addrs_of_def)

text \<open>What \<open>boots_ok\<close> says of one bootstrapper.\<close>

definition boot_ok :: "(PeerID, (address, int) gomap) gomap \<Rightarrow> PeerID \<Rightarrow> address multiset \<Rightarrow> bool" where
  "boot_ok boots bid A \<longleftrightarrow> map_ok boots \<and> (case map_of boots bid of None \<Rightarrow> A = {#} | Some m \<Rightarrow> counts m A)"

lemma add_addr_ok: "boot_ok boots bid A \<Longrightarrow> boot_ok (add_addr bid a boots) bid (add_mset a A)"
  by (cases "map_of boots bid") (auto simp: boot_ok_def add_addr_def intro: counts_incr)

lemma add_addrs:
  "boot_ok boots bid A \<Longrightarrow> boot_ok (fold (add_addr bid) addrs boots) bid (A + mset addrs) \<and>
   (\<forall>b. b \<noteq> bid \<longrightarrow> map_of (fold (add_addr bid) addrs boots) b = map_of boots b)"
proof (induction addrs arbitrary: boots A)
  case (Cons a addrs)
  from Cons.IH [OF add_addr_ok [OF Cons.prems, of a]] show ?case by (simp add: add_addr_def)
qed simp

lemma rm_addrs:
  assumes "boot_ok boots bid (mset addrs + A)"
  shows "\<exists>boots'. foldG (rm_addr bid) addrs boots = Inr boots' \<and> boot_ok boots' bid A \<and>
    (\<forall>b. b \<noteq> bid \<longrightarrow> map_of boots' b = map_of boots b) \<and> (map_of boots bid = None \<longrightarrow> map_of boots' bid = None)"
  using assms
proof (induction addrs arbitrary: boots)
  case (Cons a addrs)
  obtain m where m: "map_of boots bid = Some m" "counts m (mset (a # addrs) + A)" "map_ok boots"
    using Cons.prems by (auto simp: boot_ok_def split: option.splits)
  have "counts (gm_decr a m) (mset addrs + A)" using counts_decr [OF m(2), of a] by simp
  then have "boot_ok (AList.update bid (gm_decr a m) boots) bid (mset addrs + A)" using m(3) by (simp add: boot_ok_def)
  from Cons.IH [OF this] show ?case using m(1) by (auto simp: rm_addr_def)
qed simp

lemma boots_ok_iff:
  "boots_ok N s \<longleftrightarrow> counts (fst s) (image_mset fst N) \<and> map_ok (snd s) \<and>
     (\<forall>bid. boot_ok (snd s) bid (addrs_of N bid) \<and> (bid \<notin># image_mset fst N \<longrightarrow> map_of (snd s) bid = None))"
  by (auto simp: boots_ok_def boot_ok_def split: option.splits)

lemma add_bootstrapper_ok:
  assumes "boots_ok N s"
  shows "boots_ok (add_mset n N) (add_bootstrapper n s)"
proof -
  obtain b as num boots where n: "n = (b, as)" and s: "s = (num, boots)" by (metis surj_pair)
  have ok: "counts num (image_mset fst N)" "\<And>x. boot_ok boots x (addrs_of N x)"
      "\<And>x. x \<notin># image_mset fst N \<Longrightarrow> map_of boots x = None"
    using assms by (auto simp: boots_ok_iff s)
  note add = add_addrs [OF ok(2) [of b], of as]
  have "boot_ok (fold (add_addr b) as boots) x (addrs_of (add_mset n N) x)" for x
  proof (cases "x = b")
    case True
    then show ?thesis using add by (simp add: n addrs_of_add add.commute)
  next
    case False
    then show ?thesis using add ok(2) [of x] by (simp add: n addrs_of_add boot_ok_def)
  qed
  moreover have "map_of (fold (add_addr b) as boots) x = None" if "x \<notin># image_mset fst (add_mset n N)" for x
    using that add ok(3) [of x] by (simp add: n)
  ultimately show ?thesis
    using counts_incr [OF ok(1), of b] add by (simp add: boots_ok_iff n s add_bootstrapper_def boot_ok_def)
qed

lemma rm_bootstrapper_ok:
  assumes "boots_ok (add_mset n N) s"
  shows "\<exists>s'. rm_bootstrapper n s = Inr s' \<and> boots_ok N s'"
proof -
  obtain b as num boots where n: "n = (b, as)" and s: "s = (num, boots)" by (metis surj_pair)
  have num: "counts num (add_mset b (image_mset fst N))" and ok: "map_ok boots" "\<And>x. boot_ok boots x (addrs_of (add_mset n N) x)"
      "\<And>x. x \<notin># image_mset fst (add_mset n N) \<Longrightarrow> map_of boots x = None"
    using assms by (auto simp: boots_ok_iff s n)
  have decr: "counts (gm_decr b num) (image_mset fst N)" using counts_decr [OF num, of b] by simp
  show ?thesis
  proof (cases "b \<in># image_mset fst N")
    case False
    then have gone: "gm_count num b - 1 = 0" using counts_count [OF num, of b] by (simp add: count_eq_zero_iff)
    have "\<forall>n \<in># N. fst n \<noteq> b" using False by force
    then have "filter_mset (\<lambda>n. fst n = b) N = {#}" by (simp add: filter_mset_eq_conv)
    then have "addrs_of N b = {#}" by (simp only: addrs_of_def image_mset_empty sum_mset.empty)
    then have "boot_ok (AList.delete b boots) x (addrs_of N x)" for x
      using ok(2) [of x] by (cases "x = b") (simp_all add: boot_ok_def map_of_delete addrs_of_add n)
    moreover have "map_of (AList.delete b boots) x = None" if "x \<notin># image_mset fst N" for x
      using that ok(3) [of x] by (cases "x = b") (simp_all add: map_of_delete n)
    ultimately show ?thesis
      using decr gone ok(1) by (simp add: rm_bootstrapper_def n s boots_ok_iff gm_decr_def)
  next
    case True
    then have stays: "gm_count num b - 1 \<noteq> 0" using counts_count [OF num, of b] by simp
    have "boot_ok boots b (mset as + addrs_of N b)" using ok(2) [of b] by (simp add: addrs_of_add n)
    then obtain boots' where b': "foldG (rm_addr b) as boots = Inr boots'" "boot_ok boots' b (addrs_of N b)"
        "\<forall>x. x \<noteq> b \<longrightarrow> map_of boots' x = map_of boots x"
      using rm_addrs by blast
    have "boot_ok boots' x (addrs_of N x)" for x
      using b'(2,3) ok(2) [of x] by (cases "x = b") (simp_all add: boot_ok_def addrs_of_add n)
    moreover have "map_of boots' x = None" if "x \<notin># image_mset fst N" for x
      using that True b'(3) ok(3) [of x] by (cases "x = b") (simp_all add: n)
    moreover have "map_ok boots'" using b'(2) by (simp add: boot_ok_def)
    ultimately show ?thesis
      using b'(1) decr stays by (simp add: rm_bootstrapper_def n s boots_ok_iff)
  qed
qed

section \<open>The invariant\<close>

definition oracles_of :: "(config_digest, disco_group) gomap \<Rightarrow> PeerID multiset" where
  "oracles_of gs = (\<Sum>(_, g) \<in># mset gs. mset (dg_oracleNodes g))"

definition nodes_of :: "(config_digest, disco_group) gomap \<Rightarrow> (PeerID \<times> address list) multiset" where
  "nodes_of gs = (\<Sum>(_, g) \<in># mset gs. mset (dg_bootstrapperNodes g))"

text \<open>The peers a connection is wanted to, after the messages sent so far.\<close>

fun connect :: "disco_log \<Rightarrow> PeerID set \<Rightarrow> PeerID set" where
  "connect (DlConnectivity True pid) S = insert pid S"
| "connect (DlConnectivity False pid) S = S - {pid}"
| "connect _ S = S"

definition connected :: "disco_log list \<Rightarrow> PeerID set" where
  "connected log = fold connect log {}"

definition best_ok :: "disco_env \<Rightarrow> PeerID set \<Rightarrow> (PeerID, announcement) gomap \<Rightarrow> bool" where
  "best_ok env P best \<longleftrightarrow> map_ok best \<and>
     (\<forall>p a. map_of best p = Some a \<longrightarrow>
        ann_verify (de_crypto env) (de_netip env) a = None \<and> an_PublicKey a = p \<and> (p = de_ownID env \<or> p \<in> P)) \<and>
     (\<exists>a. map_of best (de_ownID env) = Some a \<and> ua_Addrs a = de_ownAddrs env)"

definition disco_inv :: "disco_env \<Rightarrow> disco_state \<Rightarrow> bool" where
  "disco_inv env st \<longleftrightarrow> map_ok (dp_groups st) \<and>
     counts (dp_numGroupsByOracle st) (oracles_of (dp_groups st)) \<and>
     boots_ok (nodes_of (dp_groups st)) (dp_numGroupsByBootstrapper st, dp_bootstrappers st) \<and>
     best_ok env (set_mset (oracles_of (dp_groups st))) (dp_bestAnnouncement st) \<and>
     connected (dp_log st) = set_mset (oracles_of (dp_groups st)) \<union> fst ` set_mset (nodes_of (dp_groups st))"

text \<open>What holds of a host that has started: its key is an Ed25519 key, its addresses can be announced.\<close>

definition disco_env_ok :: "disco_env \<Rightarrow> bool" where
  "disco_env_ok env \<longleftrightarrow> length (de_ownID env) = 32 \<and>
     (\<forall>m. ed25519_Verify (de_crypto env) (de_ownID env) m (sk_Sign (de_key env) m)) \<and>
     (\<forall>c. validate_unsigned (de_netip env) \<lparr>ua_Addrs = de_ownAddrs env, ua_Counter = c\<rparr> = None)"

lemma connected_emit: "connected (log @ [l]) = connect l (connected log)"
  by (simp add: connected_def)

lemma equalAddrs_iff: "equalAddrs a b \<longleftrightarrow> a = b"
  unfolding equalAddrs_def list_eq_iff_nth_eq [of a b] by simp (metis atLeastLessThan_iff zero_le)

section \<open>Announcements keep it\<close>

lemma ann_sign_returns:
  assumes "disco_env_ok env"
  shows "\<exists>ann. ann_sign (de_crypto env) (de_netip env) (de_key env) \<lparr>ua_Addrs = de_ownAddrs env, ua_Counter = c\<rparr> = Inr ann \<and>
    ann_verify (de_crypto env) (de_netip env) ann = None \<and> an_PublicKey ann = de_ownID env \<and>
    ua_Addrs ann = de_ownAddrs env \<and> ua_Counter ann = c"
proof -
  let ?u = "\<lparr>ua_Addrs = de_ownAddrs env, ua_Counter = c\<rparr>"
  have "validate_unsigned (de_netip env) ?u = None" using assms by (simp add: disco_env_ok_def)
  then obtain ann where ann: "ann_sign (de_crypto env) (de_netip env) (de_key env) ?u = Inr ann"
    by (simp add: ann_sign_def ann_digest_def Let_def)
  have "\<And>m. ed25519_Verify (de_crypto env) (de_ownID env) m (sk_Sign (de_key env) m)" "length (de_ownID env) = 32"
    using assms by (simp_all add: disco_env_ok_def)
  note sv = ann_sign_verify [OF this ann]
  have "an_PublicKey ann = de_ownID env"
    using sv(2) by (simp add: ann_PeerID_def PeerIDFromPublicKey_def split: if_splits)
  then show ?thesis using ann sv by simp
qed

text \<open>The own announcement after an announcement for the own identity has been stored.\<close>

lemma bump_result:
  assumes "disco_env_ok env" "map_of (dp_bestAnnouncement st) (de_ownID env) = Some old"
  shows "if ua_Addrs old = de_ownAddrs env then lockedBumpOwnAnnouncement env st = (Inr None, st)
    else \<exists>ann. lockedBumpOwnAnnouncement env st =
        (Inr (Some ann), st\<lparr>dp_bestAnnouncement := AList.update (de_ownID env) ann (dp_bestAnnouncement st)\<rparr>) \<and>
      ann_verify (de_crypto env) (de_netip env) ann = None \<and> an_PublicKey ann = de_ownID env \<and>
      ua_Addrs ann = de_ownAddrs env \<and> ua_Counter ann = ua_Counter old + 1"
proof (cases "ua_Addrs old = de_ownAddrs env")
  case True
  then show ?thesis using assms(2) by (simp add: lockedBumpOwnAnnouncement_def Let_def equalAddrs_iff)
next
  case False
  obtain ann where ann: "ann_sign (de_crypto env) (de_netip env) (de_key env)
        \<lparr>ua_Addrs = de_ownAddrs env, ua_Counter = ua_Counter old + 1\<rparr> = Inr ann"
      "ann_verify (de_crypto env) (de_netip env) ann = None" "an_PublicKey ann = de_ownID env"
      "ua_Addrs ann = de_ownAddrs env" "ua_Counter ann = ua_Counter old + 1"
    using ann_sign_returns [OF assms(1)] by blast
  have "lockedBumpOwnAnnouncement env st =
        (Inr (Some ann), st\<lparr>dp_bestAnnouncement := AList.update (de_ownID env) ann (dp_bestAnnouncement st)\<rparr>)"
    using False assms(2) ann(1) by (simp add: lockedBumpOwnAnnouncement_def Let_def equalAddrs_iff)
  then show ?thesis using False ann(2-5) by simp
qed

text \<open>
  The whole effect of an announcement: it is refused, or it is no better, or it becomes the best of its peer,
  or it was an old one of ours and is superseded.
\<close>

lemma process_cases:
  assumes "disco_env_ok env" "best_ok env P (dp_bestAnnouncement st)"
  obtains (kept) err where "lockedProcessAnnouncement env ann st = (err, None, st)"
      "\<not> (ann_PeerID ann = Some (de_ownID env) \<and> gm_count (dp_numGroupsByOracle st) (de_ownID env) \<noteq> 0 \<and>
         ann_verify (de_crypto env) (de_netip env) ann = None \<and>
         ua_Counter (the (map_of (dp_bestAnnouncement st) (de_ownID env))) \<le> ua_Counter ann)"
  | (peer) pid where "ann_PeerID ann = Some pid" "pid \<noteq> de_ownID env" "gm_count (dp_numGroupsByOracle st) pid \<noteq> 0"
      "ann_verify (de_crypto env) (de_netip env) ann = None"
      "lockedProcessAnnouncement env ann st = (None, Some (DlConnectivity True pid),
         st\<lparr>dp_bestAnnouncement := AList.update pid ann (dp_bestAnnouncement st)\<rparr>)"
      "map_of (dp_bestAnnouncement st) pid = None \<or> ua_Counter (the (map_of (dp_bestAnnouncement st) pid)) < ua_Counter ann"
  | (own) "ann_PeerID ann = Some (de_ownID env)" "ann_verify (de_crypto env) (de_netip env) ann = None"
      "ua_Addrs ann = de_ownAddrs env"
      "lockedProcessAnnouncement env ann st = (None, None,
         st\<lparr>dp_bestAnnouncement := AList.update (de_ownID env) ann (dp_bestAnnouncement st)\<rparr>)"
      "ua_Counter (the (map_of (dp_bestAnnouncement st) (de_ownID env))) \<le> ua_Counter ann"
  | (superseded) new where "ann_PeerID ann = Some (de_ownID env)" "ua_Addrs ann \<noteq> de_ownAddrs env"
      "lockedProcessAnnouncement env ann st = (None, Some (DlBump new),
         st\<lparr>dp_bestAnnouncement := AList.update (de_ownID env) new
              (AList.update (de_ownID env) ann (dp_bestAnnouncement st))\<rparr>)"
      "ann_verify (de_crypto env) (de_netip env) new = None" "an_PublicKey new = de_ownID env"
      "ua_Addrs new = de_ownAddrs env" "ua_Counter new = ua_Counter ann + 1"
      "ua_Counter (the (map_of (dp_bestAnnouncement st) (de_ownID env))) \<le> ua_Counter ann"
proof (cases "ann_PeerID ann")
  case None
  then show ?thesis by (intro kept [of "Some DiscoPeerID"]) (simp_all add: lockedProcessAnnouncement_def)
next
  case (Some pid)
  let ?local = "map_of (dp_bestAnnouncement st) pid"
  show ?thesis
  proof (cases "gm_count (dp_numGroupsByOracle st) pid = 0")
    case True
    then show ?thesis using Some by (intro kept [of "Some DiscoNotOracle"]) (auto simp: lockedProcessAnnouncement_def)
  next
    case member: False
    show ?thesis
    proof (cases "ann_verify (de_crypto env) (de_netip env) ann")
      case (Some err)
      then show ?thesis using \<open>ann_PeerID ann = Some pid\<close> member
        by (intro kept [of "Some (DiscoInvalid err)"]) (simp_all add: lockedProcessAnnouncement_def)
    next
      case valid: None
      let ?st = "st\<lparr>dp_bestAnnouncement := AList.update pid ann (dp_bestAnnouncement st)\<rparr>"
      have eq: "lockedProcessAnnouncement env ann st =
          (if ?local = None \<or> ua_Counter (the ?local) \<le> ua_Counter ann
           then if ?local \<noteq> None \<and> pid \<noteq> de_ownID env \<and> ua_Counter (the ?local) = ua_Counter ann then (None, None, st)
             else if pid = de_ownID env
             then (case lockedBumpOwnAnnouncement env ?st of
                (Inl err, st) \<Rightarrow> (Some (DiscoBump err), None, st)
              | (Inr None, st) \<Rightarrow> (None, None, st)
              | (Inr (Some bumpedann), st) \<Rightarrow> (None, Some (DlBump bumpedann), st))
             else (None, Some (DlConnectivity True pid), ?st)
           else (None, None, st))"
        using Some member valid by (simp add: lockedProcessAnnouncement_def Let_def)
      show ?thesis
      proof (cases "?local = None \<or> ua_Counter (the ?local) \<le> ua_Counter ann")
        case False
        then show ?thesis using eq Some by (intro kept [of None]) auto
      next
        case better: True
        show ?thesis
        proof (cases "pid = de_ownID env")
          case False
          show ?thesis
          proof (cases "?local \<noteq> None \<and> ua_Counter (the ?local) = ua_Counter ann")
            case True
            then show ?thesis using eq False Some by (intro kept [of None]) auto
          next
            case fresh: False
            then have "?local = None \<or> ua_Counter (the ?local) < ua_Counter ann" using better by auto
            then show ?thesis using eq False fresh better Some member valid by (intro peer [of pid]) auto
          qed
        next
          case ownID: True
          obtain cur where "map_of (dp_bestAnnouncement st) (de_ownID env) = Some cur"
            using assms(2) by (auto simp: best_ok_def)
          then have le: "ua_Counter (the (map_of (dp_bestAnnouncement st) (de_ownID env))) \<le> ua_Counter ann"
            using better ownID by simp
          have bump: "lockedProcessAnnouncement env ann st = (case lockedBumpOwnAnnouncement env ?st of
                (Inl err, st) \<Rightarrow> (Some (DiscoBump err), None, st)
              | (Inr None, st) \<Rightarrow> (None, None, st)
              | (Inr (Some bumpedann), st) \<Rightarrow> (None, Some (DlBump bumpedann), st))"
            using eq better ownID by simp
          have "map_of (dp_bestAnnouncement ?st) (de_ownID env) = Some ann" using ownID by simp
          note res = bump_result [OF assms(1) this]
          show ?thesis
          proof (cases "ua_Addrs ann = de_ownAddrs env")
            case True
            then have "lockedBumpOwnAnnouncement env ?st = (Inr None, ?st)" using res by simp
            then show ?thesis using own True bump ownID Some valid le by simp
          next
            case False
            then obtain new where new: "lockedBumpOwnAnnouncement env ?st =
                (Inr (Some new), ?st\<lparr>dp_bestAnnouncement := AList.update (de_ownID env) new (dp_bestAnnouncement ?st)\<rparr>)"
              "ann_verify (de_crypto env) (de_netip env) new = None" "an_PublicKey new = de_ownID env"
              "ua_Addrs new = de_ownAddrs env" "ua_Counter new = ua_Counter ann + 1"
              using res by (simp only: if_False) blast
            have "lockedProcessAnnouncement env ann st = (None, Some (DlBump new),
                st\<lparr>dp_bestAnnouncement := AList.update (de_ownID env) new
                  (AList.update (de_ownID env) ann (dp_bestAnnouncement st))\<rparr>)"
              using bump new(1) ownID by simp
            from superseded [OF _ False this new(2-5) le] show ?thesis using Some ownID by simp
          qed
        qed
      qed
    qed
  qed
qed

lemma best_ok_update:
  assumes "best_ok env P best" "map_ok best'" "map_of best' = (map_of best)(p \<mapsto> a)"
    and "ann_verify (de_crypto env) (de_netip env) a = None" "an_PublicKey a = p"
    and "p \<noteq> de_ownID env \<and> p \<in> P \<or> p = de_ownID env \<and> ua_Addrs a = de_ownAddrs env"
  shows "best_ok env P best'"
proof -
  have old: "\<And>q b. map_of best q = Some b \<Longrightarrow>
      ann_verify (de_crypto env) (de_netip env) b = None \<and> an_PublicKey b = q \<and> (q = de_ownID env \<or> q \<in> P)"
    and own: "\<exists>b. map_of best (de_ownID env) = Some b \<and> ua_Addrs b = de_ownAddrs env"
    using assms(1) unfolding best_ok_def by blast+
  have "ann_verify (de_crypto env) (de_netip env) b = None \<and> an_PublicKey b = q \<and> (q = de_ownID env \<or> q \<in> P)"
    if "map_of best' q = Some b" for q b
  proof (cases "q = p")
    case True
    then show ?thesis using that assms(3-6) by auto
  next
    case False
    then show ?thesis using that assms(3) old [of q b] by simp
  qed
  moreover have "\<exists>b. map_of best' (de_ownID env) = Some b \<and> ua_Addrs b = de_ownAddrs env"
    using own assms(3,6) by (cases "p = de_ownID env") simp_all
  ultimately show ?thesis unfolding best_ok_def using assms(2) by blast
qed

lemma best_ok_mono: "best_ok env P best \<Longrightarrow> P \<subseteq> Q \<Longrightarrow> best_ok env Q best"
  unfolding best_ok_def by blast

lemma PeerID_key: "ann_PeerID ann = Some pid \<Longrightarrow> an_PublicKey ann = pid"
  by (simp add: ann_PeerID_def PeerIDFromPublicKey_def split: if_splits)

text \<open>What an announcement leaves alone.\<close>

lemma processAnnouncement_inv:
  assumes env: "disco_env_ok env" and inv: "disco_inv env st"
  shows "disco_inv env (processAnnouncement env ann st)"
proof -
  have best: "best_ok env (set_mset (oracles_of (dp_groups st))) (dp_bestAnnouncement st)"
    and counts: "counts (dp_numGroupsByOracle st) (oracles_of (dp_groups st))"
    and ok: "map_ok (dp_bestAnnouncement st)"
    using inv by (auto simp: disco_inv_def best_ok_def)
  note upd = best_ok_update [OF best]
  show ?thesis
  proof (cases rule: process_cases [OF env best, of ann, case_names kept peer own superseded])
    case (kept err)
    then show ?thesis using inv by (simp add: processAnnouncement_def)
  next
    case (peer pid)
    have member: "pid \<in># oracles_of (dp_groups st)"
      using peer(3) counts_count [OF counts, of pid] by (simp add: count_eq_zero_iff)
    have "best_ok env (set_mset (oracles_of (dp_groups st))) (AList.update pid ann (dp_bestAnnouncement st))"
      using peer member ok by (intro upd [of _ pid ann]) (simp_all add: PeerID_key)
    then show ?thesis
      using peer(5) inv member by (auto simp: processAnnouncement_def disco_inv_def dp_emit_def connected_emit)
  next
    case own
    have "best_ok env (set_mset (oracles_of (dp_groups st))) (AList.update (de_ownID env) ann (dp_bestAnnouncement st))"
      using own ok by (intro upd [of _ "de_ownID env" ann]) (simp_all add: PeerID_key)
    then show ?thesis using own(4) inv by (simp add: processAnnouncement_def disco_inv_def)
  next
    case (superseded new)
    have "best_ok env (set_mset (oracles_of (dp_groups st)))
        (AList.update (de_ownID env) new (AList.update (de_ownID env) ann (dp_bestAnnouncement st)))"
      using superseded ok by (intro upd [of _ "de_ownID env" new]) simp_all
    then show ?thesis
      using superseded(3) inv by (simp add: processAnnouncement_def disco_inv_def dp_emit_def connected_emit)
  qed
qed

lemma fold_invariant:
  assumes "\<And>x s. P s \<Longrightarrow> P (f x s)" "P s"
  shows "P (fold f xs s)"
  using assms(2) by (induction xs arbitrary: s) (auto intro: assms(1))

lemma receive_inv: "disco_env_ok env \<Longrightarrow> disco_inv env st \<Longrightarrow> disco_inv env (dp_receive env m st)"
  by (cases m) (simp_all add: processAnnouncement_inv fold_invariant [where P = "disco_inv env"])

lemma disco_inv_calls: "disco_inv env (st\<lparr>dp_calls := k\<rparr>) = disco_inv env st"
  by (simp add: disco_inv_def)

lemma load_inv:
  assumes "disco_env_ok env" "disco_inv env st"
  shows "disco_inv env (lockedLoadFromDB env ids st)"
proof -
  have "disco_inv env (fold (\<lambda>(peerID, dbannBytes) st.
      case de_Unmarshal env dbannBytes of None \<Rightarrow> st
      | Some pm \<Rightarrow> processAnnouncement env (signedAnnouncementFromProto pm) st) anns (st\<lparr>dp_calls := k\<rparr>))" for anns :: "(bytes \<times> bytes) list" and k
    by (rule fold_invariant [where P = "disco_inv env"])
      (simp_all add: assms disco_inv_calls processAnnouncement_inv split: prod.split option.split)
  then show ?thesis using assms(2) by (simp add: lockedLoadFromDB_def Let_def disco_inv_calls split: option.splits)
qed

section \<open>Sending and saving keep it\<close>

definition dp_quiet :: "disco_state \<Rightarrow> disco_state \<Rightarrow> bool" where
  "dp_quiet st st' \<longleftrightarrow> dp_groups st' = dp_groups st \<and> dp_numGroupsByOracle st' = dp_numGroupsByOracle st \<and>
     dp_numGroupsByBootstrapper st' = dp_numGroupsByBootstrapper st \<and> dp_bootstrappers st' = dp_bootstrappers st \<and>
     dp_bestAnnouncement st' = dp_bestAnnouncement st \<and> connected (dp_log st') = connected (dp_log st)"

lemma dp_quiet_inv: "dp_quiet st st' \<Longrightarrow> disco_inv env st \<Longrightarrow> disco_inv env st'"
  by (simp add: dp_quiet_def disco_inv_def)

lemma dp_quiet_emit: "(case l of DlConnectivity _ _ \<Rightarrow> False | _ \<Rightarrow> True) \<Longrightarrow> dp_quiet st s \<Longrightarrow> dp_quiet st (dp_emit l s)"
  by (cases l) (simp_all add: dp_quiet_def dp_emit_def connected_emit)

lemma dp_quiet_calls: "dp_quiet st s \<Longrightarrow> dp_quiet st (s\<lparr>dp_calls := k\<rparr>)"
  by (simp add: dp_quiet_def)

lemma dp_quiet_refl: "dp_quiet st st"
  by (simp add: dp_quiet_def)

lemma dp_quiet_save: "dp_quiet st s \<Longrightarrow> dp_quiet st (saveAnnouncementToDB env ann s)"
  by (auto simp: saveAnnouncementToDB_def intro!: dp_quiet_emit split: option.splits)

lemmas dp_quiet_fold = fold_invariant [where P = "dp_quiet st" for st]

lemma dp_quiet_saveToDB: "dp_quiet st (saveToDB env st)"
proof -
  have "dp_quiet st (fold (saveAnnouncementToDB env) anns (st\<lparr>dp_calls := k\<rparr>))" for anns k
    by (rule dp_quiet_fold) (simp_all add: dp_quiet_save dp_quiet_calls dp_quiet_refl)
  then show ?thesis by (simp add: saveToDB_def Let_def dp_quiet_refl)
qed

lemma dp_quiet_broadcast: "dp_quiet st (sendToAllowedPeers env ann st)"
  unfolding sendToAllowedPeers_def Let_def
  by (rule dp_quiet_fold) (simp_all add: dp_quiet_emit dp_quiet_calls dp_quiet_refl)

lemma dp_quiet_reconcile: "dp_quiet st (sendReconcile env st)"
proof -
  have "dp_quiet st (fold (\<lambda>pid st. case map_of m pid of
      None \<Rightarrow> st | Some anns \<Rightarrow> dp_emit (DlOutgoing (DiscoReconcile anns) pid) st) pids (st\<lparr>dp_calls := k\<rparr>))" for m pids k
    by (rule dp_quiet_fold) (simp_all add: dp_quiet_emit dp_quiet_calls dp_quiet_refl split: option.split)
  then show ?thesis by (simp add: sendReconcile_def Let_def split: prod.split)
qed

section \<open>Adding a group keeps it\<close>

lemma connected_adds: "connected (log @ map (DlConnectivity True) pids) = connected log \<union> set pids"
proof (induction pids arbitrary: log)
  case (Cons p pids)
  from Cons.IH [of "log @ [DlConnectivity True p]"] show ?case by (auto simp: connected_emit)
qed simp

lemma connected_removes: "connected (log @ map (DlConnectivity False) pids) = connected log - set pids"
proof (induction pids arbitrary: log)
  case (Cons p pids)
  from Cons.IH [of "log @ [DlConnectivity False p]"] show ?case by (auto simp: connected_emit)
qed simp

lemma emit_adds:
  "fold (\<lambda>pid. dp_emit (DlConnectivity True pid)) pids st = st\<lparr>dp_log := dp_log st @ map (DlConnectivity True) pids\<rparr>"
  by (induction pids arbitrary: st) (simp_all add: dp_emit_def)

lemma add_oracles: "counts (snd s) M \<Longrightarrow> counts (snd (fold add_oracle oids s)) (M + mset oids)"
proof (induction oids arbitrary: s M)
  case (Cons oid oids)
  have "counts (snd (add_oracle oid s)) (add_mset oid M)"
    using counts_incr [OF Cons.prems] by (cases s) (simp add: add_oracle_def)
  from Cons.IH [OF this] show ?case by simp
qed simp

lemma add_bootstrappers: "boots_ok N s \<Longrightarrow> boots_ok (N + mset ns) (fold add_bootstrapper ns s)"
proof (induction ns arbitrary: s N)
  case (Cons n ns)
  from Cons.IH [OF add_bootstrapper_ok [OF Cons.prems, of n]] show ?case by simp
qed simp

lemma addGroup_inv:
  assumes env: "disco_env_ok env" and inv: "disco_inv env st"
  shows "disco_inv env (snd (addGroup env digest onodes bnodes st))"
proof (cases "map_of (dp_groups st) digest")
  case (Some g)
  then show ?thesis using inv by (simp add: addGroup_def)
next
  case None
  let ?g = "\<lparr>dg_oracleNodes = onodes, dg_bootstrapperNodes = bnodes\<rparr>"
  obtain ids numO where o1: "fold add_oracle onodes ([], dp_numGroupsByOracle st) = (ids, numO)" by fastforce
  obtain numB boots where b1: "fold add_bootstrapper bnodes (dp_numGroupsByBootstrapper st, dp_bootstrappers st) = (numB, boots)"
    by fastforce
  let ?st = "st\<lparr>dp_groups := dp_groups st @ [(digest, ?g)], dp_numGroupsByOracle := numO,
      dp_numGroupsByBootstrapper := numB, dp_bootstrappers := boots,
      dp_log := dp_log st @ map (DlConnectivity True) (dg_peerIDs ?g)\<rparr>"
  have eq: "snd (addGroup env digest onodes bnodes st) = lockedLoadFromDB env ids ?st"
    using None by (simp add: addGroup_def o1 b1 Let_def update_fresh emit_adds)
  have oracles: "oracles_of (dp_groups ?st) = oracles_of (dp_groups st) + mset onodes"
    and nodes: "nodes_of (dp_groups ?st) = nodes_of (dp_groups st) + mset bnodes"
    by (simp_all add: oracles_of_def nodes_of_def)
  have "counts numO (oracles_of (dp_groups st) + mset onodes)"
    using add_oracles [of "([], dp_numGroupsByOracle st)" _ onodes] inv by (simp add: o1 disco_inv_def)
  moreover have "boots_ok (nodes_of (dp_groups st) + mset bnodes) (numB, boots)"
    using add_bootstrappers [of _ "(dp_numGroupsByBootstrapper st, dp_bootstrappers st)" bnodes] inv by (simp add: b1 disco_inv_def)
  moreover have "best_ok env (set_mset (oracles_of (dp_groups st) + mset onodes)) (dp_bestAnnouncement st)"
    using inv by (auto simp: disco_inv_def intro: best_ok_mono)
  moreover have "connected (dp_log ?st) = set_mset (oracles_of (dp_groups st) + mset onodes) \<union>
      fst ` set_mset (nodes_of (dp_groups st) + mset bnodes)"
  proof -
    have "set (dg_peerIDs ?g) = set onodes \<union> fst ` set bnodes" by (simp add: dg_peerIDs_def)
    then show ?thesis using inv by (simp add: disco_inv_def connected_adds image_Un) blast
  qed
  moreover have "map_ok (dp_groups st @ [(digest, ?g)])"
    using inv None by (simp add: disco_inv_def map_ok_def map_of_eq_None_iff)
  ultimately have "disco_inv env ?st" unfolding disco_inv_def oracles nodes by simp
  then show ?thesis unfolding eq by (rule load_inv [OF env])
qed

section \<open>Removing a group keeps it\<close>

definition rm_inv :: "disco_env \<Rightarrow> disco_state \<Rightarrow> PeerID multiset \<Rightarrow> disco_state \<Rightarrow> bool" where
  "rm_inv env st0 P st \<longleftrightarrow> counts (dp_numGroupsByOracle st) P \<and> best_ok env (set_mset P) (dp_bestAnnouncement st) \<and>
     dp_groups st = dp_groups st0 \<and> dp_numGroupsByBootstrapper st = dp_numGroupsByBootstrapper st0 \<and>
     dp_bootstrappers st = dp_bootstrappers st0 \<and> connected (dp_log st) = connected (dp_log st0)"

lemma rm_oracle_inv:
  assumes "rm_inv env st0 (add_mset oid P) st"
  shows "rm_inv env st0 P (rm_oracle env oid st)"
proof -
  note inv = assms [unfolded rm_inv_def]
  have decr: "counts (gm_decr oid (dp_numGroupsByOracle st)) P"
    using counts_decr [of "dp_numGroupsByOracle st" "add_mset oid P" oid] inv by simp
  have c: "gm_count (dp_numGroupsByOracle st) oid = int (count (add_mset oid P) oid)" using counts_count [of "dp_numGroupsByOracle st" "add_mset oid P" oid] inv by simp
  show ?thesis
  proof (cases "oid \<in># P")
    case True
    then have "gm_count (dp_numGroupsByOracle st) oid - 1 \<noteq> 0" using c by simp
    moreover have "best_ok env (set_mset P) (dp_bestAnnouncement st)" using inv True by (simp add: insert_absorb)
    ultimately show ?thesis using inv decr by (simp add: rm_oracle_def rm_inv_def)
  next
    case False
    then have gone: "gm_count (dp_numGroupsByOracle st) oid - 1 = 0" using c by (simp add: count_eq_zero_iff)
    define st1 where "st1 = (case map_of (dp_bestAnnouncement st) oid of None \<Rightarrow> st | Some ann \<Rightarrow> saveAnnouncementToDB env ann st)"
    have quiet: "dp_quiet st st1" by (auto simp: st1_def dp_quiet_refl intro: dp_quiet_save split: option.split)
    have "best_ok env (set_mset P) (if oid \<noteq> de_ownID env then AList.delete oid (dp_bestAnnouncement st) else dp_bestAnnouncement st)"
    proof (cases "oid = de_ownID env")
      case True
      then show ?thesis using inv unfolding best_ok_def by auto
    next
      case False
      then show ?thesis using inv unfolding best_ok_def by (auto simp: map_of_delete)
    qed
    moreover have "rm_oracle env oid st =
        (let s = (if oid \<noteq> de_ownID env then st1\<lparr>dp_bestAnnouncement := AList.delete oid (dp_bestAnnouncement st1)\<rparr> else st1)
         in s\<lparr>dp_numGroupsByOracle := gm_decr oid (dp_numGroupsByOracle s)\<rparr>)"
      using gone by (simp add: rm_oracle_def Let_def st1_def)
    ultimately show ?thesis
      using inv decr quiet
      by (cases "oid = de_ownID env") (simp_all add: rm_inv_def dp_quiet_def Let_def)
  qed
qed

lemma rm_oracles_inv: "rm_inv env st0 (mset oids + P) st \<Longrightarrow> rm_inv env st0 P (fold (rm_oracle env) oids st)"
proof (induction oids arbitrary: st)
  case (Cons oid oids)
  have "rm_inv env st0 (mset oids + P) (rm_oracle env oid st)" using rm_oracle_inv Cons.prems by simp
  from Cons.IH [OF this] show ?case by simp
qed simp

lemma emit_removes:
  "fold (\<lambda>pid st. if gm_count (dp_numGroupsByOracle st) pid + gm_count (dp_numGroupsByBootstrapper st) pid = 0
      then dp_emit (DlConnectivity False pid) st else st) pids st =
   st\<lparr>dp_log := dp_log st @ map (DlConnectivity False)
     (filter (\<lambda>pid. gm_count (dp_numGroupsByOracle st) pid + gm_count (dp_numGroupsByBootstrapper st) pid = 0) pids)\<rparr>"
  by (induction pids arbitrary: st) (simp_all add: dp_emit_def)

lemma removeGroup_inv:
  assumes inv: "disco_inv env st"
  shows "\<exists>err st'. removeGroup env digest st = Inr (err, st') \<and> disco_inv env st'"
proof (cases "map_of (dp_groups st) digest")
  case None
  then show ?thesis using inv by (simp add: removeGroup_def)
next
  case (Some g)
  let ?gs = "AList.delete digest (dp_groups st)"
  have ok: "map_ok (dp_groups st)" using inv by (simp add: disco_inv_def)
  have oracles: "oracles_of (dp_groups st) = mset (dg_oracleNodes g) + oracles_of ?gs"
    and nodes: "nodes_of (dp_groups st) = mset (dg_bootstrapperNodes g) + nodes_of ?gs"
    unfolding oracles_of_def nodes_of_def mset_delete_old [OF ok Some, symmetric] by simp_all
  define st1 where "st1 = fold (rm_oracle env) (dg_oracleNodes g) (st\<lparr>dp_groups := ?gs\<rparr>)"
  have "rm_inv env (st\<lparr>dp_groups := ?gs\<rparr>) (mset (dg_oracleNodes g) + oracles_of ?gs) (st\<lparr>dp_groups := ?gs\<rparr>)"
    using inv by (simp add: rm_inv_def disco_inv_def flip: oracles)
  from rm_oracles_inv [OF this] have st1: "rm_inv env (st\<lparr>dp_groups := ?gs\<rparr>) (oracles_of ?gs) st1" by (simp add: st1_def)
  have "boots_ok (mset (dg_bootstrapperNodes g) + nodes_of ?gs) (dp_numGroupsByBootstrapper st1, dp_bootstrappers st1)"
    using inv st1 by (simp add: rm_inv_def disco_inv_def flip: nodes)
  from foldG_InrI [of "\<lambda>s N. boots_ok N s" _ _ rm_bootstrapper, OF this rm_bootstrapper_ok refl]
  obtain numB boots where b: "foldG rm_bootstrapper (dg_bootstrapperNodes g) (dp_numGroupsByBootstrapper st1, dp_bootstrappers st1) =
      Inr (numB, boots)" "boots_ok (nodes_of ?gs) (numB, boots)" by auto
  define gone where "gone = filter (\<lambda>pid. gm_count (dp_numGroupsByOracle st1) pid + gm_count numB pid = 0) (dg_peerIDs g)"
  have run: "removeGroup env digest st = Inr (None, st1\<lparr>dp_numGroupsByBootstrapper := numB, dp_bootstrappers := boots,
      dp_log := dp_log st1 @ map (DlConnectivity False) gone\<rparr>)"
    using Some b(1) by (simp add: removeGroup_def Let_def emit_removes gone_def flip: st1_def)
  have counts: "counts (dp_numGroupsByOracle st1) (oracles_of ?gs)" "counts numB (image_mset fst (nodes_of ?gs))"
    using st1 b(2) by (simp_all add: rm_inv_def boots_ok_def)
  have sum0: "int a + int b = 0 \<longleftrightarrow> a = 0 \<and> b = 0" for a b by linarith
  have gone_iff: "gm_count (dp_numGroupsByOracle st1) pid + gm_count numB pid = 0 \<longleftrightarrow>
      pid \<notin># oracles_of ?gs \<and> pid \<notin># image_mset fst (nodes_of ?gs)" for pid
    by (simp only: counts_count [OF counts(1)] counts_count [OF counts(2)] sum0 not_in_iff)
  have "connected (dp_log st1) = set_mset (oracles_of (dp_groups st)) \<union> fst ` set_mset (nodes_of (dp_groups st))"
    using inv st1 by (simp add: rm_inv_def disco_inv_def)
  also have "\<dots> = set_mset (oracles_of ?gs) \<union> fst ` set_mset (nodes_of ?gs) \<union> set (dg_peerIDs g)"
    unfolding oracles nodes by (auto simp: dg_peerIDs_def)
  finally have "connected (dp_log st1 @ map (DlConnectivity False) gone) =
      set_mset (oracles_of ?gs) \<union> fst ` set_mset (nodes_of ?gs)"
    using gone_iff by (auto simp: connected_removes gone_def)
  then have "disco_inv env (st1\<lparr>dp_numGroupsByBootstrapper := numB, dp_bootstrappers := boots,
      dp_log := dp_log st1 @ map (DlConnectivity False) gone\<rparr>)"
    using st1 b(2) ok by (simp add: disco_inv_def rm_inv_def)
  then show ?thesis using run by simp
qed

section \<open>Runs\<close>

lemma disco_process_inv:
  assumes "disco_env_ok env" "disco_inv env st"
  shows "\<exists>st'. disco_process env c st = Inr st' \<and> disco_inv env st'"
proof (cases c)
  case (DcRemoveGroup digest)
  then show ?thesis using removeGroup_inv [OF assms(2), of digest] by auto
qed (simp_all add: assms addGroup_inv receive_inv dp_quiet_inv [OF dp_quiet_broadcast] dp_quiet_inv [OF dp_quiet_reconcile]
    dp_quiet_inv [OF dp_quiet_saveToDB])

lemma disco_run_inv:
  "disco_env_ok env \<Longrightarrow> disco_inv env st \<Longrightarrow> \<exists>st'. disco_run env cs st = Inr st' \<and> disco_inv env st'"
proof (induction cs arbitrary: st)
  case (Cons c cs)
  obtain st1 where "disco_process env c st = Inr st1" "disco_inv env st1" using disco_process_inv Cons.prems by blast
  then show ?case using Cons.IH Cons.prems(1) by simp
qed simp

lemma disco_start:
  assumes "\<And>m. ed25519_Verify (de_crypto env) (de_ownID env) m (sk_Sign (de_key env) m)"
    and "newDiscoveryProtocol env = Some st0" "disco_Start env st0 = (None, st)"
  shows "disco_env_ok env" "disco_inv env st"
proof -
  have key: "length (de_ownID env) = 32" and st0: "st0 = \<lparr>dp_state = DiscoUnstarted, dp_bestAnnouncement = [], dp_groups = [],
      dp_bootstrappers = [], dp_numGroupsByOracle = [], dp_numGroupsByBootstrapper = [], dp_calls = 0, dp_log = []\<rparr>"
    using assms(2) by (auto simp: newDiscoveryProtocol_def PeerIDFromPublicKey_def ed25519_PublicKeySize_def split: if_splits)
  let ?u = "\<lambda>c. \<lparr>ua_Addrs = de_ownAddrs env, ua_Counter = c\<rparr>"
  have "validate_unsigned (de_netip env) (?u 0) = None"
  proof (rule ccontr)
    assume "validate_unsigned (de_netip env) (?u 0) \<noteq> None"
    then have "disco_Start env st0 \<noteq> (None, st)"
      by (auto simp: disco_Start_def st0 lockedBumpOwnAnnouncement_def Let_def ann_sign_def ann_digest_def disco_Close_def)
    then show False using assms(3) by simp
  qed
  moreover have "validate_unsigned (de_netip env) (?u c) = validate_unsigned (de_netip env) (?u 0)" for c
    by (simp add: validate_unsigned_def)
  ultimately show env: "disco_env_ok env" using key assms(1) by (simp add: disco_env_ok_def)
  obtain ann where ann: "ann_sign (de_crypto env) (de_netip env) (de_key env) (?u 0) = Inr ann"
      "ann_verify (de_crypto env) (de_netip env) ann = None" "an_PublicKey ann = de_ownID env" "ua_Addrs ann = de_ownAddrs env"
    using ann_sign_returns [OF env] by blast
  have "st = st0\<lparr>dp_state := DiscoStarted, dp_bestAnnouncement := [(de_ownID env, ann)]\<rparr>"
    using assms(3) ann(1) by (auto simp: disco_Start_def st0 lockedBumpOwnAnnouncement_def Let_def)
  moreover have "boots_ok {#} ([], [])" by (simp add: boots_ok_def addrs_of_def)
  moreover have "best_ok env {} [(de_ownID env, ann)]" using ann by (auto simp: best_ok_def map_ok_def)
  ultimately show "disco_inv env st"
    by (simp add: disco_inv_def st0 oracles_of_def nodes_of_def connected_def)
qed

lemma in_groups:
  "p \<in># oracles_of gs \<longleftrightarrow> (\<exists>g \<in> set (map snd gs). dg_hasOracle g p)"
  "p \<in># oracles_of gs \<or> p \<in> fst ` set_mset (nodes_of gs) \<longleftrightarrow> (\<exists>g \<in> set (map snd gs). p \<in> set (dg_peerIDs g))"
  by (induction gs) (auto simp: oracles_of_def nodes_of_def dg_hasOracle_def dg_peerIDs_def)

end
