(* ===== verification/RageDiscoProps.thy ===== *)
theory RageDiscoProps
  imports RageDiscoInv
begin

text \<open>
  The properties of peer discovery, and the two goroutines that share its lock: \<open>recvLoop\<close> holds it while it
  sends on the channel that \<open>sendLoop\<close> reads.
\<close>

section \<open>The state follows the groups\<close>

abbreviation groups_of :: "disco_state \<Rightarrow> disco_group list" where
  "groups_of st \<equiv> map snd (dp_groups st)"

text \<open>The addresses that the registered groups configure for a bootstrapper.\<close>

definition configured :: "disco_state \<Rightarrow> PeerID \<Rightarrow> address set" where
  "configured st p = {a. \<exists>g \<in> set (groups_of st). \<exists>as. (p, as) \<in> set (dg_bootstrapperNodes g) \<and> a \<in> set as}"

definition announced_addrs :: "disco_state \<Rightarrow> PeerID \<Rightarrow> address set" where
  "announced_addrs st p = (case map_of (dp_bestAnnouncement st) p of None \<Rightarrow> {} | Some ann \<Rightarrow> set (ua_Addrs ann))"

lemma count_groups:
  "int (count (oracles_of gs) p) = (\<Sum>g \<leftarrow> map snd gs. int (count_list (dg_oracleNodes g) p))"
  "int (count (image_mset fst (nodes_of gs)) p) = (\<Sum>g \<leftarrow> map snd gs. int (count_list (map fst (dg_bootstrapperNodes g)) p))"
  by (induction gs) (auto simp: oracles_of_def nodes_of_def count_mset simp del: mset_map simp flip: mset_map)

lemma in_nodes_of: "x \<in># nodes_of gs \<longleftrightarrow> (\<exists>g \<in> set (map snd gs). x \<in> set (dg_bootstrapperNodes g))"
  by (induction gs) (auto simp: nodes_of_def)

lemma counts_keys: "counts m M \<Longrightarrow> fst ` set m = set_mset M"
  by (auto simp: counts_def dom_map_of_conv_image_fst [symmetric] split: if_splits)

lemma in_addrs_of:
  "a \<in># addrs_of (nodes_of gs) p \<longleftrightarrow> (\<exists>g \<in> set (map snd gs). \<exists>as. (p, as) \<in> set (dg_bootstrapperNodes g) \<and> a \<in> set as)"
proof -
  have "a \<in># addrs_of (nodes_of gs) p \<longleftrightarrow> (\<exists>as. (p, as) \<in># nodes_of gs \<and> a \<in> set as)"
    by (force simp: addrs_of_def)
  then show ?thesis unfolding in_nodes_of by blast
qed

lemma dedup_loop_append: "dedup_loop m (xs @ ys) = dedup_loop m xs @ dedup_loop (m \<union> set xs) ys"
  by (induction xs arbitrary: m) (auto simp: insert_absorb)

lemma dedup_loop_fresh: "distinct xs \<Longrightarrow> set xs \<inter> m = {} \<Longrightarrow> dedup_loop m xs = xs"
  by (induction xs arbitrary: m) auto

text \<open>What is found for a peer: the configured addresses first.\<close>

lemma FindPeer_spec:
  assumes inv: "disco_inv env st" and order: "\<And>xs. mset (order xs) = mset xs"
  obtains xs ys where "FindPeer order p st = xs @ ys" "set xs = configured st p"
    "set xs \<union> set ys = configured st p \<union> announced_addrs st p" "distinct (xs @ ys)"
proof -
  have boots: "boots_ok (nodes_of (dp_groups st)) (dp_numGroupsByBootstrapper st, dp_bootstrappers st)"
    using inv by (simp add: disco_inv_def)
  define xs where "xs = (case map_of (dp_bootstrappers st) p of None \<Rightarrow> [] | Some m \<Rightarrow> order (map fst m))"
  define anns where "anns = (case map_of (dp_bestAnnouncement st) p of None \<Rightarrow> [] | Some ann \<Rightarrow> ua_Addrs ann)"
  have conf: "configured st p = set_mset (addrs_of (nodes_of (dp_groups st)) p)"
    using in_addrs_of [of _ "dp_groups st" p] by (auto simp: configured_def)
  have xs: "set xs = configured st p \<and> distinct xs"
  proof (cases "map_of (dp_bootstrappers st) p")
    case None
    then show ?thesis using boots by (auto simp: xs_def boots_ok_def conf split: option.splits dest: spec [of _ p])
  next
    case (Some m)
    then have m: "counts m (addrs_of (nodes_of (dp_groups st)) p)"
      using boots by (auto simp: boots_ok_def split: option.splits dest: spec [of _ p])
    then have "distinct (map fst m)" by (simp add: counts_def map_ok_def)
    then have "distinct xs" using Some order mset_eq_imp_distinct_iff [of xs "map fst m"] by (simp add: xs_def)
    moreover have "set xs = fst ` set m" using Some mset_eq_setD [OF order [of "map fst m"]] by (simp add: xs_def)
    ultimately show ?thesis using counts_keys [OF m] by (simp add: conf)
  qed
  have find: "FindPeer order p st = xs @ dedup_loop (set xs) anns"
    using xs dedup_loop_fresh [of xs "{}"]
    by (simp add: FindPeer_def Let_def dedup_def dedup_loop_append flip: xs_def anns_def)
  have "set anns = announced_addrs st p" by (simp add: anns_def announced_addrs_def split: option.splits)
  then show ?thesis
    using xs by (intro that [OF find]) (auto simp: dedup_loop_set dedup_loop_distinct)
qed

text \<open>C20: Peer discovery keeps its books straight. Once started, whatever groups are added and removed,
  whatever messages arrive and whatever the database holds, nothing panics, and at every moment:
  a peer is counted as an oracle and as a bootstrapper exactly as often as the registered groups name it, and
  addresses are stored for present bootstrappers only;
  the connections asked for are exactly those to the oracles and bootstrappers of the registered groups;
  every announcement that is kept carries a valid signature of the peer it is filed under, who is an oracle
  of some group or the host itself, and the host's own announcement names its own addresses;
  the addresses found for a peer are, without repetition, those that the groups configure for it as a
  bootstrapper, and after them those it has announced; and if there are any, its connection has been asked for
  or it is the host itself.\<close>

theorem discovery_follows_the_groups:
  assumes "\<forall>m. ed25519_Verify (de_crypto env) (de_ownID env) m (sk_Sign (de_key env) m)"
    and "newDiscoveryProtocol env = Some st0" "disco_Start env st0 = (None, st1)"
    and "\<And>xs. mset (order xs) = mset xs"
  shows "\<exists>st. disco_run env cs st1 = Inr st \<and>
    (\<forall>p. gm_count (dp_numGroupsByOracle st) p = (\<Sum>g \<leftarrow> groups_of st. int (count_list (dg_oracleNodes g) p)) \<and>
       gm_count (dp_numGroupsByBootstrapper st) p =
         (\<Sum>g \<leftarrow> groups_of st. int (count_list (map fst (dg_bootstrapperNodes g)) p)) \<and>
       (map_of (dp_bootstrappers st) p \<noteq> None \<longrightarrow> (\<exists>g \<in> set (groups_of st). p \<in> fst ` set (dg_bootstrapperNodes g)))) \<and>
    connected (dp_log st) = {p. \<exists>g \<in> set (groups_of st). p \<in> set (dg_peerIDs g)} \<and>
    (\<forall>p a. map_of (dp_bestAnnouncement st) p = Some a \<longrightarrow>
       ann_verify (de_crypto env) (de_netip env) a = None \<and> an_PublicKey a = p \<and>
       (p = de_ownID env \<or> (\<exists>g \<in> set (groups_of st). dg_hasOracle g p))) \<and>
    (\<exists>a. map_of (dp_bestAnnouncement st) (de_ownID env) = Some a \<and> ua_Addrs a = de_ownAddrs env) \<and>
    (\<forall>p. (\<exists>xs ys. FindPeer order p st = xs @ ys \<and> set xs = configured st p \<and>
         set xs \<union> set ys = configured st p \<union> announced_addrs st p \<and> distinct (xs @ ys)) \<and>
       (FindPeer order p st \<noteq> [] \<longrightarrow> p = de_ownID env \<or> p \<in> connected (dp_log st)))"
proof -
  note start = disco_start [OF _ assms(2,3)]
  obtain st where st: "disco_run env cs st1 = Inr st" "disco_inv env st"
    using disco_run_inv [OF start] assms(1) by blast
  have connected: "connected (dp_log st) = {p. \<exists>g \<in> set (groups_of st). p \<in> set (dg_peerIDs g)}"
    using st(2) unfolding disco_inv_def in_groups(2) [symmetric] by auto
  have "{p. \<exists>g \<in> set (groups_of st). dg_hasOracle g p} = set_mset (oracles_of (dp_groups st))"
    unfolding in_groups(1) [symmetric] by simp
  then have best: "best_ok env {p. \<exists>g \<in> set (groups_of st). dg_hasOracle g p} (dp_bestAnnouncement st)"
    using st(2) by (simp add: disco_inv_def)
  have counters: "counts (dp_numGroupsByOracle st) (oracles_of (dp_groups st))"
    and boots: "boots_ok (nodes_of (dp_groups st)) (dp_numGroupsByBootstrapper st, dp_bootstrappers st)"
    using st(2) by (simp_all add: disco_inv_def)
  then have bcounters: "counts (dp_numGroupsByBootstrapper st) (image_mset fst (nodes_of (dp_groups st)))"
    by (simp add: boots_ok_def)
  have books: "gm_count (dp_numGroupsByOracle st) p = (\<Sum>g \<leftarrow> groups_of st. int (count_list (dg_oracleNodes g) p)) \<and>
      gm_count (dp_numGroupsByBootstrapper st) p = (\<Sum>g \<leftarrow> groups_of st. int (count_list (map fst (dg_bootstrapperNodes g)) p)) \<and>
      (map_of (dp_bootstrappers st) p \<noteq> None \<longrightarrow> (\<exists>g \<in> set (groups_of st). p \<in> fst ` set (dg_bootstrapperNodes g)))" for p
  proof (intro conjI impI)
    show "gm_count (dp_numGroupsByOracle st) p = (\<Sum>g \<leftarrow> groups_of st. int (count_list (dg_oracleNodes g) p))"
      using counts_count [OF counters, of p] by (simp only: count_groups)
    show "gm_count (dp_numGroupsByBootstrapper st) p =
        (\<Sum>g \<leftarrow> groups_of st. int (count_list (map fst (dg_bootstrapperNodes g)) p))"
      using counts_count [OF bcounters, of p] by (simp only: count_groups)
    show "\<exists>g \<in> set (groups_of st). p \<in> fst ` set (dg_bootstrapperNodes g)" if "map_of (dp_bootstrappers st) p \<noteq> None"
    proof -
      have "p \<in># image_mset fst (nodes_of (dp_groups st))"
        using boots that by (auto simp: boots_ok_def split: option.splits dest: spec [of _ p])
      then obtain x where "x \<in># nodes_of (dp_groups st)" "fst x = p" by auto
      then show ?thesis unfolding in_nodes_of by blast
    qed
  qed
  have found: "(\<exists>xs ys. FindPeer order p st = xs @ ys \<and> set xs = configured st p \<and>
         set xs \<union> set ys = configured st p \<union> announced_addrs st p \<and> distinct (xs @ ys)) \<and>
       (FindPeer order p st \<noteq> [] \<longrightarrow> p = de_ownID env \<or> p \<in> connected (dp_log st))" for p
  proof -
    obtain xs ys where f: "FindPeer order p st = xs @ ys" "set xs = configured st p"
      "set xs \<union> set ys = configured st p \<union> announced_addrs st p" "distinct (xs @ ys)"
      by (rule FindPeer_spec [OF st(2) assms(4)])
    have "p = de_ownID env \<or> p \<in> connected (dp_log st)" if "FindPeer order p st \<noteq> []"
    proof -
      have "configured st p \<union> announced_addrs st p \<noteq> {}" using that f(1,3) by auto
      then show ?thesis
        using best unfolding connected configured_def announced_addrs_def best_ok_def dg_peerIDs_def dg_hasOracle_def
        by (force split: option.splits)
    qed
    then show ?thesis using f by blast
  qed
  show ?thesis using st(1) connected best books found unfolding best_ok_def mem_Collect_eq by blast
qed

section \<open>Announcements get better\<close>

lemma u64_next: "(x :: u64) < x + 1 \<or> x + 1 = 0 \<and> x = - 1"
proof (cases "x = - 1")
  case False
  then have "unat (x + 1) = Suc (unat x)" using unatSuc [of x] by (metis add.commute add_eq_0_iff)
  then show ?thesis by (simp add: word_less_nat_alt)
qed simp

text \<open>C21: Announcements only get better, and an old announcement of the host does not survive a change of its
  addresses. Receiving an announcement never lowers the counter under which a peer is known. When a valid
  announcement for the host itself arrives, with other addresses and a counter that is not below the host's
  own, the host announces its own addresses under the next counter and passes that on; only at the largest
  counter it wraps around.\<close>

theorem old_own_announcements_are_superseded:
  assumes "\<forall>m. ed25519_Verify (de_crypto env) (de_ownID env) m (sk_Sign (de_key env) m)"
    and "newDiscoveryProtocol env = Some st0" "disco_Start env st0 = (None, st1)" "disco_run env cs st1 = Inr st"
    and "map_of (dp_bestAnnouncement st) p = Some a"
    and "lockedProcessAnnouncement env ann st = (err, send, st')"
  shows "\<exists>a'. map_of (dp_bestAnnouncement st') p = Some a' \<and>
    (ua_Counter a \<le> ua_Counter a' \<or> p = de_ownID env \<and> ua_Counter ann = - 1 \<and> ua_Counter a' = 0) \<and>
    (ann_PeerID ann = Some p \<and> p = de_ownID env \<and> ann_verify (de_crypto env) (de_netip env) ann = None \<and>
       gm_count (dp_numGroupsByOracle st) p \<noteq> 0 \<and> ua_Addrs ann \<noteq> de_ownAddrs env \<and> ua_Counter a \<le> ua_Counter ann \<longrightarrow>
       ua_Addrs a' = de_ownAddrs env \<and> ua_Counter a' = ua_Counter ann + 1 \<and> send = Some (DlBump a'))"
proof -
  note start = disco_start [OF _ assms(2,3)]
  have env: "disco_env_ok env" using start(1) assms(1) by blast
  have best: "best_ok env (set_mset (oracles_of (dp_groups st))) (dp_bestAnnouncement st)"
    using disco_run_inv [OF start, of cs] assms(1,4) by (auto simp: disco_inv_def)
  show ?thesis
  proof (cases rule: process_cases [OF env best, of ann, case_names kept peer own superseded])
    case (kept e)
    then show ?thesis using assms(5,6) by (intro exI [of _ a]) auto
  next
    case (peer pid)
    then show ?thesis using assms(5,6) by (cases "p = pid") auto
  next
    case own
    then show ?thesis using assms(5,6) by (cases "p = de_ownID env") auto
  next
    case (superseded new)
    show ?thesis
    proof (cases "p = de_ownID env")
      case True
      then have le: "ua_Counter a \<le> ua_Counter ann" using superseded(8) assms(5) by simp
      have "ua_Counter ann < ua_Counter new \<or> ua_Counter new = 0 \<and> ua_Counter ann = - 1"
        using u64_next [of "ua_Counter ann"] superseded(7) by auto
      then have "ua_Counter a \<le> ua_Counter new \<or> ua_Counter new = 0 \<and> ua_Counter ann = - 1" using le by auto
      then show ?thesis using True superseded(3,6,7) assms(6) by auto
    next
      case False
      then show ?thesis using superseded(3) assms(5,6) superseded(1) by auto
    qed
  qed
qed

section \<open>The lock\<close>

text \<open>
  \<open>recvLoop\<close> takes the lock for each announcement of a message, and keeps it while it sends what
  \<open>lockedProcessAnnouncement\<close> sends: a bumped announcement goes to \<open>sendLoop\<close>, a change of connectivity to
  the connectivity loop, which always takes it. \<open>sendLoop\<close> chooses between its timer and a bumped
  announcement, and then takes the lock as a reader.
\<close>

datatype recv_loop = RvSelect | RvLock announcement "announcement list" | RvSend disco_log "announcement list"

datatype send_loop = SdSelect | SdTick | SdBump announcement

record disco_goroutines =
  gr_st :: disco_state
  gr_recv :: recv_loop
  gr_send :: send_loop

datatype goroutine_case = GrReceive "announcement list" | GrLock | GrSent | GsTick | GsRLock

fun rv_next :: "announcement list \<Rightarrow> recv_loop" where
  "rv_next [] = RvSelect"
| "rv_next (ann # anns) = RvLock ann anns"

fun gr_ready :: "disco_goroutines \<Rightarrow> goroutine_case \<Rightarrow> bool" where
  "gr_ready s (GrReceive anns) = (gr_recv s = RvSelect)"
| "gr_ready s GrLock = (case gr_recv s of RvLock _ _ \<Rightarrow> True | _ \<Rightarrow> False)"
| "gr_ready s GrSent = (case gr_recv s of RvSend (DlBump _) _ \<Rightarrow> gr_send s = SdSelect | RvSend _ _ \<Rightarrow> True | _ \<Rightarrow> False)"
| "gr_ready s GsTick = (gr_send s = SdSelect)"
| "gr_ready s GsRLock = (gr_send s \<noteq> SdSelect \<and> (case gr_recv s of RvSend _ _ \<Rightarrow> False | _ \<Rightarrow> True))"

fun gr_process :: "disco_env \<Rightarrow> goroutine_case \<Rightarrow> disco_goroutines \<Rightarrow> disco_goroutines" where
  "gr_process env (GrReceive anns) s = s\<lparr>gr_recv := rv_next anns\<rparr>"
| "gr_process env GrLock s =
     (case gr_recv s of
        RvLock ann anns \<Rightarrow>
          (case lockedProcessAnnouncement env ann (gr_st s) of
             (_, None, st) \<Rightarrow> s\<lparr>gr_st := st, gr_recv := rv_next anns\<rparr>
           | (_, Some l, st) \<Rightarrow> s\<lparr>gr_st := st, gr_recv := RvSend l anns\<rparr>)
      | _ \<Rightarrow> s)"
| "gr_process env GrSent s =
     (case gr_recv s of
        RvSend l anns \<Rightarrow>
          let s = s\<lparr>gr_st := dp_emit l (gr_st s), gr_recv := rv_next anns\<rparr>
          in (case l of DlBump ann \<Rightarrow> s\<lparr>gr_send := SdBump ann\<rparr> | _ \<Rightarrow> s)
      | _ \<Rightarrow> s)"
| "gr_process env GsTick s = s\<lparr>gr_send := SdTick\<rparr>"
| "gr_process env GsRLock s =
     (case gr_send s of
        SdTick \<Rightarrow> s\<lparr>gr_st := sendReconcile env (gr_st s), gr_send := SdSelect\<rparr>
      | SdBump ann \<Rightarrow> s\<lparr>gr_st := sendToAllowedPeers env ann (gr_st s), gr_send := SdSelect\<rparr>
      | SdSelect \<Rightarrow> s)"

fun gr_run :: "disco_env \<Rightarrow> goroutine_case list \<Rightarrow> disco_goroutines \<Rightarrow> disco_goroutines option" where
  "gr_run env [] s = Some s"
| "gr_run env (c # cs) s = (if gr_ready s c then gr_run env cs (gr_process env c s) else None)"

text \<open>C22: Peer discovery can deadlock. Whenever an announcement arrives that makes the host bump its own, and
  the timer of the reconciliation fires while it is being processed, the receiving goroutine waits with the
  lock for the sending one, which waits for the lock: none of them moves again
  before the protocol is closed.\<close>

theorem discovery_can_deadlock:
  assumes "gr_recv s = RvSelect" "gr_send s = SdSelect"
    and "lockedProcessAnnouncement env ann (gr_st s) = (None, Some (DlBump bumped), st')"
  shows "\<exists>s'. gr_run env [GrReceive [ann], GsTick, GrLock] s = Some s' \<and> (\<forall>c. \<not> gr_ready s' c)"
proof -
  let ?s = "s\<lparr>gr_recv := RvSend (DlBump bumped) [], gr_send := SdTick, gr_st := st'\<rparr>"
  have "\<not> gr_ready ?s c" for c by (cases c) simp_all
  moreover have "gr_run env [GrReceive [ann], GsTick, GrLock] s = Some ?s" using assms by simp
  ultimately show ?thesis by blast
qed

section \<open>Examples\<close>

definition disco_ex_env :: disco_env where
  "disco_ex_env =
     \<lparr>de_crypto = \<lparr>sha256 = \<lambda>m. replicate 32 0, ed25519_Verify = \<lambda>pk m sig. sig = [1]\<rparr>,
      de_netip = \<lparr>np_ParseAddrPort = \<lambda>a. Some (\<lparr>ip_Is4 = True, ip_Is6 = False, ip_IsUnspecified = False, ip_Zone = [], ip_bytes = a\<rparr>, 80),
                  np_String = ip_bytes \<circ> fst\<rparr>,
      de_key = \<lparr>sk_Sign = \<lambda>m. [1], sk_Public = replicate 32 7\<rparr>, de_ownAddrs = [[5]], de_db = False,
      de_ReadAnnouncements = \<lambda>k ids. None, de_Unmarshal = \<lambda>b. None, de_Marshal = \<lambda>p. [], de_order = \<lambda>k ids. ids\<rparr>"

definition disco_ex_ann :: "u8 \<Rightarrow> u64 \<Rightarrow> bytes \<Rightarrow> announcement" where
  "disco_ex_ann owner counter addr =
     \<lparr>ua_Addrs = [addr], ua_Counter = counter, an_PublicKey = replicate 32 owner, an_Sig = Some [1]\<rparr>"

definition disco_ex_group :: "disco_case" where
  "disco_ex_group = DcAddGroup [1] [replicate 32 7, replicate 32 8] [(replicate 32 9, [[6]])]"

definition disco_ex_run :: "disco_case list \<Rightarrow> disco_state option" where
  "disco_ex_run cs =
     (case newDiscoveryProtocol disco_ex_env of
        None \<Rightarrow> None
      | Some st0 \<Rightarrow>
          (case disco_Start disco_ex_env st0 of
             (Some _, _) \<Rightarrow> None
           | (None, st1) \<Rightarrow> (case disco_run disco_ex_env cs st1 of Inl _ \<Rightarrow> None | Inr st \<Rightarrow> Some st)))"

lemma disco_ex_runD:
  assumes "disco_ex_run cs = Some st"
  obtains st0 st1 where "newDiscoveryProtocol disco_ex_env = Some st0" "disco_Start disco_ex_env st0 = (None, st1)"
    "disco_run disco_ex_env cs st1 = Inr st"
  using assms by (auto simp: disco_ex_run_def split: option.splits prod.splits sum.splits)

lemma disco_ex_key: "\<forall>m. ed25519_Verify (de_crypto disco_ex_env) (de_ownID disco_ex_env) m (sk_Sign (de_key disco_ex_env) m)"
  by (simp add: disco_ex_env_def)

text \<open>The announcement of an oracle is kept and that of a bootstrapper is not, whose configured address is found.\<close>

theorem discovery_follows_the_groups_witness:
  "\<exists>st a. disco_ex_run [disco_ex_group, DcReceive (DiscoReconcile [disco_ex_ann 8 3 [4], disco_ex_ann 9 0 [4]])] = Some st \<and>
     map_of (dp_bestAnnouncement st) (replicate 32 8) = Some a \<and> ua_Counter a = 3 \<and>
     ann_verify (de_crypto disco_ex_env) (de_netip disco_ex_env) a = None \<and>
     FindPeer (\<lambda>xs. xs) (replicate 32 9) st = [[6]] \<and> replicate 32 9 \<in> connected (dp_log st)"
proof -
  let ?cs = "[disco_ex_group, DcReceive (DiscoReconcile [disco_ex_ann 8 3 [4], disco_ex_ann 9 0 [4]])]"
  have run: "case disco_ex_run ?cs of None \<Rightarrow> False
    | Some st \<Rightarrow> (case map_of (dp_bestAnnouncement st) (replicate 32 8) of None \<Rightarrow> False | Some a \<Rightarrow> ua_Counter a = 3) \<and>
        FindPeer (\<lambda>xs. xs) (replicate 32 9) st = [[6]]"
    by code_simp
  then obtain st a where st: "disco_ex_run ?cs = Some st" "map_of (dp_bestAnnouncement st) (replicate 32 8) = Some a"
      "ua_Counter a = 3" "FindPeer (\<lambda>xs. xs) (replicate 32 9) st = [[6]]"
    by (auto split: option.splits)
  obtain st0 st1 where s: "newDiscoveryProtocol disco_ex_env = Some st0" "disco_Start disco_ex_env st0 = (None, st1)"
    "disco_run disco_ex_env ?cs st1 = Inr st" using st(1) by (rule disco_ex_runD)
  obtain st' where st': "disco_run disco_ex_env ?cs st1 = Inr st'"
    "\<forall>p a. map_of (dp_bestAnnouncement st') p = Some a \<longrightarrow> ann_verify (de_crypto disco_ex_env) (de_netip disco_ex_env) a = None"
    "\<forall>p. FindPeer (\<lambda>xs. xs) p st' \<noteq> [] \<longrightarrow> p = de_ownID disco_ex_env \<or> p \<in> connected (dp_log st')"
    by (rule exE [OF discovery_follows_the_groups [OF disco_ex_key s(1,2) refl, of ?cs]], elim conjE, rule that, assumption)
      (iprover, iprover)
  have eq: "st' = st" using st'(1) s(3) by simp
  have "replicate 32 9 \<noteq> de_ownID disco_ex_env" by (simp add: disco_ex_env_def)
  moreover have "FindPeer (\<lambda>xs. xs) (replicate 32 9) st \<noteq> []" unfolding st(4) by simp
  ultimately have "replicate 32 9 \<in> connected (dp_log st)" using st'(3) unfolding eq by blast
  then show ?thesis using st st'(2) unfolding eq by blast
qed

theorem old_own_announcements_are_superseded_witness:
  "\<exists>st a'. disco_ex_run [disco_ex_group] = Some st \<and>
     map_of (dp_bestAnnouncement (snd (snd (lockedProcessAnnouncement disco_ex_env (disco_ex_ann 7 4 [3]) st)))) (replicate 32 7) = Some a' \<and>
     ua_Addrs a' = [[5]] \<and> ua_Counter a' = 5"
proof -
  have run: "case disco_ex_run [disco_ex_group] of None \<Rightarrow> False
    | Some st \<Rightarrow> (case map_of (dp_bestAnnouncement st) (replicate 32 7) of None \<Rightarrow> False
        | Some a \<Rightarrow> ua_Counter a \<le> 4 \<and> gm_count (dp_numGroupsByOracle st) (replicate 32 7) \<noteq> 0)"
    by code_simp
  then obtain st a where st: "disco_ex_run [disco_ex_group] = Some st" "map_of (dp_bestAnnouncement st) (replicate 32 7) = Some a"
      "ua_Counter a \<le> 4" "gm_count (dp_numGroupsByOracle st) (replicate 32 7) \<noteq> 0"
    by (auto split: option.splits)
  obtain st0 st1 where s: "newDiscoveryProtocol disco_ex_env = Some st0" "disco_Start disco_ex_env st0 = (None, st1)"
    "disco_run disco_ex_env [disco_ex_group] st1 = Inr st" using st(1) by (rule disco_ex_runD)
  obtain err send st' where p: "lockedProcessAnnouncement disco_ex_env (disco_ex_ann 7 4 [3]) st = (err, send, st')"
    by (metis prod_cases3)
  have ann: "ann_PeerID (disco_ex_ann 7 4 [3]) = Some (replicate 32 7)"
    "ann_verify (de_crypto disco_ex_env) (de_netip disco_ex_env) (disco_ex_ann 7 4 [3]) = None"
    by code_simp+
  have own: "de_ownID disco_ex_env = replicate 32 7" "de_ownAddrs disco_ex_env = [[5]]"
    "ua_Addrs (disco_ex_ann 7 4 [3]) = [[3]]" "ua_Counter (disco_ex_ann 7 4 [3]) = 4"
    by (simp_all add: disco_ex_env_def disco_ex_ann_def)
  have "\<exists>a'. map_of (dp_bestAnnouncement st') (replicate 32 7) = Some a' \<and> ua_Addrs a' = [[5]] \<and> ua_Counter a' = 4 + 1"
    using old_own_announcements_are_superseded [OF disco_ex_key s st(2) p] ann own st(3,4) by auto
  then show ?thesis using st(1) p by auto
qed

theorem discovery_can_deadlock_witness:
  "\<exists>st s'. disco_ex_run [disco_ex_group] = Some st \<and>
     gr_run disco_ex_env [GrReceive [disco_ex_ann 7 0 [3]], GsTick, GrLock] \<lparr>gr_st = st, gr_recv = RvSelect, gr_send = SdSelect\<rparr> = Some s' \<and>
     (\<forall>c. \<not> gr_ready s' c)"
proof -
  have "case disco_ex_run [disco_ex_group] of None \<Rightarrow> False
    | Some st \<Rightarrow> (case lockedProcessAnnouncement disco_ex_env (disco_ex_ann 7 0 [3]) st of (None, Some (DlBump _), _) \<Rightarrow> True | _ \<Rightarrow> False)"
    by code_simp
  then obtain st bumped st' where st: "disco_ex_run [disco_ex_group] = Some st"
      "lockedProcessAnnouncement disco_ex_env (disco_ex_ann 7 0 [3]) st = (None, Some (DlBump bumped), st')"
    by (auto split: option.splits prod.splits disco_log.splits)
  from discovery_can_deadlock [of "\<lparr>gr_st = st, gr_recv = RvSelect, gr_send = SdSelect\<rparr>"] st show ?thesis by simp
qed

text \<open>A second call of \<open>Start\<close> fails, and closes the running protocol.\<close>

lemma second_Start_closes:
  "dp_state st = DiscoStarted \<Longrightarrow> disco_Start env st = (Some DiscoWrongState, st\<lparr>dp_state := DiscoClosed\<rparr>)"
  by (simp add: disco_Start_def disco_Close_def)

end
