(* ===== verification/Ocr2Serialization.thy ===== *)
theory Ocr2Serialization
  imports Ocr2Messages ProtoBase
begin

text \<open>
  The translation between OCR2 messages and their protobuf counterparts
  (\<open>ocr2/serialization/serialization.go\<close>, with the generated structs of \<open>offchainreporting2_messages.pb.go\<close>).
  A nil pointer is \<open>None\<close>; \<open>proto.Marshal\<close> and \<open>proto.Unmarshal\<close> are parameters.
\<close>

section \<open>Protobuf messages\<close>

record pb2_AttributedSignature =
  p2as_Signature :: bytes
  p2as_Signer :: u32

record pb2_SignedObservation =
  p2so_Observation :: bytes
  p2so_Signature :: bytes

record pb2_AttributedSignedObservation =
  p2aso_SignedObservation :: "pb2_SignedObservation option"
  p2aso_Observer :: u32

record pb2_AttestedReportOne =
  p2ar_Skip :: bool
  p2ar_Report :: bytes
  p2ar_Signature :: bytes

record pb2_AttestedReportMany =
  p2arm_Report :: bytes
  p2arm_AttributedSignatures :: "pb2_AttributedSignature option list"

record pb2_MessageFinal =
  p2mf_Epoch :: u64
  p2mf_Round :: u32
  p2mf_H :: bytes
  p2mf_AttestedReport :: "pb2_AttestedReportMany option"

datatype pb2_MessageNewEpoch = Pb2NewEpoch u64
datatype pb2_MessageObserveReq = Pb2ObserveReq u64 u32 bytes
datatype pb2_MessageObserve = Pb2Observe u64 u32 "pb2_SignedObservation option"
datatype pb2_MessageReportReq = Pb2ReportReq u64 u32 bytes "pb2_AttributedSignedObservation option list"
datatype pb2_MessageReport = Pb2Report u64 u32 "pb2_AttestedReportOne option"
datatype pb2_MessageFinalEcho = Pb2FinalEcho "pb2_MessageFinal option"

datatype pb2_oneof_Msg =
    Wr2NewEpoch "pb2_MessageNewEpoch option"
  | Wr2ObserveReq "pb2_MessageObserveReq option"
  | Wr2Observe "pb2_MessageObserve option"
  | Wr2ReportReq "pb2_MessageReportReq option"
  | Wr2Report "pb2_MessageReport option"
  | Wr2Final "pb2_MessageFinal option"
  | Wr2FinalEcho "pb2_MessageFinalEcho option"

text \<open>The wrapper; \<open>None\<close> is the message without a case of its \<open>oneof\<close>.\<close>

type_synonym Ocr2MessageWrapper = "pb2_oneof_Msg option"

section \<open>To protobuf\<close>

definition ocr2_signedObservationToProtoMessage :: "Ocr2SignedObservation \<Rightarrow> pb2_SignedObservation" where
  "ocr2_signedObservationToProtoMessage o2 = \<lparr>p2so_Observation = o2so_Observation o2, p2so_Signature = o2so_Signature o2\<rparr>"

definition ocr2_attributedSignedObservationToProtoMessage ::
  "Ocr2AttributedSignedObservation \<Rightarrow> pb2_AttributedSignedObservation" where
  "ocr2_attributedSignedObservationToProtoMessage aso =
     \<lparr>p2aso_SignedObservation = Some (ocr2_signedObservationToProtoMessage (o2aso_SignedObservation aso)),
      p2aso_Observer = ucast (o2aso_Observer aso)\<rparr>"

definition attestedReportOneToProtoMessage :: "AttestedReportOne \<Rightarrow> pb2_AttestedReportOne" where
  "attestedReportOneToProtoMessage aro =
     \<lparr>p2ar_Skip = ar1_Skip aro, p2ar_Report = ar1_Report aro, p2ar_Signature = ar1_Signature aro\<rparr>"

definition attestedReportManyToProtoMessage :: "Ocr2AttestedReportMany \<Rightarrow> pb2_AttestedReportMany" where
  "attestedReportManyToProtoMessage arm =
     \<lparr>p2arm_Report = arm_Report arm,
      p2arm_AttributedSignatures =
        map (\<lambda>as. Some \<lparr>p2as_Signature = aos_Signature as, p2as_Signer = ucast (aos_Signer as)\<rparr>) (arm_AttributedSignatures arm)\<rparr>"

definition finalToProtoMessage :: "MessageFinal \<Rightarrow> pb2_MessageFinal" where
  "finalToProtoMessage v =
     \<lparr>p2mf_Epoch = ucast (mf_Epoch v), p2mf_Round = ucast (mf_Round v), p2mf_H = mf_H v,
      p2mf_AttestedReport = Some (attestedReportManyToProtoMessage (mf_AttestedReport v))\<rparr>"

fun ocr2_toProtoMessage :: "Ocr2Message \<Rightarrow> Ocr2MessageWrapper" where
  "ocr2_toProtoMessage (Ocr2ToPacemaker (MessageNewEpoch e)) = Some (Wr2NewEpoch (Some (Pb2NewEpoch (ucast e))))"
| "ocr2_toProtoMessage (Ocr2ToReportGeneration (MessageObserveReq e r q)) =
     Some (Wr2ObserveReq (Some (Pb2ObserveReq (ucast e) (ucast r) q)))"
| "ocr2_toProtoMessage (Ocr2ToReportGeneration (MessageObserve e r so)) =
     Some (Wr2Observe (Some (Pb2Observe (ucast e) (ucast r) (Some (ocr2_signedObservationToProtoMessage so)))))"
| "ocr2_toProtoMessage (Ocr2ToReportGeneration (MessageReportReq e r q asos)) =
     Some (Wr2ReportReq (Some (Pb2ReportReq (ucast e) (ucast r) q
       (map (Some \<circ> ocr2_attributedSignedObservationToProtoMessage) asos))))"
| "ocr2_toProtoMessage (Ocr2ToReportGeneration (MessageReport e r ar)) =
     Some (Wr2Report (Some (Pb2Report (ucast e) (ucast r) (Some (attestedReportOneToProtoMessage ar)))))"
| "ocr2_toProtoMessage (Ocr2ToReportGeneration (MessageFinalM m)) = Some (Wr2Final (Some (finalToProtoMessage m)))"
| "ocr2_toProtoMessage (Ocr2ToReportFinalization (MessageFinalEcho m)) =
     Some (Wr2FinalEcho (Some (Pb2FinalEcho (Some (finalToProtoMessage m)))))"

section \<open>From protobuf\<close>

definition messageNewEpochFromProtoMessage :: "pb2_MessageNewEpoch option \<Rightarrow> ser_error + MessageNewEpoch" where
  "messageNewEpochFromProtoMessage m =
     bindG (extract_value ''MessageNewEpoch'' m) (\<lambda>m. case m of Pb2NewEpoch e \<Rightarrow> Inr (MessageNewEpoch (ucast e)))"

definition messageObserveReqFromProtoMessage :: "pb2_MessageObserveReq option \<Rightarrow> ser_error + MessageToReportGeneration" where
  "messageObserveReqFromProtoMessage m =
     bindG (extract_value ''MessageObserveReq'' m) (\<lambda>m. case m of Pb2ObserveReq e r q \<Rightarrow>
       Inr (MessageObserveReq (ucast e) (ucast r) q))"

definition ocr2_signedObservationFromProtoMessage :: "pb2_SignedObservation option \<Rightarrow> ser_error + Ocr2SignedObservation" where
  "ocr2_signedObservationFromProtoMessage m =
     bindG (extract_value ''SignedObservation'' m) (\<lambda>m.
       Inr \<lparr>o2so_Observation = p2so_Observation m, o2so_Signature = p2so_Signature m\<rparr>)"

definition messageObserveFromProtoMessage :: "pb2_MessageObserve option \<Rightarrow> ser_error + MessageToReportGeneration" where
  "messageObserveFromProtoMessage m =
     bindG (extract_value ''MessageObserve'' m) (\<lambda>m. case m of Pb2Observe e r so \<Rightarrow>
     bindG (ocr2_signedObservationFromProtoMessage so) (\<lambda>so. Inr (MessageObserve (ucast e) (ucast r) so)))"

definition ocr2_attributedSignedObservationFromProtoMessage ::
  "pb2_AttributedSignedObservation option \<Rightarrow> ser_error + Ocr2AttributedSignedObservation" where
  "ocr2_attributedSignedObservationFromProtoMessage m =
     bindG (extract_value ''AttributedSignedObservation'' m) (\<lambda>m.
     bindG (ocr2_signedObservationFromProtoMessage (p2aso_SignedObservation m)) (\<lambda>so.
       Inr \<lparr>o2aso_SignedObservation = so, o2aso_Observer = OracleID_of (p2aso_Observer m)\<rparr>))"

fun ocr2_attributedSignedObservationsFromProtoMessage ::
  "pb2_AttributedSignedObservation option list \<Rightarrow> ser_error + Ocr2AttributedSignedObservation list" where
  "ocr2_attributedSignedObservationsFromProtoMessage [] = Inr []"
| "ocr2_attributedSignedObservationsFromProtoMessage (pbaso # pbasos) =
     bindG (ocr2_attributedSignedObservationFromProtoMessage pbaso) (\<lambda>aso.
     bindG (ocr2_attributedSignedObservationsFromProtoMessage pbasos) (\<lambda>asos. Inr (aso # asos)))"

definition messageReportReqFromProtoMessage :: "pb2_MessageReportReq option \<Rightarrow> ser_error + MessageToReportGeneration" where
  "messageReportReqFromProtoMessage m =
     bindG (extract_value ''MessageReportReq'' m) (\<lambda>m. case m of Pb2ReportReq e r q asos \<Rightarrow>
     bindG (ocr2_attributedSignedObservationsFromProtoMessage asos) (\<lambda>asos.
       Inr (MessageReportReq (ucast e) (ucast r) q asos)))"

definition attestedReportOneFromProtoMessage :: "pb2_AttestedReportOne option \<Rightarrow> ser_error + AttestedReportOne" where
  "attestedReportOneFromProtoMessage m =
     bindG (extract_value ''AttestedReportOne'' m) (\<lambda>m.
       Inr \<lparr>ar1_Skip = p2ar_Skip m, ar1_Report = p2ar_Report m, ar1_Signature = p2ar_Signature m\<rparr>)"

definition messageReportFromProtoMessage :: "pb2_MessageReport option \<Rightarrow> ser_error + MessageToReportGeneration" where
  "messageReportFromProtoMessage m =
     bindG (extract_value ''MessageReport'' m) (\<lambda>m. case m of Pb2Report e r ar \<Rightarrow>
     bindG (attestedReportOneFromProtoMessage ar) (\<lambda>ar. Inr (MessageReport (ucast e) (ucast r) ar)))"

fun attributedSignaturesFromProto :: "pb2_AttributedSignature option list \<Rightarrow> ser_error + AttributedOnchainSignature list" where
  "attributedSignaturesFromProto [] = Inr []"
| "attributedSignaturesFromProto (as # pbass) =
     bindG (extract_value ''AttestedReportMany'' as) (\<lambda>as.
     bindG (attributedSignaturesFromProto pbass) (\<lambda>ass.
       Inr (\<lparr>aos_Signature = p2as_Signature as, aos_Signer = OracleID_of (p2as_Signer as)\<rparr> # ass)))"

definition attestedReportManyFromProtoMessage :: "pb2_AttestedReportMany option \<Rightarrow> ser_error + Ocr2AttestedReportMany" where
  "attestedReportManyFromProtoMessage m =
     bindG (extract_value ''AttestedReportMany'' m) (\<lambda>m.
     bindG (attributedSignaturesFromProto (p2arm_AttributedSignatures m)) (\<lambda>ass.
       Inr \<lparr>arm_Report = p2arm_Report m, arm_AttributedSignatures = ass\<rparr>))"

definition messageFinalFromProtoMessage :: "pb2_MessageFinal option \<Rightarrow> ser_error + MessageFinal" where
  "messageFinalFromProtoMessage m =
     bindG (extract_value ''MessageFinal'' m) (\<lambda>m.
     bindG (attestedReportManyFromProtoMessage (p2mf_AttestedReport m)) (\<lambda>report.
       if length (p2mf_H m) \<noteq> 32 then Inl (UnableToExtract ''MessageFinal.H'')
       else Inr \<lparr>mf_Epoch = ucast (p2mf_Epoch m), mf_Round = ucast (p2mf_Round m), mf_H = go_copy 32 (p2mf_H m),
                 mf_AttestedReport = report\<rparr>))"

definition messageFinalEchoFromProtoMessage :: "pb2_MessageFinalEcho option \<Rightarrow> ser_error + MessageFinalEcho" where
  "messageFinalEchoFromProtoMessage m =
     bindG (extract_value ''MessageFinalEcho'' m) (\<lambda>m. case m of Pb2FinalEcho f \<Rightarrow>
     bindG (messageFinalFromProtoMessage f) (\<lambda>final. Inr (MessageFinalEcho final)))"

fun ocr2_messageWrapperFromProtoMessage :: "Ocr2MessageWrapper \<Rightarrow> ser_error + Ocr2Message" where
  "ocr2_messageWrapperFromProtoMessage (Some (Wr2NewEpoch m)) = bindG (messageNewEpochFromProtoMessage m) (\<lambda>m. Inr (Ocr2ToPacemaker m))"
| "ocr2_messageWrapperFromProtoMessage (Some (Wr2ObserveReq m)) =
     bindG (messageObserveReqFromProtoMessage m) (\<lambda>m. Inr (Ocr2ToReportGeneration m))"
| "ocr2_messageWrapperFromProtoMessage (Some (Wr2Observe m)) =
     bindG (messageObserveFromProtoMessage m) (\<lambda>m. Inr (Ocr2ToReportGeneration m))"
| "ocr2_messageWrapperFromProtoMessage (Some (Wr2ReportReq m)) =
     bindG (messageReportReqFromProtoMessage m) (\<lambda>m. Inr (Ocr2ToReportGeneration m))"
| "ocr2_messageWrapperFromProtoMessage (Some (Wr2Report m)) =
     bindG (messageReportFromProtoMessage m) (\<lambda>m. Inr (Ocr2ToReportGeneration m))"
| "ocr2_messageWrapperFromProtoMessage (Some (Wr2Final m)) =
     bindG (messageFinalFromProtoMessage m) (\<lambda>m. Inr (Ocr2ToReportGeneration (MessageFinalM m)))"
| "ocr2_messageWrapperFromProtoMessage (Some (Wr2FinalEcho m)) =
     bindG (messageFinalEchoFromProtoMessage m) (\<lambda>m. Inr (Ocr2ToReportFinalization m))"
| "ocr2_messageWrapperFromProtoMessage None = Inl UnrecognizedMsg"

definition ocr2_Serialize :: "(Ocr2MessageWrapper \<Rightarrow> bytes option) \<Rightarrow> Ocr2Message \<Rightarrow> ser_error + bytes \<times> Ocr2MessageWrapper" where
  "ocr2_Serialize Marshal m =
     (let pbm = ocr2_toProtoMessage m
      in case Marshal pbm of None \<Rightarrow> Inl CouldNotMarshal | Some b \<Rightarrow> Inr (b, pbm))"

definition ocr2_Deserialize :: "(bytes \<Rightarrow> Ocr2MessageWrapper option) \<Rightarrow> bytes \<Rightarrow> ser_error + Ocr2Message \<times> Ocr2MessageWrapper" where
  "ocr2_Deserialize Unmarshal b =
     (case Unmarshal b of
        None \<Rightarrow> Inl CouldNotUnmarshal
      | Some pbm \<Rightarrow> bindG (ocr2_messageWrapperFromProtoMessage pbm) (\<lambda>m. Inr (m, pbm)))"

section \<open>Round trip\<close>

lemmas ocr2_ser_defs = ocr2_signedObservationToProtoMessage_def ocr2_attributedSignedObservationToProtoMessage_def
  attestedReportOneToProtoMessage_def attestedReportManyToProtoMessage_def finalToProtoMessage_def
  messageNewEpochFromProtoMessage_def messageObserveReqFromProtoMessage_def ocr2_signedObservationFromProtoMessage_def
  messageObserveFromProtoMessage_def ocr2_attributedSignedObservationFromProtoMessage_def messageReportReqFromProtoMessage_def
  attestedReportOneFromProtoMessage_def messageReportFromProtoMessage_def attestedReportManyFromProtoMessage_def
  messageFinalFromProtoMessage_def messageFinalEchoFromProtoMessage_def

lemma narrow_epoch [simp]: "ucast (ucast (e :: u32) :: u64) = e"
  by (simp add: ucast_down_ucast_id is_down)

lemma narrow_round [simp]: "ucast (ucast (r :: u8) :: u32) = r"
  by (simp add: ucast_down_ucast_id is_down)

lemma ocr2_asos_roundtrip:
  "ocr2_attributedSignedObservationsFromProtoMessage (map (Some \<circ> ocr2_attributedSignedObservationToProtoMessage) asos) = Inr asos"
  by (induction asos) (simp_all add: ocr2_ser_defs)

lemma attributedSignatures_roundtrip:
  "attributedSignaturesFromProto (map (\<lambda>as. Some \<lparr>p2as_Signature = aos_Signature as, p2as_Signer = ucast (aos_Signer as)\<rparr>) ass) = Inr ass"
  by (induction ass) simp_all

text \<open>The field \<open>H\<close> is an array of 32 bytes.\<close>

fun ocr2_message_H_ok :: "Ocr2Message \<Rightarrow> bool" where
  "ocr2_message_H_ok (Ocr2ToReportGeneration (MessageFinalM m)) = (length (mf_H m) = 32)"
| "ocr2_message_H_ok (Ocr2ToReportFinalization (MessageFinalEcho m)) = (length (mf_H m) = 32)"
| "ocr2_message_H_ok m = True"

lemma ocr2_message_roundtrip:
  "ocr2_message_H_ok m \<Longrightarrow> ocr2_messageWrapperFromProtoMessage (ocr2_toProtoMessage m) = Inr m"
  by (cases m rule: ocr2_toProtoMessage.cases)
    (simp_all add: ocr2_asos_roundtrip attributedSignatures_roundtrip ocr2_ser_defs)

definition ocr2_proto_inverse :: "(Ocr2MessageWrapper \<Rightarrow> bytes option) \<Rightarrow> (bytes \<Rightarrow> Ocr2MessageWrapper option) \<Rightarrow> bool" where
  "ocr2_proto_inverse Marshal Unmarshal \<longleftrightarrow>
     (\<forall>m b. Marshal (ocr2_toProtoMessage m) = Some b \<longrightarrow> Unmarshal b = Some (ocr2_toProtoMessage m))"

text \<open>C23: An OCR2 message that one oracle serialises is the message another one deserialises, for every kind
  of message, with its observations, reports and signatures, as long as protobuf decodes what it encodes.\<close>

theorem ocr2_messages_roundtrip:
  assumes "ocr2_proto_inverse Marshal Unmarshal" "ocr2_message_H_ok m" "ocr2_Serialize Marshal m = Inr (b, pbm)"
  shows "ocr2_Deserialize Unmarshal b = Inr (m, pbm)"
  using assms ocr2_message_roundtrip [OF assms(2)]
  by (auto simp: ocr2_Serialize_def ocr2_Deserialize_def ocr2_proto_inverse_def Let_def split: option.splits)

definition ocr2_ser_example :: Ocr2Message where
  "ocr2_ser_example = Ocr2ToReportGeneration (MessageReport 2 3 \<lparr>ar1_Skip = False, ar1_Report = [4], ar1_Signature = [5]\<rparr>)"

definition ocr2_example_marshal :: "Ocr2MessageWrapper \<Rightarrow> bytes option" where
  "ocr2_example_marshal w = (if w = ocr2_toProtoMessage ocr2_ser_example then Some [1] else None)"

definition ocr2_example_unmarshal :: "bytes \<Rightarrow> Ocr2MessageWrapper option" where
  "ocr2_example_unmarshal b = (if b = [1] then Some (ocr2_toProtoMessage ocr2_ser_example) else None)"

theorem ocr2_messages_roundtrip_witness:
  "ocr2_Deserialize ocr2_example_unmarshal [1] = Inr (ocr2_ser_example, ocr2_toProtoMessage ocr2_ser_example)"
proof -
  have "ocr2_proto_inverse ocr2_example_marshal ocr2_example_unmarshal"
    by (simp add: ocr2_proto_inverse_def ocr2_example_marshal_def ocr2_example_unmarshal_def)
  moreover have "ocr2_Serialize ocr2_example_marshal ocr2_ser_example = Inr ([1], ocr2_toProtoMessage ocr2_ser_example)"
    by (simp add: ocr2_Serialize_def ocr2_example_marshal_def)
  moreover have "ocr2_message_H_ok ocr2_ser_example" by (simp add: ocr2_ser_example_def)
  ultimately show ?thesis by (intro ocr2_messages_roundtrip)
qed

text \<open>Epochs and rounds are wider on the wire than in the protocol and are truncated without an error.\<close>

lemma ocr2_epoch_is_truncated:
  "messageNewEpochFromProtoMessage (Some (Pb2NewEpoch (2 ^ 32 + 5))) = messageNewEpochFromProtoMessage (Some (Pb2NewEpoch 5))"
  by (simp add: messageNewEpochFromProtoMessage_def)

end
