(* ===== verification/ProtoWire.thy ===== *)
theory ProtoWire
  imports Prelude
begin

text \<open>
  The documented size of the protobuf wire format (proto3), as far as the messages of the protocols use it:
  varints, length-delimited fields and the omission of fields that have their default value. All of it is
  used in hypotheses only: the encoder itself is generated code.
\<close>

section \<open>Sizes\<close>

function varint_size :: "nat \<Rightarrow> nat" where
  "varint_size n = (if n < 128 then 1 else 1 + varint_size (n div 128))"
  by auto
termination by (relation "measure id") auto

declare varint_size.simps [simp del]

text \<open>A length-delimited field of \<open>n\<close> bytes whose tag takes \<open>t\<close> bytes.\<close>

definition delimited :: "nat \<Rightarrow> nat \<Rightarrow> nat" where
  "delimited t n = t + varint_size n + n"

text \<open>Fields with a number below 16, whose tag is one byte. A nil message is not written, but it is written
  as an empty one where it is the element of a list.\<close>

definition uint_field :: "'a::len word \<Rightarrow> nat" where
  "uint_field w = (if w = 0 then 0 else 1 + varint_size (unat w))"

definition bool_field :: "bool \<Rightarrow> nat" where
  "bool_field b = (if b then 2 else 0)"

definition bytes_field :: "bytes \<Rightarrow> nat" where
  "bytes_field b = (if b = [] then 0 else delimited 1 (length b))"

definition msg_field :: "('m \<Rightarrow> nat) \<Rightarrow> 'm option \<Rightarrow> nat" where
  "msg_field f m = (case m of None \<Rightarrow> 0 | Some m \<Rightarrow> delimited 1 (f m))"

definition rep_field :: "('m \<Rightarrow> nat) \<Rightarrow> 'm option list \<Rightarrow> nat" where
  "rep_field f ms = sum_list (map (\<lambda>m. delimited 1 (case m of None \<Rightarrow> 0 | Some m \<Rightarrow> f m)) ms)"

definition rep_bytes_field :: "bytes list \<Rightarrow> nat" where
  "rep_bytes_field bs = sum_list (map (\<lambda>b. delimited 1 (length b)) bs)"

text \<open>The case of a \<open>oneof\<close>, which is written even when it is empty.\<close>

definition oneof_field :: "nat \<Rightarrow> ('m \<Rightarrow> nat) \<Rightarrow> 'm option \<Rightarrow> nat" where
  "oneof_field t f m = delimited t (case m of None \<Rightarrow> 0 | Some m \<Rightarrow> f m)"

section \<open>Bounds\<close>

lemma varint_size_le:
  assumes "0 < k" "n < 128 ^ k"
  shows "varint_size n \<le> k"
  using assms
proof (induction k arbitrary: n rule: nat_induct_non_zero)
  case 1
  then show ?case by (simp add: varint_size.simps [of n])
next
  case (Suc k)
  from Suc.prems have "n div 128 < 128 ^ k" by (simp add: less_mult_imp_div_less mult.commute)
  from Suc.IH [OF this] Suc.hyps show ?case by (simp add: varint_size.simps [of n])
qed

lemma varint_size_mono: "m \<le> n \<Longrightarrow> varint_size m \<le> varint_size n"
proof (induction n arbitrary: m rule: varint_size.induct)
  case (1 n)
  then have "varint_size (m div 128) \<le> varint_size (n div 128)" if "\<not> n < 128"
    using that by (intro "1.IH") (auto simp: div_le_mono)
  then show ?case using 1(2) varint_size.simps [of m] varint_size.simps [of n] by auto
qed

lemma varint_size_bounds:
  "n < 128 \<Longrightarrow> varint_size n \<le> 1" "n < 16384 \<Longrightarrow> varint_size n \<le> 2" "n < 2097152 \<Longrightarrow> varint_size n \<le> 3"
  "n < 268435456 \<Longrightarrow> varint_size n \<le> 4" "n < 34359738368 \<Longrightarrow> varint_size n \<le> 5"
  using varint_size_le [of 1 n] varint_size_le [of 2 n] varint_size_le [of 3 n] varint_size_le [of 4 n]
    varint_size_le [of 5 n] by simp_all

lemma varint_size_pos [simp]: "0 < varint_size n"
  by (simp add: varint_size.simps [of n])

lemma delimited_mono: "m \<le> n \<Longrightarrow> delimited t m \<le> delimited t n"
  using varint_size_mono [of m n] by (simp add: delimited_def)

text \<open>A field of at most \<open>n\<close> bytes, where the size of a length up to \<open>n\<close> is at most \<open>k\<close>.\<close>

lemma delimited_le: "m \<le> n \<Longrightarrow> 0 < k \<Longrightarrow> n < 128 ^ k \<Longrightarrow> delimited t m \<le> t + k + n"
  using varint_size_le [of k m] by (simp add: delimited_def)

lemma unat_bounds: "unat (w :: u8) < 256" "unat (v :: u32) < 4294967296" "unat (x :: u64) < 18446744073709551616"
  using unsigned_less [of w, where 'a = nat] unsigned_less [of v, where 'a = nat] unsigned_less [of x, where 'a = nat]
  by simp_all

lemma uint_field_le: "0 < k \<Longrightarrow> unat w < 128 ^ k \<Longrightarrow> uint_field w \<le> 1 + k"
  using varint_size_le [of k "unat w"] by (simp add: uint_field_def)

lemma uint_field_u64: "uint_field (w :: u64) \<le> 11"
  using uint_field_le [of 10 w] unat_bounds(3) [of w] by simp

lemma uint_field_ucast:
  fixes w :: u8 and v :: u32
  shows "uint_field (ucast w :: u32) \<le> 3" "uint_field (ucast v :: u64) \<le> 6"
  using unat_bounds(1) [of w] unat_bounds(2) [of v]
    uint_field_le [of 2 "ucast w :: u32"] uint_field_le [of 5 "ucast v :: u64"]
  by (simp_all add: unsigned_ucast_eq take_bit_eq_mod)

lemma bool_field_le: "bool_field b \<le> 2"
  by (simp add: bool_field_def)

lemma bytes_field_le: "length b \<le> n \<Longrightarrow> 0 < k \<Longrightarrow> n < 128 ^ k \<Longrightarrow> bytes_field b \<le> 1 + k + n"
  using delimited_le [of "length b" n k 1] by (simp add: bytes_field_def)

lemma length_le_bytes_field: "length b \<le> bytes_field b"
  by (simp add: bytes_field_def delimited_def)

lemma msg_field_le: "f m \<le> n \<Longrightarrow> 0 < k \<Longrightarrow> n < 128 ^ k \<Longrightarrow> msg_field f (Some m) \<le> 1 + k + n"
  using delimited_le [of "f m" n k 1] by (simp add: msg_field_def)

lemma oneof_field_le: "f m \<le> n \<Longrightarrow> 0 < k \<Longrightarrow> n < 128 ^ k \<Longrightarrow> oneof_field t f (Some m) \<le> t + k + n"
  using delimited_le [of "f m" n k t] by (simp add: oneof_field_def)

lemma sum_list_le_length: "\<forall>x \<in> set xs. f x \<le> (n::nat) \<Longrightarrow> sum_list (map f xs) \<le> length xs * n"
  by (induction xs) auto

lemma rep_field_le:
  assumes "\<forall>m \<in> set ms. f m \<le> n" "0 < k" "n < 128 ^ k"
  shows "rep_field f (map Some ms) \<le> length ms * (1 + k + n)"
  using sum_list_le_length [of "map Some ms" "\<lambda>m. delimited 1 (case m of None \<Rightarrow> 0 | Some m \<Rightarrow> f m)" "1 + k + n"]
    assms delimited_le [of _ n k 1] by (auto simp: rep_field_def)

lemma rep_bytes_field_le:
  assumes "\<forall>b \<in> set bs. length b \<le> n" "0 < k" "n < 128 ^ k"
  shows "rep_bytes_field bs \<le> length bs * (1 + k + n)"
  using sum_list_le_length [of bs "\<lambda>b. delimited 1 (length b)" "1 + k + n"] assms delimited_le [of _ n k 1]
  by (auto simp: rep_bytes_field_def)

lemma length_le_rep_field:
  assumes "\<forall>m \<in> set ms. n \<le> f m"
  shows "length ms * n \<le> rep_field f (map Some ms)"
  using assms by (induction ms) (auto simp: rep_field_def delimited_def)

end
