(* ===== verification/NetLimits.thy ===== *)
theory NetLimits
  imports ProtoWire GoFloat PublicConfig
begin

text \<open>
  What the computations of the bandwidth limits of OCR2 and OCR3 share (\<open>managed/limits\<close>): sums and products
  with an overflow check, the maximum of \<open>util.go\<close>, rates, and the limits themselves (\<open>types.go\<close>).
\<close>

section \<open>Arithmetic with an overflow check\<close>

text \<open>The code sets a flag on the first sum or product outside of \<open>int32\<close> and gives up at the end; nothing in
  between depends on the flag, so that giving up at once is the same.\<close>

datatype limits_error = Int32Overflow

definition int32_checked :: "int \<Rightarrow> limits_error + int" where
  "int32_checked s = (if 0 \<le> s \<and> s \<le> 2 ^ 31 - 1 then Inr s else Inl Int32Overflow)"

definition lim_add :: "int list \<Rightarrow> limits_error + int" where "lim_add xs = int32_checked (sum_list xs)"

definition lim_mul :: "int list \<Rightarrow> limits_error + int" where "lim_mul xs = int32_checked (prod_list xs)"

definition lim_max :: "int \<Rightarrow> int list \<Rightarrow> int" where
  "lim_max x xs = (let xs = sort xs in if xs = [] \<or> xs ! (length xs - 1) < x then x else xs ! (length xs - 1))"

lemma lim_add_Inr: "lim_add xs = Inr y \<longleftrightarrow> y = sum_list xs \<and> 0 \<le> y \<and> y \<le> 2147483647"
  by (auto simp: lim_add_def int32_checked_def)

lemma lim_mul_Inr: "lim_mul xs = Inr y \<longleftrightarrow> y = prod_list xs \<and> 0 \<le> y \<and> y \<le> 2147483647"
  by (auto simp: lim_mul_def int32_checked_def)

lemma sort_eq_Nil [simp]: "sort xs = [] \<longleftrightarrow> xs = []"
  by (metis length_0_conv length_sort)

lemma last_sort_ge: "z \<in> set xs \<Longrightarrow> z \<le> sort xs ! (length xs - 1)"
proof -
  assume "z \<in> set xs"
  then obtain i where i: "i < length xs" "z = sort xs ! i"
    by (metis in_set_conv_nth length_sort set_sort)
  then show ?thesis by (simp add: sorted_nth_mono)
qed

lemma last_sort_in: "xs \<noteq> [] \<Longrightarrow> sort xs ! (length xs - 1) \<in> set xs"
  using nth_mem [of "length xs - 1" "sort xs"] by simp

lemma lim_max_ge: "y \<in> set (x # xs) \<Longrightarrow> y \<le> lim_max x xs"
  using last_sort_ge [of y xs] by (cases "xs = []") (auto simp: lim_max_def Let_def)

lemma lim_max_in: "lim_max x xs \<in> set (x # xs)"
  using last_sort_in [of xs] by (simp add: lim_max_def Let_def)

section \<open>Limits of a network endpoint\<close>

record BinaryNetworkEndpointLimits =
  ne_MaxMessageLength :: int
  ne_MessagesRatePerOracle :: f64
  ne_MessagesCapacityPerOracle :: int
  ne_BytesRatePerOracle :: f64
  ne_BytesCapacityPerOracle :: int

text \<open>\<open>float64(time.Second) / float64(d) * float64(len)\<close>: the rate of messages of a length that are sent once
  in a time.\<close>

definition f64_Duration :: "Duration \<Rightarrow> rat" where "f64_Duration d = fl (of_int (sint d))"

definition every :: "rat \<Rightarrow> int \<Rightarrow> f64" where "every d len = f64_scale (f64_div 1000000000 d) (fl (of_int len))"

end
