(* ===== verification/Ocr2Limits.thy ===== *)
theory Ocr2Limits
  imports Ocr2Serialization Ocr2Plugin NetLimits
begin

text \<open>
  The bandwidth limits an OCR2 oracle asks of the network (\<open>managed/limits/ocr2_limits.go\<close>) and the endpoint
  that checks the size of messages (\<open>shim/ocr2_serializing_endpoint.go\<close>). The limits do not count the query of a
  report request.
\<close>

section \<open>Limits\<close>

record ocr2_lens =
  maxLenNewEpoch :: int
  maxLenObserveReq :: int
  maxLenObserve :: int
  maxLenReportReq :: int
  maxLenReport :: int
  maxLenFinal :: int
  maxLenFinalEcho :: int

definition ocr2_lens_of ::
  "'a Ocr2PublicConfig_scheme \<Rightarrow> Ocr2ReportingPluginLimits \<Rightarrow> int \<Rightarrow> limits_error + ocr2_lens" where
  "ocr2_lens_of cfg limits maxSigLen =
     (let overhead = 256; sigSize = int ed25519_SignatureSize in
      bindG (lim_add [rpl_MaxQueryLength limits, overhead]) (\<lambda>observeReq.
      bindG (lim_add [rpl_MaxObservationLength limits, overhead]) (\<lambda>observe.
      bindG (lim_add [rpl_MaxObservationLength limits, sigSize]) (\<lambda>signedObservation.
      bindG (lim_mul [signedObservation, c2_N cfg]) (\<lambda>observations.
      bindG (lim_add [observations, overhead]) (\<lambda>reportReq.
      bindG (lim_add [rpl_MaxReportLength limits, sigSize, overhead]) (\<lambda>rep.
      bindG (lim_mul [maxSigLen, c2_N cfg]) (\<lambda>sigs.
      bindG (lim_add [rpl_MaxReportLength limits, sigs, overhead]) (\<lambda>final.
        Inr \<lparr>maxLenNewEpoch = overhead, maxLenObserveReq = observeReq, maxLenObserve = observe, maxLenReportReq = reportReq,
             maxLenReport = rep, maxLenFinal = final, maxLenFinalEcho = final\<rparr>)))))))))"

definition ocr2_messagesRate :: "'a Ocr2PublicConfig_scheme \<Rightarrow> f64" where
  "ocr2_messagesRate cfg =
     (let deltaRound = f64_Duration (c2_DeltaRound cfg)
      in f64_scale
           (f64_sum (f64_div 1000000000 (f64_Duration (c2_DeltaResend cfg)))
              [f64_div 1000000000 (f64_Duration (c2_DeltaProgress cfg)), f64_div 1000000000 deltaRound,
               f64_div 3000000000 deltaRound, f64_div 2000000000 deltaRound]) 2)"

definition ocr2_bytesRate :: "'a Ocr2PublicConfig_scheme \<Rightarrow> ocr2_lens \<Rightarrow> f64" where
  "ocr2_bytesRate cfg lens =
     (let deltaRound = f64_Duration (c2_DeltaRound cfg)
      in f64_sum (every (f64_Duration (c2_DeltaResend cfg)) (maxLenNewEpoch lens))
           [every (f64_Duration (c2_DeltaProgress cfg)) (maxLenNewEpoch lens), every deltaRound (maxLenObserveReq lens),
            every deltaRound (maxLenObserve lens), every deltaRound (maxLenReportReq lens),
            every deltaRound (maxLenReport lens), every deltaRound (maxLenFinal lens),
            every deltaRound (maxLenFinalEcho lens)])"

definition OCR2Limits ::
  "'a Ocr2PublicConfig_scheme \<Rightarrow> Ocr2ReportingPluginLimits \<Rightarrow> int \<Rightarrow> limits_error + BinaryNetworkEndpointLimits" where
  "OCR2Limits cfg limits maxSigLen =
     bindG (ocr2_lens_of cfg limits maxSigLen) (\<lambda>lens.
     bindG (lim_add [2, 6]) (\<lambda>messages.
     bindG (lim_mul [messages, 2]) (\<lambda>messagesCapacity.
     bindG (lim_add [maxLenNewEpoch lens, maxLenObserveReq lens, maxLenObserve lens, maxLenReportReq lens,
       maxLenReport lens, maxLenFinal lens, maxLenFinalEcho lens]) (\<lambda>sum.
     bindG (lim_mul [sum, 2]) (\<lambda>bytesCapacity.
       Inr \<lparr>ne_MaxMessageLength =
              lim_max (maxLenObserveReq lens)
                [maxLenObserve lens, maxLenReportReq lens, maxLenReport lens, maxLenFinal lens, maxLenFinalEcho lens],
            ne_MessagesRatePerOracle = ocr2_messagesRate cfg,
            ne_MessagesCapacityPerOracle = messagesCapacity,
            ne_BytesRatePerOracle = ocr2_bytesRate cfg lens,
            ne_BytesCapacityPerOracle = bytesCapacity\<rparr>)))))"

section \<open>The endpoint\<close>

definition ocr2_ep_serialize ::
  "(Ocr2MessageWrapper \<Rightarrow> bytes option) \<Rightarrow> Ocr2ReportingPluginLimits \<Rightarrow> Ocr2Message \<Rightarrow> (bytes \<times> Ocr2MessageWrapper) option" where
  "ocr2_ep_serialize Marshal limits msg =
     (if \<not> ocr2_CheckSize limits msg then None
      else case ocr2_Serialize Marshal msg of Inl _ \<Rightarrow> None | Inr (sMsg, pbm) \<Rightarrow> Some (sMsg, pbm))"

definition ocr2_ep_deserialize ::
  "(bytes \<Rightarrow> Ocr2MessageWrapper option) \<Rightarrow> Ocr2ReportingPluginLimits \<Rightarrow> bytes \<Rightarrow>
     ser_error option + Ocr2Message \<times> Ocr2MessageWrapper" where
  "ocr2_ep_deserialize Unmarshal limits raw =
     (case ocr2_Deserialize Unmarshal raw of
        Inl err \<Rightarrow> Inl (Some err)
      | Inr (m, pbm) \<Rightarrow> if \<not> ocr2_CheckSize limits m then Inl None else Inr (m, pbm))"

section \<open>The size of messages on the wire\<close>

definition ws2_sig :: "pb2_AttributedSignature \<Rightarrow> nat" where
  "ws2_sig s = bytes_field (p2as_Signature s) + uint_field (p2as_Signer s)"

definition ws2_so :: "pb2_SignedObservation \<Rightarrow> nat" where
  "ws2_so so = bytes_field (p2so_Observation so) + bytes_field (p2so_Signature so)"

definition ws2_aso :: "pb2_AttributedSignedObservation \<Rightarrow> nat" where
  "ws2_aso aso = msg_field ws2_so (p2aso_SignedObservation aso) + uint_field (p2aso_Observer aso)"

definition ws2_one :: "pb2_AttestedReportOne \<Rightarrow> nat" where
  "ws2_one ar = bool_field (p2ar_Skip ar) + bytes_field (p2ar_Report ar) + bytes_field (p2ar_Signature ar)"

definition ws2_many :: "pb2_AttestedReportMany \<Rightarrow> nat" where
  "ws2_many arm = bytes_field (p2arm_Report arm) + rep_field ws2_sig (p2arm_AttributedSignatures arm)"

definition ws2_final :: "pb2_MessageFinal \<Rightarrow> nat" where
  "ws2_final m = uint_field (p2mf_Epoch m) + uint_field (p2mf_Round m) + bytes_field (p2mf_H m) +
     msg_field ws2_many (p2mf_AttestedReport m)"

fun ws2_Msg :: "pb2_oneof_Msg \<Rightarrow> nat" where
  "ws2_Msg (Wr2NewEpoch m) = oneof_field 1 (\<lambda>m. case m of Pb2NewEpoch e \<Rightarrow> uint_field e) m"
| "ws2_Msg (Wr2ObserveReq m) =
     oneof_field 1 (\<lambda>m. case m of Pb2ObserveReq e r q \<Rightarrow> uint_field e + uint_field r + bytes_field q) m"
| "ws2_Msg (Wr2Observe m) =
     oneof_field 1 (\<lambda>m. case m of Pb2Observe e r so \<Rightarrow> uint_field e + uint_field r + msg_field ws2_so so) m"
| "ws2_Msg (Wr2ReportReq m) =
     oneof_field 1 (\<lambda>m. case m of Pb2ReportReq e r q asos \<Rightarrow>
       uint_field e + uint_field r + bytes_field q + rep_field ws2_aso asos) m"
| "ws2_Msg (Wr2Report m) =
     oneof_field 1 (\<lambda>m. case m of Pb2Report e r ar \<Rightarrow> uint_field e + uint_field r + msg_field ws2_one ar) m"
| "ws2_Msg (Wr2Final m) = oneof_field 1 ws2_final m"
| "ws2_Msg (Wr2FinalEcho m) = oneof_field 1 (\<lambda>m. case m of Pb2FinalEcho f \<Rightarrow> msg_field ws2_final f) m"

definition wire_size2 :: "Ocr2MessageWrapper \<Rightarrow> nat" where
  "wire_size2 w = (case w of None \<Rightarrow> 0 | Some m \<Rightarrow> ws2_Msg m)"

lemma wire_size2_simps:
  "wire_size2 (ocr2_toProtoMessage (Ocr2ToPacemaker (MessageNewEpoch e))) = delimited 1 (uint_field (ucast e :: u64))"
  "wire_size2 (ocr2_toProtoMessage (Ocr2ToReportGeneration (MessageObserveReq e r q))) =
     delimited 1 (uint_field (ucast e :: u64) + uint_field (ucast r :: u32) + bytes_field q)"
  "wire_size2 (ocr2_toProtoMessage (Ocr2ToReportGeneration (MessageObserve e r so))) =
     delimited 1 (uint_field (ucast e :: u64) + uint_field (ucast r :: u32) +
       msg_field ws2_so (Some (ocr2_signedObservationToProtoMessage so)))"
  "wire_size2 (ocr2_toProtoMessage (Ocr2ToReportGeneration (MessageReportReq e r q asos))) =
     delimited 1 (uint_field (ucast e :: u64) + uint_field (ucast r :: u32) + bytes_field q +
       rep_field ws2_aso (map Some (map ocr2_attributedSignedObservationToProtoMessage asos)))"
  "wire_size2 (ocr2_toProtoMessage (Ocr2ToReportGeneration (MessageReport e r ar))) =
     delimited 1 (uint_field (ucast e :: u64) + uint_field (ucast r :: u32) +
       msg_field ws2_one (Some (attestedReportOneToProtoMessage ar)))"
  "wire_size2 (ocr2_toProtoMessage (Ocr2ToReportGeneration (MessageFinalM m))) =
     delimited 1 (ws2_final (finalToProtoMessage m))"
  "wire_size2 (ocr2_toProtoMessage (Ocr2ToReportFinalization (MessageFinalEcho m))) =
     delimited 1 (msg_field ws2_final (Some (finalToProtoMessage m)))"
  by (simp_all add: wire_size2_def oneof_field_def)

lemma ocr2_lens_of_Inr:
  assumes "ocr2_lens_of cfg limits maxSigLen = Inr lens"
  shows "lens =
      \<lparr>maxLenNewEpoch = 256, maxLenObserveReq = rpl_MaxQueryLength limits + 256,
       maxLenObserve = rpl_MaxObservationLength limits + 256,
       maxLenReportReq = (rpl_MaxObservationLength limits + 64) * c2_N cfg + 256,
       maxLenReport = rpl_MaxReportLength limits + 320,
       maxLenFinal = rpl_MaxReportLength limits + maxSigLen * c2_N cfg + 256,
       maxLenFinalEcho = rpl_MaxReportLength limits + maxSigLen * c2_N cfg + 256\<rparr>"
  using assms unfolding ocr2_lens_of_def Let_def
  by (elim bindG_InrE) (clarsimp simp: lim_add_Inr lim_mul_Inr ed25519_SignatureSize_def algebra_simps)

lemma OCR2Limits_Inr:
  assumes "OCR2Limits cfg limits maxSigLen = Inr ne"
  obtains lens where "ocr2_lens_of cfg limits maxSigLen = Inr lens"
    "ne_MaxMessageLength ne = lim_max (maxLenObserveReq lens)
       [maxLenObserve lens, maxLenReportReq lens, maxLenReport lens, maxLenFinal lens, maxLenFinalEcho lens]"
proof -
  from assms obtain lens where "ocr2_lens_of cfg limits maxSigLen = Inr lens"
      and "ne_MaxMessageLength ne = lim_max (maxLenObserveReq lens)
        [maxLenObserve lens, maxLenReportReq lens, maxLenReport lens, maxLenFinal lens, maxLenFinalEcho lens]"
    unfolding OCR2Limits_def by (elim bindG_InrE; auto)
  then show ?thesis using that by blast
qed

section \<open>Report requests\<close>

text \<open>Every byte of the query and of the signed observations is written.\<close>

lemma report_request_size:
  assumes "\<forall>aso \<in> set asos. length (o2so_Observation (o2aso_SignedObservation aso)) = L \<and>
      length (o2so_Signature (o2aso_SignedObservation aso)) = 64"
  shows "length query + length asos * (L + 64) <
    wire_size2 (ocr2_toProtoMessage (Ocr2ToReportGeneration (MessageReportReq e r query asos)))"
proof -
  have "L + 64 \<le> ws2_aso (ocr2_attributedSignedObservationToProtoMessage aso)" if "aso \<in> set asos" for aso
  proof -
    have "L \<le> bytes_field (o2so_Observation (o2aso_SignedObservation aso))"
      "64 \<le> bytes_field (o2so_Signature (o2aso_SignedObservation aso))"
      using assms that length_le_bytes_field by (metis, metis)
    then show ?thesis
      by (simp add: ws2_aso_def msg_field_def delimited_def ws2_so_def ocr2_attributedSignedObservationToProtoMessage_def
          ocr2_signedObservationToProtoMessage_def)
  qed
  then have "length asos * (L + 64) \<le> rep_field ws2_aso (map Some (map ocr2_attributedSignedObservationToProtoMessage asos))"
    using length_le_rep_field [of "map ocr2_attributedSignedObservationToProtoMessage asos" "L + 64" ws2_aso] by simp
  moreover have "length query \<le> bytes_field query" by (rule length_le_bytes_field)
  ultimately show ?thesis unfolding wire_size2_simps by (simp add: delimited_def)
qed

definition proto_sized2 :: "(Ocr2MessageWrapper \<Rightarrow> bytes option) \<Rightarrow> bool" where
  "proto_sized2 Marshal \<longleftrightarrow> (\<forall>w b. Marshal w = Some b \<longrightarrow> length b = wire_size2 w)"

text \<open>C25: The limits of OCR2 leave out the query of report requests. Whenever a plugin makes queries longer than
  the overhead of 256 bytes and report requests are the longest messages by the code's own count, a leader who
  has received full observations from all oracles builds a request that passes the size check of its endpoint
  and is longer than the limit it asked of the network, so that the network drops it.\<close>

theorem ocr2_report_requests_exceed_the_limit:
  assumes "OCR2Limits cfg limits maxSigLen = Inr ne" "validateReportingPluginLimits limits" "c2_ok cfg"
    and "ne_MaxMessageLength ne = (rpl_MaxObservationLength limits + 64) * c2_N cfg + 256"
    and "256 \<le> length query" "int (length query) \<le> rpl_MaxQueryLength limits"
    and "int (length asos) = c2_N cfg"
    and "\<forall>aso \<in> set asos. int (length (o2so_Observation (o2aso_SignedObservation aso))) = rpl_MaxObservationLength limits \<and>
      length (o2so_Signature (o2aso_SignedObservation aso)) = 64"
    and "proto_sized2 Marshal" "Marshal (ocr2_toProtoMessage (Ocr2ToReportGeneration (MessageReportReq e r query asos))) = Some b"
  shows "\<exists>pbm. ocr2_ep_serialize Marshal limits (Ocr2ToReportGeneration (MessageReportReq e r query asos)) = Some (b, pbm) \<and>
    int (length b) > ne_MaxMessageLength ne"
proof -
  obtain L where L: "rpl_MaxObservationLength limits = int L"
    using assms(2) by (metis validateReportingPluginLimits_def nonneg_int_cases)
  have "length query + length asos * (L + 64) < length b"
    using report_request_size [of asos L query e r] assms(8-10) by (auto simp: L proto_sized2_def)
  then have "int (length query + length asos * (L + 64)) < int (length b)" by (simp only: of_nat_less_iff)
  then have "ne_MaxMessageLength ne < int (length b)"
    using assms(4,5,7) unfolding L by (simp add: mult.commute)
  moreover have "ocr2_CheckSize limits (Ocr2ToReportGeneration (MessageReportReq e r query asos))"
    using assms(3,6-8) by (auto simp: c2_ok_def list_all_iff)
  ultimately show ?thesis
    using assms(10) by (simp add: ocr2_ep_serialize_def ocr2_Serialize_def Let_def)
qed

text \<open>Four observations of 1000 bytes and a query of 1000 bytes.\<close>

definition lim2_ex_limits :: Ocr2ReportingPluginLimits where
  "lim2_ex_limits = \<lparr>rpl_MaxQueryLength = 1000, rpl_MaxObservationLength = 1000, rpl_MaxReportLength = 100\<rparr>"

definition lim2_ex_msg :: Ocr2Message where
  "lim2_ex_msg = Ocr2ToReportGeneration (MessageReportReq 1 1 (replicate 1000 7)
     (map (\<lambda>i. \<lparr>o2aso_SignedObservation = \<lparr>o2so_Observation = replicate 1000 i, o2so_Signature = replicate 64 i\<rparr>,
       o2aso_Observer = i\<rparr>) [0, 1, 2, 3]))"

definition lim2_ex_marshal :: "Ocr2MessageWrapper \<Rightarrow> bytes option" where
  "lim2_ex_marshal w = Some (replicate (wire_size2 w) 0)"

theorem ocr2_report_requests_exceed_the_limit_witness:
  "\<exists>ne b pbm. OCR2Limits ocr2_example_config lim2_ex_limits 65 = Inr ne \<and>
     ocr2_ep_serialize lim2_ex_marshal lim2_ex_limits lim2_ex_msg = Some (b, pbm) \<and> int (length b) > ne_MaxMessageLength ne"
proof -
  have N: "c2_N ocr2_example_config = 4" by (simp add: c2_N_def ocr2_example_config_def)
  have "\<exists>ne. OCR2Limits ocr2_example_config lim2_ex_limits 65 = Inr ne \<and> ne_MaxMessageLength ne = 4512"
    by (simp add: OCR2Limits_def ocr2_lens_of_def lim_add_def lim_mul_def int32_checked_def lim2_ex_limits_def
        ed25519_SignatureSize_def N lim_max_def)
  then obtain ne where ne: "OCR2Limits ocr2_example_config lim2_ex_limits 65 = Inr ne" "ne_MaxMessageLength ne = 4512" by blast
  have "\<exists>pbm. ocr2_ep_serialize lim2_ex_marshal lim2_ex_limits lim2_ex_msg =
      Some (replicate (wire_size2 (ocr2_toProtoMessage lim2_ex_msg)) 0, pbm) \<and>
    int (length (replicate (wire_size2 (ocr2_toProtoMessage lim2_ex_msg)) (0::u8))) > ne_MaxMessageLength ne"
    unfolding lim2_ex_msg_def
  proof (rule ocr2_report_requests_exceed_the_limit [OF ne(1) _ ocr2_example_config_ok])
    show "validateReportingPluginLimits lim2_ex_limits"
      by (simp add: validateReportingPluginLimits_def lim2_ex_limits_def MaxMaxQueryLength_def MaxMaxObservationLength_def
          MaxMaxReportLength_def)
    show "proto_sized2 lim2_ex_marshal" by (simp add: proto_sized2_def lim2_ex_marshal_def)
  qed (simp_all add: ne(2) N lim2_ex_limits_def lim2_ex_marshal_def)
  then show ?thesis using ne(1) by blast
qed

section \<open>All other messages fit\<close>

lemma NewEpoch_fits: "wire_size2 (ocr2_toProtoMessage (Ocr2ToPacemaker (MessageNewEpoch e))) \<le> 256"
  using delimited_le [of "uint_field (ucast e :: u64)" 6 1 1] uint_field_ucast(2) [of e] unfolding wire_size2_simps by simp

lemma ObserveReq_fits:
  assumes "length q \<le> L" "L \<le> 268435456"
  shows "wire_size2 (ocr2_toProtoMessage (Ocr2ToReportGeneration (MessageObserveReq e r q))) \<le> L + 256"
proof -
  have b: "uint_field (ucast e :: u64) + uint_field (ucast r :: u32) + bytes_field q \<le> 15 + L"
    using bytes_field_le [OF assms(1), of 5] uint_field_ucast(1) [of r] uint_field_ucast(2) [of e] assms(2) by simp
  show ?thesis unfolding wire_size2_simps
    by (rule order.trans [OF delimited_le [where k = 5, OF b]]) (use assms(2) in simp_all)
qed

lemma Observe_fits:
  assumes "length (o2so_Observation so) \<le> L" "L \<le> 268435456" "length (o2so_Signature so) = 64"
  shows "wire_size2 (ocr2_toProtoMessage (Ocr2ToReportGeneration (MessageObserve e r so))) \<le> L + 256"
proof -
  have "ws2_so (ocr2_signedObservationToProtoMessage so) \<le> L + 72"
    using bytes_field_le [OF assms(1), of 5] bytes_field_le [of "o2so_Signature so" 64 1] assms(2,3)
    by (simp add: ws2_so_def ocr2_signedObservationToProtoMessage_def)
  then have b: "uint_field (ucast e :: u64) + uint_field (ucast r :: u32) +
      msg_field ws2_so (Some (ocr2_signedObservationToProtoMessage so)) \<le> 87 + L"
    using msg_field_le [of ws2_so "ocr2_signedObservationToProtoMessage so" "L + 72" 5] uint_field_ucast(1) [of r] uint_field_ucast(2) [of e] assms(2)
    by simp
  show ?thesis unfolding wire_size2_simps
    by (rule order.trans [OF delimited_le [where k = 5, OF b]]) (use assms(2) in simp_all)
qed

lemma Report_fits:
  assumes "length (ar1_Report ar) \<le> L" "L \<le> 268435456" "length (ar1_Signature ar) \<le> 256"
  shows "wire_size2 (ocr2_toProtoMessage (Ocr2ToReportGeneration (MessageReport e r ar))) \<le> L + 320"
proof -
  have "ws2_one (attestedReportOneToProtoMessage ar) \<le> L + 267"
    using bytes_field_le [OF assms(1), of 5] bytes_field_le [OF assms(3), of 2] bool_field_le assms(2)
    by (simp add: ws2_one_def attestedReportOneToProtoMessage_def bool_field_def)
  then have b: "uint_field (ucast e :: u64) + uint_field (ucast r :: u32) +
      msg_field ws2_one (Some (attestedReportOneToProtoMessage ar)) \<le> 282 + L"
    using msg_field_le [of ws2_one "attestedReportOneToProtoMessage ar" "L + 267" 5] uint_field_ucast(1) [of r] uint_field_ucast(2) [of e] assms(2)
    by simp
  show ?thesis unfolding wire_size2_simps
    by (rule order.trans [OF delimited_le [where k = 5, OF b]]) (use assms(2) in simp_all)
qed

text \<open>The sum for final messages leaves three bytes to spare: with 31 signatures, 253 of the 256 bytes of
  overhead may be used.\<close>

lemma ws2_final_le:
  assumes "length (arm_Report (mf_AttestedReport m)) \<le> L" "L \<le> 268435456" "length (arm_AttributedSignatures (mf_AttestedReport m)) \<le> N" "N \<le> 31"
    and "\<forall>sig \<in> set (arm_AttributedSignatures (mf_AttestedReport m)). length (aos_Signature sig) \<le> s \<and> unat (aos_Signer sig) < 128"
    and "s \<le> 123" "length (mf_H m) = 32"
  shows "ws2_final (finalToProtoMessage m) \<le> L + N * s + 241"
proof -
  let ?sig = "\<lambda>as. \<lparr>p2as_Signature = aos_Signature as, p2as_Signer = ucast (aos_Signer as)\<rparr>"
  have "ws2_sig (?sig as) \<le> s + 4" if "as \<in> set (arm_AttributedSignatures (mf_AttestedReport m))" for as
    using bytes_field_le [of "aos_Signature as" s 1] uint_field_le [of 1 "ucast (aos_Signer as) :: u32"] assms(5,6) that
    by (auto simp: ws2_sig_def unsigned_ucast_eq take_bit_eq_mod)
  then have "rep_field ws2_sig (map Some (map ?sig (arm_AttributedSignatures (mf_AttestedReport m)))) \<le> length (arm_AttributedSignatures (mf_AttestedReport m)) * (s + 6)"
    using rep_field_le [of "map ?sig (arm_AttributedSignatures (mf_AttestedReport m))" ws2_sig "s + 4" 1] assms(6) by (simp add: add.commute)
  also have "\<dots> \<le> N * (s + 6)" using assms(3) by simp
  finally have "rep_field ws2_sig (map (\<lambda>as. Some (?sig as)) (arm_AttributedSignatures (mf_AttestedReport m))) \<le> N * s + 6 * N"
    by (simp add: comp_def algebra_simps)
  then have "ws2_many (attestedReportManyToProtoMessage (mf_AttestedReport m)) \<le> L + N * s + 192"
    using bytes_field_le [OF assms(1), of 5] assms(2,4) by (simp add: ws2_many_def attestedReportManyToProtoMessage_def)
  moreover have "N * s \<le> 31 * 123" using assms(4,6) by (intro mult_le_mono)
  ultimately have "msg_field ws2_many (Some (attestedReportManyToProtoMessage (mf_AttestedReport m))) \<le> 6 + (L + N * s + 192)"
    using msg_field_le [of ws2_many "attestedReportManyToProtoMessage (mf_AttestedReport m)" "L + N * s + 192" 5] assms(2) by simp
  then show ?thesis
    using bytes_field_le [of "mf_H m" 32 1] assms(7) uint_field_ucast(1) [of "mf_Round m"] uint_field_ucast(2) [of "mf_Epoch m"] by (simp add: ws2_final_def finalToProtoMessage_def)
qed

lemma final_messages_fit:
  assumes "length (arm_Report (mf_AttestedReport m)) \<le> L" "L \<le> 268435456"
    and "length (arm_AttributedSignatures (mf_AttestedReport m)) \<le> N" "N \<le> 31"
    and "\<forall>sig \<in> set (arm_AttributedSignatures (mf_AttestedReport m)). length (aos_Signature sig) \<le> s \<and> unat (aos_Signer sig) < 128"
    and "s \<le> 123" "length (mf_H m) = 32"
  shows "wire_size2 (ocr2_toProtoMessage (Ocr2ToReportGeneration (MessageFinalM m))) \<le> L + N * s + 256"
    and "wire_size2 (ocr2_toProtoMessage (Ocr2ToReportFinalization (MessageFinalEcho m))) \<le> L + N * s + 256"
proof -
  have f: "ws2_final (finalToProtoMessage m) \<le> L + N * s + 241" using assms by (intro ws2_final_le)
  have small: "N * s \<le> 31 * 123" using assms(4,6) by (intro mult_le_mono)
  show "wire_size2 (ocr2_toProtoMessage (Ocr2ToReportGeneration (MessageFinalM m))) \<le> L + N * s + 256"
    unfolding wire_size2_simps
    by (rule order.trans [OF delimited_le [where k = 5, OF f]]) (use assms(2) small in simp_all)
  have b: "msg_field ws2_final (Some (finalToProtoMessage m)) \<le> L + N * s + 247"
    using msg_field_le [of ws2_final _ "L + N * s + 241" 5, OF f] assms(2) small by simp
  show "wire_size2 (ocr2_toProtoMessage (Ocr2ToReportFinalization (MessageFinalEcho m))) \<le> L + N * s + 256"
    unfolding wire_size2_simps
    by (rule order.trans [OF delimited_le [where k = 5, OF b]]) (use assms(2) small in simp_all)
qed

text \<open>What correct oracles put into messages, beyond what the size check asks: Ed25519 signatures of 64 bytes
  on observations, on-chain signatures of at most the length the key ring announces, at most one by each
  oracle, hashes of 32 bytes. Report requests are left out.\<close>

definition final_regular :: "int \<Rightarrow> int \<Rightarrow> MessageFinal \<Rightarrow> bool" where
  "final_regular n maxSigLen m \<longleftrightarrow>
     int (length (arm_AttributedSignatures (mf_AttestedReport m))) \<le> n \<and>
     (\<forall>sig \<in> set (arm_AttributedSignatures (mf_AttestedReport m)).
        int (length (aos_Signature sig)) \<le> maxSigLen \<and> unat (aos_Signer sig) < nat n) \<and>
     length (mf_H m) = 32"

fun ocr2_regular :: "int \<Rightarrow> int \<Rightarrow> Ocr2Message \<Rightarrow> bool" where
  "ocr2_regular n maxSigLen (Ocr2ToPacemaker (MessageNewEpoch e)) = True"
| "ocr2_regular n maxSigLen (Ocr2ToReportGeneration (MessageObserveReq e r q)) = True"
| "ocr2_regular n maxSigLen (Ocr2ToReportGeneration (MessageObserve e r so)) = (length (o2so_Signature so) = 64)"
| "ocr2_regular n maxSigLen (Ocr2ToReportGeneration (MessageReportReq e r q asos)) = False"
| "ocr2_regular n maxSigLen (Ocr2ToReportGeneration (MessageReport e r ar)) = (int (length (ar1_Signature ar)) \<le> maxSigLen)"
| "ocr2_regular n maxSigLen (Ocr2ToReportGeneration (MessageFinalM m)) = final_regular n maxSigLen m"
| "ocr2_regular n maxSigLen (Ocr2ToReportFinalization (MessageFinalEcho m)) = final_regular n maxSigLen m"

lemma final_regular_fits:
  assumes "final_regular (c2_N cfg) (int s) m" "c2_N cfg = int N" "N \<le> 31" "s \<le> 123" "rpl_MaxReportLength limits = int L"
    "L \<le> 268435456" "MessageFinal_CheckSize limits m"
  shows "int (wire_size2 (ocr2_toProtoMessage (Ocr2ToReportGeneration (MessageFinalM m)))) \<le> int L + int s * int N + 256"
    and "int (wire_size2 (ocr2_toProtoMessage (Ocr2ToReportFinalization (MessageFinalEcho m)))) \<le> int L + int s * int N + 256"
proof -
  have "length (arm_Report (mf_AttestedReport m)) \<le> L \<and> length (arm_AttributedSignatures (mf_AttestedReport m)) \<le> N \<and>
      (\<forall>sig \<in> set (arm_AttributedSignatures (mf_AttestedReport m)). length (aos_Signature sig) \<le> s \<and> unat (aos_Signer sig) < 128) \<and>
      length (mf_H m) = 32"
    using assms by (auto simp: final_regular_def MessageFinal_CheckSize_def)
  then have "wire_size2 (ocr2_toProtoMessage (Ocr2ToReportGeneration (MessageFinalM m))) \<le> L + N * s + 256"
    "wire_size2 (ocr2_toProtoMessage (Ocr2ToReportFinalization (MessageFinalEcho m))) \<le> L + N * s + 256"
    using final_messages_fit [of m L N s] assms(3,4,6) by simp_all
  then show "int (wire_size2 (ocr2_toProtoMessage (Ocr2ToReportGeneration (MessageFinalM m)))) \<le> int L + int s * int N + 256"
    "int (wire_size2 (ocr2_toProtoMessage (Ocr2ToReportFinalization (MessageFinalEcho m)))) \<le> int L + int s * int N + 256"
    by (simp_all add: mult.commute flip: of_nat_le_iff [where 'a = int])
qed

text \<open>C26: The limits of OCR2 are enough for every other message of a correct oracle. For an accepted
  configuration, valid plugin limits and signatures of at most 123 bytes, each of these messages fits the limit
  on messages that the oracle asks of the network, if it passes the size check of the endpoint.\<close>

theorem ocr2_other_messages_fit:
  assumes "OCR2Limits cfg limits maxSigLen = Inr ne" "validateReportingPluginLimits limits" "c2_ok cfg"
    and "0 \<le> maxSigLen" "maxSigLen \<le> 123" "ocr2_regular (c2_N cfg) maxSigLen msg" "proto_sized2 Marshal"
    and "ocr2_ep_serialize Marshal limits msg = Some (b, pbm)"
  shows "int (length b) \<le> ne_MaxMessageLength ne"
proof -
  obtain lens where lens: "ocr2_lens_of cfg limits maxSigLen = Inr lens" and
    ne: "ne_MaxMessageLength ne = lim_max (maxLenObserveReq lens)
       [maxLenObserve lens, maxLenReportReq lens, maxLenReport lens, maxLenFinal lens, maxLenFinalEcho lens]"
    using OCR2Limits_Inr [OF assms(1)] .
  obtain Lq Lo Lr where L: "rpl_MaxQueryLength limits = int Lq" "Lq \<le> 268435456" "rpl_MaxObservationLength limits = int Lo"
      "Lo \<le> 268435456" "rpl_MaxReportLength limits = int Lr" "Lr \<le> 268435456"
    using assms(2) that [of "nat (rpl_MaxQueryLength limits)" "nat (rpl_MaxObservationLength limits)" "nat (rpl_MaxReportLength limits)"]
    by (auto simp: validateReportingPluginLimits_def MaxMaxQueryLength_def MaxMaxObservationLength_def MaxMaxReportLength_def)
  obtain N where N: "c2_N cfg = int N" "N \<le> 31" using assms(3) by (auto simp: c2_N_def c2_ok_def MaxOracles_def)
  obtain s where s: "maxSigLen = int s" "s \<le> 123" using assms(4,5) by (metis nonneg_int_cases of_nat_le_iff of_nat_numeral)
  have ge: "x \<le> ne_MaxMessageLength ne"
    if "x \<in> {int Lq + 256, int Lo + 256, int Lr + 320, int Lr + int s * int N + 256}" for x
    using that unfolding ne by (intro lim_max_ge) (auto simp: ocr2_lens_of_Inr [OF lens] L N s)
  have ser: "ocr2_CheckSize limits msg" "length b = wire_size2 (ocr2_toProtoMessage msg)"
    using assms(7,8) by (auto simp: ocr2_ep_serialize_def ocr2_Serialize_def proto_sized2_def Let_def split: if_splits option.splits)
  show ?thesis
  proof (cases "(c2_N cfg, maxSigLen, msg)" rule: ocr2_regular.cases)
    case (1 n maxSigLen e)
    then show ?thesis using ge [of "int Lq + 256"] NewEpoch_fits [of e] ser by simp
  next
    case (2 n maxSigLen e r q)
    then show ?thesis using ge [of "int Lq + 256"] ObserveReq_fits [of q Lq e r] ser L(1,2) by simp
  next
    case (3 n maxSigLen e r so)
    then show ?thesis using ge [of "int Lo + 256"] Observe_fits [of so Lo e r] ser L(3,4) assms(6) by simp
  next
    case (5 n maxSigLen e r ar)
    then show ?thesis using ge [of "int Lr + 320"] Report_fits [of ar Lr e r] ser L(5,6) assms(6) s by simp
  next
    case (6 n maxSigLen m)
    then show ?thesis
      using ge [of "int Lr + int s * int N + 256"] final_regular_fits(1) [of cfg s m N limits Lr] ser L(5,6) assms(6) s N by simp
  next
    case (7 n maxSigLen m)
    then show ?thesis
      using ge [of "int Lr + int s * int N + 256"] final_regular_fits(2) [of cfg s m N limits Lr] ser L(5,6) assms(6) s N by simp
  qed (use assms(6) in simp)
qed

definition lim2_ex_final :: Ocr2Message where
  "lim2_ex_final = Ocr2ToReportFinalization (MessageFinalEcho
     \<lparr>mf_Epoch = 3, mf_Round = 2, mf_H = replicate 32 1,
      mf_AttestedReport = \<lparr>arm_Report = replicate 100 5,
        arm_AttributedSignatures = map (\<lambda>i. \<lparr>aos_Signature = replicate 65 i, aos_Signer = i\<rparr>) [0, 2]\<rparr>\<rparr>)"

theorem ocr2_other_messages_fit_witness:
  "\<exists>ne b pbm. OCR2Limits ocr2_example_config lim2_ex_limits 65 = Inr ne \<and>
     ocr2_ep_serialize lim2_ex_marshal lim2_ex_limits lim2_ex_final = Some (b, pbm) \<and> int (length b) \<le> ne_MaxMessageLength ne"
proof -
  have N: "c2_N ocr2_example_config = 4" by (simp add: c2_N_def ocr2_example_config_def)
  have "\<exists>ne. OCR2Limits ocr2_example_config lim2_ex_limits 65 = Inr ne"
    by (simp add: OCR2Limits_def ocr2_lens_of_def lim_add_def lim_mul_def int32_checked_def lim2_ex_limits_def
        ed25519_SignatureSize_def N)
  then obtain ne where ne: "OCR2Limits ocr2_example_config lim2_ex_limits 65 = Inr ne" by blast
  have "\<exists>b pbm. ocr2_ep_serialize lim2_ex_marshal lim2_ex_limits lim2_ex_final = Some (b, pbm)"
    by (simp add: ocr2_ep_serialize_def ocr2_Serialize_def lim2_ex_marshal_def Let_def)
      (simp add: lim2_ex_final_def lim2_ex_limits_def MessageFinal_CheckSize_def MaxOracles_def)
  then obtain b pbm where b: "ocr2_ep_serialize lim2_ex_marshal lim2_ex_limits lim2_ex_final = Some (b, pbm)" by blast
  have "int (length b) \<le> ne_MaxMessageLength ne"
  proof (rule ocr2_other_messages_fit [OF ne _ ocr2_example_config_ok _ _ _ _ b])
    show "validateReportingPluginLimits lim2_ex_limits"
      by (simp add: validateReportingPluginLimits_def lim2_ex_limits_def MaxMaxQueryLength_def MaxMaxObservationLength_def
          MaxMaxReportLength_def)
    show "proto_sized2 lim2_ex_marshal" by (simp add: proto_sized2_def lim2_ex_marshal_def)
    show "ocr2_regular (c2_N ocr2_example_config) 65 lim2_ex_final" by (simp add: lim2_ex_final_def final_regular_def N)
  qed simp_all
  then show ?thesis using ne b by blast
qed

end
