(* ===== verification/Ocr3Limits.thy ===== *)
theory Ocr3Limits
  imports Serialization NetLimits
begin

text \<open>
  The bandwidth limits an OCR3 oracle asks of the network (\<open>managed/limits/ocr3_limits.go\<close>), the limits a
  plugin may ask for (\<open>managed/managed_ocr3_oracle.go\<close>), and the endpoint that checks the size of messages
  before it serialises them and after it deserialises them (\<open>shim/ocr3_serializing_endpoint.go\<close>).
\<close>

section \<open>Limits of plugins\<close>

definition ocr3_MaxMaxQueryLength :: int where "ocr3_MaxMaxQueryLength = 5 * 1024 * 1024"
definition ocr3_MaxMaxObservationLength :: int where "ocr3_MaxMaxObservationLength = 1024 * 1024"
definition ocr3_MaxMaxOutcomeLength :: int where "ocr3_MaxMaxOutcomeLength = 5 * 1024 * 1024"
definition ocr3_MaxMaxReportLength :: int where "ocr3_MaxMaxReportLength = 5 * 1024 * 1024"
definition ocr3_MaxMaxReportCount :: int where "ocr3_MaxMaxReportCount = 2000"

lemmas ocr3_MaxMax_defs = ocr3_MaxMaxQueryLength_def ocr3_MaxMaxObservationLength_def ocr3_MaxMaxOutcomeLength_def
  ocr3_MaxMaxReportLength_def ocr3_MaxMaxReportCount_def

definition validateOCR3ReportingPluginLimits :: "ReportingPluginLimits \<Rightarrow> bool" where
  "validateOCR3ReportingPluginLimits limits \<longleftrightarrow>
     (0 \<le> lim_MaxQueryLength limits \<and> lim_MaxQueryLength limits \<le> ocr3_MaxMaxQueryLength) \<and>
     (0 \<le> lim_MaxObservationLength limits \<and> lim_MaxObservationLength limits \<le> ocr3_MaxMaxObservationLength) \<and>
     (0 \<le> lim_MaxOutcomeLength limits \<and> lim_MaxOutcomeLength limits \<le> ocr3_MaxMaxOutcomeLength) \<and>
     (0 \<le> lim_MaxReportLength limits \<and> lim_MaxReportLength limits \<le> ocr3_MaxMaxReportLength) \<and>
     (0 \<le> lim_MaxReportCount limits \<and> lim_MaxReportCount limits \<le> ocr3_MaxMaxReportCount)"

section \<open>Limits of the network\<close>

record serializedLengthLimits =
  maxLenMsgNewEpoch :: int
  maxLenMsgEpochStartRequest :: int
  maxLenMsgEpochStart :: int
  maxLenMsgRoundStart :: int
  maxLenMsgObservation :: int
  maxLenMsgProposal :: int
  maxLenMsgPrepare :: int
  maxLenMsgCommit :: int
  maxLenMsgReportSignatures :: int
  maxLenMsgCertifiedCommitRequest :: int
  maxLenMsgCertifiedCommit :: int

text \<open>The lengths of the messages.\<close>

definition ocr3_lens ::
  "'a PublicConfig_scheme \<Rightarrow> ReportingPluginLimits \<Rightarrow> int \<Rightarrow> limits_error + serializedLengthLimits" where
  "ocr3_lens cfg pluginLimits maxSigLen =
     (let sigOverhead = 10; overhead = 256; sigSize = int ed25519_SignatureSize in
      bindG (lim_mul [sigSize + sigOverhead, ByzQuorumSize cfg]) (\<lambda>quorumSigs.
      bindG (lim_add [quorumSigs, lim_MaxOutcomeLength pluginLimits, overhead]) (\<lambda>maxLenCertifiedPrepareOrCommit.
      bindG (lim_add [maxLenCertifiedPrepareOrCommit, overhead]) (\<lambda>epochStartRequest.
      bindG (lim_add [maxLenCertifiedPrepareOrCommit, quorumSigs, overhead]) (\<lambda>epochStart.
      bindG (lim_add [lim_MaxQueryLength pluginLimits, overhead]) (\<lambda>roundStart.
      bindG (lim_add [lim_MaxObservationLength pluginLimits, overhead]) (\<lambda>observation.
      bindG (lim_add [lim_MaxObservationLength pluginLimits, sigSize + sigOverhead]) (\<lambda>signedObservation.
      bindG (lim_mul [signedObservation, cfg_N cfg]) (\<lambda>observations.
      bindG (lim_add [observations, overhead]) (\<lambda>proposal.
      bindG (lim_add [maxSigLen, sigOverhead]) (\<lambda>reportSignature.
      bindG (lim_mul [reportSignature, lim_MaxReportCount pluginLimits]) (\<lambda>reportSigs.
      bindG (lim_add [reportSigs, overhead]) (\<lambda>reportSignatures.
      bindG (lim_add [maxLenCertifiedPrepareOrCommit, overhead]) (\<lambda>certifiedCommit.
        Inr \<lparr>maxLenMsgNewEpoch = overhead, maxLenMsgEpochStartRequest = epochStartRequest,
              maxLenMsgEpochStart = epochStart, maxLenMsgRoundStart = roundStart, maxLenMsgObservation = observation,
              maxLenMsgProposal = proposal, maxLenMsgPrepare = overhead, maxLenMsgCommit = overhead,
              maxLenMsgReportSignatures = reportSignatures, maxLenMsgCertifiedCommitRequest = overhead,
              maxLenMsgCertifiedCommit = certifiedCommit\<rparr>))))))))))))))"

definition minEpochInterval :: "'a PublicConfig_scheme \<Rightarrow> rat" where
  "minEpochInterval cfg =
     min (f64_Duration (cfg_DeltaProgress cfg))
       (min (f64_Duration (cfg_DeltaInitial cfg)) (fl (fl (of_int (uint (cfg_RMax cfg))) * f64_Duration (cfg_DeltaRound cfg))))"

definition ocr3_messagesRate :: "'a PublicConfig_scheme \<Rightarrow> f64" where
  "ocr3_messagesRate cfg =
     f64_scale
       (f64_sum (f64_div 1000000000 (f64_Duration (cfg_DeltaResend cfg)))
          [f64_div 3000000000 (minEpochInterval cfg), f64_div 8000000000 (f64_Duration (cfg_DeltaRound cfg))]) (fl (6 / 5))"

definition ocr3_bytesRate :: "'a PublicConfig_scheme \<Rightarrow> serializedLengthLimits \<Rightarrow> f64" where
  "ocr3_bytesRate cfg lens =
     (let deltaRound = f64_Duration (cfg_DeltaRound cfg)
      in f64_sum (every (f64_Duration (cfg_DeltaResend cfg)) (maxLenMsgNewEpoch lens))
           [every (minEpochInterval cfg) (maxLenMsgNewEpoch lens), every deltaRound (maxLenMsgPrepare lens),
            every deltaRound (maxLenMsgCommit lens), every deltaRound (maxLenMsgReportSignatures lens),
            every (minEpochInterval cfg) (maxLenMsgEpochStart lens), every deltaRound (maxLenMsgRoundStart lens),
            every deltaRound (maxLenMsgProposal lens), every (minEpochInterval cfg) (maxLenMsgEpochStartRequest lens),
            every deltaRound (maxLenMsgObservation lens), every deltaRound (maxLenMsgCertifiedCommitRequest lens),
            every deltaRound (maxLenMsgCertifiedCommit lens)])"

definition ocr3limits ::
  "'a PublicConfig_scheme \<Rightarrow> ReportingPluginLimits \<Rightarrow> int \<Rightarrow>
     limits_error + BinaryNetworkEndpointLimits \<times> serializedLengthLimits" where
  "ocr3limits cfg pluginLimits maxSigLen =
     bindG (ocr3_lens cfg pluginLimits maxSigLen) (\<lambda>lens.
     bindG (lim_mul [12, 3]) (\<lambda>messagesCapacity.
     bindG (lim_add [maxLenMsgNewEpoch lens, maxLenMsgNewEpoch lens, maxLenMsgEpochStartRequest lens,
       maxLenMsgEpochStart lens, maxLenMsgRoundStart lens, maxLenMsgObservation lens, maxLenMsgProposal lens,
       maxLenMsgPrepare lens, maxLenMsgCommit lens, maxLenMsgReportSignatures lens,
       maxLenMsgCertifiedCommitRequest lens, maxLenMsgCertifiedCommit lens]) (\<lambda>sum.
     bindG (lim_mul [sum, 3]) (\<lambda>bytesCapacity.
       Inr (\<lparr>ne_MaxMessageLength =
               lim_max (maxLenMsgNewEpoch lens)
                 [maxLenMsgEpochStartRequest lens, maxLenMsgEpochStart lens, maxLenMsgRoundStart lens,
                  maxLenMsgObservation lens, maxLenMsgProposal lens, maxLenMsgPrepare lens, maxLenMsgCommit lens,
                  maxLenMsgReportSignatures lens, maxLenMsgCertifiedCommitRequest lens, maxLenMsgCertifiedCommit lens],
             ne_MessagesRatePerOracle = ocr3_messagesRate cfg,
             ne_MessagesCapacityPerOracle = messagesCapacity,
             ne_BytesRatePerOracle = ocr3_bytesRate cfg lens,
             ne_BytesCapacityPerOracle = bytesCapacity\<rparr>, lens)))))"

definition OCR3Limits ::
  "'a PublicConfig_scheme \<Rightarrow> ReportingPluginLimits \<Rightarrow> int \<Rightarrow> limits_error + BinaryNetworkEndpointLimits" where
  "OCR3Limits cfg pluginLimits maxSigLen =
     bindG (ocr3limits cfg pluginLimits maxSigLen) (\<lambda>(networkEndpointLimits, _). Inr networkEndpointLimits)"

end
