(* ===== verification/Ocr3Endpoint.thy ===== *)
theory Ocr3Endpoint
  imports Ocr3Limits
begin

text \<open>
  The endpoint between the OCR3 protocol and the network (\<open>shim/ocr3_serializing_endpoint.go\<close>). It checks
  the size of what it sends and receives, and the network drops what exceeds the limit computed by
  \<open>OCR3Limits\<close>: the two checks are shown to agree.
\<close>

section \<open>The endpoint\<close>

record ocr3_endpoint =
  ep_n :: int
  ep_f :: int
  ep_pluginLimits :: ReportingPluginLimits
  ep_maxSigLen :: int

definition ep_serialize ::
  "(MessageWrapper \<Rightarrow> bytes option) \<Rightarrow> ocr3_endpoint \<Rightarrow> Message \<Rightarrow> (bytes \<times> MessageWrapper) option" where
  "ep_serialize Marshal n msg =
     (if \<not> Message_CheckSize msg (ep_n n) (ep_f n) (ep_pluginLimits n) (ep_maxSigLen n) then None
      else case Serialize Marshal msg of Inl _ \<Rightarrow> None | Inr (sMsg, pbm) \<Rightarrow> Some (sMsg, pbm))"

text \<open>\<open>Inl None\<close> is a message that failed the size check.\<close>

definition ep_deserialize ::
  "(bytes \<Rightarrow> MessageWrapper option) \<Rightarrow> ocr3_endpoint \<Rightarrow> bytes \<Rightarrow> ser_error option + Message \<times> MessageWrapper" where
  "ep_deserialize Unmarshal n raw =
     (case Deserialize Unmarshal raw of
        Inl err \<Rightarrow> Inl (Some err)
      | Inr (m, pbm) \<Rightarrow>
          if \<not> Message_CheckSize m (ep_n n) (ep_f n) (ep_pluginLimits n) (ep_maxSigLen n) then Inl None
          else Inr (m, pbm))"

text \<open>What the network endpoint is asked to send, to one oracle or to all of them. Telemetry is left out.\<close>

datatype ep_send = EpSendTo bytes OracleID | EpBroadcast bytes

definition ep_SendTo :: "(MessageWrapper \<Rightarrow> bytes option) \<Rightarrow> ocr3_endpoint \<Rightarrow> Message \<Rightarrow> OracleID \<Rightarrow> ep_send list" where
  "ep_SendTo Marshal n msg to =
     (case ep_serialize Marshal n msg of None \<Rightarrow> [] | Some (sMsg, pbm) \<Rightarrow> [EpSendTo sMsg to])"

definition ep_Broadcast :: "(MessageWrapper \<Rightarrow> bytes option) \<Rightarrow> ocr3_endpoint \<Rightarrow> Message \<Rightarrow> ep_send list" where
  "ep_Broadcast Marshal n msg =
     (case ep_serialize Marshal n msg of None \<Rightarrow> [] | Some (sMsg, pbm) \<Rightarrow> [EpBroadcast sMsg])"

text \<open>What the goroutine of \<open>Start\<close> does with a message: None when it is dropped.\<close>

definition ep_receive ::
  "(bytes \<Rightarrow> MessageWrapper option) \<Rightarrow> ocr3_endpoint \<Rightarrow> bytes \<Rightarrow> OracleID \<Rightarrow> (Message \<times> OracleID) option" where
  "ep_receive Unmarshal n raw sender =
     (case ep_deserialize Unmarshal n raw of Inl _ \<Rightarrow> None | Inr (m, pbm) \<Rightarrow> Some (m, sender))"

section \<open>The size of messages on the wire\<close>

text \<open>The documented size of each message, by the numbers and types of the fields in
  \<open>offchainreporting3_messages.pb.go\<close>; the cases of the wrapper have two-byte tags.\<close>

definition ws_sig :: "pb_AttributedSignature \<Rightarrow> nat" where
  "ws_sig s = bytes_field (pas_Signature s) + uint_field (pas_Signer s)"

definition ws_prepare :: "pb_CertifiedPrepare \<Rightarrow> nat" where
  "ws_prepare c = uint_field (pcp_PrepareEpoch c) + uint_field (pcp_SeqNr c) + bytes_field (pcp_OutcomeInputsDigest c) +
     bytes_field (pcp_Outcome c) + rep_field ws_sig (pcp_PrepareQuorumCertificate c)"

definition ws_commit :: "pb_CertifiedCommit \<Rightarrow> nat" where
  "ws_commit c = uint_field (pcc_CommitEpoch c) + uint_field (pcc_SeqNr c) + bytes_field (pcc_Outcome c) +
     rep_field ws_sig (pcc_CommitQuorumCertificate c)"

fun ws_cert :: "pb_CertifiedPrepareOrCommit \<Rightarrow> nat" where
  "ws_cert (PbPrepareOrCommit None) = 0"
| "ws_cert (PbPrepareOrCommit (Some (PbPrepare p))) = oneof_field 1 ws_prepare p"
| "ws_cert (PbPrepareOrCommit (Some (PbCommit c))) = oneof_field 1 ws_commit c"

definition ws_hct :: "pb_HighestCertifiedTimestamp \<Rightarrow> nat" where
  "ws_hct t = uint_field (phct_SeqNr t) + bool_field (phct_CommittedElsePrepared t)"

definition ws_shct :: "pb_SignedHighestCertifiedTimestamp \<Rightarrow> nat" where
  "ws_shct s = msg_field ws_hct (pshct_HighestCertifiedTimestamp s) + bytes_field (pshct_Signature s)"

definition ws_ashct :: "pb_AttributedSignedHighestCertifiedTimestamp \<Rightarrow> nat" where
  "ws_ashct a = msg_field ws_shct (pashct_SignedHighestCertifiedTimestamp a) + uint_field (pashct_Signer a)"

definition ws_esp :: "pb_EpochStartProof \<Rightarrow> nat" where
  "ws_esp p = msg_field ws_cert (pesp_HighestCertified p) + rep_field ws_ashct (pesp_HighestCertifiedProof p)"

definition ws_so :: "pb_SignedObservation \<Rightarrow> nat" where
  "ws_so so = bytes_field (pso_Observation so) + bytes_field (pso_Signature so)"

definition ws_aso :: "pb_AttributedSignedObservation \<Rightarrow> nat" where
  "ws_aso aso = msg_field ws_so (paso_SignedObservation aso) + uint_field (paso_Observer aso)"

fun ws_Msg :: "pb_oneof_Msg \<Rightarrow> nat" where
  "ws_Msg (WrNewEpochWish m) = oneof_field 2 (\<lambda>m. case m of PbMessageNewEpochWish e \<Rightarrow> uint_field e) m"
| "ws_Msg (WrEpochStartRequest m) =
     oneof_field 2 (\<lambda>m. case m of PbMessageEpochStartRequest e hc shct \<Rightarrow>
       uint_field e + msg_field ws_cert hc + msg_field ws_shct shct) m"
| "ws_Msg (WrEpochStart m) =
     oneof_field 2 (\<lambda>m. case m of PbMessageEpochStart e esp \<Rightarrow> uint_field e + msg_field ws_esp esp) m"
| "ws_Msg (WrRoundStart m) =
     oneof_field 2 (\<lambda>m. case m of PbMessageRoundStart e s q \<Rightarrow> uint_field e + uint_field s + bytes_field q) m"
| "ws_Msg (WrObservation m) =
     oneof_field 2 (\<lambda>m. case m of PbMessageObservation e s so \<Rightarrow> uint_field e + uint_field s + msg_field ws_so so) m"
| "ws_Msg (WrProposal m) =
     oneof_field 2 (\<lambda>m. case m of PbMessageProposal e s asos \<Rightarrow> uint_field e + uint_field s + rep_field ws_aso asos) m"
| "ws_Msg (WrPrepare m) =
     oneof_field 2 (\<lambda>m. case m of PbMessagePrepare e s sig \<Rightarrow> uint_field e + uint_field s + bytes_field sig) m"
| "ws_Msg (WrCommit m) =
     oneof_field 2 (\<lambda>m. case m of PbMessageCommit e s sig \<Rightarrow> uint_field e + uint_field s + bytes_field sig) m"
| "ws_Msg (WrReportSignatures m) =
     oneof_field 2 (\<lambda>m. case m of PbMessageReportSignatures s sigs \<Rightarrow> uint_field s + rep_bytes_field sigs) m"
| "ws_Msg (WrCertifiedCommitRequest m) =
     oneof_field 2 (\<lambda>m. case m of PbMessageCertifiedCommitRequest s \<Rightarrow> uint_field s) m"
| "ws_Msg (WrCertifiedCommit m) =
     oneof_field 2 (\<lambda>m. case m of PbMessageCertifiedCommit cc \<Rightarrow> msg_field ws_commit cc) m"

definition wire_size :: "MessageWrapper \<Rightarrow> nat" where
  "wire_size w = (case wr_Msg w of None \<Rightarrow> 0 | Some m \<Rightarrow> ws_Msg m)"

section \<open>Bounds for the parts of messages\<close>

lemma ws_sig_le: "length sig = 64 \<Longrightarrow> ws_sig \<lparr>pas_Signature = sig, pas_Signer = ucast (i :: u8)\<rparr> \<le> 69"
  using bytes_field_le [of sig 64 1] uint_field_ucast(1) [of i] by (simp add: ws_sig_def)

lemma ws_shct_le: "length (shct_Signature s) = 64 \<Longrightarrow> ws_shct (signedHighestCertifiedTimestampToProtoMessage s) \<le> 81"
  using msg_field_le [of ws_hct _ 13 1] bytes_field_le [of "shct_Signature s" 64 1] uint_field_u64 bool_field_le
  by (auto simp: ser_defs ws_shct_def ws_hct_def intro!: add_mono [of _ 15 _ 66, simplified] add_mono [of _ 11 _ 2, simplified])

lemma ws_ashct_le:
  "length (shct_Signature (ashct_SignedHighestCertifiedTimestamp a)) = 64 \<Longrightarrow>
     ws_ashct (attributedSignedHighestCertifiedTimestampToProtoMessage a) \<le> 86"
  using msg_field_le [of ws_shct "signedHighestCertifiedTimestampToProtoMessage (ashct_SignedHighestCertifiedTimestamp a)" 81 1]
    ws_shct_le [of "ashct_SignedHighestCertifiedTimestamp a"] uint_field_ucast(1) [of "ashct_Signer a"]
  by (simp add: ws_ashct_def attributedSignedHighestCertifiedTimestampToProtoMessage_def)

lemma ws_so_le:
  assumes "length (so_Observation so) \<le> L" "L < 128 ^ k" "0 < k" "length (so_Signature so) = 64"
  shows "ws_so (signedObservationToProtoMessage so) \<le> L + 67 + k"
  using bytes_field_le [of "so_Observation so" L k] bytes_field_le [of "so_Signature so" 64 1] assms
  by (simp add: ws_so_def signedObservationToProtoMessage_def)

lemma ws_aso_le:
  assumes "length (so_Observation (aso_SignedObservation aso)) \<le> L" "L \<le> 1048576"
    "length (so_Signature (aso_SignedObservation aso)) = 64"
  shows "ws_aso (attributedSignedObservationToProtoMessage aso) \<le> L + 77"
proof -
  have "ws_so (signedObservationToProtoMessage (aso_SignedObservation aso)) \<le> L + 70"
    using ws_so_le [of "aso_SignedObservation aso" L 3] assms by simp
  then have "msg_field ws_so (Some (signedObservationToProtoMessage (aso_SignedObservation aso))) \<le> L + 74"
    using msg_field_le [of ws_so _ "L + 70" 3] assms(2) by fastforce
  then show ?thesis
    using uint_field_ucast(1) [of "aso_Observer aso"]
    by (simp add: ws_aso_def attributedSignedObservationToProtoMessage_def)
qed

lemma rep_sigs_le:
  assumes "list_all (\<lambda>s. length (sig s) = 64) ss"
  shows "rep_field ws_sig (map (\<lambda>s. Some \<lparr>pas_Signature = sig s, pas_Signer = ucast (signer s :: u8)\<rparr>) ss) \<le> length ss * 71"
  using rep_field_le [of "map (\<lambda>s. \<lparr>pas_Signature = sig s, pas_Signer = ucast (signer s)\<rparr>) ss" ws_sig 69 1] assms
  by (auto simp: comp_def list_all_iff ws_sig_le)

lemma ws_commit_le:
  assumes "CertifiedCommit_CheckSize cc n f limits m" "byzquorum_Size n f = int q" "q \<le> 31"
    and "lim_MaxOutcomeLength limits = int L" "L \<le> 5242880"
  shows "ws_commit (CertifiedCommitToProtoMessage cc) \<le> 27 + L + 71 * q"
proof -
  have "length (cmt_Outcome cc) \<le> L \<and> length (cmt_CommitQuorumCertificate cc) \<le> q \<and>
      list_all (\<lambda>acs. length (acs_Signature acs) = 64) (cmt_CommitQuorumCertificate cc)"
    using assms by (auto simp: CertifiedCommit_CheckSize_def CertifiedCommit_IsGenesis_def ed25519_SignatureSize_def split: if_splits)
  then show ?thesis
    using rep_sigs_le [of acs_Signature "cmt_CommitQuorumCertificate cc" acs_Signer] bytes_field_le [of "cmt_Outcome cc" L 4]
      uint_field_u64 [of "cmt_CommitEpoch cc"] uint_field_u64 [of "cmt_SeqNr cc"] assms(5)
    by (simp add: ws_commit_def CertifiedCommitToProtoMessage_def attributedCommitSignatureToProto_def [abs_def])
qed

lemma ws_prepare_le:
  assumes "CertifiedPrepare_CheckSize cp n f limits m" "byzquorum_Size n f = int q" "q \<le> 31"
    and "lim_MaxOutcomeLength limits = int L" "L \<le> 5242880" "length (cp_OutcomeInputsDigest cp) = 32"
  shows "ws_cert (CertifiedPrepareOrCommitToProtoMessage (CertPrepare cp)) \<le> 66 + L + 71 * q"
proof -
  let ?c = "\<lparr>pcp_PrepareEpoch = cp_PrepareEpoch cp, pcp_SeqNr = cp_SeqNr cp,
        pcp_OutcomeInputsDigest = cp_OutcomeInputsDigest cp, pcp_Outcome = cp_Outcome cp,
        pcp_PrepareQuorumCertificate = map attributedPrepareSignatureToProto (cp_PrepareQuorumCertificate cp)\<rparr>"
  have "length (cp_Outcome cp) \<le> L \<and> length (cp_PrepareQuorumCertificate cp) = q \<and>
      list_all (\<lambda>aps. length (aps_Signature aps) = 64) (cp_PrepareQuorumCertificate cp)"
    using assms by (auto simp: CertifiedPrepare_CheckSize_def ed25519_SignatureSize_def split: if_splits)
  then have "ws_prepare ?c \<le> 61 + L + 71 * q"
    using rep_sigs_le [of aps_Signature "cp_PrepareQuorumCertificate cp" aps_Signer] bytes_field_le [of "cp_Outcome cp" L 4]
      uint_field_u64 [of "cp_PrepareEpoch cp"] uint_field_u64 [of "cp_SeqNr cp"] assms(5,6)
      bytes_field_le [of "cp_OutcomeInputsDigest cp" 32 1]
    by (simp add: ws_prepare_def attributedPrepareSignatureToProto_def [abs_def])
  then show ?thesis using oneof_field_le [of ws_prepare ?c "61 + L + 71 * q" 4 1] assms(3,5) by simp
qed

lemma ws_cert_le:
  assumes "cert_CheckSize hc n f limits m" "cert_digest_ok hc" "byzquorum_Size n f = int q" "q \<le> 31"
    and "lim_MaxOutcomeLength limits = int L" "L \<le> 5242880"
  shows "ws_cert (CertifiedPrepareOrCommitToProtoMessage hc) \<le> 66 + L + 71 * q"
proof (cases hc)
  case (CertCommit cc)
  then show ?thesis
    using ws_commit_le [of cc n f limits m q L] assms oneof_field_le [of ws_commit "CertifiedCommitToProtoMessage cc" "27 + L + 71 * q" 4 1]
    by simp
qed (use assms ws_prepare_le in simp)

lemma ws_esp_le:
  assumes "cert_CheckSize (esp_HighestCertified esp) n f limits m" "cert_digest_ok (esp_HighestCertified esp)"
    and "byzquorum_Size n f = int q" "q \<le> 31" "lim_MaxOutcomeLength limits = int L" "L \<le> 5242880"
    and "length (esp_HighestCertifiedProof esp) = q"
    and "list_all (\<lambda>ashct. length (shct_Signature (ashct_SignedHighestCertifiedTimestamp ashct)) = 64) (esp_HighestCertifiedProof esp)"
  shows "ws_esp (epochStartProofToProtoMessage esp) \<le> 71 + L + 159 * q"
proof -
  have "msg_field ws_cert (Some (CertifiedPrepareOrCommitToProtoMessage (esp_HighestCertified esp))) \<le> 71 + L + 71 * q"
    using ws_cert_le [OF assms(1-6)] assms(4,6)
      msg_field_le [of ws_cert "CertifiedPrepareOrCommitToProtoMessage (esp_HighestCertified esp)" "66 + L + 71 * q" 4] by simp
  moreover have "rep_field ws_ashct (map Some (map attributedSignedHighestCertifiedTimestampToProtoMessage
      (esp_HighestCertifiedProof esp))) \<le> q * 88"
    using rep_field_le [of "map attributedSignedHighestCertifiedTimestampToProtoMessage (esp_HighestCertifiedProof esp)" ws_ashct 86 1]
      assms(7,8) by (auto simp: list_all_iff ws_ashct_le)
  ultimately show ?thesis by (simp add: ws_esp_def epochStartProofToProtoMessage_def)
qed

section \<open>Messages that pass the size check fit the limits\<close>

text \<open>The sums that \<open>ocr3limits\<close> computes without an overflow.\<close>

lemma ocr3_lens_Inr:
  assumes "ocr3_lens cfg limits maxSigLen = Inr lens"
  shows "lens =
      \<lparr>maxLenMsgNewEpoch = 256,
       maxLenMsgEpochStartRequest = 74 * ByzQuorumSize cfg + lim_MaxOutcomeLength limits + 512,
       maxLenMsgEpochStart = 148 * ByzQuorumSize cfg + lim_MaxOutcomeLength limits + 512,
       maxLenMsgRoundStart = lim_MaxQueryLength limits + 256,
       maxLenMsgObservation = lim_MaxObservationLength limits + 256,
       maxLenMsgProposal = (lim_MaxObservationLength limits + 74) * cfg_N cfg + 256,
       maxLenMsgPrepare = 256, maxLenMsgCommit = 256,
       maxLenMsgReportSignatures = (maxSigLen + 10) * lim_MaxReportCount limits + 256,
       maxLenMsgCertifiedCommitRequest = 256,
       maxLenMsgCertifiedCommit = 74 * ByzQuorumSize cfg + lim_MaxOutcomeLength limits + 512\<rparr> \<and>
     0 \<le> maxSigLen + 10 \<and> maxSigLen + 10 \<le> 2147483647 \<and> (maxSigLen + 10) * lim_MaxReportCount limits \<le> 2147483647"
  using assms unfolding ocr3_lens_def Let_def
  by (elim bindG_InrE) (clarsimp simp: lim_add_Inr lim_mul_Inr ed25519_SignatureSize_def algebra_simps)

lemma ocr3limits_Inr:
  assumes "ocr3limits cfg limits maxSigLen = Inr (ne, lens)"
  shows "ocr3_lens cfg limits maxSigLen = Inr lens"
    and "len \<in> {maxLenMsgNewEpoch lens, maxLenMsgEpochStartRequest lens, maxLenMsgEpochStart lens, maxLenMsgRoundStart lens,
      maxLenMsgObservation lens, maxLenMsgProposal lens, maxLenMsgPrepare lens, maxLenMsgCommit lens,
      maxLenMsgReportSignatures lens, maxLenMsgCertifiedCommitRequest lens, maxLenMsgCertifiedCommit lens} \<Longrightarrow>
      len \<le> ne_MaxMessageLength ne"
proof -
  from assms have lens: "ocr3_lens cfg limits maxSigLen = Inr lens"
    and ne: "ne_MaxMessageLength ne = lim_max (maxLenMsgNewEpoch lens)
      [maxLenMsgEpochStartRequest lens, maxLenMsgEpochStart lens, maxLenMsgRoundStart lens, maxLenMsgObservation lens,
       maxLenMsgProposal lens, maxLenMsgPrepare lens, maxLenMsgCommit lens, maxLenMsgReportSignatures lens,
       maxLenMsgCertifiedCommitRequest lens, maxLenMsgCertifiedCommit lens]"
    unfolding ocr3limits_def by (elim bindG_InrE; auto)+
  show "ocr3_lens cfg limits maxSigLen = Inr lens" by (fact lens)
  assume "len \<in> {maxLenMsgNewEpoch lens, maxLenMsgEpochStartRequest lens, maxLenMsgEpochStart lens, maxLenMsgRoundStart lens,
      maxLenMsgObservation lens, maxLenMsgProposal lens, maxLenMsgPrepare lens, maxLenMsgCommit lens,
      maxLenMsgReportSignatures lens, maxLenMsgCertifiedCommitRequest lens, maxLenMsgCertifiedCommit lens}"
  then show "len \<le> ne_MaxMessageLength ne" unfolding ne by (intro lim_max_ge) simp
qed

text \<open>The size of each message, with the fields spelt out.\<close>

lemma wire_size_simps:
  "wire_size (toProtoMessage (ToPacemaker (MessageNewEpochWish e))) = delimited 2 (uint_field e)"
  "wire_size (toProtoMessage (ToOutcomeGeneration (MessageEpochStartRequest e hc shct))) =
     delimited 2 (uint_field e + msg_field ws_cert (Some (CertifiedPrepareOrCommitToProtoMessage hc)) +
       msg_field ws_shct (Some (signedHighestCertifiedTimestampToProtoMessage shct)))"
  "wire_size (toProtoMessage (ToOutcomeGeneration (MessageEpochStart e esp))) =
     delimited 2 (uint_field e + msg_field ws_esp (Some (epochStartProofToProtoMessage esp)))"
  "wire_size (toProtoMessage (ToOutcomeGeneration (MessageRoundStart e s query))) =
     delimited 2 (uint_field e + uint_field s + bytes_field query)"
  "wire_size (toProtoMessage (ToOutcomeGeneration (MessageObservation e s so))) =
     delimited 2 (uint_field e + uint_field s + msg_field ws_so (Some (signedObservationToProtoMessage so)))"
  "wire_size (toProtoMessage (ToOutcomeGeneration (MessageProposal e s asos))) =
     delimited 2 (uint_field e + uint_field s + rep_field ws_aso (map Some (map attributedSignedObservationToProtoMessage asos)))"
  "wire_size (toProtoMessage (ToOutcomeGeneration (MessagePrepare e s sig))) =
     delimited 2 (uint_field e + uint_field s + bytes_field sig)"
  "wire_size (toProtoMessage (ToOutcomeGeneration (MessageCommit e s sig))) =
     delimited 2 (uint_field e + uint_field s + bytes_field sig)"
  "wire_size (toProtoMessage (ToReportAttestation (MessageReportSignatures s sigs))) =
     delimited 2 (uint_field s + rep_bytes_field sigs)"
  "wire_size (toProtoMessage (ToReportAttestation (MessageCertifiedCommitRequest s))) = delimited 2 (uint_field s)"
  "wire_size (toProtoMessage (ToReportAttestation (MessageCertifiedCommit cc))) =
     delimited 2 (msg_field ws_commit (Some (CertifiedCommitToProtoMessage cc)))"
  by (simp_all add: wire_size_def toProtoMessage_def oneof_field_def)

lemma EpochStartRequest_fits:
  assumes "mog_CheckSize (MessageEpochStartRequest e hc shct) n f limits m" "cert_digest_ok hc"
    and "byzquorum_Size n f = int q" "q \<le> 31" "lim_MaxOutcomeLength limits = int L" "L \<le> 5242880"
  shows "wire_size (toProtoMessage (ToOutcomeGeneration (MessageEpochStartRequest e hc shct))) \<le> 74 * q + L + 512"
proof -
  have c: "ws_cert (CertifiedPrepareOrCommitToProtoMessage hc) \<le> 66 + L + 71 * q"
    using assms by (intro ws_cert_le [of hc n f limits m]) (auto split: if_splits)
  have s: "ws_shct (signedHighestCertifiedTimestampToProtoMessage shct) \<le> 81"
    using assms(1) by (intro ws_shct_le) (auto simp: ed25519_SignatureSize_def split: if_splits)
  have b: "uint_field e + msg_field ws_cert (Some (CertifiedPrepareOrCommitToProtoMessage hc)) +
      msg_field ws_shct (Some (signedHighestCertifiedTimestampToProtoMessage shct)) \<le> 165 + L + 71 * q"
    using msg_field_le [of ws_cert _ "66 + L + 71 * q" 4, OF c] msg_field_le [of ws_shct _ 81 1, OF s] uint_field_u64 [of e]
      assms(4,6) by simp
  show ?thesis unfolding wire_size_simps
    by (rule order.trans [OF delimited_le [where k = 4, OF b]]) (use assms(4,6) in simp_all)
qed

lemma EpochStart_fits:
  assumes "mog_CheckSize (MessageEpochStart e esp) n f limits m" "cert_digest_ok (esp_HighestCertified esp)"
    and "byzquorum_Size n f = int q" "q \<le> 31" "lim_MaxOutcomeLength limits = int L" "L \<le> 5242880"
  shows "wire_size (toProtoMessage (ToOutcomeGeneration (MessageEpochStart e esp))) \<le> 148 * q + L + 512"
proof -
  have c: "ws_esp (epochStartProofToProtoMessage esp) \<le> 71 + L + 159 * q"
    using assms by (intro ws_esp_le [of esp n f limits m]) (auto simp: ed25519_SignatureSize_def split: if_splits)
  have b: "uint_field e + msg_field ws_esp (Some (epochStartProofToProtoMessage esp)) \<le> 87 + L + 159 * q"
    using msg_field_le [of ws_esp _ "71 + L + 159 * q" 4, OF c] uint_field_u64 [of e] assms(4,6) by simp
  show ?thesis unfolding wire_size_simps
    by (rule order.trans [OF delimited_le [where k = 4, OF b]]) (use assms(4,6) in simp_all)
qed

lemma CertifiedCommit_fits:
  assumes "CertifiedCommit_CheckSize cc n f limits m"
    and "byzquorum_Size n f = int q" "q \<le> 31" "lim_MaxOutcomeLength limits = int L" "L \<le> 5242880"
  shows "wire_size (toProtoMessage (ToReportAttestation (MessageCertifiedCommit cc))) \<le> 74 * q + L + 512"
proof -
  have b: "msg_field ws_commit (Some (CertifiedCommitToProtoMessage cc)) \<le> 32 + L + 71 * q"
    using msg_field_le [of ws_commit _ "27 + L + 71 * q" 4, OF ws_commit_le [OF assms]] assms(3,5) by simp
  show ?thesis unfolding wire_size_simps
    by (rule order.trans [OF delimited_le [where k = 4, OF b]]) (use assms(3,5) in simp_all)
qed

lemma Proposal_fits:
  assumes "mog_CheckSize (MessageProposal e s asos) n f limits m"
    and "n = int N" "N \<le> 31" "lim_MaxObservationLength limits = int L" "L \<le> 1048576"
  shows "wire_size (toProtoMessage (ToOutcomeGeneration (MessageProposal e s asos))) \<le> (L + 74) * N + 256"
proof -
  have len: "length asos \<le> N" using assms(1,2) by (auto split: if_splits)
  have "\<forall>aso \<in> set asos. ws_aso (attributedSignedObservationToProtoMessage aso) \<le> L + 77"
    using assms by (auto simp: list_all_iff ed25519_SignatureSize_def split: if_splits intro!: ws_aso_le)
  then have "rep_field ws_aso (map Some (map attributedSignedObservationToProtoMessage asos)) \<le> length asos * (L + 81)"
    using rep_field_le [of "map attributedSignedObservationToProtoMessage asos" ws_aso "L + 77" 3] assms(5) by (simp add: add.commute)
  also have "\<dots> \<le> N * (L + 81)" using len by simp
  finally have b: "uint_field e + uint_field s +
      rep_field ws_aso (map Some (map attributedSignedObservationToProtoMessage asos)) \<le> 22 + N * (L + 81)"
    using uint_field_u64 [of e] uint_field_u64 [of s] by simp
  have "N * (L + 81) \<le> 31 * 1048657" using assms(3,5) by (intro mult_le_mono) simp_all
  then show ?thesis unfolding wire_size_simps
    by (intro order.trans [OF delimited_le [where k = 4, OF b]]) (use assms(3) in \<open>simp_all add: algebra_simps\<close>)
qed

lemma ReportSignatures_fits:
  assumes "length sigs \<le> c" "\<forall>sig \<in> set sigs. length sig \<le> m" "(m + 10) * c \<le> 2147483647" "m \<le> 2147483647"
  shows "wire_size (toProtoMessage (ToReportAttestation (MessageReportSignatures s sigs))) \<le> (m + 10) * c + 256"
proof -
  have "rep_bytes_field sigs \<le> length sigs * (m + 6)"
    using rep_bytes_field_le [of sigs m 5] assms by (simp add: add.commute)
  also have "\<dots> \<le> c * (m + 10)" using assms(1) by (intro mult_le_mono) simp_all
  finally have b: "uint_field s + rep_bytes_field sigs \<le> 11 + (m + 10) * c"
    using uint_field_u64 [of s] by (simp add: mult.commute)
  show ?thesis unfolding wire_size_simps
    by (rule order.trans [OF delimited_le [where k = 5, OF b]]) (use assms(3) in simp_all)
qed

lemma RoundStart_fits:
  assumes "length query \<le> L" "L \<le> 5242880"
  shows "wire_size (toProtoMessage (ToOutcomeGeneration (MessageRoundStart e s query))) \<le> L + 256"
proof -
  have b: "uint_field e + uint_field s + bytes_field query \<le> 27 + L"
    using bytes_field_le [OF assms(1), of 4] uint_field_u64 [of e] uint_field_u64 [of s] assms(2) by simp
  show ?thesis unfolding wire_size_simps
    by (rule order.trans [OF delimited_le [where k = 4, OF b]]) (use assms(2) in simp_all)
qed

lemma Observation_fits:
  assumes "length (so_Observation so) \<le> L" "L \<le> 1048576" "length (so_Signature so) = 64"
  shows "wire_size (toProtoMessage (ToOutcomeGeneration (MessageObservation e s so))) \<le> L + 256"
proof -
  have "ws_so (signedObservationToProtoMessage so) \<le> L + 70" using ws_so_le [of so L 3] assms by simp
  then have b: "uint_field e + uint_field s + msg_field ws_so (Some (signedObservationToProtoMessage so)) \<le> 96 + L"
    using msg_field_le [of ws_so "signedObservationToProtoMessage so" "L + 70" 3] assms(2) uint_field_u64 [of e]
      uint_field_u64 [of s] by simp
  show ?thesis unfolding wire_size_simps
    by (rule order.trans [OF delimited_le [where k = 4, OF b]]) (use assms(2) in simp_all)
qed

lemma short_messages_fit:
  assumes "length sig = 64"
  shows "wire_size (toProtoMessage (ToPacemaker (MessageNewEpochWish e))) \<le> 256"
    and "wire_size (toProtoMessage (ToOutcomeGeneration (MessagePrepare e s sig))) \<le> 256"
    and "wire_size (toProtoMessage (ToOutcomeGeneration (MessageCommit e s sig))) \<le> 256"
    and "wire_size (toProtoMessage (ToReportAttestation (MessageCertifiedCommitRequest s))) \<le> 256"
proof -
  have "delimited 2 (uint_field e + uint_field s + bytes_field sig) \<le> 2 + 1 + 88"
    using bytes_field_le [of sig 64 1] assms uint_field_u64 [of e] uint_field_u64 [of s] by (intro delimited_le) simp_all
  moreover have "delimited 2 (uint_field x) \<le> 2 + 1 + 11" for x :: u64
    using uint_field_u64 [of x] by (intro delimited_le) simp_all
  ultimately show "wire_size (toProtoMessage (ToPacemaker (MessageNewEpochWish e))) \<le> 256"
    "wire_size (toProtoMessage (ToOutcomeGeneration (MessagePrepare e s sig))) \<le> 256"
    "wire_size (toProtoMessage (ToOutcomeGeneration (MessageCommit e s sig))) \<le> 256"
    "wire_size (toProtoMessage (ToReportAttestation (MessageCertifiedCommitRequest s))) \<le> 256"
    unfolding wire_size_simps by (force intro: order.trans)+
qed

lemma quorum_le_31:
  assumes "cfg_ok cfg"
  obtains q where "ByzQuorumSize cfg = int q" "q \<le> 31"
proof -
  have "0 < ByzQuorumSize cfg" "ByzQuorumSize cfg \<le> 31"
    using ByzQuorumSize_positive [OF assms] bq.available [of "cfg_F cfg" "cfg_N cfg"] assms
    by (auto simp: cfg_ok_def ByzQuorumSize_def MaxOracles_def)
  then show ?thesis using that [of "nat (ByzQuorumSize cfg)"] by simp
qed

text \<open>A negative length of signatures leaves room for none.\<close>

lemma signatures_fit:
  assumes "length sigs \<le> c" "\<forall>sig \<in> set sigs. int (length sig) \<le> m" "0 \<le> m + 10" "m + 10 \<le> 2147483647"
    and "(m + 10) * int c \<le> 2147483647"
  shows "int (wire_size (toProtoMessage (ToReportAttestation (MessageReportSignatures s sigs)))) \<le> (m + 10) * int c + 256"
proof (cases "0 \<le> m")
  case True
  then obtain k where k: "m = int k" by (metis nonneg_int_cases)
  have "(k + 10) * c \<le> 2147483647"
    using assms(5) unfolding k by (simp flip: of_nat_le_iff [where 'a = int])
  then have "wire_size (toProtoMessage (ToReportAttestation (MessageReportSignatures s sigs))) \<le> (k + 10) * c + 256"
    using assms unfolding k by (intro ReportSignatures_fits) simp_all
  then show ?thesis unfolding k by (simp flip: of_nat_le_iff [where 'a = int])
next
  case False
  then have "sigs = []" using assms(2) by (cases sigs) auto
  then have "wire_size (toProtoMessage (ToReportAttestation (MessageReportSignatures s sigs))) \<le> 256"
    using ReportSignatures_fits [of sigs 0 0 s] by simp
  moreover have "0 \<le> (m + 10) * int c" using assms(3) by simp
  ultimately show ?thesis by linarith
qed

lemma checked_messages_fit:
  assumes "cfg_ok cfg" "validateOCR3ReportingPluginLimits limits" "ocr3_lens cfg limits maxSigLen = Inr lens"
    and "Message_CheckSize msg (cfg_N cfg) (cfg_F cfg) limits maxSigLen" "message_digest_ok msg"
    and "\<And>len. len \<in> {maxLenMsgNewEpoch lens, maxLenMsgEpochStartRequest lens, maxLenMsgEpochStart lens,
      maxLenMsgRoundStart lens, maxLenMsgObservation lens, maxLenMsgProposal lens, maxLenMsgPrepare lens,
      maxLenMsgCommit lens, maxLenMsgReportSignatures lens, maxLenMsgCertifiedCommitRequest lens,
      maxLenMsgCertifiedCommit lens} \<Longrightarrow> len \<le> M"
  shows "int (wire_size (toProtoMessage msg)) \<le> M"
proof -
  obtain q where q: "ByzQuorumSize cfg = int q" "q \<le> 31" using quorum_le_31 [OF assms(1)] .
  then have q': "byzquorum_Size (cfg_N cfg) (cfg_F cfg) = int q" by (simp add: ByzQuorumSize_def)
  obtain Lq Lo Lu c where L: "lim_MaxQueryLength limits = int Lq" "Lq \<le> 5242880" "lim_MaxObservationLength limits = int Lo"
      "Lo \<le> 1048576" "lim_MaxOutcomeLength limits = int Lu" "Lu \<le> 5242880" "lim_MaxReportCount limits = int c"
    using assms(2) that [of "nat (lim_MaxQueryLength limits)" "nat (lim_MaxObservationLength limits)"
      "nat (lim_MaxOutcomeLength limits)" "nat (lim_MaxReportCount limits)"]
    by (auto simp: validateOCR3ReportingPluginLimits_def ocr3_MaxMax_defs)
  obtain N where N: "cfg_N cfg = int N" "N \<le> 31" using assms(1) by (auto simp: cfg_N_def cfg_ok_def MaxOracles_def)
  have max: "256 \<le> M" "74 * int q + int Lu + 512 \<le> M" "148 * int q + int Lu + 512 \<le> M" "int Lq + 256 \<le> M"
      "int Lo + 256 \<le> M" "(int Lo + 74) * int N + 256 \<le> M" "(maxSigLen + 10) * int c + 256 \<le> M"
    and sig: "0 \<le> maxSigLen + 10" "maxSigLen + 10 \<le> 2147483647" "(maxSigLen + 10) * int c \<le> 2147483647"
    using ocr3_lens_Inr [OF assms(3)] assms(6) unfolding q(1) N(1) L by simp_all
  show ?thesis
  proof (cases msg rule: toProtoMsg.cases)
    case (1 e)
    then show ?thesis using short_messages_fit(1) [of "replicate 64 0" e] max(1) by simp
  next
    case (2 e hc shct)
    then have "wire_size (toProtoMessage msg) \<le> 74 * q + Lu + 512"
      using assms(4,5) unfolding 2 by (intro EpochStartRequest_fits [OF _ _ q' q(2) L(5,6)]) simp_all
    then show ?thesis using max(2) by simp
  next
    case (3 e esp)
    then have "wire_size (toProtoMessage msg) \<le> 148 * q + Lu + 512"
      using assms(4,5) unfolding 3 by (intro EpochStart_fits [OF _ _ q' q(2) L(5,6)]) simp_all
    then show ?thesis using max(3) by simp
  next
    case (4 e s query)
    then show ?thesis using RoundStart_fits [of query Lq e s] assms(4) L(1,2) max(4) by simp
  next
    case (5 e s so)
    then show ?thesis using Observation_fits [of so Lo e s] assms(4) L(3,4) max(5) by (simp add: ed25519_SignatureSize_def)
  next
    case (6 e s asos)
    then have "wire_size (toProtoMessage msg) \<le> (Lo + 74) * N + 256"
      using Proposal_fits [of e s asos "cfg_N cfg" "cfg_F cfg" limits maxSigLen, OF _ N L(3,4)] assms(4) by simp
    then have "int (wire_size (toProtoMessage msg)) \<le> int ((Lo + 74) * N + 256)" by (simp only: of_nat_le_iff)
    then show ?thesis using max(6) by simp
  next
    case (7 e s sig)
    then show ?thesis using short_messages_fit(2) [of sig e s] assms(4) max(1) by (simp add: ed25519_SignatureSize_def)
  next
    case (8 e s sig)
    then show ?thesis using short_messages_fit(3) [of sig e s] assms(4) max(1) by (simp add: ed25519_SignatureSize_def)
  next
    case (9 s sigs)
    then have "int (wire_size (toProtoMessage msg)) \<le> (maxSigLen + 10) * int c + 256"
      using signatures_fit [of sigs c maxSigLen s] assms(4) sig L(7) by (auto simp: list_all_iff split: if_splits)
    then show ?thesis using max(7) by simp
  next
    case (10 s)
    then show ?thesis using short_messages_fit(4) [of "replicate 64 0" s] max(1) by simp
  next
    case (11 cc)
    then show ?thesis
      using CertifiedCommit_fits [of cc "cfg_N cfg" "cfg_F cfg" limits maxSigLen, OF _ q' q(2) L(5,6)] assms(4) max(2) by simp
  qed
qed

section \<open>What an endpoint sends\<close>

text \<open>What is relied on of protobuf beyond \<open>proto_inverse\<close>: the documented sizes.\<close>

definition proto_sized :: "(MessageWrapper \<Rightarrow> bytes option) \<Rightarrow> bool" where
  "proto_sized Marshal \<longleftrightarrow> (\<forall>w b. Marshal w = Some b \<longrightarrow> length b = wire_size w)"

definition endpoint_of :: "'a PublicConfig_scheme \<Rightarrow> ReportingPluginLimits \<Rightarrow> int \<Rightarrow> ocr3_endpoint" where
  "endpoint_of cfg limits maxSigLen =
     \<lparr>ep_n = cfg_N cfg, ep_f = cfg_F cfg, ep_pluginLimits = limits, ep_maxSigLen = maxSigLen\<rparr>"

text \<open>C24: Whatever the endpoint of an OCR3 oracle sends is short enough for the network and arrives. For an
  accepted configuration and valid plugin limits, the limit on messages that the oracle asks of the network
  is not below the size of any message that passes the size check of the endpoint; and the endpoint of every
  other oracle, which has the same configuration and limits, receives it as the same message.\<close>

theorem endpoint_messages_fit_and_arrive:
  assumes "checkPublicConfigParameters cfg = None" "validateOCR3ReportingPluginLimits limits"
    and "OCR3Limits cfg limits maxSigLen = Inr ne"
    and "proto_inverse Marshal Unmarshal" "proto_sized Marshal" "message_digest_ok msg"
    and "sent \<in> set (ep_SendTo Marshal (endpoint_of cfg limits maxSigLen) msg to) \<union>
      set (ep_Broadcast Marshal (endpoint_of cfg limits maxSigLen) msg)"
  shows "\<exists>b. (sent = EpSendTo b to \<or> sent = EpBroadcast b) \<and> int (length b) \<le> ne_MaxMessageLength ne \<and>
    ep_receive Unmarshal (endpoint_of cfg limits maxSigLen) b sender = Some (msg, sender)"
proof -
  obtain lens where lens: "ocr3limits cfg limits maxSigLen = Inr (ne, lens)"
    using assms(3) by (auto simp: OCR3Limits_def bindG_eq_Inr_iff)
  obtain b pbm where b: "ep_serialize Marshal (endpoint_of cfg limits maxSigLen) msg = Some (b, pbm)"
      "sent = EpSendTo b to \<or> sent = EpBroadcast b"
    using assms(7) by (cases "ep_serialize Marshal (endpoint_of cfg limits maxSigLen) msg")
      (auto simp: ep_SendTo_def ep_Broadcast_def)
  from b(1) have check: "Message_CheckSize msg (cfg_N cfg) (cfg_F cfg) limits maxSigLen"
    and ser: "Serialize Marshal msg = Inr (b, pbm)"
    by (auto simp: ep_serialize_def endpoint_of_def split: if_splits sum.splits prod.splits)
  have "int (wire_size (toProtoMessage msg)) \<le> ne_MaxMessageLength ne"
    using checked_messages_fit [OF checkPublicConfigParameters_ok [OF assms(1)] assms(2) ocr3limits_Inr(1) [OF lens] check assms(6)
      ocr3limits_Inr(2) [OF lens]] .
  moreover have "length b = wire_size (toProtoMessage msg)"
    using ser assms(5) by (auto simp: Serialize_def proto_sized_def Let_def split: option.splits)
  moreover have "Deserialize Unmarshal b = Inr (msg, pbm)"
    using assms(4) ser message_roundtrip [OF assms(6)]
    by (auto simp: Serialize_def Deserialize_def proto_inverse_def Let_def split: option.splits)
  ultimately show ?thesis
    using b(2) check by (auto simp: ep_receive_def ep_deserialize_def endpoint_of_def)
qed

text \<open>A proposal with one observation, sent to oracle 3.\<close>

definition ep_ex_limits :: ReportingPluginLimits where
  "ep_ex_limits = \<lparr>lim_MaxQueryLength = 100, lim_MaxObservationLength = 200, lim_MaxOutcomeLength = 300,
     lim_MaxReportLength = 400, lim_MaxReportCount = 5\<rparr>"

definition ep_ex_msg :: Message where
  "ep_ex_msg = ToOutcomeGeneration (MessageProposal 4 5
     [\<lparr>aso_SignedObservation = \<lparr>so_Observation = [6, 7], so_Signature = replicate 64 8\<rparr>, aso_Observer = 2\<rparr>])"

definition ep_ex_marshal :: "MessageWrapper \<Rightarrow> bytes option" where
  "ep_ex_marshal w = (if w = toProtoMessage ep_ex_msg then Some (replicate (wire_size w) 1) else None)"

definition ep_ex_unmarshal :: "bytes \<Rightarrow> MessageWrapper option" where
  "ep_ex_unmarshal b = Some (toProtoMessage ep_ex_msg)"

lemma ep_ex_limits_ok: "\<exists>ne. OCR3Limits example_config ep_ex_limits 65 = Inr ne"
  by (simp add: OCR3Limits_def ocr3limits_def ocr3_lens_def lim_add_def lim_mul_def int32_checked_def ep_ex_limits_def
      ed25519_SignatureSize_def)

lemma ep_ex_checked: "Message_CheckSize ep_ex_msg 4 1 ep_ex_limits 65"
  by (simp add: ep_ex_msg_def ep_ex_limits_def ed25519_SignatureSize_def)

theorem endpoint_messages_fit_and_arrive_witness:
  "\<exists>ne. OCR3Limits example_config ep_ex_limits 65 = Inr ne \<and>
     int (length (replicate (wire_size (toProtoMessage ep_ex_msg)) (1::u8))) \<le> ne_MaxMessageLength ne \<and>
     ep_receive ep_ex_unmarshal (endpoint_of example_config ep_ex_limits 65)
       (replicate (wire_size (toProtoMessage ep_ex_msg)) 1) 0 = Some (ep_ex_msg, 0)"
proof -
  obtain ne where ne: "OCR3Limits example_config ep_ex_limits 65 = Inr ne" using ep_ex_limits_ok by blast
  have sent: "EpSendTo (replicate (wire_size (toProtoMessage ep_ex_msg)) 1) 3
      \<in> set (ep_SendTo ep_ex_marshal (endpoint_of example_config ep_ex_limits 65) ep_ex_msg 3) \<union>
        set (ep_Broadcast ep_ex_marshal (endpoint_of example_config ep_ex_limits 65) ep_ex_msg)"
    using ep_ex_checked by (simp add: ep_SendTo_def ep_serialize_def endpoint_of_def Serialize_def ep_ex_marshal_def Let_def)
  have "\<exists>b. (EpSendTo (replicate (wire_size (toProtoMessage ep_ex_msg)) 1) 3 = EpSendTo b 3 \<or>
        EpSendTo (replicate (wire_size (toProtoMessage ep_ex_msg)) 1) 3 = EpBroadcast b) \<and>
      int (length b) \<le> ne_MaxMessageLength ne \<and>
      ep_receive ep_ex_unmarshal (endpoint_of example_config ep_ex_limits 65) b 0 = Some (ep_ex_msg, 0)"
  proof (rule endpoint_messages_fit_and_arrive [OF _ _ ne _ _ _ sent])
    show "checkPublicConfigParameters example_config = None"
      by (simp add: checkPublicConfigParameters_def) (simp add: example_config_def MaxOracles_def)
    show "validateOCR3ReportingPluginLimits ep_ex_limits"
      by (simp add: validateOCR3ReportingPluginLimits_def ep_ex_limits_def ocr3_MaxMax_defs)
    show "proto_inverse ep_ex_marshal ep_ex_unmarshal" "proto_sized ep_ex_marshal" "message_digest_ok ep_ex_msg"
      by (auto simp: proto_inverse_def proto_sized_def ep_ex_marshal_def ep_ex_unmarshal_def ep_ex_msg_def split: if_splits)
  qed
  then show ?thesis using ne by auto
qed

end
