(* ===== verification/ConfigTracking.thy ===== *)
theory ConfigTracking
  imports PublicConfig
begin

text \<open>
  How an oracle finds its configuration and runs the protocol with it: polling the contract
  (\<open>managed/track_config.go\<close>), checking the digest (\<open>config_digest.go\<close>), and switching from one configuration
  to the next (\<open>run_with_contract_config.go\<close>, \<open>load_from_database.go\<close>). The two goroutines are the steps of one
  system, joined by a channel of capacity 5.
\<close>

section \<open>Checking the digest\<close>

definition ConfigDigestPrefixFromConfigDigest :: "bytes \<Rightarrow> 16 word" where
  "ConfigDigestPrefixFromConfigDigest configDigest = of_nat (256 * unat (configDigest ! 0) + unat (configDigest ! 1))"

definition IsPrefixOf :: "16 word \<Rightarrow> bytes \<Rightarrow> bool" where
  "IsPrefixOf prefix configDigest \<longleftrightarrow> prefix = ConfigDigestPrefixFromConfigDigest configDigest"

text \<open>The digester of the chain is a parameter; None is an error.\<close>

record config_digester =
  cd_ConfigDigestPrefix :: "16 word option"
  cd_ConfigDigest :: "ContractConfig \<Rightarrow> bytes option"

definition prefixCheck_ConfigDigest :: "config_digester \<Rightarrow> ContractConfig \<Rightarrow> bytes option" where
  "prefixCheck_ConfigDigest d cc =
     (case cd_ConfigDigestPrefix d of
        None \<Rightarrow> None
      | Some prefix \<Rightarrow>
          (case cd_ConfigDigest d cc of
             None \<Rightarrow> None
           | Some cd \<Rightarrow> if \<not> IsPrefixOf prefix cd then None else Some cd))"

definition CheckContractConfig :: "config_digester \<Rightarrow> ContractConfig \<Rightarrow> bool" where
  "CheckContractConfig d cc =
     (case prefixCheck_ConfigDigest d cc of
        None \<Rightarrow> False
      | Some goodConfigDigest \<Rightarrow> \<not> goodConfigDigest \<noteq> cc_ConfigDigest cc)"

section \<open>Polling the contract\<close>

text \<open>The environment: the tracker of the contract, each answer a function of the number of earlier polls, the
  local configuration, and what the database returns when the oracle starts.\<close>

record tracking_env =
  te_LatestBlockHeight :: "nat \<Rightarrow> u64 option"
  te_LatestConfigDetails :: "nat \<Rightarrow> (u64 \<times> bytes) option"
  te_LatestConfig :: "nat \<Rightarrow> u64 \<Rightarrow> ContractConfig option"
  te_digester :: config_digester
  te_SkipContractConfigConfirmations :: bool
  te_ContractConfigConfirmations :: "16 word"
  te_ContractConfigTrackerPollInterval :: int
  te_ReadConfig :: "ContractConfig option"
  te_WriteConfig :: "nat \<Rightarrow> bool"

abbreviation zero_ConfigDigest :: bytes where "zero_ConfigDigest \<equiv> replicate 32 0"

text \<open>The result is the configuration to change to, and whether a change awaits confirmation.\<close>

definition checkLatestConfigDetails :: "tracking_env \<Rightarrow> nat \<Rightarrow> bytes \<Rightarrow> ContractConfig option \<times> bool" where
  "checkLatestConfigDetails env k configDigest =
     (case te_LatestBlockHeight env k of
        None \<Rightarrow> (None, False)
      | Some blockheight \<Rightarrow>
     (case te_LatestConfigDetails env k of
        None \<Rightarrow> (None, False)
      | Some (changedInBlock, latestConfigDigest) \<Rightarrow>
          if latestConfigDigest = zero_ConfigDigest then (None, False)
          else if configDigest = latestConfigDigest then (None, False)
          else if \<not> te_SkipContractConfigConfirmations env \<and>
             blockheight < changedInBlock + ucast (te_ContractConfigConfirmations env) - 1 then (None, True)
          else
     (case te_LatestConfig env k changedInBlock of
        None \<Rightarrow> (None, True)
      | Some contractConfig \<Rightarrow>
          if latestConfigDigest \<noteq> cc_ConfigDigest contractConfig then (None, False)
          else if \<not> CheckContractConfig (te_digester env) contractConfig then (None, False)
          else (Some contractConfig, False))))"

text \<open>The loop of \<open>TrackConfig\<close> selects, or waits to send a change.\<close>

datatype tk_pc = TkSelect | TkSend ContractConfig

text \<open>What happens to the function that runs the protocol, and what is written to the database.\<close>

datatype rw_log = RwStarted ContractConfig | RwStopped | RwReturned | RwWrote ContractConfig bool

record rwcc_state =
  tk_pc :: tk_pc
  tk_due :: int
  tk_notify :: bool
  tk_configDigest :: bytes
  tk_polls :: nat
  rw_chNewConfig :: "ContractConfig list"
  rw_configDigest :: bytes
  rw_running :: "ContractConfig option"
  rw_writes :: nat
  rw_log :: "rw_log list"

definition rw_emit :: "rw_log \<Rightarrow> rwcc_state \<Rightarrow> rwcc_state" where
  "rw_emit l st = st\<lparr>rw_log := rw_log st @ [l]\<rparr>"

text \<open>Cancelling the running function and waiting for it.\<close>

definition rw_stop :: "rwcc_state \<Rightarrow> rwcc_state" where
  "rw_stop st = (if rw_running st = None then st else rw_emit RwStopped (st\<lparr>rw_running := None\<rparr>))"

definition configChanged :: "tracking_env \<Rightarrow> ContractConfig \<Rightarrow> rwcc_state \<Rightarrow> rwcc_state" where
  "configChanged env contractConfig st =
     (let st = rw_stop st
      in if \<not> CheckContractConfig (te_digester env) contractConfig then st
         else
           let st = st\<lparr>rw_configDigest := cc_ConfigDigest contractConfig\<rparr>;
               st = rw_emit (RwStarted contractConfig) (st\<lparr>rw_running := Some contractConfig\<rparr>)
           in rw_emit (RwWrote contractConfig (te_WriteConfig env (rw_writes st))) (st\<lparr>rw_writes := rw_writes st + 1\<rparr>))"

text \<open>None covers a database that times out, fails, or has no configuration.\<close>

definition rw_restoreFromDatabase :: "tracking_env \<Rightarrow> rwcc_state \<Rightarrow> rwcc_state" where
  "rw_restoreFromDatabase env st =
     (case te_ReadConfig env of None \<Rightarrow> st | Some contractConfig \<Rightarrow> configChanged env contractConfig st)"

definition rw_start :: "tracking_env \<Rightarrow> int \<Rightarrow> rwcc_state" where
  "rw_start env now =
     (let st = rw_restoreFromDatabase env
            \<lparr>tk_pc = TkSelect, tk_due = now, tk_notify = True, tk_configDigest = zero_ConfigDigest, tk_polls = 0, rw_chNewConfig = [],
             rw_configDigest = zero_ConfigDigest, rw_running = None, rw_writes = 0, rw_log = []\<rparr>
      in st\<lparr>tk_configDigest := rw_configDigest st\<rparr>)"

section \<open>Steps\<close>

definition tk_notified :: "bool \<Rightarrow> int \<Rightarrow> rwcc_state \<Rightarrow> rwcc_state" where
  "tk_notified ok now st = (if ok then st\<lparr>tk_due := now\<rparr> else st\<lparr>tk_notify := False\<rparr>)"

definition tk_poll :: "tracking_env \<Rightarrow> int \<Rightarrow> rwcc_state \<Rightarrow> rwcc_state" where
  "tk_poll env now st =
     (let (change, awaitingConfirmation) = checkLatestConfigDetails env (tk_polls st) (tk_configDigest st);
          wait = (if awaitingConfirmation then min 15000000000 (te_ContractConfigTrackerPollInterval env)
                  else te_ContractConfigTrackerPollInterval env);
          st = st\<lparr>tk_polls := tk_polls st + 1, tk_due := now + wait\<rparr>
      in case change of
           None \<Rightarrow> st
         | Some change \<Rightarrow> st\<lparr>tk_configDigest := cc_ConfigDigest change, tk_pc := TkSend change\<rparr>)"

text \<open>The cases: a notification by the tracker, its timer, the hand-over of a change to the channel, the receipt
  of a change by the other goroutine, and the protocol returning by itself.\<close>

datatype rw_case = TkNotify bool int | TkTimer int | TkSent | RwChange | RwReturn

fun rw_ready :: "rwcc_state \<Rightarrow> rw_case \<Rightarrow> bool" where
  "rw_ready st (TkNotify ok now) \<longleftrightarrow> tk_pc st = TkSelect \<and> tk_notify st"
| "rw_ready st (TkTimer now) \<longleftrightarrow> tk_pc st = TkSelect \<and> tk_due st \<le> now"
| "rw_ready st TkSent \<longleftrightarrow> tk_pc st \<noteq> TkSelect \<and> length (rw_chNewConfig st) < 5"
| "rw_ready st RwChange \<longleftrightarrow> rw_chNewConfig st \<noteq> []"
| "rw_ready st RwReturn \<longleftrightarrow> rw_running st \<noteq> None"

fun rw_process :: "tracking_env \<Rightarrow> rw_case \<Rightarrow> rwcc_state \<Rightarrow> rwcc_state" where
  "rw_process env (TkNotify ok now) st = tk_notified ok now st"
| "rw_process env (TkTimer now) st = tk_poll env now st"
| "rw_process env TkSent st =
     (case tk_pc st of
        TkSend change \<Rightarrow> st\<lparr>tk_pc := TkSelect, rw_chNewConfig := rw_chNewConfig st @ [change]\<rparr>
      | TkSelect \<Rightarrow> st)"
| "rw_process env RwChange st =
     (case rw_chNewConfig st of
        [] \<Rightarrow> st
      | change # rest \<Rightarrow> configChanged env change (st\<lparr>rw_chNewConfig := rest\<rparr>))"
| "rw_process env RwReturn st = rw_emit RwReturned (st\<lparr>rw_running := None\<rparr>)"

inductive rw_reach :: "tracking_env \<Rightarrow> int \<Rightarrow> rwcc_state \<Rightarrow> bool" for env now where
  rw_init: "rw_reach env now (rw_start env now)"
| rw_step: "rw_reach env now st \<Longrightarrow> rw_ready st c \<Longrightarrow> rw_reach env now (rw_process env c st)"

section \<open>What is run\<close>

text \<open>The configurations the protocol was started with, and the one that runs according to the log.\<close>

fun started :: "rw_log list \<Rightarrow> ContractConfig list" where
  "started [] = []"
| "started (RwStarted cc # ls) = cc # started ls"
| "started (l # ls) = started ls"

fun rw_alternates :: "ContractConfig option \<Rightarrow> rw_log list \<Rightarrow> bool" where
  "rw_alternates running [] = True"
| "rw_alternates running (RwStarted cc # ls) = (running = None \<and> rw_alternates (Some cc) ls)"
| "rw_alternates running (RwWrote cc ok # ls) = rw_alternates running ls"
| "rw_alternates running (l # ls) = (running \<noteq> None \<and> rw_alternates None ls)"

fun rw_after :: "ContractConfig option \<Rightarrow> rw_log list \<Rightarrow> ContractConfig option" where
  "rw_after running [] = running"
| "rw_after running (RwStarted cc # ls) = rw_after (Some cc) ls"
| "rw_after running (RwWrote cc ok # ls) = rw_after running ls"
| "rw_after running (l # ls) = rw_after None ls"

lemma started_append [simp]: "started (ls @ ls') = started ls @ started ls'"
  by (induction ls rule: started.induct) simp_all

lemma rw_alternates_append:
  "rw_alternates running (ls @ ls') \<longleftrightarrow> rw_alternates running ls \<and> rw_alternates (rw_after running ls) ls'"
  by (induction running ls rule: rw_alternates.induct) simp_all

lemma rw_after_append [simp]: "rw_after running (ls @ ls') = rw_after (rw_after running ls) ls'"
  by (induction running ls rule: rw_after.induct) simp_all

text \<open>The changes on their way from the tracker to the runner.\<close>

definition rw_pending :: "rwcc_state \<Rightarrow> ContractConfig list" where
  "rw_pending st = rw_chNewConfig st @ (case tk_pc st of TkSelect \<Rightarrow> [] | TkSend cc \<Rightarrow> [cc])"

text \<open>Digests of all configurations found so far, the restored one first, in order.\<close>

definition rw_digests :: "rwcc_state \<Rightarrow> bytes list" where
  "rw_digests st = map cc_ConfigDigest (started (rw_log st) @ rw_pending st)"

definition rw_inv :: "tracking_env \<Rightarrow> rwcc_state \<Rightarrow> bool" where
  "rw_inv env st \<longleftrightarrow>
     rw_alternates None (rw_log st) \<and> rw_after None (rw_log st) = rw_running st \<and>
     list_all (CheckContractConfig (te_digester env)) (started (rw_log st) @ rw_pending st) \<and>
     successively (\<noteq>) (rw_digests st) \<and>
     tk_configDigest st = (if rw_digests st = [] then zero_ConfigDigest else last (rw_digests st)) \<and>
     rw_configDigest st = (if started (rw_log st) = [] then zero_ConfigDigest else cc_ConfigDigest (last (started (rw_log st)))) \<and>
     length (rw_chNewConfig st) \<le> 5"

lemma rw_stop_facts:
  "rw_alternates None (rw_log st) \<Longrightarrow> rw_after None (rw_log st) = rw_running st \<Longrightarrow>
     rw_alternates None (rw_log (rw_stop st)) \<and> rw_after None (rw_log (rw_stop st)) = None"
  "rw_running (rw_stop st) = None" "started (rw_log (rw_stop st)) = started (rw_log st)"
  "tk_pc (rw_stop st) = tk_pc st" "tk_configDigest (rw_stop st) = tk_configDigest st"
  "rw_chNewConfig (rw_stop st) = rw_chNewConfig st" "rw_configDigest (rw_stop st) = rw_configDigest st"
  by (auto simp: rw_stop_def rw_emit_def rw_alternates_append)

lemma configChanged_checked:
  assumes "CheckContractConfig (te_digester env) cc"
  shows "started (rw_log (configChanged env cc st)) = started (rw_log st) @ [cc]"
    and "rw_running (configChanged env cc st) = Some cc"
    and "tk_pc (configChanged env cc st) = tk_pc st" "tk_configDigest (configChanged env cc st) = tk_configDigest st"
    and "rw_chNewConfig (configChanged env cc st) = rw_chNewConfig st"
    and "rw_configDigest (configChanged env cc st) = cc_ConfigDigest cc"
  using assms by (simp_all add: configChanged_def Let_def rw_emit_def rw_stop_facts)

lemma configChanged_alternates:
  assumes "rw_alternates None (rw_log st)" "rw_after None (rw_log st) = rw_running st"
  shows "rw_alternates None (rw_log (configChanged env cc st)) \<and>
    rw_after None (rw_log (configChanged env cc st)) = rw_running (configChanged env cc st)"
  using rw_stop_facts(1) [OF assms] by (simp add: configChanged_def Let_def rw_emit_def rw_stop_facts rw_alternates_append)

lemma checkLatestConfigDetails_Some:
  assumes "checkLatestConfigDetails env k cd = (Some cc, awaiting)"
  shows "CheckContractConfig (te_digester env) cc" "cc_ConfigDigest cc \<noteq> cd" "cc_ConfigDigest cc \<noteq> zero_ConfigDigest"
  using assms by (auto simp: checkLatestConfigDetails_def split: option.splits if_splits prod.splits)

lemma rw_start_inv: "rw_inv env (rw_start env now)"
proof (cases "te_ReadConfig env")
  case None
  then show ?thesis by (simp add: rw_start_def rw_restoreFromDatabase_def rw_inv_def rw_digests_def rw_pending_def Let_def)
next
  case (Some cc)
  then show ?thesis
    by (cases "CheckContractConfig (te_digester env) cc")
      (simp_all add: rw_start_def rw_restoreFromDatabase_def rw_inv_def rw_digests_def rw_pending_def Let_def configChanged_def
        rw_stop_def rw_emit_def)
qed

lemma successively_snoc: "successively P (xs @ [y]) \<longleftrightarrow> successively P xs \<and> (xs \<noteq> [] \<longrightarrow> P (last xs) y)"
  by (cases xs rule: rev_cases) (auto simp: successively_append_iff)

lemma tk_poll_cases:
  assumes "tk_pc st = TkSelect" "checkLatestConfigDetails env (tk_polls st) (tk_configDigest st) = (change, awaiting)"
  shows "rw_log (tk_poll env now st) = rw_log st" "rw_configDigest (tk_poll env now st) = rw_configDigest st" "rw_running (tk_poll env now st) = rw_running st"
    and "rw_chNewConfig (tk_poll env now st) = rw_chNewConfig st"
    and "rw_pending (tk_poll env now st) = rw_pending st @ (case change of None \<Rightarrow> [] | Some cc \<Rightarrow> [cc])"
    and "tk_configDigest (tk_poll env now st) = (case change of None \<Rightarrow> tk_configDigest st | Some cc \<Rightarrow> cc_ConfigDigest cc)"
  using assms by (simp_all add: tk_poll_def rw_pending_def Let_def split: option.splits)

lemma tk_poll_inv:
  assumes "rw_inv env st" "tk_pc st = TkSelect"
  shows "rw_inv env (tk_poll env now st)"
proof -
  obtain change awaiting where poll: "checkLatestConfigDetails env (tk_polls st) (tk_configDigest st) = (change, awaiting)"
    by (cases "checkLatestConfigDetails env (tk_polls st) (tk_configDigest st)")
  note facts = tk_poll_cases [OF assms(2) poll]
  show ?thesis
  proof (cases change)
    case None
    then have "rw_digests (tk_poll env now st) = rw_digests st" by (simp add: rw_digests_def facts)
    then show ?thesis using assms(1) None unfolding rw_inv_def by (simp add: facts)
  next
    case (Some cc)
    then have cc: "CheckContractConfig (te_digester env) cc" "cc_ConfigDigest cc \<noteq> tk_configDigest st"
      using checkLatestConfigDetails_Some [of env "tk_polls st" "tk_configDigest st" cc awaiting] poll by auto
    have d: "rw_digests (tk_poll env now st) = rw_digests st @ [cc_ConfigDigest cc]"
      using Some by (simp add: rw_digests_def facts)
    show ?thesis
      using assms(1) cc Some unfolding rw_inv_def d by (auto simp: facts successively_snoc)
  qed
qed

lemma RwChange_inv:
  assumes "rw_inv env st" "rw_chNewConfig st = cc # rest"
  shows "rw_inv env (configChanged env cc (st\<lparr>rw_chNewConfig := rest\<rparr>))"
proof -
  let ?st = "st\<lparr>rw_chNewConfig := rest\<rparr>"
  have ok: "CheckContractConfig (te_digester env) cc"
    using assms by (simp add: rw_inv_def rw_pending_def)
  note changed = configChanged_checked [OF ok, of ?st, simplified]
  have p: "started (rw_log (configChanged env cc ?st)) @ rw_pending (configChanged env cc ?st) =
      started (rw_log st) @ rw_pending st"
    using assms(2) by (simp add: rw_pending_def changed)
  have alt: "rw_alternates None (rw_log (configChanged env cc ?st)) \<and>
      rw_after None (rw_log (configChanged env cc ?st)) = rw_running (configChanged env cc ?st)"
    using assms(1) by (intro configChanged_alternates) (simp_all add: rw_inv_def)
  show ?thesis
    using assms alt unfolding rw_inv_def rw_digests_def p by (simp add: changed)
qed

lemma rw_reach_inv: "rw_reach env now st \<Longrightarrow> rw_inv env st"
proof (induction rule: rw_reach.induct)
  case rw_init
  show ?case by (rule rw_start_inv)
next
  case (rw_step st c)
  note inv = rw_step.IH and ready = rw_step.hyps(2)
  show ?case
  proof (cases c)
    case (TkNotify ok now')
    then show ?thesis using inv by (simp add: tk_notified_def rw_inv_def rw_digests_def rw_pending_def)
  next
    case (TkTimer now')
    then show ?thesis using inv ready tk_poll_inv by simp
  next
    case TkSent
    then show ?thesis
      using inv ready by (cases "tk_pc st") (simp_all add: rw_inv_def rw_digests_def rw_pending_def)
  next
    case RwChange
    then show ?thesis using inv ready RwChange_inv by (cases "rw_chNewConfig st") simp_all
  next
    case RwReturn
    then show ?thesis
      using inv ready by (simp add: rw_inv_def rw_digests_def rw_pending_def rw_emit_def rw_alternates_append)
  qed
qed

text \<open>C27: An oracle runs the protocol with checked configurations, one at a time. Whatever the contract and
  the database answer and however the two goroutines interleave, every configuration the protocol is started
  with has the digest that the oracle computes for it, with the prefix of its chain; one run is stopped or has
  returned before the next one starts; and no two runs in a row have the same digest.\<close>

theorem checked_configs_run_one_at_a_time:
  assumes "rw_reach env now st"
  shows "(\<forall>cc \<in> set (started (rw_log st)). CheckContractConfig (te_digester env) cc) \<and>
    rw_alternates None (rw_log st) \<and> rw_running st = rw_after None (rw_log st) \<and>
    successively (\<noteq>) (map cc_ConfigDigest (started (rw_log st)))"
  using rw_reach_inv [OF assms]
  by (auto simp: rw_inv_def rw_digests_def successively_append_iff list_all_iff)

section \<open>Convergence\<close>

text \<open>From poll number \<open>K\<close> on, the contract has a confirmed configuration.\<close>

definition stable_from :: "tracking_env \<Rightarrow> nat \<Rightarrow> ContractConfig \<Rightarrow> bool" where
  "stable_from env K cc \<longleftrightarrow>
     cc_ConfigDigest cc \<noteq> zero_ConfigDigest \<and> CheckContractConfig (te_digester env) cc \<and>
     (\<forall>k \<ge> K. \<exists>blockheight changedInBlock.
        te_LatestBlockHeight env k = Some blockheight \<and>
        te_LatestConfigDetails env k = Some (changedInBlock, cc_ConfigDigest cc) \<and>
        te_LatestConfig env k changedInBlock = Some cc \<and>
        (te_SkipContractConfigConfirmations env \<or>
         \<not> blockheight < changedInBlock + ucast (te_ContractConfigConfirmations env) - 1))"

lemma stable_poll:
  assumes "stable_from env K cc" "K \<le> k"
  shows "checkLatestConfigDetails env k cd = ((if cd = cc_ConfigDigest cc then None else Some cc), False)"
  using assms by (auto simp: stable_from_def checkLatestConfigDetails_def)

lemma rw_frame:
  "rw_ready st c \<Longrightarrow> (\<And>now'. c \<noteq> TkTimer now') \<Longrightarrow>
     tk_polls (rw_process env c st) = tk_polls st \<and> tk_configDigest (rw_process env c st) = tk_configDigest st"
  by (cases c) (auto simp: tk_notified_def configChanged_def rw_stop_def rw_emit_def Let_def split: tk_pc.splits list.splits)

lemma polled_digest:
  assumes "stable_from env K cc" "rw_reach env now st" "K < tk_polls st"
  shows "tk_configDigest st = cc_ConfigDigest cc"
  using assms(2,3)
proof (induction rule: rw_reach.induct)
  case rw_init
  have "tk_polls (rw_start env now) = 0"
    by (simp add: rw_start_def rw_restoreFromDatabase_def configChanged_def rw_stop_def rw_emit_def Let_def split: option.splits)
  then show ?case using rw_init by simp
next
  case (rw_step st c)
  show ?case
  proof (cases "\<exists>now'. c = TkTimer now'")
    case False
    then show ?thesis using rw_frame [OF rw_step.hyps(2), of env] rw_step.IH rw_step.prems by auto
  next
    case True
    then obtain now' where c: "c = TkTimer now'" by blast
    have "K \<le> tk_polls st" using rw_step.prems c by (simp add: tk_poll_def Let_def split: prod.splits option.splits)
    then show ?thesis
      using tk_poll_cases(6) [OF _ stable_poll [OF assms(1)], of st now'] rw_step.hyps(2) c
      by (cases "tk_configDigest st = cc_ConfigDigest cc") simp_all
  qed
qed

definition rw_distance :: "rwcc_state \<Rightarrow> nat" where
  "rw_distance st = length (rw_chNewConfig st) + (case tk_pc st of TkSelect \<Rightarrow> 0 | TkSend cc \<Rightarrow> 2)"

text \<open>C28: An oracle ends up with the configuration of the contract. Once the contract has a confirmed, valid
  configuration and has been polled since, the oracle either runs with the digest of that configuration, or one
  of the steps that hand over a pending change can be taken; each of these brings it closer, and no other step
  of the system takes it further away.\<close>

theorem config_tracking_converges:
  assumes "stable_from env K cc" "rw_reach env now st" "K < tk_polls st"
  shows "(rw_distance st = 0 \<longrightarrow>
      started (rw_log st) \<noteq> [] \<and> cc_ConfigDigest (last (started (rw_log st))) = cc_ConfigDigest cc \<and>
      rw_configDigest st = cc_ConfigDigest cc) \<and>
    (rw_distance st \<noteq> 0 \<longrightarrow> rw_ready st TkSent \<or> rw_ready st RwChange) \<and>
    (\<forall>c. rw_ready st c \<longrightarrow> rw_distance (rw_process env c st) \<le> rw_distance st \<and>
      (c \<in> {TkSent, RwChange} \<longrightarrow> rw_distance (rw_process env c st) < rw_distance st))"
proof -
  have inv: "rw_inv env st" by (rule rw_reach_inv [OF assms(2)])
  have digest: "tk_configDigest st = cc_ConfigDigest cc" by (rule polled_digest [OF assms])
  have poll: "checkLatestConfigDetails env (tk_polls st) (tk_configDigest st) = (None, False)"
    using stable_poll [OF assms(1), of "tk_polls st"] assms(3) digest by simp
  have "rw_distance st = 0 \<longrightarrow> started (rw_log st) \<noteq> [] \<and>
      cc_ConfigDigest (last (started (rw_log st))) = cc_ConfigDigest cc \<and> rw_configDigest st = cc_ConfigDigest cc"
    using inv digest assms(1)
    by (auto simp: rw_distance_def rw_inv_def rw_digests_def rw_pending_def last_map stable_from_def split: tk_pc.splits if_splits)
  moreover have "rw_distance st \<noteq> 0 \<longrightarrow> rw_ready st TkSent \<or> rw_ready st RwChange"
    by (cases "tk_pc st") (auto simp: rw_distance_def)
  moreover have "rw_distance (rw_process env c st) \<le> rw_distance st \<and>
      (c \<in> {TkSent, RwChange} \<longrightarrow> rw_distance (rw_process env c st) < rw_distance st)" if ready: "rw_ready st c" for c
  proof (cases c)
    case (TkTimer now')
    then show ?thesis using that poll by (simp add: rw_distance_def tk_poll_def Let_def)
  next
    case RwChange
    then obtain x rest where ch: "rw_chNewConfig st = x # rest" using ready RwChange by (cases "rw_chNewConfig st") auto
    then have "CheckContractConfig (te_digester env) x" using inv by (simp add: rw_inv_def rw_pending_def)
    from configChanged_checked [OF this, of "st\<lparr>rw_chNewConfig := rest\<rparr>"] show ?thesis
      using ch RwChange by (simp add: rw_distance_def)
  next
    case TkSent
    then show ?thesis using that by (cases "tk_pc st") (simp_all add: rw_distance_def)
  qed (simp_all add: rw_distance_def tk_notified_def rw_emit_def)
  ultimately show ?thesis by blast
qed

section \<open>Examples\<close>

text \<open>A contract that is configured from the start, with a digester that takes the digest at its word.\<close>

definition ct_ex_config :: ContractConfig where
  "ct_ex_config = \<lparr>cc_ConfigDigest = 0 # 1 # replicate 30 5, cc_ConfigCount = 1, cc_Signers = [], cc_Transmitters = [],
     cc_F = 1, cc_OnchainConfig = [], cc_OffchainConfigVersion = 2, cc_OffchainConfig = []\<rparr>"

definition ct_ex_env :: tracking_env where
  "ct_ex_env = \<lparr>te_LatestBlockHeight = \<lambda>_. Some 100, te_LatestConfigDetails = \<lambda>_. Some (90, cc_ConfigDigest ct_ex_config),
     te_LatestConfig = \<lambda>_ _. Some ct_ex_config,
     te_digester = \<lparr>cd_ConfigDigestPrefix = Some 1, cd_ConfigDigest = \<lambda>cc. Some (cc_ConfigDigest cc)\<rparr>,
     te_SkipContractConfigConfirmations = False, te_ContractConfigConfirmations = 3,
     te_ContractConfigTrackerPollInterval = 60000000000, te_ReadConfig = None, te_WriteConfig = \<lambda>_. True\<rparr>"

definition ct_ex_state :: rwcc_state where
  "ct_ex_state = rw_process ct_ex_env RwChange (rw_process ct_ex_env TkSent (rw_process ct_ex_env (TkTimer 0) (rw_start ct_ex_env 0)))"

lemma ct_ex_nonzero [simp]: "cc_ConfigDigest ct_ex_config \<noteq> zero_ConfigDigest" "zero_ConfigDigest \<noteq> cc_ConfigDigest ct_ex_config"
proof -
  have "cc_ConfigDigest ct_ex_config ! 1 \<noteq> zero_ConfigDigest ! 1" by (simp add: ct_ex_config_def)
  then show "cc_ConfigDigest ct_ex_config \<noteq> zero_ConfigDigest" "zero_ConfigDigest \<noteq> cc_ConfigDigest ct_ex_config" by metis+
qed

lemma ct_ex_checked: "CheckContractConfig (te_digester ct_ex_env) ct_ex_config"
  by (simp add: CheckContractConfig_def prefixCheck_ConfigDigest_def ct_ex_env_def ct_ex_config_def IsPrefixOf_def
      ConfigDigestPrefixFromConfigDigest_def)

lemma ct_ex_stable: "stable_from ct_ex_env 0 ct_ex_config"
  using ct_ex_checked by (simp add: stable_from_def) (simp add: ct_ex_env_def)

lemma ct_ex_start: "rw_start ct_ex_env 0 =
   \<lparr>tk_pc = TkSelect, tk_due = 0, tk_notify = True, tk_configDigest = zero_ConfigDigest, tk_polls = 0, rw_chNewConfig = [],
    rw_configDigest = zero_ConfigDigest, rw_running = None, rw_writes = 0, rw_log = []\<rparr>"
  by (simp add: rw_start_def rw_restoreFromDatabase_def ct_ex_env_def)

lemma ct_ex_state_eq: "ct_ex_state =
   \<lparr>tk_pc = TkSelect, tk_due = 60000000000, tk_notify = True, tk_configDigest = cc_ConfigDigest ct_ex_config, tk_polls = 1,
    rw_chNewConfig = [], rw_configDigest = cc_ConfigDigest ct_ex_config, rw_running = Some ct_ex_config, rw_writes = 1,
    rw_log = [RwStarted ct_ex_config, RwWrote ct_ex_config True]\<rparr>"
proof -
  have poll: "checkLatestConfigDetails ct_ex_env 0 zero_ConfigDigest = (Some ct_ex_config, False)"
    using stable_poll [OF ct_ex_stable, of 0 zero_ConfigDigest] by simp
  show ?thesis
    unfolding ct_ex_state_def ct_ex_start
    by (simp add: tk_poll_def poll configChanged_def ct_ex_checked rw_stop_def rw_emit_def) (simp add: ct_ex_env_def)
qed

lemma ct_ex_reach: "rw_reach ct_ex_env 0 ct_ex_state"
  unfolding ct_ex_state_def
  by (intro rw_step rw_init)
    (simp_all add: ct_ex_start tk_poll_def Let_def stable_poll [OF ct_ex_stable])

theorem checked_configs_run_one_at_a_time_witness:
  "started (rw_log ct_ex_state) = [ct_ex_config] \<and> CheckContractConfig (te_digester ct_ex_env) ct_ex_config"
  using checked_configs_run_one_at_a_time [OF ct_ex_reach] by (simp add: ct_ex_state_eq)

theorem config_tracking_converges_witness:
  "rw_distance ct_ex_state = 0 \<and> rw_configDigest ct_ex_state = cc_ConfigDigest ct_ex_config"
  using config_tracking_converges [OF ct_ex_stable ct_ex_reach] by (simp add: ct_ex_state_eq rw_distance_def)

end
