(* ===== verification/Spec2Isabelle.thy ===== *)
theory Spec2Isabelle
  imports PacemakerNet OutGenAgreement OffchainConfig VerifySignatures Transmission Serialization MedianProps
    Ocr2Network Ocr2Transmission Ocr2Oracle RagePeerLoop RageDiscoProps
    Ocr2Limits Ocr3Endpoint ConfigTracking
begin

text \<open>
  Verification of libocr, the off-chain reporting (OCR) protocol library: a set of \<open>N\<close> oracles, at
  most \<open>F\<close> of them faulty (\<open>3 F < N\<close>), agree on values and attest to reports that are then
  transmitted to a contract. Modelled are the two current protocol generations, OCR3 and OCR2, the
  numerical median plugin that runs on OCR2, the data structures, configurations and encodings they
  use, and the network layer below them, \<open>ragep2p\<close>, with the discovery of peers. Paths below are relative to the source root; \<open>O\<close> stands for
  \<open>offchainreporting2plus/internal\<close>.

  \<^bold>\<open>Conventions.\<close> A record models a struct, a datatype an enumeration or the messages and events of
  an interface type, a word type (\<open>u8\<close>, \<open>u32\<close>, \<open>u64\<close>, \<open>Duration\<close>) an integer at its width, \<open>int\<close>
  a Go \<open>int\<close> where the bounds are proved or the comment says why it does not wrap. Code that may
  panic returns \<open>'a go\<close>, a sum whose left values name the panic (nil dereference, index out of
  range, division by zero, no return). A handler has the type \<open>env => state => state go\<close>: the
  environment holds what lies outside the modelled code (plugin, key rings, database, random source,
  a cancelled context), each answer a function of a call counter in the state, so that it may differ
  from call to call; what a handler sends, persists or signs is appended to a log in the state. Logs
  and counters are ghost fields. An event loop is a case type, a \<open>ready\<close> predicate for the enabled
  branches of the \<open>select\<close>, a \<open>process\<close> function for one branch and an inductive reachability
  predicate; every order of events is a path of it. Loops without a structural bound are
  \<open>partial_function (option)\<close> and proved to return.

  \<^bold>\<open>Shared theories.\<close>
  \<^item> \<open>Prelude\<close>: machine types, panics, Go maps and slices, big-endian words, list and word lemmas.
  \<^item> \<open>ByzQuorum\<close> (\<open>internal/byzquorum\<close>): the quorum size, and the interface \<open>byz_quorum\<close> of quorum
    intersection that the agreement proofs use.
  \<^item> \<open>Pool\<close>, \<open>RingBuffer\<close> (\<open>O/ocr3/protocol/pool\<close>, \<open>ringbuffer\<close>, \<open>messagebuffer.go\<close>): the bounded
    containers for messages, with interfaces \<open>message_pool\<close> and \<open>bounded_queue\<close>. The latter has three
    providers: the ring buffer of OCR3, the message buffer of OCR2 (\<open>Ocr2MessageBuffer\<close>) and that of
    ragep2p (\<open>MsgBuf\<close>).
  \<^item> \<open>ProtoBase\<close>: what the two serializations share, the errors of missing fields and the width of
    oracle identifiers. \<open>ProtoWire\<close>: the documented sizes of the protobuf wire format, for hypotheses.
  \<^item> \<open>NetLimits\<close> (\<open>O/managed/limits\<close>): the checked \<open>int32\<close> arithmetic and the rates of the bandwidth limits.
  \<^item> \<open>ConfigTracking\<close> (\<open>O/managed/track_config.go\<close>, \<open>run_with_contract_config.go\<close>, \<open>config_digest.go\<close>):
    how an oracle polls the contract for its configuration and runs the protocol with it, as a step system
    of the two goroutines.
  \<^item> \<open>MinHeap\<close>, \<open>Scheduler\<close> (\<open>O/ocr3/minheap\<close>, \<open>scheduler\<close>): the heap with the sifting loops of
    \<open>container/heap\<close>, the interface \<open>priority_queue\<close>, and the goroutine that delays items.
  \<^item> \<open>Crypto\<close>: HMAC written out over a hash parameter; hashes and Ed25519 are parameters.
    \<open>GoFloat\<close>: the \<open>float64\<close> operations in use, with rounding. \<open>SliceSort\<close>: \<open>sort.Slice\<close> as the
    interface \<open>slice_sort\<close>, since Go promises no particular algorithm.
  \<^item> \<open>Permutation\<close> (\<open>permutation/permutation.go\<close>): the shuffle with the rejection sampling of
    \<open>math/rand\<close>; the loop is proved to return for streams that are accepted at some point.
  \<^item> \<open>BigBigEndian\<close> (\<open>bigbigendian/serialize.go\<close>): fixed-width signed integers.

  \<^bold>\<open>OCR3.\<close>
  \<^item> \<open>PublicConfig\<close>, \<open>OffchainConfig\<close> (\<open>O/config\<close>, \<open>O/config/ocr3config\<close>): decoding and validating a
    contract configuration, shared secrets, derived keys.
  \<^item> \<open>SignedData\<close> (\<open>signed_data.go\<close>): what is signed, and the verification of prepare and commit
    certificates and of epoch start proofs; the interface \<open>quorum_certificate\<close> is interpreted for
    both certificates. \<open>Messages\<close> (\<open>message.go\<close>): messages, events, size checks.
    \<open>Serialization\<close> (\<open>serialization.go\<close>): messages to protobuf structs and back.
  \<^item> \<open>Pacemaker\<close>, \<open>PacemakerNet\<close> (\<open>pacemaker.go\<close>): the epoch change on \<open>F + 1\<close> and \<open>2 F + 1\<close> wishes,
    for one oracle and for a network with faulty oracles and an adversarial schedule.
  \<^item> \<open>OutGenState\<close>, \<open>OutGenLeader\<close>, \<open>OutGenFollower\<close>, \<open>OutGen\<close> (\<open>outcome_generation*.go\<close>): the agreement
    protocol. \<open>OutGenInv\<close> and \<open>OutGenReach\<close> prove the invariant of one oracle, whatever it receives;
    \<open>OutGenAgreement\<close> draws the conclusions for a set of oracles.
  \<^item> \<open>RepAttState\<close>, \<open>RepAtt\<close>, \<open>RepAttProps\<close>, \<open>VerifySignatures\<close> (\<open>report_attestation.go\<close>): collecting
    \<open>F + 1\<close> signatures on the reports of a committed outcome; the worker goroutines that verify them
    as an interleaving semantics.
  \<^item> \<open>Transmission\<close> (\<open>transmission.go\<close>): the schedule in stages, together with its scheduler.
  \<^item> \<open>Ocr3Limits\<close>, \<open>Ocr3Endpoint\<close> (\<open>O/managed/limits/ocr3_limits.go\<close>, \<open>O/shim/ocr3_serializing_endpoint.go\<close>):
    the limits an oracle asks of the network, and the endpoint that serializes and checks messages.

  \<^bold>\<open>OCR2.\<close>
  \<^item> \<open>Ocr2Config\<close> (\<open>O/config/ocr2config\<close>), \<open>Ocr2Types\<close> (\<open>offchainreporting2plus/types\<close>),
    \<open>Ocr2Messages\<close> (\<open>O/ocr2/protocol/{message,observation,attested_report}.go\<close>).
  \<^item> \<open>Ocr2RepGen\<close> (\<open>report_generation*.go\<close>): a leader asks for observations, then for signatures on the
    report the plugin makes of them. \<open>Ocr2RepGenInv\<close> and \<open>Ocr2RepGenProps\<close>: what one oracle signs, and
    what a correct leader sends.
  \<^item> \<open>Ocr2RepFin\<close> (\<open>report_finalization.go\<close>): deduplication with a bounded memory.
  \<^item> \<open>Ocr2Pacemaker\<close>, \<open>Ocr2Transmission\<close>, \<open>Ocr2Oracle\<close> (\<open>pacemaker.go\<close>, \<open>transmission.go\<close> with
    \<open>heap.go\<close>, \<open>oracle.go\<close> with \<open>messagebuffer.go\<close>).
  \<^item> \<open>Ocr2Plugin\<close> (\<open>O/managed/managed_ocr2_oracle.go\<close>, \<open>O/shim/reporting_plugin.go\<close>): how a plugin is
    mounted. \<open>MedianCodec\<close>, \<open>EvmReportCodec\<close>, \<open>Median\<close>, \<open>MedianProps\<close>
    (\<open>offchainreporting2/reportingplugin/median\<close>): the median plugin.
  \<^item> \<open>Ocr2Agreement\<close>, \<open>Ocr2Network\<close>: the composition of these parts in a network.
  \<^item> \<open>Ocr2Serialization\<close> (\<open>O/ocr2/serialization/serialization.go\<close>): messages to protobuf structs and back.
    \<open>Ocr2Limits\<close> (\<open>O/managed/limits/ocr2_limits.go\<close>): the network limits of OCR2.

  \<^bold>\<open>ragep2p\<close> (\<open>ragep2p\<close>) multiplexes streams of messages over one connection per pair of peers.
  \<^item> \<open>MsgBuf\<close>, \<open>TokenBucket\<close> (\<open>internal/msgbuf\<close>, \<open>internal/ratelimit\<close>): the buffer of a stream, and the
    token bucket with its saturating arithmetic, compared with an ideal bucket on rationals.
  \<^item> \<open>RageFrames\<close> (\<open>frame.go\<close>, \<open>internal/knock\<close>): frame headers, stream identifiers, signed knocks.
  \<^item> \<open>RageDemux\<close> (\<open>demuxer.go\<close>, \<open>Stream.receiveLoop\<close>), \<open>RageLimiter\<close> (\<open>conn_rate_limiter.go\<close>,
    \<open>internal/ratelimitedconn\<close>): incoming messages and the limits of streams and connections.
  \<^item> \<open>RageConn\<close> (the read and write loop of a connection), \<open>RagePeer\<close> (the send loop of a stream),
    \<open>RagePeerLoop\<close> (the loop of a peer, which opens, closes and switches its streams; \<open>NewStream\<close>), all in
    \<open>ragep2p.go\<close>.

  \<^bold>\<open>Peer discovery\<close> (\<open>networking/ragedisco\<close>) finds the addresses of peers by gossip.
  \<^item> \<open>RageAnnounce\<close> (\<open>address.go\<close>, \<open>announcement.go\<close>): signed announcements of addresses.
  \<^item> \<open>RageDisco\<close> (\<open>discovery_protocol.go\<close>, \<open>group.go\<close>, \<open>helpers.go\<close>): the state and every operation on it.
    \<open>RageDiscoInv\<close> proves its invariant: the counters are those of the registered groups, as multisets.
    \<open>RageDiscoProps\<close> draws the conclusions, and adds the goroutines that share the lock as a step system.

  \<^bold>\<open>What is shown.\<close> For OCR3: an oracle never signs two prepares or commits for the same epoch and
  sequence number, until a write of a commit certificate fails; committed outcomes are announced in order and
  after they were written, whatever fails; accepted commit certificates of an epoch and sequence number agree; only valid
  certificates leave an oracle; every attested report carries \<open>F + 1\<close> valid signatures and is attested
  once; transmission waits for its stage; the pacemaker's epochs increase and are backed by wishes of
  correct oracles; a restart resumes where the last successful write left off;
  signed messages determine their content. For OCR2: a report with enough
  signatures contains a median between values that two correct oracles read in that round (through
  the plugin, its codecs, the limits wrapper and the protocol); with the larger quorum the report of a
  round is unique; every round is handed on once; a correct leader's
  final messages are accepted; epochs need a quorum; transmissions keep to the schedule; the message
  buffers implement bounded queues. For ragep2p: frames written by one end of a connection are read back
  by the other; granted traffic is bounded by capacity and rate; the send loop of a stream is a bounded
  queue behind a gate, its receive loop misses no wakeup; the loop of a peer switches a stream on exactly
  when both ends have it open. For peer discovery: connections are asked for exactly as long as a group
  names the peer, the counters are those of the groups, the addresses found for a peer are the configured and the
  announced ones, announcements are kept when verified and only get better, and the lock can deadlock.
  For the limits: a message that passes the OCR3 endpoint fits the limit of the network and arrives as it was
  sent; the limit of OCR2 leaves out the query of a report request, and the other messages fit. For
  configurations: only checked ones run, one at a time and never the same digest twice in a row, and an oracle
  comes to run the configuration of the contract.
  The scheduler refines a delay queue and delivers what is due;
  encodings round trip; accepted configurations are safe; and the panics that messages can cause are
  found where they exist and excluded where they do not.

  \<^bold>\<open>Hypotheses.\<close> Signatures are unforgeable in the sense that a signature that verifies under a correct
  oracle's key was made by it (\<open>reports_unforgeable\<close>, \<open>observations_unforgeable\<close> and their
  counterparts for OCR3); equal hashes come from equal inputs where a property says so; protobuf
  marshalling and the contract ABI packing are inverted by their counterparts, and a marshalled message has
  the documented size; the wire carries an OCR2
  hash of 32 bytes; a key signs what its public key verifies; at most \<open>F\<close> oracles are
  faulty. Agreement within OCR3 assumes that no write of a commit certificate by a correct oracle has
  failed (\<open>commit_writes_ok\<close>), and uniqueness in OCR2 one run of report generation per oracle and epoch; both are
  needed (\<open>failed_commit_write_signs_twice\<close>, \<open>restart_signs_twice\<close>). The witness of each property meets its hypotheses with concrete oracles,
  keys and messages.

  \<^bold>\<open>Bounds and fuel.\<close> One loop has fuel: \<open>unbuffer_loop\<close> of OCR3, with one turn more than there are
  buffered messages, which is proved to be enough by comparison with a relation that has none. The rejection
  sampling of the shuffle and the unbuffering loop of OCR2 are partial functions with proofs that they return; the sifting loops of the heap
  end by a measure. Time is an \<open>int\<close> of nanoseconds, read by the handlers that read the clock.

  \<^bold>\<open>Not modelled.\<close> Generated code (\<open>gethwrappers\<close>, \<open>gethwrappers2\<close>, \<open>*.pb.go\<close> beyond the message
  structs) and the Solidity contracts. Sockets: listening, dialling, TLS and the start and stop of hosts
  and connections in \<open>ragep2p\<close>, the streams of \<open>networking\<close> (\<open>peer_v2.go\<close>, \<open>ocr_endpoint_v2.go\<close>,
  \<open>ragep2p_discoverer.go\<close>), the detection of network interfaces; in the protocol models the network delivers
  any message from the claimed sender. The first protocol generation (\<open>offchainreporting\<close>), which the
  library keeps for old deployments;
  the assembly, start and stop of oracles (the rest of \<open>O/managed\<close>, \<open>subprocesses\<close>), telemetry, metrics and
  logging; the persistence goroutines, which are the write effects of the models; the encoders of test
  configurations (\<open>XXX...\<close>, \<open>confighelper\<close>).
\<close>

end
